(* ===== verification/Hat_Prelude.thy ===== *)
theory Hat_Prelude
  imports
    Complex_Main
    "HOL-Library.Char_ord"
    "HOL-Library.List_Lexorder"
    "HOL-Library.Product_Lexorder"
    "HOL-Library.Sublist"
begin

text \<open>
  Prelude of the HAT development: the collections of simplification rules, the C++ values
  the agents compute with, and the lemmas on lists and strings the components share.

  \<^item> \<open>double\<close> is an exact rational. Every use in HAT is a clock value, a counter or a
    power reading that is compared, added and subtracted; rounding and NaN are not modelled.
  \<^item> \<open>xdouble\<close> adds the \<open>INFINITY\<close> of \<^verbatim>\<open>math.h\<close>, which two components store as a deadline.
  \<^item> \<^verbatim>\<open>std::string\<close> is a list of characters, \<^verbatim>\<open>std::vector\<close> a list. A position
    returned by \<^verbatim>\<open>find\<close> is an option, \<open>None\<close> being \<^verbatim>\<open>npos\<close>.
  \<^item> A local that the code reads before it is written (the target of a failed
    \<^verbatim>\<open>sscanf\<close>) is an extra argument, so that every statement holds for any value
    the memory may have.
\<close>

named_theorems hat_simps \<open>equations that evaluate operations of the model\<close>
named_theorems hat_inv \<open>preservation of invariants\<close>

type_synonym double = rat

datatype xdouble = Fin double | Infinity

fun xless :: "xdouble \<Rightarrow> xdouble \<Rightarrow> bool" where
  "xless (Fin a) (Fin b) = (a < b)"
| "xless (Fin a) Infinity = True"
| "xless Infinity b = False"

fun xadd :: "xdouble \<Rightarrow> double \<Rightarrow> xdouble" where
  "xadd (Fin a) d = Fin (a + d)"
| "xadd Infinity d = Infinity"

text \<open>Conversion of a \<^verbatim>\<open>double\<close> to an integral type drops the fraction.\<close>

definition trunc :: "double \<Rightarrow> int" where
  "trunc x = (if x < 0 then - \<lfloor>- x\<rfloor> else \<lfloor>x\<rfloor>)"

lemma trunc_of_int [simp]: "trunc (of_int i) = i"
  by (simp add: trunc_def flip: of_int_minus)

lemma trunc_mono: "x \<le> y \<Longrightarrow> trunc x \<le> trunc y"
proof -
  assume le: "x \<le> y"
  have 1: "\<lfloor>- y\<rfloor> \<le> \<lfloor>- x\<rfloor>" and 2: "\<lfloor>x\<rfloor> \<le> \<lfloor>y\<rfloor>"
    using le by (auto intro: floor_mono)
  have 3: "x < 0 \<Longrightarrow> 0 \<le> \<lfloor>- x\<rfloor>" and 4: "\<not> y < 0 \<Longrightarrow> 0 \<le> \<lfloor>y\<rfloor>" by auto
  have 5: "x < 0 \<Longrightarrow> \<not> y < 0 \<Longrightarrow> - \<lfloor>- x\<rfloor> \<le> \<lfloor>y\<rfloor>" using 3 4 by linarith
  show ?thesis
    using le 1 2 5 by (auto simp: trunc_def)
qed

subsection \<open>Vectors\<close>

text \<open>\<^verbatim>\<open>v.erase(v.begin()+i)\<close>, for an index in range.\<close>

definition erase_at :: "nat \<Rightarrow> 'a list \<Rightarrow> 'a list" where
  "erase_at i xs = take i xs @ drop (Suc i) xs"

lemma length_erase_at [simp]: "i < length xs \<Longrightarrow> length (erase_at i xs) = length xs - 1"
  by (simp add: erase_at_def)

lemma erase_at_Cons_0 [simp]: "erase_at 0 (x # xs) = xs"
  by (simp add: erase_at_def)

lemma erase_at_Cons_Suc [simp]: "erase_at (Suc i) (x # xs) = x # erase_at i xs"
  by (simp add: erase_at_def)

lemma set_erase_at_subset: "set (erase_at i xs) \<subseteq> set xs"
  unfolding erase_at_def by (auto dest: in_set_takeD in_set_dropD)

lemma erase_at_split:
  "i < length xs \<Longrightarrow> xs = take i xs @ (xs ! i) # drop (Suc i) xs"
  by (simp add: id_take_nth_drop)

subsection \<open>Strings\<close>

fun str_find :: "string \<Rightarrow> string \<Rightarrow> nat option" where
  "str_find p [] = (if p = [] then Some 0 else None)"
| "str_find p (c # cs) =
     (if prefix p (c # cs) then Some 0 else map_option Suc (str_find p cs))"

abbreviation str_contains :: "string \<Rightarrow> string \<Rightarrow> bool" where
  "str_contains s p \<equiv> str_find p s \<noteq> None"

lemma str_find_Some:
  "str_find p s = Some i \<Longrightarrow> i + length p \<le> length s \<and> take (length p) (drop i s) = p"
proof (induction p s arbitrary: i rule: str_find.induct)
  case (1 p)
  then show ?case by (auto split: if_splits)
next
  case (2 p c cs)
  show ?case
  proof (cases "prefix p (c # cs)")
    case True
    with 2(2) have "i = 0" by simp
    moreover from True obtain zs where "c # cs = p @ zs" by (auto simp: prefix_def)
    then have "length p \<le> length (c # cs)" and "take (length p) (c # cs) = p" by simp_all
    ultimately show ?thesis by simp
  next
    case False
    with 2(2) obtain j where "str_find p cs = Some j" "i = Suc j" by auto
    with 2(1) [OF False] show ?thesis by auto
  qed
qed

lemma str_find_append: "str_find p s = Some i \<Longrightarrow> s = take i s @ p @ drop (i + length p) s"
proof -
  assume "str_find p s = Some i"
  from str_find_Some [OF this] have "take (length p) (drop i s) = p" by simp
  then have "drop i s = p @ drop (length p) (drop i s)"
    by (metis append_take_drop_id)
  then show ?thesis
    by (metis append_take_drop_id drop_drop add.commute)
qed

lemma str_find_None: "str_find p s = None \<Longrightarrow> s \<noteq> xs @ p @ ys"
proof (induction s arbitrary: xs)
  case Nil
  then show ?case by (auto split: if_splits)
next
  case (Cons c cs)
  from Cons.prems have np: "\<not> prefix p (c # cs)" and n: "str_find p cs = None"
    by (auto split: if_splits)
  show ?case
  proof (cases xs)
    case Nil
    with np show ?thesis by (auto simp: prefix_def)
  next
    case (Cons x xs')
    with Cons.IH [OF n, of xs'] show ?thesis by simp
  qed
qed

lemma str_find_char_None: "str_find [d] s = None \<longleftrightarrow> d \<notin> set s"
  by (induction s) auto

lemma str_find_char_append: "d \<notin> set xs \<Longrightarrow> str_find [d] (xs @ d # ys) = Some (length xs)"
  by (induction xs) auto

text \<open>A pattern can only start at its first character.\<close>

lemma str_find_head_None: "c \<notin> set s \<Longrightarrow> str_find (c # k) s = None"
  by (induction s) auto

lemma str_find_head_append: "c \<notin> set a \<Longrightarrow> str_find (c # k) (a @ b) = map_option (\<lambda>n. length a + n) (str_find (c # k) b)"
  by (cases "str_find (c # k) b"; induction a) auto

end
