(* ===== verification/Name_List.thy ===== *)
theory Name_List
  imports Hat_Prelude
begin

text \<open>
  \<^verbatim>\<open>src/agents/minilibs/namelist.cpp\<close>: the list of names that the agents build from a
  delimited attribute such as \<^verbatim>\<open>clause="door+window"\<close>. \<open>init\<close> splits, \<open>member\<close> and
  \<open>find\<close> look a name up.
\<close>

type_synonym name_list = "string list"

text \<open>The \<^verbatim>\<open>while\<close> loop of \<^verbatim>\<open>NameList::init\<close> with its trailing \<^verbatim>\<open>if\<close>.\<close>

function split_names :: "char \<Rightarrow> string \<Rightarrow> string list" where
  "split_names d tmp =
     (case str_find [d] tmp of
        Some found \<Rightarrow> take found tmp # split_names d (drop (found + 1) tmp)
      | None \<Rightarrow> if tmp \<noteq> [] then [tmp] else [])"
  by pat_completeness auto
termination
  by (relation "measure (\<lambda>(d, tmp). length tmp)") (auto dest: str_find_Some)

declare split_names.simps [simp del]

text \<open>
  \<^verbatim>\<open>NameList::init\<close> on the vector \<open>old\<close>: the empty string leaves the old contents in
  place and reports false.
\<close>

definition nl_init :: "name_list \<Rightarrow> string \<Rightarrow> char \<Rightarrow> name_list \<times> bool" where
  "nl_init old names delim =
     (if names = '''' then (old, False)
      else let l = split_names delim names in (l, length l > 0))"

definition nl_add :: "name_list \<Rightarrow> string \<Rightarrow> name_list" where
  "nl_add l name = l @ [name]"

fun nl_member :: "name_list \<Rightarrow> string \<Rightarrow> bool" where
  "nl_member [] name = False"
| "nl_member (x # xs) name = (if name = x then True else nl_member xs name)"

fun nl_find_from :: "nat \<Rightarrow> name_list \<Rightarrow> string \<Rightarrow> int" where
  "nl_find_from i [] name = -1"
| "nl_find_from i (x # xs) name = (if name = x then int i else nl_find_from (Suc i) xs name)"

definition nl_find :: "name_list \<Rightarrow> string \<Rightarrow> int" where
  "nl_find l name = nl_find_from 0 l name"

lemma nl_member_iff [simp]: "nl_member l name \<longleftrightarrow> name \<in> set l"
  by (induction l) auto

lemma nl_find_from_spec:
  "nl_find_from i l name = (if name \<in> set l
     then int (i + (LEAST k. k < length l \<and> l ! k = name)) else -1)"
proof (induction l arbitrary: i)
  case Nil
  then show ?case by simp
next
  case (Cons x xs)
  show ?case
  proof (cases "name = x")
    case True
    then have "(LEAST k. k < length (x # xs) \<and> (x # xs) ! k = name) = 0"
      by (intro Least_equality) auto
    with True show ?thesis by simp
  next
    case False
    show ?thesis
    proof (cases "name \<in> set xs")
      case True
      then obtain j where "j < length xs \<and> xs ! j = name" by (auto simp: in_set_conv_nth)
      then have "(LEAST k. k < length (x # xs) \<and> (x # xs) ! k = name)
          = Suc (LEAST k. Suc k < length (x # xs) \<and> (x # xs) ! Suc k = name)"
        using False by (intro Least_Suc [where n = "Suc j"]) auto
      with Cons.IH False True show ?thesis by simp
    next
      case False
      with Cons.IH \<open>name \<noteq> x\<close> show ?thesis by simp
    qed
  qed
qed

lemma nl_find_nonneg [simp]: "0 \<le> nl_find l name \<longleftrightarrow> name \<in> set l"
  by (simp add: nl_find_def nl_find_from_spec)

text \<open>Joining with the delimiter, the inverse that the configuration files rely on.\<close>

fun join_names :: "char \<Rightarrow> string list \<Rightarrow> string" where
  "join_names d [] = []"
| "join_names d [x] = x"
| "join_names d (x # y # ys) = x @ d # join_names d (y # ys)"

lemma split_names_no_delim: "d \<notin> set s \<Longrightarrow> s \<noteq> [] \<Longrightarrow> split_names d s = [s]"
  by (subst split_names.simps) (simp add: str_find_char_None [THEN iffD2])

lemma split_names_step: "d \<notin> set x \<Longrightarrow> split_names d (x @ d # rest) = x # split_names d rest"
  by (subst split_names.simps) (simp add: str_find_char_append)

lemma split_names_join:
  assumes "\<forall>x \<in> set names. d \<notin> set x" and "names \<noteq> []" and "last names \<noteq> []"
  shows "split_names d (join_names d names) = names"
  using assms
proof (induction d names rule: join_names.induct)
  case (1 d)
  then show ?case by simp
next
  case (2 d x)
  then show ?case by (simp add: split_names_no_delim)
next
  case (3 d x y ys)
  then show ?case by (simp add: split_names_step)
qed

lemma split_names_delim_free: "x \<in> set (split_names d s) \<Longrightarrow> d \<notin> set x"
proof (induction d s rule: split_names.induct)
  case (1 d s)
  show ?case
  proof (cases "str_find [d] s")
    case None
    with "1.prems" show ?thesis
      by (subst (asm) split_names.simps) (auto simp: str_find_char_None split: if_splits)
  next
    case (Some i)
    have "d \<notin> set (take i s)"
    proof
      assume "d \<in> set (take i s)"
      then obtain k where k: "k < i" "k < length s" "s ! k = d"
        by (auto simp: in_set_conv_nth)
      from Some k show False
      proof (induction s arbitrary: i k)
        case Nil
        then show ?case by simp
      next
        case (Cons c cs)
        then show ?case by (cases k) (auto split: if_splits)
      qed
    qed
    with "1.IH" [OF Some] "1.prems" Some show ?thesis
      by (subst (asm) split_names.simps) auto
  qed
qed

text \<open>\<open>NameList::init\<close> recovers exactly the names that were joined with the
  delimiter, in order, when no name contains the delimiter and the last one is not empty.\<close>

lemma nl_init_join:
  assumes "\<forall>x \<in> set names. d \<notin> set x" and "names \<noteq> []" and "last names \<noteq> []"
  shows "nl_init old (join_names d names) d = (names, True)"
proof -
  have "join_names d names \<noteq> []"
    using assms(2,3) by (induction d names rule: join_names.induct) auto
  with split_names_join [OF assms] assms(2) show ?thesis
    by (simp add: nl_init_def)
qed

end
