(* ===== verification/Std_Map.thy ===== *)
theory Std_Map
  imports Hat_Prelude
begin

text \<open>
  The part of \<^verbatim>\<open>std::map\<close> the agents use, as an association list in key order:
  iteration is list order, \<open>sm_put\<close> is \<^verbatim>\<open>m[k] = v\<close>, \<open>sm_insert\<close> is
  \<^verbatim>\<open>m.insert(pair(k, v))\<close>, which keeps the value of a key that is already there,
  \<open>sm_erase\<close> is \<^verbatim>\<open>m.erase(k)\<close>. The locale \<open>std_map\<close> is the contract the
  client components rely on.
\<close>

type_synonym ('k, 'v) smap = "('k \<times> 'v) list"

fun sm_find :: "('k, 'v) smap \<Rightarrow> 'k \<Rightarrow> 'v option" where
  "sm_find [] k = None"
| "sm_find ((a, b) # m) k = (if k = a then Some b else sm_find m k)"

fun sm_put :: "'k::linorder \<Rightarrow> 'v \<Rightarrow> ('k, 'v) smap \<Rightarrow> ('k, 'v) smap" where
  "sm_put k v [] = [(k, v)]"
| "sm_put k v ((a, b) # m) =
     (if k < a then (k, v) # (a, b) # m
      else if k = a then (k, v) # m
      else (a, b) # sm_put k v m)"

definition sm_insert :: "'k::linorder \<Rightarrow> 'v \<Rightarrow> ('k, 'v) smap \<Rightarrow> ('k, 'v) smap" where
  "sm_insert k v m = (if sm_find m k = None then sm_put k v m else m)"

definition sm_erase :: "'k \<Rightarrow> ('k, 'v) smap \<Rightarrow> ('k, 'v) smap" where
  "sm_erase k m = filter (\<lambda>(a, b). a \<noteq> k) m"

definition sm_count :: "('k, 'v) smap \<Rightarrow> 'k \<Rightarrow> nat" where
  "sm_count m k = (if sm_find m k = None then 0 else 1)"

abbreviation sm_map :: "('v \<Rightarrow> 'w) \<Rightarrow> ('k, 'v) smap \<Rightarrow> ('k, 'w) smap" where
  "sm_map f m \<equiv> map (\<lambda>(k, v). (k, f v)) m"

abbreviation sm_ordered :: "('k::linorder, 'v) smap \<Rightarrow> bool" where
  "sm_ordered m \<equiv> sorted_wrt (<) (map fst m)"

lemma sm_find_put [simp]: "sm_find (sm_put k v m) k' = (if k' = k then Some v else sm_find m k')"
  by (induction m) auto

lemma sm_find_erase [simp]:
  "sm_find (sm_erase k m) k' = (if k' = k then None else sm_find m k')"
  unfolding sm_erase_def by (induction m) auto

lemma sm_find_insert [simp]:
  "sm_find (sm_insert k v m) k'
     = (if k' = k then Some (case sm_find m k of None \<Rightarrow> v | Some w \<Rightarrow> w) else sm_find m k')"
  by (auto simp: sm_insert_def split: option.splits)

lemma sm_find_map [simp]: "sm_find (sm_map f m) k = map_option f (sm_find m k)"
  by (induction m) auto

lemma sm_find_None: "sm_find m k = None \<longleftrightarrow> k \<notin> fst ` set m"
  by (induction m) force+

lemma sm_count_pos [simp]: "0 < sm_count m k \<longleftrightarrow> k \<in> fst ` set m"
  by (simp add: sm_count_def sm_find_None)

lemma sm_find_in_set: "sm_find m k = Some v \<Longrightarrow> (k, v) \<in> set m"
  by (induction m) (auto split: if_splits)

lemma keys_put: "fst ` set (sm_put k v m) = insert k (fst ` set m)"
  by (induction k v m rule: sm_put.induct) (simp_all add: insert_commute)

lemma set_put_subset: "set (sm_put k v m) \<subseteq> insert (k, v) (set m)"
  by (induction m) (auto split: if_splits)

lemma sm_ordered_find: "sm_ordered m \<Longrightarrow> (k, v) \<in> set m \<Longrightarrow> sm_find m k = Some v"
  by (induction m) (force split: if_splits)+

lemma sm_ordered_put [hat_inv]: "sm_ordered m \<Longrightarrow> sm_ordered (sm_put k v m)"
proof (induction m)
  case Nil
  then show ?case by simp
next
  case (Cons p m)
  obtain a b where p: "p = (a, b)" by (cases p)
  have keys: "\<forall>x \<in> fst ` set (sm_put k v m). x = k \<or> x \<in> fst ` set m"
    by (auto simp: keys_put)
  from Cons p keys show ?case by (fastforce intro: order.strict_trans)
qed

lemma sm_ordered_insert [hat_inv]: "sm_ordered m \<Longrightarrow> sm_ordered (sm_insert k v m)"
  by (simp add: sm_insert_def sm_ordered_put)

lemma sm_ordered_erase [hat_inv]: "sm_ordered m \<Longrightarrow> sm_ordered (sm_erase k m)"
  unfolding sm_erase_def by (induction m) (auto split: prod.splits)

lemma sm_ordered_map [simp]: "sm_ordered (sm_map f m) = sm_ordered m"
  by (simp add: comp_def case_prod_beta)

subsection \<open>The contract of a map\<close>

locale std_map =
  fixes wf :: "'m \<Rightarrow> bool"
    and find :: "'m \<Rightarrow> 'k \<Rightarrow> 'v option"
    and put :: "'k \<Rightarrow> 'v \<Rightarrow> 'm \<Rightarrow> 'm"
    and insert_new :: "'k \<Rightarrow> 'v \<Rightarrow> 'm \<Rightarrow> 'm"
    and erase :: "'k \<Rightarrow> 'm \<Rightarrow> 'm"
  assumes put_find: "find (put k v m) k' = (if k' = k then Some v else find m k')"
    and erase_find: "find (erase k m) k' = (if k' = k then None else find m k')"
    and insert_find: "find (insert_new k v m) k' =
          (if k' = k then Some (case find m k of None \<Rightarrow> v | Some w \<Rightarrow> w) else find m k')"
    and wf_put: "wf m \<Longrightarrow> wf (put k v m)"
    and wf_insert: "wf m \<Longrightarrow> wf (insert_new k v m)"
    and wf_erase: "wf m \<Longrightarrow> wf (erase k m)"
begin

lemma insert_keeps: "find m k = Some w \<Longrightarrow> find (insert_new k v m) = find m"
  by (rule ext) (simp add: insert_find)

lemma insert_fresh: "find m k = None \<Longrightarrow> find (insert_new k v m) = find (put k v m)"
  by (rule ext) (simp add: insert_find put_find)

lemma put_put: "find (put k v (put k u m)) = find (put k v m)"
  by (rule ext) (simp add: put_find)

lemma put_commute: "k \<noteq> l \<Longrightarrow> find (put k v (put l u m)) = find (put l u (put k v m))"
  by (rule ext) (simp add: put_find)

lemma erase_put: "find m k = None \<Longrightarrow> find (erase k (put k v m)) = find m"
  by (rule ext) (simp add: erase_find put_find)

end

interpretation smap: std_map sm_ordered sm_find sm_put sm_insert sm_erase
  by unfold_locales (auto simp: hat_inv)

text \<open>Two maps in key order with the same lookups are the same list.\<close>

lemma smap_ext:
  fixes m m' :: "('k::linorder, 'v) smap"
  assumes "sm_ordered m" and "sm_ordered m'" and "\<And>k. sm_find m k = sm_find m' k"
  shows "m = m'"
  using assms
proof (induction m arbitrary: m')
  case Nil
  have "m' = []"
  proof (cases m')
    case (Cons p q)
    with Nil.prems(3) [of "fst p"] show ?thesis by (cases p) simp
  qed simp
  then show ?case by simp
next
  case (Cons p m)
  obtain a b where p: "p = (a, b)" by (cases p)
  from Cons.prems(3) [of a] p have "sm_find m' a = Some b" by simp
  then obtain q n where m': "m' = q # n" by (cases m') auto
  obtain c d where q: "q = (c, d)" by (cases q)
  have "a = c"
  proof (rule ccontr)
    assume "a \<noteq> c"
    have "sm_find m c = Some d" using Cons.prems(3) [of c] p m' q \<open>a \<noteq> c\<close> by simp
    then have "a < c" using Cons.prems(1) p sm_find_in_set by fastforce
    have "sm_find n a = Some b" using \<open>sm_find m' a = Some b\<close> m' q \<open>a \<noteq> c\<close> by simp
    then have "c < a" using Cons.prems(2) m' q sm_find_in_set by fastforce
    with \<open>a < c\<close> show False by simp
  qed
  with \<open>sm_find m' a = Some b\<close> m' q have bd: "b = d" by simp
  have "sm_find m k = sm_find n k" for k
  proof (cases "k = a")
    case True
    have "a \<notin> fst ` set m" "a \<notin> fst ` set n"
      using Cons.prems(1,2) p m' q \<open>a = c\<close> by auto
    with True show ?thesis by (metis sm_find_None)
  next
    case False
    with Cons.prems(3) [of k] p m' q \<open>a = c\<close> show ?thesis by simp
  qed
  then have "m = n" using Cons.prems(1,2) p m' by (intro Cons.IH) auto
  with p m' q \<open>a = c\<close> bd show ?case by simp
qed

end
