(* ===== verification/Number_Text.thy ===== *)
theory Number_Text
  imports Hat_Prelude
begin

text \<open>
  Numbers and their text, as \<^verbatim>\<open>hsrv\<close> converts them
  (\<^verbatim>\<open>src/agents/minilibs/hsrv.cpp\<close>): \<open>int2a\<close>, \<open>long2a\<close>, \<open>unsigned2a\<close> and
  \<open>double2a\<close> print, \<open>a2int\<close>, \<open>a2long\<close>, \<open>a2unsigned\<close> and \<open>a2double\<close> read with
  \<^verbatim>\<open>sscanf\<close>. A failed \<^verbatim>\<open>sscanf\<close> leaves the local \<^verbatim>\<open>d\<close> as it was, which is
  indeterminate: it is the first argument \<open>u\<close> of each reader. Text that names a number
  beyond the range of the type is outside the model (the conversion is undefined there), as
  are the hexadecimal, \<open>inf\<close> and \<open>nan\<close> spellings of \<^verbatim>\<open>%lf\<close>.
\<close>

subsection \<open>Printing\<close>

definition digit_char :: "nat \<Rightarrow> char" where
  "digit_char n = char_of (48 + n)"

fun nat2a :: "nat \<Rightarrow> string" where
  "nat2a n = (if n < 10 then [digit_char n] else nat2a (n div 10) @ [digit_char (n mod 10)])"

declare nat2a.simps [simp del]

definition int2a :: "int \<Rightarrow> string" where
  "int2a n = (if n < 0 then CHR ''-'' # nat2a (nat (- n)) else nat2a (nat n))"

definition long2a :: "int \<Rightarrow> string" where
  "long2a n = int2a n"

definition unsigned2a :: "nat \<Rightarrow> string" where
  "unsigned2a n = nat2a n"

text \<open>Fixed notation with five decimals, rounding halves to even.\<close>

definition round_even :: "double \<Rightarrow> int" where
  "round_even x =
     (let n = \<lfloor>x\<rfloor>; r = x - of_int n
      in if r < 1/2 then n else if r > 1/2 then n + 1 else if even n then n else n + 1)"

definition pad5 :: "nat \<Rightarrow> string" where
  "pad5 n = map digit_char [n div 10000 mod 10, n div 1000 mod 10, n div 100 mod 10,
                            n div 10 mod 10, n mod 10]"

definition double2a :: "double \<Rightarrow> string" where
  "double2a x =
     (let n = nat (round_even (\<bar>x\<bar> * 100000))
      in (if x < 0 then ''-'' else '''') @ nat2a (n div 100000) @ CHR ''.'' # pad5 (n mod 100000))"

subsection \<open>Reading\<close>

definition is_space :: "char \<Rightarrow> bool" where
  "is_space c \<longleftrightarrow> c \<in> {CHR '' '', CHR 0x09, CHR 0x0A, CHR 0x0B, CHR 0x0C, CHR 0x0D}"

definition is_digit :: "char \<Rightarrow> bool" where
  "is_digit c \<longleftrightarrow> 48 \<le> (of_char c :: nat) \<and> (of_char c :: nat) \<le> 57"

definition digit_val :: "char \<Rightarrow> nat" where
  "digit_val c = of_char c - 48"

definition digits_val :: "string \<Rightarrow> nat" where
  "digits_val s = foldl (\<lambda>n c. 10 * n + digit_val c) 0 s"

fun scan_sign :: "string \<Rightarrow> int \<times> string" where
  "scan_sign [] = (1, [])"
| "scan_sign (c # cs) =
     (if c = CHR ''-'' then (-1, cs) else if c = CHR ''+'' then (1, cs) else (1, c # cs))"

definition scan_int :: "string \<Rightarrow> int option" where
  "scan_int s =
     (let (sg, t) = scan_sign (dropWhile is_space s); ds = takeWhile is_digit t
      in if ds = [] then None else Some (sg * int (digits_val ds)))"

definition atoi :: "string \<Rightarrow> int" where
  "atoi s = (case scan_int s of Some n \<Rightarrow> n | None \<Rightarrow> 0)"

definition a2int :: "int \<Rightarrow> string \<Rightarrow> int" where
  "a2int u s = (case scan_int s of Some n \<Rightarrow> n | None \<Rightarrow> u)"

definition a2long :: "int \<Rightarrow> string \<Rightarrow> int" where
  "a2long u s = (case scan_int s of Some n \<Rightarrow> n | None \<Rightarrow> u)"

definition a2unsigned :: "nat \<Rightarrow> string \<Rightarrow> nat" where
  "a2unsigned u s = (case scan_int s of Some n \<Rightarrow> nat (n mod 2 ^ 32) | None \<Rightarrow> u)"

fun scan_exponent :: "string \<Rightarrow> int" where
  "scan_exponent [] = 0"
| "scan_exponent (c # cs) =
     (if c = CHR ''e'' \<or> c = CHR ''E''
      then let (sg, t) = scan_sign cs; ds = takeWhile is_digit t
           in if ds = [] then 0 else sg * int (digits_val ds)
      else 0)"

definition scale10 :: "double \<Rightarrow> int \<Rightarrow> double" where
  "scale10 x e = (if 0 \<le> e then x * 10 ^ nat e else x / 10 ^ nat (- e))"

fun scan_fraction :: "string \<Rightarrow> string \<times> string" where
  "scan_fraction [] = ([], [])"
| "scan_fraction (c # cs) =
     (if c = CHR ''.'' then (takeWhile is_digit cs, dropWhile is_digit cs) else ([], c # cs))"

definition scan_double :: "string \<Rightarrow> double option" where
  "scan_double s =
     (let (sg, t) = scan_sign (dropWhile is_space s);
          ds = takeWhile is_digit t;
          (fs, rest) = scan_fraction (dropWhile is_digit t)
      in if ds = [] \<and> fs = [] then None
         else Some (of_int sg * scale10 (of_nat (digits_val ds)
                      + of_nat (digits_val fs) / 10 ^ length fs) (scan_exponent rest)))"

definition a2double :: "double \<Rightarrow> string \<Rightarrow> double" where
  "a2double u s = (case scan_double s of Some d \<Rightarrow> d | None \<Rightarrow> u)"

subsection \<open>Digits\<close>

lemma of_char_digit: "n < 10 \<Longrightarrow> (of_char (digit_char n) :: nat) = 48 + n"
  by (simp add: digit_char_def)

lemma digit_char_digit [simp]: "n < 10 \<Longrightarrow> is_digit (digit_char n)"
  by (simp add: is_digit_def of_char_digit)

lemma digit_val_digit_char [simp]: "n < 10 \<Longrightarrow> digit_val (digit_char n) = n"
  by (simp add: digit_val_def of_char_digit)

lemma digit_not_special:
  "is_digit c \<Longrightarrow> \<not> is_space c \<and> c \<noteq> CHR ''-'' \<and> c \<noteq> CHR ''+''"
  by (auto simp: is_digit_def is_space_def)

lemma is_digit_minus [simp]: "\<not> is_digit (CHR ''-'')" "\<not> is_digit (CHR ''.'')"
  by (simp_all add: is_digit_def)

lemma is_space_minus [simp]: "\<not> is_space (CHR ''-'')"
  by (simp add: is_space_def)

lemma digits_val_snoc [simp]: "digits_val (s @ [c]) = 10 * digits_val s + digit_val c"
  by (simp add: digits_val_def)

lemma digits_val_Nil [simp]: "digits_val [] = 0"
  by (simp add: digits_val_def)

lemma nat2a_digits: "\<forall>c \<in> set (nat2a n). is_digit c"
proof (induction n rule: nat2a.induct)
  case (1 n)
  show ?case
  proof (cases "n < 10")
    case True
    then show ?thesis by (subst nat2a.simps) simp
  next
    case False
    with 1 show ?thesis by (subst nat2a.simps) auto
  qed
qed

lemma nat2a_not_Nil [simp]: "nat2a n \<noteq> []"
  by (subst nat2a.simps) simp

lemma digits_val_nat2a [simp]: "digits_val (nat2a n) = n"
proof (induction n rule: nat2a.induct)
  case (1 n)
  show ?case
  proof (cases "n < 10")
    case True
    then show ?thesis
      by (subst nat2a.simps) (simp add: digits_val_def)
  next
    case False
    with 1 show ?thesis by (subst nat2a.simps) simp
  qed
qed

lemma takeWhile_nat2a: "takeWhile is_digit (nat2a n @ s) = nat2a n @ takeWhile is_digit s"
  using nat2a_digits [of n] by (simp add: takeWhile_append2)

lemma dropWhile_nat2a: "dropWhile is_digit (nat2a n @ s) = dropWhile is_digit s"
  using nat2a_digits [of n] by (simp add: dropWhile_append2)

lemma nat2a_ConsE: obtains c cs where "nat2a n = c # cs" and "is_digit c"
proof (cases "nat2a n")
  case Nil
  then show ?thesis by simp
next
  case (Cons c cs)
  with nat2a_digits [of n] have "is_digit c" by simp
  with Cons show ?thesis by (rule that)
qed

lemma scan_sign_nat2a:
  "scan_sign (dropWhile is_space (nat2a n @ s)) = (1, nat2a n @ s)"
  by (rule nat2a_ConsE [of n]) (auto dest: digit_not_special)

lemma takeWhile_nat2a_all [simp]: "takeWhile is_digit (nat2a n) = nat2a n"
  using takeWhile_nat2a [of n "[]"] by simp

lemma scan_int_nat2a: "scan_int (nat2a n) = Some (int n)"
  using scan_sign_nat2a [of n "[]"] by (simp add: scan_int_def Let_def)

lemma scan_int_int2a [simp]: "scan_int (int2a n) = Some n"
proof (cases "n < 0")
  case True
  then show ?thesis
    by (simp add: int2a_def scan_int_def Let_def)
next
  case False
  then show ?thesis by (simp add: int2a_def scan_int_nat2a)
qed

lemma pad5_digits: "\<forall>c \<in> set (pad5 n). is_digit c"
  by (simp add: pad5_def)

lemma length_pad5 [simp]: "length (pad5 n) = 5"
  by (simp add: pad5_def)

lemma digits_val_pad5: "n < 100000 \<Longrightarrow> digits_val (pad5 n) = n"
proof -
  assume "n < 100000"
  then have d4: "n div 10000 mod 10 = n div 10000" by (simp add: less_mult_imp_div_less)
  have "n div 10 = n div 100 * 10 + n div 10 mod 10"
    and "n div 100 = n div 1000 * 10 + n div 100 mod 10"
    and "n div 1000 = n div 10000 * 10 + n div 1000 mod 10"
    and "n = n div 10 * 10 + n mod 10"
    using div_mult2_eq [of n 10 10] div_mult2_eq [of n 100 10] div_mult2_eq [of n 1000 10]
    by simp_all
  then have sum: "10000 * (n div 10000) + 1000 * (n div 1000 mod 10) + 100 * (n div 100 mod 10)
      + 10 * (n div 10 mod 10) + n mod 10 = n" by linarith
  have "n div 10000 < 10" using \<open>n < 100000\<close> by (simp add: less_mult_imp_div_less)
  with sum show ?thesis
    by (simp add: pad5_def digits_val_def d4)
qed

lemma scan_double_double2a:
  fixes x :: double
  defines "n \<equiv> nat (round_even (\<bar>x\<bar> * 100000))"
  shows "scan_double (double2a x) = Some ((if x < 0 then - 1 else 1) * (of_nat n / 100000))"
proof -
  let ?tail = "nat2a (n div 100000) @ CHR ''.'' # pad5 (n mod 100000)"
  have form: "double2a x = (if x < 0 then ''-'' else '''') @ ?tail"
    by (simp only: double2a_def n_def Let_def)
  have sgn: "scan_sign (dropWhile is_space (double2a x)) = ((if x < 0 then - 1 else 1), ?tail)"
    using scan_sign_nat2a [of "n div 100000" "CHR ''.'' # pad5 (n mod 100000)"]
    by (simp add: form)
  have int: "takeWhile is_digit ?tail = nat2a (n div 100000)"
    by (simp add: takeWhile_nat2a)
  have frac: "scan_fraction (dropWhile is_digit ?tail) = (pad5 (n mod 100000), [])"
    using pad5_digits [of "n mod 100000"]
    by (simp add: dropWhile_nat2a takeWhile_eq_all_conv [THEN iffD2])
  have "digits_val (pad5 (n mod 100000)) = n mod 100000"
    by (rule digits_val_pad5) simp
  moreover have "of_nat (n div 100000) + of_nat (n mod 100000) / 100000 = (of_nat n / 100000 :: double)"
  proof -
    have "(of_nat n :: double) = of_nat (n div 100000 * 100000 + n mod 100000)" by simp
    also have "\<dots> = of_nat (n div 100000) * 100000 + of_nat (n mod 100000)"
      by (simp only: of_nat_add of_nat_mult of_nat_numeral)
    finally show ?thesis by (simp add: field_simps)
  qed
  ultimately show ?thesis
    by (simp add: scan_double_def sgn int frac scale10_def)
qed

lemma round_even_near: "\<bar>of_int (round_even x) - x\<bar> \<le> 1 / 2"
proof -
  have "of_int \<lfloor>x\<rfloor> \<le> x" and "x < of_int \<lfloor>x\<rfloor> + 1" by linarith+
  then show ?thesis
    unfolding round_even_def Let_def by (auto split: if_splits)
qed

lemma round_even_nonneg: "0 \<le> x \<Longrightarrow> 0 \<le> round_even x"
proof -
  assume "0 \<le> x"
  then have "0 \<le> \<lfloor>x\<rfloor>" by simp
  then show ?thesis by (simp add: round_even_def Let_def)
qed

lemma nat2a_0 [simp]: "nat2a 0 = ''0''"
  by code_simp

lemma int2a_inj: "int2a m = int2a n \<longleftrightarrow> m = n"
  by (metis scan_int_int2a option.inject)

text \<open>An integer printed with \<open>int2a\<close> and read back with \<open>a2int\<close> is unchanged,
  whatever the uninitialised local of \<open>a2int\<close> held.\<close>

lemma a2int_int2a: "a2int u (int2a n) = n"
  by (simp add: a2int_def)

lemma a2double_near: "\<bar>a2double u (double2a x) - x\<bar> \<le> 1 / 200000"
proof -
  let ?r = "round_even (\<bar>x\<bar> * 100000)"
  have "0 \<le> ?r" by (simp add: round_even_nonneg)
  then have nat: "of_nat (nat ?r) = (of_int ?r :: double)" by simp
  have "\<bar>of_int ?r - \<bar>x\<bar> * 100000\<bar> \<le> 1 / 2" by (rule round_even_near)
  then have "\<bar>of_int ?r / 100000 - \<bar>x\<bar>\<bar> \<le> 1 / 200000" by (simp add: field_simps abs_le_iff)
  moreover have "\<bar>(if x < 0 then - 1 else 1) * q - x\<bar> \<le> 1 / 200000"
    if "\<bar>q - \<bar>x\<bar>\<bar> \<le> 1 / 200000" for q
    using that by (auto simp: abs_if split: if_splits)
  ultimately show ?thesis
    by (simp only: a2double_def scan_double_double2a nat option.case)
qed

text \<open>A time stamp printed with \<open>double2a\<close> and read back with \<open>a2double\<close> is off by
  at most half a unit of the fifth decimal.\<close>

lemma a2double_double2a: "\<bar>a2double u (double2a x) - x\<bar> \<le> 1 / 200000"
  by (rule a2double_near)

end
