(* ===== verification/Hsrv.thy ===== *)
theory Hsrv
  imports Name_List Std_Map Number_Text
begin

text \<open>
  The service class \<^verbatim>\<open>hsrv\<close> (\<^verbatim>\<open>src/agents/minilibs/hsrv.cpp\<close>): string
  utilities, clock text, and the index of published values that the dynamic pages show.
  The clock, the time zone and the file system are inputs: \<^verbatim>\<open>localtime\<close> is the record
  \<open>tm\<close>, a reading of \<^verbatim>\<open>gettimeofday\<close> is a \<open>double\<close>. The index
  \<^verbatim>\<open>hsrv::index\<close> is a state argument of type \<open>(string, string) smap\<close>.
\<close>

subsection \<open>Paths and file names\<close>

text \<open>Reading one past the end of a \<^verbatim>\<open>std::string\<close> gives the terminating zero.\<close>

definition char_at :: "string \<Rightarrow> nat \<Rightarrow> char" where
  "char_at s i = (if i < length s then s ! i else CHR 0x00)"

fun last_slash :: "string \<Rightarrow> nat \<Rightarrow> nat" where
  "last_slash path 0 = 0"
| "last_slash path (Suc i) =
     (if char_at path (Suc i) \<noteq> CHR ''/'' then last_slash path i else Suc i)"

definition tailof :: "string \<Rightarrow> string" where
  "tailof path =
     (let i = last_slash path (length path)
      in if char_at path i = CHR ''/'' then drop (i + 1) path else path)"

definition matchfile :: "string \<Rightarrow> string \<Rightarrow> bool" where
  "matchfile fname ext =
     (if length fname \<le> length ext then False
      else if ext = '''' then fname \<noteq> ''.'' \<and> fname \<noteq> ''..''
      else take (length ext) (drop (length fname - length ext) fname) = ext)"

definition extractBin :: "string \<Rightarrow> string" where
  "extractBin agentname =
     (if agentname = '''' then ''''
      else let i = last_slash agentname (length agentname - 1)
           in if i > 0 then take i agentname else '''')"

definition isXmlstring :: "string \<Rightarrow> bool" where
  "isXmlstring s = str_contains s ''xml version=''"

definition isInString :: "string \<Rightarrow> string \<Rightarrow> bool" where
  "isInString s signature = str_contains s signature"

subsection \<open>Clock text\<close>

record tm =
  tm_sec :: int
  tm_min :: int
  tm_hour :: int
  tm_mday :: int
  tm_mon :: int
  tm_year :: int
  tm_wday :: int
  tm_yday :: int
  tm_isdst :: int

definition CurrentTime :: "tm \<Rightarrow> int list" where
  "CurrentTime t =
     [tm_sec t, tm_min t, tm_hour t, tm_mday t, tm_mon t + 1, tm_year t + 1900,
      (if tm_wday t = 0 then 7 else tm_wday t), tm_yday t + 1, tm_isdst t]"

definition daysecond :: "int list \<Rightarrow> int" where
  "daysecond t = t ! 2 * 3600 + t ! 1 * 60 + t ! 0"

definition clock_sep :: "char \<Rightarrow> bool" where
  "clock_sep c \<longleftrightarrow> c = CHR '':'' \<or> c = CHR ''.''"

definition clock_field :: "string \<Rightarrow> string" where
  "clock_field s = takeWhile (\<lambda>c. \<not> clock_sep c) s"

definition clock_rest :: "string \<Rightarrow> string" where
  "clock_rest s = dropWhile (\<lambda>c. \<not> clock_sep c) s"

definition field_seconds :: "string \<Rightarrow> int \<Rightarrow> int" where
  "field_seconds f unit = (if f \<noteq> '''' then atoi f * unit else 0)"

definition string2second :: "string \<Rightarrow> int" where
  "string2second s =
     (let hh = clock_field s; r1 = clock_rest s; sec1 = field_seconds hh 3600
      in if r1 = '''' then sec1
         else let min = clock_field (tl r1); r2 = clock_rest (tl r1);
                  sec2 = sec1 + field_seconds min 60
              in if r2 = '''' then sec2
                 else sec2 + field_seconds (clock_field (tl r2)) 1)"

subsection \<open>Replacement and escapes\<close>

definition strReplace :: "string \<Rightarrow> string \<Rightarrow> string \<Rightarrow> string \<times> bool" where
  "strReplace s dst src =
     (case str_find dst s of
        Some pos \<Rightarrow> (take pos s @ src @ drop (pos + length dst) s, True)
      | None \<Rightarrow> (s, False))"

text \<open>
  The idiom \<^verbatim>\<open>while(hsrv::strReplace(s, dst, src) == 1);\<close> of \<^verbatim>\<open>mySQLdate\<close>,
  \<^verbatim>\<open>AgentConf::postExecM\<close> and \<^verbatim>\<open>VrtDevices::devConfigure\<close>. It need not end, so its
  value is an option.
\<close>

partial_function (option) strReplaceAll :: "string \<Rightarrow> string \<Rightarrow> string \<Rightarrow> string option" where
  "strReplaceAll s dst src =
     (case str_find dst s of
        Some pos \<Rightarrow> strReplaceAll (take pos s @ src @ drop (pos + length dst) s) dst src
      | None \<Rightarrow> Some s)"

definition mySQLdate :: "string \<Rightarrow> string \<Rightarrow> string option" where
  "mySQLdate today date =
     (if date \<noteq> '''' then strReplaceAll date ''_'' ''-'' else Some today)"

definition upcase_char :: "char \<Rightarrow> char" where
  "upcase_char c =
     (if (of_char c :: nat) \<le> 122 \<and> 97 \<le> (of_char c :: nat)
      then char_of (65 + (of_char c - 97 :: nat)) else c)"

definition upcase :: "string \<Rightarrow> string" where
  "upcase a = map upcase_char a"

text \<open>
  \<^verbatim>\<open>convertSpecialChar\<close>: the guard \<^verbatim>\<open>i<s.length()-2\<close> on the \<^verbatim>\<open>\r\<close>
  branch asks for a further character after the escape, the \<^verbatim>\<open>\n\<close> branch does not.
\<close>

fun convertSpecialChar :: "string \<Rightarrow> string" where
  "convertSpecialChar [] = []"
| "convertSpecialChar [c] = [c]"
| "convertSpecialChar (c # d # cs) =
     (if cs \<noteq> [] \<and> c = CHR 0x5C \<and> d = CHR ''r'' then CHR 0x0D # convertSpecialChar cs
      else if c = CHR 0x5C \<and> d = CHR ''n'' then CHR 0x0A # convertSpecialChar cs
      else c # convertSpecialChar (d # cs))"

text \<open>
  \<^verbatim>\<open>filterChar\<close>: the \<^verbatim>\<open>\r\<close> branch does not skip the second character of the escape.
\<close>

fun filterChar :: "string \<Rightarrow> string" where
  "filterChar [] = []"
| "filterChar [c] = [c]"
| "filterChar (c # d # cs) =
     (if c = CHR 0x5C \<and> d = CHR ''r'' then CHR 0x0D # filterChar (d # cs)
      else if c = CHR 0x5C \<and> d = CHR ''n'' then CHR 0x0A # filterChar cs
      else if c = CHR 0x5C \<and> d = CHR ''t'' then CHR 0x09 # filterChar cs
      else if c = CHR 0x5C \<and> d = CHR 0x5C then CHR 0x5C # filterChar cs
      else c # filterChar (d # cs))"

text \<open>\<^verbatim>\<open>split\<close>: \<open>cur\<close> is the text since \<open>starting_char\<close>, \<open>k\<close> is
  \<open>split_number\<close>. Reaching the limit drops the text after the last separator.\<close>

fun split_loop :: "char \<Rightarrow> int \<Rightarrow> int \<Rightarrow> string \<Rightarrow> string \<Rightarrow> string list" where
  "split_loop sep limit k cur [] = [cur]"
| "split_loop sep limit k cur (c # cs) =
     (if c = sep
      then if k + 1 = limit then [cur] else cur # split_loop sep limit (k + 1) [] cs
      else split_loop sep limit k (cur @ [c]) cs)"

definition split :: "string \<Rightarrow> char \<Rightarrow> int \<Rightarrow> string list" where
  "split s separator limit = split_loop separator limit 0 [] s"

subsection \<open>The index of published values\<close>

type_synonym index = "(string, string) smap"

definition quote :: string where "quote = [CHR 0x22]"

definition publish :: "string \<Rightarrow> string \<Rightarrow> index \<Rightarrow> index" where
  "publish name value idx = sm_put name value idx"

definition indexClear_all :: "index \<Rightarrow> index" where
  "indexClear_all idx = []"

definition indexClear :: "string \<Rightarrow> index \<Rightarrow> bool \<times> index" where
  "indexClear name idx =
     (if sm_count idx name = 0 then (False, idx) else (True, sm_erase name idx))"

definition xml_item :: "string \<Rightarrow> string \<Rightarrow> string" where
  "xml_item name value =
     (if \<not> str_contains value ''=''
      then ''<item name='' @ quote @ name @ quote @ '' value='' @ quote @ value @ quote @ ''/>'' @ [CHR 0x0A]
      else ''<item name='' @ quote @ name @ quote @ '' '' @ value @ ''/>'' @ [CHR 0x0A])"

definition xmlIndex_all :: "index \<Rightarrow> string" where
  "xmlIndex_all idx =
     ''<?xml version='' @ quote @ ''1.0'' @ quote @ '' ?>'' @ [CHR 0x0A]
     @ ''<list name='' @ quote @ ''index'' @ quote @ ''>'' @ [CHR 0x0A]
     @ concat (map (\<lambda>(n, v). xml_item n v) idx) @ ''</list>'' @ [CHR 0x0A]"

definition xmlIndex :: "index \<Rightarrow> string \<Rightarrow> string" where
  "xmlIndex idx name =
     (case sm_find idx name of None \<Rightarrow> ''Not Found'' | Some v \<Rightarrow> xml_item name v)"

text \<open>
  \<^verbatim>\<open>jsonItem\<close>: the opening brace is written at the first position only, and only when
  that position holds a pair. \<open>pair\<close> is the vector \<open>itempair\<close> carried over the loop.
\<close>

fun json_pairs :: "nat \<Rightarrow> name_list \<Rightarrow> string list \<Rightarrow> string" where
  "json_pairs i pair [] = ''''"
| "json_pairs i pair (it # its) =
     (if it \<noteq> ''''
      then let pair' = fst (nl_init pair it (CHR ''=''))
           in (if length pair' = 2
               then (if i = 0 then ''{'' @ quote else '','' @ quote)
                    @ pair' ! 0 @ quote @ '':'' @ pair' ! 1 else '''')
              @ json_pairs (Suc i) pair' its
      else json_pairs (Suc i) pair its)"

definition jsonItem :: "string \<Rightarrow> string" where
  "jsonItem src =
     (if \<not> str_contains src ''='' then quote @ src @ quote
      else json_pairs 0 [] (fst (nl_init [] src (CHR '' ''))) @ ''}'')"

fun json_entries :: "bool \<Rightarrow> index \<Rightarrow> string" where
  "json_entries first [] = ''''"
| "json_entries first ((n, v) # idx) =
     (if first then ''   {'' else '','' @ [CHR 0x0A] @ ''   {'')
     @ quote @ n @ quote @ '':'' @ jsonItem v @ ''}'' @ json_entries False idx"

definition jsonIndex_all :: "index \<Rightarrow> string" where
  "jsonIndex_all idx =
     ''{'' @ quote @ ''list'' @ quote @ '': ['' @ [CHR 0x0A] @ json_entries True idx
     @ ''  ]'' @ [CHR 0x0A] @ ''}'' @ [CHR 0x0A]"

definition jsonIndex :: "index \<Rightarrow> string \<Rightarrow> string" where
  "jsonIndex idx name =
     (case sm_find idx name of
        None \<Rightarrow> ''Not Found''
      | Some v \<Rightarrow> ''{'' @ quote @ name @ quote @ '':'' @ jsonItem v @ ''}'' @ [CHR 0x0A])"

definition getDynamicPage :: "index \<Rightarrow> string \<Rightarrow> string" where
  "getDynamicPage idx uri =
     (let name = fst (nl_init [] uri (CHR ''/''))
      in if length name < 1 then ''Forbidden''
         else let item = fst (nl_init [] (last name) (CHR ''.''))
              in if length item < 2 then ''Not Found''
                 else if item ! 0 = ''DynamicPage'' \<and> item ! 1 = ''xml'' then xmlIndex_all idx
                 else if item ! 0 = ''DynamicPage'' \<and> item ! 1 = ''json'' then jsonIndex_all idx
                 else if item ! 0 \<noteq> ''DynamicPage'' \<and> item ! 1 = ''xml'' then xmlIndex idx (item ! 0)
                 else if item ! 0 \<noteq> ''DynamicPage'' \<and> item ! 1 = ''json'' then jsonIndex idx (item ! 0)
                 else ''Not Found'')"

definition item_list_page :: "string \<Rightarrow> (string \<times> string) list \<Rightarrow> string" where
  "item_list_page name items =
     ''<set type='' @ quote @ name @ quote @ ''>'' @ [CHR 0x0A]
     @ concat (map (\<lambda>(n, v). ''<attribute name='' @ quote @ n @ quote @ '' value='' @ quote @ v
         @ quote @ ''/>'' @ [CHR 0x0A]) items)
     @ ''</set>'' @ [CHR 0x0A]"

definition getHostName :: "string \<Rightarrow> string" where
  "getHostName out = filter (\<lambda>c. c \<noteq> CHR 0x0A \<and> c \<noteq> CHR 0x0D) out"


text \<open>\<^verbatim>\<open>checkConfigureEnabled\<close>: \<open>configurator\<close> is the configuration switch,
  \<open>conftime\<close> the text of the file \<^verbatim>\<open>CONFENABLED\<close>; the window is 180 seconds.\<close>

definition checkConfigureEnabled :: "double \<Rightarrow> string \<Rightarrow> string \<Rightarrow> double \<Rightarrow> bool" where
  "checkConfigureEnabled u configurator conftime ctime =
     (if configurator = ''ON'' then True else a2double u conftime + 180 > ctime)"

subsection \<open>Clock text\<close>

lemma clock_sep_digit: "is_digit c \<Longrightarrow> \<not> clock_sep c"
  by (auto simp: is_digit_def clock_sep_def)

lemma atoi_digits: "\<forall>c \<in> set s. is_digit c \<Longrightarrow> s \<noteq> [] \<Longrightarrow> atoi s = int (digits_val s)"
proof (cases s)
  case (Cons c cs)
  assume "\<forall>c \<in> set s. is_digit c"
  then have all: "takeWhile is_digit s = s" and "is_digit c"
    using Cons by (simp_all add: takeWhile_eq_all_conv)
  with Cons digit_not_special [of c] have "scan_sign (dropWhile is_space s) = (1, s)" by auto
  with all Cons show ?thesis by (simp add: atoi_def scan_int_def Let_def)
qed simp

lemma clock_field_digits:
  assumes "\<forall>c \<in> set s. is_digit c" and "clock_sep d"
  shows "clock_field (s @ d # r) = s" and "clock_rest (s @ d # r) = d # r"
    and "clock_field s = s" and "clock_rest s = []"
  using assms clock_sep_digit
  by (auto simp: clock_field_def clock_rest_def takeWhile_append2 dropWhile_append2
      takeWhile_eq_all_conv)

lemma field_seconds_digits:
  "\<forall>c \<in> set s. is_digit c \<Longrightarrow> field_seconds s unit = int (digits_val s) * unit"
  by (cases "s = []") (simp_all add: field_seconds_def atoi_digits)

text \<open>\<open>string2second\<close> reads a clock text of three digit groups as hours, minutes and
  seconds.\<close>

lemma string2second_hms:
  assumes "\<forall>c \<in> set (hh @ mm @ ss). is_digit c"
  shows "string2second (hh @ '':'' @ mm @ '':'' @ ss)
           = int (digits_val hh) * 3600 + int (digits_val mm) * 60 + int (digits_val ss)"
proof -
  have sep: "clock_sep (CHR '':'')" by (simp add: clock_sep_def)
  from assms have h: "\<forall>c \<in> set hh. is_digit c" and m: "\<forall>c \<in> set mm. is_digit c"
    and s: "\<forall>c \<in> set ss. is_digit c" by simp_all
  show ?thesis
    by (simp add: string2second_def Let_def clock_field_digits [OF h sep] clock_field_digits [OF m sep]
        clock_field_digits [OF s sep] field_seconds_digits [OF h] field_seconds_digits [OF m]
        field_seconds_digits [OF s])
qed

subsection \<open>Replacement loops\<close>

definition replace_char :: "char \<Rightarrow> string \<Rightarrow> string \<Rightarrow> string" where
  "replace_char c src s = concat (map (\<lambda>x. if x = c then src else [x]) s)"

lemma replace_char_id: "c \<notin> set s \<Longrightarrow> replace_char c src s = s"
  unfolding replace_char_def by (induction s) auto

lemma replace_char_append [simp]:
  "replace_char c src (s @ t) = replace_char c src s @ replace_char c src t"
  by (simp add: replace_char_def)

lemma replace_char_Cons [simp]: "replace_char c src (c # t) = src @ replace_char c src t"
  by (simp add: replace_char_def)

lemma strReplaceAll_unfold_None: "str_find dst s = None \<Longrightarrow> strReplaceAll s dst src = Some s"
  by (simp add: strReplaceAll.simps)

text \<open>The replacement loop ends when the replacement text does not contain the
  replaced character, and then it has replaced every occurrence and nothing else.\<close>

lemma strReplaceAll_char:
  assumes "c \<notin> set src"
  shows "strReplaceAll s [c] src = Some (replace_char c src s)"
proof (induction "length (filter (\<lambda>x. x = c) s)" arbitrary: s)
  case 0
  then have "c \<notin> set s" by (auto simp: filter_empty_conv)
  then show ?case
    by (simp add: strReplaceAll_unfold_None str_find_char_None replace_char_id)
next
  case (Suc n)
  have "filter (\<lambda>x. x = c) s \<noteq> []" using Suc.hyps(2) by auto
  then have "c \<in> set s" by (auto simp: filter_empty_conv)
  then obtain xs ys where s: "s = xs @ c # ys" and xs: "c \<notin> set xs"
    by (meson split_list_first)
  let ?s' = "xs @ src @ ys"
  have "n = length (filter (\<lambda>x. x = c) ?s')"
    using Suc.hyps(2) s assms by (auto simp: filter_empty_conv)
  then have "strReplaceAll ?s' [c] src = Some (replace_char c src ?s')" by (rule Suc.hyps(1))
  moreover have "strReplaceAll s [c] src = strReplaceAll ?s' [c] src"
    unfolding s by (subst strReplaceAll.simps) (simp add: str_find_char_append [OF xs])
  ultimately show ?case
    using assms xs s by (simp add: replace_char_id)
qed

lemma strReplaceAll_result:
  "strReplaceAll s dst src = Some r \<Longrightarrow> str_find dst r = None
     \<and> (str_contains src dst \<longrightarrow> str_find dst s = None)"
proof (rule strReplaceAll.raw_induct [where P = "\<lambda>s dst src r. str_find dst r = None
     \<and> (str_contains src dst \<longrightarrow> str_find dst s = None)"])
  fix f s dst src r
  assume IH: "\<And>s dst src r. f s dst src = Some r \<Longrightarrow>
      str_find dst r = None \<and> (str_contains src dst \<longrightarrow> str_find dst s = None)"
    and eq: "(case str_find dst s of Some pos \<Rightarrow> f (take pos s @ src @ drop (pos + length dst) s) dst src
        | None \<Rightarrow> Some s) = Some r"
  show "str_find dst r = None \<and> (str_contains src dst \<longrightarrow> str_find dst s = None)"
  proof (cases "str_find dst s")
    case None
    with eq show ?thesis by simp
  next
    case (Some pos)
    with eq have "f (take pos s @ src @ drop (pos + length dst) s) dst src = Some r" by simp
    from IH [OF this] have step: "str_find dst r = None"
      "str_contains src dst \<longrightarrow> str_find dst (take pos s @ src @ drop (pos + length dst) s) = None"
      by blast+
    have "\<not> str_contains src dst"
    proof
      assume "str_contains src dst"
      then obtain q where "src = take q src @ dst @ drop (q + length dst) src"
        using str_find_append by blast
      then have "take pos s @ src @ drop (pos + length dst) s
          = (take pos s @ take q src) @ dst @ (drop (q + length dst) src @ drop (pos + length dst) s)"
        by (metis append.assoc)
      with step(2) \<open>str_contains src dst\<close> str_find_None show False by blast
    qed
    with step show ?thesis by simp
  qed
qed assumption



subsection \<open>Published values\<close>

text \<open>After \<open>publish\<close> the item page of the name shows exactly the published value, and
  the item page of any other name is unchanged.\<close>

lemma publish_xmlIndex:
  "xmlIndex (publish name value idx) other
     = (if other = name then xml_item name value else xmlIndex idx other)"
  by (simp add: xmlIndex_def publish_def smap.put_find)

lemma publish_ordered [hat_inv]: "sm_ordered idx \<Longrightarrow> sm_ordered (publish name value idx)"
  by (simp add: publish_def hat_inv)

end
