(* ===== verification/Xml_Node.thy ===== *)
theory Xml_Node
  imports Hat_Prelude
begin

text \<open>
  Documents as \<^verbatim>\<open>TinyXML\<close> hands them to the agents, and the two accessors of
  \<^verbatim>\<open>hsrv\<close> that read them. The parser itself (\<^verbatim>\<open>src/agents/tinyxml\<close>, a vendored
  library) is not modelled: the decoders take the children of the parsed document.
\<close>

datatype xnode =
    XElement string "(string \<times> string) list" "xnode list"
  | XText string
  | XComment string
  | XDeclaration
  | XUnknown string

fun children :: "xnode \<Rightarrow> xnode list" where
  "children (XElement v attrs cs) = cs"
| "children _ = []"

fun ToElement :: "xnode option \<Rightarrow> xnode option" where
  "ToElement (Some (XElement v attrs cs)) = Some (XElement v attrs cs)"
| "ToElement _ = None"

fun first_attr :: "(string \<times> string) list \<Rightarrow> string \<Rightarrow> string" where
  "first_attr [] n = ''*''"
| "first_attr ((a, v) # as) n = (if a = n then v else first_attr as n)"

fun getAttrbyName :: "xnode option \<Rightarrow> string \<Rightarrow> string" where
  "getAttrbyName (Some (XElement v attrs cs)) n = first_attr attrs n"
| "getAttrbyName _ n = ''*''"

fun param_of :: "xnode list \<Rightarrow> string \<Rightarrow> string" where
  "param_of [] n = ''*''"
| "param_of (c # cs) n =
     (let tmp = getAttrbyName (ToElement (Some c)) n
      in if tmp = ''*'' then param_of cs n else tmp)"

definition getParambyName :: "xnode option \<Rightarrow> string \<Rightarrow> string" where
  "getParambyName prg n = (case prg of None \<Rightarrow> ''*'' | Some p \<Rightarrow> param_of (children p) n)"

abbreviation attr :: "xnode \<Rightarrow> string \<Rightarrow> string" where
  "attr x n \<equiv> getAttrbyName (ToElement (Some x)) n"

lemma attr_XElement [simp]: "attr (XElement v attrs cs) n = first_attr attrs n"
  by simp

definition first_child :: "xnode \<Rightarrow> xnode option" where
  "first_child x = (case children x of [] \<Rightarrow> None | c # _ \<Rightarrow> Some c)"

end
