(* ===== verification/Message.thy ===== *)
theory Message
  imports Hsrv Xml_Node
begin

text \<open>
  Messages (\<^verbatim>\<open>src/agents/minilibs/MMessage.cpp\<close>, \<^verbatim>\<open>MMessage.h\<close>): the unit of
  communication inside and between agents. A message has a type, a subtype, a priority and a
  map from field names to string lists. A field of type \<^verbatim>\<open>Mstring\<close> holds one string,
  a field of type \<^verbatim>\<open>MstringList\<close> a list. A null pointer that the code dereferences is
  the result \<open>None\<close> of a decoder.
\<close>

subsection \<open>Field values\<close>

record mstring_list =
  mytype :: string
  items :: "string list"

definition ms_empty :: mstring_list where
  "ms_empty = \<lparr>mytype = ''MstringList'', items = []\<rparr>"

definition ms_of_list :: "string list \<Rightarrow> mstring_list" where
  "ms_of_list v = \<lparr>mytype = ''MstringList'', items = v\<rparr>"

definition ms_of_string :: "string \<Rightarrow> mstring_list" where
  "ms_of_string v = \<lparr>mytype = ''Mstring'', items = [v]\<rparr>"

definition ms_getString :: "mstring_list \<Rightarrow> string" where
  "ms_getString l = (if length (items l) > 0 then items l ! 0 else '''')"

definition ms_getString_at :: "mstring_list \<Rightarrow> nat \<Rightarrow> string" where
  "ms_getString_at l n = (if length (items l) > n then items l ! n else '''')"

definition ms_add :: "mstring_list \<Rightarrow> string \<Rightarrow> mstring_list" where
  "ms_add l v =
     (if mytype l = ''MstringList'' then l\<lparr>items := items l @ [v]\<rparr>
      else l\<lparr>items := (items l)[0 := v]\<rparr>)"

definition ms_add_list :: "mstring_list \<Rightarrow> string list \<Rightarrow> bool \<times> mstring_list" where
  "ms_add_list l v =
     (if mytype l \<noteq> ''MstringList'' then (False, l) else (True, l\<lparr>items := items l @ v\<rparr>))"

definition ms_getList :: "mstring_list \<Rightarrow> string list" where
  "ms_getList l = items l"

definition comma_join :: "string list \<Rightarrow> string" where
  "comma_join xs = join_names (CHR '','') xs"

definition ms_xmlField :: "mstring_list \<Rightarrow> string \<Rightarrow> string" where
  "ms_xmlField l name =
     ''<field name='' @ quote @ name @ quote @ '' type='' @ quote @ mytype l @ quote
     @ ''  value='' @ quote @ items l ! 0 @ quote @ ''/>''"

definition ms_htmlEncode :: "mstring_list \<Rightarrow> string \<Rightarrow> string" where
  "ms_htmlEncode l name =
     (if mytype l = ''Mlist'' then ms_xmlField l name
      else name @ ''={'' @ comma_join (items l) @ ''}'')"

definition ms_xmlEncode :: "mstring_list \<Rightarrow> string \<Rightarrow> string" where
  "ms_xmlEncode l name =
     (if mytype l = ''Mstring'' then ms_xmlField l name
      else ''<field name='' @ quote @ name @ quote @ '' type='' @ quote @ mytype l @ quote @ ''>''
           @ concat (map (\<lambda>v. ''<item value='' @ quote @ v @ quote @ ''/>'') (items l))
           @ ''</field>'')"

text \<open>\<^verbatim>\<open>MstringList::xmlDecode(TiXmlNode*)\<close>: stops at a child that is not an element.\<close>

fun items_decode :: "string list \<Rightarrow> xnode list \<Rightarrow> bool \<times> string list" where
  "items_decode acc [] = (True, acc)"
| "items_decode acc (c # cs) =
     (case ToElement (Some c) of
        None \<Rightarrow> (False, acc)
      | Some e \<Rightarrow> items_decode (acc @ [getAttrbyName (Some e) ''value'']) cs)"

definition ms_xmlDecode :: "mstring_list \<Rightarrow> xnode option \<Rightarrow> bool \<times> mstring_list" where
  "ms_xmlDecode l desc =
     (case desc of
        None \<Rightarrow> (False, l)
      | Some d \<Rightarrow> let (r, vs) = items_decode [] (children d) in (r, l\<lparr>items := vs\<rparr>))"

definition ms_xmlDecode_doc :: "mstring_list \<Rightarrow> xnode list \<Rightarrow> (bool \<times> mstring_list) option" where
  "ms_xmlDecode_doc l doc =
     (case doc of
        [] \<Rightarrow> None
      | [_] \<Rightarrow> Some (False, l)
      | _ # d # _ \<Rightarrow>
          if attr d ''type'' \<noteq> mytype l then Some (False, l\<lparr>items := []\<rparr>)
          else let (r, vs) = items_decode [] (children d) in Some (r, l\<lparr>items := vs\<rparr>))"

subsection \<open>Messages\<close>

record mmessage =
  mtype :: string
  msubtype :: string
  priority :: int
  mfields :: "(string, mstring_list) smap"

definition m_default :: mmessage where
  "m_default = \<lparr>mtype = ''*'', msubtype = ''*'', priority = 0, mfields = []\<rparr>"

definition m_type :: "string \<Rightarrow> mmessage" where
  "m_type t = \<lparr>mtype = t, msubtype = ''*'', priority = 0, mfields = []\<rparr>"

definition m_new :: "string \<Rightarrow> string \<Rightarrow> mmessage" where
  "m_new t st = \<lparr>mtype = t, msubtype = st, priority = 0, mfields = []\<rparr>"

definition m_add :: "mmessage \<Rightarrow> string \<Rightarrow> string \<Rightarrow> mmessage" where
  "m_add m f v =
     (case sm_find (mfields m) f of
        Some l \<Rightarrow> m\<lparr>mfields := sm_put f (ms_add l v) (mfields m)\<rparr>
      | None \<Rightarrow> m\<lparr>mfields := sm_insert f (ms_of_string v) (mfields m)\<rparr>)"

definition m_add_int :: "mmessage \<Rightarrow> string \<Rightarrow> int \<Rightarrow> mmessage" where
  "m_add_int m f v = m_add m f (int2a v)"

definition m_add_long :: "mmessage \<Rightarrow> string \<Rightarrow> int \<Rightarrow> mmessage" where
  "m_add_long m f v = m_add m f (long2a v)"

definition m_add_unsigned :: "mmessage \<Rightarrow> string \<Rightarrow> nat \<Rightarrow> mmessage" where
  "m_add_unsigned m f v = m_add m f (unsigned2a v)"

definition m_add_double :: "mmessage \<Rightarrow> string \<Rightarrow> double \<Rightarrow> mmessage" where
  "m_add_double m f v = m_add m f (double2a v)"

definition m_add_list :: "mmessage \<Rightarrow> string \<Rightarrow> string list \<Rightarrow> bool \<times> mmessage" where
  "m_add_list m f v =
     (case sm_find (mfields m) f of
        Some l \<Rightarrow>
          if mytype l \<noteq> ''MstringList'' then (False, m)
          else (True, m\<lparr>mfields := sm_put f (snd (ms_add_list l v)) (mfields m)\<rparr>)
      | None \<Rightarrow> (True, m\<lparr>mfields := sm_insert f (ms_of_list v) (mfields m)\<rparr>))"

definition m_getElements :: "mmessage \<Rightarrow> (string, string) smap" where
  "m_getElements m =
     fold (\<lambda>(f, l) els. if mytype l = ''Mstring'' then sm_insert f (ms_getString l) els else els)
       (mfields m) []"

definition m_getString :: "mmessage \<Rightarrow> string \<Rightarrow> string" where
  "m_getString m f = (case sm_find (mfields m) f of Some l \<Rightarrow> ms_getString l | None \<Rightarrow> '''')"

definition m_getInt :: "int \<Rightarrow> mmessage \<Rightarrow> string \<Rightarrow> int" where
  "m_getInt u m f =
     (case sm_find (mfields m) f of Some l \<Rightarrow> a2int u (ms_getString l) | None \<Rightarrow> 0)"

definition m_getUnsigned :: "nat \<Rightarrow> mmessage \<Rightarrow> string \<Rightarrow> nat" where
  "m_getUnsigned u m f =
     (case sm_find (mfields m) f of Some l \<Rightarrow> a2unsigned u (ms_getString l) | None \<Rightarrow> 0)"

definition m_getLong :: "int \<Rightarrow> mmessage \<Rightarrow> string \<Rightarrow> int" where
  "m_getLong u m f =
     (case sm_find (mfields m) f of Some l \<Rightarrow> a2long u (ms_getString l) | None \<Rightarrow> 0)"

definition m_getDouble :: "double \<Rightarrow> mmessage \<Rightarrow> string \<Rightarrow> double" where
  "m_getDouble u m f =
     (case sm_find (mfields m) f of Some l \<Rightarrow> a2double u (ms_getString l) | None \<Rightarrow> 0)"

definition m_getList :: "mmessage \<Rightarrow> string \<Rightarrow> string list" where
  "m_getList m f =
     (case sm_find (mfields m) f of
        Some l \<Rightarrow> if mytype l = ''MstringList'' then ms_getList l else []
      | None \<Rightarrow> [])"

definition m_remove :: "mmessage \<Rightarrow> string \<Rightarrow> bool \<times> mmessage" where
  "m_remove m f =
     (case sm_find (mfields m) f of
        Some _ \<Rightarrow> (True, m\<lparr>mfields := sm_erase f (mfields m)\<rparr>)
      | None \<Rightarrow> (False, m))"

subsection \<open>Encoders\<close>

definition m_htmlEncode :: "mmessage \<Rightarrow> string" where
  "m_htmlEncode m =
     (case sm_find (mfields m) ''body'' of
        Some l \<Rightarrow> ms_getString l
      | None \<Rightarrow> ''<html><body>''
          @ concat (map (\<lambda>(f, l). ms_htmlEncode l f @ ''<br>'') (mfields m)) @ ''</body></html>'')"

definition m_htmlPostEncode :: "mmessage \<Rightarrow> string" where
  "m_htmlPostEncode m =
     (case sm_find (mfields m) ''body'' of
        Some l \<Rightarrow> ms_getString l
      | None \<Rightarrow> join_names (CHR ''&'') (map (\<lambda>(f, l). ms_htmlEncode l f) (mfields m)))"

definition xml_header :: string where
  "xml_header = ''<?xml version='' @ quote @ ''1.0'' @ quote @ '' ?>''"

definition message_open :: "mmessage \<Rightarrow> string" where
  "message_open m = ''<message type='' @ quote @ mtype m @ quote @ '' subtype='' @ quote
     @ msubtype m @ quote @ ''>''"

definition m_xmlEncode :: "int \<Rightarrow> mmessage \<Rightarrow> string" where
  "m_xmlEncode md m =
     (if md > 0 then xml_header else '''') @ message_open m
     @ concat (map (\<lambda>(f, l). ms_xmlEncode l f) (mfields m)) @ ''</message>''"

definition m_xmlPrint :: "int \<Rightarrow> mmessage \<Rightarrow> string" where
  "m_xmlPrint md m =
     (if md > 0 then xml_header @ [CHR 0x0A] else '''') @ message_open m @ [CHR 0x0A]
     @ concat (map (\<lambda>(f, l). ''<field name='' @ quote @ f @ quote @ '' value='' @ quote
         @ ms_getString l @ quote @ ''/>'' @ [CHR 0x0A]) (mfields m))
     @ ''</message>'' @ [CHR 0x0A]"

subsection \<open>Decoders\<close>

text \<open>
  One child of the message element. \<open>plain\<close> lists the values of \<^verbatim>\<open>type\<close> that store a
  single string; \<open>sel\<close> is the node handed to the list decoder, which differs between the
  decoders.
\<close>

definition decode_field ::
  "string list \<Rightarrow> (xnode \<Rightarrow> xnode option) \<Rightarrow> xnode \<Rightarrow> mmessage \<Rightarrow> mmessage" where
  "decode_field plain sel c m =
     (let ndtype = attr c ''type''; nm = attr c ''name''
      in if ndtype \<in> set plain
         then m\<lparr>mfields := sm_put nm (ms_of_string (attr c ''value'')) (mfields m)\<rparr>
         else if ndtype = ''MstringList''
         then m\<lparr>mfields := sm_put nm (snd (ms_xmlDecode ms_empty (sel c))) (mfields m)\<rparr>
         else m)"

definition m_xmlDecode_doc :: "xnode list \<Rightarrow> mmessage \<Rightarrow> (bool \<times> mmessage) option" where
  "m_xmlDecode_doc doc m =
     (case doc of
        [] \<Rightarrow> None
      | [_] \<Rightarrow> Some (False, m)
      | _ # d # _ \<Rightarrow>
          let st = attr d ''subtype'';
              m' = m\<lparr>mtype := st, msubtype := st, mfields := []\<rparr>
          in Some (True, fold (decode_field [''Mstring''] Some) (children d) m'))"

definition m_xmlDecode :: "xnode option \<Rightarrow> mmessage \<Rightarrow> bool \<times> mmessage" where
  "m_xmlDecode desc m =
     (case desc of
        None \<Rightarrow> (False, m)
      | Some d \<Rightarrow>
          let st = attr d ''subtype'';
              m' = m\<lparr>mtype := st, msubtype := st, mfields := []\<rparr>
          in (True, fold (decode_field [''Mstring''] first_child) (children d) m'))"

definition m_xmlAppend :: "xnode list \<Rightarrow> mmessage \<Rightarrow> (bool \<times> mmessage) option" where
  "m_xmlAppend doc m =
     (case doc of
        [] \<Rightarrow> None
      | [_] \<Rightarrow> Some (False, m)
      | _ # d # _ \<Rightarrow>
          let m' = m\<lparr>mtype := attr d ''type'', msubtype := attr d ''subtype''\<rparr>
          in Some (True, fold (decode_field [''Mstring'', ''*''] first_child) (children d) m'))"

definition html_store :: "string \<Rightarrow> string \<Rightarrow> mmessage \<Rightarrow> mmessage" where
  "html_store tname tvalue m =
     (if tname = ''type'' then m\<lparr>mtype := tvalue\<rparr>
      else if tname = ''subtype'' then m\<lparr>msubtype := tvalue\<rparr>
      else m\<lparr>mfields := sm_put tname (ms_of_string tvalue) (mfields m)\<rparr>)"

definition html_store_last :: "string \<Rightarrow> string \<Rightarrow> mmessage \<Rightarrow> mmessage" where
  "html_store_last tname tvalue m =
     (if tname = ''type'' \<or> tname = ''subtype'' \<or> (tname \<noteq> '''' \<and> tvalue \<noteq> '''')
      then html_store tname tvalue m else m)"

fun html_scan :: "bool \<Rightarrow> string \<Rightarrow> string \<Rightarrow> mmessage \<Rightarrow> string \<Rightarrow> mmessage" where
  "html_scan flag tname tvalue m [] = html_store_last tname tvalue m"
| "html_scan flag tname tvalue m (c # cs) =
     (if c = CHR ''='' then html_scan True tname tvalue m cs
      else if c = CHR '' '' then html_scan flag tname tvalue m cs
      else if c = CHR ''&'' then html_scan False '''' '''' (html_store tname tvalue m) cs
      else if flag then html_scan flag tname (tvalue @ [c]) m cs
      else html_scan flag (tname @ [c]) tvalue m cs)"

definition m_htmlAppend :: "string \<Rightarrow> mmessage \<Rightarrow> mmessage" where
  "m_htmlAppend q m = html_scan False '''' '''' (m\<lparr>msubtype := ''*''\<rparr>) q"

definition m_myclear :: "mmessage \<Rightarrow> mmessage" where
  "m_myclear m = m\<lparr>mfields := []\<rparr>"


subsection \<open>Well-formed messages\<close>

text \<open>The shape every operation keeps: fields in key order, and a field of type
  \<^verbatim>\<open>Mstring\<close> holds exactly one string.\<close>

definition ms_wf :: "mstring_list \<Rightarrow> bool" where
  "ms_wf l \<longleftrightarrow> (mytype l = ''Mstring'' \<and> length (items l) = 1) \<or> mytype l = ''MstringList''"

definition m_wf :: "mmessage \<Rightarrow> bool" where
  "m_wf m \<longleftrightarrow> sm_ordered (mfields m) \<and> (\<forall>(f, l) \<in> set (mfields m). ms_wf l)"

lemma ms_wf_of_string [simp]: "ms_wf (ms_of_string v)"
  by (simp add: ms_wf_def ms_of_string_def)

lemma ms_wf_of_list [simp]: "ms_wf (ms_of_list v)"
  by (simp add: ms_wf_def ms_of_list_def)

lemma ms_wf_add [simp]: "ms_wf l \<Longrightarrow> ms_wf (ms_add l v)"
  by (auto simp: ms_wf_def ms_add_def)

lemma ms_wf_add_list [simp]: "ms_wf l \<Longrightarrow> ms_wf (snd (ms_add_list l v))"
  by (auto simp: ms_wf_def ms_add_list_def)

lemma ms_wf_decode [simp]: "ms_wf (snd (ms_xmlDecode ms_empty d))"
  by (auto simp: ms_wf_def ms_xmlDecode_def ms_empty_def split: option.splits prod.splits)

lemma m_wf_put: "m_wf m \<Longrightarrow> ms_wf l \<Longrightarrow> m_wf (m\<lparr>mfields := sm_put f l (mfields m)\<rparr>)"
  using set_put_subset [of f l "mfields m"] by (fastforce simp: m_wf_def hat_inv)

lemma m_wf_find: "m_wf m \<Longrightarrow> sm_find (mfields m) f = Some l \<Longrightarrow> ms_wf l"
  by (auto simp: m_wf_def dest!: sm_find_in_set)

lemma m_wf_header [simp]:
  "m_wf (m\<lparr>mtype := t\<rparr>) = m_wf m" "m_wf (m\<lparr>msubtype := t\<rparr>) = m_wf m"
  by (simp_all add: m_wf_def)

lemma m_wf_new [simp]: "m_wf (m_new t st)" "m_wf m_default" "m_wf (m_type t)"
  "m_wf (m\<lparr>mfields := []\<rparr>)"
  by (simp_all add: m_wf_def m_new_def m_default_def m_type_def)

lemma m_wf_add [hat_inv]: "m_wf m \<Longrightarrow> m_wf (m_add m f v)"
  by (auto simp: m_add_def sm_insert_def split: option.splits intro!: m_wf_put dest: m_wf_find)

lemma m_wf_add_list [hat_inv]: "m_wf m \<Longrightarrow> m_wf (snd (m_add_list m f v))"
  by (auto simp: m_add_list_def sm_insert_def split: option.splits intro!: m_wf_put dest: m_wf_find)

lemma m_wf_remove [hat_inv]: "m_wf m \<Longrightarrow> m_wf (snd (m_remove m f))"
  by (auto simp: m_remove_def m_wf_def sm_erase_def hat_inv [unfolded sm_erase_def] split: option.splits)

lemma m_wf_decode_field: "m_wf m \<Longrightarrow> m_wf (decode_field plain sel c m)"
  by (simp add: decode_field_def Let_def m_wf_put)

lemma m_wf_fold_decode: "m_wf m \<Longrightarrow> m_wf (fold (decode_field plain sel) cs m)"
  by (induction cs arbitrary: m) (simp_all add: m_wf_decode_field)

lemma m_wf_xmlAppend [hat_inv]: "m_wf m \<Longrightarrow> m_xmlAppend doc m = Some (r, m') \<Longrightarrow> m_wf m'"
  by (auto simp: m_xmlAppend_def Let_def split: list.splits intro!: m_wf_fold_decode)

lemma m_wf_html_store: "m_wf m \<Longrightarrow> m_wf (html_store n v m)"
  by (simp add: html_store_def m_wf_put)

lemma m_wf_html_scan: "m_wf m \<Longrightarrow> m_wf (html_scan flag n v m q)"
  by (induction flag n v m q rule: html_scan.induct)
    (simp_all add: html_store_last_def m_wf_html_store)

lemma m_wf_htmlAppend [hat_inv]: "m_wf m \<Longrightarrow> m_wf (m_htmlAppend q m)"
  by (simp add: m_htmlAppend_def m_wf_html_scan)

subsection \<open>Reading what was stored\<close>

lemma ms_getString_of_string [simp]: "ms_getString (ms_of_string v) = v"
  by (simp add: ms_getString_def ms_of_string_def)

lemma ms_getString_add_Mstring:
  "ms_wf l \<Longrightarrow> mytype l = ''Mstring'' \<Longrightarrow> ms_getString (ms_add l v) = v"
  by (auto simp: ms_wf_def ms_getString_def ms_add_def)

lemma m_getString_add_other [simp]: "f' \<noteq> f \<Longrightarrow> m_getString (m_add m f v) f' = m_getString m f'"
  by (auto simp: m_getString_def m_add_def split: option.splits)

lemma m_getString_add_fresh:
  "sm_find (mfields m) f = None \<Longrightarrow> m_getString (m_add m f v) f = v"
  by (simp add: m_getString_def m_add_def)

lemma m_add_header [simp]:
  "mtype (m_add m f v) = mtype m" "msubtype (m_add m f v) = msubtype m"
  "priority (m_add m f v) = priority m"
  by (simp_all add: m_add_def split: option.splits)

lemma m_getList_add_list_fresh:
  "sm_find (mfields m) f = None \<Longrightarrow> m_getList (snd (m_add_list m f v)) f = v"
  by (simp add: m_getList_def m_add_list_def ms_getList_def ms_of_list_def)

lemma m_add_find_other [simp]: "k \<noteq> f \<Longrightarrow> sm_find (mfields (m_add m f v)) k = sm_find (mfields m) k"
  by (simp add: m_add_def split: option.splits)

lemma m_getList_add_other [simp]: "k \<noteq> f \<Longrightarrow> m_getList (m_add m f v) k = m_getList m k"
  by (simp add: m_getList_def)

lemma m_add_list_find_other [simp]: "k \<noteq> f \<Longrightarrow> sm_find (mfields (snd (m_add_list m f v))) k = sm_find (mfields m) k"
  by (simp add: m_add_list_def split: option.splits)

lemma m_getString_add_list_other [simp]: "k \<noteq> f \<Longrightarrow> m_getString (snd (m_add_list m f v)) k = m_getString m k"
  by (simp add: m_getString_def)

lemma m_add_list_header [simp]:
  "mtype (snd (m_add_list m f v)) = mtype m" "msubtype (snd (m_add_list m f v)) = msubtype m"
  by (simp_all add: m_add_list_def split: option.splits)

lemma m_add_fetch:
  assumes "m_wf m" and "\<forall>l. sm_find (mfields m) f = Some l \<longrightarrow> mytype l \<noteq> ''MstringList''"
  shows "m_getString (m_add m f v) f' = (if f' = f then v else m_getString m f')"
proof (cases "sm_find (mfields m) f")
  case None
  then show ?thesis by (simp add: m_getString_add_fresh)
next
  case (Some l)
  with assms have "ms_wf l" "mytype l = ''Mstring''"
    by (auto dest: m_wf_find simp: ms_wf_def)
  with Some show ?thesis
    by (auto simp: m_getString_def m_add_def ms_getString_add_Mstring)
qed

text \<open>A message whose fields are all single texts.\<close>

definition m_texts :: "mmessage \<Rightarrow> bool" where
  "m_texts m \<longleftrightarrow> m_wf m \<and> (\<forall>f l. sm_find (mfields m) f = Some l \<longrightarrow> mytype l = ''Mstring'')"

lemma m_texts_new [simp]: "m_texts (m_new t st)"
  by (simp add: m_texts_def m_new_def m_wf_def)

lemma m_texts_add [simp]: "m_texts m \<Longrightarrow> m_texts (m_add m f v)"
proof -
  assume m: "m_texts m"
  then have "mytype l = ''Mstring''" if "sm_find (mfields (m_add m f v)) k = Some l" for k l
    using that by (auto simp: m_texts_def m_add_def ms_of_string_def ms_add_def split: option.splits if_splits)
  with m show ?thesis by (simp add: m_texts_def m_wf_add)
qed

lemma m_texts_get [simp]: "m_texts m \<Longrightarrow> m_getString (m_add m f v) f = v"
  by (simp add: m_add_fetch m_texts_def)

text \<open>In a well-formed message, storing a string in a field that is not a list makes
  \<open>getString\<close> return it (the last value wins) and leaves every other field alone.\<close>

lemma m_add_getString:
  assumes "m_wf m" and "\<forall>l. sm_find (mfields m) f = Some l \<longrightarrow> mytype l \<noteq> ''MstringList''"
  shows "m_getString (m_add m f v) f' = (if f' = f then v else m_getString m f')"
  by (rule m_add_fetch [OF assms])

subsection \<open>Query strings\<close>

definition query_pair :: "string \<times> string \<Rightarrow> string" where
  "query_pair p = fst p @ ''='' @ snd p"

definition query :: "(string \<times> string) list \<Rightarrow> string" where
  "query kvs = join_names (CHR ''&'') (map query_pair kvs)"

definition query_text :: "string \<Rightarrow> bool" where
  "query_text s \<longleftrightarrow> s \<noteq> '''' \<and> CHR ''='' \<notin> set s \<and> CHR '' '' \<notin> set s \<and> CHR ''&'' \<notin> set s"

lemma html_scan_name:
  "CHR ''='' \<notin> set k \<Longrightarrow> CHR '' '' \<notin> set k \<Longrightarrow> CHR ''&'' \<notin> set k \<Longrightarrow>
   html_scan False n v m (k @ cs) = html_scan False (n @ k) v m cs"
  by (induction k arbitrary: n) auto

lemma html_scan_value:
  "CHR ''='' \<notin> set t \<Longrightarrow> CHR '' '' \<notin> set t \<Longrightarrow> CHR ''&'' \<notin> set t \<Longrightarrow>
   html_scan True n v m (t @ cs) = html_scan True n (v @ t) m cs"
  by (induction t arbitrary: v) auto

lemma html_scan_pair:
  assumes "query_text k" and "query_text t"
  shows "html_scan False '''' '''' m (query_pair (k, t) @ cs) = html_scan True k t m cs"
  using assms
  by (simp add: query_pair_def query_text_def html_scan_name html_scan_value)

lemma html_scan_query:
  assumes "kvs \<noteq> []" and "\<forall>(k, t) \<in> set kvs. query_text k \<and> query_text t"
  shows "html_scan False '''' '''' m (query kvs) = fold (\<lambda>(k, t). html_store k t) kvs m"
  using assms
proof (induction kvs arbitrary: m)
  case Nil
  then show ?case by simp
next
  case (Cons p kvs)
  obtain k t where p: "p = (k, t)" by (cases p)
  with Cons.prems have kt: "query_text k" "query_text t" by auto
  show ?case
  proof (cases kvs)
    case Nil
    with p kt html_scan_pair [OF kt, of m "[]"] show ?thesis
      by (simp add: query_def html_store_last_def query_text_def)
  next
    case (Cons q rest)
    have "query (p # kvs) = query_pair (k, t) @ CHR ''&'' # query kvs"
      using p Cons by (simp add: query_def)
    with p kt Cons Cons.IH Cons.prems show ?thesis
      by (simp add: html_scan_pair)
  qed
qed

text \<open>\<open>htmlAppend\<close> decodes a query string into exactly the stores its pairs stand for,
  in order: \<open>type\<close> and \<open>subtype\<close> set the header, every other key sets a string field.\<close>

lemma htmlAppend_query:
  assumes "kvs \<noteq> []" and "\<forall>(k, t) \<in> set kvs. query_text k \<and> query_text t"
  shows "m_htmlAppend (query kvs) m
           = fold (\<lambda>(k, t). html_store k t) kvs (m\<lparr>msubtype := ''*''\<rparr>)"
  using html_scan_query [OF assms] by (simp add: m_htmlAppend_def)

subsection \<open>XML documents\<close>

text \<open>The document that \<open>xmlEncode\<close> writes, as a tree.\<close>

definition field_node :: "string \<times> mstring_list \<Rightarrow> xnode" where
  "field_node p = (let (f, l) = p in
     if mytype l = ''Mstring''
     then XElement ''field'' [(''name'', f), (''type'', mytype l), (''value'', items l ! 0)] []
     else XElement ''field'' [(''name'', f), (''type'', mytype l)]
            (map (\<lambda>v. XElement ''item'' [(''value'', v)] []) (items l)))"

definition message_node :: "mmessage \<Rightarrow> xnode" where
  "message_node m = XElement ''message'' [(''type'', mtype m), (''subtype'', msubtype m)]
     (map field_node (mfields m))"

definition emptied :: "mstring_list \<Rightarrow> mstring_list" where
  "emptied l = (if mytype l = ''Mstring'' then l else ms_empty)"

lemma items_decode_items:
  "items_decode acc (map (\<lambda>v. XElement ''item'' [(''value'', v)] []) vs) = (True, acc @ vs)"
  by (induction vs arbitrary: acc) auto

lemma ms_wf_single: "ms_wf l \<Longrightarrow> mytype l = ''Mstring'' \<Longrightarrow> ms_of_string (items l ! 0) = l"
  by (cases l) (auto simp: ms_wf_def ms_of_string_def length_Suc_conv)

lemma first_child_item:
  "snd (ms_xmlDecode ms_empty (first_child (XElement ''field'' as (map (\<lambda>v. XElement ''item'' [(''value'', v)] []) vs))))
     = ms_empty"
  by (cases vs) (simp_all add: first_child_def ms_xmlDecode_def ms_empty_def)

lemma decode_field_append:
  assumes "ms_wf l" and "set plain \<subseteq> {''Mstring'', ''*''}" and "''Mstring'' \<in> set plain"
  shows "decode_field plain first_child (field_node (f, l)) m
           = m\<lparr>mfields := sm_put f (emptied l) (mfields m)\<rparr>"
proof (cases "mytype l = ''Mstring''")
  case True
  with assms show ?thesis
    by (simp add: decode_field_def field_node_def emptied_def ms_wf_single)
next
  case False
  with assms(1) have "mytype l = ''MstringList''" by (simp add: ms_wf_def)
  moreover have "''MstringList'' \<notin> set plain" using assms(2) by auto
  ultimately show ?thesis
    using first_child_item [of "[(''name'', f), (''type'', ''MstringList'')]" "items l"]
    by (simp add: decode_field_def field_node_def emptied_def)
qed

lemma decode_field_doc:
  assumes "ms_wf l"
  shows "decode_field [''Mstring''] Some (field_node (f, l)) m
           = m\<lparr>mfields := sm_put f l (mfields m)\<rparr>"
proof (cases "mytype l = ''Mstring''")
  case True
  with assms show ?thesis by (simp add: decode_field_def field_node_def ms_wf_single)
next
  case False
  with assms have "mytype l = ''MstringList''" by (simp add: ms_wf_def)
  then show ?thesis
    by (cases l) (simp add: decode_field_def field_node_def ms_xmlDecode_def items_decode_items ms_empty_def)
qed

lemma fold_put_find:
  "distinct (map fst fs) \<Longrightarrow>
   sm_find (fold (\<lambda>(f, l). sm_put f (g l)) fs n) k
     = (case sm_find fs k of Some l \<Rightarrow> Some (g l) | None \<Rightarrow> sm_find n k)"
proof (induction fs arbitrary: n)
  case Nil
  then show ?case by simp
next
  case (Cons p fs)
  obtain f l where p: "p = (f, l)" by (cases p)
  with Cons.prems have "sm_find fs f = None" by (simp add: sm_find_None)
  with Cons p show ?case by (auto split: option.splits)
qed

lemma ordered_distinct: "sm_ordered (m :: ('k::linorder, 'v) smap) \<Longrightarrow> distinct (map fst m)"
  by (metis strict_sorted_iff)

lemma fold_decode_fields:
  assumes "\<forall>(f, l) \<in> set fs. \<forall>m. decode_field plain sel (field_node (f, l)) m
             = m\<lparr>mfields := sm_put f (g l) (mfields m)\<rparr>"
  shows "fold (decode_field plain sel) (map field_node fs) m
           = m\<lparr>mfields := fold (\<lambda>(f, l). sm_put f (g l)) fs (mfields m)\<rparr>"
  using assms by (induction fs arbitrary: m) auto

text \<open>A well-formed message that reaches an agent as an XML body keeps its type, its
  subtype and its string fields, but every list field arrives empty: \<open>xmlAppend\<close> hands the
  list decoder the first item instead of the field.\<close>

lemma xmlAppend_message:
  assumes "m_wf m"
  shows "\<exists>m'. m_xmlAppend [XDeclaration, message_node m] m0 = Some (True, m')
    \<and> mtype m' = mtype m \<and> msubtype m' = msubtype m
    \<and> (\<forall>f. sm_find (mfields m') f =
           (case sm_find (mfields m) f of Some l \<Rightarrow> Some (emptied l) | None \<Rightarrow> sm_find (mfields m0) f))"
proof -
  let ?m1 = "m0\<lparr>mtype := mtype m, msubtype := msubtype m\<rparr>"
  let ?m' = "fold (decode_field [''Mstring'', ''*''] first_child) (map field_node (mfields m)) ?m1"
  have eq: "?m' = ?m1\<lparr>mfields := fold (\<lambda>(f, l). sm_put f (emptied l)) (mfields m) (mfields ?m1)\<rparr>"
    using assms by (intro fold_decode_fields) (auto simp: m_wf_def decode_field_append)
  have "sm_find (mfields ?m') f =
      (case sm_find (mfields m) f of Some l \<Rightarrow> Some (emptied l) | None \<Rightarrow> sm_find (mfields m0) f)" for f
    using assms by (simp only: eq) (simp add: fold_put_find m_wf_def ordered_distinct)
  moreover have "m_xmlAppend [XDeclaration, message_node m] m0 = Some (True, ?m')"
    by (simp add: m_xmlAppend_def message_node_def)
  moreover have "mtype ?m' = mtype m" "msubtype ?m' = msubtype m" by (simp_all only: eq) simp_all
  ultimately show ?thesis by blast
qed

end
