(* ===== verification/Params.thy ===== *)
theory Params
  imports Message
begin

text \<open>
  Parameter sets: \<^verbatim>\<open>MAttribute\<close> (\<^verbatim>\<open>src/agents/minilibs/Mattribute.cpp\<close>), the
  template \<^verbatim>\<open>setof\<close> (\<^verbatim>\<open>template.h\<close>) at that class, and \<^verbatim>\<open>MParams\<close>
  (\<^verbatim>\<open>agentlib.h\<close>), the configuration every device, rule and program is built from.
  A set is a vector: a key may occur more than once, \<open>get\<close> returns the first non-empty value.
  The files are an argument \<open>fs\<close>; an unreadable or ill-formed file is \<open>NotXml\<close>.
  The locale \<open>text_store\<close> is the contract that messages and parameter sets share.
\<close>

subsection \<open>Attributes\<close>

record mattribute =
  ma_name :: string
  ma_category :: string
  ma_value :: string

definition ma_new :: "string \<Rightarrow> string \<Rightarrow> string \<Rightarrow> mattribute" where
  "ma_new a c b = \<lparr>ma_name = a, ma_category = c, ma_value = b\<rparr>"

definition ma_xmlEncode :: "int \<Rightarrow> mattribute \<Rightarrow> string" where
  "ma_xmlEncode md a =
     (if md > 0 then xml_header else '''')
     @ ''<attribute name='' @ quote @ ma_name a @ quote @ '' category='' @ quote @ ma_category a @ quote
     @ '' value='' @ quote @ ma_value a @ quote @ ''/>''"

definition ma_xmlPrint :: "int \<Rightarrow> mattribute \<Rightarrow> string" where
  "ma_xmlPrint md a =
     (if md > 0 then xml_header else '''')
     @ ''<attribute name='' @ quote @ ma_name a @ quote @ '' value='' @ quote @ ma_value a @ quote @ ''/>''"

definition ma_xmlDecode :: "xnode option \<Rightarrow> mattribute \<Rightarrow> bool \<times> mattribute" where
  "ma_xmlDecode desc a =
     (case ToElement desc of
        None \<Rightarrow> (False, a)
      | Some e \<Rightarrow>
          let category = getAttrbyName (Some e) ''category''
          in (True, \<lparr>ma_name = getAttrbyName (Some e) ''name'',
                     ma_category = (if category = ''*'' then ''generic'' else category),
                     ma_value = getAttrbyName (Some e) ''value''\<rparr>))"

text \<open>The decoder of a text stores the category in \<open>value\<close>, which the next line overwrites:
  the category keeps its old value.\<close>

definition ma_xmlDecode_doc :: "xnode list \<Rightarrow> mattribute \<Rightarrow> bool \<times> mattribute" where
  "ma_xmlDecode_doc doc a =
     (case doc of
        _ # d # _ \<Rightarrow>
          (case ToElement (Some d) of
             None \<Rightarrow> (False, a)
           | Some e \<Rightarrow>
               (True, \<lparr>ma_name = getAttrbyName (Some e) ''name'',
                  ma_category = (if ma_category a = ''*'' then ''generic'' else ma_category a),
                  ma_value = getAttrbyName (Some e) ''value''\<rparr>))
      | _ \<Rightarrow> (False, a))"

definition ma_member :: "string \<Rightarrow> mattribute \<Rightarrow> bool" where
  "ma_member n a \<longleftrightarrow> n = ma_name a \<and> (ma_value a = ''ON'' \<or> ma_value a = ''true'')"

text \<open>The constructor from a node: a node that is not an element leaves empty strings.\<close>

definition ma_of_node :: "xnode \<Rightarrow> mattribute" where
  "ma_of_node c = snd (ma_xmlDecode (Some c) \<lparr>ma_name = '''', ma_category = '''', ma_value = ''''\<rparr>)"

subsection \<open>Sets of attributes\<close>

datatype file_state = Missing | NotXml | Xml "xnode list"

type_synonym file_store = "string \<Rightarrow> file_state"

record mparams =
  pty :: string
  ppath :: string
  ppathh :: string
  attrs :: "mattribute list"

definition set_open :: "string \<Rightarrow> string" where
  "set_open ty = (if ty = '''' then ''<set>'' else ''<set type='' @ quote @ ty @ quote @ ''>'')"

definition set_xmlEncode :: "int \<Rightarrow> mparams \<Rightarrow> string" where
  "set_xmlEncode md p =
     (if md > 0 then xml_header else '''') @ set_open (pty p)
     @ concat (map (ma_xmlEncode 0) (attrs p)) @ ''</set>''"

definition set_xmlPrint :: "int \<Rightarrow> mparams \<Rightarrow> string" where
  "set_xmlPrint md p =
     (if md > 0 then xml_header @ [CHR 0x0A] else '''') @ set_open (pty p) @ [CHR 0x0A]
     @ concat (map (\<lambda>a. ma_xmlPrint 0 a @ [CHR 0x0A]) (attrs p)) @ ''</set>'' @ [CHR 0x0A]"

definition set_xmlDecode :: "xnode option \<Rightarrow> mparams \<Rightarrow> bool \<times> mparams" where
  "set_xmlDecode desc p =
     (case desc of
        None \<Rightarrow> (False, p)
      | Some d \<Rightarrow> (True, p\<lparr>pty := attr d ''type'', attrs := map ma_of_node (children d)\<rparr>))"

definition set_xmlLoad :: "file_state \<Rightarrow> mparams \<Rightarrow> (bool \<times> mparams) option" where
  "set_xmlLoad f p =
     (case f of
        Xml [] \<Rightarrow> None
      | Xml [_] \<Rightarrow> Some (set_xmlDecode None p)
      | Xml (_ # d # _) \<Rightarrow> Some (set_xmlDecode (Some d) p)
      | _ \<Rightarrow> Some (False, p))"

definition set_member :: "string \<Rightarrow> mparams \<Rightarrow> bool" where
  "set_member n p \<longleftrightarrow> (\<exists>a \<in> set (attrs p). ma_member n a)"

subsection \<open>Parameter sets\<close>

definition mp_new :: "string \<Rightarrow> string \<Rightarrow> string \<Rightarrow> mparams" where
  "mp_new configdir homedir name =
     \<lparr>pty = name, ppath = configdir @ ''/'' @ name @ ''.xml'',
      ppathh = homedir @ ''/'' @ name @ ''.xml'', attrs = []\<rparr>"

definition mp_new_dir :: "string \<Rightarrow> string \<Rightarrow> string \<Rightarrow> string \<Rightarrow> mparams" where
  "mp_new_dir configdir homedir dir name =
     \<lparr>pty = name, ppath = configdir @ ''/'' @ dir @ ''/'' @ name @ ''.xml'',
      ppathh = homedir @ ''/'' @ dir @ ''/'' @ name @ ''.xml'', attrs = []\<rparr>"

definition mp_default :: mparams where
  "mp_default = \<lparr>pty = ''nonname'', ppath = ''/tmp'', ppathh = ''/tmp'', attrs = []\<rparr>"

text \<open>The home directory is preferred to the configuration directory.\<close>

definition mp_load :: "file_store \<Rightarrow> mparams \<Rightarrow> (bool \<times> mparams) option" where
  "mp_load fs p =
     (if fs (ppathh p) \<noteq> Missing then set_xmlLoad (fs (ppathh p)) p else set_xmlLoad (fs (ppath p)) p)"

definition mp_reset :: "file_store \<Rightarrow> mparams \<Rightarrow> (bool \<times> mparams) option" where
  "mp_reset fs p = set_xmlLoad (fs (ppath p)) p"

text \<open>\<open>save\<close> and \<open>config\<close> write a text to a path.\<close>

definition mp_save :: "mparams \<Rightarrow> string \<times> string" where
  "mp_save p = (ppathh p, set_xmlEncode 1 p)"

definition mp_config :: "mparams \<Rightarrow> string \<times> string" where
  "mp_config p = (ppath p, set_xmlEncode 1 p)"

fun get_loop :: "(mattribute \<Rightarrow> bool) \<Rightarrow> (mattribute \<Rightarrow> string) \<Rightarrow> mattribute list \<Rightarrow> string" where
  "get_loop sel out [] = ''''"
| "get_loop sel out (a # as) = (if sel a \<and> out a \<noteq> '''' then out a else get_loop sel out as)"

fun set_loop :: "(mattribute \<Rightarrow> bool) \<Rightarrow> string \<Rightarrow> mattribute list \<Rightarrow> (mattribute list) option" where
  "set_loop sel v [] = None"
| "set_loop sel v (a # as) =
     (if sel a then Some (a\<lparr>ma_value := v\<rparr> # as) else map_option (Cons a) (set_loop sel v as))"

abbreviation key_is :: "string \<Rightarrow> string \<Rightarrow> mattribute \<Rightarrow> bool" where
  "key_is n c a \<equiv> ma_name a = n \<and> ma_category a = c"

definition mp_get_cat :: "mparams \<Rightarrow> string \<Rightarrow> string \<Rightarrow> string" where
  "mp_get_cat p name category = get_loop (key_is name category) ma_value (attrs p)"

definition mp_get :: "mparams \<Rightarrow> string \<Rightarrow> string" where
  "mp_get p name = get_loop (key_is name ''generic'') ma_value (attrs p)"

definition mp_categoryof :: "mparams \<Rightarrow> string \<Rightarrow> string" where
  "mp_categoryof p name = get_loop (\<lambda>a. ma_name a = name) ma_category (attrs p)"

definition mp_set_cat :: "mparams \<Rightarrow> string \<Rightarrow> string \<Rightarrow> string \<Rightarrow> bool \<times> mparams" where
  "mp_set_cat p name category value =
     (case set_loop (key_is name category) value (attrs p) of
        Some as \<Rightarrow> (True, p\<lparr>attrs := as\<rparr>)
      | None \<Rightarrow> (False, p))"

definition mp_set :: "mparams \<Rightarrow> string \<Rightarrow> string \<Rightarrow> bool \<times> mparams" where
  "mp_set p name value =
     (case set_loop (key_is name ''generic'') value (attrs p) of
        Some as \<Rightarrow> (True, p\<lparr>attrs := as\<rparr>)
      | None \<Rightarrow> (False, p))"

definition mp_add_cat :: "mparams \<Rightarrow> string \<Rightarrow> string \<Rightarrow> string \<Rightarrow> mparams" where
  "mp_add_cat p name category value =
     (case set_loop (key_is name category) value (attrs p) of
        Some as \<Rightarrow> p\<lparr>attrs := as\<rparr>
      | None \<Rightarrow> p\<lparr>attrs := attrs p @ [ma_new name category value]\<rparr>)"

definition mp_add :: "mparams \<Rightarrow> string \<Rightarrow> string \<Rightarrow> mparams" where
  "mp_add p name value =
     (case set_loop (key_is name ''generic'') value (attrs p) of
        Some as \<Rightarrow> p\<lparr>attrs := as\<rparr>
      | None \<Rightarrow> p\<lparr>attrs := attrs p @ [ma_new name ''generic'' value]\<rparr>)"

text \<open>\<open>checkValue\<close> with a category does not look at the category.\<close>

definition mp_checkValue_cat :: "mparams \<Rightarrow> string \<Rightarrow> string \<Rightarrow> bool" where
  "mp_checkValue_cat p value category \<longleftrightarrow> (\<exists>a \<in> set (attrs p). ma_value a = value)"

definition mp_checkValue :: "mparams \<Rightarrow> string \<Rightarrow> bool" where
  "mp_checkValue p value \<longleftrightarrow> (\<exists>a \<in> set (attrs p). ma_value a = value)"

definition mp_extractNamed :: "mparams \<Rightarrow> string \<Rightarrow> mattribute list" where
  "mp_extractNamed p name = filter (\<lambda>a. ma_name a = name) (attrs p)"

definition mp_extractCategory :: "mparams \<Rightarrow> string \<Rightarrow> mattribute list" where
  "mp_extractCategory p category = filter (\<lambda>a. ma_category a = category) (attrs p)"

text \<open>\<open>update\<close> returns the number of attributes the message changed, the new set and the
  text it saves.\<close>

definition mp_update :: "mparams \<Rightarrow> mmessage \<Rightarrow> nat \<times> mparams \<times> (string \<times> string)" where
  "mp_update p m =
     (let hit = (\<lambda>a. m_getString m (ma_name a) \<noteq> '''');
          p' = p\<lparr>attrs := map (\<lambda>a. if hit a then a\<lparr>ma_value := m_getString m (ma_name a)\<rparr> else a) (attrs p)\<rparr>
      in (length (filter hit (attrs p)), p', mp_save p'))"

subsection \<open>Reading what was stored\<close>

lemma get_loop_append: "get_loop sel out (as @ bs) =
    (if get_loop sel out as \<noteq> '''' then get_loop sel out as else get_loop sel out bs)"
  by (induction as) auto

lemma get_loop_none: "\<forall>a \<in> set as. \<not> sel a \<Longrightarrow> get_loop sel out as = ''''"
  by (induction as) auto

lemma set_loop_None: "set_loop sel v as = None \<longleftrightarrow> (\<forall>a \<in> set as. \<not> sel a)"
  by (induction as) auto

lemma set_loop_split:
  "set_loop sel v as = Some bs \<Longrightarrow>
   \<exists>xs a ys. as = xs @ a # ys \<and> sel a \<and> (\<forall>x \<in> set xs. \<not> sel x) \<and> bs = xs @ a\<lparr>ma_value := v\<rparr> # ys"
proof (induction as arbitrary: bs)
  case Nil
  then show ?case by simp
next
  case (Cons a as)
  show ?case
  proof (cases "sel a")
    case True
    with Cons.prems show ?thesis
      by (intro exI [of _ "[]"] exI [of _ a] exI [of _ as]) auto
  next
    case False
    with Cons.prems obtain cs where cs: "set_loop sel v as = Some cs" "bs = a # cs" by auto
    from Cons.IH [OF cs(1)] obtain xs b ys where "as = xs @ b # ys" "sel b"
      "\<forall>x \<in> set xs. \<not> sel x" "cs = xs @ b\<lparr>ma_value := v\<rparr> # ys" by blast
    with False cs(2) show ?thesis
      by (intro exI [of _ "a # xs"] exI [of _ b] exI [of _ ys]) auto
  qed
qed

lemma get_set_loop:
  assumes "set_loop (key_is n c) v as = Some bs" and "v \<noteq> ''''"
  shows "get_loop (key_is n' c') ma_value bs =
    (if n' = n \<and> c' = c then v else get_loop (key_is n' c') ma_value as)"
proof -
  from set_loop_split [OF assms(1)] obtain xs a ys where eq:
    "as = xs @ a # ys" "key_is n c a" "\<forall>x \<in> set xs. \<not> key_is n c x"
    "bs = xs @ a\<lparr>ma_value := v\<rparr> # ys" by blast
  then show ?thesis
    using assms(2) by (auto simp: get_loop_append get_loop_none)
qed

lemma mp_get_cat_add_cat:
  "v \<noteq> '''' \<Longrightarrow> mp_get_cat (mp_add_cat p n c v) n' c' =
     (if n' = n \<and> c' = c then v else mp_get_cat p n' c')"
  unfolding mp_get_cat_def mp_add_cat_def
  by (auto simp: get_set_loop get_loop_append get_loop_none set_loop_None ma_new_def
      split: option.splits)

lemma get_set_other:
  assumes "set_loop (key_is n c) v as = Some bs" and "c' \<noteq> c"
  shows "get_loop (key_is n' c') ma_value bs = get_loop (key_is n' c') ma_value as"
  using set_loop_split [OF assms(1)] assms(2) by (auto simp: get_loop_append)

lemma mp_get_cat_add_other:
  "c' \<noteq> c \<Longrightarrow> mp_get_cat (mp_add_cat p n c v) n' c' = mp_get_cat p n' c'"
  unfolding mp_get_cat_def mp_add_cat_def
  by (auto simp: get_set_other get_loop_append get_loop_none ma_new_def split: option.splits)

lemma mp_get_as_cat: "mp_get p n = mp_get_cat p n ''generic''"
  by (simp add: mp_get_def mp_get_cat_def)

lemma mp_add_as_cat: "mp_add p n v = mp_add_cat p n ''generic'' v"
  by (simp add: mp_add_def mp_add_cat_def)

lemma mp_get_add: "v \<noteq> '''' \<Longrightarrow> mp_get (mp_add p n v) n' = (if n' = n then v else mp_get p n')"
  by (simp add: mp_get_as_cat mp_add_as_cat mp_get_cat_add_cat)

lemma mp_set_add: "fst (mp_set p n v) \<Longrightarrow> snd (mp_set p n v) = mp_add p n v"
  by (auto simp: mp_set_def mp_add_def split: option.splits)

lemma mp_get_set:
  "v \<noteq> '''' \<Longrightarrow> mp_get (snd (mp_set p n v)) k = (if fst (mp_set p n v) \<and> k = n then v else mp_get p k)"
  by (cases "fst (mp_set p n v)") (auto simp: mp_set_add mp_get_add, simp add: mp_set_def split: option.splits)

subsection \<open>Keys stay unique\<close>

definition mp_wf :: "mparams \<Rightarrow> bool" where
  "mp_wf p \<longleftrightarrow> distinct (map (\<lambda>a. (ma_name a, ma_category a)) (attrs p))"

lemma set_loop_keys:
  "set_loop sel v as = Some bs \<Longrightarrow>
   map (\<lambda>a. (ma_name a, ma_category a)) bs = map (\<lambda>a. (ma_name a, ma_category a)) as"
  by (auto dest!: set_loop_split)

lemma mp_wf_add_cat [hat_inv]: "mp_wf p \<Longrightarrow> mp_wf (mp_add_cat p n c v)"
  by (auto simp: mp_wf_def mp_add_cat_def set_loop_None ma_new_def dest: set_loop_keys
      split: option.splits)

lemma mp_wf_add [hat_inv]: "mp_wf p \<Longrightarrow> mp_wf (mp_add p n v)"
  by (simp add: mp_add_as_cat hat_inv)

lemma mp_wf_set [hat_inv]: "mp_wf p \<Longrightarrow> mp_wf (snd (mp_set p n v))"
  by (auto simp: mp_wf_def mp_set_def dest: set_loop_keys split: option.splits)

lemma mp_wf_update [hat_inv]: "mp_wf p \<Longrightarrow> mp_wf (fst (snd (mp_update p m)))"
proof -
  have "(\<lambda>a :: mattribute. (ma_name a, ma_category a))
          \<circ> (\<lambda>a. if m_getString m (ma_name a) \<noteq> '''' then a\<lparr>ma_value := m_getString m (ma_name a)\<rparr> else a)
        = (\<lambda>a. (ma_name a, ma_category a))"
    by (rule ext) simp
  then show "mp_wf p \<Longrightarrow> ?thesis" by (simp add: mp_wf_def mp_update_def Let_def)
qed

lemma mp_wf_new [simp]: "mp_wf (mp_new c h n)" "mp_wf (mp_new_dir c h d n)" "mp_wf mp_default"
  by (simp_all add: mp_wf_def mp_new_def mp_new_dir_def mp_default_def)

subsection \<open>The contract of a store of texts\<close>

text \<open>What the components rely on when they fill a message or a parameter set key by key.\<close>

locale text_store =
  fixes good :: "'s \<Rightarrow> bool"
    and accepts :: "'s \<Rightarrow> string \<Rightarrow> string \<Rightarrow> bool"
    and store :: "'s \<Rightarrow> string \<Rightarrow> string \<Rightarrow> 's"
    and fetch :: "'s \<Rightarrow> string \<Rightarrow> string"
  assumes fetch_store: "good s \<Longrightarrow> accepts s k v \<Longrightarrow>
            fetch (store s k v) k' = (if k' = k then v else fetch s k')"
    and good_store: "good s \<Longrightarrow> good (store s k v)"
    and accepts_store: "good s \<Longrightarrow> accepts s k v \<Longrightarrow> accepts s k' v' \<Longrightarrow> accepts (store s k v) k' v'"
begin

definition store_all :: "(string \<times> string) list \<Rightarrow> 's \<Rightarrow> 's" where
  "store_all kvs s = fold (\<lambda>(k, v) t. store t k v) kvs s"

lemma good_store_all: "good s \<Longrightarrow> good (store_all kvs s)"
  unfolding store_all_def by (induction kvs arbitrary: s) (auto simp: good_store)

lemma fetch_store_all:
  "good s \<Longrightarrow> \<forall>(k, v) \<in> set kvs. accepts s k v \<Longrightarrow>
   fetch (store_all kvs s) k' = (case sm_find (rev kvs) k' of Some v \<Rightarrow> v | None \<Rightarrow> fetch s k')"
proof (induction kvs arbitrary: s)
  case Nil
  then show ?case by (simp add: store_all_def)
next
  case (Cons kv kvs)
  obtain k v where kv: "kv = (k, v)" by (cases kv)
  have ac: "\<forall>(k', v') \<in> set kvs. accepts (store s k v) k' v'"
    using Cons.prems kv accepts_store by fastforce
  have app: "sm_find (xs @ [(k, v)]) k'
      = (case sm_find xs k' of Some w \<Rightarrow> Some w | None \<Rightarrow> if k' = k then Some v else None)" for xs
    by (induction xs) auto
  have "fetch (store_all kvs (store s k v)) k'
      = (case sm_find (rev kvs) k' of Some w \<Rightarrow> w | None \<Rightarrow> fetch (store s k v) k')"
    using Cons.IH [OF good_store ac] Cons.prems(1) by blast
  moreover have "fetch (store s k v) k' = (if k' = k then v else fetch s k')"
    using Cons.prems kv by (intro fetch_store) auto
  ultimately show ?case
    using kv by (auto simp: store_all_def app split: option.splits)
qed

lemma store_last_wins:
  "good s \<Longrightarrow> accepts s k v \<Longrightarrow> accepts s k u \<Longrightarrow> fetch (store (store s k u) k v) = fetch (store s k v)"
  by (rule ext) (simp add: fetch_store good_store accepts_store)

lemma store_commute:
  "good s \<Longrightarrow> accepts s k v \<Longrightarrow> accepts s l u \<Longrightarrow> k \<noteq> l \<Longrightarrow>
   fetch (store (store s k v) l u) = fetch (store (store s l u) k v)"
  by (rule ext) (simp add: fetch_store good_store accepts_store)

end

definition m_accepts :: "mmessage \<Rightarrow> string \<Rightarrow> string \<Rightarrow> bool" where
  "m_accepts m f v \<longleftrightarrow> (case sm_find (mfields m) f of Some l \<Rightarrow> mytype l \<noteq> ''MstringList'' | None \<Rightarrow> True)"

interpretation param_store: text_store mp_wf "\<lambda>p n v. v \<noteq> ''''" mp_add mp_get
  by unfold_locales (auto simp: mp_get_add hat_inv)

interpretation message_store: text_store m_wf m_accepts m_add m_getString
proof
  show "m_wf m \<Longrightarrow> m_accepts m k v \<Longrightarrow>
      m_getString (m_add m k v) k' = (if k' = k then v else m_getString m k')" for m k v k'
    by (rule m_add_fetch) (auto simp: m_accepts_def)
  show "m_wf m \<Longrightarrow> m_wf (m_add m k v)" for m k v by (rule m_wf_add)
qed (auto simp: m_accepts_def m_add_def ms_add_def ms_of_string_def split: option.splits if_splits)

text \<open>\<open>add\<close> makes \<open>get\<close> return the stored value for exactly that name and category,
  whatever duplicates the set holds, and keeps the keys unique if they were.\<close>

lemma mp_add_get:
  assumes "v \<noteq> ''''"
  shows "mp_get_cat (mp_add_cat p n c v) n' c' = (if n' = n \<and> c' = c then v else mp_get_cat p n' c')
    \<and> (mp_wf p \<longrightarrow> mp_wf (mp_add_cat p n c v))"
  using assms by (simp add: mp_get_cat_add_cat hat_inv)

subsection \<open>Encoding and decoding\<close>

text \<open>The tree of the document that \<open>set_xmlEncode\<close> writes.\<close>

definition attribute_node :: "mattribute \<Rightarrow> xnode" where
  "attribute_node a = XElement ''attribute''
     [(''name'', ma_name a), (''category'', ma_category a), (''value'', ma_value a)] []"

definition set_node :: "mparams \<Rightarrow> xnode" where
  "set_node p = XElement ''set'' (if pty p = '''' then [] else [(''type'', pty p)])
     (map attribute_node (attrs p))"

lemma ma_of_attribute_node: "ma_category a \<noteq> ''*'' \<Longrightarrow> ma_of_node (attribute_node a) = a"
  by (cases a) (simp add: ma_of_node_def attribute_node_def ma_xmlDecode_def)

lemma decode_attribute_nodes:
  "\<forall>a \<in> set as. ma_category a \<noteq> ''*'' \<Longrightarrow> map (ma_of_node \<circ> attribute_node) as = as"
  by (induction as) (simp_all add: ma_of_attribute_node)

text \<open>A parameter set that was saved in the home directory is read back unchanged, name,
  category and value of every attribute, in preference to the file of the configuration directory.\<close>

lemma mp_load_saved:
  assumes "pty p \<noteq> ''''" and "\<forall>a \<in> set (attrs p). ma_category a \<noteq> ''*''"
    and "fs (ppathh p) = Xml (XDeclaration # set_node p # rest)"
  shows "mp_load fs (p\<lparr>attrs := old\<rparr>) = Some (True, p)"
  using assms decode_attribute_nodes [OF assms(2)]
  by (simp add: mp_load_def set_xmlLoad_def set_xmlDecode_def set_node_def)

end
