(* ===== verification/Message_Queue.thy ===== *)
theory Message_Queue
  imports Message "HOL-Library.Multiset"
begin

text \<open>
  The input queue of an agent thread: the template \<^verbatim>\<open>MMessageQueue\<close>
  (\<^verbatim>\<open>src/agents/minilibs/MMessageQueue.h\<close>), identical in its queue operations to
  \<^verbatim>\<open>MsgQueue\<close> of \<^verbatim>\<open>template.h\<close>. Every operation runs under the queue's
  mutex, so it is one step. \<open>receive\<close> on an empty queue waits: its value is \<open>None\<close>.
  The element type and its \<open>priority\<close> member are parameters of the template and of the
  model. The locale \<open>priority_channel\<close> is the contract the agent threads rely on.
\<close>

record 'q mqueue =
  elems :: "'q list"
  maxlength :: int

definition mq_new :: "'q mqueue" where
  "mq_new = \<lparr>elems = [], maxlength = 0\<rparr>"

definition mq_new_max :: "int \<Rightarrow> 'q mqueue" where
  "mq_new_max n = \<lparr>elems = [], maxlength = (if n > 0 then n else 0)\<rparr>"

text \<open>The two scans for an extreme priority: a strictly better element replaces the candidate.\<close>

definition highest_index :: "('q \<Rightarrow> int) \<Rightarrow> 'q list \<Rightarrow> nat" where
  "highest_index prio q = fold (\<lambda>i r. if prio (q ! i) > prio (q ! r) then i else r) [0..<length q] 0"

definition lowest_index :: "('q \<Rightarrow> int) \<Rightarrow> 'q list \<Rightarrow> nat" where
  "lowest_index prio q = fold (\<lambda>i n. if prio (q ! i) < prio (q ! n) then i else n) [0..<length q] 0"

definition mq_purge :: "('q \<Rightarrow> int) \<Rightarrow> 'q mqueue \<Rightarrow> 'q mqueue" where
  "mq_purge prio q =
     (if maxlength q = 0 \<or> maxlength q \<ge> int (length (elems q)) then q
      else q\<lparr>elems := erase_at (lowest_index prio (elems q)) (elems q)\<rparr>)"

definition mq_send :: "('q \<Rightarrow> int) \<Rightarrow> 'q mqueue \<Rightarrow> 'q \<Rightarrow> 'q mqueue" where
  "mq_send prio q m = mq_purge prio (q\<lparr>elems := elems q @ [m]\<rparr>)"

definition mq_reset :: "'q mqueue \<Rightarrow> 'q mqueue" where
  "mq_reset q = q\<lparr>elems := []\<rparr>"

definition mq_receive :: "('q \<Rightarrow> int) \<Rightarrow> 'q mqueue \<Rightarrow> ('q \<times> 'q mqueue) option" where
  "mq_receive prio q =
     (if elems q = [] then None
      else let r = highest_index prio (elems q)
           in Some (elems q ! r, q\<lparr>elems := erase_at r (elems q)\<rparr>))"

definition mq_priority :: "('q \<Rightarrow> int) \<Rightarrow> 'q mqueue \<Rightarrow> int" where
  "mq_priority prio q = fold (\<lambda>x c. if prio x > c then prio x else c) (elems q) (-1)"

subsection \<open>The scans\<close>

text \<open>One lemma for both scans: \<open>better\<close> is a strict weak order on the elements. The scan
  ends on the first element that nothing beats.\<close>

lemma scan_best:
  fixes k :: "'q \<Rightarrow> int"
  defines "scan q n \<equiv> fold (\<lambda>i r. if k (q ! i) > k (q ! r) then i else r) [0..<n] (0::nat)"
  assumes "n \<le> length q" and "q \<noteq> []"
  shows "scan q n < length q \<and> (\<forall>i < n. k (q ! i) \<le> k (q ! scan q n))
    \<and> (\<forall>i < scan q n. k (q ! i) < k (q ! scan q n)) \<and> (scan q n = 0 \<or> scan q n < n)"
  using assms(2)
proof (induction n)
  case 0
  with assms(3) show ?case by (simp add: scan_def)
next
  case (Suc n)
  let ?r = "scan q n"
  have step: "scan q (Suc n) = (if k (q ! n) > k (q ! ?r) then n else ?r)"
    by (simp add: scan_def)
  from Suc have IH: "?r < length q" "\<forall>i < n. k (q ! i) \<le> k (q ! ?r)"
    "\<forall>i < ?r. k (q ! i) < k (q ! ?r)" "?r = 0 \<or> ?r < n" by auto
  show ?case
  proof (cases "k (q ! n) > k (q ! ?r)")
    case True
    with step have eq: "scan q (Suc n) = n" by simp
    from True IH(2) have "\<forall>i < n. k (q ! i) < k (q ! n)" by force
    with Suc.prems show ?thesis unfolding eq by (force simp: less_Suc_eq)
  next
    case False
    with step have eq: "scan q (Suc n) = ?r" by simp
    from False IH show ?thesis unfolding eq by (force simp: less_Suc_eq)
  qed
qed

lemma highest_index_props:
  fixes prio :: "'q \<Rightarrow> int"
  assumes "q \<noteq> []"
  defines "r \<equiv> highest_index prio q"
  shows "r < length q" and "\<forall>i < length q. prio (q ! i) \<le> prio (q ! r)"
    and "\<forall>i < r. prio (q ! i) < prio (q ! r)"
  using scan_best [of "length q" q prio] assms by (auto simp: highest_index_def)

lemma lowest_index_props:
  fixes prio :: "'q \<Rightarrow> int"
  assumes "q \<noteq> []"
  defines "r \<equiv> lowest_index prio q"
  shows "r < length q" and "\<forall>i < length q. prio (q ! r) \<le> prio (q ! i)"
    and "\<forall>i < r. prio (q ! r) < prio (q ! i)"
  using scan_best [of "length q" q "\<lambda>x. - prio x"] assms by (auto simp: lowest_index_def)

lemma highest_split:
  assumes "q \<noteq> []"
  obtains xs v ys where "q = xs @ v # ys" "q ! highest_index prio q = v"
    "erase_at (highest_index prio q) q = xs @ ys"
    "\<forall>x \<in> set xs. prio x < prio v" "\<forall>y \<in> set ys. prio y \<le> prio v"
proof
  let ?r = "highest_index prio q"
  note h = highest_index_props [OF assms, of prio]
  show "q = take ?r q @ (q ! ?r) # drop (Suc ?r) q" by (rule erase_at_split [OF h(1)])
  show "erase_at ?r q = take ?r q @ drop (Suc ?r) q" by (simp add: erase_at_def)
  show "\<forall>x \<in> set (take ?r q). prio x < prio (q ! ?r)"
    using h(3) by (auto simp: in_set_conv_nth)
  show "\<forall>y \<in> set (drop (Suc ?r) q). prio y \<le> prio (q ! ?r)"
    using h(2) by (auto simp: in_set_conv_nth)
qed simp

subsection \<open>The contract of an input queue\<close>

locale priority_channel =
  fixes content :: "'c \<Rightarrow> 'a list"
    and prio :: "'a \<Rightarrow> int"
    and receive :: "'c \<Rightarrow> ('a \<times> 'c) option"
  assumes receive_waits: "receive c = None \<longleftrightarrow> content c = []"
    and receive_first_highest: "receive c = Some (v, c') \<Longrightarrow>
          \<exists>xs ys. content c = xs @ v # ys \<and> content c' = xs @ ys
            \<and> (\<forall>x \<in> set xs. prio x < prio v) \<and> (\<forall>y \<in> set ys. prio y \<le> prio v)"
begin

text \<open>The messages \<open>n\<close> calls of \<open>receive\<close> hand to the thread.\<close>

primrec drain :: "nat \<Rightarrow> 'c \<Rightarrow> 'a list" where
  "drain 0 c = []"
| "drain (Suc n) c = (case receive c of None \<Rightarrow> [] | Some (v, c') \<Rightarrow> v # drain n c')"

lemma receive_length: "receive c = Some (v, c') \<Longrightarrow> length (content c) = Suc (length (content c'))"
  using receive_first_highest by fastforce

lemma insort_first:
  "\<forall>x \<in> set xs. f v \<le> (f x :: int) \<Longrightarrow> insort_key f v xs = v # xs"
  by (cases xs) auto

lemma sort_key_first:
  assumes "\<forall>x \<in> set xs. f v < (f x :: int)" and "\<forall>y \<in> set ys. f v \<le> f y"
  shows "sort_key f (xs @ v # ys) = v # sort_key f (xs @ ys)"
  using assms(1)
proof (induction xs)
  case Nil
  with assms(2) show ?case by (simp add: insort_first)
next
  case (Cons x xs)
  then show ?case by (auto dest: leD)
qed

lemma drain_sorted: "length (content c) \<le> n \<Longrightarrow> drain n c = sort_key (\<lambda>x. - prio x) (content c)"
proof (induction n arbitrary: c)
  case 0
  then show ?case by simp
next
  case (Suc n)
  show ?case
  proof (cases "receive c")
    case None
    with receive_waits [of c] have "content c = []" by simp
    with None show ?thesis by simp
  next
    case (Some p)
    obtain v c' where p: "p = (v, c')" by (cases p)
    with Some receive_first_highest obtain xs ys where c: "content c = xs @ v # ys"
      "content c' = xs @ ys" "\<forall>x \<in> set xs. prio x < prio v" "\<forall>y \<in> set ys. prio y \<le> prio v"
      by blast
    then have "sort_key (\<lambda>x. - prio x) (content c) = v # sort_key (\<lambda>x. - prio x) (content c')"
      using sort_key_first [of xs "\<lambda>x. - prio x" v ys] by simp
    moreover have "length (content c') \<le> n" using Suc.prems c by simp
    ultimately show ?thesis using Some p Suc.IH by simp
  qed
qed

lemma fifo_of_equals:
  assumes "\<forall>x \<in> set (content c). prio x = k"
  shows "drain (length (content c)) c = content c"
proof -
  have "sort_key (\<lambda>x. - prio x) xs = xs" if "\<forall>x \<in> set xs. prio x = k" for xs
    using that by (induction xs) (simp_all add: insort_first)
  with assms show ?thesis by (simp add: drain_sorted)
qed

end

interpretation mq: priority_channel elems prio "mq_receive prio" for prio :: "'q \<Rightarrow> int"
proof
  fix c :: "'q mqueue" and v c'
  show "mq_receive prio c = None \<longleftrightarrow> elems c = []" by (simp add: mq_receive_def Let_def)
  assume r: "mq_receive prio c = Some (v, c')"
  then have "elems c \<noteq> []" by (auto simp: mq_receive_def)
  then obtain xs w ys where "elems c = xs @ w # ys" "elems c ! highest_index prio (elems c) = w"
    "erase_at (highest_index prio (elems c)) (elems c) = xs @ ys"
    "\<forall>x \<in> set xs. prio x < prio w" "\<forall>y \<in> set ys. prio y \<le> prio w" by (rule highest_split)
  with r show "\<exists>xs ys. elems c = xs @ v # ys \<and> elems c' = xs @ ys
      \<and> (\<forall>x \<in> set xs. prio x < prio v) \<and> (\<forall>y \<in> set ys. prio y \<le> prio v)"
    by (intro exI [of _ xs] exI [of _ ys]) (auto simp: mq_receive_def Let_def split: if_splits)
qed

text \<open>C5: whatever was sent to an unbounded queue, the thread that keeps receiving gets the
  messages in decreasing priority and, among equal priorities, in the order of arrival.\<close>

theorem mq_drain_sorted:
  "mq.drain prio (length (elems q)) q = sort_key (\<lambda>m. - prio m) (elems q)
   \<and> elems (fold (\<lambda>m c. mq_send prio c m) ms (mq_new :: 'q mqueue)) = ms"
proof
  have "elems (fold (\<lambda>m c. mq_send prio c m) ms c) = elems c @ ms \<and>
      maxlength (fold (\<lambda>m c. mq_send prio c m) ms c) = 0" if "maxlength c = 0" for c :: "'q mqueue"
    using that by (induction ms arbitrary: c) (simp_all add: mq_send_def mq_purge_def)
  then show "elems (fold (\<lambda>m c. mq_send prio c m) ms (mq_new :: 'q mqueue)) = ms"
    by (simp add: mq_new_def)
qed (rule mq.drain_sorted [OF le_refl])

subsection \<open>Bounded queues\<close>

definition mq_wf :: "'q mqueue \<Rightarrow> bool" where
  "mq_wf q \<longleftrightarrow> 0 \<le> maxlength q \<and> (maxlength q = 0 \<or> int (length (elems q)) \<le> maxlength q)"

lemma mq_wf_new [simp]: "mq_wf mq_new" "mq_wf (mq_new_max n)"
  by (simp_all add: mq_wf_def mq_new_def mq_new_max_def)

lemma mq_wf_send [hat_inv]: "mq_wf q \<Longrightarrow> mq_wf (mq_send prio q m)"
  using lowest_index_props(1) [of "elems q @ [m]" prio]
  by (auto simp: mq_wf_def mq_send_def mq_purge_def)

lemma mq_wf_receive [hat_inv]: "mq_wf q \<Longrightarrow> mq_receive prio q = Some (v, q') \<Longrightarrow> mq_wf q'"
  using highest_index_props(1) [of "elems q" prio]
  by (auto simp: mq_wf_def mq_receive_def Let_def split: if_splits)

lemma mset_erase_at: "i < length xs \<Longrightarrow> mset xs = add_mset (xs ! i) (mset (erase_at i xs))"
  by (subst erase_at_split [of i xs]) (simp_all add: erase_at_def)

text \<open>A bounded queue never exceeds its length, and a message that \<open>send\<close> has to drop,
  which happens only when the queue is full, has the lowest priority of all.\<close>

lemma mq_send_bounded:
  assumes "mq_wf q"
  shows "mq_wf (mq_send prio q m) \<and> maxlength (mq_send prio q m) = maxlength q
    \<and> (if maxlength q = 0 \<or> int (length (elems q)) < maxlength q
       then elems (mq_send prio q m) = elems q @ [m]
       else \<exists>d. add_mset m (mset (elems q)) = add_mset d (mset (elems (mq_send prio q m)))
              \<and> (\<forall>x \<in> set (elems (mq_send prio q m)). prio d \<le> prio x))"
proof -
  let ?l = "elems q @ [m]"
  let ?i = "lowest_index prio ?l"
  have i: "?i < length ?l" "\<forall>j < length ?l. prio (?l ! ?i) \<le> prio (?l ! j)"
    using lowest_index_props(1,2) [of ?l prio] by blast+
  have "\<forall>x \<in> set (erase_at ?i ?l). prio (?l ! ?i) \<le> prio x"
    using i(2) set_erase_at_subset [of ?i ?l] by (metis in_set_conv_nth subsetD)
  moreover have "add_mset m (mset (elems q)) = add_mset (?l ! ?i) (mset (erase_at ?i ?l))"
    using mset_erase_at [OF i(1)] by simp
  ultimately show ?thesis
    using mq_wf_send [OF assms, of prio m] by (auto simp: mq_send_def mq_purge_def)
qed

end
