(* ===== verification/Subject_Bus.thy ===== *)
theory Subject_Bus
  imports Params Message_Queue
begin

text \<open>
  The event bus of an agent: \<^verbatim>\<open>Subject\<close>, \<^verbatim>\<open>SubjectSet\<close>, \<^verbatim>\<open>Observer\<close> and
  \<^verbatim>\<open>ObserverThread\<close> of \<^verbatim>\<open>src/agents/minilibs\<close>. Threads register as observers of
  a pair (type, subtype); \<open>notify\<close> hands a message to the observers of the subject it names.
  An observer is a pointer, modelled by a number, \<open>None\<close> being the null pointer; a call
  through a null pointer makes the operation \<open>None\<close>. \<open>notify\<close> returns the observers that
  are called, in order, and \<open>bus_deliver\<close> puts the message in their input queues.
  Every operation of \<^verbatim>\<open>SubjectSet\<close> runs under one mutex and is one step. The logging
  of \<^verbatim>\<open>_DEBUG_\<close> is left out.
\<close>

subsection \<open>Subjects\<close>

type_synonym observer_ptr = nat

record subject =
  stype :: string
  ssubtype :: string
  observers :: "observer_ptr option list"

definition subject_new :: "string \<Rightarrow> string \<Rightarrow> subject" where
  "subject_new ty sty = \<lparr>stype = ty, ssubtype = sty, observers = []\<rparr>"

text \<open>The copy constructor has an empty body.\<close>

definition subject_copy :: "subject \<Rightarrow> subject" where
  "subject_copy orig = \<lparr>stype = '''', ssubtype = '''', observers = []\<rparr>"

definition isNotRegistered :: "observer_ptr \<Rightarrow> subject \<Rightarrow> bool" where
  "isNotRegistered ob s \<longleftrightarrow> Some ob \<notin> set (observers s)"

definition register_observer :: "observer_ptr \<Rightarrow> subject \<Rightarrow> subject" where
  "register_observer ob s =
     (if isNotRegistered ob s then s\<lparr>observers := observers s @ [Some ob]\<rparr> else s)"

text \<open>
  \<^verbatim>\<open>remove_observer\<close>: every match is overwritten by the null pointer, the last one is
  erased. \<open>hit\<close> tells whether the pointer matches, \<open>None\<close> is a crash while testing it.
\<close>

fun last_hit :: "('a \<Rightarrow> bool) \<Rightarrow> nat \<Rightarrow> 'a list \<Rightarrow> nat option" where
  "last_hit hit i [] = None"
| "last_hit hit i (x # xs) =
     (case last_hit hit (Suc i) xs of Some j \<Rightarrow> Some j | None \<Rightarrow> if hit x then Some i else None)"

definition null_and_erase :: "(observer_ptr \<Rightarrow> bool) \<Rightarrow> observer_ptr option list \<Rightarrow> observer_ptr option list" where
  "null_and_erase hit obs =
     (let is = (\<lambda>p. case p of Some ob \<Rightarrow> hit ob | None \<Rightarrow> False);
          nulled = map (\<lambda>p. if is p then None else p) obs
      in case last_hit is 0 obs of Some pos \<Rightarrow> erase_at pos nulled | None \<Rightarrow> nulled)"

definition remove_observer :: "observer_ptr \<Rightarrow> subject \<Rightarrow> subject" where
  "remove_observer ob s = s\<lparr>observers := null_and_erase (\<lambda>x. x = ob) (observers s)\<rparr>"

definition remove_observer_id :: "(observer_ptr \<Rightarrow> string) \<Rightarrow> string \<Rightarrow> subject \<Rightarrow> subject option" where
  "remove_observer_id idof i s =
     (if None \<in> set (observers s) then None
      else Some (s\<lparr>observers := null_and_erase (\<lambda>x. idof x = i) (observers s)\<rparr>))"

definition notify_observers :: "subject \<Rightarrow> (observer_ptr list) option" where
  "notify_observers s = (if None \<in> set (observers s) then None else Some (map the (observers s)))"

subsection \<open>The set of subjects\<close>

type_synonym subjects = "(string \<times> string, subject) smap"

definition isDummy :: "string \<Rightarrow> bool" where
  "isDummy subj \<longleftrightarrow> str_contains subj ''*''"

definition add_subject :: "string \<Rightarrow> string \<Rightarrow> subjects \<Rightarrow> subjects" where
  "add_subject ty sty ss =
     (if isDummy sty then sm_insert (ty, ''*'') (subject_copy (subject_new ty ''*'')) ss
      else sm_insert (ty, sty) (subject_copy (subject_new ty sty)) ss)"

definition check_subject :: "string \<Rightarrow> string \<Rightarrow> subjects \<Rightarrow> bool" where
  "check_subject ty sty ss \<longleftrightarrow> sm_count ss (ty, sty) > 0"

definition add_observer :: "string \<Rightarrow> string \<Rightarrow> observer_ptr \<Rightarrow> subjects \<Rightarrow> bool \<times> subjects" where
  "add_observer ty sty ob ss =
     (case sm_find ss (ty, sty) of
        Some s \<Rightarrow> (True, sm_put (ty, sty) (register_observer ob s) ss)
      | None \<Rightarrow>
          (case sm_find ss (ty, ''*'') of
             Some s \<Rightarrow> (True, sm_put (ty, ''*'') (register_observer ob s) ss)
           | None \<Rightarrow>
               if isDummy sty
               then (\<exists>(k, s) \<in> set ss. fst k = ty,
                     map (\<lambda>(k, s). (k, if fst k = ty then register_observer ob s else s)) ss)
               else (False, ss)))"

definition ss_remove_observer :: "observer_ptr \<Rightarrow> subjects \<Rightarrow> subjects" where
  "ss_remove_observer ob ss = sm_map (remove_observer ob) ss"

fun map_subjects :: "(subject \<Rightarrow> subject option) \<Rightarrow> subjects \<Rightarrow> subjects option" where
  "map_subjects f [] = Some []"
| "map_subjects f ((k, s) # ss) =
     (case f s of
        None \<Rightarrow> None
      | Some s' \<Rightarrow> map_option (Cons (k, s')) (map_subjects f ss))"

definition ss_remove_observer_id ::
  "(observer_ptr \<Rightarrow> string) \<Rightarrow> string \<Rightarrow> subjects \<Rightarrow> subjects option" where
  "ss_remove_observer_id idof i ss = map_subjects (remove_observer_id idof i) ss"

fun notify_type :: "string \<Rightarrow> subjects \<Rightarrow> (bool \<times> observer_ptr list) option" where
  "notify_type ty [] = Some (False, [])"
| "notify_type ty ((k, s) # ss) =
     (if fst k = ty
      then case notify_observers s of
             None \<Rightarrow> None
           | Some xs \<Rightarrow> map_option (\<lambda>(f, ys). (True, xs @ ys)) (notify_type ty ss)
      else notify_type ty ss)"

text \<open>\<open>status\<close> is \<^verbatim>\<open>AgentConf::status\<close>; \<^verbatim>\<open>OFF\<close> is 0.\<close>

definition ss_notify_to ::
  "int \<Rightarrow> string \<Rightarrow> string \<Rightarrow> subjects \<Rightarrow> (bool \<times> observer_ptr list) option" where
  "ss_notify_to status ty sty ss =
     (let it = sm_find ss (ty, sty)
      in if status = 0 then Some (False, [])
         else let it' = (if it = None \<and> \<not> isDummy sty then sm_find ss (ty, ''*'') else it)
              in case it' of
                   Some s \<Rightarrow> map_option (Pair True) (notify_observers s)
                 | None \<Rightarrow> if isDummy sty then notify_type ty ss else Some (False, []))"

definition ss_notify :: "int \<Rightarrow> mmessage \<Rightarrow> subjects \<Rightarrow> (bool \<times> observer_ptr list) option" where
  "ss_notify status m ss = ss_notify_to status (mtype m) (msubtype m) ss"

subsection \<open>Observer threads\<close>

record observer =
  oid :: string
  target :: name_list
  input_queue :: "mmessage mqueue"
  observes :: "mattribute list"
  osubjects :: "mattribute list"

definition match_target :: "mmessage \<Rightarrow> observer \<Rightarrow> bool" where
  "match_target m ob =
     (let tg = m_getList m ''target''
      in if length tg = 0 then True else \<exists>t \<in> set tg. nl_member (target ob) t)"

definition ot_new :: "observer \<Rightarrow> observer" where
  "ot_new r0 = r0\<lparr>input_queue := mq_new\<rparr>"

definition ot_notify :: "mmessage \<Rightarrow> observer \<Rightarrow> observer" where
  "ot_notify m ob =
     (if match_target m ob then ob\<lparr>input_queue := mq_send priority (input_queue ob) m\<rparr> else ob)"

definition ot_receive_message :: "observer \<Rightarrow> (mmessage \<times> observer) option" where
  "ot_receive_message ob =
     map_option (\<lambda>(m, q). (m, ob\<lparr>input_queue := q\<rparr>)) (mq_receive priority (input_queue ob))"

definition collect_category :: "string \<Rightarrow> mparams \<Rightarrow> mparams \<Rightarrow> mparams" where
  "collect_category cat param acc =
     fold (\<lambda>a acc. if ma_category a = cat then mp_add_cat acc (ma_name a) (ma_category a) (ma_value a) else acc)
       (attrs param) acc"

definition ot_getObservations :: "mparams \<Rightarrow> mparams \<Rightarrow> mparams" where
  "ot_getObservations param obs = collect_category ''observe'' param obs"

definition ot_getSubjects :: "mparams \<Rightarrow> mparams \<Rightarrow> mparams" where
  "ot_getSubjects param subj = collect_category ''subject'' param subj"

text \<open>
  \<^verbatim>\<open>ObserverThread::init\<close> on the parameters \<open>param\<close> that the thread's file holds. The
  registration of the exported and imported subjects with the network (\<^verbatim>\<open>NetSubjects\<close>)
  is not part of this component.
\<close>

definition ot_init :: "mparams \<Rightarrow> mparams \<Rightarrow> observer \<Rightarrow> subjects \<Rightarrow> observer \<times> subjects" where
  "ot_init obs subj ob ss =
     (let ob' = ob\<lparr>observes := mp_extractCategory obs ''observe'',
                   osubjects := mp_extractCategory subj ''subject''\<rparr>
      in (ob', fold (\<lambda>a ss. add_subject (ma_value a) (ma_name a) ss) (osubjects ob') ss))"

definition ot_start :: "observer_ptr \<Rightarrow> observer \<Rightarrow> subjects \<Rightarrow> subjects" where
  "ot_start self ob ss =
     fold (\<lambda>a ss. snd (add_observer (ma_value a) (ma_name a) self ss)) (observes ob) ss"

text \<open>Delivery: the calls of \<open>notify\<close> on the observers, in order.\<close>

definition bus_deliver :: "observer_ptr list \<Rightarrow> mmessage \<Rightarrow> (observer_ptr \<Rightarrow> observer) \<Rightarrow> (observer_ptr \<Rightarrow> observer)" where
  "bus_deliver ds m ts = fold (\<lambda>d ts. ts(d := ot_notify m (ts d))) ds ts"

subsection \<open>Removal from a subject\<close>

lemma last_hit_None: "last_hit hit i xs = None \<longleftrightarrow> (\<forall>x \<in> set xs. \<not> hit x)"
proof (induction xs arbitrary: i)
  case (Cons x xs)
  from Cons.IH [of "Suc i"] show ?case by (cases "last_hit hit (Suc i) xs") auto
qed simp

lemma last_hit_append:
  "hit x \<Longrightarrow> \<forall>y \<in> set ys. \<not> hit y \<Longrightarrow> last_hit hit i (xs @ x # ys) = Some (i + length xs)"
proof (induction xs arbitrary: i)
  case Nil
  then show ?case by (simp add: last_hit_None [THEN iffD2])
next
  case (Cons a xs)
  then show ?case by simp
qed

lemma erase_at_append: "erase_at (length xs) (xs @ x # ys) = xs @ ys"
  by (simp add: erase_at_def)

abbreviation ptr_hit :: "(observer_ptr \<Rightarrow> bool) \<Rightarrow> observer_ptr option \<Rightarrow> bool" where
  "ptr_hit hit \<equiv> (\<lambda>p. case p of Some ob \<Rightarrow> hit ob | None \<Rightarrow> False)"

lemma null_and_erase_split:
  assumes "hit x" and "\<forall>y \<in> set ys. \<not> ptr_hit hit y"
  shows "null_and_erase hit (xs @ Some x # ys) = map (\<lambda>p. if ptr_hit hit p then None else p) xs @ ys"
proof -
  have "last_hit (ptr_hit hit) 0 (xs @ Some x # ys) = Some (length xs)"
    using assms by (subst last_hit_append) auto
  moreover have "map (\<lambda>p. if ptr_hit hit p then None else p) ys = ys"
    using assms(2) by (simp add: map_idI)
  ultimately show ?thesis
    using assms(1) erase_at_append [of "map (\<lambda>p. if ptr_hit hit p then None else p) xs"]
    by (simp add: null_and_erase_def Let_def)
qed

lemma null_and_erase_none: "\<forall>y \<in> set ys. \<not> ptr_hit hit y \<Longrightarrow> null_and_erase hit ys = ys"
  by (simp add: null_and_erase_def Let_def last_hit_None [THEN iffD2] map_idI)

lemma last_match:
  assumes "\<exists>y \<in> set ys. P y"
  obtains xs x zs where "ys = xs @ x # zs" "P x" "\<forall>z \<in> set zs. \<not> P z"
  using split_list_last_prop [OF assms] by blast

lemma null_and_erase_single:
  assumes "\<And>x y. Some x \<in> set obs \<Longrightarrow> Some y \<in> set obs \<Longrightarrow> hit x \<Longrightarrow> hit y \<Longrightarrow> x = y" and "distinct obs"
  shows "null_and_erase hit obs = filter (\<lambda>p. \<not> ptr_hit hit p) obs"
proof (cases "\<exists>y \<in> set obs. ptr_hit hit y")
  case False
  then show ?thesis by (simp add: null_and_erase_none)
next
  case True
  then obtain xs p zs where obs: "obs = xs @ p # zs" "ptr_hit hit p" "\<forall>z \<in> set zs. \<not> ptr_hit hit z"
    by (rule last_match)
  then obtain x where x: "p = Some x" "hit x" by (auto split: option.splits)
  have no: "\<not> ptr_hit hit y" if "y \<in> set xs" for y
  proof (cases y)
    case (Some z)
    have "z \<noteq> x" using that assms(2) obs(1) x(1) Some by auto
    moreover have "Some z \<in> set obs" "Some x \<in> set obs" using that obs(1) x(1) Some by auto
    ultimately have "\<not> hit z" using assms(1) x(2) by blast
    with Some show ?thesis by simp
  qed simp
  have "map (\<lambda>p. if ptr_hit hit p then None else p) xs = xs"
    by (rule map_idI) (simp add: no)
  moreover have "filter (\<lambda>p. \<not> ptr_hit hit p) xs = xs" "filter (\<lambda>p. \<not> ptr_hit hit p) zs = zs"
    using no obs(3) by (simp_all add: filter_id_conv)
  ultimately show ?thesis
    using null_and_erase_split [of hit x zs xs, OF x(2) obs(3)] obs(1) x by simp
qed

lemma null_and_erase_two:
  assumes "Some x \<in> set obs" "Some y \<in> set obs" "hit x" "hit y" "x \<noteq> y"
  shows "None \<in> set (null_and_erase hit obs)"
proof -
  have "\<exists>p \<in> set obs. ptr_hit hit p" using assms by force
  then obtain xs p zs where obs: "obs = xs @ p # zs" "ptr_hit hit p" "\<forall>z \<in> set zs. \<not> ptr_hit hit z"
    by (rule last_match)
  then obtain w where w: "p = Some w" "hit w" by (auto split: option.splits)
  obtain v where "Some v \<in> set obs" "hit v" "v \<noteq> w" using assms by metis
  then have "Some v \<in> set xs" using obs w by auto
  with \<open>hit v\<close> have "None \<in> set (map (\<lambda>p. if ptr_hit hit p then None else p) xs)"
    by (force simp: image_iff)
  with null_and_erase_split [of hit w zs xs, OF w(2) obs(3)] obs(1) w(1) show ?thesis by simp
qed

subsection \<open>The invariant of the bus\<close>

definition subject_wf :: "subject \<Rightarrow> bool" where
  "subject_wf s \<longleftrightarrow> distinct (observers s) \<and> None \<notin> set (observers s)"

definition ss_wf :: "subjects \<Rightarrow> bool" where
  "ss_wf ss \<longleftrightarrow> sm_ordered ss \<and> (\<forall>(k, s) \<in> set ss. subject_wf s)"

text \<open>The abstract bus: who is registered with which subject.\<close>

definition regs :: "subjects \<Rightarrow> ((string \<times> string) \<times> observer_ptr) set" where
  "regs ss = {(k, ob). \<exists>s. sm_find ss k = Some s \<and> Some ob \<in> set (observers s)}"

lemma subject_wf_register [simp]: "subject_wf s \<Longrightarrow> subject_wf (register_observer ob s)"
  by (auto simp: subject_wf_def register_observer_def isNotRegistered_def)

lemma observers_register [simp]:
  "Some x \<in> set (observers (register_observer ob s)) \<longleftrightarrow> x = ob \<or> Some x \<in> set (observers s)"
  by (auto simp: register_observer_def isNotRegistered_def)

lemma remove_observer_filter:
  "subject_wf s \<Longrightarrow> observers (remove_observer ob s) = filter (\<lambda>p. p \<noteq> Some ob) (observers s)"
proof -
  assume "subject_wf s"
  then have "null_and_erase (\<lambda>x. x = ob) (observers s)
      = filter (\<lambda>p. \<not> ptr_hit (\<lambda>x. x = ob) p) (observers s)"
    by (intro null_and_erase_single) (simp_all add: subject_wf_def)
  moreover have "(\<lambda>p. \<not> ptr_hit (\<lambda>x. x = ob) p) = (\<lambda>p. p \<noteq> Some ob)"
    by (rule ext) (auto split: option.splits)
  ultimately show ?thesis by (simp add: remove_observer_def)
qed

lemma subject_wf_remove [simp]: "subject_wf s \<Longrightarrow> subject_wf (remove_observer ob s)"
  using remove_observer_filter [of s ob] by (simp add: subject_wf_def)

lemma notify_observers_wf: "subject_wf s \<Longrightarrow> notify_observers s = Some (map the (observers s))"
  by (simp add: notify_observers_def subject_wf_def)

lemma subject_wf_empty [simp]: "subject_wf (subject_copy s)"
  by (simp add: subject_wf_def subject_copy_def)

lemma ss_wf_put: "ss_wf ss \<Longrightarrow> subject_wf s \<Longrightarrow> ss_wf (sm_put k s ss)"
  using set_put_subset [of k s ss] by (fastforce simp: ss_wf_def hat_inv)

lemma ss_wf_find: "ss_wf ss \<Longrightarrow> sm_find ss k = Some s \<Longrightarrow> subject_wf s"
  by (auto simp: ss_wf_def dest!: sm_find_in_set)

lemma ss_wf_Nil [simp]: "ss_wf []"
  by (simp add: ss_wf_def)

lemma ss_wf_add_subject [hat_inv]: "ss_wf ss \<Longrightarrow> ss_wf (add_subject ty sty ss)"
  by (simp add: add_subject_def sm_insert_def ss_wf_put)

lemma ss_wf_keymap:
  assumes "ss_wf ss" and "\<And>k s. subject_wf s \<Longrightarrow> subject_wf (f k s)"
  shows "ss_wf (map (\<lambda>(k, s). (k, f k s)) ss)"
proof -
  have "map fst (map (\<lambda>(k, s). (k, f k s)) ss) = map fst ss" by (induction ss) auto
  then have "sm_ordered (map (\<lambda>(k, s). (k, f k s)) ss)" using assms(1) by (simp only: ss_wf_def)
  moreover have "\<forall>(k, s) \<in> set (map (\<lambda>(k, s). (k, f k s)) ss). subject_wf s"
    using assms by (auto simp: ss_wf_def)
  ultimately show ?thesis by (simp only: ss_wf_def)
qed

lemma ss_wf_add_observer [hat_inv]: "ss_wf ss \<Longrightarrow> ss_wf (snd (add_observer ty sty ob ss))"
  by (auto simp: add_observer_def split: option.splits dest: ss_wf_find intro!: ss_wf_put ss_wf_keymap)

lemma ss_wf_remove_observer [hat_inv]: "ss_wf ss \<Longrightarrow> ss_wf (ss_remove_observer ob ss)"
  unfolding ss_remove_observer_def by (rule ss_wf_keymap) simp_all

lemma find_keymap: "sm_find (map (\<lambda>(k, s). (k, f k s)) ss) k = map_option (f k) (sm_find ss k)"
  by (induction ss) auto

subsection \<open>Routing\<close>

text \<open>The subjects a registration and a notification for (type, subtype) reach.\<close>

definition add_keys :: "subjects \<Rightarrow> string \<times> string \<Rightarrow> (string \<times> string) set" where
  "add_keys ss k =
     (if k \<in> fst ` set ss then {k}
      else if (fst k, ''*'') \<in> fst ` set ss then {(fst k, ''*'')}
      else if isDummy (snd k) then {q \<in> fst ` set ss. fst q = fst k} else {})"

definition notify_keys :: "subjects \<Rightarrow> string \<times> string \<Rightarrow> (string \<times> string) set" where
  "notify_keys ss k =
     (if k \<in> fst ` set ss then {k}
      else if isDummy (snd k) then {q \<in> fst ` set ss. fst q = fst k}
      else if (fst k, ''*'') \<in> fst ` set ss then {(fst k, ''*'')} else {})"

lemma find_key: "k \<in> fst ` set ss \<longleftrightarrow> (\<exists>s. sm_find ss k = Some s)"
  by (metis not_None_eq sm_find_None)

lemma regs_put: "sm_find ss k = Some s \<Longrightarrow>
    regs (sm_put k (register_observer ob s) ss) = insert (k, ob) (regs ss)"
  by (auto simp: regs_def split: if_splits)

lemma regs_add_observer:
  "regs (snd (add_observer ty sty ob ss)) = regs ss \<union> add_keys ss (ty, sty) \<times> {ob}"
proof (cases "sm_find ss (ty, sty)")
  case (Some s)
  then have "add_keys ss (ty, sty) = {(ty, sty)}" by (simp add: add_keys_def find_key)
  with Some show ?thesis by (simp add: add_observer_def regs_put)
next
  case None
  then have n: "(ty, sty) \<notin> fst ` set ss" by (simp add: sm_find_None)
  show ?thesis
  proof (cases "sm_find ss (ty, ''*'')")
    case (Some s)
    then have "add_keys ss (ty, sty) = {(ty, ''*'')}" using n by (simp add: add_keys_def find_key)
    with None Some show ?thesis by (simp add: add_observer_def regs_put)
  next
    case N2: None
    then have "(ty, ''*'') \<notin> fst ` set ss" by (simp add: sm_find_None)
    with n have ak: "add_keys ss (ty, sty)
        = (if isDummy sty then {q \<in> fst ` set ss. fst q = ty} else {})"
      by (simp add: add_keys_def)
    let ?ss = "map (\<lambda>(k, s). (k, if fst k = ty then register_observer ob s else s)) ss"
    have "(k, x) \<in> regs ?ss \<longleftrightarrow> (k, x) \<in> regs ss \<union> {q \<in> fst ` set ss. fst q = ty} \<times> {ob}" for k x
      by (cases "sm_find ss k") (auto simp: regs_def find_keymap find_key)
    then have "regs ?ss = regs ss \<union> {q \<in> fst ` set ss. fst q = ty} \<times> {ob}" by auto
    with None N2 show ?thesis by (simp add: add_observer_def ak)
  qed
qed

lemma regs_remove_observer:
  "ss_wf ss \<Longrightarrow> regs (ss_remove_observer ob ss) = {(k, x). (k, x) \<in> regs ss \<and> x \<noteq> ob}"
  by (auto simp: regs_def ss_remove_observer_def remove_observer_filter dest: ss_wf_find)

lemma keys_keymap: "fst ` (\<lambda>(k, s). (k, f k s)) ` S = fst ` S"
  by (simp add: image_image case_prod_beta)

lemma keys_put_present: "sm_find ss k = Some s \<Longrightarrow> fst ` set (sm_put k v ss) = fst ` set ss"
  by (simp add: keys_put insert_absorb find_key)

lemma keys_add_observer [simp]: "fst ` set (snd (add_observer ty sty ob ss)) = fst ` set ss"
  by (simp add: add_observer_def keys_put_present keys_keymap split: option.splits)

lemma keys_remove_observer [simp]: "fst ` set (ss_remove_observer ob ss) = fst ` set ss"
  by (simp add: ss_remove_observer_def keys_keymap)

lemma the_observers: "subject_wf s \<Longrightarrow> the ` set (observers s) = {ob. Some ob \<in> set (observers s)}"
proof (intro set_eqI iffI)
  fix ob
  assume wf: "subject_wf s" and "ob \<in> the ` set (observers s)"
  from this(2) obtain p where "ob = the p" "p \<in> set (observers s)" by (rule imageE)
  moreover from this wf have "p \<noteq> None" by (metis subject_wf_def)
  ultimately show "ob \<in> {ob. Some ob \<in> set (observers s)}" by auto
qed (auto intro: rev_image_eqI)

lemma notify_type_wf:
  assumes "ss_wf ss"
  shows "\<exists>ds. notify_type ty ss = Some ({q \<in> fst ` set ss. fst q = ty} \<noteq> {}, ds)
    \<and> set ds = {ob. \<exists>(k, s) \<in> set ss. fst k = ty \<and> Some ob \<in> set (observers s)}"
  using assms
proof (induction ss)
  case Nil
  then show ?case by simp
next
  case (Cons p ss)
  obtain t u s where p: "p = ((t, u), s)" by (cases p) auto
  from Cons.prems p have wf: "ss_wf ss" "subject_wf s" by (auto simp: ss_wf_def)
  from Cons.IH [OF wf(1)] obtain ds where ds:
    "notify_type ty ss = Some ({q \<in> fst ` set ss. fst q = ty} \<noteq> {}, ds)"
    "set ds = {ob. \<exists>(k, s) \<in> set ss. fst k = ty \<and> Some ob \<in> set (observers s)}" by blast
  with ds p the_observers [OF wf(2)] show ?case by (auto simp: notify_observers_wf [OF wf(2)])
qed

lemma notify_routes:
  assumes "ss_wf ss" and "status \<noteq> 0"
  shows "\<exists>ds. ss_notify_to status ty sty ss = Some (notify_keys ss (ty, sty) \<noteq> {}, ds)
    \<and> set ds = {ob. \<exists>k \<in> notify_keys ss (ty, sty). (k, ob) \<in> regs ss}"
proof -
  have one: "the ` set (observers s) = {ob. (k, ob) \<in> regs ss}" "subject_wf s"
    if "sm_find ss k = Some s" for k s
    using ss_wf_find [OF assms(1) that] that by (simp_all add: the_observers regs_def)
  have all: "{ob. \<exists>(k, s) \<in> set ss. fst k = ty \<and> Some ob \<in> set (observers s)}
      = {ob. \<exists>k \<in> {q \<in> fst ` set ss. fst q = ty}. (k, ob) \<in> regs ss}"
  proof -
    have "(k, s) \<in> set ss \<longleftrightarrow> sm_find ss k = Some s" for k s
      using assms(1) sm_ordered_find [of ss] sm_find_in_set [of ss] unfolding ss_wf_def by blast
    then show ?thesis by (simp add: regs_def find_key Bex_def) blast
  qed
  show ?thesis
  proof (cases "sm_find ss (ty, sty)")
    case (Some s)
    then show ?thesis
      using assms(2) one [OF Some] by (simp add: ss_notify_to_def notify_keys_def find_key notify_observers_wf)
  next
    case None
    show ?thesis
    proof (cases "isDummy sty")
      case True
      with None assms notify_type_wf [OF assms(1), of ty] all show ?thesis
        by (simp add: ss_notify_to_def notify_keys_def find_key)
    next
      case False
      with None assms(2) one [of "(ty, ''*'')"] show ?thesis
        by (cases "sm_find ss (ty, ''*'')")
          (simp_all add: ss_notify_to_def notify_keys_def find_key notify_observers_wf)
    qed
  qed
qed

lemma notify_exact:
  assumes "ss_wf ss" and "status \<noteq> 0" and "(ty, sty) \<in> fst ` set ss"
  shows "\<exists>ds. ss_notify_to status ty sty ss = Some (True, ds) \<and> distinct ds
    \<and> set ds = {x. ((ty, sty), x) \<in> regs ss}"
proof -
  obtain s where s: "sm_find ss (ty, sty) = Some s" using assms(3) by (auto simp: find_key)
  have wf: "subject_wf s" using ss_wf_find [OF assms(1) s] .
  have "inj_on the (set (observers s))"
    using wf by (intro inj_onI) (metis option.expand subject_wf_def)
  then have "distinct (map the (observers s))" using wf by (simp add: distinct_map subject_wf_def)
  with s wf assms(2) show ?thesis
    by (simp add: ss_notify_to_def notify_observers_wf the_observers regs_def)
qed

subsection \<open>The contract of the bus\<close>

text \<open>
  What the threads of an agent rely on: an abstract relation of subscriptions that \<open>subscribe\<close>
  extends, \<open>unsubscribe\<close> restricts and \<open>publish\<close> reads.
\<close>

locale observer_registry =
  fixes inv :: "'s \<Rightarrow> bool"
    and subscriptions :: "'s \<Rightarrow> ('k \<times> 'o) set"
    and sub_keys :: "'s \<Rightarrow> 'k \<Rightarrow> 'k set"
    and pub_keys :: "'s \<Rightarrow> 'k \<Rightarrow> 'k set"
    and subscribe :: "'k \<Rightarrow> 'o \<Rightarrow> 's \<Rightarrow> 's"
    and unsubscribe :: "'o \<Rightarrow> 's \<Rightarrow> 's"
    and publish :: "'k \<Rightarrow> 's \<Rightarrow> 'o list option"
  assumes inv_subscribe: "inv s \<Longrightarrow> inv (subscribe k ob s)"
    and inv_unsubscribe: "inv s \<Longrightarrow> inv (unsubscribe ob s)"
    and subscribe_adds: "subscriptions (subscribe k ob s) = subscriptions s \<union> sub_keys s k \<times> {ob}"
    and unsubscribe_drops: "inv s \<Longrightarrow> subscriptions (unsubscribe ob s) = {(k, x). (k, x) \<in> subscriptions s \<and> x \<noteq> ob}"
    and pub_keys_subscribe: "pub_keys (subscribe k ob s) = pub_keys s"
    and pub_keys_unsubscribe: "pub_keys (unsubscribe ob s) = pub_keys s"
    and publish_reads: "inv s \<Longrightarrow> \<exists>ds. publish k s = Some ds
          \<and> set ds = {ob. \<exists>q \<in> pub_keys s k. (q, ob) \<in> subscriptions s}"
begin

definition served :: "'k \<Rightarrow> 's \<Rightarrow> 'o set" where
  "served k s = {ob. \<exists>q \<in> pub_keys s k. (q, ob) \<in> subscriptions s}"

lemma served_subscribe:
  "served k (subscribe j ob s) = served k s \<union> (if pub_keys s k \<inter> sub_keys s j = {} then {} else {ob})"
  by (auto simp: served_def subscribe_adds pub_keys_subscribe)

lemma served_unsubscribe: "inv s \<Longrightarrow> served k (unsubscribe ob s) = served k s - {ob}"
  by (auto simp: served_def unsubscribe_drops pub_keys_unsubscribe)

lemma publish_served: "inv s \<Longrightarrow> \<exists>ds. publish k s = Some ds \<and> set ds = served k s"
  using publish_reads by (simp add: served_def)

lemma unsubscribed_silent:
  "inv s \<Longrightarrow> \<exists>ds. publish k (unsubscribe ob s) = Some ds \<and> set ds = served k s - {ob}"
  using publish_served [OF inv_unsubscribe] served_unsubscribe by metis

lemma subscribed_served:
  "inv s \<Longrightarrow> pub_keys s k \<inter> sub_keys s j \<noteq> {} \<Longrightarrow>
   \<exists>ds. publish k (subscribe j ob s) = Some ds \<and> set ds = insert ob (served k s)"
  using publish_served [OF inv_subscribe [of s j ob], of k] served_subscribe [of k j ob s] by auto

end

definition bus_subscribe :: "string \<times> string \<Rightarrow> observer_ptr \<Rightarrow> subjects \<Rightarrow> subjects" where
  "bus_subscribe k ob ss = snd (add_observer (fst k) (snd k) ob ss)"

definition bus_publish :: "string \<times> string \<Rightarrow> subjects \<Rightarrow> observer_ptr list option" where
  "bus_publish k ss = map_option snd (ss_notify_to 1 (fst k) (snd k) ss)"

interpretation bus: observer_registry ss_wf regs add_keys notify_keys
    bus_subscribe ss_remove_observer bus_publish
proof
  fix ss k ob
  show "ss_wf ss \<Longrightarrow> ss_wf (bus_subscribe k ob ss)" by (simp add: bus_subscribe_def hat_inv)
  show "ss_wf ss \<Longrightarrow> ss_wf (ss_remove_observer ob ss)" by (rule ss_wf_remove_observer)
  show "regs (bus_subscribe k ob ss) = regs ss \<union> add_keys ss k \<times> {ob}"
    by (simp add: bus_subscribe_def regs_add_observer)
  show "ss_wf ss \<Longrightarrow> regs (ss_remove_observer ob ss) = {(k, x). (k, x) \<in> regs ss \<and> x \<noteq> ob}"
    by (rule regs_remove_observer)
  show "notify_keys (bus_subscribe k ob ss) = notify_keys ss"
    by (rule ext) (simp add: notify_keys_def bus_subscribe_def)
  show "notify_keys (ss_remove_observer ob ss) = notify_keys ss"
    by (rule ext) (simp add: notify_keys_def)
  show "ss_wf ss \<Longrightarrow> \<exists>ds. bus_publish k ss = Some ds
      \<and> set ds = {ob. \<exists>q \<in> notify_keys ss k. (q, ob) \<in> regs ss}"
    using notify_routes [of ss 1 "fst k" "snd k"] by (auto simp: bus_publish_def)
qed



text \<open>C4: an observer registered with a declared subject gets every message of that subject
  together with the observers that were there before, and none once it is removed.\<close>

theorem bus_delivery:
  assumes "ss_wf ss" and "check_subject ty sty ss" and "status \<noteq> 0"
  shows "(\<exists>ds. ss_notify_to status ty sty (snd (add_observer ty sty ob ss)) = Some (True, ds)
           \<and> distinct ds \<and> set ds = insert ob {x. ((ty, sty), x) \<in> regs ss})
    \<and> (\<exists>ds. ss_notify_to status ty sty (ss_remove_observer ob (snd (add_observer ty sty ob ss)))
           = Some (True, ds) \<and> distinct ds \<and> set ds = {x. ((ty, sty), x) \<in> regs ss} - {ob})"
proof -
  let ?s = "snd (add_observer ty sty ob ss)"
  have k: "(ty, sty) \<in> fst ` set ss" using assms(2) by (simp add: check_subject_def)
  have wf: "ss_wf ?s" "ss_wf (ss_remove_observer ob ?s)" using assms(1) by (simp_all add: hat_inv)
  have "add_keys ss (ty, sty) = {(ty, sty)}" using k by (simp add: add_keys_def)
  then have regs: "regs ?s = insert ((ty, sty), ob) (regs ss)"
    "regs (ss_remove_observer ob ?s) = {(k, x). (k, x) \<in> regs ss \<and> x \<noteq> ob}"
    by (auto simp: regs_add_observer regs_remove_observer [OF wf(1)])
  show ?thesis
    using notify_exact [OF wf(1) assms(3), of ty sty] notify_exact [OF wf(2) assms(3), of ty sty] k
    by (auto simp: regs)
qed

theorem bus_delivery_witness:
  "\<exists>ds. ss_notify_to 1 ''event'' ''door''
      (snd (add_observer ''event'' ''door'' 7 (add_subject ''event'' ''door'' []))) = Some (True, ds)
    \<and> distinct ds \<and> 7 \<in> set ds"
proof -
  have "ss_wf (add_subject ''event'' ''door'' [])" by (simp add: hat_inv)
  moreover have "check_subject ''event'' ''door'' (add_subject ''event'' ''door'' [])"
    by (simp add: check_subject_def add_subject_def isDummy_def sm_insert_def sm_count_def)
  ultimately show ?thesis
    using bus_delivery [of "add_subject ''event'' ''door'' []" "''event''" "''door''" 1 7] by auto
qed

subsection \<open>Removal by name\<close>

lemma map_subjects_find:
  "map_subjects f ss = Some ss' \<Longrightarrow> sm_find ss k = Some s \<Longrightarrow> \<exists>s'. sm_find ss' k = Some s' \<and> f s = Some s'"
  by (induction f ss arbitrary: ss' rule: map_subjects.induct) (auto split: option.splits if_splits)

text \<open>Removing observers by name is only safe when the name is unique. If two distinct
  observers of a subject share the name, a null pointer stays in the subject and the next
  notification of that subject crashes.\<close>

lemma remove_by_name_crashes:
  assumes "sm_find ss (ty, sty) = Some s"
    and "Some x \<in> set (observers s)" "Some y \<in> set (observers s)" "x \<noteq> y"
    and "idof x = i" "idof y = i"
    and "ss_remove_observer_id idof i ss = Some ss'" and "status \<noteq> 0"
  shows "ss_notify_to status ty sty ss' = None"
proof -
  obtain s' where s': "sm_find ss' (ty, sty) = Some s'" "remove_observer_id idof i s = Some s'"
    using map_subjects_find [OF _ assms(1)] assms(7) by (auto simp: ss_remove_observer_id_def)
  then have "None \<in> set (observers s')"
    using null_and_erase_two [of x "observers s" y "\<lambda>x. idof x = i"] assms(2-6)
    by (auto simp: remove_observer_id_def split: if_splits)
  with s'(1) assms(8) show ?thesis by (simp add: ss_notify_to_def notify_observers_def)
qed

end
