(* ===== verification/Trigger_Clock.thy ===== *)
theory Trigger_Clock
  imports Subject_Bus
begin

text \<open>
  \<^verbatim>\<open>src/agents/minilibs/Trigger.cpp\<close>: the clock of an agent. It reads named periods
  from its parameters, sleeps for their greatest common divisor and sends a
  \<^verbatim>\<open>trigger\<close> event whenever a period has elapsed. One pass of the endless loop is the
  step \<open>tick\<close>; the texts of the clock readings it makes are the argument \<open>now\<close>, by trigger name.
  A division by zero is \<open>None\<close>.
\<close>

text \<open>The operators \<^verbatim>\<open>%\<close> and \<^verbatim>\<open>/\<close> of C++ on signed integers truncate towards zero.\<close>

definition c_rem :: "int \<Rightarrow> int \<Rightarrow> int" where
  "c_rem a b = sgn a * (\<bar>a\<bar> mod \<bar>b\<bar>)"

definition c_div :: "int \<Rightarrow> int \<Rightarrow> int" where
  "c_div a b = sgn a * sgn b * (\<bar>a\<bar> div \<bar>b\<bar>)"

lemma abs_c_rem: "b \<noteq> 0 \<Longrightarrow> \<bar>c_rem a b\<bar> = \<bar>a\<bar> mod \<bar>b\<bar>"
  by (auto simp: c_rem_def abs_mult sgn_if)

lemma c_rem_less: "b \<noteq> 0 \<Longrightarrow> \<bar>c_rem a b\<bar> < \<bar>b\<bar>"
  by (simp add: abs_c_rem)

function Euclide_loop :: "int \<Rightarrow> int \<Rightarrow> int \<Rightarrow> int" where
  "Euclide_loop a b r = (if r = 0 then b else Euclide_loop b r (c_rem b r))"
  by pat_completeness auto
termination
  by (relation "measure (\<lambda>(a, b, r). nat \<bar>r\<bar>)") (auto simp: c_rem_less)

declare Euclide_loop.simps [simp del]

definition Euclide :: "int \<Rightarrow> int \<Rightarrow> int option" where
  "Euclide a b = (if b = 0 then None else Some (Euclide_loop a b (c_rem a b)))"

definition TPRECISION :: int where "TPRECISION = 10"

record trigger =
  tparams :: mparams
  tm_left :: "(string, double) smap"
  cycle :: double

definition trigger_initSubject :: "double \<Rightarrow> trigger \<Rightarrow> subjects \<Rightarrow> trigger \<times> subjects" where
  "trigger_initSubject u t ss =
     fold (\<lambda>a (t, ss). (t\<lparr>tm_left := sm_put (ma_name a) (a2double u (ma_value a)) (tm_left t)\<rparr>,
                        add_subject ''trigger'' (ma_name a) ss))
       (mp_extractCategory (tparams t) ''trigger'') (t, ss)"

text \<open>The part of \<^verbatim>\<open>exec\<close> before the loop. The quotient of two integers is taken as an
  integer before it becomes the cycle.\<close>

definition period_units :: "double \<Rightarrow> int" where
  "period_units p = trunc (p * of_int TPRECISION)"

definition exec_mcd :: "(string, double) smap \<Rightarrow> int option" where
  "exec_mcd m =
     (case m of
        [] \<Rightarrow> None
      | (n, p) # _ \<Rightarrow>
          fold (\<lambda>(n, q) mcd. Option.bind mcd (\<lambda>d. Euclide d (period_units q))) m (Some (period_units p)))"

definition exec_start :: "trigger \<Rightarrow> trigger option" where
  "exec_start t =
     map_option (\<lambda>mcd. t\<lparr>cycle := of_int (c_div mcd TPRECISION)\<rparr>) (exec_mcd (tm_left t))"

datatype tick_action = CheckRpc | TickEvent mmessage

definition tick_event :: "mparams \<Rightarrow> string \<Rightarrow> double \<Rightarrow> mmessage \<Rightarrow> mmessage" where
  "tick_event ps n now event =
     m_add (m_add (event\<lparr>msubtype := n\<rparr>) ''time'' (double2a now)) ''period'' (mp_get_cat ps n ''trigger'')"

text \<open>One trigger of one pass: the remaining time after it, the event object, the actions.\<close>

definition tick_one ::
  "double \<Rightarrow> (string \<Rightarrow> double) \<Rightarrow> mparams \<Rightarrow> double \<Rightarrow> string \<Rightarrow> double \<Rightarrow> mmessage \<Rightarrow>
   double \<times> mmessage \<times> tick_action list" where
  "tick_one u now ps cyc n left event =
     (let left' = left - cyc
      in if left' \<le> 0
         then if n = ''check_rpc_timeout'' then (left', event, [CheckRpc])
              else let event' = tick_event ps n (now n) event
                   in (a2double u (mp_get_cat ps n ''trigger''), event', [TickEvent event'])
         else (left', event, []))"

fun tick_loop ::
  "double \<Rightarrow> (string \<Rightarrow> double) \<Rightarrow> mparams \<Rightarrow> double \<Rightarrow> (string, double) smap \<Rightarrow> mmessage \<Rightarrow>
   (string, double) smap \<times> mmessage \<times> tick_action list" where
  "tick_loop u now ps cyc [] event = ([], event, [])"
| "tick_loop u now ps cyc ((n, left) # m) event =
     (let (left', event', as) = tick_one u now ps cyc n left event;
          (m', event'', bs) = tick_loop u now ps cyc m event'
      in ((n, left') # m', event'', as @ bs))"

definition tick ::
  "double \<Rightarrow> (string \<Rightarrow> double) \<Rightarrow> trigger \<times> mmessage \<Rightarrow> (trigger \<times> mmessage) \<times> tick_action list" where
  "tick u now s =
     (let (t, event) = s;
          (m, event', as) = tick_loop u now (tparams t) (cycle t) (tm_left t) event
      in ((t\<lparr>tm_left := m\<rparr>, event'), as))"

subsection \<open>The common divisor\<close>

lemma gcd_c_rem: "b \<noteq> 0 \<Longrightarrow> gcd b (c_rem a b) = gcd a b"
proof -
  assume "b \<noteq> 0"
  have "gcd b (c_rem a b) = gcd \<bar>b\<bar> \<bar>c_rem a b\<bar>" by simp
  also have "\<dots> = gcd \<bar>b\<bar> (\<bar>a\<bar> mod \<bar>b\<bar>)" using \<open>b \<noteq> 0\<close> by (simp add: abs_c_rem)
  also have "\<dots> = gcd a b" by (metis gcd.commute gcd_abs1_int gcd_abs2_int gcd_red_int)
  finally show ?thesis .
qed

lemma Euclide_loop_gcd: "\<bar>Euclide_loop a b r\<bar> = gcd b r"
proof (induction a b r rule: Euclide_loop.induct)
  case (1 a b r)
  show ?case
    by (subst Euclide_loop.simps) (simp add: 1 gcd_c_rem)
qed

text \<open>The loop of \<open>Euclide\<close> ends for any arguments with a non-zero divisor and returns
  their greatest common divisor up to sign.\<close>

lemma Euclide_gcd:
  "(b = 0 \<longrightarrow> Euclide a b = None) \<and> (b \<noteq> 0 \<longrightarrow> (\<exists>g. Euclide a b = Some g \<and> \<bar>g\<bar> = gcd a b))"
  by (simp add: Euclide_def Euclide_loop_gcd gcd_c_rem)

subsection \<open>When a trigger fires\<close>

definition fires :: "string \<Rightarrow> tick_action list \<Rightarrow> nat" where
  "fires n as = length (filter (\<lambda>a. case a of TickEvent m \<Rightarrow> msubtype m = n | CheckRpc \<Rightarrow> False) as)"

fun run_ticks ::
  "double \<Rightarrow> (string \<Rightarrow> double) list \<Rightarrow> trigger \<times> mmessage \<Rightarrow> (trigger \<times> mmessage) \<times> tick_action list list" where
  "run_ticks u [] s = (s, [])"
| "run_ticks u (now # nows) s =
     (let (s', as) = tick u now s; (s'', ass) = run_ticks u nows s' in (s'', as # ass))"

lemma fires_simps [simp]: "fires n [] = 0" "fires n (as @ bs) = fires n as + fires n bs"
  "fires n [CheckRpc] = 0" "fires n [TickEvent m] = (if msubtype m = n then 1 else 0)"
  by (simp_all add: fires_def)

lemma tick_event_subtype [simp]: "msubtype (tick_event ps n now event) = n"
  by (simp add: tick_event_def)

definition next_left :: "double \<Rightarrow> mparams \<Rightarrow> double \<Rightarrow> string \<Rightarrow> double \<Rightarrow> double" where
  "next_left u ps cyc n left =
     (if left \<le> cyc \<and> n \<noteq> ''check_rpc_timeout'' then a2double u (mp_get_cat ps n ''trigger'') else left - cyc)"

lemma tick_one_left: "fst (tick_one u now ps cyc n left event) = next_left u ps cyc n left"
  by (simp add: tick_one_def next_left_def Let_def)

lemma tick_loop_left:
  "sm_find (fst (tick_loop u now ps cyc m event)) n = map_option (next_left u ps cyc n) (sm_find m n)"
proof (induction m arbitrary: event)
  case (Cons p m)
  obtain a left where p: "p = (a, left)" by (cases p)
  obtain l' e' as where one: "tick_one u now ps cyc a left event = (l', e', as)"
    by (cases "tick_one u now ps cyc a left event")
  with tick_one_left [of u now ps cyc a left event] have "l' = next_left u ps cyc a left" by simp
  with Cons [of e'] show ?case by (auto simp: p one split: prod.splits)
qed simp

lemma tick_loop_keys: "map fst (fst (tick_loop u now ps cyc m event)) = map fst m"
  by (induction u now ps cyc m event rule: tick_loop.induct) (auto simp: Let_def split: prod.splits)

lemma tick_loop_fires:
  assumes "distinct (map fst m)" and "n \<noteq> ''check_rpc_timeout''"
  shows "fires n (snd (snd (tick_loop u now ps cyc m event)))
    = (case sm_find m n of Some left \<Rightarrow> if left - cyc \<le> 0 then 1 else 0 | None \<Rightarrow> 0)"
  using assms(1)
proof (induction u now ps cyc m event rule: tick_loop.induct)
  case (1 u now ps cyc event)
  then show ?case by simp
next
  case (2 u now ps cyc a left m event)
  obtain l' e' as where one: "tick_one u now ps cyc a left event = (l', e', as)"
    by (cases "tick_one u now ps cyc a left event")
  obtain m' e'' bs where loop: "tick_loop u now ps cyc m e' = (m', e'', bs)"
    by (cases "tick_loop u now ps cyc m e'")
  have rest: "fires n bs = (case sm_find m n of Some left \<Rightarrow> if left - cyc \<le> 0 then 1 else 0 | None \<Rightarrow> 0)"
    using 2 one loop by simp
  have "fires n as = (if a = n \<and> left - cyc \<le> 0 then 1 else 0)"
    using one assms(2) by (auto simp: tick_one_def Let_def split: if_splits)
  moreover have "a = n \<Longrightarrow> sm_find m n = None" using 2(2) by (auto simp: sm_find_None)
  ultimately show ?case using rest by (auto simp: one loop)
qed

lemma tick_keeps:
  "tick u now (t, event) = ((t', event'), as) \<Longrightarrow> cycle t' = cycle t \<and> tparams t' = tparams t
     \<and> map fst (tm_left t') = map fst (tm_left t)"
  using tick_loop_keys [of u now "tparams t" "cycle t" "tm_left t" event]
  by (auto simp: tick_def split: prod.splits)

lemma tick_left:
  assumes "tick u now (t, event) = ((t', event'), as)" and "sm_find (tm_left t) n = Some left"
    and "cycle t < left"
  shows "sm_find (tm_left t') n = Some (left - cycle t)"
  using assms tick_loop_left [of u now "tparams t" "cycle t" "tm_left t" event n]
  by (auto simp: tick_def next_left_def split: prod.splits)

lemma tick_fires:
  assumes "tick u now (t, event) = ((t', event'), as)" and "distinct (map fst (tm_left t))"
    and "n \<noteq> ''check_rpc_timeout''" and "sm_find (tm_left t) n = Some left"
  shows "fires n as = (if left \<le> cycle t then 1 else 0)"
  using assms(1,4) tick_loop_fires [OF assms(2,3), of u now "tparams t" "cycle t" event]
  by (auto simp: tick_def split: prod.splits)

text \<open>A trigger whose remaining time lies in the \<open>k+1\<close>-th cycle is silent for \<open>k\<close> passes
  of the loop and sends exactly one event in the next one.\<close>

lemma trigger_period:
  assumes "distinct (map fst (tm_left t))" and "n \<noteq> ''check_rpc_timeout''"
    and "sm_find (tm_left t) n = Some left"
    and "of_nat k * cycle t < left" and "left \<le> of_nat (Suc k) * cycle t" and "length nows = Suc k"
  shows "map (fires n) (snd (run_ticks u nows (t, event))) = replicate k 0 @ [1]"
  using assms(1,3-)
proof (induction k arbitrary: t event left nows)
  case 0
  then obtain now where "nows = [now]" by (auto simp: length_Suc_conv)
  with 0 assms(2) show ?case
    by (auto simp: tick_fires split: prod.splits)
next
  case (Suc k)
  from Suc.prems(5) obtain now rest where nows: "nows = now # rest" "length rest = Suc k"
    by (auto simp: length_Suc_conv)
  obtain t' event' as where tick: "tick u now (t, event) = ((t', event'), as)"
    by (metis surj_pair)
  have pos: "0 \<le> cycle t"
    using Suc.prems(3,4) by (simp add: algebra_simps)
  have lt: "cycle t < left"
  proof -
    have "0 \<le> of_nat k * cycle t" using pos by simp
    with Suc.prems(3) show ?thesis by (simp add: algebra_simps)
  qed
  have "map (fires n) (snd (run_ticks u rest (t', event'))) = replicate k 0 @ [1]"
  proof (rule Suc.IH)
    show "distinct (map fst (tm_left t'))" using tick_keeps [OF tick] Suc.prems(1) by simp
    show "sm_find (tm_left t') n = Some (left - cycle t)" by (rule tick_left [OF tick Suc.prems(2) lt])
    show "of_nat k * cycle t' < left - cycle t" "left - cycle t \<le> of_nat (Suc k) * cycle t'"
      using Suc.prems(3,4) tick_keeps [OF tick] by (simp_all add: algebra_simps)
  qed (rule nows(2))
  moreover have "fires n as = 0"
    using tick_fires [OF tick Suc.prems(1) assms(2) Suc.prems(2)] lt by simp
  ultimately show ?case by (auto simp: nows tick split: prod.splits)
qed

text \<open>A set of periods whose common divisor is below one second yields a cycle of zero
  (the division by the precision is done on integers): the loop then neither counts down nor
  sends an event, whatever the clock says.\<close>

lemma trigger_subsecond_stalls:
  assumes "exec_mcd (tm_left t) = Some d" and "\<bar>d\<bar> < 10" and "\<forall>(n, left) \<in> set (tm_left t). 0 < left"
  shows "\<exists>t'. exec_start t = Some t' \<and> tick u now (t', event) = ((t', event), [])"
proof -
  let ?t = "t\<lparr>cycle := of_int (c_div d TPRECISION)\<rparr>"
  have c: "c_div d TPRECISION = 0" using assms(2) by (simp add: c_div_def TPRECISION_def)
  have "tick_loop u now ps 0 m event = (m, event, [])" if "\<forall>(n, left) \<in> set m. 0 < left" for m ps
    using that by (induction m) (auto simp: tick_one_def Let_def)
  with assms(3) have "tick u now (?t, event) = ((?t, event), [])"
    by (simp add: tick_def c)
  with assms(1) show ?thesis by (simp add: exec_start_def)
qed

end
