(* ===== verification/Rpc_Table.thy ===== *)
theory Rpc_Table
  imports Message_Queue Params
begin

text \<open>
  \<^verbatim>\<open>src/agents/minilibs/RpcWaitTable.cpp\<close>: remote calls in progress. \<open>callRegister\<close>
  opens an entry under a fresh tag, \<open>signal\<close> hands an answer to the entry its
  \<^verbatim>\<open>answer_tag\<close> names, \<open>checkTimeOut\<close> answers the calls older than 20 seconds, and
  \<open>wait\<close> blocks on the entry's queue. An entry is a heap object: \<open>pending\<close> pairs its address
  with its contents, and a new entry gets an address not used before. A blocked \<open>wait\<close> is the
  value \<open>None\<close>. The clock reading is an argument.
\<close>

record rpc_entry =
  rtag :: string
  waiting_queue :: "mmessage mqueue"
  rtime :: double

record rpc_table =
  pending :: "(nat \<times> rpc_entry) list"
  ttag :: string
  tagSequence :: int
  heap_next :: nat

definition MAXTAG :: int where "MAXTAG = 1000000"

definition RPC_TIMEOUT :: double where "RPC_TIMEOUT = 20"

definition tag_text :: "int \<Rightarrow> string" where
  "tag_text n = ''RPC_'' @ int2a n"

definition rpc_new :: rpc_table where
  "rpc_new = \<lparr>pending = [], ttag = tag_text 0, tagSequence = 0, heap_next = 0\<rparr>"

definition getTag :: "rpc_table \<Rightarrow> string \<times> rpc_table" where
  "getTag t =
     (let n = tagSequence t + 1;
          n' = (if n > MAXTAG then 0 else n)
      in (ttag t, t\<lparr>tagSequence := n', ttag := tag_text n'\<rparr>))"

definition callRegister :: "double \<Rightarrow> mmessage \<Rightarrow> rpc_table \<Rightarrow> string \<times> mmessage \<times> rpc_table" where
  "callRegister now m t =
     (let (tg, t') = getTag t;
          e = \<lparr>rtag = tg, waiting_queue = mq_new, rtime = now\<rparr>
      in (tg, m_add m ''tag'' tg,
          t'\<lparr>pending := pending t' @ [(heap_next t', e)], heap_next := heap_next t' + 1\<rparr>))"

abbreviation entry_send :: "mmessage \<Rightarrow> rpc_entry \<Rightarrow> rpc_entry" where
  "entry_send m e \<equiv> e\<lparr>waiting_queue := mq_send priority (waiting_queue e) m\<rparr>"

fun signal_loop :: "mmessage \<Rightarrow> string \<Rightarrow> (nat \<times> rpc_entry) list \<Rightarrow> ((nat \<times> rpc_entry) list) option" where
  "signal_loop m mtag [] = None"
| "signal_loop m mtag ((a, e) # es) =
     (if rtag e = mtag then Some ((a, entry_send m e) # es)
      else map_option (Cons (a, e)) (signal_loop m mtag es))"

definition rpc_signal :: "mmessage \<Rightarrow> rpc_table \<Rightarrow> bool \<times> rpc_table" where
  "rpc_signal m t =
     (case signal_loop m (m_getString m ''answer_tag'') (pending t) of
        Some es \<Rightarrow> (True, t\<lparr>pending := es\<rparr>)
      | None \<Rightarrow> (False, t))"

definition mkComplain :: "string \<Rightarrow> mmessage" where
  "mkComplain tg = m_add (m_add (m_new ''rpc'' ''timeout'') ''answer_tag'' tg) ''value'' ''timed_out''"

definition checkTimeOut :: "double \<Rightarrow> rpc_table \<Rightarrow> rpc_table" where
  "checkTimeOut ctime t =
     t\<lparr>pending := map (\<lambda>(a, e). (a, if rtime e + RPC_TIMEOUT < ctime
                                     then entry_send (mkComplain (rtag e)) e else e)) (pending t)\<rparr>"

fun getEntry_loop :: "string \<Rightarrow> (nat \<times> rpc_entry) list \<Rightarrow> (nat \<times> rpc_entry) option" where
  "getEntry_loop tg [] = None"
| "getEntry_loop tg ((a, e) # es) = (if rtag e = tg then Some (a, e) else getEntry_loop tg es)"

definition getEntry :: "string \<Rightarrow> rpc_table \<Rightarrow> (nat \<times> rpc_entry) option" where
  "getEntry tg t = getEntry_loop tg (pending t)"

text \<open>\<open>clearEntry\<close> reads one past the end when the entry is not pending: \<open>None\<close>.\<close>

definition clearEntry :: "nat \<Rightarrow> rpc_table \<Rightarrow> (bool \<times> rpc_table) option" where
  "clearEntry a t =
     (if a \<in> fst ` set (pending t)
      then Some (True, t\<lparr>pending := takeWhile (\<lambda>(b, e). b \<noteq> a) (pending t)
                                @ tl (dropWhile (\<lambda>(b, e). b \<noteq> a) (pending t))\<rparr>)
      else None)"

text \<open>\<open>wait\<close> once the queue of the entry holds an answer: \<open>None\<close> when it has to block.\<close>

definition rpc_wait :: "string \<Rightarrow> rpc_table \<Rightarrow> (mmessage \<times> rpc_table) option" where
  "rpc_wait tg t =
     (case getEntry tg t of
        None \<Rightarrow> Some (m_new ''error'' ''no_entry'', t)
      | Some (a, e) \<Rightarrow>
          (case mq_receive priority (waiting_queue e) of
             None \<Rightarrow> None
           | Some (m, q) \<Rightarrow> map_option (\<lambda>(r, t'). (m, t')) (clearEntry a t)))"

text \<open>\<^verbatim>\<open>hsrv::rpcNotify\<close> (\<^verbatim>\<open>hsrv.cpp\<close>), the answer an agent sends to a waiting call.\<close>

definition rpcNotify :: "string \<Rightarrow> string \<Rightarrow> string \<Rightarrow> rpc_table \<Rightarrow> rpc_table" where
  "rpcNotify tg f v t =
     snd (rpc_signal (m_add (m_add (m_new ''rpc'' ''answer'') ''answer_tag'' tg) f v) t)"

subsection \<open>Invariant\<close>

definition rpc_wf :: "rpc_table \<Rightarrow> bool" where
  "rpc_wf t \<longleftrightarrow> 0 \<le> tagSequence t \<and> tagSequence t \<le> MAXTAG \<and> ttag t = tag_text (tagSequence t)
     \<and> distinct (map fst (pending t)) \<and> (\<forall>(a, e) \<in> set (pending t). a < heap_next t \<and> maxlength (waiting_queue e) = 0)"

lemma rpc_wf_new [simp]: "rpc_wf rpc_new"
  by (simp add: rpc_wf_def rpc_new_def MAXTAG_def)

lemma rpc_wf_getTag [hat_inv]: "rpc_wf t \<Longrightarrow> rpc_wf (snd (getTag t))"
  by (auto simp: rpc_wf_def getTag_def Let_def MAXTAG_def)

lemma rpc_wf_register [hat_inv]: "rpc_wf t \<Longrightarrow> rpc_wf (snd (snd (callRegister now m t)))"
  by (fastforce simp: callRegister_def rpc_wf_def getTag_def Let_def MAXTAG_def mq_new_def)

lemma signal_loop_keys: "signal_loop m tg es = Some es' \<Longrightarrow> map fst es' = map fst es"
  by (induction m tg es arbitrary: es' rule: signal_loop.induct) (auto split: if_splits)

lemma maxlength_send [simp]: "maxlength (mq_send prio q m) = maxlength q"
  by (simp add: mq_send_def mq_purge_def)

lemma signal_loop_wf:
  "signal_loop m tg es = Some es' \<Longrightarrow> \<forall>(a, e) \<in> set es. P a \<and> maxlength (waiting_queue e) = 0 \<Longrightarrow>
   \<forall>(a, e) \<in> set es'. P a \<and> maxlength (waiting_queue e) = 0"
  by (induction m tg es arbitrary: es' rule: signal_loop.induct) (auto split: if_splits)

lemma rpc_wf_signal [hat_inv]: "rpc_wf t \<Longrightarrow> rpc_wf (snd (rpc_signal m t))"
  using signal_loop_keys [of m _ "pending t"] signal_loop_wf [of m _ "pending t" _ "\<lambda>a. a < heap_next t"]
  by (auto simp: rpc_wf_def rpc_signal_def split: option.splits)

lemma rpc_wf_timeout [hat_inv]: "rpc_wf t \<Longrightarrow> rpc_wf (checkTimeOut now t)"
  by (auto simp: rpc_wf_def checkTimeOut_def comp_def case_prod_beta)

subsection \<open>Tags\<close>

abbreviation next_tag :: "rpc_table \<Rightarrow> rpc_table" where
  "next_tag t \<equiv> snd (getTag t)"

lemma next_tag_sequence:
  "rpc_wf t \<Longrightarrow> tagSequence ((next_tag ^^ k) t) = (tagSequence t + int k) mod (MAXTAG + 1)
     \<and> rpc_wf ((next_tag ^^ k) t)"
proof (induction k)
  case 0
  then show ?case by (simp add: rpc_wf_def mod_pos_pos_trivial)
next
  case (Suc k)
  let ?u = "(next_tag ^^ k) t"
  from Suc have u: "tagSequence ?u = (tagSequence t + int k) mod (MAXTAG + 1)" "rpc_wf ?u" by auto
  have "tagSequence (next_tag ?u) = (tagSequence ?u + 1) mod (MAXTAG + 1)"
    using u(2) by (auto simp: getTag_def Let_def rpc_wf_def MAXTAG_def mod_pos_pos_trivial)
  also have "\<dots> = (tagSequence t + int (Suc k)) mod (MAXTAG + 1)"
    unfolding u(1) by (simp add: mod_simps algebra_simps)
  finally show ?case using rpc_wf_getTag [OF u(2)] by simp
qed

lemma tag_text_inj: "tag_text m = tag_text n \<longleftrightarrow> m = n"
  by (auto simp: tag_text_def int2a_inj)

text \<open>Tags are reused only after a full cycle: any two of 1000001 consecutive calls get
  different tags.\<close>

lemma getTag_distinct:
  assumes "rpc_wf t" and "i < j" and "j \<le> i + 1000000"
  shows "fst (getTag ((next_tag ^^ i) t)) \<noteq> fst (getTag ((next_tag ^^ j) t))"
proof
  assume eq: "fst (getTag ((next_tag ^^ i) t)) = fst (getTag ((next_tag ^^ j) t))"
  have tg: "fst (getTag ((next_tag ^^ k) t)) = tag_text ((tagSequence t + int k) mod (MAXTAG + 1))" for k
    using next_tag_sequence [OF assms(1), of k] by (simp add: getTag_def Let_def rpc_wf_def)
  from eq have "(tagSequence t + int i) mod (MAXTAG + 1) = (tagSequence t + int j) mod (MAXTAG + 1)"
    by (simp add: tg tag_text_inj)
  then have "(MAXTAG + 1) dvd (int j - int i)"
    by (simp add: mod_eq_dvd_iff) (metis dvd_diff_commute)
  with assms(2,3) show False by (auto simp: MAXTAG_def dest: zdvd_imp_le)
qed

subsection \<open>Completion of a call\<close>

lemma getEntry_append:
  "getEntry_loop tg (es @ fs) = (case getEntry_loop tg es of Some x \<Rightarrow> Some x | None \<Rightarrow> getEntry_loop tg fs)"
  by (induction tg es rule: getEntry_loop.induct) auto

lemma getEntry_None: "getEntry_loop tg es = None \<longleftrightarrow> (\<forall>(a, e) \<in> set es. rtag e \<noteq> tg)"
  by (induction tg es rule: getEntry_loop.induct) auto

lemma signal_append:
  "\<forall>(a, e) \<in> set es. rtag e \<noteq> tg \<Longrightarrow>
   signal_loop m tg (es @ fs) = map_option (\<lambda>fs. es @ fs) (signal_loop m tg fs)"
  by (induction m tg es rule: signal_loop.induct) (auto simp: option.map_comp comp_def map_option_case split: option.splits)

lemma clear_last:
  assumes "a \<notin> fst ` set es"
  shows "clearEntry a (t\<lparr>pending := es @ [(a, e)]\<rparr>) = Some (True, t\<lparr>pending := es\<rparr>)"
proof -
  have "takeWhile (\<lambda>(b, e). b \<noteq> a) (es @ [(a, e)]) = es" "dropWhile (\<lambda>(b, e). b \<noteq> a) (es @ [(a, e)]) = [(a, e)]"
    using assms by (induction es) auto
  then show ?thesis by (simp add: clearEntry_def)
qed

lemma receive_single [simp]: "maxlength q = 0 \<Longrightarrow> elems q = [] \<Longrightarrow>
    mq_receive prio (mq_send prio q m) = Some (m, q)"
  by (simp add: mq_receive_def mq_send_def mq_purge_def highest_index_def Let_def erase_at_def)

text \<open>A call blocks until its answer is signalled, then returns exactly that answer and
  leaves the other calls as they were.\<close>

lemma rpc_call_completes:
  assumes "rpc_wf t" and "\<forall>(a, e) \<in> set (pending t). rtag e \<noteq> ttag t"
    and "callRegister now m t = (tg, m', t1)" and "m_getString ans ''answer_tag'' = tg"
  shows "rpc_wait tg t1 = None
    \<and> (\<exists>t2. rpc_wait tg (snd (rpc_signal ans t1)) = Some (ans, t2) \<and> pending t2 = pending t)"
proof -
  let ?e = "\<lparr>rtag = tg, waiting_queue = mq_new, rtime = now\<rparr>"
  let ?a = "heap_next t"
  from assms(3) have tg: "tg = ttag t" by (simp add: callRegister_def getTag_def Let_def)
  from assms(3) have t1: "pending t1 = pending t @ [(?a, ?e)]"
    by (auto simp: callRegister_def getTag_def Let_def)
  have old: "\<forall>(a, e) \<in> set (pending t). rtag e \<noteq> tg" using assms(2) tg by simp
  then have get: "getEntry_loop tg (pending t @ [(?a, e)]) = (if rtag e = tg then Some (?a, e) else None)" for e
    by (simp add: getEntry_append getEntry_None [THEN iffD2])
  have fresh: "?a \<notin> fst ` set (pending t)" using assms(1) by (force simp: rpc_wf_def)
  have block: "rpc_wait tg t1 = None"
    by (simp add: rpc_wait_def getEntry_def t1 get mq_receive_def mq_new_def)
  have sig: "snd (rpc_signal ans t1) = t1\<lparr>pending := pending t @ [(?a, entry_send ans ?e)]\<rparr>"
    using old by (simp add: rpc_signal_def assms(4) t1 signal_append)
  have "rpc_wait tg (snd (rpc_signal ans t1)) = Some (ans, t1\<lparr>pending := pending t\<rparr>)"
    unfolding sig by (simp add: rpc_wait_def getEntry_def get clear_last [OF fresh] mq_new_def)
  with block show ?thesis by simp
qed

subsection \<open>Time-out\<close>

lemma receive_send_some: "maxlength q = 0 \<Longrightarrow> mq_receive prio (mq_send prio q m) \<noteq> None"
  by (simp add: mq_receive_def mq_send_def mq_purge_def Let_def)

lemma getEntry_mem: "getEntry_loop tg es = Some (a, e) \<Longrightarrow> (a, e) \<in> set es \<and> rtag e = tg"
  by (induction tg es rule: getEntry_loop.induct) (auto split: if_splits)

lemma getEntry_map:
  assumes "\<And>e. rtag (f e) = rtag e"
  shows "getEntry_loop tg (map (\<lambda>(a, e). (a, f e)) es) = map_option (\<lambda>(a, e). (a, f e)) (getEntry_loop tg es)"
  by (induction tg es rule: getEntry_loop.induct) (simp_all add: assms)

text \<open>A call cannot block for ever. Once \<open>checkTimeOut\<close> has run more than 20 seconds
  after every pending call was made, waiting for any tag returns.\<close>

lemma rpc_timeout_unblocks:
  assumes "rpc_wf t" and "\<forall>(a, e) \<in> set (pending t). rtime e + RPC_TIMEOUT < now"
  shows "\<exists>m t'. rpc_wait tg (checkTimeOut now t) = Some (m, t')"
proof (cases "getEntry_loop tg (pending t)")
  let ?f = "\<lambda>e. if rtime e + RPC_TIMEOUT < now then entry_send (mkComplain (rtag e)) e else e"
  have get: "getEntry tg (checkTimeOut now t) = map_option (\<lambda>(a, e). (a, ?f e)) (getEntry_loop tg (pending t))"
    by (simp add: getEntry_def checkTimeOut_def getEntry_map)
  {
    case None
    with get show ?thesis by (simp add: rpc_wait_def)
  next
    case (Some p)
    obtain a e where p: "p = (a, e)" by (cases p)
    with Some have mem: "(a, e) \<in> set (pending t)" by (simp add: getEntry_mem)
    then have late: "rtime e + RPC_TIMEOUT < now" and q: "maxlength (waiting_queue e) = 0"
      using assms by (auto simp: rpc_wf_def)
    have "a \<in> fst ` set (pending (checkTimeOut now t))"
      using mem by (force simp: checkTimeOut_def)
    then obtain r u where "clearEntry a (checkTimeOut now t) = Some (r, u)" by (simp add: clearEntry_def)
    moreover obtain v w where "mq_receive priority (mq_send priority (waiting_queue e) (mkComplain (rtag e))) = Some (v, w)"
      using receive_send_some [OF q] by fastforce
    ultimately show ?thesis using get Some p late by (simp add: rpc_wait_def)
  }
qed

end
