(* ===== verification/Event_Counter.thy ===== *)
theory Event_Counter
  imports Params
begin

text \<open>
  The sensors of the rule engine: \<^verbatim>\<open>EvList\<close>, \<^verbatim>\<open>DelayQueue\<close>,
  \<^verbatim>\<open>EventCounter\<close>, \<^verbatim>\<open>EventCounterSet\<close>, \<^verbatim>\<open>BooleanCondition\<close> and
  \<^verbatim>\<open>BooleanConditionSet\<close> of \<^verbatim>\<open>src/agents/Manager\<close>. An event counter is a leaky
  bucket: an event adds \<open>dIncrement\<close>, time removes \<open>dDecrement\<close> per second, and the counter is
  active while it is at or above its threshold. Each operation takes one clock reading \<open>now\<close>
  (the several calls of \<^verbatim>\<open>gettime\<close> inside it are taken to agree) and the value \<open>u\<close>
  of the uninitialised local of \<^verbatim>\<open>a2double\<close>. The messages are passed by reference, so an
  operation that stores in one returns it.
\<close>

subsection \<open>Event histories\<close>

record event =
  ev_time :: double
  ev_source :: string
  ev_video :: string

type_synonym ev_list = "event list"

definition event_new :: "string \<Rightarrow> double \<Rightarrow> event" where
  "event_new s t = \<lparr>ev_time = t, ev_source = s, ev_video = ''''\<rparr>"

definition event_new_video :: "string \<Rightarrow> string \<Rightarrow> double \<Rightarrow> event" where
  "event_new_video s v t = \<lparr>ev_time = t, ev_source = s, ev_video = v\<rparr>"

text \<open>\<open>update\<close> erases at the iterator and then advances it: the element that moved into the
  erased place is not looked at.\<close>

fun ev_update :: "double \<Rightarrow> ev_list \<Rightarrow> ev_list \<times> nat" where
  "ev_update t [] = ([], 0)"
| "ev_update t [e] = (if ev_time e < t then ([], 1) else ([e], 0))"
| "ev_update t (e # f # es) =
     (if ev_time e < t
      then let (r, c) = ev_update t es in (f # r, Suc c)
      else let (r, c) = ev_update t (f # es) in (e # r, c))"

definition plus_join :: "(event \<Rightarrow> string) \<Rightarrow> ev_list \<Rightarrow> string" where
  "plus_join g es = fold (\<lambda>e tmp. (if tmp \<noteq> '''' then tmp @ ''+'' else tmp) @ g e) es ''''"

definition ev_history :: "ev_list \<Rightarrow> string" where
  "ev_history es = plus_join ev_source es"

definition ev_videos :: "ev_list \<Rightarrow> string" where
  "ev_videos es = plus_join ev_video es"

subsection \<open>Delay queues\<close>

record delay_queue =
  dq_msgs :: "mmessage list"
  dq_delay :: double
  next_deadline :: xdouble
  next_message :: nat

definition MAXDELAYQSZ :: nat where "MAXDELAYQSZ = 100"

text \<open>The constructor does not set \<open>next_message\<close>: it keeps the value of the memory.\<close>

definition dq_new :: "double \<Rightarrow> nat \<Rightarrow> string \<Rightarrow> delay_queue" where
  "dq_new u junk d = \<lparr>dq_msgs = [], dq_delay = a2double u d, next_deadline = Fin 0, next_message = junk\<rparr>"

fun deadline_scan :: "double \<Rightarrow> nat \<Rightarrow> mmessage list \<Rightarrow> nat \<times> xdouble \<Rightarrow> nat \<times> xdouble" where
  "deadline_scan u i [] best = best"
| "deadline_scan u i (m # ms) (n, d) =
     (let t = m_getDouble u m ''time''
      in deadline_scan u (Suc i) ms (if xless (Fin t) d then (i, Fin t) else (n, d)))"

definition deadlineUpdate :: "double \<Rightarrow> delay_queue \<Rightarrow> delay_queue" where
  "deadlineUpdate u q =
     (let (n, d) = deadline_scan u 0 (dq_msgs q) (0, Infinity)
      in q\<lparr>next_message := n, next_deadline := d\<rparr>)"

definition messageGet :: "double \<Rightarrow> double \<Rightarrow> delay_queue \<Rightarrow> (mmessage option) \<times> delay_queue" where
  "messageGet u now q =
     (if length (dq_msgs q) = 0 then (None, q)
      else if \<not> xless (Fin now) (next_deadline q)
      then (Some (m_add_double (dq_msgs q ! next_message q) ''time'' now),
            deadlineUpdate u (q\<lparr>dq_msgs := erase_at (next_message q) (dq_msgs q)\<rparr>))
      else (None, q))"

definition messageAppend :: "double \<Rightarrow> double \<Rightarrow> mmessage \<Rightarrow> delay_queue \<Rightarrow> bool \<times> mmessage \<times> delay_queue" where
  "messageAppend u now m q =
     (if length (dq_msgs q) > MAXDELAYQSZ then (False, m, q)
      else let m' = m_add m ''time'' (double2a (now + dq_delay q))
           in (True, m', deadlineUpdate u (q\<lparr>dq_msgs := dq_msgs q @ [m']\<rparr>)))"

definition dq_clear :: "delay_queue \<Rightarrow> delay_queue" where
  "dq_clear q = q\<lparr>dq_msgs := []\<rparr>"

subsection \<open>Event counters\<close>

record event_counter =
  ec_params :: mparams
  ec_name :: string
  counter :: double
  dIncrement :: double
  dDecrement :: double
  threshold :: double
  ec_alias :: name_list
  ec_values :: name_list
  last_time :: double
  current_time :: double
  history :: ev_list
  comment :: string
  dq :: "delay_queue option"

definition ec_new :: "double \<Rightarrow> nat \<Rightarrow> double \<Rightarrow> mparams \<Rightarrow> string \<Rightarrow> event_counter" where
  "ec_new u junk now p nm =
     \<lparr>ec_params = p,
      ec_name = (if mp_get p ''name'' = '''' then nm else mp_get p ''name''),
      counter = 0,
      dIncrement = a2double u (mp_get p ''increment''),
      dDecrement = a2double u (mp_get p ''decrement''),
      threshold = a2double u (mp_get p ''threshold''),
      ec_alias = fst (nl_init [] (mp_get p ''alias'') (CHR ''+'')),
      ec_values = fst (nl_init [] (mp_get p ''accepted_values'') (CHR ''+'')),
      last_time = now, current_time = now, history = [], comment = '''',
      dq = (if mp_get p ''delay'' \<noteq> '''' then Some (dq_new u junk (mp_get p ''delay'')) else None)\<rparr>"

text \<open>The third test of \<open>match\<close> reads the field that the source names.\<close>

definition name_match :: "string \<Rightarrow> name_list \<Rightarrow> mmessage \<Rightarrow> bool" where
  "name_match ty al m =
     (let source = m_getString m ''source''
      in msubtype m = ty \<or> nl_member al (msubtype m) \<or> m_getString m source = ty \<or> nl_member al source)"

definition ec_match :: "mmessage \<Rightarrow> event_counter \<Rightarrow> bool" where
  "ec_match m ec =
     (if \<not> nl_member (ec_values ec) (m_getString m ''value'') then False
      else name_match (pty (ec_params ec)) (ec_alias ec) m)"

definition ec_Update :: "double \<Rightarrow> mmessage \<Rightarrow> event_counter \<Rightarrow> double \<times> event_counter" where
  "ec_Update now m ec =
     (let source = m_getString m ''source'';
          video = m_getString m ''video'';
          source' = (if source = '''' then msubtype m else source);
          ec' = ec\<lparr>counter := counter ec + dIncrement ec,
                   history := history ec @
                     [if video \<noteq> '''' then event_new_video source' video now else event_new source' now],
                   comment := m_getString m ''comment''\<rparr>
      in (counter ec', ec'))"

definition ec_eventUpdate ::
  "double \<Rightarrow> double \<Rightarrow> mmessage \<Rightarrow> event_counter \<Rightarrow> double \<times> mmessage \<times> event_counter" where
  "ec_eventUpdate u now m ec =
     (if \<not> ec_match m ec then (0, m, ec)
      else case dq ec of
             None \<Rightarrow> (let (r, ec') = ec_Update now m ec in (r, m, ec'))
           | Some q \<Rightarrow>
               (let (ok, m', q') = messageAppend u now m q;
                    (got, q'') = messageGet u now q';
                    ec' = ec\<lparr>dq := Some q''\<rparr>
                in case got of
                     None \<Rightarrow> (0, m', ec')
                   | Some d \<Rightarrow> (let (r, ec'') = ec_Update now d ec' in (r, m', ec''))))"

definition leak :: "double \<Rightarrow> double \<Rightarrow> event_counter \<Rightarrow> event_counter" where
  "leak u now ec =
     (let c = counter ec - (now - last_time ec) * dDecrement ec;
          memory = mp_get (ec_params ec) ''memory'';
          memory' = (if memory = '''' then ''10'' else memory)
      in ec\<lparr>current_time := now, counter := (if c < 0 then 0 else c), last_time := now,
            history := fst (ev_update (now - a2double u memory') (history ec))\<rparr>)"

definition ec_timeUpdate :: "double \<Rightarrow> double \<Rightarrow> event_counter \<Rightarrow> double \<times> event_counter" where
  "ec_timeUpdate u now ec =
     (let ec1 = (case dq ec of
                   None \<Rightarrow> ec
                 | Some q \<Rightarrow>
                     (case messageGet u now q of
                        (None, q') \<Rightarrow> ec\<lparr>dq := Some q'\<rparr>
                      | (Some m, q') \<Rightarrow> (snd (ec_Update now m (ec\<lparr>dq := Some q'\<rparr>)))\<lparr>last_time := now\<rparr>));
          ec2 = leak u now ec1
      in (counter ec2, ec2))"

definition ec_isActive :: "event_counter \<Rightarrow> bool" where
  "ec_isActive ec \<longleftrightarrow> counter ec \<ge> threshold ec"

definition observe_aliases :: "mparams \<Rightarrow> name_list \<Rightarrow> mparams \<Rightarrow> mparams" where
  "observe_aliases p al obs =
     (let nn = mp_get p ''name''
      in fold (\<lambda>a obs. if nn \<noteq> a then mp_add_cat obs a ''observe'' ''event'' else obs) al
           (mp_add_cat obs nn ''observe'' ''event''))"

definition ec_observations :: "event_counter \<Rightarrow> mparams \<Rightarrow> mparams" where
  "ec_observations ec obs = observe_aliases (ec_params ec) (ec_alias ec) obs"

definition ec_clearDQ :: "event_counter \<Rightarrow> event_counter" where
  "ec_clearDQ ec = ec\<lparr>dq := map_option dq_clear (dq ec)\<rparr>"

subsection \<open>Sets of counters\<close>

definition ecs_timeUpdate :: "double \<Rightarrow> double \<Rightarrow> event_counter list \<Rightarrow> bool \<times> event_counter list" where
  "ecs_timeUpdate u now ecs =
     (let rs = map (ec_timeUpdate u now) ecs in (sum_list (map fst rs) > 0, map snd rs))"

fun ecs_event_loop ::
  "double \<Rightarrow> double \<Rightarrow> mmessage \<Rightarrow> event_counter list \<Rightarrow> double \<times> mmessage \<times> event_counter list" where
  "ecs_event_loop u now m [] = (0, m, [])"
| "ecs_event_loop u now m (ec # ecs) =
     (let (r, m', ec') = ec_eventUpdate u now m ec;
          (rs, m'', ecs') = ecs_event_loop u now m' ecs
      in (r + rs, m'', ec' # ecs'))"

definition ecs_eventUpdate ::
  "double \<Rightarrow> double \<Rightarrow> mmessage \<Rightarrow> event_counter list \<Rightarrow> bool \<times> mmessage \<times> event_counter list" where
  "ecs_eventUpdate u now m ecs =
     (let (s, m', ecs') = ecs_event_loop u now m (snd (ecs_timeUpdate u now ecs)) in (s > 0, m', ecs'))"

definition ecs_clearDQ :: "event_counter list \<Rightarrow> event_counter list" where
  "ecs_clearDQ ecs = map ec_clearDQ ecs"

definition ecs_observations :: "event_counter list \<Rightarrow> mparams \<Rightarrow> mparams" where
  "ecs_observations ecs obs = fold ec_observations ecs obs"

subsection \<open>Boolean conditions\<close>

record boolean_condition =
  bc_params :: mparams
  bc_name :: string
  bc_value :: double
  bc_threshold :: double
  bc_alias :: name_list
  bc_last_time :: double

definition bc_new :: "double \<Rightarrow> double \<Rightarrow> mparams \<Rightarrow> string \<Rightarrow> boolean_condition" where
  "bc_new u now p nm =
     \<lparr>bc_params = p,
      bc_name = (if mp_get p ''name'' = '''' then nm else mp_get p ''name''),
      bc_value = 0,
      bc_threshold = a2double u (mp_get p ''threshold''),
      bc_alias = fst (nl_init [] (mp_get p ''alias'') (CHR ''+'')),
      bc_last_time = now\<rparr>"

definition bc_match :: "mmessage \<Rightarrow> boolean_condition \<Rightarrow> bool" where
  "bc_match m bc = name_match (pty (bc_params bc)) (bc_alias bc) m"

definition bc_eventUpdate :: "double \<Rightarrow> mmessage \<Rightarrow> boolean_condition \<Rightarrow> double \<times> boolean_condition" where
  "bc_eventUpdate u m bc =
     (let tvalue = m_getString m ''value'';
          v = (if \<not> bc_match m bc then bc_value bc
               else if tvalue \<in> {''ON'', ''On'', ''on''} then 1
               else if tvalue \<in> {''OFF'', ''Off'', ''off''} then 0
               else a2double u tvalue)
      in (v, bc\<lparr>bc_value := v\<rparr>))"

definition bc_isActive :: "boolean_condition \<Rightarrow> bool" where
  "bc_isActive bc \<longleftrightarrow> bc_value bc > bc_threshold bc"

definition bc_reset :: "boolean_condition \<Rightarrow> boolean_condition" where
  "bc_reset bc = bc\<lparr>bc_value := 0\<rparr>"

definition bc_observations :: "boolean_condition \<Rightarrow> mparams \<Rightarrow> mparams" where
  "bc_observations bc obs = observe_aliases (bc_params bc) (bc_alias bc) obs"

definition bcs_eventUpdate :: "double \<Rightarrow> mmessage \<Rightarrow> boolean_condition list \<Rightarrow> bool \<times> boolean_condition list" where
  "bcs_eventUpdate u m bcs =
     (let rs = map (bc_eventUpdate u m) bcs in (sum_list (map fst rs) > 0, map snd rs))"

definition bcs_observations :: "boolean_condition list \<Rightarrow> mparams \<Rightarrow> mparams" where
  "bcs_observations bcs obs = fold bc_observations bcs obs"

subsection \<open>Histories\<close>

lemma ev_update_fresh:
  "filter (\<lambda>e. t \<le> ev_time e) (fst (ev_update t es)) = filter (\<lambda>e. t \<le> ev_time e) es
   \<and> length (fst (ev_update t es)) + snd (ev_update t es) = length es"
  by (induction t es rule: ev_update.induct) (auto split: prod.splits)

text \<open>Forgetting the events before a time never loses a later one, and counts what it
  drops; but of two old events in a row at the front the second stays in the history.\<close>

lemma ev_update_keeps_fresh:
  "filter (\<lambda>e. t \<le> ev_time e) (fst (ev_update t es)) = filter (\<lambda>e. t \<le> ev_time e) es
   \<and> length (fst (ev_update t es)) + snd (ev_update t es) = length es
   \<and> (ev_time a < t \<longrightarrow> b \<in> set (fst (ev_update t (a # b # es))))"
  using ev_update_fresh [of t es] by (auto split: prod.splits)

subsection \<open>Delay queues\<close>

abbreviation due :: "double \<Rightarrow> mmessage \<Rightarrow> double" where
  "due u m \<equiv> m_getDouble u m ''time''"

text \<open>The invariant: at most 101 messages, and the recorded deadline is the earliest one.\<close>

definition dq_wf :: "double \<Rightarrow> delay_queue \<Rightarrow> bool" where
  "dq_wf u q \<longleftrightarrow> length (dq_msgs q) \<le> MAXDELAYQSZ + 1 \<and>
     (dq_msgs q \<noteq> [] \<longrightarrow> next_message q < length (dq_msgs q)
        \<and> next_deadline q = Fin (due u (dq_msgs q ! next_message q))
        \<and> (\<forall>m \<in> set (dq_msgs q). due u (dq_msgs q ! next_message q) \<le> due u m))"

lemma deadline_scan_append:
  "deadline_scan u i (xs @ ys) b = deadline_scan u (i + length xs) ys (deadline_scan u i xs b)"
  by (induction xs arbitrary: i b) (auto simp: Let_def)

lemma deadline_scan_best:
  "ms \<noteq> [] \<Longrightarrow> \<exists>n < length ms. deadline_scan u 0 ms (0, Infinity) = (n, Fin (due u (ms ! n)))
     \<and> (\<forall>m \<in> set ms. due u (ms ! n) \<le> due u m)"
proof (induction ms rule: rev_induct)
  case Nil
  then show ?case by simp
next
  case (snoc m ms)
  show ?case
  proof (cases "ms = []")
    case True
    then show ?thesis by simp
  next
    case False
    with snoc.IH obtain n where n: "n < length ms"
      "deadline_scan u 0 ms (0, Infinity) = (n, Fin (due u (ms ! n)))"
      "\<forall>x \<in> set ms. due u (ms ! n) \<le> due u x" by blast
    show ?thesis
    proof (cases "due u m < due u (ms ! n)")
      case True
      with n have "\<forall>x \<in> set ms. due u m \<le> due u x" by force
      with n True show ?thesis
        by (intro exI [of _ "length ms"]) (simp add: deadline_scan_append)
    next
      case False
      with n show ?thesis
        by (intro exI [of _ n]) (simp add: deadline_scan_append nth_append)
    qed
  qed
qed

lemma dq_wf_deadlineUpdate:
  assumes "length (dq_msgs q) \<le> MAXDELAYQSZ + 1"
  shows "dq_wf u (deadlineUpdate u q)"
proof (cases "dq_msgs q = []")
  case True
  then show ?thesis by (simp add: dq_wf_def deadlineUpdate_def)
next
  case False
  with deadline_scan_best [OF this, of u] assms show ?thesis
    by (auto simp: dq_wf_def deadlineUpdate_def)
qed

lemma dq_msgs_deadlineUpdate [simp]: "dq_msgs (deadlineUpdate u q) = dq_msgs q"
  "dq_delay (deadlineUpdate u q) = dq_delay q"
  by (simp_all add: deadlineUpdate_def split: prod.splits)

lemma dq_wf_new [simp]: "dq_wf u (dq_new u junk d)"
  by (simp add: dq_wf_def dq_new_def)

lemma dq_wf_clear [simp]: "dq_wf u (dq_clear q)"
  by (simp add: dq_wf_def dq_clear_def)

lemma dq_wf_append [hat_inv]: "dq_wf u q \<Longrightarrow> messageAppend u now m q = (ok, m', q') \<Longrightarrow> dq_wf u q'"
  by (auto simp: messageAppend_def Let_def split: if_splits intro: dq_wf_deadlineUpdate)

lemma dq_wf_get [hat_inv]: "dq_wf u q \<Longrightarrow> messageGet u now q = (r, q') \<Longrightarrow> dq_wf u q'"
proof -
  assume wf: "dq_wf u q" and g: "messageGet u now q = (r, q')"
  have "dq_wf u (deadlineUpdate u (q\<lparr>dq_msgs := erase_at (next_message q) (dq_msgs q)\<rparr>))"
    if "dq_msgs q \<noteq> []"
    using wf that by (intro dq_wf_deadlineUpdate) (auto simp: dq_wf_def)
  with wf g show "dq_wf u q'" by (auto simp: messageGet_def split: if_splits)
qed

text \<open>A delay queue releases exactly the message with the earliest deadline, only once
  that deadline has passed, as soon as one has, and it never holds more than 101 messages.\<close>

lemma messageGet_earliest:
  assumes "dq_wf u q"
  shows "length (dq_msgs q) \<le> 101 \<and> dq_wf u (snd (messageGet u now q))
    \<and> (fst (messageGet u now q) = None \<longleftrightarrow> (\<forall>m \<in> set (dq_msgs q). now < due u m))
    \<and> (\<forall>d. fst (messageGet u now q) = Some d \<longrightarrow>
         (\<exists>xs m ys. dq_msgs q = xs @ m # ys \<and> dq_msgs (snd (messageGet u now q)) = xs @ ys
            \<and> d = m_add_double m ''time'' now \<and> due u m \<le> now \<and> (\<forall>x \<in> set (xs @ ys). due u m \<le> due u x)))"
proof (cases "dq_msgs q = []")
  case True
  with assms show ?thesis by (simp add: messageGet_def dq_wf_def MAXDELAYQSZ_def)
next
  case False
  let ?n = "next_message q"
  let ?m = "dq_msgs q ! ?n"
  from False assms have n: "?n < length (dq_msgs q)" "next_deadline q = Fin (due u ?m)"
    "\<forall>m \<in> set (dq_msgs q). due u ?m \<le> due u m" "length (dq_msgs q) \<le> 101"
    by (auto simp: dq_wf_def MAXDELAYQSZ_def)
  have wf: "dq_wf u (snd (messageGet u now q))"
    using dq_wf_get [OF assms, of now "fst (messageGet u now q)"] by simp
  have split: "dq_msgs q = take ?n (dq_msgs q) @ ?m # drop (Suc ?n) (dq_msgs q)"
    by (rule erase_at_split [OF n(1)])
  show ?thesis
  proof (cases "now < due u ?m")
    case True
    with n(3) have "\<forall>m \<in> set (dq_msgs q). now < due u m" by force
    with True False n wf show ?thesis by (simp add: messageGet_def)
  next
    case False
    have "\<not> (\<forall>m \<in> set (dq_msgs q). now < due u m)" using False n(1) nth_mem by blast
    moreover have "\<exists>xs m ys. dq_msgs q = xs @ m # ys \<and> erase_at ?n (dq_msgs q) = xs @ ys
        \<and> m_add_double ?m ''time'' now = m_add_double m ''time'' now \<and> due u m \<le> now
        \<and> (\<forall>x \<in> set (xs @ ys). due u m \<le> due u x)"
      using split False n(3)
      by (intro exI [of _ "take ?n (dq_msgs q)"] exI [of _ ?m] exI [of _ "drop (Suc ?n) (dq_msgs q)"])
        (auto simp: erase_at_def dest: in_set_takeD in_set_dropD)
    ultimately show ?thesis
      using False \<open>dq_msgs q \<noteq> []\<close> n wf by (simp add: messageGet_def)
  qed
qed

subsection \<open>The leaky bucket\<close>

lemma ec_timeUpdate_no_delay:
  "dq ec = None \<Longrightarrow> ec_timeUpdate u now ec = (counter (leak u now ec), leak u now ec)"
  by (simp add: ec_timeUpdate_def Let_def)

lemma leak_counter: "counter (leak u now ec) = max 0 (counter ec - (now - last_time ec) * dDecrement ec)"
  by (simp add: leak_def Let_def max_def)

lemma leak_simps [simp]: "last_time (leak u now ec) = now" "dDecrement (leak u now ec) = dDecrement ec"
  "dIncrement (leak u now ec) = dIncrement ec" "threshold (leak u now ec) = threshold ec"
  "dq (leak u now ec) = dq ec" "ec_params (leak u now ec) = ec_params ec"
  "ec_name (leak u now ec) = ec_name ec" "ec_alias (leak u now ec) = ec_alias ec"
  "ec_values (leak u now ec) = ec_values ec"
  by (simp_all add: leak_def Let_def)

lemma ec_match_leak [simp]: "ec_match m (leak u now ec) = ec_match m ec"
  by (simp add: ec_match_def)

text \<open>A counter without a delay queue does not depend on how often it is polled: any number
  of updates between the last event and now leaves the same count as a single one.\<close>

lemma counter_polling_irrelevant:
  assumes "dq ec = None" and "0 \<le> dDecrement ec" and "sorted (last_time ec # ts @ [now])"
  shows "counter (snd (ec_timeUpdate u now (fold (\<lambda>t ec. snd (ec_timeUpdate u t ec)) ts ec)))
    = max 0 (counter ec - (now - last_time ec) * dDecrement ec)"
  using assms
proof (induction ts arbitrary: ec)
  case Nil
  then show ?case by (simp add: ec_timeUpdate_no_delay leak_counter)
next
  case (Cons t ts)
  have le: "0 \<le> (now - t) * dDecrement ec" using Cons.prems by simp
  have "counter (snd (ec_timeUpdate u now (fold (\<lambda>t ec. snd (ec_timeUpdate u t ec)) ts (leak u t ec))))
      = max 0 (counter (leak u t ec) - (now - t) * dDecrement ec)"
    using Cons.IH [of "leak u t ec"] Cons.prems by simp
  also have "\<dots> = max 0 (counter ec - (now - last_time ec) * dDecrement ec)"
    using le by (simp add: leak_counter algebra_simps max_def)
  finally show ?case using Cons.prems(1) by (simp add: ec_timeUpdate_no_delay)
qed

text \<open>An event that matches a counter without a delay queue adds exactly the increment, and
  an active counter with a positive threshold that leaks goes quiet once it has had the time to
  empty.\<close>

lemma counter_activation:
  assumes "dq ec = None" and "ec_match m ec" and "0 < dDecrement ec" and "0 < threshold ec"
  shows "ec_eventUpdate u now m ec = (counter ec + dIncrement ec, m, snd (snd (ec_eventUpdate u now m ec)))
    \<and> counter (snd (snd (ec_eventUpdate u now m ec))) = counter ec + dIncrement ec
    \<and> (last_time ec + (counter ec + dIncrement ec) / dDecrement ec \<le> later \<longrightarrow>
         \<not> ec_isActive (snd (ec_timeUpdate u later (snd (snd (ec_eventUpdate u now m ec))))))"
proof -
  let ?ec = "snd (snd (ec_eventUpdate u now m ec))"
  have ec: "?ec = snd (ec_Update now m ec)" "fst (ec_eventUpdate u now m ec) = counter ec + dIncrement ec"
    "fst (snd (ec_eventUpdate u now m ec)) = m"
    using assms(1,2) by (simp_all add: ec_eventUpdate_def ec_Update_def Let_def)
  have f: "dq ?ec = None" "counter ?ec = counter ec + dIncrement ec" "dDecrement ?ec = dDecrement ec"
    "threshold ?ec = threshold ec" "last_time ?ec = last_time ec"
    unfolding ec(1) using assms(1) by (simp_all add: ec_Update_def Let_def)
  have "\<not> ec_isActive (leak u later ?ec)"
    if "last_time ec + (counter ec + dIncrement ec) / dDecrement ec \<le> later"
  proof -
    have "counter ec + dIncrement ec \<le> (later - last_time ec) * dDecrement ec"
      using that assms(3) by (simp add: field_simps)
    then show ?thesis using assms(4) by (simp add: ec_isActive_def leak_counter f)
  qed
  with f ec(2,3) show ?thesis by (simp add: ec_timeUpdate_no_delay prod_eq_iff)
qed

end
