(* ===== verification/Rule_Base.thy ===== *)
theory Rule_Base
  imports Event_Counter
begin

text \<open>
  Rules (\<^verbatim>\<open>src/agents/Manager/rule.cpp\<close>) and rule sets (\<^verbatim>\<open>ruleset.cpp\<close>): a rule
  watches event counters (its clause), is gated by the active program and by boolean conditions,
  and when it fires it appends an alarm message and one command per action to the vector
  \<open>answer\<close>. \<open>u\<close> is an uninitialised local, \<open>now\<close> the clock reading, \<open>day\<close> the text of the
  clock time of the day. Members that the constructor does not set come from the raw object
  \<open>r0\<close>. Operations that save parameters return the files they write.
\<close>

record rule =
  r_params :: mparams
  r_name :: string
  r_alias :: string
  r_status :: int
  condition :: name_list
  enabling_true_condition :: name_list
  enabling_false_condition :: name_list
  r_action :: name_list
  latentUntil :: double
  r_from :: int
  r_to :: int
  midnight :: int
  mine_t_cond :: int
  mine_f_cond :: int
  mincond :: int
  r_cycle :: int
  reftime :: int
  nextcyclestart :: int
  cycleactive :: bool
  behavior :: string
  prcondition :: bool
  tcondition :: bool
  fcondition :: bool
  evcondition :: bool
  prcondition_time :: double
  tcondition_time :: double
  fcondition_time :: double
  evcondition_time :: double

abbreviation r_get :: "rule \<Rightarrow> string \<Rightarrow> string" where
  "r_get r n \<equiv> mp_get (r_params r) n"

type_synonym saved = "(string \<times> string) list"

subsection \<open>Validity and status\<close>

definition rule_setValidity :: "string \<Rightarrow> string \<Rightarrow> rule \<Rightarrow> bool \<times> rule \<times> saved" where
  "rule_setValidity asfrom asto r =
     (let tfrom = string2second asfrom;
          tto = string2second asto;
          mn = string2second ''24:00:00'';
          r1 = r\<lparr>midnight := mn\<rparr>
      in if tfrom \<ge> 0 \<and> tfrom < mn \<and> tto > 0 \<and> tto \<le> mn
         then let p = mp_add (mp_add (r_params r1) ''from'' asfrom) ''to'' asto
              in (True, r1\<lparr>r_from := tfrom, r_to := tto, r_params := p\<rparr>, [mp_save p])
         else (False, r1, []))"

definition rule_setValidityTime :: "rule \<Rightarrow> bool \<times> rule \<times> saved" where
  "rule_setValidityTime r =
     (let asfrom = r_get r ''from''; asto = r_get r ''to''
      in rule_setValidity
           (if asfrom = '''' \<or> asfrom = ''-INF'' then ''00:00:00'' else asfrom)
           (if asto = '''' \<or> asto = ''INF'' then ''24:00:00'' else asto) r)"

definition rule_new :: "int \<Rightarrow> rule \<Rightarrow> double \<Rightarrow> mparams \<Rightarrow> string \<Rightarrow> rule \<times> saved" where
  "rule_new u r0 now p nm =
     (let name = (if mp_get p ''name'' = '''' then nm else mp_get p ''name'');
          r1 = r0\<lparr>r_params := p, r_name := name, latentUntil := 0, r_from := -1, r_to := -1,
                  midnight := -1, nextcyclestart := -1, reftime := trunc now\<rparr>;
          (ok, r2, s) = rule_setValidityTime r1;
          cyc = r_get r2 ''cycle'';
          mode = r_get r2 ''mode'';
          al = r_get r2 ''alias''
      in (r2\<lparr>r_cycle := (if cyc = ''INF'' \<or> cyc = '''' then -1 else a2int u cyc),
             r_status := (if r_get r2 ''status'' = ''ON'' then 1 else 0),
             behavior := (if mode = '''' then ''always'' else mode),
             prcondition := False, tcondition := False,
             prcondition_time := 0, fcondition_time := 0, tcondition_time := 0,
             r_alias := (if al = '''' then r_get r2 ''action'' @ ''_'' @ name else al)\<rparr>, s))"

definition rule_setStatus :: "string \<Rightarrow> rule \<Rightarrow> rule \<times> saved" where
  "rule_setStatus rstatus r =
     (let p = mp_add (r_params r) ''status'' (if rstatus = ''ON'' then rstatus else ''OFF'')
      in (r\<lparr>r_params := p\<rparr>, [mp_save p]))"

definition rule_isActive :: "string \<Rightarrow> rule \<Rightarrow> bool \<times> rule \<times> saved" where
  "rule_isActive day r =
     (let (r1, s) = (if r_to r < 0 \<or> r_from r < 0 then snd (rule_setValidityTime r) else (r, []));
          c_time = string2second day
      in (if r_from r1 < 0 \<or> r_to r1 < 0 then True
          else if r_from r1 = 0 \<and> r_to r1 = midnight r1 then True
          else if r_from r1 < r_to r1 then c_time \<ge> r_from r1 \<and> c_time \<le> r_to r1
          else (c_time \<ge> r_from r1 \<and> c_time \<le> midnight r1) \<or> (c_time \<ge> 0 \<and> c_time \<le> r_to r1),
          r1, s))"

subsection \<open>Cycles\<close>

function catch_up :: "int \<Rightarrow> int \<Rightarrow> int \<Rightarrow> int" where
  "catch_up cyc ref next = (if 0 < cyc \<and> next < ref then catch_up cyc ref (next + cyc) else next)"
  by pat_completeness auto
termination
  by (relation "measure (\<lambda>(cyc, ref, next). nat (ref - next))") auto

declare catch_up.simps [simp del]

definition rule_cycleUpdate :: "double \<Rightarrow> string \<Rightarrow> rule \<Rightarrow> bool \<times> rule" where
  "rule_cycleUpdate now day r =
     (let ref = trunc now; r1 = r\<lparr>reftime := ref\<rparr>
      in if r_cycle r \<le> 0 then (False, r1\<lparr>cycleactive := False\<rparr>)
         else if nextcyclestart r < 0
         then (False, r1\<lparr>nextcyclestart := catch_up (r_cycle r) ref (ref - string2second day),
                         cycleactive := False\<rparr>)
         else if ref \<ge> nextcyclestart r
         then (True, r1\<lparr>nextcyclestart := nextcyclestart r + r_cycle r, cycleactive := True\<rparr>)
         else (cycleactive r1, r1))"

text \<open>\<open>init\<close>: the branch for \<^verbatim>\<open>min_enabling_false_conditions\<close> assigns \<open>mine_t_cond\<close>.\<close>

definition rule_init :: "int \<Rightarrow> rule \<Rightarrow> rule" where
  "rule_init u r =
     (let cond = fst (nl_init (condition r) (r_get r ''clause'') (CHR ''+''));
          et = fst (nl_init (enabling_true_condition r) (r_get r ''enabling_true_condition'') (CHR ''+''));
          ef = fst (nl_init (enabling_false_condition r) (r_get r ''enabling_false_condition'') (CHR ''+''));
          act = fst (nl_init (r_action r) (r_get r ''action'') (CHR ''+''));
          mt = r_get r ''min_enabling_true_conditions'';
          mf = r_get r ''min_enabling_false_conditions'';
          mc = r_get r ''min_conditions'';
          t1 = (if mt = '''' then int (length et) else a2int u mt)
      in r\<lparr>condition := cond, enabling_true_condition := et, enabling_false_condition := ef, r_action := act,
           mine_t_cond := (if mf = '''' then t1 else a2int u mf),
           mine_f_cond := (if mf = '''' then int (length ef) else mine_f_cond r),
           mincond := (if mc = '''' \<or> length cond = 0 then int (length cond) else a2int u mc)\<rparr>)"

subsection \<open>Matching\<close>

definition is_all :: "string \<Rightarrow> bool" where
  "is_all s \<longleftrightarrow> s = ''ALL'' \<or> s = ''All'' \<or> s = ''all''"

definition rule_isNotMember :: "string \<Rightarrow> string list \<Rightarrow> rule \<Rightarrow> bool" where
  "rule_isNotMember s active r =
     (if behavior r = ''always'' \<or> behavior r = ''programoff'' then False
      else \<not> (\<exists>a \<in> set active. s = a \<or> is_all a))"

definition isRuleActive :: "string list \<Rightarrow> rule \<Rightarrow> bool" where
  "isRuleActive active r =
     (if \<exists>a \<in> set active. is_all a then True
      else if \<exists>c \<in> set (condition r). rule_isNotMember c active r then False
      else \<not> rule_isNotMember (r_get r ''alarm'') active r)"

definition named_in :: "name_list \<Rightarrow> mparams \<Rightarrow> bool" where
  "named_in l p \<longleftrightarrow> nl_find l (mp_get p ''name'') \<ge> 0"

definition t_blocked :: "boolean_condition list option \<Rightarrow> rule \<Rightarrow> bool" where
  "t_blocked cnd r =
     (case cnd of
        None \<Rightarrow> False
      | Some cs \<Rightarrow> length (enabling_true_condition r) > 0 \<and>
          int (length (filter (\<lambda>c. bc_isActive c \<and> named_in (enabling_true_condition r) (bc_params c)) cs))
            < mine_t_cond r)"

definition f_blocked :: "boolean_condition list option \<Rightarrow> rule \<Rightarrow> bool" where
  "f_blocked cnd r =
     (case cnd of
        None \<Rightarrow> False
      | Some cs \<Rightarrow> length (enabling_false_condition r) > 0 \<and>
          int (length (filter (\<lambda>c. \<not> bc_isActive c \<and> named_in (enabling_false_condition r) (bc_params c)) cs))
            < mine_f_cond r)"

definition clause_hits :: "event_counter list \<Rightarrow> rule \<Rightarrow> event_counter list" where
  "clause_hits ecs r = filter (\<lambda>e. ec_isActive e \<and> named_in (condition r) (ec_params e)) ecs"

definition hit_texts :: "event_counter list \<Rightarrow> string \<times> string \<times> string" where
  "hit_texts hits =
     fold (\<lambda>e (source, video, comm).
        ((if source \<noteq> '''' then source @ ''+'' else source) @ ev_history (history e),
         video @ ev_videos (history e),
         (if comm \<noteq> '''' then comm @ '';'' else comm) @ comment e)) hits ('''', '''', '''')"

text \<open>\<^verbatim>\<open>answer[i].add(...)\<close>: the index counts from the start of the vector, whatever it held
  before this rule.\<close>

definition add_at :: "nat \<Rightarrow> string \<Rightarrow> string \<Rightarrow> mmessage list \<Rightarrow> mmessage list" where
  "add_at i f v answer = answer[i := m_add (answer ! i) f v]"

definition alarm_answer :: "string \<Rightarrow> string \<times> string \<times> string \<Rightarrow> mmessage list \<Rightarrow> mmessage list" where
  "alarm_answer alarm txt answer =
     (let (source, video, comm) = txt;
          a1 = answer @ [m_new ''alarm'' alarm];
          a2 = add_at 0 ''source'' source (add_at 0 ''alarm'' alarm a1);
          a3 = (if video \<noteq> '''' then add_at 0 ''video'' video a2 else a2)
      in add_at 0 ''comment'' comm a3)"

fun action_answers ::
  "rule \<Rightarrow> string list \<Rightarrow> string \<times> string \<times> string \<Rightarrow> nat \<Rightarrow> string list \<Rightarrow> mmessage list \<Rightarrow> mmessage list" where
  "action_answers r active txt i [] answer = answer"
| "action_answers r active txt i (a # as) answer =
     (if \<not> rule_isNotMember a active r
      then let (source, video, comm) = txt;
               a1 = answer @ [m_new ''rlcmd'' ''todo''];
               a2 = add_at i ''comment'' comm (add_at i ''source'' source
                      (add_at i ''value'' ''ON'' (add_at i ''action'' a a1)))
           in action_answers r active txt (Suc i) as a2
      else action_answers r active txt i as answer)"

definition open_pr :: "double \<Rightarrow> rule \<Rightarrow> rule" where
  "open_pr now r = (if prcondition r then r else r\<lparr>prcondition := True, prcondition_time := now\<rparr>)"

definition open_t :: "double \<Rightarrow> rule \<Rightarrow> rule" where
  "open_t now r = (if tcondition r then r else r\<lparr>tcondition := True, tcondition_time := now\<rparr>)"

definition open_f :: "double \<Rightarrow> rule \<Rightarrow> rule" where
  "open_f now r = (if fcondition r then r else r\<lparr>fcondition := True, fcondition_time := now\<rparr>)"

definition set_ev :: "double \<Rightarrow> nat \<Rightarrow> rule \<Rightarrow> rule" where
  "set_ev now n r =
     (if int n \<ge> mincond r then r\<lparr>evcondition := True, evcondition_time := now\<rparr> else r\<lparr>evcondition := False\<rparr>)"

definition quiet :: "double \<Rightarrow> rule \<Rightarrow> bool" where
  "quiet now r \<longleftrightarrow>
     (\<not> evcondition r \<and> \<not> cycleactive r)
     \<or> (mincond r > 0 \<and> now < latentUntil r)
     \<or> (mincond r = 0 \<and> \<not> cycleactive r \<and> prcondition_time r < now
         \<and> tcondition_time r < now \<and> fcondition_time r < now)"

definition fire :: "int \<Rightarrow> double \<Rightarrow> rule \<Rightarrow> rule" where
  "fire u now r =
     (let latency = r_get r ''latency'';
          r1 = (if mincond r > 0 \<and> r_cycle r \<le> 0 \<and> latency \<noteq> ''''
                then r\<lparr>latentUntil := now + of_int (a2int u latency)\<rparr> else r)
      in r1\<lparr>cycleactive := False\<rparr>)"

definition rule_match ::
  "int \<Rightarrow> double \<Rightarrow> string list \<Rightarrow> bool \<Rightarrow> event_counter list \<Rightarrow> boolean_condition list option \<Rightarrow>
   mmessage list \<Rightarrow> rule \<Rightarrow> bool \<times> rule \<times> mmessage list" where
  "rule_match u now active prgstatus ecs cnd answer r =
     (if r_status r \<noteq> 1 then (False, r, answer)
      else if behavior r = ''programon'' \<and> \<not> isRuleActive active r
      then (False, if \<not> prgstatus then r\<lparr>prcondition := False\<rparr> else r, answer)
      else if behavior r = ''programon'' \<and> \<not> prgstatus then (False, r\<lparr>prcondition := False\<rparr>, answer)
      else if behavior r = ''programoff'' \<and> prgstatus then (False, r\<lparr>prcondition := False\<rparr>, answer)
      else let r1 = open_pr now r
      in if t_blocked cnd r1 then (False, r1\<lparr>tcondition := False\<rparr>, answer)
      else let r2 = open_t now r1
      in if f_blocked cnd r2 then (False, r2\<lparr>fcondition := False\<rparr>, answer)
      else let hits = clause_hits ecs r2;
               r3 = set_ev now (length hits) (open_f now r2);
               txt = hit_texts hits
      in if quiet now r3 then (False, r3, answer)
      else let r4 = fire u now r3
      in (True, r4, action_answers r4 active txt 1 (r_action r4)
                      (alarm_answer (r_get r4 ''alarm'') txt answer)))"

definition rule_subjects :: "rule \<Rightarrow> mparams \<Rightarrow> mparams" where
  "rule_subjects r subj = mp_add_cat subj (r_get r ''alarm'') ''subject'' ''alarm''"

subsection \<open>Rule sets\<close>

record rule_set =
  rules :: "rule list"
  wait_until :: xdouble
  wforbid :: xdouble

fun rules_match ::
  "int \<Rightarrow> double \<Rightarrow> string list \<Rightarrow> bool \<Rightarrow> event_counter list \<Rightarrow> boolean_condition list option \<Rightarrow>
   mmessage list \<Rightarrow> rule list \<Rightarrow> nat \<times> rule list \<times> mmessage list" where
  "rules_match u now active prg ecs cnd answer [] = (0, [], answer)"
| "rules_match u now active prg ecs cnd answer (r # rs) =
     (let (b, r', answer') = rule_match u now active prg ecs cnd answer r;
          (c, rs', answer'') = rules_match u now active prg ecs cnd answer' rs
      in ((if b then Suc c else c), r' # rs', answer''))"

definition rs_match ::
  "int \<Rightarrow> double \<Rightarrow> string list \<Rightarrow> bool \<Rightarrow> event_counter list \<Rightarrow> boolean_condition list option \<Rightarrow>
   mmessage list \<Rightarrow> rule_set \<Rightarrow> nat \<times> rule_set \<times> mmessage list" where
  "rs_match u now active prg ecs cnd answer s =
     (let (c, rs, answer') = rules_match u now active prg ecs cnd answer (rules s)
      in (c, s\<lparr>rules := rs\<rparr>, answer'))"

definition rs_new :: "xdouble \<Rightarrow> int \<Rightarrow> double \<Rightarrow> rule list \<Rightarrow> rule_set" where
  "rs_new junk u now rs = \<lparr>rules = map (rule_init u) rs, wait_until = Fin now, wforbid = junk\<rparr>"

definition rs_setWait_now :: "double \<Rightarrow> rule_set \<Rightarrow> rule_set" where
  "rs_setWait_now now s = s\<lparr>wait_until := Fin now, wforbid := Fin now\<rparr>"

definition rs_setWait_for :: "double \<Rightarrow> double \<Rightarrow> string \<Rightarrow> rule_set \<Rightarrow> rule_set" where
  "rs_setWait_for u now wt s = (let t = Fin (a2double u wt + now) in s\<lparr>wait_until := t, wforbid := t\<rparr>)"

definition rs_setWait :: "double \<Rightarrow> double \<Rightarrow> string \<Rightarrow> string \<Rightarrow> rule_set \<Rightarrow> xdouble \<times> rule_set" where
  "rs_setWait u now wt fb s =
     (if xless (Fin now) (wforbid s) then (Fin 0, s)
      else let t = Fin (a2double u wt + now)
           in (t, s\<lparr>wait_until := t,
                    wforbid := (if fb \<noteq> [] \<and> fb \<noteq> ''-1'' then xadd t (a2double u fb) else Infinity)\<rparr>))"

fun rules_setStatus :: "string \<Rightarrow> string \<Rightarrow> rule list \<Rightarrow> bool \<times> rule list \<times> saved" where
  "rules_setStatus name rstatus [] = (False, [], [])"
| "rules_setStatus name rstatus (r # rs) =
     (if r_name r = name \<or> r_alias r = name
      then let (r', s) = rule_setStatus rstatus r in (True, r' # rs, s)
      else let (b, rs', s) = rules_setStatus name rstatus rs in (b, r # rs', s))"

fun rules_setValidity :: "string \<Rightarrow> string \<Rightarrow> string \<Rightarrow> rule list \<Rightarrow> bool \<times> rule list \<times> saved" where
  "rules_setValidity name fr to [] = (False, [], [])"
| "rules_setValidity name fr to (r # rs) =
     (if r_name r = name \<or> r_alias r = name
      then let (b, r', s) = rule_setValidity fr to r in (b, r' # rs, s)
      else let (b, rs', s) = rules_setValidity name fr to rs in (b, r # rs', s))"

definition rs_timeUpdate :: "double \<Rightarrow> string \<Rightarrow> rule_set \<Rightarrow> rule_set" where
  "rs_timeUpdate now day s = s\<lparr>rules := map (\<lambda>r. snd (rule_cycleUpdate now day r)) (rules s)\<rparr>"

definition rs_subjects :: "rule_set \<Rightarrow> mparams \<Rightarrow> mparams" where
  "rs_subjects s subj = fold rule_subjects (rules s) subj"

definition rs_isNotMember :: "string \<Rightarrow> string list \<Rightarrow> bool" where
  "rs_isNotMember s active \<longleftrightarrow> s \<notin> set active"

definition isAntecedentOn :: "rule \<Rightarrow> string list \<Rightarrow> bool" where
  "isAntecedentOn r active \<longleftrightarrow>
     (\<forall>a \<in> set (fst (nl_init [] (r_get r ''clause'') (CHR ''+''))). \<not> rs_isNotMember a active)"

definition rs_isON :: "double \<Rightarrow> string \<Rightarrow> rule \<Rightarrow> string list \<Rightarrow> bool \<Rightarrow> rule_set \<Rightarrow> bool" where
  "rs_isON now day r active prg s =
     (let (b, r1, sv) = rule_isActive day r
      in if \<not> b then False
         else if r_get r1 ''status'' \<noteq> ''ON'' then False
         else if r_get r1 ''mode'' = ''always'' then True
         else if r_get r1 ''mode'' = ''program'' then prg
         else if \<not> prg \<or> (r_get r1 ''mode'' = ''program_wait'' \<and> xless (Fin now) (wait_until s)) then False
         else if length active = 0 then False
         else if \<exists>a \<in> set active. is_all a then True
         else if rs_isNotMember (r_get r1 ''alarm'') active then False
         else isAntecedentOn r1 active)"

subsection \<open>What a match changes\<close>

lemma gate_simps [simp]:
  "t_blocked cnd (open_pr now r) = t_blocked cnd r"
  "f_blocked cnd (open_pr now r) = f_blocked cnd r" "f_blocked cnd (open_t now r) = f_blocked cnd r"
  "clause_hits ecs (open_pr now r) = clause_hits ecs r" "clause_hits ecs (open_t now r) = clause_hits ecs r"
  by (simp_all add: open_pr_def open_t_def t_blocked_def f_blocked_def clause_hits_def split: option.splits)

abbreviation gates_open :: "double \<Rightarrow> rule \<Rightarrow> rule" where
  "gates_open now r \<equiv> open_f now (open_t now (open_pr now r))"

definition enabled :: "string list \<Rightarrow> bool \<Rightarrow> boolean_condition list option \<Rightarrow> rule \<Rightarrow> bool" where
  "enabled active prg cnd r \<longleftrightarrow> r_status r = 1
     \<and> (behavior r = ''programon'' \<longrightarrow> isRuleActive active r \<and> prg)
     \<and> (behavior r = ''programoff'' \<longrightarrow> \<not> prg) \<and> \<not> t_blocked cnd r \<and> \<not> f_blocked cnd r"

lemma rule_match_enabled:
  "enabled active prg cnd r \<Longrightarrow> rule_match u now active prg ecs cnd answer r =
    (let r3 = set_ev now (length (clause_hits ecs r)) (gates_open now r);
         txt = hit_texts (clause_hits ecs r); r4 = fire u now r3
     in if quiet now r3 then (False, r3, answer)
        else (True, r4, action_answers r4 active txt 1 (r_action r4)
                (alarm_answer (r_get r4 ''alarm'') txt answer)))"
  by (auto simp: rule_match_def enabled_def Let_def)

definition held_back :: "string list \<Rightarrow> bool \<Rightarrow> boolean_condition list option \<Rightarrow> double \<Rightarrow> rule \<Rightarrow> rule" where
  "held_back active prg cnd now r =
     (if r_status r \<noteq> 1 then r
      else if behavior r = ''programon'' \<and> \<not> isRuleActive active r \<and> prg then r
      else if (behavior r = ''programon'' \<and> \<not> prg) \<or> (behavior r = ''programoff'' \<and> prg) then r\<lparr>prcondition := False\<rparr>
      else if t_blocked cnd r then (open_pr now r)\<lparr>tcondition := False\<rparr>
      else (open_t now (open_pr now r))\<lparr>fcondition := False\<rparr>)"

lemma rule_match_held_back:
  "\<not> enabled active prg cnd r \<Longrightarrow>
   rule_match u now active prg ecs cnd answer r = (False, held_back active prg cnd now r, answer)"
  by (auto simp: rule_match_def enabled_def held_back_def Let_def)

lemma rule_match_disabled:
  "\<not> enabled active prg cnd r \<Longrightarrow> fst (rule_match u now active prg ecs cnd answer r) = False"
  by (simp add: rule_match_held_back)

lemma held_back_simps [simp]:
  "mincond (held_back active prg cnd now r) = mincond r" "latentUntil (held_back active prg cnd now r) = latentUntil r"
  "r_cycle (held_back active prg cnd now r) = r_cycle r" "r_params (held_back active prg cnd now r) = r_params r"
  by (simp_all add: held_back_def open_pr_def open_t_def)

lemma set_ev_simps [simp]:
  "mincond (set_ev now n r) = mincond r" "latentUntil (set_ev now n r) = latentUntil r"
  "cycleactive (set_ev now n r) = cycleactive r" "r_cycle (set_ev now n r) = r_cycle r"
  "r_params (set_ev now n r) = r_params r" "prcondition (set_ev now n r) = prcondition r"
  "tcondition (set_ev now n r) = tcondition r" "fcondition (set_ev now n r) = fcondition r"
  "prcondition_time (set_ev now n r) = prcondition_time r"
  "tcondition_time (set_ev now n r) = tcondition_time r" "fcondition_time (set_ev now n r) = fcondition_time r"
  "enabled active prg cnd (set_ev now n r) = enabled active prg cnd r"
  by (simp_all add: set_ev_def enabled_def t_blocked_def f_blocked_def isRuleActive_def rule_isNotMember_def
      split: option.splits)

lemma gates_open_simps [simp]:
  "mincond (gates_open now r) = mincond r" "latentUntil (gates_open now r) = latentUntil r"
  "cycleactive (gates_open now r) = cycleactive r" "r_cycle (gates_open now r) = r_cycle r"
  "r_params (gates_open now r) = r_params r"
  by (simp_all add: open_pr_def open_t_def open_f_def)

lemma fire_simps [simp]:
  "mincond (fire u now r) = mincond r" "r_cycle (fire u now r) = r_cycle r"
  "r_params (fire u now r) = r_params r" "cycleactive (fire u now r) = False"
  by (simp_all add: fire_def Let_def)

lemma rule_match_keeps:
  assumes "rule_match u now active prg ecs cnd answer r = (b, r', answer')"
  shows "mincond r' = mincond r \<and> r_cycle r' = r_cycle r \<and> r_params r' = r_params r"
    and "\<not> b \<Longrightarrow> latentUntil r' = latentUntil r \<and> answer' = answer"
proof -
  have "mincond r' = mincond r \<and> r_cycle r' = r_cycle r \<and> r_params r' = r_params r
      \<and> (\<not> b \<longrightarrow> latentUntil r' = latentUntil r \<and> answer' = answer)"
  proof (cases "enabled active prg cnd r")
    case True
    with assms show ?thesis by (auto simp: rule_match_enabled Let_def split: if_splits)
  next
    case False
    with assms show ?thesis by (auto simp: rule_match_held_back)
  qed
  then show "mincond r' = mincond r \<and> r_cycle r' = r_cycle r \<and> r_params r' = r_params r"
    and "\<not> b \<Longrightarrow> latentUntil r' = latentUntil r \<and> answer' = answer" by auto
qed

lemma fired_simps:
  "r_action (fire u now (set_ev now n (gates_open now r))) = r_action r"
  "rule_isNotMember a active (fire u now (set_ev now n (gates_open now r))) = rule_isNotMember a active r"
  by (simp_all add: fire_def Let_def set_ev_def open_pr_def open_t_def open_f_def rule_isNotMember_def)

lemma action_answers_cong:
  "(\<And>a. rule_isNotMember a active q = rule_isNotMember a active r) \<Longrightarrow>
   action_answers q active tx i as ans = action_answers r active tx i as ans"
  by (induction as arbitrary: i ans) (simp_all add: case_prod_beta Let_def)

lemma rule_match_fired:
  assumes "rule_match u now active prg ecs cnd answer r = (True, r', answer')"
  shows "enabled active prg cnd r"
    and "r' = fire u now (set_ev now (length (clause_hits ecs r)) (gates_open now r))"
    and "answer' = action_answers r active (hit_texts (clause_hits ecs r)) 1 (r_action r)
           (alarm_answer (r_get r ''alarm'') (hit_texts (clause_hits ecs r)) answer)"
proof -
  show en: "enabled active prg cnd r"
    by (rule ccontr) (use assms in \<open>simp add: rule_match_held_back\<close>)
  let ?r = "fire u now (set_ev now (length (clause_hits ecs r)) (gates_open now r))"
  let ?tx = "hit_texts (clause_hits ecs r)"
  from assms have eq: "?r = r' \<and> action_answers ?r active ?tx 1 (r_action ?r)
      (alarm_answer (r_get ?r ''alarm'') ?tx answer) = answer'"
    by (auto simp: rule_match_enabled [OF en] Let_def split: if_splits)
  then show "r' = ?r" by simp
  have "action_answers ?r active ?tx 1 (r_action ?r) (alarm_answer (r_get ?r ''alarm'') ?tx answer)
      = action_answers r active ?tx 1 (r_action r) (alarm_answer (r_get r ''alarm'') ?tx answer)"
    by (simp only: action_answers_cong [OF fired_simps(2)] fired_simps(1)) simp
  with conjunct2 [OF eq]
  show "answer' = action_answers r active ?tx 1 (r_action r) (alarm_answer (r_get r ''alarm'') ?tx answer)"
    by (simp only:)
qed

lemma rule_match_latent:
  assumes "0 < mincond r" and "now < latentUntil r"
  shows "fst (rule_match u now active prg ecs cnd answer r) = False"
proof (cases "enabled active prg cnd r")
  case True
  then show ?thesis using assms by (simp add: rule_match_enabled Let_def quiet_def)
qed (rule rule_match_disabled)

text \<open>Several matches in a row, each in its own context.\<close>

type_synonym match_context =
  "double \<times> string list \<times> bool \<times> event_counter list \<times> boolean_condition list option"

fun rule_runs :: "int \<Rightarrow> match_context list \<Rightarrow> rule \<Rightarrow> bool list \<times> rule" where
  "rule_runs u [] r = ([], r)"
| "rule_runs u ((now, active, prg, ecs, cnd) # cs) r =
     (let (b, r', ans) = rule_match u now active prg ecs cnd [] r; (bs, r'') = rule_runs u cs r'
      in (b # bs, r''))"

lemma rule_runs_latent:
  "0 < mincond r \<Longrightarrow> \<forall>c \<in> set cs. fst c < latentUntil r \<Longrightarrow> fst (rule_runs u cs r) = replicate (length cs) False"
proof (induction cs arbitrary: r)
  case Nil
  then show ?case by simp
next
  case (Cons c cs)
  obtain now active prg ecs cnd where c: "c = (now, active, prg, ecs, cnd)" by (metis prod.exhaust)
  obtain b r' ans where m: "rule_match u now active prg ecs cnd [] r = (b, r', ans)"
    by (metis prod.exhaust)
  have b: "\<not> b" using rule_match_latent [of r now u active prg ecs cnd "[]"] Cons.prems c m by simp
  have "fst (rule_runs u cs r') = replicate (length cs) False"
    using rule_match_keeps [OF m] b Cons.prems by (intro Cons.IH) simp_all
  with b show ?case by (auto simp: c m split: prod.splits)
qed

text \<open>C33: latency. After an event-driven rule with a latency of \<open>l\<close> seconds has fired, no
  sequence of further matches fires it again before those seconds have passed, whatever events,
  conditions and programs those matches see.\<close>

theorem rule_latency:
  assumes "rule_match u now active prg ecs cnd answer r = (True, r', answer')"
    and "0 < mincond r" and "r_cycle r \<le> 0" and "r_get r ''latency'' = int2a l"
    and "\<forall>c \<in> set cs. fst c < now + of_int l"
  shows "fst (rule_runs u cs r') = replicate (length cs) False"
proof -
  have "int2a l \<noteq> ''''" by (simp add: int2a_def)
  moreover have "a2int u (int2a l) = l" by (simp add: a2int_def)
  moreover note rule_match_fired(2) [OF assms(1)]
  ultimately have "latentUntil r' = now + of_int l" using assms(2-4) by (simp add: fire_def Let_def)
  with assms(2,5) rule_match_keeps(1) [OF assms(1)] show ?thesis by (intro rule_runs_latent) simp_all
qed

definition demo_rule :: "string \<Rightarrow> rule" where
  "demo_rule lat =
     \<lparr>r_params = \<lparr>pty = ''r'', ppath = [], ppathh = [],
        attrs = [ma_new ''latency'' ''generic'' lat, ma_new ''alarm'' ''generic'' ''fire'']\<rparr>,
      r_name = ''r'', r_alias = ''r'', r_status = 1, condition = [], enabling_true_condition = [],
      enabling_false_condition = [], r_action = [''siren''], latentUntil = 0, r_from = 0, r_to = 86400,
      midnight = 86400, mine_t_cond = 0, mine_f_cond = 0, mincond = 0, r_cycle = -1, reftime = 0,
      nextcyclestart = -1, cycleactive = False, behavior = ''always'', prcondition = False,
      tcondition = False, fcondition = False, evcondition = False, prcondition_time = 0,
      tcondition_time = 0, fcondition_time = 0, evcondition_time = 0\<rparr>"

theorem rule_latency_witness:
  "fst (rule_runs 0 [(7, [], True, [], None)]
     (fst (snd (rule_match 0 5 [] True [] None [] ((demo_rule (int2a 60))\<lparr>mincond := 1, cycleactive := True\<rparr>))))) = [False]"
proof -
  let ?r = "(demo_rule (int2a 60))\<lparr>mincond := 1, cycleactive := True\<rparr>"
  obtain b r' ans where m: "rule_match 0 5 [] True [] None [] ?r = (b, r', ans)" by (metis prod.exhaust)
  have en: "enabled [] True None ?r"
    by (simp add: enabled_def demo_rule_def t_blocked_def f_blocked_def)
  have nq: "\<not> quiet 5 (set_ev 5 (length (clause_hits [] ?r)) (gates_open 5 ?r))"
    by (simp add: quiet_def) (simp add: demo_rule_def)
  have b: b using m nq by (simp add: rule_match_enabled [OF en] Let_def)
  have lat: "r_get ?r ''latency'' = int2a 60"
    by (simp add: demo_rule_def mp_get_def ma_new_def int2a_def)
  have "fst (rule_runs 0 [(7, [], True, [], None)] r') = replicate 1 False"
    using rule_latency [of 0 5 "[]" True "[]" None "[]" ?r r' ans 60 "[(7, [], True, [], None)]"] m b lat
    by (simp add: demo_rule_def)
  then show ?thesis using m by simp
qed

subsection \<open>Rules without a clause\<close>

text \<open>A rule that is open, has no clause, is not in a cycle and whose gates opened before \<open>t\<close>.\<close>

definition settled :: "double \<Rightarrow> rule \<Rightarrow> bool" where
  "settled t r \<longleftrightarrow> mincond r = 0 \<and> \<not> cycleactive r \<and> prcondition r \<and> tcondition r \<and> fcondition r
     \<and> prcondition_time r \<le> t \<and> tcondition_time r \<le> t \<and> fcondition_time r \<le> t"

lemma settled_silent:
  assumes "settled t r" and "enabled active prg cnd r" and "t < now"
  shows "\<exists>r'. rule_match u now active prg ecs cnd answer r = (False, r', answer)
    \<and> settled t r' \<and> enabled active prg cnd r'"
proof -
  have "gates_open now r = r" using assms(1) by (simp add: settled_def open_pr_def open_t_def open_f_def)
  moreover have "quiet now (set_ev now n r)" for n
    using assms(1,3) by (auto simp: quiet_def settled_def)
  ultimately show ?thesis
    using assms(1,2) by (simp add: rule_match_enabled Let_def settled_def)
qed

lemma rule_runs_settled:
  "settled t r \<Longrightarrow> enabled active prg cnd r \<Longrightarrow>
   \<forall>(now, act, p, ecs, c) \<in> set cs. t < now \<and> act = active \<and> p = prg \<and> c = cnd \<Longrightarrow>
   fst (rule_runs u cs r) = replicate (length cs) False"
proof (induction cs arbitrary: r)
  case Nil
  then show ?case by simp
next
  case (Cons c cs)
  from Cons.prems(3) obtain now ecs where c: "c = (now, active, prg, ecs, cnd)" "t < now" by auto
  from settled_silent [OF Cons.prems(1,2) c(2)] obtain r' where
    r': "rule_match u now active prg ecs cnd [] r = (False, r', [])" "settled t r'" "enabled active prg cnd r'"
    by blast
  have "fst (rule_runs u cs r') = replicate (length cs) False"
    using Cons.prems(3) r'(2,3) by (intro Cons.IH) auto
  then show ?case by (auto simp: c(1) r'(1) split: prod.splits)
qed

lemma fire_settled:
  assumes "mincond r = 0" and "prcondition_time r \<le> now" "tcondition_time r \<le> now" "fcondition_time r \<le> now"
  shows "settled now (fire u now (set_ev now n (gates_open now r)))"
  using assms by (auto simp: settled_def fire_def Let_def set_ev_def open_pr_def open_t_def open_f_def)

lemma enabled_fire [simp]: "enabled active prg cnd (fire u now r) = enabled active prg cnd r"
  by (simp add: fire_def Let_def enabled_def t_blocked_def f_blocked_def isRuleActive_def rule_isNotMember_def
      split: option.splits)

lemma enabled_gates_open [simp]: "enabled active prg cnd (gates_open now r) = enabled active prg cnd r"
  by (simp add: open_pr_def open_t_def open_f_def enabled_def t_blocked_def f_blocked_def isRuleActive_def
      rule_isNotMember_def split: option.splits)

text \<open>A rule without a clause is edge triggered. Once it has fired it stays silent for
  every later match as long as program and conditions keep it enabled, whatever events occur.\<close>

lemma rule_edge_triggered:
  assumes "rule_match u now active prg ecs cnd answer r = (True, r', answer')" and "mincond r = 0"
    and "prcondition_time r \<le> now" "tcondition_time r \<le> now" "fcondition_time r \<le> now"
    and "\<forall>(t, act, p, ecs, c) \<in> set cs. now < t \<and> act = active \<and> p = prg \<and> c = cnd"
  shows "fst (rule_runs u cs r') = replicate (length cs) False"
proof -
  note r' = rule_match_fired(2) [OF assms(1)]
  show ?thesis
    using assms(6) rule_match_fired(1) [OF assms(1)] fire_settled [OF assms(2-5)] by (intro rule_runs_settled [where t = now]) (simp_all add: r')
qed

subsection \<open>Switching a rule\<close>

lemma rule_match_params:
  assumes "mp_get p ''alarm'' = r_get r ''alarm''" and "mp_get p ''latency'' = r_get r ''latency''"
  shows "rule_match u now active prg ecs cnd answer (r\<lparr>r_params := p\<rparr>) =
    (let (b, r', answer') = rule_match u now active prg ecs cnd answer r in (b, r'\<lparr>r_params := p\<rparr>, answer'))"
proof -
  let ?p = "\<lambda>r :: rule. r\<lparr>r_params := p\<rparr>"
  have act: "action_answers (?p r) active tx i xs ans = action_answers r active tx i xs ans" for r tx i xs ans
    by (induction xs arbitrary: i ans) (simp_all add: rule_isNotMember_def case_prod_beta Let_def)
  have isact: "isRuleActive active (?p r) = isRuleActive active r"
    using assms(1) by (simp add: isRuleActive_def rule_isNotMember_def)
  have tb: "t_blocked cnd (?p r) = t_blocked cnd r" "f_blocked cnd (?p r) = f_blocked cnd r"
    "clause_hits ecs (?p r) = clause_hits ecs r" for r
    by (simp_all add: t_blocked_def f_blocked_def clause_hits_def split: option.splits)
  have en: "enabled active prg cnd (?p r) = enabled active prg cnd r"
    by (simp add: enabled_def isact tb)
  have g: "open_pr now (?p r) = ?p (open_pr now r)" "open_t now (?p r) = ?p (open_t now r)"
    "open_f now (?p r) = ?p (open_f now r)" "set_ev now n (?p r) = ?p (set_ev now n r)" for r n
    by (simp_all add: open_pr_def open_t_def open_f_def set_ev_def)
  have q: "quiet now (?p r) = quiet now r" for r by (simp add: quiet_def)
  show ?thesis
  proof (cases "enabled active prg cnd r")
    case True
    let ?n = "length (clause_hits ecs r)"
    let ?g = "set_ev now ?n (gates_open now r)"
    have eq: "set_ev now ?n (gates_open now (?p r)) = ?p ?g" by (simp only: g)
    have f: "fire u now (?p ?g) = ?p (fire u now ?g)" using assms(2) by (simp add: fire_def Let_def)
    have "r_get (fire u now ?g) ''alarm'' = mp_get p ''alarm''" using assms(1) by simp
    then show ?thesis
      unfolding rule_match_enabled [OF True] rule_match_enabled [OF en [THEN iffD2, OF True]] Let_def tb eq q f act
      by (cases "quiet now ?g") simp_all
  next
    case False
    have "held_back active prg cnd now (?p r) = ?p (held_back active prg cnd now r)"
      by (simp add: held_back_def isact tb g)
    with False show ?thesis by (simp add: rule_match_held_back en)
  qed
qed

text \<open>\<open>setStatus\<close> does not switch a rule. It stores the parameter, but the match tests the
  copy of the status taken by the constructor: both the decision and the messages stay the same.\<close>

lemma rule_setStatus_ineffective:
  "fst (rule_match u now active prg ecs cnd answer (fst (rule_setStatus s r)))
     = fst (rule_match u now active prg ecs cnd answer r)
   \<and> snd (snd (rule_match u now active prg ecs cnd answer (fst (rule_setStatus s r))))
     = snd (snd (rule_match u now active prg ecs cnd answer r))
   \<and> mp_get (r_params (fst (rule_setStatus s r))) ''status'' = (if s = ''ON'' then ''ON'' else ''OFF'')"
proof -
  let ?p = "mp_add (r_params r) ''status'' (if s = ''ON'' then s else ''OFF'')"
  have p: "mp_get ?p ''alarm'' = r_get r ''alarm''" "mp_get ?p ''latency'' = r_get r ''latency''"
    "mp_get ?p ''status'' = (if s = ''ON'' then ''ON'' else ''OFF'')"
    by (simp_all add: mp_get_add)
  have set: "fst (rule_setStatus s r) = r\<lparr>r_params := ?p\<rparr>" by (simp add: rule_setStatus_def Let_def)
  show ?thesis
    unfolding set rule_match_params [OF p(1,2)] using p(3) by (simp add: case_prod_beta Let_def)
qed

subsection \<open>The messages of a rule\<close>

definition command_message :: "string \<times> string \<times> string \<Rightarrow> string \<Rightarrow> mmessage" where
  "command_message tx a = (let (source, video, comm) = tx in
     m_add (m_add (m_add (m_add (m_new ''rlcmd'' ''todo'') ''action'' a) ''value'' ''ON'') ''source'' source)
       ''comment'' comm)"

definition alarm_message :: "string \<Rightarrow> string \<times> string \<times> string \<Rightarrow> mmessage" where
  "alarm_message alarm tx = (let (source, video, comm) = tx;
     m = m_add (m_add (m_new ''alarm'' alarm) ''alarm'' alarm) ''source'' source
     in m_add (if video \<noteq> '''' then m_add m ''video'' video else m) ''comment'' comm)"

lemma add_at_last: "add_at (length xs) f v (xs @ [m]) = xs @ [m_add m f v]"
  by (simp add: add_at_def)

lemma alarm_answer_first: "alarm_answer alarm tx [] = [alarm_message alarm tx]"
  by (cases tx) (simp add: alarm_answer_def alarm_message_def add_at_def Let_def)

lemma action_answers_aligned:
  "action_answers r active tx (length ans) as ans
     = ans @ map (command_message tx) (filter (\<lambda>a. \<not> rule_isNotMember a active r) as)"
proof (induction as arbitrary: ans)
  case Nil
  then show ?case by simp
next
  case (Cons a as)
  obtain s v c where tx: "tx = (s, v, c)" by (metis prod.exhaust)
  have "add_at (length ans) ''comment'' c (add_at (length ans) ''source'' s
      (add_at (length ans) ''value'' ''ON'' (add_at (length ans) ''action'' a (ans @ [m_new ''rlcmd'' ''todo'']))))
    = ans @ [command_message tx a]"
    by (simp add: add_at_last command_message_def tx)
  with Cons [of "ans @ [command_message tx a]"] Cons [of ans] tx show ?case by simp
qed

lemma command_fields:
  "m_getString (command_message tx a) ''action'' = a" "m_getString (command_message tx a) ''value'' = ''ON''"
  by (cases tx; simp add: command_message_def m_getString_def m_add_def m_new_def ms_getString_def ms_of_string_def)+

text \<open>The first rule of a pass that fires produces its alarm message and exactly one
  command \<^verbatim>\<open>ON\<close> per enabled action, in the order of the configuration.\<close>

lemma rule_match_answers:
  assumes "rule_match u now active prg ecs cnd [] r = (True, r', answer)"
  shows "hd answer = alarm_message (r_get r ''alarm'') (hit_texts (clause_hits ecs r))
    \<and> map (\<lambda>m. (mtype m, msubtype m, m_getString m ''action'', m_getString m ''value'')) (tl answer)
      = map (\<lambda>a. (''rlcmd'', ''todo'', a, ''ON'')) (filter (\<lambda>a. \<not> rule_isNotMember a active r) (r_action r))"
proof -
  let ?tx = "hit_texts (clause_hits ecs r)"
  have "answer = alarm_message (r_get r ''alarm'') ?tx
      # map (command_message ?tx) (filter (\<lambda>a. \<not> rule_isNotMember a active r) (r_action r))"
    using rule_match_fired(3) [OF assms]
      action_answers_aligned [of r active ?tx "[alarm_message (r_get r ''alarm'') ?tx]" "r_action r"]
    by (simp add: alarm_answer_first)
  moreover have "mtype (command_message ?tx a) = ''rlcmd''" "msubtype (command_message ?tx a) = ''todo''" for a
    by (cases ?tx; simp add: command_message_def m_new_def)+
  ultimately show ?thesis by (simp add: command_fields)
qed

text \<open>The second rule of a pass that fires loses its own alarm: the fields are stored in
  the first message of the vector, which then carries the second rule's alarm, and the message
  appended for it stays empty.\<close>

lemma second_rule_overwrites:
  assumes "rule_match u now active prg ecs cnd (m # ms) r = (True, r', answer)"
    and "m_wf m" and "m_accepts m ''alarm'' v" and "\<forall>a \<in> set (r_action r). rule_isNotMember a active r"
  shows "m_getString (answer ! 0) ''alarm'' = r_get r ''alarm''
    \<and> answer ! Suc (length ms) = m_new ''alarm'' (r_get r ''alarm'')"
proof -
  obtain s w c where tx: "hit_texts (clause_hits ecs r) = (s, w, c)" by (metis prod.exhaust)
  have none: "\<forall>a \<in> set xs. rule_isNotMember a active q \<Longrightarrow> action_answers q active tx i xs ans = ans" for q tx i xs ans
    by (induction xs) simp_all
  have ans: "answer = alarm_answer (r_get r ''alarm'') (s, w, c) (m # ms)"
    using rule_match_fired(3) [OF assms(1)] assms(4) by (simp add: none tx)
  have "m_getString (m_add m ''alarm'' x) ''alarm'' = x" for x
    using m_add_fetch [OF assms(2)] assms(3) by (auto simp: m_accepts_def split: option.splits)
  then show ?thesis
    by (simp add: ans alarm_answer_def add_at_def Let_def nth_append)
qed

end
