(* ===== verification/Effects.thy ===== *)
theory Effects
  imports Params
begin

text \<open>
  What a handler does to the rest of its agent, in the order the code does it: a notification on
  the event bus (\<^verbatim>\<open>SubjectSet::notify\<close>), an entry of the published index
  (\<^verbatim>\<open>hsrv::publish\<close>), the answer to a waiting remote call (\<^verbatim>\<open>hsrv::rpcNotify\<close>), a
  file of parameters (\<^verbatim>\<open>MParams::save\<close>), a status page
  (\<^verbatim>\<open>hsrv::saveItemList\<close>), a page of the server
  (\<^verbatim>\<open>AgentConf::pageRegister\<close>), a registration with a subject
  (\<^verbatim>\<open>SubjectSet::add_observer\<close>), the daily clearing of the archive
  (\<^verbatim>\<open>ArchiveManager::purge\<close>), the text written to a channel of the hardware and a command of
  the shell (\<^verbatim>\<open>hsrv::cmdExec\<close>). The locale \<open>device\<close> is the contract of the class
  \<^verbatim>\<open>Device\<close> towards the thread that owns the devices of an agent.
\<close>

datatype effect =
    Notify mmessage
  | Publish string string
  | RpcNotify string string string
  | SaveFile "string \<times> string"
  | SaveItemList string string "(string \<times> string) list"
  | Page string mmessage
  | Observe string string
  | PurgeArchive
  | WriteChannel string string
  | Shell string

fun notified :: "effect list \<Rightarrow> mmessage list" where
  "notified [] = []"
| "notified (Notify m # es) = m # notified es"
| "notified (_ # es) = notified es"

lemma notified_append [simp]: "notified (xs @ ys) = notified xs @ notified ys"
  by (induction xs rule: notified.induct) auto

subsection \<open>The contract of a device\<close>

locale device =
  fixes inv :: "'d \<Rightarrow> bool"
    and execcmd :: "mmessage \<Rightarrow> 'd \<Rightarrow> (bool \<times> 'd \<times> effect list) option"
  assumes execcmd_total: "inv d \<Longrightarrow> execcmd m d \<noteq> None"
    and execcmd_inv: "inv d \<Longrightarrow> execcmd m d = Some (b, d', es) \<Longrightarrow> inv d'"
begin

fun exec_run :: "mmessage list \<Rightarrow> 'd \<Rightarrow> ('d \<times> effect list) option" where
  "exec_run [] d = Some (d, [])"
| "exec_run (m # ms) d =
     (case execcmd m d of
        None \<Rightarrow> None
      | Some (b, d', es) \<Rightarrow> map_option (\<lambda>(d'', fs). (d'', es @ fs)) (exec_run ms d'))"

lemma exec_run_total: "inv d \<Longrightarrow> \<exists>d' es. exec_run ms d = Some (d', es) \<and> inv d'"
proof (induction ms arbitrary: d)
  case Nil
  then show ?case by simp
next
  case (Cons m ms)
  obtain b d1 es where e: "execcmd m d = Some (b, d1, es)"
    using execcmd_total [OF Cons.prems, of m] by (cases "execcmd m d") auto
  from Cons.IH [OF execcmd_inv [OF Cons.prems e]] e show ?case by auto
qed

end

end
