(* ===== verification/Engines.thy ===== *)
theory Engines
  imports Rule_Base Subject_Bus Effects
begin

text \<open>
  The two engines of the manager agent: \<^verbatim>\<open>RuleEngine.cpp\<close> and \<^verbatim>\<open>ActionEngine.cpp\<close>
  with \<^verbatim>\<open>action.cpp\<close> and \<^verbatim>\<open>actionset.cpp\<close> (\<^verbatim>\<open>src/agents/Manager\<close>). The body of
  each endless loop, from the message taken off the input queue to the next one, is one step: it
  returns the new state and the effects on the rest of the agent, in order.
\<close>

subsection \<open>Actions\<close>

record action =
  a_params :: mparams
  a_name :: string

definition action_new :: "mparams \<Rightarrow> string \<Rightarrow> action" where
  "action_new p nm = \<lparr>a_params = p, a_name = (if mp_get p ''name'' = '''' then nm else mp_get p ''name'')\<rparr>"

abbreviation a_get :: "action \<Rightarrow> string \<Rightarrow> string" where
  "a_get a n \<equiv> mp_get (a_params a) n"

definition action_setStatus :: "string \<Rightarrow> action \<Rightarrow> action \<times> effect list" where
  "action_setStatus v a =
     (let p = snd (mp_set (a_params a) ''status'' v) in (a\<lparr>a_params := p\<rparr>, [SaveFile (mp_save p)]))"

definition action_exec :: "action \<Rightarrow> bool \<times> effect list" where
  "action_exec a =
     (if a_get a ''status'' \<noteq> ''ON'' then (False, [])
      else (True, [Notify (m_add (m_new ''cmd'' (a_get a ''cmd'')) ''value'' (a_get a ''value''))]))"

definition action_subjects :: "action \<Rightarrow> mparams \<Rightarrow> mparams" where
  "action_subjects a subj = mp_add_cat subj (a_get a ''cmd'') ''subject'' ''cmd''"

definition action_observations :: "action \<Rightarrow> mparams \<Rightarrow> mparams" where
  "action_observations a obs = mp_add_cat obs (a_get a ''name'') ''observe'' ''rlcmd''"

definition action_member :: "string \<Rightarrow> action \<Rightarrow> bool" where
  "action_member n a \<longleftrightarrow> a_get a ''name'' = n"

text \<open>\<^verbatim>\<open>ActionSet\<close>: the transient actions are added unless an action has their name.\<close>

definition actions_new :: "(string \<times> mparams) list \<Rightarrow> (string \<times> mparams) list \<Rightarrow> action list" where
  "actions_new files trfiles =
     map (\<lambda>(n, p). action_new p n) files
     @ map (\<lambda>(n, p). action_new p n) (filter (\<lambda>(n, p). \<not> nl_member (map fst files) n) trfiles)"

fun actions_setStatus :: "string \<Rightarrow> string \<Rightarrow> action list \<Rightarrow> bool \<times> action list \<times> effect list" where
  "actions_setStatus name v [] = (False, [], [])"
| "actions_setStatus name v (a # as) =
     (if a_get a ''name'' = name
      then let (a', e) = action_setStatus v a in (True, a' # as, e)
      else let (b, as', e) = actions_setStatus name v as in (b, a # as', e))"

definition actions_isActive :: "string \<Rightarrow> action list \<Rightarrow> bool" where
  "actions_isActive n as \<longleftrightarrow> (\<exists>a \<in> set as. a_get a ''name'' = n \<and> a_get a ''status'' = ''ON'')"

fun actions_exec :: "string \<Rightarrow> action list \<Rightarrow> bool \<times> effect list" where
  "actions_exec name [] = (False, [])"
| "actions_exec name (a # as) = (if a_get a ''name'' = name then action_exec a else actions_exec name as)"

definition actions_subjects :: "action list \<Rightarrow> mparams \<Rightarrow> mparams" where
  "actions_subjects as subj = fold action_subjects as subj"

definition actions_observations :: "action list \<Rightarrow> mparams \<Rightarrow> mparams" where
  "actions_observations as obs = fold action_observations as obs"

subsection \<open>The action engine\<close>

record action_engine =
  ae_actions :: "action list"
  ae_program :: mmessage

definition makeActionPage :: "action list \<Rightarrow> effect list" where
  "makeActionPage as =
     [SaveItemList ''actions'' ''status'' (map (\<lambda>a. (a_get a ''name'', a_get a ''status'')) as)]"

definition makeActiveActionPage :: "action list \<Rightarrow> mmessage \<Rightarrow> effect list" where
  "makeActiveActionPage al p =
     (let active = m_getList p ''active'';
          really = (if length active > 0 \<and> is_all (active ! 0)
                    then map (\<lambda>a. a_get a ''name'') (filter (\<lambda>a. a_get a ''status'' = ''ON'') al)
                    else filter (\<lambda>n. actions_isActive n al) active)
      in [SaveItemList ''activeactions'' ''status'' (map (\<lambda>n. (n, ''ON'')) really)])"

definition map_actions :: "(action \<Rightarrow> action \<times> effect list) \<Rightarrow> action list \<Rightarrow> action list \<times> effect list" where
  "map_actions f as = (map (\<lambda>a. fst (f a)) as, concat (map (\<lambda>a. snd (f a)) as))"

definition ae_step :: "mmessage \<Rightarrow> action_engine \<Rightarrow> action_engine \<times> effect list" where
  "ae_step msg s =
     (let pages = (\<lambda>as. makeActionPage as @ makeActiveActionPage as (ae_program s));
          switch = (\<lambda>a. let v = m_getString msg (a_get a ''name'')
                       in if v = ''ON'' \<or> v = ''OFF'' then action_setStatus v a else (a, []))
      in if mtype msg = ''cmd'' \<and> msubtype msg = ''setactions''
         then let (as, e) = map_actions switch (ae_actions s) in (s\<lparr>ae_actions := as\<rparr>, e @ pages as)
         else if mtype msg = ''cmd'' \<and> msubtype msg = ''resetactions''
         then let (as, e) = map_actions (action_setStatus ''ON'') (ae_actions s)
              in (s\<lparr>ae_actions := as\<rparr>, e @ pages as)
         else if mtype msg = ''program'' \<and> msubtype msg = ''prgstatus''
         then (s\<lparr>ae_program := msg\<rparr>, makeActiveActionPage (ae_actions s) msg)
         else if mtype msg = ''rlcmd'' \<and> (\<exists>a \<in> set (ae_actions s). action_member (m_getString msg ''action'') a)
         then (s, snd (actions_exec (m_getString msg ''action'') (ae_actions s)))
         else (s, []))"

definition ae_getSubjects :: "mparams \<Rightarrow> action_engine \<Rightarrow> mparams \<Rightarrow> mparams" where
  "ae_getSubjects own s subj =
     actions_subjects (ae_actions s) (ot_getSubjects own subj)"

subsection \<open>The rule engine\<close>

record rule_engine =
  wait_after_on :: string
  wait_forbidden :: string
  re_counters :: "event_counter list"
  re_conditions :: "boolean_condition list option"
  re_rules :: rule_set
  re_program :: mmessage
  alarm_on :: bool
  re_active :: "string list"

definition re_new ::
  "mparams \<Rightarrow> mparams \<Rightarrow> event_counter list \<Rightarrow> boolean_condition list option \<Rightarrow> rule_set \<Rightarrow> rule_engine" where
  "re_new params timeparams ecs cnd rs =
     \<lparr>wait_after_on = (let w = mp_get timeparams ''wait_after_on'' in if w = '''' then mp_get params ''wait_after_on'' else w),
      wait_forbidden = (let w = mp_get timeparams ''wait_forbidden'' in if w = '''' then mp_get params ''wait_forbidden'' else w),
      re_counters = ecs, re_conditions = cnd, re_rules = rs, re_program = m_default,
      alarm_on = False, re_active = []\<rparr>"

definition makeRulePage :: "rule list \<Rightarrow> effect list" where
  "makeRulePage rs =
     map (\<lambda>r. Publish (r_name r)
            (''alias='' @ quote @ r_alias r @ quote @ '' status='' @ quote @ r_get r ''status'' @ quote
             @ '' from='' @ quote @ r_get r ''from'' @ quote @ '' to='' @ quote @ r_get r ''to'' @ quote)) rs
     @ [SaveItemList ''rules'' ''status'' (map (\<lambda>r. (r_name r, r_get r ''status'')) rs)]"

definition makeEventcounterPage :: "event_counter list \<Rightarrow> effect list" where
  "makeEventcounterPage ecs =
     [SaveItemList ''eventcounters'' ''status'' (map (\<lambda>e. (ec_name e, mp_get (ec_params e) ''status'')) ecs)]"

definition makeConditionPage :: "boolean_condition list \<Rightarrow> effect list" where
  "makeConditionPage cs =
     [SaveItemList ''conditions'' ''status'' (map (\<lambda>c. (bc_name c, mp_get (bc_params c) ''status'')) cs)]"

text \<open>The callers pass the two times in the other order than the parameters name them, and the
  first pair is written twice.\<close>

definition makeParameterPage :: "string \<Rightarrow> string \<Rightarrow> effect list" where
  "makeParameterPage wf_arg wt_arg =
     [SaveItemList ''parameters'' ''status'' [(''wait_after_on'', wt_arg), (''wait_after_on'', wt_arg)]]"

definition set_status :: "string \<Rightarrow> mparams \<Rightarrow> mparams" where
  "set_status v p = snd (mp_set p ''status'' v)"

definition pick_status :: "mmessage \<Rightarrow> string \<Rightarrow> mparams \<Rightarrow> (mparams \<times> effect list)" where
  "pick_status msg name p =
     (if m_getString msg name \<noteq> ''''
      then let p' = set_status (m_getString msg name) p in (p', [SaveFile (mp_save p')]) else (p, []))"

definition reset_status :: "mparams \<Rightarrow> mparams \<times> effect list" where
  "reset_status p = (let p' = set_status ''ON'' p in (p', [SaveFile (mp_save p')]))"

definition notify_all :: "mmessage list \<Rightarrow> effect list" where
  "notify_all ms = map Notify ms"

abbreviation saves :: "saved \<Rightarrow> effect list" where
  "saves s \<equiv> map SaveFile s"

definition re_start :: "rule_engine \<Rightarrow> effect list" where
  "re_start s = makeEventcounterPage (re_counters s) @ makeRulePage (rules (re_rules s))
     @ makeParameterPage (wait_after_on s) (wait_forbidden s)"

text \<open>The trigger: the rule cycles are updated only when no counter is positive (the disjunction
  of the two updates is evaluated from the left); the rules are matched in either case.\<close>

definition re_trigger :: "double \<Rightarrow> int \<Rightarrow> double \<Rightarrow> string \<Rightarrow> rule_engine \<Rightarrow> rule_engine \<times> effect list" where
  "re_trigger u ui now day s =
     (let (b, ecs) = ecs_timeUpdate u now (re_counters s);
          rs = (if b then re_rules s else rs_timeUpdate now day (re_rules s));
          (c, rs', todo) = rs_match ui now (re_active s) (alarm_on s) ecs (re_conditions s) [] rs
      in (s\<lparr>re_counters := ecs, re_rules := rs'\<rparr>, notify_all todo))"

definition re_event :: "double \<Rightarrow> int \<Rightarrow> double \<Rightarrow> mmessage \<Rightarrow> rule_engine \<Rightarrow> rule_engine \<times> effect list" where
  "re_event u ui now msg s =
     (let ecs = snd (ecs_timeUpdate u now (re_counters s));
          cnd = map_option (\<lambda>cs. snd (bcs_eventUpdate u msg cs)) (re_conditions s);
          (r, msg', ecs') = ecs_eventUpdate u now msg ecs;
          (c, rs', todo) = rs_match ui now (re_active s) (alarm_on s) ecs' cnd [] (re_rules s)
      in (s\<lparr>re_counters := ecs', re_conditions := cnd, re_rules := rs'\<rparr>, notify_all todo))"

definition re_cmd_counters :: "(event_counter \<Rightarrow> mparams \<times> effect list) \<Rightarrow> rule_engine \<Rightarrow> rule_engine \<times> effect list" where
  "re_cmd_counters f s =
     (let ecs = map (\<lambda>e. e\<lparr>ec_params := fst (f e)\<rparr>) (re_counters s)
      in (s\<lparr>re_counters := ecs\<rparr>, concat (map (\<lambda>e. snd (f e)) (re_counters s)) @ makeEventcounterPage ecs))"

definition re_cmd_conditions ::
  "(boolean_condition \<Rightarrow> mparams \<times> effect list) \<Rightarrow> boolean_condition list \<Rightarrow> rule_engine \<Rightarrow> rule_engine \<times> effect list" where
  "re_cmd_conditions f cs s =
     (let cs' = map (\<lambda>c. c\<lparr>bc_params := fst (f c)\<rparr>) cs
      in (s\<lparr>re_conditions := Some cs'\<rparr>, concat (map (\<lambda>c. snd (f c)) cs) @ makeConditionPage cs'))"

definition re_cmd_rules :: "(rule \<Rightarrow> mparams \<times> effect list) \<Rightarrow> rule_engine \<Rightarrow> rule_engine \<times> effect list" where
  "re_cmd_rules f s =
     (let rs = rules (re_rules s); rs' = map (\<lambda>r. r\<lparr>r_params := fst (f r)\<rparr>) rs
      in (s\<lparr>re_rules := (re_rules s)\<lparr>rules := rs'\<rparr>\<rparr>, concat (map (\<lambda>r. snd (f r)) rs) @ makeRulePage rs'))"

definition re_setrulemode :: "mmessage \<Rightarrow> rule_engine \<Rightarrow> rule_engine \<times> effect list" where
  "re_setrulemode msg s =
     (let name = m_getString msg ''name''; rstatus = m_getString msg ''status'';
          fr = m_getString msg ''from''; to = m_getString msg ''to'';
          (b1, rs1, s1) = (if rstatus = ''ON'' \<or> rstatus = ''OFF''
                           then rules_setStatus name rstatus (rules (re_rules s)) else (False, rules (re_rules s), []));
          (b2, rs2, s2) = (if fr \<noteq> '''' \<and> to \<noteq> '''' then rules_setValidity name fr to rs1 else (False, rs1, []))
      in (s\<lparr>re_rules := (re_rules s)\<lparr>rules := rs2\<rparr>\<rparr>, saves s1 @ saves s2 @ makeRulePage rs2))"

definition re_step ::
  "double \<Rightarrow> int \<Rightarrow> double \<Rightarrow> string \<Rightarrow> mmessage \<Rightarrow> rule_engine \<Rightarrow> rule_engine \<times> effect list" where
  "re_step u ui now day msg s =
     (let ty = mtype msg; st = msubtype msg in
      if ty = ''trigger'' \<and> st = ''eventupdate'' then re_trigger u ui now day s
      else if ty = ''event'' \<and> (st = ''_SWITCH'' \<or> st = ''_ON'')
      then (s\<lparr>re_counters := ecs_clearDQ (re_counters s)\<rparr>,
            [Notify ((m_add (msg\<lparr>mtype := ''cmd''\<rparr>) ''program'' st)\<lparr>msubtype := ''setprogram''\<rparr>)])
      else if ty = ''event'' then re_event u ui now msg s
      else if ty = ''program'' \<and> st = ''prgstatus''
      then (s\<lparr>re_program := msg, alarm_on := (m_getString msg ''status'' \<noteq> ''OFF''),
              re_active := m_getList msg ''active'',
              re_rules := rs_setWait_for u now (wait_after_on s) (re_rules s),
              re_counters := ecs_clearDQ (re_counters s)\<rparr>, [])
      else if ty = ''cmd'' \<and> st = ''setwait''
      then (s\<lparr>wait_after_on := m_getString msg ''wait''\<rparr>,
            makeParameterPage (m_getString msg ''wait'') (wait_forbidden s))
      else if ty = ''cmd'' \<and> st = ''waitfor''
      then (s\<lparr>re_rules := (if m_getString msg ''wait'' \<noteq> ''''
                            then rs_setWait_for u now (m_getString msg ''wait'') (re_rules s)
                            else snd (rs_setWait u now (wait_after_on s) (wait_forbidden s) (re_rules s)))\<rparr>, [])
      else if ty = ''cmd'' \<and> st = ''seteventcounters''
      then re_cmd_counters (\<lambda>e. pick_status msg (ec_name e) (ec_params e)) s
      else if ty = ''cmd'' \<and> st = ''reseteventcounters'' then re_cmd_counters (\<lambda>e. reset_status (ec_params e)) s
      else if ty = ''cmd'' \<and> st = ''setconditions'' \<and> re_conditions s \<noteq> None
      then re_cmd_conditions (\<lambda>c. pick_status msg (bc_name c) (bc_params c)) (the (re_conditions s)) s
      else if ty = ''cmd'' \<and> st = ''resetconditions'' \<and> re_conditions s \<noteq> None
      then re_cmd_conditions (\<lambda>c. reset_status (bc_params c)) (the (re_conditions s)) s
      else if ty = ''cmd'' \<and> st = ''setrulemode'' then re_setrulemode msg s
      else if ty = ''cmd'' \<and> st = ''setrules'' then re_cmd_rules (\<lambda>r. pick_status msg (r_name r) (r_params r)) s
      else if ty = ''cmd'' \<and> st = ''setvaliditytime''
      then let (b, rs, sv) = rules_setValidity (m_getString msg ''rule'') (m_getString msg ''from'')
                               (m_getString msg ''to'') (rules (re_rules s))
           in (s\<lparr>re_rules := (re_rules s)\<lparr>rules := rs\<rparr>\<rparr>, saves sv)
      else if ty = ''cmd'' \<and> st = ''resetrules'' then re_cmd_rules (\<lambda>r. reset_status (r_params r)) s
      else (s, []))"

definition re_getObservations :: "mparams \<Rightarrow> rule_engine \<Rightarrow> mparams \<Rightarrow> mparams" where
  "re_getObservations own s obs =
     (let obs' = ecs_observations (re_counters s) (ot_getObservations own obs)
      in case re_conditions s of None \<Rightarrow> obs' | Some cs \<Rightarrow> bcs_observations cs obs')"

definition re_getSubjects :: "mparams \<Rightarrow> rule_engine \<Rightarrow> mparams \<Rightarrow> mparams" where
  "re_getSubjects own s subj =
     rs_subjects (re_rules s) (mp_add_cat (ot_getSubjects own subj) ''todo'' ''subject'' ''rlcmd'')"

subsection \<open>From an event to the commands\<close>

text \<open>The effects of the action engine on the messages that another engine notifies.\<close>

definition run_actions :: "action_engine \<Rightarrow> effect list \<Rightarrow> effect list" where
  "run_actions ae es = concat (map (\<lambda>e. case e of Notify m \<Rightarrow> snd (ae_step m ae) | _ \<Rightarrow> []) es)"

lemma actions_exec_find:
  "snd (actions_exec n as) = (case find (\<lambda>a. a_get a ''name'' = n) as of Some a \<Rightarrow> snd (action_exec a) | None \<Rightarrow> [])"
  by (induction as) auto

lemma command_header [simp]: "mtype (command_message tx a) = ''rlcmd''" "msubtype (command_message tx a) = ''todo''"
  by (cases tx; simp add: command_message_def m_new_def)+

lemma alarm_header [simp]: "mtype (alarm_message al tx) = ''alarm''"
  by (cases tx) (simp add: alarm_message_def m_new_def Let_def)

lemma ae_step_command:
  "snd (ae_step (command_message tx n) ae) =
    (case find (\<lambda>a. a_get a ''name'' = n) (ae_actions ae) of Some a \<Rightarrow> snd (action_exec a) | None \<Rightarrow> [])"
proof (cases "\<exists>a \<in> set (ae_actions ae). action_member n a")
  case True
  then show ?thesis by (simp add: ae_step_def command_fields actions_exec_find)
next
  case False
  then have "find (\<lambda>a. a_get a ''name'' = n) (ae_actions ae) = None"
    by (simp add: find_None_iff action_member_def)
  with False show ?thesis by (simp add: ae_step_def command_fields)
qed

lemma ae_step_alarm: "snd (ae_step (alarm_message al tx) ae) = []"
  by (simp add: ae_step_def)

lemma rs_match_single:
  assumes "rules rs = [r]" and "rs_match ui now active prg ecs cnd [] rs = (c, rs', todo)" and "todo \<noteq> []"
  shows "todo = alarm_message (r_get r ''alarm'') (hit_texts (clause_hits ecs r))
    # map (command_message (hit_texts (clause_hits ecs r))) (filter (\<lambda>a. \<not> rule_isNotMember a active r) (r_action r))"
proof -
  let ?tx = "hit_texts (clause_hits ecs r)"
  obtain b r' where m: "rule_match ui now active prg ecs cnd [] r = (b, r', todo)"
    using assms(1,2) by (auto simp: rs_match_def split: prod.splits)
  then have b using rule_match_keeps(2) [OF m] assms(3) by blast
  then have "todo = action_answers r active ?tx 1 (r_action r) (alarm_answer (r_get r ''alarm'') ?tx [])"
    using rule_match_fired(3) m by simp
  then show ?thesis
    using action_answers_aligned [of r active ?tx "[alarm_message (r_get r ''alarm'') ?tx]" "r_action r"]
    by (simp add: alarm_answer_first)
qed

text \<open>C1: from event to command. When an event makes the rule of a rule engine fire, the action
  engine that observes the notifications executes, in the order of the rule, exactly the actions
  the active program admits, each by the first action of that name and only if it is on.\<close>

theorem event_to_commands:
  assumes "rules (re_rules s) = [r]" and "mtype msg = ''event''" and "msubtype msg \<notin> {''_SWITCH'', ''_ON''}"
    and "re_step u ui now day msg s = (s', es)" and "es \<noteq> []"
  shows "run_actions ae es = concat (map (\<lambda>n.
      case find (\<lambda>a. a_get a ''name'' = n) (ae_actions ae) of Some a \<Rightarrow> snd (action_exec a) | None \<Rightarrow> [])
    (filter (\<lambda>n. \<not> rule_isNotMember n (re_active s) r) (r_action r)))"
proof -
  have "re_event u ui now msg s = (s', es)" using assms(2-4) by (simp add: re_step_def)
  then obtain cnd ecs c rs' todo where
    m: "rs_match ui now (re_active s) (alarm_on s) ecs cnd [] (re_rules s) = (c, rs', todo)" "es = notify_all todo"
    by (auto simp: re_event_def Let_def split: prod.splits)
  then have "todo \<noteq> []" using assms(5) by (simp add: notify_all_def)
  from rs_match_single [OF assms(1) m(1) this] m(2) show ?thesis
    by (simp add: run_actions_def notify_all_def ae_step_alarm ae_step_command comp_def)
qed

theorem event_to_commands_witness:
  "run_actions \<lparr>ae_actions = [action_new (mp_add (mp_add (mp_add (mp_add mp_default ''name'' ''siren'')
        ''status'' ''ON'') ''cmd'' ''horn'') ''value'' ''1'') ''siren''], ae_program = m_default\<rparr>
     (snd (re_step 0 0 5 [] (m_new ''event'' ''door'')
       (re_new mp_default mp_default [] None (rs_new (Fin 0) 0 0 []\<lparr>rules := [demo_rule []]\<rparr>))))
   = [Notify (m_add (m_new ''cmd'' ''horn'') ''value'' ''1'')]"
proof -
  let ?p = "mp_add (mp_add (mp_add (mp_add mp_default ''name'' ''siren'') ''status'' ''ON'') ''cmd'' ''horn'') ''value'' ''1''"
  let ?ae = "\<lparr>ae_actions = [action_new ?p ''siren''], ae_program = m_default\<rparr>"
  let ?s = "re_new mp_default mp_default [] None (rs_new (Fin 0) 0 0 []\<lparr>rules := [demo_rule []]\<rparr>)"
  obtain s' es where st: "re_step 0 0 5 [] (m_new ''event'' ''door'') ?s = (s', es)" by (metis prod.exhaust)
  have en: "enabled [] False None (demo_rule [])"
    by (simp add: enabled_def demo_rule_def t_blocked_def f_blocked_def)
  have fired: "fst (rule_match 0 5 [] False [] None [] (demo_rule []))"
    by (simp add: rule_match_enabled [OF en] Let_def quiet_def)
      (simp add: demo_rule_def set_ev_def open_pr_def open_t_def open_f_def)
  obtain r' ans where m: "rule_match 0 5 [] False [] None [] (demo_rule []) = (True, r', ans)"
    using fired by (metis fst_conv prod.exhaust)
  have "ans \<noteq> []"
    using rule_match_fired(3) [OF m] action_answers_aligned [of "demo_rule []" "[]" _ "[alarm_message _ _]"]
    by (simp add: alarm_answer_first)
  moreover have "es = notify_all ans"
    using st m by (simp add: re_step_def re_event_def re_new_def rs_new_def m_new_def ecs_timeUpdate_def
        ecs_eventUpdate_def rs_match_def Let_def)
  ultimately have "es \<noteq> []" by (simp add: notify_all_def)
  moreover have "mp_get ?p ''name'' = ''siren''" "mp_get ?p ''status'' = ''ON''" "mp_get ?p ''cmd'' = ''horn''"
    "mp_get ?p ''value'' = ''1''" by (simp_all add: mp_get_add)
  moreover have "rules (re_rules ?s) = [demo_rule []]" "re_active ?s = []"
    by (simp_all add: re_new_def rs_new_def)
  moreover have "r_action (demo_rule []) = [''siren'']" "\<not> rule_isNotMember n [] (demo_rule [])" for n
    by (simp_all add: demo_rule_def rule_isNotMember_def)
  ultimately have "run_actions ?ae es = snd (action_exec (action_new ?p ''siren''))"
    using event_to_commands [OF _ _ _ st, of "demo_rule []" ?ae] by (simp add: m_new_def action_new_def)
  then show ?thesis
    using st \<open>mp_get ?p ''status'' = ''ON''\<close> \<open>mp_get ?p ''cmd'' = ''horn''\<close> \<open>mp_get ?p ''value'' = ''1''\<close>
    by (simp add: action_exec_def action_new_def)
qed

end
