(* ===== verification/File_Store.thy ===== *)
theory File_Store
  imports Message
begin

text \<open>
  The text files of an agent and the operations of \<^verbatim>\<open>src/agents/minilibs/filemanager.cpp\<close>
  the engines use on them. A store maps a path to the text of the file; a path that is not there
  cannot be opened. A directory is the list of its entries, each with a flag for a subdirectory.
\<close>

type_synonym files = "string \<Rightarrow> string option"

type_synonym directory = "((string \<times> bool) list) option"

definition newline :: string where "newline = [CHR 0x0A]"

lemma next_word_shorter:
  assumes "dropWhile is_space s \<noteq> []"
  shows "length (dropWhile (\<lambda>c. \<not> is_space c) (dropWhile is_space s)) < length s"
proof -
  obtain c t where s1: "dropWhile is_space s = c # t" using assms by (cases "dropWhile is_space s") auto
  then have "\<not> is_space c" using hd_dropWhile [of is_space s] by simp
  then have "dropWhile (\<lambda>c. \<not> is_space c) (dropWhile is_space s) = dropWhile (\<lambda>c. \<not> is_space c) t"
    by (simp add: s1)
  also have "length \<dots> \<le> length t" by (rule length_dropWhile_le)
  also have "\<dots> < length (dropWhile is_space s)" by (simp add: s1)
  also have "\<dots> \<le> length s" by (rule length_dropWhile_le)
  finally show ?thesis .
qed

text \<open>The extraction of words with \<^verbatim>\<open>>>\<close>: a word that ends at the end of the file sets
  \<^verbatim>\<open>eof\<close>, and \<^verbatim>\<open>readFile\<close> then drops it.\<close>

function read_words :: "string \<Rightarrow> string \<Rightarrow> string" where
  "read_words r s =
     (let s1 = dropWhile is_space s; rest = dropWhile (\<lambda>c. \<not> is_space c) s1
      in if s1 = [] \<or> rest = [] then r
         else read_words (r @ takeWhile (\<lambda>c. \<not> is_space c) s1) rest)"
  by pat_completeness auto
termination
  by (relation "measure (\<lambda>(r, s). length s)") (auto intro: next_word_shorter)

declare read_words.simps [simp del]

definition readFile :: "string \<Rightarrow> files \<Rightarrow> string" where
  "readFile path fs = (case fs path of None \<Rightarrow> '''' | Some t \<Rightarrow> read_words '''' t)"

definition saveFile :: "string \<Rightarrow> string \<Rightarrow> files \<Rightarrow> files" where
  "saveFile path text fs = fs(path := Some (text @ newline))"

definition isFile :: "string \<Rightarrow> files \<Rightarrow> bool" where
  "isFile path fs \<longleftrightarrow> fs path \<noteq> None"

definition moveFile :: "string \<Rightarrow> string \<Rightarrow> files \<Rightarrow> files" where
  "moveFile path new fs = (if isFile path fs then (fs(path := None))(new := fs path) else fs)"

definition deleteFile :: "string \<Rightarrow> files \<Rightarrow> files" where
  "deleteFile path fs = (if isFile path fs then fs(path := None) else fs)"

definition fileList :: "directory \<Rightarrow> int \<times> string list" where
  "fileList d =
     (case d of
        None \<Rightarrow> (-1, [])
      | Some es \<Rightarrow> let l = map fst (filter (\<lambda>(n, dir). \<not> dir \<and> n \<noteq> ''.'' \<and> n \<noteq> ''..'' \<and> hd n \<noteq> CHR ''.'') es)
                  in (int (length l), l))"

definition fileCount :: "directory \<Rightarrow> int" where
  "fileCount d =
     (case d of
        None \<Rightarrow> -1
      | Some es \<Rightarrow> int (length (filter (\<lambda>(n, dir). \<not> dir \<and> n \<noteq> ''.'' \<and> n \<noteq> ''..'') es)))"

definition dirCount :: "directory \<Rightarrow> int" where
  "dirCount d =
     (case d of
        None \<Rightarrow> -1
      | Some es \<Rightarrow> int (length (filter (\<lambda>(n, dir). n \<noteq> ''.'' \<and> n \<noteq> ''..'' \<and> dir) es)))"

definition dirList :: "directory \<Rightarrow> int \<times> string list" where
  "dirList d =
     (case d of
        None \<Rightarrow> (-1, [])
      | Some es \<Rightarrow> let l = map fst (filter (\<lambda>(n, dir). dir \<and> n \<noteq> ''.'' \<and> n \<noteq> ''..'' \<and> hd n \<noteq> CHR ''.'') es)
                  in (int (length l), l))"

text \<open>The output is opened, and so created empty, even when the input cannot be read.\<close>

definition copyFile :: "string \<Rightarrow> string \<Rightarrow> string \<Rightarrow> files \<Rightarrow> bool \<times> files" where
  "copyFile path newpath newname fs =
     (let out = (if newname \<noteq> '''' then newpath @ ''/'' @ newname else newpath)
      in case fs path of
           None \<Rightarrow> (False, fs(out := Some ''''))
         | Some t \<Rightarrow> (True, fs(out := Some (if path = out then '''' else t))))"

definition isFile_ext :: "string \<Rightarrow> string \<Rightarrow> files \<Rightarrow> bool" where
  "isFile_ext path ext fs \<longleftrightarrow> isFile path fs \<and> str_contains path ext"

subsection \<open>Names of files\<close>

definition find_last :: "char \<Rightarrow> string \<Rightarrow> nat option" where
  "find_last c s = (if c \<in> set s then Some (length s - 1 - length (takeWhile (\<lambda>x. x \<noteq> c) (rev s))) else None)"

definition getTail :: "string \<Rightarrow> string" where
  "getTail path = (case find_last (CHR ''/'') path of None \<Rightarrow> path | Some p \<Rightarrow> drop (p + 1) path)"

definition getRoot :: "string \<Rightarrow> string" where
  "getRoot path = (case find_last (CHR ''/'') path of None \<Rightarrow> '''' | Some p \<Rightarrow> take (p + 1) path)"

definition tail_or_path :: "string \<Rightarrow> string" where
  "tail_or_path path = (let t = getTail path in if t = '''' then path else t)"

definition getExt :: "string \<Rightarrow> string" where
  "getExt path = (let f = tail_or_path path
                  in case find_last (CHR ''.'') f of None \<Rightarrow> f | Some p \<Rightarrow> drop (p + 1) f)"

definition getStem :: "string \<Rightarrow> string" where
  "getStem path = (let f = tail_or_path path
                   in case find_last (CHR ''.'') f of None \<Rightarrow> f | Some p \<Rightarrow> take p f)"

definition stripCharacter :: "string \<Rightarrow> char \<Rightarrow> string" where
  "stripCharacter s c = filter (\<lambda>x. x \<noteq> c) s"

definition media_file :: "string list \<Rightarrow> string \<Rightarrow> files \<Rightarrow> bool" where
  "media_file exts path fs \<longleftrightarrow> isFile path fs \<and> (\<exists>e \<in> set exts. matchfile (upcase (getTail path)) e)"

definition isVideoFile :: "string \<Rightarrow> files \<Rightarrow> bool" where
  "isVideoFile = media_file [''MJPEG'', ''AVI'']"

definition isImageFile :: "string \<Rightarrow> files \<Rightarrow> bool" where
  "isImageFile = media_file [''JPEG'', ''JPG'', ''PNG'', ''GIF'']"

text \<open>\<^verbatim>\<open>hsrv::isfile\<close> with a type: the first word of the file contains it.\<close>

definition first_word :: "string \<Rightarrow> string" where
  "first_word t = takeWhile (\<lambda>c. \<not> is_space c) (dropWhile is_space t)"

definition isfile_type :: "string \<Rightarrow> string \<Rightarrow> files \<Rightarrow> bool" where
  "isfile_type path ty fs = (case fs path of None \<Rightarrow> False | Some t \<Rightarrow> str_contains (first_word t) ty)"

definition getlistof :: "directory \<Rightarrow> string \<Rightarrow> string list" where
  "getlistof d ext = (case d of None \<Rightarrow> [] | Some es \<Rightarrow> filter (\<lambda>n. matchfile n ext) (map fst es))"

subsection \<open>Reading back what was saved\<close>

definition one_word :: "string \<Rightarrow> bool" where
  "one_word t \<longleftrightarrow> t \<noteq> '''' \<and> (\<forall>c \<in> set t. \<not> is_space c)"

lemma read_words_line:
  assumes "one_word t"
  shows "read_words r (t @ newline) = r @ t"
proof -
  have n: "is_space (CHR 0x0A)" by (simp add: is_space_def)
  from assms obtain c cs where t: "t = c # cs" "\<not> is_space c" by (cases t) (auto simp: one_word_def)
  have "dropWhile is_space (t @ newline) = t @ newline" using t by simp
  moreover have "dropWhile (\<lambda>c. \<not> is_space c) (t @ newline) = newline"
    "takeWhile (\<lambda>c. \<not> is_space c) (t @ newline) = t"
    using assms n by (simp_all add: one_word_def newline_def dropWhile_append2 takeWhile_append2)
  moreover have "read_words (r @ t) newline = r @ t"
    using n by (subst read_words.simps) (simp add: newline_def)
  ultimately show ?thesis using t n by (subst read_words.simps) (simp add: Let_def newline_def)
qed

lemma readFile_saveFile: "one_word t \<Longrightarrow> readFile p (saveFile p t fs) = t"
  by (simp add: readFile_def saveFile_def read_words_line)

lemma readFile_other: "fs' p = fs p \<Longrightarrow> readFile p fs' = readFile p fs"
  by (simp add: readFile_def)

lemma files_simps [simp]:
  "q \<noteq> p \<Longrightarrow> saveFile p t fs q = fs q" "saveFile p t fs p = Some (t @ newline)"
  "q \<noteq> p \<Longrightarrow> deleteFile p fs q = fs q" "deleteFile p fs p = None"
  "q \<noteq> p \<Longrightarrow> q \<noteq> n \<Longrightarrow> moveFile p n fs q = fs q"
  by (simp_all add: saveFile_def deleteFile_def moveFile_def isFile_def)

text \<open>A file whose last word is not followed by white space loses that word.\<close>

lemma readFile_unterminated: "one_word t \<Longrightarrow> fs p = Some t \<Longrightarrow> readFile p fs = ''''"
proof -
  assume t: "one_word t" "fs p = Some t"
  then have "dropWhile (\<lambda>c. \<not> is_space c) (dropWhile is_space t) = []"
    by (auto simp: one_word_def dropWhile_eq_Nil_conv dest: set_dropWhileD)
  with t show ?thesis by (simp add: readFile_def) (subst read_words.simps, simp add: Let_def)
qed

subsection \<open>Parts of a name\<close>

lemma find_last_append: "c \<notin> set t \<Longrightarrow> find_last c (s @ c # t) = Some (length s)"
proof -
  assume "c \<notin> set t"
  then have "takeWhile (\<lambda>x. x \<noteq> c) (rev t @ c # rev s) = rev t" by (subst takeWhile_append2) auto
  then have "takeWhile (\<lambda>x. x \<noteq> c) (rev (s @ c # t)) = rev t" by simp
  then show ?thesis by (simp add: find_last_def)
qed

lemma find_last_None: "find_last c s = None \<longleftrightarrow> c \<notin> set s"
  by (simp add: find_last_def)

lemma getRoot_getTail: "getRoot path @ getTail path = path"
  by (simp add: getRoot_def getTail_def split: option.splits)

lemma getStem_file:
  assumes "CHR ''/'' \<notin> set n" and "CHR ''/'' \<notin> set e" and "CHR ''.'' \<notin> set e"
  shows "getStem (n @ ''.'' @ e) = n" "getStem (dir @ ''/'' @ n @ ''.'' @ e) = n" "getExt (n @ ''.'' @ e) = e"
proof -
  have "getTail (n @ ''.'' @ e) = n @ ''.'' @ e" using assms(1,2) by (simp add: getTail_def find_last_def)
  moreover have "getTail (dir @ CHR ''/'' # n @ CHR ''.'' # e) = n @ CHR ''.'' # e"
    using assms(1,2) find_last_append [of "CHR ''/''" "n @ CHR ''.'' # e" dir] by (simp add: getTail_def)
  ultimately show "getStem (n @ ''.'' @ e) = n" "getStem (dir @ ''/'' @ n @ ''.'' @ e) = n" "getExt (n @ ''.'' @ e) = e"
    using assms(3) find_last_append [of "CHR ''.''" e n] by (simp_all add: getStem_def getExt_def tail_or_path_def Let_def)
qed

end
