(* ===== verification/Calendar.thy ===== *)
theory Calendar
  imports Engines File_Store
begin

text \<open>
  Calendar programs: \<^verbatim>\<open>period.cpp\<close>, \<^verbatim>\<open>dayprogram.cpp\<close> and \<^verbatim>\<open>program.cpp\<close>
  (\<^verbatim>\<open>src/agents/minilibs\<close>) and the thread \<^verbatim>\<open>src/agents/Manager/ProgramEngine.cpp\<close>,
  which tells the rule engine which alarms the current program admits now. \<open>parse\<close> is
  tinyxml's \<^verbatim>\<open>LoadFile\<close> on the text of a file (\<open>None\<close> on a syntax error); \<open>home\<close>
  is \<^verbatim>\<open>hsrv::homedir\<close>; the broken-down local time is an argument.
\<close>

subsection \<open>Periods and days\<close>

record period =
  pe_name :: string
  pe_t0 :: string
  pe_t1 :: string
  pe_event :: "string list"

fun node_value :: "xnode \<Rightarrow> string" where
  "node_value (XElement v as cs) = v"
| "node_value (XText t) = t"
| "node_value (XComment t) = t"
| "node_value XDeclaration = ''''"
| "node_value (XUnknown t) = t"

definition period_of_node :: "xnode \<Rightarrow> period option" where
  "period_of_node x =
     map_option (\<lambda>c. \<lparr>pe_name = node_value x, pe_t0 = attr x ''from'', pe_t1 = attr x ''to'',
                      pe_event = map (\<lambda>e. attr e ''name'') (children c)\<rparr>) (first_child x)"

definition period_isActive :: "int \<Rightarrow> period \<Rightarrow> string list option" where
  "period_isActive t p =
     (if string2second (pe_t0 p) \<le> t \<and> t \<le> string2second (pe_t1 p) \<and> pe_event p \<noteq> []
      then Some (pe_event p) else None)"

record day_program =
  dp_day :: string
  dp_week :: string
  dp_month :: string
  dp_year :: string
  dp_periods :: "period list"

definition day_of_node :: "string \<Rightarrow> xnode \<Rightarrow> day_program option" where
  "day_of_node yy x =
     (case first_child x of
        None \<Rightarrow> None
      | Some c \<Rightarrow> map_option (\<lambda>ps. \<lparr>dp_day = attr x ''day_number'', dp_week = attr x ''weekday'',
                    dp_month = attr x ''month_number'', dp_year = yy, dp_periods = ps\<rparr>)
                  (those (map period_of_node (children c))))"

fun periods_isActive :: "int \<Rightarrow> period list \<Rightarrow> string list option" where
  "periods_isActive t [] = None"
| "periods_isActive t (p # ps) =
     (case period_isActive t p of Some l \<Rightarrow> Some l | None \<Rightarrow> periods_isActive t ps)"

definition day_isActive :: "int \<Rightarrow> day_program \<Rightarrow> string list option" where
  "day_isActive t d = periods_isActive t (dp_periods d)"

subsection \<open>Programs\<close>

record program =
  pr_days :: "(string, day_program) smap"
  pr_name :: string
  pr_year :: string
  pr_version :: string
  pr_doc :: bool
  pr_current :: string

definition program_new :: program where
  "program_new = \<lparr>pr_days = [], pr_name = '''', pr_year = '''', pr_version = '''', pr_doc = False, pr_current = ''''\<rparr>"

definition day_key :: "string \<Rightarrow> string \<Rightarrow> string \<Rightarrow> string \<Rightarrow> string" where
  "day_key y m d w = y @ ''_'' @ m @ ''_'' @ d @ ''_'' @ w"

definition node_key :: "string \<Rightarrow> xnode \<Rightarrow> string" where
  "node_key y x = day_key y (attr x ''month_number'') (attr x ''day_number'') (attr x ''weekday'')"

fun add_days :: "string \<Rightarrow> xnode list \<Rightarrow> (string, day_program) smap \<Rightarrow> (string, day_program) smap option" where
  "add_days y [] m = Some m"
| "add_days y (x # xs) m =
     (case day_of_node y x of None \<Rightarrow> None | Some d \<Rightarrow> add_days y xs (sm_put (node_key y x) d m))"

text \<open>\<^verbatim>\<open>Program::load\<close>. The member \<open>name\<close> is set from the local of the same name,
  which is still empty; a document without a node after its first one is a null dereference.\<close>

definition program_load ::
  "(string \<Rightarrow> xnode list option) \<Rightarrow> string \<Rightarrow> files \<Rightarrow> string \<Rightarrow> program \<Rightarrow> (bool \<times> program) option" where
  "program_load parse home fs fname p =
     (let p1 = p\<lparr>pr_current := fname, pr_name := ''''\<rparr>;
          path = home @ ''/programs/'' @ fname;
          p2 = (if pr_doc p1 then p1\<lparr>pr_days := [], pr_doc := False\<rparr> else p1)
      in if isfile_type path ''xml'' fs
         then case parse (the (fs path)) of
                None \<Rightarrow> Some (False, p2\<lparr>pr_doc := True\<rparr>)
              | Some (_ # prg # _) \<Rightarrow>
                  let p3 = p2\<lparr>pr_doc := True, pr_year := attr prg ''year'', pr_version := attr prg ''version''\<rparr>
                  in map_option (\<lambda>m. (True, p3\<lparr>pr_days := m\<rparr>)) (add_days (pr_year p3) (children prg) (pr_days p3))
              | Some _ \<Rightarrow> None
         else Some (False, p2))"

text \<open>\<^verbatim>\<open>Program::load()\<close>: the program named in \<^verbatim>\<open>CURRENTP\<close>; an empty file leaves the
  name empty.\<close>

definition program_load_current ::
  "(string \<Rightarrow> xnode list option) \<Rightarrow> string \<Rightarrow> files \<Rightarrow> program \<Rightarrow> (bool \<times> program) option" where
  "program_load_current parse home fs p =
     program_load parse home fs
       (case fs (home @ ''/CURRENTP'') of None \<Rightarrow> ''OFF'' | Some t \<Rightarrow> first_word t) p"

definition mkaccesskey :: "int list \<Rightarrow> string list" where
  "mkaccesskey t =
     (let y = int2a (t ! 5); m = int2a (t ! 4); d = int2a (t ! 3); w = int2a (t ! 6)
      in [day_key y m d w, day_key ''*'' m d w, day_key ''*'' ''*'' ''*'' w, day_key ''*'' m ''*'' ''*'',
          day_key ''*'' ''*'' ''*'' ''*''])"

fun getDay :: "string list \<Rightarrow> (string, day_program) smap \<Rightarrow> day_program option" where
  "getDay [] m = None"
| "getDay (k # ks) m = (case sm_find m k of Some d \<Rightarrow> Some d | None \<Rightarrow> getDay ks m)"

definition program_isActive :: "tm \<Rightarrow> program \<Rightarrow> string list option" where
  "program_isActive now p =
     (let t = CurrentTime now
      in case getDay (mkaccesskey t) (pr_days p) of None \<Rightarrow> None | Some d \<Rightarrow> day_isActive (daysecond t) d)"

definition isalarmon :: "tm \<Rightarrow> program \<Rightarrow> string" where
  "isalarmon now p = (case program_isActive now p of None \<Rightarrow> ''NO'' | Some l \<Rightarrow> if l = [] then ''NO'' else ''YES'')"

definition swap_in :: "(string \<Rightarrow> bool) \<Rightarrow> nat \<Rightarrow> string list \<Rightarrow> string list \<times> bool" where
  "swap_in sel k pl =
     fold (\<lambda>i (l, flag). if sel (l ! i) then ((l[k := l ! i])[i := l ! k], True) else (l, flag))
       [0..<length pl] (pl, False)"

definition plistSort :: "string list \<Rightarrow> string list" where
  "plistSort pl =
     (let (l1, f1) = swap_in (\<lambda>s. s \<in> {''ON'', ''on'', ''On''}) 0 pl; k1 = (if f1 then 1 else 0);
          (l2, f2) = swap_in (\<lambda>s. s \<in> {''OFF'', ''off'', ''Off''}) k1 l1; k2 = (if f2 then k1 + 1 else k1);
          (l3, f3) = swap_in (\<lambda>s. s \<in> {''DEFAULT'', ''default'', ''Default''}) k2 l2
      in l3)"

definition mkxmlplist :: "program \<Rightarrow> string list \<Rightarrow> string list \<times> string" where
  "mkxmlplist p pl =
     (let l = plistSort pl
      in (l, concat (map (\<lambda>n. ''<program><name>'' @ n @ ''</name><status>''
               @ (if n = pr_current p then ''1'' else ''0'') @ ''</status></program>'' @ newline) l)))"

definition getProgramsList :: "directory \<Rightarrow> program \<Rightarrow> (string, string) smap \<Rightarrow> (string, string) smap" where
  "getProgramsList d p l =
     fold (\<lambda>n. sm_insert n (if n = pr_current p then ''ON'' else ''OFF'')) (getlistof d '''') l"

text \<open>\<^verbatim>\<open>Program::readattr\<close> on the text of a file: the tag after the first one. At the end of the
  file the last character is appended once more, because the failed read leaves it in place.\<close>

definition second_tag :: "string \<Rightarrow> string" where
  "second_tag t =
     (let r = tl (dropWhile (\<lambda>c. c \<noteq> CHR ''>'') t); w = filter (\<lambda>c. c \<noteq> CHR 0x00)
      in if CHR ''>'' \<in> set r then w (takeWhile (\<lambda>c. c \<noteq> CHR ''>'') r)
         else if r = [] then [] else w (r @ [last r]))"

definition readattr :: "string \<Rightarrow> string \<Rightarrow> string" where
  "readattr t name =
     (if CHR ''>'' \<notin> set t then ''*''
      else let word = second_tag t
           in case str_find name word of
                None \<Rightarrow> ''*''
              | Some i \<Rightarrow> let r = dropWhile (\<lambda>c. c \<noteq> CHR 0x22) (drop i word) in if r = [] then ''*'' else r)"

text \<open>A name whose file cannot be opened makes \<^verbatim>\<open>readattr\<close> loop for ever: \<open>None\<close>.\<close>

definition getProgramsVersions :: "directory \<Rightarrow> files \<Rightarrow> (string, string) smap \<Rightarrow> (string, string) smap option" where
  "getProgramsVersions d fs l =
     fold (\<lambda>n r. case r of
         None \<Rightarrow> None
       | Some m \<Rightarrow> (case fs (''./programs/'' @ n) of
            None \<Rightarrow> None
          | Some t \<Rightarrow> map_option (\<lambda>v. sm_insert n v m) (strReplaceAll (readattr t ''version'') quote '''')))
       (getlistof d '''') (Some l)"

subsection \<open>The program engine\<close>

record program_engine =
  pg_program :: program
  previous_program :: string
  pg_active :: "string list"
  pg_mod :: bool
  pg_files :: files

definition is_off :: "string \<Rightarrow> bool" where
  "is_off s \<longleftrightarrow> s = ''OFF'' \<or> s = ''off'' \<or> s = ''Off''"

definition program_text :: "string \<Rightarrow> string \<Rightarrow> string" where
  "program_text ats alarms = ''<?xml version='' @ quote @ ''1.0'' @ quote @ '' ?>'' @ newline @ ''<programs'' @ ats
     @ '' version='' @ quote @ ''0'' @ quote @ alarms @ newline"

definition install_file :: "string \<Rightarrow> string \<Rightarrow> files \<Rightarrow> files" where
  "install_file path text fs = (if isFile path fs then fs else fs(path := Some text))"

definition name_attr :: "string \<Rightarrow> string \<Rightarrow> string" where
  "name_attr gap n = gap @ ''name='' @ quote @ n @ quote"

definition period_tag :: string where
  "period_tag = ''<P0 from='' @ quote @ ''00:00:00'' @ quote @ '' to='' @ quote @ ''23:59:00'' @ quote @ ''>''"

definition all_tail :: string where
  "all_tail = ''><day><periods>'' @ period_tag @ ''<alarms><alarm name='' @ quote @ ''ALL'' @ quote
     @ '' /></alarms></P0></periods></day></programs>''"

definition off_tail :: string where
  "off_tail = ''> <day> <periods> '' @ period_tag @ '' <alarms /> </P0> </periods> </day> </programs>''"

definition program_install :: "string \<Rightarrow> string \<Rightarrow> files \<Rightarrow> files" where
  "program_install home prg fs =
     (let dir = home @ ''/programs'';
          fs1 = install_file (dir @ ''/OFF'') (program_text (name_attr '' '' ''OFF'') off_tail) fs;
          fs2 = install_file (dir @ ''/MANUAL'') (program_text (name_attr '' '' ''MANUAL'') all_tail) fs1;
          fs3 = install_file (dir @ ''/ON'') (program_text (name_attr ''  '' ''ON'') all_tail) fs2;
          fs4 = install_file (dir @ ''/AUTO'') (program_text (name_attr ''  '' ''AUTO'') all_tail) fs3
      in if isFile (home @ ''/CURRENTP'') fs4 then fs4
         else saveFile (home @ ''/PREVIOUSP'') ''NULL''
                (saveFile (home @ ''/CURRENTP'') (if prg = '''' then ''OFF'' else prg) fs4))"

definition program_engine_new ::
  "(string \<Rightarrow> xnode list option) \<Rightarrow> string \<Rightarrow> string \<Rightarrow> files \<Rightarrow> program_engine option" where
  "program_engine_new parse home startprg fs =
     (let fs' = program_install home startprg fs
      in map_option (\<lambda>(b, p). \<lparr>pg_program = p, previous_program = '''', pg_active = [], pg_mod = False, pg_files = fs'\<rparr>)
           (program_load_current parse home fs' program_new))"

text \<open>The program a switch turns back on.\<close>

definition wake_up :: "string \<Rightarrow> files \<Rightarrow> string" where
  "wake_up swapped fs =
     (let s = (if isFile swapped fs then readFile swapped fs else '''')
      in if s \<noteq> '''' \<and> \<not> is_off s then s else ''MANUAL'')"

definition make_current :: "string \<Rightarrow> string \<Rightarrow> files \<Rightarrow> files" where
  "make_current home prog fs =
     deleteFile (home @ ''/SWAPPEDOUT'') (saveFile (home @ ''/CURRENTP'') prog
       (moveFile (home @ ''/CURRENTP'') (home @ ''/PREVIOUSP'') fs))"

definition install_program ::
  "(string \<Rightarrow> xnode list option) \<Rightarrow> string \<Rightarrow> string \<Rightarrow> files \<Rightarrow> program_engine \<Rightarrow> (bool \<times> program_engine) option" where
  "install_program parse home prog fs' e =
     map_option (\<lambda>(b, p). (True, e\<lparr>pg_program := p, pg_files := fs'\<rparr>)) (program_load parse home fs' prog (pg_program e))"

definition setprogram ::
  "(string \<Rightarrow> xnode list option) \<Rightarrow> string \<Rightarrow> directory \<Rightarrow> mmessage \<Rightarrow> program_engine \<Rightarrow> (bool \<times> program_engine) option" where
  "setprogram parse home progdir msg e =
     (let prog = (if m_getString msg ''program'' = '''' then m_getString msg ''value'' else m_getString msg ''program'');
          fs = pg_files e; cur = home @ ''/CURRENTP''; swapped = home @ ''/SWAPPEDOUT''; act = readFile cur fs
      in if prog = ''_SWITCH'' \<and> \<not> is_off act
         then install_program parse home ''OFF''
                (saveFile swapped act (saveFile cur ''OFF'' (moveFile cur (home @ ''/PREVIOUSP'') fs))) e
         else if prog = ''_SWITCH'' \<or> prog = ''_ON'' \<and> is_off act
         then install_program parse home (wake_up swapped fs) (make_current home (wake_up swapped fs) fs) e
         else let (n, pl) = fileList progdir
              in if prog \<noteq> '''' \<and> n > 0 \<and> prog \<in> set pl
                 then map_option (\<lambda>(b, p). (True, e\<lparr>pg_program := p, pg_files := make_current home prog fs\<rparr>))
                        (program_load parse home fs prog (pg_program e))
                 else Some (False, e))"

definition status_message :: "mmessage \<Rightarrow> string \<Rightarrow> string list \<Rightarrow> double \<Rightarrow> mmessage" where
  "status_message m cur al now =
     m_add_double (m_add (snd (m_add_list (m_add (m_add m ''program'' cur) ''status'' cur) ''active'' al))
       ''program_active'' (if cur \<noteq> ''OFF'' \<and> al \<noteq> [] then ''true'' else ''false'')) ''time'' now"

definition program_notify ::
  "bool \<Rightarrow> tm \<Rightarrow> double \<Rightarrow> program_engine \<Rightarrow> bool \<times> program_engine \<times> effect list" where
  "program_notify change now time e =
     (let p = pg_program e; cur = pr_current p; al = pg_active e; tal = program_isActive now p;
          m0 = m_new ''program'' ''prgstatus'';
          m1 = (if change then m_add m0 ''program'' cur else m0);
          m2 = (if change \<and> is_off cur then m_add m1 ''status'' ''OFF'' else m1);
          (al', has_changed) =
            (if change \<and> is_off cur then ([], True)
             else if change \<and> previous_program e \<noteq> cur
             then ((case tal of Some l \<Rightarrow> l | None \<Rightarrow> []), True)
             else if tal = None \<and> length al > 0 then ([], True)
             else if tal \<noteq> None \<and> the tal \<noteq> al then (the tal, True)
             else (al, False))
      in if has_changed
         then let m = status_message m2 cur al' time
              in (True, e\<lparr>pg_active := al', previous_program := cur\<rparr>,
                  [Notify m, Publish ''prgstatus'' (''program='' @ quote @ cur @ quote @ '' active='' @ quote
                               @ m_getString m ''program_active'' @ quote)])
         else (False, e\<lparr>pg_active := al'\<rparr>, []))"

definition pages :: "string \<Rightarrow> mmessage \<Rightarrow> effect list" where
  "pages url m = (let m1 = m_add m ''language'' ''xml'' in
     [Page (url @ ''.xml'') m1, Page url (m_add m1 ''language'' ''html'')])"

definition makeStatusPage :: "directory \<Rightarrow> program \<Rightarrow> string list \<Rightarrow> effect list" where
  "makeStatusPage d p al =
     pages ''/programstatus''
       (snd (m_add_list (snd (m_add_list (m_add m_default ''active_program'' (pr_current p)) ''active_actions'' al))
         ''available_programs'' (map fst (getProgramsList d p []))))"

definition makeVersionPage :: "directory \<Rightarrow> files \<Rightarrow> (effect list) option" where
  "makeVersionPage d fs =
     map_option (\<lambda>l. pages ''/programversions'' (fold (\<lambda>(n, v) m. m_add m n v) l m_default)) (getProgramsVersions d fs [])"

definition engine_pages :: "directory \<Rightarrow> program_engine \<Rightarrow> (effect list) option" where
  "engine_pages cwd e =
     map_option (\<lambda>v. makeStatusPage cwd (pg_program e) (pg_active e) @ v) (makeVersionPage cwd (pg_files e))"

definition pg_start :: "directory \<Rightarrow> tm \<Rightarrow> double \<Rightarrow> program_engine \<Rightarrow> (program_engine \<times> effect list) option" where
  "pg_start cwd now time e =
     (let (b, e1, es) = program_notify True now time e in map_option (\<lambda>v. (e1, es @ v)) (engine_pages cwd e1))"

text \<open>One message. The pages are refreshed only on the trigger \<^verbatim>\<open>checkcycle\<close>: the statement that
  follows it was commented out, and the test of the flag became its body.\<close>

definition pg_step ::
  "(string \<Rightarrow> xnode list option) \<Rightarrow> string \<Rightarrow> directory \<Rightarrow> directory \<Rightarrow> tm \<Rightarrow> double \<Rightarrow> mmessage \<Rightarrow>
   program_engine \<Rightarrow> (program_engine \<times> effect list) option" where
  "pg_step parse home progdir cwd now time msg e =
     (if mtype msg = ''trigger'' \<and> msubtype msg = ''prgupdate''
      then let (b, e1, es) = program_notify False now time e in Some (e1\<lparr>pg_mod := b\<rparr>, es)
      else if mtype msg = ''cmd'' \<and> msubtype msg = ''setprogram''
      then case setprogram parse home progdir msg e of
             None \<Rightarrow> None
           | Some (r, e1) \<Rightarrow>
               let (b, e2, es) = program_notify True now time e1
               in Some (e2\<lparr>pg_mod := b\<rparr>,
                    (if m_getString msg ''tag'' \<noteq> ''''
                     then [RpcNotify (m_getString msg ''tag'') ''value'' (''value='' @ pr_current (pg_program e1))] else []) @ es)
      else if mtype msg = ''trigger'' \<and> msubtype msg = ''checkcycle'' \<and> pg_mod e
      then map_option (\<lambda>v. (e, v)) (engine_pages cwd e)
      else Some (e, []))"

subsection \<open>The calendar as the document states it\<close>

text \<open>The node of the day: for the most specific key that some node carries, the last such node.\<close>

fun day_for :: "string \<Rightarrow> xnode list \<Rightarrow> string list \<Rightarrow> xnode option" where
  "day_for y nodes [] = None"
| "day_for y nodes (k # ks) =
     (case find (\<lambda>x. node_key y x = k) (rev nodes) of Some x \<Rightarrow> Some x | None \<Rightarrow> day_for y nodes ks)"

definition node_alarms :: "xnode \<Rightarrow> string list" where
  "node_alarms z = (case first_child z of None \<Rightarrow> [] | Some c \<Rightarrow> map (\<lambda>e. attr e ''name'') (children c))"

definition node_covers :: "int \<Rightarrow> xnode \<Rightarrow> bool" where
  "node_covers t z \<longleftrightarrow>
     string2second (attr z ''from'') \<le> t \<and> t \<le> string2second (attr z ''to'') \<and> node_alarms z \<noteq> []"

definition calendar_spec :: "string \<Rightarrow> xnode list \<Rightarrow> tm \<Rightarrow> string list option" where
  "calendar_spec y nodes now =
     (let t = CurrentTime now
      in case day_for y nodes (mkaccesskey t) of
           None \<Rightarrow> None
         | Some x \<Rightarrow> map_option node_alarms
                      (find (node_covers (daysecond t)) (case first_child x of None \<Rightarrow> [] | Some c \<Rightarrow> children c)))"

definition program_wf :: "program \<Rightarrow> bool" where
  "program_wf p \<longleftrightarrow> (\<not> pr_doc p \<longrightarrow> pr_days p = [])"

lemma program_load_wf [hat_inv]:
  "program_wf p \<Longrightarrow> program_load parse home fs fname p = Some (b, p') \<Longrightarrow> program_wf p'"
  by (auto simp: program_wf_def program_load_def Let_def split: if_splits option.splits list.splits)

lemma add_days_find:
  "add_days y xs m = Some m' \<Longrightarrow>
     sm_find m' k = (case find (\<lambda>x. node_key y x = k) (rev xs) of Some x \<Rightarrow> day_of_node y x | None \<Rightarrow> sm_find m k)
   \<and> (\<forall>x \<in> set xs. day_of_node y x \<noteq> None)"
proof (induction xs arbitrary: m)
  case Nil
  then show ?case by simp
next
  case (Cons x xs)
  then obtain d where d: "day_of_node y x = Some d" "add_days y xs (sm_put (node_key y x) d m) = Some m'"
    by (auto split: option.splits)
  have f: "find P (ys @ [x]) = (case find P ys of Some z \<Rightarrow> Some z | None \<Rightarrow> if P x then Some x else None)" for P ys
    by (induction ys) auto
  from Cons.IH [OF d(2)] d(1) show ?case by (auto simp: f split: option.splits)
qed

lemma periods_of_nodes:
  "those (map period_of_node zs) = Some ps \<Longrightarrow>
   periods_isActive t ps = map_option node_alarms (find (node_covers t) zs)"
proof (induction zs arbitrary: ps)
  case Nil
  then show ?case by simp
next
  case (Cons z zs)
  then obtain p qs where p: "period_of_node z = Some p" "those (map period_of_node zs) = Some qs" "ps = p # qs"
    by (auto split: option.splits)
  then have "period_isActive t p = (if node_covers t z then Some (node_alarms z) else None)"
    by (auto simp: period_of_node_def period_isActive_def node_covers_def node_alarms_def split: option.splits)
  with Cons.IH [OF p(2)] p(3) show ?case by simp
qed

lemma day_of_node_active:
  "day_of_node y x = Some d \<Longrightarrow> day_isActive t d
     = map_option node_alarms (find (node_covers t) (case first_child x of None \<Rightarrow> [] | Some c \<Rightarrow> children c))"
  by (auto simp: day_of_node_def day_isActive_def periods_of_nodes split: option.splits)

lemma getDay_for:
  "add_days y xs [] = Some m \<Longrightarrow> getDay ks m = (case day_for y xs ks of None \<Rightarrow> None | Some x \<Rightarrow> day_of_node y x)"
proof (induction ks)
  case Nil
  then show ?case by simp
next
  case (Cons k ks)
  note f = add_days_find [OF Cons.prems, of k]
  show ?case
  proof (cases "find (\<lambda>x. node_key y x = k) (rev xs)")
    case None
    with f Cons show ?thesis by simp
  next
    case (Some x)
    then have "x \<in> set xs" by (metis find_Some_iff nth_mem set_rev)
    with f Some show ?thesis by auto
  qed
qed

lemma day_for_in: "day_for y xs ks = Some x \<Longrightarrow> x \<in> set xs"
proof (induction ks)
  case (Cons k ks)
  then show ?case
    by (auto split: option.splits) (metis find_Some_iff nth_mem set_rev)
qed simp


definition alarm_document :: "xnode list" where
  "alarm_document =
     [XDeclaration, XElement ''programs'' [(''name'', ''ON''), (''version'', ''0'')]
        [XElement ''day'' [] [XElement ''periods'' []
           [XElement ''P0'' [(''from'', ''00:00:00''), (''to'', ''23:59:00'')]
              [XElement ''alarms'' [] [XElement ''alarm'' [(''name'', ''ALL'')] []]]]]]]"

definition noon :: tm where
  "noon = \<lparr>tm_sec = 0, tm_min = 0, tm_hour = 12, tm_mday = 1, tm_mon = 4, tm_year = 124, tm_wday = 3, tm_yday = 121,
           tm_isdst = 0\<rparr>"


subsection \<open>Days that are never found\<close>

lemma split_at_char:
  "c \<notin> set a \<Longrightarrow> c \<notin> set a' \<Longrightarrow> a @ c # b = a' @ c # b' \<longleftrightarrow> a = a' \<and> b = b'"
proof (induction a arbitrary: a')
  case Nil
  then show ?case by (cases a') auto
next
  case (Cons x a)
  then show ?case by (cases a') auto
qed

lemma day_key_inj:
  assumes "CHR ''_'' \<notin> set y \<union> set m \<union> set d" and "CHR ''_'' \<notin> set y' \<union> set m' \<union> set d'"
  shows "day_key y m d w = day_key y' m' d' w' \<longleftrightarrow> y = y' \<and> m = m' \<and> d = d' \<and> w = w'"
  using assms by (simp add: day_key_def split_at_char)

lemma int2a_plain: "CHR ''_'' \<notin> set (int2a n)" "int2a n \<noteq> ''*''"
proof -
  have d: "\<not> is_digit (CHR ''_'')" "\<not> is_digit (CHR ''*'')" by (simp_all add: is_digit_def)
  with nat2a_digits show "CHR ''_'' \<notin> set (int2a n)" by (auto simp: int2a_def)
  have "CHR ''*'' \<notin> set (int2a n)" using d nat2a_digits by (auto simp: int2a_def)
  then show "int2a n \<noteq> ''*''" by auto
qed

text \<open>An entry for a day of the month that leaves the day of the week open is never used: it
  can be added to any program without changing the alarms of any moment.\<close>

lemma fixed_day_unreachable:
  assumes "CHR ''_'' \<notin> set y \<union> set m \<union> set d" and "d \<noteq> ''*''"
  shows "program_isActive now (p\<lparr>pr_days := sm_put (day_key y m d ''*'') dp (pr_days p)\<rparr>) = program_isActive now p"
proof -
  have "day_key y m d ''*'' \<notin> set (mkaccesskey t)" for t
    using assms int2a_plain by (simp add: mkaccesskey_def Let_def day_key_inj) metis
  moreover have "k \<notin> set ks \<Longrightarrow> getDay ks (sm_put k dp ms) = getDay ks ms" for k ks ms
    by (induction ks) (auto split: option.splits)
  ultimately show ?thesis by (simp add: program_isActive_def Let_def)
qed

subsection \<open>Switching off and on again\<close>

lemma wake_up_saved:
  "one_word a \<Longrightarrow> \<not> is_off a \<Longrightarrow> wake_up s (saveFile s a fs) = a"
  by (simp add: wake_up_def isFile_def readFile_saveFile one_word_def)

lemma install_program_files:
  "install_program parse home prog fs' e = Some (b, e') \<Longrightarrow> pg_files e' = fs' \<and> pr_current (pg_program e') = prog"
  by (auto simp: install_program_def program_load_def Let_def split: if_splits option.splits list.splits)

text \<open>The switch is an involution. From a program that is not off, the first
  \<^verbatim>\<open>_SWITCH\<close> makes the program \<^verbatim>\<open>OFF\<close> current and remembers the program it replaced,
  the second one makes that program current again, in memory and on disk, and forgets the note.\<close>

lemma switch_restores_program:
  assumes "one_word a" and "\<not> is_off a" and "readFile (home @ ''/CURRENTP'') (pg_files e) = a"
    and "m_getString msg ''program'' = ''_SWITCH''"
    and "setprogram parse home dir msg e = Some (b1, e1)" and "setprogram parse home dir msg e1 = Some (b2, e2)"
  shows "pr_current (pg_program e1) = ''OFF'' \<and> readFile (home @ ''/CURRENTP'') (pg_files e1) = ''OFF''
    \<and> pr_current (pg_program e2) = a \<and> readFile (home @ ''/CURRENTP'') (pg_files e2) = a
    \<and> readFile (home @ ''/PREVIOUSP'') (pg_files e2) = ''OFF'' \<and> \<not> isFile (home @ ''/SWAPPEDOUT'') (pg_files e2)"
proof -
  let ?cur = "home @ ''/CURRENTP''" and ?sw = "home @ ''/SWAPPEDOUT''" and ?pr = "home @ ''/PREVIOUSP''"
  let ?fs1 = "saveFile ?sw a (saveFile ?cur ''OFF'' (moveFile ?cur ?pr (pg_files e)))"
  have off: "one_word ''OFF''" "is_off ''OFF''" by (simp_all add: one_word_def is_off_def is_space_def)
  have "install_program parse home ''OFF'' ?fs1 e = Some (b1, e1)"
    using assms(2-5) by (simp add: setprogram_def Let_def)
  from install_program_files [OF this] have e1: "pg_files e1 = ?fs1" "pr_current (pg_program e1) = ''OFF''" by simp_all
  have r1: "readFile ?cur ?fs1 = ''OFF''"
    using readFile_saveFile [OF off(1)] readFile_other [of ?fs1 ?cur "saveFile ?cur ''OFF'' (moveFile ?cur ?pr (pg_files e))"]
    by simp
  have w: "wake_up ?sw ?fs1 = a" by (rule wake_up_saved [OF assms(1,2)])
  have "install_program parse home a (make_current home a ?fs1) e1 = Some (b2, e2)"
    using assms(4,6) off(2) by (simp add: setprogram_def Let_def e1(1) r1 w)
  from install_program_files [OF this]
  have e2: "pg_files e2 = make_current home a ?fs1" "pr_current (pg_program e2) = a" by simp_all
  have "readFile ?cur (pg_files e2) = a"
    using readFile_saveFile [OF assms(1)] readFile_other [of "pg_files e2" ?cur "saveFile ?cur a (moveFile ?cur ?pr ?fs1)"]
    by (simp add: e2(1) make_current_def)
  moreover have "readFile ?pr (pg_files e2) = readFile ?cur ?fs1"
    by (simp add: readFile_def e2(1) make_current_def moveFile_def isFile_def)
  moreover have "\<not> isFile ?sw (pg_files e2)" by (simp add: isFile_def e2(1) make_current_def)
  ultimately show ?thesis using e1 e2 r1 by simp
qed

definition home_files :: files where
  "home_files = (\<lambda>_. None)(''/h/CURRENTP'' := Some (''AUTO'' @ newline))"

definition home_engine :: program_engine where
  "home_engine = \<lparr>pg_program = program_new, previous_program = '''', pg_active = [], pg_mod = False, pg_files = home_files\<rparr>"

subsection \<open>What the rule engine knows of the program\<close>

lemma status_message_fields:
  assumes "m_texts m" and "sm_find (mfields m) ''active'' = None"
  shows "mtype (status_message m cur al t) = mtype m" "msubtype (status_message m cur al t) = msubtype m"
    "m_getString (status_message m cur al t) ''status'' = cur" "m_getList (status_message m cur al t) ''active'' = al"
  using assms by (simp_all add: status_message_def m_add_double_def m_getList_add_list_fresh)

text \<open>A notification happens exactly when it reports, and the rule engine that handles it ends with
  the list of alarms the program engine keeps.\<close>

lemma program_notify_report:
  assumes "program_notify change now time e = (b, e', es)"
  shows "if b then \<exists>m. notified es = [m] \<and> re_active (fst (re_step u ui clk day m s)) = pg_active e'
                      \<and> alarm_on (fst (re_step u ui clk day m s)) = (pr_current (pg_program e) \<noteq> ''OFF'')
         else notified es = [] \<and> pg_active e' = pg_active e"
    and "pg_program e' = pg_program e \<and> pg_files e' = pg_files e"
    and "\<not> (change \<and> is_off (pr_current (pg_program e))) \<Longrightarrow>
           pg_active e' = (case program_isActive now (pg_program e) of None \<Rightarrow> [] | Some l \<Rightarrow> l)"
proof -
  let ?m0 = "m_new ''program'' ''prgstatus''"
  let ?cur = "pr_current (pg_program e)"
  let ?m1 = "if change then m_add ?m0 ''program'' ?cur else ?m0"
  let ?m2 = "if change \<and> is_off ?cur then m_add ?m1 ''status'' ''OFF'' else ?m1"
  have m2: "m_texts ?m2" "sm_find (mfields ?m2) ''active'' = None" "mtype ?m2 = ''program''" "msubtype ?m2 = ''prgstatus''"
    by (simp_all add: m_new_def) (simp_all flip: m_new_def)
  note f = status_message_fields [OF m2(1,2)]
  show "if b then \<exists>m. notified es = [m] \<and> re_active (fst (re_step u ui clk day m s)) = pg_active e'
                      \<and> alarm_on (fst (re_step u ui clk day m s)) = (?cur \<noteq> ''OFF'')
         else notified es = [] \<and> pg_active e' = pg_active e"
  proof (cases b)
    case True
    then have "notified es = [status_message ?m2 ?cur (pg_active e') time]"
      using assms by (auto simp: program_notify_def Let_def split: if_splits prod.splits)
    with True f m2(3,4) show ?thesis by (simp add: re_step_def Let_def)
  next
    case False
    with assms show ?thesis by (auto simp: program_notify_def Let_def split: if_splits prod.splits)
  qed
  show "pg_program e' = pg_program e \<and> pg_files e' = pg_files e"
    using assms by (auto simp: program_notify_def Let_def split: if_splits prod.splits)
  show "pg_active e' = (case program_isActive now (pg_program e) of None \<Rightarrow> [] | Some l \<Rightarrow> l)"
    if "\<not> (change \<and> is_off ?cur)"
    using assms that
    by (auto simp: program_notify_def Let_def split: if_splits prod.splits option.splits)
qed

fun pg_run ::
  "(string \<Rightarrow> xnode list option) \<Rightarrow> string \<Rightarrow> directory \<Rightarrow> directory \<Rightarrow> (tm \<times> double \<times> mmessage) list \<Rightarrow>
   program_engine \<Rightarrow> (program_engine \<times> effect list) option" where
  "pg_run parse home progdir cwd [] e = Some (e, [])"
| "pg_run parse home progdir cwd ((now, time, msg) # ms) e =
     (case pg_step parse home progdir cwd now time msg e of
        None \<Rightarrow> None
      | Some (e1, es) \<Rightarrow> map_option (\<lambda>(e2, fs). (e2, es @ fs)) (pg_run parse home progdir cwd ms e1))"

text \<open>The rule engine on a list of messages; \<open>clk\<close> gives the readings of its clock.\<close>

fun re_feed :: "double \<Rightarrow> int \<Rightarrow> (mmessage \<Rightarrow> double \<times> string) \<Rightarrow> mmessage list \<Rightarrow> rule_engine \<Rightarrow> rule_engine" where
  "re_feed u ui clk [] s = s"
| "re_feed u ui clk (m # ms) s = re_feed u ui clk ms (fst (re_step u ui (fst (clk m)) (snd (clk m)) m s))"

lemma re_feed_append: "re_feed u ui clk (xs @ ys) s = re_feed u ui clk ys (re_feed u ui clk xs s)"
  by (induction xs arbitrary: s) simp_all

lemma program_notify_feed:
  assumes "program_notify change now time e = (b, e', es)" and "re_active s = pg_active e"
  shows "re_active (re_feed u ui clk (notified es) s) = pg_active e'"
proof (cases b)
  case True
  then obtain m where m: "notified es = [m]"
    using program_notify_report(1) [OF assms(1), of u ui 0 "''''" s] by auto
  from True program_notify_report(1) [OF assms(1), of u ui "fst (clk m)" "snd (clk m)" s] show ?thesis
    by (auto simp: m)
next
  case False
  with program_notify_report(1) [OF assms(1)] assms(2) show ?thesis by simp
qed

lemma engine_pages_silent: "engine_pages cwd e = Some es \<Longrightarrow> notified es = []"
  by (auto simp: engine_pages_def makeStatusPage_def makeVersionPage_def pages_def Let_def)

lemma setprogram_active: "setprogram parse home dir msg e = Some (b, e') \<Longrightarrow> pg_active e' = pg_active e"
  by (auto simp: setprogram_def install_program_def Let_def split: if_splits prod.splits)

lemma pg_step_feed:
  assumes "pg_step parse home progdir cwd now time msg e = Some (e', es)" and "re_active s = pg_active e"
  shows "re_active (re_feed u ui clk (notified es) s) = pg_active e'"
proof -
  consider (update) "mtype msg = ''trigger''" "msubtype msg = ''prgupdate''"
    | (set) "mtype msg = ''cmd''" "msubtype msg = ''setprogram''"
    | (other) "\<not> (mtype msg = ''trigger'' \<and> msubtype msg = ''prgupdate'')"
        "\<not> (mtype msg = ''cmd'' \<and> msubtype msg = ''setprogram'')" by blast
  then show ?thesis
  proof cases
    case update
    obtain b e1 fs where n: "program_notify False now time e = (b, e1, fs)" by (metis prod_cases3)
    with assms(1) update have "e' = e1\<lparr>pg_mod := b\<rparr>" "es = fs" by (auto simp: pg_step_def)
    with program_notify_feed [OF n assms(2)] show ?thesis by simp
  next
    case set
    then obtain r e1 where p: "setprogram parse home progdir msg e = Some (r, e1)"
      using assms(1) by (auto simp: pg_step_def split: option.splits)
    obtain b e2 fs where n: "program_notify True now time e1 = (b, e2, fs)" by (metis prod_cases3)
    with assms(1) set p have "e' = e2\<lparr>pg_mod := b\<rparr>" "notified es = notified fs" by (auto simp: pg_step_def Let_def)
    with program_notify_feed [OF n, of s] setprogram_active [OF p] assms(2) show ?thesis by simp
  next
    case other
    with assms engine_pages_silent show ?thesis by (auto simp: pg_step_def split: if_splits)
  qed
qed

lemma pg_run_feed:
  "pg_run parse home progdir cwd ms e = Some (e', es) \<Longrightarrow> re_active s = pg_active e \<Longrightarrow>
   re_active (re_feed u ui clk (notified es) s) = pg_active e'"
proof (induction ms arbitrary: e es s)
  case Nil
  then show ?case by simp
next
  case (Cons m ms)
  obtain now time msg where m: "m = (now, time, msg)" by (cases m)
  obtain e1 es1 es2 where s: "pg_step parse home progdir cwd now time msg e = Some (e1, es1)"
    and r: "pg_run parse home progdir cwd ms e1 = Some (e', es2)" and es: "es = es1 @ es2"
    using Cons.prems(1) by (auto simp: m split: option.splits)
  from Cons.IH [OF r pg_step_feed [OF s Cons.prems(2)]] show ?case by (simp add: es re_feed_append)
qed



end
