(* ===== verification/Timed_Rule.thy ===== *)
theory Timed_Rule
  imports Engines
begin

text \<open>
  Rules that act at given times: \<^verbatim>\<open>timedrule.cpp\<close>, \<^verbatim>\<open>timedruleset.cpp\<close> and
  \<^verbatim>\<open>TimedRuleEngine.cpp\<close> of \<^verbatim>\<open>src/agents/Manager\<close>. \<open>now\<close> is the reading of
  \<^verbatim>\<open>hsrv::gettime\<close> and \<open>day\<close> the clock text of \<^verbatim>\<open>hsrv::getasciitimeday\<close>.
\<close>

record timed_rule =
  tr_params :: mparams
  tr_name :: string
  tr_alias :: string
  tr_status :: int
  enabling_condition :: name_list
  tr_behavior :: string
  tr_reftime :: int
  tr_c_time :: int
  tr_from :: int
  tr_to :: int
  tr_cycle :: int
  tr_nextcyclestart :: int
  tr_midnight :: int
  tr_active :: bool
  tr_exec :: bool

abbreviation tr_get :: "timed_rule \<Rightarrow> string \<Rightarrow> string" where
  "tr_get r n \<equiv> mp_get (tr_params r) n"

definition tr_setValidity :: "string \<Rightarrow> string \<Rightarrow> timed_rule \<Rightarrow> bool \<times> timed_rule \<times> saved" where
  "tr_setValidity asfrom asto r =
     (let tfrom = string2second asfrom; tto = string2second asto; mn = string2second ''24:00:00'';
          r1 = r\<lparr>tr_midnight := mn\<rparr>
      in if tfrom \<ge> 0 \<and> tfrom < mn \<and> tto > 0 \<and> tto \<le> mn
         then let p = mp_add (mp_add (tr_params r1) ''from'' asfrom) ''to'' asto
              in (True, r1\<lparr>tr_from := tfrom, tr_to := tto, tr_params := p\<rparr>, [mp_save p])
         else (False, r1, []))"

definition tr_setValidityTime :: "timed_rule \<Rightarrow> bool \<times> timed_rule \<times> saved" where
  "tr_setValidityTime r =
     (let asfrom = tr_get r ''from''; asto = tr_get r ''to''
      in tr_setValidity (if asfrom = '''' \<or> asfrom = ''-INF'' then ''00:00:00'' else asfrom)
           (if asto = '''' \<or> asto = ''INF'' then ''24:00:00'' else asto) r)"

text \<open>The constructor on the raw object \<open>r0\<close>: a rejected window leaves \<open>from\<close> and \<open>to\<close>
  as they were.\<close>

definition tr_new :: "int \<Rightarrow> timed_rule \<Rightarrow> double \<Rightarrow> string \<Rightarrow> mparams \<Rightarrow> string \<Rightarrow> timed_rule \<times> saved" where
  "tr_new u r0 now day p nm =
     (let r1 = r0\<lparr>tr_params := p, tr_name := (if mp_get p ''name'' = '''' then nm else mp_get p ''name''),
                  tr_alias := (if mp_get p ''alias'' = '''' then mp_get p ''set'' @ ''_'' @ mp_get p ''reset''
                               else mp_get p ''alias''), tr_behavior := mp_get p ''mode''\<rparr>;
          (ok, r2, s) = tr_setValidityTime r1;
          cyc = tr_get r2 ''cycle''
      in (r2\<lparr>tr_cycle := (if cyc = ''INF'' \<or> cyc = '''' then -1 else a2int u cyc),
             tr_status := (if tr_get r2 ''status'' = ''ON'' then 1 else 0), tr_c_time := string2second day,
             tr_reftime := trunc now, tr_active := False, tr_nextcyclestart := -1, tr_exec := False,
             enabling_condition := fst (nl_init [] (tr_get r2 ''enabling_condition'') (CHR ''&''))\<rparr>, s))"

definition isInRange :: "int \<Rightarrow> int \<Rightarrow> int \<Rightarrow> bool" where
  "isInRange t fr to = (if fr < t \<and> to < 0 then True else fr \<le> t \<and> t \<le> to)"

definition tr_cycleUpdate :: "double \<Rightarrow> string \<Rightarrow> timed_rule \<Rightarrow> timed_rule" where
  "tr_cycleUpdate now day r0 =
     (let r = r0\<lparr>tr_reftime := trunc now\<rparr>; timed = tr_behavior r \<in> {''timed'', ''program_timed''};
          cyclic = tr_behavior r \<in> {''cyclic'', ''program_cyclic''}
      in if timed \<and> tr_cycle r > 0 \<and> tr_nextcyclestart r < 0
         then r\<lparr>tr_nextcyclestart := tr_reftime r + tr_cycle r, tr_exec := True\<rparr>
         else if (timed \<or> cyclic) \<and> tr_cycle r > 0 \<and> tr_nextcyclestart r \<ge> 0 \<and> tr_reftime r > tr_nextcyclestart r
         then r\<lparr>tr_nextcyclestart := tr_nextcyclestart r + tr_cycle r, tr_exec := True\<rparr>
         else if cyclic \<and> tr_cycle r > 0 \<and> tr_nextcyclestart r < 0
         then r\<lparr>tr_nextcyclestart := catch_up (tr_cycle r) (tr_reftime r) (tr_reftime r - string2second day),
                tr_exec := False\<rparr>
         else r)"

definition tr_actions :: "bool \<Rightarrow> timed_rule \<Rightarrow> mmessage list" where
  "tr_actions mode r =
     map (\<lambda>a. m_add (m_add (m_add (m_add (m_new ''rlcmd'' ''todo'') ''action'' a) ''source'' ''timer'') ''value'' ''ON'')
                ''comment'' (tr_get r ''comment''))
       (filter (\<lambda>a. a \<notin> {''none'', ''NONE'', ''None''})
         (fst (nl_init [] (tr_get r (if mode then ''set'' else ''reset'')) (CHR ''+''))))"

text \<open>One flag per name of the list, set by the first position of an active condition's name.\<close>

definition checkCondition :: "boolean_condition list option \<Rightarrow> timed_rule \<Rightarrow> bool" where
  "checkCondition cnd r =
     (case cnd of
        None \<Rightarrow> True
      | Some cs \<Rightarrow>
          let ks = map (\<lambda>c. nl_find (enabling_condition r) (mp_get (bc_params c) ''name'')) (filter bc_isActive cs)
          in \<forall>i < length (enabling_condition r). int i \<in> set ks)"

definition checkProgramName :: "string \<Rightarrow> timed_rule \<Rightarrow> bool" where
  "checkProgramName prog r \<longleftrightarrow> tr_get r ''active_for_program'' \<in> {'''', ''ALL'', prog}"

text \<open>What keeps the action of a timed rule on.\<close>

definition timed_window :: "string \<Rightarrow> bool \<Rightarrow> boolean_condition list option \<Rightarrow> timed_rule \<Rightarrow> bool" where
  "timed_window prog prgon cnd r \<longleftrightarrow>
     (tr_behavior r = ''program_timed'' \<longrightarrow> checkProgramName prog r \<and> prgon)
     \<and> isInRange (tr_c_time r) (tr_from r) (tr_to r) \<and> checkCondition cnd r"

definition tr_timeUpdate ::
  "double \<Rightarrow> string \<Rightarrow> string \<Rightarrow> bool \<Rightarrow> boolean_condition list option \<Rightarrow> mmessage list \<Rightarrow> timed_rule \<Rightarrow>
   bool \<times> timed_rule \<times> mmessage list" where
  "tr_timeUpdate now day prog prgon cnd res r0 =
     (let r1 = tr_cycleUpdate now day (r0\<lparr>tr_reftime := string2second day, tr_c_time := string2second day, tr_exec := False\<rparr>);
          r = r1\<lparr>tr_status := (if tr_get r1 ''status'' = ''ON'' then 1 else 0)\<rparr>
      in if tr_status r = 0
         then (False, r\<lparr>tr_active := False\<rparr>, res @ (if tr_active r then tr_actions False r else []))
         else if tr_behavior r = ''timed'' \<or> tr_behavior r = ''program_timed''
         then if timed_window prog prgon cnd r
              then if tr_exec r \<or> \<not> tr_active r then (True, r\<lparr>tr_active := True\<rparr>, res @ tr_actions True r)
                   else (True, r, res)
              else if tr_active r then (True, r\<lparr>tr_active := False\<rparr>, res @ tr_actions False r)
              else (True, r, res)
         else if tr_behavior r = ''cyclic'' \<and> checkCondition cnd r \<and> tr_exec r
                 \<and> isInRange (tr_c_time r) (tr_from r) (tr_to r)
         then (True, r, res @ tr_actions True r)
         else if tr_behavior r = ''program_cyclic'' \<and> checkCondition cnd r \<and> checkProgramName prog r \<and> tr_exec r
                 \<and> prgon \<and> isInRange (tr_c_time r) (tr_from r) (tr_to r)
         then (True, r, res @ tr_actions True r)
         else (False, r, res))"

definition tr_setStatus :: "string \<Rightarrow> timed_rule \<Rightarrow> timed_rule \<times> saved" where
  "tr_setStatus v r =
     (let p = mp_add (tr_params r) ''status'' (if v = ''ON'' then v else ''OFF'')
      in (r\<lparr>tr_params := p\<rparr>, [mp_save p]))"

definition tr_setActionList :: "string \<Rightarrow> string \<Rightarrow> timed_rule \<Rightarrow> timed_rule \<times> saved" where
  "tr_setActionList sl rl r =
     (let p1 = (if sl \<noteq> '''' then mp_add (tr_params r) ''set'' sl else tr_params r);
          p2 = (if rl \<noteq> '''' then mp_add p1 ''reset'' rl else p1)
      in (r\<lparr>tr_params := p2\<rparr>, [mp_save p2]))"

subsection \<open>Sets of timed rules\<close>

fun trs_update ::
  "double \<Rightarrow> string \<Rightarrow> string \<Rightarrow> bool \<Rightarrow> boolean_condition list option \<Rightarrow> mmessage list \<Rightarrow> timed_rule list \<Rightarrow>
   timed_rule list \<times> mmessage list" where
  "trs_update now day prog prgon cnd res [] = ([], res)"
| "trs_update now day prog prgon cnd res (r # rs) =
     (let (b, r', res1) = tr_timeUpdate now day prog prgon cnd res r;
          (rs', res2) = trs_update now day prog prgon cnd res1 rs
      in (r' # rs', res2))"

text \<open>The first rule of the set that \<open>sel\<close> accepts is changed by \<open>f\<close>.\<close>

fun trs_first :: "(timed_rule \<Rightarrow> bool) \<Rightarrow> (timed_rule \<Rightarrow> bool \<times> timed_rule \<times> saved) \<Rightarrow> timed_rule list \<Rightarrow>
   bool \<times> timed_rule list \<times> saved" where
  "trs_first sel f [] = (False, [], [])"
| "trs_first sel f (r # rs) =
     (if sel r then let (b, r', s) = f r in (b, r' # rs, s)
      else let (b, rs', s) = trs_first sel f rs in (b, r # rs', s))"

definition named :: "string \<Rightarrow> timed_rule \<Rightarrow> bool" where
  "named n r \<longleftrightarrow> tr_name r = n \<or> tr_alias r = n"

definition trs_setStatus :: "string \<Rightarrow> string \<Rightarrow> timed_rule list \<Rightarrow> bool \<times> timed_rule list \<times> saved" where
  "trs_setStatus n v = trs_first (named n) (\<lambda>r. (True, tr_setStatus v r))"

definition trs_setValidity :: "string \<Rightarrow> string \<Rightarrow> string \<Rightarrow> timed_rule list \<Rightarrow> bool \<times> timed_rule list \<times> saved" where
  "trs_setValidity n fr to = trs_first (named n) (tr_setValidity fr to)"

definition trs_setActionList :: "string \<Rightarrow> string \<Rightarrow> string \<Rightarrow> timed_rule list \<Rightarrow> bool \<times> timed_rule list \<times> saved" where
  "trs_setActionList n sl rl = trs_first (\<lambda>r. tr_name r = n) (\<lambda>r. (True, tr_setActionList sl rl r))"

subsection \<open>The engine\<close>

record timed_engine =
  te_rules :: "timed_rule list"
  te_conditions :: "boolean_condition list option"
  te_program :: mmessage
  te_alarm_on :: bool
  te_active :: "string list"

definition makeTimedRulePage :: "timed_rule list \<Rightarrow> effect list" where
  "makeTimedRulePage rs =
     map (\<lambda>r. Publish (tr_name r)
            (''alias='' @ quote @ tr_alias r @ quote @ '' status='' @ quote @ tr_get r ''status'' @ quote
             @ '' from='' @ quote @ tr_get r ''from'' @ quote @ '' to='' @ quote @ tr_get r ''to'' @ quote
             @ '' cycle='' @ quote @ tr_get r ''cycle'' @ quote)) rs
     @ [SaveItemList ''timedrules'' ''status'' (map (\<lambda>r. (tr_name r, tr_get r ''status'')) rs)]"

definition te_conditionPage :: "boolean_condition list \<Rightarrow> effect list" where
  "te_conditionPage cs =
     [SaveItemList ''tr_conditions'' ''status'' (map (\<lambda>c. (bc_name c, mp_get (bc_params c) ''status'')) cs)]"

definition te_cmd_rules :: "(timed_rule \<Rightarrow> mparams \<times> effect list) \<Rightarrow> timed_engine \<Rightarrow> timed_engine \<times> effect list" where
  "te_cmd_rules f s =
     (s\<lparr>te_rules := map (\<lambda>r. r\<lparr>tr_params := fst (f r)\<rparr>) (te_rules s)\<rparr>, concat (map (\<lambda>r. snd (f r)) (te_rules s)))"

definition te_cmd_conditions ::
  "(boolean_condition \<Rightarrow> mparams \<times> effect list) \<Rightarrow> boolean_condition list \<Rightarrow> timed_engine \<Rightarrow> timed_engine \<times> effect list" where
  "te_cmd_conditions f cs s =
     (let cs' = map (\<lambda>c. c\<lparr>bc_params := fst (f c)\<rparr>) cs
      in (s\<lparr>te_conditions := Some cs'\<rparr>, concat (map (\<lambda>c. snd (f c)) cs) @ te_conditionPage cs'))"

definition te_handle :: "double \<Rightarrow> double \<Rightarrow> string \<Rightarrow> mmessage \<Rightarrow> timed_engine \<Rightarrow> timed_engine \<times> effect list" where
  "te_handle u now day msg s =
     (let ty = mtype msg; st = msubtype msg in
      if ty = ''program'' \<and> st = ''prgstatus''
      then let act = m_getList msg ''active''
           in (s\<lparr>te_program := msg, te_active := act,
                 te_alarm_on := (m_getString msg ''status'' \<noteq> ''OFF'' \<and> length act > 0)\<rparr>, [])
      else if ty = ''event'' \<and> te_conditions s \<noteq> None
      then (s\<lparr>te_conditions := map_option (\<lambda>cs. snd (bcs_eventUpdate u msg cs)) (te_conditions s)\<rparr>, [])
      else if ty = ''trigger'' \<and> st = ''timedruleupdate''
      then let (rs, todo) = trs_update now day (m_getString (te_program s) ''status'') (te_alarm_on s) (te_conditions s) [] (te_rules s)
           in (s\<lparr>te_rules := rs\<rparr>, notify_all todo)
      else if ty = ''cmd'' \<and> st = ''settimedrules''
      then let (s', es) = te_cmd_rules (\<lambda>r. pick_status msg (tr_name r) (tr_params r)) s
           in (s', es @ makeTimedRulePage (te_rules s'))
      else if ty = ''cmd'' \<and> st = ''resettimedrules'' then te_cmd_rules (\<lambda>r. reset_status (tr_params r)) s
      else if ty = ''cmd'' \<and> st = ''settrconditions'' \<and> te_conditions s \<noteq> None
      then te_cmd_conditions (\<lambda>c. pick_status msg (bc_name c) (bc_params c)) (the (te_conditions s)) s
      else if ty = ''cmd'' \<and> st = ''resettrconditions'' \<and> te_conditions s \<noteq> None
      then te_cmd_conditions (\<lambda>c. reset_status (bc_params c)) (the (te_conditions s)) s
      else if ty = ''cmd'' \<and> st = ''settrrulemode''
      then let name = m_getString msg ''name''; v = m_getString msg ''status'';
               fr = m_getString msg ''from''; to = m_getString msg ''to'';
               (b1, rs1, s1) = (if v = ''ON'' \<or> v = ''OFF'' then trs_setStatus name v (te_rules s) else (False, te_rules s, []));
               (b2, rs2, s2) = (if fr \<noteq> '''' \<and> to \<noteq> '''' then trs_setValidity name fr to rs1 else (False, rs1, []))
           in (s\<lparr>te_rules := rs2\<rparr>, saves s1 @ saves s2)
      else if ty = ''cmd'' \<and> st = ''settrvaliditytime''
      then let (b, rs, sv) = trs_setValidity (m_getString msg ''rule'') (m_getString msg ''from'') (m_getString msg ''to'') (te_rules s)
           in (s\<lparr>te_rules := rs\<rparr>, saves sv)
      else if ty = ''cmd'' \<and> st = ''settractions''
      then let (b, rs, sv) = trs_setActionList (m_getString msg ''rule'') (m_getString msg ''set'') (m_getString msg ''reset'') (te_rules s)
           in (s\<lparr>te_rules := rs\<rparr>, saves sv)
      else (s, []))"

definition te_step :: "double \<Rightarrow> double \<Rightarrow> string \<Rightarrow> mmessage \<Rightarrow> timed_engine \<Rightarrow> timed_engine \<times> effect list" where
  "te_step u now day msg s = (let (s', es) = te_handle u now day msg s in (s', es @ makeTimedRulePage (te_rules s')))"

definition te_getObservations :: "mparams \<Rightarrow> timed_engine \<Rightarrow> mparams \<Rightarrow> mparams" where
  "te_getObservations own s obs =
     (let obs' = ot_getObservations own obs
      in case te_conditions s of None \<Rightarrow> obs' | Some cs \<Rightarrow> bcs_observations cs obs')"

definition te_getSubjects :: "mparams \<Rightarrow> timed_engine \<Rightarrow> mparams \<Rightarrow> mparams" where
  "te_getSubjects own s subj = mp_add_cat (ot_getSubjects own subj) ''todo'' ''subject'' ''rlcmd''"

subsection \<open>Windows\<close>

text \<open>The readings of one update: clock, time of day, program, its alarm flag, conditions.\<close>

type_synonym reading = "double \<times> string \<times> string \<times> bool \<times> boolean_condition list option"

fun tr_run :: "reading list \<Rightarrow> timed_rule \<Rightarrow> timed_rule \<times> mmessage list list" where
  "tr_run [] r = (r, [])"
| "tr_run ((now, day, prog, prgon, cnd) # xs) r =
     (let (b, r1, res) = tr_timeUpdate now day prog prgon cnd [] r; (r2, out) = tr_run xs r1 in (r2, res # out))"

definition tr_enabled :: "timed_rule \<Rightarrow> reading \<Rightarrow> bool" where
  "tr_enabled r x = (case x of (now, day, prog, prgon, cnd) \<Rightarrow>
     tr_get r ''status'' = ''ON'' \<and> timed_window prog prgon cnd (r\<lparr>tr_c_time := string2second day\<rparr>))"

text \<open>The actions at the edges of a sequence of flags.\<close>

fun edge_actions :: "timed_rule \<Rightarrow> bool \<Rightarrow> bool list \<Rightarrow> mmessage list list" where
  "edge_actions r was [] = []"
| "edge_actions r was (b # bs) =
     (if b \<and> \<not> was then tr_actions True r else if \<not> b \<and> was then tr_actions False r else []) # edge_actions r b bs"

text \<open>What an update leaves alone.\<close>

definition tr_same :: "timed_rule \<Rightarrow> timed_rule \<Rightarrow> bool" where
  "tr_same r s \<longleftrightarrow> tr_params s = tr_params r \<and> tr_behavior s = tr_behavior r \<and> tr_from s = tr_from r \<and> tr_to s = tr_to r
     \<and> tr_cycle s = tr_cycle r \<and> enabling_condition s = enabling_condition r"

lemma tr_same_trans: "tr_same r s \<Longrightarrow> tr_same s t \<Longrightarrow> tr_same r t"
  by (simp add: tr_same_def)

lemma tr_same_actions: "tr_same r s \<Longrightarrow> tr_actions b s = tr_actions b r"
  by (simp add: tr_same_def tr_actions_def)

lemma tr_same_enabled: "tr_same r s \<Longrightarrow> tr_enabled s x = tr_enabled r x"
  by (cases x) (simp add: tr_same_def tr_enabled_def timed_window_def checkProgramName_def checkCondition_def
      split: option.splits)

lemma tr_same_edges: "tr_same r s \<Longrightarrow> edge_actions s w bs = edge_actions r w bs"
  by (induction bs arbitrary: w) (simp_all add: tr_same_actions)

lemma tr_cycleUpdate_same: "tr_same r (tr_cycleUpdate now day r)" "tr_active (tr_cycleUpdate now day r) = tr_active r"
    "tr_c_time (tr_cycleUpdate now day r) = tr_c_time r"
    "tr_cycle r \<le> 0 \<Longrightarrow> tr_exec (tr_cycleUpdate now day r) = tr_exec r"
  by (simp_all add: tr_cycleUpdate_def tr_same_def Let_def)

lemma timed_update:
  assumes "tr_behavior r \<in> {''timed'', ''program_timed''}" and "tr_cycle r \<le> 0"
    and "tr_timeUpdate now day prog prgon cnd [] r = (b, r', res)"
  shows "tr_same r r'" and "tr_active r' = tr_enabled r (now, day, prog, prgon, cnd)"
    and "res = hd (edge_actions r (tr_active r) [tr_enabled r (now, day, prog, prgon, cnd)])"
proof -
  let ?r0 = "r\<lparr>tr_reftime := string2second day, tr_c_time := string2second day, tr_exec := False\<rparr>"
  define r1 where "r1 = (tr_cycleUpdate now day ?r0)\<lparr>tr_status := (if tr_get r ''status'' = ''ON'' then 1 else 0)\<rparr>"
  have s0: "tr_same r ?r0" by (simp add: tr_same_def)
  from tr_same_trans [OF s0 tr_cycleUpdate_same(1)] have s: "tr_same r r1" by (simp add: r1_def tr_same_def)
  have f: "tr_active r1 = tr_active r" "tr_c_time r1 = string2second day" "\<not> tr_exec r1"
    using tr_cycleUpdate_same(2-4) [where r = ?r0] assms(2) by (simp_all add: r1_def)
  have w: "timed_window prog prgon cnd r1 = timed_window prog prgon cnd (r\<lparr>tr_c_time := string2second day\<rparr>)"
    using s f(2) by (simp add: timed_window_def tr_same_def checkProgramName_def checkCondition_def split: option.splits)
  have u: "tr_timeUpdate now day prog prgon cnd [] r =
     (if tr_get r ''status'' \<noteq> ''ON''
      then (False, r1\<lparr>tr_active := False\<rparr>, if tr_active r1 then tr_actions False r1 else [])
      else if timed_window prog prgon cnd r1
      then if \<not> tr_active r1 then (True, r1\<lparr>tr_active := True\<rparr>, tr_actions True r1) else (True, r1, [])
      else if tr_active r1 then (True, r1\<lparr>tr_active := False\<rparr>, tr_actions False r1) else (True, r1, []))"
    using s f(3) assms(1) unfolding tr_timeUpdate_def Let_def by (simp add: r1_def tr_same_def)
  have e: "tr_enabled r (now, day, prog, prgon, cnd) \<longleftrightarrow> tr_get r ''status'' = ''ON'' \<and> timed_window prog prgon cnd r1"
    by (simp add: tr_enabled_def w)
  have s': "tr_same r (r1\<lparr>tr_active := x\<rparr>)" for x using s by (simp add: tr_same_def)
  show "tr_same r r'" using assms(3) u s s' by (auto split: if_splits)
  show "tr_active r' = tr_enabled r (now, day, prog, prgon, cnd)"
    using assms(3) by (auto simp: u e split: if_splits)
  show "res = hd (edge_actions r (tr_active r) [tr_enabled r (now, day, prog, prgon, cnd)])"
    using assms(3) f(1) by (auto simp: u e tr_same_actions [OF s] split: if_splits)
qed

lemma tr_run_edges:
  assumes "tr_behavior r \<in> {''timed'', ''program_timed''}" and "tr_cycle r \<le> 0"
  shows "snd (tr_run xs r) = edge_actions r (tr_active r) (map (tr_enabled r) xs)"
  using assms
proof (induction xs arbitrary: r)
  case Nil
  then show ?case by simp
next
  case (Cons x xs)
  obtain now day prog prgon cnd where x: "x = (now, day, prog, prgon, cnd)" by (cases x) auto
  obtain b r1 res where t: "tr_timeUpdate now day prog prgon cnd [] r = (b, r1, res)" by (metis prod_cases3)
  note u = timed_update [OF Cons.prems t]
  have "snd (tr_run xs r1) = edge_actions r1 (tr_active r1) (map (tr_enabled r1) xs)"
    using Cons.prems u(1) by (intro Cons.IH) (simp_all add: tr_same_def)
  also have "\<dots> = edge_actions r (tr_enabled r x) (map (tr_enabled r) xs)"
    using u(2) tr_same_enabled [OF u(1)] by (simp add: tr_same_edges [OF u(1)] x cong: map_cong)
  finally show ?case using u(3) by (simp add: x t case_prod_beta)
qed


definition porch :: timed_rule where
  "porch = \<lparr>tr_params = mp_add (mp_add (mp_add mp_default ''status'' ''ON'') ''set'' ''lighton'') ''reset'' ''lightoff'',
     tr_name = ''porch'', tr_alias = '''', tr_status = 1, enabling_condition = [], tr_behavior = ''timed'', tr_reftime = 0,
     tr_c_time = 0, tr_from = 64800, tr_to = 79200, tr_cycle = -1, tr_nextcyclestart = -1, tr_midnight = 86400,
     tr_active = False, tr_exec = False\<rparr>"


lemma edges_never: "edge_actions r False (map (\<lambda>_. False) xs) = map (\<lambda>_. []) xs"
  by (induction xs) simp_all

text \<open>A window that spans midnight is accepted and saved, but the rule never acts: no sequence of
  updates makes it command anything.\<close>

lemma overnight_window_never:
  assumes "tr_behavior r \<in> {''timed'', ''program_timed''}" and "tr_cycle r \<le> 0" and "\<not> tr_active r"
    and "tr_setValidity asfrom asto r = (True, r', s)" and "string2second asto < string2second asfrom"
  shows "concat (snd (tr_run xs r')) = [] \<and> mp_get (tr_params r') ''to'' = asto"
proof -
  have r': "tr_from r' = string2second asfrom" "tr_to r' = string2second asto" "0 < string2second asto"
    "tr_behavior r' = tr_behavior r" "tr_cycle r' = tr_cycle r" "tr_active r' = tr_active r"
    "tr_params r' = mp_add (mp_add (tr_params r) ''from'' asfrom) ''to'' asto"
    using assms(4) by (auto simp: tr_setValidity_def Let_def split: if_splits)
  have "\<not> isInRange t (tr_from r') (tr_to r')" for t using r'(1-3) assms(5) by (simp add: isInRange_def)
  then have "tr_enabled r' = (\<lambda>_. False)" by (auto simp: tr_enabled_def timed_window_def split: prod.splits)
  moreover have "snd (tr_run xs r') = edge_actions r' (tr_active r') (map (tr_enabled r') xs)"
    using assms(1,2) r' by (intro tr_run_edges) simp_all
  ultimately have "concat (snd (tr_run xs r')) = []" using assms(3) r'(6) by (simp add: concat_eq_Nil_conv edges_never)
  moreover have "asto \<noteq> ''''" using r'(3) by (auto simp: string2second_def clock_field_def field_seconds_def clock_rest_def)
  ultimately show ?thesis by (simp add: r'(7) mp_get_add)
qed

end
