(* ===== verification/Fsm_Device.thy ===== *)
theory Fsm_Device
  imports Effects
begin

text \<open>
  \<^verbatim>\<open>src/agents/BBDevices/FSMDevice.cpp\<close>: a device described by a finite state machine. A
  state has transitions; a transition has a condition (type, subtype, value of a message), the
  messages it sends and the state it leads to. \<open>execcmd\<close> runs the first transition of the current
  state whose condition the message meets. Members that a constructor leaves unset are the
  arguments \<open>jb\<close> (a flag) and \<open>jn\<close> (an index); a call through a null pointer or an index past
  the states is \<open>None\<close>. The conditions and actions are classes of this directory, unrelated to
  the rules of the manager.
\<close>

subsection \<open>Conditions and actions\<close>

record fsm_condition =
  c_type :: string
  c_subtype :: string
  c_value :: string
  c_key :: string

definition fsm_condition_new :: "string \<Rightarrow> string \<Rightarrow> string \<Rightarrow> fsm_condition" where
  "fsm_condition_new a b c =
     \<lparr>c_type = a, c_subtype = b, c_value = c, c_key = a @ ''_'' @ b @ ''_'' @ c\<rparr>"

definition fsm_condition_of_node :: "xnode \<Rightarrow> fsm_condition" where
  "fsm_condition_of_node x =
     fsm_condition_new (attr x ''type'') (attr x ''subtype'') (attr x ''value'')"

text \<open>The comparison operators: the key does not take part.\<close>

definition c_eq :: "fsm_condition \<Rightarrow> fsm_condition \<Rightarrow> bool" where
  "c_eq a c \<longleftrightarrow> c_type a = c_type c \<and> c_subtype a = c_subtype c \<and> c_value a = c_value c"

definition c_ne :: "fsm_condition \<Rightarrow> fsm_condition \<Rightarrow> bool" where
  "c_ne a c \<longleftrightarrow> c_type a \<noteq> c_type c \<or> c_subtype a \<noteq> c_subtype c \<or> c_value a \<noteq> c_value c"

definition c_less :: "fsm_condition \<Rightarrow> fsm_condition \<Rightarrow> bool" where
  "c_less a c =
     (if c_type a < c_type c then True
      else if c_type a = c_type c \<and> c_subtype a < c_subtype c then True
      else if c_type a = c_type c \<and> c_subtype a = c_subtype c \<and> c_value a < c_value c then True
      else False)"

definition c_le :: "fsm_condition \<Rightarrow> fsm_condition \<Rightarrow> bool" where
  "c_le a c \<longleftrightarrow> c_less a c \<or> c_eq a c"

definition c_greater :: "fsm_condition \<Rightarrow> fsm_condition \<Rightarrow> bool" where
  "c_greater a c =
     (if c_type a > c_type c then True
      else if c_type a = c_type c \<and> c_subtype a > c_subtype c then True
      else if c_type a = c_type c \<and> c_subtype a = c_subtype c \<and> c_value a > c_value c then True
      else False)"

definition c_ge :: "fsm_condition \<Rightarrow> fsm_condition \<Rightarrow> bool" where
  "c_ge a c \<longleftrightarrow> c_greater a c \<or> c_eq a c"

definition c_input :: "fsm_condition \<Rightarrow> mattribute list \<Rightarrow> mattribute list" where
  "c_input c acc = (if c_type c = ''local_event'' then acc @ [ma_new (c_subtype c) ''input'' ''active''] else acc)"

record fsm_action =
  fa_type :: string
  fa_subtype :: string
  fa_value :: string

definition fsm_action_of_node :: "xnode \<Rightarrow> fsm_action" where
  "fsm_action_of_node x =
     \<lparr>fa_type = attr x ''type'', fa_subtype = attr x ''subtype'', fa_value = attr x ''value''\<rparr>"

definition fa_subjects :: "fsm_action \<Rightarrow> mparams \<Rightarrow> mparams" where
  "fa_subjects a subj = mp_add_cat subj (fa_subtype a) ''subject'' (fa_type a)"

definition fa_output :: "fsm_action \<Rightarrow> mattribute list \<Rightarrow> mattribute list" where
  "fa_output a acc = (if fa_type a = ''devcmd'' then acc @ [ma_new (fa_subtype a) ''output'' ''active''] else acc)"

subsection \<open>Transitions\<close>

record transition =
  t_name :: string
  newstate :: string
  t_condition :: fsm_condition
  t_action :: "fsm_action list"
  nextstate :: nat

definition transition_of_node :: "nat \<Rightarrow> xnode \<Rightarrow> transition option" where
  "transition_of_node jn x =
     (case ToElement (Some x) of
        None \<Rightarrow> Some \<lparr>t_name = '''', newstate = '''',
                  t_condition = \<lparr>c_type = '''', c_subtype = '''', c_value = '''', c_key = ''''\<rparr>,
                  t_action = [], nextstate = jn\<rparr>
      | Some e \<Rightarrow>
          (case children x of
             c # a # _ \<Rightarrow>
               Some \<lparr>t_name = attr x ''name'', newstate = attr x ''to'', t_condition = fsm_condition_of_node c,
                     t_action = map fsm_action_of_node (children a), nextstate = jn\<rparr>
           | _ \<Rightarrow> None))"

definition t_input :: "transition \<Rightarrow> mattribute list \<Rightarrow> mattribute list" where
  "t_input t acc = c_input (t_condition t) acc"

definition t_output :: "transition \<Rightarrow> mattribute list \<Rightarrow> mattribute list" where
  "t_output t acc = fold fa_output (t_action t) acc"

definition t_observations :: "transition \<Rightarrow> mparams \<Rightarrow> mparams" where
  "t_observations t obs = mp_add_cat obs (c_subtype (t_condition t)) ''observe'' (c_type (t_condition t))"

definition t_subjects :: "transition \<Rightarrow> mparams \<Rightarrow> mparams" where
  "t_subjects t subj = fold fa_subjects (t_action t) subj"

definition t_activeFSMConditions :: "transition \<Rightarrow> fsm_condition list \<Rightarrow> fsm_condition list" where
  "t_activeFSMConditions t c =
     (if \<exists>x \<in> set c. c_eq (t_condition t) x then c else c @ [t_condition t])"

text \<open>One message object is reused for all the actions: each copy carries the values of its own
  action.\<close>

fun action_messages :: "mmessage \<Rightarrow> fsm_action list \<Rightarrow> mmessage list" where
  "action_messages am [] = []"
| "action_messages am (a # as) =
     (let am' = m_add (am\<lparr>mtype := fa_type a, msubtype := fa_subtype a\<rparr>) ''value'' (fa_value a)
      in am' # action_messages am' as)"

definition t_exec :: "fsm_condition \<Rightarrow> transition \<Rightarrow> (mmessage list \<times> nat) option" where
  "t_exec c t =
     (if c_eq c (t_condition t) then Some (action_messages m_default (t_action t), nextstate t) else None)"

definition t_compileNumeric :: "string \<Rightarrow> nat \<Rightarrow> transition \<Rightarrow> transition" where
  "t_compileNumeric sn nn t = (if newstate t = sn then t\<lparr>nextstate := nn\<rparr> else t)"

subsection \<open>States\<close>

record fsm_state =
  st_name :: string
  start :: bool
  transitions :: "transition list"
  numeric_name :: nat

fun transitions_of_nodes :: "nat \<Rightarrow> xnode list \<Rightarrow> (transition list) option" where
  "transitions_of_nodes jn [] = Some []"
| "transitions_of_nodes jn (x # xs) =
     (case transition_of_node jn x of
        None \<Rightarrow> None
      | Some t \<Rightarrow> map_option (Cons t) (transitions_of_nodes jn xs))"

text \<open>The constructor takes a state for a start state when its \<^verbatim>\<open>name\<close> is \<^verbatim>\<open>TRUE\<close>.\<close>

definition fsm_state_of_node :: "bool \<Rightarrow> nat \<Rightarrow> xnode \<Rightarrow> fsm_state option" where
  "fsm_state_of_node jb jn x =
     (case ToElement (Some x) of
        None \<Rightarrow> Some \<lparr>st_name = '''', start = jb, transitions = [], numeric_name = jn\<rparr>
      | Some e \<Rightarrow>
          map_option (\<lambda>ts. \<lparr>st_name = attr x ''name'', start = (attr x ''name'' = ''TRUE''),
                           transitions = ts, numeric_name = jn\<rparr>)
            (transitions_of_nodes jn (children x)))"

definition st_observations :: "fsm_state \<Rightarrow> mparams \<Rightarrow> mparams" where
  "st_observations s obs = fold t_observations (transitions s) obs"

definition st_subjects :: "fsm_state \<Rightarrow> mparams \<Rightarrow> mparams" where
  "st_subjects s subj = fold t_subjects (transitions s) subj"

definition st_input :: "fsm_state \<Rightarrow> mattribute list \<Rightarrow> mattribute list" where
  "st_input s acc = fold t_input (transitions s) acc"

definition st_output :: "fsm_state \<Rightarrow> mattribute list \<Rightarrow> mattribute list" where
  "st_output s acc = fold t_output (transitions s) acc"

definition st_activeFSMConditions :: "fsm_state \<Rightarrow> fsm_condition list \<Rightarrow> fsm_condition list" where
  "st_activeFSMConditions s c = fold t_activeFSMConditions (transitions s) c"

fun ts_exec :: "fsm_condition \<Rightarrow> transition list \<Rightarrow> (mmessage list \<times> nat) option" where
  "ts_exec c [] = None"
| "ts_exec c (t # ts) = (case t_exec c t of Some r \<Rightarrow> Some r | None \<Rightarrow> ts_exec c ts)"

definition st_exec :: "fsm_condition \<Rightarrow> fsm_state \<Rightarrow> (mmessage list \<times> nat) option" where
  "st_exec c s = ts_exec c (transitions s)"

definition st_compileNumeric :: "string \<Rightarrow> nat \<Rightarrow> fsm_state \<Rightarrow> fsm_state" where
  "st_compileNumeric sn nn s =
     s\<lparr>numeric_name := (if sn = st_name s then nn else numeric_name s),
       transitions := map (t_compileNumeric sn nn) (transitions s)\<rparr>"

subsection \<open>Devices\<close>

record fsm_device =
  d_name :: string
  d_alias :: string
  d_states :: "fsm_state list"
  currentValue :: string
  expected :: "fsm_condition list"
  current :: nat
  oldstate :: nat

definition fsm_publish :: "fsm_device \<Rightarrow> effect list" where
  "fsm_publish d =
     (let txt = (\<lambda>ty. ''type='' @ quote @ ty @ quote @ '' value='' @ quote @ currentValue d @ quote
                   @ '' status='' @ quote @ ''ON'' @ quote)
      in Publish (d_name d) (txt ''target'')
         # (if length (d_alias d) > 3
            then map (\<lambda>a. Publish a (txt ''source'')) (fst (nl_init [] (d_alias d) (CHR ''+''))) else []))"

fun states_of_nodes :: "bool \<Rightarrow> nat \<Rightarrow> xnode list \<Rightarrow> (fsm_state list) option" where
  "states_of_nodes jb jn [] = Some []"
| "states_of_nodes jb jn (x # xs) =
     (case fsm_state_of_node jb jn x of
        None \<Rightarrow> None
      | Some s \<Rightarrow> map_option (Cons s) (states_of_nodes jb jn xs))"

definition compile_states :: "fsm_state list \<Rightarrow> fsm_state list" where
  "compile_states ss =
     fold (\<lambda>i ss. map (st_compileNumeric (st_name (ss ! i)) i) ss) [0..<length ss] ss"

definition start_index :: "fsm_state list \<Rightarrow> nat \<Rightarrow> nat" where
  "start_index ss dflt = fold (\<lambda>i c. if start (ss ! i) then i else c) [0..<length ss] dflt"

text \<open>\<open>load\<close> of the device element: the second node of the document, or the third when the
  second has no name.\<close>

definition fsm_load_node :: "bool \<Rightarrow> nat \<Rightarrow> xnode \<Rightarrow> fsm_device \<Rightarrow> fsm_device option" where
  "fsm_load_node jb jn dev d =
     map_option (\<lambda>ss0. let ss = compile_states ss0; st = (\<exists>s \<in> set ss. start s)
                       in d\<lparr>d_alias := attr dev ''alias'', d_states := ss, current := start_index ss 0,
                            oldstate := (if st then start_index ss 0 else oldstate d)\<rparr>)
       (states_of_nodes jb jn (children dev))"

definition fsm_load :: "bool \<Rightarrow> nat \<Rightarrow> file_state \<Rightarrow> fsm_device \<Rightarrow> (bool \<times> fsm_device) option" where
  "fsm_load jb jn f d =
     (let d0 = d\<lparr>current := 0, d_states := []\<rparr>
      in case f of
           Xml (_ # dev # rest) \<Rightarrow>
             if attr dev ''name'' = ''*''
             then (case rest of [] \<Rightarrow> None | dev' # _ \<Rightarrow> map_option (Pair True) (fsm_load_node jb jn dev' d0))
             else map_option (Pair True) (fsm_load_node jb jn dev d0)
         | Xml _ \<Rightarrow> None
         | _ \<Rightarrow> Some (False, d0))"

definition fsm_activeFSMConditions :: "fsm_device \<Rightarrow> fsm_condition list \<Rightarrow> fsm_condition list option" where
  "fsm_activeFSMConditions d c =
     (if current d < length (d_states d) then Some (st_activeFSMConditions (d_states d ! current d) c) else None)"

definition fsm_new :: "bool \<Rightarrow> nat \<Rightarrow> file_state \<Rightarrow> string \<Rightarrow> (fsm_device \<times> effect list) option" where
  "fsm_new jb jn f fname =
     (case fsm_load jb jn f \<lparr>d_name = fname, d_alias = '''', d_states = [], currentValue = '''',
                             expected = [], current = 0, oldstate = 0\<rparr> of
        None \<Rightarrow> None
      | Some (ok, d) \<Rightarrow>
          map_option (\<lambda>ex. let d' = d\<lparr>expected := ex, currentValue := ''OFF''\<rparr> in (d', fsm_publish d'))
            (fsm_activeFSMConditions d []))"

definition fsm_exec :: "fsm_condition \<Rightarrow> fsm_device \<Rightarrow> (mmessage list \<times> fsm_device) option" where
  "fsm_exec c d =
     (let d1 = d\<lparr>oldstate := current d\<rparr>
      in if current d < length (d_states d)
         then Some (case st_exec c (d_states d ! current d) of
                      Some (ms, ns) \<Rightarrow> (ms, d1\<lparr>current := ns\<rparr>)
                    | None \<Rightarrow> ([], d1))
         else None)"

definition fsm_advance :: "fsm_condition \<Rightarrow> fsm_device \<Rightarrow> (mmessage list \<times> fsm_device) option" where
  "fsm_advance c d =
     (case fsm_exec c d of
        None \<Rightarrow> None
      | Some (res, d1) \<Rightarrow>
          map_option (\<lambda>ex. (res, d1\<lparr>expected := ex\<rparr>)) (fsm_activeFSMConditions d1 []))"

fun own_value :: "string \<Rightarrow> mmessage list \<Rightarrow> string \<Rightarrow> string" where
  "own_value nm [] v = v"
| "own_value nm (m # ms) v =
     own_value nm ms (if mtype m = ''event'' \<and> str_contains (msubtype m) nm then m_getString m ''value'' else v)"

definition fsm_execcmd :: "mmessage \<Rightarrow> fsm_device \<Rightarrow> (bool \<times> fsm_device \<times> effect list) option" where
  "fsm_execcmd msg d =
     (let c = fsm_condition_new (mtype msg) (msubtype msg) (m_getString msg ''value'')
      in if \<exists>x \<in> set (expected d). \<not> c_ne c x
         then case fsm_advance c d of
                None \<Rightarrow> None
              | Some (res, d1) \<Rightarrow>
                  let d2 = d1\<lparr>currentValue := own_value (d_name d) res (currentValue d)\<rparr>
                  in Some (True, d2, map Notify res
                       @ [RpcNotify (m_getString msg ''tag'') ''value'' (currentValue d2)] @ fsm_publish d2)
         else Some (False, d, [RpcNotify (m_getString msg ''tag'') ''value'' (currentValue d)]))"

definition fsm_update :: "string \<Rightarrow> string \<Rightarrow> fsm_device \<Rightarrow> (bool \<times> fsm_device \<times> effect list) option" where
  "fsm_update channel v d =
     (let c = fsm_condition_new ''local_event'' channel v
      in if \<exists>x \<in> set (expected d). \<not> c_ne c x
         then map_option (\<lambda>(res, d1). (True, d1, map Notify res)) (fsm_advance c d)
         else Some (False, d, []))"

definition fsm_getObservations :: "fsm_device \<Rightarrow> mparams \<Rightarrow> mparams" where
  "fsm_getObservations d obs = fold st_observations (d_states d) obs"

definition fsm_getSubjects :: "fsm_device \<Rightarrow> mparams \<Rightarrow> mparams" where
  "fsm_getSubjects d subj = fold st_subjects (d_states d) subj"

definition fsm_input :: "fsm_device \<Rightarrow> mattribute list" where
  "fsm_input d = fold st_input (d_states d) []"

definition fsm_output :: "fsm_device \<Rightarrow> mattribute list" where
  "fsm_output d = fold st_output (d_states d) []"

subsection \<open>The operators of a condition\<close>

lemma c_ne_eq: "c_ne a c = (\<not> c_eq a c)"
  by (auto simp: c_ne_def c_eq_def)

lemma c_eq_equiv: "c_eq a a" "c_eq a b \<Longrightarrow> c_eq b a" "c_eq a b \<Longrightarrow> c_eq b c \<Longrightarrow> c_eq a c"
  by (auto simp: c_eq_def)

subsection \<open>Compilation of the target names\<close>

definition closed_names :: "fsm_state list \<Rightarrow> bool" where
  "closed_names ss \<longleftrightarrow> (\<forall>s \<in> set ss. \<forall>t \<in> set (transitions s). newstate t \<in> st_name ` set ss)"

lemma names_compile_step: "map st_name (map (st_compileNumeric sn i) ss) = map st_name ss"
  by (simp add: st_compileNumeric_def)

text \<open>The part of the compilation that has seen the first \<open>n\<close> names.\<close>

definition compiled_to :: "nat \<Rightarrow> string list \<Rightarrow> fsm_state list \<Rightarrow> bool" where
  "compiled_to n names ss \<longleftrightarrow> (\<forall>s \<in> set ss. \<forall>t \<in> set (transitions s).
     newstate t \<in> set (take n names) \<longrightarrow> nextstate t < n \<and> names ! nextstate t = newstate t)"

lemma compiled_step:
  assumes "compiled_to n (map st_name ss) ss" and "n < length ss"
  shows "compiled_to (Suc n) (map st_name ss) (map (st_compileNumeric (st_name (ss ! n)) n) ss)"
  unfolding compiled_to_def
proof (intro ballI impI)
  fix s' t'
  assume s': "s' \<in> set (map (st_compileNumeric (st_name (ss ! n)) n) ss)" and t': "t' \<in> set (transitions s')"
    and m: "newstate t' \<in> set (take (Suc n) (map st_name ss))"
  then obtain s t where st: "s \<in> set ss" "t \<in> set (transitions s)" "t' = t_compileNumeric (st_name (ss ! n)) n t"
    by (auto simp: st_compileNumeric_def)
  show "nextstate t' < Suc n \<and> map st_name ss ! nextstate t' = newstate t'"
  proof (cases "newstate t = st_name (ss ! n)")
    case True
    then show ?thesis using assms(2) st(3) by (simp add: t_compileNumeric_def)
  next
    case False
    then have "t' = t" using st(3) by (simp add: t_compileNumeric_def)
    moreover have "newstate t \<in> set (take n (map st_name ss))"
      using m False assms(2) \<open>t' = t\<close> by (simp add: take_Suc_conv_app_nth)
    ultimately show ?thesis using assms(1) st(1,2) by (auto simp: compiled_to_def less_SucI)
  qed
qed

lemma compile_states_partial:
  assumes "n \<le> length ss"
  shows "map st_name (fold (\<lambda>i ss. map (st_compileNumeric (st_name (ss ! i)) i) ss) [0..<n] ss) = map st_name ss
    \<and> compiled_to n (map st_name ss) (fold (\<lambda>i ss. map (st_compileNumeric (st_name (ss ! i)) i) ss) [0..<n] ss)"
  using assms
proof (induction n)
  case 0
  then show ?case by (simp add: compiled_to_def)
next
  case (Suc n)
  let ?ss = "fold (\<lambda>i ss. map (st_compileNumeric (st_name (ss ! i)) i) ss) [0..<n] ss"
  from Suc have IH: "map st_name ?ss = map st_name ss" "compiled_to n (map st_name ?ss) ?ss" by simp_all
  have len: "length ?ss = length ss" using map_eq_imp_length_eq [OF IH(1)] .
  have "compiled_to (Suc n) (map st_name ss) (map (st_compileNumeric (st_name (?ss ! n)) n) ?ss)"
    using compiled_step [OF IH(2)] Suc.prems len IH(1) by simp
  with IH(1) show ?case using names_compile_step [of "st_name (?ss ! n)" n ?ss] by simp
qed

lemma newstates_compile_step:
  "map (map newstate \<circ> transitions) (map (st_compileNumeric sn i) ss) = map (map newstate \<circ> transitions) ss"
  by (auto simp: st_compileNumeric_def t_compileNumeric_def)

lemma newstates_compile: "map (map newstate \<circ> transitions) (compile_states ss) = map (map newstate \<circ> transitions) ss"
proof -
  have "map (map newstate \<circ> transitions) (fold (\<lambda>i ss. map (st_compileNumeric (st_name (ss ! i)) i) ss) is ss)
      = map (map newstate \<circ> transitions) ss" for "is" ss
    by (induction "is" arbitrary: ss) (simp_all only: fold.simps id_apply comp_apply newstates_compile_step)
  then show ?thesis by (simp only: compile_states_def)
qed

lemma names_compile: "map st_name (compile_states ss) = map st_name ss"
  and compiled_names: "compiled_to (length ss) (map st_name ss) (compile_states ss)"
  using compile_states_partial [of "length ss" ss] by (auto simp: compile_states_def)

lemma length_compile [simp]: "length (compile_states ss) = length ss"
  using map_eq_imp_length_eq [OF names_compile] .

lemma closed_compile:
  assumes "closed_names ss" and "s \<in> set (compile_states ss)" and "t \<in> set (transitions s)"
  shows "nextstate t < length ss \<and> st_name (compile_states ss ! nextstate t) = newstate t"
proof -
  have "map newstate (transitions s) \<in> set (map (map newstate \<circ> transitions) (compile_states ss))"
    using assms(2) by auto
  then obtain s0 where "s0 \<in> set ss" "map newstate (transitions s0) = map newstate (transitions s)"
    unfolding newstates_compile by auto
  then have "newstate t \<in> newstate ` set (transitions s0)"
    using assms(3) by (metis image_eqI image_set)
  then have "newstate t \<in> st_name ` set ss" using assms(1) \<open>s0 \<in> set ss\<close> by (auto simp: closed_names_def)
  then have "newstate t \<in> set (take (length ss) (map st_name ss))" by simp
  then have *: "nextstate t < length ss" "map st_name ss ! nextstate t = newstate t"
    using compiled_names [of ss] assms(2,3) unfolding compiled_to_def by blast+
  with names_compile [of ss] show ?thesis by (metis length_compile nth_map)
qed

subsection \<open>Well-formed devices\<close>

definition fsm_wf :: "fsm_device \<Rightarrow> bool" where
  "fsm_wf d \<longleftrightarrow> current d < length (d_states d)
     \<and> (\<forall>s \<in> set (d_states d). \<forall>t \<in> set (transitions s). nextstate t < length (d_states d)
          \<and> st_name (d_states d ! nextstate t) = newstate t)
     \<and> expected d = st_activeFSMConditions (d_states d ! current d) []"

abbreviation cur_name :: "fsm_device \<Rightarrow> string" where
  "cur_name d \<equiv> st_name (d_states d ! current d)"

lemma active_conditions_iff:
  "(\<exists>x \<in> set (fold t_activeFSMConditions ts acc). c_eq c x)
     \<longleftrightarrow> (\<exists>x \<in> set acc. c_eq c x) \<or> (\<exists>t \<in> set ts. c_eq c (t_condition t))"
proof (induction ts arbitrary: acc)
  case Nil
  then show ?case by simp
next
  case (Cons t ts)
  have "(\<exists>x \<in> set (t_activeFSMConditions t acc). c_eq c x)
      \<longleftrightarrow> (\<exists>x \<in> set acc. c_eq c x) \<or> c_eq c (t_condition t)"
    unfolding t_activeFSMConditions_def by (auto intro: c_eq_equiv)
  with Cons show ?case by auto
qed

lemma expected_iff:
  "fsm_wf d \<Longrightarrow> (\<exists>x \<in> set (expected d). \<not> c_ne c x)
     \<longleftrightarrow> (\<exists>t \<in> set (transitions (d_states d ! current d)). c_eq c (t_condition t))"
  using active_conditions_iff [where c = c and ts = "transitions (d_states d ! current d)" and acc = "[]"]
  by (simp add: fsm_wf_def st_activeFSMConditions_def c_ne_eq)

definition action_message :: "fsm_action \<Rightarrow> mmessage" where
  "action_message a = \<lparr>mtype = fa_type a, msubtype = fa_subtype a, priority = 0,
     mfields = [(''value'', ms_of_string (fa_value a))]\<rparr>"

lemma action_messages_again:
  "action_messages (action_message b) as = map action_message as"
  by (induction as arbitrary: b) (simp_all add: action_message_def m_add_def ms_add_def ms_of_string_def)

lemma action_messages_map: "action_messages m_default as = map action_message as"
proof (cases as)
  case (Cons a as')
  have "m_add (m_default\<lparr>mtype := fa_type a, msubtype := fa_subtype a\<rparr>) ''value'' (fa_value a) = action_message a"
    by (simp add: m_add_def m_default_def action_message_def sm_insert_def)
  with Cons show ?thesis by (simp add: action_messages_again)
qed simp

lemma ts_exec_first:
  assumes "\<exists>t \<in> set ts. c_eq c (t_condition t)"
  obtains pre t post where "ts = pre @ t # post" "\<forall>t' \<in> set pre. \<not> c_eq c (t_condition t')"
    "c_eq c (t_condition t)" "ts_exec c ts = Some (map action_message (t_action t), nextstate t)"
proof -
  from split_list_first_prop [OF assms] obtain pre t post where
    ts: "ts = pre @ t # post" "c_eq c (t_condition t)" "\<forall>t' \<in> set pre. \<not> c_eq c (t_condition t')" by blast
  have "ts_exec c (pre @ t # post) = Some (map action_message (t_action t), nextstate t)"
    using ts(2,3) by (induction pre) (simp_all add: t_exec_def action_messages_map)
  with ts show thesis by (intro that) simp_all
qed

lemma fsm_advance_wf:
  assumes "fsm_wf d" and "\<exists>t \<in> set (transitions (d_states d ! current d)). c_eq c (t_condition t)"
  obtains pre t post d1 where "transitions (d_states d ! current d) = pre @ t # post"
    "\<forall>t' \<in> set pre. \<not> c_eq c (t_condition t')" "c_eq c (t_condition t)"
    "fsm_advance c d = Some (map action_message (t_action t), d1)" "fsm_wf d1"
    "d_states d1 = d_states d" "cur_name d1 = newstate t" "d_name d1 = d_name d"
proof -
  from ts_exec_first [OF assms(2)] obtain pre t post where
    t: "transitions (d_states d ! current d) = pre @ t # post" "\<forall>t' \<in> set pre. \<not> c_eq c (t_condition t')"
    "c_eq c (t_condition t)"
    "ts_exec c (transitions (d_states d ! current d)) = Some (map action_message (t_action t), nextstate t)"
    by blast
  let ?d1 = "d\<lparr>oldstate := current d, current := nextstate t,
      expected := st_activeFSMConditions (d_states d ! nextstate t) []\<rparr>"
  have cur: "current d < length (d_states d)" using assms(1) by (simp add: fsm_wf_def)
  then have "d_states d ! current d \<in> set (d_states d)" by simp
  moreover have "t \<in> set (transitions (d_states d ! current d))" using t(1) by simp
  ultimately have nx: "nextstate t < length (d_states d)" "st_name (d_states d ! nextstate t) = newstate t"
    using assms(1) unfolding fsm_wf_def by blast+
  have "fsm_advance c d = Some (map action_message (t_action t), ?d1)"
    using cur nx t(4) by (simp add: fsm_advance_def fsm_exec_def st_exec_def fsm_activeFSMConditions_def)
  moreover have "fsm_wf ?d1" using assms(1) nx by (simp add: fsm_wf_def)
  ultimately show thesis using t nx by (intro that [of pre t post ?d1]) simp_all
qed

subsection \<open>The abstract machine\<close>

text \<open>What the device promises, over the names of the states only.\<close>

inductive fsm_step :: "fsm_state list \<Rightarrow> string \<Rightarrow> fsm_condition \<Rightarrow> fsm_action list \<Rightarrow> string \<Rightarrow> bool" for ss where
  take: "s \<in> set ss \<Longrightarrow> transitions s = pre @ t # post \<Longrightarrow> \<forall>t' \<in> set pre. \<not> c_eq c (t_condition t') \<Longrightarrow>
     c_eq c (t_condition t) \<Longrightarrow> fsm_step ss (st_name s) c (t_action t) (newstate t)"

inductive_cases fsm_stepE: "fsm_step ss n c as n'"

lemma no_transition_no_step:
  assumes "distinct (map st_name ss)" and "i < length ss"
    and "\<not> (\<exists>t \<in> set (transitions (ss ! i)). c_eq c (t_condition t))"
  shows "\<not> fsm_step ss (st_name (ss ! i)) c as n"
proof
  assume "fsm_step ss (st_name (ss ! i)) c as n"
  then obtain s pre t post where s: "s \<in> set ss" "st_name s = st_name (ss ! i)"
    "transitions s = pre @ t # post" "c_eq c (t_condition t)" by (auto elim: fsm_stepE)
  then have "s = ss ! i" using assms(1,2) by (metis distinct_map inj_onD nth_mem)
  with s(3,4) assms(3) show False by auto
qed

abbreviation msg_condition :: "mmessage \<Rightarrow> fsm_condition" where
  "msg_condition m \<equiv> fsm_condition_new (mtype m) (msubtype m) (m_getString m ''value'')"

lemma notified_publish [simp]: "notified (fsm_publish d) = []"
proof -
  have "notified (map (\<lambda>a. Publish a (f a)) as) = []" for f as by (induction as) simp_all
  then show ?thesis by (simp add: fsm_publish_def Let_def)
qed

lemma notified_map_Notify [simp]: "notified (map Notify ms) = ms"
  by (induction ms) simp_all

lemma fsm_execcmd_cases:
  assumes "fsm_wf d"
  shows "(\<exists>d' es pre t post. fsm_execcmd m d = Some (True, d', es) \<and> fsm_wf d' \<and> d_states d' = d_states d
      \<and> transitions (d_states d ! current d) = pre @ t # post
      \<and> (\<forall>t' \<in> set pre. \<not> c_eq (msg_condition m) (t_condition t')) \<and> c_eq (msg_condition m) (t_condition t)
      \<and> cur_name d' = newstate t \<and> notified es = map action_message (t_action t))
    \<or> (\<exists>es. fsm_execcmd m d = Some (False, d, es) \<and> notified es = []
      \<and> \<not> (\<exists>t \<in> set (transitions (d_states d ! current d)). c_eq (msg_condition m) (t_condition t)))"
proof (cases "\<exists>t \<in> set (transitions (d_states d ! current d)). c_eq (msg_condition m) (t_condition t)")
  case True
  obtain pre t post d1 where a:
    "transitions (d_states d ! current d) = pre @ t # post"
    "\<forall>t' \<in> set pre. \<not> c_eq (msg_condition m) (t_condition t')" "c_eq (msg_condition m) (t_condition t)"
    "fsm_advance (msg_condition m) d = Some (map action_message (t_action t), d1)" "fsm_wf d1"
    "d_states d1 = d_states d" "cur_name d1 = newstate t" "d_name d1 = d_name d"
    by (rule fsm_advance_wf [OF assms True])
  let ?d2 = "d1\<lparr>currentValue := own_value (d_name d) (map action_message (t_action t)) (currentValue d)\<rparr>"
  let ?es = "map Notify (map action_message (t_action t))
      @ [RpcNotify (m_getString m ''tag'') ''value'' (currentValue ?d2)] @ fsm_publish ?d2"
  have "fsm_wf ?d2" using a(5) by (simp add: fsm_wf_def)
  moreover have "fsm_execcmd m d = Some (True, ?d2, ?es)"
    using expected_iff [OF assms, of "msg_condition m"] True a(4) by (simp add: fsm_execcmd_def Let_def)
  moreover have "notified ?es = map action_message (t_action t)" by (simp del: map_map)
  moreover have "d_states ?d2 = d_states d" "cur_name ?d2 = newstate t" using a(6,7) by simp_all
  ultimately show ?thesis using a(1-3) by blast
next
  case False
  then show ?thesis
    using expected_iff [OF assms, of "msg_condition m"] by (simp add: fsm_execcmd_def Let_def)
qed

interpretation fsm: device fsm_wf fsm_execcmd
proof
  fix d m b d' es
  assume "fsm_wf d"
  from fsm_execcmd_cases [OF this, of m] show "fsm_execcmd m d \<noteq> None" by auto
  assume "fsm_execcmd m d = Some (b, d', es)"
  with fsm_execcmd_cases [OF \<open>fsm_wf d\<close>, of m] show "fsm_wf d'" using \<open>fsm_wf d\<close> by auto
qed

subsection \<open>Loaded devices\<close>

lemma start_index_bound: "ss \<noteq> [] \<Longrightarrow> start_index ss 0 < length ss"
proof -
  assume "ss \<noteq> []"
  have "fold (\<lambda>i c. if start (ss ! i) then i else c) [0..<n] 0 < length ss" if "n \<le> length ss" for n
    using that \<open>ss \<noteq> []\<close> by (induction n) auto
  then show ?thesis by (simp add: start_index_def)
qed

lemma fsm_load_wf:
  assumes "states_of_nodes jb jn (children dev) = Some ss" and "ss \<noteq> []" and "closed_names ss"
    and "attr dev ''name'' \<noteq> ''*''"
  obtains d es where "fsm_new jb jn (Xml (x # dev # rest)) fname = Some (d, es)" "fsm_wf d"
    "d_states d = compile_states ss"
proof -
  let ?cs = "compile_states ss"
  let ?i = "start_index ?cs 0"
  have i: "?i < length ?cs" using start_index_bound [of ?cs] assms(2) by (metis length_0_conv length_compile)
  obtain d es where d: "fsm_new jb jn (Xml (x # dev # rest)) fname = Some (d, es)"
    "d_states d = ?cs" "current d = ?i" "expected d = st_activeFSMConditions (?cs ! ?i) []"
    using assms(1,4) i by (auto simp: fsm_new_def fsm_load_def fsm_load_node_def fsm_activeFSMConditions_def Let_def)
  have "fsm_wf d"
    unfolding fsm_wf_def d(2-4) using i closed_compile [OF assms(3)] by simp
  with d show thesis by (intro that)
qed

text \<open>C2: a command to a well-formed device whose states have distinct names is answered without
  a crash and is exactly one step of the abstract machine: if some transition of the current
  state accepts it, the first such one is taken, its messages are sent in order and its target is
  the new state; otherwise nothing is sent and the device is unchanged.\<close>

theorem fsm_execcmd_refines:
  assumes "fsm_wf d" and "distinct (map st_name (d_states d))"
  shows "\<exists>b d' es. fsm_execcmd m d = Some (b, d', es) \<and> fsm_wf d' \<and> d_states d' = d_states d
    \<and> (b \<longrightarrow> (\<exists>as. fsm_step (d_states d) (cur_name d) (msg_condition m) as (cur_name d')
                 \<and> notified es = map action_message as))
    \<and> (\<not> b \<longrightarrow> d' = d \<and> notified es = []
             \<and> (\<forall>as n. \<not> fsm_step (d_states d) (cur_name d) (msg_condition m) as n))"
proof -
  have cur: "current d < length (d_states d)" using assms(1) by (simp add: fsm_wf_def)
  then have mem: "d_states d ! current d \<in> set (d_states d)" by simp
  from fsm_execcmd_cases [OF assms(1), of m] show ?thesis
  proof (elim disjE exE conjE)
    fix d' es pre t post
    assume a: "fsm_execcmd m d = Some (True, d', es)" "fsm_wf d'" "d_states d' = d_states d"
      "transitions (d_states d ! current d) = pre @ t # post"
      "\<forall>t' \<in> set pre. \<not> c_eq (msg_condition m) (t_condition t')" "c_eq (msg_condition m) (t_condition t)"
      "cur_name d' = newstate t" "notified es = map action_message (t_action t)"
    have "fsm_step (d_states d) (cur_name d) (msg_condition m) (t_action t) (cur_name d')"
      unfolding a(7) by (rule fsm_step.take [OF mem a(4-6)])
    with a(1-3,8) show ?thesis by blast
  next
    fix es
    assume b: "fsm_execcmd m d = Some (False, d, es)" "notified es = []"
      "\<not> (\<exists>t \<in> set (transitions (d_states d ! current d)). c_eq (msg_condition m) (t_condition t))"
    with no_transition_no_step [OF assms(2) cur b(3)] assms(1) show ?thesis by blast
  qed
qed

text \<open>A light switch as a device: \<^verbatim>\<open>cmd\<close> \<^verbatim>\<open>lamp\<close> \<^verbatim>\<open>ON\<close> drives the relay.\<close>

definition switch_node :: xnode where
  "switch_node = XElement ''device'' [(''name'', ''lamp''), (''alias'', ''l'')]
     [XElement ''state'' [(''name'', ''off'')]
        [XElement ''transition'' [(''name'', ''t1''), (''to'', ''on'')]
           [XElement ''condition'' [(''type'', ''cmd''), (''subtype'', ''lamp''), (''value'', ''ON'')] [],
            XElement ''actions'' [] [XElement ''action'' [(''type'', ''devcmd''), (''subtype'', ''relay''), (''value'', ''1'')] []]]],
      XElement ''state'' [(''name'', ''on'')] []]"

definition switch_device :: fsm_device where
  "switch_device = fst (the (fsm_new False 7 (Xml [XDeclaration, switch_node]) ''lamp''))"

lemma switch_states:
  obtains ss where "states_of_nodes False 7 (children switch_node) = Some ss" "ss \<noteq> []" "closed_names ss"
    "map st_name ss = [''off'', ''on'']"
  by (simp add: switch_node_def fsm_state_of_node_def transition_of_node_def closed_names_def)

lemma switch_device_wf: "fsm_wf switch_device" "distinct (map st_name (d_states switch_device))"
proof -
  obtain ss where ss: "states_of_nodes False 7 (children switch_node) = Some ss" "ss \<noteq> []" "closed_names ss"
    "map st_name ss = [''off'', ''on'']" by (rule switch_states)
  have "attr switch_node ''name'' \<noteq> ''*''" by (simp add: switch_node_def)
  then obtain d es where d: "fsm_new False 7 (Xml [XDeclaration, switch_node]) ''lamp'' = Some (d, es)"
    "fsm_wf d" "d_states d = compile_states ss" by (rule fsm_load_wf [OF ss(1-3)])
  then have "switch_device = d" by (simp add: switch_device_def)
  with d(2,3) ss(4) show "fsm_wf switch_device" "distinct (map st_name (d_states switch_device))"
    by (simp_all add: names_compile)
qed

theorem fsm_execcmd_refines_witness:
  "\<exists>b d' es. fsm_execcmd (m_add (m_new ''cmd'' ''lamp'') ''value'' ''ON'') switch_device = Some (b, d', es)
     \<and> fsm_wf d' \<and> d_states d' = d_states switch_device"
  using fsm_execcmd_refines [OF switch_device_wf, of "m_add (m_new ''cmd'' ''lamp'') ''value'' ''ON''"] by blast

text \<open>A device loaded from a description in which every transition leads to a named state
  starts well-formed, and no sequence of commands whatever can crash it or leave its states.\<close>

lemma fsm_loaded_runs:
  assumes "states_of_nodes jb jn (children dev) = Some ss" and "ss \<noteq> []" and "closed_names ss"
    and "attr dev ''name'' \<noteq> ''*''"
  shows "\<exists>d es. fsm_new jb jn (Xml (x # dev # rest)) fname = Some (d, es)
    \<and> (\<exists>d' fs. fsm.exec_run ms d = Some (d', fs) \<and> current d' < length (d_states d'))"
proof -
  obtain d es where d: "fsm_new jb jn (Xml (x # dev # rest)) fname = Some (d, es)" "fsm_wf d"
    by (rule fsm_load_wf [OF assms])
  from fsm.exec_run_total [OF d(2), of ms] d(1) show ?thesis by (auto simp: fsm_wf_def)
qed

end
