(* ===== verification/Timer_Device.thy ===== *)
theory Timer_Device
  imports Effects
begin

text \<open>
  \<^verbatim>\<open>src/agents/BBDevices/Timer.cpp\<close>: the timer thread of a device agent. A message
  \<^verbatim>\<open>wait set\<close> starts a condition whose value names its duration (\<^verbatim>\<open>5_lamp\<close> is five
  seconds), the trigger \<^verbatim>\<open>poll\<close> counts the conditions down, and a condition that has run
  out sends \<^verbatim>\<open>wait end\<close> once. The body of the endless loop is the step \<open>timer_step\<close>;
  \<open>u\<close> is the uninitialised local of \<^verbatim>\<open>a2double\<close>.
\<close>

record timed_condition =
  tc_type :: string
  tc_subtype :: string
  tc_value :: string
  wait_time :: double
  expired :: bool

definition getDuration :: "string \<Rightarrow> string" where
  "getDuration v = (case str_find ''_'' v of Some pos \<Rightarrow> take pos v | None \<Rightarrow> v)"

definition tc_new :: "double \<Rightarrow> string \<Rightarrow> string \<Rightarrow> string \<Rightarrow> timed_condition" where
  "tc_new u a b c =
     \<lparr>tc_type = a, tc_subtype = b, tc_value = c, wait_time = a2double u (getDuration c), expired = False\<rparr>"

definition tc_update :: "double \<Rightarrow> timed_condition \<Rightarrow> bool \<times> timed_condition" where
  "tc_update d c =
     (if expired c then (True, c)
      else let c' = c\<lparr>wait_time := wait_time c - d\<rparr> in (wait_time c' \<le> 0, c'))"

definition tc_update_one :: "timed_condition \<Rightarrow> bool \<times> timed_condition" where
  "tc_update_one c =
     (if expired c then (True, c)
      else let c' = c\<lparr>wait_time := wait_time c - 1\<rparr> in (wait_time c' \<le> 0, c'))"

definition tc_message :: "mmessage \<Rightarrow> timed_condition \<Rightarrow> bool \<times> mmessage \<times> timed_condition" where
  "tc_message m c =
     (if wait_time c > 0 then (False, m, c)
      else if expired c then (False, m, c)
      else (True, m_add (m\<lparr>mtype := tc_type c, msubtype := ''end''\<rparr>) ''value'' (tc_value c), c\<lparr>expired := True\<rparr>))"

definition tc_isEqual :: "timed_condition \<Rightarrow> timed_condition \<Rightarrow> bool" where
  "tc_isEqual a c \<longleftrightarrow> tc_type a = tc_type c \<and> tc_subtype a = tc_subtype c \<and> tc_value a = tc_value c"

subsection \<open>The timer thread\<close>

record timer =
  conditions :: "timed_condition list"
  last_update_time :: double
  out_mess :: mmessage
  tm_observes :: "mattribute list"

definition timer_new :: "mattribute list \<Rightarrow> timer" where
  "timer_new obs = \<lparr>conditions = [], last_update_time = 0, out_mess = m_default, tm_observes = obs\<rparr>"

definition timer_update :: "double \<Rightarrow> timed_condition list \<Rightarrow> timed_condition list" where
  "timer_update p cs = map (\<lambda>c. snd (tc_update p c)) cs"

definition timer_update_one :: "timed_condition list \<Rightarrow> timed_condition list" where
  "timer_update_one cs = map (\<lambda>c. snd (tc_update_one c)) cs"

fun timer_messages :: "mmessage \<Rightarrow> timed_condition list \<Rightarrow> mmessage \<times> timed_condition list \<times> mmessage list" where
  "timer_messages m [] = (m, [], [])"
| "timer_messages m (c # cs) =
     (let (b, m', c') = tc_message m c; (m'', cs', ms) = timer_messages m' cs
      in (m'', c' # cs', if b then m' # ms else ms))"

fun startTimer :: "timed_condition \<Rightarrow> timed_condition list \<Rightarrow> bool \<times> timed_condition list" where
  "startTimer tc [] = (False, [tc])"
| "startTimer tc (c # cs) =
     (if tc_isEqual c tc then (True, tc # cs) else let (b, cs') = startTimer tc cs in (b, c # cs'))"

text \<open>\<open>resetTimer\<close> ends its loop after the first condition, whether it is equal or not.\<close>

definition resetTimer :: "timed_condition \<Rightarrow> timed_condition list \<Rightarrow> bool \<times> timed_condition list" where
  "resetTimer tc cs =
     (case cs of
        [] \<Rightarrow> (False, [])
      | c # cs' \<Rightarrow> (True, (if tc_isEqual c tc then c\<lparr>wait_time := 0\<rparr> else c) # cs'))"

definition getDoubleDuration :: "double \<Rightarrow> string \<Rightarrow> double" where
  "getDoubleDuration u v = a2double u (getDuration v)"

definition timer_poll :: "double \<Rightarrow> double \<Rightarrow> timer \<Rightarrow> timer \<times> effect list" where
  "timer_poll period msg_time t =
     (if msg_time > period / 2 + last_update_time t
      then let cs = (if period > 0 then timer_update period (conditions t) else timer_update_one (conditions t));
               (m, cs', ms) = timer_messages (out_mess t) cs
           in (t\<lparr>conditions := cs', out_mess := m, last_update_time := msg_time\<rparr>, map Notify ms)
      else (t, []))"

definition timer_step :: "double \<Rightarrow> mmessage \<Rightarrow> timer \<Rightarrow> timer \<times> effect list" where
  "timer_step u msg t =
     (let v = m_getString msg ''value''
      in if mtype msg = ''trigger'' \<and> msubtype msg = ''poll''
         then timer_poll (m_getDouble u msg ''period'') (m_getDouble u msg ''time'') t
         else if mtype msg = ''wait'' \<and> msubtype msg = ''set''
         then (if getDoubleDuration u v > 0
               then (t\<lparr>conditions := snd (startTimer (tc_new u (mtype msg) ''set'' v) (conditions t))\<rparr>, [])
               else (t, []))
         else if mtype msg = ''wait'' \<and> msubtype msg = ''reset''
         then (if getDoubleDuration u v > 0
               then let tc = tc_new u (mtype msg) (msubtype msg) v
                    in (t\<lparr>conditions := snd (resetTimer tc (snd (startTimer tc (conditions t))))\<rparr>, [])
               else (t, []))
         else if mtype msg = ''register'' \<and> msubtype msg = ''observation''
         then (t, map (\<lambda>a. Observe (ma_value a) (ma_name a)) (tm_observes t))
         else (t, []))"

subsection \<open>Every condition on its own\<close>

text \<open>One accepted poll of one condition: whether it sends its message, and what it becomes.\<close>

definition poll_one :: "double \<Rightarrow> timed_condition \<Rightarrow> bool \<times> timed_condition" where
  "poll_one p c =
     (if expired c then (False, c)
      else if wait_time c - p > 0 then (False, c\<lparr>wait_time := wait_time c - p\<rparr>)
      else (True, c\<lparr>wait_time := wait_time c - p, expired := True\<rparr>))"

definition end_message :: "timed_condition \<Rightarrow> mmessage" where
  "end_message c = \<lparr>mtype = tc_type c, msubtype = ''end'', priority = 0,
     mfields = [(''value'', ms_of_string (tc_value c))]\<rparr>"

text \<open>The message object of the thread holds nothing but the value of the last message.\<close>

definition out_ok :: "mmessage \<Rightarrow> bool" where
  "out_ok m \<longleftrightarrow> priority m = 0 \<and> (mfields m = [] \<or> (\<exists>v. mfields m = [(''value'', ms_of_string v)]))"

lemma out_ok_default [simp]: "out_ok m_default"
  by (simp add: out_ok_def m_default_def)

lemma out_ok_end [simp]: "out_ok (end_message c)"
  by (auto simp: out_ok_def end_message_def)

lemma tc_message_end:
  "out_ok m \<Longrightarrow> \<not> wait_time c > 0 \<Longrightarrow> \<not> expired c \<Longrightarrow>
   tc_message m c = (True, end_message c, c\<lparr>expired := True\<rparr>)"
  by (auto simp: tc_message_def out_ok_def end_message_def m_add_def ms_add_def ms_of_string_def sm_insert_def)

lemma poll_messages:
  "out_ok m \<Longrightarrow> \<exists>m'. timer_messages m (timer_update p cs)
     = (m', map (\<lambda>c. snd (poll_one p c)) cs, map end_message (filter (\<lambda>c. fst (poll_one p c)) cs)) \<and> out_ok m'"
proof (induction cs arbitrary: m)
  case Nil
  then show ?case by (simp add: timer_update_def)
next
  case (Cons c cs)
  let ?c = "snd (tc_update p c)"
  show ?case
  proof (cases "fst (poll_one p c)")
    case True
    then have fire: "\<not> wait_time ?c > 0" "\<not> expired ?c" "snd (poll_one p c) = ?c\<lparr>expired := True\<rparr>"
      "end_message ?c = end_message c"
      by (auto simp: poll_one_def tc_update_def Let_def end_message_def split: if_splits)
    from Cons.IH [of "end_message c"] obtain m' where
      "timer_messages (end_message c) (timer_update p cs) = (m', map (\<lambda>c. snd (poll_one p c)) cs,
         map end_message (filter (\<lambda>c. fst (poll_one p c)) cs))" "out_ok m'" by auto
    with True fire tc_message_end [OF Cons.prems fire(1,2)] show ?thesis by (simp add: timer_update_def)
  next
    case False
    then have "tc_message m ?c = (False, m, snd (poll_one p c))"
      by (auto simp: poll_one_def tc_update_def tc_message_def Let_def split: if_splits)
    with False Cons.IH [OF Cons.prems] show ?thesis by (auto simp: timer_update_def)
  qed
qed

text \<open>A run of accepted polls of period \<open>p\<close> at the times \<open>ts\<close>.\<close>

fun timer_polls :: "double \<Rightarrow> double list \<Rightarrow> timer \<Rightarrow> timer \<times> effect list list" where
  "timer_polls p [] t = (t, [])"
| "timer_polls p (x # xs) t =
     (let (t', e) = timer_poll p x t; (t'', es) = timer_polls p xs t' in (t'', e # es))"

fun poll_count :: "double \<Rightarrow> nat \<Rightarrow> timed_condition \<Rightarrow> bool list" where
  "poll_count p 0 c = []"
| "poll_count p (Suc n) c = fst (poll_one p c) # poll_count p n (snd (poll_one p c))"

fun spaced :: "double \<Rightarrow> double \<Rightarrow> double list \<Rightarrow> bool" where
  "spaced p l [] = True"
| "spaced p l (x # xs) = (l + p / 2 < x \<and> spaced p x xs)"

lemma end_message_poll [simp]: "end_message (snd (poll_one p c)) = end_message c"
  by (simp add: poll_one_def end_message_def)

lemma poll_count_expired: "expired c \<Longrightarrow> poll_count p n c = replicate n False"
  by (induction n arbitrary: c) (simp_all add: poll_one_def)

lemma poll_count_nth:
  "\<not> expired c \<Longrightarrow> 0 < wait_time c \<Longrightarrow> 0 < p \<Longrightarrow> i < n \<Longrightarrow>
   poll_count p n c ! i \<longleftrightarrow> of_nat i * p < wait_time c \<and> wait_time c \<le> of_nat (Suc i) * p"
proof (induction n arbitrary: c i)
  case 0
  then show ?case by simp
next
  case (Suc n)
  let ?c = "c\<lparr>wait_time := wait_time c - p\<rparr>"
  show ?case
  proof (cases i)
    case 0
    with Suc.prems show ?thesis by (simp add: poll_one_def)
  next
    case (Suc j)
    show ?thesis
    proof (cases "p < wait_time c")
      case True
      then have "poll_one p c = (False, ?c)" using Suc.prems(1) by (simp add: poll_one_def)
      moreover have "poll_count p n ?c ! j \<longleftrightarrow> of_nat j * p < wait_time c - p \<and> wait_time c - p \<le> of_nat (Suc j) * p"
        using Suc.IH [of ?c j] Suc.prems \<open>i = Suc j\<close> True by simp
      ultimately show ?thesis using \<open>i = Suc j\<close> by (simp add: algebra_simps)
    next
      case False
      have "0 \<le> of_nat j * p" using Suc.prems(3) by simp
      with False have "\<not> of_nat i * p < wait_time c" using \<open>i = Suc j\<close> by (simp add: algebra_simps)
      moreover have "expired (snd (poll_one p c))" using False Suc.prems(1) by (simp add: poll_one_def)
      ultimately show ?thesis using \<open>i = Suc j\<close> Suc.prems(4) by (simp add: poll_count_expired)
    qed
  qed
qed

lemma concat_if_filter: "concat (map (\<lambda>c. if P c then [f c] else []) cs) = map f (filter P cs)"
  by (induction cs) simp_all

text \<open>The end messages of a run, poll by poll.\<close>

lemma timer_polls_count:
  assumes "0 < p" and "out_ok (out_mess t)" and "spaced p (last_update_time t) xs"
  shows "map notified (snd (timer_polls p xs t))
    = map (\<lambda>i. concat (map (\<lambda>c. if poll_count p (length xs) c ! i then [end_message c] else []) (conditions t)))
        [0..<length xs]"
  using assms(2,3)
proof (induction xs arbitrary: t)
  case Nil
  then show ?case by simp
next
  case (Cons x xs)
  obtain m' where m': "timer_messages (out_mess t) (timer_update p (conditions t))
      = (m', map (\<lambda>c. snd (poll_one p c)) (conditions t),
         map end_message (filter (\<lambda>c. fst (poll_one p c)) (conditions t)))" "out_ok m'"
    using poll_messages [OF Cons.prems(1)] by blast
  let ?t = "t\<lparr>conditions := map (\<lambda>c. snd (poll_one p c)) (conditions t), out_mess := m', last_update_time := x\<rparr>"
  have poll: "timer_poll p x t = (?t, map Notify (map end_message (filter (\<lambda>c. fst (poll_one p c)) (conditions t))))"
    using m'(1) Cons.prems(2) assms(1) by (simp add: timer_poll_def add.commute)
  have IH: "map notified (snd (timer_polls p xs ?t))
      = map (\<lambda>i. concat (map (\<lambda>c. if poll_count p (length xs) c ! i then [end_message c] else []) (conditions ?t)))
          [0..<length xs]"
    using m'(2) Cons.prems(2) by (intro Cons.IH) simp_all
  have notif: "notified (map (\<lambda>c. Notify (f c)) cs) = map f cs" for f and cs :: "timed_condition list"
    by (induction cs) simp_all
  show ?case
    using IH
    by (simp add: poll notif concat_if_filter upt_conv_Cons case_prod_beta comp_def filter_map
        del: upt_Suc flip: map_Suc_upt)
qed

text \<open>Timers are exact to one poll and fire once. In a run of polls of period \<open>p\<close>, the
  \<open>i\<close>-th poll ends, in the order of the list, exactly those conditions whose waiting time lies
  between \<open>i\<close> and \<open>i+1\<close> periods.\<close>

lemma timer_ends_at:
  assumes "0 < p" and "out_ok (out_mess t)" and "spaced p (last_update_time t) xs" and "i < length xs"
    and "\<forall>c \<in> set (conditions t). \<not> expired c \<and> 0 < wait_time c"
  shows "notified (snd (timer_polls p xs t) ! i)
    = map end_message (filter (\<lambda>c. of_nat i * p < wait_time c \<and> wait_time c \<le> of_nat (Suc i) * p) (conditions t))"
proof -
  let ?P = "\<lambda>c. of_nat i * p < wait_time c \<and> wait_time c \<le> of_nat (Suc i) * p"
  have len: "length (snd (timer_polls p xs t)) = length xs"
    by (induction xs arbitrary: t) (simp_all add: case_prod_beta Let_def)
  have "notified (snd (timer_polls p xs t) ! i) = map notified (snd (timer_polls p xs t)) ! i"
    using assms(4) len by simp
  also have "\<dots> = concat (map (\<lambda>c. if poll_count p (length xs) c ! i then [end_message c] else []) (conditions t))"
    using assms(4) by (simp add: timer_polls_count [OF assms(1-3)])
  also have "\<dots> = concat (map (\<lambda>c. if ?P c then [end_message c] else []) (conditions t))"
    using assms(1,4,5) by (intro arg_cong [where f = concat] map_cong refl) (simp add: poll_count_nth)
  also have "\<dots> = map end_message (filter ?P (conditions t))"
    by (rule concat_if_filter)
  finally show ?thesis .
qed

subsection \<open>Reset\<close>

lemma startTimer_keeps: "c \<in> set cs \<Longrightarrow> \<not> tc_isEqual c tc \<Longrightarrow> c \<in> set (snd (startTimer tc cs))"
  by (induction cs) (auto split: prod.splits)

lemma resetTimer_keeps: "c \<in> set cs \<Longrightarrow> \<not> tc_isEqual c tc \<Longrightarrow> c \<in> set (snd (resetTimer tc cs))"
  by (auto simp: resetTimer_def split: list.splits)

text \<open>\<^verbatim>\<open>wait reset\<close> never stops a timer that \<^verbatim>\<open>wait set\<close> started: it compares
  the subtype as well, so every running condition stays in the list with its waiting time.\<close>

lemma timer_reset_keeps_running:
  assumes "mtype msg = ''wait''" and "msubtype msg = ''reset''"
    and "c \<in> set (conditions t)" and "tc_subtype c = ''set''"
  shows "c \<in> set (conditions (fst (timer_step u msg t))) \<and> snd (timer_step u msg t) = []"
proof -
  have "\<not> tc_isEqual c (tc_new u ''wait'' ''reset'' v)" for v
    using assms(4) by (simp add: tc_isEqual_def tc_new_def)
  with assms show ?thesis
    by (simp add: timer_step_def Let_def startTimer_keeps resetTimer_keeps)
qed

end
