(* ===== verification/Io_Devices.thy ===== *)
theory Io_Devices
  imports Effects
begin

text \<open>
  The input and output devices of \<^verbatim>\<open>src/agents/BBDevices\<close>: \<^verbatim>\<open>BinaryInput\<close>,
  \<^verbatim>\<open>BinaryOutput\<close>, \<^verbatim>\<open>TriStateOutput\<close> (two interlocked outputs, a motor that goes up
  or down), \<^verbatim>\<open>RawInput\<close> and \<^verbatim>\<open>RawOutput\<close>. Each operation takes one clock
  reading \<open>now\<close>; \<open>stamp\<close> is the compact time text of \<^verbatim>\<open>getasciitimecompact\<close>, \<open>u\<close> an
  uninitialised local and \<open>ub\<close> the value of a function that ends without a \<^verbatim>\<open>return\<close>.
\<close>

definition value_time :: "string \<Rightarrow> string \<Rightarrow> string \<Rightarrow> double \<Rightarrow> mmessage" where
  "value_time ty sty v t = m_add (m_add (m_new ty sty) ''value'' v) ''time'' (double2a t)"

definition remap :: "mparams \<Rightarrow> string \<Rightarrow> string" where
  "remap p v = (let t = mp_get_cat p v ''remap'' in if t = '''' then v else t)"

definition device_text :: "string \<Rightarrow> string \<Rightarrow> mparams \<Rightarrow> string" where
  "device_text ty v p = ''type='' @ quote @ ty @ quote @ '' value='' @ quote @ v @ quote
     @ '' status='' @ quote @ mp_get p ''status'' @ quote"

text \<open>\<^verbatim>\<open>Device::userType\<close>: the two letters before the first underscore.\<close>

definition userType :: "string \<Rightarrow> string" where
  "userType name =
     (if name = '''' then ''UN''
      else let t = takeWhile (\<lambda>c. c \<noteq> CHR ''_'') name in if length t = 2 then t else ''UN'')"

subsection \<open>Binary inputs\<close>

record binary_input =
  bi_params :: mparams
  bi_name :: string
  bi_status :: string
  bi_currentTime :: double
  bi_currentValue :: string
  bi_in :: string
  bi_delay :: string
  delay_table :: "(string, mmessage) smap"

definition bi_publish :: "binary_input \<Rightarrow> effect list" where
  "bi_publish d = [Publish (bi_name d) (device_text ''source'' (bi_currentValue d) (bi_params d))]"

definition bi_new :: "double \<Rightarrow> mparams \<Rightarrow> string \<Rightarrow> binary_input \<times> effect list" where
  "bi_new now p n =
     (let d = \<lparr>bi_params = p, bi_name = n,
               bi_status = (if mp_get p ''status'' \<noteq> '''' then mp_get p ''status'' else ''OFF''),
               bi_currentTime = now, bi_currentValue = ''0'', bi_in = mp_get_cat p ''input'' ''input'',
               bi_delay = (if mp_get p ''delay'' \<noteq> '''' then mp_get p ''delay'' else ''0''), delay_table = []\<rparr>
      in (d, bi_publish d))"

definition bi_setstatus :: "mmessage \<Rightarrow> binary_input \<Rightarrow> binary_input \<times> effect list" where
  "bi_setstatus m d =
     (let ns = m_getString m ''value'';
          (d', es) = (if (ns = ''ON'' \<or> ns = ''OFF'') \<and> mp_get (bi_params d) ''status'' \<noteq> ns
                      then let p = mp_add (bi_params d) ''status'' ns;
                               d1 = d\<lparr>bi_params := p, bi_status := ns\<rparr>
                           in (d1, SaveFile (mp_save p) # bi_publish d1)
                      else (d, []))
      in (d', es @ (if m_getString m ''tag'' \<noteq> ''''
                    then [RpcNotify (m_getString m ''tag'') ''value'' (''status='' @ bi_status d')] else [])))"

definition bi_update :: "double \<Rightarrow> string \<Rightarrow> string \<Rightarrow> string \<Rightarrow> binary_input \<Rightarrow> bool \<times> binary_input \<times> effect list" where
  "bi_update now stamp channel value d =
     (if mp_get (bi_params d) ''status'' = ''OFF'' then (False, d, [])
      else if channel = bi_in d
      then let tvalue = remap (bi_params d) value
           in if tvalue \<noteq> bi_currentValue d
              then let d1 = d\<lparr>bi_currentValue := tvalue, bi_currentTime := now\<rparr>;
                       m = value_time ''event'' (bi_name d) tvalue now
                   in if bi_delay d = ''0'' \<or> bi_delay d = '''' then (True, d1, Notify m # bi_publish d1)
                      else let key = bi_delay d @ ''_'' @ bi_name d @ ''$'' @ stamp
                           in if sm_count (delay_table d) key = 0
                              then (True, d1\<lparr>delay_table := sm_put key m (delay_table d)\<rparr>,
                                    [Notify (m_add (m\<lparr>mtype := ''wait'', msubtype := ''set''\<rparr>) ''value'' key)])
                              else (True, d1, [])
              else (True, d, [])
      else (False, d, []))"

definition bi_execcmd ::
  "bool \<Rightarrow> double \<Rightarrow> string \<Rightarrow> mmessage \<Rightarrow> binary_input \<Rightarrow> bool \<times> binary_input \<times> effect list" where
  "bi_execcmd ub now stamp m d =
     (if mp_get (bi_params d) ''status'' = ''OFF'' then (False, d, [])
      else if mtype m = ''wait'' \<and> msubtype m = ''end''
      then let key = m_getString m ''value''
           in case sm_find (delay_table d) key of
                Some held \<Rightarrow> (ub, d\<lparr>delay_table := sm_erase key (delay_table d)\<rparr>, [Notify held])
              | None \<Rightarrow> (ub, d, [])
      else bi_update now stamp (msubtype m) (m_getString m ''value'') d)"

definition bi_input :: "binary_input \<Rightarrow> mattribute list" where
  "bi_input d = [ma_new (bi_in d) ''input'' ''active'']"

definition bi_getObservations :: "binary_input \<Rightarrow> mparams \<Rightarrow> mparams" where
  "bi_getObservations d obs = mp_add_cat obs (bi_name d) ''observe'' ''set''"

definition bi_getSubjects :: "binary_input \<Rightarrow> mparams \<Rightarrow> mparams" where
  "bi_getSubjects d subj = mp_add_cat subj (bi_name d) ''subject'' ''event''"

subsection \<open>Binary outputs\<close>

record binary_output =
  bo_params :: mparams
  bo_name :: string
  bo_status :: string
  bo_currentTime :: double
  bo_currentValue :: string
  bo_duration :: string
  default_value :: string
  wait_condition :: string
  bo_out :: string

definition bo_publish :: "binary_output \<Rightarrow> effect list" where
  "bo_publish d = [Publish (bo_name d) (device_text ''target'' (bo_currentValue d) (bo_params d))]"

definition bo_save :: "binary_output \<Rightarrow> binary_output \<times> effect list" where
  "bo_save d = (let p = mp_add (bo_params d) ''value'' (bo_currentValue d)
                in (d\<lparr>bo_params := p\<rparr>, [SaveFile (mp_save p)]))"

definition bo_new :: "double \<Rightarrow> mparams \<Rightarrow> string \<Rightarrow> binary_output \<times> effect list" where
  "bo_new junk p n =
     (let g = mp_get p; dur = g ''duration'';
          dur' = (if dur = '''' \<or> dur = ''0'' \<or> dur = ''-1'' then ''0'' else dur);
          v1 = g ''value''; v2 = (if v1 = '''' then g ''default'' else v1);
          d = \<lparr>bo_params = p, bo_name = n, bo_status = (if g ''status'' \<noteq> '''' then g ''status'' else ''OFF''),
               bo_currentTime = junk, bo_currentValue = (if v2 = '''' then ''OFF'' else v2),
               bo_duration = dur', default_value = g ''default'',
               wait_condition = (if dur' \<noteq> ''0'' then dur @ ''_'' @ g ''name'' else ''''),
               bo_out = mp_get_cat p ''output'' ''output''\<rparr>
      in (d, bo_publish d))"

definition wait_message :: "string \<Rightarrow> string \<Rightarrow> mmessage" where
  "wait_message st v = m_add (m_new ''wait'' st) ''value'' v"

text \<open>The two notifications, the saved parameters and the published value of a change; the event
  carries \<open>evalue\<close>, the text of the message that caused the change.\<close>

definition bo_switch :: "double \<Rightarrow> string \<Rightarrow> string \<Rightarrow> binary_output \<Rightarrow> binary_output \<times> effect list" where
  "bo_switch now v evalue d =
     (let d1 = d\<lparr>bo_currentTime := now, bo_currentValue := v\<rparr>;
          m = value_time ''devcmd'' (bo_out d) (remap (bo_params d) v) now;
          ev = m_add (m\<lparr>mtype := ''event'', msubtype := mp_get (bo_params d) ''eventname''\<rparr>) ''value'' evalue;
          (d2, s) = bo_save d1
      in (d2, [Notify m, Notify ev] @ s @ bo_publish d2))"

definition bo_execcmd :: "double \<Rightarrow> mmessage \<Rightarrow> binary_output \<Rightarrow> bool \<times> binary_output \<times> effect list" where
  "bo_execcmd now msg d =
     (let value = m_getString msg ''value'';
          answer = (if m_getString msg ''tag'' \<noteq> ''''
                    then [RpcNotify (m_getString msg ''tag'') ''value'' (''value='' @ value)] else [])
      in if msubtype msg = bo_name d
         then if bo_currentValue d \<noteq> value
              then let (d2, es) = bo_switch now value value d
                   in (True, d2, es
                       @ (if bo_duration d2 \<noteq> ''0'' \<and> bo_currentValue d2 \<noteq> default_value d2
                          then [Notify (wait_message ''set'' (wait_condition d2))]
                          else if bo_duration d2 \<noteq> ''0'' \<and> bo_currentValue d2 = default_value d2
                          then [Notify (wait_message ''reset'' (wait_condition d2))] else []) @ answer)
              else (True, d, (if bo_currentValue d \<noteq> default_value d \<and> bo_duration d \<noteq> ''0''
                              then [Notify (wait_message ''set'' (wait_condition d))] else []) @ answer)
         else if mtype msg = ''wait'' \<and> msubtype msg = ''end''
         then if bo_currentValue d \<noteq> default_value d
              then let (d2, es) = bo_switch now (default_value d) value d in (True, d2, es)
              else (True, d, [])
         else (False, d, []))"

definition bo_output :: "binary_output \<Rightarrow> mattribute list" where
  "bo_output d = [ma_new (bo_out d) ''output'' ''active'']"

definition bo_getSubjects :: "binary_output \<Rightarrow> mparams \<Rightarrow> mparams" where
  "bo_getSubjects d subj =
     mp_add_cat (mp_add_cat subj (mp_get (bo_params d) ''eventname'') ''subject'' ''event'')
       (mp_get_cat (bo_params d) ''output'' ''output'') ''subject'' ''devcmd''"

definition bo_getObservations :: "binary_output \<Rightarrow> mparams \<Rightarrow> mparams" where
  "bo_getObservations d obs = mp_add_cat obs (bo_name d) ''observe'' ''cmd''"

subsection \<open>Three-state outputs\<close>

record tristate =
  ts_params :: mparams
  ts_name :: string
  ts_status :: string
  ts_currentTime :: double
  currentStatus :: string
  ts_duration :: string
  default_status :: string
  ts_wait_condition :: string
  out1 :: string
  out2 :: string
  ing1 :: string
  ing2 :: string
  ing1v :: string
  ing2v :: string

definition ts_publish :: "tristate \<Rightarrow> effect list" where
  "ts_publish d = [Publish (ts_name d) (device_text ''target'' (currentStatus d) (ts_params d))]"

definition ts_new :: "double \<Rightarrow> mparams \<Rightarrow> string \<Rightarrow> tristate \<times> effect list" where
  "ts_new junk p n =
     (let g = mp_get p; dur = g ''duration'';
          dur' = (if dur = '''' \<or> dur = ''0'' \<or> dur = ''-1'' then ''0'' else dur);
          d = \<lparr>ts_params = p, ts_name = n, ts_status = (if g ''status'' \<noteq> '''' then g ''status'' else ''OFF''),
               ts_currentTime = junk, currentStatus = g ''currentStatus'', ts_duration = dur',
               default_status = g ''default'',
               ts_wait_condition = (if dur' \<noteq> ''0'' then dur @ ''_'' @ g ''name'' else ''''),
               out1 = mp_get_cat p ''up_output'' ''output'', out2 = mp_get_cat p ''down_output'' ''output'',
               ing1 = mp_get_cat p ''up_input'' ''input'', ing2 = mp_get_cat p ''down_input'' ''input'',
               ing1v = (if g ''up_input_def_value'' = '''' then ''1'' else g ''up_input_def_value''),
               ing2v = (if g ''down_input_def_value'' = '''' then ''1'' else g ''down_input_def_value'')\<rparr>
      in (d, ts_publish d))"

definition ts_save :: "tristate \<Rightarrow> tristate \<times> effect list" where
  "ts_save d = (let p = mp_add (mp_add (ts_params d) ''status'' (ts_status d)) ''currentStatus'' (currentStatus d)
                in (d\<lparr>ts_params := p\<rparr>, [SaveFile (mp_save p)]))"

definition notifyEvent :: "string \<Rightarrow> tristate \<Rightarrow> tristate \<times> effect list" where
  "notifyEvent v d =
     (let (d1, s) = ts_save d
      in (d1, Notify (value_time ''event'' (mp_get (ts_params d) ''eventname'') v (ts_currentTime d))
              # s @ ts_publish d1))"

definition relay_message :: "tristate \<Rightarrow> string \<Rightarrow> string \<Rightarrow> mmessage" where
  "relay_message d out v =
     m_add (m_add (m_new ''devcmd'' out) ''time'' (double2a (ts_currentTime d))) ''value'' (remap (ts_params d) v)"

definition relay_effects :: "string \<Rightarrow> tristate \<Rightarrow> effect list" where
  "relay_effects ns d =
     (if ns = ''UP'' then [Notify (relay_message d (out2 d) ''OFF''), Notify (relay_message d (out1 d) ''ON'')]
      else if ns = ''DOWN'' then [Notify (relay_message d (out1 d) ''OFF''), Notify (relay_message d (out2 d) ''ON'')]
      else if ns = ''OFF'' then [Notify (relay_message d (out1 d) ''OFF''), Notify (relay_message d (out2 d) ''OFF'')]
      else [])"

definition docmdaction :: "string \<Rightarrow> tristate \<Rightarrow> tristate \<times> effect list" where
  "docmdaction ns d =
     (if currentStatus d \<noteq> ns
      then let (d2, fs) = notifyEvent ns (d\<lparr>currentStatus := ns\<rparr>)
           in (d2, relay_effects ns d
                 @ (if ts_duration d \<noteq> ''0'' \<and> ns \<noteq> default_status d
                    then [Notify (m_add (m_add (m_new ''wait'' ''set'') ''time'' (double2a (ts_currentTime d)))
                            ''value'' (ts_wait_condition d))] else []) @ fs)
      else notifyEvent ns d)"

text \<open>\<open>dowaitaction\<close> saves and publishes before it changes the status.\<close>

definition dowaitaction :: "tristate \<Rightarrow> tristate \<times> effect list" where
  "dowaitaction d =
     (if currentStatus d \<noteq> default_status d
      then let m = (\<lambda>out. value_time ''devcmd'' out (remap (ts_params d) (default_status d)) (ts_currentTime d));
               (d1, es) = notifyEvent (default_status d) d
           in (d1\<lparr>currentStatus := default_status d\<rparr>, Notify (m (out1 d)) # Notify (m (out2 d)) # es)
      else (d, []))"

definition checkUpcase :: "mmessage \<Rightarrow> mmessage" where
  "checkUpcase m =
     (let a = m_getString m ''value''
      in m_add m ''value'' (if a = ''off'' then ''OFF'' else if a = ''up'' then ''UP''
                            else if a = ''down'' then ''DOWN'' else a))"

definition ts_inputs :: "tristate \<Rightarrow> tristate \<times> effect list" where
  "ts_inputs d =
     (if ing1v d = ''0'' \<and> ing2v d = ''1'' then docmdaction ''UP'' d
      else if ing1v d = ''1'' \<and> ing2v d = ''0'' then docmdaction ''DOWN'' d
      else if ing1v d = ''1'' \<and> ing2v d = ''1'' then docmdaction ''OFF'' d
      else if ing1v d = ''0'' \<and> ing2v d = ''0'' then docmdaction ''UP'' d
      else (d, []))"

definition ts_execcmd :: "double \<Rightarrow> mmessage \<Rightarrow> tristate \<Rightarrow> bool \<times> tristate \<times> effect list" where
  "ts_execcmd now msg0 d0 =
     (let d = d0\<lparr>ts_currentTime := now\<rparr>; msg = checkUpcase msg0; v = m_getString msg ''value'';
          tag = m_getString msg ''tag''
      in if ts_status d = ''OFF'' then (False, d, [RpcNotify tag ''value'' ''value=none''])
         else if mtype msg = ''cmd'' \<and> msubtype msg = ts_name d
         then let (d1, es) = docmdaction v d
              in (True, d1, es @ (if tag \<noteq> '''' then [RpcNotify tag ''value'' (''value='' @ v)] else []))
         else if mtype msg = ''local_event''
         then let d1 = (if msubtype msg = ing1 d then d\<lparr>ing1v := v\<rparr>
                        else if msubtype msg = ing2 d then d\<lparr>ing2v := v\<rparr> else d);
                  (d2, es) = ts_inputs d1
              in (True, d2, es)
         else if mtype msg = ''wait'' \<and> msubtype msg = ''end''
         then let (d1, es) = dowaitaction d in (True, d1, es)
         else (False, d, []))"

definition ts_input :: "tristate \<Rightarrow> mattribute list" where
  "ts_input d = [ma_new (ing1 d) ''input'' ''active'', ma_new (ing2 d) ''input'' ''active'']"

definition ts_output :: "tristate \<Rightarrow> mattribute list" where
  "ts_output d = [ma_new (out1 d) ''output'' ''active'', ma_new (out2 d) ''output'' ''active'']"

definition ts_getSubjects :: "tristate \<Rightarrow> mparams \<Rightarrow> mparams" where
  "ts_getSubjects d subj =
     mp_add_cat (mp_add_cat (mp_add_cat subj (mp_get (ts_params d) ''eventname'') ''subject'' ''event'')
       (mp_get_cat (ts_params d) ''output1'' ''output'') ''subject'' ''devcmd'')
       (mp_get_cat (ts_params d) ''output2'' ''output'') ''subject'' ''devcmd''"

definition ts_getObservations :: "tristate \<Rightarrow> mparams \<Rightarrow> mparams" where
  "ts_getObservations d obs = mp_add_cat obs (ts_name d) ''observe'' ''cmd''"

subsection \<open>Raw channels\<close>

record raw_channel =
  rw_type :: string
  rw_name :: string
  rw_out :: string
  rw_status :: string
  rw_currentTime :: double
  rw_currentValue :: string

definition raw_remap :: "string \<Rightarrow> int \<Rightarrow> string \<Rightarrow> string \<Rightarrow> string" where
  "raw_remap boolty u rawtype v =
     (if rawtype = boolty \<and> v = ''ON'' then ''1''
      else if rawtype = boolty \<and> v = ''OFF'' then ''0''
      else if rawtype = boolty \<and> v = ''1'' then ''1''
      else if rawtype = boolty \<and> v = ''0'' then ''0''
      else if rawtype \<noteq> boolty then int2a (a2int u v) else ''0'')"

definition ri_new :: "double \<Rightarrow> mparams \<Rightarrow> raw_channel" where
  "ri_new junk p =
     \<lparr>rw_type = mp_get p ''type'', rw_name = ''V'' @ mp_get p ''capename'', rw_out = mp_get p ''capename'',
      rw_status = (if mp_get p ''status'' \<noteq> '''' then mp_get p ''status'' else ''ON''),
      rw_currentTime = junk, rw_currentValue = ''''\<rparr>"

definition ri_execcmd :: "int \<Rightarrow> double \<Rightarrow> mmessage \<Rightarrow> raw_channel \<Rightarrow> bool \<times> raw_channel \<times> effect list" where
  "ri_execcmd u now msg d =
     (let v = m_getString msg ''value''; t = raw_remap ''booleanin'' u (rw_type d) v
      in if msubtype msg = rw_name d
         then (True, d\<lparr>rw_currentTime := now, rw_currentValue := v\<rparr>,
               [Notify (value_time ''local_event'' (rw_out d) t now), Publish (rw_name d) t])
         else (False, d, []))"

definition ro_new :: "double \<Rightarrow> mparams \<Rightarrow> raw_channel" where
  "ro_new junk p =
     \<lparr>rw_type = mp_get p ''type'', rw_name = mp_get p ''capename'', rw_out = mp_get p ''capename'',
      rw_status = (if mp_get p ''status'' \<noteq> '''' then mp_get p ''status'' else ''ON''),
      rw_currentTime = junk, rw_currentValue = ''''\<rparr>"

definition ro_execcmd :: "int \<Rightarrow> double \<Rightarrow> mmessage \<Rightarrow> raw_channel \<Rightarrow> bool \<times> raw_channel \<times> effect list" where
  "ro_execcmd u now msg d =
     (let v = m_getString msg ''value''; t = raw_remap ''booleanout'' u (rw_type d) v
      in if msubtype msg = rw_name d
         then (True, d\<lparr>rw_currentTime := now, rw_currentValue := v\<rparr>,
               [Notify (value_time ''devcmd'' (rw_out d) t now)])
         else (False, d, []))"

subsection \<open>The interlock of a three-state output\<close>

text \<open>The relays as the commands on the bus drive them: after every message, not only at the end,
  the two outputs must not both be on.\<close>

definition relay_step :: "mmessage \<Rightarrow> (string \<Rightarrow> string) \<Rightarrow> (string \<Rightarrow> string)" where
  "relay_step m r = (if mtype m = ''devcmd'' then r(msubtype m := m_getString m ''value'') else r)"

fun relays_safe :: "string \<Rightarrow> string \<Rightarrow> string \<Rightarrow> mmessage list \<Rightarrow> (string \<Rightarrow> string) \<Rightarrow> bool" where
  "relays_safe a b on [] r = (\<not> (r a = on \<and> r b = on))"
| "relays_safe a b on (m # ms) r = (\<not> (r a = on \<and> r b = on) \<and> relays_safe a b on ms (relay_step m r))"

definition ts_ok :: "tristate \<Rightarrow> bool" where
  "ts_ok d \<longleftrightarrow> out1 d \<noteq> out2 d \<and> remap (ts_params d) ''ON'' \<noteq> remap (ts_params d) ''OFF''
     \<and> remap (ts_params d) (default_status d) \<noteq> remap (ts_params d) ''ON''"

fun ts_run :: "(double \<times> mmessage) list \<Rightarrow> tristate \<Rightarrow> tristate \<times> effect list" where
  "ts_run [] d = (d, [])"
| "ts_run ((now, m) # ms) d =
     (let (b, d1, es) = ts_execcmd now m d; (d2, fs) = ts_run ms d1 in (d2, es @ fs))"

text \<open>What stays the same: outputs, mapping and default.\<close>

definition ts_same :: "tristate \<Rightarrow> tristate \<Rightarrow> bool" where
  "ts_same d e \<longleftrightarrow> out1 e = out1 d \<and> out2 e = out2 d \<and> default_status e = default_status d
     \<and> (\<forall>v. remap (ts_params e) v = remap (ts_params d) v)"

lemma ts_same_refl [simp]: "ts_same d d"
  by (simp add: ts_same_def)

lemma ts_same_trans: "ts_same d e \<Longrightarrow> ts_same e f \<Longrightarrow> ts_same d f"
  by (simp add: ts_same_def)

lemma ts_same_ok: "ts_same d e \<Longrightarrow> ts_ok d \<Longrightarrow> ts_ok e"
  by (simp add: ts_same_def ts_ok_def)

lemma remap_add [simp]: "remap (mp_add p n w) v = remap p v"
  by (simp add: remap_def mp_add_as_cat mp_get_cat_add_other)

lemma ts_same_fields [simp]: "ts_same d (e\<lparr>currentStatus := s\<rparr>) = ts_same d e"
  "ts_same d (e\<lparr>ts_currentTime := t\<rparr>) = ts_same d e" "ts_same d (e\<lparr>ing1v := s\<rparr>) = ts_same d e"
  "ts_same d (e\<lparr>ing2v := s\<rparr>) = ts_same d e"
  by (simp_all add: ts_same_def)

lemma ts_same_notifyEvent [simp]: "ts_same d (fst (notifyEvent v e)) = ts_same d e"
  by (simp add: notifyEvent_def ts_save_def ts_same_def Let_def)

lemma relays_safe_append:
  "relays_safe a b on (xs @ ys) r \<longleftrightarrow> relays_safe a b on xs r \<and> relays_safe a b on ys (fold relay_step xs r)"
  by (induction xs arbitrary: r) (auto elim: relays_safe.elims)

lemma relays_safe_last: "relays_safe a b on xs r \<Longrightarrow> \<not> (fold relay_step xs r a = on \<and> fold relay_step xs r b = on)"
  by (induction xs arbitrary: r) auto

text \<open>A block of effects is safe when every safe state of the relays stays safe through it.\<close>

definition safe_block :: "tristate \<Rightarrow> effect list \<Rightarrow> bool" where
  "safe_block d es \<longleftrightarrow> (\<forall>r. \<not> (r (out1 d) = remap (ts_params d) ''ON'' \<and> r (out2 d) = remap (ts_params d) ''ON'') \<longrightarrow>
     relays_safe (out1 d) (out2 d) (remap (ts_params d) ''ON'') (notified es) r)"

lemma safe_block_Nil [simp]: "notified es = [] \<Longrightarrow> safe_block d es"
  by (simp add: safe_block_def)

lemma safe_block_append: "safe_block d es \<Longrightarrow> safe_block d fs \<Longrightarrow> safe_block d (es @ fs)"
  unfolding safe_block_def notified_append relays_safe_append using relays_safe_last by blast

lemma safe_block_same: "ts_same d e \<Longrightarrow> safe_block e es = safe_block d es"
  by (simp add: safe_block_def ts_same_def)

lemma safe_block_other: "mtype m \<noteq> ''devcmd'' \<Longrightarrow> safe_block d [Notify m]"
  by (auto simp: safe_block_def relay_step_def)

lemma safe_block_notifyEvent: "safe_block d (snd (notifyEvent v e))"
proof -
  have "notified (snd (notifyEvent v e)) = [value_time ''event'' (mp_get (ts_params e) ''eventname'') v (ts_currentTime e)]"
    by (simp add: notifyEvent_def ts_save_def ts_publish_def Let_def)
  moreover have "mtype (value_time ''event'' a b c) \<noteq> ''devcmd''" for a b c
    by (simp add: value_time_def m_new_def)
  ultimately show ?thesis
    using safe_block_other [of "value_time ''event'' (mp_get (ts_params e) ''eventname'') v (ts_currentTime e)" d]
    by (simp add: safe_block_def)
qed

lemma relay_step_message [simp]: "relay_step (relay_message d out v) r = r(out := remap (ts_params d) v)"
  by (simp add: relay_step_def relay_message_def m_getString_add_fresh m_add_def m_new_def m_getString_def)

lemma relay_step_value_time [simp]: "relay_step (value_time ''devcmd'' out v t) r = r(out := v)"
  by (simp add: relay_step_def value_time_def m_add_def m_new_def m_getString_def)

lemma safe_block_pair:
  assumes "ts_ok d" and "notified es = [m, n]" and "\<And>r. relay_step m r = r(a := v)" "\<And>r. relay_step n r = r(b := w)"
    and "(a, b) = (out1 d, out2 d) \<or> (a, b) = (out2 d, out1 d)" and "v \<noteq> remap (ts_params d) ''ON''"
  shows "safe_block d es"
  using assms by (auto simp: safe_block_def ts_ok_def)

lemma docmdaction_safe: "ts_ok d \<Longrightarrow> safe_block d (snd (docmdaction ns d)) \<and> ts_same d (fst (docmdaction ns d))"
proof -
  assume ok: "ts_ok d"
  let ?wait = "[Notify (m_add (m_add (m_new ''wait'' ''set'') ''time'' (double2a (ts_currentTime d))) ''value'' (ts_wait_condition d))]"
  have w: "safe_block d ?wait" by (rule safe_block_other) (simp add: m_new_def)
  have p: "safe_block d [Notify (relay_message d a ''OFF''), Notify (relay_message d b v)]"
    if "(a, b) = (out1 d, out2 d) \<or> (a, b) = (out2 d, out1 d)" for a b v
    using ok that by (intro safe_block_pair [where v = "remap (ts_params d) ''OFF''"]) (auto simp: ts_ok_def)
  have r: "safe_block d (relay_effects ns d)" by (simp add: relay_effects_def p)
  let ?e = "d\<lparr>currentStatus := ns\<rparr>"
  have "safe_block d (relay_effects ns d @ (if ts_duration d \<noteq> ''0'' \<and> ns \<noteq> default_status d then ?wait else [])
      @ snd (notifyEvent ns ?e))"
    using w by (intro safe_block_append r safe_block_notifyEvent) simp
  then show ?thesis
    by (simp add: docmdaction_def case_prod_beta safe_block_notifyEvent)
qed

lemma ts_inputs_safe: "ts_ok d \<Longrightarrow> safe_block d (snd (ts_inputs d)) \<and> ts_same d (fst (ts_inputs d))"
  by (simp add: ts_inputs_def docmdaction_safe)

lemma dowaitaction_safe: "ts_ok d \<Longrightarrow> safe_block d (snd (dowaitaction d)) \<and> ts_same d (fst (dowaitaction d))"
proof -
  assume ok: "ts_ok d"
  let ?v = "remap (ts_params d) (default_status d)"
  let ?m = "\<lambda>out. value_time ''devcmd'' out ?v (ts_currentTime d)"
  have "safe_block d [Notify (?m (out1 d)), Notify (?m (out2 d))]"
    using ok by (intro safe_block_pair [where v = ?v]) (auto simp: ts_ok_def)
  then have "safe_block d ([Notify (?m (out1 d)), Notify (?m (out2 d))] @ snd (notifyEvent (default_status d) d))"
    by (intro safe_block_append safe_block_notifyEvent)
  then show ?thesis by (simp add: dowaitaction_def Let_def case_prod_beta)
qed

lemma ts_execcmd_safe:
  assumes "ts_ok d" and "ts_execcmd now m d = (b, d', es)"
  shows "safe_block d es \<and> ts_same d d'"
proof -
  have lift: "safe_block d (snd (f e)) \<and> ts_same d (fst (f e))"
    if "ts_same d e" and "\<And>e. ts_ok e \<Longrightarrow> safe_block e (snd (f e)) \<and> ts_same e (fst (f e))"
    for f :: "tristate \<Rightarrow> tristate \<times> effect list" and e
    using that(2) [OF ts_same_ok [OF that(1) assms(1)]] safe_block_same [OF that(1)] ts_same_trans [OF that(1)] by blast
  have doc: "safe_block d (snd (docmdaction v e)) \<and> ts_same d (fst (docmdaction v e))" if "ts_same d e" for v e
    by (rule lift [OF that]) (rule docmdaction_safe)
  note blocks = lift [OF _ ts_inputs_safe] lift [OF _ dowaitaction_safe]
  let ?d = "d\<lparr>ts_currentTime := now\<rparr>"
  let ?m = "checkUpcase m"
  consider "ts_status d = ''OFF''" | "ts_status d \<noteq> ''OFF''" "mtype ?m = ''cmd''" "msubtype ?m = ts_name d"
    | "ts_status d \<noteq> ''OFF''" "mtype ?m = ''local_event''"
    | "ts_status d \<noteq> ''OFF''" "\<not> (mtype ?m = ''cmd'' \<and> msubtype ?m = ts_name d)" "mtype ?m \<noteq> ''local_event''" by blast
  then show ?thesis
  proof cases
    case 1
    with assms(2) show ?thesis by (auto simp: ts_execcmd_def Let_def)
  next
    case 2
    have "safe_block d (snd (docmdaction v ?d) @ (if b then [RpcNotify x y z] else []))" for v b x y z
      using doc [of ?d v] by (intro safe_block_append) simp_all
    with 2 assms(2) doc [of ?d] show ?thesis by (auto simp: ts_execcmd_def Let_def case_prod_beta)
  next
    case 3
    let ?e = "if msubtype ?m = ing1 ?d then ?d\<lparr>ing1v := m_getString ?m ''value''\<rparr>
        else if msubtype ?m = ing2 ?d then ?d\<lparr>ing2v := m_getString ?m ''value''\<rparr> else ?d"
    have s: "ts_same d ?e" by simp
    have "es = snd (ts_inputs ?e)" and "d' = fst (ts_inputs ?e)"
      using 3 assms(2) by (simp_all add: ts_execcmd_def Let_def case_prod_beta)
    with blocks(1) [OF s] show ?thesis by simp
  next
    case 4
    with assms(2) blocks(2) [of ?d] show ?thesis
      by (auto simp: ts_execcmd_def Let_def case_prod_beta split: if_splits)
  qed
qed

lemma ts_run_safe: "ts_ok d \<Longrightarrow> safe_block d (snd (ts_run ms d)) \<and> ts_same d (fst (ts_run ms d))"
proof (induction ms arbitrary: d)
  case Nil
  then show ?case by simp
next
  case (Cons m ms)
  obtain now msg where m: "m = (now, msg)" by (cases m)
  obtain b d1 es where e: "ts_execcmd now msg d = (b, d1, es)" by (metis prod_cases3)
  note s = ts_execcmd_safe [OF Cons.prems e]
  note ih = Cons.IH [OF ts_same_ok [OF conjunct2 [OF s] Cons.prems]]
  have "safe_block d (snd (ts_run ms d1))" and "ts_same d (fst (ts_run ms d1))"
    using s ih safe_block_same ts_same_trans by blast+
  with s show ?case by (simp add: m e case_prod_beta safe_block_append)
qed

text \<open>C3: the two relays of a three-state output (a motor that goes up or down) are never both
  on, after every single command on the bus and for every sequence of messages the device handles:
  commands, changes of its two inputs and ends of its wait. The output names must differ, and the
  configured mapping must not send OFF or the default status to the text that switches a relay on.\<close>

theorem tristate_interlock:
  assumes "ts_ok d" and "\<not> (r (out1 d) = remap (ts_params d) ''ON'' \<and> r (out2 d) = remap (ts_params d) ''ON'')"
  shows "relays_safe (out1 d) (out2 d) (remap (ts_params d) ''ON'') (notified (snd (ts_run ms d))) r"
  using ts_run_safe [OF assms(1), of ms] assms(2) by (simp add: safe_block_def)

definition shutter :: tristate where
  "shutter = fst (ts_new 0 (mp_add_cat (mp_add_cat (mp_add (mp_add (mp_new ''conf'' ''home'' ''shutter'') ''default'' ''OFF'')
       ''status'' ''ON'') ''up_output'' ''output'' ''o1'') ''down_output'' ''output'' ''o2'') ''shutter'')"

theorem tristate_interlock_witness:
  "ts_ok shutter \<and> relays_safe ''o1'' ''o2'' ''ON''
     (notified (snd (ts_run [(1, m_add (m_new ''cmd'' ''shutter'') ''value'' ''UP''),
                             (2, m_add (m_new ''cmd'' ''shutter'') ''value'' ''DOWN'')] shutter))) (\<lambda>_. ''OFF'')"
proof -
  have f: "out1 shutter = ''o1''" "out2 shutter = ''o2''" "remap (ts_params shutter) ''ON'' = ''ON''" by code_simp+
  have "ts_ok shutter" by code_simp
  with tristate_interlock [OF this, of "\<lambda>_. ''OFF''"] show ?thesis by (simp add: f del: ts_run.simps)
qed

subsection \<open>Timed outputs\<close>

definition devcmds :: "effect list \<Rightarrow> (string \<times> string) list" where
  "devcmds es = map (\<lambda>m. (msubtype m, m_getString m ''value'')) (filter (\<lambda>m. mtype m = ''devcmd'') (notified es))"

definition waits :: "effect list \<Rightarrow> (string \<times> string) list" where
  "waits es = map (\<lambda>m. (msubtype m, m_getString m ''value'')) (filter (\<lambda>m. mtype m = ''wait'') (notified es))"

lemma value_time_fields [simp]: "mtype (value_time ty s v t) = ty" "msubtype (value_time ty s v t) = s"
  "m_getString (value_time ty s v t) ''value'' = v"
  by (simp_all add: value_time_def m_new_def m_add_def m_getString_def)

lemma wait_message_fields [simp]: "mtype (wait_message s v) = ''wait''" "msubtype (wait_message s v) = s"
  "m_getString (wait_message s v) ''value'' = v"
  by (simp_all add: wait_message_def m_new_def m_add_def m_getString_def)

lemma bo_switch_effects:
  assumes "bo_switch now v w d = (d', es)"
  shows "devcmds es = [(bo_out d, remap (bo_params d) v)]" and "waits es = []"
    and "bo_currentValue d' = v" and "bo_name d' = bo_name d" and "bo_duration d' = bo_duration d"
    and "default_value d' = default_value d" and "wait_condition d' = wait_condition d" and "bo_out d' = bo_out d"
    and "\<And>x. remap (bo_params d') x = remap (bo_params d) x"
    and "v \<noteq> '''' \<Longrightarrow> mp_get (bo_params d') ''value'' = v"
  using assms by (auto simp: bo_switch_def bo_save_def bo_publish_def devcmds_def waits_def Let_def mp_get_add)

lemma devcmds_append [simp]: "devcmds (xs @ ys) = devcmds xs @ devcmds ys"
  by (simp add: devcmds_def)

lemma waits_append [simp]: "waits (xs @ ys) = waits xs @ waits ys"
  by (simp add: waits_def)

text \<open>A binary output with a duration that is switched away from its default sends exactly
  one command, asks the timer for its wait condition, and the end of that wait sends exactly one
  more command, with the mapped default; the saved parameters and the current value are then the
  default again.\<close>

lemma timed_output_returns:
  assumes "msubtype msg = bo_name d" and "m_getString msg ''value'' = v" and "v \<noteq> bo_currentValue d"
    and "v \<noteq> default_value d" and "bo_duration d \<noteq> ''0''" and "bo_name d \<noteq> ''end''" and "default_value d \<noteq> ''''"
    and "bo_execcmd now msg d = (b1, d1, es)"
    and "bo_execcmd later (m_add (m_new ''wait'' ''end'') ''value'' (wait_condition d)) d1 = (b2, d2, fs)"
  shows "devcmds es = [(bo_out d, remap (bo_params d) v)] \<and> waits es = [(''set'', wait_condition d)]
    \<and> devcmds fs = [(bo_out d, remap (bo_params d) (default_value d))] \<and> waits fs = []
    \<and> bo_currentValue d2 = default_value d \<and> mp_get (bo_params d2) ''value'' = default_value d"
proof -
  obtain e es1 where s: "bo_switch now v v d = (e, es1)" by (metis surj_pair)
  note s1 = bo_switch_effects [OF s]
  have d1: "d1 = e" and es: "devcmds es = devcmds es1 @ []" "waits es = [(''set'', wait_condition d)]"
    using assms(1-8) s s1 by (auto simp: bo_execcmd_def Let_def devcmds_def waits_def)
  obtain g gs where s': "bo_switch later (default_value d) (wait_condition d) e = (g, gs)" by (metis surj_pair)
  note s2 = bo_switch_effects [OF s']
  have "m_getString (m_add (m_new ''wait'' ''end'') ''value'' x) ''value'' = x" for x
    by (simp add: m_new_def m_add_def m_getString_def)
  moreover have "msubtype (m_add (m_new ''wait'' ''end'') ''value'' x) = ''end''"
    "mtype (m_add (m_new ''wait'' ''end'') ''value'' x) = ''wait''" for x
    by (simp_all add: m_new_def)
  ultimately have "d2 = g" "fs = gs"
    using assms(4,6,9) s1 s' d1 by (auto simp: bo_execcmd_def Let_def)
  with es d1 s1 s2 assms(7) show ?thesis by simp
qed

subsection \<open>The devices behind the common contract\<close>

interpretation binary_in: device "\<lambda>_. True" "\<lambda>m d. Some (bi_execcmd ub now stamp m d)"
  by unfold_locales simp_all

interpretation binary_out: device "\<lambda>_. True" "\<lambda>m d. Some (bo_execcmd now m d)"
  by unfold_locales simp_all

interpretation three_state: device ts_ok "\<lambda>m d. Some (ts_execcmd now m d)"
  using ts_execcmd_safe ts_same_ok by unfold_locales (simp, force)

end
