(* ===== verification/Math_Expression.thy ===== *)
theory Math_Expression
  imports Hsrv
begin

text \<open>
  The expressions of the power control, \<^verbatim>\<open>src/agents/PwrControl/mathexpression.cpp\<close>: a
  tokenizer, a parser to postfix form with a stack of operators, and an evaluator with a stack of
  numbers. \<open>pw\<close> is the function \<^verbatim>\<open>pow\<close> of the C library.
\<close>

subsection \<open>Symbols\<close>

definition isMathOperator :: "string \<Rightarrow> bool" where
  "isMathOperator s \<longleftrightarrow> s \<in> {''+'', ''-'', ''*'', ''/'', ''^''}"

definition isBoolOperator :: "string \<Rightarrow> bool" where
  "isBoolOperator s \<longleftrightarrow> s \<in> {''<'', ''>'', ''=='', ''>='', ''<='', ''&&'', ''||''}"

definition isOperator :: "string \<Rightarrow> bool" where
  "isOperator s \<longleftrightarrow> isMathOperator s \<or> isBoolOperator s"

definition isDelim :: "char \<Rightarrow> bool" where
  "isDelim c \<longleftrightarrow> c \<in> set '' +-*/^<=&|''"

definition isSymbol :: "string \<Rightarrow> bool" where
  "isSymbol s \<longleftrightarrow> (\<exists>c \<in> set s. c \<notin> set ''0123456789.'')"

definition specialSymbol :: "string \<Rightarrow> bool" where
  "specialSymbol s \<longleftrightarrow> s \<in> {''ON'', ''OFF'', ''UP'', ''DOWN'', ''TRUE'', ''FALSE''}"

definition precedence :: "string \<Rightarrow> string \<Rightarrow> int" where
  "precedence s1 s2 =
     (if s1 = ''^'' then (if s2 = ''^'' then 0 else 1)
      else if s1 \<in> {''*'', ''/''} then (if s2 = ''^'' then -1 else if s2 \<in> {''*'', ''/''} then 0 else 1)
      else if s1 \<in> {''+'', ''-''}
      then (if s2 \<in> {''^'', ''*'', ''/''} then -1 else if s2 \<in> {''+'', ''-''} then 0 else 1)
      else if s1 \<in> {''<'', ''>'', ''=='', ''>='', ''<=''}
      then (if s2 \<in> {''<'', ''>'', ''=='', ''>='', ''<=''} then 0 else if s2 \<in> {''||'', ''&&''} then 1 else -1)
      else -1)"

subsection \<open>Tokens\<close>

definition push_sym :: "string \<Rightarrow> string list \<Rightarrow> string list" where
  "push_sym sy toks = (if sy \<noteq> '''' then toks @ [sy] else toks)"

text \<open>The last character is treated after the loop: a closing parenthesis there pushes the symbol
  before it even when that is empty.\<close>

fun tok_loop :: "bool \<Rightarrow> string \<Rightarrow> string list \<Rightarrow> string \<Rightarrow> string list" where
  "tok_loop flag sy toks [] = toks"
| "tok_loop flag sy toks [c] =
     (if \<not> isDelim c \<and> c \<noteq> CHR '')'' then push_sym (sy @ [c]) toks
      else if c = CHR '')'' then push_sym [c] (toks @ [sy])
      else push_sym sy toks)"
| "tok_loop flag sy toks (c # d # s) =
     (if c = CHR '' '' then tok_loop False '''' (push_sym sy toks) (d # s)
      else if c \<in> set ''+-/*^()'' then tok_loop flag '''' (push_sym sy toks @ [[c]]) (d # s)
      else if c \<in> set ''<>&|=''
      then let toks1 = (if flag then toks else push_sym sy toks);
               sy1 = (if flag then sy else '''') @ [c]
           in if \<not> isDelim d then tok_loop flag '''' (push_sym sy1 toks1) (d # s)
              else tok_loop True sy1 toks1 (d # s)
      else tok_loop flag (sy @ [c]) toks (d # s))"

text \<open>On the empty text the bound \<^verbatim>\<open>s.size()-1\<close> wraps and the loop leaves the string.\<close>

definition tokenize :: "string \<Rightarrow> (string list) option" where
  "tokenize s = (if s = [] then None else Some (tok_loop False '''' [] s))"

subsection \<open>Postfix form\<close>

type_synonym pstate = "string list \<times> string list"

definition parse_step :: "string \<Rightarrow> pstate \<Rightarrow> pstate" where
  "parse_step t os =
     (let (out, st) = os
      in if t = ''('' then (out, t # st)
         else if isOperator t \<and> st = [] then (out, [t])
         else if isOperator t
         then let P = (\<lambda>s. s \<noteq> ''('' \<and> precedence s t \<ge> 0) in (out @ takeWhile P st, t # dropWhile P st)
         else if t = '')''
         then (out @ takeWhile (\<lambda>s. s \<noteq> ''('') st, tl (dropWhile (\<lambda>s. s \<noteq> ''('') st))
         else (out @ [t], st))"

definition parse_end :: "pstate \<Rightarrow> bool \<times> string list" where
  "parse_end os = (let (out, st) = os
                   in (dropWhile (\<lambda>s. s \<noteq> ''('') st = [], out @ takeWhile (\<lambda>s. s \<noteq> ''('') st))"

definition me_parse :: "string \<Rightarrow> string list \<Rightarrow> (bool \<times> string list) option" where
  "me_parse s old = map_option (\<lambda>toks. parse_end (fold parse_step toks (old, []))) (tokenize s)"

subsection \<open>Evaluation\<close>

type_synonym symtab = "(string, double) smap"

definition fill_one :: "double \<Rightarrow> string \<Rightarrow> symtab \<Rightarrow> symtab" where
  "fill_one u t tab =
     (if isOperator t then tab
      else if isSymbol t then (if specialSymbol t then tab else sm_put t 0 tab)
      else sm_put t (a2double u t) tab)"

definition fillTable :: "double \<Rightarrow> string list \<Rightarrow> symtab \<Rightarrow> symtab" where
  "fillTable u ex tab = fold (fill_one u) ex tab"

definition EPSILON :: double where "EPSILON = 1 / 1000000000000"

definition evalOP :: "(double \<Rightarrow> double \<Rightarrow> double) \<Rightarrow> string \<Rightarrow> double \<Rightarrow> double \<Rightarrow> double" where
  "evalOP pw op a b =
     (if op = ''+'' then a + b
      else if op = ''-'' then a - b
      else if op = ''*'' then a * b
      else if op = ''/'' then (if b \<noteq> 0 then a / b else 0)
      else if op = ''^'' then pw a b
      else if op = ''<'' then (if a < b then 1 else 0)
      else if op = ''<='' then (if a \<le> b then 1 else 0)
      else if op = ''>'' then (if a > b then 1 else 0)
      else if op = ''>='' then (if a \<ge> b then 1 else 0)
      else if op = ''=='' then (if a + EPSILON > b \<and> a < b + EPSILON then 1 else 0)
      else if op = ''&&'' then (if a > 0 \<and> b > 0 then 1 else 0)
      else if op = ''||'' then (if a > 0 \<or> b > 0 then 1 else 0)
      else 0)"

text \<open>Reading an absent symbol of the table inserts it with the value zero.\<close>

definition sym_read :: "string \<Rightarrow> symtab \<Rightarrow> double \<times> symtab" where
  "sym_read t tab = (case sm_find tab t of Some v \<Rightarrow> (v, tab) | None \<Rightarrow> (0, sm_insert t 0 tab))"

fun eval_loop :: "(double \<Rightarrow> double \<Rightarrow> double) \<Rightarrow> string list \<Rightarrow> double list \<Rightarrow> symtab \<Rightarrow> double list \<times> symtab" where
  "eval_loop pw [] st tab = (st, tab)"
| "eval_loop pw (t # ts) st tab =
     (if isOperator t \<and> length st > 1
      then eval_loop pw ts (evalOP pw t (st ! 1) (st ! 0) # drop 2 st) tab
      else let (v, tab') = sym_read t tab in eval_loop pw ts (v # st) tab')"

definition evaluate :: "(double \<Rightarrow> double \<Rightarrow> double) \<Rightarrow> string list \<Rightarrow> symtab \<Rightarrow> double \<times> symtab" where
  "evaluate pw ex tab =
     (let (st, tab') = eval_loop pw ex [] tab in (case st of [] \<Rightarrow> 0 | v # _ \<Rightarrow> v, tab'))"

definition me_eval :: "(double \<Rightarrow> double \<Rightarrow> double) \<Rightarrow> string list \<Rightarrow> symtab \<Rightarrow> string \<times> symtab" where
  "me_eval pw ex tab =
     (if ex = [] then ('''', tab)
      else if length ex = 1 \<and> specialSymbol (ex ! 0) then (ex ! 0, tab)
      else let (r, tab') = evaluate pw ex tab in (double2a r, tab'))"

definition me_match :: "(double \<Rightarrow> double \<Rightarrow> double) \<Rightarrow> string list \<Rightarrow> symtab \<Rightarrow> bool \<times> symtab" where
  "me_match pw ex tab = (let (r, tab') = evaluate pw ex tab in (r > 0, tab'))"

subsection \<open>Expressions\<close>

datatype expr = Atom string | Bin string expr expr

definition lvl :: "string \<Rightarrow> nat" where
  "lvl s = (if s = ''^'' then 4 else if s \<in> {''*'', ''/''} then 3 else if s \<in> {''+'', ''-''} then 2
            else if s \<in> {''<'', ''>'', ''=='', ''>='', ''<=''} then 1 else 0)"

text \<open>Infix form with the parentheses that are needed: arithmetic and comparison associate to the
  left, the two connectives share one level and associate to the right.\<close>

fun infix_at :: "nat \<Rightarrow> expr \<Rightarrow> string list" where
  "infix_at n (Atom a) = [a]"
| "infix_at n (Bin p l r) =
     (let body = infix_at (max 1 (lvl p)) l @ [p] @ infix_at (if lvl p = 0 then 0 else lvl p + 1) r
      in if lvl p < n then ''('' # body @ ['')''] else body)"

fun postfix_of :: "expr \<Rightarrow> string list" where
  "postfix_of (Atom a) = [a]"
| "postfix_of (Bin p l r) = postfix_of l @ postfix_of r @ [p]"

fun denote :: "(double \<Rightarrow> double \<Rightarrow> double) \<Rightarrow> symtab \<Rightarrow> expr \<Rightarrow> double" where
  "denote pw tab (Atom a) = (case sm_find tab a of Some v \<Rightarrow> v | None \<Rightarrow> 0)"
| "denote pw tab (Bin p l r) = evalOP pw p (denote pw tab l) (denote pw tab r)"

definition is_name :: "string \<Rightarrow> bool" where
  "is_name a \<longleftrightarrow> a \<noteq> '''' \<and> (\<forall>c \<in> set a. c \<notin> set '' +-/*^()<>&|='')"

fun expr_ok :: "expr \<Rightarrow> bool" where
  "expr_ok (Atom a) = is_name a"
| "expr_ok (Bin p l r) = (isOperator p \<and> expr_ok l \<and> expr_ok r)"

definition operators :: "string list" where
  "operators = [''+'', ''-'', ''*'', ''/'', ''^'', ''<'', ''>'', ''=='', ''>='', ''<='', ''&&'', ''||'']"

lemma isOperator_iff: "isOperator s \<longleftrightarrow> s \<in> set operators"
  unfolding isOperator_def isMathOperator_def isBoolOperator_def operators_def by simp

text \<open>Facts about the operators are checked on their list.\<close>

lemma all_operators: "isOperator p \<Longrightarrow> \<forall>s \<in> set operators. P s \<Longrightarrow> P p"
  by (simp add: isOperator_iff)

lemma precedence_lvl:
  assumes "isOperator s" and "isOperator t"
  shows "0 \<le> precedence s t \<longleftrightarrow> lvl t \<le> lvl s \<and> 0 < lvl s"
proof -
  have "\<forall>s \<in> set operators. \<forall>t \<in> set operators. 0 \<le> precedence s t \<longleftrightarrow> lvl t \<le> lvl s \<and> 0 < lvl s" by code_simp
  with assms show ?thesis by (simp add: isOperator_iff)
qed

lemma operator_chars: "isOperator p \<Longrightarrow> p \<noteq> '''' \<and> set p \<subseteq> set ''+-/*^<>&|='' \<and> p \<noteq> ''('' \<and> p \<noteq> '')''"
  by (erule all_operators) code_simp

lemma operator_not_paren: "isOperator p \<Longrightarrow> p \<noteq> ''('' \<and> p \<noteq> '')''"
  using operator_chars by blast

lemma is_name_not_operator: "is_name a \<Longrightarrow> \<not> isOperator a" "is_name a \<Longrightarrow> a \<noteq> ''(''" "is_name a \<Longrightarrow> a \<noteq> '')''"
proof -
  assume n: "is_name a"
  have "\<not> is_name ''(''" "\<not> is_name '')''" by code_simp+
  with n show "a \<noteq> ''(''" "a \<noteq> '')''" by metis+
  obtain c where c: "c \<in> set a" using n by (cases a) (auto simp: is_name_def)
  show "\<not> isOperator a"
  proof
    assume "isOperator a"
    with operator_chars c have "c \<in> set ''+-/*^<>&|=''" by blast
    moreover have "set ''+-/*^<>&|='' \<subseteq> set '' +-/*^()<>&|=''" by code_simp
    moreover have "c \<notin> set '' +-/*^()<>&|=''" using n c unfolding is_name_def by blast
    ultimately show False by blast
  qed
qed

text \<open>No operator of level \<open>n\<close> or more takes anything off the stack.\<close>

definition shielded :: "nat \<Rightarrow> string list \<Rightarrow> bool" where
  "shielded n st \<longleftrightarrow> (case st of [] \<Rightarrow> True | s # _ \<Rightarrow> s = ''('' \<or> isOperator s \<and> (lvl s < n \<or> lvl s = 0))"

lemma shielded_mono: "shielded n st \<Longrightarrow> n \<le> m \<Longrightarrow> shielded m st"
  by (auto simp: shielded_def split: list.splits)

lemma shielded_op: "shielded n st \<Longrightarrow> isOperator p \<Longrightarrow> n \<le> lvl p \<Longrightarrow>
  takeWhile (\<lambda>s. s \<noteq> ''('' \<and> precedence s p \<ge> 0) st = [] \<and> dropWhile (\<lambda>s. s \<noteq> ''('' \<and> precedence s p \<ge> 0) st = st"
  by (cases st) (auto simp: shielded_def precedence_lvl)

lemma parse_step_op:
  assumes "isOperator p" and "shielded n st" and "n \<le> lvl p" and "\<forall>s \<in> set pend. isOperator s \<and> lvl p \<le> lvl s \<and> 0 < lvl s"
  shows "parse_step p (out, pend @ st) = (out @ pend, p # st)"
proof -
  let ?P = "\<lambda>s. s \<noteq> ''('' \<and> precedence s p \<ge> 0"
  have all: "\<forall>s \<in> set pend. ?P s" using assms(1,4) by (auto simp: precedence_lvl operator_not_paren)
  then have "takeWhile ?P (pend @ st) = pend @ takeWhile ?P st" "dropWhile ?P (pend @ st) = dropWhile ?P st"
    by (simp_all add: takeWhile_append2 dropWhile_append2)
  with shielded_op [OF assms(2,1,3)] assms(1) operator_not_paren [OF assms(1)] show ?thesis
    by (auto simp: parse_step_def Let_def)
qed

lemma parse_close:
  assumes "\<forall>s \<in> set pend. isOperator s"
  shows "parse_step '')'' (out, pend @ ''('' # st) = (out @ pend, st)"
proof -
  have "\<not> isOperator '')''" by (simp add: isOperator_def isMathOperator_def isBoolOperator_def)
  moreover have "\<forall>s \<in> set pend. s \<noteq> ''(''" using assms operator_not_paren by blast
  ultimately show ?thesis by (simp add: parse_step_def takeWhile_append2 dropWhile_append2)
qed

text \<open>The parser on the infix form: some operators stay on the stack, and the output with them is
  the postfix form.\<close>

lemma parse_infix:
  assumes "expr_ok e" and "shielded n st"
  shows "\<exists>w pend. fold parse_step (infix_at n e) (out, st) = (out @ w, pend @ st) \<and> w @ pend = postfix_of e
    \<and> (\<forall>s \<in> set pend. isOperator s \<and> n \<le> lvl s)"
  using assms
proof (induction e arbitrary: n out st)
  case (Atom a)
  then show ?case by (simp add: parse_step_def is_name_not_operator)
next
  case (Bin p l r)
  from Bin.prems(1) have p: "isOperator p" and ok: "expr_ok l" "expr_ok r" by simp_all
  let ?nl = "max 1 (lvl p)" and ?nr = "if lvl p = 0 then 0 else lvl p + 1"
  have body: "\<exists>w pend. fold parse_step (infix_at ?nl l @ [p] @ infix_at ?nr r) (out, st) = (out @ w, pend @ st)
      \<and> w @ pend = postfix_of (Bin p l r) \<and> (\<forall>s \<in> set pend. isOperator s \<and> n' \<le> lvl s)"
    if sh: "shielded n' st" and n': "n' \<le> lvl p" for n' out st
  proof -
    have "shielded ?nl st" using sh n' by (rule_tac shielded_mono [OF sh]) simp
    from Bin.IH(1) [OF ok(1) this] obtain w1 p1
      where 1: "fold parse_step (infix_at ?nl l) (out, st) = (out @ w1, p1 @ st)" "w1 @ p1 = postfix_of l"
        "\<forall>s \<in> set p1. isOperator s \<and> ?nl \<le> lvl s" by blast
    have 2: "parse_step p (out @ w1, p1 @ st) = ((out @ w1) @ p1, p # st)"
      using 1(3) by (intro parse_step_op [OF p sh n']) auto
    have "shielded ?nr (p # st)" using p by (simp add: shielded_def)
    from Bin.IH(2) [OF ok(2) this] obtain w2 p2
      where 3: "fold parse_step (infix_at ?nr r) ((out @ w1) @ p1, p # st) = (((out @ w1) @ p1) @ w2, p2 @ p # st)"
        "w2 @ p2 = postfix_of r" "\<forall>s \<in> set p2. isOperator s \<and> ?nr \<le> lvl s" by blast
    have "n' \<le> ?nr" using n' by simp
    then have "\<forall>s \<in> set (p2 @ [p]). isOperator s \<and> n' \<le> lvl s" using 3(3) p n' by auto
    moreover have "fold parse_step (infix_at ?nl l @ [p] @ infix_at ?nr r) (out, st) = (out @ (w1 @ p1 @ w2), (p2 @ [p]) @ st)"
      using 1(1) 2 3(1) by simp
    moreover have "(w1 @ p1 @ w2) @ (p2 @ [p]) = postfix_of (Bin p l r)" by (simp flip: 1(2) 3(2))
    ultimately show ?thesis by blast
  qed
  show ?case
  proof (cases "lvl p < n")
    case True
    have "shielded 0 (''('' # st)" by (simp add: shielded_def)
    from body [OF this, of out] obtain w pend
      where b: "fold parse_step (infix_at ?nl l @ [p] @ infix_at ?nr r) (out, ''('' # st) = (out @ w, pend @ ''('' # st)"
        "w @ pend = postfix_of (Bin p l r)" "\<forall>s \<in> set pend. isOperator s" by auto
    have "fold parse_step (infix_at n (Bin p l r)) (out, st)
        = parse_step '')'' (fold parse_step (infix_at ?nl l @ [p] @ infix_at ?nr r) (out, ''('' # st))"
      using True by (simp add: Let_def parse_step_def [of "''(''"])
    then have "fold parse_step (infix_at n (Bin p l r)) (out, st) = (out @ postfix_of (Bin p l r), [] @ st)"
      using b by (simp add: parse_close)
    then show ?thesis by (intro exI [of _ "postfix_of (Bin p l r)"] exI [of _ "[]"]) simp
  next
    case False
    with body [OF Bin.prems(2), of out] show ?thesis by (simp add: Let_def)
  qed
qed

lemma parse_tokens: "expr_ok e \<Longrightarrow> parse_end (fold parse_step (infix_at 0 e) (out, [])) = (True, out @ postfix_of e)"
proof -
  assume "expr_ok e"
  moreover have "shielded 0 []" by (simp add: shielded_def)
  ultimately obtain w pend where r: "fold parse_step (infix_at 0 e) (out, []) = (out @ w, pend @ [])"
    "w @ pend = postfix_of e" "\<forall>s \<in> set pend. isOperator s" using parse_infix [of e 0 "[]" out] by blast
  then have "\<forall>s \<in> set pend. s \<noteq> ''(''" using operator_not_paren by blast
  with r show ?thesis by (simp add: parse_end_def takeWhile_eq_all_conv [THEN iffD2] dropWhile_eq_Nil_conv [THEN iffD2])
qed

subsection \<open>The value of the postfix form\<close>

lemma sym_read_value: "sm_find (snd (sym_read t tab)) k = (if k = t \<and> sm_find tab t = None then Some 0 else sm_find tab k)"
  by (auto simp: sym_read_def split: option.splits)

lemma denote_sym_read: "denote pw (snd (sym_read t tab)) e = denote pw tab e"
  by (induction e) (auto simp: sym_read_value split: option.splits)

text \<open>The evaluator only needs operators and operands to be told apart.\<close>

fun eval_ok :: "expr \<Rightarrow> bool" where
  "eval_ok (Atom a) = (\<not> isOperator a)"
| "eval_ok (Bin p l r) = (isOperator p \<and> eval_ok l \<and> eval_ok r)"

lemma expr_ok_eval_ok: "expr_ok e \<Longrightarrow> eval_ok e"
  by (induction e) (simp_all add: is_name_not_operator)

lemma eval_loop_postfix:
  "eval_ok e \<Longrightarrow> \<exists>tab'. eval_loop pw (postfix_of e @ ts) st tab = eval_loop pw ts (denote pw tab e # st) tab'
     \<and> (\<forall>e'. denote pw tab' e' = denote pw tab e')"
proof (induction e arbitrary: ts st tab)
  case (Atom a)
  then have "eval_loop pw (postfix_of (Atom a) @ ts) st tab = eval_loop pw ts (denote pw tab (Atom a) # st) (snd (sym_read a tab))"
    by (auto simp: sym_read_def split: option.splits)
  with denote_sym_read show ?case by blast
next
  case (Bin p l r)
  then have ok: "eval_ok l" "eval_ok r" "isOperator p" by simp_all
  from Bin.IH(1) [OF ok(1), of "postfix_of r @ p # ts" st tab] obtain t1
    where 1: "eval_loop pw (postfix_of l @ postfix_of r @ p # ts) st tab = eval_loop pw (postfix_of r @ p # ts) (denote pw tab l # st) t1"
      "\<forall>e'. denote pw t1 e' = denote pw tab e'" by blast
  from Bin.IH(2) [OF ok(2), of "p # ts" "denote pw tab l # st" t1] obtain t2
    where 2: "eval_loop pw (postfix_of r @ p # ts) (denote pw tab l # st) t1 = eval_loop pw (p # ts) (denote pw t1 r # denote pw tab l # st) t2"
      "\<forall>e'. denote pw t2 e' = denote pw t1 e'" by blast
  from 1 2 ok(3) show ?case by auto
qed

lemma evaluate_postfix: "eval_ok e \<Longrightarrow> fst (evaluate pw (postfix_of e) tab) = denote pw tab e"
  using eval_loop_postfix [of e pw "[]" "[]" tab] by (auto simp: evaluate_def)

subsection \<open>Tokens of a text\<close>

definition plain :: "char \<Rightarrow> bool" where
  "plain c \<longleftrightarrow> c \<notin> set '' +-/*^()<>&|=''"

lemma is_name_plain: "is_name a \<longleftrightarrow> a \<noteq> '''' \<and> (\<forall>c \<in> set a. plain c)"
  by (simp add: is_name_def plain_def)

lemma tok_plain: "plain c \<Longrightarrow> tok_loop f sy toks (c # d # s) = tok_loop f (sy @ [c]) toks (d # s)"
  by (simp add: plain_def)

lemma tok_space: "tok_loop f sy toks (CHR '' '' # d # s) = tok_loop False '''' (push_sym sy toks) (d # s)"
  by simp

lemma tok_name:
  "\<forall>c \<in> set a. plain c \<Longrightarrow>
     tok_loop f sy toks (a @ CHR '' '' # d # s) = tok_loop False '''' (push_sym (sy @ a) toks) (d # s)"
proof (induction a arbitrary: sy)
  case Nil
  then show ?case by (simp only: append_Nil append_Nil2 tok_space)
next
  case (Cons c a)
  obtain e r where e: "a @ CHR '' '' # d # s = e # r" by (cases a) auto
  from Cons.prems have "plain c" by simp
  then have "tok_loop f sy toks ((c # a) @ CHR '' '' # d # s) = tok_loop f (sy @ [c]) toks (a @ CHR '' '' # d # s)"
    unfolding append_Cons e by (rule tok_plain)
  with Cons show ?case by simp
qed

lemma tok_name_end:
  "a \<noteq> '''' \<Longrightarrow> \<forall>c \<in> set a. plain c \<Longrightarrow> tok_loop f sy toks a = toks @ [sy @ a]"
proof (induction a arbitrary: sy)
  case Nil
  then show ?case by simp
next
  case (Cons c a)
  show ?case
  proof (cases a)
    case Nil
    have "\<not> isDelim c \<and> c \<noteq> CHR '')''" using Cons.prems by (auto simp: plain_def isDelim_def)
    then show ?thesis by (simp add: Nil push_sym_def)
  next
    case (Cons e r)
    then have "tok_loop f sy toks (c # a) = tok_loop f (sy @ [c]) toks a"
      using Cons.prems tok_plain [of c f sy toks e r] \<open>\<forall>x \<in> set (c # a). plain x\<close> by simp
    with Cons.IH [of "sy @ [c]"] \<open>\<forall>x \<in> set (c # a). plain x\<close> Cons show ?thesis by simp
  qed
qed

lemma tok_operator:
  assumes "isOperator p \<or> p = ''('' \<or> p = '')''"
  shows "tok_loop False '''' toks (p @ CHR '' '' # d # s) = tok_loop False '''' (toks @ [p]) (d # s)"
proof -
  have "\<forall>p \<in> set (operators @ [''('', '')'']).
      tok_loop False '''' toks (p @ CHR '' '' # d # s) = tok_loop False '''' (toks @ [p]) (d # s)"
    by (simp add: operators_def isDelim_def push_sym_def Let_def)
  with assms show ?thesis by (auto simp: isOperator_iff)
qed

definition is_token :: "string \<Rightarrow> bool" where
  "is_token t \<longleftrightarrow> is_name t \<or> isOperator t \<or> t = ''('' \<or> t = '')''"

lemma is_token_not_Nil: "is_token t \<Longrightarrow> t \<noteq> ''''"
  by (auto simp: is_token_def is_name_def dest: operator_chars)

lemma tok_token: "is_token t \<Longrightarrow> tok_loop False '''' toks (t @ CHR '' '' # d # s) = tok_loop False '''' (toks @ [t]) (d # s)"
  by (auto simp: is_token_def is_name_plain tok_operator tok_name push_sym_def)

lemma tok_join:
  "\<forall>t \<in> set ts. is_token t \<Longrightarrow> r \<noteq> [] \<Longrightarrow>
     tok_loop False '''' toks (concat (map (\<lambda>t. t @ '' '') ts) @ r) = tok_loop False '''' (toks @ ts) r"
proof (induction ts arbitrary: toks)
  case Nil
  then show ?case by simp
next
  case (Cons t ts)
  obtain d s where d: "concat (map (\<lambda>t. t @ '' '') ts) @ r = d # s"
    using Cons.prems(2) by (cases "concat (map (\<lambda>t. t @ '' '') ts) @ r") auto
  have "tok_loop False '''' toks (t @ CHR '' '' # d # s) = tok_loop False '''' (toks @ [t]) (d # s)"
    using Cons.prems(1) by (intro tok_token) simp
  with Cons.IH [of "toks @ [t]"] Cons.prems show ?case by (simp flip: d)
qed

text \<open>The text of a list of tokens, with single spaces between them.\<close>

definition spaced_text :: "string list \<Rightarrow> string" where
  "spaced_text ts = concat (map (\<lambda>t. t @ '' '') (butlast ts)) @ last ts"

lemma tokenize_spaced:
  assumes "\<forall>t \<in> set ts. is_token t" and "ts \<noteq> []" and "is_name (last ts)"
  shows "tokenize (spaced_text ts) = Some ts"
proof -
  have l: "last ts \<noteq> ''''" "\<forall>c \<in> set (last ts). plain c" using assms(3) by (simp_all add: is_name_plain)
  have "tok_loop False '''' [] (spaced_text ts) = tok_loop False '''' (butlast ts) (last ts)"
    unfolding spaced_text_def using assms(1) l by (subst tok_join) (auto dest: in_set_butlastD)
  also have "\<dots> = ts" using tok_name_end [OF l] assms(2) by simp
  finally show ?thesis using l by (simp add: tokenize_def spaced_text_def)
qed

lemma infix_tokens: "expr_ok e \<Longrightarrow> \<forall>t \<in> set (infix_at n e). is_token t"
  by (induction e arbitrary: n) (auto simp: is_token_def Let_def)

lemma infix_not_Nil [simp]: "infix_at n e \<noteq> []"
  by (cases e) (simp_all add: Let_def)

lemma last_infix: "expr_ok e \<Longrightarrow> is_name (last (infix_at n e)) \<or> last (infix_at n e) = '')''"
  by (induction e arbitrary: n) (auto simp: Let_def)

text \<open>C32: the parser and the evaluator compute the value of an expression. The text of any
  expression, written with spaces and with parentheses only where the precedence of the operators
  requires them, is accepted, and its value is that of the expression tree, as long as the text does
  not end in a parenthesis.\<close>

theorem expression_value:
  assumes "expr_ok e" and "last (infix_at 0 e) \<noteq> '')''"
  shows "\<exists>ex. me_parse (spaced_text (infix_at 0 e)) [] = Some (True, ex)
    \<and> fst (evaluate pw ex tab) = denote pw tab e \<and> fst (me_match pw ex tab) = (denote pw tab e > 0)"
proof -
  have "tokenize (spaced_text (infix_at 0 e)) = Some (infix_at 0 e)"
    using last_infix [OF assms(1), of 0] assms(2)
    by (intro tokenize_spaced infix_tokens [OF assms(1)] infix_not_Nil) blast
  then have "me_parse (spaced_text (infix_at 0 e)) [] = Some (True, postfix_of e)"
    using parse_tokens [OF assms(1), of "[]"] by (simp add: me_parse_def)
  moreover note evaluate_postfix [OF expr_ok_eval_ok [OF assms(1)], of pw tab]
  ultimately show ?thesis by (auto simp: me_match_def split: prod.splits)
qed

theorem expression_value_witness:
  "\<exists>ex. me_parse ''( a + b ) * c < d && e'' [] = Some (True, ex)
     \<and> fst (evaluate (\<lambda>x y. 0) ex [(''a'', 1), (''b'', 2), (''c'', 3), (''d'', 10), (''e'', 1)]) = 1"
proof -
  let ?e = "Bin ''&&'' (Bin ''<'' (Bin ''*'' (Bin ''+'' (Atom ''a'') (Atom ''b'')) (Atom ''c'')) (Atom ''d'')) (Atom ''e'')"
  let ?tab = "[(''a'', 1), (''b'', 2), (''c'', 3), (''d'', 10), (''e'', 1)] :: symtab"
  have ok: "expr_ok ?e" and l: "last (infix_at 0 ?e) \<noteq> '')''" by code_simp+
  have t: "spaced_text (infix_at 0 ?e) = ''( a + b ) * c < d && e''" by code_simp
  have d: "denote (\<lambda>x y. 0) ?tab ?e = 1" by (simp add: evalOP_def)
  from expression_value [OF ok l, of "\<lambda>x y. 0" ?tab] show ?thesis unfolding t d by blast
qed

text \<open>A text that ends in a parenthesis after a space gets an extra empty operand, which counts
  as zero: the value of \<^verbatim>\<open>a p ( b q c )\<close> is that of \<^verbatim>\<open>b p (c q 0)\<close>, whatever \<^verbatim>\<open>a\<close> is.\<close>

lemma trailing_paren_value:
  assumes "is_name a" and "is_name b" and "is_name c" and "isOperator p" and "isOperator q" and "sm_find tab '''' = None"
  shows "\<exists>ex. me_parse (spaced_text [a, p, ''('', b, q, c, '')'']) [] = Some (True, ex)
    \<and> fst (evaluate pw ex tab) = evalOP pw p (denote pw tab (Atom b)) (evalOP pw q (denote pw tab (Atom c)) 0)"
proof -
  let ?ts = "[a, p, ''('', b, q, c]"
  have tk: "\<forall>t \<in> set ?ts. is_token t" using assms by (simp add: is_token_def)
  have "tok_loop False '''' [] (spaced_text (?ts @ ['')''])) = tok_loop False '''' ?ts '')''"
    using tok_join [OF tk, of "'')''" "[]"] by (simp add: spaced_text_def)
  then have "tokenize (spaced_text (?ts @ ['')''])) = Some (?ts @ ['''', '')''])"
    by (simp add: tokenize_def spaced_text_def push_sym_def isDelim_def)
  moreover have "fold parse_step (?ts @ ['''', '')'']) ([], []) = ([a, b, c, '''', q], [p])"
  proof -
    have n: "\<not> isOperator ''''" "\<not> isOperator '')''" "\<not> isOperator ''(''" by code_simp+
    have ne: "a \<noteq> ''('' \<and> a \<noteq> '')''" "b \<noteq> ''('' \<and> b \<noteq> '')''" "c \<noteq> ''('' \<and> c \<noteq> '')''"
      "\<not> isOperator a" "\<not> isOperator b" "\<not> isOperator c" using assms(1-3) is_name_not_operator by blast+
    show ?thesis using n ne assms(4,5) operator_not_paren [OF assms(4)] operator_not_paren [OF assms(5)]
      by (simp add: parse_step_def)
  qed
  ultimately have p: "me_parse (spaced_text [a, p, ''('', b, q, c, '')'']) [] = Some (True, [a, b, c, '''', q, p])"
    using operator_not_paren [OF assms(4)] by (simp add: me_parse_def parse_end_def)
  let ?e = "Bin p (Atom b) (Bin q (Atom c) (Atom ''''))"
  have "eval_ok (Atom a)" "eval_ok ?e"
    using assms(1-5) is_name_not_operator by (auto simp: isOperator_iff operators_def)
  then obtain t1 where "eval_loop pw ([a] @ postfix_of ?e) [] tab = eval_loop pw [] (denote pw t1 ?e # [denote pw tab (Atom a)]) t1"
    "denote pw t1 ?e = denote pw tab ?e"
    using eval_loop_postfix [of "Atom a" pw "postfix_of ?e" "[]" tab] eval_loop_postfix [of ?e pw "[]" "[denote pw tab (Atom a)]"]
    by (metis append_Nil2 postfix_of.simps(1))
  then have "fst (evaluate pw [a, b, c, '''', q, p] tab) = denote pw tab ?e" by (simp add: evaluate_def)
  with p assms(6) show ?thesis by simp
qed

end
