(* ===== verification/Power_Control.thy ===== *)
theory Power_Control
  imports Engines
begin

text \<open>
  The power control agent, \<^verbatim>\<open>src/agents/PwrControl\<close>: loads that may be switched
  (\<^verbatim>\<open>Control\<close>, \<^verbatim>\<open>ControlSet\<close>), meters (\<^verbatim>\<open>Sensor\<close>, \<^verbatim>\<open>SensorSet\<close>), the
  scheduler that keeps the measured power below a threshold (\<^verbatim>\<open>Scheduler\<close>) and its thread
  (\<^verbatim>\<open>Controller\<close>). A handler uses one reading \<open>now\<close> of the clock; \<open>u\<close> and \<open>ui\<close>
  are the uninitialised locals of the conversions.
\<close>

subsection \<open>Loads\<close>

record control =
  ct_params :: mparams
  ct_last_update :: double
  ct_latency :: double
  load_estimate :: double
  upd_time :: double
  wait_until :: double

abbreviation ct_get :: "control \<Rightarrow> string \<Rightarrow> string" where
  "ct_get c n \<equiv> mp_get (ct_params c) n"

definition control_new :: "double \<Rightarrow> double \<Rightarrow> mparams \<Rightarrow> control" where
  "control_new junk1 junk2 p =
     \<lparr>ct_params = p, ct_last_update = junk1, ct_latency = -1, load_estimate = 0, upd_time = junk2, wait_until = 0\<rparr>"

definition isstatusON :: "control \<Rightarrow> bool" where
  "isstatusON c \<longleftrightarrow> ct_get c ''status'' = ''ON''"

definition ismodeON :: "control \<Rightarrow> bool" where
  "ismodeON c \<longleftrightarrow> ct_get c ''mode'' = ''ON''"

definition set_save :: "string \<Rightarrow> string \<Rightarrow> mparams \<Rightarrow> mparams \<times> effect list" where
  "set_save n v p = (let p' = snd (mp_set p n v) in (p', [SaveFile (mp_save p')]))"

definition ct_set :: "string \<Rightarrow> string \<Rightarrow> control \<Rightarrow> control \<times> effect list" where
  "ct_set n v c = (let (p, es) = set_save n v (ct_params c) in (c\<lparr>ct_params := p\<rparr>, es))"

definition ct_setMode :: "double \<Rightarrow> string \<Rightarrow> control \<Rightarrow> control \<times> effect list" where
  "ct_setMode now md c = (if md \<noteq> ''ON'' \<and> md \<noteq> ''OFF'' then (c, []) else ct_set ''mode'' md (c\<lparr>ct_last_update := now\<rparr>))"

definition ct_setStatus :: "string \<Rightarrow> control \<Rightarrow> control \<times> effect list" where
  "ct_setStatus md c = (if md \<noteq> ''ON'' \<and> md \<noteq> ''OFF'' then (c, []) else ct_set ''status'' md c)"

definition ct_setLoad :: "string \<Rightarrow> control \<Rightarrow> control \<times> effect list" where
  "ct_setLoad md c = (if md = '''' then (c, []) else ct_set ''nominalload'' md c)"

definition ct_setPriority :: "string \<Rightarrow> control \<Rightarrow> control \<times> effect list" where
  "ct_setPriority md c = (if md = '''' then (c, []) else ct_set ''priority'' md c)"

definition ct_priority :: "int \<Rightarrow> control \<Rightarrow> int" where
  "ct_priority ui c = (if ct_get c ''priority'' = '''' then 0 else a2int ui (ct_get c ''priority''))"

definition loadestimateUpdate :: "double \<Rightarrow> double \<Rightarrow> control \<Rightarrow> control" where
  "loadestimateUpdate now v c = c\<lparr>load_estimate := v, upd_time := now\<rparr>"

definition load_of :: "double \<Rightarrow> control \<Rightarrow> double" where
  "load_of u c = (if load_estimate c = 0 then a2double u (ct_get c ''nominalload'') else load_estimate c)"

definition mayStart :: "double \<Rightarrow> double \<Rightarrow> double \<Rightarrow> control \<Rightarrow> bool" where
  "mayStart u now available c =
     (if wait_until c > now then False
      else if \<not> isstatusON c \<or> ismodeON c then False
      else available * (9 / 10) \<ge> load_of u c)"

definition mayStop :: "double \<Rightarrow> control \<Rightarrow> bool" where
  "mayStop now c = (if wait_until c > now then False else isstatusON c \<and> ismodeON c)"

definition hold :: "double \<Rightarrow> double \<Rightarrow> control \<Rightarrow> control" where
  "hold u now c =
     (let l = (if ct_latency c < 0 then a2double u (ct_get c ''latency'') else ct_latency c)
      in c\<lparr>ct_latency := l, wait_until := now + l\<rparr>)"

definition switch_message :: "control \<Rightarrow> string \<Rightarrow> mmessage" where
  "switch_message c v = m_add (m_new ''cmd'' (ct_get c ''control'')) ''value'' v"

definition ct_stop :: "double \<Rightarrow> double \<Rightarrow> bool \<Rightarrow> control \<Rightarrow> control \<times> mmessage list \<times> effect list" where
  "ct_stop u now force c =
     (if isstatusON c \<and> (ismodeON c \<or> force)
      then let (c1, es) = (if ismodeON c then ct_set ''mode'' ''OFF'' c else (c, [])); c2 = hold u now c1
           in (c2, [switch_message c2 ''OFF''], es)
      else (c, [], []))"

definition ct_start :: "double \<Rightarrow> double \<Rightarrow> bool \<Rightarrow> control \<Rightarrow> control \<times> mmessage list \<times> effect list" where
  "ct_start u now force c =
     (if isstatusON c \<and> (\<not> ismodeON c \<or> force)
      then let (c1, es) = (if \<not> ismodeON c then ct_set ''mode'' ''ON'' c else (c, [])); c2 = hold u now c1
           in (c2, [switch_message c2 ''ON''], es)
      else (c, [], []))"

subsection \<open>Sets of loads\<close>

definition field_name :: "string \<Rightarrow> mmessage \<Rightarrow> string" where
  "field_name key m =
     (let n = m_getString m key; n' = (if n = '''' then m_getString m ''name'' else n)
      in if n' = '''' then m_getString m ''value'' else n')"

definition then_if :: "bool \<Rightarrow> ('c \<Rightarrow> 'c \<times> effect list) \<Rightarrow> 'c \<times> effect list \<Rightarrow> 'c \<times> effect list" where
  "then_if b f ce = (if b then (let (c, es) = ce; (c', fs) = f c in (c', es @ fs)) else ce)"

definition xml_save :: "string \<Rightarrow> mparams \<Rightarrow> effect" where
  "xml_save path p = SaveFile (path, snd (mp_save p))"

fun cs_setControl :: "double \<Rightarrow> string \<Rightarrow> mmessage \<Rightarrow> control list \<Rightarrow> bool \<times> control list \<times> effect list" where
  "cs_setControl now conf m [] = (False, [], [])"
| "cs_setControl now conf m (c # cs) =
     (let name = field_name ''controlname'' m; f = m_getString m
      in if name = ct_get c ''name''
         then let (c', es) = then_if (f ''nominalload'' \<noteq> '''') (ct_setLoad (f ''nominalload''))
                    (then_if (f ''priority'' \<noteq> '''') (ct_setPriority (f ''priority''))
                      (then_if (f ''mode'' \<noteq> '''') (ct_setMode now (f ''mode''))
                        (then_if (f ''status'' \<noteq> '''') (ct_setStatus (f ''status'')) (c, []))))
              in (True, c' # cs, es @ (if f ''configure'' = ''YES''
                                      then [xml_save (conf @ ''/control/'' @ name @ ''.xml'') (ct_params c')] else []))
         else let (b, cs', es) = cs_setControl now conf m cs in (b, c # cs', es))"

definition ct_reset :: "double \<Rightarrow> control \<Rightarrow> control \<times> effect list" where
  "ct_reset now c = then_if True (ct_setPriority ''0'') (ct_setMode now ''OFF'' c)"

fun reset_first :: "double \<Rightarrow> string \<Rightarrow> control list \<Rightarrow> control list \<times> effect list" where
  "reset_first now name [] = ([], [])"
| "reset_first now name (c # cs) =
     (if ct_get c ''name'' = name then (let (c', es) = ct_reset now c in (c' # cs, es))
      else let (cs', es) = reset_first now name cs in (c # cs', es))"

definition each :: "('c \<Rightarrow> 'c \<times> effect list) \<Rightarrow> 'c list \<Rightarrow> 'c list \<times> effect list" where
  "each f cs = (map (\<lambda>c. fst (f c)) cs, concat (map (\<lambda>c. snd (f c)) cs))"

definition cs_resetControl :: "double \<Rightarrow> mmessage \<Rightarrow> control list \<Rightarrow> control list \<times> effect list" where
  "cs_resetControl now m cs =
     (let name = field_name ''controlname'' m
      in if name = '''' then each (ct_reset now) cs else reset_first now name cs)"

definition handleMode :: "double \<Rightarrow> mmessage \<Rightarrow> control list \<Rightarrow> control list \<times> effect list" where
  "handleMode now m cs =
     (let v = m_getString m ''value''; mode = (if v = ''1'' then ''ON'' else if v = ''0'' then ''OFF'' else v)
      in each (\<lambda>c. if ct_get c ''name'' = msubtype m then ct_setMode now mode c else (c, [])) cs)"

subsection \<open>Meters\<close>

record sensor =
  se_params :: mparams
  se_last_update :: double

abbreviation se_get :: "sensor \<Rightarrow> string \<Rightarrow> string" where
  "se_get s n \<equiv> mp_get (se_params s) n"

definition se_set :: "string \<Rightarrow> string \<Rightarrow> sensor \<Rightarrow> sensor \<times> effect list" where
  "se_set n v s = (let (p, es) = set_save n v (se_params s) in (s\<lparr>se_params := p\<rparr>, es))"

definition se_setMeasure :: "double \<Rightarrow> string \<Rightarrow> sensor \<Rightarrow> sensor \<times> effect list" where
  "se_setMeasure now md s =
     (if md \<noteq> ''YES'' \<and> md \<noteq> ''NO'' then (s, []) else se_set ''control_measure'' md (s\<lparr>se_last_update := now\<rparr>))"

definition se_setStatus :: "string \<Rightarrow> sensor \<Rightarrow> sensor \<times> effect list" where
  "se_setStatus md s = (if md \<noteq> ''ON'' \<and> md \<noteq> ''OFF'' then (s, []) else se_set ''status'' md s)"

definition se_setThreshold :: "string \<Rightarrow> sensor \<Rightarrow> sensor \<times> effect list" where
  "se_setThreshold md s = (if md = '''' then (s, []) else se_set ''threshold'' md s)"

definition sensor_path :: "string \<Rightarrow> string \<Rightarrow> string" where
  "sensor_path conf name = conf @ ''/sensor/'' @ name @ ''.xml''"

definition ss_setSensor :: "double \<Rightarrow> string \<Rightarrow> mmessage \<Rightarrow> sensor list \<Rightarrow> sensor list \<times> effect list" where
  "ss_setSensor now conf m ss =
     (let name = field_name ''sensorname'' m; f = m_getString m; keep = (f ''configure'' = ''YES'');
          saved = (\<lambda>n s. if keep then [xml_save (sensor_path conf n) (se_params s)] else []);
          (ss1, es1) = each (\<lambda>s. if name = se_get s ''name''
             then let (s', es) = then_if True (se_setThreshold (f ''threshold''))
                        (then_if True (se_setMeasure now (f ''control_measure'')) (se_setStatus (f ''status'') s))
                  in (s', es @ saved name s')
             else (s, [])) ss;
          done = (case filter (\<lambda>s. name = se_get s ''name'') ss1 of [] \<Rightarrow> False | xs \<Rightarrow> se_get (last xs) ''control_measure'' = ''YES'');
          (ss2, es2) = (if done
             then each (\<lambda>s. if name \<noteq> se_get s ''name''
                    then let (s', es) = se_setMeasure now ''NO'' s in (s', es @ saved (se_get s' ''name'') s')
                    else (s, [])) ss1
             else (ss1, []))
      in (ss2, es1 @ es2))"

definition se_reset :: "double \<Rightarrow> sensor \<Rightarrow> sensor \<times> effect list" where
  "se_reset now s = then_if True (se_setThreshold ''3000'') (se_setMeasure now ''NO'' s)"

fun se_reset_first :: "double \<Rightarrow> string \<Rightarrow> sensor list \<Rightarrow> sensor list \<times> effect list" where
  "se_reset_first now name [] = ([], [])"
| "se_reset_first now name (s # ss) =
     (if se_get s ''name'' = name then (let (s', es) = se_reset now s in (s' # ss, es))
      else let (ss', es) = se_reset_first now name ss in (s # ss', es))"

definition ss_resetSensor :: "double \<Rightarrow> mmessage \<Rightarrow> sensor list \<Rightarrow> sensor list \<times> effect list" where
  "ss_resetSensor now m ss =
     (let name = field_name ''controlname'' m
      in if name = '''' then each (se_reset now) ss else se_reset_first now name ss)"

definition getControlMeasure :: "sensor list \<Rightarrow> string" where
  "getControlMeasure ss = (case filter (\<lambda>s. se_get s ''control_measure'' = ''YES'') ss of [] \<Rightarrow> '''' | s # _ \<Rightarrow> se_get s ''name'')"

definition getThreshold :: "sensor list \<Rightarrow> string" where
  "getThreshold ss = (case filter (\<lambda>s. se_get s ''control_measure'' = ''YES'') ss of [] \<Rightarrow> '''' | s # _ \<Rightarrow> se_get s ''threshold'')"

subsection \<open>The scheduler\<close>

record scheduler =
  sc_params :: mparams
  sc_control :: "(control list) option"
  sc_sensor :: "(sensor list) option"
  last_stopped :: nat
  sc_threshold :: string
  control_measure :: string
  stop_time :: double
  targetvalue_atstop :: double
  sc_current :: double

definition MAXTHRESHOLD :: double where "MAXTHRESHOLD = 10000"

definition read_measure :: "scheduler \<Rightarrow> scheduler" where
  "read_measure s = (case sc_sensor s of
     None \<Rightarrow> s
   | Some ss \<Rightarrow> s\<lparr>control_measure := getControlMeasure ss, sc_threshold := getThreshold ss\<rparr>)"

definition scheduler_new :: "scheduler \<Rightarrow> mparams \<Rightarrow> (control list) option \<Rightarrow> (sensor list) option \<Rightarrow> scheduler" where
  "scheduler_new s0 p cs ss =
     (read_measure (s0\<lparr>sc_params := p, sc_control := cs, sc_sensor := ss, control_measure := '''', sc_threshold := ''''\<rparr>))
       \<lparr>stop_time := 0\<rparr>"

text \<open>The scan of \<^verbatim>\<open>reduceLoad\<close>: the index after the end means that no load was found.\<close>

definition stop_scan :: "int \<Rightarrow> double \<Rightarrow> control list \<Rightarrow> int \<times> nat" where
  "stop_scan ui now cs =
     fold (\<lambda>i (least, m). if mayStop now (cs ! i) \<and> ct_priority ui (cs ! i) < least
                           then (ct_priority ui (cs ! i), i) else (least, m))
       [0..<length cs] (1000, length cs + 1)"

definition reduceLoad :: "double \<Rightarrow> int \<Rightarrow> double \<Rightarrow> double \<Rightarrow> control list \<Rightarrow> scheduler \<Rightarrow> scheduler \<times> mmessage list \<times> effect list" where
  "reduceLoad u ui now cur cs s =
     (let m = snd (stop_scan ui now cs)
      in if m < length cs
         then let (c, act, es) = ct_stop u now False (cs ! m)
              in (s\<lparr>sc_control := Some (cs[m := c]), last_stopped := m, stop_time := now, targetvalue_atstop := cur\<rparr>, act, es)
         else (s\<lparr>sc_control := Some cs\<rparr>, [], []))"

definition start_scan :: "double \<Rightarrow> int \<Rightarrow> double \<Rightarrow> double \<Rightarrow> control list \<Rightarrow> int \<times> nat" where
  "start_scan u ui now available cs =
     fold (\<lambda>i (most, m). if mayStart u now available (cs ! i) \<and> ct_priority ui (cs ! i) \<ge> most
                          then (ct_priority ui (cs ! i), i) else (most, m))
       [0..<length cs] (0, length cs + 1)"

definition tryIncreaseLoad ::
  "double \<Rightarrow> int \<Rightarrow> double \<Rightarrow> double \<Rightarrow> control list \<Rightarrow> scheduler \<Rightarrow> scheduler \<times> mmessage list \<times> effect list" where
  "tryIncreaseLoad u ui now available cs s =
     (let m = snd (start_scan u ui now available cs)
      in if m < length cs
         then let (c, act, es) = ct_start u now False (cs ! m) in (s\<lparr>sc_control := Some (cs[m := c])\<rparr>, act, es)
         else (s\<lparr>sc_control := Some cs\<rparr>, [], []))"

definition target_of :: "double \<Rightarrow> scheduler \<Rightarrow> double" where
  "target_of u s = (if sc_threshold s \<noteq> '''' then a2double u (sc_threshold s) else MAXTHRESHOLD)"

text \<open>The drop of the measured power after a stop is taken as the load of what was stopped; an index
  outside the set is undefined behaviour.\<close>

definition learn_load :: "double \<Rightarrow> double \<Rightarrow> control list \<Rightarrow> scheduler \<Rightarrow> (control list) option" where
  "learn_load now cur cs s =
     (let delta = targetvalue_atstop s - cur
      in if stop_time s > 0 \<and> delta > 0
         then (if last_stopped s < length cs
               then Some (cs[last_stopped s := loadestimateUpdate now delta (cs ! last_stopped s)]) else None)
         else Some cs)"

definition checkControl ::
  "double \<Rightarrow> int \<Rightarrow> double \<Rightarrow> mmessage \<Rightarrow> scheduler \<Rightarrow> (bool \<times> scheduler \<times> mmessage list \<times> effect list) option" where
  "checkControl u ui now m s =
     (case sc_control s of
        None \<Rightarrow> Some (False, s, [], [])
      | Some cs \<Rightarrow>
          if mp_get (sc_params s) ''status'' \<noteq> ''ON'' then Some (False, s, [], [])
          else if msubtype m \<noteq> control_measure s
          then let (cs', es) = handleMode now m cs in Some (True, s\<lparr>sc_control := Some cs'\<rparr>, [], es)
          else let cur = m_getDouble u m ''Ipower''
               in map_option (\<lambda>cs1.
                    let s1 = s\<lparr>sc_current := cur, stop_time := (if stop_time s > 0 then 0 else stop_time s)\<rparr>
                    in if cur > target_of u s then (True, reduceLoad u ui now cur cs1 s1)
                       else if cur < target_of u s then (True, tryIncreaseLoad u ui now (target_of u s - cur) cs1 s1)
                       else (True, s1\<lparr>sc_control := Some cs1\<rparr>, [], []))
                    (learn_load now cur cs s))"

fun align_all :: "double \<Rightarrow> double \<Rightarrow> control list \<Rightarrow> control list \<times> mmessage list \<times> effect list" where
  "align_all u now [] = ([], [], [])"
| "align_all u now (c # cs) =
     (let (c', act, es) = (if ct_get c ''mode'' = ''OFF'' then ct_stop u now True c
                           else if ct_get c ''mode'' = ''ON'' then ct_start u now True c else (c, [], []));
          (cs', acts, fs) = align_all u now cs
      in (c' # cs', act @ acts, es @ fs))"

definition aligneControl :: "double \<Rightarrow> double \<Rightarrow> scheduler \<Rightarrow> scheduler \<times> mmessage list \<times> effect list" where
  "aligneControl u now s =
     (case sc_control s of
        None \<Rightarrow> (s, [], [])
      | Some cs \<Rightarrow> if mp_get (sc_params s) ''status'' \<noteq> ''ON'' then (s, [], [])
                  else let (cs', acts, es) = align_all u now cs in (s\<lparr>sc_control := Some cs'\<rparr>, acts, es))"

definition sc_setControl :: "double \<Rightarrow> string \<Rightarrow> mmessage \<Rightarrow> scheduler \<Rightarrow> scheduler \<times> effect list" where
  "sc_setControl now conf m s =
     (case sc_control s of
        None \<Rightarrow> (s, [])
      | Some cs \<Rightarrow> let (b, cs', es) = cs_setControl now conf m cs in (s\<lparr>sc_control := Some cs'\<rparr>, es))"

definition sc_resetControl :: "double \<Rightarrow> mmessage \<Rightarrow> scheduler \<Rightarrow> scheduler \<times> effect list" where
  "sc_resetControl now m s =
     (case sc_control s of
        None \<Rightarrow> (s, [])
      | Some cs \<Rightarrow> let (cs', es) = cs_resetControl now m cs in (s\<lparr>sc_control := Some cs'\<rparr>, es))"

definition setTarget :: "double \<Rightarrow> string \<Rightarrow> mmessage \<Rightarrow> scheduler \<Rightarrow> scheduler \<times> effect list" where
  "setTarget now conf m s =
     (case sc_sensor s of
        None \<Rightarrow> (s, [])
      | Some ss \<Rightarrow> let (ss', es) = ss_setSensor now conf m ss in (read_measure (s\<lparr>sc_sensor := Some ss'\<rparr>), es))"

definition resetTarget :: "double \<Rightarrow> mmessage \<Rightarrow> scheduler \<Rightarrow> scheduler \<times> effect list" where
  "resetTarget now m s =
     (case sc_sensor s of
        None \<Rightarrow> (s, [])
      | Some ss \<Rightarrow> let (ss', es) = ss_resetSensor now m ss in (read_measure (s\<lparr>sc_sensor := Some ss'\<rparr>), es))"

definition sc_subjects :: "scheduler \<Rightarrow> mparams \<Rightarrow> mparams" where
  "sc_subjects s subj = (case sc_control s of
     None \<Rightarrow> subj | Some cs \<Rightarrow> fold (\<lambda>c p. mp_add_cat p (ct_get c ''control'') ''subject'' ''cmd'') cs subj)"

definition sc_observations :: "scheduler \<Rightarrow> mparams \<Rightarrow> mparams option" where
  "sc_observations s obs = map_option (\<lambda>ss. fold (\<lambda>x p. mp_add_cat p (se_get x ''name'') ''observe'' ''event'') ss obs) (sc_sensor s)"

text \<open>The page of the scheduler: a text for the archive and the entries of the index. A scheduler
  without loads dereferences a null pointer here.\<close>

definition load_line :: "control \<Rightarrow> string" where
  "load_line c = ''<load name='' @ quote @ ct_get c ''name'' @ quote @ '' status='' @ quote @ ct_get c ''status'' @ quote
     @ '' mode='' @ quote @ ct_get c ''mode'' @ quote @ '' priority='' @ quote @ ct_get c ''priority'' @ quote @ ''/>'' @ [CHR 0x0A]"

definition target_text :: "scheduler \<Rightarrow> string" where
  "target_text s = '' value='' @ quote @ double2a (sc_current s) @ quote @ '' limit='' @ quote @ sc_threshold s @ quote"

definition sc_makePage :: "scheduler \<Rightarrow> (effect list) option" where
  "sc_makePage s = map_option (\<lambda>cs.
     map (\<lambda>c. Publish (ct_get c ''name'') (''type='' @ quote @ ''load'' @ quote @ '' device='' @ quote @ ct_get c ''name'' @ quote
            @ '' status='' @ quote @ ct_get c ''status'' @ quote @ '' priority='' @ quote @ ct_get c ''priority'' @ quote)) cs
     @ (if control_measure s \<noteq> ''''
        then [Publish (control_measure s) (''type='' @ quote @ ''target'' @ quote @ '' device='' @ quote @ control_measure s @ quote
                @ target_text s)] else [])
     @ [SaveFile (''scheduler/queue.xml'',
          ''<scheduler>'' @ [CHR 0x0A] @ ''<set type='' @ quote @ ''loads'' @ quote @ ''>'' @ [CHR 0x0A] @ concat (map load_line cs)
          @ ''</set>'' @ [CHR 0x0A] @ ''<target name='' @ quote @ control_measure s @ quote @ target_text s @ ''/>'' @ [CHR 0x0A]
          @ ''</scheduler>'' @ [CHR 0x0A])]) (sc_control s)"

text \<open>One message of the thread; \<open>conf\<close> is the configuration directory. The command
  \<^verbatim>\<open>mkcontroldev\<close>, when \<open>confok\<close>, rewrites files with shell commands and ends the process:
  \<open>None\<close>.\<close>

definition with_page :: "scheduler \<times> effect list \<Rightarrow> (scheduler \<times> effect list) option" where
  "with_page r = (let (s, es) = r in map_option (\<lambda>p. (s, es @ p)) (sc_makePage s))"

definition controller_step ::
  "double \<Rightarrow> int \<Rightarrow> bool \<Rightarrow> string \<Rightarrow> double \<Rightarrow> mmessage \<Rightarrow> scheduler \<Rightarrow> (scheduler \<times> effect list) option" where
  "controller_step u ui confok conf now msg s =
     (let ty = mtype msg; st = msubtype msg in
      if ty = ''event''
      then case checkControl u ui now msg s of
             None \<Rightarrow> None
           | Some (b, s1, acts, es) \<Rightarrow> with_page (s1, es @ notify_all acts)
      else if ty = ''cmd'' \<and> st = ''setcontrol'' then with_page (sc_setControl now conf msg s)
      else if ty = ''cmd'' \<and> st = ''resetcontrol'' then with_page (sc_resetControl now msg s)
      else if ty = ''cmd'' \<and> st = ''settarget'' then with_page (setTarget now conf msg s)
      else if ty = ''cmd'' \<and> st = ''setschedulerstatus''
      then with_page (s\<lparr>sc_params := snd (mp_set (sc_params s) ''status'' (m_getString msg ''value''))\<rparr>, [])
      else if confok \<and> ty = ''cmd'' \<and> st = ''mkcontroldev'' then None
      else if ty = ''trigger'' \<and> st = ''checkalignement''
      then let (s1, acts, es) = aligneControl u now s in Some (s1, es @ notify_all acts)
      else Some (s, []))"

definition controller_getObservations :: "mparams \<Rightarrow> scheduler \<Rightarrow> mparams \<Rightarrow> mparams option" where
  "controller_getObservations own s obs = sc_observations s (ot_getObservations own obs)"

definition controller_getSubjects :: "mparams \<Rightarrow> scheduler \<Rightarrow> mparams \<Rightarrow> mparams" where
  "controller_getSubjects own s subj = sc_subjects s (ot_getSubjects own subj)"

subsection \<open>What the scheduler decides\<close>

lemma ct_set_get: "v \<noteq> '''' \<Longrightarrow> k \<noteq> n \<Longrightarrow> ct_get (fst (ct_set n v c)) k = ct_get c k"
  by (simp add: ct_set_def set_save_def Let_def mp_get_set)

lemma ct_set_fields [simp]: "wait_until (fst (ct_set n v c)) = wait_until c" "ct_latency (fst (ct_set n v c)) = ct_latency c"
  by (simp_all add: ct_set_def set_save_def Let_def)

definition latency_of :: "double \<Rightarrow> control \<Rightarrow> double" where
  "latency_of u c = (if ct_latency c < 0 then a2double u (ct_get c ''latency'') else ct_latency c)"

definition load_view :: "double \<Rightarrow> control \<Rightarrow> string \<times> double \<times> double" where
  "load_view u c = (ct_get c ''control'', latency_of u c, wait_until c)"

definition held :: "double \<Rightarrow> double \<Rightarrow> control \<Rightarrow> string \<times> double \<times> double" where
  "held u now c = (ct_get c ''control'', latency_of u c, now + latency_of u c)"

lemma load_view_hold: "load_view u (hold u now c) = held u now c"
  by (simp add: hold_def load_view_def held_def latency_of_def Let_def)

lemma held_set: "v \<noteq> '''' \<Longrightarrow> n \<noteq> ''latency'' \<Longrightarrow> n \<noteq> ''control'' \<Longrightarrow> held u now (fst (ct_set n v c)) = held u now c"
  by (simp add: held_def latency_of_def ct_set_get)

lemma load_view_set:
  "v \<noteq> '''' \<Longrightarrow> n \<noteq> ''latency'' \<Longrightarrow> n \<noteq> ''control'' \<Longrightarrow> load_view u (fst (ct_set n v c)) = load_view u c"
  by (simp add: load_view_def latency_of_def ct_set_get)

lemma switch_message_hold: "switch_message (hold u now c) v = switch_message c v"
  by (simp add: switch_message_def hold_def Let_def)

lemma switch_message_subtype [simp]: "msubtype (switch_message c v) = ct_get c ''control''"
  by (simp add: switch_message_def m_new_def)

lemma ct_stop_now:
  assumes "mayStop now c" and "ct_stop u now False c = (c', acts, es)"
  shows "acts = [switch_message c ''OFF'']" "load_view u c' = held u now c"
proof -
  have on: "isstatusON c" "ismodeON c" using assms(1) by (auto simp: mayStop_def split: if_splits)
  with assms(2) have "acts = [switch_message (fst (ct_set ''mode'' ''OFF'' c)) ''OFF'']" "c' = hold u now (fst (ct_set ''mode'' ''OFF'' c))"
    by (auto simp: ct_stop_def switch_message_hold case_prod_beta Let_def)
  then show "acts = [switch_message c ''OFF'']" "load_view u c' = held u now c"
    by (simp_all add: load_view_hold held_set switch_message_def ct_set_get)
qed

lemma ct_start_now:
  assumes "mayStart u now av c" and "ct_start u now False c = (c', acts, es)"
  shows "acts = [switch_message c ''ON'']" "load_view u c' = held u now c"
proof -
  have on: "isstatusON c" "\<not> ismodeON c" using assms(1) by (auto simp: mayStart_def split: if_splits)
  with assms(2) have "acts = [switch_message (fst (ct_set ''mode'' ''ON'' c)) ''ON'']" "c' = hold u now (fst (ct_set ''mode'' ''ON'' c))"
    by (auto simp: ct_start_def switch_message_hold case_prod_beta Let_def)
  then show "acts = [switch_message c ''ON'']" "load_view u c' = held u now c"
    by (simp_all add: load_view_hold held_set switch_message_def ct_set_get)
qed

text \<open>Both scans are one scan: \<open>ok\<close> selects the loads, \<open>better\<close> is the comparison with the best
  value so far.\<close>

lemma best_scan:
  fixes better :: "int \<Rightarrow> int \<Rightarrow> bool"
  assumes trans: "\<And>a b c. better a b \<Longrightarrow> better b c \<Longrightarrow> better a c" and asym: "\<And>a b. better a b \<Longrightarrow> better b a \<Longrightarrow> a = b"
    and run: "fold (\<lambda>i (v, m). if ok i \<and> better (pr i) v then (pr i, i) else (v, m)) [0..<n] (v0, N) = (v, m)"
  shows "(v = v0 \<and> m = N \<and> (\<forall>i<n. ok i \<longrightarrow> \<not> better (pr i) v0))
    \<or> (m < n \<and> ok m \<and> v = pr m \<and> better v v0 \<and> (\<forall>i<n. ok i \<longrightarrow> pr i = v \<or> \<not> better (pr i) v))"
  using run
proof (induction n arbitrary: v m)
  case 0
  then show ?case by simp
next
  case (Suc n)
  let ?f = "\<lambda>i (v, m). if ok i \<and> better (pr i) v then (pr i, i) else (v, m)"
  obtain v' m' where vm: "fold ?f [0..<n] (v0, N) = (v', m')" by (rule prod.exhaust)
  note ih = Suc.IH [OF vm]
  have step: "(v, m) = ?f n (v', m')" using Suc.prems by (simp add: vm)
  show ?case
  proof (cases "ok n \<and> better (pr n) v'")
    case True
    then have vm_n: "v = pr n" "m = n" using step by simp_all
    have "better (pr n) v0" using True ih trans [of "pr n" v' v0] by blast
    moreover have "pr i = pr n \<or> \<not> better (pr i) (pr n)" if "i < Suc n" "ok i" for i
    proof (cases "i < n \<and> better (pr i) (pr n)")
      case b: True
      then have bv: "better (pr i) v'" using trans [of "pr i" "pr n" v'] True by blast
      with ih b that(2) have "pr i = v'" by blast
      with b True asym [of "pr i" "pr n"] show ?thesis by blast
    next
      case False
      with that(1) show ?thesis by (auto simp: less_Suc_eq)
    qed
    ultimately show ?thesis using True vm_n by simp
  next
    case False
    then have "v = v'" "m = m'" using step by auto
    with ih False show ?thesis by (auto simp: less_Suc_eq)
  qed
qed

lemma stop_scan_best:
  assumes "stop_scan ui now cs = (v, m)"
  shows "(m = length cs + 1 \<and> (\<forall>c \<in> set cs. mayStop now c \<longrightarrow> 1000 \<le> ct_priority ui c))
    \<or> (m < length cs \<and> mayStop now (cs ! m) \<and> (\<forall>c \<in> set cs. mayStop now c \<longrightarrow> ct_priority ui (cs ! m) \<le> ct_priority ui c))"
proof -
  have "(v = 1000 \<and> m = length cs + 1 \<and> (\<forall>i<length cs. mayStop now (cs ! i) \<longrightarrow> \<not> ct_priority ui (cs ! i) < 1000))
    \<or> (m < length cs \<and> mayStop now (cs ! m) \<and> v = ct_priority ui (cs ! m) \<and> v < 1000
      \<and> (\<forall>i<length cs. mayStop now (cs ! i) \<longrightarrow> ct_priority ui (cs ! i) = v \<or> \<not> ct_priority ui (cs ! i) < v))"
    by (rule best_scan [OF _ _ assms [unfolded stop_scan_def]]) auto
  then show ?thesis unfolding all_set_conv_all_nth not_less not_le by (metis order.refl less_imp_le)
qed

lemma start_scan_best:
  assumes "start_scan u ui now av cs = (v, m)"
  shows "(m = length cs + 1 \<and> (\<forall>c \<in> set cs. mayStart u now av c \<longrightarrow> ct_priority ui c < 0))
    \<or> (m < length cs \<and> mayStart u now av (cs ! m)
       \<and> (\<forall>c \<in> set cs. mayStart u now av c \<longrightarrow> ct_priority ui c \<le> ct_priority ui (cs ! m)))"
proof -
  have "(v = 0 \<and> m = length cs + 1 \<and> (\<forall>i<length cs. mayStart u now av (cs ! i) \<longrightarrow> \<not> ct_priority ui (cs ! i) \<ge> 0))
    \<or> (m < length cs \<and> mayStart u now av (cs ! m) \<and> v = ct_priority ui (cs ! m) \<and> v \<ge> 0
      \<and> (\<forall>i<length cs. mayStart u now av (cs ! i) \<longrightarrow> ct_priority ui (cs ! i) = v \<or> \<not> ct_priority ui (cs ! i) \<ge> v))"
    by (rule best_scan [OF _ _ assms [unfolded start_scan_def]]) auto
  then show ?thesis unfolding all_set_conv_all_nth not_less not_le by (metis order.refl less_imp_le)
qed

lemma reduceLoad_cases:
  assumes "reduceLoad u ui now cur cs s = (s', acts, es)"
  shows "(acts = [] \<and> sc_control s' = Some cs \<and> (\<forall>c \<in> set cs. mayStop now c \<longrightarrow> 1000 \<le> ct_priority ui c))
    \<or> (\<exists>k c'. k < length cs \<and> mayStop now (cs ! k) \<and> acts = [switch_message (cs ! k) ''OFF'']
        \<and> (\<forall>c \<in> set cs. mayStop now c \<longrightarrow> ct_priority ui (cs ! k) \<le> ct_priority ui c)
        \<and> sc_control s' = Some (cs[k := c']) \<and> load_view u c' = held u now (cs ! k))"
proof -
  obtain v m where vm: "stop_scan ui now cs = (v, m)" by (rule prod.exhaust)
  obtain c acts' es' where c: "ct_stop u now False (cs ! m) = (c, acts', es')" by (rule prod_cases3)
  from stop_scan_best [OF vm] show ?thesis
  proof (elim disjE conjE)
    assume m: "m < length cs" "mayStop now (cs ! m)" "\<forall>c \<in> set cs. mayStop now c \<longrightarrow> ct_priority ui (cs ! m) \<le> ct_priority ui c"
    from assms m(1) have "sc_control s' = Some (cs[m := c])" "acts = acts'" by (auto simp: reduceLoad_def vm c Let_def)
    with m ct_stop_now [OF m(2) c] show ?thesis by blast
  next
    assume "m = length cs + 1" "\<forall>c \<in> set cs. mayStop now c \<longrightarrow> 1000 \<le> ct_priority ui c"
    with assms show ?thesis by (auto simp: reduceLoad_def vm Let_def)
  qed
qed

lemma tryIncreaseLoad_cases:
  assumes "tryIncreaseLoad u ui now av cs s = (s', acts, es)"
  shows "(acts = [] \<and> sc_control s' = Some cs \<and> (\<forall>c \<in> set cs. mayStart u now av c \<longrightarrow> ct_priority ui c < 0))
    \<or> (\<exists>k c'. k < length cs \<and> mayStart u now av (cs ! k) \<and> acts = [switch_message (cs ! k) ''ON'']
        \<and> (\<forall>c \<in> set cs. mayStart u now av c \<longrightarrow> ct_priority ui c \<le> ct_priority ui (cs ! k))
        \<and> sc_control s' = Some (cs[k := c']) \<and> load_view u c' = held u now (cs ! k))"
proof -
  obtain v m where vm: "start_scan u ui now av cs = (v, m)" by (rule prod.exhaust)
  obtain c acts' es' where c: "ct_start u now False (cs ! m) = (c, acts', es')" by (rule prod_cases3)
  from start_scan_best [OF vm] show ?thesis
  proof (elim disjE conjE)
    assume m: "m < length cs" "mayStart u now av (cs ! m)"
      "\<forall>c \<in> set cs. mayStart u now av c \<longrightarrow> ct_priority ui c \<le> ct_priority ui (cs ! m)"
    from assms m(1) have "sc_control s' = Some (cs[m := c])" "acts = acts'" by (auto simp: tryIncreaseLoad_def vm c Let_def)
    with m ct_start_now [OF m(2) c] show ?thesis by blast
  next
    assume "m = length cs + 1" "\<forall>c \<in> set cs. mayStart u now av c \<longrightarrow> ct_priority ui c < 0"
    with assms show ?thesis by (auto simp: tryIncreaseLoad_def vm Let_def)
  qed
qed

lemma handleMode_views: "map (load_view u) (fst (handleMode now m cs)) = map (load_view u) cs"
  by (auto simp: handleMode_def each_def ct_setMode_def load_view_set Let_def)
     (auto simp: load_view_def latency_of_def ct_set_get)

lemma learn_load_views:
  assumes "learn_load now cur cs s = Some cs1"
  shows "map (load_view u) cs1 = map (load_view u) cs"
proof -
  have "load_view u (loadestimateUpdate now d c) = load_view u c" for d c
    by (simp add: load_view_def latency_of_def loadestimateUpdate_def)
  then show ?thesis using assms by (auto simp: learn_load_def Let_def map_update list_update_same_conv split: if_splits)
qed

lemma mayStop_free: "mayStop now c \<Longrightarrow> wait_until c \<le> now"
  by (auto simp: mayStop_def split: if_splits)

lemma mayStart_free: "mayStart u now av c \<Longrightarrow> wait_until c \<le> now"
  by (auto simp: mayStart_def split: if_splits)

lemma checkControl_measure:
  assumes "sc_control s = Some cs" and "mp_get (sc_params s) ''status'' = ''ON''" and "msubtype m = control_measure s"
    and "checkControl u ui now m s = Some (b, s', acts, es)"
  obtains cs1 s1 where "learn_load now (m_getDouble u m ''Ipower'') cs s = Some cs1"
    and "m_getDouble u m ''Ipower'' > target_of u s \<Longrightarrow> reduceLoad u ui now (m_getDouble u m ''Ipower'') cs1 s1 = (s', acts, es)"
    and "m_getDouble u m ''Ipower'' < target_of u s
      \<Longrightarrow> tryIncreaseLoad u ui now (target_of u s - m_getDouble u m ''Ipower'') cs1 s1 = (s', acts, es)"
    and "m_getDouble u m ''Ipower'' = target_of u s \<Longrightarrow> acts = [] \<and> sc_control s' = Some cs1"
  using assms by (fastforce simp: checkControl_def Let_def split: if_splits)

text \<open>One event of the scheduler, seen from the loads: at most one is switched, it was free, and it is
  held for its latency; nothing else changes the instant up to which a load is held.\<close>

lemma checkControl_views:
  assumes cs: "sc_control s = Some cs" and run: "checkControl u ui now m s = Some (b, s', acts, es)"
  obtains cs' where "sc_control s' = Some cs'" "acts = []" "map (load_view u) cs' = map (load_view u) cs"
  | cs' k a where "sc_control s' = Some cs'" "acts = [a]" "k < length cs" "msubtype a = ct_get (cs ! k) ''control''"
      "wait_until (cs ! k) \<le> now" "map (load_view u) cs' = (map (load_view u) cs)[k := held u now (cs ! k)]"
proof (cases "mp_get (sc_params s) ''status'' = ''ON'' \<and> msubtype m = control_measure s")
  case False
  with cs run that(1) show thesis
    by (cases "handleMode now m cs") (use handleMode_views [of u now m cs] in \<open>auto simp: checkControl_def split: if_splits\<close>)
next
  case True
  note unswitched = that(1) and switched = that(2)
  let ?cur = "m_getDouble u m ''Ipower''"
  obtain cs1 s1 where learn: "learn_load now ?cur cs s = Some cs1"
    and red: "?cur > target_of u s \<Longrightarrow> reduceLoad u ui now ?cur cs1 s1 = (s', acts, es)"
    and inc: "?cur < target_of u s \<Longrightarrow> tryIncreaseLoad u ui now (target_of u s - ?cur) cs1 s1 = (s', acts, es)"
    and eq: "?cur = target_of u s \<Longrightarrow> acts = [] \<and> sc_control s' = Some cs1"
    using checkControl_measure [OF cs _ _ run] True by metis
  have views: "map (load_view u) cs1 = map (load_view u) cs" by (rule learn_load_views [OF learn])
  then have len: "length cs1 = length cs" by (rule map_eq_imp_length_eq)
  have one: thesis if k: "k < length cs1" "wait_until (cs1 ! k) \<le> now" "acts = [switch_message (cs1 ! k) v]"
    "sc_control s' = Some (cs1[k := c'])" "load_view u c' = held u now (cs1 ! k)" for k c' v
  proof (rule switched [OF k(4) k(3)])
    from views have "load_view u (cs1 ! k) = load_view u (cs ! k)" using k(1) len by (metis nth_map)
    then have same: "ct_get (cs1 ! k) ''control'' = ct_get (cs ! k) ''control''" "latency_of u (cs1 ! k) = latency_of u (cs ! k)"
      "wait_until (cs1 ! k) = wait_until (cs ! k)" by (simp_all add: load_view_def)
    show "k < length cs" "msubtype (switch_message (cs1 ! k) v) = ct_get (cs ! k) ''control''" "wait_until (cs ! k) \<le> now"
      "map (load_view u) (cs1[k := c']) = (map (load_view u) cs)[k := held u now (cs ! k)]"
      using k same views len by (simp_all add: map_update held_def)
  qed
  consider "?cur > target_of u s" | "?cur < target_of u s" | "?cur = target_of u s" by linarith
  then show thesis
  proof cases
    case 1
    from reduceLoad_cases [OF red [OF 1]] show thesis using unswitched [OF _ _ views] one mayStop_free by blast
  next
    case 2
    from tryIncreaseLoad_cases [OF inc [OF 2]] show thesis using unswitched [OF _ _ views] one mayStart_free by blast
  next
    case 3
    from eq [OF 3] show thesis using unswitched [OF _ _ views] by blast
  qed
qed

subsection \<open>Runs of the scheduler\<close>

text \<open>The events of a run with the instants at which they are handled, and the commands it sends.\<close>

fun sc_run ::
  "double \<Rightarrow> int \<Rightarrow> (double \<times> mmessage) list \<Rightarrow> scheduler \<Rightarrow> (scheduler \<times> (double \<times> mmessage) list) option" where
  "sc_run u ui [] s = Some (s, [])"
| "sc_run u ui ((now, m) # evs) s =
     (case checkControl u ui now m s of
        None \<Rightarrow> None
      | Some (b, s1, acts, es) \<Rightarrow> map_option (\<lambda>(s2, out). (s2, map (Pair now) acts @ out)) (sc_run u ui evs s1))"

definition command_times :: "string \<Rightarrow> (double \<times> mmessage) list \<Rightarrow> double list" where
  "command_times n out = map fst (filter (\<lambda>(t, a). msubtype a = n) out)"

lemma command_times_simps [simp]:
  "command_times n [] = []" "command_times n (x # out) = (if msubtype (snd x) = n then [fst x] else []) @ command_times n out"
  by (auto simp: command_times_def split: prod.splits)

lemma sc_run_spaced:
  assumes "sc_run u ui evs s = Some (s', out)" and "sc_control s = Some cs"
    and "distinct (map (\<lambda>c. ct_get c ''control'') cs)" and "k < length cs" and "0 \<le> latency_of u (cs ! k)"
  shows "(\<forall>t \<in> set (command_times (ct_get (cs ! k) ''control'') out). wait_until (cs ! k) \<le> t)
    \<and> sorted_wrt (\<lambda>t1 t2. t1 + latency_of u (cs ! k) \<le> t2) (command_times (ct_get (cs ! k) ''control'') out)"
  using assms
proof (induction evs arbitrary: s cs out)
  case Nil
  then show ?case by simp
next
  case (Cons e evs)
  obtain now m where e: "e = (now, m)" by (rule prod.exhaust)
  from Cons.prems(1) obtain b s1 acts es out1
    where step: "checkControl u ui now m s = Some (b, s1, acts, es)" and rest: "sc_run u ui evs s1 = Some (s', out1)"
      and out: "out = map (Pair now) acts @ out1"
    by (auto simp: e split: option.splits)
  have names: "map (\<lambda>c. ct_get c ''control'') xs = map fst (map (load_view u) xs)" for xs by (simp add: load_view_def)
  note k = Cons.prems(4) and d = Cons.prems(3) [unfolded names]
  from checkControl_views [OF Cons.prems(2) step] show ?case
  proof cases
    case (1 cs')
    from 1(3) have len: "length cs' = length cs" by (rule map_eq_imp_length_eq)
    from 1(3) have "load_view u (cs' ! k) = load_view u (cs ! k)" using k len by (metis nth_map)
    moreover have "distinct (map (\<lambda>c. ct_get c ''control'') cs')" using d by (simp add: names 1(3) del: map_map)
    ultimately show ?thesis using Cons.IH [OF rest 1(1)] Cons.prems(5) k len by (simp add: out 1(2) load_view_def)
  next
    case (2 cs' j a)
    from 2(6) have len: "length cs' = length cs" using length_map length_list_update by metis
    have "load_view u (cs' ! k) = map (load_view u) cs' ! k" using k len by simp
    then have vk: "load_view u (cs' ! k) = (if k = j then held u now (cs ! j) else load_view u (cs ! k))"
      using k by (simp add: 2(6) nth_list_update)
    have "fst (held u now (cs ! j)) = map fst (map (load_view u) cs) ! j" using 2(3) by (simp add: held_def load_view_def)
    then have "map fst (map (load_view u) cs') = map fst (map (load_view u) cs)" by (simp only: 2(6) map_update list_update_id)
    then have d': "distinct (map (\<lambda>c. ct_get c ''control'') cs')" unfolding names using d by simp
    have "ct_get (cs ! j) ''control'' = ct_get (cs ! k) ''control'' \<longleftrightarrow> j = k"
      using nth_eq_iff_index_eq [OF Cons.prems(3)] k 2(3) by auto
    then show ?thesis using Cons.IH [OF rest 2(1) d'] Cons.prems(5) k len vk 2(4,5)
      by (fastforce simp: out 2(2) load_view_def held_def)
  qed
qed


text \<open>C35: the decision of the scheduler on a measure. Above the threshold exactly one load is
  switched off, an active load that is not held, of least priority among those, unless every such load has
  priority 1000 or more; below it at most one load is switched on, idle, not held and of greatest priority,
  and the power expected with it stays below the threshold; at the threshold nothing happens.\<close>

theorem scheduler_decision:
  assumes "sc_control s = Some cs" and "mp_get (sc_params s) ''status'' = ''ON''" and "msubtype m = control_measure s"
    and "checkControl u ui now m s = Some (b, s', acts, es)" and "cur = m_getDouble u m ''Ipower''"
  shows "\<exists>cs1. learn_load now cur cs s = Some cs1
    \<and> (cur > target_of u s \<longrightarrow>
         (acts = [] \<and> (\<forall>c \<in> set cs1. mayStop now c \<longrightarrow> 1000 \<le> ct_priority ui c))
       \<or> (\<exists>c \<in> set cs1. acts = [switch_message c ''OFF''] \<and> wait_until c \<le> now \<and> ct_get c ''status'' = ''ON''
            \<and> ct_get c ''mode'' = ''ON'' \<and> (\<forall>d \<in> set cs1. mayStop now d \<longrightarrow> ct_priority ui c \<le> ct_priority ui d)))
    \<and> (cur < target_of u s \<longrightarrow>
         (acts = [] \<and> (\<forall>c \<in> set cs1. mayStart u now (target_of u s - cur) c \<longrightarrow> ct_priority ui c < 0))
       \<or> (\<exists>c \<in> set cs1. acts = [switch_message c ''ON''] \<and> wait_until c \<le> now \<and> ct_get c ''status'' = ''ON''
            \<and> ct_get c ''mode'' \<noteq> ''ON'' \<and> cur + load_of u c < target_of u s
            \<and> (\<forall>d \<in> set cs1. mayStart u now (target_of u s - cur) d \<longrightarrow> ct_priority ui d \<le> ct_priority ui c)))
    \<and> (cur = target_of u s \<longrightarrow> acts = [])"
proof -
  obtain cs1 s1 where learn: "learn_load now cur cs s = Some cs1"
    and red: "cur > target_of u s \<Longrightarrow> reduceLoad u ui now cur cs1 s1 = (s', acts, es)"
    and inc: "cur < target_of u s \<Longrightarrow> tryIncreaseLoad u ui now (target_of u s - cur) cs1 s1 = (s', acts, es)"
    and eq: "cur = target_of u s \<Longrightarrow> acts = [] \<and> sc_control s' = Some cs1"
    using checkControl_measure [OF assms(1-4)] assms(5) by metis
  have stop: "wait_until c \<le> now \<and> ct_get c ''status'' = ''ON'' \<and> ct_get c ''mode'' = ''ON''" if "mayStop now c" for c
    using that by (auto simp: mayStop_def isstatusON_def ismodeON_def split: if_splits)
  have start: "wait_until c \<le> now \<and> ct_get c ''status'' = ''ON'' \<and> ct_get c ''mode'' \<noteq> ''ON'' \<and> cur + load_of u c < target_of u s"
    if "mayStart u now (target_of u s - cur) c" "cur < target_of u s" for c
    using that by (auto simp: mayStart_def isstatusON_def ismodeON_def split: if_splits)
  show ?thesis
  proof (intro exI conjI impI)
    show "learn_load now cur cs s = Some cs1" by (rule learn)
  next
    assume "cur > target_of u s"
    from reduceLoad_cases [OF red [OF this]] show "(acts = [] \<and> (\<forall>c \<in> set cs1. mayStop now c \<longrightarrow> 1000 \<le> ct_priority ui c))
       \<or> (\<exists>c \<in> set cs1. acts = [switch_message c ''OFF''] \<and> wait_until c \<le> now \<and> ct_get c ''status'' = ''ON''
            \<and> ct_get c ''mode'' = ''ON'' \<and> (\<forall>d \<in> set cs1. mayStop now d \<longrightarrow> ct_priority ui c \<le> ct_priority ui d))"
      using stop nth_mem by metis
  next
    assume below: "cur < target_of u s"
    from tryIncreaseLoad_cases [OF inc [OF below]]
    show "(acts = [] \<and> (\<forall>c \<in> set cs1. mayStart u now (target_of u s - cur) c \<longrightarrow> ct_priority ui c < 0))
       \<or> (\<exists>c \<in> set cs1. acts = [switch_message c ''ON''] \<and> wait_until c \<le> now \<and> ct_get c ''status'' = ''ON''
            \<and> ct_get c ''mode'' \<noteq> ''ON'' \<and> cur + load_of u c < target_of u s
            \<and> (\<forall>d \<in> set cs1. mayStart u now (target_of u s - cur) d \<longrightarrow> ct_priority ui d \<le> ct_priority ui c))"
      using start [OF _ below] nth_mem by metis
  next
    assume "cur = target_of u s"
    then show "acts = []" using eq by simp
  qed
qed

definition example_load :: "string \<Rightarrow> string \<Rightarrow> control" where
  "example_load n pri = control_new 0 0
     (fold (\<lambda>(k, v) p. mp_add p k v)
       [(''name'', n), (''control'', n @ ''.switch''), (''status'', ''ON''), (''mode'', ''ON''), (''priority'', pri),
        (''nominalload'', ''10''), (''latency'', ''60'')] (mp_new ''conf'' ''home'' n))"

definition example_scheduler :: scheduler where
  "example_scheduler =
     \<lparr>sc_params = mp_add (mp_new ''conf'' ''home'' ''scheduler'') ''status'' ''ON'',
      sc_control = Some [example_load ''boiler'' ''5'', example_load ''heater'' ''1''], sc_sensor = None, last_stopped = 0,
      sc_threshold = ''30'', control_measure = ''meter'', stop_time = 0, targetvalue_atstop = 0, sc_current = 0\<rparr>"

definition example_measure :: "string \<Rightarrow> mmessage" where
  "example_measure w = m_add (m_new ''event'' ''meter'') ''Ipower'' w"


theorem scheduler_decision_witness:
  "case checkControl 0 0 100 (example_measure ''35'') example_scheduler of
     Some (_, _, acts, _) \<Rightarrow> acts = [switch_message (example_load ''heater'' ''1'') ''OFF'']
   | None \<Rightarrow> False"
proof -
  let ?m = "example_measure ''35''" and ?cs = "[example_load ''boiler'' ''5'', example_load ''heater'' ''1'']"
  obtain b s' acts es where run: "checkControl 0 0 100 ?m example_scheduler = Some (b, s', acts, es)"
    by (cases "checkControl 0 0 100 ?m example_scheduler") (auto, code_simp)
  have s: "sc_control example_scheduler = Some ?cs" "mp_get (sc_params example_scheduler) ''status'' = ''ON''"
    "msubtype ?m = control_measure example_scheduler" "m_getDouble 0 ?m ''Ipower'' = 35" "target_of 0 example_scheduler = 30"
    "learn_load 100 35 ?cs example_scheduler = Some ?cs"
    "map (mayStop 100) ?cs = [True, True]" "map (ct_priority 0) ?cs = [5, 1]"
    by code_simp+
  from scheduler_decision [OF s(1-3) run refl] s(4-8)
  have "acts = [switch_message (example_load ''heater'' ''1'') ''OFF'']" by auto
  then show ?thesis by (simp add: run)
qed

end
