(* ===== verification/Meter_Devices.thy ===== *)
theory Meter_Devices
  imports Io_Devices
begin

text \<open>
  The measuring and dimming devices of \<^verbatim>\<open>src/agents/BBDevices\<close>: \<^verbatim>\<open>ElectricMeter\<close>
  (counts pulses and derives power), \<^verbatim>\<open>AnalogInput\<close>, \<^verbatim>\<open>Pwm\<close> (one dimmed
  channel) and \<^verbatim>\<open>RGBPwm\<close> (three channels and a colour). One clock reading \<open>now\<close> per
  operation; \<open>u\<close>, \<open>ui\<close> are uninitialised locals of conversions. A quotient by zero, which is
  infinite or not a number in the code, an overflow of a product of integers and the exception of a
  substring past the end are the result \<open>None\<close>.
\<close>

subsection \<open>Electric meters\<close>

record electric_meter =
  em_params :: mparams
  em_name :: string
  em_status :: string
  energy :: double
  Ipower :: double
  Apower :: double
  Wpower :: double
  origin :: double
  em_currentTime :: double
  alpha :: double
  quantum :: double
  em_unit :: string
  em_in :: string
  deltaEnergy :: double

definition INITIALSILENCE :: double where "INITIALSILENCE = 5"

definition em_publish :: "string \<Rightarrow> electric_meter \<Rightarrow> effect list" where
  "em_publish stamp d =
     [Notify (m_add (m_add (m_add (m_add (m_add (m_new ''event'' (em_name d)) ''energy'' (double2a (energy d)))
        ''Ipower'' (double2a (Ipower d))) ''Apower'' (double2a (Apower d))) ''unit'' (em_unit d)) ''timeofday'' stamp),
      Publish (em_name d) (''type='' @ quote @ ''source'' @ quote @ '' energy='' @ quote @ double2a (energy d) @ quote
        @ '' power='' @ quote @ double2a (Ipower d) @ quote @ '' status='' @ quote @ mp_get (em_params d) ''status'' @ quote)]"

definition em_new :: "double \<Rightarrow> double \<Rightarrow> string \<Rightarrow> mparams \<Rightarrow> string \<Rightarrow> electric_meter \<times> effect list" where
  "em_new u now stamp p n =
     (let g = mp_get p; num = (\<lambda>k dflt. if g k = '''' then dflt else a2double u (g k));
          inp = mp_get_cat p ''input'' ''input'';
          d = \<lparr>em_params = p, em_name = n, em_status = (if g ''status'' \<noteq> '''' then g ''status'' else ''ON''),
               energy = num ''energy'' 0, Ipower = 0, Apower = 0, Wpower = 0, origin = now, em_currentTime = now,
               alpha = num ''alpha'' 0, quantum = num ''quantum'' 1,
               em_unit = (if g ''unit'' = '''' then ''Wh'' else g ''unit''),
               em_in = (if inp = '''' then g ''input'' else inp), deltaEnergy = 0\<rparr>
      in (d, em_publish stamp d))"

definition em_store :: "electric_meter \<Rightarrow> electric_meter \<times> effect list" where
  "em_store d =
     (let p = mp_add (mp_add (em_params d) ''energy'' (double2a (energy d))) ''deltaEnergy'' (double2a (deltaEnergy d))
      in (d\<lparr>em_params := p\<rparr>, [SaveFile (mp_save p)]))"

definition em_update :: "double \<Rightarrow> double \<Rightarrow> string \<Rightarrow> string \<Rightarrow> electric_meter \<Rightarrow> bool \<times> electric_meter \<times> effect list" where
  "em_update u now channel v d =
     (if channel = em_in d \<and> v = ''1''
      then let delta = quantum d * a2double u v
           in if now < origin d + INITIALSILENCE then (False, d, [])
              else (True, em_store (d\<lparr>energy := energy d + delta, deltaEnergy := deltaEnergy d + delta\<rparr>))
      else (False, d, []))"

definition em_execcmd :: "double \<Rightarrow> double \<Rightarrow> mmessage \<Rightarrow> electric_meter \<Rightarrow> bool \<times> electric_meter \<times> effect list" where
  "em_execcmd u now m d = em_update u now (msubtype m) (m_getString m ''value'') d"

definition em_doMeasure :: "double \<Rightarrow> electric_meter \<Rightarrow> electric_meter option" where
  "em_doMeasure now d =
     (if now = origin d \<or> now = em_currentTime d then None
      else Some (d\<lparr>Apower := (energy d / (now - origin d)) * 3600,
                   Ipower := Ipower d * (1 - alpha d) + alpha d * (deltaEnergy d / (now - em_currentTime d)) * 3600,
                   em_currentTime := now, deltaEnergy := 0\<rparr>))"

definition em_reset :: "double \<Rightarrow> string \<Rightarrow> electric_meter \<Rightarrow> bool \<times> electric_meter \<times> effect list" where
  "em_reset now field d =
     (if field = ''energy''
      then (True, em_store (d\<lparr>energy := 0, origin := now - 1, em_currentTime := now, deltaEnergy := 0, Ipower := 0, Apower := 0\<rparr>))
      else (False, d, []))"

definition em_input :: "electric_meter \<Rightarrow> mattribute list" where
  "em_input d = [ma_new (em_in d) ''input'' ''active'']"

definition em_getValue :: "string \<Rightarrow> electric_meter \<Rightarrow> string" where
  "em_getValue field d =
     (if field = ''energy'' then double2a (energy d) else if field = ''Ipower'' then double2a (Ipower d)
      else if field = ''Apower'' then double2a (Apower d) else ''0'')"

definition em_getSubjects :: "electric_meter \<Rightarrow> mparams \<Rightarrow> mparams" where
  "em_getSubjects d subj = mp_add_cat subj (em_name d) ''subject'' ''event''"

subsection \<open>Analog inputs\<close>

record analog_input =
  ai_params :: mparams
  ai_name :: string
  ai_status :: string
  scale_factor :: double
  ai_currentTime :: double
  ai_currentValue :: string
  ai_in :: string

definition ai_publish :: "analog_input \<Rightarrow> effect list" where
  "ai_publish d = [Publish (ai_name d) (device_text ''source'' (ai_currentValue d) (ai_params d))]"

definition ai_new :: "double \<Rightarrow> double \<Rightarrow> mparams \<Rightarrow> string \<Rightarrow> analog_input" where
  "ai_new u now p n =
     \<lparr>ai_params = p, ai_name = n, ai_status = (if mp_get p ''status'' \<noteq> '''' then mp_get p ''status'' else ''OFF''),
      scale_factor = a2double u (mp_get p ''scale_factor''), ai_currentTime = now, ai_currentValue = '''',
      ai_in = mp_get_cat p ''input'' ''input''\<rparr>"

definition ai_remap :: "double \<Rightarrow> analog_input \<Rightarrow> string \<Rightarrow> string" where
  "ai_remap u d v = (let t = double2a (a2double u v * scale_factor d) in if t = '''' then v else t)"

definition ai_update :: "double \<Rightarrow> double \<Rightarrow> string \<Rightarrow> string \<Rightarrow> analog_input \<Rightarrow> bool \<times> analog_input \<times> effect list" where
  "ai_update u now channel v d =
     (if channel = ai_in d
      then let t = ai_remap u d v; d1 = d\<lparr>ai_currentValue := t, ai_currentTime := now\<rparr>
           in (True, d1, Notify (value_time ''event'' (ai_name d) t now) # ai_publish d1)
      else (False, d, []))"

definition ai_execcmd :: "double \<Rightarrow> double \<Rightarrow> mmessage \<Rightarrow> analog_input \<Rightarrow> bool \<times> analog_input \<times> effect list" where
  "ai_execcmd u now m d = ai_update u now (msubtype m) (m_getString m ''value'') d"

definition ai_input :: "analog_input \<Rightarrow> mattribute list" where
  "ai_input d = [ma_new (ai_in d) ''input'' ''active'']"

definition ai_getSubjects :: "analog_input \<Rightarrow> mparams \<Rightarrow> mparams" where
  "ai_getSubjects d subj = mp_add_cat subj (ai_name d) ''subject'' ''event''"

subsection \<open>Dimmed channels\<close>

record pwm =
  pw_params :: mparams
  pw_name :: string
  pw_status :: string
  pw_currentTime :: double
  pw_currentValue :: string
  pw_out :: string

definition pw_publish :: "string \<Rightarrow> pwm \<Rightarrow> effect list" where
  "pw_publish v d = [Publish (pw_name d) (device_text ''target'' (if v = ''OFF'' then ''0'' else pw_currentValue d) (pw_params d))]"

definition pw_new :: "double \<Rightarrow> mparams \<Rightarrow> string \<Rightarrow> pwm \<times> effect list" where
  "pw_new junk p n =
     (let g = mp_get p; v1 = g ''value''; v2 = (if v1 = '''' then g ''default_value'' else v1);
          d = \<lparr>pw_params = p, pw_name = n, pw_status = (if g ''status'' \<noteq> '''' then g ''status'' else ''OFF''),
               pw_currentTime = junk, pw_currentValue = (if v2 = '''' then ''0'' else v2),
               pw_out = (if g ''output'' = '''' then mp_get_cat p ''output'' ''output'' else g ''output'')\<rparr>
      in (d, pw_publish (g ''value'') d))"

definition pw_save :: "pwm \<Rightarrow> pwm \<times> effect list" where
  "pw_save d = (let p = mp_add (pw_params d) ''value'' (pw_currentValue d) in (d\<lparr>pw_params := p\<rparr>, [SaveFile (mp_save p)]))"

definition pw_eventNotify :: "string \<Rightarrow> pwm \<Rightarrow> pwm \<times> effect list" where
  "pw_eventNotify v d =
     (let m = m_add (m_new ''event'' (mp_get (pw_params d) ''eventname'')) ''value''
                (if v = ''OFF'' then ''0'' else if v = ''ON'' then pw_currentValue d else v);
          (d2, es) = pw_save (if v \<noteq> ''OFF'' \<and> v \<noteq> ''ON'' then d\<lparr>pw_currentValue := v\<rparr> else d)
      in (d2, Notify m # es @ pw_publish v d2))"

definition pw_execcmd :: "double \<Rightarrow> mmessage \<Rightarrow> pwm \<Rightarrow> bool \<times> pwm \<times> effect list" where
  "pw_execcmd now msg d =
     (let v = m_getString msg ''value''; tag = m_getString msg ''tag''
      in if msubtype msg = pw_name d
         then let (d1, cmd) = (if pw_currentValue d \<noteq> v
                               then (d\<lparr>pw_currentTime := now\<rparr>, [Notify (value_time ''devcmd'' (pw_out d) (remap (pw_params d) v) now)])
                               else (d, []));
                  (d2, es) = pw_eventNotify v d1
              in (True, d2, cmd @ es
                   @ (if tag \<noteq> '''' then [RpcNotify tag ''value'' (''value='' @ (if v = ''OFF'' then ''0'' else pw_currentValue d2))]
                      else []))
         else (False, d, []))"

definition one_name :: "string \<Rightarrow> mattribute" where
  "one_name a = ma_new a ''generic'' ''ON''"

definition pw_output :: "pwm \<Rightarrow> mattribute list" where
  "pw_output d = [one_name (pw_out d)]"

definition pw_getSubjects :: "pwm \<Rightarrow> mparams \<Rightarrow> mparams" where
  "pw_getSubjects d subj =
     mp_add_cat (mp_add_cat subj (mp_get (pw_params d) ''eventname'') ''subject'' ''event'')
       (mp_get_cat (pw_params d) ''output'' ''output'') ''subject'' ''devcmd''"

definition pw_getObservations :: "pwm \<Rightarrow> mparams \<Rightarrow> mparams" where
  "pw_getObservations d obs = mp_add_cat obs (pw_name d) ''observe'' ''cmd''"

subsection \<open>Coloured lights\<close>

record rgb_pwm =
  rg_params :: mparams
  rg_name :: string
  rg_status :: string
  rg_currentTime :: double
  currentIntensity :: string
  currentColor :: string
  intensity :: int
  outputStatus :: string
  rg_R :: int
  rg_G :: int
  rg_B :: int
  Rout :: string
  Gout :: string
  Bout :: string

definition hex_val :: "char \<Rightarrow> nat option" where
  "hex_val c =
     (let n = of_char c :: nat
      in if 48 \<le> n \<and> n \<le> 57 then Some (n - 48)
         else if 97 \<le> n \<and> n \<le> 102 then Some (n - 87)
         else if 65 \<le> n \<and> n \<le> 70 then Some (n - 55) else None)"

text \<open>Extraction of an integer from a stream in hexadecimal mode: white space, a sign, the prefix
  \<^verbatim>\<open>0x\<close>, digits.\<close>

definition ha2int :: "int \<Rightarrow> string \<Rightarrow> int" where
  "ha2int ui s =
     (let (sg, t) = scan_sign (dropWhile is_space s);
          t' = (if take 2 t \<in> {''0x'', ''0X''} then drop 2 t else t);
          hs = takeWhile (\<lambda>c. hex_val c \<noteq> None) t'
      in if hs = [] then ui else sg * int (foldl (\<lambda>n c. 16 * n + the (hex_val c)) 0 hs))"

definition substr :: "nat \<Rightarrow> nat \<Rightarrow> string \<Rightarrow> string option" where
  "substr p n s = (if p > length s then None else Some (take n (drop p s)))"

definition rg_publish :: "rgb_pwm \<Rightarrow> effect list" where
  "rg_publish d = [Publish (rg_name d) (''type='' @ quote @ ''target'' @ quote @ '' value='' @ quote
     @ (if outputStatus d = ''ON'' then currentIntensity d else ''0'') @ quote
     @ '' color='' @ quote @ currentColor d @ quote @ '' status='' @ quote @ rg_status d @ quote)]"

definition rg_new :: "int \<Rightarrow> double \<Rightarrow> mparams \<Rightarrow> string \<Rightarrow> rgb_pwm \<times> effect list" where
  "rg_new ui junk p n =
     (let g = mp_get p; c1 = g ''color''; c2 = (if c1 = '''' then g ''default_color'' else c1);
          i = (if g ''intensity'' = '''' then ''0'' else g ''intensity'');
          o1 = g ''outputStatus''; o2 = (if o1 = '''' then g ''default'' else o1);
          d = \<lparr>rg_params = p, rg_name = n, rg_status = (if g ''status'' \<noteq> '''' then g ''status'' else ''OFF''),
               rg_currentTime = junk, currentIntensity = i, currentColor = (if c2 = '''' then ''ffffff'' else c2),
               intensity = a2int ui i, outputStatus = (if o2 = '''' then ''OFF'' else o2), rg_R = 255, rg_G = 255, rg_B = 255,
               Rout = mp_get_cat p ''red'' ''output'', Gout = mp_get_cat p ''green'' ''output'',
               Bout = mp_get_cat p ''blue'' ''output''\<rparr>
      in (d, rg_publish d))"

text \<open>The level of a channel: the product of two integers divided by the floating point number 255
  and cut to an integer.\<close>

definition level :: "int \<Rightarrow> int \<Rightarrow> int option" where
  "level c i = (if - (2 ^ 31) \<le> c * i \<and> c * i < 2 ^ 31 then Some (trunc (of_int (c * i) / 255)) else None)"

text \<open>One message object is sent three times, its channel and value replaced each time.\<close>

definition channel_message :: "string \<Rightarrow> double \<Rightarrow> mmessage \<Rightarrow> string \<Rightarrow> int \<Rightarrow> mmessage" where
  "channel_message v now m out l =
     m_add (m_add (m\<lparr>msubtype := out\<rparr>) ''value'' (if v = ''ON'' \<or> v = ''OFF'' then v else int2a l)) ''time'' (double2a now)"

definition sendCmd :: "string \<Rightarrow> rgb_pwm \<Rightarrow> (effect list) option" where
  "sendCmd v d =
     (case (level (rg_R d) (intensity d), level (rg_G d) (intensity d), level (rg_B d) (intensity d)) of
        (Some r, Some g, Some b) \<Rightarrow>
          let send = channel_message v (rg_currentTime d);
              mr = send (m_default\<lparr>mtype := ''devcmd''\<rparr>) (Rout d) r;
              mg = send mr (Gout d) g;
              mb = send mg (Bout d) b
          in Some [Notify mr, Notify mg, Notify mb]
      | _ \<Rightarrow> None)"

definition rg_save :: "rgb_pwm \<Rightarrow> rgb_pwm \<times> effect list" where
  "rg_save d =
     (let p = mp_add (mp_add (mp_add (rg_params d) ''intensity'' (int2a (intensity d))) ''color'' (currentColor d))
                ''outputStatus'' (outputStatus d)
      in (d\<lparr>rg_params := p\<rparr>, [SaveFile (mp_save p)]))"

definition rg_eventNotify :: "rgb_pwm \<Rightarrow> rgb_pwm \<times> effect list" where
  "rg_eventNotify d =
     (let m = m_add (m_add (m_add (m_new ''event'' (mp_get (rg_params d) ''eventname'')) ''value''
                (if outputStatus d = ''OFF'' then ''0'' else currentIntensity d)) ''intensity'' (int2a (intensity d)))
                ''color'' (currentColor d);
          (d1, es) = rg_save d
      in (d1, Notify m # es @ rg_publish d1))"

definition setColor :: "int \<Rightarrow> string \<Rightarrow> rgb_pwm \<Rightarrow> rgb_pwm option" where
  "setColor ui c d =
     (case (substr 0 2 c, substr 2 2 c, substr 4 2 c) of
        (Some r, Some g, Some b) \<Rightarrow>
          Some (d\<lparr>currentColor := c, rg_R := ha2int ui r, rg_G := ha2int ui g, rg_B := ha2int ui b\<rparr>)
      | _ \<Rightarrow> None)"

definition rg_command :: "int \<Rightarrow> string \<Rightarrow> string \<Rightarrow> rgb_pwm \<Rightarrow> (rgb_pwm \<times> effect list) option" where
  "rg_command ui v color d =
     (if v = ''OFF'' \<or> v = ''ON''
      then let d1 = d\<lparr>outputStatus := v\<rparr> in map_option (Pair d1) (sendCmd v d1)
      else if currentIntensity d \<noteq> v \<and> v \<noteq> ''''
      then let t = remap (rg_params d) v; d1 = d\<lparr>currentIntensity := v, intensity := a2int ui t\<rparr>
           in map_option (Pair d1) (sendCmd t d1)
      else if color \<noteq> '''' \<and> color \<noteq> currentColor d
      then case setColor ui color d of None \<Rightarrow> None | Some d1 \<Rightarrow> map_option (Pair d1) (sendCmd ''100'' d1)
      else Some (d, []))"

definition rg_execcmd :: "int \<Rightarrow> double \<Rightarrow> mmessage \<Rightarrow> rgb_pwm \<Rightarrow> (bool \<times> rgb_pwm \<times> effect list) option" where
  "rg_execcmd ui now msg d =
     (if msubtype msg = rg_name d
      then let vs = fst (nl_init [] (m_getString msg ''value'') (CHR ''.'')); tag = m_getString msg ''tag'';
               (v, color) = (if length vs > 1 then (vs ! 0, vs ! 1) else (m_getString msg ''value'', m_getString msg ''color''))
           in case rg_command ui v color (d\<lparr>rg_currentTime := now\<rparr>) of
                None \<Rightarrow> None
              | Some (d1, cmd) \<Rightarrow>
                  let (d2, es) = rg_eventNotify d1
                  in Some (True, d2, cmd @ es
                       @ (if tag \<noteq> ''''
                          then [RpcNotify tag ''value'' (''value='' @ (if outputStatus d2 = ''ON'' then currentIntensity d2 else ''0'')
                                  @ '',color='' @ currentColor d2)] else []))
      else Some (False, d, []))"

definition rg_output :: "rgb_pwm \<Rightarrow> mattribute list" where
  "rg_output d = [one_name (Rout d), one_name (Gout d), one_name (Bout d)]"

definition rg_getSubjects :: "rgb_pwm \<Rightarrow> mparams \<Rightarrow> mparams" where
  "rg_getSubjects d subj =
     fold (\<lambda>c p. mp_add_cat p (mp_get_cat (rg_params d) c ''output'') ''subject'' ''devcmd'') [''red'', ''green'', ''blue'']
       (mp_add_cat subj (mp_get (rg_params d) ''eventname'') ''subject'' ''event'')"

definition rg_getObservations :: "rgb_pwm \<Rightarrow> mparams \<Rightarrow> mparams" where
  "rg_getObservations d obs = mp_add_cat obs (rg_name d) ''observe'' ''cmd''"

subsection \<open>What a meter shows\<close>

datatype em_op = Pulse mmessage | Measure

text \<open>A run of a meter, with the interval and the power of every measure.\<close>

fun em_run :: "double \<Rightarrow> (double \<times> em_op) list \<Rightarrow> electric_meter \<Rightarrow> (electric_meter \<times> (double \<times> double) list) option" where
  "em_run u [] d = Some (d, [])"
| "em_run u ((now, Pulse m) # ops) d = em_run u ops (fst (snd (em_execcmd u now m d)))"
| "em_run u ((now, Measure) # ops) d =
     (case em_doMeasure now d of
        None \<Rightarrow> None
      | Some d1 \<Rightarrow> map_option (\<lambda>(d2, rs). (d2, (now - em_currentTime d, deltaEnergy d / (now - em_currentTime d) * 3600) # rs))
                    (em_run u ops d1))"

fun counted :: "electric_meter \<Rightarrow> double \<times> em_op \<Rightarrow> bool" where
  "counted d (now, Pulse m) = (msubtype m = em_in d \<and> m_getString m ''value'' = ''1'' \<and> origin d + INITIALSILENCE \<le> now)"
| "counted d (now, Measure) = False"

definition em_same :: "electric_meter \<Rightarrow> electric_meter \<Rightarrow> bool" where
  "em_same d e \<longleftrightarrow> em_in e = em_in d \<and> origin e = origin d \<and> quantum e = quantum d \<and> alpha e = alpha d"

lemma counted_same: "em_same d e \<Longrightarrow> counted e x = counted d x"
  by (cases "(d, x)" rule: counted.cases) (simp_all add: em_same_def)

lemma pulse_cases:
  assumes "em_execcmd u now m d = (b, d', es)"
  shows "em_same d d'" "Ipower d' = Ipower d" "em_currentTime d' = em_currentTime d"
    and "energy d' = energy d + (if counted d (now, Pulse m) then quantum d else 0)"
    and "deltaEnergy d' = deltaEnergy d + (if counted d (now, Pulse m) then quantum d else 0)"
proof -
  have "a2double u ''1'' = 1" by code_simp
  then show "em_same d d'" "Ipower d' = Ipower d" "em_currentTime d' = em_currentTime d"
    "energy d' = energy d + (if counted d (now, Pulse m) then quantum d else 0)"
    "deltaEnergy d' = deltaEnergy d + (if counted d (now, Pulse m) then quantum d else 0)"
    using assms by (auto simp: em_execcmd_def em_update_def em_store_def em_same_def Let_def split: if_splits)
qed

lemma smooth_between:
  fixes a p w lo hi :: double
  assumes "0 \<le> a" "a \<le> 1" "lo \<le> p" "p \<le> hi" "lo \<le> w" "w \<le> hi"
  shows "lo \<le> p * (1 - a) + a * w" "p * (1 - a) + a * w \<le> hi"
proof -
  have "lo * (1 - a) + a * lo \<le> p * (1 - a) + a * w" "p * (1 - a) + a * w \<le> hi * (1 - a) + a * hi"
    using assms by (intro add_mono mult_left_mono mult_right_mono; simp)+
  then show "lo \<le> p * (1 - a) + a * w" "p * (1 - a) + a * w \<le> hi" by (simp_all add: algebra_simps)
qed

lemma em_run_energy:
  assumes "em_run u ops d = Some (d', rs)"
  shows "energy d' = energy d + quantum d * of_nat (length (filter (counted d) ops))
    \<and> sum_list (map (\<lambda>(dt, w). w * dt / 3600) rs) + deltaEnergy d'
        = deltaEnergy d + quantum d * of_nat (length (filter (counted d) ops))"
  using assms
proof (induction u ops d arbitrary: d' rs rule: em_run.induct)
  case (2 u now m ops d)
  obtain b d1 es where e: "em_execcmd u now m d = (b, d1, es)" by (rule prod_cases3)
  note p = pulse_cases [OF e]
  have "filter (counted d1) ops = filter (counted d) ops" using counted_same [OF p(1)] by (simp cong: filter_cong)
  with 2 p show ?case by (simp add: e em_same_def algebra_simps)
next
  case (3 u now ops d)
  from 3(2) obtain d1 rs1 where m: "em_doMeasure now d = Some d1" and r: "em_run u ops d1 = Some (d', rs1)"
    and rs: "rs = (now - em_currentTime d, deltaEnergy d / (now - em_currentTime d) * 3600) # rs1"
    by (auto split: option.splits)
  have d1: "em_same d d1" "energy d1 = energy d" "deltaEnergy d1 = 0" "now \<noteq> em_currentTime d"
    using m by (auto simp: em_doMeasure_def em_same_def split: if_splits)
  have "filter (counted d1) ops = filter (counted d) ops" using counted_same [OF d1(1)] by (simp cong: filter_cong)
  then have ih: "energy d' = energy d + quantum d * of_nat (length (filter (counted d) ops))"
    "sum_list (map (\<lambda>(dt, w). w * dt / 3600) rs1) + deltaEnergy d' = quantum d * of_nat (length (filter (counted d) ops))"
    using 3(1) [OF m r] d1(1-3) by (simp_all add: em_same_def)
  have "deltaEnergy d / (now - em_currentTime d) * 3600 * (now - em_currentTime d) / 3600 = deltaEnergy d" using d1(4) by simp
  then have "sum_list (map (\<lambda>(dt, w). w * dt / 3600) rs) + deltaEnergy d'
      = deltaEnergy d + (sum_list (map (\<lambda>(dt, w). w * dt / 3600) rs1) + deltaEnergy d')"
    unfolding rs by (simp only: list.map prod.case sum_list.Cons add.assoc)
  with ih show ?case by (simp only: filter.simps counted.simps if_False)
qed simp

lemma em_run_power:
  assumes "em_run u ops d = Some (d', rs)" and "0 \<le> alpha d" "alpha d \<le> 1" and "lo \<le> Ipower d" "Ipower d \<le> hi"
    and "\<forall>(dt, w) \<in> set rs. lo \<le> w \<and> w \<le> hi"
  shows "lo \<le> Ipower d' \<and> Ipower d' \<le> hi"
  using assms
proof (induction u ops d arbitrary: d' rs rule: em_run.induct)
  case (2 u now m ops d)
  obtain b d1 es where e: "em_execcmd u now m d = (b, d1, es)" by (rule prod_cases3)
  from 2 pulse_cases [OF e] show ?case by (simp add: e em_same_def)
next
  case (3 u now ops d)
  from 3(2) obtain d1 rs1 where m: "em_doMeasure now d = Some d1" and r: "em_run u ops d1 = Some (d', rs1)"
    and rs: "rs = (now - em_currentTime d, deltaEnergy d / (now - em_currentTime d) * 3600) # rs1"
    by (auto split: option.splits)
  have d1: "alpha d1 = alpha d"
    "Ipower d1 = Ipower d * (1 - alpha d) + alpha d * (deltaEnergy d / (now - em_currentTime d) * 3600)"
    using m by (auto simp: em_doMeasure_def split: if_splits)
  have w: "lo \<le> deltaEnergy d / (now - em_currentTime d) * 3600" "deltaEnergy d / (now - em_currentTime d) * 3600 \<le> hi"
    and rest: "\<forall>(dt, w) \<in> set rs1. lo \<le> w \<and> w \<le> hi" using 3(7) rs by auto
  from smooth_between [OF 3(3-6) w] 3(1) [OF m r] 3(3,4) rest show ?case by (simp add: d1)
qed simp

text \<open>A meter loses nothing. Over any sequence of pulses and measures the counted energy grows by
  one quantum per pulse of its channel after the initial silence, the powers of the measures integrated
  over their intervals account for exactly that energy and what is still pending, and the displayed
  power stays between the least and the greatest of them.\<close>

lemma meter_energy:
  assumes "em_run u ops d = Some (d', rs)" and "0 \<le> alpha d" "alpha d \<le> 1" and "lo \<le> Ipower d" "Ipower d \<le> hi"
    and "\<forall>(dt, w) \<in> set rs. lo \<le> w \<and> w \<le> hi" and "deltaEnergy d = 0"
  shows "energy d' = energy d + quantum d * of_nat (length (filter (counted d) ops))
    \<and> energy d' - energy d = sum_list (map (\<lambda>(dt, w). w * dt / 3600) rs) + deltaEnergy d'
    \<and> lo \<le> Ipower d' \<and> Ipower d' \<le> hi"
  using em_run_energy [OF assms(1)] em_run_power [OF assms(1-6)] assms(7) by simp

definition example_meter :: electric_meter where
  "example_meter =
     \<lparr>em_params = mp_new ''conf'' ''home'' ''meter'', em_name = ''meter'', em_status = ''ON'', energy = 0, Ipower = 0, Apower = 0,
      Wpower = 0, origin = 0, em_currentTime = 0, alpha = 1 / 2, quantum = 1, em_unit = ''Wh'', em_in = ''in3'', deltaEnergy = 0\<rparr>"

subsection \<open>Colours\<close>

definition hex_pair :: "char \<Rightarrow> char \<Rightarrow> int" where
  "hex_pair a b = 16 * int (the (hex_val a)) + int (the (hex_val b))"

lemma hex_val_range: "hex_val c = Some n \<Longrightarrow> n < 16"
  by (auto simp: hex_val_def Let_def split: if_splits)

lemma hex_not_other: "hex_val c \<noteq> None \<Longrightarrow> \<not> is_space c \<and> c \<notin> {CHR ''-'', CHR ''+'', CHR ''x'', CHR ''X''}"
  by (auto simp: hex_val_def is_space_def Let_def split: if_splits)

lemma ha2int_pair:
  assumes "hex_val a \<noteq> None" "hex_val b \<noteq> None"
  shows "ha2int ui [a, b] = hex_pair a b" "0 \<le> hex_pair a b" "hex_pair a b \<le> 255"
proof -
  show "ha2int ui [a, b] = hex_pair a b"
    using hex_not_other [OF assms(1)] hex_not_other [OF assms(2)] assms
    by (auto simp: ha2int_def hex_pair_def Let_def)
  show "0 \<le> hex_pair a b" by (simp add: hex_pair_def)
  obtain m n where "hex_val a = Some m" "hex_val b = Some n" using assms by blast
  then show "hex_pair a b \<le> 255" using hex_val_range [of a m] hex_val_range [of b n] by (simp add: hex_pair_def)
qed

lemma level_scaled:
  assumes "0 \<le> c" "c \<le> 255" "0 \<le> i" "i < 2 ^ 23"
  shows "level c i = Some (c * i div 255)" "0 \<le> c * i div 255" "c * i div 255 \<le> i"
proof -
  have p: "0 \<le> c * i" "c * i \<le> 255 * i" using assms by (simp_all add: mult_right_mono)
  have "\<not> (of_int (c * i) / 255 :: double) < 0" using p(1) by (simp only: divide_less_0_iff of_int_less_0_iff not_less) simp
  then have "trunc (of_int (c * i) / 255 :: double) = c * i div 255"
    using floor_divide_of_int_eq [of "c * i" 255, where ?'a = rat] by (simp only: trunc_def if_False) simp
  with p assms(4) show "level c i = Some (c * i div 255)" by (simp add: level_def)
  show "0 \<le> c * i div 255" using p by (simp add: pos_imp_zdiv_nonneg_iff)
  show "c * i div 255 \<le> i" using zdiv_mono1 [OF p(2), of 255] by simp
qed

lemma m_texts_header: "m_texts (m\<lparr>msubtype := s\<rparr>) = m_texts m" "m_texts (m_default\<lparr>mtype := t\<rparr>)"
  by (simp_all add: m_texts_def m_wf_def m_default_def)

lemma channel_message_fields [simp]:
  "mtype (channel_message v t m out l) = mtype m" "msubtype (channel_message v t m out l) = out"
  "m_texts m \<Longrightarrow> m_texts (channel_message v t m out l)"
  "m_texts m \<Longrightarrow> m_getString (channel_message v t m out l) ''value'' = (if v = ''ON'' \<or> v = ''OFF'' then v else int2a l)"
  by (simp_all add: channel_message_def m_texts_header)

lemma sendCmd_devcmds:
  assumes "sendCmd v d = Some es" and "level (rg_R d) (intensity d) = Some r" and "level (rg_G d) (intensity d) = Some g"
    and "level (rg_B d) (intensity d) = Some b"
  shows "devcmds es = (let t = (\<lambda>l. if v = ''ON'' \<or> v = ''OFF'' then v else int2a l) in [(Rout d, t r), (Gout d, t g), (Bout d, t b)])"
proof -
  let ?m = "m_default\<lparr>mtype := ''devcmd''\<rparr>" and ?c = "channel_message v (rg_currentTime d)"
  have "es = [Notify (?c ?m (Rout d) r), Notify (?c (?c ?m (Rout d) r) (Gout d) g),
      Notify (?c (?c (?c ?m (Rout d) r) (Gout d) g) (Bout d) b)]"
    using assms by (simp add: sendCmd_def Let_def)
  then show ?thesis by (simp add: devcmds_def m_texts_header Let_def)
qed

text \<open>A new colour. The command \<^verbatim>\<open>value=i.rrggbb\<close> with the current intensity, or the field
  \<^verbatim>\<open>color\<close>, sets the colour; exactly three commands go out, one per channel, each the intensity
  scaled by the two hexadecimal digits of its channel, and none exceeds the intensity.\<close>

lemma rgb_colour_levels:
  assumes "rg_command ui v [a, b, c, d, e, f] l = Some (l', es)" and "v = '''' \<or> v = currentIntensity l"
    and "v \<noteq> ''ON''" "v \<noteq> ''OFF''" and "[a, b, c, d, e, f] \<noteq> currentColor l"
    and "\<forall>x \<in> {a, b, c, d, e, f}. hex_val x \<noteq> None" and "0 \<le> intensity l" "intensity l < 2 ^ 23"
  shows "devcmds es = [(Rout l, int2a (hex_pair a b * intensity l div 255)), (Gout l, int2a (hex_pair c d * intensity l div 255)),
      (Bout l, int2a (hex_pair e f * intensity l div 255))]
    \<and> (\<forall>p \<in> {hex_pair a b, hex_pair c d, hex_pair e f}. p * intensity l div 255 \<in> {0..intensity l})
    \<and> currentColor l' = [a, b, c, d, e, f] \<and> intensity l' = intensity l"
proof -
  let ?l = "l\<lparr>currentColor := [a, b, c, d, e, f], rg_R := hex_pair a b, rg_G := hex_pair c d, rg_B := hex_pair e f\<rparr>"
  have pairs: "ha2int ui [a, b] = hex_pair a b" "ha2int ui [c, d] = hex_pair c d" "ha2int ui [e, f] = hex_pair e f"
    "hex_pair a b \<in> {0..255}" "hex_pair c d \<in> {0..255}" "hex_pair e f \<in> {0..255}"
    using assms(6) by (simp_all add: ha2int_pair)
  then have col: "setColor ui [a, b, c, d, e, f] l = Some ?l" by (simp add: setColor_def substr_def)
  have lv: "level p (intensity l) = Some (p * intensity l div 255)" "p * intensity l div 255 \<in> {0..intensity l}"
    if "p \<in> {0..255}" for p using level_scaled [of p "intensity l"] that assms(7,8) by simp_all
  have "map_option (Pair ?l) (sendCmd ''100'' ?l) = Some (l', es)"
    using assms(1-5) col by (auto simp: rg_command_def split: if_splits)
  then have "l' = ?l" "sendCmd ''100'' ?l = Some es" by auto
  moreover have "devcmds es = [(Rout l, int2a (hex_pair a b * intensity l div 255)),
      (Gout l, int2a (hex_pair c d * intensity l div 255)), (Bout l, int2a (hex_pair e f * intensity l div 255))]"
    using sendCmd_devcmds [OF \<open>sendCmd ''100'' ?l = Some es\<close>] lv(1) pairs(4-6) by simp
  ultimately show ?thesis using lv(2) pairs(4-6) by simp
qed

text \<open>A colour of fewer than four characters ends the process with the exception of
  \<^verbatim>\<open>substr\<close>, whatever the state of the light.\<close>

lemma short_colour_crashes:
  assumes "msubtype msg = rg_name d" and "m_getString msg ''value'' = ''''" and "m_getString msg ''color'' = c"
    and "c \<noteq> ''''" "c \<noteq> currentColor d" "length c < 4"
  shows "rg_execcmd ui now msg d = None"
proof -
  have "substr 4 2 c = None" using assms(6) by (simp add: substr_def)
  then have "setColor ui c e = None" for e by (simp add: setColor_def split: option.splits)
  moreover have "fst (nl_init [] '''' (CHR ''.'')) = []" by code_simp
  ultimately show ?thesis using assms(1-5) by (simp add: rg_execcmd_def rg_command_def Let_def)
qed

interpretation meter: device "\<lambda>_. True" "\<lambda>m d. Some (em_execcmd u now m d)"
  by unfold_locales simp_all

interpretation analog_in: device "\<lambda>_. True" "\<lambda>m d. Some (ai_execcmd u now m d)"
  by unfold_locales simp_all

interpretation dimmer: device "\<lambda>_. True" "\<lambda>m d. Some (pw_execcmd now m d)"
  by unfold_locales simp_all

end
