(* ===== verification/Device_Config.thy ===== *)
theory Device_Config
  imports File_Store Effects
begin

text \<open>
  Configuration of devices, the part of \<^verbatim>\<open>src/agents/BBDevices/VirtualDevices.cpp\<close> that
  writes device files: a template with placeholders becomes a device file under the folder its
  semantic class names, the request is kept as a manifest, and the process ends so that it is started
  again with the new device. The files are a map from paths to contents, where the doubled slashes that
  some paths get are one, as for the operating system; \<open>writable\<close> tells whether a file can be
  opened for writing. \<open>None\<close> stands for a replacement that never ends and
  for an index past the end of a text.
\<close>

datatype cfg = Refused files | Restart files

definition NUL :: char where "NUL = CHR 0x00"

text \<open>The folder after the equals sign of \<^verbatim>\<open>semantic_class\<close>, whether it stands in a comment, and
  the text from the next tag on.\<close>

definition stops :: "char \<Rightarrow> bool" where
  "stops c \<longleftrightarrow> c \<in> {CHR '']'', CHR ''-'', CHR 0x0D, CHR 0x0A}"

definition scan_template :: "string \<Rightarrow> (string \<times> bool \<times> string) option" where
  "scan_template d =
     (case str_find ''semantic_class'' d of
        None \<Rightarrow> None
      | Some p \<Rightarrow>
          let q = tl (dropWhile (\<lambda>c. c \<noteq> CHR ''='') (drop p d)); r = dropWhile (\<lambda>c. \<not> stops c) q;
              t = dropWhile (\<lambda>c. c \<noteq> CHR ''<'') r
          in if r = [] then None
             else if hd r \<noteq> CHR '']'' \<and> hd r \<noteq> CHR ''-'' then None
             else if t = [] then None
             else Some (filter (\<lambda>c. c \<noteq> CHR '' '') (takeWhile (\<lambda>c. \<not> stops c) q), hd r = CHR ''-'', t))"

definition removeComment :: "string \<Rightarrow> (bool \<times> string) option" where
  "removeComment d =
     (case (str_find ''<!--'' d, str_find ''-->'' d) of
        (Some pos, Some e) \<Rightarrow>
          if e < pos then Some (False, d)
          else let t = dropWhile (\<lambda>c. c \<noteq> CHR ''<'') (drop e d)
               in if t = [] then None else Some (True, take pos d @ t)
      | _ \<Rightarrow> Some (False, d))"

lemma removeComment_shorter: "removeComment d = Some (True, d') \<Longrightarrow> length d' < length d"
proof -
  assume "removeComment d = Some (True, d')"
  then obtain pos e where pos: "str_find ''<!--'' d = Some pos" and e: "str_find ''-->'' d = Some e" "pos \<le> e"
    and d': "d' = take pos d @ dropWhile (\<lambda>c. c \<noteq> CHR ''<'') (drop e d)"
    by (auto simp: removeComment_def Let_def split: option.splits if_splits)
  have "e \<noteq> pos"
  proof
    assume "e = pos"
    with str_find_Some [OF pos] str_find_Some [OF e(1)] have "take 1 (''<!--'') = take 1 (''-->'')"
      by (metis (no_types) length_Cons list.size(3) numeral_1_eq_Suc_0 take_take min.absorb1 le_add1 plus_1_eq_Suc One_nat_def take_Suc_Cons)
    then show False by simp
  qed
  moreover have "length (dropWhile (\<lambda>c. c \<noteq> CHR ''<'') (drop e d)) \<le> length d - e"
    using length_dropWhile_le [of _ "drop e d"] by simp
  moreover have "e < length d" using str_find_Some [OF e(1)] by simp
  ultimately show ?thesis using e(2) by (simp add: d')
qed

function remove_comments :: "string \<Rightarrow> string option" where
  "remove_comments d =
     (case removeComment d of None \<Rightarrow> None | Some (b, d') \<Rightarrow> if b then remove_comments d' else Some d')"
  by pat_completeness auto
termination
  by (relation "measure length") (auto dest: removeComment_shorter)

declare remove_comments.simps [simp del]

text \<open>Every field of the request whose name starts with a dollar sign is a placeholder, replaced in the
  order of the names.\<close>

fun substitute :: "(string \<times> string) list \<Rightarrow> string \<Rightarrow> string option" where
  "substitute [] d = Some d"
| "substitute ((k, v) # kvs) d =
     (case (if k \<noteq> '''' \<and> hd k = CHR ''$'' then strReplaceAll d k v else Some d) of
        None \<Rightarrow> None
      | Some d' \<Rightarrow> substitute kvs d')"

definition fields_of :: "mmessage \<Rightarrow> (string \<times> string) list" where
  "fields_of m = map (\<lambda>(k, l). (k, m_getString m k)) (mfields m)"

definition field_or :: "mmessage \<Rightarrow> string \<Rightarrow> string \<Rightarrow> string" where
  "field_or m k dflt = (if sm_count (mfields m) k = 0 then dflt else m_getString m k)"

definition zero_fill :: "string \<Rightarrow> string \<Rightarrow> string \<Rightarrow> string option" where
  "zero_fill k v d = (if v = ''0'' then strReplaceAll d k v else Some d)"

definition manifest_path :: "string \<Rightarrow> string \<Rightarrow> string" where
  "manifest_path conf name = conf @ ''/devmanifest/'' @ name @ ''.xml''"

definition mkManifest :: "string \<Rightarrow> mmessage \<Rightarrow> files \<Rightarrow> files" where
  "mkManifest conf m fs =
     fs(manifest_path conf (m_getString m ''$PREFIX'' @ ''_'' @ m_getString m ''$NAME'') := Some (m_xmlPrint 1 m))"

definition deleteManifest :: "string \<Rightarrow> string \<Rightarrow> files \<Rightarrow> files" where
  "deleteManifest conf name fs = deleteFile (manifest_path conf name) fs"

definition devConfigure :: "(string \<Rightarrow> bool) \<Rightarrow> string \<Rightarrow> mmessage \<Rightarrow> files \<Rightarrow> cfg option" where
  "devConfigure writable conf m fs =
     (let kind = (if m_getString m ''devtype'' = '''' then m_getString m ''value'' else m_getString m ''devtype'');
          fs1 = mkManifest conf m fs
      in case fs1 (conf @ ''/templates/'' @ kind @ ''.xml'') of
           None \<Rightarrow> Some (Refused fs1)
         | Some text \<Rightarrow>
             let d = takeWhile (\<lambda>c. c \<noteq> NUL) text
             in case scan_template d of
                  None \<Rightarrow> Some (Refused fs1)
                | Some (folder, iscomment, t) \<Rightarrow>
                    (case Option.bind (remove_comments (if iscomment then d else t)) (substitute (fields_of m)) of
                       None \<Rightarrow> None
                     | Some d1 \<Rightarrow>
                         (case Option.bind (zero_fill ''$DURATION'' (field_or m ''$DURATION'' ''0'') d1)
                                 (zero_fill ''$PDURATION'' (field_or m ''$PDURATION'' ''0'')) of
                            None \<Rightarrow> None
                          | Some d2 \<Rightarrow>
                              let path = conf @ ''/devices/'' @ folder @ ''/'' @ field_or m ''$PREFIX'' '''' @ ''_''
                                           @ field_or m ''$NAME'' kind @ ''.xml''
                              in Some (if writable path then Restart (fs1(path := Some d2)) else Refused fs1))))"

definition devRemove :: "string \<Rightarrow> string \<Rightarrow> string \<Rightarrow> string list \<Rightarrow> mmessage \<Rightarrow> files \<Rightarrow> bool \<times> files" where
  "devRemove conf cpath hpath devset m fs =
     (let name = (if m_getString m ''name'' = '''' then m_getString m ''value'' else m_getString m ''name'');
          fs1 = deleteManifest conf name fs; file = name @ ''.xml''
      in if nl_member devset file
         then (True, deleteFile (hpath @ ''/'' @ file) (deleteFile (cpath @ ''/'' @ file) fs1)) else (False, fs1))"

fun devDelete_groups :: "string \<Rightarrow> string \<Rightarrow> (string \<times> string list) list \<Rightarrow> mmessage \<Rightarrow> files \<Rightarrow> bool \<times> files" where
  "devDelete_groups conf home [] m fs = (False, fs)"
| "devDelete_groups conf home ((g, devs) # gs) m fs =
     (let (b, fs1) = devRemove conf (conf @ ''/devices/'' @ g) (home @ ''/devices/'' @ g) devs m fs
      in if b then (True, fs1) else devDelete_groups conf home gs m fs1)"

definition devDelete :: "string \<Rightarrow> string \<Rightarrow> (string \<times> string list) list \<Rightarrow> mmessage \<Rightarrow> files \<Rightarrow> cfg" where
  "devDelete conf home groups m fs =
     (let (b, fs1) = devDelete_groups conf home groups m fs in if b then Restart fs1 else Refused fs1)"

subsection \<open>Templates with holes\<close>

text \<open>What a template means: texts and holes. The names of the holes start with the only dollar sign they
  contain, and none is a prefix of another.\<close>

datatype piece = Txt string | Hole string

fun show_piece :: "piece \<Rightarrow> string" where
  "show_piece (Txt s) = s"
| "show_piece (Hole k) = k"

definition render :: "piece list \<Rightarrow> string" where
  "render ps = concat (map show_piece ps)"

definition keys_ok :: "string set \<Rightarrow> bool" where
  "keys_ok K \<longleftrightarrow> (\<forall>k \<in> K. \<exists>t. k = CHR ''$'' # t \<and> CHR ''$'' \<notin> set t) \<and> (\<forall>k \<in> K. \<forall>j \<in> K. prefix k j \<longrightarrow> k = j)"

fun piece_ok :: "string set \<Rightarrow> piece \<Rightarrow> bool" where
  "piece_ok K (Txt s) = (CHR ''$'' \<notin> set s)"
| "piece_ok K (Hole k) = (k \<in> K)"

fun fill :: "(string \<Rightarrow> string option) \<Rightarrow> piece \<Rightarrow> piece" where
  "fill f (Txt s) = Txt s"
| "fill f (Hole k) = (case f k of Some v \<Rightarrow> Txt v | None \<Rightarrow> Hole k)"

lemma str_find_skip:
  "(\<And>i. i < length a \<Longrightarrow> \<not> prefix k (drop i (a @ b))) \<Longrightarrow> str_find k (a @ b) = map_option (\<lambda>n. length a + n) (str_find k b)"
proof (induction a)
  case Nil
  then show ?case by (cases "str_find k b") simp_all
next
  case (Cons c a)
  have "\<not> prefix k (drop i (a @ b))" if "i < length a" for i using Cons.prems [of "Suc i"] that by simp
  with Cons.IH have "str_find k (a @ b) = map_option (\<lambda>n. length a + n) (str_find k b)" by blast
  moreover have "\<not> prefix k (c # a @ b)" using Cons.prems [of 0] by simp
  ultimately show ?case by (simp add: option.map_comp comp_def)
qed

lemma no_dollar_no_key:
  assumes "k = CHR ''$'' # t" and "CHR ''$'' \<notin> set s" and "i < length s"
  shows "\<not> prefix k (drop i (s @ b))"
proof -
  have "drop i (s @ b) = s ! i # drop (Suc i) (s @ b)" using assms(3) by (simp add: Cons_nth_drop_Suc flip: append_Cons)
  moreover have "s ! i \<noteq> CHR ''$''" using assms(2,3) nth_mem by metis
  ultimately show ?thesis by (simp only: assms(1) Cons_prefix_Cons) simp
qed

lemma skip_piece:
  assumes "keys_ok K" "k \<in> K" "piece_ok K p" "p \<noteq> Hole k"
  shows "str_find k (show_piece p @ b) = map_option (\<lambda>n. length (show_piece p) + n) (str_find k b)"
proof (rule str_find_skip)
  obtain t where k: "k = CHR ''$'' # t" using assms(1,2) by (auto simp: keys_ok_def)
  fix i assume i: "i < length (show_piece p)"
  show "\<not> prefix k (drop i (show_piece p @ b))"
  proof (cases p)
    case (Txt s)
    with no_dollar_no_key [OF k, of s i b] assms(3) i show ?thesis by simp
  next
    case (Hole j)
    obtain u where j: "j = CHR ''$'' # u" "CHR ''$'' \<notin> set u" using assms(1,3) Hole by (auto simp: keys_ok_def)
    show ?thesis
    proof (cases i)
      case 0
      have "\<not> prefix k j" "\<not> prefix j k" using assms Hole by (auto simp: keys_ok_def)
      then have "\<not> prefix k (j @ b)" using prefix_same_cases [of k "j @ b" j] by auto
      with 0 Hole show ?thesis by simp
    next
      case (Suc n)
      with no_dollar_no_key [OF k j(2), of n b] i Hole j(1) show ?thesis by simp
    qed
  qed
qed

lemma find_hole:
  assumes "keys_ok K" "k \<in> K" "\<forall>p \<in> set ps. piece_ok K p" "Hole k \<notin> set ps"
  shows "str_find k (render ps @ b) = map_option (\<lambda>n. length (render ps) + n) (str_find k b)"
  using assms(3,4)
proof (induction ps)
  case Nil
  then show ?case by (cases "str_find k b") (simp_all add: render_def)
next
  case (Cons p ps)
  then have "str_find k (render (p # ps) @ b) = map_option (\<lambda>n. length (show_piece p) + n) (str_find k (render ps @ b))"
    using skip_piece [OF assms(1,2), of p "render ps @ b"] by (auto simp: render_def)
  with Cons show ?case by (auto simp: option.map_comp comp_def render_def add.assoc)
qed

lemma render_append [simp]: "render (ps @ qs) = render ps @ render qs"
  by (simp add: render_def)

lemma replace_holes:
  assumes "keys_ok K" "k \<in> K" "CHR ''$'' \<notin> set v" "\<forall>p \<in> set ps. piece_ok K p"
  shows "strReplaceAll (render ps) k v = Some (render (map (fill [k \<mapsto> v]) ps))"
  using assms(4)
proof (induction "length (filter (\<lambda>p. p = Hole k) ps)" arbitrary: ps)
  case 0
  then have no: "Hole k \<notin> set ps" by (auto simp: filter_empty_conv)
  have "k \<noteq> []" using assms(1,2) by (auto simp: keys_ok_def)
  with find_hole [OF assms(1,2) 0(2) no, of "[]"] have "str_find k (render ps) = None" by simp
  moreover have "map (fill [k \<mapsto> v]) ps = ps" using no by (intro map_idI) (metis fill.simps fun_upd_other option.case(1) piece.exhaust)
  ultimately show ?case by (simp only: strReplaceAll_unfold_None)
next
  case (Suc n)
  then have "filter (\<lambda>p. p = Hole k) ps \<noteq> []" by force
  then have "Hole k \<in> set ps" by (auto simp: filter_empty_conv)
  then obtain qs rs where ps: "ps = qs @ Hole k # rs" and no: "Hole k \<notin> set qs" by (blast dest: split_list_first)
  let ?ps = "qs @ Txt v # rs"
  have "str_find k (k @ render rs) = Some 0" by (cases "k @ render rs") (simp, metis prefixI str_find.simps(2))
  then have "str_find k (render ps) = Some (length (render qs))"
    using find_hole [OF assms(1,2) _ no, of "k @ render rs"] Suc.prems ps by (simp add: render_def)
  then have "strReplaceAll (render ps) k v = strReplaceAll (render ?ps) k v"
    by (subst strReplaceAll.simps) (simp add: ps render_def)
  also have "\<dots> = Some (render (map (fill [k \<mapsto> v]) ?ps))"
    using Suc.hyps(2) Suc.prems no assms(3) by (intro Suc.hyps(1)) (auto simp: ps filter_empty_conv)
  finally show ?case by (simp add: ps render_def)
qed

lemma fill_ok: "piece_ok K p \<Longrightarrow> (\<And>k v. f k = Some v \<Longrightarrow> CHR ''$'' \<notin> set v) \<Longrightarrow> piece_ok K (fill f p)"
  by (cases p) (auto split: option.splits)

lemma fill_one_ok: "\<forall>p \<in> set ps. piece_ok K p \<Longrightarrow> CHR ''$'' \<notin> set v \<Longrightarrow> \<forall>p \<in> set (map (fill [k \<mapsto> v]) ps). piece_ok K p"
  by (auto intro!: fill_ok split: if_splits)

lemma fill_fill: "fill g (fill f p) = fill (g ++ f) p"
  by (cases p) (auto split: option.splits simp: map_add_def)

definition is_hole :: "string \<Rightarrow> bool" where
  "is_hole k \<longleftrightarrow> k \<noteq> '''' \<and> hd k = CHR ''$''"

lemma substitute_holes:
  assumes "keys_ok K" "\<forall>(k, v) \<in> set kvs. (is_hole k \<longrightarrow> k \<in> K) \<and> CHR ''$'' \<notin> set v" "\<forall>p \<in> set ps. piece_ok K p"
  shows "substitute kvs (render ps) = Some (render (map (fill (\<lambda>k. if is_hole k then map_of kvs k else None)) ps))"
  using assms(2,3)
proof (induction kvs arbitrary: ps)
  case Nil
  have "fill (\<lambda>k. if is_hole k then map_of [] k else None) p = p" for p by (cases p) auto
  then show ?case by simp
next
  case (Cons kv kvs)
  obtain k v where kv: "kv = (k, v)" by (rule prod.exhaust)
  let ?f = "\<lambda>kvs k. if is_hole k then map_of kvs k else None"
  show ?case
  proof (cases "is_hole k")
    case True
    then have "k \<in> K" "CHR ''$'' \<notin> set v" using Cons.prems(1) kv by auto
    with replace_holes [OF assms(1) this Cons.prems(2)]
    have "substitute (kv # kvs) (render ps) = substitute kvs (render (map (fill [k \<mapsto> v]) ps))"
      using True by (simp add: kv is_hole_def)
    also have "\<dots> = Some (render (map (fill (?f kvs)) (map (fill [k \<mapsto> v]) ps)))"
      using Cons.prems \<open>CHR ''$'' \<notin> set v\<close> by (intro Cons.IH) (auto intro!: fill_ok split: if_splits)
    also have "map (fill (?f kvs)) (map (fill [k \<mapsto> v]) ps) = map (fill (?f (kv # kvs))) ps"
    proof -
      have "?f kvs ++ [k \<mapsto> v] = ?f (kv # kvs)" using True by (auto simp: kv map_add_def fun_eq_iff)
      then show ?thesis by (simp add: fill_fill)
    qed
    finally show ?thesis .
  next
    case False
    then have "?f (kv # kvs) = ?f kvs" by (auto simp: kv fun_eq_iff)
    moreover have "substitute (kv # kvs) (render ps) = substitute kvs (render ps)" using False by (auto simp: kv is_hole_def)
    ultimately show ?thesis using Cons.IH [OF _ Cons.prems(2)] Cons.prems(1) by simp
  qed
qed

lemma fields_of_find: "map_of (fields_of m) k = (if sm_count (mfields m) k = 0 then None else Some (m_getString m k))"
proof -
  have "map_of (map (\<lambda>(k, l). (k, f k)) ms) k = (if sm_find ms k = None then None else Some (f k))" for f :: "string \<Rightarrow> string" and ms :: "(string \<times> mstring_list) list"
    by (induction ms) auto
  then show ?thesis by (simp add: fields_of_def sm_count_def)
qed

text \<open>What the request puts into a hole: its field of that name, or zero for the two durations.\<close>

definition request_value :: "mmessage \<Rightarrow> string \<Rightarrow> string option" where
  "request_value m k =
     (if is_hole k \<and> sm_count (mfields m) k \<noteq> 0 then Some (m_getString m k)
      else if k \<in> {''$DURATION'', ''$PDURATION''} then Some ''0'' else None)"

lemma zero_fill_holes:
  assumes "keys_ok K" "k \<in> K" "\<forall>p \<in> set ps. piece_ok K p" "v \<noteq> ''0'' \<Longrightarrow> Hole k \<notin> set ps"
  shows "zero_fill k v (render ps) = Some (render (map (fill [k \<mapsto> ''0'']) ps))"
proof (cases "v = ''0''")
  case True
  with replace_holes [OF assms(1,2) _ assms(3), of "''0''"] show ?thesis by (simp add: zero_fill_def)
next
  case False
  have "fill [k \<mapsto> ''0''] p = p" if "p \<in> set ps" for p using assms(4) [OF False] that by (cases p) auto
  then have "map (fill [k \<mapsto> ''0'']) ps = ps" by (rule map_idI)
  with False show ?thesis by (simp only: zero_fill_def if_False)
qed

lemma filled_hole: "Hole k \<in> set (map (fill f) ps) \<Longrightarrow> f k = None"
proof -
  have "fill f p = Hole k \<Longrightarrow> f k = None" for p by (cases p) (auto split: option.splits)
  then show "Hole k \<in> set (map (fill f) ps) \<Longrightarrow> f k = None" by auto
qed

lemma fill_keeps_hole: "Hole k \<in> set (map (fill f) ps) \<Longrightarrow> Hole k \<in> set ps"
proof -
  have "fill f p = Hole k \<Longrightarrow> p = Hole k" for p by (cases p) (auto split: option.splits)
  then show "Hole k \<in> set (map (fill f) ps) \<Longrightarrow> Hole k \<in> set ps" by (metis imageE list.set_map)
qed

text \<open>The configuration of a device is the filled template. When the text that scanning and
  removing comments leave is a sequence of texts and holes, and no value of the request contains a
  dollar sign, \<^verbatim>\<open>devConfigure\<close> ends and writes exactly one device file, under the folder of the
  semantic class and with the prefix and the name of the request: every hole is replaced by the field of
  that name, an absent duration by zero. The request is kept as the manifest.\<close>

lemma devConfigure_fills:
  assumes "kind = (if m_getString m ''devtype'' = '''' then m_getString m ''value'' else m_getString m ''devtype'')"
    and "mkManifest conf m fs (conf @ ''/templates/'' @ kind @ ''.xml'') = Some text" and "d = takeWhile (\<lambda>c. c \<noteq> NUL) text"
    and "scan_template d = Some (folder, com, t)" and "remove_comments (if com then d else t) = Some (render ps)"
    and "keys_ok K" "{''$DURATION'', ''$PDURATION''} \<subseteq> K" and "\<forall>p \<in> set ps. piece_ok K p"
    and "\<forall>(k, v) \<in> set (fields_of m). (is_hole k \<longrightarrow> k \<in> K) \<and> CHR ''$'' \<notin> set v"
    and "path = conf @ ''/devices/'' @ folder @ ''/'' @ field_or m ''$PREFIX'' '''' @ ''_'' @ field_or m ''$NAME'' kind @ ''.xml''"
    and "writable path"
  shows "devConfigure writable conf m fs
    = Some (Restart ((mkManifest conf m fs)(path := Some (render (map (fill (request_value m)) ps)))))"
proof -
  let ?f = "\<lambda>k. if is_hole k then map_of (fields_of m) k else None"
  let ?ps1 = "map (fill ?f) ps" and ?d = "''$DURATION''" and ?p = "''$PDURATION''"
  have K: "?d \<in> K" "?p \<in> K" using assms(7) by simp_all
  have hole: "is_hole ?d" "is_hole ?p" by (simp_all add: is_hole_def)
  have "CHR ''$'' \<notin> set v" if "?f k = Some v" for k v using that assms(9) by (auto dest!: map_of_SomeD split: if_splits)
  then have ok1: "\<forall>p \<in> set ?ps1. piece_ok K p" using assms(8) by (auto intro: fill_ok)
  have none: "field_or m k ''0'' = ''0''" if "is_hole k" "Hole k \<in> set ?ps1" for k
  proof -
    have "map_of (fields_of m) k = None" using filled_hole [OF that(2)] that(1) by simp
    then have "sm_count (mfields m) k = 0" by (simp only: fields_of_find split: if_splits) simp
    then show ?thesis unfolding field_or_def by (simp only: if_True refl)
  qed
  have z1: "zero_fill ?d (field_or m ?d ''0'') (render ?ps1) = Some (render (map (fill [?d \<mapsto> ''0'']) ?ps1))"
    using none [OF hole(1)] by (intro zero_fill_holes [OF assms(6) K(1) ok1]) blast
  let ?ps2 = "map (fill [?d \<mapsto> ''0'']) ?ps1"
  have ok2: "\<forall>p \<in> set ?ps2. piece_ok K p" by (rule fill_one_ok [OF ok1]) simp
  have z2: "zero_fill ?p (field_or m ?p ''0'') (render ?ps2) = Some (render (map (fill [?p \<mapsto> ''0'']) ?ps2))"
    using none [OF hole(2)] fill_keeps_hole [of ?p "[?d \<mapsto> ''0'']" ?ps1] by (intro zero_fill_holes [OF assms(6) K(2) ok2]) blast
  have "([?p \<mapsto> ''0''] ++ [?d \<mapsto> ''0'']) ++ ?f = request_value m"
    using hole by (auto simp: fun_eq_iff map_add_def request_value_def fields_of_find simp del: sm_count_pos)
  then have "map (fill [?p \<mapsto> ''0'']) ?ps2 = map (fill (request_value m)) ps" by (simp only: map_map comp_def fill_fill map_add_assoc)
  with substitute_holes [OF assms(6,9,8)] z1 z2 assms(2,4,5,11) show ?thesis
    by (simp only: devConfigure_def Let_def option.case prod.case Option.bind.bind_lunit if_True flip: assms(1,3,10))
qed

definition lamp_template :: string where
  "lamp_template = ''[semantic_class=BinaryOutput]<device name='' @ ''$NAME'' @ '' wait='' @ ''$DURATION'' @ ''/>''"

definition lamp_request :: mmessage where
  "lamp_request = m_add (m_add (m_add (m_new ''cmd'' ''devConfigure'') ''devtype'' ''lamp'') ''$NAME'' ''hall'') ''$PREFIX'' ''LI''"

end
