(* ===== verification/Virtual_Devices.thy ===== *)
theory Virtual_Devices
  imports Fsm_Device Timer_Device Meter_Devices Device_Config Subject_Bus
begin

text \<open>
  The thread that owns the devices of an agent, \<^verbatim>\<open>src/agents/BBDevices/VirtualDevices.cpp\<close>. The
  devices are objects on the heap, reached through two maps of pointers: by name, and by the input
  channels a device listens to. The heap is a list and a pointer an index; the virtual methods of
  \<^verbatim>\<open>Device\<close> are functions by cases on the class. \<open>None\<close> is the end of the process, by
  \<^verbatim>\<open>exit\<close> or by undefined behaviour. The readings of one message (clock, compact time text,
  uninitialised locals, value of a function without return) are the record \<open>vd_reading\<close>.
  Only in \<open>dev_doMeasure\<close> does \<open>None\<close> stand for something else: a quotient by zero, which the
  code takes to infinity.
\<close>

record vd_reading =
  rd_now :: double
  rd_stamp :: string
  rd_u :: double
  rd_ui :: int
  rd_ub :: bool

datatype vdevice =
    Meter electric_meter
  | Fsm fsm_device
  | BinIn binary_input
  | AnaIn analog_input
  | BinOut binary_output
  | Dim pwm
  | Rgb rgb_pwm
  | Tri tristate
  | RawOut raw_channel
  | RawIn raw_channel

subsection \<open>Virtual methods\<close>

fun dev_name :: "vdevice \<Rightarrow> string" where
  "dev_name (Meter d) = em_name d"
| "dev_name (Fsm d) = d_name d"
| "dev_name (BinIn d) = bi_name d"
| "dev_name (AnaIn d) = ai_name d"
| "dev_name (BinOut d) = bo_name d"
| "dev_name (Dim d) = pw_name d"
| "dev_name (Rgb d) = rg_name d"
| "dev_name (Tri d) = ts_name d"
| "dev_name (RawOut d) = rw_name d"
| "dev_name (RawIn d) = rw_name d"

text \<open>A state machine never sets the status of its base class, which starts as \<^verbatim>\<open>OFF\<close>.\<close>

fun dev_status :: "vdevice \<Rightarrow> string" where
  "dev_status (Meter d) = em_status d"
| "dev_status (Fsm d) = ''OFF''"
| "dev_status (BinIn d) = bi_status d"
| "dev_status (AnaIn d) = ai_status d"
| "dev_status (BinOut d) = bo_status d"
| "dev_status (Dim d) = pw_status d"
| "dev_status (Rgb d) = rg_status d"
| "dev_status (Tri d) = ts_status d"
| "dev_status (RawOut d) = rw_status d"
| "dev_status (RawIn d) = rw_status d"

definition lift_dev :: "('d \<Rightarrow> vdevice) \<Rightarrow> bool \<times> 'd \<times> effect list \<Rightarrow> bool \<times> vdevice \<times> effect list" where
  "lift_dev c r = (let (b, d, es) = r in (b, c d, es))"

fun dev_execcmd :: "vd_reading \<Rightarrow> mmessage \<Rightarrow> vdevice \<Rightarrow> (bool \<times> vdevice \<times> effect list) option" where
  "dev_execcmd r m (Meter d) = Some (lift_dev Meter (em_execcmd (rd_u r) (rd_now r) m d))"
| "dev_execcmd r m (Fsm d) = map_option (lift_dev Fsm) (fsm_execcmd m d)"
| "dev_execcmd r m (BinIn d) = Some (lift_dev BinIn (bi_execcmd (rd_ub r) (rd_now r) (rd_stamp r) m d))"
| "dev_execcmd r m (AnaIn d) = Some (lift_dev AnaIn (ai_execcmd (rd_u r) (rd_now r) m d))"
| "dev_execcmd r m (BinOut d) = Some (lift_dev BinOut (bo_execcmd (rd_now r) m d))"
| "dev_execcmd r m (Dim d) = Some (lift_dev Dim (pw_execcmd (rd_now r) m d))"
| "dev_execcmd r m (Rgb d) = map_option (lift_dev Rgb) (rg_execcmd (rd_ui r) (rd_now r) m d)"
| "dev_execcmd r m (Tri d) = Some (lift_dev Tri (ts_execcmd (rd_now r) m d))"
| "dev_execcmd r m (RawOut d) = Some (lift_dev RawOut (ro_execcmd (rd_ui r) (rd_now r) m d))"
| "dev_execcmd r m (RawIn d) = Some (lift_dev RawIn (ri_execcmd (rd_ui r) (rd_now r) m d))"

fun dev_setstatus :: "mmessage \<Rightarrow> vdevice \<Rightarrow> vdevice \<times> effect list" where
  "dev_setstatus m (BinIn d) = (let (d', es) = bi_setstatus m d in (BinIn d', es))"
| "dev_setstatus m d = (d, [])"

text \<open>\<^verbatim>\<open>Pwm::publish\<close> takes an argument, so it does not override the method that is called here.\<close>

fun dev_publish :: "vd_reading \<Rightarrow> vdevice \<Rightarrow> effect list" where
  "dev_publish r (Meter d) = em_publish (rd_stamp r) d"
| "dev_publish r (Fsm d) = fsm_publish d"
| "dev_publish r (BinIn d) = bi_publish d"
| "dev_publish r (AnaIn d) = ai_publish d"
| "dev_publish r (BinOut d) = bo_publish d"
| "dev_publish r (Rgb d) = rg_publish d"
| "dev_publish r (Tri d) = ts_publish d"
| "dev_publish r d = []"

fun dev_doMeasure :: "vd_reading \<Rightarrow> vdevice \<Rightarrow> vdevice option" where
  "dev_doMeasure r (Meter d) = map_option Meter (em_doMeasure (rd_now r) d)"
| "dev_doMeasure r d = Some d"

fun dev_reset :: "vd_reading \<Rightarrow> string \<Rightarrow> vdevice \<Rightarrow> bool \<times> vdevice \<times> effect list" where
  "dev_reset r field (Meter d) = lift_dev Meter (em_reset (rd_now r) field d)"
| "dev_reset r field d = (False, d, [])"

fun dev_input :: "vdevice \<Rightarrow> mattribute list" where
  "dev_input (Meter d) = em_input d"
| "dev_input (Fsm d) = fsm_input d"
| "dev_input (BinIn d) = bi_input d"
| "dev_input (AnaIn d) = ai_input d"
| "dev_input (Tri d) = ts_input d"
| "dev_input d = []"

fun dev_output :: "vdevice \<Rightarrow> mattribute list" where
  "dev_output (Fsm d) = fsm_output d"
| "dev_output (BinOut d) = bo_output d"
| "dev_output (Dim d) = pw_output d"
| "dev_output (Rgb d) = rg_output d"
| "dev_output (Tri d) = ts_output d"
| "dev_output d = []"

fun dev_getObservations :: "vdevice \<Rightarrow> mparams \<Rightarrow> mparams" where
  "dev_getObservations (Fsm d) obs = fsm_getObservations d obs"
| "dev_getObservations (BinIn d) obs = bi_getObservations d obs"
| "dev_getObservations (BinOut d) obs = bo_getObservations d obs"
| "dev_getObservations (Dim d) obs = pw_getObservations d obs"
| "dev_getObservations (Rgb d) obs = rg_getObservations d obs"
| "dev_getObservations (Tri d) obs = ts_getObservations d obs"
| "dev_getObservations (RawOut d) obs = mp_add_cat obs (rw_name d) ''observe'' ''cmd''"
| "dev_getObservations (RawIn d) obs = mp_add_cat obs (rw_name d) ''observe'' ''cmd''"
| "dev_getObservations d obs = obs"

fun dev_getSubjects :: "vdevice \<Rightarrow> mparams \<Rightarrow> mparams" where
  "dev_getSubjects (Meter d) subj = em_getSubjects d subj"
| "dev_getSubjects (Fsm d) subj = fsm_getSubjects d subj"
| "dev_getSubjects (BinIn d) subj = bi_getSubjects d subj"
| "dev_getSubjects (AnaIn d) subj = ai_getSubjects d subj"
| "dev_getSubjects (BinOut d) subj = bo_getSubjects d subj"
| "dev_getSubjects (Dim d) subj = pw_getSubjects d subj"
| "dev_getSubjects (Rgb d) subj = rg_getSubjects d subj"
| "dev_getSubjects (Tri d) subj = ts_getSubjects d subj"
| "dev_getSubjects (RawOut d) subj = mp_add_cat subj (rw_name d) ''subject'' ''devcmd''"
| "dev_getSubjects (RawIn d) subj = mp_add_cat subj (rw_out d) ''subject'' ''local_event''"

subsection \<open>The owner of the devices\<close>

record vrt_devices =
  dev_heap :: "vdevice list"
  dev_by_name :: "(string, nat) smap"
  dev_by_io :: "(string, nat) smap"
  initial_memory :: int
  vd_day :: string
  vd_files :: files

definition register_device :: "vdevice \<Rightarrow> vrt_devices \<Rightarrow> vrt_devices" where
  "register_device d s =
     (let a = length (dev_heap s)
      in s\<lparr>dev_heap := dev_heap s @ [d], dev_by_name := sm_put (dev_name d) a (dev_by_name s),
           dev_by_io := fold (\<lambda>i m. sm_put (ma_name i) a m) (dev_input d) (dev_by_io s)\<rparr>)"

text \<open>The classes a directory of devices may be named after. \<open>junk\<close>, \<open>jb\<close> and \<open>jn\<close> are
  members a constructor leaves unset.\<close>

definition new_device ::
  "vd_reading \<Rightarrow> double \<Rightarrow> bool \<Rightarrow> nat \<Rightarrow> string \<Rightarrow> mparams \<Rightarrow> file_state \<Rightarrow> string \<Rightarrow> (vdevice \<times> effect list) option" where
  "new_device r junk jb jn kind p f n =
     (if kind = ''ElectricMeter'' then Some (apfst Meter (em_new (rd_u r) (rd_now r) (rd_stamp r) p n))
      else if kind = ''FSMDevice'' then map_option (apfst Fsm) (fsm_new jb jn f n)
      else if kind = ''BinaryInput'' then Some (apfst BinIn (bi_new (rd_now r) p n))
      else if kind = ''AnalogInput'' then Some (AnaIn (ai_new (rd_u r) (rd_now r) p n), [])
      else if kind = ''BinaryOutput'' then Some (apfst BinOut (bo_new junk p n))
      else if kind = ''Pwm'' then Some (apfst Dim (pw_new junk p n))
      else if kind = ''RGBPwm'' then Some (apfst Rgb (rg_new (rd_ui r) junk p n))
      else if kind = ''RawOutput'' then Some (RawOut (ro_new junk p), [])
      else if kind = ''RawInput'' then (let d = RawIn (ri_new junk p) in Some (d, [Publish (dev_name d) ''0'']))
      else Some (apfst Tri (ts_new junk p n)))"

definition dev_kinds :: "string list" where
  "dev_kinds = [''ElectricMeter'', ''FSMDevice'', ''BinaryInput'', ''AnalogInput'', ''BinaryOutput'', ''Pwm'', ''RGBPwm'',
     ''TriStateOutput'']"

fun load_each :: "(string \<Rightarrow> (vdevice \<times> effect list) option) \<Rightarrow> string list \<Rightarrow> vrt_devices \<Rightarrow>
   (vrt_devices \<times> effect list) option" where
  "load_each mk [] s = Some (s, [])"
| "load_each mk (n # ns) s =
     (case mk n of
        None \<Rightarrow> None
      | Some (d, es) \<Rightarrow> map_option (apsnd (append es)) (load_each mk ns (register_device d s)))"

text \<open>\<open>par\<close> and \<open>doc\<close> give the parameters and the document that a device of a directory and a name
  loads, \<open>dir\<close> the listing of a directory.\<close>

definition loadDevType ::
  "vd_reading \<Rightarrow> double \<Rightarrow> bool \<Rightarrow> nat \<Rightarrow> (string \<Rightarrow> string \<Rightarrow> mparams) \<Rightarrow> (string \<Rightarrow> string \<Rightarrow> file_state) \<Rightarrow>
   (string \<Rightarrow> directory) \<Rightarrow> string \<Rightarrow> string \<Rightarrow> vrt_devices \<Rightarrow> (vrt_devices \<times> effect list) option" where
  "loadDevType r junk jb jn par doc dir dir1 kind s =
     (let dd = dir1 @ ''/'' @ kind
      in if kind \<in> set dev_kinds
         then load_each (\<lambda>f. new_device r junk jb jn kind (par dd (getStem f)) (doc dd (getStem f)) (getStem f)) (snd (fileList (dir dd))) s
         else Some (s, []))"

definition loadRaw ::
  "vd_reading \<Rightarrow> double \<Rightarrow> (string \<Rightarrow> string \<Rightarrow> mparams) \<Rightarrow> (string \<Rightarrow> directory) \<Rightarrow> string \<Rightarrow> string \<Rightarrow> vrt_devices \<Rightarrow>
   (vrt_devices \<times> effect list) option" where
  "loadRaw r junk par dir dir1 kind s =
     (let dd = dir1 @ ''/'' @ kind
      in load_each (\<lambda>f. new_device r junk False 0 kind (par dd (getStem f)) Missing (getStem f)) (snd (fileList (dir dd))) s)"

fun chain :: "('s \<Rightarrow> ('s \<times> effect list) option) list \<Rightarrow> 's \<Rightarrow> ('s \<times> effect list) option" where
  "chain [] s = Some (s, [])"
| "chain (f # fs) s = (case f s of None \<Rightarrow> None | Some (s', es) \<Rightarrow> map_option (apsnd (append es)) (chain fs s'))"

definition loadDevices ::
  "vd_reading \<Rightarrow> double \<Rightarrow> bool \<Rightarrow> nat \<Rightarrow> (string \<Rightarrow> string \<Rightarrow> mparams) \<Rightarrow> (string \<Rightarrow> string \<Rightarrow> file_state) \<Rightarrow>
   (string \<Rightarrow> directory) \<Rightarrow> string \<Rightarrow> vrt_devices \<Rightarrow> (vrt_devices \<times> effect list) option" where
  "loadDevices r junk jb jn par doc dir dir1 s =
     chain ([loadRaw r junk par dir ''rawdevices'' ''RawOutput'', loadRaw r junk par dir ''rawdevices'' ''RawInput'']
            @ map (loadDevType r junk jb jn par doc dir dir1) (snd (dirList (dir dir1)))) s"

subsection \<open>Messages\<close>

definition on_device :: "(vdevice \<Rightarrow> (bool \<times> vdevice \<times> effect list) option) \<Rightarrow> nat \<Rightarrow> vrt_devices \<Rightarrow>
   (bool \<times> vrt_devices \<times> effect list) option" where
  "on_device f a s = map_option (\<lambda>(b, d, es). (b, s\<lparr>dev_heap := (dev_heap s)[a := d]\<rparr>, es)) (f (dev_heap s ! a))"

definition exec_at :: "vd_reading \<Rightarrow> mmessage \<Rightarrow> nat option \<Rightarrow> vrt_devices \<Rightarrow> (bool \<times> vrt_devices \<times> effect list) option" where
  "exec_at r msg p s = (case p of None \<Rightarrow> Some (False, s, []) | Some a \<Rightarrow> on_device (dev_execcmd r msg) a s)"

definition vd_execcmd :: "vd_reading \<Rightarrow> mmessage \<Rightarrow> vrt_devices \<Rightarrow> (bool \<times> vrt_devices \<times> effect list) option" where
  "vd_execcmd r msg s = exec_at r msg (sm_find (dev_by_name s) (msubtype msg)) s"

definition execLocalEvent :: "vd_reading \<Rightarrow> mmessage \<Rightarrow> vrt_devices \<Rightarrow> (bool \<times> vrt_devices \<times> effect list) option" where
  "execLocalEvent r msg s = exec_at r msg (sm_find (dev_by_io s) (msubtype msg)) s"

definition vd_update :: "vd_reading \<Rightarrow> mmessage \<Rightarrow> vrt_devices \<Rightarrow> (bool \<times> vrt_devices \<times> effect list) option" where
  "vd_update r msg s =
     (if sm_count (dev_by_io s) (m_getString msg ''name'') > 0
      then map_option (\<lambda>(b, q). (True, q)) (execLocalEvent r (msg\<lparr>msubtype := m_getString msg ''name''\<rparr>) s)
      else Some (False, s, []))"

text \<open>The device a wait names: what is left of \<^verbatim>\<open>30_lamp$stamp\<close> without the duration and the stamp.
  The length minus two wraps for shorter texts.\<close>

definition wait_target :: "string \<Rightarrow> string" where
  "wait_target v =
     (let i = length (takeWhile (\<lambda>c. c \<noteq> CHR ''_'') v);
          w = (if length v < 2 \<or> i < length v - 2 then drop (i + 1) v else v)
      in takeWhile (\<lambda>c. c \<noteq> CHR ''$'') w)"

definition execwait :: "vd_reading \<Rightarrow> mmessage \<Rightarrow> vrt_devices \<Rightarrow> (bool \<times> vrt_devices \<times> effect list) option" where
  "execwait r msg s = exec_at r msg (sm_find (dev_by_name s) (wait_target (m_getString msg ''value''))) s"

definition vd_setstatus :: "mmessage \<Rightarrow> vrt_devices \<Rightarrow> vrt_devices \<times> effect list" where
  "vd_setstatus msg s =
     (case sm_find (dev_by_name s) (msubtype msg) of
        None \<Rightarrow> (s, [])
      | Some a \<Rightarrow> let (d, es) = dev_setstatus msg (dev_heap s ! a) in (s\<lparr>dev_heap := (dev_heap s)[a := d]\<rparr>, es))"

definition vd_publish :: "vd_reading \<Rightarrow> vrt_devices \<Rightarrow> effect list" where
  "vd_publish r s = concat (map (\<lambda>(n, a). dev_publish r (dev_heap s ! a)) (dev_by_name s))"

fun measure_each :: "vd_reading \<Rightarrow> nat list \<Rightarrow> vrt_devices \<Rightarrow> vrt_devices option" where
  "measure_each r [] s = Some s"
| "measure_each r (a # as) s =
     (case dev_doMeasure r (dev_heap s ! a) of
        None \<Rightarrow> None
      | Some d \<Rightarrow> measure_each r as (s\<lparr>dev_heap := (dev_heap s)[a := d]\<rparr>))"

definition vd_doMeasure :: "vd_reading \<Rightarrow> vrt_devices \<Rightarrow> vrt_devices option" where
  "vd_doMeasure r s = measure_each r (map snd (dev_by_name s)) s"

definition reset_at :: "vd_reading \<Rightarrow> string \<Rightarrow> nat \<Rightarrow> vrt_devices \<Rightarrow> vrt_devices \<times> effect list" where
  "reset_at r field a s =
     (let (b, d, es) = dev_reset r field (dev_heap s ! a) in (s\<lparr>dev_heap := (dev_heap s)[a := d]\<rparr>, es))"

definition doReset :: "vd_reading \<Rightarrow> mmessage \<Rightarrow> vrt_devices \<Rightarrow> vrt_devices \<times> effect list" where
  "doReset r m s =
     (case sm_find (dev_by_name s) (m_getString m ''device'') of
        None \<Rightarrow> (s, [])
      | Some a \<Rightarrow> reset_at r (m_getString m ''field'') a s)"

fun reset_each :: "vd_reading \<Rightarrow> string \<Rightarrow> nat list \<Rightarrow> vrt_devices \<Rightarrow> vrt_devices \<times> effect list" where
  "reset_each r field [] s = (s, [])"
| "reset_each r field (a # as) s =
     (let (s1, es) = reset_at r field a s; (s2, fs) = reset_each r field as s1 in (s2, es @ fs))"

definition doReset_all :: "vd_reading \<Rightarrow> string \<Rightarrow> vrt_devices \<Rightarrow> vrt_devices \<times> effect list" where
  "doReset_all r field s = reset_each r field (map snd (dev_by_name s)) s"

definition doReboot :: "mmessage \<Rightarrow> vrt_devices \<Rightarrow> vrt_devices option" where
  "doReboot m s =
     (let ns = fst (nl_init [] (m_getString m ''url'') (CHR ''/''))
      in if ns = [] then None else if ns ! 0 = ''devices'' then None
         else if length ns < 2 then None else if ns ! 1 = ''devices'' then None else Some s)"

definition doArchiveUpdate :: "vd_reading \<Rightarrow> string \<Rightarrow> string \<Rightarrow> vrt_devices \<Rightarrow> vrt_devices \<times> effect list" where
  "doArchiveUpdate r currentday yesterday s =
     (if currentday = vd_day s then (s, [])
      else if yesterday \<noteq> vd_day s then (s\<lparr>vd_day := currentday\<rparr>, [])
      else let (s1, es) = doReset_all r ''energy'' (s\<lparr>vd_day := currentday\<rparr>) in (s1, PurgeArchive # es))"

definition doMemoryCheck :: "int \<Rightarrow> vrt_devices \<Rightarrow> vrt_devices option" where
  "doMemoryCheck mem s = (if mem > 2 * initial_memory s then None else Some s)"

definition makeDevicePage :: "vrt_devices \<Rightarrow> effect list" where
  "makeDevicePage s =
     [SaveItemList ''devices'' ''status''
        (map (\<lambda>(n, a). (n, let st = dev_status (dev_heap s ! a) in if st = '''' then ''ON'' else st)) (dev_by_name s))]"

definition gpio_line :: "mattribute \<Rightarrow> string" where
  "gpio_line a = ''<attribute name='' @ quote @ ma_name a @ quote @ '' value='' @ quote @ ma_value a @ quote @ ''/>''"

text \<open>The channels of \<open>active\<close>, the parameters of all channels, that no device uses.\<close>

definition freegpioRegister :: "mparams \<Rightarrow> mparams \<Rightarrow> mparams \<Rightarrow> vrt_devices \<Rightarrow> effect list" where
  "freegpioRegister active used0 free0 s =
     (let put = (\<lambda>a p. mp_add p (ma_name a) (ma_value a));
          used = fold (\<lambda>(n, a) p. fold put (dev_output (dev_heap s ! a)) (fold put (dev_input (dev_heap s ! a)) p)) (dev_by_name s) used0;
          free = fold (\<lambda>a p. if mp_get used (ma_name a) = '''' then put a p else p) (attrs active) free0
      in [SaveFile (''gpiofree/gpioch.xml'', ''<?xml version='' @ quote @ ''1.0'' @ quote @ ''?><set type='' @ quote @ ''gpioch'' @ quote @ ''>''
            @ concat (map gpio_line (attrs free)) @ ''</set>'' @ newline)])"

definition vd_getObservations :: "mparams \<Rightarrow> vrt_devices \<Rightarrow> mparams \<Rightarrow> mparams" where
  "vd_getObservations own s obs = fold (\<lambda>(n, a) p. dev_getObservations (dev_heap s ! a) p) (dev_by_name s) (ot_getObservations own obs)"

definition vd_getSubjects :: "mparams \<Rightarrow> vrt_devices \<Rightarrow> mparams \<Rightarrow> mparams" where
  "vd_getSubjects own s subj = fold (\<lambda>(n, a) p. dev_getSubjects (dev_heap s ! a) p) (dev_by_name s) (ot_getSubjects own subj)"

text \<open>What the operating system tells the thread: directories, memory, days, and whether the agent may
  be configured.\<close>

record vd_world =
  w_conf :: string
  w_home :: string
  w_enabled :: bool
  w_memory :: int
  w_today :: string
  w_yesterday :: string
  w_writable :: "string \<Rightarrow> bool"
  w_groups :: "(string \<times> string list) list"

definition after_cfg :: "cfg \<Rightarrow> vrt_devices \<Rightarrow> (vrt_devices \<times> effect list) option" where
  "after_cfg c s = (case c of Refused fs \<Rightarrow> Some (s\<lparr>vd_files := fs\<rparr>, []) | Restart fs \<Rightarrow> None)"

definition vd_start :: "mparams \<Rightarrow> mparams \<Rightarrow> mparams \<Rightarrow> vd_world \<Rightarrow> vrt_devices \<Rightarrow> vrt_devices \<times> effect list" where
  "vd_start active used0 free0 w s =
     (s\<lparr>initial_memory := w_memory w\<rparr>, freegpioRegister active used0 free0 s @ makeDevicePage s)"

definition vd_step :: "vd_reading \<Rightarrow> vd_world \<Rightarrow> mmessage \<Rightarrow> vrt_devices \<Rightarrow> (vrt_devices \<times> effect list) option" where
  "vd_step r w msg s =
     (let ty = mtype msg; st = msubtype msg; quiet = map_option (\<lambda>s'. (s', [])); drop_flag = map_option snd in
      if ty = ''cmd'' \<and> st = ''reset'' then Some (doReset r msg s)
      else if ty = ''local_event'' \<and> st = ''update'' then drop_flag (vd_update r msg s)
      else if ty = ''trigger'' \<and> st = ''publish'' then Some (s, vd_publish r s)
      else if ty = ''trigger'' \<and> st = ''measure'' then quiet (vd_doMeasure r s)
      else if ty = ''trigger'' \<and> st = ''archiveupd'' then Some (doArchiveUpdate r (w_today w) (w_yesterday w) s)
      else if ty = ''trigger'' \<and> st = ''checkmemory'' then quiet (doMemoryCheck (w_memory w) s)
      else if ty = ''cmd'' \<and> st = ''putConf'' \<and> w_enabled w then quiet (doReboot msg s)
      else if ty = ''cmd'' \<and> st = ''devConfigure'' \<and> w_enabled w
      then Option.bind (devConfigure (w_writable w) (w_conf w) msg (vd_files s)) (\<lambda>c. after_cfg c s)
      else if ty = ''cmd'' \<and> st = ''devDelete'' \<and> w_enabled w
      then after_cfg (devDelete (w_conf w) (w_home w) (w_groups w) msg (vd_files s)) s
      else if ty = ''cmd'' \<and> sm_count (dev_by_name s) st > 0 then drop_flag (vd_execcmd r msg s)
      else if ty = ''set'' \<and> sm_count (dev_by_name s) st > 0
      then (let (s1, es) = vd_setstatus msg s in Some (s1, es @ makeDevicePage s1))
      else if ty = ''local_event'' \<and> sm_count (dev_by_io s) st > 0 then drop_flag (execLocalEvent r msg s)
      else if ty = ''wait'' \<and> st = ''end'' then drop_flag (execwait r msg s)
      else Some (s, []))"

subsection \<open>What a message keeps\<close>

definition dev_same :: "vdevice \<Rightarrow> vdevice \<Rightarrow> bool" where
  "dev_same d e \<longleftrightarrow> dev_name e = dev_name d \<and> dev_input e = dev_input d"

lemma dev_same_refl [simp]: "dev_same d d"
  by (simp add: dev_same_def)

lemma ts_static:
  "ts_name (fst (notifyEvent v d)) = ts_name d" "ts_input (fst (notifyEvent v d)) = ts_input d"
  "ts_name (fst (docmdaction v d)) = ts_name d" "ts_input (fst (docmdaction v d)) = ts_input d"
  "ts_name (fst (ts_inputs d)) = ts_name d" "ts_input (fst (ts_inputs d)) = ts_input d"
  "ts_name (fst (dowaitaction d)) = ts_name d" "ts_input (fst (dowaitaction d)) = ts_input d"
  by (simp_all add: notifyEvent_def ts_save_def docmdaction_def ts_inputs_def dowaitaction_def ts_input_def Let_def case_prod_beta)

lemma ts_input_fields [simp]: "ts_input (d\<lparr>ts_currentTime := t\<rparr>) = ts_input d" "ts_input (d\<lparr>ing1v := v\<rparr>) = ts_input d"
  "ts_input (d\<lparr>ing2v := v\<rparr>) = ts_input d"
  by (simp_all add: ts_input_def)

lemma ts_execcmd_static:
  assumes "ts_execcmd now m d = (b, d', es)"
  shows "ts_name d' = ts_name d \<and> ts_input d' = ts_input d"
proof -
  have "ts_name (fst (snd (ts_execcmd now m d))) = ts_name d \<and> ts_input (fst (snd (ts_execcmd now m d))) = ts_input d"
    by (simp add: ts_execcmd_def ts_static Let_def case_prod_beta)
  with assms show ?thesis by simp
qed

lemma bi_execcmd_static: "bi_execcmd ub now stamp m d = (b, d', es) \<Longrightarrow> bi_name d' = bi_name d \<and> bi_in d' = bi_in d"
  by (auto simp: bi_execcmd_def bi_update_def Let_def split: if_splits option.splits)

lemma bo_execcmd_static: "bo_execcmd now m d = (b, d', es) \<Longrightarrow> bo_name d' = bo_name d"
  by (auto simp: bo_execcmd_def bo_switch_def bo_save_def Let_def split: if_splits)

lemma pw_execcmd_static: "pw_execcmd now m d = (b, d', es) \<Longrightarrow> pw_name d' = pw_name d"
  by (auto simp: pw_execcmd_def pw_eventNotify_def pw_save_def Let_def split: if_splits)

lemma setColor_static: "setColor ui c d = Some d' \<Longrightarrow> rg_name d' = rg_name d"
  by (auto simp: setColor_def split: option.splits)

lemma rg_command_static: "rg_command ui v c d = Some (d', es) \<Longrightarrow> rg_name d' = rg_name d"
  by (auto simp: rg_command_def Let_def dest: setColor_static split: if_splits option.splits)

lemma rg_execcmd_static:
  assumes "rg_execcmd ui now m d = Some (b, d', es)"
  shows "rg_name d' = rg_name d"
proof (cases "msubtype m = rg_name d")
  case True
  obtain v c where vc: "(let vs = fst (nl_init [] (m_getString m ''value'') (CHR ''.''))
      in if length vs > 1 then (vs ! 0, vs ! 1) else (m_getString m ''value'', m_getString m ''color'')) = (v, c)" by (rule prod.exhaust)
  from assms obtain d1 cmd where c: "rg_command ui v c (d\<lparr>rg_currentTime := now\<rparr>) = Some (d1, cmd)"
    and d': "d' = fst (rg_eventNotify d1)"
    unfolding rg_execcmd_def Let_def vc [unfolded Let_def] using True
    by (auto simp only: prod.case case_prod_beta fst_conv snd_conv Pair_inject option.inject refl if_True split: option.splits)
  from rg_command_static [OF c] d' show ?thesis by (simp add: rg_eventNotify_def rg_save_def Let_def)
qed (use assms in \<open>auto simp: rg_execcmd_def\<close>)

lemma fsm_execcmd_static: "fsm_execcmd m d = Some (b, d', es) \<Longrightarrow> d_name d' = d_name d \<and> d_states d' = d_states d"
  by (auto simp: fsm_execcmd_def fsm_advance_def fsm_exec_def Let_def split: if_splits option.splits)

lemma dev_execcmd_same:
  assumes "dev_execcmd r m d = Some (b, d', es)"
  shows "dev_same d d'"
proof (cases d)
  case (Meter x)
  obtain b1 x1 es1 where "em_execcmd (rd_u r) (rd_now r) m x = (b1, x1, es1)" by (rule prod_cases3)
  with assms Meter show ?thesis
    by (auto simp: dev_same_def lift_dev_def em_input_def em_execcmd_def em_update_def em_store_def Let_def split: if_splits)
next
  case (Fsm x)
  with assms show ?thesis by (auto simp: dev_same_def lift_dev_def fsm_input_def dest: fsm_execcmd_static split: prod.splits)
next
  case (BinIn x)
  with assms show ?thesis by (auto simp: dev_same_def lift_dev_def bi_input_def dest: bi_execcmd_static split: prod.splits)
next
  case (AnaIn x)
  with assms show ?thesis
    by (auto simp: dev_same_def lift_dev_def ai_input_def ai_execcmd_def ai_update_def Let_def split: prod.splits if_splits)
next
  case (BinOut x)
  with assms show ?thesis by (auto simp: dev_same_def lift_dev_def dest: bo_execcmd_static split: prod.splits)
next
  case (Dim x)
  with assms show ?thesis by (auto simp: dev_same_def lift_dev_def dest: pw_execcmd_static split: prod.splits)
next
  case (Rgb x)
  with assms show ?thesis by (auto simp: dev_same_def lift_dev_def dest: rg_execcmd_static split: prod.splits)
next
  case (Tri x)
  with assms show ?thesis by (auto simp: dev_same_def lift_dev_def dest: ts_execcmd_static split: prod.splits)
next
  case (RawOut x)
  with assms show ?thesis by (auto simp: dev_same_def lift_dev_def ro_execcmd_def Let_def split: if_splits)
next
  case (RawIn x)
  with assms show ?thesis by (auto simp: dev_same_def lift_dev_def ri_execcmd_def Let_def split: if_splits)
qed

text \<open>The invariants of the classes.\<close>

fun dev_ok :: "vdevice \<Rightarrow> bool" where
  "dev_ok (Fsm d) = fsm_wf d"
| "dev_ok (Tri d) = ts_ok d"
| "dev_ok d = True"

fun is_rgb :: "vdevice \<Rightarrow> bool" where
  "is_rgb (Rgb d) = True"
| "is_rgb d = False"

lemma dev_execcmd_ok:
  assumes "dev_ok d" and "dev_execcmd r m d = Some (b, d', es)"
  shows "dev_ok d' \<and> is_rgb d' = is_rgb d"
proof (cases d)
  case (Fsm x)
  with assms obtain x' where "fsm_execcmd m x = Some (b, x', es)" "d' = Fsm x'" by (auto simp: lift_dev_def split: prod.splits)
  with assms(1) Fsm fsm.execcmd_inv show ?thesis by simp
next
  case (Tri x)
  with assms(2) obtain x' where x: "ts_execcmd (rd_now r) m x = (b, x', es)" "d' = Tri x'" by (auto simp: lift_dev_def split: prod.splits)
  with assms(1) Tri have "ts_ok x'" using ts_execcmd_safe [of x] ts_same_ok [of x] by auto
  with x Tri show ?thesis by simp
qed (use assms(2) in \<open>auto simp: lift_dev_def split: prod.splits\<close>)

lemma dev_execcmd_total: "dev_ok d \<Longrightarrow> \<not> is_rgb d \<Longrightarrow> dev_execcmd r m d \<noteq> None"
  by (cases d) (use fsm.execcmd_total in auto)

interpretation owned: device "\<lambda>d. dev_ok d \<and> \<not> is_rgb d" "dev_execcmd r"
  using dev_execcmd_total dev_execcmd_ok by unfold_locales blast+

subsection \<open>The pointers\<close>

text \<open>Every pointer leads to a device, under its own name and under channels it listens to, and every
  device satisfies the invariant of its class.\<close>

definition vd_ptrs :: "vrt_devices \<Rightarrow> bool" where
  "vd_ptrs s \<longleftrightarrow>
     (\<forall>n a. sm_find (dev_by_name s) n = Some a \<longrightarrow> a < length (dev_heap s) \<and> dev_name (dev_heap s ! a) = n)
     \<and> (\<forall>c a. sm_find (dev_by_io s) c = Some a \<longrightarrow> a < length (dev_heap s) \<and> c \<in> ma_name ` set (dev_input (dev_heap s ! a)))
     \<and> sm_ordered (dev_by_name s)"

definition vd_inv :: "vrt_devices \<Rightarrow> bool" where
  "vd_inv s \<longleftrightarrow> vd_ptrs s \<and> (\<forall>d \<in> set (dev_heap s). dev_ok d)"

lemma vd_inv_update:
  assumes "vd_inv s" and "dev_same (dev_heap s ! a) d" and "dev_ok d"
  shows "vd_inv (s\<lparr>dev_heap := (dev_heap s)[a := d]\<rparr>)"
proof -
  have "(dev_heap s)[a := d] ! x = (if x = a \<and> a < length (dev_heap s) then d else dev_heap s ! x)" for x
    by (cases "a < length (dev_heap s)") (simp_all add: list_update_beyond)
  then have "dev_name ((dev_heap s)[a := d] ! x) = dev_name (dev_heap s ! x)"
    "dev_input ((dev_heap s)[a := d] ! x) = dev_input (dev_heap s ! x)" for x
    using assms(2) by (simp_all add: dev_same_def)
  with assms(1,3) show ?thesis by (auto simp: vd_inv_def vd_ptrs_def dest: set_update_subset_insert [THEN subsetD])
qed

lemma vd_inv_fields [simp]: "vd_inv (s\<lparr>vd_day := x\<rparr>) = vd_inv s" "vd_inv (s\<lparr>vd_files := fs\<rparr>) = vd_inv s"
  "vd_inv (s\<lparr>initial_memory := n\<rparr>) = vd_inv s"
  by (simp_all add: vd_inv_def vd_ptrs_def)

lemma vd_inv_at: "vd_inv s \<Longrightarrow> a < length (dev_heap s) \<Longrightarrow> dev_ok (dev_heap s ! a)"
  by (simp add: vd_inv_def)

lemma vd_inv_names: "vd_inv s \<Longrightarrow> a \<in> snd ` set (dev_by_name s) \<Longrightarrow> a < length (dev_heap s)"
  unfolding vd_inv_def vd_ptrs_def using sm_ordered_find by fastforce

definition heap_static :: "vrt_devices \<Rightarrow> vrt_devices \<Rightarrow> bool" where
  "heap_static s t \<longleftrightarrow> dev_by_name t = dev_by_name s \<and> dev_by_io t = dev_by_io s \<and> initial_memory t = initial_memory s
     \<and> map is_rgb (dev_heap t) = map is_rgb (dev_heap s)"

lemma heap_static_refl [simp]: "heap_static s s"
  by (simp add: heap_static_def)

lemma heap_static_trans: "heap_static s t \<Longrightarrow> heap_static t v \<Longrightarrow> heap_static s v"
  by (simp add: heap_static_def)

lemma heap_static_update: "is_rgb d = is_rgb (dev_heap s ! a) \<Longrightarrow> heap_static s (s\<lparr>dev_heap := (dev_heap s)[a := d]\<rparr>)"
  by (cases "a < length (dev_heap s)") (simp_all add: heap_static_def map_update list_update_same_conv list_update_beyond)

text \<open>A well-behaved change of one device keeps the pointers.\<close>

lemma exec_at_inv:
  assumes "vd_inv s" and "\<And>a. p = Some a \<Longrightarrow> a < length (dev_heap s)" and "exec_at r m p s = Some (b, s', es)"
  shows "vd_inv s' \<and> heap_static s s'"
proof (cases p)
  case (Some a)
  with assms(3) obtain d where d: "dev_execcmd r m (dev_heap s ! a) = Some (b, d, es)" "s' = s\<lparr>dev_heap := (dev_heap s)[a := d]\<rparr>"
    by (auto simp: exec_at_def on_device_def)
  from dev_execcmd_ok [OF vd_inv_at [OF assms(1) assms(2) [OF Some]] d(1)] dev_execcmd_same [OF d(1)] assms(1) d(2)
  show ?thesis by (simp add: vd_inv_update heap_static_update)
qed (use assms in \<open>simp add: exec_at_def\<close>)

lemma exec_at_total:
  assumes "vd_inv s" and "\<And>a. p = Some a \<Longrightarrow> a < length (dev_heap s)" and "\<forall>d \<in> set (dev_heap s). \<not> is_rgb d"
  shows "exec_at r m p s \<noteq> None"
proof (cases p)
  case (Some a)
  with assms have "dev_execcmd r m (dev_heap s ! a) \<noteq> None" by (intro dev_execcmd_total vd_inv_at) simp_all
  with Some show ?thesis by (simp add: exec_at_def on_device_def)
qed (simp add: exec_at_def)

lemma dev_setstatus_same: "dev_setstatus m d = (d', es) \<Longrightarrow> dev_same d d' \<and> dev_ok d' = dev_ok d \<and> is_rgb d' = is_rgb d"
  by (cases d) (auto simp: dev_same_def bi_setstatus_def bi_input_def Let_def split: if_splits)

lemma dev_doMeasure_same: "dev_doMeasure r d = Some d' \<Longrightarrow> dev_same d d' \<and> dev_ok d' = dev_ok d \<and> is_rgb d' = is_rgb d"
  by (cases d) (auto simp: dev_same_def em_doMeasure_def em_input_def split: if_splits)

lemma dev_reset_same: "dev_reset r f d = (b, d', es) \<Longrightarrow> dev_same d d' \<and> dev_ok d' = dev_ok d \<and> is_rgb d' = is_rgb d"
  by (cases d) (auto simp: dev_same_def lift_dev_def em_reset_def em_store_def em_input_def Let_def split: if_splits)

lemma reset_at_inv:
  "vd_inv s \<Longrightarrow> a < length (dev_heap s) \<Longrightarrow> reset_at r f a s = (s', es) \<Longrightarrow> vd_inv s' \<and> heap_static s s'"
  using dev_reset_same [of r f "dev_heap s ! a"]
  by (auto simp: reset_at_def vd_inv_at intro!: vd_inv_update heap_static_update split: prod.splits)

lemma reset_each_inv:
  "vd_inv s \<Longrightarrow> set as \<subseteq> snd ` set (dev_by_name s) \<Longrightarrow> reset_each r f as s = (s', es) \<Longrightarrow> vd_inv s' \<and> heap_static s s'"
proof (induction as arbitrary: s es)
  case (Cons a as)
  obtain s1 es1 where s1: "reset_at r f a s = (s1, es1)" by (rule prod.exhaust)
  have "vd_inv s1 \<and> heap_static s s1" using Cons.prems vd_inv_names by (intro reset_at_inv [OF _ _ s1]) auto
  with Cons s1 show ?case by (auto simp: heap_static_def split: prod.splits)
qed simp

lemma measure_each_inv:
  "vd_inv s \<Longrightarrow> set as \<subseteq> snd ` set (dev_by_name s) \<Longrightarrow> measure_each r as s = Some s' \<Longrightarrow> vd_inv s' \<and> heap_static s s'"
proof (induction as arbitrary: s)
  case (Cons a as)
  then obtain d where d: "dev_doMeasure r (dev_heap s ! a) = Some d"
    and rest: "measure_each r as (s\<lparr>dev_heap := (dev_heap s)[a := d]\<rparr>) = Some s'" by (auto split: option.splits)
  let ?s = "s\<lparr>dev_heap := (dev_heap s)[a := d]\<rparr>"
  have "a < length (dev_heap s)" using Cons.prems(1,2) vd_inv_names by auto
  then have "vd_inv ?s" "heap_static s ?s"
    using Cons.prems(1) dev_doMeasure_same [OF d] by (simp_all add: vd_inv_update heap_static_update vd_inv_at)
  with Cons.IH [OF _ _ rest] Cons.prems(2) show ?case by (auto simp: heap_static_def)
qed simp

lemma find_in_range: "vd_inv s \<Longrightarrow> sm_find (dev_by_name s) n = Some a \<Longrightarrow> a < length (dev_heap s)"
    "vd_inv s \<Longrightarrow> sm_find (dev_by_io s) n = Some a \<Longrightarrow> a < length (dev_heap s)"
  by (simp_all add: vd_inv_def vd_ptrs_def)

lemma vd_setstatus_inv: "vd_inv s \<Longrightarrow> vd_setstatus m s = (s', es) \<Longrightarrow> vd_inv s' \<and> heap_static s s'"
proof (cases "sm_find (dev_by_name s) (msubtype m)")
  case (Some a)
  assume s: "vd_inv s" "vd_setstatus m s = (s', es)"
  obtain d fs where d: "dev_setstatus m (dev_heap s ! a) = (d, fs)" by (rule prod.exhaust)
  with s(2) Some have "s' = s\<lparr>dev_heap := (dev_heap s)[a := d]\<rparr>" by (simp add: vd_setstatus_def)
  with dev_setstatus_same [OF d] s(1) find_in_range(1) [OF s(1) Some] show ?thesis
    by (simp add: vd_inv_update heap_static_update vd_inv_at)
qed (simp add: vd_setstatus_def)

lemma vd_update_inv: "vd_inv s \<Longrightarrow> vd_update r m s = Some (b, s', es) \<Longrightarrow> vd_inv s' \<and> heap_static s s'"
  by (auto simp: vd_update_def execLocalEvent_def dest!: exec_at_inv [rotated 2] intro: find_in_range split: if_splits)

lemma doReset_inv: "vd_inv s \<Longrightarrow> doReset r m s = (s', es) \<Longrightarrow> vd_inv s' \<and> heap_static s s'"
  by (auto simp: doReset_def dest: reset_at_inv [rotated 2] intro: find_in_range split: option.splits)

lemma doArchiveUpdate_inv: "vd_inv s \<Longrightarrow> doArchiveUpdate r t y s = (s', es) \<Longrightarrow> vd_inv s' \<and> heap_static s s'"
proof -
  assume s: "vd_inv s" "doArchiveUpdate r t y s = (s', es)"
  let ?s = "s\<lparr>vd_day := t\<rparr>"
  have st: "heap_static s ?s" by (simp add: heap_static_def)
  obtain s1 fs where r: "reset_each r ''energy'' (map snd (dev_by_name ?s)) ?s = (s1, fs)" by (rule prod.exhaust)
  with reset_each_inv [OF _ _ r] s(1) have "vd_inv s1" "heap_static ?s s1" by auto
  with s st r heap_static_trans [OF st] show ?thesis by (auto simp: doArchiveUpdate_def doReset_all_def Let_def split: if_splits)
qed

lemma after_cfg_inv: "vd_inv s \<Longrightarrow> after_cfg c s = Some (s', es) \<Longrightarrow> vd_inv s' \<and> heap_static s s'"
  by (auto simp: after_cfg_def heap_static_def split: cfg.splits)

lemma exec_flag_inv:
  assumes "vd_inv s" and "\<And>a. p = Some a \<Longrightarrow> a < length (dev_heap s)" and "map_option snd (exec_at r m p s) = Some (s', es)"
  shows "vd_inv s' \<and> heap_static s s'"
  using assms(3) exec_at_inv [OF assms(1,2)] by fastforce

lemma quiet_inv:
  assumes "vd_inv s" and "vd_doMeasure r s = Some s' \<or> doMemoryCheck mem s = Some s' \<or> doReboot m s = Some s'"
  shows "vd_inv s' \<and> heap_static s s'"
  using assms measure_each_inv [of s "map snd (dev_by_name s)" r s']
  by (auto simp: vd_doMeasure_def doMemoryCheck_def doReboot_def Let_def split: if_splits)

text \<open>A result that keeps the pointers.\<close>

definition keeps :: "vrt_devices \<Rightarrow> (vrt_devices \<times> effect list) option \<Rightarrow> bool" where
  "keeps s x \<longleftrightarrow> (\<forall>s' es. x = Some (s', es) \<longrightarrow> vd_inv s' \<and> heap_static s s')"

lemma keeps_if: "keeps s x \<Longrightarrow> keeps s y \<Longrightarrow> keeps s (if c then x else y)"
  by simp

lemma keeps_quiet: "(\<And>s'. x = Some s' \<Longrightarrow> vd_inv s' \<and> heap_static s s') \<Longrightarrow> keeps s (map_option (\<lambda>s'. (s', [])) x)"
  by (auto simp: keeps_def)

lemma keeps_exec: "vd_inv s \<Longrightarrow> (\<And>a. p = Some a \<Longrightarrow> a < length (dev_heap s)) \<Longrightarrow> keeps s (map_option snd (exec_at r m p s))"
  unfolding keeps_def using exec_flag_inv by blast

lemma vd_step_inv:
  assumes "vd_inv s" and "vd_step r w m s = Some (s', es)"
  shows "vd_inv s' \<and> heap_static s s'"
proof -
  have "keeps s (vd_step r w m s)"
    unfolding vd_step_def Let_def
  proof (intro keeps_if)
    show "keeps s (Some (doReset r m s))" "keeps s (Some (doArchiveUpdate r (w_today w) (w_yesterday w) s))"
      using doReset_inv [OF assms(1)] doArchiveUpdate_inv [OF assms(1)] by (auto simp: keeps_def)
    show "keeps s (map_option snd (vd_update r m s))" using vd_update_inv [OF assms(1)] by (fastforce simp: keeps_def)
    show "keeps s (Some (s, vd_publish r s))" "keeps s (Some (s, []))" using assms(1) by (simp_all add: keeps_def)
    show "keeps s (map_option (\<lambda>s'. (s', [])) (vd_doMeasure r s))"
      "keeps s (map_option (\<lambda>s'. (s', [])) (doMemoryCheck (w_memory w) s))" "keeps s (map_option (\<lambda>s'. (s', [])) (doReboot m s))"
      using quiet_inv [OF assms(1)] by (intro keeps_quiet, blast)+
    show "keeps s (Option.bind (devConfigure (w_writable w) (w_conf w) m (vd_files s)) (\<lambda>c. after_cfg c s))"
      "keeps s (after_cfg (devDelete (w_conf w) (w_home w) (w_groups w) m (vd_files s)) s)"
      using after_cfg_inv [OF assms(1)] by (auto simp: keeps_def bind_eq_Some_conv)
    show "keeps s (case vd_setstatus m s of (s1, es) \<Rightarrow> Some (s1, es @ makeDevicePage s1))"
      using vd_setstatus_inv [OF assms(1)] by (auto simp: keeps_def split: prod.splits)
    show "keeps s (map_option snd (vd_execcmd r m s))" "keeps s (map_option snd (execLocalEvent r m s))"
      "keeps s (map_option snd (execwait r m s))"
      unfolding vd_execcmd_def execLocalEvent_def execwait_def using find_in_range [OF assms(1)]
      by (intro keeps_exec [OF assms(1)], simp)+
  qed
  with assms(2) show ?thesis by (simp add: keeps_def)
qed

lemma some_if: "(c \<Longrightarrow> x \<noteq> None) \<Longrightarrow> (\<not> c \<Longrightarrow> y \<noteq> None) \<Longrightarrow> (if c then x else y) \<noteq> None"
  by simp

lemma vd_step_total:
  assumes "vd_inv s" and "\<forall>d \<in> set (dev_heap s). \<not> is_rgb d" and "\<not> w_enabled w" and "w_memory w \<le> 2 * initial_memory s"
    and "\<not> (mtype m = ''trigger'' \<and> msubtype m = ''measure'')"
  shows "vd_step r w m s \<noteq> None"
proof -
  have ex: "exec_at r m' (sm_find (dev_by_name s) n) s \<noteq> None" "exec_at r m' (sm_find (dev_by_io s) n) s \<noteq> None" for m' n
    using find_in_range [OF assms(1)] by (intro exec_at_total [OF assms(1) _ assms(2)], simp)+
  then have run: "vd_execcmd r m' s \<noteq> None" "execLocalEvent r m' s \<noteq> None" "execwait r m' s \<noteq> None" for m'
    unfolding vd_execcmd_def execLocalEvent_def execwait_def by blast+
  then have upd: "vd_update r m s \<noteq> None" unfolding vd_update_def
    by (intro some_if) (simp_all only: option.map_disc_iff option.distinct not_False_eq_True)
  have page: "(case x of (s1, es) \<Rightarrow> Some (s1, es @ makeDevicePage s1)) \<noteq> None" for x by (cases x) simp
  have mem: "doMemoryCheck (w_memory w) s \<noteq> None" using assms(4) by (simp add: doMemoryCheck_def)
  show ?thesis
    unfolding vd_step_def Let_def
  proof (intro some_if)
    show "map_option snd (vd_update r m s) \<noteq> None" "map_option snd (vd_execcmd r m s) \<noteq> None"
      "map_option snd (execLocalEvent r m s) \<noteq> None" "map_option snd (execwait r m s) \<noteq> None"
      "map_option (\<lambda>s'. (s', [])) (doMemoryCheck (w_memory w) s) \<noteq> None"
      unfolding option.map_disc_iff by (fact upd run mem)+
    show "(case vd_setstatus m s of (s1, es) \<Rightarrow> Some (s1, es @ makeDevicePage s1)) \<noteq> None" by (rule page)
  qed (rule option.distinct(2) | rule notE [OF assms(5)], assumption | rule notE [OF assms(3)], elim conjE, assumption)+
qed

subsection \<open>From the start of the agent\<close>

text \<open>The agent before its constructor loads the devices; the member \<open>initial_memory\<close> is set when the thread starts.\<close>

definition vd_empty :: "string \<Rightarrow> int \<Rightarrow> files \<Rightarrow> vrt_devices" where
  "vd_empty day mem fs = \<lparr>dev_heap = [], dev_by_name = [], dev_by_io = [], initial_memory = mem, vd_day = day, vd_files = fs\<rparr>"

fun vd_run :: "(vd_reading \<times> vd_world \<times> mmessage) list \<Rightarrow> vrt_devices \<Rightarrow> (vrt_devices \<times> effect list) option" where
  "vd_run [] s = Some (s, [])"
| "vd_run ((r, w, m) # xs) s =
     (case vd_step r w m s of None \<Rightarrow> None | Some (s1, es) \<Rightarrow> map_option (apsnd (append es)) (vd_run xs s1))"

lemma find_fold_put:
  "sm_find (fold (\<lambda>i m. sm_put (ma_name i) a m) is m) c = (if c \<in> ma_name ` set is then Some a else sm_find m c)"
  by (induction "is" arbitrary: m) (auto simp: sm_find_put)

lemma register_device_ptrs: "vd_ptrs s \<Longrightarrow> vd_ptrs (register_device d s)"
  by (auto simp: vd_ptrs_def register_device_def Let_def sm_find_put find_fold_put sm_ordered_put nth_append
      split: if_splits intro: less_SucI)

lemma load_each_ptrs: "vd_ptrs s \<Longrightarrow> load_each mk ns s = Some (s', es) \<Longrightarrow> vd_ptrs s'"
proof (induction ns arbitrary: s es)
  case (Cons n ns)
  then obtain d es1 es2 where "load_each mk ns (register_device d s) = Some (s', es2)" by (auto split: option.splits)
  with Cons.IH register_device_ptrs [OF Cons.prems(1)] show ?case by blast
qed simp

lemma chain_keeps:
  "chain fs s = Some (s', es) \<Longrightarrow> P s \<Longrightarrow> (\<And>f s s' es. f \<in> set fs \<Longrightarrow> P s \<Longrightarrow> f s = Some (s', es) \<Longrightarrow> P s') \<Longrightarrow> P s'"
proof (induction fs arbitrary: s es)
  case (Cons f fs)
  then obtain s1 es1 es2 where s1: "f s = Some (s1, es1)" "chain fs s1 = Some (s', es2)" by (auto split: option.splits)
  with Cons.prems(2,3) have "P s1" by (meson list.set_intros(1))
  with Cons.IH [OF s1(2)] Cons.prems(3) show ?case by (meson list.set_intros(2))
qed simp

lemma loadDevices_ptrs: "vd_ptrs s \<Longrightarrow> loadDevices r junk jb jn par doc dir dir1 s = Some (s', es) \<Longrightarrow> vd_ptrs s'"
  unfolding loadDevices_def
  by (erule chain_keeps) (auto simp: loadRaw_def loadDevType_def Let_def dest: load_each_ptrs split: if_splits)

lemma vd_empty_ptrs: "vd_ptrs (vd_empty day mem fs)"
  by (simp add: vd_ptrs_def vd_empty_def)

lemma no_rgb_static: "heap_static s t \<Longrightarrow> \<forall>d \<in> set (dev_heap s). \<not> is_rgb d \<Longrightarrow> \<forall>d \<in> set (dev_heap t). \<not> is_rgb d"
  unfolding heap_static_def by (metis (no_types, lifting) image_eqI image_iff list.set_map)

text \<open>A message that does not ask the agent to measure or to end: the agent may not be configured and
  its memory has not doubled.\<close>

fun harmless :: "int \<Rightarrow> vd_reading \<times> vd_world \<times> mmessage \<Rightarrow> bool" where
  "harmless mem (r, w, m) \<longleftrightarrow> \<not> w_enabled w \<and> w_memory w \<le> 2 * mem \<and> \<not> (mtype m = ''trigger'' \<and> msubtype m = ''measure'')"

lemma vd_run_total:
  assumes "vd_inv s" and "\<forall>d \<in> set (dev_heap s). \<not> is_rgb d" and "\<forall>x \<in> set xs. harmless (initial_memory s) x"
  shows "\<exists>s' es. vd_run xs s = Some (s', es) \<and> vd_inv s' \<and> heap_static s s'"
  using assms
proof (induction xs arbitrary: s)
  case (Cons x xs)
  obtain r w m where x: "x = (r, w, m)" by (rule prod_cases3)
  from Cons.prems(3) have "harmless (initial_memory s) (r, w, m)" unfolding x by simp
  then have g: "\<not> w_enabled w" "w_memory w \<le> 2 * initial_memory s" "\<not> (mtype m = ''trigger'' \<and> msubtype m = ''measure'')"
    unfolding harmless.simps by blast+
  from vd_step_total [OF Cons.prems(1,2) g, of r] obtain s1 es where s1: "vd_step r w m s = Some (s1, es)" by force
  note k = vd_step_inv [OF Cons.prems(1) s1]
  have "\<exists>s' es. vd_run xs s1 = Some (s', es) \<and> vd_inv s' \<and> heap_static s1 s'"
  proof (rule Cons.IH)
    show "vd_inv s1" using k by blast
    show "\<forall>d \<in> set (dev_heap s1). \<not> is_rgb d" using no_rgb_static k Cons.prems(2) by blast
    show "\<forall>x \<in> set xs. harmless (initial_memory s1) x"
      using Cons.prems(3) k unfolding heap_static_def by (simp del: harmless.simps)
  qed
  then obtain s' fs where "vd_run xs s1 = Some (s', fs)" "vd_inv s'" "heap_static s1 s'" by blast
  with k s1 show ?case unfolding x using heap_static_trans by auto
qed simp


definition lamp_params :: mparams where
  "lamp_params = mp_add_cat (mp_add (mp_add (mp_add (mp_new ''conf'' ''home'' ''lamp'') ''default'' ''OFF'')
       ''duration'' ''3'') ''name'' ''lamp'') ''output'' ''output'' ''o1''"

definition lamp_dir :: "string \<Rightarrow> directory" where
  "lamp_dir d = (if d = ''dev'' then Some [(''BinaryOutput'', True)]
     else if d = ''dev/BinaryOutput'' then Some [(''lamp.xml'', False)] else None)"

definition still :: vd_reading where
  "still = \<lparr>rd_now = 0, rd_stamp = ''t'', rd_u = 0, rd_ui = 0, rd_ub = False\<rparr>"

definition closed_world :: vd_world where
  "closed_world = \<lparr>w_conf = ''c'', w_home = ''h'', w_enabled = False, w_memory = 5, w_today = ''a'', w_yesterday = ''b'',
     w_writable = (\<lambda>_. False), w_groups = []\<rparr>"

definition lamp_agent :: vrt_devices where
  "lamp_agent = fst (the (loadDevices still 0 False 0 (\<lambda>_ _. lamp_params) (\<lambda>_ _. Missing) lamp_dir ''dev'' (vd_empty ''a'' 0 (\<lambda>_. None))))"

lemma lamp_agent_loads:
  "\<exists>es. loadDevices still 0 False 0 (\<lambda>_ _. lamp_params) (\<lambda>_ _. Missing) lamp_dir ''dev'' (vd_empty ''a'' 0 (\<lambda>_. None)) = Some (lamp_agent, es)"
proof -
  have "loadDevices still 0 False 0 (\<lambda>_ _. lamp_params) (\<lambda>_ _. Missing) lamp_dir ''dev'' (vd_empty ''a'' 0 (\<lambda>_. None)) \<noteq> None"
    by code_simp
  then show ?thesis by (auto simp: lamp_agent_def)
qed

lemma lamp_agent_fields: "dev_heap lamp_agent = [BinOut (fst (bo_new 0 lamp_params ''lamp''))]" "dev_by_name lamp_agent = [(''lamp'', 0)]"
  by code_simp+


subsection \<open>A timed output, the timer and the agent\<close>

lemma wait_target_name:
  assumes "CHR ''_'' \<notin> set dur" and "CHR ''$'' \<notin> set n" and "2 \<le> length n"
  shows "wait_target (dur @ ''_'' @ n) = n"
proof -
  have "takeWhile (\<lambda>c. c \<noteq> CHR ''_'') (dur @ ''_'' @ n) = dur" using assms(1) by (auto simp: takeWhile_append)
  moreover have "takeWhile (\<lambda>c. c \<noteq> CHR ''$'') n = n" using assms(2) by (auto simp: takeWhile_eq_all_conv)
  moreover have "length dur < length (dur @ ''_'' @ n) - 2" using assms(3) by simp
  ultimately show ?thesis unfolding wait_target_def Let_def by simp
qed

text \<open>A device whose name is one character is not found: the comparison with the length is one too strict,
  so the text is kept whole, with the duration.\<close>

lemma wait_target_short:
  assumes "CHR ''_'' \<notin> set dur" and "CHR ''$'' \<notin> set dur" and "c \<noteq> CHR ''$''" and "1 \<le> length dur"
  shows "wait_target (dur @ ''_'' @ [c]) = dur @ ''_'' @ [c]"
proof -
  have "takeWhile (\<lambda>c. c \<noteq> CHR ''_'') (dur @ ''_'' @ [c]) = dur" using assms(1) by (auto simp: takeWhile_append)
  moreover have "takeWhile (\<lambda>c. c \<noteq> CHR ''$'') (dur @ ''_'' @ [c]) = dur @ ''_'' @ [c]" using assms(2,3) by (auto simp: takeWhile_eq_all_conv)
  ultimately show ?thesis using assms(4) by (simp add: wait_target_def)
qed

text \<open>What the timer of the agent makes of the messages that it is sent.\<close>

definition timer_feed :: "double \<Rightarrow> mmessage list \<Rightarrow> timer \<Rightarrow> timer" where
  "timer_feed u ms t = fold (\<lambda>m t. fst (timer_step u m t)) ms t"

lemma timer_step_other: "mtype m = ''devcmd'' \<or> mtype m = ''event'' \<Longrightarrow> timer_step u m t = (t, [])"
  by (auto simp: timer_step_def Let_def)

lemma timer_step_set: "getDoubleDuration u v > 0 \<Longrightarrow>
   fst (timer_step u (wait_message ''set'' v) t) = t\<lparr>conditions := snd (startTimer (tc_new u ''wait'' ''set'' v) (conditions t))\<rparr>"
  by (simp add: timer_step_def Let_def)

lemma bo_execcmd_notified:
  assumes "msubtype msg = bo_name d" and "m_getString msg ''value'' = v" and "v \<noteq> bo_currentValue d" and "v \<noteq> default_value d"
    and "bo_duration d \<noteq> ''0''" and "bo_execcmd now msg d = (b, d1, es)"
  obtains m e where "notified es = [m, e, wait_message ''set'' (wait_condition d)]" "mtype m = ''devcmd''" "mtype e = ''event''"
proof -
  have "notified es = [value_time ''devcmd'' (bo_out d) (remap (bo_params d) v) now,
     m_add ((value_time ''devcmd'' (bo_out d) (remap (bo_params d) v) now)\<lparr>mtype := ''event'', msubtype := mp_get (bo_params d) ''eventname''\<rparr>) ''value'' v,
     wait_message ''set'' (wait_condition d)]"
    using assms by (auto simp: bo_execcmd_def bo_switch_def bo_save_def bo_publish_def Let_def)
  moreover have "mtype (m_add m k x) = mtype m" for m :: mmessage and k x by (simp add: m_add_def split: option.splits)
  ultimately show ?thesis using that by simp
qed

lemma end_message_wait: "end_message (tc_new u ''wait'' s v) = m_add (m_new ''wait'' ''end'') ''value'' v"
  by (simp add: end_message_def tc_new_def m_add_def m_new_def ms_add_def sm_insert_def)

lemma startTimer_in: "tc \<in> set (snd (startTimer tc cs))"
  by (induction cs) (auto split: prod.splits)

lemma startTimer_from: "c \<in> set (snd (startTimer tc cs)) \<Longrightarrow> c = tc \<or> c \<in> set cs"
  by (induction cs) (auto split: prod.splits if_splits)

lemma filtered_once: "(\<And>c. f c = e \<Longrightarrow> c \<in> set cs \<Longrightarrow> c = k) \<Longrightarrow> k \<in> set cs \<Longrightarrow> f k = e \<Longrightarrow> e \<in> set (map f (filter P cs)) \<longleftrightarrow> P k"
  unfolding set_map set_filter by blast

lemma getDuration_prefix: "CHR ''_'' \<notin> set dur \<Longrightarrow> getDuration (dur @ ''_'' @ n) = dur"
  by (simp add: getDuration_def str_find_char_append)

lemma vd_step_cmd:
  assumes "mtype m = ''cmd''" and "sm_find (dev_by_name s) (msubtype m) = Some a"
    and "msubtype m \<notin> {''reset'', ''putConf'', ''devConfigure'', ''devDelete''}"
  shows "vd_step r w m s = map_option snd (on_device (dev_execcmd r m) a s)"
  using assms by (simp add: vd_step_def Let_def vd_execcmd_def exec_at_def sm_count_def del: sm_count_pos)

lemma vd_step_end:
  assumes "mtype m = ''wait''" and "msubtype m = ''end''" and "sm_find (dev_by_name s) (wait_target (m_getString m ''value'')) = Some a"
  shows "vd_step r w m s = map_option snd (on_device (dev_execcmd r m) a s)"
  using assms by (simp add: vd_step_def Let_def execwait_def exec_at_def)

text \<open>A wait that is set ends at the poll that passes its duration, and at no other.\<close>

lemma timer_end_once:
  fixes u :: double and v :: string
  defines "tc \<equiv> tc_new u ''wait'' ''set'' v"
  assumes "0 < p" and "out_ok (out_mess t)" and "spaced p (last_update_time t) xs" and "i < length xs" and "0 < wait_time tc"
    and "\<forall>c \<in> set (conditions t). \<not> expired c \<and> 0 < wait_time c \<and> tc_value c \<noteq> v"
    and "t1 = t\<lparr>conditions := snd (startTimer tc (conditions t))\<rparr>"
  shows "m_add (m_new ''wait'' ''end'') ''value'' v \<in> set (notified (snd (timer_polls p xs t1) ! i))
    \<longleftrightarrow> of_nat i * p < wait_time tc \<and> wait_time tc \<le> of_nat (Suc i) * p"
proof -
  let ?fin = "m_add (m_new ''wait'' ''end'') ''value'' v"
  have cs: "\<forall>c \<in> set (conditions t1). \<not> expired c \<and> 0 < wait_time c"
    using assms(6-8) startTimer_from [of _ tc "conditions t"] by (fastforce simp: tc_def tc_new_def)
  have "end_message c = ?fin \<Longrightarrow> c \<in> set (conditions t1) \<Longrightarrow> c = tc" for c
    using startTimer_from [of c tc "conditions t"] assms(7,8) unfolding tc_def end_message_wait [of u "''set''", symmetric]
    by (auto simp: end_message_def ms_of_string_def tc_new_def)
  moreover have "tc \<in> set (conditions t1)" by (simp add: assms(8) startTimer_in)
  ultimately have "?fin \<in> set (map end_message (filter P (conditions t1))) \<longleftrightarrow> P tc" for P
    by (intro filtered_once) (simp_all add: tc_def end_message_wait)
  moreover have "notified (snd (timer_polls p xs t1) ! i)
    = map end_message (filter (\<lambda>c. of_nat i * p < wait_time c \<and> wait_time c \<le> of_nat (Suc i) * p) (conditions t1))"
    by (rule timer_ends_at [OF assms(2) _ _ assms(5) cs]) (simp_all add: assms(3,4,8))
  ultimately show ?thesis by simp
qed



end
