(* ===== verification/Gpio_Channels.thy ===== *)
theory Gpio_Channels
  imports File_Store Effects Message_Queue Hsrv
begin

text \<open>
  The channels of the hardware, \<^verbatim>\<open>src/agents/BBDevices/Gpio.cpp\<close> and
  \<^verbatim>\<open>src/agents/BBDevices/GPIOThread.cpp\<close>: outputs and dimmers that write a file of the kernel,
  inputs with a dead time after each change, and probes that are polled in turn. A channel object is
  a record; the three vectors of a thread hold different objects, and the vector of all channels, which
  only the constructor reads, is their concatenation. What the kernel answers (whether a file can be
  opened, the bytes read, the output of a command) is an argument. \<open>None\<close> is the conversion of a
  floating point number that no integer represents, or a replacement loop that does not end.
\<close>

subsection \<open>A channel\<close>

record gpio =
  gp_params :: mparams
  gp_name :: string
  gpioname :: string
  gpiotype :: string
  gpiovalue :: string
  gp_wait_until :: double
  gp_w :: double
  gp_currentValue :: string
  dutyCycle :: string

definition gpio_new :: "double \<Rightarrow> mparams \<Rightarrow> gpio" where
  "gpio_new u p =
     (let g = mp_get p
      in \<lparr>gp_params = p, gp_name = g ''capename'', gpioname = g ''gpioname'', gpiotype = g ''type'',
          gpiovalue = g ''gpiopath'' @ ''/value'', gp_wait_until = 0,
          gp_w = (if g ''waitfor'' = '''' then 1 else a2double u (g ''waitfor'')),
          gp_currentValue = (if g ''currentValue'' = '''' then g ''default_value'' else g ''currentValue''),
          dutyCycle = (if g ''dutyCycle'' = '''' then ''0'' else g ''dutyCycle'')\<rparr>)"

text \<open>The commands that are run once for all channels, \<open>dn\<close> so far.\<close>

fun init_commands :: "string list \<Rightarrow> mattribute list \<Rightarrow> string list \<times> effect list" where
  "init_commands dn [] = (dn, [])"
| "init_commands dn (a # as) =
     (if nl_member dn (ma_value a) then init_commands dn as
      else let (d, es) = init_commands (nl_add dn (ma_value a)) as in (d, Shell (ma_value a) # es))"

definition gp_initialise :: "bool \<Rightarrow> string list \<Rightarrow> gpio \<Rightarrow> string list \<times> effect list" where
  "gp_initialise is_dir dn g =
     (let i = mp_extractCategory (gp_params g) ''init''
      in if \<not> is_dir \<and> length i > 0 then init_commands dn i else (dn, []))"

definition gp_program :: "gpio \<Rightarrow> effect list" where
  "gp_program g = map (\<lambda>a. Shell (ma_value a)) (mp_extractCategory (gp_params g) ''script'')"

definition getpath :: "string \<Rightarrow> gpio \<Rightarrow> string" where
  "getpath value g =
     (if gpiotype g = ''booleanout'' then gpiovalue g
      else if gpiotype g = ''pwmout'' \<and> value \<in> {''ON'', ''on'', ''OFF'', ''off''} then mp_get (gp_params g) ''duty''
      else mp_get (gp_params g) ''duty'')"

definition gp_save :: "gpio \<Rightarrow> effect list" where
  "gp_save g = [SaveFile (mp_save (gp_params g))]"

definition to_int :: "double \<Rightarrow> int option" where
  "to_int x = (if - (2 ^ 31) \<le> trunc x \<and> trunc x < 2 ^ 31 then Some (trunc x) else None)"

definition set_mode :: "string \<Rightarrow> gpio \<Rightarrow> gpio" where
  "set_mode v g = g\<lparr>gp_params := snd (mp_set (gp_params g) ''mode'' v)\<rparr>"

text \<open>The level of a dimmer: a level of 100 is a cycle of zero.\<close>

definition set_level :: "double \<Rightarrow> double \<Rightarrow> string \<Rightarrow> gpio \<Rightarrow> (string \<times> gpio \<times> effect list) option" where
  "set_level u1 u2 value g =
     (case to_int (a2double u2 (mp_get (gp_params g) ''default_cycle'') * (1 - a2double u1 value / 100)) of
        None \<Rightarrow> None
      | Some n \<Rightarrow>
          let g' = g\<lparr>dutyCycle := value, gp_currentValue := int2a n,
                     gp_params := mp_add (mp_add (gp_params g) ''currentValue'' (int2a n)) ''dutyCycle'' value\<rparr>
          in Some (int2a n, g', gp_save g'))"

definition set_level_text :: "string \<Rightarrow> string" where
  "set_level_text value =
     (if value = ''ON'' \<or> value = ''on'' then ''1'' else if value = ''OFF'' \<or> value = ''off'' then ''0'' else value)"

definition get_and_set_value :: "double \<Rightarrow> double \<Rightarrow> string \<Rightarrow> gpio \<Rightarrow> (string \<times> gpio \<times> effect list) option" where
  "get_and_set_value u1 u2 value g =
     (if value = '''' then Some (gp_currentValue g, g, [])
      else if gpiotype g = ''pwmout''
      then if value = ''ON'' \<or> value = ''on''
           then (let g' = set_mode ''ON'' g in Some (gp_currentValue g', g', gp_save g'))
           else if value = ''OFF'' \<or> value = ''off''
           then (let g' = set_mode ''OFF'' g in Some (mp_get (gp_params g') ''default_cycle'', g', gp_save g'))
           else set_level u1 u2 value g
      else let g' = g\<lparr>gp_currentValue := set_level_text value,
                      gp_params := mp_add (gp_params g) ''currentValue'' (set_level_text value)\<rparr>
           in Some (gp_currentValue g', g', gp_save g'))"

text \<open>\<open>op\<close> tells which files of the kernel can be opened.\<close>

definition gp_setCurrentValue ::
  "double \<Rightarrow> double \<Rightarrow> (string \<Rightarrow> bool) \<Rightarrow> string \<Rightarrow> gpio \<Rightarrow> (bool \<times> gpio \<times> effect list) option" where
  "gp_setCurrentValue u1 u2 op value g =
     (case get_and_set_value u1 u2 value g of
        None \<Rightarrow> None
      | Some (v, g', es) \<Rightarrow>
          let out = getpath value g'
          in if \<not> op out then Some (False, g', es)
             else Some (True, g', es @ [WriteChannel out v,
               Publish (gp_name g') (if gpiotype g' = ''pwmout'' then dutyCycle g' else gp_currentValue g')]))"

definition setInitialValue :: "double \<Rightarrow> double \<Rightarrow> (string \<Rightarrow> bool) \<Rightarrow> gpio \<Rightarrow> (gpio \<times> effect list) option" where
  "setInitialValue u1 u2 op g =
     (case gp_setCurrentValue u1 u2 op '''' g of
        None \<Rightarrow> None
      | Some (b, g1, es) \<Rightarrow>
          if mp_get (gp_params g1) ''mode'' = ''OFF''
          then (case gp_setCurrentValue u1 u2 op ''OFF'' g1 of None \<Rightarrow> None | Some (b2, g2, fs) \<Rightarrow> Some (g2, es @ fs))
          else Some (g1, es))"

subsection \<open>The thread of the channels\<close>

record gpio_thread =
  gt_input :: "gpio list"
  gt_output :: "gpio list"
  gt_pwmout :: "gpio list"
  gt_onewire :: "gpio list"
  probe_polling :: "mmessage mqueue"

definition gt_gpio :: "gpio_thread \<Rightarrow> gpio list" where
  "gt_gpio t = gt_input t @ gt_output t @ gt_pwmout t"

fun initialise_all :: "bool list \<Rightarrow> string list \<Rightarrow> gpio list \<Rightarrow> string list \<times> effect list" where
  "initialise_all ds dn [] = (dn, [])"
| "initialise_all ds dn (g # gs) =
     (let (d1, es) = gp_initialise (case ds of [] \<Rightarrow> False | d # _ \<Rightarrow> d) dn g; (d2, fs) = initialise_all (tl ds) d1 gs
      in (d2, es @ fs))"

definition MkExport :: "bool list \<Rightarrow> string list \<Rightarrow> gpio_thread \<Rightarrow> string list \<times> effect list" where
  "MkExport ds dn t =
     (let (d, es) = initialise_all ds dn (gt_gpio t) in (d, es @ concat (map gp_program (gt_gpio t))))"

definition get_current_value :: "string option \<Rightarrow> int" where
  "get_current_value r = (case r of None \<Rightarrow> -1 | Some text \<Rightarrow> atoi text)"

definition chan_line :: "gpio \<Rightarrow> string" where
  "chan_line g = ''<attribute name='' @ quote @ gp_name g @ quote @ '' value='' @ quote @ gpiotype g @ quote @ ''/>''"

definition chan_publish :: "gpio \<Rightarrow> effect" where
  "chan_publish g = (let v = mp_get (gp_params g) ''default_value'' in Publish (gp_name g) (if v = '''' then ''0'' else v))"

definition gpioRegister :: "gpio_thread \<Rightarrow> effect list" where
  "gpioRegister t =
     (let all = gt_gpio t @ gt_onewire t
      in map chan_publish all
         @ [SaveFile (''gpioactive/gpioch.xml'', ''<?xml version='' @ quote @ ''1.0'' @ quote @ ''?><set type='' @ quote @ ''gpioch'' @ quote @ ''>''
              @ concat (map chan_line all) @ ''</set>'' @ newline)])"

definition isDefined :: "string \<Rightarrow> gpio list \<Rightarrow> string" where
  "isDefined sysname ow = (case List.find (\<lambda>g. gpioname g = sysname) ow of Some g \<Rightarrow> gp_name g | None \<Rightarrow> '''')"

text \<open>The inner loop compares the name it may already have given up.\<close>

definition taken_or :: "string \<Rightarrow> gpio list \<Rightarrow> string" where
  "taken_or n ow = fold (\<lambda>g t. if t = gp_name g then '''' else t) ow n"

fun mkName_loop :: "nat list \<Rightarrow> gpio list \<Rightarrow> string" where
  "mkName_loop [] ow = ''''"
| "mkName_loop (i # is) ow =
     (let t = taken_or (''PR'' @ unsigned2a (i + 1)) ow in if t = '''' then mkName_loop is ow else t)"

definition mkName :: "gpio list \<Rightarrow> string" where
  "mkName ow =
     (let t = mkName_loop [0..<length ow] ow in if t = '''' then ''PR'' @ unsigned2a (length ow + 1) else t)"

definition owDefine :: "(string \<Rightarrow> bool) \<Rightarrow> string \<Rightarrow> string \<Rightarrow> string \<Rightarrow> string \<Rightarrow> files \<Rightarrow> (bool \<times> files) option" where
  "owDefine writable conf dir name gname fs =
     (case fs (conf @ ''/templates/OneWire.xml'') of
        None \<Rightarrow> Some (False, fs)
      | Some text \<Rightarrow>
          Option.bind (strReplaceAll (takeWhile (\<lambda>c. c \<noteq> CHR 0x00) text) ''$OWDIR'' dir) (\<lambda>t1.
          Option.bind (strReplaceAll t1 ''$NAME'' name) (\<lambda>t2.
          Option.bind (strReplaceAll t2 ''$GPIONAME'' gname) (\<lambda>t3.
            let path = conf @ ''/onewire/'' @ name @ ''.xml''
            in if writable path then Some (True, fs(path := Some t3)) else Some (False, fs)))))"

text \<open>The probes the system lists and that no channel describes yet; \<open>par\<close> gives the parameters a
  channel object of the directory \<^verbatim>\<open>onewire\<close> loads.\<close>

fun define_probes :: "(string \<Rightarrow> bool) \<Rightarrow> (files \<Rightarrow> string \<Rightarrow> mparams) \<Rightarrow> double \<Rightarrow> string \<Rightarrow> string \<Rightarrow> string list \<Rightarrow>
   gpio list \<Rightarrow> files \<Rightarrow> (gpio list \<times> files) option" where
  "define_probes writable par u conf dir [] ow fs = Some (ow, fs)"
| "define_probes writable par u conf dir (s # ss) ow fs =
     (if s \<noteq> ''w1_bus_master1'' \<and> isDefined s ow = ''''
      then (case owDefine writable conf dir (mkName ow) s fs of
              None \<Rightarrow> None
            | Some (b, fs') \<Rightarrow> define_probes writable par u conf dir ss (ow @ [gpio_new u (par fs' (mkName ow))]) fs')
      else define_probes writable par u conf dir ss ow fs)"

definition MkOnewire :: "int \<Rightarrow> (string \<Rightarrow> bool) \<Rightarrow> (files \<Rightarrow> string \<Rightarrow> mparams) \<Rightarrow> double \<Rightarrow> string \<Rightarrow> string \<Rightarrow> directory \<Rightarrow>
   directory \<Rightarrow> files \<Rightarrow> (gpio list \<times> files) option" where
  "MkOnewire debug writable par u conf dir owdir sysdir fs =
     (if dir = '''' then Some ([], fs)
      else let ow = map (\<lambda>f. gpio_new u (par fs (getStem f))) (snd (fileList owdir))
           in if debug > 1 then Some (ow, fs) else define_probes writable par u conf dir (snd (fileList sysdir)) ow fs)"

definition owPurge :: "string \<Rightarrow> string list \<Rightarrow> (string, bool) smap \<Rightarrow> gpio list \<Rightarrow> gpio list \<times> effect list" where
  "owPurge conf defined consistent ow =
     (let gone = filter (\<lambda>n. sm_count consistent n = 0) defined
      in (fold (\<lambda>n l. takeWhile (\<lambda>g. gpioname g \<noteq> n) l @ tl (dropWhile (\<lambda>g. gpioname g \<noteq> n) l)) gone ow,
          map (\<lambda>n. Shell (''rm -f '' @ conf @ ''/onewire/'' @ n @ ''.xml'')) gone))"

text \<open>The constructor: \<open>load d\<close> gives the parameters of the channels that the directory \<open>d\<close> lists.\<close>

definition gt_new :: "double \<Rightarrow> bool list \<Rightarrow> (string \<Rightarrow> mparams list) \<Rightarrow> gpio list \<Rightarrow> gpio_thread \<times> effect list" where
  "gt_new u ds load ow =
     (let t = \<lparr>gt_input = map (gpio_new u) (load ''gpioin''), gt_output = map (gpio_new u) (load ''gpioout''),
               gt_pwmout = map (gpio_new u) (load ''pwmout''), gt_onewire = ow, probe_polling = mq_new_max 3\<rparr>
      in (t, snd (MkExport ds [] t) @ gpioRegister t))"

subsubsection \<open>Inputs\<close>

definition read_input :: "gpio \<Rightarrow> string option \<Rightarrow> gpio \<times> effect list" where
  "read_input g r =
     (let v = int2a (get_current_value r) in (g\<lparr>gp_currentValue := v\<rparr>, [Publish (gp_name g) v]))"

definition input_message :: "double \<Rightarrow> string \<Rightarrow> gpio \<Rightarrow> mmessage" where
  "input_message tt v g =
     m_add (m_add (m_add (m_add (m_default\<lparr>mtype := ''local_event'', msubtype := ''update''\<rparr>)
       ''gpio'' (gpioname g)) ''name'' (gp_name g)) ''value'' v) ''time'' (double2a tt)"

definition input_edge :: "double \<Rightarrow> string option \<Rightarrow> gpio \<Rightarrow> gpio \<times> effect list" where
  "input_edge tt r g =
     (let v = int2a (get_current_value r)
      in if gp_wait_until g \<le> tt \<and> v \<noteq> gp_currentValue g
         then (g\<lparr>gp_currentValue := v, gp_wait_until := tt + gp_w g\<rparr>,
               (if gp_wait_until g > 0 then [Notify (input_message tt v g)] else []) @ [Publish (gp_name g) v])
         else (g, []))"

text \<open>One return of \<^verbatim>\<open>poll\<close>: for each input, nothing or the time and the bytes of its file.\<close>

definition gt_poll :: "(double \<times> string option) option list \<Rightarrow> gpio_thread \<Rightarrow> gpio_thread \<times> effect list" where
  "gt_poll rs t =
     (let out = map (\<lambda>(g, r). case r of None \<Rightarrow> (g, []) | Some (tt, b) \<Rightarrow> input_edge tt b g) (zip (gt_input t) rs)
      in (t\<lparr>gt_input := map fst out\<rparr>, concat (map snd out)))"

definition gt_inputs_start :: "string option list \<Rightarrow> gpio_thread \<Rightarrow> gpio_thread \<times> effect list" where
  "gt_inputs_start rs t =
     (let out = map (\<lambda>(g, r). read_input g r) (zip (gt_input t) rs)
      in (t\<lparr>gt_input := map fst out\<rparr>, concat (map snd out)))"

subsubsection \<open>Outputs\<close>

text \<open>The first channel of that name.\<close>

fun write_first :: "double \<Rightarrow> double \<Rightarrow> (string \<Rightarrow> bool) \<Rightarrow> string \<Rightarrow> string \<Rightarrow> gpio list \<Rightarrow> (gpio list \<times> effect list) option" where
  "write_first u1 u2 op n v [] = Some ([], [])"
| "write_first u1 u2 op n v (g # gs) =
     (if n = gp_name g
      then map_option (\<lambda>(b, g', es). (g' # gs, es)) (gp_setCurrentValue u1 u2 op v g)
      else map_option (\<lambda>(gs', es). (g # gs', es)) (write_first u1 u2 op n v gs))"

fun start_each :: "double \<Rightarrow> double \<Rightarrow> (string \<Rightarrow> bool) \<Rightarrow> gpio list \<Rightarrow> (gpio list \<times> effect list) option" where
  "start_each u1 u2 op [] = Some ([], [])"
| "start_each u1 u2 op (g # gs) =
     (case setInitialValue u1 u2 op g of
        None \<Rightarrow> None
      | Some (g', es) \<Rightarrow> map_option (\<lambda>(gs', fs). (g' # gs', es @ fs)) (start_each u1 u2 op gs))"

definition gt_outputs_start :: "double \<Rightarrow> double \<Rightarrow> (string \<Rightarrow> bool) \<Rightarrow> gpio_thread \<Rightarrow> (gpio_thread \<times> effect list) option" where
  "gt_outputs_start u1 u2 op t =
     Option.bind (start_each u1 u2 op (gt_output t)) (\<lambda>(os, es).
       map_option (\<lambda>(ps, fs). (t\<lparr>gt_output := os, gt_pwmout := ps\<rparr>, es @ fs)) (start_each u1 u2 op (gt_pwmout t)))"

definition gt_step :: "double \<Rightarrow> double \<Rightarrow> (string \<Rightarrow> bool) \<Rightarrow> mmessage \<Rightarrow> gpio_thread \<Rightarrow> (gpio_thread \<times> effect list) option" where
  "gt_step u1 u2 op msg t =
     (if mtype msg = ''devcmd''
      then Option.bind (write_first u1 u2 op (msubtype msg) (m_getString msg ''value'') (gt_output t)) (\<lambda>(os, es).
             map_option (\<lambda>(ps, fs). (t\<lparr>gt_output := os, gt_pwmout := ps\<rparr>, es @ fs))
               (write_first u1 u2 op (msubtype msg) (m_getString msg ''value'') (gt_pwmout t)))
      else if mtype msg = ''trigger'' \<and> msubtype msg = ''pollw1''
      then Some (t\<lparr>probe_polling := mq_send priority (probe_polling t) msg\<rparr>, [])
      else Some (t, []))"

subsubsection \<open>Probes\<close>

definition getAsciiValue :: "string \<Rightarrow> string \<Rightarrow> string" where
  "getAsciiValue s kw =
     (case str_find kw s of
        None \<Rightarrow> ''''
      | Some pos \<Rightarrow> takeWhile (\<lambda>c. c \<noteq> CHR 0x0D \<and> c \<noteq> CHR 0x0A \<and> c \<noteq> CHR '' '') (drop (pos + length kw) s))"

definition probes_start :: "gpio list \<Rightarrow> gpio list \<times> effect list" where
  "probes_start ow = (map (\<lambda>g. g\<lparr>gp_currentValue := ''0''\<rparr>) ow, map (\<lambda>g. Publish (gp_name g) ''0'') ow)"

definition probe_message :: "gpio \<Rightarrow> mmessage" where
  "probe_message g =
     m_add (m_add (m_add (m_default\<lparr>mtype := ''local_event'', msubtype := ''update''\<rparr>)
       ''gpio'' (gpioname g)) ''name'' (gp_name g)) ''value'' (gp_currentValue g)"

text \<open>\<open>i\<close> is the next probe, \<open>out\<close> what the command of a probe prints.\<close>

definition probe_step :: "(string \<Rightarrow> string) \<Rightarrow> mmessage \<Rightarrow> nat \<times> gpio list \<Rightarrow> (nat \<times> gpio list) \<times> effect list" where
  "probe_step out msg s =
     (let (i, ow) = s
      in if length ow > 0 \<and> mtype msg = ''trigger'' \<and> msubtype msg = ''pollw1''
         then let k = (if i \<ge> length ow then 0 else i); g = ow ! k;
                  cmd = mp_get_cat (gp_params g) ''poll'' ''script''; value = out cmd
              in if value \<noteq> ''''
                 then let g' = g\<lparr>gp_currentValue := getAsciiValue value (mp_get_cat (gp_params g) ''valuekw'' ''script'')\<rparr>
                      in ((k + 1, ow[k := g']),
                          [Shell cmd, Publish (gp_name g') (gp_currentValue g'), Notify (probe_message g')])
                 else ((k + 1, ow), [Shell cmd])
         else (s, []))"

subsection \<open>Dead time of an input\<close>

fun input_run :: "(double \<times> string option) list \<Rightarrow> gpio \<Rightarrow> gpio \<times> (double \<times> effect list) list" where
  "input_run [] g = (g, [])"
| "input_run ((tt, r) # xs) g =
     (let (g1, es) = input_edge tt r g; (g2, l) = input_run xs g1 in (g2, (tt, es) # l))"

text \<open>The times and values that were announced.\<close>

definition announced :: "(double \<times> effect list) list \<Rightarrow> (double \<times> string) list" where
  "announced l = concat (map (\<lambda>(t, es). map (\<lambda>m. (t, m_getString m ''value'')) (notified es)) l)"

text \<open>Consecutive announcements: at least \<open>w\<close> apart, with different values, the first not before
  \<open>t\<close> and different from \<open>v\<close>.\<close>

fun spaced_changes :: "double \<Rightarrow> double \<Rightarrow> string \<Rightarrow> (double \<times> string) list \<Rightarrow> bool" where
  "spaced_changes w t v [] = True"
| "spaced_changes w t v ((t1, v1) # l) \<longleftrightarrow> t \<le> t1 \<and> v1 \<noteq> v \<and> spaced_changes w (t1 + w) v1 l"

lemma input_message_fields [simp]: "mtype (input_message tt v g) = ''local_event''" "msubtype (input_message tt v g) = ''update''"
  "m_getString (input_message tt v g) ''value'' = v" "m_getString (input_message tt v g) ''name'' = gp_name g"
  by (simp_all add: input_message_def m_default_def m_add_def m_getString_def)

lemma input_edge_fields [simp]: "gp_w (fst (input_edge tt r g)) = gp_w g" "gp_name (fst (input_edge tt r g)) = gp_name g"
  by (simp_all add: input_edge_def Let_def)

lemma announced_Cons: "announced ((t, es) # l) = map (\<lambda>m. (t, m_getString m ''value'')) (notified es) @ announced l"
  by (simp add: announced_def)

lemma input_edge_cases:
  obtains (quiet) "input_edge tt r g = (g, [])"
  | (change) v where "v = int2a (get_current_value r)" "gp_wait_until g \<le> tt" "v \<noteq> gp_currentValue g"
    "fst (input_edge tt r g) = g\<lparr>gp_currentValue := v, gp_wait_until := tt + gp_w g\<rparr>"
    "notified (snd (input_edge tt r g)) = (if gp_wait_until g > 0 then [input_message tt v g] else [])"
  by (cases "gp_wait_until g \<le> tt \<and> int2a (get_current_value r) \<noteq> gp_currentValue g")
    (auto simp: input_edge_def Let_def)

lemma input_run_Cons: "snd (input_run ((tt, r) # xs) g) = (tt, snd (input_edge tt r g)) # snd (input_run xs (fst (input_edge tt r g)))"
  "fst (input_run ((tt, r) # xs) g) = fst (input_run xs (fst (input_edge tt r g)))"
  by (simp_all add: case_prod_beta Let_def)

lemma input_run_armed:
  "0 < gp_w g \<Longrightarrow> 0 < gp_wait_until g \<Longrightarrow>
   spaced_changes (gp_w g) (gp_wait_until g) (gp_currentValue g) (announced (snd (input_run xs g)))"
proof (induction xs arbitrary: g)
  case (Cons x xs)
  obtain tt r where x: "x = (tt, r)" by (rule prod.exhaust)
  show ?case
  proof (cases rule: input_edge_cases [of tt r g])
    case quiet
    with Cons show ?thesis unfolding x input_run_Cons announced_Cons by simp
  next
    case (change v)
    with Cons.prems Cons.IH [of "fst (input_edge tt r g)"] show ?thesis
      unfolding x input_run_Cons announced_Cons by simp
  qed
qed (simp add: announced_def)

lemma spaced_successive:
  "spaced_changes w t v l \<Longrightarrow> successively (\<lambda>(t1, v1) (t2, v2). t1 + w \<le> t2 \<and> v1 \<noteq> v2) l"
proof (induction l arbitrary: t v)
  case (Cons x l)
  then show ?case by (cases x; cases l) auto
qed simp

text \<open>C37: an input does not chatter. Whatever the line does, consecutive announcements of an input are at
  least its dead time apart and have different values.\<close>

theorem input_dead_time:
  assumes "0 < gp_w g" and "0 \<le> gp_wait_until g"
  shows "successively (\<lambda>(t1, v1) (t2, v2). t1 + gp_w g \<le> t2 \<and> v1 \<noteq> v2) (announced (snd (input_run xs g)))"
  using assms
proof (induction xs arbitrary: g)
  case (Cons x xs)
  obtain tt r where x: "x = (tt, r)" by (rule prod.exhaust)
  show ?case
  proof (cases "0 < gp_wait_until g")
    case True
    with Cons.prems(1) show ?thesis by (intro spaced_successive [OF input_run_armed])
  next
    case False
    show ?thesis
    proof (cases rule: input_edge_cases [of tt r g])
      case quiet
      with Cons show ?thesis unfolding x input_run_Cons announced_Cons by simp
    next
      case (change v)
      with False Cons.prems Cons.IH [of "fst (input_edge tt r g)"] show ?thesis
        unfolding x input_run_Cons announced_Cons by simp
    qed
  qed
qed (simp add: announced_def)

definition button :: gpio where
  "button = (gpio_new 0 (mp_add (mp_new ''c'' ''h'' ''b'') ''capename'' ''B1''))\<lparr>gp_currentValue := ''0'', gp_wait_until := 1\<rparr>"

lemma button_fields: "gp_w button = 1" "gp_wait_until button = 1" "gp_currentValue button = ''0''"
  by code_simp+

theorem input_dead_time_witness:
  "0 < gp_w button \<and> announced (snd (input_run [(2, Some ''1''), (2, Some ''0''), (4, Some ''0'')] button)) = [(2, ''1''), (4, ''0'')]
    \<and> successively (\<lambda>(t1, v1) (t2, v2). t1 + gp_w button \<le> t2 \<and> v1 \<noteq> v2)
        (announced (snd (input_run [(2, Some ''1''), (2, Some ''0''), (4, Some ''0'')] button)))"
proof -
  have "get_current_value (Some ''1'') = 1" "get_current_value (Some ''0'') = 0" "int2a 1 = ''1''" "int2a 0 = ''0''" by code_simp+
  then have "announced (snd (input_run [(2, Some ''1''), (2, Some ''0''), (4, Some ''0'')] button)) = [(2, ''1''), (4, ''0'')]"
    by (simp add: input_edge_def Let_def button_fields announced_def)
  with input_dead_time [of button] show ?thesis by (simp add: button_fields)
qed

text \<open>A short pulse leaves an input out of step. When the line returns within the dead time, the
  return is dropped and the channel keeps the value of the pulse, so the next pulse is not announced.\<close>

lemma short_pulse_lost:
  assumes "0 < gp_wait_until g" and "gp_wait_until g \<le> t0" and "t1 < t0 + gp_w g" and "t0 + gp_w g \<le> t2"
    and "int2a (get_current_value hi) \<noteq> gp_currentValue g" and "gp_currentValue g = int2a (get_current_value lo)"
  shows "announced (snd (input_run [(t0, hi), (t1, lo), (t2, hi)] g)) = [(t0, int2a (get_current_value hi))]"
  using assms by (simp add: input_edge_def Let_def announced_Cons announced_def)

subsection \<open>Names of probes\<close>

lemma fold_cleared: "fold (\<lambda>g t. if t = gp_name g then '''' else t) ow '''' = ''''"
  by (induction ow) auto

lemma taken_or_eq: "n \<noteq> '''' \<Longrightarrow> taken_or n ow = (if n \<in> gp_name ` set ow then '''' else n)"
  unfolding taken_or_def by (induction ow) (auto simp: fold_cleared)

lemma mkName_loop_cases:
  "(\<exists>i \<in> set is. mkName_loop is ow = ''PR'' @ unsigned2a (i + 1) \<and> mkName_loop is ow \<notin> gp_name ` set ow)
   \<or> mkName_loop is ow = '''' \<and> (\<forall>i \<in> set is. ''PR'' @ unsigned2a (i + 1) \<in> gp_name ` set ow)"
  by (induction "is") (auto simp: taken_or_eq Let_def split: if_splits)

lemma unsigned2a_inj: "unsigned2a m = unsigned2a n \<Longrightarrow> m = n"
  using digits_val_nat2a by (metis unsigned2a_def)

text \<open>A new probe never gets the name of another one, although only as many names are tried as there
  are probes.\<close>

lemma mkName_fresh: "mkName ow \<notin> gp_name ` set ow"
proof (cases "mkName_loop [0..<length ow] ow = ''''")
  case True
  let ?N = "(\<lambda>i. ''PR'' @ unsigned2a (i + 1)) ` {0..<length ow}"
  have "inj_on (\<lambda>i. ''PR'' @ unsigned2a (i + 1)) A" for A by (rule inj_onI) (auto dest: unsigned2a_inj)
  then have card: "card ?N = length ow" by (simp add: card_image)
  have sub: "?N \<subseteq> gp_name ` set ow" using mkName_loop_cases [of "[0..<length ow]" ow] True by auto
  moreover have "card (gp_name ` set ow) \<le> length ow" by (meson card_image_le card_length finite_set le_trans)
  ultimately have "gp_name ` set ow = ?N" using card by (metis card_seteq finite_imageI finite_set)
  moreover have "''PR'' @ unsigned2a (length ow + 1) \<notin> ?N" by (auto dest: unsigned2a_inj)
  ultimately show ?thesis using True by (simp add: mkName_def)
next
  case False
  with mkName_loop_cases [of "[0..<length ow]" ow] show ?thesis by (auto simp: mkName_def Let_def)
qed

subsection \<open>Outputs across a restart\<close>

text \<open>The texts written to the kernel.\<close>

definition written :: "effect list \<Rightarrow> (string \<times> string) list" where
  "written es = concat (map (\<lambda>e. case e of WriteChannel p v \<Rightarrow> [(p, v)] | _ \<Rightarrow> []) es)"

lemma written_simps [simp]: "written (xs @ ys) = written xs @ written ys" "written [] = []"
  "written (WriteChannel p v # es) = (p, v) # written es" "written (SaveFile f # es) = written es" "written (Publish n x # es) = written es"
  by (simp_all add: written_def)

text \<open>The members of a channel agree with its parameters, as they do after construction.\<close>

definition gp_ok :: "gpio \<Rightarrow> bool" where
  "gp_ok g \<longleftrightarrow> (let p = mp_get (gp_params g)
     in gpiotype g = p ''type'' \<and> gpiovalue g = p ''gpiopath'' @ ''/value''
        \<and> gp_currentValue g = (if p ''currentValue'' = '''' then p ''default_value'' else p ''currentValue''))"

lemma gp_ok_new [simp]: "gp_ok (gpio_new u p)"
  by (simp add: gp_ok_def gpio_new_def Let_def)

lemma gpio_new_restart:
  "gp_ok g \<Longrightarrow> gpiotype (gpio_new u (gp_params g)) = gpiotype g \<and> gpiovalue (gpio_new u (gp_params g)) = gpiovalue g
     \<and> gp_currentValue (gpio_new u (gp_params g)) = gp_currentValue g \<and> gp_params (gpio_new u (gp_params g)) = gp_params g"
  by (simp add: gp_ok_def gpio_new_def Let_def)

lemma set_mode_ok: "gp_ok g \<Longrightarrow> v \<noteq> '''' \<Longrightarrow> gp_ok (set_mode v g)"
  by (simp add: gp_ok_def set_mode_def Let_def mp_get_set)

lemma set_mode_get: "v \<noteq> '''' \<Longrightarrow> mp_get (gp_params (set_mode v g)) k = (if fst (mp_set (gp_params g) ''mode'' v) \<and> k = ''mode'' then v else mp_get (gp_params g) k)"
  by (simp add: set_mode_def mp_get_set)

lemma int2a_not_Nil [simp]: "int2a n \<noteq> ''''"
  by (simp add: int2a_def nat2a_not_Nil)

lemma set_level_text_not_Nil: "v \<noteq> '''' \<Longrightarrow> set_level_text v \<noteq> ''''"
  by (simp add: set_level_text_def)

lemma set_level_ok:
  assumes "gp_ok g" and "value \<noteq> ''''" and "set_level u1 u2 value g = Some (v, g', es)"
  shows "gp_ok g' \<and> v = gp_currentValue g' \<and> written es = [] \<and> gpiotype g' = gpiotype g
    \<and> mp_get (gp_params g') ''mode'' = mp_get (gp_params g) ''mode'' \<and> mp_get (gp_params g') ''duty'' = mp_get (gp_params g) ''duty''"
  using assms by (auto simp: set_level_def gp_ok_def gp_save_def Let_def mp_get_add split: option.splits)

text \<open>What a command leaves behind: the text for the channel is the current value, except for a dimmer
  that is switched off, whose mode then says so.\<close>

lemma get_and_set_value_ok:
  assumes "gp_ok g" and "value \<noteq> ''''" and "get_and_set_value u1 u2 value g = Some (v, g', es)"
    and "gpiotype g = ''pwmout'' \<and> value \<in> {''OFF'', ''off''} \<Longrightarrow> fst (mp_set (gp_params g) ''mode'' ''OFF'')"
    and "mp_get (gp_params g) ''mode'' = ''OFF'' \<Longrightarrow> gpiotype g = ''pwmout'' \<and> value \<in> {''OFF'', ''off''}"
  shows "gp_ok g' \<and> written es = [] \<and> gpiotype g' = gpiotype g
    \<and> (if mp_get (gp_params g') ''mode'' = ''OFF'' then gpiotype g = ''pwmout'' \<and> v = mp_get (gp_params g') ''default_cycle''
       else v = gp_currentValue g')"
proof (cases "gpiotype g = ''pwmout''")
  case True
  consider "value \<in> {''ON'', ''on''}" | "value \<in> {''OFF'', ''off''}" | "value \<notin> {''ON'', ''on'', ''OFF'', ''off''}" by blast
  then show ?thesis
  proof cases
    case 1
    with assms(1-3,5) True show ?thesis
      by (auto simp: get_and_set_value_def Let_def gp_save_def set_mode_ok set_mode_get) (auto simp: set_mode_def split: if_splits)
  next
    case 2
    with assms(1-4) True show ?thesis
      by (auto simp: get_and_set_value_def Let_def gp_save_def set_mode_ok set_mode_get) (auto simp: set_mode_def)
  next
    case 3
    with assms(1-3,5) True set_level_ok [OF assms(1,2)] show ?thesis by (auto simp: get_and_set_value_def)
  qed
next
  case False
  with assms set_level_text_not_Nil [OF assms(2)] show ?thesis
    by (auto simp: get_and_set_value_def Let_def gp_save_def gp_ok_def mp_get_add)
qed

text \<open>An output survives a restart. The parameters that a command saves are enough: a channel object
  constructed from them and initialised leaves in the kernel what the command had written.\<close>

lemma output_survives_restart:
  assumes "gp_ok g" and "value \<noteq> ''''" and "gp_setCurrentValue u1 u2 op value g = Some (True, g', es)"
    and "gpiotype g = ''pwmout'' \<and> value \<in> {''OFF'', ''off''} \<Longrightarrow> fst (mp_set (gp_params g) ''mode'' ''OFF'')"
    and "mp_get (gp_params g) ''mode'' = ''OFF'' \<Longrightarrow> gpiotype g = ''pwmout'' \<and> value \<in> {''OFF'', ''off''}"
  shows "\<exists>g2 fs. setInitialValue u1' u2' op (gpio_new u (gp_params g')) = Some (g2, fs) \<and> last (written fs) = last (written es) \<and> written fs \<noteq> []"
proof -
  from assms(3) obtain v es1 where v: "get_and_set_value u1 u2 value g = Some (v, g', es1)"
    and op: "op (getpath value g')" and es: "written es = written es1 @ [(getpath value g', v)]"
    by (auto simp: gp_setCurrentValue_def Let_def split: option.splits if_splits)
  note k = get_and_set_value_ok [OF assms(1,2) v assms(4,5)]
  let ?r = "gpio_new u (gp_params g')"
  have r: "gpiotype ?r = gpiotype g'" "gpiovalue ?r = gpiovalue g'" "gp_currentValue ?r = gp_currentValue g'" "gp_params ?r = gp_params g'"
    using gpio_new_restart k by auto
  have path: "getpath x ?r = getpath value g'" for x unfolding getpath_def r by simp
  let ?off = "set_mode ''OFF'' ?r"
  have off: "getpath x ?off = getpath value g'" "mp_get (gp_params ?off) ''default_cycle'' = mp_get (gp_params g') ''default_cycle''" for x
    using r by (simp_all add: getpath_def set_mode_get) (simp_all add: set_mode_def)
  show ?thesis
  proof (cases "mp_get (gp_params g') ''mode'' = ''OFF''")
    case True
    with k op r path off es show ?thesis
      by (auto simp: setInitialValue_def gp_setCurrentValue_def get_and_set_value_def Let_def gp_save_def)
  next
    case False
    with k op r path es show ?thesis by (auto simp: setInitialValue_def gp_setCurrentValue_def get_and_set_value_def Let_def)
  qed
qed

definition relay_params :: mparams where
  "relay_params = mp_add (mp_add (mp_add (mp_new ''c'' ''h'' ''r'') ''capename'' ''o1'') ''type'' ''booleanout'') ''gpiopath'' ''/g1''"

subsection \<open>Dimmers\<close>

text \<open>C39: the cycle of a dimmer. A level between 0 and 100 writes an integer between 0 and the cycle of the
  channel, 0 writes the whole cycle, 100 writes zero, and a higher level never writes a greater number.\<close>

theorem dimmer_cycle:
  assumes "a2double u2 (mp_get (gp_params g) ''default_cycle'') = of_int c" and "0 \<le> c" and "c < 2 ^ 31"
    and "0 \<le> a2double u1 x" and "a2double u1 x \<le> a2double u1 y" and "a2double u1 y \<le> 100"
  shows "\<exists>m n g' g'' es fs. set_level u1 u2 x g = Some (int2a m, g', es) \<and> set_level u1 u2 y g = Some (int2a n, g'', fs)
    \<and> 0 \<le> n \<and> n \<le> m \<and> m \<le> c \<and> (a2double u1 x = 0 \<longrightarrow> m = c) \<and> (a2double u1 y = 100 \<longrightarrow> n = 0)"
proof -
  define f where "f z = trunc (of_int c * (1 - z / 100))" for z :: double
  have b: "0 \<le> f z \<and> f z \<le> c" if "0 \<le> z" "z \<le> 100" for z
  proof -
    have "0 \<le> of_int c * (1 - z / 100)" using assms(2) that by (intro mult_nonneg_nonneg) simp_all
    moreover have "of_int c * (1 - z / 100) \<le> of_int c * 1" using assms(2) that by (intro mult_left_mono) simp_all
    ultimately show ?thesis unfolding f_def by (simp add: trunc_def floor_le_iff)
  qed
  have "of_int c * (1 - a2double u1 y / 100) \<le> of_int c * (1 - a2double u1 x / 100)"
    using assms(2,5) by (intro mult_left_mono) simp_all
  then have mono: "f (a2double u1 y) \<le> f (a2double u1 x)" unfolding f_def by (rule trunc_mono)
  have ends: "f 0 = c" "f 100 = 0" unfolding f_def by (simp_all add: trunc_def assms(2))
  have "to_int (of_int c * (1 - z / 100)) = Some (f z)" if "0 \<le> z" "z \<le> 100" for z
    using b [OF that] assms(3) unfolding to_int_def f_def [symmetric] by simp
  then have lv: "\<exists>g' es. set_level u1 u2 z g = Some (int2a (f (a2double u1 z)), g', es)" if "0 \<le> a2double u1 z" "a2double u1 z \<le> 100" for z
    using that assms(1) by (simp add: set_level_def Let_def)
  have xy: "a2double u1 x \<le> 100" "0 \<le> a2double u1 y" using assms(4-6) by linarith+
  obtain g' es where "set_level u1 u2 x g = Some (int2a (f (a2double u1 x)), g', es)" using lv [OF assms(4) xy(1)] by blast
  moreover obtain g'' fs where "set_level u1 u2 y g = Some (int2a (f (a2double u1 y)), g'', fs)" using lv [OF xy(2) assms(6)] by blast
  moreover have "0 \<le> f (a2double u1 y)" "f (a2double u1 x) \<le> c" using b [OF xy(2) assms(6)] b [OF assms(4) xy(1)] by simp_all
  moreover have "a2double u1 x = 0 \<longrightarrow> f (a2double u1 x) = c" "a2double u1 y = 100 \<longrightarrow> f (a2double u1 y) = 0" using ends by simp_all
  ultimately show ?thesis using mono by blast
qed

theorem dimmer_cycle_witness:
  "\<exists>m n g' g'' es fs. set_level 0 0 ''2'' (gpio_new 0 (mp_add relay_params ''default_cycle'' ''9'')) = Some (int2a m, g', es)
    \<and> set_level 0 0 ''5'' (gpio_new 0 (mp_add relay_params ''default_cycle'' ''9'')) = Some (int2a n, g'', fs) \<and> 0 \<le> n \<and> n \<le> m \<and> m \<le> 9"
proof -
  have c: "a2double 0 (mp_get (gp_params (gpio_new 0 (mp_add relay_params ''default_cycle'' ''9''))) ''default_cycle'') = of_int 9" by code_simp
  have "a2double 0 ''2'' = 2" "a2double 0 ''5'' = 5" by code_simp+
  with dimmer_cycle [OF c, of 0 "''2''" "''5''"] show ?thesis by auto
qed

subsection \<open>Probes in turn\<close>

definition poll_message :: "mmessage \<Rightarrow> bool" where
  "poll_message m \<longleftrightarrow> mtype m = ''trigger'' \<and> msubtype m = ''pollw1''"

fun probe_run :: "((string \<Rightarrow> string) \<times> mmessage) list \<Rightarrow> nat \<times> gpio list \<Rightarrow> effect list list" where
  "probe_run [] s = []"
| "probe_run ((out, m) # xs) s = (let (s', es) = probe_step out m s in es # probe_run xs s')"

definition probe_cmd :: "gpio \<Rightarrow> string" where
  "probe_cmd g = mp_get_cat (gp_params g) ''poll'' ''script''"

lemma probe_step_poll:
  assumes "poll_message m" and "0 < length ow" and "i \<le> length ow" and "probe_step out m (i, ow) = ((j, ow'), es)"
  shows "j = i mod length ow + 1" and "length ow' = length ow" and "map probe_cmd ow' = map probe_cmd ow"
    and "\<exists>fs. es = Shell (probe_cmd (ow ! (i mod length ow))) # fs \<and> (\<forall>e \<in> set fs. \<forall>c. e \<noteq> Shell c)"
proof -
  let ?k = "i mod length ow"
  have k: "(if i \<ge> length ow then 0 else i) = ?k" using assms(2,3) by (auto simp: le_less)
  have lt: "?k < length ow" using assms(2) by simp
  show "j = ?k + 1" "length ow' = length ow"
    using assms(1,2,4) unfolding probe_step_def poll_message_def prod.case k Let_def by (auto split: if_splits)
  have upd: "map probe_cmd (ow[?k := (ow ! ?k)\<lparr>gp_currentValue := x\<rparr>]) = map probe_cmd ow" for x
    using lt by (simp add: map_update probe_cmd_def list_update_same_conv)
  show "map probe_cmd ow' = map probe_cmd ow"
    using assms(1,2,4) upd unfolding probe_step_def poll_message_def prod.case k Let_def by (auto split: if_splits)
  show "\<exists>fs. es = Shell (probe_cmd (ow ! ?k)) # fs \<and> (\<forall>e \<in> set fs. \<forall>c. e \<noteq> Shell c)"
    using assms(1,2,4) unfolding probe_step_def poll_message_def prod.case k Let_def probe_cmd_def by (auto split: if_splits)
qed

text \<open>Every probe gets its turn. Whatever the probes answer, the \<open>k\<close>-th poll runs exactly one command,
  that of the probe \<open>k\<close> places further, so that among as many polls as there are probes each is read once.\<close>

lemma probes_in_turn:
  assumes "0 < length ow" and "i \<le> length ow" and "\<forall>(out, m) \<in> set xs. poll_message m" and "k < length xs"
  shows "[c. Shell c \<leftarrow> probe_run xs (i, ow) ! k] = [probe_cmd (ow ! ((i + k) mod length ow))]"
  using assms
proof (induction xs arbitrary: i ow k)
  case (Cons x xs)
  obtain out m where x: "x = (out, m)" by (rule prod.exhaust)
  obtain j ow' es where s: "probe_step out m (i, ow) = ((j, ow'), es)" by (metis prod.exhaust)
  have m: "poll_message m" using Cons.prems(3) by (simp add: x)
  note st = probe_step_poll [OF m Cons.prems(1,2) s]
  show ?case
  proof (cases k)
    case 0
    from st(4) obtain fs where fs: "es = Shell (probe_cmd (ow ! (i mod length ow))) # fs" "\<forall>e \<in> set fs. \<forall>c. e \<noteq> Shell c" by blast
    have "concat (map (\<lambda>e. case e of Shell c \<Rightarrow> [c] | _ \<Rightarrow> []) fs) = []" using fs(2) by (auto split: effect.splits)
    with 0 fs(1) s show ?thesis by (simp add: x)
  next
    case (Suc k')
    have j: "j \<le> length ow'" using st(1,2) Cons.prems(1) by (simp add: Suc_leI)
    have "(j + k') mod length ow' = (i + k) mod length ow" unfolding st(1,2) Suc
      using mod_add_left_eq [of i "length ow" "Suc k'"] by simp
    moreover have "probe_cmd (ow' ! ((i + k) mod length ow)) = probe_cmd (ow ! ((i + k) mod length ow))"
      using arg_cong [OF st(3), of "\<lambda>l. l ! ((i + k) mod length ow)"] st(2) Cons.prems(1) by simp
    ultimately show ?thesis
      using Cons.IH [of ow' j k'] Cons.prems j st(2) s Suc by (simp add: x)
  qed
qed simp

end
