(* ===== verification/Agent_Conf.thy ===== *)
theory Agent_Conf
  imports Subject_Bus Effects File_Store Hsrv
begin

text \<open>
  The requests an agent answers over HTTP: \<^verbatim>\<open>AgentConf\<close> of
  \<^verbatim>\<open>src/agents/minilibs/agentlib.cpp\<close>, with its status (\<^verbatim>\<open>ON\<close> is 1, \<^verbatim>\<open>OFF\<close> 0),
  the pages it serves, the files it uploads and deletes and its lock. Paths are compared as
  texts; the sockets are not part of the model: a request is a message, the answer a message.
  \<open>writable\<close> tells whether a file can be opened for writing and \<open>can\<close> whether a
  directory can be made; a call to \<^verbatim>\<open>exit\<close> and a read outside a string are \<open>None\<close>.
\<close>

record agent_conf =
  conf_status :: int
  urlindex :: "(string, mmessage) smap"
  currentday :: string
  conf_files :: files

subsection \<open>Status and pages\<close>

definition conf_getStatus :: "int \<Rightarrow> string \<Rightarrow> mmessage" where
  "conf_getStatus st url =
     m_add_int (m_add (m_type ''answer'') ''language'' (if str_contains url ''.xml'' then ''xml'' else ''html''))
       ''status'' st"

definition conf_getIAA :: mmessage where
  "conf_getIAA = m_add (m_type ''answer'') ''body'' ''IAA''"

definition status_pages :: "int \<Rightarrow> (string, mmessage) smap \<Rightarrow> (string, mmessage) smap" where
  "status_pages st idx =
     sm_put ''/status.xml'' (conf_getStatus st ''status.xml'') (sm_put ''/status'' (conf_getStatus st ''status'') idx)"

definition conf_new :: "string \<Rightarrow> agent_conf \<Rightarrow> agent_conf" where
  "conf_new day ac =
     ac\<lparr>currentday := day, conf_status := 0,
        urlindex := sm_put ''/AYA'' conf_getIAA (status_pages 0 (urlindex ac))\<rparr>"

definition conf_isNewDay :: "string \<Rightarrow> agent_conf \<Rightarrow> bool" where
  "conf_isNewDay today ac \<longleftrightarrow> currentday ac \<noteq> today"

definition conf_saveCurrent :: "string \<Rightarrow> string \<Rightarrow> string \<Rightarrow> files \<Rightarrow> files" where
  "conf_saveCurrent homedir file content fs = saveFile (homedir @ ''/'' @ file) content fs"

definition conf_setStatus :: "string \<Rightarrow> int \<Rightarrow> agent_conf \<Rightarrow> agent_conf" where
  "conf_setStatus homedir st ac =
     ac\<lparr>conf_status := st,
        conf_files := conf_saveCurrent homedir ''CURRENTSTATUS'' (if st = 1 then ''ON'' else ''OFF'') (conf_files ac),
        urlindex := status_pages st (urlindex ac)\<rparr>"

definition conf_loadStatus :: "string \<Rightarrow> agent_conf \<Rightarrow> agent_conf" where
  "conf_loadStatus homedir ac =
     (let path = homedir @ ''/CURRENTSTATUS''
      in case conf_files ac path of
           Some t \<Rightarrow>
             let st = (if first_word t = ''ON'' then 1 else 0)
             in ac\<lparr>conf_status := st, urlindex := status_pages st (urlindex ac)\<rparr>
         | None \<Rightarrow>
             ac\<lparr>conf_status := 1,
                conf_files := conf_saveCurrent homedir ''CURRENTSTATUS'' ''ON'' (conf_files ac),
                urlindex := status_pages 1 (urlindex ac)\<rparr>)"

definition conf_mkUnknownM :: "mmessage \<Rightarrow> mmessage" where
  "conf_mkUnknownM m =
     (let r = m_getString m ''language''; md = m_getString m ''method'';
          err = (if md = ''get'' \<or> md = ''GET'' \<or> md = ''post'' \<or> md = ''POST'' then ''method'' else ''url'')
      in if r = ''xml'' then m_add (m_add (m_type ''answer'') ''language'' r) err ''unknown''
         else m_add (m_add (m_type ''answer'') ''language'' ''html'') ''body'' ''unknown'')"

text \<open>The home page is read word by word; after white space at the end of the file the last
  extraction fails and the buffer is written once more.\<close>

function page_words :: "string \<Rightarrow> string \<Rightarrow> string" where
  "page_words b s =
     (let s1 = dropWhile is_space s; w = takeWhile (\<lambda>c. \<not> is_space c) s1;
          rest = dropWhile (\<lambda>c. \<not> is_space c) s1
      in if s1 = [] then b @ '' ''
         else if rest = [] then w @ '' ''
         else w @ '' '' @ page_words w rest)"
  by pat_completeness auto
termination
  by (relation "measure (\<lambda>(b, s). length s)") (auto intro: next_word_shorter)

declare page_words.simps [simp del]

definition conf_mkHomePage :: "string \<Rightarrow> files \<Rightarrow> mmessage" where
  "conf_mkHomePage configdir fs =
     (let page = (case fs (configdir @ ''/index.html'') of None \<Rightarrow> '''' | Some t \<Rightarrow> page_words '''' t);
          body = (if length page < 2 then page @ ''Not available'' else page)
      in m_add (m_add (m_type ''answer'') ''language'' ''html'') ''body'' body)"

definition conf_mkIndexPage :: "string \<Rightarrow> (string, mmessage) smap \<Rightarrow> mmessage" where
  "conf_mkIndexPage url idx =
     (let page = fold (\<lambda>(k, v) page. m_add page k ''ON'') idx (m_type ''index'')
      in m_add page ''language'' (if url = ''/index.xml'' then ''xml'' else ''html''))"

definition conf_getPage :: "mmessage \<Rightarrow> agent_conf \<Rightarrow> mmessage" where
  "conf_getPage m ac =
     (let url = m_getString m ''url''
      in if url = ''/index'' \<or> url = ''/index.xml'' \<or> url = ''/index.html'' \<or> url = ''/index.htm''
         then conf_mkIndexPage url (urlindex ac)
         else case sm_find (urlindex ac) url of
                Some page \<Rightarrow> page
              | None \<Rightarrow> conf_mkUnknownM m)"

definition conf_pageRegister :: "string \<Rightarrow> mmessage \<Rightarrow> agent_conf \<Rightarrow> agent_conf" where
  "conf_pageRegister url m ac = ac\<lparr>urlindex := sm_put url m (urlindex ac)\<rparr>"

definition conf_getExecM :: "string \<Rightarrow> mmessage \<Rightarrow> agent_conf \<Rightarrow> mmessage" where
  "conf_getExecM configdir m ac =
     (if m_getString m ''url'' = ''/'' then conf_mkHomePage configdir (conf_files ac) else conf_getPage m ac)"

subsection \<open>Files\<close>

definition conf_mklock :: "string \<Rightarrow> int \<Rightarrow> files \<Rightarrow> int \<times> files" where
  "conf_mklock homedir pid fs =
     (let p = homedir @ ''/.lock''
      in if isFile p fs then (-1, fs) else (0, saveFile p (int2a pid) fs))"

text \<open>The answer of \<^verbatim>\<open>getlockvalue\<close> when the file cannot be opened is a local that was
  never written, \<open>junk\<close>.\<close>

definition conf_getlockvalue :: "string \<Rightarrow> int \<Rightarrow> files \<Rightarrow> int" where
  "conf_getlockvalue homedir junk fs = (if isFile (homedir @ ''/.lock'') fs then 0 else junk)"

fun upload_text :: "bool \<Rightarrow> string \<Rightarrow> string" where
  "upload_text flag [] = []"
| "upload_text flag (c # cs) =
     (let flag1 = (flag \<or> c = CHR '']'')
      in if c = CHR 0x5C
         then newline @ (if flag1 then ''   '' @ upload_text False cs else upload_text flag1 cs)
         else c # upload_text flag1 cs)"

definition upload_path :: "string \<Rightarrow> string \<Rightarrow> string" where
  "upload_path ty name = ''./'' @ ty @ ''/'' @ name"

definition conf_saveFile ::
  "(string \<Rightarrow> bool) \<Rightarrow> string \<Rightarrow> string \<Rightarrow> string \<Rightarrow> bool \<Rightarrow> files \<Rightarrow> bool \<times> files" where
  "conf_saveFile writable ty name body raw fs =
     (let path = upload_path ty name
      in if \<not> writable path then (False, fs)
         else (True, fs(path := Some (if raw then body else upload_text False body))))"

definition conf_deleteFile :: "string \<Rightarrow> string \<Rightarrow> files \<Rightarrow> bool \<times> files" where
  "conf_deleteFile ty name fs =
     (let path = upload_path ty name
      in if isFile path fs then (True, fs(path := None)) else (False, fs))"

definition matchextension :: "string \<Rightarrow> string \<Rightarrow> bool" where
  "matchextension fname ext =
     (if length fname \<le> length ext then False
      else if ext = '''' then fname \<noteq> ''.'' \<and> fname \<noteq> ''..''
      else drop (length fname - length ext) fname = ext)"

definition getdirlist :: "(string list) option \<Rightarrow> string \<Rightarrow> (string list) option" where
  "getdirlist dir ext = map_option (filter (\<lambda>n. matchextension n ext)) dir"

definition getFilelist :: "(string list) option \<Rightarrow> string list \<Rightarrow> bool \<times> string list" where
  "getFilelist dir flist =
     (case dir of
        None \<Rightarrow> (False, flist)
      | Some ns \<Rightarrow>
          let l = flist @ filter (\<lambda>n. n \<noteq> ''.'' \<and> n \<noteq> ''..'') ns
          in if l = [] then (False, l) else (True, sort l))"

definition hexCharDecode :: "char \<Rightarrow> nat" where
  "hexCharDecode c =
     (case str_find [c] ''0123456789'' of Some d \<Rightarrow> d | None \<Rightarrow>
      case str_find [c] ''ABCDEF'' of Some d \<Rightarrow> 10 + d | None \<Rightarrow>
      case str_find [c] ''abcdef'' of Some d \<Rightarrow> 10 + d | None \<Rightarrow> 0)"

fun hex_pairs :: "string \<Rightarrow> string" where
  "hex_pairs (a # b # s) = char_of (hexCharDecode a * 16 + hexCharDecode b) # hex_pairs s"
| "hex_pairs _ = []"

text \<open>The bound \<^verbatim>\<open>str.size()-1\<close> of the loop is unsigned: on the empty text it is the
  largest number and the loop leaves the string.\<close>

definition hex2ascii :: "string \<Rightarrow> string option" where
  "hex2ascii str = (if str = '''' then None else Some (hex_pairs str))"

text \<open>\<^verbatim>\<open>FileManager::makeDir\<close> on the list of the directories that exist; with
  \<open>perr\<close> a failure ends the process.\<close>

definition makeDir :: "(string \<Rightarrow> bool) \<Rightarrow> bool \<Rightarrow> string \<Rightarrow> string list \<Rightarrow> (bool \<times> string list) option" where
  "makeDir can perr d ds =
     (if d \<in> set ds then Some (True, ds)
      else if can d then Some (True, ds @ [d])
      else if perr then None
      else Some (False, ds))"

fun make_chain ::
  "(string \<Rightarrow> bool) \<Rightarrow> string \<Rightarrow> string list \<Rightarrow> string list \<Rightarrow> (bool \<times> string list) option" where
  "make_chain can cpath [] ds = Some (True, ds)"
| "make_chain can cpath (p # ps) ds =
     (let q = cpath @ ''/'' @ p
      in case makeDir can True q ds of
           None \<Rightarrow> None
         | Some (ok, ds') \<Rightarrow> if ok then make_chain can q ps ds' else Some (False, ds'))"

fun install_all ::
  "(string \<Rightarrow> bool) \<Rightarrow> string \<Rightarrow> string \<Rightarrow> mattribute list \<Rightarrow> string list \<Rightarrow> (bool \<times> string list) option" where
  "install_all can configdir homedir [] ds = Some (True, ds)"
| "install_all can configdir homedir (a # as) ds =
     (if ma_category a = ''configdir'' \<or> ma_category a = ''homedir''
      then case make_chain can (if ma_category a = ''configdir'' then configdir else homedir)
                  (fst (nl_init [] (ma_value a) (CHR ''/''))) ds of
             None \<Rightarrow> None
           | Some (ok, ds') \<Rightarrow> if ok then install_all can configdir homedir as ds' else Some (False, ds')
      else install_all can configdir homedir as ds)"

text \<open>\<open>global\<close> is the set of parameters loaded from \<^verbatim>\<open>global.xml\<close>.\<close>

definition conf_install ::
  "(string \<Rightarrow> bool) \<Rightarrow> string \<Rightarrow> string \<Rightarrow> mparams \<Rightarrow> string list \<Rightarrow> (bool \<times> string list) option" where
  "conf_install can configdir homedir global ds =
     (case makeDir can True homedir ds of
        None \<Rightarrow> None
      | Some (ok, ds') \<Rightarrow>
          if ok then install_all can configdir homedir (attrs global) ds' else Some (False, ds'))"

subsection \<open>Requests\<close>

definition result_done :: "mmessage \<Rightarrow> mmessage" where
  "result_done answer = m_add answer ''result'' ''done''"

definition error_unknown :: "mmessage \<Rightarrow> mmessage" where
  "error_unknown answer = m_add answer ''error'' ''unknown''"

definition conf_upload ::
  "(string \<Rightarrow> bool) \<Rightarrow> mmessage \<Rightarrow> mmessage \<Rightarrow> agent_conf \<Rightarrow> (mmessage \<times> agent_conf) option" where
  "conf_upload writable m answer ac =
     (let enc = m_getString m ''encoding''; body = m_getString m ''filebody''
      in case (if enc = ''hex'' \<or> enc = ''hexr'' then hex2ascii body
               else strReplaceAll body [CHR 0x27] quote) of
           None \<Rightarrow> None
         | Some text \<Rightarrow>
             let (ok, fs) = conf_saveFile writable (m_getString m ''filetype'') (m_getString m ''filename'')
                              text (enc = ''hexr'') (conf_files ac)
             in Some (if ok then result_done answer else error_unknown answer, ac\<lparr>conf_files := fs\<rparr>))"

definition conf_postExecM ::
  "(string \<Rightarrow> bool) \<Rightarrow> string \<Rightarrow> subjects \<Rightarrow> mmessage \<Rightarrow> agent_conf \<Rightarrow>
     (mmessage \<times> agent_conf \<times> effect list) option" where
  "conf_postExecM writable homedir ss m ac =
     (let ty = mtype m;
          answer = m_add (m_type ''answer'') ''language''
            (if m_getString m ''language'' = ''xml'' then ''xml'' else ''html'')
      in if check_subject ty (msubtype m) ss \<or> check_subject ty ''*'' ss
         then Some (result_done answer, ac, [Notify m])
         else if ty = ''upload''
         then map_option (\<lambda>(a, ac'). (a, ac', [])) (conf_upload writable m answer ac)
         else if ty = ''delete''
         then let (ok, fs) = conf_deleteFile (m_getString m ''filetype'') (m_getString m ''filename'') (conf_files ac)
              in Some (if ok then result_done answer else error_unknown answer, ac\<lparr>conf_files := fs\<rparr>, [])
         else if ty = ''cmd'' \<and> m_getString m ''cmdname'' = ''setstatus''
         then if m_getString m ''status'' = ''ON''
              then Some (result_done answer, conf_setStatus homedir 1 ac, [])
              else if m_getString m ''status'' = ''OFF''
              then Some (result_done answer, conf_setStatus homedir 0 ac, [])
              else Some (error_unknown answer, ac, [])
         else Some (error_unknown answer, ac, []))"

text \<open>One turn of \<^verbatim>\<open>start_server\<close>.\<close>

definition conf_request ::
  "(string \<Rightarrow> bool) \<Rightarrow> string \<Rightarrow> string \<Rightarrow> subjects \<Rightarrow> mmessage \<Rightarrow> agent_conf \<Rightarrow>
     (mmessage \<times> agent_conf \<times> effect list) option" where
  "conf_request writable configdir homedir ss req ac =
     (let md = m_getString req ''method''
      in if md = ''get'' \<or> md = ''GET'' then Some (conf_getExecM configdir req ac, ac, [])
         else if md = ''post'' \<or> md = ''POST'' then conf_postExecM writable homedir ss req ac
         else Some (conf_mkUnknownM req, ac, []))"

subsection \<open>Pages\<close>

lemma m_type_texts [simp]: "m_texts (m_type t)" "mtype (m_type t) = t"
  using m_texts_new [of t "''*''"] by (simp_all add: m_type_def m_new_def)

lemma conf_getStatus_shows: "m_getString (conf_getStatus st url) ''status'' = int2a st"
  by (simp add: conf_getStatus_def m_add_int_def)

lemma status_pages_find:
  "sm_find (status_pages st idx) url =
     (if url = ''/status.xml'' then Some (conf_getStatus st ''status.xml'')
      else if url = ''/status'' then Some (conf_getStatus st ''status'')
      else sm_find idx url)"
  by (simp add: status_pages_def)

lemma index_fold:
  assumes "m_texts page"
  shows "m_texts (fold (\<lambda>(k, v) page. m_add page k ''ON'') idx page)
    \<and> m_getString (fold (\<lambda>(k, v) page. m_add page k ''ON'') idx page) url
        = (if url \<in> fst ` set idx then ''ON'' else m_getString page url)"
  using assms
proof (induction idx arbitrary: page)
  case Nil
  then show ?case by simp
next
  case (Cons p idx)
  obtain k v where p: "p = (k, v)" by (cases p)
  have "m_texts (m_add page k ''ON'')" using Cons.prems by simp
  from Cons.IH [OF this] Cons.prems p show ?case by (cases "url = k") auto
qed

text \<open>The index page names the registered pages and no other.\<close>

lemma index_page_lists:
  assumes "url \<noteq> ''language''"
  shows "m_getString (conf_mkIndexPage u idx) url = (if url \<in> fst ` set idx then ''ON'' else '''')"
proof -
  have "m_getString (m_type ''index'') url = ''''" by (simp add: m_getString_def m_type_def)
  with assms index_fold [of "m_type ''index''" idx url] show ?thesis by (simp add: conf_mkIndexPage_def)
qed

text \<open>A page that was registered is what the agent answers, unless its address is one of the
  four names of the index.\<close>

lemma registered_page_served:
  assumes "m_getString m ''url'' = url" "url \<noteq> ''/''"
    and "url \<notin> {''/index'', ''/index.xml'', ''/index.html'', ''/index.htm''}"
  shows "conf_getExecM configdir m (conf_pageRegister url page ac) = page"
  using assms by (simp add: conf_getExecM_def conf_getPage_def conf_pageRegister_def)

subsection \<open>The status of an agent\<close>

lemma first_word_saved: "first_word (''ON'' @ newline) = ''ON''" "first_word (''OFF'' @ newline) = ''OFF''"
  by (simp_all add: first_word_def newline_def is_space_def)

lemma conf_loadStatus_saved:
  assumes "conf_files ac = conf_files (conf_setStatus homedir st old)"
  shows "conf_loadStatus homedir ac =
    ac\<lparr>conf_status := (if st = 1 then 1 else 0), urlindex := status_pages (if st = 1 then 1 else 0) (urlindex ac)\<rparr>"
  using assms
  by (simp add: conf_loadStatus_def conf_setStatus_def conf_saveCurrent_def saveFile_def
      first_word_saved [simplified] Let_def)

text \<open>The status of an agent survives a restart. Whatever the agent was before, a new process
  that reads the files left by \<open>setStatus\<close> has that status, serves it on both status
  pages, still answers \<^verbatim>\<open>IAA\<close> to \<^verbatim>\<open>/AYA\<close>, and its event bus is silent exactly when the
  status was \<^verbatim>\<open>OFF\<close>.\<close>

lemma status_survives_restart:
  assumes "st = 0 \<or> st = 1"
    and "conf_files fresh = conf_files (conf_setStatus homedir st old)"
    and "ac = conf_loadStatus homedir (conf_new day fresh)"
  shows "conf_status ac = st
    \<and> conf_files ac = conf_files (conf_setStatus homedir st old)
    \<and> (\<forall>page. page = ''/status'' \<or> page = ''/status.xml'' \<longrightarrow>
         (\<exists>p. sm_find (urlindex ac) page = Some p \<and> m_getString p ''status'' = int2a st))
    \<and> sm_find (urlindex ac) ''/AYA'' = Some conf_getIAA
    \<and> (st = 0 \<longrightarrow> ss_notify (conf_status ac) m ss = Some (False, []))"
proof -
  have "conf_files (conf_new day fresh) = conf_files (conf_setStatus homedir st old)"
    using assms(2) by (simp add: conf_new_def)
  from conf_loadStatus_saved [OF this] assms(1) have ac:
    "ac = (conf_new day fresh)\<lparr>conf_status := st, urlindex := status_pages st (urlindex (conf_new day fresh))\<rparr>"
    by (auto simp: assms(3))
  then show ?thesis using assms(2)
    by (auto simp: conf_new_def status_pages_find conf_getStatus_shows ss_notify_def ss_notify_to_def)
qed

text \<open>An agent that declares commands as a subject hands \<^verbatim>\<open>setstatus\<close> to its own threads and
  answers \<^verbatim>\<open>done\<close>: its status does not change.\<close>

lemma setstatus_swallowed:
  assumes "mtype m = ''cmd''" and "check_subject ''cmd'' ''*'' ss"
  shows "\<exists>answer. conf_postExecM writable homedir ss m ac = Some (answer, ac, [Notify m])
    \<and> m_getString answer ''result'' = ''done''"
  using assms by (simp add: conf_postExecM_def Let_def result_done_def)

lemma getlockvalue_useless:
  "conf_getlockvalue homedir junk (snd (conf_mklock homedir pid fs)) = 0"
  by (auto simp: conf_getlockvalue_def conf_mklock_def Let_def saveFile_def isFile_def)

subsection \<open>Uploads\<close>

text \<open>The reference encoder: two hexadecimal digits for each character.\<close>

definition hex_digit :: "nat \<Rightarrow> char" where
  "hex_digit n = ''0123456789ABCDEF'' ! n"

definition hex_text :: "string \<Rightarrow> string" where
  "hex_text t = concat (map (\<lambda>c. [hex_digit (of_char c div 16), hex_digit (of_char c mod 16)]) t)"

lemma hexCharDecode_digit: "n < 16 \<Longrightarrow> hexCharDecode (hex_digit n) = n"
proof -
  have "\<forall>n \<in> set [0..<16]. hexCharDecode (hex_digit n) = n" by code_simp
  then show "n < 16 \<Longrightarrow> hexCharDecode (hex_digit n) = n" by simp
qed

lemma hex_pairs_hex_text: "hex_pairs (hex_text t) = t"
proof (induction t)
  case Nil
  then show ?case by (simp add: hex_text_def)
next
  case (Cons c t)
  have "(of_char c :: nat) < 256" by simp
  then have "(of_char c :: nat) div 16 < 16" by (simp add: less_mult_imp_div_less)
  then have "hexCharDecode (hex_digit (of_char c div 16)) * 16 + hexCharDecode (hex_digit (of_char c mod 16))
      = of_char c"
    by (simp add: hexCharDecode_digit)
  with Cons show ?case by (simp add: hex_text_def)
qed

lemma hex_text_empty [simp]: "hex_text t = '''' \<longleftrightarrow> t = ''''"
  by (cases t) (simp_all add: hex_text_def)

text \<open>An upload in hexadecimal is faithful. For every non-empty text, whatever characters are in
  it, the posted request stores exactly that text under the named path, changes no other file and
  answers \<^verbatim>\<open>done\<close>; a delete request for the same names then takes the file away and leaves the
  other files alone.\<close>

lemma upload_then_delete:
  assumes "mtype up = ''upload''" "m_getString up ''encoding'' = ''hexr''"
    and "m_getString up ''filebody'' = hex_text t" "t \<noteq> ''''"
    and "mtype del = ''delete''"
    and "m_getString up ''filetype'' = ty" "m_getString del ''filetype'' = ty"
    and "m_getString up ''filename'' = n" "m_getString del ''filename'' = n"
    and "writable (upload_path ty n)"
    and "\<forall>k \<in> fst ` set ss. fst k \<noteq> ''upload'' \<and> fst k \<noteq> ''delete''"
  shows "\<exists>a1 a2 ac1 ac2. conf_postExecM writable homedir ss up ac = Some (a1, ac1, [])
    \<and> m_getString a1 ''result'' = ''done''
    \<and> conf_files ac1 = (conf_files ac)(upload_path ty n := Some t)
    \<and> conf_postExecM writable homedir ss del ac1 = Some (a2, ac2, [])
    \<and> m_getString a2 ''result'' = ''done''
    \<and> conf_files ac2 = (conf_files ac)(upload_path ty n := None)
    \<and> conf_status ac2 = conf_status ac \<and> urlindex ac2 = urlindex ac"
proof -
  have ns: "\<not> check_subject ''upload'' sty ss" "\<not> check_subject ''delete'' sty ss" for sty
    using assms(11) by (auto simp: check_subject_def)
  have "hex2ascii (hex_text t) = Some t" using assms(4) by (simp add: hex2ascii_def hex_pairs_hex_text)
  then show ?thesis
    using assms(1-10) ns
    by (simp add: conf_postExecM_def conf_upload_def conf_saveFile_def conf_deleteFile_def isFile_def
        result_done_def Let_def)
qed

end
