(* ===== verification/Agent_Net.thy ===== *)
theory Agent_Net
  imports Agent_Conf
begin

text \<open>
  How the agents of an installation find each other: \<^verbatim>\<open>MRemoteAgent\<close>, \<^verbatim>\<open>ObserverTCP\<close>,
  \<^verbatim>\<open>NetSubjects\<close> and \<^verbatim>\<open>AgentNet\<close> of \<^verbatim>\<open>src/agents/minilibs\<close>. Each agent
  announces itself by multicast every few seconds; an agent that exports something another one
  observes keeps an \<^verbatim>\<open>ObserverTCP\<close> for it, which is an observer of the local event bus and
  posts what it gets to the other agent.

  \<open>me\<close> is \<^verbatim>\<open>hsrv::agentname\<close>, \<open>now\<close> the clock, \<open>parse\<close> the XML library. An
  \<^verbatim>\<open>ObserverTCP\<close> is a pointer, a number taken from a counter, and the object behind it; the
  files \<^verbatim>\<open>observers/name.xml\<close>, written and read by this component alone, hold the parameters
  saved in them. The threads \<^verbatim>\<open>send_status\<close> and \<^verbatim>\<open>recv_status\<close> are modelled turn by
  turn; ciphers and sockets are left out. A null pointer, an iterator at the end and a buffer that
  overflows make an operation \<open>None\<close>.
\<close>

subsection \<open>Remote agents\<close>

record remote_agent =
  ra_name :: string
  ra_post :: string
  ra_host :: string
  ra_useragent :: string
  ra_pragma :: string
  ra_contenttype :: string
  targetip :: string
  targetport :: string
  ra_params :: mparams

definition ra_init :: "string \<Rightarrow> mparams \<Rightarrow> remote_agent" where
  "ra_init n p =
     \<lparr>ra_name = n, ra_post = ''/'', ra_host = ''127.0.0.1'', ra_useragent = ''Mozilla/4.0'',
      ra_pragma = ''no-cache'', ra_contenttype = '' '', targetip = mp_get p ''address'',
      targetport = mp_get p ''port'', ra_params = p\<rparr>"

definition nonempty_or :: "string \<Rightarrow> string \<Rightarrow> string" where
  "nonempty_or tmp old = (if tmp \<noteq> '''' then tmp else old)"

text \<open>\<open>as\<close> are the attributes of the file, or \<open>None\<close> when there is none.\<close>

definition ra_load :: "(mattribute list) option \<Rightarrow> remote_agent \<Rightarrow> remote_agent" where
  "ra_load as ra =
     (let p = (case as of None \<Rightarrow> ra_params ra | Some l \<Rightarrow> (ra_params ra)\<lparr>attrs := l\<rparr>)
      in ra\<lparr>ra_params := p,
            ra_post := nonempty_or (mp_get p ''post'') (ra_post ra),
            ra_useragent := nonempty_or (mp_get p ''useragent'') (ra_useragent ra),
            ra_pragma := nonempty_or (mp_get p ''pragma'') (ra_pragma ra),
            ra_contenttype := nonempty_or (mp_get p ''contenttype'') (ra_contenttype ra),
            targetip := nonempty_or (mp_get p ''address'') (targetip ra),
            targetport := nonempty_or (mp_get p ''port'') (targetport ra)\<rparr>)"

definition ra_messageComplete :: "string \<Rightarrow> remote_agent \<Rightarrow> mmessage \<Rightarrow> mmessage" where
  "ra_messageComplete me ra m =
     (let get = mp_get (ra_params ra);
          m1 = (if get ''language'' \<noteq> '''' then m_add m ''language'' (get ''language'') else m);
          m2 = m_add m1 ''agent'' me;
          m3 = (if mtype m2 = ''cmd'' \<and> m_getString m2 ''cmdname'' = ''cmdexec''
                then let a = m_add m2 ''source'' (get ''relay'');
                         b = (if m_getString a ''value'' = '''' then m_add a ''value'' (get ''command'') else a)
                     in snd (m_remove (m_add b ''duration'' (get ''cmdduration'')) ''comment'')
                else m2)
      in if mtype m3 = ''cmd'' \<and> m_getString m3 ''cmdname'' = ''reset''
         then snd (m_remove (m_add (m_add (m_add (m_add m3 ''source'' (get ''relay''))
                ''cmdname'' ''cmdexec'') ''value'' (get ''reset'')) ''duration'' (get ''resetduration'')) ''comment'')
         else m3)"

text \<open>The text that \<^verbatim>\<open>send\<close> posts, \<open>None\<close> when it posts nothing.\<close>

definition ra_send_text :: "string \<Rightarrow> remote_agent \<Rightarrow> mmessage \<Rightarrow> string option" where
  "ra_send_text me ra m =
     (if ra_name ra = ''none'' \<or> mp_get (ra_params ra) ''status'' = ''OFF'' then None
      else let m' = ra_messageComplete me ra m
           in Some (if mp_get (ra_params ra) ''language'' = ''xml'' then m_xmlEncode 1 m' else m_htmlPostEncode m'))"

definition c_str :: "string \<Rightarrow> string" where
  "c_str s = takeWhile (\<lambda>c. c \<noteq> CHR 0x00) s"

definition crlf :: string where "crlf = [CHR 0x0D, CHR 0x0A]"

definition MAXB :: nat where "MAXB = 65000"

text \<open>The request is printed into an array of \<^verbatim>\<open>MAXB\<close> characters, its terminator included.\<close>

definition ra_request :: "remote_agent \<Rightarrow> string \<Rightarrow> string option" where
  "ra_request ra message =
     (let t = ''POST '' @ c_str (ra_post ra) @ '' HTTP/1.0'' @ crlf @ ''Host: '' @ c_str (ra_host ra) @ crlf
            @ ''User-Agent: '' @ c_str (ra_useragent ra) @ crlf @ ''Pragma: '' @ c_str (ra_pragma ra) @ crlf
            @ ''Content-Length: '' @ unsigned2a (length (c_str message)) @ crlf
            @ ''Content-type: '' @ c_str (ra_contenttype ra) @ crlf @ crlf
            @ c_str message @ crlf @ crlf
      in if length t < MAXB then Some t else None)"

text \<open>\<open>timeout\<close> is the last answer of \<^verbatim>\<open>dataAvailable\<close>, 0 when the connection failed.\<close>

definition ra_sendStringMessage :: "int \<Rightarrow> remote_agent \<Rightarrow> string \<Rightarrow> (int \<times> string) option" where
  "ra_sendStringMessage timeout ra message =
     map_option (\<lambda>req. (if timeout > 0 then 1 else -1, req)) (ra_request ra message)"

definition ra_isAlive :: "int \<Rightarrow> string \<Rightarrow> remote_agent \<Rightarrow> bool" where
  "ra_isAlive timeout answer ra \<longleftrightarrow> ra_name ra \<noteq> ''none'' \<and> timeout > 0 \<and> str_contains (c_str answer) ''IAA''"

definition ra_isTarget :: "string \<Rightarrow> remote_agent \<Rightarrow> bool" where
  "ra_isTarget tg ra \<longleftrightarrow> tg = '''' \<or> tg = ra_name ra \<or> tg = mp_get (ra_params ra) ''target''"

subsection \<open>Observers of the bus for another agent\<close>

record tcp_observer =
  to_obs :: observer
  to_agent :: remote_agent
  to_threads :: nat

definition to_new :: "string \<Rightarrow> string \<Rightarrow> string \<Rightarrow> (mattribute list) option \<Rightarrow> tcp_observer" where
  "to_new configdir homedir name as =
     (let ra = ra_load as (ra_init name (mp_new_dir configdir homedir ''observers/'' name));
          p = ra_params ra
      in \<lparr>to_obs = \<lparr>oid = name, target = fst (nl_init [] (mp_get p ''target'') (CHR ''+'')),
                    input_queue = mq_new, observes = mp_extractCategory p ''observe'', osubjects = []\<rparr>,
          to_agent = ra, to_threads = 0\<rparr>)"

definition to_start :: "observer_ptr \<Rightarrow> tcp_observer \<Rightarrow> subjects \<Rightarrow> tcp_observer \<times> subjects" where
  "to_start self ob ss =
     (ob\<lparr>to_threads := to_threads ob + 1\<rparr>,
      fold (\<lambda>a ss. snd (add_observer (ma_value a) (ma_name a) self ss)) (observes (to_obs ob)) ss)"

definition to_stop :: "tcp_observer \<Rightarrow> tcp_observer" where
  "to_stop ob = ob\<lparr>to_threads := 0\<rparr>"

definition to_notify :: "mmessage \<Rightarrow> tcp_observer \<Rightarrow> tcp_observer" where
  "to_notify m ob =
     (if match_target m (to_obs ob)
      then ob\<lparr>to_obs := (to_obs ob)\<lparr>input_queue := mq_send priority (input_queue (to_obs ob)) m\<rparr>\<rparr> else ob)"

text \<open>One turn of \<^verbatim>\<open>dispatcher\<close>: it waits (\<open>None\<close>) on an empty queue, and drops the message
  it takes while the agent is not \<^verbatim>\<open>ON\<close>. The result is the text to post, if any.\<close>

definition to_dispatch :: "string \<Rightarrow> int \<Rightarrow> tcp_observer \<Rightarrow> (string option \<times> tcp_observer) option" where
  "to_dispatch me status ob =
     map_option (\<lambda>(m, q).
         (if status = 1 then ra_send_text me (to_agent ob) m else None,
          ob\<lparr>to_obs := (to_obs ob)\<lparr>input_queue := q\<rparr>\<rparr>))
       (mq_receive priority (input_queue (to_obs ob)))"

subsection \<open>State\<close>

record agent_info =
  info_msg :: mmessage
  timestamp :: int
  xmlformat :: string

definition info_empty :: agent_info where
  "info_empty = \<lparr>info_msg = m_default, timestamp = 0, xmlformat = ''''\<rparr>"

record agent_net =
  foreign_agents :: "(string, agent_info) smap"
  tcp_observers :: "(string, observer_ptr \<times> tcp_observer) smap"
  next_ptr :: observer_ptr
  observer_files :: "(string, mattribute list) smap"
  net_bus :: subjects
  net_conf :: agent_conf
  importedSubjects :: mparams
  exportedSubjects :: mparams
  mysubjects :: "string list"
  externsubjects :: "string list"
  myinfo :: agent_info
  mport :: string
  mgroup :: string
  private_key :: string
  public_key :: string
  crypt :: string
  net_ports :: "nat list"
  send_agent_info :: bool
  net_debug :: bool
  check_wait :: int
  send_wait :: int
  validityTime :: int
  wsserver_ip :: string
  wsserver_port :: string
  novelty :: int
  last_subject_update :: int

text \<open>The values the static members start with; \<open>boot\<close> is the time the process starts at.\<close>

definition net_static :: "int \<Rightarrow> agent_conf \<Rightarrow> agent_net" where
  "net_static boot conf =
     \<lparr>foreign_agents = [], tcp_observers = [], next_ptr = 0, observer_files = [], net_bus = [], net_conf = conf,
      importedSubjects = mp_default, exportedSubjects = mp_default, mysubjects = [], externsubjects = [],
      myinfo = info_empty, mport = '''', mgroup = '''', private_key = '''', public_key = '''', crypt = '''',
      net_ports = [], send_agent_info = False, net_debug = False, check_wait = 0, send_wait = 0, validityTime = 0,
      wsserver_ip = '''', wsserver_port = '''', novelty = 3, last_subject_update = boot\<rparr>"

abbreviation info_string :: "agent_info \<Rightarrow> string \<Rightarrow> string" where
  "info_string i f \<equiv> m_getString (info_msg i) f"

definition info_add :: "string \<Rightarrow> string \<Rightarrow> agent_info \<Rightarrow> agent_info" where
  "info_add f v i = i\<lparr>info_msg := m_add (info_msg i) f v\<rparr>"

definition info_add_list :: "string \<Rightarrow> string list \<Rightarrow> agent_info \<Rightarrow> agent_info" where
  "info_add_list f v i = i\<lparr>info_msg := snd (m_add_list (info_msg i) f v)\<rparr>"

text \<open>\<open>AgentInfo(a)\<close> decodes the text it is given.\<close>

definition info_of_text :: "(string \<Rightarrow> xnode list) \<Rightarrow> string \<Rightarrow> agent_info option" where
  "info_of_text parse a =
     map_option (\<lambda>(r, m). \<lparr>info_msg = m, timestamp = 0, xmlformat = a\<rparr>) (m_xmlDecode_doc (parse a) m_default)"

subsection \<open>Subjects of the network\<close>

definition accepted_subjects ::
  "string \<Rightarrow> name_list \<Rightarrow> mparams \<Rightarrow> mparams \<Rightarrow> mparams" where
  "accepted_subjects cat accepted subj dest =
     fold (\<lambda>a dest. if ma_category a = cat \<and> nl_member accepted (ma_value a)
                     then mp_add_cat dest (ma_name a) cat (ma_value a) else dest) (attrs subj) dest"

text \<open>\<open>param\<close> is the set of parameters loaded from the file \<open>initSubjects\<close> is given.\<close>

definition initSubjects :: "mparams \<Rightarrow> mparams \<Rightarrow> string \<Rightarrow> agent_net \<Rightarrow> agent_net" where
  "initSubjects param subj ty net =
     (if ty = ''import''
      then net\<lparr>importedSubjects := accepted_subjects ''observe''
             (fst (nl_init [] (mp_get_cat param ''import'' ''netsubjects'') (CHR ''+''))) subj (importedSubjects net)\<rparr>
      else net\<lparr>exportedSubjects := accepted_subjects ''subject''
             (fst (nl_init [] (mp_get_cat param ''export'' ''netsubjects'') (CHR ''+''))) subj (exportedSubjects net)\<rparr>)"

definition dotted :: "mattribute \<Rightarrow> string" where
  "dotted a = ma_name a @ ''.'' @ ma_value a"

definition net_split :: "string \<Rightarrow> string \<times> string" where
  "net_split source =
     (let subty = takeWhile (\<lambda>c. c \<noteq> CHR ''.'') source
      in (drop (length subty + 1) source, subty))"

definition add_dotted :: "string \<Rightarrow> subjects \<Rightarrow> subjects" where
  "add_dotted s ss = (let (ty, subty) = net_split s in add_subject ty subty ss)"

definition addSubjects :: "agent_net \<Rightarrow> agent_net" where
  "addSubjects net =
     net\<lparr>net_bus := fold add_dotted (externsubjects net) (fold add_dotted (mysubjects net) (net_bus net))\<rparr>"

definition isIn :: "string list \<Rightarrow> string \<Rightarrow> bool" where
  "isIn v s \<longleftrightarrow> s \<in> set v"

definition isStar :: "string \<Rightarrow> bool" where
  "isStar subj \<longleftrightarrow> str_contains subj ''*''"

text \<open>\<^verbatim>\<open>s.substr(0, s.find("."))\<close> and \<^verbatim>\<open>s.substr(s.find(".")+1)\<close>; without a
  point both are the whole text.\<close>

definition before_dot :: "string \<Rightarrow> string" where
  "before_dot s = (case str_find ''.'' s of Some i \<Rightarrow> take i s | None \<Rightarrow> s)"

definition after_dot :: "string \<Rightarrow> string" where
  "after_dot s = (case str_find ''.'' s of Some i \<Rightarrow> drop (i + 1) s | None \<Rightarrow> s)"

definition ev_matches :: "string \<Rightarrow> string \<Rightarrow> bool" where
  "ev_matches mys e \<longleftrightarrow> mys = e \<or>
     ((isStar (before_dot mys) \<or> isStar (before_dot e)) \<and> after_dot e = after_dot mys)"

definition evFilter :: "string list \<Rightarrow> string list \<Rightarrow> bool \<times> string list" where
  "evFilter mys ev =
     (let tev = concat (map (\<lambda>e. map (\<lambda>_. e) (filter (\<lambda>s. ev_matches s e) mys)) ev)
      in (tev \<noteq> [], tev))"

definition net_MakePage :: "agent_net \<Rightarrow> agent_net" where
  "net_MakePage net =
     (let p = fold (\<lambda>s p. m_add p s ''imported'') (externsubjects net)
                (fold (\<lambda>s p. m_add p s ''exported'') (mysubjects net) (m_type ''subjects''));
          px = m_add p ''language'' ''xml'';
          ph = m_add px ''language'' ''html''
      in net\<lparr>net_conf := conf_pageRegister ''/subjects'' ph (conf_pageRegister ''/subjects.xml'' px (net_conf net))\<rparr>)"

definition SubjectDateUpdate :: "int \<Rightarrow> agent_net \<Rightarrow> agent_net" where
  "SubjectDateUpdate now net = net\<lparr>last_subject_update := now\<rparr>"

subsection \<open>The agent itself\<close>

text \<open>The list of the interfaces, each with its IPv4 address if it has one; \<open>None\<close> is a
  failure of \<^verbatim>\<open>getifaddrs\<close>. \<^verbatim>\<open>strncmp\<close> compares the terminator too.\<close>

fun ip_of :: "string \<Rightarrow> (string \<times> string option) list \<Rightarrow> string option" where
  "ip_of nm [] = None"
| "ip_of nm ((n, a) # ifs) = (case a of Some ip \<Rightarrow> if n = nm then Some ip else ip_of nm ifs | None \<Rightarrow> ip_of nm ifs)"

definition retrieve_my_ip :: "((string \<times> string option) list) option \<Rightarrow> string" where
  "retrieve_my_ip ifs =
     (case ifs of
        None \<Rightarrow> ''127.0.0.1''
      | Some l \<Rightarrow>
          case ip_of ''eth0'' l of Some ip \<Rightarrow> ip | None \<Rightarrow>
          case ip_of ''eth1'' l of Some ip \<Rightarrow> ip | None \<Rightarrow>
          case ip_of ''wlan0'' l of Some ip \<Rightarrow> ip | None \<Rightarrow> ''127.0.0.1'')"

definition retrieveInfo :: "string \<Rightarrow> string \<Rightarrow> string \<Rightarrow> string list \<Rightarrow> agent_info" where
  "retrieveInfo me ip port events =
     (let i = info_add_list ''observe'' events (info_add ''port'' port (info_add ''ip'' ip
                (info_add ''agentname'' me info_empty)))
      in info_add ''status'' ''active'' (i\<lparr>xmlformat := m_xmlEncode 1 (info_msg i)\<rparr>))"

definition net_retrieveInfo :: "string \<Rightarrow> string \<Rightarrow> string \<Rightarrow> string \<Rightarrow> agent_net \<Rightarrow> agent_net" where
  "net_retrieveInfo homedir me ip port net =
     net\<lparr>myinfo := retrieveInfo me ip port (externsubjects net),
         net_conf := conf_setStatus homedir 1 (net_conf net)\<rparr>"

definition time_or :: "int \<Rightarrow> string \<Rightarrow> int \<Rightarrow> int" where
  "time_or u tmp old = (if tmp \<noteq> '''' then a2int u tmp else old)"

text \<open>\<open>netpar\<close> and \<open>multicast\<close> are the parameters loaded from their files (\<open>multicast\<close>
  empty when its file is missing), \<open>u\<close> what a failed conversion leaves.\<close>

definition net_init_base :: "string \<Rightarrow> string \<Rightarrow> mparams \<Rightarrow> mparams \<Rightarrow> agent_net \<Rightarrow> agent_net" where
  "net_init_base me configdir netpar multicast net =
     (let yes = (mp_get netpar ''send_agent_info'' = ''YES'' \<or> mp_get netpar ''send_agent_info'' = ''yes'');
          ex = (if yes then mp_add_cat (exportedSubjects net) ''agent_info'' ''subject'' ''net'' else exportedSubjects net)
      in net\<lparr>check_wait := 30, send_wait := 10, validityTime := 180, net_debug := False,
             mport := (if mp_get multicast ''mport'' \<noteq> '''' then mp_get multicast ''mport'' else ''54321''),
             mgroup := (if mp_get multicast ''mgroup'' \<noteq> '''' then mp_get multicast ''mgroup'' else ''226.0.0.2''),
             private_key := configdir @ ''/'' @ mp_get_cat netpar ''private_key'' ''generic'',
             public_key := configdir @ ''/'' @ mp_get_cat netpar ''public_key'' ''generic'',
             crypt := mp_get_cat netpar ''crypt'' ''mode'',
             send_agent_info := (send_agent_info net \<or> yes),
             exportedSubjects := ex,
             mysubjects := mysubjects net @ map dotted (mp_extractCategory netpar ''subject'') @ map dotted (attrs ex),
             externsubjects := externsubjects net @ map dotted (mp_extractCategory netpar ''observe'')
               @ map dotted (attrs (importedSubjects net))\<rparr>)"

definition net_init ::
  "nat \<Rightarrow> int \<Rightarrow> string \<Rightarrow> string \<Rightarrow> string \<Rightarrow> string \<Rightarrow> mparams \<Rightarrow> mparams \<Rightarrow> agent_net \<Rightarrow> agent_net" where
  "net_init v u me configdir homedir ip netpar multicast net =
     (let n1 = net_MakePage (net_init_base me configdir netpar multicast net);
          n2 = n1\<lparr>net_ports := net_ports n1 @ map (\<lambda>a. a2unsigned v (ma_value a))
                    (filter (\<lambda>a. ma_name a \<noteq> me) (mp_extractCategory netpar ''port''))\<rparr>;
          n3 = net_retrieveInfo homedir me ip (mp_get netpar ''port'') n2
      in addSubjects (n3\<lparr>
           send_wait := time_or u (mp_get_cat netpar ''send_period'' ''time'') (send_wait n3),
           check_wait := time_or u (mp_get_cat netpar ''check_period'' ''time'') (check_wait n3),
           validityTime := time_or u (mp_get_cat netpar ''validity_time'' ''time'') (validityTime n3),
           net_debug := (net_debug n3 \<or> mp_get_cat netpar ''debug'' ''mode'' = ''ON'')\<rparr>))"

text \<open>A subject that was not announced yet is declared on the bus.\<close>

fun update_names ::
  "mattribute list \<Rightarrow> string list \<Rightarrow> subjects \<Rightarrow> string list \<times> subjects" where
  "update_names [] v ss = (v, ss)"
| "update_names (a # as) v ss =
     (if isIn v (dotted a) then update_names as v ss
      else update_names as (v @ [dotted a]) (add_subject (ma_value a) (ma_name a) ss))"

definition SubjectsUpdate :: "string \<Rightarrow> string \<Rightarrow> string \<Rightarrow> string \<Rightarrow> agent_net \<Rightarrow> agent_net" where
  "SubjectsUpdate homedir me ip port net =
     (let (my, ss1) = update_names (attrs (exportedSubjects net)) (mysubjects net) (net_bus net);
          (ext, ss2) = update_names (attrs (importedSubjects net)) (externsubjects net) ss1;
          n1 = net_retrieveInfo homedir me ip port (net\<lparr>mysubjects := my, externsubjects := ext, net_bus := ss2\<rparr>)
      in net_retrieveInfo homedir me ip port (net_MakePage n1))"

definition setNovelty :: "int \<Rightarrow> agent_net \<Rightarrow> agent_net" where
  "setNovelty n net = net\<lparr>novelty := n\<rparr>"

definition testNovelty :: "agent_net \<Rightarrow> bool \<times> agent_net" where
  "testNovelty net = (if novelty net > 0 then (True, net\<lparr>novelty := novelty net - 1\<rparr>) else (False, net))"

subsection \<open>The table of the other agents\<close>

definition check_agent_status :: "int \<Rightarrow> string \<Rightarrow> agent_net \<Rightarrow> bool" where
  "check_agent_status now agent net =
     (case sm_find (foreign_agents net) agent of
        Some i \<Rightarrow> \<not> (now - timestamp i > validityTime net)
      | None \<Rightarrow> False)"

text \<open>\<open>foreign_agents[agentname]\<close> makes an entry when there is none.\<close>

definition agent_field :: "string \<Rightarrow> string \<Rightarrow> agent_net \<Rightarrow> string \<times> agent_net" where
  "agent_field agentname f net =
     (case sm_find (foreign_agents net) agentname of
        Some i \<Rightarrow> (info_string i f, net)
      | None \<Rightarrow> (info_string info_empty f, net\<lparr>foreign_agents := sm_put agentname info_empty (foreign_agents net)\<rparr>))"

definition getAgentIp :: "string \<Rightarrow> int \<Rightarrow> string \<Rightarrow> agent_net \<Rightarrow> string \<times> agent_net" where
  "getAgentIp me now agentname net =
     (if agentname = me \<or> check_agent_status now agentname net then agent_field agentname ''ip'' net
      else (''127.0.0.1'', net))"

definition getAgentPort :: "string \<Rightarrow> int \<Rightarrow> string \<Rightarrow> agent_net \<Rightarrow> string \<times> agent_net" where
  "getAgentPort me now agentname net =
     (if agentname = me \<or> check_agent_status now agentname net then agent_field agentname ''port'' net
      else (''8888'', net))"

definition add_observed :: "string list \<Rightarrow> mparams \<Rightarrow> mparams" where
  "add_observed events desc =
     fold (\<lambda>e desc. let (ty, subty) = net_split e in mp_add_cat desc subty ''observe'' ty) events desc"

definition tcp_description :: "string list \<Rightarrow> mmessage \<Rightarrow> mparams" where
  "tcp_description mys m =
     (let agent = m_getString m ''agentname'';
          events = snd (evFilter mys (m_getList m ''observe''));
          d = mp_default\<lparr>pty := agent\<rparr>
      in add_observed events
           (mp_add (mp_add (mp_add (mp_add (mp_add (mp_add d ''name'' agent) ''agent'' agent)
              ''address'' (m_getString m ''ip'')) ''port'' (m_getString m ''port'')) ''language'' ''xml'') ''status'' ''ON''))"

definition mkTcpObserverXML :: "mmessage \<Rightarrow> agent_net \<Rightarrow> agent_net" where
  "mkTcpObserverXML m net =
     net\<lparr>observer_files := sm_put (m_getString m ''agentname'') (attrs (tcp_description (mysubjects net) m))
           (observer_files net)\<rparr>"

text \<open>A new object is made each time; when the name has one already, the map keeps that one and
  starts it again.\<close>

definition activateObserverTCP :: "string \<Rightarrow> string \<Rightarrow> string \<Rightarrow> agent_net \<Rightarrow> agent_net" where
  "activateObserverTCP configdir homedir name net =
     (let fresh = (next_ptr net, to_new configdir homedir name (sm_find (observer_files net) name));
          (p, ob) = (case sm_find (tcp_observers net) name of Some old \<Rightarrow> old | None \<Rightarrow> fresh);
          (ob', ss) = to_start p ob (net_bus net)
      in net\<lparr>next_ptr := next_ptr net + 1, tcp_observers := sm_put name (p, ob') (tcp_observers net), net_bus := ss\<rparr>)"

definition disactivateObserverTCP :: "string \<Rightarrow> agent_net \<Rightarrow> agent_net option" where
  "disactivateObserverTCP name net =
     (case sm_find (tcp_observers net) name of
        None \<Rightarrow> None
      | Some (p, ob) \<Rightarrow>
          Some (net\<lparr>net_bus := ss_remove_observer p (net_bus net),
                    tcp_observers := sm_erase name (tcp_observers net)\<rparr>))"

fun kill_all :: "string list \<Rightarrow> agent_net \<Rightarrow> agent_net option" where
  "kill_all [] net = Some net"
| "kill_all (a # as) net =
     (case disactivateObserverTCP a net of
        None \<Rightarrow> None
      | Some n \<Rightarrow>
          kill_all as (n\<lparr>foreign_agents := sm_erase a (foreign_agents n),
                         observer_files := sm_erase a (observer_files n)\<rparr>))"

definition check_expired :: "int \<Rightarrow> agent_net \<Rightarrow> agent_net option" where
  "check_expired now net =
     (let tokill = filter (\<lambda>a. \<not> check_agent_status now a net) (map fst (foreign_agents net))
      in kill_all tokill (net\<lparr>observer_files := fold sm_erase tokill (observer_files net)\<rparr>))"

definition wsServerUpdate :: "mmessage \<Rightarrow> agent_net \<Rightarrow> agent_net" where
  "wsServerUpdate m net =
     (if m_getString m ''agentname'' \<noteq> ''wsserver'' then net
      else net\<lparr>wsserver_ip := m_getString m ''ip'', wsserver_port := m_getString m ''port''\<rparr>)"

definition getWSServer :: "agent_net \<Rightarrow> string" where
  "getWSServer net =
     (if wsserver_ip net \<noteq> '''' \<and> wsserver_port net \<noteq> '''' then wsserver_ip net @ '':'' @ wsserver_port net else '''')"

fun agent_of :: "string \<Rightarrow> (string, agent_info) smap \<Rightarrow> string" where
  "agent_of dev [] = ''none''"
| "agent_of dev ((a, i) # as) =
     (if \<exists>e \<in> set (m_getList (info_msg i) ''observe''). net_split e = (''cmd'', dev)
      then info_string i ''ip'' @ '':'' @ info_string i ''port'' else agent_of dev as)"

definition getAgentOf :: "string \<Rightarrow> agent_net \<Rightarrow> string" where
  "getAgentOf dev net = agent_of dev (foreign_agents net)"

definition checkMsg :: "string \<Rightarrow> mmessage \<Rightarrow> agent_net \<Rightarrow> bool" where
  "checkMsg sender m net \<longleftrightarrow>
     sm_count (foreign_agents net) (m_getString m ''name'') > 0 \<and> sender = m_getString m ''ip''"

definition set_info :: "string \<Rightarrow> agent_info \<Rightarrow> agent_net \<Rightarrow> agent_net" where
  "set_info agent i net = net\<lparr>foreign_agents := sm_put agent i (foreign_agents net)\<rparr>"

definition reactivate :: "string \<Rightarrow> string \<Rightarrow> string \<Rightarrow> mmessage \<Rightarrow> agent_info \<Rightarrow> agent_net \<Rightarrow> agent_net option" where
  "reactivate configdir homedir agent m i net =
     map_option (\<lambda>n. activateObserverTCP configdir homedir agent (mkTcpObserverXML m (set_info agent i n)))
       (disactivateObserverTCP agent net)"

definition connect ::
  "(string \<Rightarrow> xnode list) \<Rightarrow> string \<Rightarrow> string \<Rightarrow> string list \<Rightarrow> mmessage \<Rightarrow> agent_net \<Rightarrow> agent_net option" where
  "connect parse configdir homedir ev m net =
     (let agent = m_getString m ''agentname''
      in map_option (\<lambda>i0.
           let i = info_add_list ''observe'' ev (info_add ''port'' (m_getString m ''port'')
                     (info_add ''ip'' (m_getString m ''ip'') (info_add ''agentname'' agent i0)))
           in activateObserverTCP configdir homedir agent (mkTcpObserverXML m (set_info agent i net)))
         (info_of_text parse (m_xmlEncode 0 m)))"

definition renew_ip :: "string \<Rightarrow> string \<Rightarrow> mmessage \<Rightarrow> agent_info \<Rightarrow> agent_net \<Rightarrow> (agent_info \<times> agent_net) option" where
  "renew_ip configdir homedir m i net =
     (if m_getString m ''ip'' \<noteq> info_string i ''ip''
      then let i' = info_add ''ip'' (m_getString m ''ip'') i
           in map_option (Pair i') (reactivate configdir homedir (m_getString m ''agentname'') m i' net)
      else Some (i, net))"

definition renew_events :: "string \<Rightarrow> string \<Rightarrow> mmessage \<Rightarrow> agent_info \<Rightarrow> agent_net \<Rightarrow> (agent_info \<times> agent_net) option" where
  "renew_events configdir homedir m i net =
     (if m_getList (info_msg i) ''events'' \<noteq> m_getList m ''events'' \<or> last_subject_update net > timestamp i
      then let i' = info_add_list ''events'' (m_getList m ''events'') i
           in map_option (Pair i') (reactivate configdir homedir (m_getString m ''agentname'') m i' net)
      else Some (i, net))"

definition net_refresh ::
  "(string \<Rightarrow> xnode list) \<Rightarrow> string \<Rightarrow> string \<Rightarrow> string list \<Rightarrow> mmessage \<Rightarrow> agent_net \<Rightarrow> agent_net option" where
  "net_refresh parse configdir homedir ev m net =
     (case sm_find (foreign_agents net) (m_getString m ''agentname'') of
        None \<Rightarrow> connect parse configdir homedir ev m net
      | Some i \<Rightarrow>
          case renew_ip configdir homedir m i net of
            None \<Rightarrow> None
          | Some (i1, n1) \<Rightarrow> map_option snd (renew_events configdir homedir m i1 n1))"

definition stamp :: "int \<Rightarrow> string \<Rightarrow> agent_net \<Rightarrow> agent_net" where
  "stamp now agent net =
     (case sm_find (foreign_agents net) agent of
        Some i \<Rightarrow> set_info agent (i\<lparr>timestamp := now\<rparr>) net
      | None \<Rightarrow> set_info agent (info_empty\<lparr>timestamp := now\<rparr>) net)"

definition net_update ::
  "(string \<Rightarrow> xnode list) \<Rightarrow> string \<Rightarrow> string \<Rightarrow> int \<Rightarrow> mmessage \<Rightarrow> agent_net \<Rightarrow> (bool \<times> agent_net) option" where
  "net_update parse configdir homedir now m net =
     (let agent = m_getString m ''agentname'';
          n0 = (if agent = ''wsserver'' then wsServerUpdate m net else net);
          (ok, ev) = evFilter (mysubjects n0) (m_getList m ''observe'')
      in if \<not> ok then Some (False, n0)
         else map_option (\<lambda>n. (True, stamp now agent n)) (net_refresh parse configdir homedir ev m n0))"

datatype recv_event = RecvFailed | RecvNothing | RecvText string

definition hear_namesake :: "string \<Rightarrow> int \<Rightarrow> mmessage \<Rightarrow> agent_net \<Rightarrow> agent_net" where
  "hear_namesake homedir now m net =
     (if m_getString m ''ip'' > info_string (myinfo net) ''ip''
      then net\<lparr>myinfo := info_add ''status'' ''waiting'' ((myinfo net)\<lparr>timestamp := now\<rparr>),
               net_conf := conf_setStatus homedir 0 (net_conf net)\<rparr>
      else net)"

text \<open>One turn of the loop of \<^verbatim>\<open>recv_status\<close>.\<close>

definition recv_status ::
  "(string \<Rightarrow> xnode list) \<Rightarrow> string \<Rightarrow> string \<Rightarrow> string \<Rightarrow> int \<Rightarrow> recv_event \<Rightarrow> agent_net \<Rightarrow> agent_net option" where
  "recv_status parse me configdir homedir now ev net =
     (case ev of
        RecvFailed \<Rightarrow> Some net
      | RecvNothing \<Rightarrow> check_expired now net
      | RecvText s \<Rightarrow>
          case m_xmlDecode_doc (parse s) (m_type ''agentinfo'') of
            None \<Rightarrow> None
          | Some (r, m) \<Rightarrow>
              if m_getString m ''agentname'' = me \<and> me \<noteq> ''configurator''
              then check_expired now (hear_namesake homedir now m net)
              else case net_update parse configdir homedir now m net of
                     None \<Rightarrow> None
                   | Some (ok, n) \<Rightarrow> check_expired now n)"

definition net_wake_up :: "string \<Rightarrow> string \<Rightarrow> int \<Rightarrow> agent_net \<Rightarrow> agent_net" where
  "net_wake_up me homedir now net =
     (if info_string (myinfo net) ''status'' = ''active'' then net
      else let i = (case sm_find (foreign_agents net) me of
                      Some f \<Rightarrow> (myinfo net)\<lparr>timestamp := timestamp f\<rparr> | None \<Rightarrow> myinfo net)
           in if now - timestamp i > validityTime net
              then net\<lparr>myinfo := info_add ''status'' ''active'' i, net_conf := conf_setStatus homedir 1 (net_conf net)\<rparr>
              else net\<lparr>myinfo := i\<rparr>)"

definition agent_info_message :: "string \<Rightarrow> double \<Rightarrow> agent_info \<Rightarrow> mmessage" where
  "agent_info_message agenttype t i =
     m_add_double (m_add (m_add (m_add (m_add (m_add (m_new ''net'' ''agent_info'')
       ''agentname'' (info_string i ''agentname'')) ''agenttype'' agenttype) ''address'' (info_string i ''ip''))
       ''port'' (info_string i ''port'')) ''status'' (info_string i ''status'')) ''time'' t"

text \<open>One turn of the loop of \<^verbatim>\<open>send_status\<close>: the text sent by multicast, if any, and the
  message notified on the bus.\<close>

definition send_status ::
  "string \<Rightarrow> string \<Rightarrow> string \<Rightarrow> double \<Rightarrow> agent_net \<Rightarrow> agent_net \<times> string option \<times> effect list" where
  "send_status me agenttype homedir t net =
     (let n1 = net_wake_up me homedir (trunc t) net;
          sent = (if info_string (myinfo n1) ''status'' = ''active'' then Some (xmlformat (myinfo net)) else None)
      in if send_agent_info n1
         then let m = agent_info_message agenttype t (myinfo n1);
                  (first, n2) = testNovelty n1
              in (n2, sent, [Notify (if first then m_add m ''first_announce'' ''TRUE'' else m)])
         else (n1, sent, []))"

text \<open>\<^verbatim>\<open>SubjectRegister\<close>: the two documents it puts into the archive, with their addresses.\<close>

definition subject_page :: "string list \<Rightarrow> string" where
  "subject_page ns =
     ''<set type='' @ quote @ ''events'' @ quote @ ''>''
     @ concat (map (\<lambda>n. ''<attribute name='' @ quote @ n @ quote @ '' value='' @ quote @ ''ON'' @ quote @ ''/>'') ns)
     @ ''</set>'' @ newline"

definition SubjectRegister :: "agent_net \<Rightarrow> (string \<times> string) list" where
  "SubjectRegister net =
     [(''subjects/imported/data'', subject_page (externsubjects net)),
      (''subjects/exported/data'', subject_page (mysubjects net))]"

subsection \<open>Observers on the bus\<close>

lemma add_keys_cong: "fst ` set ss = fst ` set ss' \<Longrightarrow> add_keys ss k = add_keys ss' k"
  by (simp add: add_keys_def)

lemma fold_observe:
  assumes "ss_wf ss"
  shows "ss_wf (fold (\<lambda>a ss. snd (add_observer (ma_value a) (ma_name a) p ss)) as ss)
    \<and> fst ` set (fold (\<lambda>a ss. snd (add_observer (ma_value a) (ma_name a) p ss)) as ss) = fst ` set ss
    \<and> regs (fold (\<lambda>a ss. snd (add_observer (ma_value a) (ma_name a) p ss)) as ss)
        = regs ss \<union> (\<Union>a \<in> set as. add_keys ss (ma_value a, ma_name a)) \<times> {p}"
  using assms
proof (induction as arbitrary: ss)
  case Nil
  then show ?case by simp
next
  case (Cons a as)
  let ?s = "snd (add_observer (ma_value a) (ma_name a) p ss)"
  have wf: "ss_wf ?s" using Cons.prems by (simp add: hat_inv)
  have k: "add_keys ?s q = add_keys ss q" for q by (rule add_keys_cong) simp
  from Cons.IH [OF wf] show ?case by (simp add: k regs_add_observer) blast
qed

lemma to_start_bus:
  assumes "ss_wf ss"
  shows "ss_wf (snd (to_start p ob ss))" "fst ` set (snd (to_start p ob ss)) = fst ` set ss"
    "regs (snd (to_start p ob ss))
       = regs ss \<union> (\<Union>a \<in> set (observes (to_obs ob)). add_keys ss (ma_value a, ma_name a)) \<times> {p}"
  using fold_observe [OF assms, of p "observes (to_obs ob)"] by (simp_all add: to_start_def)

text \<open>Which pointers may be registered with the bus: those of the local threads \<open>L\<close> and those
  of the table \<open>f\<close> of TCP observers; the latter are pairwise different and different from the former.\<close>

definition ptr_inv :: "observer_ptr set \<Rightarrow> subjects \<Rightarrow> observer_ptr \<Rightarrow> (string \<Rightarrow> observer_ptr option) \<Rightarrow> bool" where
  "ptr_inv L ss n f \<longleftrightarrow> ss_wf ss \<and> (\<forall>p \<in> L. p < n) \<and> (\<forall>a p. f a = Some p \<longrightarrow> p < n \<and> p \<notin> L)
     \<and> (\<forall>a b p. f a = Some p \<longrightarrow> f b = Some p \<longrightarrow> a = b)
     \<and> (\<forall>k p. (k, p) \<in> regs ss \<longrightarrow> p \<in> L \<or> (\<exists>a. f a = Some p))"

definition ptr_of :: "agent_net \<Rightarrow> string \<Rightarrow> observer_ptr option" where
  "ptr_of net a = map_option fst (sm_find (tcp_observers net) a)"

lemma ptr_inv_wf: "ptr_inv L ss n f \<Longrightarrow> ss_wf ss"
  by (simp add: ptr_inv_def)

lemma ptr_inv_new:
  assumes "ptr_inv L ss n f" "f a = None" "ss_wf ss'" "regs ss' \<subseteq> regs ss \<union> UNIV \<times> {n}"
  shows "ptr_inv L ss' (Suc n) (f(a := Some n))"
proof -
  have "p \<in> L \<or> (\<exists>b. (f(a := Some n)) b = Some p)" if "(k, p) \<in> regs ss'" for k p
  proof (cases "p = n")
    case False
    with that assms(4) have "(k, p) \<in> regs ss" by blast
    then have "p \<in> L \<or> (\<exists>b. f b = Some p)" using assms(1) unfolding ptr_inv_def by blast
    with assms(2) show ?thesis by (metis fun_upd_other option.distinct(1))
  qed auto
  moreover have "\<forall>p \<in> L. p < Suc n" using assms(1) by (auto simp: ptr_inv_def intro: less_SucI)
  moreover have "(f(a := Some n)) b = Some p \<Longrightarrow> p < Suc n \<and> p \<notin> L" for b p
    using assms(1) by (auto simp: ptr_inv_def split: if_splits intro: less_SucI)
  moreover have "b = c" if "(f(a := Some n)) b = Some p" "(f(a := Some n)) c = Some p" for b c p
    using that assms(1) by (auto simp: ptr_inv_def split: if_splits)
  ultimately show ?thesis using assms(3) unfolding ptr_inv_def by blast
qed

lemma ptr_inv_drop:
  assumes "ptr_inv L ss n f" "f a = Some p"
  shows "ptr_inv L (ss_remove_observer p ss) n (f(a := None))"
proof -
  have wf: "ss_wf ss" using assms(1) by (rule ptr_inv_wf)
  have "q \<in> L \<or> (\<exists>b. (f(a := None)) b = Some q)" if "(k, q) \<in> regs (ss_remove_observer p ss)" for k q
  proof -
    from that have "(k, q) \<in> regs ss" "q \<noteq> p" by (simp_all add: regs_remove_observer [OF wf])
    then have "q \<in> L \<or> (\<exists>b. f b = Some q)" using assms(1) unfolding ptr_inv_def by blast
    with \<open>q \<noteq> p\<close> assms(2) show ?thesis by (metis fun_upd_other option.inject)
  qed
  moreover have "(f(a := None)) b = Some q \<Longrightarrow> f b = Some q" for b q by (simp split: if_splits)
  ultimately show ?thesis
    using assms(1) ss_wf_remove_observer [OF wf, of p] unfolding ptr_inv_def by blast
qed

text \<open>The two tables have the same names.\<close>

definition net_inv :: "observer_ptr set \<Rightarrow> agent_net \<Rightarrow> bool" where
  "net_inv L net \<longleftrightarrow> ptr_inv L (net_bus net) (next_ptr net) (ptr_of net)
     \<and> (\<forall>a. ptr_of net a = None \<longleftrightarrow> sm_find (foreign_agents net) a = None)"

lemma activate_fields [simp]:
  "foreign_agents (activateObserverTCP c h a net) = foreign_agents net"
  "mysubjects (activateObserverTCP c h a net) = mysubjects net"
  "validityTime (activateObserverTCP c h a net) = validityTime net"
  "last_subject_update (activateObserverTCP c h a net) = last_subject_update net"
  by (simp_all add: activateObserverTCP_def Let_def case_prod_beta)

lemma mkTcp_fields [simp]:
  "foreign_agents (mkTcpObserverXML m net) = foreign_agents net"
  "tcp_observers (mkTcpObserverXML m net) = tcp_observers net" "ptr_of (mkTcpObserverXML m net) = ptr_of net"
  "mysubjects (mkTcpObserverXML m net) = mysubjects net"
  "validityTime (mkTcpObserverXML m net) = validityTime net"
  "last_subject_update (mkTcpObserverXML m net) = last_subject_update net"
  "net_bus (mkTcpObserverXML m net) = net_bus net"
  "next_ptr (mkTcpObserverXML m net) = next_ptr net"
  by (simp_all add: mkTcpObserverXML_def ptr_of_def fun_eq_iff)

lemma set_info_fields [simp]:
  "foreign_agents (set_info a i net) = sm_put a i (foreign_agents net)"
  "tcp_observers (set_info a i net) = tcp_observers net" "ptr_of (set_info a i net) = ptr_of net"
  "mysubjects (set_info a i net) = mysubjects net"
  "validityTime (set_info a i net) = validityTime net"
  "last_subject_update (set_info a i net) = last_subject_update net"
  "net_bus (set_info a i net) = net_bus net"
  "next_ptr (set_info a i net) = next_ptr net"
  by (simp_all add: set_info_def ptr_of_def fun_eq_iff)

text \<open>Activation of a name that has no observer: a new pointer, registered for what the file
  of the name lists.\<close>

lemma activate_new:
  assumes "ptr_of net a = None"
  shows "activateObserverTCP c h a net =
    (let ob = to_new c h a (sm_find (observer_files net) a); p = next_ptr net
     in net\<lparr>next_ptr := Suc p, tcp_observers := sm_put a (p, fst (to_start p ob (net_bus net))) (tcp_observers net),
            net_bus := snd (to_start p ob (net_bus net))\<rparr>)"
  using assms by (simp add: ptr_of_def activateObserverTCP_def Let_def case_prod_beta)

lemma activate_inv:
  assumes "ptr_inv L (net_bus net) (next_ptr net) (ptr_of net)" and "ptr_of net a = None"
    and n_def: "n = activateObserverTCP c h a net"
  shows "ptr_inv L (net_bus n) (next_ptr n) (ptr_of n)" "ptr_of n = (ptr_of net)(a := Some (next_ptr net))"
proof -
  let ?ob = "to_new c h a (sm_find (observer_files net) a)"
  show p: "ptr_of n = (ptr_of net)(a := Some (next_ptr net))"
    by (simp add: n_def activate_new [OF assms(2)] Let_def ptr_of_def fun_eq_iff)
  note wf = ptr_inv_wf [OF assms(1)]
  show "ptr_inv L (net_bus n) (next_ptr n) (ptr_of n)"
    unfolding p using ptr_inv_new [OF assms(1,2), of "snd (to_start (next_ptr net) ?ob (net_bus net))"]
      to_start_bus [OF wf, of "next_ptr net" ?ob]
    by (auto simp: n_def activate_new [OF assms(2)] Let_def)
qed

lemma disactivate_inv:
  assumes "ptr_inv L (net_bus net) (next_ptr net) (ptr_of net)" and "ptr_of net a = Some p"
  obtains n where "disactivateObserverTCP a net = Some n"
    "n = net\<lparr>net_bus := ss_remove_observer p (net_bus net), tcp_observers := sm_erase a (tcp_observers net)\<rparr>"
    "ptr_inv L (net_bus n) (next_ptr n) (ptr_of n)" "ptr_of n = (ptr_of net)(a := None)"
proof -
  obtain ob where ob: "sm_find (tcp_observers net) a = Some (p, ob)"
    using assms(2) by (auto simp: ptr_of_def)
  let ?n = "net\<lparr>net_bus := ss_remove_observer p (net_bus net), tcp_observers := sm_erase a (tcp_observers net)\<rparr>"
  have "ptr_of ?n = (ptr_of net)(a := None)" by (auto simp: ptr_of_def fun_eq_iff)
  moreover from this ptr_inv_drop [OF assms] have "ptr_inv L (net_bus ?n) (next_ptr ?n) (ptr_of ?n)" by simp
  moreover have "disactivateObserverTCP a net = Some ?n" using ob by (simp add: disactivateObserverTCP_def)
  ultimately show thesis using that by blast
qed

lemma net_invE:
  assumes "net_inv L net" "sm_find (foreign_agents net) a = Some i"
  obtains p where "ptr_of net a = Some p"
  using assms by (cases "ptr_of net a") (auto simp: net_inv_def)

lemma kill_all_inv:
  assumes "net_inv L net" and "\<forall>a \<in> set as. sm_find (foreign_agents net) a \<noteq> None" and "distinct as"
  shows "\<exists>n. kill_all as net = Some n \<and> net_inv L n
    \<and> (\<forall>a. sm_find (foreign_agents n) a = (if a \<in> set as then None else sm_find (foreign_agents net) a))
    \<and> validityTime n = validityTime net \<and> net_conf n = net_conf net \<and> myinfo n = myinfo net
    \<and> mysubjects n = mysubjects net"
  using assms
proof (induction as arbitrary: net)
  case Nil
  then show ?case by simp
next
  case (Cons a as)
  obtain i where "sm_find (foreign_agents net) a = Some i" using Cons.prems(2) by auto
  then obtain p where p: "ptr_of net a = Some p" by (rule net_invE [OF Cons.prems(1)])
  have inv: "ptr_inv L (net_bus net) (next_ptr net) (ptr_of net)"
    "\<And>b. ptr_of net b = None \<longleftrightarrow> sm_find (foreign_agents net) b = None"
    using Cons.prems(1) by (simp_all add: net_inv_def)
  obtain n where n: "disactivateObserverTCP a net = Some n"
    "n = net\<lparr>net_bus := ss_remove_observer p (net_bus net), tcp_observers := sm_erase a (tcp_observers net)\<rparr>"
    "ptr_inv L (net_bus n) (next_ptr n) (ptr_of n)" "ptr_of n = (ptr_of net)(a := None)"
    by (rule disactivate_inv [OF inv(1) p])
  let ?n = "n\<lparr>foreign_agents := sm_erase a (foreign_agents n), observer_files := sm_erase a (observer_files n)\<rparr>"
  have pn: "ptr_of ?n = (ptr_of net)(a := None)" using n(4) by (simp add: ptr_of_def fun_eq_iff)
  have "net_inv L ?n" using n(3,4) inv(2) unfolding net_inv_def pn by (simp add: n(2))
  moreover have "\<forall>b \<in> set as. sm_find (foreign_agents ?n) b \<noteq> None" using Cons.prems(2,3) by (auto simp: n(2))
  moreover have "distinct as" using Cons.prems(3) by simp
  ultimately have "\<exists>n'. kill_all as ?n = Some n' \<and> net_inv L n'
    \<and> (\<forall>b. sm_find (foreign_agents n') b = (if b \<in> set as then None else sm_find (foreign_agents ?n) b))
    \<and> validityTime n' = validityTime ?n \<and> net_conf n' = net_conf ?n \<and> myinfo n' = myinfo ?n
    \<and> mysubjects n' = mysubjects ?n"
    by (rule Cons.IH)
  then show ?case using n(1) by (auto simp: n(2))
qed

text \<open>The invariant with the order of the keys, which makes the names of the table distinct.\<close>

definition net_ok :: "observer_ptr set \<Rightarrow> agent_net \<Rightarrow> bool" where
  "net_ok L net \<longleftrightarrow> net_inv L net \<and> sm_ordered (foreign_agents net)"

lemma kill_all_ordered:
  "kill_all as net = Some n \<Longrightarrow> sm_ordered (foreign_agents net) \<Longrightarrow> sm_ordered (foreign_agents n)"
  by (induction as net rule: kill_all.induct)
    (auto simp: hat_inv disactivateObserverTCP_def split: option.splits)

lemma check_expired_ok:
  assumes "net_ok L net"
  shows "\<exists>n. check_expired now net = Some n \<and> net_ok L n \<and> net_conf n = net_conf net \<and> myinfo n = myinfo net
    \<and> mysubjects n = mysubjects net \<and> validityTime n = validityTime net
    \<and> (\<forall>a. sm_find (foreign_agents n) a =
          (if check_agent_status now a net then sm_find (foreign_agents net) a else None))"
proof -
  let ?k = "filter (\<lambda>a. \<not> check_agent_status now a net) (map fst (foreign_agents net))"
  let ?n0 = "net\<lparr>observer_files := fold sm_erase ?k (observer_files net)\<rparr>"
  have ord: "sm_ordered (foreign_agents net)" and inv: "net_inv L net" using assms by (simp_all add: net_ok_def)
  have "ptr_of ?n0 = ptr_of net" by (simp add: ptr_of_def fun_eq_iff)
  then have "net_inv L ?n0" using inv unfolding net_inv_def by simp
  moreover have "\<forall>a \<in> set ?k. sm_find (foreign_agents ?n0) a \<noteq> None" by (auto simp: sm_find_None image_iff)
  moreover have "distinct ?k" using ordered_distinct [OF ord] by simp
  ultimately obtain n where n: "kill_all ?k ?n0 = Some n" "net_inv L n"
    "\<forall>a. sm_find (foreign_agents n) a = (if a \<in> set ?k then None else sm_find (foreign_agents net) a)"
    "validityTime n = validityTime net" "net_conf n = net_conf net" "myinfo n = myinfo net" "mysubjects n = mysubjects net"
    using kill_all_inv [of L ?n0 ?k] by auto
  have "sm_find (foreign_agents n) a =
      (if check_agent_status now a net then sm_find (foreign_agents net) a else None)" for a
  proof (cases "sm_find (foreign_agents net) a")
    case None
    with n(3) show ?thesis by simp
  next
    case (Some i)
    then have "a \<in> fst ` set (foreign_agents net)" using find_key by fast
    then have "a \<in> set ?k \<longleftrightarrow> \<not> check_agent_status now a net" by auto
    with n(3) show ?thesis by simp
  qed
  moreover have "sm_ordered (foreign_agents n)" using kill_all_ordered [OF n(1)] ord by simp
  ultimately show ?thesis using n unfolding check_expired_def by (simp add: net_ok_def Let_def)
qed

lemma check_expired_fresh:
  assumes "net_ok L net" "check_expired now net = Some n" "sm_find (foreign_agents n) a = Some i"
  shows "now - timestamp i \<le> validityTime n"
proof -
  obtain n' where n': "check_expired now net = Some n'" "validityTime n' = validityTime net"
    "\<forall>a. sm_find (foreign_agents n') a =
          (if check_agent_status now a net then sm_find (foreign_agents net) a else None)"
    using check_expired_ok [OF assms(1), of now] by blast
  with assms(2,3) have "check_agent_status now a net" "sm_find (foreign_agents net) a = Some i"
    by (auto split: if_splits)
  with n' assms(2) show ?thesis by (simp add: check_agent_status_def)
qed

lemma put_ordered_fields [simp]:
  "net_conf (activateObserverTCP c h a net) = net_conf net" "myinfo (activateObserverTCP c h a net) = myinfo net"
  "net_conf (mkTcpObserverXML m net) = net_conf net" "myinfo (mkTcpObserverXML m net) = myinfo net"
  "net_conf (set_info a i net) = net_conf net" "myinfo (set_info a i net) = myinfo net"
  by (simp_all add: activateObserverTCP_def mkTcpObserverXML_def set_info_def Let_def case_prod_beta)

text \<open>What an announcement may change: the entries of one agent, never the agent itself.\<close>

definition same_self :: "agent_net \<Rightarrow> agent_net \<Rightarrow> bool" where
  "same_self net n \<longleftrightarrow> net_conf n = net_conf net \<and> myinfo n = myinfo net \<and> mysubjects n = mysubjects net
     \<and> validityTime n = validityTime net \<and> last_subject_update n = last_subject_update net"

lemma reactivate_ok:
  assumes "net_ok L net" "sm_find (foreign_agents net) a = Some j"
  shows "\<exists>n. reactivate c h a m i net = Some n \<and> net_ok L n \<and> same_self net n
    \<and> foreign_agents n = sm_put a i (foreign_agents net)"
proof -
  have inv: "ptr_inv L (net_bus net) (next_ptr net) (ptr_of net)"
    "\<And>b. ptr_of net b = None \<longleftrightarrow> sm_find (foreign_agents net) b = None" "sm_ordered (foreign_agents net)"
    using assms(1) by (simp_all add: net_ok_def net_inv_def)
  obtain p where p: "ptr_of net a = Some p" using net_invE assms by (metis net_ok_def)
  obtain n where n: "disactivateObserverTCP a net = Some n"
    "n = net\<lparr>net_bus := ss_remove_observer p (net_bus net), tcp_observers := sm_erase a (tcp_observers net)\<rparr>"
    "ptr_inv L (net_bus n) (next_ptr n) (ptr_of n)" "ptr_of n = (ptr_of net)(a := None)"
    by (rule disactivate_inv [OF inv(1) p])
  let ?n1 = "mkTcpObserverXML m (set_info a i n)"
  let ?n2 = "activateObserverTCP c h a ?n1"
  have p1: "ptr_inv L (net_bus ?n1) (next_ptr ?n1) (ptr_of ?n1)" "ptr_of ?n1 a = None" using n(3,4) by simp_all
  note a = activate_inv [OF p1 refl, of c h]
  have "net_inv L ?n2" using a inv(2) n(4) unfolding net_inv_def by (auto simp: n(2))
  moreover have "sm_ordered (foreign_agents ?n2)" using inv(3) by (simp add: n(2) hat_inv)
  ultimately show ?thesis using n(1) by (simp add: reactivate_def net_ok_def same_self_def n(2))
qed

lemma decode_doc_total: "doc \<noteq> [] \<Longrightarrow> \<exists>r m'. m_xmlDecode_doc doc m = Some (r, m')"
  by (auto simp: m_xmlDecode_doc_def Let_def split: list.split)

lemma connect_ok:
  assumes "net_ok L net" "sm_find (foreign_agents net) (m_getString m ''agentname'') = None"
    and "parse (m_xmlEncode 0 m) \<noteq> []"
  shows "\<exists>n i. connect parse c h ev m net = Some n \<and> net_ok L n \<and> same_self net n
    \<and> foreign_agents n = sm_put (m_getString m ''agentname'') i (foreign_agents net)"
proof -
  let ?a = "m_getString m ''agentname''"
  obtain i0 where i0: "info_of_text parse (m_xmlEncode 0 m) = Some i0"
    using decode_doc_total [OF assms(3), of m_default] that by (force simp: info_of_text_def)
  define i where "i = info_add_list ''observe'' ev (info_add ''port'' (m_getString m ''port'')
                     (info_add ''ip'' (m_getString m ''ip'') (info_add ''agentname'' ?a i0)))"
  let ?n1 = "mkTcpObserverXML m (set_info ?a i net)"
  let ?n2 = "activateObserverTCP c h ?a ?n1"
  have inv: "ptr_inv L (net_bus net) (next_ptr net) (ptr_of net)"
    "\<And>b. ptr_of net b = None \<longleftrightarrow> sm_find (foreign_agents net) b = None" "sm_ordered (foreign_agents net)"
    using assms(1) by (simp_all add: net_ok_def net_inv_def)
  have p1: "ptr_inv L (net_bus ?n1) (next_ptr ?n1) (ptr_of ?n1)" "ptr_of ?n1 ?a = None" using inv assms(2) by simp_all
  note a = activate_inv [OF p1 refl, of c h]
  have "net_inv L ?n2" using a inv(2) unfolding net_inv_def by auto
  moreover have "sm_ordered (foreign_agents ?n2)" using inv(3) by (simp add: hat_inv)
  moreover have "connect parse c h ev m net = Some ?n2" using i0 by (simp add: connect_def i_def Let_def)
  ultimately show ?thesis by (auto simp: net_ok_def same_self_def)
qed

lemma renew_ok:
  assumes "net_ok L net" "sm_find (foreign_agents net) (m_getString m ''agentname'') = Some i"
  shows "\<exists>j n. renew_ip c h m i net = Some (j, n) \<and> net_ok L n \<and> same_self net n
      \<and> (\<forall>b. sm_find (foreign_agents n) b = (if b = m_getString m ''agentname'' then Some j else sm_find (foreign_agents net) b))"
    and "\<exists>j n. renew_events c h m i net = Some (j, n) \<and> net_ok L n \<and> same_self net n
      \<and> (\<forall>b. sm_find (foreign_agents n) b = (if b = m_getString m ''agentname'' then Some j else sm_find (foreign_agents net) b))"
proof -
  have r: "\<exists>n. reactivate c h (m_getString m ''agentname'') m j net = Some n \<and> net_ok L n \<and> same_self net n
      \<and> (\<forall>b. sm_find (foreign_agents n) b = (if b = m_getString m ''agentname'' then Some j else sm_find (foreign_agents net) b))" for j
    using reactivate_ok [OF assms, of c h m j] by auto
  have s: "same_self net net" by (simp add: same_self_def)
  show "\<exists>j n. renew_ip c h m i net = Some (j, n) \<and> net_ok L n \<and> same_self net n
      \<and> (\<forall>b. sm_find (foreign_agents n) b = (if b = m_getString m ''agentname'' then Some j else sm_find (foreign_agents net) b))"
    using r [of "info_add ''ip'' (m_getString m ''ip'') i"] s assms by (force simp: renew_ip_def Let_def)
  show "\<exists>j n. renew_events c h m i net = Some (j, n) \<and> net_ok L n \<and> same_self net n
      \<and> (\<forall>b. sm_find (foreign_agents n) b = (if b = m_getString m ''agentname'' then Some j else sm_find (foreign_agents net) b))"
    using r [of "info_add_list ''events'' (m_getList m ''events'') i"] s assms by (force simp: renew_events_def Let_def)
qed

lemma same_self_trans: "same_self a b \<Longrightarrow> same_self b c \<Longrightarrow> same_self a c"
  by (simp add: same_self_def)

lemma stamp_ok:
  assumes "net_ok L net" "sm_find (foreign_agents net) a = Some i"
  shows "net_ok L (stamp now a net)" "same_self net (stamp now a net)"
    "sm_find (foreign_agents (stamp now a net)) b = (if b = a then Some (i\<lparr>timestamp := now\<rparr>) else sm_find (foreign_agents net) b)"
  using assms by (auto simp: stamp_def net_ok_def net_inv_def same_self_def hat_inv)

lemma wsServer_ok:
  assumes "n0 = (if a = ''wsserver'' then wsServerUpdate m net else net)"
  shows "same_self net n0" "foreign_agents n0 = foreign_agents net" "net_ok L n0 = net_ok L net"
proof -
  show f: "same_self net n0" "foreign_agents n0 = foreign_agents net"
    using assms by (simp_all add: wsServerUpdate_def same_self_def)
  have "ptr_of n0 = ptr_of net" "net_bus n0 = net_bus net" "next_ptr n0 = next_ptr net"
    using assms by (simp_all add: wsServerUpdate_def ptr_of_def fun_eq_iff)
  with f show "net_ok L n0 = net_ok L net" by (simp add: net_ok_def net_inv_def)
qed

lemma net_refresh_ok:
  assumes "net_ok L net" and "parse (m_xmlEncode 0 m) \<noteq> []"
  shows "\<exists>n i. net_refresh parse c h ev m net = Some n \<and> net_ok L n \<and> same_self net n
    \<and> (\<forall>b. sm_find (foreign_agents n) b
          = (if b = m_getString m ''agentname'' then Some i else sm_find (foreign_agents net) b))"
proof (cases "sm_find (foreign_agents net) (m_getString m ''agentname'')")
  case None
  with connect_ok [where parse = parse and m = m, OF assms(1) None assms(2), of c h ev] show ?thesis
    by (auto simp: net_refresh_def)
next
  case (Some i)
  let ?a = "m_getString m ''agentname''"
  obtain j n1 where 1: "renew_ip c h m i net = Some (j, n1)" "net_ok L n1" "same_self net n1"
    "\<forall>b. sm_find (foreign_agents n1) b = (if b = ?a then Some j else sm_find (foreign_agents net) b)"
    using renew_ok(1) [OF assms(1) Some, of c h] by blast
  then have "sm_find (foreign_agents n1) ?a = Some j" by simp
  from renew_ok(2) [OF 1(2) this, of c h] obtain k n2 where 2: "renew_events c h m j n1 = Some (k, n2)"
    "net_ok L n2" "same_self n1 n2"
    "\<forall>b. sm_find (foreign_agents n2) b = (if b = ?a then Some k else sm_find (foreign_agents n1) b)" by blast
  have "same_self net n2" by (rule same_self_trans [OF 1(3) 2(3)])
  with Some 1 2 show ?thesis by (auto simp: net_refresh_def)
qed

text \<open>An announcement never crashes, keeps the invariant and the agent itself, and touches the
  entry of the announced agent only: if it observes something exported here, it is in the table
  with the time of the announcement.\<close>

lemma net_update_ok:
  assumes "net_ok L net" and "parse (m_xmlEncode 0 m) \<noteq> []"
  shows "\<exists>n. net_update parse c h now m net = Some (fst (evFilter (mysubjects net) (m_getList m ''observe'')), n)
    \<and> net_ok L n \<and> same_self net n
    \<and> (\<forall>b. b \<noteq> m_getString m ''agentname'' \<longrightarrow> sm_find (foreign_agents n) b = sm_find (foreign_agents net) b)
    \<and> (fst (evFilter (mysubjects net) (m_getList m ''observe'')) \<longrightarrow>
         (\<exists>i. sm_find (foreign_agents n) (m_getString m ''agentname'') = Some i \<and> timestamp i = now))"
proof -
  let ?a = "m_getString m ''agentname''"
  define n0 where "n0 = (if ?a = ''wsserver'' then wsServerUpdate m net else net)"
  note w = wsServer_ok [OF n0_def]
  obtain ok ev where f: "evFilter (mysubjects net) (m_getList m ''observe'') = (ok, ev)" by fastforce
  have my: "mysubjects n0 = mysubjects net" using w(1) by (simp add: same_self_def)
  have ok0: "net_ok L n0" using w(3) assms(1) by simp
  show ?thesis
  proof (cases ok)
    case False
    with f my w ok0 show ?thesis by (auto simp: net_update_def n0_def [symmetric] Let_def)
  next
    case True
    obtain n i where n: "net_refresh parse c h ev m n0 = Some n" "net_ok L n" "same_self n0 n"
      "\<forall>b. sm_find (foreign_agents n) b = (if b = ?a then Some i else sm_find (foreign_agents n0) b)"
      using net_refresh_ok [where parse = parse and m = m and c = c and h = h and ev = ev, OF ok0 assms(2)] by blast
    then have i: "sm_find (foreign_agents n) ?a = Some i" by simp
    have "net_update parse c h now m net = Some (True, stamp now ?a n)"
      unfolding net_update_def n0_def [symmetric] Let_def my f using True n(1) by simp
    moreover have "same_self net (stamp now ?a n)"
      using w(1) n(3) stamp_ok(2) [OF n(2) i, of now] same_self_trans by blast
    moreover have "\<forall>b. b \<noteq> ?a \<longrightarrow> sm_find (foreign_agents (stamp now ?a n)) b = sm_find (foreign_agents net) b"
      using stamp_ok(3) [OF n(2) i] n(4) w(2) by simp
    ultimately show ?thesis using True f stamp_ok [OF n(2) i, of now] by auto
  qed
qed

lemma hear_namesake_ok:
  assumes "net_ok L net"
  shows "net_ok L (hear_namesake h now m net)" "foreign_agents (hear_namesake h now m net) = foreign_agents net"
    "validityTime (hear_namesake h now m net) = validityTime net"
proof -
  have "ptr_of (hear_namesake h now m net) = ptr_of net" by (simp add: hear_namesake_def ptr_of_def fun_eq_iff)
  then show "net_ok L (hear_namesake h now m net)"
    using assms by (simp add: hear_namesake_def net_ok_def net_inv_def)
qed (simp_all add: hear_namesake_def)

text \<open>The XML library finds an element in what \<open>xmlEncode\<close> writes, and in the texts received.\<close>

definition xml_ok :: "(string \<Rightarrow> xnode list) \<Rightarrow> recv_event \<Rightarrow> bool" where
  "xml_ok parse ev \<longleftrightarrow> (\<forall>m. parse (m_xmlEncode 0 m) \<noteq> []) \<and> (\<forall>text. ev = RecvText text \<longrightarrow> parse text \<noteq> [])"

lemma recv_status_ok:
  assumes "net_ok L net" and "xml_ok parse ev"
  shows "\<exists>n. recv_status parse me c h now ev net = Some n \<and> net_ok L n \<and> validityTime n = validityTime net
    \<and> (ev \<noteq> RecvFailed \<longrightarrow> (\<forall>a i. sm_find (foreign_agents n) a = Some i \<longrightarrow> now - timestamp i \<le> validityTime n))"
proof -
  have exp: "\<exists>n. check_expired now x = Some n \<and> net_ok L n \<and> validityTime n = validityTime x
      \<and> (\<forall>a i. sm_find (foreign_agents n) a = Some i \<longrightarrow> now - timestamp i \<le> validityTime n)" if "net_ok L x" for x
    using check_expired_ok [OF that, of now] check_expired_fresh [OF that, of now] by blast
  show ?thesis
  proof (cases ev)
    case RecvFailed
    then show ?thesis using assms(1) by (simp add: recv_status_def)
  next
    case RecvNothing
    then show ?thesis using exp [OF assms(1)] by (simp add: recv_status_def)
  next
    case (RecvText s)
    with assms(2) obtain r m where m: "m_xmlDecode_doc (parse s) (m_type ''agentinfo'') = Some (r, m)"
      using decode_doc_total by (metis xml_ok_def)
    obtain n b where n: "net_update parse c h now m net = Some (b, n)" "net_ok L n" "same_self net n"
      using net_update_ok [OF assms(1), of parse m c h now] assms(2) unfolding xml_ok_def by blast
    have v: "validityTime n = validityTime net" using n(3) by (simp add: same_self_def)
    show ?thesis
      using RecvText m n(1) v exp [OF n(2)] exp [OF hear_namesake_ok(1) [OF assms(1), of h now m]]
        hear_namesake_ok(3) [OF assms(1), of h now m] by (simp add: recv_status_def)
  qed
qed

fun recv_run ::
  "(string \<Rightarrow> xnode list) \<Rightarrow> string \<Rightarrow> string \<Rightarrow> string \<Rightarrow> (int \<times> recv_event) list \<Rightarrow> agent_net \<Rightarrow> agent_net option" where
  "recv_run parse me c h [] net = Some net"
| "recv_run parse me c h ((now, ev) # es) net =
     (case recv_status parse me c h now ev net of None \<Rightarrow> None | Some n \<Rightarrow> recv_run parse me c h es n)"

lemma recv_run_ok:
  assumes "net_ok L net" and "\<forall>(now, ev) \<in> set es. xml_ok parse ev"
  shows "\<exists>n. recv_run parse me c h es net = Some n \<and> net_ok L n \<and> validityTime n = validityTime net"
  using assms
proof (induction es arbitrary: net)
  case Nil
  then show ?case by simp
next
  case (Cons e es)
  obtain now ev where e: "e = (now, ev)" by (cases e)
  obtain n where n: "recv_status parse me c h now ev net = Some n" "net_ok L n" "validityTime n = validityTime net"
    using recv_status_ok [OF Cons.prems(1), of parse ev] Cons.prems(2) e by fastforce
  from Cons.IH [OF n(2)] Cons.prems(2) n e show ?case by auto
qed

lemma recv_run_snoc:
  "recv_run parse me c h (es @ [(now, ev)]) net =
     (case recv_run parse me c h es net of None \<Rightarrow> None | Some n \<Rightarrow> recv_status parse me c h now ev n)"
  by (induction es arbitrary: net) (auto split: option.splits)

text \<open>C11: whatever well-formed announcements arrive, in whatever order, and whatever times out in
  between, the receiver never crashes, and after every turn the table holds only agents heard
  within the validity time; each of them, and nobody else, has an observer of its own on the bus:
  every registration belongs to a local thread or to an agent that is still alive.\<close>

theorem agents_alive:
  assumes "net_ok L net" and "\<forall>(now, ev) \<in> set es. xml_ok parse ev" and "xml_ok parse ev" and "ev \<noteq> RecvFailed"
  shows "\<exists>n. recv_run parse me c h (es @ [(now, ev)]) net = Some n \<and> net_ok L n
    \<and> (\<forall>a i. sm_find (foreign_agents n) a = Some i \<longrightarrow> now - timestamp i \<le> validityTime net)
    \<and> (\<forall>a. (\<exists>p ob. sm_find (tcp_observers n) a = Some (p, ob)) \<longleftrightarrow> (\<exists>i. sm_find (foreign_agents n) a = Some i))
    \<and> (\<forall>k p. (k, p) \<in> regs (net_bus n) \<longrightarrow> p \<in> L \<or>
         (\<exists>a ob i. sm_find (tcp_observers n) a = Some (p, ob) \<and> sm_find (foreign_agents n) a = Some i
            \<and> now - timestamp i \<le> validityTime net))"
proof -
  obtain n1 where 1: "recv_run parse me c h es net = Some n1" "net_ok L n1" "validityTime n1 = validityTime net"
    using recv_run_ok [OF assms(1,2)] by blast
  obtain n where n: "recv_status parse me c h now ev n1 = Some n" "net_ok L n" "validityTime n = validityTime n1"
    "\<forall>a i. sm_find (foreign_agents n) a = Some i \<longrightarrow> now - timestamp i \<le> validityTime n"
    using recv_status_ok [OF 1(2) assms(3)] assms(4) by blast
  have p: "ptr_inv L (net_bus n) (next_ptr n) (ptr_of n)"
    and t: "ptr_of n a = None \<longleftrightarrow> sm_find (foreign_agents n) a = None" for a
    using n(2) by (simp_all add: net_ok_def net_inv_def)
  have b: "(\<exists>p ob. sm_find (tcp_observers n) a = Some (p, ob)) \<longleftrightarrow> (\<exists>i. sm_find (foreign_agents n) a = Some i)" for a
    using t [of a] by (cases "sm_find (tcp_observers n) a") (auto simp: ptr_of_def)
  have "p \<in> L \<or> (\<exists>a ob i. sm_find (tcp_observers n) a = Some (p, ob) \<and> sm_find (foreign_agents n) a = Some i
      \<and> now - timestamp i \<le> validityTime net)" if "(k, p) \<in> regs (net_bus n)" for k p
  proof -
    have "p \<in> L \<or> (\<exists>a. ptr_of n a = Some p)" using that p unfolding ptr_inv_def by blast
    then show ?thesis using b n(3,4) 1(3) by (fastforce simp: ptr_of_def)
  qed
  then show ?thesis using 1 n b by (auto simp: recv_run_snoc)
qed

lemma regs_insert_copy: "regs (sm_insert k (subject_copy s) ss) = regs ss"
proof -
  have "(q, x) \<in> regs (sm_insert k (subject_copy s) ss) \<longleftrightarrow> (q, x) \<in> regs ss" for q x
    by (cases "sm_find ss k") (auto simp: regs_def subject_copy_def)
  then show ?thesis by auto
qed

lemma regs_add_subject [simp]: "regs (add_subject ty sty ss) = regs ss"
  by (simp add: add_subject_def regs_insert_copy)

lemma fold_add_subject:
  assumes "ss_wf ss" "regs ss = {}"
  shows "ss_wf (fold add_dotted l ss) \<and> regs (fold add_dotted l ss) = {}"
  using assms
proof (induction l arbitrary: ss)
  case Nil
  then show ?case by simp
next
  case (Cons s l)
  have "ss_wf (add_dotted s ss)" using Cons.prems by (simp add: add_dotted_def case_prod_beta hat_inv)
  moreover have "regs (add_dotted s ss) = {}"
    using Cons.prems(2) by (simp add: add_dotted_def case_prod_beta)
  ultimately show ?case using Cons.IH by simp
qed

text \<open>The agent starts in a state that satisfies the invariant, with nobody registered.\<close>

lemma net_init_ok:
  "net_ok {} (net_init v u me c h ip netpar multicast (net_static boot conf))"
  "foreign_agents (net_init v u me c h ip netpar multicast (net_static boot conf)) = []"
proof -
  let ?n = "net_init v u me c h ip netpar multicast (net_static boot conf)"
  have "net_bus ?n = fold add_dotted (externsubjects ?n) (fold add_dotted (mysubjects ?n) [])"
    "ptr_of ?n = (\<lambda>_. None)" and f: "foreign_agents ?n = []"
    by (simp_all add: net_init_def addSubjects_def Let_def net_retrieveInfo_def net_MakePage_def net_init_base_def
        net_static_def ptr_of_def fun_eq_iff)
  moreover have "ss_wf []" "regs [] = {}" by (simp_all add: ss_wf_def regs_def)
  then have "ss_wf (fold add_dotted l (fold add_dotted k [])) \<and> regs (fold add_dotted l (fold add_dotted k [])) = {}" for l k
    using fold_add_subject by blast
  ultimately show "net_ok {} ?n" unfolding net_ok_def net_inv_def ptr_inv_def by simp
  show "foreign_agents ?n = []" by (rule f)
qed

theorem agents_alive_witness:
  "\<exists>n. recv_run (\<lambda>_. [XDeclaration, XElement ''message'' [] []]) ''gate'' '''' '''' ([(5, RecvText ''a'')] @ [(9, RecvNothing)])
     (net_init 0 0 ''gate'' '''' '''' ''10.0.0.2'' mp_default mp_default
       (net_static 0 \<lparr>conf_status = 0, urlindex = [], currentday = '''', conf_files = (\<lambda>_. None)\<rparr>)) = Some n"
proof -
  let ?n = "net_init 0 0 ''gate'' '''' '''' ''10.0.0.2'' mp_default mp_default
       (net_static 0 \<lparr>conf_status = 0, urlindex = [], currentday = '''', conf_files = (\<lambda>_. None)\<rparr>)"
  have "\<exists>n. recv_run (\<lambda>_. [XDeclaration, XElement ''message'' [] []]) ''gate'' '''' '''' ([(5, RecvText ''a'')] @ [(9, RecvNothing)]) ?n = Some n
    \<and> net_ok {} n \<and> (\<forall>a i. sm_find (foreign_agents n) a = Some i \<longrightarrow> 9 - timestamp i \<le> validityTime ?n)
    \<and> (\<forall>a. (\<exists>p ob. sm_find (tcp_observers n) a = Some (p, ob)) \<longleftrightarrow> (\<exists>i. sm_find (foreign_agents n) a = Some i))
    \<and> (\<forall>k p. (k, p) \<in> regs (net_bus n) \<longrightarrow> p \<in> {} \<or>
         (\<exists>a ob i. sm_find (tcp_observers n) a = Some (p, ob) \<and> sm_find (foreign_agents n) a = Some i
            \<and> 9 - timestamp i \<le> validityTime ?n))"
    by (rule agents_alive) (simp_all add: net_init_ok(1) xml_ok_def)
  then show ?thesis by blast
qed

text \<open>A packet that is no XML document ends the process.\<close>

lemma bad_packet_crashes:
  "parse s = [] \<Longrightarrow> recv_status parse me c h now (RecvText s) net = None"
  by (simp add: recv_status_def m_xmlDecode_doc_def)

text \<open>Asking for the address of the agent itself makes an entry for it that is never heard of;
  the next check for expired agents then follows an iterator at the end of the other table.\<close>

lemma own_address_crashes:
  assumes "sm_find (foreign_agents net) me = None" "sm_find (tcp_observers net) me = None"
    and "now > validityTime net" and "net_ok L net"
  shows "check_expired now (snd (getAgentIp me now me net)) = None"
proof -
  let ?n = "snd (getAgentIp me now me net)"
  have n: "?n = net\<lparr>foreign_agents := sm_put me info_empty (foreign_agents net)\<rparr>"
    using assms(1) by (simp add: getAgentIp_def agent_field_def)
  have dead: "\<not> check_agent_status now me ?n" using assms(3) by (simp add: n check_agent_status_def info_empty_def)
  have "kill_all as x = None" if "me \<in> set as" "sm_find (tcp_observers x) me = None" for as x
    using that
  proof (induction as arbitrary: x)
    case (Cons a as)
    show ?case
    proof (cases "disactivateObserverTCP a x")
      case (Some y)
      with Cons.prems have "a \<noteq> me" "sm_find (tcp_observers y) me = None"
        by (auto simp: disactivateObserverTCP_def split: option.splits)
      with Some Cons show ?thesis by simp
    qed simp
  qed simp
  moreover have "me \<in> set (filter (\<lambda>a. \<not> check_agent_status now a ?n) (map fst (foreign_agents ?n)))"
    using dead by (simp add: n keys_put)
  ultimately show ?thesis using assms(2) by (simp add: check_expired_def n)
qed

subsection \<open>Two agents with one name\<close>

text \<open>The agent has stepped back for another of its name, heard last at \<open>t0\<close>.\<close>

definition standby :: "int \<Rightarrow> agent_net \<Rightarrow> bool" where
  "standby t0 net \<longleftrightarrow> info_string (myinfo net) ''status'' = ''waiting'' \<and> timestamp (myinfo net) = t0
     \<and> conf_status (net_conf net) = 0"

definition status_text :: "agent_net \<Rightarrow> bool" where
  "status_text net \<longleftrightarrow> m_wf (info_msg (myinfo net)) \<and> m_accepts (info_msg (myinfo net)) ''status'' ''''"

definition namesake_above :: "(string \<Rightarrow> xnode list) \<Rightarrow> string \<Rightarrow> string \<Rightarrow> recv_event \<Rightarrow> bool" where
  "namesake_above parse me ip ev \<longleftrightarrow> (\<exists>s r m. ev = RecvText s
     \<and> m_xmlDecode_doc (parse s) (m_type ''agentinfo'') = Some (r, m)
     \<and> m_getString m ''agentname'' = me \<and> m_getString m ''ip'' > ip)"

datatype net_turn = Recv int recv_event | Send double

fun turn_time :: "net_turn \<Rightarrow> int" where
  "turn_time (Recv now ev) = now"
| "turn_time (Send t) = trunc t"

fun net_turns ::
  "(string \<Rightarrow> xnode list) \<Rightarrow> string \<Rightarrow> string \<Rightarrow> string \<Rightarrow> string \<Rightarrow> net_turn list \<Rightarrow> agent_net \<Rightarrow>
     (agent_net \<times> string list) option" where
  "net_turns parse me aty c h [] net = Some (net, [])"
| "net_turns parse me aty c h (Recv now ev # ts) net =
     (case recv_status parse me c h now ev net of None \<Rightarrow> None | Some n \<Rightarrow> net_turns parse me aty c h ts n)"
| "net_turns parse me aty c h (Send t # ts) net =
     (let (n, sent, es) = send_status me aty h t net
      in map_option (\<lambda>(n', out). (n', (case sent of Some s \<Rightarrow> [s] | None \<Rightarrow> []) @ out)) (net_turns parse me aty c h ts n))"

text \<open>The state of an agent with respect to its namesakes.\<close>

definition self_ok :: "observer_ptr set \<Rightarrow> string \<Rightarrow> agent_net \<Rightarrow> bool" where
  "self_ok L me net \<longleftrightarrow> net_ok L net \<and> status_text net \<and> sm_find (foreign_agents net) me = None"

lemma check_expired_self:
  assumes "self_ok L me net"
  shows "\<exists>n. check_expired now net = Some n \<and> self_ok L me n \<and> net_conf n = net_conf net \<and> myinfo n = myinfo net
    \<and> validityTime n = validityTime net"
proof -
  have "net_ok L net" using assms by (simp add: self_ok_def)
  from check_expired_ok [OF this, of now] obtain n where n: "check_expired now net = Some n" "net_ok L n"
    "net_conf n = net_conf net" "myinfo n = myinfo net" "validityTime n = validityTime net"
    "\<forall>a. sm_find (foreign_agents n) a = (if check_agent_status now a net then sm_find (foreign_agents net) a else None)"
    by blast
  with assms show ?thesis by (simp add: self_ok_def status_text_def)
qed

lemma recv_other:
  assumes "self_ok L me net" "xml_ok parse ev" "me \<noteq> ''configurator''"
    and "\<not> namesake_above parse me (info_string (myinfo net) ''ip'') ev"
  shows "\<exists>n. recv_status parse me c h now ev net = Some n \<and> self_ok L me n \<and> net_conf n = net_conf net
    \<and> myinfo n = myinfo net \<and> validityTime n = validityTime net"
proof (cases ev)
  case RecvFailed
  then show ?thesis using assms(1) by (simp add: recv_status_def)
next
  case RecvNothing
  then show ?thesis using check_expired_self [OF assms(1)] by (simp add: recv_status_def)
next
  case (RecvText s)
  with assms(2) obtain r m where m: "m_xmlDecode_doc (parse s) (m_type ''agentinfo'') = Some (r, m)"
    using decode_doc_total by (metis xml_ok_def)
  show ?thesis
  proof (cases "m_getString m ''agentname'' = me")
    case True
    with assms(4) RecvText m have "hear_namesake h now m net = net"
      by (auto simp: namesake_above_def hear_namesake_def)
    with True assms(3) RecvText m check_expired_self [OF assms(1), of now] show ?thesis by (simp add: recv_status_def)
  next
    case False
    obtain n b where n: "net_update parse c h now m net = Some (b, n)" "net_ok L n" "same_self net n"
      "\<forall>b. b \<noteq> m_getString m ''agentname'' \<longrightarrow> sm_find (foreign_agents n) b = sm_find (foreign_agents net) b"
      using net_update_ok [of L net parse m c h now] assms(1,2) unfolding xml_ok_def self_ok_def by blast
    have "self_ok L me n" using n False assms(1) by (simp add: self_ok_def same_self_def status_text_def)
    from check_expired_self [OF this, of now] n False RecvText m show ?thesis
      by (simp add: recv_status_def same_self_def)
  qed
qed

lemma m_accepts_add: "m_accepts m f u \<Longrightarrow> m_accepts (m_add m f v) f w"
  by (auto simp: m_accepts_def m_add_def ms_of_string_def ms_add_def split: option.splits)

lemma recv_above:
  assumes "self_ok L me net" "me \<noteq> ''configurator''"
    and "namesake_above parse me (info_string (myinfo net) ''ip'') ev"
  shows "\<exists>n. recv_status parse me c h now ev net = Some n \<and> self_ok L me n \<and> standby now n
    \<and> xmlformat (myinfo n) = xmlformat (myinfo net) \<and> info_string (myinfo n) ''ip'' = info_string (myinfo net) ''ip''
    \<and> validityTime n = validityTime net"
proof -
  obtain s r m where m: "ev = RecvText s" "m_xmlDecode_doc (parse s) (m_type ''agentinfo'') = Some (r, m)"
    "m_getString m ''agentname'' = me" "m_getString m ''ip'' > info_string (myinfo net) ''ip''"
    using assms(3) by (auto simp: namesake_above_def)
  let ?n = "hear_namesake h now m net"
  have st: "m_wf (info_msg (myinfo net))" "m_accepts (info_msg (myinfo net)) ''status'' ''waiting''"
    using assms(1) by (simp_all add: self_ok_def status_text_def m_accepts_def)
  have "m_accepts (m_add (info_msg (myinfo net)) ''status'' ''waiting'') ''status'' ''''"
    using st(2) by (rule m_accepts_add)
  with st have w: "info_string (myinfo ?n) ''status'' = ''waiting''" "status_text ?n"
    using m(4) message_store.fetch_store [OF st]
    by (simp_all add: hear_namesake_def info_add_def status_text_def hat_inv)
  have "self_ok L me ?n" using w(2) assms(1) hear_namesake_ok [of L net h now m] by (simp add: self_ok_def)
  from check_expired_self [OF this, of now] obtain n where n: "check_expired now ?n = Some n" "self_ok L me n"
    "net_conf n = net_conf ?n" "myinfo n = myinfo ?n" "validityTime n = validityTime ?n" by blast
  show ?thesis using m assms(2) n w(1)
    by (simp add: recv_status_def standby_def hear_namesake_def info_add_def conf_setStatus_def)
qed

lemma send_standby:
  assumes "self_ok L me net" "standby t0 net"
  shows "trunc t \<le> t0 + validityTime net \<Longrightarrow> \<exists>n es. send_status me aty h t net = (n, None, es)
           \<and> self_ok L me n \<and> standby t0 n \<and> myinfo n = myinfo net \<and> validityTime n = validityTime net"
    and "trunc t > t0 + validityTime net \<Longrightarrow> \<exists>n es. send_status me aty h t net = (n, Some (xmlformat (myinfo net)), es)
           \<and> info_string (myinfo n) ''status'' = ''active'' \<and> conf_status (net_conf n) = 1"
proof -
  have f: "sm_find (foreign_agents net) me = None" and st: "m_wf (info_msg (myinfo net))"
    "m_accepts (info_msg (myinfo net)) ''status'' ''active''"
    using assms(1) by (simp_all add: self_ok_def status_text_def m_accepts_def)
  have s: "info_string (myinfo net) ''status'' = ''waiting''" "timestamp (myinfo net) = t0"
    using assms(2) by (simp_all add: standby_def)
  have nov: "ptr_of (net\<lparr>novelty := k\<rparr>) = ptr_of net" for k by (simp add: ptr_of_def fun_eq_iff)
  show "\<exists>n es. send_status me aty h t net = (n, None, es)
      \<and> self_ok L me n \<and> standby t0 n \<and> myinfo n = myinfo net \<and> validityTime n = validityTime net"
    if "trunc t \<le> t0 + validityTime net"
  proof -
    have "net_wake_up me h (trunc t) net = net" using that f s by (simp add: net_wake_up_def Let_def)
    then show ?thesis using s assms nov
      by (auto simp: send_status_def testNovelty_def Let_def standby_def self_ok_def status_text_def net_ok_def net_inv_def)
  qed
  show "\<exists>n es. send_status me aty h t net = (n, Some (xmlformat (myinfo net)), es)
      \<and> info_string (myinfo n) ''status'' = ''active'' \<and> conf_status (net_conf n) = 1"
    if "trunc t > t0 + validityTime net"
  proof -
    have "net_wake_up me h (trunc t) net = net\<lparr>myinfo := info_add ''status'' ''active'' (myinfo net),
        net_conf := conf_setStatus h 1 (net_conf net)\<rparr>" using that f s by (simp add: net_wake_up_def Let_def)
    moreover have "info_string (info_add ''status'' ''active'' (myinfo net)) ''status'' = ''active''"
      using message_store.fetch_store [OF st] by (simp add: info_add_def)
    ultimately show ?thesis by (simp add: send_status_def testNovelty_def Let_def conf_setStatus_def)
  qed
qed

lemma standby_turns:
  assumes "self_ok L me net" "standby t0 net" "me \<noteq> ''configurator''"
    and "\<forall>tn \<in> set ts. turn_time tn \<le> t0 + validityTime net"
    and "\<forall>now ev. Recv now ev \<in> set ts \<longrightarrow> xml_ok parse ev \<and> \<not> namesake_above parse me (info_string (myinfo net) ''ip'') ev"
  shows "\<exists>n. net_turns parse me aty c h ts net = Some (n, []) \<and> self_ok L me n \<and> standby t0 n
    \<and> myinfo n = myinfo net \<and> validityTime n = validityTime net"
  using assms
proof (induction ts arbitrary: net)
  case Nil
  then show ?case by simp
next
  case (Cons tn ts)
  show ?case
  proof (cases tn)
    case (Recv now ev)
    obtain n where n: "recv_status parse me c h now ev net = Some n" "self_ok L me n" "net_conf n = net_conf net"
      "myinfo n = myinfo net" "validityTime n = validityTime net"
      using recv_other [OF Cons.prems(1) _ Cons.prems(3), of parse ev c h now] Cons.prems(5) Recv by auto
    then have "standby t0 n" using Cons.prems(2) by (simp add: standby_def)
    from Cons.IH [OF n(2) this Cons.prems(3)] Cons.prems(4,5) n Recv show ?thesis by simp
  next
    case (Send t)
    obtain n es where n: "send_status me aty h t net = (n, None, es)" "self_ok L me n" "standby t0 n"
      "myinfo n = myinfo net" "validityTime n = validityTime net"
      using send_standby(1) [OF Cons.prems(1,2), of t aty h] Cons.prems(4) Send by auto
    from Cons.IH [OF n(2,3) Cons.prems(3)] Cons.prems(4,5) n Send show ?thesis by simp
  qed
qed

text \<open>C12: an agent that hears another of its own name with a greater address at time \<open>t0\<close> steps back:
  whatever else it receives and however its threads are scheduled, it announces nothing and its
  bus delivers nothing until \<open>t0\<close> plus the validity time; if the other is not heard again, the
  first turn of the sender after that announces it and it is active again.\<close>

theorem standby_takeover:
  assumes "self_ok L me net0" "me \<noteq> ''configurator''"
    and "namesake_above parse me (info_string (myinfo net0) ''ip'') ev0"
    and "recv_status parse me c h t0 ev0 net0 = Some net"
    and "\<forall>tn \<in> set ts. turn_time tn \<le> t0 + validityTime net0"
    and "\<forall>now ev. Recv now ev \<in> set ts \<longrightarrow>
           xml_ok parse ev \<and> \<not> namesake_above parse me (info_string (myinfo net0) ''ip'') ev"
  shows "\<exists>n. net_turns parse me aty c h ts net = Some (n, [])
    \<and> ss_notify (conf_status (net_conf n)) m (net_bus n) = Some (False, [])
    \<and> (\<forall>t n' sent es. send_status me aty h t n = (n', sent, es) \<longrightarrow>
         (if trunc t \<le> t0 + validityTime net0 then sent = None \<and> standby t0 n'
          else sent = Some (xmlformat (myinfo net0)) \<and> conf_status (net_conf n') = 1
               \<and> info_string (myinfo n') ''status'' = ''active''))"
proof -
  have 1: "self_ok L me net" "standby t0 net" "xmlformat (myinfo net) = xmlformat (myinfo net0)"
    "info_string (myinfo net) ''ip'' = info_string (myinfo net0) ''ip''" "validityTime net = validityTime net0"
    using recv_above [OF assms(1-3), of c h t0] assms(4) by auto
  obtain n where n: "net_turns parse me aty c h ts net = Some (n, [])" "self_ok L me n" "standby t0 n"
    "myinfo n = myinfo net" "validityTime n = validityTime net"
    using standby_turns [OF 1(1,2) assms(2), of ts parse aty c h] assms(5,6) 1(4,5) by auto
  have s: "if trunc t \<le> t0 + validityTime net0 then sent = None \<and> standby t0 n'
      else sent = Some (xmlformat (myinfo net0)) \<and> conf_status (net_conf n') = 1
        \<and> info_string (myinfo n') ''status'' = ''active''" if "send_status me aty h t n = (n', sent, es)" for t n' sent es
    using send_standby [OF n(2,3), of t aty h] that n(4,5) 1(3,5) by (auto split: if_splits)
  moreover have "ss_notify (conf_status (net_conf n)) m (net_bus n) = Some (False, [])"
    using n(3) by (simp add: standby_def ss_notify_def ss_notify_to_def)
  ultimately show ?thesis using n(1) by blast
qed

lemma retrieveInfo_text:
  "m_wf (info_msg (retrieveInfo me ip port ev))" "m_accepts (info_msg (retrieveInfo me ip port ev)) ''status'' ''''"
  "info_string (retrieveInfo me ip port ev) ''ip'' = ip" "info_string (retrieveInfo me ip port ev) ''status'' = ''active''"
proof -
  let ?m = "snd (m_add_list (m_add (m_add (m_add m_default ''agentname'' me) ''ip'' ip) ''port'' port) ''observe'' ev)"
  have i: "info_msg (retrieveInfo me ip port ev) = m_add ?m ''status'' ''active''"
    by (simp add: retrieveInfo_def info_add_def info_add_list_def info_empty_def Let_def)
  have wf: "m_wf ?m" by (simp add: hat_inv)
  have none: "sm_find (mfields ?m) ''status'' = None" "sm_find (mfields (m_add m_default ''agentname'' me)) ''ip'' = None"
    by (simp_all add: m_default_def)
  show "m_wf (info_msg (retrieveInfo me ip port ev))" using wf by (simp add: i hat_inv)
  show "m_accepts (info_msg (retrieveInfo me ip port ev)) ''status'' ''''"
    unfolding i by (rule m_accepts_add) (simp add: none(1) m_accepts_def)
  show "info_string (retrieveInfo me ip port ev) ''ip'' = ip"
    using none(2) by (simp add: i m_getString_add_fresh)
  show "info_string (retrieveInfo me ip port ev) ''status'' = ''active''"
    using none(1) by (simp add: i m_getString_add_fresh)
qed

lemma net_init_self:
  "self_ok {} me (net_init v u me c h ip netpar multicast (net_static boot conf))"
  "info_string (myinfo (net_init v u me c h ip netpar multicast (net_static boot conf))) ''ip'' = ip"
proof -
  let ?n = "net_init v u me c h ip netpar multicast (net_static boot conf)"
  have "myinfo ?n = retrieveInfo me ip (mp_get netpar ''port'') (externsubjects ?n)"
    by (simp add: net_init_def addSubjects_def net_retrieveInfo_def Let_def)
  then show "self_ok {} me ?n" "info_string (myinfo ?n) ''ip'' = ip"
    using net_init_ok by (simp_all add: self_ok_def status_text_def retrieveInfo_text)
qed

text \<open>An example: an agent \<^verbatim>\<open>gate\<close> at 10.0.0.2, and the announcement of a namesake at 10.0.0.9.\<close>

definition example_gate :: agent_net where
  "example_gate = net_init 0 0 ''gate'' '''' '''' ''10.0.0.2''
     (mp_default\<lparr>attrs := [ma_new ''door'' ''subject'' ''event'']\<rparr>) mp_default
     (net_static 0 \<lparr>conf_status = 0, urlindex = [], currentday = '''', conf_files = (\<lambda>_. None)\<rparr>)"

definition example_parse :: "mmessage \<Rightarrow> string \<Rightarrow> xnode list" where
  "example_parse m s = [XDeclaration, message_node m]"

lemma example_gate_ok: "self_ok {} ''gate'' example_gate" "info_string (myinfo example_gate) ''ip'' = ''10.0.0.2''"
  "validityTime example_gate = 180" "mysubjects example_gate = [''door.event'']"
proof -
  show "self_ok {} ''gate'' example_gate" "info_string (myinfo example_gate) ''ip'' = ''10.0.0.2''"
    unfolding example_gate_def by (rule net_init_self)+
  show "validityTime example_gate = 180" "mysubjects example_gate = [''door.event'']"
    by (simp_all add: example_gate_def net_init_def addSubjects_def Let_def net_retrieveInfo_def net_MakePage_def
        net_init_base_def net_static_def time_or_def mp_get_cat_def mp_get_def mp_extractCategory_def mp_default_def
        ma_new_def dotted_def)
qed

lemma decode_encoded:
  assumes "m_wf m"
  shows "m_xmlDecode_doc [XDeclaration, message_node m] m0
    = Some (True, m0\<lparr>mtype := msubtype m, msubtype := msubtype m, mfields := mfields m\<rparr>)"
proof -
  have "sm_find (fold (\<lambda>(f, l). sm_put f l) (mfields m) []) k = sm_find (mfields m) k" for k
    using fold_put_find [of "mfields m" "\<lambda>l. l" "[]" k] assms by (simp add: m_wf_def ordered_distinct split: option.splits)
  moreover have "sm_ordered (fold (\<lambda>(f, l). sm_put f l) fs acc)" if "sm_ordered acc" for fs acc :: "(string, mstring_list) smap"
    using that by (induction fs arbitrary: acc) (auto simp: hat_inv)
  ultimately have "fold (\<lambda>(f, l). sm_put f l) (mfields m) [] = mfields m"
    using assms by (intro smap_ext) (simp_all add: m_wf_def)
  moreover have "\<forall>(f, l) \<in> set (mfields m). \<forall>m. decode_field [''Mstring''] Some (field_node (f, l)) m
      = m\<lparr>mfields := sm_put f l (mfields m)\<rparr>" using assms by (auto simp: m_wf_def decode_field_doc)
  ultimately show ?thesis
    using fold_decode_fields [of "mfields m" "[''Mstring'']" Some "\<lambda>l. l" "m0\<lparr>mtype := msubtype m, msubtype := msubtype m, mfields := []\<rparr>"]
    by (simp add: m_xmlDecode_doc_def message_node_def Let_def)
qed

theorem standby_takeover_witness:
  "\<exists>net n. recv_status (example_parse (m_add (m_add (m_type ''agentinfo'') ''agentname'' ''gate'') ''ip'' ''10.0.0.9''))
      ''gate'' '''' '''' 100 (RecvText ''x'') example_gate = Some net
    \<and> net_turns (example_parse (m_add (m_add (m_type ''agentinfo'') ''agentname'' ''gate'') ''ip'' ''10.0.0.9''))
        ''gate'' '''' '''' '''' [Send 200] net = Some (n, [])"
proof -
  define m where "m = m_add (m_add (m_type ''agentinfo'') ''agentname'' ''gate'') ''ip'' ''10.0.0.9''"
  have "m_texts m" by (simp add: m_def)
  then have "m_wf m" by (simp add: m_texts_def)
  from decode_encoded [OF this, of "m_type ''agentinfo''"] have d:
    "m_xmlDecode_doc (example_parse m ''x'') (m_type ''agentinfo'') = Some (True, m\<lparr>mtype := ''*'', msubtype := ''*''\<rparr>)"
    by (simp add: example_parse_def m_def m_type_def)
  have "m_getString (m\<lparr>mtype := t, msubtype := u\<rparr>) f = m_getString m f" for t u f by (simp add: m_getString_def)
  moreover have "m_getString m ''agentname'' = ''gate''" "m_getString m ''ip'' = ''10.0.0.9''" by (simp_all add: m_def)
  moreover have "(''10.0.0.2'' :: string) < ''10.0.0.9''" by (simp add: less_char_def)
  ultimately have ab: "namesake_above (example_parse m) ''gate'' (info_string (myinfo example_gate) ''ip'') (RecvText ''x'')"
    unfolding namesake_above_def example_gate_ok(2) using d by force
  obtain net where net: "recv_status (example_parse m) ''gate'' '''' '''' 100 (RecvText ''x'') example_gate = Some net"
    using recv_above [OF example_gate_ok(1) _ ab, of "''''" "''''" 100] by auto
  have tt: "trunc 200 = 200" using trunc_of_int [of 200] by simp
  have "\<exists>n. net_turns (example_parse m) ''gate'' '''' '''' '''' [Send 200] net = Some (n, [])"
    using standby_takeover [OF example_gate_ok(1) _ ab net, where ts = "[Send 200]" and aty = "''''" and m = m] tt
    by (simp add: example_gate_ok del: net_turns.simps) blast
  with net show ?thesis unfolding m_def by blast
qed

subsection \<open>From an announcement to the events\<close>

lemma attrs_add_cat:
  assumes "mp_wf p"
  shows "set (attrs (mp_add_cat p n c v)) = {a \<in> set (attrs p). \<not> key_is n c a} \<union> {ma_new n c v}"
proof (cases "set_loop (key_is n c) v (attrs p)")
  case None
  then have "\<forall>a \<in> set (attrs p). \<not> key_is n c a" by (simp add: set_loop_None)
  with None show ?thesis by (auto simp: mp_add_cat_def)
next
  case (Some bs)
  then obtain xs a ys where eq: "attrs p = xs @ a # ys" "key_is n c a" "bs = xs @ a\<lparr>ma_value := v\<rparr> # ys"
    using set_loop_split [OF Some] by blast
  have "a\<lparr>ma_value := v\<rparr> = ma_new n c v" using eq(2) by (simp add: ma_new_def)
  moreover have "(ma_name a, ma_category a) \<notin> (\<lambda>a. (ma_name a, ma_category a)) ` (set xs \<union> set ys)"
    using assms eq(1) by (auto simp: mp_wf_def)
  then have "\<forall>b \<in> set xs \<union> set ys. \<not> key_is n c b" using eq(2) by (simp add: image_iff) metis
  ultimately show ?thesis using Some eq by (auto simp: mp_add_cat_def)
qed

lemma mp_get_add_other_cat: "c \<noteq> ''generic'' \<Longrightarrow> mp_get (mp_add_cat p n c v) g = mp_get p g"
proof (cases "set_loop (key_is n c) v (attrs p)")
  case (Some bs)
  then obtain xs a ys where "attrs p = xs @ a # ys" "key_is n c a" "bs = xs @ a\<lparr>ma_value := v\<rparr> # ys"
    using set_loop_split [OF Some] by blast
  moreover assume "c \<noteq> ''generic''"
  ultimately show ?thesis using Some by (auto simp: mp_get_def mp_add_cat_def get_loop_append)
qed (simp add: mp_get_def mp_add_cat_def get_loop_append ma_new_def)

abbreviation observe_attr :: "string \<Rightarrow> mattribute" where
  "observe_attr e \<equiv> ma_new (snd (net_split e)) ''observe'' (fst (net_split e))"

lemma add_observed_simps [simp]:
  "add_observed [] d = d"
  "add_observed (e # es) d = add_observed es (mp_add_cat d (snd (net_split e)) ''observe'' (fst (net_split e)))"
  by (simp_all add: add_observed_def case_prod_beta)

lemma add_observed_wf [hat_inv]: "mp_wf d \<Longrightarrow> mp_wf (add_observed es d)"
  by (induction es arbitrary: d) (simp_all add: hat_inv)

lemma add_observed_get [simp]: "mp_get (add_observed es d) g = mp_get d g"
  by (induction es arbitrary: d) (simp_all add: mp_get_add_other_cat)

lemma add_observed_other:
  "mp_wf d \<Longrightarrow> \<forall>x \<in> set es. snd (net_split x) \<noteq> s \<Longrightarrow> key_is s ''observe'' a
   \<Longrightarrow> a \<in> set (attrs (add_observed es d)) \<longleftrightarrow> a \<in> set (attrs d)"
proof (induction es arbitrary: d)
  case (Cons x es)
  let ?d = "mp_add_cat d (snd (net_split x)) ''observe'' (fst (net_split x))"
  have "a \<in> set (attrs ?d) \<longleftrightarrow> a \<in> set (attrs d)"
    using attrs_add_cat [OF Cons.prems(1)] Cons.prems(2,3) by (auto simp: ma_new_def)
  moreover have "mp_wf ?d" using Cons.prems(1) by (simp add: hat_inv)
  ultimately show ?case using Cons.IH [of ?d] Cons.prems by simp
qed simp

text \<open>The description of an agent has room for one event of each subtype, the last one.\<close>

lemma add_observed_in:
  assumes "mp_wf d" "e \<in> set es" "\<forall>x \<in> set es. snd (net_split x) = snd (net_split e) \<longrightarrow> net_split x = net_split e"
  shows "observe_attr e \<in> set (attrs (add_observed es d))"
  using assms
proof (induction es arbitrary: d e)
  case (Cons x es)
  let ?d = "mp_add_cat d (snd (net_split x)) ''observe'' (fst (net_split x))"
  have wf: "mp_wf ?d" using Cons.prems(1) by (simp add: hat_inv)
  show ?case
  proof (cases "\<exists>y \<in> set es. snd (net_split y) = snd (net_split e)")
    case True
    then obtain y where y: "y \<in> set es" "net_split y = net_split e" using Cons.prems(3) by (metis list.set_intros(2))
    have "\<forall>x \<in> set es. snd (net_split x) = snd (net_split y) \<longrightarrow> net_split x = net_split y"
      using Cons.prems(3) y(2) by simp
    from Cons.IH [OF wf y(1) this] y(2) show ?thesis by simp
  next
    case False
    then have "net_split x = net_split e" using Cons.prems(2,3) by auto
    moreover have "observe_attr x \<in> set (attrs ?d)" using attrs_add_cat [OF Cons.prems(1)] by blast
    ultimately show ?thesis
      using False add_observed_other [OF wf, of es "snd (net_split e)" "observe_attr e"] by (simp add: ma_new_def)
  qed
qed simp

lemma add_observed_last:
  assumes "mp_wf d" "a \<in> set (attrs (add_observed (es @ [e]) d))" "key_is (snd (net_split e)) ''observe'' a"
  shows "ma_value a = fst (net_split e)"
proof -
  have "add_observed (es @ [e]) d = mp_add_cat (add_observed es d) (snd (net_split e)) ''observe'' (fst (net_split e))"
    by (simp add: add_observed_def case_prod_beta)
  with attrs_add_cat [OF add_observed_wf [OF assms(1), of es]] assms(2,3) show ?thesis by (auto simp: ma_new_def)
qed

definition tcp_base :: "mmessage \<Rightarrow> mparams" where
  "tcp_base m = mp_add (mp_add (mp_add (mp_add (mp_add (mp_add (mp_default\<lparr>pty := m_getString m ''agentname''\<rparr>)
     ''name'' (m_getString m ''agentname'')) ''agent'' (m_getString m ''agentname''))
     ''address'' (m_getString m ''ip'')) ''port'' (m_getString m ''port'')) ''language'' ''xml'') ''status'' ''ON''"

lemma tcp_description_base:
  "tcp_description mys m = add_observed (snd (evFilter mys (m_getList m ''observe''))) (tcp_base m)"
  by (simp add: tcp_description_def tcp_base_def Let_def)

lemma tcp_base_props:
  "mp_wf (tcp_base m)" "mp_get (tcp_base m) ''language'' = ''xml''" "mp_get (tcp_base m) ''status'' = ''ON''"
  "m_getString m ''ip'' \<noteq> '''' \<Longrightarrow> m_getString m ''port'' \<noteq> '''' \<Longrightarrow>
   mp_get (tcp_base m) ''address'' = m_getString m ''ip'' \<and> mp_get (tcp_base m) ''port'' = m_getString m ''port''"
proof -
  have "mp_wf (mp_default\<lparr>pty := t\<rparr>)" for t by (simp add: mp_wf_def mp_default_def)
  then show "mp_wf (tcp_base m)" by (simp add: tcp_base_def mp_add_as_cat hat_inv)
qed (simp_all add: tcp_base_def mp_get_add)

text \<open>Two observed events of one subtype: only the later one is kept.\<close>

lemma same_subtype_lost:
  assumes "snd (evFilter mys (m_getList m ''observe'')) = es @ [e]"
    and "x \<in> set es" "snd (net_split x) = snd (net_split e)" "fst (net_split x) \<noteq> fst (net_split e)"
  shows "observe_attr x \<notin> set (attrs (tcp_description mys m))"
proof
  assume "observe_attr x \<in> set (attrs (tcp_description mys m))"
  then have "observe_attr x \<in> set (attrs (add_observed (es @ [e]) (tcp_base m)))" by (simp add: tcp_description_base assms(1))
  from add_observed_last [OF tcp_base_props(1) this] assms(3,4) show False by (simp add: ma_new_def)
qed

text \<open>A later announcement with another list of observed events, from the same address, changes
  nothing but the time: the code compares a field \<^verbatim>\<open>events\<close> that no agent sends.\<close>

lemma new_observe_list_ignored:
  assumes "sm_find (foreign_agents net) a = Some i" "m_getString m ''agentname'' = a" "a \<noteq> ''wsserver''"
    and "m_getString m ''ip'' = info_string i ''ip''"
    and "m_getList m ''events'' = []" "m_getList (info_msg i) ''events'' = []"
    and "last_subject_update net \<le> timestamp i"
    and "fst (evFilter (mysubjects net) (m_getList m ''observe''))"
  shows "net_update parse c h now m net = Some (True, set_info a (i\<lparr>timestamp := now\<rparr>) net)"
  using assms
  by (simp add: net_update_def Let_def net_refresh_def renew_ip_def renew_events_def stamp_def case_prod_beta)

lemma kill_all_keeps:
  assumes "kill_all as net = Some n" "ptr_inv L (net_bus net) (next_ptr net) (ptr_of net)" "b \<notin> set as"
    and "sm_find (tcp_observers net) b = Some (p, ob)"
  shows "sm_find (tcp_observers n) b = Some (p, ob) \<and> fst ` set (net_bus n) = fst ` set (net_bus net)
    \<and> ss_wf (net_bus n) \<and> ((k, p) \<in> regs (net_bus net) \<longrightarrow> (k, p) \<in> regs (net_bus n))"
  using assms
proof (induction as arbitrary: net)
  case Nil
  then show ?case by (auto dest: ptr_inv_wf)
next
  case (Cons a as)
  obtain y q oq where y: "sm_find (tcp_observers net) a = Some (q, oq)" "disactivateObserverTCP a net = Some y"
    "y = net\<lparr>net_bus := ss_remove_observer q (net_bus net), tcp_observers := sm_erase a (tcp_observers net)\<rparr>"
    using Cons.prems(1) by (auto simp: disactivateObserverTCP_def split: option.splits)
  let ?y = "y\<lparr>foreign_agents := sm_erase a (foreign_agents y), observer_files := sm_erase a (observer_files y)\<rparr>"
  have pa: "ptr_of net a = Some q" and pb: "ptr_of net b = Some p" using y(1) Cons.prems(4) by (simp_all add: ptr_of_def)
  then have "q \<noteq> p" using Cons.prems(2,3) unfolding ptr_inv_def by (metis list.set_intros(1))
  then have r: "(k, p) \<in> regs (net_bus ?y) \<longleftrightarrow> (k, p) \<in> regs (net_bus net)"
    by (simp add: y(3) regs_remove_observer [OF ptr_inv_wf [OF Cons.prems(2)]])
  have "ptr_of ?y = (ptr_of net)(a := None)" by (auto simp: y(3) ptr_of_def fun_eq_iff)
  then have inv: "ptr_inv L (net_bus ?y) (next_ptr ?y) (ptr_of ?y)" using ptr_inv_drop [OF Cons.prems(2) pa] by (simp add: y(3))
  have f: "sm_find (tcp_observers ?y) b = Some (p, ob)" using Cons.prems(3,4) by (simp add: y(3))
  have k: "kill_all as ?y = Some n" using Cons.prems(1) y(2) by simp
  have b: "b \<notin> set as" using Cons.prems(3) by simp
  from Cons.IH [OF k inv b f] r show ?case by (simp add: y(3))
qed

lemma check_expired_keeps:
  assumes "check_expired now net = Some n" "net_ok L net" "check_agent_status now b net"
    and "sm_find (tcp_observers net) b = Some (p, ob)"
  shows "sm_find (tcp_observers n) b = Some (p, ob)" "fst ` set (net_bus n) = fst ` set (net_bus net)"
    "ss_wf (net_bus n)" "(k, p) \<in> regs (net_bus net) \<Longrightarrow> (k, p) \<in> regs (net_bus n)"
proof -
  let ?k = "filter (\<lambda>a. \<not> check_agent_status now a net) (map fst (foreign_agents net))"
  let ?n0 = "net\<lparr>observer_files := fold sm_erase ?k (observer_files net)\<rparr>"
  have "ptr_of ?n0 = ptr_of net" by (simp add: ptr_of_def fun_eq_iff)
  then have "ptr_inv L (net_bus ?n0) (next_ptr ?n0) (ptr_of ?n0)" using assms(2) by (simp add: net_ok_def net_inv_def)
  moreover have "kill_all ?k ?n0 = Some n" using assms(1) by (simp add: check_expired_def Let_def)
  moreover have "b \<notin> set ?k" using assms(3) by simp
  moreover have "sm_find (tcp_observers ?n0) b = Some (p, ob)" using assms(4) by simp
  ultimately have "sm_find (tcp_observers n) b = Some (p, ob) \<and> fst ` set (net_bus n) = fst ` set (net_bus ?n0)
      \<and> ss_wf (net_bus n) \<and> ((k, p) \<in> regs (net_bus ?n0) \<longrightarrow> (k, p) \<in> regs (net_bus n))"
    using kill_all_keeps by blast
  then show "sm_find (tcp_observers n) b = Some (p, ob)" "fst ` set (net_bus n) = fst ` set (net_bus net)"
    "ss_wf (net_bus n)" "(k, p) \<in> regs (net_bus net) \<Longrightarrow> (k, p) \<in> regs (net_bus n)" by simp_all
qed

text \<open>What connecting a new agent does to the bus.\<close>

lemma connect_effect:
  assumes "connect parse c h ev m net = Some n" "ptr_of net (m_getString m ''agentname'') = None"
  defines "ob \<equiv> to_new c h (m_getString m ''agentname'') (Some (attrs (tcp_description (mysubjects net) m)))"
  shows "sm_find (tcp_observers n) (m_getString m ''agentname'')
      = Some (next_ptr net, fst (to_start (next_ptr net) ob (net_bus net)))"
    "net_bus n = snd (to_start (next_ptr net) ob (net_bus net))"
proof -
  obtain i where n: "n = activateObserverTCP c h (m_getString m ''agentname'')
      (mkTcpObserverXML m (set_info (m_getString m ''agentname'') i net))"
    using assms(1) by (auto simp: connect_def Let_def)
  have f: "sm_find (observer_files (mkTcpObserverXML m (set_info a i net))) (m_getString m ''agentname'')
      = Some (attrs (tcp_description (mysubjects net) m))" for a by (simp add: mkTcpObserverXML_def)
  show "sm_find (tcp_observers n) (m_getString m ''agentname'')
      = Some (next_ptr net, fst (to_start (next_ptr net) ob (net_bus net)))"
    "net_bus n = snd (to_start (next_ptr net) ob (net_bus net))"
    using activate_new [of "mkTcpObserverXML m (set_info (m_getString m ''agentname'') i net)"] assms(2)
    by (simp_all add: n f ob_def Let_def)
qed

text \<open>The observer made for an announced agent posts to the announced address.\<close>

lemma to_new_description:
  fixes mys m c h
  defines "ob \<equiv> to_new c h (m_getString m ''agentname'') (Some (attrs (tcp_description mys m)))"
  assumes "m_getString m ''ip'' \<noteq> ''''" "m_getString m ''port'' \<noteq> ''''"
  shows "targetip (to_agent ob) = m_getString m ''ip''" "targetport (to_agent ob) = m_getString m ''port''"
    "mp_get (ra_params (to_agent ob)) ''language'' = ''xml''" "mp_get (ra_params (to_agent ob)) ''status'' = ''ON''"
    "ra_name (to_agent ob) = m_getString m ''agentname''" "input_queue (to_obs ob) = mq_new"
    "set (observes (to_obs ob)) = {a \<in> set (attrs (tcp_description mys m)). ma_category a = ''observe''}"
proof -
  have g: "mp_get (p\<lparr>attrs := attrs (tcp_description mys m)\<rparr>) f = mp_get (tcp_base m) f" for p f
    by (simp add: tcp_description_base mp_get_def add_observed_get [unfolded mp_get_def])
  note b = tcp_base_props(4) [OF assms(2,3)]
  show "targetip (to_agent ob) = m_getString m ''ip''" "targetport (to_agent ob) = m_getString m ''port''"
    "mp_get (ra_params (to_agent ob)) ''language'' = ''xml''" "mp_get (ra_params (to_agent ob)) ''status'' = ''ON''"
    "ra_name (to_agent ob) = m_getString m ''agentname''" "input_queue (to_obs ob) = mq_new"
    "set (observes (to_obs ob)) = {a \<in> set (attrs (tcp_description mys m)). ma_category a = ''observe''}"
    using b tcp_base_props(2,3) [of m] assms(2,3)
    by (simp_all add: ob_def to_new_def Let_def ra_load_def ra_init_def g nonempty_or_def mp_extractCategory_def)
qed

lemma evFilter_in:
  "e \<in> set (snd (evFilter mys ev)) \<longleftrightarrow> e \<in> set ev \<and> (\<exists>s \<in> set mys. ev_matches s e)"
  "fst (evFilter mys ev) \<longleftrightarrow> snd (evFilter mys ev) \<noteq> []"
  by (auto simp: evFilter_def Let_def)

lemma dispatch_first:
  assumes "input_queue (to_obs ob) = mq_new" "m_getList msg ''target'' = []"
    and "mp_get (ra_params (to_agent ob)) ''status'' \<noteq> ''OFF''" "mp_get (ra_params (to_agent ob)) ''language'' = ''xml''"
    and "ra_name (to_agent ob) \<noteq> ''none''"
  shows "to_dispatch me 1 (to_notify msg ob)
    = Some (Some (m_xmlEncode 1 (ra_messageComplete me (to_agent ob) msg)), ob)"
  using assms by (cases ob, cases "to_obs ob")
    (simp add: to_dispatch_def to_notify_def match_target_def mq_send_def mq_purge_def mq_new_def mq_receive_def
      highest_index_def ra_send_text_def Let_def erase_at_def)

lemma recv_new_agent:
  fixes c h :: string and net :: agent_net and m :: mmessage
  defines "ob \<equiv> to_new c h (m_getString m ''agentname'') (Some (attrs (tcp_description (mysubjects net) m)))"
  assumes "net_ok L net" "xml_ok parse (RecvText s)" "0 \<le> validityTime net"
    and "m_xmlDecode_doc (parse s) (m_type ''agentinfo'') = Some (r, m)"
    and "m_getString m ''agentname'' \<noteq> me" "sm_find (foreign_agents net) (m_getString m ''agentname'') = None"
    and "fst (evFilter (mysubjects net) (m_getList m ''observe''))"
  shows "\<exists>n. recv_status parse me c h now (RecvText s) net = Some n \<and> ss_wf (net_bus n)
    \<and> fst ` set (net_bus n) = fst ` set (net_bus net)
    \<and> sm_find (tcp_observers n) (m_getString m ''agentname'') = Some (next_ptr net, fst (to_start (next_ptr net) ob (net_bus net)))
    \<and> (\<forall>k. (k, next_ptr net) \<in> regs (snd (to_start (next_ptr net) ob (net_bus net))) \<longrightarrow> (k, next_ptr net) \<in> regs (net_bus n))"
proof -
  let ?a = "m_getString m ''agentname''"
  let ?ev = "snd (evFilter (mysubjects net) (m_getList m ''observe''))"
  define n0 where "n0 = (if ?a = ''wsserver'' then wsServerUpdate m net else net)"
  note w = wsServer_ok [OF n0_def]
  have n0: "mysubjects n0 = mysubjects net" "net_bus n0 = net_bus net" "next_ptr n0 = next_ptr net"
    "sm_find (foreign_agents n0) ?a = None" "net_ok L n0"
    using w assms(2,7) by (simp_all add: n0_def wsServerUpdate_def)
  have pn: "ptr_of n0 ?a = None" using n0(4,5) by (simp add: net_ok_def net_inv_def)
  obtain n1 i where c: "connect parse c h ?ev m n0 = Some n1" "net_ok L n1" "same_self n0 n1"
    "foreign_agents n1 = sm_put ?a i (foreign_agents n0)"
    using connect_ok [OF n0(5,4), of parse c h ?ev] assms(3) unfolding xml_ok_def by blast
  note e = connect_effect [OF c(1) pn, unfolded n0(1-3), folded ob_def]
  let ?n2 = "stamp now ?a n1"
  have i: "sm_find (foreign_agents n1) ?a = Some i" by (simp add: c(4))
  have n2: "tcp_observers ?n2 = tcp_observers n1" "net_bus ?n2 = net_bus n1" using i by (simp_all add: stamp_def)
  have u: "net_update parse c h now m net = Some (True, ?n2)"
    using assms(8) n0(4) c(1) unfolding net_update_def n0_def [symmetric] Let_def n0(1)
    by (simp add: case_prod_beta net_refresh_def)
  have v: "validityTime ?n2 = validityTime net"
    using stamp_ok(2) [OF c(2) i, of now] c(3) w(1) by (simp add: same_self_def)
  have alive: "check_agent_status now ?a ?n2"
    using stamp_ok(3) [OF c(2) i, of now ?a] assms(4) v by (simp add: check_agent_status_def)
  obtain n where n: "check_expired now ?n2 = Some n" using check_expired_ok [OF stamp_ok(1) [OF c(2) i], of now] by blast
  have wf: "ss_wf (net_bus net)" using assms(2) by (simp add: net_ok_def net_inv_def ptr_inv_def)
  have t: "sm_find (tcp_observers ?n2) ?a = Some (next_ptr net, fst (to_start (next_ptr net) ob (net_bus net)))"
    by (simp add: n2 e)
  note k = check_expired_keeps [OF n stamp_ok(1) [OF c(2) i] alive t]
  have "recv_status parse me c h now (RecvText s) net = Some n" using assms(5,6) u n by (simp add: recv_status_def)
  then show ?thesis using k by (simp add: n2 e to_start_bus(2) [OF wf])
qed

text \<open>C10: from an announcement to the events. When an agent that is not known yet announces that it
  observes an event this agent exports, then after that one turn of the receiver every message on
  the subject reaches the observer made for it, and what the dispatcher of that observer posts, to
  the announced address and port, is the message completed with the name of this agent. The subtype
  must not occur twice among the accepted events.\<close>

theorem announced_agent_served:
  assumes "net_ok L net" "xml_ok parse (RecvText s)" "0 \<le> validityTime net"
    and "m_xmlDecode_doc (parse s) (m_type ''agentinfo'') = Some (r, m)"
    and "m_getString m ''agentname'' = a" "a \<noteq> me" "a \<noteq> ''none''" "sm_find (foreign_agents net) a = None"
    and "m_getString m ''ip'' \<noteq> ''''" "m_getString m ''port'' \<noteq> ''''"
    and "e \<in> set (m_getList m ''observe'')" "e \<in> set (mysubjects net)"
    and "net_split e = (ty, sty)" "check_subject ty sty (net_bus net)"
    and "\<forall>x \<in> set (snd (evFilter (mysubjects net) (m_getList m ''observe''))).
           snd (net_split x) = sty \<longrightarrow> net_split x = (ty, sty)"
    and "m_getList msg ''target'' = []"
  shows "\<exists>n p ob ds ob'. recv_status parse me c h now (RecvText s) net = Some n
    \<and> sm_find (tcp_observers n) a = Some (p, ob)
    \<and> targetip (to_agent ob) = m_getString m ''ip'' \<and> targetport (to_agent ob) = m_getString m ''port''
    \<and> ss_notify_to 1 ty sty (net_bus n) = Some (True, ds) \<and> p \<in> set ds
    \<and> to_dispatch me 1 (to_notify msg ob)
        = Some (Some (m_xmlEncode 1 (ra_messageComplete me (to_agent ob) msg)), ob')"
proof -
  let ?ob = "to_new c h a (Some (attrs (tcp_description (mysubjects net) m)))"
  let ?p = "next_ptr net"
  have e: "e \<in> set (snd (evFilter (mysubjects net) (m_getList m ''observe'')))"
    using assms(11,12) by (auto simp: evFilter_in ev_matches_def)
  then have f: "fst (evFilter (mysubjects net) (m_getList m ''observe''))" by (auto simp: evFilter_in(2))
  obtain n where n: "recv_status parse me c h now (RecvText s) net = Some n" "ss_wf (net_bus n)"
    "fst ` set (net_bus n) = fst ` set (net_bus net)"
    "sm_find (tcp_observers n) a = Some (?p, fst (to_start ?p ?ob (net_bus net)))"
    "\<forall>k. (k, ?p) \<in> regs (snd (to_start ?p ?ob (net_bus net))) \<longrightarrow> (k, ?p) \<in> regs (net_bus n)"
    using recv_new_agent [OF assms(1-4) _ _ f, of me c h now, unfolded assms(5), OF assms(6,8)] by blast
  note o = to_new_description [OF assms(9,10), of c h "mysubjects net", unfolded assms(5)]
  have wf: "ss_wf (net_bus net)" using assms(1) by (simp add: net_ok_def net_inv_def ptr_inv_def)
  have "observe_attr e \<in> set (attrs (tcp_description (mysubjects net) m))"
    unfolding tcp_description_base by (rule add_observed_in [OF tcp_base_props(1) e]) (use assms(15) in \<open>simp only: assms(13) fst_conv snd_conv\<close>)
  then have "observe_attr e \<in> set (observes (to_obs ?ob))" by (simp add: o(7)) (simp add: ma_new_def)
  moreover have "add_keys (net_bus net) (ty, sty) = {(ty, sty)}" using assms(14) by (simp add: add_keys_def check_subject_def)
  ultimately have "((ty, sty), ?p) \<in> regs (snd (to_start ?p ?ob (net_bus net)))"
    using to_start_bus(3) [OF wf, of ?p ?ob] assms(13) by (force simp: ma_new_def)
  then have "((ty, sty), ?p) \<in> regs (net_bus n)" using n(5) by blast
  moreover have "(ty, sty) \<in> fst ` set (net_bus n)" using n(3) assms(14) by (simp add: check_subject_def)
  ultimately obtain ds where "ss_notify_to 1 ty sty (net_bus n) = Some (True, ds)" "?p \<in> set ds"
    using notify_exact [OF n(2), of 1 ty sty] by auto
  moreover have "to_dispatch me 1 (to_notify msg (fst (to_start ?p ?ob (net_bus net)))) = Some (Some (m_xmlEncode 1
      (ra_messageComplete me (to_agent (fst (to_start ?p ?ob (net_bus net)))) msg)), fst (to_start ?p ?ob (net_bus net)))"
    by (rule dispatch_first) (use o assms(5,7,16) in \<open>simp_all add: to_start_def\<close>)
  moreover have "targetip (to_agent (fst (to_start ?p ?ob (net_bus net)))) = m_getString m ''ip''"
    "targetport (to_agent (fst (to_start ?p ?ob (net_bus net)))) = m_getString m ''port''"
    using o(1,2) by (simp_all add: to_start_def)
  ultimately show ?thesis using n(1,4) by blast
qed

lemma example_gate_bus: "check_subject ''event'' ''door'' (net_bus example_gate)" "sm_find (foreign_agents example_gate) a = None"
proof -
  have "net_bus example_gate = add_subject ''event'' ''door'' []"
    by (simp add: example_gate_def net_init_def addSubjects_def Let_def net_retrieveInfo_def net_MakePage_def
        net_init_base_def net_static_def mp_get_def mp_extractCategory_def mp_default_def ma_new_def dotted_def
        add_dotted_def net_split_def)
  then show "check_subject ''event'' ''door'' (net_bus example_gate)"
    by (simp add: check_subject_def add_subject_def isDummy_def sm_insert_def sm_count_def)
  show "sm_find (foreign_agents example_gate) a = None" unfolding example_gate_def net_init_ok(2) by simp
qed

definition example_panel :: mmessage where
  "example_panel = snd (m_add_list (m_add (m_add (m_add (m_type ''agentinfo'') ''agentname'' ''panel'')
     ''ip'' ''10.0.0.7'') ''port'' ''9000'') ''observe'' [''door.event''])"

theorem announced_agent_served_witness:
  "\<exists>n p ob ds. recv_status (example_parse example_panel) ''gate'' '''' '''' 100 (RecvText ''x'') example_gate = Some n
    \<and> sm_find (tcp_observers n) ''panel'' = Some (p, ob) \<and> targetip (to_agent ob) = ''10.0.0.7''
    \<and> ss_notify_to 1 ''event'' ''door'' (net_bus n) = Some (True, ds) \<and> p \<in> set ds"
proof -
  define m where "m = example_panel\<lparr>mtype := ''*'', msubtype := ''*''\<rparr>"
  have "m_wf example_panel" by (simp add: example_panel_def hat_inv)
  from decode_encoded [OF this, of "m_type ''agentinfo''"]
  have d: "m_xmlDecode_doc (example_parse example_panel ''x'') (m_type ''agentinfo'') = Some (True, m)"
    by (simp add: example_parse_def m_def example_panel_def m_type_def m_add_def ms_of_string_def m_add_list_def sm_insert_def)
  have g: "m_getString m f = m_getString example_panel f" "m_getList m f = m_getList example_panel f" for f
    by (simp_all add: m_def m_getString_def m_getList_def)
  have p: "m_getString m ''agentname'' = ''panel''" "m_getString m ''ip'' = ''10.0.0.7''"
    "m_getString m ''port'' = ''9000''" "m_getList m ''observe'' = [''door.event'']"
    unfolding g by (simp_all add: example_panel_def m_getList_def m_add_list_def ms_of_list_def ms_getList_def m_type_def
        m_add_def ms_of_string_def sm_insert_def m_getString_def ms_getString_def)
  have t: "m_getList m_default ''target'' = []" by (simp add: m_default_def m_getList_def)
  have "net_ok {} example_gate" using example_gate_ok(1) by (simp add: self_ok_def)
  then have "\<exists>n p ob ds ob'. recv_status (example_parse example_panel) ''gate'' '''' '''' 100 (RecvText ''x'') example_gate = Some n
    \<and> sm_find (tcp_observers n) ''panel'' = Some (p, ob)
    \<and> targetip (to_agent ob) = m_getString m ''ip'' \<and> targetport (to_agent ob) = m_getString m ''port''
    \<and> ss_notify_to 1 ''event'' ''door'' (net_bus n) = Some (True, ds) \<and> p \<in> set ds
    \<and> to_dispatch ''gate'' 1 (to_notify m_default ob)
        = Some (Some (m_xmlEncode 1 (ra_messageComplete ''gate'' (to_agent ob) m_default)), ob')"
    by (rule announced_agent_served [where parse = "example_parse example_panel" and s = "''x''" and e = "''door.event''",
          OF _ _ _ d p(1)])
      (simp_all add: p t example_gate_ok example_gate_bus xml_ok_def example_parse_def net_split_def evFilter_def ev_matches_def Let_def)
  then show ?thesis by (auto simp: p(2))
qed

subsection \<open>Long messages\<close>

text \<open>A message of \<^verbatim>\<open>MAXB\<close> characters or more overflows the array of the request.\<close>

lemma long_message_overflows: "MAXB \<le> length (c_str message) \<Longrightarrow> ra_sendStringMessage timeout ra message = None"
  by (simp add: ra_sendStringMessage_def ra_request_def Let_def)

lemma request_carries_message:
  "ra_request ra message = Some t \<Longrightarrow> \<exists>hd. t = hd @ crlf @ crlf @ c_str message @ crlf @ crlf"
  by (auto simp: ra_request_def Let_def split: if_splits intro: exI [of _ "''POST '' @ c_str (ra_post ra) @ '' HTTP/1.0''
      @ crlf @ ''Host: '' @ c_str (ra_host ra) @ crlf @ ''User-Agent: '' @ c_str (ra_useragent ra) @ crlf
      @ ''Pragma: '' @ c_str (ra_pragma ra) @ crlf @ ''Content-Length: '' @ unsigned2a (length (c_str message)) @ crlf
      @ ''Content-type: '' @ c_str (ra_contenttype ra)"])

end
