(* ===== verification/Web_Service.thy ===== *)
theory Web_Service
  imports Agent_Net
begin

text \<open>
  The agent behind the mobile application, \<^verbatim>\<open>src/agents/WSServer\<close>: the table of translations from
  REST calls to commands (\<^verbatim>\<open>TransTab.cpp\<close>), the table that finds the agent of a device
  (\<^verbatim>\<open>NameTable.cpp\<close>) and the handlers of device calls (\<^verbatim>\<open>DeviceManager.cpp\<close>).
  \<open>net p a req\<close> is what the agent at port \<open>p\<close> of address \<open>a\<close> answers to a request; documents that
  the JSON library has read are their values. Directories that are created are left out.
\<close>

subsection \<open>Entries of the translation table\<close>

record trans_entry =
  te_params :: mparams
  te_prefix :: "string list"
  te_method :: string
  te_category :: string
  nameindex :: nat
  agentindex :: nat
  valueindex :: nat

text \<open>The last index of a list that satisfies a test.\<close>

definition last_index :: "(string \<Rightarrow> bool) \<Rightarrow> string list \<Rightarrow> nat \<Rightarrow> nat" where
  "last_index P l start = fold (\<lambda>i r. if P (l ! i) then i else r) [0..<length l] start"

text \<open>The index of the value is not initialised; \<open>jv\<close> is what it holds.\<close>

definition te_new :: "nat \<Rightarrow> mparams \<Rightarrow> trans_entry" where
  "te_new jv p =
     (let pre = fst (nl_init [] (mp_get p ''prefix'') (CHR ''/''))
      in \<lparr>te_params = p, te_prefix = pre, te_method = mp_get p ''method'', te_category = mp_get p ''class'',
          nameindex = last_index (\<lambda>s. s = ''$NAME'' \<or> s = ''$NAME.json'') pre 0,
          agentindex = last_index (\<lambda>s. s = ''$AGENT'') pre 0,
          valueindex = last_index (\<lambda>s. s = ''$VALUE'' \<or> s = ''$VALUE.json'') pre jv\<rparr>)"

definition no_entry :: "nat \<Rightarrow> trans_entry" where
  "no_entry j = \<lparr>te_params = mp_default, te_prefix = [], te_method = '''', te_category = ''NULL'', nameindex = j, agentindex = j, valueindex = j\<rparr>"

definition isnoentry :: "trans_entry \<Rightarrow> bool" where
  "isnoentry e \<longleftrightarrow> te_category e = ''NULL''"

definition wildcards :: "string list" where
  "wildcards = [''$NAME'', ''$AGENT'', ''$VALUE'', ''$VALUE.json'', ''$NAME.json'']"

definition te_match :: "string list \<Rightarrow> string \<Rightarrow> trans_entry \<Rightarrow> bool" where
  "te_match params mtd e \<longleftrightarrow>
     length params = length (te_prefix e) \<and> te_method e = mtd
     \<and> list_all (\<lambda>(x, w). (x = w \<or> w \<in> set wildcards)
         \<and> (w = ''$NAME'' \<or> w = ''$NAME.json'' \<longrightarrow> str_find (te_category e) x = Some 0)) (zip params (te_prefix e))"

text \<open>The loops that cut a file extension compare their counter with the character instead of the length.
  A character above 127 is negative, and a large number as \<^verbatim>\<open>size_t\<close>.\<close>

definition char_size :: "char \<Rightarrow> nat" where
  "char_size c = (let n = of_char c :: nat in if n < 128 then n else n + 2 ^ 64 - 256)"

fun scan_part :: "nat \<Rightarrow> string \<Rightarrow> string" where
  "scan_part i [] = []"
| "scan_part i (c # cs) = (if i < char_size c \<and> c \<noteq> CHR ''.'' then c # scan_part (i + 1) cs else [])"

definition te_getName :: "string list \<Rightarrow> trans_entry \<Rightarrow> string" where
  "te_getName params e =
     (if length params > nameindex e \<and> nameindex e > 0 then scan_part 0 (params ! nameindex e) else '''')"

definition te_getAgent :: "string list \<Rightarrow> trans_entry \<Rightarrow> string" where
  "te_getAgent params e = (if length params > agentindex e \<and> agentindex e > 0 then params ! agentindex e else '''')"

definition replaceSpaces :: "string \<Rightarrow> string" where
  "replaceSpaces v = map (\<lambda>c. if c = CHR '' '' then CHR ''+'' else c) v"

definition te_getValue :: "string list \<Rightarrow> trans_entry \<Rightarrow> string" where
  "te_getValue params e =
     (if length params > valueindex e \<and> valueindex e > 0 then replaceSpaces (scan_part 0 (params ! valueindex e)) else '''')"

definition convertValue :: "string \<Rightarrow> string" where
  "convertValue v =
     fold (\<lambda>x res. (if res \<noteq> '''' then res @ ''+'' else res)
       @ (if x = ''ON'' \<or> x = ''1'' then ''true'' else if x = ''OFF'' \<or> x = ''0'' then ''false'' else x))
       (fst (nl_init [] v (CHR ''+''))) ''''"

definition te_getEvent :: "string list \<Rightarrow> trans_entry \<Rightarrow> string" where
  "te_getEvent params e =
     (if length params \<le> nameindex e then ''''
      else let n = params ! nameindex e; ev = mp_get (te_params e) ''event''
           in if ev = '''' then n else fst (strReplace ev ''$NAME'' n))"

definition nv2av :: "string list \<Rightarrow> string \<Rightarrow> trans_entry \<Rightarrow> string" where
  "nv2av params nv e = (if nv = ''$VALUE'' then te_getValue params e else nv)"

definition rpc2cmd :: "string list \<Rightarrow> string \<Rightarrow> trans_entry \<Rightarrow> mmessage" where
  "rpc2cmd params body e =
     (let url = mp_get (te_params e) ''url''; todo = fst (nl_init [] (mp_get (te_params e) ''cmd'') (CHR ''=''));
          fin = (\<lambda>m. let n = te_getName params e
                     in m\<lparr>mtype := ''cmd'', msubtype := (if n = '''' then mp_get (te_params e) ''cmdname'' else n)\<rparr>)
      in if isnoentry e then m_type ''NULL''
         else if url \<noteq> ''''
         then let u = fst (strReplace (fst (strReplace url ''$VALUE'' (te_getValue params e))) ''$NAME'' (te_getName params e));
                  m = m_add m_default ''url'' u
              in fin (if body \<noteq> '''' then m_add m ''body'' body else m)
         else if length todo < 2 then m_type ''NULL''
         else fin (m_add m_default (todo ! 0) (nv2av params (todo ! 1) e)))"

definition te_extractValue :: "string \<Rightarrow> string \<Rightarrow> string" where
  "te_extractValue body keyword =
     (case str_find keyword body of
        None \<Rightarrow> ''''
      | Some pos \<Rightarrow>
          takeWhile (\<lambda>c. c \<noteq> CHR 0x22 \<and> c \<noteq> CHR '','')
            (dropWhile (\<lambda>c. c = CHR 0x22 \<or> c = CHR '' '' \<or> c = CHR ''='') (dropWhile (\<lambda>c. c \<noteq> CHR ''='') (drop pos body))))"

definition xml2jsonBody :: "string \<Rightarrow> trans_entry \<Rightarrow> string" where
  "xml2jsonBody msg e =
     (let b0 = mp_get (te_params e) ''answer'';
          b1 = fst (strReplace b0 ''$TRUEFALSE'' (if str_contains msg ''done'' then ''true'' else ''false''));
          b2 = fst (strReplace b1 ''$STATUS'' (te_extractValue msg ''done:value''))
      in fst (strReplace b2 ''$COLOR'' (te_extractValue msg ''color'')))"

definition xml2jsonStatus :: "string \<Rightarrow> trans_entry \<Rightarrow> string" where
  "xml2jsonStatus msg e =
     (let b0 = mp_get (te_params e) ''answer''; b1 = fst (strReplace b0 ''$NAME'' (te_extractValue msg ''name''));
          v = te_extractValue msg ''value''; cat = mp_get (te_params e) ''class'';
          b2 = (if cat \<noteq> ''SH'' \<and> cat \<noteq> ''DI'' \<and> cat \<noteq> ''RG'' then fst (strReplace b1 ''$TRUEFALSE'' (convertValue v))
                else if cat = ''SH''
                then fst (strReplace b1 ''$STATUS'' (if v = ''UP'' then ''up'' else if v = ''DOWN'' then ''down'' else ''off''))
                else fst (strReplace b1 ''$STATUS'' v))
      in fst (strReplace b2 ''$COLOR'' (te_extractValue msg ''color'')))"

type_synonym trans_tab = "trans_entry list"

definition tt_new :: "nat \<Rightarrow> (string \<Rightarrow> mparams) \<Rightarrow> bool \<Rightarrow> directory \<Rightarrow> trans_tab" where
  "tt_new jv par is_dir d = (if \<not> is_dir then [] else map (\<lambda>f. te_new jv (par (getStem f))) (snd (fileList d)))"

definition tt_get :: "nat \<Rightarrow> string list \<Rightarrow> string \<Rightarrow> trans_tab \<Rightarrow> trans_entry" where
  "tt_get j params method t = (case List.find (te_match params method) t of Some e \<Rightarrow> e | None \<Rightarrow> no_entry j)"

subsection \<open>The table of agents and names\<close>

record agent_desc =
  ag_name :: string
  ag_port :: string
  ag_address :: string
  ag_time :: string
  ag_command :: "string list"
  ag_event :: "string list"

record name_table =
  nt_agent :: "agent_desc list"
  namelookup :: "(string, nat) smap"
  nt_category :: "string list"

type_synonym network = "string \<Rightarrow> string \<Rightarrow> string \<Rightarrow> string"

text \<open>A word in quotes after a keyword, from a position on; no position is \<^verbatim>\<open>npos\<close>.\<close>

definition getWord :: "string \<Rightarrow> string \<Rightarrow> nat option \<Rightarrow> string \<times> nat option" where
  "getWord body word i =
     (case i of
        None \<Rightarrow> ('''', None)
      | Some i \<Rightarrow>
          (case (if i \<le> length body then str_find word (drop i body) else None) of
             None \<Rightarrow> ('''', None)
           | Some k \<Rightarrow>
               let pos = i + k + length word
               in if pos \<ge> length body then ('''', Some pos)
                  else let p1 = pos + length (takeWhile (\<lambda>c. c \<noteq> CHR 0x22) (drop pos body)) + 1;
                           w = takeWhile (\<lambda>c. c \<noteq> CHR 0x22) (drop p1 body)
                       in (w, Some (p1 + length w))))"

text \<open>The loop \<^verbatim>\<open>while((name = getWord(body, "name", pos)) != "" && pos != npos)\<close>.\<close>

lemma getWord_advances: "getWord body word i = (w, Some j) \<Longrightarrow> word \<noteq> '''' \<Longrightarrow> \<exists>k. i = Some k \<and> k < j \<and> k < length body"
  by (auto simp: getWord_def Let_def split: option.splits if_splits dest!: str_find_Some)

function names_from :: "string \<Rightarrow> nat option \<Rightarrow> string list" where
  "names_from body i =
     (case getWord body ''name'' i of
        (w, Some j) \<Rightarrow> if w \<noteq> '''' then w # names_from body (Some j) else []
      | (w, None) \<Rightarrow> [])"
  by pat_completeness auto
termination
  by (relation "measure (\<lambda>(body, i). case i of None \<Rightarrow> 0 | Some i \<Rightarrow> length body + 1 - i)")
    (auto dest!: getWord_advances [OF sym])

declare names_from.simps [simp del]

definition typed_names :: "string list \<Rightarrow> string \<Rightarrow> string list" where
  "typed_names tys body =
     concat (map (\<lambda>w. let st = fst (nl_init [] w (CHR ''.'')) in if length st = 2 \<and> st ! 1 \<in> set tys then [st ! 0] else [])
       (names_from body (Some 0)))"

definition extractCommand :: "string \<Rightarrow> agent_desc \<Rightarrow> agent_desc" where
  "extractCommand body ag = ag\<lparr>ag_command := ag_command ag @ typed_names [''cmd''] body\<rparr>"

definition extractEvent :: "string \<Rightarrow> agent_desc \<Rightarrow> agent_desc" where
  "extractEvent body ag = ag\<lparr>ag_event := ag_event ag @ typed_names [''event'', ''program''] body\<rparr>"

definition addifnew :: "agent_desc \<Rightarrow> name_table \<Rightarrow> bool \<times> name_table" where
  "addifnew ag t =
     (if list_ex (\<lambda>a. ag_name a = ag_name ag \<and> ag_port a = ag_port ag \<and> ag_address a = ag_address ag) (nt_agent t)
      then (False, t) else (True, t\<lparr>nt_agent := nt_agent t @ [ag]\<rparr>))"

definition getBody :: "string \<Rightarrow> string" where
  "getBody message = (case str_find (crlf @ crlf) message of Some pos \<Rightarrow> drop (pos + 4) message | None \<Rightarrow> '''')"

definition getPage :: "network \<Rightarrow> string \<Rightarrow> agent_desc \<Rightarrow> string" where
  "getPage net url ag = getBody (net (ag_port ag) (ag_address ag) (''GET '' @ url @ '' HTTP/1.1'' @ crlf @ crlf @ crlf))"

definition getCategory :: "string \<Rightarrow> string" where
  "getCategory n = (if length n > 3 \<and> n ! 2 = CHR ''_'' then take 2 n else '''')"

definition isDeviceAgent :: "agent_desc \<Rightarrow> bool" where
  "isDeviceAgent ag \<longleftrightarrow> str_contains (ag_name ag) ''device''"

definition cleanUp :: "string \<Rightarrow> string" where
  "cleanUp s = filter (\<lambda>c. c \<noteq> CHR 0x00 \<and> c \<noteq> CHR 0x0D \<and> c \<noteq> CHR 0x0A) s"

text \<open>The names an agent of devices publishes; the first is that of the page.\<close>

definition page_names :: "network \<Rightarrow> agent_desc \<Rightarrow> string list" where
  "page_names net ag =
     (if isDeviceAgent ag
      then let page = cleanUp (getPage net ''/DynamicPage.xml'' ag)
           in filter (\<lambda>n. getCategory n \<noteq> '''') (names_from page (snd (getWord page ''name'' (Some 0))))
      else [])"

definition getDeviceStatus :: "network \<Rightarrow> string \<Rightarrow> string \<Rightarrow> name_table \<Rightarrow> string" where
  "getDeviceStatus net n language t =
     (let page = getPage net (''/DynamicPage/'' @ n @ ''.'' @ language)
            (nt_agent t ! (case sm_find (namelookup t) n of Some i \<Rightarrow> i | None \<Rightarrow> 0));
          st = fst (getWord page ''status'' (Some 0))
      in if language = ''json'' then (if st = ''ON'' then ''true'' else ''false'') else st)"

definition mkDeviceNames :: "network \<Rightarrow> name_table \<Rightarrow> effect list" where
  "mkDeviceNames net t =
     concat (map (\<lambda>cat. map (\<lambda>(n, i). SaveFile (''devices/'' @ cat @ ''/'' @ n @ ''/data'',
         ''{'' @ quote @ ''enable_status'' @ quote @ '':'' @ quote @ getDeviceStatus net n ''json'' t @ quote @ ''}''))
       (filter (\<lambda>(n, i). getCategory n = cat) (namelookup t))) (nt_category t))"

definition lookup_of :: "network \<Rightarrow> agent_desc list \<Rightarrow> (string, nat) smap" where
  "lookup_of net ags =
     fold (\<lambda>i m. fold (\<lambda>n m. sm_put n i m) (page_names net (ags ! i)) (sm_put (ag_name (ags ! i)) i m)) [0..<length ags] []"

definition mkTable :: "network \<Rightarrow> name_table \<Rightarrow> name_table \<times> effect list" where
  "mkTable net t = (let t' = t\<lparr>namelookup := lookup_of net (nt_agent t)\<rparr> in (t', mkDeviceNames net t'))"

definition printTable :: "name_table \<Rightarrow> effect list" where
  "printTable t = map (\<lambda>(n, i). Publish n (ag_name (nt_agent t ! i))) (namelookup t)"

definition on_last :: "(agent_desc \<Rightarrow> agent_desc) \<Rightarrow> name_table \<Rightarrow> name_table" where
  "on_last f t = (let k = length (nt_agent t) - 1 in t\<lparr>nt_agent := (nt_agent t)[k := f (nt_agent t ! k)]\<rparr>)"

definition nt_update :: "network \<Rightarrow> mmessage \<Rightarrow> name_table \<Rightarrow> bool \<times> name_table \<times> effect list" where
  "nt_update net m t =
     (if m_getString m ''status'' = ''waiting'' then (False, t, [])
      else let ag = \<lparr>ag_name = m_getString m ''agentname'', ag_port = m_getString m ''port'', ag_address = m_getString m ''address'',
                     ag_time = m_getString m ''time'', ag_command = [], ag_event = []\<rparr>;
               fa = m_getString m ''first_announce''; (new, t1) = addifnew ag t
           in if new \<or> fa = ''TRUE'' \<or> fa = ''true''
              then let b1 = getPage net ''/subjects/imported'' ag
                   in if str_contains b1 ''unknown'' then (False, t1, [])
                      else let t2 = on_last (extractCommand b1) t1; b2 = getPage net ''/subjects/exported'' ag
                           in if str_contains b2 ''unknown'' then (False, t2, [])
                              else let (t4, es) = mkTable net (on_last (extractEvent b2) t2) in (True, t4, es @ printTable t4)
              else (False, t1, []))"

definition nt_request :: "string \<Rightarrow> string \<Rightarrow> string \<Rightarrow> string" where
  "nt_request verb url body = verb @ '' '' @ url @ '' HTTP/1.1'' @ crlf @ ''Content-Length: '' @ unsigned2a (length body) @ crlf @ crlf"

definition nt_notify :: "network \<Rightarrow> mmessage \<Rightarrow> name_table \<Rightarrow> string" where
  "nt_notify net msg t =
     (case sm_find (namelookup t) (msubtype msg) of
        None \<Rightarrow> ''Not Found''
      | Some i \<Rightarrow>
          let message = m_xmlEncode 1 msg; url = m_getString msg ''url''; body = m_getString msg ''body'';
              req = (if url = '''' then nt_request ''POST'' ''/'' message @ message else nt_request ''POST'' url body @ body) @ crlf @ crlf
          in getBody (net (ag_port (nt_agent t ! i)) (ag_address (nt_agent t ! i)) req))"

definition nt_getstatus :: "network \<Rightarrow> mmessage \<Rightarrow> name_table \<Rightarrow> string" where
  "nt_getstatus net msg t =
     (case sm_find (namelookup t) (msubtype msg) of
        None \<Rightarrow> ''Not Found''
      | Some i \<Rightarrow>
          let message = m_xmlEncode 1 msg; url = m_getString msg ''url''; body = m_getString msg ''body'';
              req = (if url = '''' then nt_request ''GET'' ''/'' message @ message else nt_request ''GET'' url body) @ crlf @ crlf
          in getBody (net (ag_port (nt_agent t ! i)) (ag_address (nt_agent t ! i)) req))"

definition matchAgent :: "string \<Rightarrow> nat \<Rightarrow> name_table \<Rightarrow> bool" where
  "matchAgent ag i t \<longleftrightarrow> ag = '''' \<or> ag_name (nt_agent t ! i) = ag"

text \<open>\<open>made\<close> tells which directories can be created.\<close>

fun load_categories :: "(string \<Rightarrow> bool) \<Rightarrow> string \<Rightarrow> mattribute list \<Rightarrow> string list \<Rightarrow> bool \<times> string list" where
  "load_categories made dir [] cs = (True, cs)"
| "load_categories made dir (a # as) cs =
     (if ma_value a = ''ON''
      then if made (dir @ ''/'' @ ma_name a) then load_categories made dir as (cs @ [ma_name a]) else (False, cs @ [ma_name a])
      else load_categories made dir as cs)"

definition loadCategories :: "(string \<Rightarrow> bool) \<Rightarrow> string \<Rightarrow> mparams \<Rightarrow> name_table \<Rightarrow> bool \<times> name_table" where
  "loadCategories made home cat t =
     (let dir = home @ ''/devices''
      in if \<not> made dir then (False, t)
         else let (b, cs) = load_categories made dir (attrs cat) (nt_category t) in (b, t\<lparr>nt_category := cs\<rparr>))"

definition nt_reset :: "string \<Rightarrow> name_table \<Rightarrow> effect list" where
  "nt_reset home t = map (\<lambda>c. Shell (''rm -rf '' @ home @ ''/devices/'' @ c @ ''/*'')) (nt_category t)"

definition setDeviceStatus :: "(string \<Rightarrow> bool) \<Rightarrow> string \<Rightarrow> string \<Rightarrow> bool \<times> effect list" where
  "setDeviceStatus is_dir dev status =
     (let ns = fst (nl_init [] dev (CHR ''_''));
          mode = (if status \<in> {''ON'', ''On'', ''on'', ''true''} then ''true'' else ''false'')
      in if length ns < 2 then (False, [])
         else let path = ''devices/'' @ ns ! 0 @ ''/'' @ dev
              in if \<not> is_dir path then (False, [])
                 else (True, [SaveFile (path @ ''/data'', ''{'' @ quote @ ''enable_status'' @ quote @ '':'' @ quote @ mode @ quote @ ''}'')]))"

definition getAgentDescription :: "string \<Rightarrow> name_table \<Rightarrow> mmessage" where
  "getAgentDescription ag t =
     (case List.find (\<lambda>a. ag_name a = ag) (nt_agent t) of
        None \<Rightarrow> m_add m_default ''name'' ''none''
      | Some a \<Rightarrow> m_add (m_add (m_add m_default ''name'' (ag_name a)) ''port'' (ag_port a)) ''address'' (ag_address a))"

definition getCategoryDevices :: "string \<Rightarrow> name_table \<Rightarrow> string list" where
  "getCategoryDevices cat t = filter (\<lambda>n. getCategory n = cat) (map fst (namelookup t))"

definition nt_forward :: "network \<Rightarrow> string \<Rightarrow> string \<Rightarrow> name_table \<Rightarrow> string" where
  "nt_forward net message ag t =
     (case sm_find (namelookup t) ag of
        None \<Rightarrow> ''Not Found''
      | Some i \<Rightarrow> net (ag_port (nt_agent t ! i)) (ag_address (nt_agent t ! i)) message)"

text \<open>The body of \<open>setDevice\<close> is commented out.\<close>

definition setDevice :: "mmessage \<Rightarrow> string \<Rightarrow> bool" where
  "setDevice msg ag = False"

definition ai_step :: "network \<Rightarrow> mmessage \<Rightarrow> name_table \<Rightarrow> name_table \<times> effect list" where
  "ai_step net msg t =
     (if mtype msg = ''net'' \<and> msubtype msg = ''agent_info'' then snd (nt_update net msg t) else (t, []))"

subsection \<open>Calls on devices\<close>

definition mkAnswer :: "string \<Rightarrow> trans_entry \<Rightarrow> string \<Rightarrow> mmessage" where
  "mkAnswer body call method =
     m_add (m_add m_default ''content'' ''application/json'') ''body''
       (if method = ''PUT'' \<or> method = ''POST'' then xml2jsonBody body call else xml2jsonStatus body call)"

definition complain :: mmessage where
  "complain = m_add m_default ''body'' ''Not Supported''"

definition dm_execGet :: "network \<Rightarrow> nat \<Rightarrow> trans_tab \<Rightarrow> name_table \<Rightarrow> string list \<Rightarrow> string \<Rightarrow> string \<Rightarrow> mmessage" where
  "dm_execGet net j tab t params method body =
     (let call = tt_get j params method tab
      in if isnoentry call then complain else mkAnswer (nt_getstatus net (rpc2cmd params body call) t) call ''GET'')"

definition dm_execPut :: "network \<Rightarrow> nat \<Rightarrow> trans_tab \<Rightarrow> name_table \<Rightarrow> string list \<Rightarrow> string \<Rightarrow> string \<Rightarrow> mmessage" where
  "dm_execPut net j tab t params method body =
     (let call = tt_get j params method tab
      in if isnoentry call then complain else mkAnswer (nt_notify net (rpc2cmd params body call) t) call ''PUT'')"

definition dm_execPost :: "nat \<Rightarrow> trans_tab \<Rightarrow> string list \<Rightarrow> string \<Rightarrow> mmessage" where
  "dm_execPost j tab params method = (if isnoentry (tt_get j params method tab) then complain else complain)"

definition dm_extractValue :: "string \<Rightarrow> string \<Rightarrow> string" where
  "dm_extractValue body keyword =
     (case str_find keyword body of
        None \<Rightarrow> ''''
      | Some pos \<Rightarrow>
          takeWhile (\<lambda>c. c \<noteq> CHR 0x22 \<and> c \<noteq> CHR '','')
            (tl (dropWhile (\<lambda>c. c \<noteq> CHR 0x22) (dropWhile (\<lambda>c. c \<noteq> CHR ''='') (drop pos body)))))"

definition remapValue :: "string \<Rightarrow> string" where
  "remapValue v = (if v = ''ON'' then ''true'' else if v = ''OFF'' then ''false'' else v)"

definition join_items :: "string list \<Rightarrow> string" where
  "join_items l = fold (\<lambda>x b. if b = '''' then b @ x else b @ '','' @ x) l ''''"

definition dm_execGetSet :: "network \<Rightarrow> mparams \<Rightarrow> name_table \<Rightarrow> string list \<Rightarrow> mmessage" where
  "dm_execGetSet net par t params =
     (if length params < 4 then m_add m_default ''body'' ''Not Found''
      else let item = (\<lambda>n. let st = nt_getstatus net (m_add (m_new ''cmd'' n) ''url'' (''/DynamicPage/'' @ n @ ''.xml'')) t;
                               b = fst (strReplace (mp_get par ''dev_status_proto'') ''$NAME'' (dm_extractValue st ''name''))
                           in fst (strReplace b ''$STATUS'' (remapValue (dm_extractValue st ''status''))));
               body = join_items (map item (getCategoryDevices (take 2 (params ! 3)) t))
           in m_add (m_add m_default ''body'' ''Not Found'') ''body'' (fst (strReplace (mp_get par ''cat_status_answer'') ''$BODY'' body)))"

text \<open>\<open>devs\<close> are the pairs of status and name that the JSON library reads from the body.\<close>

definition dm_execPostSet :: "network \<Rightarrow> mparams \<Rightarrow> name_table \<Rightarrow> string list \<Rightarrow> (string \<times> string) list \<Rightarrow> mmessage" where
  "dm_execPostSet net par t params devs =
     (if length params < 3 then m_add m_default ''body'' ''Not supported''
      else let send = (\<lambda>(status, n).
                 let u = fst (strReplace (mp_get par ''set_device_status'') ''$STATUS'' (if status = ''true'' then ''ON'' else ''OFF''));
                     url = fst (strReplace u ''$NAME'' n)
                 in nt_notify net (m_add (m_new ''cmd'' n) ''url'' url) t);
               ok = list_all (\<lambda>d. str_contains (send d) ''done:'') devs
           in m_add (m_add m_default ''content'' ''application/json'') ''body''
                (fst (strReplace (mp_get par ''set_device_cat_answer'') ''$TRUEFALSE'' (if ok then ''true'' else ''false''))))"

subsection \<open>What an agent publishes, and what the table reads\<close>

text \<open>\<open>subject_page\<close> is the page of the subjects that another agent serves.\<close>

lemma getWord_shift: "i \<le> length body \<Longrightarrow> getWord body word (Some i) = apsnd (map_option ((+) i)) (getWord (drop i body) word (Some 0))"
  by (auto simp: getWord_def Let_def ac_simps drop_drop split: option.splits)

lemma names_from_end: "length body < i \<Longrightarrow> names_from body (Some i) = []"
  by (subst names_from.simps) (simp add: getWord_def)

lemma names_from_shift: "names_from body (Some i) = names_from (drop i body) (Some 0)"
proof (induction "length body - i" arbitrary: body i rule: less_induct)
  case less
  show ?case
  proof (cases "i \<le> length body")
    case True
    obtain w p where g: "getWord (drop i body) ''name'' (Some 0) = (w, p)" by (rule prod.exhaust)
    show ?thesis
    proof (cases p)
      case (Some j)
      with getWord_advances [of "drop i body" "''name''" "Some 0" w j] g have j: "0 < j" "0 < length (drop i body)" by auto
      have "names_from body (Some (i + j)) = names_from (drop (i + j) body) (Some 0)" using j by (intro less.hyps) simp
      moreover have "names_from (drop i body) (Some j) = names_from (drop j (drop i body)) (Some 0)"
        using j by (intro less.hyps) simp
      ultimately show ?thesis
        by (subst (1 2) names_from.simps) (simp add: getWord_shift [OF True] g Some add.commute)
    qed (subst (1 2) names_from.simps, simp add: getWord_shift [OF True] g)
  next
    case False
    then show ?thesis by (simp add: names_from_end) (subst names_from.simps, simp add: getWord_def)
  qed
qed

lemma names_entry:
  assumes "str_find ''name'' (gap @ ''name'' @ ''='' @ quote @ n @ quote @ rest) = Some (length gap)" and "n \<noteq> ''''" and "CHR 0x22 \<notin> set n"
  shows "names_from (gap @ ''name'' @ ''='' @ quote @ n @ quote @ rest) (Some 0) = n # names_from (quote @ rest) (Some 0)"
proof -
  let ?b = "gap @ ''name'' @ ''='' @ quote @ n @ quote @ rest"
  have tw: "takeWhile (\<lambda>c. c \<noteq> CHR 0x22) (n @ CHR 0x22 # rest) = n" using assms(3) by (auto simp: takeWhile_append)
  have "getWord ?b ''name'' (Some 0) = (n, Some (length gap + 6 + length n))"
    using assms(1) tw by (simp add: getWord_def quote_def)
  moreover have "drop (length gap + 6 + length n) ?b = quote @ rest"
    by (simp add: quote_def numeral_eq_Suc)
  then have "names_from ?b (Some (length gap + 6 + length n)) = names_from (quote @ rest) (Some 0)" by (subst names_from_shift) (simp only:)
  ultimately show ?thesis using assms(2) by (subst names_from.simps) simp
qed

lemma names_from_entries:
  assumes "\<forall>n \<in> set ns. n \<noteq> '''' \<and> CHR 0x22 \<notin> set n"
  shows "names_from (quote @ '' value='' @ quote @ ''ON'' @ quote @ ''/>''
      @ concat (map (\<lambda>n. ''<attribute name='' @ quote @ n @ quote @ '' value='' @ quote @ ''ON'' @ quote @ ''/>'') ns) @ ''</set>'' @ newline) (Some 0) = ns"
  using assms
proof (induction ns)
  case Nil
  show ?case by (subst names_from.simps) (simp add: getWord_def quote_def newline_def)
next
  case (Cons n ns)
  let ?gap = "quote @ '' value='' @ quote @ ''ON'' @ quote @ ''/>'' @ ''<attribute ''"
  have "str_find ''name'' (?gap @ ''name'' @ ''='' @ quote @ n @ quote @ rest) = Some (length ?gap)" for rest by (simp add: quote_def)
  then have "names_from (?gap @ ''name'' @ ''='' @ quote @ n @ quote @ rest) (Some 0) = n # names_from (quote @ rest) (Some 0)" for rest
    using Cons.prems by (intro names_entry) simp_all
  from this [of "'' value='' @ quote @ ''ON'' @ quote @ ''/>'' @ concat (map (\<lambda>n. ''<attribute name='' @ quote @ n @ quote @ '' value='' @ quote @ ''ON'' @ quote @ ''/>'') ns) @ ''</set>'' @ newline"]
    Cons show ?case by simp
qed

lemma names_from_page:
  assumes "\<forall>n \<in> set ns. n \<noteq> '''' \<and> CHR 0x22 \<notin> set n"
  shows "names_from (subject_page ns) (Some 0) = ns"
proof (cases ns)
  case Nil
  then show ?thesis by (subst names_from.simps) (simp add: subject_page_def getWord_def quote_def newline_def)
next
  case (Cons n ms)
  let ?gap = "''<set type='' @ quote @ ''events'' @ quote @ ''>'' @ ''<attribute ''"
  have "str_find ''name'' (?gap @ ''name'' @ ''='' @ quote @ n @ quote @ rest) = Some (length ?gap)" for rest by (simp add: quote_def)
  then have "names_from (?gap @ ''name'' @ ''='' @ quote @ n @ quote @ rest) (Some 0) = n # names_from (quote @ rest) (Some 0)" for rest
    using assms Cons by (intro names_entry) simp_all
  from this [of "'' value='' @ quote @ ''ON'' @ quote @ ''/>'' @ concat (map (\<lambda>n. ''<attribute name='' @ quote @ n @ quote @ '' value='' @ quote @ ''ON'' @ quote @ ''/>'') ms) @ ''</set>'' @ newline"]
    assms Cons names_from_entries [of ms] show ?thesis by (simp add: subject_page_def)
qed

text \<open>The table reads what another agent publishes. From the page of subjects \<^verbatim>\<open>name.type\<close> that
  an agent serves, the names of the wanted types are read back, in order, and no others.\<close>

lemma subjects_read_back:
  assumes "\<forall>(n, ty) \<in> set l. n \<noteq> '''' \<and> ty \<noteq> '''' \<and> CHR ''.'' \<notin> set n \<and> CHR ''.'' \<notin> set ty \<and> CHR 0x22 \<notin> set n \<and> CHR 0x22 \<notin> set ty"
  shows "typed_names tys (subject_page (map (\<lambda>(n, ty). n @ ''.'' @ ty) l)) = map fst (filter (\<lambda>(n, ty). ty \<in> set tys) l)"
proof -
  have "names_from (subject_page (map (\<lambda>(n, ty). n @ ''.'' @ ty) l)) (Some 0) = map (\<lambda>(n, ty). n @ ''.'' @ ty) l"
    using assms by (intro names_from_page) auto
  moreover have "nl_init [] (n @ ''.'' @ ty) (CHR ''.'') = ([n, ty], True)" if "(n, ty) \<in> set l" for n ty
    using nl_init_join [of "[n, ty]" "CHR ''.''" "[]"] assms that by auto
  moreover have collect: "concat (map f l) = map fst (filter (\<lambda>(n, ty). ty \<in> set tys) l)"
    if "\<forall>(n, ty) \<in> set l. f (n, ty) = (if ty \<in> set tys then [n] else [])" for f
    using that by (induction l) auto
  ultimately show ?thesis unfolding typed_names_def Let_def by (simp only: map_map) (rule collect, auto)
qed

subsection \<open>Names and agents\<close>

text \<open>The names that an agent brings into the table.\<close>

definition lists_name :: "network \<Rightarrow> agent_desc list \<Rightarrow> string \<Rightarrow> nat \<Rightarrow> bool" where
  "lists_name net ags n i \<longleftrightarrow> i < length ags \<and> (n = ag_name (ags ! i) \<or> n \<in> set (page_names net (ags ! i)))"

lemma find_fold_names: "sm_find (fold (\<lambda>n m. sm_put n i m) ns m) k = (if k \<in> set ns then Some i else sm_find m k)"
  by (induction ns arbitrary: m) auto

text \<open>A loop that writes \<open>i\<close> under the keys \<open>S i\<close> leaves the last writer.\<close>

lemma last_writer:
  assumes "\<And>i m k. sm_find (w i m) k = (if k \<in> S i then Some i else sm_find m k)"
  shows "sm_find (fold w [0..<c] []) k = (if \<exists>i < c. k \<in> S i then Some (Max {i. i < c \<and> k \<in> S i}) else None)"
proof (induction c)
  case (Suc c)
  have split: "{i. i < Suc c \<and> k \<in> S i} = (if k \<in> S c then insert c {i. i < c \<and> k \<in> S i} else {i. i < c \<and> k \<in> S i})"
    by (auto simp: less_Suc_eq)
  show ?case
  proof (cases "k \<in> S c")
    case True
    have "Max (insert c {i. i < c \<and> k \<in> S i}) = c" by (rule Max_eqI) auto
    with True split show ?thesis by (auto simp: assms)
  next
    case False
    with split Suc show ?thesis by (auto simp: assms less_Suc_eq)
  qed
qed simp

lemma lookup_of_find:
  "sm_find (lookup_of net ags) n = (if \<exists>i. lists_name net ags n i then Some (Max {i. lists_name net ags n i}) else None)"
proof -
  let ?S = "\<lambda>i. insert (ag_name (ags ! i)) (set (page_names net (ags ! i)))"
  have "sm_find (lookup_of net ags) n = (if \<exists>i < length ags. n \<in> ?S i then Some (Max {i. i < length ags \<and> n \<in> ?S i}) else None)"
    unfolding lookup_of_def by (rule last_writer) (auto simp: find_fold_names)
  then show ?thesis by (simp add: lists_name_def)
qed

definition nt_wf :: "name_table \<Rightarrow> bool" where
  "nt_wf t \<longleftrightarrow> (\<forall>n i. sm_find (namelookup t) n = Some i \<longrightarrow> i < length (nt_agent t)
     \<and> (ag_name (nt_agent t ! i) = n \<or> isDeviceAgent (nt_agent t ! i) \<and> getCategory n \<noteq> ''''))"

lemma lists_name_Max: "lists_name net ags n i \<Longrightarrow> lists_name net ags n (Max {i. lists_name net ags n i})"
proof -
  assume "lists_name net ags n i"
  then have "{i. lists_name net ags n i} \<noteq> {}" by blast
  moreover have "finite {i. lists_name net ags n i}" by (rule finite_subset [of _ "{..<length ags}"]) (auto simp: lists_name_def)
  ultimately show ?thesis using Max_in by blast
qed

lemma mkTable_wf: "nt_wf (fst (mkTable net t))"
proof -
  have "lists_name net (nt_agent t) n i" if "sm_find (lookup_of net (nt_agent t)) n = Some i" for n i
    using that lists_name_Max by (auto simp: lookup_of_find split: if_splits)
  then show ?thesis
    by (fastforce simp: nt_wf_def mkTable_def Let_def lists_name_def page_names_def split: if_splits)
qed

lemma addifnew_wf: "nt_wf t \<Longrightarrow> addifnew ag t = (b, t') \<Longrightarrow> nt_wf t' \<and> nt_agent t' \<noteq> [] \<and> namelookup t' = namelookup t"
  by (auto simp: nt_wf_def addifnew_def nth_append list_ex_iff split: if_splits) (metis less_SucI)+

lemma on_last_wf: "nt_wf t \<Longrightarrow> (\<And>a. ag_name (f a) = ag_name a) \<Longrightarrow> nt_wf (on_last f t)"
proof -
  assume f: "\<And>a. ag_name (f a) = ag_name a" and t: "nt_wf t"
  have "ag_name ((nt_agent t)[k := f (nt_agent t ! k)] ! i) = ag_name (nt_agent t ! i)" for k i
    by (cases "k < length (nt_agent t) \<and> i = k") (auto simp: f nth_list_update_neq list_update_beyond)
  with t show ?thesis by (simp add: nt_wf_def on_last_def Let_def isDeviceAgent_def)
qed

text \<open>The table of names. After any announcement, whatever the other agents answer, each name leads to
  an agent of the table, which has that name or is an agent of devices. After an announcement that
  succeeds, a name leads to the last agent that lists it, and names that no agent lists are unknown.\<close>

lemma name_table_lookup:
  assumes "nt_wf t" and "nt_update net m t = (ok, t', es)"
  shows "nt_wf t' \<and> (ok \<longrightarrow> (\<forall>n. sm_find (namelookup t') n =
    (if \<exists>i. lists_name net (nt_agent t') n i then Some (Max {i. lists_name net (nt_agent t') n i}) else None)))"
proof -
  let ?ag = "\<lparr>ag_name = m_getString m ''agentname'', ag_port = m_getString m ''port'', ag_address = m_getString m ''address'',
    ag_time = m_getString m ''time'', ag_command = [], ag_event = []\<rparr>"
  obtain new t1 where a: "addifnew ?ag t = (new, t1)" by (rule prod.exhaust)
  from addifnew_wf [OF assms(1) a] have t1: "nt_wf t1" by blast
  then have t2: "nt_wf (on_last (extractCommand b) t1)" for b by (rule on_last_wf) (simp add: extractCommand_def)
  have tab: "sm_find (namelookup (fst (mkTable net t3))) n =
    (if \<exists>i. lists_name net (nt_agent (fst (mkTable net t3))) n i then Some (Max {i. lists_name net (nt_agent (fst (mkTable net t3))) n i}) else None)" for t3 n
    by (simp add: mkTable_def Let_def lookup_of_find)
  from assms(2) a consider "\<not> ok" "t' = t \<or> t' = t1 \<or> (\<exists>b. t' = on_last (extractCommand b) t1)" | t3 where "t' = fst (mkTable net t3)"
    unfolding nt_update_def Let_def by (auto simp: case_prod_beta split: if_splits)
  then show ?thesis
  proof cases
    case 1
    with assms(1) t1 t2 show ?thesis by blast
  next
    case 2
    with mkTable_wf tab show ?thesis by blast
  qed
qed

definition hello :: mmessage where
  "hello = m_add (m_add (m_new ''net'' ''agent_info'') ''agentname'' ''devices'') ''port'' ''1''"

definition tiny_net :: network where
  "tiny_net p a req = crlf @ crlf @ ''name='' @ quote @ ''p'' @ quote @ '' name='' @ quote @ ''LI_a'' @ quote"

definition empty_table :: name_table where
  "empty_table = \<lparr>nt_agent = [], namelookup = [], nt_category = []\<rparr>"

text \<open>A second first announcement. The subjects of an agent that is already in the table, and is not
  its last agent, are added to the last agent; its own entry is not refreshed.\<close>

lemma reannounce_misattributed:
  assumes "m_getString m ''status'' \<noteq> ''waiting''" and "m_getString m ''first_announce'' = ''TRUE''"
    and "nt_agent t = pre @ a # mid @ [z]" and "ag_name a = m_getString m ''agentname''" and "ag_port a = m_getString m ''port''"
    and "ag_address a = m_getString m ''address''"
    and "b1 = getPage net ''/subjects/imported'' a" and "\<not> str_contains b1 ''unknown''"
    and "b2 = getPage net ''/subjects/exported'' a" and "\<not> str_contains b2 ''unknown''"
  shows "nt_agent (fst (snd (nt_update net m t))) = pre @ a # mid @ [extractEvent b2 (extractCommand b1 z)]"
proof -
  let ?ag = "\<lparr>ag_name = m_getString m ''agentname'', ag_port = m_getString m ''port'', ag_address = m_getString m ''address'',
    ag_time = m_getString m ''time'', ag_command = [], ag_event = []\<rparr>"
  have new: "addifnew ?ag t = (False, t)" using assms(3-6) by (simp add: addifnew_def)
  have pages: "getPage net url ?ag = getPage net url a" for url using assms(5,6) by (simp add: getPage_def)
  have last: "nt_agent (on_last f s) = ys @ [f y]" if "nt_agent s = ys @ [y]" for f s ys y
    using that by (simp add: on_last_def Let_def)
  have "nt_agent t = (pre @ a # mid) @ [z]" using assms(3) by simp
  from last [OF this] have "nt_agent (on_last (extractEvent b2) (on_last (extractCommand b1) t)) = (pre @ a # mid) @ [extractEvent b2 (extractCommand b1 z)]"
    by (rule last)
  then show ?thesis using assms(1,2,8,10) assms(7,9) [symmetric]
    unfolding nt_update_def Let_def new pages by (simp add: mkTable_def Let_def)
qed

definition two_agents :: name_table where
  "two_agents = empty_table\<lparr>nt_agent :=
     [\<lparr>ag_name = ''devices'', ag_port = ''1'', ag_address = '''', ag_time = '''', ag_command = [], ag_event = []\<rparr>,
      \<lparr>ag_name = ''manager'', ag_port = ''2'', ag_address = '''', ag_time = '''', ag_command = [], ag_event = []\<rparr>]\<rparr>"

subsection \<open>From a call to a request\<close>

lemma last_index_snoc: "last_index P (l @ [x]) s = (if P x then length l else last_index P l s)"
proof -
  have "fold (\<lambda>i r. if P ((l @ [x]) ! i) then i else r) [0..<length l] s = fold (\<lambda>i r. if P (l ! i) then i else r) [0..<length l] s"
    by (rule fold_cong) (simp_all add: nth_append)
  then show ?thesis by (simp add: last_index_def)
qed

lemma last_index_none: "\<forall>x \<in> set l. \<not> P x \<Longrightarrow> last_index P l s = s"
  by (induction l rule: rev_induct) (simp_all add: last_index_snoc, simp add: last_index_def)

text \<open>A part of a path that the scanning loops keep whole.\<close>

definition plain_part :: "string \<Rightarrow> bool" where
  "plain_part s \<longleftrightarrow> length s \<le> 33 \<and> (\<forall>c \<in> set s. 32 < (of_char c :: nat) \<and> c \<noteq> CHR ''.'')"

lemma scan_part_plain:
  "i + length s \<le> 33 \<Longrightarrow> \<forall>c \<in> set s. 32 < (of_char c :: nat) \<and> c \<noteq> CHR ''.'' \<Longrightarrow>
   scan_part i (s @ r) = s @ scan_part (i + length s) r"
  by (induction s arbitrary: i) (auto simp: char_size_def Let_def)

lemma scan_part_keep: "plain_part s \<Longrightarrow> scan_part 0 (s @ r) = s @ scan_part (length s) r"
  using scan_part_plain [of 0 s r] by (simp add: plain_part_def)

lemma scan_part_ext: "plain_part s \<Longrightarrow> scan_part 0 (s @ ''.json'') = s" "plain_part s \<Longrightarrow> scan_part 0 s = s"
  using scan_part_keep [of s "''.json''"] scan_part_keep [of s "''''"] by simp_all

lemma replaceSpaces_plain: "plain_part s \<Longrightarrow> replaceSpaces s = s"
proof -
  assume "plain_part s"
  then have "\<forall>c \<in> set s. 32 < (of_char c :: nat)" by (simp add: plain_part_def)
  moreover have "\<not> 32 < (of_char (CHR '' '') :: nat)" by simp
  ultimately have "CHR '' '' \<notin> set s" by metis
  then show ?thesis unfolding replaceSpaces_def by (intro map_idI) auto
qed

text \<open>An entry for calls \<^verbatim>\<open>.../name/value.json\<close>.\<close>

definition value_entry :: "nat \<Rightarrow> mparams \<Rightarrow> string list \<Rightarrow> bool" where
  "value_entry jv p pre \<longleftrightarrow> te_prefix (te_new jv p) = pre @ [''$NAME'', ''$VALUE.json''] \<and> pre \<noteq> [] \<and> set pre \<inter> set wildcards = {}
     \<and> mp_get p ''class'' \<noteq> ''NULL''"

lemma value_entry_index:
  assumes "value_entry jv p pre"
  shows "nameindex (te_new jv p) = length pre" and "valueindex (te_new jv p) = Suc (length pre)"
proof -
  have pre: "fst (nl_init [] (mp_get p ''prefix'') (CHR ''/'')) = (pre @ [''$NAME'']) @ [''$VALUE.json'']"
    using assms by (simp add: value_entry_def te_new_def Let_def)
  have no: "\<forall>x \<in> set pre. \<not> (x = ''$NAME'' \<or> x = ''$NAME.json'')"
    using assms by (auto simp: value_entry_def wildcards_def)
  show "nameindex (te_new jv p) = length pre" "valueindex (te_new jv p) = Suc (length pre)"
    unfolding te_new_def Let_def pre trans_entry.simps last_index_snoc by simp_all
qed

lemma value_entry_match:
  assumes "value_entry jv p pre" and "prefix (mp_get p ''class'') n"
  shows "te_match (pre @ [n, w]) (mp_get p ''method'') (te_new jv p)"
proof -
  have "te_prefix (te_new jv p) = pre @ [''$NAME'', ''$VALUE.json'']" using assms(1) by (simp add: value_entry_def)
  moreover have "te_category (te_new jv p) = mp_get p ''class''" "te_method (te_new jv p) = mp_get p ''method''" by (simp_all add: te_new_def Let_def)
  moreover have "str_find (mp_get p ''class'') n = Some 0" using assms(2) by (cases n) simp_all
  moreover have "list_all (\<lambda>(x, w). (x = w \<or> w \<in> set wildcards) \<and> (w = ''$NAME'' \<or> w = ''$NAME.json'' \<longrightarrow> Q x)) (zip pre pre)" for Q
    using assms(1) by (auto simp: value_entry_def list_all_iff wildcards_def zip_same_conv_map)
  ultimately show ?thesis by (simp add: te_match_def wildcards_def list_all_append)
qed

lemma value_entry_cmd:
  assumes "value_entry jv p pre" and "plain_part n" and "plain_part v" and "n \<noteq> ''''" and "mp_get p ''url'' = ''/cmdw/$NAME/$VALUE''"
  shows "rpc2cmd (pre @ [n, v @ ''.json'']) '''' (te_new jv p) = (m_add m_default ''url'' (''/cmdw/'' @ n @ ''/'' @ v))\<lparr>mtype := ''cmd'', msubtype := n\<rparr>"
proof -
  let ?e = "te_new jv p" and ?ps = "pre @ [n, v @ ''.json'']"
  have pre: "0 < length pre" using assms(1) by (simp add: value_entry_def)
  have n: "te_getName ?ps ?e = n" using pre by (simp add: te_getName_def value_entry_index [OF assms(1)] scan_part_ext assms(2))
  have v: "te_getValue ?ps ?e = v"
    by (simp add: te_getValue_def value_entry_index [OF assms(1)] nth_append scan_part_ext replaceSpaces_plain assms(3))
  have "te_params ?e = p" "\<not> isnoentry ?e" using assms(1) by (simp_all add: te_new_def Let_def isnoentry_def value_entry_def)
  moreover have "fst (strReplace (fst (strReplace ''/cmdw/$NAME/$VALUE'' ''$VALUE'' v)) ''$NAME'' n) = ''/cmdw/'' @ n @ ''/'' @ v"
    by (simp add: strReplace_def)
  ultimately show ?thesis using assms(4,5) n v by (simp add: rpc2cmd_def)
qed

text \<open>A call of the application becomes one request to the agent of the device. With an entry of the
  shipped form, the call \<^verbatim>\<open>PUT .../name/value.json\<close> is posted as \<^verbatim>\<open>/cmdw/name/value\<close> to the
  agent that the table of names gives, and the answer reports success exactly when that agent says so.\<close>

lemma put_becomes_request:
  assumes "value_entry jv p pre" and "tab = es1 @ te_new jv p # es2"
    and "\<forall>e \<in> set es1. \<not> te_match (pre @ [n, v @ ''.json'']) (mp_get p ''method'') e"
    and "prefix (mp_get p ''class'') n" and "n \<noteq> ''''" and "plain_part n" and "plain_part v" and "mp_get p ''url'' = ''/cmdw/$NAME/$VALUE''"
    and "sm_find (namelookup t) n = Some i" and "ag = nt_agent t ! i"
    and "reply = getBody (net (ag_port ag) (ag_address ag)
      (''POST /cmdw/'' @ n @ ''/'' @ v @ '' HTTP/1.1'' @ crlf @ ''Content-Length: 0'' @ crlf @ crlf @ crlf @ crlf))"
    and "mp_get p ''answer'' = a @ ''$TRUEFALSE'' @ b" and "CHR ''$'' \<notin> set a" and "CHR ''$'' \<notin> set b"
  shows "m_getString (dm_execPut net j tab t (pre @ [n, v @ ''.json'']) (mp_get p ''method'') '''') ''body''
    = a @ (if str_contains reply ''done'' then ''true'' else ''false'') @ b"
proof -
  let ?ps = "pre @ [n, v @ ''.json'']" and ?e = "te_new jv p"
  have "List.find (te_match ?ps (mp_get p ''method'')) (es1 @ ?e # es2) = Some ?e"
    using assms(3) value_entry_match [OF assms(1,4), of "v @ ''.json''"] by (induction es1) auto
  then have get: "tt_get j ?ps (mp_get p ''method'') tab = ?e" by (simp add: tt_get_def assms(2))
  have ne: "\<not> isnoentry ?e" using assms(1) by (simp add: te_new_def Let_def isnoentry_def value_entry_def)
  note cmd = value_entry_cmd [OF assms(1,6,7,5,8)]
  have z: "unsigned2a 0 = ''0''" by code_simp
  have "nt_notify net (rpc2cmd ?ps '''' ?e) t = reply"
    unfolding cmd assms(11) assms(10) [symmetric]
    by (simp add: nt_notify_def assms(9,10) m_add_def m_default_def m_getString_def nt_request_def z)
  then have "dm_execPut net j tab t ?ps (mp_get p ''method'') '''' = mkAnswer reply ?e ''PUT''"
    by (simp add: dm_execPut_def get ne)
  moreover have "m_getString (mkAnswer reply ?e ''PUT'') ''body'' = xml2jsonBody reply ?e"
    by (simp add: mkAnswer_def m_default_def m_add_def m_getString_def)
  moreover have "xml2jsonBody reply ?e = a @ (if str_contains reply ''done'' then ''true'' else ''false'') @ b"
  proof -
    let ?tf = "if str_contains reply ''done'' then ''true'' else ''false''"
    have "te_params ?e = p" by (simp add: te_new_def Let_def)
    moreover have "fst (strReplace (a @ ''$TRUEFALSE'' @ b) ''$TRUEFALSE'' ?tf) = a @ ?tf @ b"
      using assms(13) by (simp add: strReplace_def str_find_head_append)
    moreover have "CHR ''$'' \<notin> set (a @ ?tf @ b)" using assms(13,14) by simp
    then have "fst (strReplace (a @ ?tf @ b) (CHR ''$'' # k) x) = a @ ?tf @ b" for k x by (simp add: strReplace_def str_find_head_None)
    ultimately show ?thesis by (simp only: xml2jsonBody_def assms(12) Let_def)
  qed
  ultimately show ?thesis by simp
qed

definition light_params :: mparams where
  "light_params = mp_add (mp_add (mp_add (mp_add (mp_add (mp_new ''c'' ''h'' ''l'') ''prefix'' ''D/$NAME/$VALUE.json'') ''class'' ''LI'')
     ''url'' ''/cmdw/$NAME/$VALUE'') ''method'' ''P'') ''answer'' ''r=$TRUEFALSE''"

end
