(* ===== verification/File_Tree.thy ===== *)
theory File_Tree
  imports File_Store
begin

text \<open>
  The directory tree that the archive works on, and the operations of
  \<^verbatim>\<open>src/agents/minilibs/filemanager.cpp\<close> that create, list, move and delete in it. A
  node is a file with its text or a directory with its entries in the order in which
  \<^verbatim>\<open>readdir\<close> gives them. A textual path is resolved from the root of the tree: an empty
  component and \<open>.\<close> stay, \<open>..\<close> goes up, and every component but the last must be a directory.
  Links, permissions and devices are outside the model. The locale \<open>text_files\<close> is the contract
  that the writers of the archive rely on.
\<close>

datatype fsnode = FileNode string | DirNode "(string \<times> fsnode) list"

type_synonym fspath = "string list"

subsection \<open>Nodes by their canonical path\<close>

fun entry_put :: "string \<Rightarrow> 'v \<Rightarrow> (string \<times> 'v) list \<Rightarrow> (string \<times> 'v) list" where
  "entry_put c v [] = [(c, v)]"
| "entry_put c v ((d, w) # es) = (if d = c then (d, v) # es else (d, w) # entry_put c v es)"

definition entry_set :: "string \<Rightarrow> 'v option \<Rightarrow> (string \<times> 'v) list \<Rightarrow> (string \<times> 'v) list" where
  "entry_set c v es = (case v of None \<Rightarrow> sm_erase c es | Some w \<Rightarrow> entry_put c w es)"

fun node_at :: "fspath \<Rightarrow> fsnode \<Rightarrow> fsnode option" where
  "node_at [] t = Some t"
| "node_at (c # cs) (FileNode x) = None"
| "node_at (c # cs) (DirNode es) = (case sm_find es c of None \<Rightarrow> None | Some t \<Rightarrow> node_at cs t)"

fun node_set :: "fspath \<Rightarrow> fsnode option \<Rightarrow> fsnode \<Rightarrow> fsnode" where
  "node_set [] v t = (case v of None \<Rightarrow> t | Some u \<Rightarrow> u)"
| "node_set (c # cs) v (FileNode x) = FileNode x"
| "node_set (c # cs) v (DirNode es) =
     DirNode (if cs = [] then entry_set c v es
              else case sm_find es c of None \<Rightarrow> es | Some t \<Rightarrow> entry_put c (node_set cs v t) es)"

definition file_at :: "fspath \<Rightarrow> fsnode \<Rightarrow> string option" where
  "file_at p t = (case node_at p t of Some (FileNode x) \<Rightarrow> Some x | _ \<Rightarrow> None)"

definition dir_at :: "fspath \<Rightarrow> fsnode \<Rightarrow> bool" where
  "dir_at p t \<longleftrightarrow> (case node_at p t of Some (DirNode es) \<Rightarrow> True | _ \<Rightarrow> False)"

lemma find_entry_put [simp]: "sm_find (entry_put c v es) d = (if d = c then Some v else sm_find es d)"
  by (induction c v es rule: entry_put.induct) auto

lemma find_entry_set [simp]: "sm_find (entry_set c v es) d = (if d = c then v else sm_find es d)"
  by (cases v) (auto simp: entry_set_def)

lemma file_at_simps [simp]:
  "file_at [] (FileNode x) = Some x" "file_at [] (DirNode es) = None"
  "file_at (c # cs) (FileNode x) = None"
  "file_at (c # cs) (DirNode es) = (case sm_find es c of None \<Rightarrow> None | Some t \<Rightarrow> file_at cs t)"
  by (auto simp: file_at_def split: option.split)

lemma dir_at_simps [simp]:
  "\<not> dir_at [] (FileNode x)" "dir_at [] (DirNode es)" "\<not> dir_at (c # cs) (FileNode x)"
  "dir_at (c # cs) (DirNode es) \<longleftrightarrow> (case sm_find es c of None \<Rightarrow> False | Some t \<Rightarrow> dir_at cs t)"
  by (auto simp: dir_at_def split: option.split)

lemma file_not_dir: "file_at p t = Some x \<Longrightarrow> \<not> dir_at p t"
  by (auto simp: file_at_def dir_at_def split: option.splits fsnode.splits)

lemma node_none_iff: "node_at p t = None \<longleftrightarrow> file_at p t = None \<and> \<not> dir_at p t"
  by (auto simp: file_at_def dir_at_def split: option.splits fsnode.splits)

lemma at_file [simp]:
  "dir_at p (FileNode x) = False" "file_at p (FileNode x) = (if p = [] then Some x else None)"
  by (cases p; simp)+

lemma at_root [simp]:
  "dir_at [] t \<longleftrightarrow> (\<exists>es. t = DirNode es)" "file_at [] t = Some x \<longleftrightarrow> t = FileNode x"
  by (cases t; simp)+

lemma not_dir_root: "(\<forall>es. t \<noteq> DirNode es) \<longleftrightarrow> (\<exists>x. t = FileNode x)"
  by (cases t) auto

lemma node_set_root [simp]: "p \<noteq> [] \<Longrightarrow> (\<exists>es. node_set p v t = DirNode es) \<longleftrightarrow> (\<exists>es. t = DirNode es)"
  by (cases p; cases t) auto

lemma dir_at_prefix: "dir_at (p @ q) t \<Longrightarrow> dir_at p t"
proof (induction p t rule: node_at.induct)
  case (1 t)
  then show ?case by (cases t) auto
qed (auto split: option.splits)

lemma dir_at_butlast: "dir_at p t \<Longrightarrow> dir_at (butlast p) t"
  by (cases p rule: rev_cases) (auto dest: dir_at_prefix)

text \<open>What an update at a place whose parent is a directory changes.\<close>

lemma node_set_at:
  assumes "p \<noteq> []" "dir_at (butlast p) t"
  shows "node_at p (node_set p v t) = v"
  using assms by (induction p v t rule: node_set.induct) (auto split: option.splits if_splits)

lemma set_file:
  assumes "p \<noteq> []" "dir_at (butlast p) t" "\<not> dir_at p t"
  shows "file_at q (node_set p (Some (FileNode x)) t) = (if q = p then Some x else file_at q t)"
    and "dir_at q (node_set p (Some (FileNode x)) t) = dir_at q t"
  using assms
proof (induction p "Some (FileNode x)" t arbitrary: q rule: node_set.induct)
  case (3 c cs es)
  {
    case 1
    with 3 show ?case by (cases q) (auto simp: not_dir_root split: option.splits if_splits)
  next
    case 2
    with 3 show ?case by (cases q) (auto simp: not_dir_root split: option.splits if_splits)
  }
qed auto

lemma set_dir:
  assumes "p \<noteq> []" "dir_at (butlast p) t" "node_at p t = None"
  shows "file_at q (node_set p (Some (DirNode [])) t) = file_at q t"
    and "dir_at q (node_set p (Some (DirNode [])) t) \<longleftrightarrow> q = p \<or> dir_at q t"
  using assms
proof (induction p "Some (DirNode [])" t arbitrary: q rule: node_set.induct)
  case (3 c cs es)
  {
    case 1
    with 3 show ?case by (cases q; cases "tl q") (auto split: option.splits if_splits)
  next
    case 2
    with 3 show ?case by (cases q; cases "tl q") (auto split: option.splits if_splits)
  }
qed auto

lemma remove_file:
  assumes "file_at p t = Some x" "p \<noteq> []"
  shows "file_at q (node_set p None t) = (if q = p then None else file_at q t)"
    and "dir_at q (node_set p None t) = dir_at q t"
  using assms
proof (induction p "None :: fsnode option" t arbitrary: q rule: node_set.induct)
  case (3 c cs es)
  {
    case 1
    with 3 show ?case by (cases q) (auto simp: not_dir_root split: option.splits if_splits)
  next
    case 2
    with 3 show ?case by (cases q) (auto simp: not_dir_root split: option.splits if_splits)
  }
qed auto

lemma file_at_parent: "file_at p t = Some x \<Longrightarrow> p \<noteq> [] \<Longrightarrow> dir_at (butlast p) t"
  by (induction p t rule: node_at.induct) (auto split: option.splits if_splits)

subsection \<open>Textual paths\<close>

definition path_parts :: "string \<Rightarrow> string list" where
  "path_parts p = split_names (CHR ''/'') p @ (if p \<noteq> '''' \<and> last p = CHR ''/'' then [''''] else [])"

fun resolve :: "fsnode \<Rightarrow> fspath \<Rightarrow> string list \<Rightarrow> fspath option" where
  "resolve t cur [] = Some cur"
| "resolve t cur (c # cs) =
     (if \<not> dir_at cur t then None
      else if c = '''' \<or> c = ''.'' then resolve t cur cs
      else if c = ''..'' then resolve t (butlast cur) cs
      else resolve t (cur @ [c]) cs)"

definition canon :: "string \<Rightarrow> fsnode \<Rightarrow> fspath option" where
  "canon p t = (if p = '''' then None else resolve t [] (path_parts p))"

definition ft_read :: "string \<Rightarrow> fsnode \<Rightarrow> string option" where
  "ft_read p t = (case canon p t of None \<Rightarrow> None | Some q \<Rightarrow> file_at q t)"

text \<open>An output stream on a path: it is not open when the path is a directory or has no parent.\<close>

definition ft_write :: "string \<Rightarrow> string \<Rightarrow> fsnode \<Rightarrow> fsnode option" where
  "ft_write p x t =
     (case canon p t of
        None \<Rightarrow> None
      | Some q \<Rightarrow> if dir_at q t then None else Some (node_set q (Some (FileNode x)) t))"

definition ft_entries :: "string \<Rightarrow> fsnode \<Rightarrow> directory" where
  "ft_entries p t =
     (case canon p t of
        None \<Rightarrow> None
      | Some q \<Rightarrow> (case node_at q t of
                    Some (DirNode es) \<Rightarrow> Some (map (\<lambda>(n, c). (n, dir_at [] c)) es)
                  | _ \<Rightarrow> None))"

subsection \<open>The operations of the file manager\<close>

definition ft_isDir :: "string \<Rightarrow> fsnode \<Rightarrow> bool" where
  "ft_isDir p t \<longleftrightarrow> ft_entries p t \<noteq> None"

text \<open>\<^verbatim>\<open>isFile\<close> opens for reading and writing, which fails on a directory.\<close>

definition ft_isFile :: "string \<Rightarrow> fsnode \<Rightarrow> bool" where
  "ft_isFile p t \<longleftrightarrow> ft_read p t \<noteq> None"

text \<open>With \<open>perror_flag\<close> a failed \<^verbatim>\<open>mkdir\<close> ends the process.\<close>

definition ft_makeDir :: "bool \<Rightarrow> string \<Rightarrow> fsnode \<Rightarrow> (bool \<times> fsnode) option" where
  "ft_makeDir perror_flag p t =
     (if ft_isDir p t then Some (True, t)
      else case canon p t of
             Some q \<Rightarrow> if node_at q t = None then Some (True, node_set q (Some (DirNode [])) t)
                       else if perror_flag then None else Some (False, t)
           | None \<Rightarrow> if perror_flag then None else Some (False, t))"

definition ft_deleteFile :: "string \<Rightarrow> string \<Rightarrow> fsnode \<Rightarrow> bool \<times> fsnode" where
  "ft_deleteFile filepath filename t =
     (let p = (if filename \<noteq> '''' then filepath @ ''/'' @ filename else filepath)
      in if ft_isFile p t then (True, node_set (the (canon p t)) None t) else (False, t))"

text \<open>\<^verbatim>\<open>rename\<close> replaces a file and refuses a directory.\<close>

definition ft_moveFile :: "string \<Rightarrow> string \<Rightarrow> string \<Rightarrow> fsnode \<Rightarrow> bool \<times> fsnode" where
  "ft_moveFile filepath new_filepath new_filename t =
     (let new = (if new_filename \<noteq> '''' then new_filepath @ ''/'' @ new_filename else new_filepath)
      in case ft_read filepath t of
           None \<Rightarrow> (False, t)
         | Some x \<Rightarrow>
             if canon new t = canon filepath t then (True, t)
             else case ft_write new x t of
                    None \<Rightarrow> (False, t)
                  | Some t' \<Rightarrow> (True, node_set (the (canon filepath t)) None t'))"

text \<open>
  \<^verbatim>\<open>copyFile\<close>: the output is created first; a directory opens as the input, reports a
  size no buffer can have, and the allocation ends the process.
\<close>

definition ft_copyFile :: "string \<Rightarrow> string \<Rightarrow> string \<Rightarrow> fsnode \<Rightarrow> (bool \<times> fsnode) option" where
  "ft_copyFile filepath new_filepath new_filename t =
     (let out = (if new_filename \<noteq> '''' then new_filepath @ ''/'' @ new_filename else new_filepath)
      in case ft_write out '''' t of
           None \<Rightarrow> Some (False, t)
         | Some t1 \<Rightarrow>
             if ft_isDir filepath t1 then None
             else case ft_read filepath t1 of
                    None \<Rightarrow> Some (False, t1)
                  | Some x \<Rightarrow> Some (True, the (ft_write out x t1)))"

subsection \<open>Resolution\<close>

lemma resolve_append: "resolve t cur (xs @ ys) = Option.bind (resolve t cur xs) (\<lambda>q. resolve t q ys)"
  by (induction t cur xs rule: resolve.induct) auto

lemma resolve_parent:
  "resolve t cur cs = Some q \<Longrightarrow> dir_at cur t \<or> cur \<noteq> [] \<and> dir_at (butlast cur) t
     \<Longrightarrow> dir_at q t \<or> q \<noteq> [] \<and> dir_at (butlast q) t"
proof (induction t cur cs rule: resolve.induct)
  case (2 t cur c cs)
  then have d: "dir_at cur t" by (auto split: if_splits)
  then have "dir_at (butlast cur) t" by (rule dir_at_butlast)
  with 2 d show ?case by (auto split: if_splits)
qed simp

lemma path_parts_nonempty: "p \<noteq> '''' \<Longrightarrow> path_parts p \<noteq> []"
  by (auto simp: path_parts_def split_names.simps [of _ p] split: option.split)

lemma canon_parent: "canon p t = Some q \<Longrightarrow> \<not> dir_at q t \<Longrightarrow> q \<noteq> [] \<and> dir_at (butlast q) t"
proof -
  assume c: "canon p t = Some q" and n: "\<not> dir_at q t"
  then have p: "p \<noteq> ''''" "resolve t [] (path_parts p) = Some q" by (auto simp: canon_def split: if_splits)
  with path_parts_nonempty [OF p(1)] have "dir_at [] t"
    by (cases "path_parts p") (auto split: if_splits)
  with resolve_parent [OF p(2)] n show ?thesis by auto
qed

lemma resolve_same_dirs:
  assumes "\<And>q. dir_at q t' = dir_at q t"
  shows "resolve t' cur cs = resolve t cur cs"
  by (induction cs arbitrary: cur) (simp_all add: assms)

lemma canon_same_dirs: "(\<And>q. dir_at q t' = dir_at q t) \<Longrightarrow> canon p t' = canon p t"
  unfolding canon_def by (subst resolve_same_dirs) auto

text \<open>A path that resolves keeps resolving when only directories are added.\<close>

lemma resolve_more_dirs:
  assumes "\<And>q. dir_at q t \<Longrightarrow> dir_at q t'"
  shows "resolve t cur cs = Some q \<Longrightarrow> resolve t' cur cs = Some q"
  by (induction cs arbitrary: cur) (auto simp: assms split: if_splits)

lemma canon_more_dirs:
  assumes "\<And>q. dir_at q t \<Longrightarrow> dir_at q t'"
  shows "canon p t = Some q \<Longrightarrow> canon p t' = Some q"
  using resolve_more_dirs [OF assms] by (simp add: canon_def split: if_splits)

lemma ft_isDir_iff: "ft_isDir p t \<longleftrightarrow> (\<exists>q. canon p t = Some q \<and> dir_at q t)"
  by (auto simp: ft_isDir_def ft_entries_def dir_at_def split: option.splits fsnode.splits)

lemma ft_read_Some: "ft_read p t = Some x \<longleftrightarrow> (\<exists>q. canon p t = Some q \<and> file_at q t = Some x)"
  by (auto simp: ft_read_def split: option.splits)

lemma ft_write_Some:
  "ft_write p x t = Some t' \<longleftrightarrow>
     (\<exists>q. canon p t = Some q \<and> \<not> dir_at q t \<and> t' = node_set q (Some (FileNode x)) t)"
  by (auto simp: ft_write_def split: option.splits if_splits)

lemma ft_write_file_at:
  assumes "ft_write p x t = Some t'"
  shows "file_at q t' = (if canon p t = Some q then Some x else file_at q t)"
    and "dir_at q t' = dir_at q t"
proof -
  from assms obtain c where c: "canon p t = Some c" "\<not> dir_at c t"
    "t' = node_set c (Some (FileNode x)) t" by (auto simp: ft_write_Some)
  from canon_parent [OF c(1,2)] c show "file_at q t' = (if canon p t = Some q then Some x else file_at q t)"
    "dir_at q t' = dir_at q t" by (auto simp: set_file)
qed

lemma ft_write_canon: "ft_write p x t = Some t' \<Longrightarrow> canon q t' = canon q t"
  by (rule canon_same_dirs) (rule ft_write_file_at(2))

subsection \<open>The contract of the writers\<close>

locale text_files =
  fixes get_text :: "'p \<Rightarrow> 's \<Rightarrow> string option"
    and put_text :: "'p \<Rightarrow> string \<Rightarrow> 's \<Rightarrow> 's option"
    and place :: "'p \<Rightarrow> 's \<Rightarrow> 'c option"
  assumes read_written: "put_text p x s = Some s' \<Longrightarrow> get_text p s' = Some x"
    and read_elsewhere: "put_text p x s = Some s' \<Longrightarrow> place q s \<noteq> place p s \<Longrightarrow> get_text q s' = get_text q s"
    and place_kept: "put_text p x s = Some s' \<Longrightarrow> place q s' = place q s"
    and write_again: "put_text p x s = Some s' \<Longrightarrow> put_text q y s \<noteq> None \<Longrightarrow> put_text q z s' \<noteq> None"
begin

definition append_text :: "'p \<Rightarrow> string \<Rightarrow> 's \<Rightarrow> 's option" where
  "append_text p x s = put_text p (case get_text p s of None \<Rightarrow> x | Some y \<Rightarrow> y @ x) s"

fun log_run :: "'p \<Rightarrow> (bool \<times> string) list \<Rightarrow> 's \<Rightarrow> 's option" where
  "log_run p [] s = Some s"
| "log_run p ((add, x) # ops) s =
     Option.bind (if add then append_text p x s else put_text p x s) (log_run p ops)"

text \<open>The text that the operations on one file leave in it.\<close>

fun log_text :: "(bool \<times> string) list \<Rightarrow> string \<Rightarrow> string" where
  "log_text [] y = y"
| "log_text ((add, x) # ops) y = log_text ops (if add then y @ x else x)"

abbreviation old_text :: "'p \<Rightarrow> 's \<Rightarrow> string" where
  "old_text p s \<equiv> (case get_text p s of None \<Rightarrow> '''' | Some y \<Rightarrow> y)"

lemma append_read:
  "append_text p x s = Some s' \<Longrightarrow> get_text p s' = Some (old_text p s @ x)"
  by (auto simp: append_text_def read_written split: option.splits)

lemma append_elsewhere:
  "append_text p x s = Some s' \<Longrightarrow> place q s \<noteq> place p s \<Longrightarrow> get_text q s' = get_text q s"
  by (auto simp: append_text_def intro: read_elsewhere)

lemma append_again:
  "append_text p x s = Some s' \<Longrightarrow> put_text q y s \<noteq> None \<Longrightarrow> put_text q z s' \<noteq> None"
  unfolding append_text_def by (rule write_again)

end

interpretation ft: text_files ft_read ft_write canon
proof
  fix p x q y z :: string and s s' :: fsnode
  assume w: "ft_write p x s = Some s'"
  note k = ft_write_file_at [OF w] ft_write_canon [OF w]
  from w show "ft_read p s' = Some x" by (auto simp: ft_read_Some k ft_write_Some)
  show "ft_read q s' = ft_read q s" if "canon q s \<noteq> canon p s"
    using that by (auto simp: ft_read_def k split: option.split)
  show "canon q s' = canon q s" by (rule k)
  show "ft_write q z s' \<noteq> None" if "ft_write q y s \<noteq> None"
    using that by (auto simp: ft_write_def k split: option.splits if_splits)
qed

subsection \<open>Names below a directory\<close>

definition plain_name :: "string \<Rightarrow> bool" where
  "plain_name n \<longleftrightarrow> n \<noteq> '''' \<and> n \<noteq> ''.'' \<and> n \<noteq> ''..'' \<and> CHR ''/'' \<notin> set n"

lemma split_names_snoc:
  "split_names d (p @ d # n) = split_names d p @ (if p = [] \<or> last p = d then [''''] else []) @ split_names d n"
proof (induction "length p" arbitrary: p rule: less_induct)
  case less
  show ?case
  proof (cases "d \<in> set p")
    case False
    then show ?thesis
      by (cases "p = []") (auto simp: split_names_step split_names_no_delim
          split_names_step [of d "[]", simplified] split_names.simps [of d "[]"] dest: last_in_set)
  next
    case True
    then obtain a b where p: "p = a @ d # b" "d \<notin> set a" by (auto dest: split_list_first)
    with less [of b] show ?thesis by (simp add: split_names_step)
  qed
qed

lemma path_parts_step:
  "p \<noteq> '''' \<Longrightarrow> path_parts (p @ CHR ''/'' # n) = path_parts p @ (if n = '''' then [''''] else path_parts n)"
  by (auto simp: path_parts_def split_names_snoc split_names.simps [of _ "[]"])

lemma path_parts_plain: "plain_name n \<Longrightarrow> path_parts n = [n]"
  by (auto simp: plain_name_def path_parts_def split_names_no_delim dest: last_in_set)

lemma canon_below:
  assumes "p \<noteq> ''''" "n \<noteq> ''''"
  shows "canon (p @ CHR ''/'' # n) t = Option.bind (canon p t) (\<lambda>q. resolve t q (path_parts n))"
  using assms by (simp add: canon_def path_parts_step resolve_append)

lemma canon_child:
  "canon p t = Some q \<Longrightarrow> dir_at q t \<Longrightarrow> plain_name n \<Longrightarrow> canon (p @ CHR ''/'' # n) t = Some (q @ [n])"
proof -
  assume a: "canon p t = Some q" "dir_at q t" "plain_name n"
  then have "p \<noteq> ''''" "n \<noteq> ''''" by (auto simp: canon_def plain_name_def)
  from canon_below [OF this, of t] path_parts_plain [OF a(3)] a show ?thesis by (simp add: plain_name_def)
qed

lemma canon_slash: "canon p t = Some q \<Longrightarrow> dir_at q t \<Longrightarrow> canon (p @ ''/'') t = Some q"
  by (auto simp: canon_def path_parts_step resolve_append split: if_splits)

subsection \<open>What the operations change\<close>

lemma makeDir_effect:
  assumes "ft_makeDir fl p t = Some (r, t')"
  shows "file_at q t' = file_at q t"
    and "dir_at q t' \<longleftrightarrow> dir_at q t \<or> r \<and> canon p t = Some q"
proof -
  have "t' = t \<and> (r \<longrightarrow> ft_isDir p t) \<or>
    (\<exists>c. canon p t = Some c \<and> node_at c t = None \<and> r \<and> t' = node_set c (Some (DirNode [])) t)"
    using assms by (auto simp: ft_makeDir_def split: option.splits if_splits)
  then show "file_at q t' = file_at q t" "dir_at q t' \<longleftrightarrow> dir_at q t \<or> r \<and> canon p t = Some q"
    using canon_parent [of p t] by (auto simp: ft_isDir_iff set_dir node_none_iff)
qed

lemma makeDir_isDir:
  assumes "ft_makeDir True p t = Some (r, t')"
  shows "r" "ft_isDir p t'" "canon p t \<noteq> None" "canon p t' = canon p t"
proof -
  show r: "r" using assms by (auto simp: ft_makeDir_def split: option.splits if_splits)
  show n: "canon p t \<noteq> None" using assms by (auto simp: ft_makeDir_def ft_isDir_iff split: option.splits if_splits)
  then obtain c where c: "canon p t = Some c" by auto
  have "canon p t' = Some c"
    by (rule canon_more_dirs [OF _ c]) (simp add: makeDir_effect [OF assms])
  with c r show "ft_isDir p t'" "canon p t' = canon p t"
    by (auto simp: ft_isDir_iff makeDir_effect [OF assms])
qed

lemma deleteFile_effect:
  assumes "ft_deleteFile p n t = (r, t')" and "f = (if n \<noteq> '''' then p @ ''/'' @ n else p)"
  shows "r \<longleftrightarrow> ft_isFile f t"
    and "file_at q t' = (if canon f t = Some q then None else file_at q t)"
    and "dir_at q t' = dir_at q t"
proof -
  show "r \<longleftrightarrow> ft_isFile f t" using assms by (auto simp: ft_deleteFile_def Let_def split: if_splits)
  have "file_at q t' = (if canon f t = Some q then None else file_at q t) \<and> dir_at q t' = dir_at q t"
  proof (cases "ft_read f t")
    case None
    then have "t' = t" using assms by (auto simp: ft_deleteFile_def Let_def ft_isFile_def split: if_splits)
    with None show ?thesis by (auto simp: ft_read_def split: option.splits)
  next
    case (Some x)
    then obtain c where c: "canon f t = Some c" "file_at c t = Some x" by (auto simp: ft_read_Some)
    from canon_parent [OF c(1) file_not_dir [OF c(2)]] have "c \<noteq> []" by simp
    moreover have "t' = node_set c None t"
      using assms Some c by (auto simp: ft_deleteFile_def Let_def ft_isFile_def)
    ultimately show ?thesis using remove_file [OF c(2)] c by auto
  qed
  then show "file_at q t' = (if canon f t = Some q then None else file_at q t)"
    "dir_at q t' = dir_at q t" by blast+
qed

lemma moveFile_effect:
  assumes "ft_read p t = Some x" "ft_write n '''' t \<noteq> None" and "ft_moveFile p n '''' t = (r, t')"
  shows "r"
    and "file_at q t' = (if canon n t = Some q then Some x else if canon p t = Some q then None else file_at q t)"
    and "dir_at q t' = dir_at q t"
proof -
  obtain c where c: "canon p t = Some c" "file_at c t = Some x" using assms(1) by (auto simp: ft_read_Some)
  then have c0: "c \<noteq> []" using canon_parent [OF c(1) file_not_dir [OF c(2)]] by simp
  obtain t1 where t1: "ft_write n x t = Some t1"
    using assms(2) by (auto simp: ft_write_def split: option.splits if_splits)
  note w = ft_write_file_at [OF t1]
  have m: "ft_moveFile p n '''' t = (True, if canon n t = canon p t then t else node_set c None t1)"
    using c t1 assms(1) by (simp add: ft_moveFile_def)
  with assms(3) show "r" by simp
  have "file_at q (node_set c None t1) = (if q = c then None else file_at q t1)"
    "dir_at q (node_set c None t1) = dir_at q t1" if "canon n t \<noteq> canon p t"
    using remove_file [of c t1 x] w(1) [of c] c c0 that by auto
  then show "file_at q t' = (if canon n t = Some q then Some x else if canon p t = Some q then None else file_at q t)"
    "dir_at q t' = dir_at q t"
    using m assms(3) w c by (auto split: if_splits)
qed

end
