(* ===== verification/Archive_Store.thy ===== *)
theory Archive_Store
  imports File_Tree Effects Subject_Bus
begin

text \<open>
  \<^verbatim>\<open>src/agents/minilibs/ArchiveManager.cpp\<close> and its header: the archive that an agent keeps
  below its home directory. A root of the archive is a directory with the subdirectories that may
  be used and the number of days its instances are kept. A resource is a directory with the file
  \<^verbatim>\<open>data\<close> of the current day and one file \<^verbatim>\<open>data.yyyy_mm_dd\<close> for each past day.
  \<open>postExec\<close> and \<open>postLog\<close> append to a resource, \<open>putExec\<close>, \<open>putConf\<close> and \<open>putLog\<close> replace it,
  \<open>getAll\<close>, \<open>getFirst\<close>, \<open>getLast\<close>, \<open>getFile\<close>, \<open>getDir\<close> and \<open>getList\<close> read, \<open>purge\<close> closes the day.
  A read or a call that the source leaves undefined, an exception nobody catches, an exit and a
  loop that does not end have the value \<open>None\<close>. The XML parser is the parameter \<open>parse\<close>, the
  calendar of \<^verbatim>\<open>boost::gregorian\<close> the parameter \<open>daynum\<close>, which has no value for a date it
  rejects with an exception.
\<close>

subsection \<open>Text files\<close>

datatype instream = NotOpen | DirStream | TextStream string

text \<open>\<^verbatim>\<open>ifstream\<close> opens a directory as well; every read from it fails without
  reaching the end of the file.\<close>

definition open_in :: "string \<Rightarrow> fsnode \<Rightarrow> instream" where
  "open_in p t =
     (case canon p t of
        None \<Rightarrow> NotOpen
      | Some q \<Rightarrow> (case node_at q t of
                    None \<Rightarrow> NotOpen
                  | Some (FileNode x) \<Rightarrow> TextStream x
                  | Some (DirNode es) \<Rightarrow> DirStream))"

text \<open>The lines that \<^verbatim>\<open>while(getline(f, line))\<close> and
  \<^verbatim>\<open>while(!f.eof()) getline(f, line)\<close> go through.\<close>

definition text_lines :: "string \<Rightarrow> string list" where
  "text_lines x = split_names (CHR 0x0A) x"

definition eof_lines :: "string \<Rightarrow> string list" where
  "eof_lines x = text_lines x @ (if x = '''' \<or> last x = CHR 0x0A then [''''] else [])"

fun char_lines :: "instream \<Rightarrow> string list" where
  "char_lines (TextStream x) = text_lines x"
| "char_lines _ = []"

text \<open>The whole file through \<^verbatim>\<open>istreambuf_iterator\<close>: reading a directory throws.\<close>

fun char_buffer :: "instream \<Rightarrow> string option" where
  "char_buffer (TextStream x) = Some x"
| "char_buffer NotOpen = Some ''''"
| "char_buffer DirStream = None"

subsection \<open>Dates\<close>

text \<open>The \<^verbatim>\<open>npos\<close> of a name without a slash is cut to 32 bits and no longer compares equal
  to \<^verbatim>\<open>npos\<close>, so the whole name is returned.\<close>

definition getParentDirectory :: "string \<Rightarrow> string" where
  "getParentDirectory filename =
     (case find_last (CHR ''/'') filename of Some pos \<Rightarrow> take pos filename | None \<Rightarrow> filename)"

definition isDate :: "string \<Rightarrow> char \<Rightarrow> bool" where
  "isDate date separator =
     (let d1 = fst (nl_init [] date separator)
      in if d1 = [] \<or> length d1 \<noteq> 3 then False
         else let mm = atoi (d1 ! 1); dd = atoi (d1 ! 2)
              in 0 < mm \<and> mm \<le> 12 \<and> 0 < dd \<and> dd \<le> 31)"

definition getCurrentDay :: "tm \<Rightarrow> string \<times> string \<times> string \<times> string" where
  "getCurrentDay lt =
     (let year = int2a (tm_year lt + 1900);
          month = (if tm_mon lt < 9 then ''0'' else '''') @ int2a (tm_mon lt + 1);
          day = (if tm_mday lt < 10 then ''0'' else '''') @ int2a (tm_mday lt)
      in (year @ month @ day, day, month, year))"

type_synonym calendar = "int \<Rightarrow> int \<Rightarrow> int \<Rightarrow> int option"

definition date_of :: "calendar \<Rightarrow> name_list \<Rightarrow> int option" where
  "date_of daynum d =
     (if length d < 3 then None else daynum (atoi (d ! 0)) (atoi (d ! 1)) (atoi (d ! 2)))"

definition getDateDifference :: "calendar \<Rightarrow> string \<Rightarrow> string \<Rightarrow> char \<Rightarrow> int option" where
  "getDateDifference daynum date1 date2 separator =
     (case (date_of daynum (fst (nl_init [] date1 separator)), date_of daynum (fst (nl_init [] date2 separator))) of
        (Some now, Some then_) \<Rightarrow> Some (now - then_)
      | _ \<Rightarrow> None)"

subsection \<open>The state and its access rules\<close>

record root_descriptor =
  temporalWindow :: int
  rd_prefix :: string
  visibility :: "string list"

record archive =
  archiveName :: string
  archiveHome :: string
  arch_methods :: "string list"
  accessInfo :: "(string, root_descriptor) smap"
  arch_params :: mparams
  arch_fs :: fsnode

definition archive_new :: "string \<Rightarrow> string \<Rightarrow> string \<Rightarrow> fsnode \<Rightarrow> archive" where
  "archive_new configdir homedir name fs =
     \<lparr>archiveName = name, archiveHome = homedir, arch_methods = [], accessInfo = [],
      arch_params = mp_new configdir homedir name, arch_fs = fs\<rparr>"

text \<open>The first entry of an empty list of subdirectories does not exist. For a name that is not a
  root the function ends without a value; its only caller has excluded that.\<close>

definition fullAccess :: "string \<Rightarrow> archive \<Rightarrow> bool option" where
  "fullAccess name A =
     (case sm_find (accessInfo A) name of
        None \<Rightarrow> None
      | Some d \<Rightarrow> (case visibility d of [] \<Rightarrow> None | v # _ \<Rightarrow> Some (v = ''*'')))"

definition getSubDir :: "string \<Rightarrow> archive \<Rightarrow> string list" where
  "getSubDir name A = (case sm_find (accessInfo A) name of None \<Rightarrow> [] | Some d \<Rightarrow> visibility d)"

definition getWindow :: "string \<Rightarrow> archive \<Rightarrow> int" where
  "getWindow name A = (case sm_find (accessInfo A) name of None \<Rightarrow> 0 | Some d \<Rightarrow> temporalWindow d)"

definition READ :: int where "READ = 0"

definition WRITE :: int where "WRITE = 1"

definition checkPermission :: "string list \<Rightarrow> int \<Rightarrow> archive \<Rightarrow> bool option" where
  "checkPermission url md A =
     (if url = [] then None
      else if length url = 1 \<and> md = READ then Some True
      else if length url = 1 \<and> md = WRITE then Some False
      else if length url < 2 then None
      else case sm_find (accessInfo A) (hd url) of
             None \<Rightarrow> Some False
           | Some d \<Rightarrow>
               (case fullAccess (hd url) A of
                  None \<Rightarrow> None
                | Some full \<Rightarrow> Some (if \<not> full then url ! 1 \<in> set (visibility d) else True)))"

subsection \<open>Installation\<close>

definition ensure_dir :: "string \<Rightarrow> fsnode \<Rightarrow> fsnode option" where
  "ensure_dir p fs = (if \<not> ft_isDir p fs then map_option snd (ft_makeDir True p fs) else Some fs)"

fun ensure_dirs :: "string \<Rightarrow> string list \<Rightarrow> fsnode \<Rightarrow> fsnode option" where
  "ensure_dirs rootdir [] fs = Some fs"
| "ensure_dirs rootdir (s # ss) fs =
     Option.bind (ensure_dir (rootdir @ ''/'' @ s) fs) (ensure_dirs rootdir ss)"

text \<open>One turn of the loops over the roots. The list \<open>subdir\<close> is declared outside of them, and
  \<^verbatim>\<open>init\<close> of an empty text leaves it as the previous root had it.\<close>

definition init_root ::
  "string \<Rightarrow> string \<Rightarrow> mparams \<Rightarrow> string \<Rightarrow> name_list \<times> (string, root_descriptor) smap \<times> fsnode
     \<Rightarrow> (name_list \<times> (string, root_descriptor) smap \<times> fsnode) option" where
  "init_root base category p name s =
     (let (subdir, info, fs) = s; rootdir = base @ ''/'' @ name
      in case ensure_dir rootdir fs of
           None \<Rightarrow> None
         | Some fs1 \<Rightarrow>
             let subdir' = fst (nl_init subdir (mp_get_cat p name category) (CHR ''+''));
                 d = \<lparr>temporalWindow = atoi (mp_get_cat p name ''history''), rd_prefix = base,
                      visibility = (if \<not> nl_member subdir' ''*'' then subdir' else [''*''])\<rparr>
             in case (if \<not> nl_member subdir' ''*'' then ensure_dirs rootdir subdir' fs1 else Some fs1) of
                  None \<Rightarrow> None
                | Some fs2 \<Rightarrow> Some (subdir', sm_insert name d info, fs2))"

fun init_roots ::
  "string \<Rightarrow> string \<Rightarrow> mparams \<Rightarrow> mattribute list \<Rightarrow> name_list \<times> (string, root_descriptor) smap \<times> fsnode
     \<Rightarrow> (name_list \<times> (string, root_descriptor) smap \<times> fsnode) option" where
  "init_roots base category p [] s = Some s"
| "init_roots base category p (a # as) s =
     Option.bind (init_root base category p (ma_name a) s) (init_roots base category p as)"

definition archive_init :: "file_store \<Rightarrow> string \<Rightarrow> string \<Rightarrow> archive \<Rightarrow> (bool \<times> archive) option" where
  "archive_init conf homedir configdir A =
     (case mp_load conf (arch_params A) of
        None \<Rightarrow> None
      | Some (ok, p) \<Rightarrow>
          if \<not> ok then Some (False, A\<lparr>arch_params := p\<rparr>)
          else case Option.bind
                 (init_roots homedir ''root'' p (mp_extractCategory p ''root'') ([], accessInfo A, arch_fs A))
                 (init_roots configdir ''conf'' p (mp_extractCategory p ''conf'')) of
                 None \<Rightarrow> None
               | Some (_, info, fs) \<Rightarrow>
                   Some (True, A\<lparr>arch_params := p, accessInfo := info, arch_fs := fs,
                                 arch_methods := arch_methods A @ [''first'', ''last'', ''all'']\<rparr>))"

subsection \<open>Requests\<close>

text \<open>The first component of a path: a leading slash gives an empty name, which is dropped.\<close>

definition getRootPath :: "string \<Rightarrow> archive \<Rightarrow> string option" where
  "getRootPath uri A =
     (let nl = fst (nl_init [] uri (CHR ''/''));
          nl' = (if nl \<noteq> [] \<and> hd nl = '''' then tl nl else nl)
      in if nl' = [] then None
         else Some (case sm_find (accessInfo A) (hd nl') of None \<Rightarrow> archiveHome A | Some d \<Rightarrow> rd_prefix d))"

definition res_path :: "string \<Rightarrow> name_list" where
  "res_path url =
     (let l = fst (nl_init [] url (CHR ''/'')) in if l \<noteq> [] \<and> hd l = '''' \<and> length l > 1 then tl l else l)"

text \<open>Only a path that starts with a slash names a root of the archive.\<close>

definition archive_of :: "string \<Rightarrow> string" where
  "archive_of url =
     (let l = fst (nl_init [] url (CHR ''/'')) in if l \<noteq> [] \<and> hd l = '''' \<and> length l > 1 then l ! 1 else '''')"

definition getExec :: "mmessage \<Rightarrow> archive \<Rightarrow> string option" where
  "getExec m A =
     (let url = m_getString m ''url''
      in case getRootPath url A of
           None \<Rightarrow> None
         | Some rootP \<Rightarrow>
             let fullPath = rootP @ ''/'' @ url; resPath = res_path url; isRoot = (length resPath = 1)
             in if \<not> isRoot \<and> sm_find (accessInfo A) (archive_of url) = None then Some ''Not Found''
                else case checkPermission resPath READ A of
                       None \<Rightarrow> None
                     | Some permission \<Rightarrow>
                         if \<not> permission then Some ''Forbidden''
                         else Some (case find_last (CHR ''/'') fullPath of
                                      None \<Rightarrow> fullPath | Some pos \<Rightarrow> take pos fullPath))"

subsection \<open>Exploring\<close>

text \<open>
  \<^verbatim>\<open>exploreArchive\<close> on the node that its path names. Files are listed only in a directory
  without visible subdirectories.
\<close>

definition shown_dir :: "string \<times> fsnode \<Rightarrow> bool" where
  "shown_dir e \<longleftrightarrow> dir_at [] (snd e) \<and> fst e \<noteq> ''.'' \<and> fst e \<noteq> ''..'' \<and> hd (fst e) \<noteq> CHR ''.''"

definition shown_file :: "string \<times> fsnode \<Rightarrow> bool" where
  "shown_file e \<longleftrightarrow> \<not> dir_at [] (snd e) \<and> fst e \<noteq> ''.'' \<and> fst e \<noteq> ''..'' \<and> hd (fst e) \<noteq> CHR ''.''"

fun explore_node :: "bool \<Rightarrow> string \<Rightarrow> fsnode \<Rightarrow> string list" where
  "explore_node noDir src (FileNode x) = (if \<not> noDir then [src] else [])"
| "explore_node noDir src (DirNode es) =
     (if filter shown_dir es = []
      then map (\<lambda>(n, c). src @ ''/'' @ n) (filter shown_file es) @ (if \<not> noDir then [src] else [])
      else concat (map (\<lambda>(n, c). if shown_dir (n, c) then explore_node noDir (src @ ''/'' @ n) c else []) es))"

definition exploreArchive :: "string \<Rightarrow> bool \<Rightarrow> fsnode \<Rightarrow> string list" where
  "exploreArchive src noDir fs =
     (case Option.bind (canon src fs) (\<lambda>q. node_at q fs) of
        None \<Rightarrow> if \<not> noDir then [src] else []
      | Some t \<Rightarrow> explore_node noDir src t)"

definition strip_root :: "string \<Rightarrow> string \<Rightarrow> string" where
  "strip_root rootP x =
     (if str_contains x rootP
      then let y = drop (length rootP) x in if char_at y 0 = CHR ''/'' then drop 1 y else y
      else x)"

fun list_instances :: "archive \<Rightarrow> string \<Rightarrow> string list \<Rightarrow> (string list \<times> string list) option" where
  "list_instances A src [] = Some ([], [])"
| "list_instances A src (x # xs) =
     (let nl = fst (nl_init [] x (CHR ''/''))
      in case checkPermission nl READ A of
           None \<Rightarrow> None
         | Some permission \<Rightarrow>
             map_option (\<lambda>(l, ms).
               if \<not> permission \<or> archiveHome A @ ''/'' @ x = src then (l, ms)
               else if last nl = ''data''
               then (l, map (\<lambda>k. getParentDirectory x @ ''/'' @ k) (arch_methods A) @ ms)
               else (x # l, ms)) (list_instances A src xs))"

definition getSubPaths :: "string \<Rightarrow> archive \<Rightarrow> string list option" where
  "getSubPaths src A =
     (if src = '''' then None
      else let src1 = (if last src = CHR ''/'' then butlast src else src)
           in case getRootPath src1 A of
                None \<Rightarrow> None
              | Some rootP \<Rightarrow>
                  let src2 = fst (strReplace (rootP @ ''/'' @ src1) ''//'' ''/'');
                      l = map (strip_root rootP) (exploreArchive src2 True (arch_fs A))
                  in map_option (\<lambda>(l, ms). l @ ms) (list_instances A src2 l))"

definition getList :: "mmessage \<Rightarrow> archive \<Rightarrow> string option" where
  "getList m A =
     (let url = m_getString m ''url''
      in case getRootPath url A of
           None \<Rightarrow> None
         | Some rootP \<Rightarrow>
             let fullPath = rootP @ ''/'' @ url; resPath = res_path url; isRoot = (length resPath = 1)
             in if \<not> ft_isDir fullPath (arch_fs A) then Some ''Not Found''
                else if \<not> isRoot \<and> sm_find (accessInfo A) (archive_of url) = None then Some ''Not Found''
                else case checkPermission resPath READ A of
                       None \<Rightarrow> None
                     | Some permission \<Rightarrow>
                         if \<not> permission then Some ''Forbidden''
                         else map_option (\<lambda>l. concat (map (\<lambda>x. ''<item>'' @ x @ ''</item>'') l)) (getSubPaths url A))"

subsection \<open>Resources\<close>

fun make_path :: "string \<Rightarrow> string list \<Rightarrow> fsnode \<Rightarrow> fsnode option" where
  "make_path absPath [] fs = Some fs"
| "make_path absPath (n # ns) fs =
     Option.bind (ensure_dir (absPath @ ''/'' @ n) fs) (make_path (absPath @ ''/'' @ n) ns)"

text \<open>The resource is looked up below the home directory, its directories are made below the
  directory of its root.\<close>

definition addResource :: "string \<Rightarrow> string \<Rightarrow> bool \<Rightarrow> archive \<Rightarrow> (bool \<times> archive) option" where
  "addResource resPath src overwrite A =
     (case getRootPath resPath A of
        None \<Rightarrow> None
      | Some absPath \<Rightarrow>
          let fullPath = archiveHome A @ ''/'' @ resPath; nlist = fst (nl_init [] resPath (CHR ''/''))
          in if ft_isFile fullPath (arch_fs A) \<and> src = '''' then Some (True, A)
             else case make_path absPath (butlast nlist) (arch_fs A) of
                    None \<Rightarrow> None
                  | Some fs \<Rightarrow>
                      let full' = fst (strReplace fullPath ''//'' ''/'')
                      in if src \<noteq> '''' \<and> (\<not> ft_isFile full' fs \<or> overwrite)
                         then map_option (\<lambda>(ok, fs'). (ok, A\<lparr>arch_fs := fs'\<rparr>)) (ft_copyFile src full' '''' fs)
                         else Some (True, A\<lparr>arch_fs := fs\<rparr>))"

definition deleteResource :: "string \<Rightarrow> string \<Rightarrow> archive \<Rightarrow> (bool \<times> archive) option" where
  "deleteResource configdir resPath A =
     (case getRootPath resPath A of
        None \<Rightarrow> None
      | Some absPath \<Rightarrow>
          let nl = fst (nl_init [] resPath (CHR ''/''));
              nlist = (if hd nl = '''' then tl nl else nl)
          in case sm_find (accessInfo A) (hd nlist) of
               None \<Rightarrow> Some (False, A)
             | Some d \<Rightarrow>
                 let data = (rd_prefix d \<noteq> configdir);
                     fullPath = absPath @ ''/'' @ resPath @ (if data then ''/data'' else '''');
                     nlist' = nlist @ (if data then [''data''] else [])
                 in if \<not> ft_isFile fullPath (arch_fs A) \<and> resPath \<noteq> '''' then Some (False, A)
                    else case checkPermission nlist' WRITE A of
                           None \<Rightarrow> None
                         | Some permission \<Rightarrow>
                             if \<not> permission then Some (False, A)
                             else let (r, fs) = ft_deleteFile (getParentDirectory fullPath) (last nlist') (arch_fs A)
                                  in Some (r, A\<lparr>arch_fs := fs\<rparr>))"

text \<open>Output streams: text sent to a stream that could not be opened is lost.\<close>

definition out_text :: "bool \<Rightarrow> string \<Rightarrow> string \<Rightarrow> fsnode \<Rightarrow> fsnode option" where
  "out_text app p x fs =
     ft_write p ((if app then (case ft_read p fs of None \<Rightarrow> '''' | Some y \<Rightarrow> y) else '''') @ x @ newline) fs"

definition out_ignored :: "bool \<Rightarrow> string \<Rightarrow> string \<Rightarrow> fsnode \<Rightarrow> fsnode" where
  "out_ignored app p x fs = (case out_text app p x fs of None \<Rightarrow> fs | Some fs' \<Rightarrow> fs')"

definition updateResource :: "string \<Rightarrow> string \<Rightarrow> archive \<Rightarrow> bool \<times> archive" where
  "updateResource resPath s A =
     (let fullPath = fst (strReplace (archiveHome A @ ''/'' @ resPath) ''//'' ''/'')
      in (True, A\<lparr>arch_fs := out_ignored (ft_isFile fullPath (arch_fs A)) fullPath s (arch_fs A)\<rparr>))"

text \<open>
  \<^verbatim>\<open>restify\<close>: the address of an old-style message is made from its type and subtype. The
  list of components is never empty here, so the branch that consults the subdirectories of
  \<^verbatim>\<open>message\<close> for an empty list is never taken.
\<close>

definition rest_url :: "mmessage \<Rightarrow> string" where
  "rest_url m = (if m_getString m ''url'' = '''' then ''/message'' else m_getString m ''url'')"

abbreviation old_style :: "mmessage \<Rightarrow> bool" where
  "old_style m \<equiv> hd (res_path (rest_url m)) = ''message''"

abbreviation typed :: "mmessage \<Rightarrow> bool" where
  "typed m \<equiv> mtype m \<noteq> ''*'' \<and> msubtype m \<noteq> ''*''"

definition rest_header :: "mmessage \<Rightarrow> mmessage" where
  "rest_header m =
     (let url = res_path (rest_url m);
          m1 = (if old_style m \<and> \<not> typed m \<and> mtype m = ''*'' \<and> length url > 1 then m\<lparr>mtype := url ! 1\<rparr> else m)
      in if old_style m \<and> \<not> typed m \<and> msubtype m = ''*'' \<and> length url > 2 then m1\<lparr>msubtype := url ! 2\<rparr> else m1)"

definition rest_address :: "bool \<Rightarrow> mmessage \<Rightarrow> string" where
  "rest_address conf m =
     rest_url m @ (if old_style m \<and> typed m then ''/'' @ mtype m @ ''/'' @ msubtype m else '''')
     @ (if last (res_path (rest_url m)) \<noteq> ''data'' \<and> \<not> conf then ''/data'' else '''')"

definition restify :: "bool \<Rightarrow> mmessage \<Rightarrow> mmessage option" where
  "restify conf m =
     (if res_path (rest_url m) = [] then None
      else Some (m_add (rest_header m) ''url'' (rest_address conf m)))"

subsection \<open>Writing requests\<close>

definition wants_notice :: "string \<Rightarrow> string \<Rightarrow> subjects \<Rightarrow> bool" where
  "wants_notice ty sty ss \<longleftrightarrow> check_subject ty sty ss \<or> check_subject ty ''*'' ss"

definition m_erase_url :: "mmessage \<Rightarrow> mmessage" where
  "m_erase_url m = m\<lparr>mfields := sm_erase ''url'' (mfields m)\<rparr>"

definition m_answer :: mmessage where
  "m_answer = m_default\<lparr>mtype := ''answer''\<rparr>"

definition notice :: "string \<Rightarrow> string \<Rightarrow> mmessage \<Rightarrow> subjects \<Rightarrow> mmessage \<times> effect list" where
  "notice kind url m ss =
     (if wants_notice (mtype m) (msubtype m) ss
      then let m' = m_add (m_add m ''method'' kind) ''url'' url in (m', [Notify m'])
      else (m, []))"

type_synonym handled = "(mmessage \<times> mmessage \<times> effect list \<times> archive) option"

text \<open>\<^verbatim>\<open>postExec\<close> and \<^verbatim>\<open>putExec\<close> do not look whether the file could be opened. Each value holds the
  response, the message as the handler leaves it, the effects and the archive.\<close>

definition postExec :: "subjects \<Rightarrow> mmessage \<Rightarrow> archive \<Rightarrow> handled" where
  "postExec ss m0 A =
     (case restify False m0 of
        None \<Rightarrow> None
      | Some m1 \<Rightarrow>
          let url = m_getString m1 ''url''; resPath = res_path url; m = m_erase_url m1;
              fullPath = archiveHome A @ ''/'' @ url
          in case checkPermission resPath WRITE A of
               None \<Rightarrow> None
             | Some permission \<Rightarrow>
                 if permission \<and> \<not> ft_isDir fullPath (arch_fs A)
                 then case addResource url '''' True A of
                        None \<Rightarrow> None
                      | Some (_, A1) \<Rightarrow>
                          let body = m_xmlEncode 0 m; app = ft_isFile fullPath (arch_fs A1);
                              (m', es) = notice ''POST'' url m ss
                          in Some (m_add m_answer ''body'' ''OK'', m', es,
                                   A1\<lparr>arch_fs := out_ignored app fullPath body (arch_fs A1)\<rparr>)
                 else Some (m_add m_answer ''body'' ''Forbidden'', m, [], A))"

definition putExec :: "subjects \<Rightarrow> mmessage \<Rightarrow> archive \<Rightarrow> handled" where
  "putExec ss m0 A =
     (case restify False m0 of
        None \<Rightarrow> None
      | Some m1 \<Rightarrow>
          let url = m_getString m1 ''url''; resPath = res_path url; m = m_erase_url m1;
              fullPath = archiveHome A @ ''/'' @ url
          in case checkPermission resPath WRITE A of
               None \<Rightarrow> None
             | Some permission \<Rightarrow>
                 if permission \<and> \<not> ft_isDir fullPath (arch_fs A)
                 then case addResource url '''' True A of
                        None \<Rightarrow> None
                      | Some (_, A1) \<Rightarrow>
                          let data = m_xmlEncode 0 m; (m', es) = notice ''PUT'' url m ss
                          in Some (m_add m_answer ''result'' ''OK'', m', es,
                                   A1\<lparr>arch_fs := out_ignored False fullPath data (arch_fs A1)\<rparr>)
                 else Some (m_add m_answer ''result'' ''Forbidden'', m, [], A))"

definition as_putConf :: "mmessage \<Rightarrow> mmessage" where
  "as_putConf m = m\<lparr>mtype := ''cmd'', msubtype := ''putConf''\<rparr>"

definition upload_answer :: "bool \<Rightarrow> string" where
  "upload_answer ok = ''{'' @ quote @ ''response'' @ quote @ '':{'' @ quote @ ''message'' @ quote @ '':''
     @ quote @ ''ok'' @ quote @ '','' @ quote @ ''upload'' @ quote @ '':'' @ quote
     @ (if ok then ''true'' else ''false'') @ quote @ ''}}''"

definition putConf :: "subjects \<Rightarrow> mmessage \<Rightarrow> archive \<Rightarrow> handled" where
  "putConf ss m0 A =
     (case restify True m0 of
        None \<Rightarrow> None
      | Some m1 \<Rightarrow>
          let url = m_getString m1 ''url''; resPath = res_path url; m = as_putConf (m_erase_url m1)
          in case (getRootPath url A, checkPermission resPath WRITE A) of
               (Some rootP, Some permission) \<Rightarrow>
                 let fullPath = rootP @ ''/'' @ url; json = (getExt fullPath = ''json'')
                 in if permission \<and> \<not> ft_isDir fullPath (arch_fs A)
                    then case addResource url '''' True A of
                           None \<Rightarrow> None
                         | Some (_, A1) \<Rightarrow>
                             (case out_text False fullPath (m_getString m ''body'') (arch_fs A1) of
                                None \<Rightarrow> Some (m_add m_answer ''body'' ''Forbidden'', m, [], A1)
                              | Some fs \<Rightarrow>
                                  let (m', es) = notice ''PUT'' url m ss
                                  in Some (m_add m_answer ''body'' (if \<not> json then ''OK'' else upload_answer True),
                                           m', es, A1\<lparr>arch_fs := fs\<rparr>))
                    else Some (m_add m_answer ''body'' (if \<not> json then ''Forbidden'' else upload_answer False), m, [], A)
             | _ \<Rightarrow> None)"

definition putLog :: "subjects \<Rightarrow> mmessage \<Rightarrow> archive \<Rightarrow> handled" where
  "putLog ss m0 A =
     (case restify False m0 of
        None \<Rightarrow> None
      | Some m1 \<Rightarrow>
          let url = m_getString m1 ''url''; resPath = res_path url; m = as_putConf (m_erase_url m1)
          in case (getRootPath url A, checkPermission resPath WRITE A) of
               (Some rootP, Some permission) \<Rightarrow>
                 let fullPath = rootP @ ''/'' @ url
                 in if permission \<and> \<not> ft_isDir fullPath (arch_fs A)
                    then case addResource url '''' True A of
                           None \<Rightarrow> None
                         | Some (added, A1) \<Rightarrow>
                             if \<not> added then Some (m_add m_answer ''body'' ''Forbidden'', m, [], A1)
                             else case out_text False fullPath (m_getString m ''body'') (arch_fs A1) of
                                    None \<Rightarrow> Some (m_add m_answer ''body'' ''Forbidden'', m, [], A1)
                                  | Some fs \<Rightarrow>
                                      let (m', es) = notice ''PUT'' url m ss
                                      in Some (m_add m_answer ''body'' ''OK'', m', es, A1\<lparr>arch_fs := fs\<rparr>)
                    else Some (m_add m_answer ''body'' ''Forbidden'', m, [], A)
             | _ \<Rightarrow> None)"

definition postLog :: "subjects \<Rightarrow> mmessage \<Rightarrow> archive \<Rightarrow> handled" where
  "postLog ss m0 A =
     (case restify False m0 of
        None \<Rightarrow> None
      | Some m1 \<Rightarrow>
          let url = m_getString m1 ''url''; resPath = res_path url; m = as_putConf (m_erase_url m1)
          in case (getRootPath url A, checkPermission resPath WRITE A) of
               (Some rootP, Some permission) \<Rightarrow>
                 let fullPath = rootP @ ''/'' @ url
                 in if permission \<and> \<not> ft_isDir fullPath (arch_fs A)
                    then case addResource url '''' True A of
                           None \<Rightarrow> None
                         | Some (added, A1) \<Rightarrow>
                             let resp = (if \<not> added then m_add m_answer ''body'' ''Forbidden'' else m_answer);
                                 app = ft_isFile fullPath (arch_fs A1)
                             in case out_text app fullPath (m_getString m ''body'') (arch_fs A1) of
                                  None \<Rightarrow> Some (m_add resp ''body'' ''Forbidden'', m, [], A1)
                                | Some fs \<Rightarrow>
                                    let (m', es) = notice ''POST'' url m ss
                                    in Some (m_add resp ''body'' ''OK'', m', es, A1\<lparr>arch_fs := fs\<rparr>)
                    else Some (m_add m_answer ''body'' ''Forbidden'', m, [], A)
             | _ \<Rightarrow> None)"

subsection \<open>Closing the day\<close>

definition getRelativePath :: "string \<Rightarrow> archive \<Rightarrow> string \<times> archive" where
  "getRelativePath path A =
     (let home = fst (strReplace (archiveHome A) ''//'' ''/'');
          rel = (if str_contains path home then drop (length home) path else '''')
      in (if char_at rel 0 = CHR ''/'' then drop 1 rel else rel, A\<lparr>archiveHome := home\<rparr>))"

text \<open>The position is unsigned and never below zero. When the pattern is missing the sum
  wraps around to one less than the length of the pattern.\<close>

definition extractURL :: "string \<Rightarrow> archive \<Rightarrow> string option" where
  "extractURL reqURL A =
     (let pat = ''/'' @ archiveName A @ ''/''; start = (case str_find pat reqURL of Some p \<Rightarrow> p + length pat | None \<Rightarrow> length pat - 1)
      in if start \<le> length reqURL then Some (drop start reqURL) else None)"

definition second_node :: "xnode list \<Rightarrow> xnode option option" where
  "second_node doc = (case doc of [] \<Rightarrow> None | [_] \<Rightarrow> Some None | _ # d # _ \<Rightarrow> Some (Some d))"

fun clear_lines :: "(string \<Rightarrow> xnode list) \<Rightarrow> string \<Rightarrow> string list \<Rightarrow> fsnode \<Rightarrow> fsnode option" where
  "clear_lines parse home [] fs = Some fs"
| "clear_lines parse home (l # ls) fs =
     (case second_node (parse (xml_header @ l)) of
        None \<Rightarrow> None
      | Some None \<Rightarrow> clear_lines parse home ls fs
      | Some (Some desc) \<Rightarrow>
          let url = home @ ''/'' @ getAttrbyName (ToElement (Some desc)) ''url''
          in clear_lines parse home ls (snd (ft_deleteFile (getParentDirectory url) (getTail url) fs)))"

text \<open>\<^verbatim>\<open>clear\<close> deletes the media files that the lines of an instance name.\<close>

definition arch_clear :: "(string \<Rightarrow> xnode list) \<Rightarrow> string \<Rightarrow> string \<Rightarrow> fsnode \<Rightarrow> fsnode option" where
  "arch_clear parse home filename fs =
     (case open_in filename fs of
        NotOpen \<Rightarrow> Some fs
      | DirStream \<Rightarrow> None
      | TextStream x \<Rightarrow> clear_lines parse home (eof_lines x) fs)"

definition name_prefix :: "string \<Rightarrow> string" where
  "name_prefix tail = (case str_find ''.'' tail of None \<Rightarrow> '''' | Some pos \<Rightarrow> take pos tail)"

definition purge_file ::
  "calendar \<Rightarrow> (string \<Rightarrow> xnode list) \<Rightarrow> string \<Rightarrow> string \<Rightarrow> archive \<Rightarrow> archive option" where
  "purge_file daynum parse datestr filename A =
     (let ext = getExt filename; tail = getTail filename; (rel, A1) = getRelativePath filename A;
          fRelPath = fst (nl_init [] rel (CHR ''/'')); timeWin = getWindow (hd fRelPath) A1
      in if fRelPath = [] then None
         else if timeWin < 0 then Some A1
         else if tail \<noteq> ''data'' \<and> name_prefix tail \<noteq> ''data'' then Some A1
         else if \<not> isDate ext (CHR ''_'')
         then Some (A1\<lparr>arch_fs := snd (ft_moveFile filename (filename @ ''.'' @ datestr) '''' (arch_fs A1))\<rparr>)
         else case getDateDifference daynum datestr ext (CHR ''_'') of
                None \<Rightarrow> None
              | Some n \<Rightarrow>
                  if n > timeWin
                  then map_option (\<lambda>fs. A1\<lparr>arch_fs := snd (ft_deleteFile (getParentDirectory filename) (getTail filename) fs)\<rparr>)
                         (arch_clear parse (archiveHome A1) filename (arch_fs A1))
                  else Some A1)"

fun purge_files ::
  "calendar \<Rightarrow> (string \<Rightarrow> xnode list) \<Rightarrow> string \<Rightarrow> string list \<Rightarrow> archive \<Rightarrow> archive option" where
  "purge_files daynum parse datestr [] A = Some A"
| "purge_files daynum parse datestr (f # fs) A =
     Option.bind (purge_file daynum parse datestr f A) (purge_files daynum parse datestr fs)"

text \<open>\<open>datestr\<close> is \<^verbatim>\<open>hsrv::getday(-60)\<close>, the day of a minute ago.\<close>

definition purge :: "calendar \<Rightarrow> (string \<Rightarrow> xnode list) \<Rightarrow> string \<Rightarrow> archive \<Rightarrow> archive option" where
  "purge daynum parse datestr A =
     purge_files daynum parse datestr (exploreArchive (archiveHome A) True (arch_fs A)) A"

subsection \<open>Reading requests\<close>

definition isValidMethod :: "string \<Rightarrow> archive \<Rightarrow> bool" where
  "isValidMethod k A \<longleftrightarrow> k \<in> set (arch_methods A)"

definition isInstance :: "string \<Rightarrow> archive \<Rightarrow> bool" where
  "isInstance pathname A =
     (let dirPath = (case find_last (CHR ''/'') pathname of None \<Rightarrow> pathname | Some pos \<Rightarrow> take pos pathname)
      in ft_isDir dirPath (arch_fs A) \<and> dirCount (ft_entries dirPath (arch_fs A)) = 0)"

definition getAll :: "mmessage \<Rightarrow> archive \<Rightarrow> string option" where
  "getAll req A =
     (case getExec req A of
        None \<Rightarrow> None
      | Some resPath \<Rightarrow>
          if resPath = ''Not Found'' \<or> resPath = ''Forbidden'' then Some resPath
          else case open_in (resPath @ ''/data'') (arch_fs A) of
                 NotOpen \<Rightarrow> Some ''Not Found''
               | DirStream \<Rightarrow> None
               | TextStream x \<Rightarrow> Some (concat (map (\<lambda>line. line @ newline) (eof_lines x))))"

text \<open>A line that describes a video is replaced by the video; the type of the file is the
  second value.\<close>

definition deref_media ::
  "(string \<Rightarrow> xnode list) \<Rightarrow> string \<Rightarrow> string \<Rightarrow> archive \<Rightarrow> (string \<times> string) option" where
  "deref_media parse line filetype A =
     (case second_node (parse (xml_header @ line)) of
        None \<Rightarrow> None
      | Some None \<Rightarrow> Some (line, filetype)
      | Some (Some desc) \<Rightarrow>
          let el = ToElement (Some desc)
          in if getAttrbyName el ''format'' = ''video''
             then let url = getAttrbyName el ''url''
                  in map_option (\<lambda>x. (x, getExt url)) (char_buffer (open_in (archiveHome A @ url) (arch_fs A)))
             else Some (line, filetype))"

definition getFirst ::
  "(string \<Rightarrow> xnode list) \<Rightarrow> mmessage \<Rightarrow> string \<Rightarrow> archive \<Rightarrow> (string \<times> string) option" where
  "getFirst parse req filetype A =
     (case getExec req A of
        None \<Rightarrow> None
      | Some resPath \<Rightarrow>
          if resPath = ''Not Found'' \<or> resPath = ''Forbidden'' then Some (resPath, filetype)
          else let f = open_in (resPath @ ''/data'') (arch_fs A)
               in if f = NotOpen then Some (''Not Found'', filetype)
                  else deref_media parse (case char_lines f of [] \<Rightarrow> '''' | l # _ \<Rightarrow> l) filetype A)"

definition getLatestData :: "string \<Rightarrow> fsnode \<Rightarrow> string" where
  "getLatestData dir fs =
     (if ft_isFile (dir @ ''/data'') fs then dir @ ''/data''
      else let l = filter (\<lambda>n. str_contains n ''data.'') (snd (fileList (ft_entries dir fs)))
           in if l = [] then ''Not Found'' else dir @ ''/'' @ hd (sort l))"

fun last_line :: "string \<Rightarrow> string list \<Rightarrow> string" where
  "last_line x [] = x"
| "last_line x (l # ls) = (if l = '''' then x else last_line l ls)"

definition getLast ::
  "(string \<Rightarrow> xnode list) \<Rightarrow> mmessage \<Rightarrow> string \<Rightarrow> archive \<Rightarrow> (string \<times> string) option" where
  "getLast parse req filetype A =
     (case getExec req A of
        None \<Rightarrow> None
      | Some resDir \<Rightarrow>
          let filePath = getLatestData resDir (arch_fs A)
          in if filePath = ''Not Found'' \<or> filePath = ''Forbidden'' then Some (filePath, filetype)
             else case open_in filePath (arch_fs A) of
                    NotOpen \<Rightarrow> Some (''Not Found'', filetype)
                  | DirStream \<Rightarrow> deref_media parse '''' filetype A
                  | TextStream x \<Rightarrow> deref_media parse (last_line '''' (eof_lines x)) filetype A)"

fun name_items :: "bool \<Rightarrow> string list \<Rightarrow> string" where
  "name_items first [] = ''''"
| "name_items first (f # fs) =
     (if first then '''' else '','') @ ''{'' @ quote @ ''name'' @ quote @ '':'' @ quote @ f @ quote @ ''}''
     @ name_items False fs"

definition getDir :: "mmessage \<Rightarrow> archive \<Rightarrow> string option" where
  "getDir req A =
     (case getExec req A of
        None \<Rightarrow> None
      | Some resPath \<Rightarrow>
          let fullpath = resPath @ ''/'' @ getStem (tailof (m_getString req ''url''))
          in if resPath = ''Not Found'' \<or> resPath = ''Forbidden'' then Some resPath
             else let fl = snd (fileList (ft_entries fullpath (arch_fs A)));
                      files = (if length fl = 0 then snd (dirList (ft_entries fullpath (arch_fs A))) else fl)
                  in Some (''{'' @ quote @ ''response'' @ quote @ '': {'' @ quote @ ''message'' @ quote @ '':''
                       @ quote @ ''ok'' @ quote @ '','' @ quote @ ''files'' @ quote @ '':['' @ name_items True files
                       @ '']}}'' @ newline))"

definition getFile :: "mmessage \<Rightarrow> archive \<Rightarrow> string option" where
  "getFile req A =
     (case getExec req A of
        None \<Rightarrow> None
      | Some resPath \<Rightarrow>
          let fullpath = resPath @ ''/'' @ tailof (m_getString req ''url'')
          in if resPath = ''Not Found'' \<or> resPath = ''Forbidden'' then Some resPath
             else let f = open_in fullpath (arch_fs A)
                  in if f = NotOpen then Some ''Not Found'' else char_buffer f)"

subsection \<open>Lines\<close>

lemma split_names_join_all:
  "concat (map (\<lambda>l. l @ [d]) (split_names d x)) = (if x = '''' \<or> last x = d then x else x @ [d])"
proof (induction "length x" arbitrary: x rule: less_induct)
  case less
  show ?case
  proof (cases "d \<in> set x")
    case False
    then show ?thesis
      by (cases "x = []") (auto simp: split_names_no_delim split_names.simps [of d "[]"] dest: last_in_set)
  next
    case True
    then obtain a b where p: "x = a @ d # b" "d \<notin> set a" by (auto dest: split_list_first)
    with less [of b] show ?thesis by (auto simp: split_names_step)
  qed
qed

lemma getAll_text: "concat (map (\<lambda>line. line @ newline) (eof_lines x)) = x @ newline"
  using split_names_join_all [of "CHR 0x0A" x] by (auto simp: eof_lines_def text_lines_def newline_def)

lemma open_in_read: "ft_read p t = Some x \<longleftrightarrow> open_in p t = TextStream x"
  by (auto simp: ft_read_def open_in_def file_at_def split: option.splits fsnode.splits)

lemma out_text_read:
  "out_text app p x fs = Some fs' \<Longrightarrow>
     ft_read p fs' = Some ((if app then (case ft_read p fs of None \<Rightarrow> '''' | Some y \<Rightarrow> y) else '''') @ x @ newline)"
  unfolding out_text_def by (rule ft.read_written)

subsection \<open>Addresses\<close>

definition slashed :: "string list \<Rightarrow> string" where
  "slashed cs = concat (map (Cons (CHR ''/'')) cs)"

lemma slashed_simps [simp]:
  "slashed [] = ''''" "slashed (c # cs) = CHR ''/'' # c @ slashed cs" "slashed (cs @ ds) = slashed cs @ slashed ds"
  by (simp_all add: slashed_def)

abbreviation plain_names :: "string list \<Rightarrow> bool" where
  "plain_names cs \<equiv> list_all plain_name cs"

lemma split_slashed: "cs \<noteq> [] \<Longrightarrow> plain_names cs \<Longrightarrow> split_names (CHR ''/'') (slashed cs) = '''' # cs"
proof (induction cs)
  case (Cons c cs)
  have e: "split_names (CHR ''/'') (CHR ''/'' # x) = '''' # split_names (CHR ''/'') x" for x
    using split_names_step [of "CHR ''/''" "[]"] by simp
  show ?case
  proof (cases cs)
    case Nil
    with Cons.prems show ?thesis by (simp add: e split_names_no_delim plain_name_def)
  next
    case c: (Cons d ds)
    with Cons have "split_names (CHR ''/'') (d @ slashed ds) = cs" by (simp add: e)
    with Cons.prems c show ?thesis by (simp add: e split_names_step plain_name_def)
  qed
qed simp

lemma nl_slashed [simp]:
  "cs \<noteq> [] \<Longrightarrow> plain_names cs \<Longrightarrow> fst (nl_init [] (slashed cs) (CHR ''/'')) = '''' # cs"
  by (cases cs) (auto simp: nl_init_def Let_def split_slashed [of "_ # _", simplified])

lemma res_path_slashed [simp]: "cs \<noteq> [] \<Longrightarrow> plain_names cs \<Longrightarrow> res_path (slashed cs) = cs"
  by (simp add: res_path_def)

lemma archive_of_slashed [simp]: "cs \<noteq> [] \<Longrightarrow> plain_names cs \<Longrightarrow> archive_of (slashed cs) = hd cs"
  by (cases cs) (auto simp: archive_of_def nl_slashed [of "_ # _", simplified])

lemma getRootPath_slashed:
  "cs \<noteq> [] \<Longrightarrow> plain_names cs \<Longrightarrow>
     getRootPath (slashed cs) A = Some (case sm_find (accessInfo A) (hd cs) of None \<Rightarrow> archiveHome A | Some d \<Rightarrow> rd_prefix d)"
  by (simp add: getRootPath_def)

lemma resolve_plain: "plain_names cs \<Longrightarrow> resolve t q cs = Some r \<Longrightarrow> r = q @ cs"
proof (induction cs arbitrary: q)
  case (Cons c cs)
  then have "resolve t (q @ [c]) cs = Some r" by (auto simp: plain_name_def split: if_splits)
  with Cons.IH [of "q @ [c]"] Cons.prems show ?case by simp
qed simp

lemma path_parts_slashed:
  "p \<noteq> '''' \<Longrightarrow> plain_names cs \<Longrightarrow> path_parts (p @ slashed cs) = path_parts p @ cs"
proof (induction cs arbitrary: p)
  case (Cons c cs)
  have "path_parts ((p @ CHR ''/'' # c) @ slashed cs) = path_parts (p @ CHR ''/'' # c) @ cs"
    using Cons.prems by (intro Cons.IH) simp_all
  moreover have "c \<noteq> ''''" using Cons.prems by (simp add: plain_name_def)
  ultimately show ?case using Cons.prems by (simp add: path_parts_step path_parts_plain)
qed simp

lemma canon_slashed_bind:
  "p \<noteq> '''' \<Longrightarrow> plain_names cs \<Longrightarrow> canon (p @ slashed cs) t = Option.bind (canon p t) (\<lambda>q. resolve t q cs)"
  by (simp add: canon_def path_parts_slashed resolve_append)

lemma canon_slashed_eq:
  "canon p t = Some q \<Longrightarrow> plain_names cs \<Longrightarrow> canon (p @ slashed cs) t = Some r \<Longrightarrow> r = q @ cs"
  using canon_slashed_bind [of p cs t] resolve_plain [of cs t q r] by (cases "p = ''''") (auto simp: canon_def [of "[]"])

lemma resolve_dirs: "plain_names cs \<Longrightarrow> dir_at (q @ butlast cs) t \<Longrightarrow> dir_at q t \<Longrightarrow> resolve t q cs = Some (q @ cs)"
proof (induction cs arbitrary: q)
  case (Cons c cs)
  have "dir_at (q @ [c]) t" if "cs \<noteq> []"
    using Cons.prems(2) that dir_at_prefix [of "q @ [c]" "butlast cs" t] by simp
  with Cons show ?case by (cases "cs = []") (auto simp: plain_name_def)
qed simp

lemma canon_slashed:
  "canon p t = Some q \<Longrightarrow> plain_names cs \<Longrightarrow> dir_at q t \<Longrightarrow> dir_at (q @ butlast cs) t
     \<Longrightarrow> canon (p @ slashed cs) t = Some (q @ cs)"
  using canon_slashed_bind [of p cs t] resolve_dirs [of cs q t] by (cases "p = ''''") (auto simp: canon_def [of "[]"])

subsection \<open>Making the directories of a resource\<close>

lemma ensure_dir_effect:
  assumes "ensure_dir p fs = Some fs'"
  shows "file_at q fs' = file_at q fs"
    and "dir_at q fs' \<longleftrightarrow> dir_at q fs \<or> canon p fs = Some q"
    and "ft_isDir p fs'" "canon p fs' = canon p fs"
proof -
  have "fs' = fs \<and> ft_isDir p fs \<or> ft_makeDir True p fs = Some (True, fs')"
    using assms makeDir_isDir(1) [of p fs] by (auto simp: ensure_dir_def split: if_splits)
  then show "file_at q fs' = file_at q fs" "dir_at q fs' \<longleftrightarrow> dir_at q fs \<or> canon p fs = Some q"
    "ft_isDir p fs'" "canon p fs' = canon p fs"
    using makeDir_effect [of True p fs True fs' q] makeDir_isDir [of p fs True fs'] by (auto simp: ft_isDir_iff)
qed

lemma ensure_dir_total:
  "canon p fs = Some q \<Longrightarrow> file_at q fs = None \<Longrightarrow> \<exists>fs'. ensure_dir p fs = Some fs'"
  by (auto simp: ensure_dir_def ft_makeDir_def ft_isDir_iff node_none_iff)

lemma make_path_files:
  "make_path p cs fs = Some fs' \<Longrightarrow> file_at q fs' = file_at q fs \<and> (dir_at q fs \<longrightarrow> dir_at q fs')"
proof (induction cs arbitrary: p fs)
  case (Cons c cs)
  then obtain fs1 where "ensure_dir (p @ ''/'' @ c) fs = Some fs1" "make_path (p @ ''/'' @ c) cs fs1 = Some fs'"
    by (auto split: Option.bind_splits)
  with Cons.IH [OF this(2)] ensure_dir_effect [OF this(1)] show ?case by auto
qed simp

lemma make_path_plain:
  assumes "canon p fs = Some q" "dir_at q fs" "plain_names cs"
    and "\<And>i. i \<le> length cs \<Longrightarrow> file_at (q @ take i cs) fs = None"
  shows "\<exists>fs'. make_path p cs fs = Some fs' \<and> dir_at (q @ cs) fs'
     \<and> (\<forall>r. dir_at r fs' \<longrightarrow> dir_at r fs \<or> (\<exists>i. r = q @ take i cs))"
  using assms
proof (induction cs arbitrary: p q fs)
  case Nil
  then show ?case by auto
next
  case (Cons c cs)
  from Cons.prems have c: "canon (p @ ''/'' @ c) fs = Some (q @ [c])" by (simp add: canon_child)
  moreover have "file_at (q @ [c]) fs = None" using Cons.prems(4) [of 1] by simp
  ultimately obtain fs1 where fs1: "ensure_dir (p @ ''/'' @ c) fs = Some fs1" using ensure_dir_total by blast
  note e = ensure_dir_effect [OF fs1]
  have 1: "canon (p @ ''/'' @ c) fs1 = Some (q @ [c])" using e(4) c by simp
  moreover have "dir_at (q @ [c]) fs1" using e(3) 1 by (auto simp: ft_isDir_iff)
  moreover have "plain_names cs" using Cons.prems by simp
  moreover have "file_at ((q @ [c]) @ take i cs) fs1 = None" if "i \<le> length cs" for i
    using Cons.prems(4) [of "Suc i"] that e(1) by simp
  ultimately obtain fs' where fs': "make_path (p @ ''/'' @ c) cs fs1 = Some fs'" "dir_at ((q @ [c]) @ cs) fs'"
    "\<And>r. dir_at r fs' \<Longrightarrow> dir_at r fs1 \<or> (\<exists>i. r = (q @ [c]) @ take i cs)"
    using Cons.IH [of "p @ ''/'' @ c" fs1 "q @ [c]"] by blast
  have "dir_at r fs \<or> (\<exists>i. r = q @ take i (c # cs))" if "dir_at r fs'" for r
  proof -
    from fs'(3) [OF that] consider "dir_at r fs1" | i where "r = (q @ [c]) @ take i cs" by auto
    then show ?thesis
    proof cases
      case 1
      with e(2) [of r] c have "dir_at r fs \<or> r = q @ take 1 (c # cs)" by auto
      then show ?thesis by blast
    next
      case (2 i)
      then have "r = q @ take (Suc i) (c # cs)" by simp
      then show ?thesis by blast
    qed
  qed
  with fs' fs1 show ?case by auto
qed

subsection \<open>Resources as logs\<close>

text \<open>A resource that may be written: its root is kept below the home directory \<open>h\<close>, the access
  rules admit it, and no file is in the way of its directories.\<close>

definition writable :: "archive \<Rightarrow> string list \<Rightarrow> bool" where
  "writable A cs \<longleftrightarrow> plain_names cs \<and> 2 \<le> length cs \<and> hd cs \<noteq> ''message'' \<and> last cs \<noteq> ''data''
     \<and> (case sm_find (accessInfo A) (hd cs) of
          None \<Rightarrow> False
        | Some d \<Rightarrow> rd_prefix d = archiveHome A \<and> visibility d \<noteq> []
                     \<and> (hd (visibility d) = ''*'' \<or> cs ! 1 \<in> set (visibility d)))"

definition resource_free :: "archive \<Rightarrow> fspath \<Rightarrow> string list \<Rightarrow> bool" where
  "resource_free A h cs \<longleftrightarrow> canon (archiveHome A) (arch_fs A) = Some h \<and> dir_at h (arch_fs A)
     \<and> (\<forall>i \<le> length cs. file_at (h @ take i cs) (arch_fs A) = None)
     \<and> \<not> dir_at (h @ cs @ [''data'']) (arch_fs A)"

abbreviation data_file :: "fspath \<Rightarrow> string list \<Rightarrow> archive \<Rightarrow> string option" where
  "data_file h cs A \<equiv> file_at (h @ cs @ [''data'']) (arch_fs A)"

lemma plain_data [simp]: "plain_name ''data''"
  by (simp add: plain_name_def)

lemma writable_fs [simp]: "writable (A\<lparr>arch_fs := fs\<rparr>) cs = writable A cs"
  by (auto simp: writable_def split: option.split)

lemma writable_nonempty: "writable A cs \<Longrightarrow> cs \<noteq> []"
  by (auto simp: writable_def)

lemma writable_permission:
  assumes "writable A cs"
  shows "checkPermission (cs @ ds) md A = Some True"
proof -
  from assms have l: "2 \<le> length cs" by (simp add: writable_def)
  then have "cs \<noteq> []" by auto
  then have "hd (cs @ ds) = hd cs" "(cs @ ds) ! 1 = cs ! 1" "cs \<noteq> []" using l by (simp_all add: nth_append)
  with assms l show ?thesis
    by (auto simp: checkPermission_def writable_def fullAccess_def split: option.splits list.splits)
qed

lemma writable_root:
  assumes "writable A cs" "plain_names ds"
  shows "getRootPath (slashed (cs @ ds)) A = Some (archiveHome A)"
proof -
  from assms have c: "cs \<noteq> []" "plain_names (cs @ ds)" by (auto simp: writable_def)
  with assms(1) getRootPath_slashed [of "cs @ ds" A] show ?thesis
    by (auto simp: writable_def split: option.splits)
qed

lemma resource_canon:
  assumes "writable A cs" "resource_free A h cs"
  shows "canon (archiveHome A @ ''/'' @ slashed (cs @ [''data''])) (arch_fs A) \<in> {None, Some (h @ cs @ [''data''])}"
    and "dir_at (h @ cs) fs' \<Longrightarrow> canon (archiveHome A) fs' = Some h \<Longrightarrow> dir_at h fs'
       \<Longrightarrow> canon (archiveHome A @ ''/'' @ slashed (cs @ [''data''])) fs' = Some (h @ cs @ [''data''])"
proof -
  have p: "plain_names (cs @ [''data''])" using assms by (simp add: writable_def)
  have "canon (archiveHome A @ ''/'') (arch_fs A) = Some h"
    using assms(2) by (auto simp: resource_free_def intro: canon_slash)
  from canon_slashed_eq [OF this p]
  show "canon (archiveHome A @ ''/'' @ slashed (cs @ [''data''])) (arch_fs A) \<in> {None, Some (h @ cs @ [''data''])}"
    by (cases "canon (archiveHome A @ ''/'' @ slashed (cs @ [''data''])) (arch_fs A)") auto
  assume d: "dir_at (h @ cs) fs'" "canon (archiveHome A) fs' = Some h" "dir_at h fs'"
  from canon_slashed [OF canon_slash [OF d(2,3)] p d(3)] d(1)
  show "canon (archiveHome A @ ''/'' @ slashed (cs @ [''data''])) fs' = Some (h @ cs @ [''data''])" by simp
qed

lemma resource_not_dir:
  assumes "writable A cs" "resource_free A h cs"
  shows "\<not> ft_isDir (archiveHome A @ ''/'' @ slashed (cs @ [''data''])) (arch_fs A)"
  using resource_canon(1) [OF assms] assms(2) by (auto simp: ft_isDir_iff resource_free_def)

text \<open>What \<^verbatim>\<open>addResource\<close> leaves: the directories of the resource, and nothing else new.\<close>

definition made :: "fspath \<Rightarrow> string list \<Rightarrow> archive \<Rightarrow> fsnode \<Rightarrow> bool" where
  "made h cs A fs' \<longleftrightarrow> dir_at (h @ cs) fs' \<and> (\<forall>q. file_at q fs' = file_at q (arch_fs A))
     \<and> (\<forall>q. dir_at q (arch_fs A) \<longrightarrow> dir_at q fs') \<and> \<not> dir_at (h @ cs @ [''data'']) fs'"

lemma addResource_made:
  assumes w: "writable A cs" and f: "resource_free A h cs"
  shows "\<exists>fs'. addResource (slashed (cs @ [''data''])) '''' True A = Some (True, A\<lparr>arch_fs := fs'\<rparr>) \<and> made h cs A fs'"
proof (cases "ft_isFile (archiveHome A @ ''/'' @ slashed (cs @ [''data''])) (arch_fs A)")
  case True
  then have "data_file h cs A \<noteq> None"
    using resource_canon(1) [OF assms] by (auto simp: ft_isFile_def ft_read_def)
  then have "dir_at (h @ cs) (arch_fs A)" using file_at_parent [of "h @ cs @ [''data'']"]
    by (auto simp: butlast_append)
  with True f writable_root [OF w, of "[''data'']"] show ?thesis
    by (auto simp: addResource_def made_def resource_free_def intro!: exI [of _ "arch_fs A"])
next
  case False
  have p: "plain_names cs" "cs \<noteq> []" using w by (auto simp: writable_def)
  then have nl: "butlast (fst (nl_init [] (slashed (cs @ [''data''])) (CHR ''/''))) = '''' # cs"
    by (subst nl_slashed) auto
  have h: "canon (archiveHome A @ ''/'') (arch_fs A) = Some h" "dir_at h (arch_fs A)"
    using f by (auto simp: resource_free_def intro: canon_slash)
  then have "ensure_dir (archiveHome A @ ''/'' @ '''') (arch_fs A) = Some (arch_fs A)"
    by (auto simp: ensure_dir_def ft_isDir_iff)
  moreover obtain fs' where fs': "make_path (archiveHome A @ ''/'') cs (arch_fs A) = Some fs'"
    "dir_at (h @ cs) fs'" "\<And>r. dir_at r fs' \<Longrightarrow> dir_at r (arch_fs A) \<or> (\<exists>i. r = h @ take i cs)"
    using make_path_plain [OF h p(1)] f by (auto simp: resource_free_def)
  moreover have "h @ cs @ [''data''] \<noteq> h @ take i cs" for i
    by (auto dest: arg_cong [where f = length])
  then have "\<not> dir_at (h @ cs @ [''data'']) fs'" using fs'(3) [of "h @ cs @ [''data'']"] f
    by (auto simp: resource_free_def)
  ultimately have m: "make_path (archiveHome A) ('''' # cs) (arch_fs A) = Some fs'" "made h cs A fs'"
    using make_path_files [OF fs'(1)] by (auto simp: made_def)
  with False nl writable_root [OF w, of "[''data'']"] show ?thesis
    by (auto simp: addResource_def Let_def simp del: slashed_simps make_path.simps)
qed

lemma made_write:
  assumes "writable A cs" "resource_free A h cs" "made h cs A fs'"
  shows "canon (archiveHome A @ ''/'' @ slashed (cs @ [''data''])) fs' = Some (h @ cs @ [''data''])"
    and "\<exists>fs2. out_text app (archiveHome A @ ''/'' @ slashed (cs @ [''data''])) x fs' = Some fs2
       \<and> resource_free (A\<lparr>arch_fs := fs2\<rparr>) h cs
       \<and> (\<forall>q. file_at q fs2 = (if q = h @ cs @ [''data'']
              then Some ((if app then (case data_file h cs A of None \<Rightarrow> '''' | Some y \<Rightarrow> y) else '''') @ x @ newline)
              else file_at q (arch_fs A)))"
proof -
  let ?p = "archiveHome A @ ''/'' @ slashed (cs @ [''data''])"
  have h: "canon (archiveHome A) fs' = Some h" "dir_at h fs'"
    using assms(2,3) canon_more_dirs [of "arch_fs A" fs'] by (auto simp: resource_free_def made_def)
  then show c: "canon ?p fs' = Some (h @ cs @ [''data''])"
    using resource_canon(2) [OF assms(1,2)] assms(3) by (simp add: made_def)
  have r: "ft_read ?p fs' = data_file h cs A" using c assms(3) by (simp add: ft_read_def made_def)
  then obtain fs2 where fs2: "out_text app ?p x fs' = Some fs2"
    using c assms(3) by (auto simp: out_text_def ft_write_def made_def)
  note k = ft_write_file_at [OF fs2 [unfolded out_text_def]] ft_write_canon [OF fs2 [unfolded out_text_def]]
  have d: "h @ take i cs \<noteq> h @ cs @ [''data'']" for i by (auto dest: arg_cong [where f = length])
  have fl: "file_at q fs2 = (if q = h @ cs @ [''data'']
              then Some ((if app then (case data_file h cs A of None \<Rightarrow> '''' | Some y \<Rightarrow> y) else '''') @ x @ newline)
              else file_at q (arch_fs A))" for q
    using k(1) [of q] r c assms(3) by (auto simp: made_def)
  have "resource_free (A\<lparr>arch_fs := fs2\<rparr>) h cs"
    using assms(2,3) h d by (auto simp: resource_free_def fl k(2,3) made_def)
  with fl show "\<exists>fs2. out_text app ?p x fs' = Some fs2 \<and> resource_free (A\<lparr>arch_fs := fs2\<rparr>) h cs
       \<and> (\<forall>q. file_at q fs2 = (if q = h @ cs @ [''data'']
              then Some ((if app then (case data_file h cs A of None \<Rightarrow> '''' | Some y \<Rightarrow> y) else '''') @ x @ newline)
              else file_at q (arch_fs A)))"
    using fs2 by blast
qed

subsection \<open>Posting and putting\<close>

lemma restify_resource:
  assumes "writable A cs" "m_getString m ''url'' = slashed cs"
  shows "restify False m = Some (m_add m ''url'' (slashed (cs @ [''data''])))"
proof -
  have c: "plain_names cs" "cs \<noteq> []" using assms by (auto simp: writable_def)
  then have "slashed cs \<noteq> ''''" by (cases cs) auto
  with assms(2) have u: "rest_url m = slashed cs" by (simp add: rest_url_def)
  with c assms show ?thesis by (simp add: restify_def rest_address_def rest_header_def Let_def writable_def)
qed

lemma sm_erase_put: "sm_erase k (sm_put k v m) = sm_erase k m"
  by (induction k v m rule: sm_put.induct) (auto simp: sm_erase_def)

lemma m_erase_add: "m_erase_url (m_add m ''url'' v) = m_erase_url m"
  by (auto simp: m_erase_url_def m_add_def sm_insert_def sm_erase_put split: option.split)

lemma m_add_url: "m_texts m \<Longrightarrow> m_getString (m_add m ''url'' v) ''url'' = v"
  by simp

text \<open>A line of a resource: the message as the archive keeps it, without its address.\<close>

definition record_line :: "mmessage \<Rightarrow> string" where
  "record_line m = m_xmlEncode 0 (m_erase_url m)"

definition answers :: "string \<Rightarrow> mmessage \<Rightarrow> bool" where
  "answers key r \<longleftrightarrow> m_getString r key = ''OK''"

lemma answer_ok: "answers key (m_add m_answer key ''OK'')"
  by (simp add: answers_def m_answer_def m_default_def m_getString_def m_add_def sm_insert_def)

lemma postExec_effect:
  assumes w: "writable A cs" "resource_free A h cs" and m: "m_texts m" "m_getString m ''url'' = slashed cs"
  shows "\<exists>m' es fs. postExec ss m A = Some (m_add m_answer ''body'' ''OK'', m', es, A\<lparr>arch_fs := fs\<rparr>)
     \<and> resource_free (A\<lparr>arch_fs := fs\<rparr>) h cs
     \<and> (\<forall>q. file_at q fs = (if q = h @ cs @ [''data'']
            then Some ((case data_file h cs A of None \<Rightarrow> '''' | Some y \<Rightarrow> y) @ record_line m @ newline)
            else file_at q (arch_fs A)))"
proof -
  let ?u = "slashed (cs @ [''data''])" and ?p = "archiveHome A @ ''/'' @ slashed (cs @ [''data''])"
  have c: "plain_names (cs @ [''data''])" using w by (simp add: writable_def)
  note r = restify_resource [OF w(1) m(2)] m_add_url [OF m(1), of ?u] m_erase_add [of m ?u]
  obtain fs1 where fs1: "addResource ?u '''' True A = Some (True, A\<lparr>arch_fs := fs1\<rparr>)" "made h cs A fs1"
    using addResource_made [OF w] by blast
  let ?app = "ft_isFile ?p fs1"
  have app: "?app \<longleftrightarrow> data_file h cs A \<noteq> None"
    using made_write(1) [OF w fs1(2)] fs1(2) by (simp add: ft_isFile_def ft_read_def made_def)
  obtain fs2 where fs2: "out_text ?app ?p (record_line m) fs1 = Some fs2" "resource_free (A\<lparr>arch_fs := fs2\<rparr>) h cs"
    "\<And>q. file_at q fs2 = (if q = h @ cs @ [''data'']
        then Some ((if ?app then (case data_file h cs A of None \<Rightarrow> '''' | Some y \<Rightarrow> y) else '''') @ record_line m @ newline)
        else file_at q (arch_fs A))"
    using made_write(2) [OF w fs1(2), of ?app "record_line m"] by blast
  obtain m' es where n: "notice ''POST'' ?u (m_erase_url m) ss = (m', es)" by fastforce
  have "postExec ss m A = Some (m_add m_answer ''body'' ''OK'', m', es, A\<lparr>arch_fs := fs2\<rparr>)"
    using writable_permission [OF w(1), of "[''data'']" WRITE] resource_not_dir [OF w] fs1(1) fs2(1) n r c
    by (simp add: postExec_def Let_def out_ignored_def record_line_def del: slashed_simps)
  with fs2(2,3) app show ?thesis by (auto split: option.splits)
qed

lemma putExec_effect:
  assumes w: "writable A cs" "resource_free A h cs" and m: "m_texts m" "m_getString m ''url'' = slashed cs"
  shows "\<exists>m' es fs. putExec ss m A = Some (m_add m_answer ''result'' ''OK'', m', es, A\<lparr>arch_fs := fs\<rparr>)
     \<and> resource_free (A\<lparr>arch_fs := fs\<rparr>) h cs
     \<and> (\<forall>q. file_at q fs = (if q = h @ cs @ [''data''] then Some (record_line m @ newline) else file_at q (arch_fs A)))"
proof -
  let ?u = "slashed (cs @ [''data''])" and ?p = "archiveHome A @ ''/'' @ slashed (cs @ [''data''])"
  have c: "plain_names (cs @ [''data''])" using w by (simp add: writable_def)
  note r = restify_resource [OF w(1) m(2)] m_add_url [OF m(1), of ?u] m_erase_add [of m ?u]
  obtain fs1 where fs1: "addResource ?u '''' True A = Some (True, A\<lparr>arch_fs := fs1\<rparr>)" "made h cs A fs1"
    using addResource_made [OF w] by blast
  obtain fs2 where fs2: "out_text False ?p (record_line m) fs1 = Some fs2" "resource_free (A\<lparr>arch_fs := fs2\<rparr>) h cs"
    "\<And>q. file_at q fs2 = (if q = h @ cs @ [''data''] then Some (record_line m @ newline) else file_at q (arch_fs A))"
    using made_write(2) [OF w fs1(2), of False "record_line m"] by auto
  obtain m' es where n: "notice ''PUT'' ?u (m_erase_url m) ss = (m', es)" by fastforce
  have "putExec ss m A = Some (m_add m_answer ''result'' ''OK'', m', es, A\<lparr>arch_fs := fs2\<rparr>)"
    using writable_permission [OF w(1), of "[''data'']" WRITE] resource_not_dir [OF w] fs1(1) fs2(1) n r c
    by (simp add: putExec_def Let_def out_ignored_def record_line_def del: slashed_simps)
  with fs2(2,3) show ?thesis by blast
qed

lemma find_last_slash: "plain_name x \<Longrightarrow> find_last (CHR ''/'') (p @ CHR ''/'' # x) = Some (length p)"
  by (rule find_last_append) (simp add: plain_name_def)

lemma getExec_resource:
  assumes "writable A cs" "plain_name x" "m_getString req ''url'' = slashed (cs @ [x])"
  shows "getExec req A = Some (archiveHome A @ ''/'' @ slashed cs)"
proof -
  have "cs \<noteq> []" using assms(1) by (rule writable_nonempty)
  then have c: "cs @ [x] \<noteq> []" "plain_names (cs @ [x])" "cs \<noteq> []" "hd (cs @ [x]) = hd cs" "length (cs @ [x]) \<noteq> 1"
    using assms(1,2) by (simp_all add: writable_def)
  have "sm_find (accessInfo A) (hd cs) \<noteq> None" using assms(1) by (auto simp: writable_def split: option.splits)
  moreover have "find_last (CHR ''/'') (archiveHome A @ ''/'' @ slashed (cs @ [x])) = Some (length (archiveHome A @ ''/'' @ slashed cs))"
    using find_last_slash [OF assms(2), of "archiveHome A @ ''/'' @ slashed cs"] by simp
  ultimately show ?thesis
    using writable_root [OF assms(1), of "[x]"] writable_permission [OF assms(1), of "[x]" READ] c assms(2)
    by (simp add: getExec_def Let_def assms(3) del: slashed_simps) auto
qed

lemma getAll_resource:
  assumes "writable A cs" "resource_free A h cs" "plain_name x" "m_getString req ''url'' = slashed (cs @ [x])"
    and "data_file h cs A = Some t"
  shows "getAll req A = Some (t @ newline)"
proof -
  let ?p = "archiveHome A @ ''/'' @ slashed cs"
  have "CHR ''/'' \<in> set ?p" by simp
  then have n: "?p \<noteq> ''Not Found''" "?p \<noteq> ''Forbidden''" by (intro notI, simp)+
  have d: "dir_at (h @ cs) (arch_fs A)" using file_at_parent [OF assms(5)] by (simp add: butlast_append)
  have "canon (?p @ ''/data'') (arch_fs A) = Some (h @ cs @ [''data''])"
    using resource_canon(2) [OF assms(1,2) d] assms(2) by (simp add: resource_free_def)
  with assms(5) have "open_in (?p @ ''/data'') (arch_fs A) = TextStream t"
    by (simp add: open_in_read [symmetric] ft_read_def)
  with n getExec_resource [OF assms(1,3,4)] show ?thesis
    by (simp only: getAll_def option.case instream.case if_False simp_thms getAll_text)
qed

text \<open>A sequence of requests to one resource; \<open>True\<close> marks a POST, \<open>False\<close> a PUT.\<close>

fun archive_run :: "subjects \<Rightarrow> (bool \<times> mmessage) list \<Rightarrow> archive \<Rightarrow> archive option" where
  "archive_run ss [] A = Some A"
| "archive_run ss ((post, m) # ops) A =
     (case (if post then postExec ss m A else putExec ss m A) of
        None \<Rightarrow> None
      | Some (r, m', es, A') \<Rightarrow>
          if answers (if post then ''body'' else ''result'') r then archive_run ss ops A' else None)"

fun log_after :: "(bool \<times> mmessage) list \<Rightarrow> string list \<Rightarrow> string list" where
  "log_after [] l = l"
| "log_after ((post, m) # ops) l = log_after ops ((if post then l else []) @ [record_line m])"

definition log_lines :: "string list \<Rightarrow> string" where
  "log_lines l = concat (map (\<lambda>x. x @ newline) l)"

lemma arch_fs_inj: "A\<lparr>arch_fs := x\<rparr> = A\<lparr>arch_fs := y\<rparr> \<Longrightarrow> x = y"
  by (drule arg_cong [where f = arch_fs]) simp

lemma archive_run_log:
  assumes "writable A cs" "resource_free A h cs"
    and "\<forall>(b, m) \<in> set ops. m_texts m \<and> m_getString m ''url'' = slashed cs"
    and "(case data_file h cs A of None \<Rightarrow> '''' | Some y \<Rightarrow> y) = log_lines l"
  shows "\<exists>fs. archive_run ss ops A = Some (A\<lparr>arch_fs := fs\<rparr>) \<and> resource_free (A\<lparr>arch_fs := fs\<rparr>) h cs
     \<and> (\<forall>q. q \<noteq> h @ cs @ [''data''] \<longrightarrow> file_at q fs = file_at q (arch_fs A))
     \<and> (case file_at (h @ cs @ [''data'']) fs of None \<Rightarrow> '''' | Some y \<Rightarrow> y) = log_lines (log_after ops l)
     \<and> (ops \<noteq> [] \<longrightarrow> file_at (h @ cs @ [''data'']) fs \<noteq> None)"
  using assms
proof (induction ops arbitrary: A l)
  case Nil
  then show ?case by (auto intro!: exI [of _ "arch_fs A"])
next
  case (Cons op ops)
  obtain post m where op: "op = (post, m)" by fastforce
  have m: "m_texts m" "m_getString m ''url'' = slashed cs" using Cons.prems(3) op by auto
  define l1 where "l1 = (if post then l else []) @ [record_line m]"
  obtain r m' es fs where 1: "(if post then postExec ss m A else putExec ss m A) = Some (r, m', es, A\<lparr>arch_fs := fs\<rparr>)"
    "answers (if post then ''body'' else ''result'') r" "resource_free (A\<lparr>arch_fs := fs\<rparr>) h cs"
    "\<And>q. q \<noteq> h @ cs @ [''data''] \<Longrightarrow> file_at q fs = file_at q (arch_fs A)"
    "file_at (h @ cs @ [''data'']) fs = Some (log_lines l1)"
  proof (cases post)
    case True
    obtain m' es fs where "postExec ss m A = Some (m_add m_answer ''body'' ''OK'', m', es, A\<lparr>arch_fs := fs\<rparr>)"
      "resource_free (A\<lparr>arch_fs := fs\<rparr>) h cs" "\<And>q. file_at q fs = (if q = h @ cs @ [''data'']
            then Some ((case data_file h cs A of None \<Rightarrow> '''' | Some y \<Rightarrow> y) @ record_line m @ newline)
            else file_at q (arch_fs A))"
      using postExec_effect [OF Cons.prems(1,2) m, of ss] by blast
    with True Cons.prems(4) that show ?thesis by (simp add: answer_ok log_lines_def l1_def)
  next
    case False
    obtain m' es fs where "putExec ss m A = Some (m_add m_answer ''result'' ''OK'', m', es, A\<lparr>arch_fs := fs\<rparr>)"
      "resource_free (A\<lparr>arch_fs := fs\<rparr>) h cs"
      "\<And>q. file_at q fs = (if q = h @ cs @ [''data''] then Some (record_line m @ newline) else file_at q (arch_fs A))"
      using putExec_effect [OF Cons.prems(1,2) m, of ss] by blast
    with False that show ?thesis by (simp add: answer_ok log_lines_def l1_def)
  qed
  have w: "writable (A\<lparr>arch_fs := fs\<rparr>) cs" using Cons.prems(1) by simp
  obtain fs' where "archive_run ss ops (A\<lparr>arch_fs := fs\<rparr>) = Some (A\<lparr>arch_fs := fs'\<rparr>)" "resource_free (A\<lparr>arch_fs := fs'\<rparr>) h cs"
    "\<forall>q. q \<noteq> h @ cs @ [''data''] \<longrightarrow> file_at q fs' = file_at q fs"
    "(case file_at (h @ cs @ [''data'']) fs' of None \<Rightarrow> '''' | Some y \<Rightarrow> y) = log_lines (log_after ops l1)"
    "ops \<noteq> [] \<longrightarrow> file_at (h @ cs @ [''data'']) fs' \<noteq> None"
    using Cons.IH [OF w 1(3), of l1] Cons.prems(3) 1(5) by (auto simp: op)
  moreover have "file_at (h @ cs @ [''data'']) fs' \<noteq> None"
    using calculation(1,5) 1(5) by (cases ops) (auto dest: arch_fs_inj)
  ultimately show ?case using 1 by (auto simp: op l1_def)
qed


subsection \<open>What a writing request can reach\<close>

datatype request = Post | Put | PutConf | PutLog | PostLog

fun handle :: "request \<Rightarrow> subjects \<Rightarrow> mmessage \<Rightarrow> archive \<Rightarrow> handled" where
  "handle Post = postExec"
| "handle Put = putExec"
| "handle PutConf = putConf"
| "handle PutLog = putLog"
| "handle PostLog = postLog"

definition changes_only :: "string \<Rightarrow> fsnode \<Rightarrow> fsnode \<Rightarrow> bool" where
  "changes_only p fs fs' \<longleftrightarrow> (\<forall>q. file_at q fs' \<noteq> file_at q fs \<longrightarrow> canon p fs' = Some q)"

lemma changes_only_refl [simp]: "changes_only p fs fs"
  by (simp add: changes_only_def)

lemma addResource_files:
  assumes "addResource url '''' True A = Some (r, A1)"
  obtains fs where "A1 = A\<lparr>arch_fs := fs\<rparr>" "\<And>q. file_at q fs = file_at q (arch_fs A)"
proof -
  have "\<exists>fs. A1 = A\<lparr>arch_fs := fs\<rparr> \<and> (fs = arch_fs A \<or> (\<exists>p cs. make_path p cs (arch_fs A) = Some fs))"
    using assms by (auto simp: addResource_def Let_def split: option.splits if_splits intro: exI [of _ "arch_fs A"])
  then obtain fs where fs: "A1 = A\<lparr>arch_fs := fs\<rparr>" "fs = arch_fs A \<or> (\<exists>p cs. make_path p cs (arch_fs A) = Some fs)"
    by blast
  then have "file_at q fs = file_at q (arch_fs A)" for q using make_path_files by blast
  with fs that show thesis by blast
qed

lemma out_text_changes:
  assumes "out_text app p x fs1 = Some fs'" "\<forall>q. file_at q fs1 = file_at q fs"
  shows "changes_only p fs fs'"
  using ft_write_file_at(1) [OF assms(1) [unfolded out_text_def]] ft_write_canon [OF assms(1) [unfolded out_text_def]]
  by (auto simp: changes_only_def assms(2))

lemma out_ignored_changes:
  "\<forall>q. file_at q fs1 = file_at q fs \<Longrightarrow> changes_only p fs (out_ignored app p x fs1)"
  using out_text_changes [of app p x fs1 _ fs] by (auto simp: out_ignored_def changes_only_def [of p fs fs1] split: option.split)

text \<open>The five handlers share the shape of their last steps.\<close>

definition written_at :: "string \<Rightarrow> archive \<Rightarrow> archive \<Rightarrow> bool" where
  "written_at p A A' \<longleftrightarrow> A' = A \<or> (\<exists>fs app x. A' = A\<lparr>arch_fs := fs\<rparr>
     \<and> (fs = out_ignored app p x (arch_fs A) \<or> out_text app p x (arch_fs A) = Some fs))"

lemma written_at_intros:
  "written_at p A A" "written_at p A (A\<lparr>arch_fs := out_ignored app p x (arch_fs A)\<rparr>)"
  "out_text app p x (arch_fs A) = Some fs \<Longrightarrow> written_at p A (A\<lparr>arch_fs := fs\<rparr>)"
  by (auto simp: written_at_def)

definition permitted_write :: "string \<Rightarrow> archive \<Rightarrow> archive \<Rightarrow> bool" where
  "permitted_write u A A' \<longleftrightarrow> checkPermission (res_path u) WRITE A = Some True
     \<and> (\<exists>added A1 b. addResource u '''' True A = Some (added, A1)
          \<and> (b = archiveHome A \<or> getRootPath u A = Some b) \<and> written_at (b @ ''/'' @ u) A1 A')"

lemma permitted_writeI:
  "checkPermission (res_path u) WRITE A = Some True \<Longrightarrow> addResource u '''' True A = Some (added, A1)
     \<Longrightarrow> b = archiveHome A \<or> getRootPath u A = Some b \<Longrightarrow> written_at (b @ ''/'' @ u) A1 A' \<Longrightarrow> permitted_write u A A'"
  by (auto simp: permitted_write_def)

lemma permitted_write_root:
  "checkPermission (res_path u) WRITE A = Some True \<Longrightarrow> addResource u '''' True A = Some (added, A1)
     \<Longrightarrow> getRootPath u A = Some b \<Longrightarrow> written_at (b @ CHR ''/'' # u) A1 A' \<Longrightarrow> permitted_write u A A'"
  by (auto simp: permitted_write_def)

lemma handle_cases:
  assumes "handle k ss m A = Some (r, m', es, A')" "restify (k = PutConf) m = Some m1"
  shows "A' = A \<or> permitted_write (m_getString m1 ''url'') A A'"
proof (cases k)
  case Post
  with assms show ?thesis
    by (auto simp: postExec_def Let_def split: option.splits if_splits prod.splits
        intro!: permitted_writeI [where b = "archiveHome A"] written_at_intros(2))
next
  case Put
  with assms show ?thesis
    by (auto simp: putExec_def Let_def split: option.splits if_splits prod.splits
        intro!: permitted_writeI [where b = "archiveHome A"] written_at_intros(2))
next
  case PutConf
  with assms show ?thesis
    by (auto simp: putConf_def Let_def split: option.splits if_splits prod.splits
        intro: permitted_write_root written_at_intros)
next
  case PutLog
  with assms show ?thesis
    by (auto simp: putLog_def Let_def split: option.splits if_splits prod.splits
        intro: permitted_write_root written_at_intros)
next
  case PostLog
  with assms show ?thesis
    by (auto simp: postLog_def Let_def split: option.splits if_splits prod.splits
        intro: permitted_write_root written_at_intros)
qed

lemma permitted_write_changes:
  assumes "permitted_write u A A'"
  shows "A' = A\<lparr>arch_fs := arch_fs A'\<rparr>"
    and "\<exists>b. (b = archiveHome A \<or> getRootPath u A = Some b) \<and> changes_only (b @ ''/'' @ u) (arch_fs A) (arch_fs A')"
proof -
  from assms obtain added A1 b where 1: "addResource u '''' True A = Some (added, A1)"
    "b = archiveHome A \<or> getRootPath u A = Some b" "written_at (b @ ''/'' @ u) A1 A'"
    by (auto simp: permitted_write_def)
  obtain fs where fs: "A1 = A\<lparr>arch_fs := fs\<rparr>" "\<And>q. file_at q fs = file_at q (arch_fs A)"
    using addResource_files [OF 1(1)] by blast
  show "A' = A\<lparr>arch_fs := arch_fs A'\<rparr>" using 1(3) fs(1) by (auto simp: written_at_def)
  have "changes_only (b @ ''/'' @ u) (arch_fs A) (arch_fs A')"
    using 1(3) fs out_ignored_changes [of fs "arch_fs A"] out_text_changes [of _ _ _ fs _ "arch_fs A"]
    by (auto simp: written_at_def changes_only_def [of _ _ fs])
  with 1(2) show "\<exists>b. (b = archiveHome A \<or> getRootPath u A = Some b)
     \<and> changes_only (b @ ''/'' @ u) (arch_fs A) (arch_fs A')" by blast
qed

lemma resolve_skip:
  "resolve t q cs = Some r \<Longrightarrow> ''.'' \<notin> set cs \<Longrightarrow> ''..'' \<notin> set cs \<Longrightarrow> r = q @ filter (\<lambda>c. c \<noteq> '''') cs"
proof (induction cs arbitrary: q)
  case (Cons c cs)
  show ?case
  proof (cases "c = ''''")
    case True
    with Cons show ?thesis by (simp split: if_splits)
  next
    case False
    with Cons.prems have "resolve t (q @ [c]) cs = Some r" by (auto split: if_splits)
    with Cons.IH [of "q @ [c]"] Cons.prems False show ?thesis by simp
  qed
qed simp

lemma path_parts_plain_names:
  assumes "plain_names (res_path u)" "u \<noteq> ''''"
  shows "filter (\<lambda>c. c \<noteq> '''') (path_parts u) = res_path u" "''.'' \<notin> set (path_parts u)" "''..'' \<notin> set (path_parts u)"
proof -
  have "\<forall>x \<in> set (res_path u). x \<noteq> '''' \<and> x \<noteq> ''.'' \<and> x \<noteq> ''..''" using assms(1)
    by (auto simp: list_all_iff plain_name_def)
  moreover have "split_names (CHR ''/'') u \<in> {res_path u, '''' # res_path u}"
    using assms(2) by (cases "split_names (CHR ''/'') u") (simp_all add: res_path_def nl_init_def Let_def)
  then have "path_parts u \<in> {res_path u, '''' # res_path u, res_path u @ [''''], '''' # res_path u @ ['''']}"
    unfolding path_parts_def by (simp split: if_split) blast
  ultimately show "filter (\<lambda>c. c \<noteq> '''') (path_parts u) = res_path u" "''.'' \<notin> set (path_parts u)" "''..'' \<notin> set (path_parts u)"
    by (elim insertE emptyE; force simp: filter_id_conv)+
qed

lemma canon_address:
  assumes "plain_names (res_path u)" "u \<noteq> ''''" "canon (b @ ''/'' @ u) t = Some q" "b \<noteq> ''''"
  shows "\<exists>h. canon b t = Some h \<and> q = h @ res_path u"
proof -
  from assms(2-4) obtain h where "canon b t = Some h" "resolve t h (path_parts u) = Some q"
    using canon_below [of b u t] by (cases "canon b t") auto
  with resolve_skip [of t h "path_parts u" q] path_parts_plain_names [OF assms(1,2)] show ?thesis by auto
qed

lemma restify_url: "restify c m = Some m1 \<Longrightarrow> m_texts m \<Longrightarrow> m_getString m1 ''url'' \<noteq> ''''"
proof -
  assume r: "restify c m = Some m1" "m_texts m"
  have "m_texts (rest_header m)" using r(2) by (simp add: rest_header_def Let_def m_texts_def)
  with r(1) have "m_getString m1 ''url'' = rest_address c m" by (auto simp: restify_def split: if_splits)
  then show ?thesis by (simp add: rest_address_def rest_url_def)
qed

lemma write_permission:
  "checkPermission cs WRITE A = Some True \<Longrightarrow>
     \<exists>d. sm_find (accessInfo A) (hd cs) = Some d \<and> 2 \<le> length cs
       \<and> (hd (visibility d) = ''*'' \<or> cs ! 1 \<in> set (visibility d))"
  by (auto simp: checkPermission_def fullAccess_def READ_def WRITE_def split: option.splits if_splits list.splits)


subsection \<open>Examples\<close>

definition example_home :: fsnode where
  "example_home = DirNode [(''home'', DirNode [(''event'', DirNode [])])]"

definition example_archive :: archive where
  "example_archive = (archive_new ''/conf'' ''/home'' ''archive'' example_home)
     \<lparr>accessInfo := [(''event'', \<lparr>temporalWindow = 7, rd_prefix = ''/home'', visibility = [''door'', ''gate'']\<rparr>)]\<rparr>"

definition example_event :: "string \<Rightarrow> mmessage" where
  "example_event v = m_add (m_add (m_new ''event'' ''door'') ''value'' v) ''url'' ''/event/door''"

lemma example_texts [simp]: "m_texts (example_event v)"
  by (simp add: example_event_def)

lemma example_url [simp]: "m_getString (example_event v) ''url'' = ''/event/door''"
  by (simp add: example_event_def)

lemma example_writable: "writable example_archive [''event'', ''door'']"
  by code_simp

lemma example_free: "resource_free example_archive [''home''] [''event'', ''door'']"
proof -
  have "\<forall>i \<in> set [0, 1, 2]. file_at ([''home''] @ take i [''event'', ''door'']) (arch_fs example_archive) = None"
    by code_simp
  then have "file_at ([''home''] @ take i [''event'', ''door'']) (arch_fs example_archive) = None" if "i \<le> 2" for i
    using that by (cases "i = 0"; cases "i = 1") auto
  moreover have "canon (archiveHome example_archive) (arch_fs example_archive) = Some [''home'']"
    "dir_at [''home''] (arch_fs example_archive)"
    "\<not> dir_at ([''home''] @ [''event'', ''door''] @ [''data'']) (arch_fs example_archive)" by code_simp+
  ultimately show ?thesis by (simp add: resource_free_def)
qed


lemma example_restify:
  "restify False (example_event ''ON'') = Some (m_add (example_event ''ON'') ''url'' ''/event/door/data'')"
  by code_simp

lemma example_post: "\<exists>r m' es A'. handle Post [] (example_event ''ON'') example_archive = Some (r, m', es, A')"
  using postExec_effect [OF example_writable example_free, of "example_event ''ON''" "[]"] by auto


subsection \<open>Behaviours to know\<close>

text \<open>A record posted to a root below the configuration directory is answered with \<open>OK\<close> and lost:
  its directories are made below the configuration, the file is opened below the home directory.\<close>

definition example_conf :: archive where
  "example_conf = example_archive\<lparr>arch_fs := DirNode [(''home'', DirNode []), (''conf'', DirNode [(''set'', DirNode [])])],
     accessInfo := [(''set'', \<lparr>temporalWindow = 0, rd_prefix = ''/conf'', visibility = [''*'']\<rparr>)]\<rparr>"

lemma post_to_conf_lost:
  "map_option (\<lambda>(r, m', es, A'). (m_getString r ''body'', arch_fs A'))
     (postExec [] (m_add (m_new ''event'' ''door'') ''url'' ''/set/x'') example_conf)
   = Some (''OK'', DirNode [(''home'', DirNode []), (''conf'', DirNode [(''set'', DirNode [(''x'', DirNode [])])])])"
  by code_simp

text \<open>Without a current file, the data of the oldest day is taken as the latest.\<close>

lemma latest_is_oldest:
  "getLatestData ''/d'' (DirNode [(''d'', DirNode [(''data.2014_05_02'', FileNode ''new''), (''data.2014_05_01'', FileNode ''old'')])])
     = ''/d/data.2014_05_01''"
  by code_simp

text \<open>Two dots in an address leave the archive.\<close>

lemma dotdot_leaves_archive:
  "map_option (\<lambda>(r, m', es, A'). file_at [''etc'', ''data''] (arch_fs A'))
     (putLog [] (m_add (m_add (m_new ''x'' ''y'') ''url'' ''/event/door/../../../etc'') ''body'' ''evil'') example_archive)
   = Some (Some (''evil'' @ newline))"
  by code_simp

text \<open>A root without subdirectories ends the process at the first request that names it.\<close>

lemma empty_root_crashes:
  "sm_find (accessInfo A) r = Some d \<Longrightarrow> visibility d = [] \<Longrightarrow> checkPermission (r # s # cs) md A = None"
  by (simp add: checkPermission_def fullAccess_def)

end
