(* ===== verification/Archive_Purge.thy ===== *)
theory Archive_Purge
  imports Archive_Store
begin

text \<open>
  The end of the day in the archive (\<^verbatim>\<open>ArchiveManager::purge\<close>): what the exploration of
  the tree finds, what becomes of each file it finds, and the one result for the whole archive.
\<close>

subsection \<open>The files that an exploration finds\<close>

fun tree_wf :: "fsnode \<Rightarrow> bool" where
  "tree_wf (FileNode x) = True"
| "tree_wf (DirNode es) = (distinct (map fst es) \<and> (\<forall>(n, c) \<in> set es. plain_name n \<and> tree_wf c))"

lemma find_entry: "distinct (map fst es) \<Longrightarrow> (n, c) \<in> set es \<Longrightarrow> sm_find es n = Some c"
  by (induction es) (auto simp: image_iff)

definition leaf_file :: "string list \<Rightarrow> string \<Rightarrow> fsnode \<Rightarrow> bool" where
  "leaf_file cs n t \<longleftrightarrow> plain_names (cs @ [n]) \<and> file_at (cs @ [n]) t \<noteq> None
     \<and> (\<forall>k. k \<noteq> '''' \<longrightarrow> hd k \<noteq> CHR ''.'' \<longrightarrow> \<not> dir_at (cs @ [k]) t)"

lemma explore_leaf:
  "tree_wf t \<Longrightarrow> f \<in> set (explore_node True src t) \<Longrightarrow> \<exists>cs n. f = src @ slashed (cs @ [n]) \<and> leaf_file cs n t"
proof (induction t arbitrary: src)
  case (FileNode x)
  then show ?case by simp
next
  case (DirNode es)
  show ?case
  proof (cases "filter shown_dir es = []")
    case True
    then obtain n c where e: "(n, c) \<in> set es" "shown_file (n, c)" "f = src @ ''/'' @ n" using DirNode.prems(2) by auto
    have d: "distinct (map fst es)" "plain_name n" using DirNode.prems(1) e by auto
    obtain x where "c = FileNode x" using e(2) by (cases c) (auto simp: shown_file_def)
    then have "sm_find es n = Some (FileNode x)" using find_entry [OF d(1) e(1)] by simp
    moreover have "\<not> dir_at [k] (DirNode es)" if k: "k \<noteq> ''''" "hd k \<noteq> CHR ''.''" for k
    proof
      assume "dir_at [k] (DirNode es)"
      then obtain c' where "sm_find es k = Some c'" "dir_at [] c'" by (auto split: option.splits)
      then have "(k, c') \<in> set es" "shown_dir (k, c')" using k by (auto simp: shown_dir_def dest: sm_find_in_set)
      with True show False by (auto simp: filter_empty_conv)
    qed
    ultimately have "leaf_file [] n (DirNode es)" using d by (simp add: leaf_file_def)
    with e show ?thesis by (intro exI [of _ "[]"] exI [of _ n]) simp
  next
    case False
    then obtain n c where e: "(n, c) \<in> set es" "f \<in> set (explore_node True (src @ ''/'' @ n) c)"
      using DirNode.prems(2) by (auto split: if_splits)
    have d: "distinct (map fst es)" "plain_name n" "tree_wf c" using DirNode.prems(1) e by auto
    obtain cs k where k: "f = (src @ ''/'' @ n) @ slashed (cs @ [k])" "leaf_file cs k c"
      using DirNode.IH [OF e(1) _ d(3) e(2)] by (auto simp: snds.simps)
    have "leaf_file (n # cs) k (DirNode es)"
      using k(2) d find_entry [OF d(1) e(1)] by (simp add: leaf_file_def)
    with k(1) show ?thesis by (intro exI [of _ "n # cs"] exI [of _ k]) simp
  qed
qed

subsection \<open>What becomes of a file\<close>

definition instance_name :: "string \<Rightarrow> bool" where
  "instance_name n \<longleftrightarrow> n = ''data'' \<or> name_prefix n = ''data''"

datatype fate = Keep | Rename | Expire

text \<open>The fate of the file \<open>n\<close> in a root whose instances are kept for \<open>w\<close> days, \<open>age\<close> days old.\<close>

definition fate_of :: "int \<Rightarrow> string \<Rightarrow> int \<Rightarrow> fate" where
  "fate_of w n age =
     (if w < 0 \<or> \<not> instance_name n then Keep
      else if \<not> isDate (getExt n) (CHR ''_'') then Rename
      else if age > w then Expire else Keep)"

definition age_of :: "calendar \<Rightarrow> string \<Rightarrow> string \<Rightarrow> int" where
  "age_of daynum datestr n = the (getDateDifference daynum datestr (getExt n) (CHR ''_''))"

lemma getTail_below: "CHR ''/'' \<notin> set n \<Longrightarrow> getTail (p @ CHR ''/'' # n) = n"
  by (simp add: getTail_def find_last_append)

lemma getExt_below: "plain_name n \<Longrightarrow> getExt (p @ CHR ''/'' # n) = getExt n"
proof -
  assume n: "plain_name n"
  then have "getTail n = n" by (simp add: getTail_def find_last_def plain_name_def)
  with n show ?thesis by (simp add: getExt_def tail_or_path_def getTail_below plain_name_def)
qed

lemma parent_below: "CHR ''/'' \<notin> set n \<Longrightarrow> getParentDirectory (p @ CHR ''/'' # n) = p"
  by (simp add: getParentDirectory_def find_last_append)

lemma str_find_self: "str_find p (p @ s) = Some 0"
  by (cases "p @ s") (auto simp: prefix_def dest: sym)

lemma relative_path:
  assumes "\<not> str_contains (archiveHome A) ''//''" "cs \<noteq> []" "plain_names cs"
  shows "getRelativePath (archiveHome A @ slashed cs) A = (tl (slashed cs), A)"
    and "fst (nl_init [] (tl (slashed cs)) (CHR ''/'')) = cs"
proof -
  have "strReplace (archiveHome A) ''//'' ''/'' = (archiveHome A, False)"
    using assms(1) by (simp add: strReplace_def split: option.split)
  then show "getRelativePath (archiveHome A @ slashed cs) A = (tl (slashed cs), A)"
    using assms(2) by (cases cs) (simp_all add: getRelativePath_def str_find_self char_at_def Let_def)
  have "split_names (CHR ''/'') (slashed cs) = '''' # cs" using assms by (simp add: split_slashed)
  moreover have "slashed cs = CHR ''/'' # tl (slashed cs)" "tl (slashed cs) \<noteq> ''''"
    using assms(2,3) by (cases cs; simp add: plain_name_def)+
  ultimately show "fst (nl_init [] (tl (slashed cs)) (CHR ''/'')) = cs"
    using split_names_step [of "CHR ''/''" "''''" "tl (slashed cs)"] by (simp add: nl_init_def Let_def)
qed

subsection \<open>Media files\<close>

definition media_ok :: "(string \<Rightarrow> xnode list) \<Rightarrow> bool" where
  "media_ok parse \<longleftrightarrow> (\<forall>l. parse l \<noteq> [] \<and> (\<forall>d. second_node (parse l) = Some (Some d) \<longrightarrow>
     (let n = getTail (getAttrbyName (ToElement (Some d)) ''url'') in n \<noteq> '''' \<and> \<not> instance_name n)))"

lemma getTail_append: "getTail (p @ CHR ''/'' # u) = getTail u"
proof (cases "CHR ''/'' \<in> set u")
  case True
  then obtain a b where "u = a @ CHR ''/'' # b" "CHR ''/'' \<notin> set b" by (auto dest: split_list_last)
  then show ?thesis using getTail_below [of b a] getTail_below [of b "p @ CHR ''/'' # a"] by simp
next
  case False
  then show ?thesis by (simp add: getTail_below) (simp add: getTail_def find_last_def)
qed

lemma parent_nonempty: "p \<noteq> '''' \<Longrightarrow> getParentDirectory (p @ CHR ''/'' # u) \<noteq> ''''"
proof (cases "CHR ''/'' \<in> set u")
  case True
  then obtain a b where "u = a @ CHR ''/'' # b" "CHR ''/'' \<notin> set b" by (auto dest: split_list_last)
  then show ?thesis using parent_below [of b "p @ CHR ''/'' # a"] by simp
qed (simp add: parent_below)

lemma getTail_no_slash: "CHR ''/'' \<notin> set (getTail u)"
proof (cases "CHR ''/'' \<in> set u")
  case True
  then obtain a b where "u = a @ CHR ''/'' # b" "CHR ''/'' \<notin> set b" by (auto dest: split_list_last)
  then show ?thesis using getTail_below [of b a] by simp
next
  case False
  then show ?thesis by (simp add: getTail_def find_last_def)
qed

lemma deleted_name:
  assumes "n \<noteq> ''''" "CHR ''/'' \<notin> set n" "ft_deleteFile p n t = (r, t')" "p \<noteq> ''''"
  shows "dir_at q t' = dir_at q t" "q \<noteq> [] \<Longrightarrow> last q \<noteq> n \<Longrightarrow> file_at q t' = file_at q t"
proof -
  note e = deleteFile_effect [OF assms(3) refl]
  show "dir_at q t' = dir_at q t" by (rule e)
  assume q: "q \<noteq> []" "last q \<noteq> n"
  have "file_at q t = None" if c: "canon (p @ CHR ''/'' # n) t = Some q"
  proof -
    obtain s where s: "resolve t s (path_parts n) = Some q" using c canon_below [of p n t] assms by (cases "canon p t") auto
    have "path_parts n = [n]" using assms by (auto simp: path_parts_def split_names_no_delim dest: last_in_set)
    with s q have "dir_at q t" by (auto split: if_splits intro: dir_at_butlast)
    then show ?thesis using file_not_dir by fastforce
  qed
  with e(2) [of q] assms(1) show "file_at q t' = file_at q t" by auto
qed

lemma second_node_cases: "doc \<noteq> [] \<Longrightarrow> second_node doc = Some None \<or> (\<exists>d. second_node doc = Some (Some d))"
  by (cases doc; cases "tl doc") (auto simp: second_node_def)

lemma clear_lines_effect:
  assumes "media_ok parse" "home \<noteq> ''''"
  shows "\<exists>t'. clear_lines parse home ls t = Some t' \<and> (\<forall>q. dir_at q t' = dir_at q t)
     \<and> (\<forall>q. q \<noteq> [] \<longrightarrow> instance_name (last q) \<longrightarrow> file_at q t' = file_at q t)"
proof (induction ls arbitrary: t)
  case (Cons l ls)
  let ?doc = "parse (xml_header @ l)"
  have "?doc \<noteq> []" using assms(1) by (simp add: media_ok_def)
  then consider "second_node ?doc = Some None" | d where "second_node ?doc = Some (Some d)"
    using second_node_cases by blast
  then show ?case
  proof cases
    case 1
    with Cons show ?thesis by simp
  next
    case (2 d)
    let ?u = "home @ ''/'' @ getAttrbyName (ToElement (Some d)) ''url''"
    obtain r t1 where t1: "ft_deleteFile (getParentDirectory ?u) (getTail ?u) t = (r, t1)" by fastforce
    have n: "getTail ?u \<noteq> ''''" "\<not> instance_name (getTail ?u)"
      using assms(1) 2 unfolding media_ok_def by (simp_all add: getTail_append Let_def)
    have "getParentDirectory ?u \<noteq> ''''"
      using parent_nonempty [OF assms(2)] by simp
    note e = deleted_name [OF n(1) getTail_no_slash t1 this]
    have e2: "file_at q t1 = file_at q t" if "q \<noteq> []" "instance_name (last q)" for q
      using e(2) [of q] n(2) that by (cases "last q = getTail ?u") auto
    obtain t' where "clear_lines parse home ls t1 = Some t'" "\<forall>q. dir_at q t' = dir_at q t1"
      "\<forall>q. q \<noteq> [] \<longrightarrow> instance_name (last q) \<longrightarrow> file_at q t' = file_at q t1" using Cons by blast
    with e(1) e2 2 t1 show ?thesis by (auto simp: Let_def)
  qed
qed simp

lemma arch_clear_effect:
  assumes "media_ok parse" "home \<noteq> ''''" "open_in f t \<noteq> DirStream"
  shows "\<exists>t'. arch_clear parse home f t = Some t' \<and> (\<forall>q. dir_at q t' = dir_at q t)
     \<and> (\<forall>q. q \<noteq> [] \<longrightarrow> instance_name (last q) \<longrightarrow> file_at q t' = file_at q t)"
proof (cases "open_in f t")
  case (TextStream x)
  then show ?thesis using clear_lines_effect [OF assms(1,2), of "eof_lines x" t] by (simp add: arch_clear_def)
qed (use assms(3) in \<open>simp_all add: arch_clear_def\<close>)

subsection \<open>One file\<close>

text \<open>A file \<open>n\<close> in a directory \<open>cs\<close> of the archive, as the exploration found it. The directories
  of the archive do not change during the purge.\<close>

definition purge_ready :: "archive \<Rightarrow> fspath \<Rightarrow> bool" where
  "purge_ready A h \<longleftrightarrow> archiveHome A \<noteq> '''' \<and> \<not> str_contains (archiveHome A) ''//''
     \<and> canon (archiveHome A) (arch_fs A) = Some h \<and> dir_at h (arch_fs A)"

definition found :: "archive \<Rightarrow> fspath \<Rightarrow> string list \<Rightarrow> string \<Rightarrow> bool" where
  "found A h cs n \<longleftrightarrow> plain_names (cs @ [n]) \<and> dir_at (h @ cs) (arch_fs A) \<and> \<not> dir_at (h @ cs @ [n]) (arch_fs A)
     \<and> (\<forall>k. k \<noteq> '''' \<longrightarrow> hd k \<noteq> CHR ''.'' \<longrightarrow> \<not> dir_at (h @ cs @ [k]) (arch_fs A))"

definition day_name :: "string \<Rightarrow> string \<Rightarrow> string" where
  "day_name n datestr = n @ ''.'' @ datestr"

fun fate_file :: "fate \<Rightarrow> fspath \<Rightarrow> string \<Rightarrow> string \<Rightarrow> (fspath \<Rightarrow> string option) \<Rightarrow> fspath \<Rightarrow> string option" where
  "fate_file Keep d n datestr f q = f q"
| "fate_file Rename d n datestr f q =
     (case f (d @ [n]) of
        None \<Rightarrow> f q
      | Some x \<Rightarrow> if q = d @ [day_name n datestr] then Some x else if q = d @ [n] then None else f q)"
| "fate_file Expire d n datestr f q = (if q = d @ [n] then None else f q)"

lemma found_canon:
  assumes "purge_ready A h" "found A h cs n" "plain_name k"
  shows "canon (archiveHome A @ slashed (cs @ [k])) (arch_fs A) = Some (h @ cs @ [k])"
  using assms canon_slashed [of "archiveHome A" "arch_fs A" h "cs @ [k]"]
  by (simp add: purge_ready_def found_def)

lemma instance_hd: "instance_name n \<Longrightarrow> n \<noteq> '''' \<and> hd n \<noteq> CHR ''.''"
proof -
  assume "instance_name n"
  then have "n = ''data'' \<or> (\<exists>i. take i n = ''data'')"
    by (auto simp: instance_name_def name_prefix_def split: option.splits)
  then show ?thesis by (cases n) (auto simp: take_Cons' split: if_splits)
qed

lemma day_name_plain:
  assumes "plain_name n" "CHR ''/'' \<notin> set datestr"
  shows "plain_name (day_name n datestr)"
proof -
  obtain c m where "n = c # m" using assms(1) by (cases n) (auto simp: plain_name_def)
  with assms show ?thesis by (cases m) (auto simp: plain_name_def day_name_def)
qed

lemma day_name_instance:
  assumes "instance_name n"
  shows "instance_name (day_name n datestr)"
proof (cases "str_find ''.'' n")
  case None
  then have n: "n = ''data''" using assms by (auto simp: instance_name_def name_prefix_def)
  show ?thesis unfolding n by (simp add: instance_name_def name_prefix_def day_name_def)
next
  case (Some i)
  have "str_find ''.'' (n @ s) = Some i" for s using Some
  proof (induction n arbitrary: i)
    case (Cons c n)
    then show ?case by (auto simp: prefix_def split: if_splits)
  qed (simp split: if_splits)
  moreover have "i \<le> length n" using str_find_Some [OF Some] by simp
  moreover have "take i n = ''data''" using assms Some by (auto simp: instance_name_def name_prefix_def)
  ultimately show ?thesis by (simp add: instance_name_def name_prefix_def day_name_def)
qed

lemma purge_file_step:
  assumes r: "purge_ready A h" "found A h cs n" "media_ok parse" "CHR ''/'' \<notin> set datestr"
    and date: "isDate (getExt n) (CHR ''_'') \<Longrightarrow> getDateDifference daynum datestr (getExt n) (CHR ''_'') \<noteq> None"
    and w: "w = getWindow (hd (cs @ [n])) A"
  shows "\<exists>fs. purge_file daynum parse datestr (archiveHome A @ slashed (cs @ [n])) A = Some (A\<lparr>arch_fs := fs\<rparr>)
     \<and> (\<forall>q. dir_at q fs = dir_at q (arch_fs A))
     \<and> (\<forall>q. q \<noteq> [] \<longrightarrow> instance_name (last q) \<longrightarrow>
          file_at q fs = fate_file (fate_of w n (age_of daynum datestr n)) (h @ cs) n datestr (\<lambda>p. file_at p (arch_fs A)) q)"
proof -
  let ?f = "archiveHome A @ slashed (cs @ [n])" and ?t = "arch_fs A"
  have n: "plain_name n" "CHR ''/'' \<notin> set n" "plain_names (cs @ [n])" "archiveHome A \<noteq> ''''"
    using r by (auto simp: found_def plain_name_def purge_ready_def)
  have f: "?f = (archiveHome A @ slashed cs) @ CHR ''/'' # n" by simp
  have c: "canon ?f ?t = Some (h @ cs @ [n])" using r n by (intro found_canon) auto
  have rel: "getRelativePath ?f A = (tl (slashed (cs @ [n])), A)"
    "fst (nl_init [] (tl (slashed (cs @ [n]))) (CHR ''/'')) = cs @ [n]"
    using relative_path [of A "cs @ [n]"] r n by (auto simp: purge_ready_def simp del: slashed_simps)
  have nm: "getExt ?f = getExt n" "getTail ?f = n" "getParentDirectory ?f = archiveHome A @ slashed cs"
    using getExt_below [OF n(1)] getTail_below [OF n(2)] parent_below [OF n(2)] by (simp_all only: f)
  note step = purge_file_def [of daynum parse datestr ?f A, unfolded rel nm Let_def split w [symmetric]]
  show ?thesis
  proof (cases "fate_of w n (age_of daynum datestr n)")
    case Keep
    then have "purge_file daynum parse datestr ?f A = Some A"
      using date unfolding step
      by (auto simp: rel w [symmetric] fate_of_def instance_name_def age_of_def split: if_splits option.splits)
    then show ?thesis using Keep by (intro exI [of _ ?t]) simp
  next
    case Rename
    then have k: "w \<ge> 0" "instance_name n" "\<not> isDate (getExt n) (CHR ''_'')" by (auto simp: fate_of_def split: if_splits)
    let ?g = "?f @ ''.'' @ datestr"
    obtain b fs where fs: "ft_moveFile ?f ?g '''' ?t = (b, fs)" by fastforce
    have p: "purge_file daynum parse datestr ?f A = Some (A\<lparr>arch_fs := fs\<rparr>)"
      using k fs unfolding step by (auto simp: rel w [symmetric] instance_name_def)
    have g: "?g = archiveHome A @ slashed (cs @ [day_name n datestr])" by (simp add: day_name_def)
    have cg: "canon ?g ?t = Some (h @ cs @ [day_name n datestr])"
      unfolding g using r n day_name_plain by (intro found_canon) auto
    have wr: "ft_write ?g '''' ?t \<noteq> None"
      using cg r(2) instance_hd [OF day_name_instance [OF k(2)]] by (simp add: ft_write_def found_def)
    show ?thesis
    proof (cases "file_at (h @ cs @ [n]) ?t")
      case None
      then have "fs = ?t" using fs c by (simp add: ft_moveFile_def ft_read_def)
      then show ?thesis using p Rename None by (intro exI [of _ ?t]) simp
    next
      case (Some x)
      then have "ft_read ?f ?t = Some x" using c by (simp add: ft_read_def)
      note e = moveFile_effect [OF this wr fs]
      show ?thesis using p e(2,3) Rename Some c cg by (intro exI [of _ fs]) auto
    qed
  next
    case Expire
    then have k: "w \<ge> 0" "instance_name n" "isDate (getExt n) (CHR ''_'')" "age_of daynum datestr n > w"
      by (auto simp: fate_of_def split: if_splits)
    have "open_in ?f ?t \<noteq> DirStream"
      using c r(2) by (auto simp: open_in_def found_def dir_at_def split: option.splits fsnode.splits)
    then obtain t1 where t1: "arch_clear parse (archiveHome A) ?f ?t = Some t1" "\<forall>q. dir_at q t1 = dir_at q ?t"
      "\<forall>q. q \<noteq> [] \<longrightarrow> instance_name (last q) \<longrightarrow> file_at q t1 = file_at q ?t"
      using arch_clear_effect [OF r(3) n(4)] by blast
    obtain b fs where fs: "ft_deleteFile (archiveHome A @ slashed cs) n t1 = (b, fs)" by fastforce
    have "purge_file daynum parse datestr ?f A = Some (A\<lparr>arch_fs := fs\<rparr>)"
      using k t1(1) fs date unfolding step by (auto simp: rel w [symmetric] instance_name_def age_of_def)
    moreover have "canon ?f t1 = Some (h @ cs @ [n])" using c canon_same_dirs [of t1 ?t] t1(2) by simp
    ultimately show ?thesis using deleteFile_effect [OF fs refl] n(1) t1 Expire
      by (intro exI [of _ fs]) (auto simp: plain_name_def)
  qed
qed

subsection \<open>All files\<close>

definition file_fate :: "calendar \<Rightarrow> string \<Rightarrow> archive \<Rightarrow> string list \<Rightarrow> string \<Rightarrow> fate" where
  "file_fate daynum datestr A cs n = fate_of (getWindow (hd (cs @ [n])) A) n (age_of daynum datestr n)"

lemma file_fate_fs [simp]: "file_fate daynum datestr (A\<lparr>arch_fs := fs\<rparr>) cs n = file_fate daynum datestr A cs n"
  by (simp add: file_fate_def getWindow_def)

type_synonym view = "fspath \<Rightarrow> string option"

fun purge_view :: "(string list \<Rightarrow> string \<Rightarrow> fate) \<Rightarrow> fspath \<Rightarrow> string \<Rightarrow> (string list \<times> string) list \<Rightarrow> view \<Rightarrow> view" where
  "purge_view F h d [] f = f"
| "purge_view F h d ((cs, n) # l) f = purge_view F h d l (fate_file (F cs n) (h @ cs) n d f)"

definition view_eq :: "view \<Rightarrow> view \<Rightarrow> bool" where
  "view_eq f g \<longleftrightarrow> (\<forall>q. q \<noteq> [] \<longrightarrow> instance_name (last q) \<longrightarrow> f q = g q)"

lemma fate_instance: "file_fate daynum datestr A cs n \<noteq> Keep \<Longrightarrow> instance_name n"
  by (auto simp: file_fate_def fate_of_def split: if_splits)

lemma fate_file_view_eq:
  "view_eq f g \<Longrightarrow> F \<noteq> Keep \<longrightarrow> instance_name n \<Longrightarrow> view_eq (fate_file F d n datestr f) (fate_file F d n datestr g)"
  by (cases F) (auto simp: view_eq_def split: option.splits)

lemma purge_view_eq:
  "view_eq f g \<Longrightarrow> view_eq (purge_view (file_fate daynum datestr A) h d l f) (purge_view (file_fate daynum datestr A) h d l g)"
proof (induction l arbitrary: f g)
  case (Cons e l)
  obtain cs n where e: "e = (cs, n)" by fastforce
  have "view_eq (fate_file (file_fate daynum datestr A cs n) (h @ cs) n d f) (fate_file (file_fate daynum datestr A cs n) (h @ cs) n d g)"
    using Cons.prems fate_instance by (blast intro: fate_file_view_eq)
  with Cons.IH show ?case by (simp add: e)
qed simp

lemma purge_files_view:
  assumes "purge_ready A h" "media_ok parse" "CHR ''/'' \<notin> set datestr"
    and "\<forall>(cs, n) \<in> set l. found A h cs n
      \<and> (isDate (getExt n) (CHR ''_'') \<longrightarrow> getDateDifference daynum datestr (getExt n) (CHR ''_'') \<noteq> None)"
  shows "\<exists>fs. purge_files daynum parse datestr (map (\<lambda>(cs, n). archiveHome A @ slashed (cs @ [n])) l) A = Some (A\<lparr>arch_fs := fs\<rparr>)
     \<and> view_eq (\<lambda>q. file_at q fs) (purge_view (file_fate daynum datestr A) h datestr l (\<lambda>q. file_at q (arch_fs A)))"
  using assms
proof (induction l arbitrary: A)
  case Nil
  then show ?case by (intro exI [of _ "arch_fs A"]) (simp add: view_eq_def)
next
  case (Cons e l)
  obtain cs n where e: "e = (cs, n)" by fastforce
  let ?F = "file_fate daynum datestr A"
  obtain fs1 where fs1: "purge_file daynum parse datestr (archiveHome A @ slashed (cs @ [n])) A = Some (A\<lparr>arch_fs := fs1\<rparr>)"
    "\<And>q. dir_at q fs1 = dir_at q (arch_fs A)"
    "view_eq (\<lambda>q. file_at q fs1) (fate_file (?F cs n) (h @ cs) n datestr (\<lambda>p. file_at p (arch_fs A)))"
    using purge_file_step [OF Cons.prems(1) _ Cons.prems(2,3) _ refl, of cs n daynum] Cons.prems(4)
    by (auto simp: e view_eq_def file_fate_def)
  let ?A1 = "A\<lparr>arch_fs := fs1\<rparr>"
  have "purge_ready ?A1 h" using Cons.prems(1) fs1(2) canon_same_dirs [of fs1 "arch_fs A"] by (simp add: purge_ready_def)
  moreover have "found ?A1 h cs n = found A h cs n" for cs n by (simp add: found_def fs1(2))
  ultimately obtain fs where fs: "purge_files daynum parse datestr (map (\<lambda>(cs, n). archiveHome A @ slashed (cs @ [n])) l) ?A1 = Some (A\<lparr>arch_fs := fs\<rparr>)"
    "view_eq (\<lambda>q. file_at q fs) (purge_view ?F h datestr l (\<lambda>q. file_at q fs1))"
    using Cons.IH [of ?A1] Cons.prems(2-4) by (auto simp del: slashed_simps)
  with purge_view_eq [OF fs1(3), of daynum datestr A h datestr l] fs1(1) show ?case
    by (intro exI [of _ fs]) (auto simp: e view_eq_def simp del: slashed_simps)
qed

subsection \<open>Following one file through the purge\<close>

definition same_day :: "calendar \<Rightarrow> string \<Rightarrow> bool" where
  "same_day daynum datestr \<longleftrightarrow> CHR ''/'' \<notin> set datestr \<and> CHR ''.'' \<notin> set datestr \<and> isDate datestr (CHR ''_'')
     \<and> getDateDifference daynum datestr datestr (CHR ''_'') \<noteq> None"

lemma getExt_day_name:
  assumes "plain_name n" "same_day daynum datestr"
  shows "getExt (day_name n datestr) = datestr"
proof -
  have p: "CHR ''/'' \<notin> set (day_name n datestr)" using assms by (auto simp: plain_name_def same_day_def day_name_def)
  then have "tail_or_path (day_name n datestr) = day_name n datestr"
    by (simp add: tail_or_path_def getTail_def find_last_def)
  moreover have "find_last (CHR ''.'') (day_name n datestr) = Some (length n)"
    unfolding day_name_def using find_last_append [of "CHR ''.''" datestr n] assms(2) by (simp add: same_day_def)
  ultimately show ?thesis by (simp add: getExt_def day_name_def)
qed

text \<open>An instance of the day that is being closed is kept.\<close>

lemma day_name_fate:
  assumes "plain_name n" "same_day daynum datestr"
  shows "file_fate daynum datestr A cs (day_name n datestr) = Keep"
proof -
  have "getDateDifference daynum datestr datestr (CHR ''_'') = Some 0"
    using assms(2) by (auto simp: same_day_def getDateDifference_def split: option.splits)
  moreover have "isDate datestr (CHR ''_'')" using assms(2) by (simp add: same_day_def)
  ultimately show ?thesis by (simp add: file_fate_def fate_of_def age_of_def getExt_day_name [OF assms])
qed

lemma day_name_eq [simp]: "day_name k d = day_name n d \<longleftrightarrow> k = n" "day_name n d \<noteq> n" "n \<noteq> day_name n d"
  by (auto simp: day_name_def)

text \<open>\<open>F\<close> gives the fates of the files in \<open>l\<close>; \<open>(cs, n)\<close> is not the place a file is moved to.\<close>

definition no_target :: "(string list \<Rightarrow> string \<Rightarrow> fate) \<Rightarrow> string \<Rightarrow> (string list \<times> string) list \<Rightarrow> string list \<Rightarrow> string \<Rightarrow> bool" where
  "no_target F d l cs n \<longleftrightarrow> (\<forall>k. (cs, k) \<in> set l \<longrightarrow> F cs k = Rename \<longrightarrow> n \<noteq> day_name k d)"

lemma no_target_Cons: "no_target F d (e # l) cs n \<Longrightarrow> no_target F d l cs n"
  by (simp add: no_target_def)

lemma view_none:
  "f (h @ cs @ [n]) = None \<Longrightarrow> no_target F d l cs n \<Longrightarrow> purge_view F h d l f (h @ cs @ [n]) = None"
proof (induction l arbitrary: f)
  case (Cons e l)
  obtain cs' n' where e: "e = (cs', n')" by fastforce
  have "fate_file (F cs' n') (h @ cs') n' d f (h @ cs @ [n]) = None"
    using Cons.prems by (cases "F cs' n'") (auto simp: e no_target_def split: option.split)
  with Cons.IH [OF _ no_target_Cons [OF Cons.prems(2)]] show ?case by (simp add: e)
qed simp

lemma view_kept:
  "no_target F d l cs n \<Longrightarrow> (cs, n) \<in> set l \<longrightarrow> F cs n = Keep \<Longrightarrow> purge_view F h d l f (h @ cs @ [n]) = f (h @ cs @ [n])"
proof (induction l arbitrary: f)
  case (Cons e l)
  obtain cs' n' where e: "e = (cs', n')" by fastforce
  have "fate_file (F cs' n') (h @ cs') n' d f (h @ cs @ [n]) = f (h @ cs @ [n])"
    using Cons.prems by (cases "F cs' n'") (auto simp: e no_target_def split: option.split)
  with Cons.IH [OF no_target_Cons [OF Cons.prems(1)]] Cons.prems(2) show ?case by (simp add: e)
qed simp

lemma view_gone:
  "no_target F d l cs n \<Longrightarrow> (cs, n) \<in> set l \<Longrightarrow> F cs n \<noteq> Keep \<Longrightarrow> purge_view F h d l f (h @ cs @ [n]) = None"
proof (induction l arbitrary: f)
  case (Cons e l)
  obtain cs' n' where e: "e = (cs', n')" by fastforce
  show ?case
  proof (cases "(cs', n') = (cs, n)")
    case True
    then have "fate_file (F cs' n') (h @ cs') n' d f (h @ cs @ [n]) = None"
      using Cons.prems by (cases "F cs n") (auto simp: e no_target_def split: option.split)
    then show ?thesis using view_none [OF _ no_target_Cons [OF Cons.prems(1)]] by (simp add: e)
  next
    case False
    with Cons.prems have "(cs, n) \<in> set l" by (auto simp: e)
    with Cons.IH [OF no_target_Cons [OF Cons.prems(1)] _ Cons.prems(3)] show ?thesis by (simp add: e)
  qed
qed simp

lemma view_target:
  assumes "f (h @ cs @ [day_name n d]) = Some x" "f (h @ cs @ [n]) = None"
    and "no_target F d l cs n" "(cs, day_name n d) \<in> set l \<longrightarrow> F cs (day_name n d) = Keep"
  shows "purge_view F h d l f (h @ cs @ [day_name n d]) = Some x"
  using assms
proof (induction l arbitrary: f)
  case (Cons e l)
  obtain cs' n' where e: "e = (cs', n')" by fastforce
  let ?g = "fate_file (F cs' n') (h @ cs') n' d f"
  have "?g (h @ cs @ [n]) = None"
    using Cons.prems(2,3) by (cases "F cs' n'") (auto simp: e no_target_def split: option.split)
  moreover have "?g (h @ cs @ [day_name n d]) = Some x"
    using Cons.prems(1,2,4) by (cases "F cs' n'") (auto simp: e split: option.split)
  ultimately have "?g (h @ cs @ [n]) = None" "?g (h @ cs @ [day_name n d]) = Some x" .
  then show ?case using Cons.IH [of ?g] Cons.prems(3,4) no_target_Cons [of F d e l cs n] by (simp add: e)
qed simp

lemma view_renamed:
  assumes "(cs, n) \<in> set l" "F cs n = Rename" "f (h @ cs @ [n]) = Some x"
    and "no_target F d l cs n" "(cs, day_name n d) \<in> set l \<longrightarrow> F cs (day_name n d) = Keep"
  shows "purge_view F h d l f (h @ cs @ [day_name n d]) = Some x"
  using assms
proof (induction l arbitrary: f)
  case (Cons e l)
  obtain cs' n' where e: "e = (cs', n')" by fastforce
  have l: "no_target F d l cs n" "(cs, day_name n d) \<in> set l \<longrightarrow> F cs (day_name n d) = Keep"
    using Cons.prems(4,5) no_target_Cons by auto
  let ?g = "fate_file (F cs' n') (h @ cs') n' d f"
  show ?case
  proof (cases "(cs', n') = (cs, n)")
    case True
    have "?g (h @ cs @ [n]) = None" "?g (h @ cs @ [day_name n d]) = Some x"
      using True Cons.prems(2,3) by auto
    from view_target [OF this(2,1) l] show ?thesis by (simp add: e)
  next
    case False
    have "?g (h @ cs @ [n]) = Some x"
      using False Cons.prems by (cases "F cs' n'") (auto simp: e no_target_def split: option.split)
    with Cons.IH [of ?g] Cons.prems(1,2) l False show ?thesis by (auto simp: e)
  qed
qed simp

subsection \<open>The end of the day\<close>

lemma slashed_inject:
  "plain_names (cs @ [n]) \<Longrightarrow> plain_names (ds @ [k]) \<Longrightarrow> slashed (cs @ [n]) = slashed (ds @ [k]) \<Longrightarrow> cs = ds \<and> n = k"
  using split_slashed [of "cs @ [n]"] split_slashed [of "ds @ [k]"] by simp

lemma file_at_below: "node_at h t = Some u \<Longrightarrow> file_at (h @ p) t = file_at p u \<and> dir_at (h @ p) t = dir_at p u"
  by (induction h t rule: node_at.induct) (auto split: option.splits)

lemma explored_files:
  assumes "purge_ready A h" "node_at h (arch_fs A) = Some t" "tree_wf t"
  obtains l where "exploreArchive (archiveHome A) True (arch_fs A) = map (\<lambda>(cs, n). archiveHome A @ slashed (cs @ [n])) l"
    "\<forall>(cs, n) \<in> set l. found A h cs n"
proof -
  let ?L = "exploreArchive (archiveHome A) True (arch_fs A)"
  have "?L = explore_node True (archiveHome A) t"
    using assms by (simp add: exploreArchive_def purge_ready_def)
  then have "\<forall>f \<in> set ?L. \<exists>e. f = archiveHome A @ slashed (fst e @ [snd e]) \<and> leaf_file (fst e) (snd e) t"
    using explore_leaf [OF assms(3)] by fastforce
  then obtain g where g: "\<And>f. f \<in> set ?L \<Longrightarrow> f = archiveHome A @ slashed (fst (g f) @ [snd (g f)]) \<and> leaf_file (fst (g f)) (snd (g f)) t"
    by metis
  have d: "found A h cs n" if "leaf_file cs n t" for cs n
  proof -
    from that obtain x where x: "file_at (cs @ [n]) t = Some x" by (auto simp: leaf_file_def)
    then have "dir_at cs t" "\<not> dir_at (cs @ [n]) t" using file_at_parent [OF x] file_not_dir [OF x] by auto
    with that show ?thesis using file_at_below [OF assms(2)] by (simp add: found_def leaf_file_def)
  qed
  have "?L = map (\<lambda>(cs, n). archiveHome A @ slashed (cs @ [n])) (map g ?L)"
    unfolding map_map by (rule map_idI [symmetric]) (use g in \<open>simp add: case_prod_beta del: slashed_simps\<close>)
  moreover have "\<forall>(cs, n) \<in> set (map g ?L). found A h cs n" using g d by (auto simp: case_prod_beta)
  ultimately show thesis by (rule that)
qed

definition purged_to :: "calendar \<Rightarrow> string \<Rightarrow> archive \<Rightarrow> fspath \<Rightarrow> fsnode \<Rightarrow> string list \<Rightarrow> string \<Rightarrow> string \<Rightarrow> bool" where
  "purged_to daynum datestr A h fs' cs n x \<longleftrightarrow>
     (case (if archiveHome A @ slashed (cs @ [n]) \<in> set (exploreArchive (archiveHome A) True (arch_fs A))
            then file_fate daynum datestr A cs n else Keep) of
        Keep \<Rightarrow> file_at (h @ cs @ [n]) fs' = Some x
      | Expire \<Rightarrow> file_at (h @ cs @ [n]) fs' = None
      | Rename \<Rightarrow> file_at (h @ cs @ [n]) fs' = None \<and> file_at (h @ cs @ [day_name n datestr]) fs' = Some x)"

lemma purged_found:
  assumes "purged_to daynum datestr A h fs' cs n x"
    and "archiveHome A @ slashed (cs @ [n]) \<in> set (exploreArchive (archiveHome A) True (arch_fs A))"
  shows "case file_fate daynum datestr A cs n of
        Keep \<Rightarrow> file_at (h @ cs @ [n]) fs' = Some x
      | Expire \<Rightarrow> file_at (h @ cs @ [n]) fs' = None
      | Rename \<Rightarrow> file_at (h @ cs @ [n]) fs' = None \<and> file_at (h @ cs @ [day_name n datestr]) fs' = Some x"
  using assms by (simp add: purged_to_def del: slashed_simps)


subsection \<open>An example\<close>

definition example_instances :: fsnode where
  "example_instances = DirNode [(''data'', FileNode ''today''), (''data.2014_05_01'', FileNode ''old''),
     (''data.2014_05_28'', FileNode ''recent'')]"

definition example_store :: archive where
  "example_store = example_archive\<lparr>arch_fs := DirNode [(''home'', DirNode [(''event'', DirNode [(''door'', example_instances)])])]\<rparr>"

definition example_days :: calendar where
  "example_days y m d = Some (365 * y + 31 * m + d)"

definition example_lines :: "string \<Rightarrow> xnode list" where
  "example_lines l = [XDeclaration]"


end
