(* ===== verification/Archive_Reports.thy ===== *)
theory Archive_Reports
  imports Archive_Store
begin

text \<open>
  The queries of \<^verbatim>\<open>src/agents/minilibs/ArchiveManager.cpp\<close> over the instances of the
  archive: records within a window of time (\<open>getSubSet\<close>, \<open>getSubLog\<close>), the energy that a meter
  logged (\<open>getEnergyData\<close>) and its daily, monthly and annual reports (\<open>getPMLog\<close> with
  \<^verbatim>\<open>PMStat.h\<close>). The JSON reader of \<^verbatim>\<open>boost::property_tree\<close> is the parameter
  \<open>read_json\<close>, which has no value where it throws; a tree is the datum of a node with its named
  children in their order, as that library documents it. A number that cannot be read leaves the
  junk \<open>u\<close> of its variable.
\<close>

subsection \<open>Property trees\<close>

datatype ptree = PTree string "(string \<times> ptree) list"

type_synonym json_reader = "string \<Rightarrow> ptree option"

fun get_child :: "string \<Rightarrow> ptree \<Rightarrow> ptree option" where
  "get_child k (PTree x cs) = map_option snd (find (\<lambda>(n, c). n = k) cs)"

fun pt_data :: "ptree \<Rightarrow> string" where
  "pt_data (PTree x cs) = x"

fun pt_children :: "ptree \<Rightarrow> ptree list" where
  "pt_children (PTree x cs) = map snd cs"

definition pt_get :: "string \<Rightarrow> ptree \<Rightarrow> string option" where
  "pt_get k t = map_option pt_data (get_child k t)"

text \<open>\<^verbatim>\<open>substr\<close> throws when it starts after the end.\<close>

definition substr :: "nat \<Rightarrow> nat \<Rightarrow> string \<Rightarrow> string option" where
  "substr p n s = (if p \<le> length s then Some (take n (drop p s)) else None)"

subsection \<open>Windows of time\<close>

fun category_names :: "ptree list \<Rightarrow> string list option" where
  "category_names [] = Some []"
| "category_names (v # vs) =
     (case pt_get ''name'' v of
        None \<Rightarrow> None
      | Some cat \<Rightarrow> map_option (\<lambda>cs. if cat \<noteq> '''' then cat # cs else cs) (category_names vs))"

definition getCategoriesJson :: "json_reader \<Rightarrow> string \<Rightarrow> name_list \<Rightarrow> (bool \<times> name_list) option" where
  "getCategoriesJson read_json body category =
     (case read_json body of
        None \<Rightarrow> None
      | Some rpt \<Rightarrow>
          if \<not> str_contains body ''select'' then Some (False, category)
          else case get_child ''select'' rpt of
                 None \<Rightarrow> None
               | Some pt \<Rightarrow> map_option (\<lambda>cs. (True, category @ cs)) (category_names (pt_children pt)))"

definition range_tree :: "json_reader \<Rightarrow> string \<Rightarrow> ptree option" where
  "range_tree read_json body =
     (if str_contains body ''window'' then Option.bind (read_json body) (get_child ''window'') else read_json body)"

text \<open>A date \<^verbatim>\<open>ddmmyyyy\<close> and a time \<^verbatim>\<open>hh:mm\<close> as one stamp
  \<^verbatim>\<open>yyyymmddhhmm\<close>; the minutes are five characters when the text has them.\<close>

definition stamp_of :: "string \<Rightarrow> string \<Rightarrow> string option" where
  "stamp_of date time =
     (case (substr 0 2 date, substr 2 2 date, substr 4 4 date, substr 0 2 time, substr 3 5 time) of
        (Some d, Some m, Some y, Some h, Some mi) \<Rightarrow> Some (y @ m @ d @ h @ mi)
      | _ \<Rightarrow> None)"

definition getTimeRangeFromJson :: "json_reader \<Rightarrow> string \<Rightarrow> (bool \<times> string \<times> string) option" where
  "getTimeRangeFromJson read_json body =
     (case range_tree read_json body of
        None \<Rightarrow> None
      | Some pt \<Rightarrow>
          (case (pt_get ''start_date'' pt, pt_get ''start_time'' pt, pt_get ''end_date'' pt, pt_get ''end_time'' pt) of
             (Some sd, Some st, Some ed, Some et) \<Rightarrow>
               (case (stamp_of sd st, stamp_of ed et) of
                  (Some start, Some stop) \<Rightarrow> Some (True, start, stop)
                | _ \<Rightarrow> None)
           | _ \<Rightarrow> None))"

definition normalizeDateTime :: "string \<Rightarrow> string option" where
  "normalizeDateTime tt =
     (if tt = '''' \<or> length tt < 10 then Some tt
      else let t = (if take 2 tt = ''20'' then drop 2 tt else tt)
           in case (substr 0 2 t, substr 2 2 t, substr 4 2 t, substr 6 2 t, substr 8 2 t) of
                (Some y, Some m, Some d, Some h, Some mi) \<Rightarrow> Some (''20'' @ y @ m @ d @ h @ mi)
              | _ \<Rightarrow> None)"

definition evalDescriptor :: "string \<Rightarrow> string \<Rightarrow> string \<Rightarrow> bool option" where
  "evalDescriptor start stop desc =
     (case str_find ''.'' desc of
        None \<Rightarrow> Some True
      | Some pos \<Rightarrow>
          let date = fst (nl_init [] (drop (pos + 1) desc) (CHR ''_''))
          in if length date < 3 then None
             else let dday = date ! 0 @ date ! 1 @ date ! 2
                  in Some (take 8 start \<le> dday \<and> dday \<le> take 8 stop))"

subsection \<open>Records in a window\<close>

fun subset_lines :: "(string \<Rightarrow> xnode list) \<Rightarrow> string \<Rightarrow> string \<Rightarrow> string list \<Rightarrow> string option" where
  "subset_lines parse start stop [] = Some ''''"
| "subset_lines parse start stop (line # ls) =
     (case second_node (parse (xml_header @ line)) of
        None \<Rightarrow> None
      | Some None \<Rightarrow> subset_lines parse start stop ls
      | Some (Some desc) \<Rightarrow>
          (case normalizeDateTime (getAttrbyName (ToElement (Some desc)) ''time'') of
             None \<Rightarrow> None
           | Some timestamp \<Rightarrow>
               map_option (\<lambda>r. (if start \<le> timestamp \<and> timestamp \<le> stop then line else '''') @ r)
                 (subset_lines parse start stop ls)))"

text \<open>One instance of a camera: the file of the current day has no dot in its name, so its prefix
  is empty and it is passed over.\<close>

definition subset_file :: "(string \<Rightarrow> xnode list) \<Rightarrow> string \<Rightarrow> string \<Rightarrow> string \<Rightarrow> fsnode \<Rightarrow> string \<Rightarrow> string option" where
  "subset_file parse start stop camdir fs descr =
     (let tail = getTail descr
      in if name_prefix tail \<noteq> ''data'' then Some ''''
         else case (if tail \<noteq> ''data'' then evalDescriptor start stop descr else Some True) of
                None \<Rightarrow> None
              | Some False \<Rightarrow> Some ''''
              | Some True \<Rightarrow>
                  (case open_in (camdir @ ''/'' @ descr) fs of
                     NotOpen \<Rightarrow> Some ''''
                   | DirStream \<Rightarrow> None
                   | TextStream x \<Rightarrow> subset_lines parse start stop (eof_lines x)))"

fun collect_text :: "('a \<Rightarrow> string option) \<Rightarrow> 'a list \<Rightarrow> string option" where
  "collect_text f [] = Some ''''"
| "collect_text f (x # xs) =
     (case f x of None \<Rightarrow> None | Some s \<Rightarrow> map_option ((@) s) (collect_text f xs))"

definition getSubSet :: "json_reader \<Rightarrow> (string \<Rightarrow> xnode list) \<Rightarrow> mmessage \<Rightarrow> archive \<Rightarrow> string option" where
  "getSubSet read_json parse req A =
     (let rootPath = archiveHome A @ ''/archive/''; fs = arch_fs A
      in case getTimeRangeFromJson read_json (m_getString req ''body'') of
           None \<Rightarrow> None
         | Some (False, _, _) \<Rightarrow> Some ''Bad Request''
         | Some (True, start, stop) \<Rightarrow>
             collect_text (\<lambda>cam. let camdir = rootPath @ cam
                in collect_text (subset_file parse start stop camdir fs) (snd (fileList (ft_entries camdir fs))))
               (snd (dirList (ft_entries rootPath fs))))"

fun sublog_lines ::
  "json_reader \<Rightarrow> name_list \<Rightarrow> string \<Rightarrow> string \<Rightarrow> string list \<Rightarrow> bool \<Rightarrow> (bool \<times> string) option" where
  "sublog_lines read_json category start stop [] first = Some (first, '''')"
| "sublog_lines read_json category start stop (line # ls) first =
     (if length line < 10 then sublog_lines read_json category start stop ls first
      else case read_json line of
             None \<Rightarrow> None
           | Some pt \<Rightarrow>
               (case (Option.bind (pt_get ''time'' pt) normalizeDateTime, pt_get ''type'' pt) of
                  (Some timestamp, Some cat) \<Rightarrow>
                    if (timestamp = '''' \<or> (start < timestamp \<and> timestamp \<le> stop))
                       \<and> (length category = 0 \<or> nl_member category cat)
                    then map_option (\<lambda>(b, r). (b, (if first then line else '','' @ line) @ r))
                           (sublog_lines read_json category start stop ls False)
                    else sublog_lines read_json category start stop ls first
                | _ \<Rightarrow> None))"

fun sublog_files ::
  "json_reader \<Rightarrow> name_list \<Rightarrow> string \<Rightarrow> string \<Rightarrow> string \<Rightarrow> fsnode \<Rightarrow> string list \<Rightarrow> bool \<Rightarrow> string option" where
  "sublog_files read_json category start stop rootPath fs [] first = Some ''''"
| "sublog_files read_json category start stop rootPath fs (descr # ds) first =
     (let tail = getTail descr; next = sublog_files read_json category start stop rootPath fs ds
      in if getStem tail \<noteq> ''data'' then next first
         else case (if tail \<noteq> ''data'' then evalDescriptor start stop descr else Some True) of
                None \<Rightarrow> None
              | Some False \<Rightarrow> next first
              | Some True \<Rightarrow>
                  (case open_in (rootPath @ ''/'' @ descr) fs of
                     NotOpen \<Rightarrow> next first
                   | DirStream \<Rightarrow> None
                   | TextStream x \<Rightarrow>
                       (case sublog_lines read_json category start stop (eof_lines x) first of
                          None \<Rightarrow> None
                        | Some (first', s) \<Rightarrow> map_option ((@) s) (next first'))))"

definition getSubLog :: "json_reader \<Rightarrow> mmessage \<Rightarrow> archive \<Rightarrow> string option" where
  "getSubLog read_json req A =
     (let rootPath = archiveHome A @ m_getString req ''url''; body = m_getString req ''body''
      in case getTimeRangeFromJson read_json body of
           None \<Rightarrow> None
         | Some (False, _, _) \<Rightarrow> Some ''Bad Request''
         | Some (True, start, stop) \<Rightarrow>
             (case getCategoriesJson read_json body [] of
                None \<Rightarrow> None
              | Some (_, category) \<Rightarrow>
                  map_option (\<lambda>s. ''['' @ s @ '']'')
                    (sublog_files read_json category start stop rootPath (arch_fs A)
                       (snd (fileList (ft_entries rootPath (arch_fs A)))) True)))"

subsection \<open>Numbers on output streams\<close>

text \<open>The default format of a stream: six significant digits, trailing zeros dropped, an exponent
  below \<open>-4\<close> and from \<open>6\<close> on. \<^verbatim>\<open>float\<close> is taken as exact, like \<open>double\<close> elsewhere.\<close>

definition exp10 :: "double \<Rightarrow> int" where
  "exp10 x =
     (if x \<ge> 1 then int (length (nat2a (nat \<lfloor>x\<rfloor>))) - 1
      else case find (\<lambda>k. x * 10 ^ k \<ge> 1) [1..<Suc (Suc (length (nat2a (nat (snd (quotient_of x))))))] of
             Some k \<Rightarrow> - int k
           | None \<Rightarrow> 0)"

definition strip_zeros :: "string \<Rightarrow> string" where
  "strip_zeros s = rev (dropWhile (\<lambda>c. c = CHR ''0'') (rev s))"

definition with_fraction :: "string \<Rightarrow> string \<Rightarrow> string" where
  "with_fraction i f = (let f' = strip_zeros f in if f' = '''' then i else i @ ''.'' @ f')"

definition float2s :: "double \<Rightarrow> string" where
  "float2s x =
     (if x = 0 then ''0''
      else let e0 = exp10 \<bar>x\<bar>; m0 = round_even (scale10 \<bar>x\<bar> (5 - e0));
               (m, e) = (if m0 = 1000000 then (100000, e0 + 1) else (m0, e0)); ds = nat2a (nat m)
           in (if x < 0 then ''-'' else '''')
              @ (if e < -4 \<or> e \<ge> 6
                 then with_fraction (take 1 ds) (drop 1 ds) @ ''e'' @ (if e < 0 then ''-'' else ''+'')
                      @ (if \<bar>e\<bar> < 10 then ''0'' else '''') @ nat2a (nat \<bar>e\<bar>)
                 else if e \<ge> 0 then with_fraction (take (nat e + 1) ds) (drop (nat e + 1) ds)
                 else with_fraction ''0'' (replicate (nat (- e) - 1) (CHR ''0'') @ ds)))"

subsection \<open>Energy\<close>

record meter_line =
  ml_apower :: double
  ml_ipower :: double
  ml_energy :: double
  ml_time :: string
  ml_value :: double

definition quoted_after :: "string \<Rightarrow> string \<Rightarrow> string option" where
  "quoted_after key line =
     (case str_find (key @ quote @ '':'' @ quote) line of
        None \<Rightarrow> None
      | Some pos \<Rightarrow> Some (takeWhile (\<lambda>c. c \<noteq> CHR 0x22) (drop (pos + length (key @ quote @ '':'' @ quote)) line)))"

definition number_after :: "double \<Rightarrow> string \<Rightarrow> string \<Rightarrow> double" where
  "number_after u key line = (case quoted_after key line of None \<Rightarrow> 0 | Some n \<Rightarrow> a2double u n)"

definition scanLine :: "double \<Rightarrow> string \<Rightarrow> meter_line" where
  "scanLine u line =
     \<lparr>ml_apower = number_after u ''Apower'' line, ml_ipower = number_after u ''Ipower'' line,
      ml_energy = number_after u ''energy'' line,
      ml_time = (case quoted_after ''timeofday'' line of None \<Rightarrow> '''' | Some t \<Rightarrow> t),
      ml_value = number_after u ''value'' line\<rparr>"

definition json_field :: "string \<Rightarrow> string \<Rightarrow> string" where
  "json_field k v = quote @ k @ quote @ '':'' @ quote @ v @ quote"

fun energy_lines :: "double \<Rightarrow> string \<Rightarrow> string \<Rightarrow> string list \<Rightarrow> string option" where
  "energy_lines u start stop [] = Some ''''"
| "energy_lines u start stop (line # ls) =
     (let p = scanLine u line
      in case normalizeDateTime (ml_time p) of
           None \<Rightarrow> None
         | Some timestamp \<Rightarrow>
             map_option (\<lambda>r. (if start \<le> timestamp \<and> timestamp \<le> stop
                 then ''{'' @ json_field ''Apower'' (float2s (ml_apower p)) @ '','' @ json_field ''Ipower'' (float2s (ml_ipower p))
                      @ '','' @ json_field ''energy'' (float2s (ml_energy p)) @ '','' @ json_field ''time'' (ml_time p) @ ''},''
                 else '''') @ r) (energy_lines u start stop ls))"

definition blank_last_comma :: "string \<Rightarrow> string" where
  "blank_last_comma s = (case find_last (CHR '','') s of None \<Rightarrow> s | Some pos \<Rightarrow> s[pos := CHR '' ''])"

definition getEnergyData :: "double \<Rightarrow> mmessage \<Rightarrow> archive \<Rightarrow> string option" where
  "getEnergyData u req A =
     (case getExec req A of
        None \<Rightarrow> None
      | Some resPath \<Rightarrow>
          if resPath = ''Not Found'' \<or> resPath = ''Forbidden'' then Some resPath
          else let input = open_in (resPath @ ''/'' @ tailof (m_getString req ''url'')) (arch_fs A)
               in if input = NotOpen then Some ''Not Found''
                  else map_option blank_last_comma
                         (energy_lines u (m_getString req ''start'') (m_getString req ''end'') (char_lines input)))"

subsection \<open>Reports of a meter\<close>

record pm_stat =
  pm_value :: double
  pm_energy :: double
  pm_time :: string

definition pm_update :: "double \<Rightarrow> string \<Rightarrow> pm_stat \<Rightarrow> pm_stat" where
  "pm_update e t s = (if e > pm_energy s then s\<lparr>pm_energy := e, pm_time := t\<rparr> else s)"

definition pm_update_value :: "double \<Rightarrow> string \<Rightarrow> double \<Rightarrow> pm_stat \<Rightarrow> pm_stat" where
  "pm_update_value e t v s = (if e > pm_energy s then s\<lparr>pm_energy := e, pm_time := t, pm_value := v\<rparr> else s)"

definition pm_getJsonString :: "pm_stat \<Rightarrow> string" where
  "pm_getJsonString s = ''{'' @ json_field ''time'' (pm_time s) @ '','' @ json_field ''energy'' (float2s (pm_energy s))
     @ '','' @ json_field ''value'' (float2s (pm_value s)) @ ''}''"

fun join_with :: "string \<Rightarrow> string list \<Rightarrow> string" where
  "join_with sep [] = ''''"
| "join_with sep [x] = x"
| "join_with sep (x # xs) = x @ sep @ join_with sep xs"

definition devname_of :: "string \<Rightarrow> string option" where
  "devname_of url =
     (let nl = fst (nl_init [] url (CHR ''/''))
      in if nl = [] then None else Some (takeWhile (\<lambda>c. c \<noteq> CHR ''.'') (last nl)))"

definition body_field :: "json_reader \<Rightarrow> string \<Rightarrow> mmessage \<Rightarrow> string option" where
  "body_field read_json k req = Option.bind (read_json (m_getString req ''body'')) (pt_get k)"

definition getPMDaily :: "double \<Rightarrow> json_reader \<Rightarrow> tm \<Rightarrow> mmessage \<Rightarrow> archive \<Rightarrow> string option" where
  "getPMDaily u read_json lt req A =
     (case (devname_of (m_getString req ''url''), body_field read_json ''date'' req) of
        (Some devname, Some date) \<Rightarrow>
          (case getExec (m_add req ''url'' (''/event/'' @ devname)) A of
             None \<Rightarrow> None
           | Some respath \<Rightarrow>
               (case (if date = fst (getCurrentDay lt) then Some ''/data''
                      else case (substr 0 4 date, substr 4 2 date, substr 6 2 date) of
                             (Some y, Some m, Some d) \<Rightarrow> Some (''/data.'' @ y @ ''_'' @ m @ ''_'' @ d)
                           | _ \<Rightarrow> None) of
                  None \<Rightarrow> None
                | Some f \<Rightarrow>
                    let lines = char_lines (open_in (respath @ ''/'' @ devname @ f) (arch_fs A));
                        stat = map (\<lambda>l. let p = scanLine u l
                                 in \<lparr>pm_value = ml_value p, pm_energy = ml_energy p, pm_time = ml_time p\<rparr>) lines
                    in Some (join_with ('','' @ newline) (map pm_getJsonString stat))))
      | _ \<Rightarrow> None)"

definition getPMDaySummary :: "double \<Rightarrow> tm \<Rightarrow> string \<Rightarrow> fsnode \<Rightarrow> string option" where
  "getPMDaySummary u lt datafile fs =
     (let input = open_in datafile fs; fname = tailof datafile; nl = fst (nl_init [] fname (CHR ''_''))
      in if input = NotOpen then Some ''Not Found''
         else if fname \<noteq> ''data'' \<and> nl = [] then None
         else let day = (if fname = ''data'' then fst (snd (getCurrentDay lt)) else last nl)
              in Some (pm_getJsonString
                   (fold (\<lambda>line. pm_update (ml_energy (scanLine u line)) day) (char_lines input)
                      \<lparr>pm_value = 0, pm_energy = 0, pm_time = ''0''\<rparr>)))"

text \<open>The loop over the instances that the monthly reports share. The day of an instance, which
  is computed and not used, is read from the third part of its name.\<close>

fun month_days ::
  "double \<Rightarrow> tm \<Rightarrow> string \<Rightarrow> string \<Rightarrow> string \<Rightarrow> string \<Rightarrow> mmessage \<Rightarrow> archive \<Rightarrow> string list \<Rightarrow> string list option" where
  "month_days u lt b start stop devname req A [] = Some []"
| "month_days u lt b start stop devname req A (descr # ds) =
     (let (today, d, m, y) = getCurrentDay lt; current = (descr = ''data'');
          rest = (\<lambda>req. month_days u lt b start stop devname req A ds)
      in if \<not> current \<and> length (fst (nl_init [] descr (CHR ''_''))) < 3 then None
         else case (if current then Some (m = take 2 (drop 4 b) \<and> y = take 4 b) else evalDescriptor start stop descr) of
                None \<Rightarrow> None
              | Some False \<Rightarrow> rest req
              | Some True \<Rightarrow>
                  let req' = m_add req ''url'' (''/event/'' @ devname)
                  in case getExec req' A of
                       None \<Rightarrow> None
                     | Some respath \<Rightarrow>
                         (case getPMDaySummary u lt (respath @ ''/'' @ devname @ ''/'' @ descr) (arch_fs A) of
                            None \<Rightarrow> None
                          | Some s \<Rightarrow> map_option (Cons s) (rest req')))"

definition month_array :: "double \<Rightarrow> json_reader \<Rightarrow> tm \<Rightarrow> string \<Rightarrow> mmessage \<Rightarrow> archive \<Rightarrow> (string \<times> string list) option" where
  "month_array u read_json lt key req A =
     (case (body_field read_json key req, devname_of (m_getString req ''url'')) of
        (Some b, Some devname) \<Rightarrow>
          if length b < 4 then None
          else let start = take 4 b @ take 2 (drop 4 b) @ ''01''; stop = take 4 b @ take 2 (drop 4 b) @ ''31''
               in (case getRootPath ''event'' A of
                     None \<Rightarrow> None
                   | Some rootP \<Rightarrow>
                       map_option (Pair b) (month_days u lt b start stop devname req A
                         (snd (fileList (ft_entries (rootP @ ''/event/'' @ devname) (arch_fs A))))))
      | _ \<Rightarrow> None)"

definition getPMMonthly :: "double \<Rightarrow> json_reader \<Rightarrow> tm \<Rightarrow> mmessage \<Rightarrow> archive \<Rightarrow> string option" where
  "getPMMonthly u read_json lt req A =
     (case month_array u read_json lt ''date'' req A of
        None \<Rightarrow> None
      | Some (_, days) \<Rightarrow>
          Some (if days = [] then '''' else join_with ('','' @ newline) (sort days) @ newline))"

definition strip_literal :: "string \<Rightarrow> string \<Rightarrow> string option" where
  "strip_literal p s = (if take (length p) s = p then Some (drop (length p) s) else None)"

text \<open>\<^verbatim>\<open>sscanf\<close> with the pattern of a day: what it does not match leaves the last energy.\<close>

definition scan_day :: "double \<Rightarrow> string \<Rightarrow> double" where
  "scan_day u s =
     (case strip_literal (''{'' @ quote @ ''time'' @ quote @ '':'' @ quote) s of
        None \<Rightarrow> u
      | Some r \<Rightarrow>
          let (sg, t) = scan_sign (dropWhile is_space r); ds = takeWhile is_digit t
          in if ds = '''' then u
             else case strip_literal (quote @ '','' @ quote @ ''energy'' @ quote @ '':'' @ quote) (dropWhile is_digit t) of
                    None \<Rightarrow> u
                  | Some r2 \<Rightarrow> (case scan_double r2 of Some e \<Rightarrow> e | None \<Rightarrow> u))"

fun sum_days :: "double \<Rightarrow> string list \<Rightarrow> double" where
  "sum_days u [] = 0"
| "sum_days u (s # ss) = (let e = scan_day u s in e + sum_days e ss)"

definition getPMMonthlySummary :: "double \<Rightarrow> json_reader \<Rightarrow> tm \<Rightarrow> mmessage \<Rightarrow> archive \<Rightarrow> string option" where
  "getPMMonthlySummary u read_json lt req A =
     (case month_array u read_json lt ''time'' req A of
        None \<Rightarrow> None
      | Some (b, days) \<Rightarrow>
          let energy = sum_days u days
          in Some (if energy > 0
                   then ''{'' @ json_field ''time'' (take 2 (drop 4 b)) @ '','' @ json_field ''energy'' (double2a energy) @ ''}''
                   else ''''))"

definition month_text :: "nat \<Rightarrow> string" where
  "month_text i = (if i + 1 < 10 then ''0'' else '''') @ nat2a (i + 1)"

fun annual_months ::
  "double \<Rightarrow> json_reader \<Rightarrow> tm \<Rightarrow> string \<Rightarrow> string \<Rightarrow> archive \<Rightarrow> nat list \<Rightarrow> string list option" where
  "annual_months u read_json lt b url A [] = Some []"
| "annual_months u read_json lt b url A (i # is) =
     (let mbody = ''{'' @ json_field ''time'' (b @ month_text i) @ ''}'';
          mreq = m_add (m_add m_default ''url'' url) ''body'' mbody
      in case getPMMonthlySummary u read_json lt mreq A of
           None \<Rightarrow> None
         | Some mdata \<Rightarrow>
             map_option (\<lambda>ms. if mdata \<noteq> '''' then mdata # ms else ms) (annual_months u read_json lt b url A is))"

definition getPMAnnual :: "double \<Rightarrow> json_reader \<Rightarrow> tm \<Rightarrow> mmessage \<Rightarrow> archive \<Rightarrow> string option" where
  "getPMAnnual u read_json lt req A =
     (case body_field read_json ''date'' req of
        None \<Rightarrow> None
      | Some b \<Rightarrow>
          map_option (\<lambda>ms. join_with ('','' @ newline) ms @ newline)
            (annual_months u read_json lt b (m_getString req ''url'') A [0..<12]))"

definition getPMLog :: "double \<Rightarrow> json_reader \<Rightarrow> tm \<Rightarrow> mmessage \<Rightarrow> archive \<Rightarrow> string option" where
  "getPMLog u read_json lt req A =
     (case body_field read_json ''report'' req of
        None \<Rightarrow> None
      | Some k \<Rightarrow>
          let setdata = (if k = ''DAILY'' then getPMDaily u read_json lt req A
                         else if k = ''MONTHLY'' then getPMMonthly u read_json lt req A
                         else getPMAnnual u read_json lt req A)
          in (case (setdata, devname_of (m_getString req ''url'')) of
                (Some s, Some devname) \<Rightarrow>
                  Some (''{'' @ quote @ ''response'' @ quote @ '':{'' @ json_field ''message'' ''ok'' @ '',''
                    @ quote @ ''device'' @ quote @ '':{'' @ json_field ''name'' devname @ '','' @ quote @ ''energy_parameters'' @ quote
                    @ '':['' @ newline @ s @ '']}}}'')
              | _ \<Rightarrow> None))"

subsection \<open>A query returns the records of its window\<close>

definition record_in :: "json_reader \<Rightarrow> name_list \<Rightarrow> string \<Rightarrow> string \<Rightarrow> string \<Rightarrow> bool" where
  "record_in read_json category start stop line \<longleftrightarrow> length line \<ge> 10
     \<and> (\<exists>pt time timestamp cat. read_json line = Some pt \<and> pt_get ''time'' pt = Some time
          \<and> normalizeDateTime time = Some timestamp \<and> pt_get ''type'' pt = Some cat
          \<and> (timestamp = '''' \<or> start < timestamp \<and> timestamp \<le> stop) \<and> (category = [] \<or> cat \<in> set category))"

definition record_ok :: "json_reader \<Rightarrow> string \<Rightarrow> bool" where
  "record_ok read_json line \<longleftrightarrow> length line < 10 \<or>
     (case read_json line of
        None \<Rightarrow> False
      | Some pt \<Rightarrow> Option.bind (pt_get ''time'' pt) normalizeDateTime \<noteq> None \<and> pt_get ''type'' pt \<noteq> None)"

definition rendered :: "bool \<Rightarrow> string list \<Rightarrow> string" where
  "rendered first xs = (if first then join_with '','' xs else concat (map (Cons (CHR '','')) xs))"

lemma join_with_Cons: "join_with '','' (x # xs) = x @ concat (map (Cons (CHR '','')) xs)"
  by (induction xs arbitrary: x) auto

lemma rendered_simps [simp]:
  "rendered b [] = ''''" "rendered True (x # xs) = x @ rendered False xs" "rendered False (x # xs) = CHR '','' # x @ rendered False xs"
  by (simp_all add: rendered_def join_with_Cons)

lemma rendered_append: "rendered b (xs @ ys) = rendered b xs @ rendered (b \<and> xs = []) ys"
proof (cases b)
  case True
  then show ?thesis by (cases xs) (simp_all add: rendered_def join_with_Cons)
qed (simp add: rendered_def)

lemma sublog_lines_spec:
  "\<forall>line \<in> set ls. record_ok read_json line \<Longrightarrow>
     sublog_lines read_json category start stop ls first
       = Some (first \<and> filter (record_in read_json category start stop) ls = [],
               rendered first (filter (record_in read_json category start stop) ls))"
proof (induction ls arbitrary: first)
  case (Cons line ls)
  let ?in = "record_in read_json category start stop"
  note ih = Cons.IH [OF ballI]
  show ?case
  proof (cases "length line < 10")
    case True
    then have "\<not> ?in line" by (simp add: record_in_def)
    with True Cons show ?thesis by simp
  next
    case False
    with Cons.prems obtain pt time timestamp cat where r: "read_json line = Some pt" "pt_get ''time'' pt = Some time"
      "normalizeDateTime time = Some timestamp" "pt_get ''type'' pt = Some cat"
      by (auto simp: record_ok_def bind_eq_Some_conv split: option.splits)
    have i: "?in line \<longleftrightarrow> (timestamp = '''' \<or> start < timestamp \<and> timestamp \<le> stop) \<and> (category = [] \<or> cat \<in> set category)"
      using False r by (auto simp: record_in_def)
    show ?thesis using False r Cons i by (cases first) auto
  qed
qed simp

definition chosen_file :: "string \<Rightarrow> string \<Rightarrow> string \<Rightarrow> bool" where
  "chosen_file start stop descr \<longleftrightarrow> getStem (getTail descr) = ''data''
     \<and> (getTail descr \<noteq> ''data'' \<longrightarrow> evalDescriptor start stop descr = Some True)"

definition file_lines :: "string \<Rightarrow> fsnode \<Rightarrow> string \<Rightarrow> string list" where
  "file_lines rootPath fs descr = (case open_in (rootPath @ ''/'' @ descr) fs of TextStream x \<Rightarrow> eof_lines x | _ \<Rightarrow> [])"

definition sublog_ok :: "json_reader \<Rightarrow> string \<Rightarrow> string \<Rightarrow> string \<Rightarrow> fsnode \<Rightarrow> string \<Rightarrow> bool" where
  "sublog_ok read_json start stop rootPath fs descr \<longleftrightarrow>
     (getStem (getTail descr) = ''data'' \<longrightarrow> getTail descr \<noteq> ''data'' \<longrightarrow> evalDescriptor start stop descr \<noteq> None)
     \<and> (chosen_file start stop descr \<longrightarrow> open_in (rootPath @ ''/'' @ descr) fs \<noteq> DirStream
          \<and> list_all (record_ok read_json) (file_lines rootPath fs descr))"

lemma sublog_files_spec:
  "list_all (sublog_ok read_json start stop rootPath fs) ds \<Longrightarrow>
     sublog_files read_json category start stop rootPath fs ds first
       = Some (rendered first (filter (record_in read_json category start stop)
                 (concat (map (file_lines rootPath fs) (filter (chosen_file start stop) ds)))))"
proof (induction ds arbitrary: first)
  case (Cons d ds)
  then have ok: "sublog_ok read_json start stop rootPath fs d" and ih: "\<And>first.
     sublog_files read_json category start stop rootPath fs ds first
       = Some (rendered first (filter (record_in read_json category start stop)
                 (concat (map (file_lines rootPath fs) (filter (chosen_file start stop) ds)))))" by simp_all
  show ?case
  proof (cases "chosen_file start stop d")
    case False
    then have "getStem (getTail d) \<noteq> ''data'' \<or> getTail d \<noteq> ''data'' \<and> evalDescriptor start stop d = Some False"
      using ok by (cases "evalDescriptor start stop d") (auto simp: chosen_file_def [of _ _ d] sublog_ok_def)
    with False ih show ?thesis by (auto simp: Let_def)
  next
    case True
    then have c: "getStem (getTail d) = ''data''"
      "(if getTail d \<noteq> ''data'' then evalDescriptor start stop d else Some True) = Some True" by (auto simp: chosen_file_def)
    show ?thesis
    proof (cases "open_in (rootPath @ ''/'' @ d) fs")
      case (TextStream x)
      with True ok have "\<forall>l \<in> set (eof_lines x). record_ok read_json l"
        by (simp add: sublog_ok_def file_lines_def list_all_iff)
      note s = sublog_lines_spec [OF this, of category start stop first]
      with TextStream True c ih show ?thesis by (simp add: Let_def file_lines_def [of _ _ d] rendered_append)
    qed (use True ok c ih in \<open>simp_all add: Let_def sublog_ok_def [of _ _ _ _ _ d] file_lines_def [of _ _ d]\<close>)
  qed
qed simp


subsection \<open>The energy of a day\<close>

text \<open>The energy of a day is the largest reading of the day, and zero without a positive one.\<close>

lemma pm_update_max:
  "pm_energy (fold (\<lambda>line. pm_update (g line) day) ls s) = fold (\<lambda>line. max (g line)) ls (pm_energy s)"
  by (induction ls arbitrary: s) (auto simp: pm_update_def max_def)

lemma fold_max: "fold (\<lambda>x. max (g x)) ls a = Max (insert a (g ` set ls))"
proof (induction ls arbitrary: a)
  case (Cons x ls)
  have "Max (insert (max (g x) a) (g ` set ls)) = Max (insert a (insert (g x) (g ` set ls)))"
    by (cases "set ls = {}") (simp_all add: max.assoc max.commute)
  with Cons show ?case by (simp add: insert_commute)
qed simp

lemma day_energy_max:
  assumes "open_in datafile fs = TextStream x" "tailof datafile = ''data''"
  shows "\<exists>s. getPMDaySummary u lt datafile fs = Some (pm_getJsonString s)
     \<and> pm_energy s = Max (insert 0 ((\<lambda>l. ml_energy (scanLine u l)) ` set (text_lines x)))"
  using assms by (auto simp: getPMDaySummary_def Let_def pm_update_max fold_max)

subsection \<open>An example\<close>

text \<open>A reader that knows the texts of the example.\<close>

definition example_stamp :: "string \<Rightarrow> string \<Rightarrow> ptree" where
  "example_stamp t k = PTree '''' [(''time'', PTree t []), (''type'', PTree k [])]"

definition example_json :: json_reader where
  "example_json s =
     (if s = ''the query'' then Some (PTree '''' [(''start_date'', PTree ''28052014'' []), (''start_time'', PTree ''00:00'' []),
          (''end_date'', PTree ''30052014'' []), (''end_time'', PTree ''12:00'' [])])
      else if s = ''record one'' then Some (example_stamp ''201405291030'' ''alarm'')
      else if s = ''record two'' then Some (example_stamp ''201405301300'' ''alarm'')
      else None)"

definition example_log :: archive where
  "example_log = example_archive\<lparr>arch_fs := DirNode [(''home'', DirNode [(''log'', DirNode
     [(''data'', FileNode (''record one'' @ newline @ ''record two'' @ newline)),
      (''data.2014_05_01'', FileNode (''unread'' @ newline)), (''notes'', FileNode ''x'')])])]\<rparr>"

definition example_query :: mmessage where
  "example_query = m_add (m_add (m_new ''*'' ''*'') ''url'' ''/log'') ''body'' ''the query''"


end
