(* ===== verification/Rest_Server.thy ===== *)
theory Rest_Server
  imports Archive_Reports Rpc_Table
begin

text \<open>
  The REST server of an agent (\<^verbatim>\<open>src/agents/minilibs\<close>): the table of routes
  (\<^verbatim>\<open>Route.cpp\<close>), the classes that a route calls (\<^verbatim>\<open>ArchiveRoute.cpp\<close>,
  \<^verbatim>\<open>CmdRoute.cpp\<close>, \<^verbatim>\<open>LoggerRoute.cpp\<close>) and the callbacks that turn a request into
  a response (\<^verbatim>\<open>RestHttpServer.cpp\<close>). The regular expressions of the C library, the XML
  and JSON readers and the conversion of a JSON datum to a number are the fields of \<open>libs\<close>; the
  sockets of \<^verbatim>\<open>libhttpserver\<close> are left out. A command that waits for its answer stops in
  \<open>Waiting\<close> and goes on when the answer is in the table of calls.
\<close>

record libs =
  lib_regex :: "string \<Rightarrow> string \<Rightarrow> bool option"
  lib_json :: json_reader
  lib_xml :: "string \<Rightarrow> xnode list"
  lib_float :: "string \<Rightarrow> double option"
  lib_junk :: double

subsection \<open>Routes\<close>

text \<open>An expression that does not compile counts as a match.\<close>

definition match_regexp :: "libs \<Rightarrow> string \<Rightarrow> string \<Rightarrow> bool" where
  "match_regexp L reg s = (case lib_regex L reg s of None \<Rightarrow> True | Some b \<Rightarrow> b)"

datatype exec_class = ArchiveRoute | CmdRoute | LoggerRoute | RouterExec

definition loadClasses :: "(string \<times> exec_class) list" where
  "loadClasses = [(''archive'', ArchiveRoute), (''cmdroute'', CmdRoute), (''logroute'', LoggerRoute), (''Default'', RouterExec)]"

record route =
  r_template :: name_list
  r_format :: string
  r_method :: string
  r_conditions :: "(string \<times> string) list"
  r_called :: string
  r_target :: "exec_class option"

definition route_new :: route where
  "route_new = \<lparr>r_template = [], r_format = '''', r_method = '''', r_conditions = [], r_called = '''', r_target = None\<rparr>"

fun is_element :: "xnode \<Rightarrow> bool" where
  "is_element (XElement v as cs) = True"
| "is_element _ = False"

fun elem_value :: "xnode \<Rightarrow> string" where
  "elem_value (XElement v as cs) = v"
| "elem_value _ = ''''"

fun elem_attrs :: "xnode \<Rightarrow> (string \<times> string) list" where
  "elem_attrs (XElement v as cs) = as"
| "elem_attrs _ = []"

definition elements :: "xnode \<Rightarrow> xnode list" where
  "elements x = filter is_element (children x)"

text \<open>\<^verbatim>\<open>QueryStringAttribute\<close> leaves the variable alone when the attribute is missing.\<close>

definition query_attr :: "xnode \<Rightarrow> string \<Rightarrow> string \<Rightarrow> string" where
  "query_attr x n old = (case map_of (elem_attrs x) n of None \<Rightarrow> old | Some v \<Rightarrow> v)"

definition find_class :: "(string \<times> exec_class) list \<Rightarrow> string \<Rightarrow> exec_class" where
  "find_class inst n = (case map_of inst n of Some c \<Rightarrow> c | None \<Rightarrow> snd (last inst))"

definition load_part :: "(string \<times> exec_class) list \<Rightarrow> xnode \<Rightarrow> route \<Rightarrow> route" where
  "load_part inst sub r =
     (if elem_value sub = ''uri''
      then r\<lparr>r_format := query_attr sub ''path'' (r_format r), r_method := query_attr sub ''method'' (r_method r)\<rparr>
      else if elem_value sub = ''call''
      then r\<lparr>r_called := query_attr sub ''method'' (r_called r), r_target := Some (find_class inst (query_attr sub ''class'' ''''))\<rparr>
      else if elem_value sub = ''conditions''
      then r\<lparr>r_conditions := r_conditions r @ map (\<lambda>c. (query_attr c ''param'' '''', query_attr c ''regexp'' '''')) (elements sub)\<rparr>
      else r)"

definition template_part :: "(string \<times> string) list \<Rightarrow> string \<Rightarrow> string" where
  "template_part conds p =
     (if char_at p 0 = CHR '':'' then (case map_of conds p of None \<Rightarrow> p | Some re \<Rightarrow> re) else p)"

definition mk_template :: "route \<Rightarrow> route option" where
  "mk_template r =
     (let nl = fst (nl_init [] (r_format r) (CHR ''/''))
      in if nl = [] then None
         else Some (r\<lparr>r_template := map (template_part (r_conditions r)) (if hd nl = '''' then tl nl else nl)\<rparr>))"

fun mk_templates :: "route list \<Rightarrow> route list option" where
  "mk_templates [] = Some []"
| "mk_templates (r # rs) =
     (case mk_template r of None \<Rightarrow> None | Some r' \<Rightarrow> map_option (Cons r') (mk_templates rs))"

definition routes_load :: "(string \<times> exec_class) list \<Rightarrow> file_state \<Rightarrow> (bool \<times> route list) option" where
  "routes_load inst f =
     (case f of
        Xml doc \<Rightarrow>
          (case filter is_element doc of
             [] \<Rightarrow> None
           | root_el # _ \<Rightarrow>
               map_option (Pair True)
                 (mk_templates (map (\<lambda>e. fold (load_part inst) (elements e) route_new) (elements root_el))))
      | _ \<Rightarrow> Some (False, []))"

definition route_matches :: "libs \<Rightarrow> string list \<Rightarrow> string \<Rightarrow> route \<Rightarrow> bool" where
  "route_matches L uriNL verb r \<longleftrightarrow> length (r_template r) = length uriNL \<and> verb = r_method r
     \<and> list_all2 (match_regexp L) (r_template r) uriNL"

subsection \<open>The state of the server\<close>

record rest_server =
  rs_routes :: "route list"
  rs_archive :: archive
  rs_index :: index
  rs_rpc :: "rpc_table option"
  rs_bus :: subjects

record rest_now =
  rn_time :: double
  rn_tm :: tm
  rn_config :: string
  rn_home :: string

datatype rest_step = Done mmessage | Waiting string

type_synonym rest_result = "(rest_step \<times> effect list \<times> rest_server) option"

subsection \<open>Requests for the archive\<close>

definition content_type :: "string \<Rightarrow> string \<Rightarrow> mmessage \<Rightarrow> mmessage" where
  "content_type response filetype m =
     (if response = ''Not Found'' \<or> response = ''Invalid Method'' \<or> response = ''Bad Request'' then m_add m ''content'' ''plain/text''
      else if filetype = '''' then m_add m ''content'' ''plain/text''
      else if filetype = ''xml'' \<or> filetype = ''html'' then m_add m ''content'' (''text/'' @ filetype)
      else if filetype = ''json'' then m_add m ''content'' ''application/json''
      else if filetype = ''js'' then m_add m ''content'' ''application/javascript''
      else if filetype = ''jpg'' \<or> filetype = ''jpeg'' then m_add m ''content'' ''image/jpeg''
      else if filetype = ''gif'' \<or> filetype = ''png'' then m_add m ''content'' (''image/'' @ filetype)
      else if filetype = ''css'' then m_add m ''content'' ''text/css''
      else m)"

definition wrap_list :: "string \<Rightarrow> string \<Rightarrow> string" where
  "wrap_list response filetype =
     (if response = ''Not Found'' \<or> response = ''Invalid Method'' \<or> response = ''Bad Request'' then response
      else if filetype = '''' then xml_header @ ''<list>'' @ response @ ''</list>''
      else response)"

definition archive_call ::
  "libs \<Rightarrow> rest_now \<Rightarrow> string \<Rightarrow> string \<Rightarrow> string \<Rightarrow> rest_server \<Rightarrow> ((string \<times> string) \<times> effect list \<times> rest_server) option" where
  "archive_call L now uri k body S =
     (let mreq = m_add (m_type ''httprequest'') ''url'' (if uri \<noteq> '''' then uri else ''.''); A = rs_archive S;
          mb = m_add mreq ''body'' body; keep = (\<lambda>r. (r, [], S)); ext = getExt uri
      in if k = ''getFirst'' then map_option keep (getFirst (lib_xml L) mreq '''' A)
         else if k = ''getLast'' then map_option keep (getLast (lib_xml L) mreq '''' A)
         else if k = ''getAll'' then map_option (\<lambda>r. keep (r, '''')) (getAll mreq A)
         else if k = ''getFile'' then map_option (\<lambda>r. keep (r, ext)) (getFile mreq A)
         else if k = ''getDir'' then map_option (\<lambda>r. keep (r, ext)) (getDir mreq A)
         else if k = ''getList'' then map_option (\<lambda>r. keep (r, '''')) (getList mreq A)
         else if k = ''getSubSet'' then map_option (\<lambda>r. keep (r, '''')) (getSubSet (lib_json L) (lib_xml L) mb A)
         else if k = ''getDynamicPage'' then Some (keep (getDynamicPage (rs_index S) uri, ext))
         else if k = ''putConf'' then
           map_option (\<lambda>(r, m', es, A'). ((m_getString r ''body'', ext), es, S\<lparr>rs_archive := A'\<rparr>)) (putConf (rs_bus S) mb A)
         else if k = ''deleteRes'' then
           map_option (\<lambda>(ok, A'). ((if ok then ''OK'' else ''Forbidden'', ''plain/text''), [], S\<lparr>rs_archive := A'\<rparr>))
             (deleteResource (rn_config now) uri A)
         else Some (keep (''Invalid method'', '''')))"

definition archive_exec :: "libs \<Rightarrow> rest_now \<Rightarrow> string \<Rightarrow> string \<Rightarrow> string \<Rightarrow> rest_server \<Rightarrow> rest_result" where
  "archive_exec L now uri k body S =
     map_option (\<lambda>((response, filetype), es, S').
       (Done (m_add (content_type response filetype m_default) ''body'' (wrap_list response filetype)), es, S'))
     (archive_call L now uri k body S)"

subsection \<open>Commands\<close>

definition isHtml :: "string \<Rightarrow> bool" where
  "isHtml body \<longleftrightarrow> str_contains body ''&''"

definition addBody :: "mmessage \<Rightarrow> string \<Rightarrow> mmessage" where
  "addBody m body =
     (if isHtml body
      then fold (\<lambda>t m. let row = fst (nl_init [] t (CHR ''='')) in if length row = 2 then m_add m (row ! 0) (row ! 1) else m)
             (fst (nl_init [] body (CHR ''&''))) m
      else m_add m ''body'' body)"

definition plain_answer :: "string \<Rightarrow> mmessage" where
  "plain_answer b = m_add (m_add m_default ''content'' ''plain/text'') ''body'' b"

definition cmd_request :: "string \<Rightarrow> string list \<Rightarrow> mmessage" where
  "cmd_request uri params =
     (let m = m_type ''cmd''
      in if uri \<noteq> ''''
         then m_add (if params ! 0 = ''cmd'' \<or> params ! 0 = ''cmdw'' then m
                     else if params ! 0 = ''set'' \<or> params ! 0 = ''setw'' then m\<lparr>mtype := ''set''\<rparr> else m) ''url'' uri
         else m_add m ''url'' ''.'')"

definition waits :: "string list \<Rightarrow> bool" where
  "waits params \<longleftrightarrow> params ! 0 = ''cmdw'' \<or> params ! 0 = ''setw''"

definition cmd_exec :: "rest_now \<Rightarrow> string \<Rightarrow> string list \<Rightarrow> string \<Rightarrow> string \<Rightarrow> rest_server \<Rightarrow> rest_result" where
  "cmd_exec now uri params k body S =
     (if length params < 3 then Some (Done (plain_answer ''Not Found''), [], S)
      else let mreq = cmd_request uri params
           in if k = ''cmdExec'' then
                let m1 = m_add (mreq\<lparr>msubtype := params ! 1\<rparr>) ''value'' (params ! 2);
                    m2 = (if body \<noteq> '''' then addBody m1 body else m1)
                in if wants_notice (mtype m2) (params ! 1) (rs_bus S)
                   then case (if waits params then rs_rpc S else None) of
                          Some tab \<Rightarrow> let (tg, m3, tab') = callRegister (rn_time now) m2 tab
                                      in Some (Waiting (m_getString m3 ''tag''), [Notify m3], S\<lparr>rs_rpc := Some tab'\<rparr>)
                        | None \<Rightarrow> Some (Done (plain_answer ''done''), [Notify m2], S)
                   else if waits params \<and> rs_rpc S \<noteq> None then Some (Waiting (m_getString m2 ''tag''), [], S)
                   else Some (Done (plain_answer ''done''), [], S)
              else if k = ''webcmdExec'' then
                let i = length (takeWhile (\<lambda>p. p \<noteq> ''Devices'') params)
                in if i \<ge> length params - 2 then Some (Done (plain_answer ''Not Found''), [], S)
                   else let m2 = m_add (mreq\<lparr>msubtype := params ! (i + 1)\<rparr>) ''value'' (getStem (params ! (i + 2)))
                        in Some (Done (plain_answer ''done''),
                                 if wants_notice (mtype m2) (msubtype m2) (rs_bus S) then [Notify m2] else [], S)
              else Some (Done (plain_answer ''done''), [], S))"

text \<open>The second half of a command that waits: \<open>None\<close> while there is no answer.\<close>

definition cmd_finish :: "string \<Rightarrow> rest_server \<Rightarrow> (mmessage \<times> rest_server) option" where
  "cmd_finish tg S =
     (case rs_rpc S of
        None \<Rightarrow> None
      | Some tab \<Rightarrow>
          map_option (\<lambda>(a, tab'). (plain_answer (if m_getString a ''answer_tag'' \<noteq> '''' then ''done:'' @ m_getString a ''value'' else ''done''),
                                   S\<lparr>rs_rpc := Some tab'\<rparr>)) (rpc_wait tg tab))"

subsection \<open>The state of devices\<close>

definition state_request :: "string \<Rightarrow> mmessage" where
  "state_request url = m_add m_default ''url'' url"

definition tab_indent :: "nat \<Rightarrow> string" where
  "tab_indent n = newline @ newline @ replicate n (CHR 0x09)"

definition device_head :: "string \<Rightarrow> string" where
  "device_head devname = ''{'' @ quote @ ''response'' @ quote @ '':'' @ tab_indent 1 @ ''{'' @ json_field ''message'' ''ok'' @ '',''
     @ quote @ ''device'' @ quote @ '':'' @ tab_indent 2 @ ''{'' @ quote @ ''name'' @ quote @ '':'' @ quote @ devname"

definition device_tail :: string where
  "device_tail = ''}'' @ tab_indent 1 @ ''}'' @ tab_indent 0 @ ''}''"

definition getDimmerStatus :: "libs \<Rightarrow> string \<Rightarrow> archive \<Rightarrow> string option" where
  "getDimmerStatus L devname A =
     (case getLast (lib_xml L) (state_request (''/event/'' @ devname @ ''_state/last'')) '''' A of
        None \<Rightarrow> None
      | Some (l, _) \<Rightarrow>
          (case lib_json L l of
             None \<Rightarrow> None
           | Some pt \<Rightarrow>
               (case (if str_contains devname ''RG_'' then pt_get ''color'' pt else Some '''',
                      Option.bind (pt_get ''value'' pt) (lib_float L)) of
                  (Some color, Some v) \<Rightarrow>
                    Some (device_head devname @ quote @ '','' @ quote @ ''status'' @ quote @ '':'' @ int2a (trunc v)
                      @ (if color \<noteq> '''' then '','' @ json_field ''color'' color else '''') @ device_tail)
                | _ \<Rightarrow> None)))"

definition getDevStatus :: "libs \<Rightarrow> string \<Rightarrow> archive \<Rightarrow> string option" where
  "getDevStatus L devname A =
     (case getLast (lib_xml L) (state_request (''/event/'' @ devname @ ''_state/last'')) '''' A of
        None \<Rightarrow> None
      | Some (l, _) \<Rightarrow>
          if l = ''Not Found'' \<or> l = ''Forbidden'' then Some l
          else case Option.bind (lib_json L l) (pt_get ''value'') of
                 None \<Rightarrow> None
               | Some aval \<Rightarrow>
                   Some (device_head devname @ quote @ '','' @ quote @ ''status'' @ quote @ '':'' @ quote
                     @ (if aval = ''1'' \<or> aval = ''ON'' then ''true'' else ''false'') @ quote @ device_tail))"

definition getShutterStatus :: "libs \<Rightarrow> string \<Rightarrow> archive \<Rightarrow> string option" where
  "getShutterStatus L devname A =
     (case getLast (lib_xml L) (state_request (''/event/'' @ devname @ ''_state/last'')) '''' A of
        None \<Rightarrow> None
      | Some (l, _) \<Rightarrow>
          if l = ''Not Found'' then Some l
          else case Option.bind (lib_json L l) (pt_get ''value'') of
                 None \<Rightarrow> None
               | Some aval \<Rightarrow>
                   Some (device_head devname @ quote @ '','' @ json_field ''status''
                       (if aval = ''UP'' then ''up'' else if aval = ''DOWN'' then ''down'' else ''off'') @ device_tail))"

text \<open>The text after the first brace of each record; a record without one throws. The test for a
  missing record asks for two texts at once and is never true.\<close>

fun cat_devices :: "libs \<Rightarrow> string \<Rightarrow> archive \<Rightarrow> string list \<Rightarrow> string option" where
  "cat_devices L catname A [] = Some ''''"
| "cat_devices L catname A (f # fs) =
     (case getLast (lib_xml L) (state_request (''/devices/'' @ catname @ ''/'' @ f @ ''/last'')) '''' A of
        None \<Rightarrow> None
      | Some (l, _) \<Rightarrow>
          let j = length (takeWhile (\<lambda>c. c \<noteq> CHR ''{'') l)
          in if j + 1 > length l then None
             else map_option (\<lambda>r. replicate 3 (CHR 0x09) @ ''{'' @ json_field ''name'' f @ '','' @ drop (j + 1) l
                    @ (if fs \<noteq> [] then '','' @ newline else newline) @ r) (cat_devices L catname A fs))"

definition getCatStatus :: "libs \<Rightarrow> rest_now \<Rightarrow> string \<Rightarrow> archive \<Rightarrow> string option" where
  "getCatStatus L now catname A =
     map_option (\<lambda>r. ''{'' @ quote @ ''response'' @ quote @ '':'' @ tab_indent 1 @ ''{'' @ json_field ''message'' ''ok'' @ '',''
       @ quote @ ''devices'' @ quote @ '': ['' @ newline @ r @ replicate 2 (CHR 0x09) @ '']'' @ newline @ [CHR 0x09] @ ''}'' @ newline @ ''}'')
     (cat_devices L catname A (snd (dirList (ft_entries (rn_home now @ ''/devices/'' @ catname) (arch_fs A)))))"

definition device_of :: "string \<Rightarrow> string option" where
  "device_of uri =
     (let nl = fst (nl_init [] uri (CHR ''/''))
      in if nl = [] then None
         else Some (case find_last (CHR ''.'') (last nl) of None \<Rightarrow> last nl | Some p \<Rightarrow> take p (last nl)))"

definition dev_methods :: "string list" where
  "dev_methods = [''getLightStatus'', ''getSocketStatus'', ''getGateStatus'', ''getGasValveStatus'', ''getFireValveStatus'', ''getIrrigatorStatus'']"

definition logger_call ::
  "libs \<Rightarrow> rest_now \<Rightarrow> string \<Rightarrow> string \<Rightarrow> string \<Rightarrow> string \<Rightarrow> rest_server \<Rightarrow> (string \<times> effect list \<times> rest_server) option" where
  "logger_call L now uri devname k body S =
     (let A = rs_archive S; keep = (\<lambda>r. (r, [], S)); req = (\<lambda>u. m_add (m_type ''httprequest'') ''url'' u);
          logged = map_option (\<lambda>(r, m', es, A'). (m_getString r ''body'', es, S\<lparr>rs_archive := A'\<rparr>));
          state_url = ''/event/'' @ devname @ ''_state/''
      in if k \<in> set dev_methods then map_option keep (getDevStatus L devname A)
         else if k = ''getSwitchedLightStatus''
         then map_option (\<lambda>(l, t). keep l) (getLast (lib_xml L) (req (''/event/'' @ devname @ ''_state/last'')) '''' A)
         else if k = ''getDimmerStatus'' then map_option keep (getDimmerStatus L devname A)
         else if k = ''getShutterStatus'' then map_option keep (getShutterStatus L devname A)
         else if k = ''getThermostateStatus'' \<or> k = ''getUmidityStatus''
         then map_option (\<lambda>(l, t). keep l) (getLast (lib_xml L) (req (''/event/'' @ devname @ ''/last'')) '''' A)
         else if k = ''getCatStatus'' then map_option keep (getCatStatus L now devname A)
         else if k = ''putLog'' then logged (putLog (rs_bus S) (m_add (req state_url) ''body'' body) A)
         else if k = ''postLog'' then logged (postLog (rs_bus S) (m_add (req state_url) ''body'' body) A)
         else if k = ''getPMLog''
         then map_option keep (getPMLog (lib_junk L) (lib_json L) (rn_tm now) (m_add (req uri) ''body'' body) A)
         else Some (keep ''Invalid method''))"

definition logger_exec :: "libs \<Rightarrow> rest_now \<Rightarrow> string \<Rightarrow> string \<Rightarrow> string \<Rightarrow> rest_server \<Rightarrow> rest_result" where
  "logger_exec L now uri k body S =
     (case device_of uri of
        None \<Rightarrow> None
      | Some devname \<Rightarrow>
          map_option (\<lambda>(response, es, S').
            (Done (m_add (m_add m_default ''content''
               (if response = ''Not Found'' \<or> response = ''Invalid Method'' \<or> response = ''Bad Request'' then ''plain/text''
                else ''application/json'')) ''body'' response), es, S'))
          (logger_call L now uri devname k body S))"

subsection \<open>Dispatch\<close>

definition route_exec ::
  "libs \<Rightarrow> rest_now \<Rightarrow> exec_class \<Rightarrow> string \<Rightarrow> string list \<Rightarrow> string \<Rightarrow> string \<Rightarrow> rest_server \<Rightarrow> rest_result" where
  "route_exec L now c uri params k body S =
     (case c of
        ArchiveRoute \<Rightarrow> archive_exec L now uri k body S
      | CmdRoute \<Rightarrow> cmd_exec now uri params k body S
      | LoggerRoute \<Rightarrow> logger_exec L now uri k body S
      | RouterExec \<Rightarrow> Some (Done (m_type ''Default''), [], S))"

definition no_route :: mmessage where
  "no_route = m_add (m_add m_default ''body'' ''Not Found'') ''content'' ''plain/text''"

definition rest_route :: "libs \<Rightarrow> rest_now \<Rightarrow> string \<Rightarrow> string \<Rightarrow> string \<Rightarrow> rest_server \<Rightarrow> rest_result" where
  "rest_route L now uri verb body S =
     (let nl = fst (nl_init [] uri (CHR ''/''));
          uriNL = (if hd nl = '''' then tl nl else nl)
      in if nl = [] then None
         else case find (route_matches L uriNL verb) (rs_routes S) of
                None \<Rightarrow> Some (Done no_route, [], S)
              | Some r \<Rightarrow>
                  (case r_target r of
                     None \<Rightarrow> None
                   | Some c \<Rightarrow> route_exec L now c uri uriNL (r_called r) body S))"

subsection \<open>Responses\<close>

record http_response =
  resp_body :: string
  resp_code :: int
  resp_type :: string

definition code_of :: "string \<Rightarrow> int" where
  "code_of b = (if b = ''Not Found'' then 404 else if b = ''Forbidden'' then 403 else 200)"

definition get_response :: "mmessage \<Rightarrow> http_response" where
  "get_response m = (let b = m_getString m ''body'' in \<lparr>resp_body = b, resp_code = code_of b, resp_type = m_getString m ''content''\<rparr>)"

text \<open>PUT and POST test the encoded message for the error texts unless it is JSON.\<close>

definition put_response :: "mmessage \<Rightarrow> http_response" where
  "put_response m =
     (let ty = m_getString m ''content''; b = (if ty = ''application/json'' then m_getString m ''body'' else m_xmlEncode 0 m)
      in \<lparr>resp_body = b, resp_code = code_of b, resp_type = ty\<rparr>)"

definition delete_response :: "mmessage \<Rightarrow> http_response" where
  "delete_response m = (let b = m_getString m ''body'' in \<lparr>resp_body = b, resp_code = code_of b, resp_type = ''text/plain''\<rparr>)"

definition get_uri :: "string \<Rightarrow> string" where
  "get_uri path = (if path = '''' \<or> path = ''/'' then ''/doc/index.html'' else path)"

definition render_GET :: "libs \<Rightarrow> rest_now \<Rightarrow> string \<Rightarrow> rest_server \<Rightarrow> rest_result" where
  "render_GET L now path S = rest_route L now (get_uri path) ''GET'' '''' S"

definition render_PUT :: "libs \<Rightarrow> rest_now \<Rightarrow> string \<Rightarrow> string \<Rightarrow> rest_server \<Rightarrow> rest_result" where
  "render_PUT L now path body S = rest_route L now path ''PUT'' body S"

definition render_DELETE :: "libs \<Rightarrow> rest_now \<Rightarrow> string \<Rightarrow> rest_server \<Rightarrow> rest_result" where
  "render_DELETE L now path S = rest_route L now (if path \<noteq> '''' then path else ''.'') ''DELETE'' '''' S"

definition nonRest_POST :: "libs \<Rightarrow> string \<Rightarrow> rest_server \<Rightarrow> rest_result" where
  "nonRest_POST L body S =
     (let m0 = m_add (m_add (m_type ''dummy'') ''method'' ''POST'') ''url'' ''/'';
          lang = (if isXmlstring body then ''xml'' else ''html''); m1 = m_add m0 ''language'' lang;
          answer = m_add (m_type ''answer'') ''language'' lang
      in case (if isXmlstring body then m_xmlAppend (lib_xml L (body @ [CHR 0x0D, CHR 0x0A])) m1
               else Some (True, m_htmlAppend body m1)) of
           None \<Rightarrow> None
         | Some (_, m2) \<Rightarrow>
             if wants_notice (mtype m2) (msubtype m2) (rs_bus S)
             then Some (Done (m_add answer ''result'' ''done''), [Notify m2], S)
             else Some (Done (m_add answer ''result'' ''Not Found''), [], S))"

definition erase_content :: "mmessage \<Rightarrow> mmessage" where
  "erase_content m = m\<lparr>mfields := sm_erase ''content'' (mfields m)\<rparr>"

definition post_root_response :: "mmessage \<Rightarrow> http_response" where
  "post_root_response m =
     (let b = m_xmlEncode 0 (erase_content m) in \<lparr>resp_body = b, resp_code = code_of b, resp_type = m_getString m ''content''\<rparr>)"

definition render_POST :: "libs \<Rightarrow> rest_now \<Rightarrow> string \<Rightarrow> string \<Rightarrow> rest_server \<Rightarrow> rest_result" where
  "render_POST L now path body S =
     (if path = '''' \<or> path = ''/'' then nonRest_POST L body S else rest_route L now path ''POST'' body S)"

text \<open>The port of the server. Without the file the port of the agent is taken, but the load that
  follows fails and reports false.\<close>

definition rest_xmlLoad :: "string \<Rightarrow> string \<Rightarrow> files \<Rightarrow> file_state \<Rightarrow> string \<Rightarrow> int \<Rightarrow> (bool \<times> int) option" where
  "rest_xmlLoad configdir xmlfile fs doc agentPort s_port =
     (let port0 = (if \<not> isfile_type (configdir @ ''/'' @ xmlfile) ''xml'' fs then atoi agentPort mod 65536 else s_port)
      in case doc of
           Xml [] \<Rightarrow> None
         | Xml [_] \<Rightarrow> Some (False, 8082)
         | Xml (_ # prg # _) \<Rightarrow>
             let attr_port = attr prg ''port''
             in Some (True, if attr_port = ''*'' then 8082 else atoi attr_port mod 65536)
         | _ \<Rightarrow> Some (False, port0))"

subsection \<open>Routing\<close>

lemma rest_route_found:
  assumes "cs \<noteq> []" "plain_names cs" "find (route_matches L cs verb) (rs_routes S) = Some r" "r_target r = Some c"
  shows "rest_route L now (slashed cs) verb body S = route_exec L now c (slashed cs) cs (r_called r) body S"
  using assms by (simp add: rest_route_def Let_def)

text \<open>The route that is called is the first of the table that matches.\<close>

lemma rest_route_first:
  "find (route_matches L cs verb) rs = Some r \<longleftrightarrow>
     (\<exists>i < length rs. r = rs ! i \<and> route_matches L cs verb r \<and> (\<forall>j < i. \<not> route_matches L cs verb (rs ! j)))"
  by (auto simp: find_Some_iff)

lemma slashed_nonempty: "cs \<noteq> [] \<Longrightarrow> slashed cs \<noteq> ''''"
  by (cases cs) auto

definition command_type :: "string \<Rightarrow> string" where
  "command_type c = (if c = ''set'' \<or> c = ''setw'' then ''set'' else ''cmd'')"

definition command_message :: "string \<Rightarrow> string \<Rightarrow> string \<Rightarrow> mmessage" where
  "command_message c dev v = m_add (m_add (m_new (command_type c) dev) ''url'' (slashed [c, dev, v])) ''value'' v"

lemma cmd_request_message:
  "c \<in> {''cmd'', ''cmdw'', ''set'', ''setw''} \<Longrightarrow>
     m_add ((cmd_request (slashed [c, dev, v]) [c, dev, v])\<lparr>msubtype := dev\<rparr>) ''value'' v = command_message c dev v"
  by (auto simp: cmd_request_def command_message_def command_type_def m_type_def m_new_def m_add_def sm_insert_def split: option.splits)

lemma command_message_fields:
  "mtype (command_message c dev v) = command_type c" "msubtype (command_message c dev v) = dev"
  "m_getString (command_message c dev v) ''value'' = v" "m_texts (command_message c dev v)"
proof -
  have h: "mtype (m_new t s) = t" "msubtype (m_new t s) = s" for t s by (simp_all add: m_new_def)
  show "mtype (command_message c dev v) = command_type c" "msubtype (command_message c dev v) = dev"
    "m_getString (command_message c dev v) ''value'' = v" "m_texts (command_message c dev v)"
    by (simp_all add: command_message_def h)
qed

lemma cmd_request_type:
  "c \<in> {''cmd'', ''cmdw'', ''set'', ''setw''} \<Longrightarrow> mtype (cmd_request (slashed [c, dev, v]) [c, dev, v]) = command_type c"
  using arg_cong [OF cmd_request_message [of c dev v], of mtype] by (simp add: command_message_fields)

text \<open>A command without waiting is on the bus when the response is sent.\<close>

lemma rest_command_notifies:
  assumes "plain_names [c, dev, v]" "c = ''cmd'' \<or> c = ''set''"
    and "find (route_matches L [c, dev, v] verb) (rs_routes S) = Some r" "r_target r = Some CmdRoute" "r_called r = ''cmdExec''"
    and "wants_notice (command_type c) dev (rs_bus S)"
  shows "rest_route L now (slashed [c, dev, v]) verb '''' S
     = Some (Done (plain_answer ''done''), [Notify (command_message c dev v)], S)"
proof -
  have w: "\<not> waits [c, dev, v]" using assms(2) by (auto simp: waits_def)
  have m: "m_add ((cmd_request (slashed [c, dev, v]) [c, dev, v])\<lparr>msubtype := dev\<rparr>) ''value'' v = command_message c dev v"
    using assms(2) by (intro cmd_request_message) auto
  moreover have "mtype (cmd_request (slashed [c, dev, v]) [c, dev, v]) = command_type c"
    using assms(2) by (intro cmd_request_type) auto
  moreover have "rest_route L now (slashed [c, dev, v]) verb '''' S = cmd_exec now (slashed [c, dev, v]) [c, dev, v] ''cmdExec'' '''' S"
    using rest_route_found [OF _ assms(1,3,4)] assms(5) by (simp add: route_exec_def)
  ultimately show ?thesis using w assms(6)
    by (simp add: cmd_exec_def Let_def command_message_fields del: slashed_simps)
qed


subsection \<open>The state of a device through the archive\<close>

lemma make_path_append:
  "make_path p (cs @ ds) fs = Option.bind (make_path p cs fs) (make_path (p @ slashed cs) ds)"
proof (induction cs arbitrary: p fs)
  case (Cons c cs)
  then show ?case by (cases "ensure_dir (p @ ''/'' @ c) fs") simp_all
qed simp

text \<open>The address of a state ends with a slash, so that the archive sees an empty component.\<close>

abbreviation state_url :: "string list \<Rightarrow> string" where
  "state_url cs \<equiv> slashed cs @ ''/''"

abbreviation state_file_url :: "string list \<Rightarrow> string" where
  "state_file_url cs \<equiv> slashed cs @ ''//data''"

lemma slashed_last: "cs \<noteq> [] \<Longrightarrow> plain_names cs \<Longrightarrow> slashed cs \<noteq> '''' \<and> last (slashed cs) \<noteq> CHR ''/''"
proof (induction cs rule: rev_induct)
  case (snoc c cs)
  then have "c \<noteq> ''''" "CHR ''/'' \<notin> set c" by (auto simp: plain_name_def)
  then show ?case by (auto dest: last_in_set)
qed simp

lemma state_split:
  assumes "cs \<noteq> []" "plain_names cs"
  shows "fst (nl_init [] (state_url cs) (CHR ''/'')) = '''' # cs"
    and "fst (nl_init [] (state_file_url cs) (CHR ''/'')) = '''' # cs @ ['''', ''data'']"
    and "path_parts (state_file_url cs) = '''' # cs @ ['''', ''data'']"
proof -
  have e: "split_names (CHR ''/'') '''' = []" "split_names (CHR ''/'') ''data'' = [''data'']"
    by (simp_all add: split_names.simps [of _ "[]"] split_names_no_delim)
  have 1: "split_names (CHR ''/'') (slashed cs @ ''/'') = '''' # cs"
    using split_names_snoc [of "CHR ''/''" "slashed cs" "''''"] split_slashed [OF assms] slashed_last [OF assms] e by simp
  have 2: "split_names (CHR ''/'') (slashed cs @ ''//data'') = '''' # cs @ ['''', ''data'']"
    using split_names_snoc [of "CHR ''/''" "slashed cs @ ''/''" "''data''"] 1 e by simp
  show "fst (nl_init [] (state_url cs) (CHR ''/'')) = '''' # cs"
    "fst (nl_init [] (state_file_url cs) (CHR ''/'')) = '''' # cs @ ['''', ''data'']"
    "path_parts (state_file_url cs) = '''' # cs @ ['''', ''data'']"
    using 1 2 by (simp_all add: nl_init_def Let_def path_parts_def)
qed

lemma state_restify:
  assumes "writable A cs" "m_texts m" "m_getString m ''url'' = state_url cs"
  shows "restify False m = Some (m_add m ''url'' (state_file_url cs))"
proof -
  have c: "plain_names cs" "cs \<noteq> []" using assms by (auto simp: writable_def)
  have u: "rest_url m = state_url cs" using assms(3) by (simp add: rest_url_def)
  have "res_path (state_url cs) = cs" using state_split(1) [OF c(2,1)] c(2) by (simp add: res_path_def)
  with u assms(1) show ?thesis by (simp add: restify_def rest_address_def rest_header_def Let_def writable_def c)
qed

lemma state_canon:
  assumes "writable A cs" "canon (archiveHome A) fs = Some h" "archiveHome A \<noteq> ''''"
  shows "canon (archiveHome A @ ''/'' @ state_file_url cs) fs \<in> {None, Some (h @ cs @ [''data''])}"
    and "dir_at h fs \<Longrightarrow> dir_at (h @ cs) fs \<Longrightarrow> canon (archiveHome A @ ''/'' @ state_file_url cs) fs = Some (h @ cs @ [''data''])"
proof -
  have c: "plain_names cs" "cs \<noteq> []" using assms by (auto simp: writable_def)
  have b: "canon (archiveHome A @ ''/'' @ state_file_url cs) fs = resolve fs h ('''' # cs @ ['''', ''data''])"
    using canon_below [of "archiveHome A" "state_file_url cs" fs] assms(2,3) by (simp add: state_split(3) [OF c(2,1)])
  have "filter (\<lambda>c. c \<noteq> '''') cs = cs" "''.'' \<notin> set cs" "''..'' \<notin> set cs"
    using c(1) by (auto simp: list_all_iff plain_name_def filter_id_conv)
  then have "resolve fs h ('''' # cs @ ['''', ''data'']) = Some r \<Longrightarrow> r = h @ cs @ [''data'']" for r
    using resolve_skip [of fs h "'''' # cs @ ['''', ''data'']" r] by simp
  then show "canon (archiveHome A @ ''/'' @ state_file_url cs) fs \<in> {None, Some (h @ cs @ [''data''])}"
    unfolding b by (cases "resolve fs h ('''' # cs @ ['''', ''data''])") auto
  assume d: "dir_at h fs" "dir_at (h @ cs) fs"
  then have "resolve fs h cs = Some (h @ cs)" using c resolve_dirs [of cs h fs] dir_at_butlast [of "h @ cs" fs]
    by (simp add: butlast_append)
  then show "canon (archiveHome A @ ''/'' @ state_file_url cs) fs = Some (h @ cs @ [''data''])"
    unfolding b using d by (simp add: resolve_append)
qed

lemma state_added:
  assumes w: "writable A cs" and f: "resource_free A h cs" and n: "archiveHome A \<noteq> ''''"
  shows "\<exists>fs'. addResource (state_file_url cs) '''' True A = Some (True, A\<lparr>arch_fs := fs'\<rparr>) \<and> made h cs A fs'"
proof -
  have c: "plain_names cs" "cs \<noteq> []" using w by (auto simp: writable_def)
  have h: "canon (archiveHome A) (arch_fs A) = Some h" "dir_at h (arch_fs A)" using f by (auto simp: resource_free_def)
  have rp: "getRootPath (state_file_url cs) A = Some (archiveHome A)"
    using w c state_split(2) [OF c(2,1)] by (auto simp: getRootPath_def writable_def split: option.splits)
  show ?thesis
  proof (cases "ft_isFile (archiveHome A @ ''/'' @ state_file_url cs) (arch_fs A)")
    case True
    then have "data_file h cs A \<noteq> None"
      using state_canon(1) [OF w h(1) n] by (auto simp: ft_isFile_def ft_read_def)
    then have "dir_at (h @ cs) (arch_fs A)" using file_at_parent [of "h @ cs @ [''data'']"] by (auto simp: butlast_append)
    with True f rp show ?thesis
      by (auto simp: addResource_def made_def resource_free_def intro!: exI [of _ "arch_fs A"])
  next
    case False
    have hs: "canon (archiveHome A @ ''/'') (arch_fs A) = Some h" using h by (rule canon_slash)
    obtain fs' where fs': "make_path (archiveHome A @ ''/'') cs (arch_fs A) = Some fs'"
      "dir_at (h @ cs) fs'" "\<And>r. dir_at r fs' \<Longrightarrow> dir_at r (arch_fs A) \<or> (\<exists>i. r = h @ take i cs)"
      using make_path_plain [OF hs h(2) c(1)] f by (auto simp: resource_free_def)
    have "h @ cs @ [''data''] \<noteq> h @ take i cs" for i by (auto dest: arg_cong [where f = length])
    then have m: "made h cs A fs'" using fs' f make_path_files [OF fs'(1)] fs'(3) [of "h @ cs @ [''data'']"]
      by (auto simp: made_def resource_free_def)
    have "canon (archiveHome A @ ''/'') fs' = Some h" using canon_more_dirs [of "arch_fs A" fs', OF _ hs] m by (simp add: made_def)
    then have "canon ((archiveHome A @ ''/'') @ slashed cs) fs' = Some (h @ cs)"
      using canon_slashed [of "archiveHome A @ ''/''" fs' h cs] c m h(2) fs'(2) dir_at_butlast [of "h @ cs" fs']
      by (simp add: made_def butlast_append)
    then have "canon ((archiveHome A @ ''/'' @ slashed cs) @ ''/'') fs' = Some (h @ cs)"
      using fs'(2) by (intro canon_slash) simp_all
    then have e: "ensure_dir ((archiveHome A @ ''/'') @ slashed cs @ ''/'') fs' = Some fs'"
      using fs'(2) by (simp add: ensure_dir_def ft_isDir_iff)
    have "ensure_dir (archiveHome A @ ''/'' @ '''') (arch_fs A) = Some (arch_fs A)"
      using hs h(2) by (simp add: ensure_dir_def ft_isDir_iff)
    then have "make_path (archiveHome A) ('''' # cs @ ['''']) (arch_fs A) = Some fs'"
      using fs'(1) e by (simp add: make_path_append)
    with False rp m state_split(2) [OF c(2,1)] show ?thesis
      by (intro exI [of _ fs']) (simp add: addResource_def Let_def butlast_append del: make_path.simps)
  qed
qed

lemma putLog_state:
  assumes w: "writable A cs" "resource_free A h cs" "archiveHome A \<noteq> ''''"
    and m: "m_texts m" "m_getString m ''url'' = state_url cs"
  shows "\<exists>m' es fs. putLog ss m A = Some (m_add m_answer ''body'' ''OK'', m', es, A\<lparr>arch_fs := fs\<rparr>)
     \<and> resource_free (A\<lparr>arch_fs := fs\<rparr>) h cs
     \<and> (\<forall>q. file_at q fs = (if q = h @ cs @ [''data''] then Some (m_getString m ''body'' @ newline) else file_at q (arch_fs A)))"
proof -
  let ?u = "state_file_url cs" and ?p = "archiveHome A @ ''/'' @ state_file_url cs"
  have c: "plain_names cs" "cs \<noteq> []" using w by (auto simp: writable_def)
  have h: "canon (archiveHome A) (arch_fs A) = Some h" "dir_at h (arch_fs A)" "\<not> dir_at (h @ cs @ [''data'']) (arch_fs A)"
    using w(2) by (auto simp: resource_free_def)
  have rp: "getRootPath ?u A = Some (archiveHome A)" "res_path ?u = cs @ ['''', ''data'']"
    using w c state_split(2) [OF c(2,1)] by (auto simp: getRootPath_def res_path_def writable_def split: option.splits)
  note r = state_restify [OF w(1) m] m_add_url [OF m(1), of ?u] m_erase_add [of m ?u]
  have b: "m_getString (as_putConf (m_erase_url m)) ''body'' = m_getString m ''body''"
    by (simp add: as_putConf_def m_erase_url_def m_getString_def)
  obtain fs1 where fs1: "addResource ?u '''' True A = Some (True, A\<lparr>arch_fs := fs1\<rparr>)" "made h cs A fs1"
    using state_added [OF w] by blast
  have h1: "canon (archiveHome A) fs1 = Some h" "dir_at h fs1"
    using h fs1(2) canon_more_dirs [of "arch_fs A" fs1, OF _ h(1)] by (auto simp: made_def)
  have c1: "canon ?p fs1 = Some (h @ cs @ [''data''])"
    using state_canon(2) [OF w(1) h1(1) w(3) h1(2)] fs1(2) by (simp add: made_def)
  then obtain fs2 where fs2: "out_text False ?p (m_getString m ''body'') fs1 = Some fs2"
    using fs1(2) by (auto simp: out_text_def ft_write_def made_def)
  note k = ft_write_file_at [OF fs2 [unfolded out_text_def]] ft_write_canon [OF fs2 [unfolded out_text_def]]
  have fl: "file_at q fs2 = (if q = h @ cs @ [''data''] then Some (m_getString m ''body'' @ newline) else file_at q (arch_fs A))" for q
    using k(1) [of q] c1 fs1(2) by (auto simp: made_def)
  have "h @ take i cs \<noteq> h @ cs @ [''data'']" for i by (auto dest: arg_cong [where f = length])
  then have free: "resource_free (A\<lparr>arch_fs := fs2\<rparr>) h cs"
    using w(2) h1 fs1(2) by (auto simp: resource_free_def fl k(2,3) made_def)
  obtain m' es where n: "notice ''PUT'' ?u (as_putConf (m_erase_url m)) ss = (m', es)" by fastforce
  have "\<not> ft_isDir ?p (arch_fs A)" using state_canon(1) [OF w(1) h(1) w(3)] h(3) by (auto simp: ft_isDir_iff)
  then have "putLog ss m A = Some (m_add m_answer ''body'' ''OK'', m', es, A\<lparr>arch_fs := fs2\<rparr>)"
    using writable_permission [OF w(1), of "['''', ''data'']" WRITE] rp fs1(1) fs2 n r b
    by (simp add: putLog_def Let_def)
  with free fl show ?thesis by blast
qed

definition line_text :: "string \<Rightarrow> bool" where
  "line_text x \<longleftrightarrow> x \<noteq> '''' \<and> CHR 0x0A \<notin> set x \<and> x \<noteq> ''Not Found'' \<and> x \<noteq> ''Forbidden''"

text \<open>A record that the XML reader does not take for the description of a video.\<close>

definition not_video :: "(string \<Rightarrow> xnode list) \<Rightarrow> string \<Rightarrow> bool" where
  "not_video parse x \<longleftrightarrow>
     (case second_node (parse (xml_header @ x)) of
        None \<Rightarrow> False
      | Some None \<Rightarrow> True
      | Some (Some d) \<Rightarrow> getAttrbyName (ToElement (Some d)) ''format'' \<noteq> ''video'')"

lemma getLast_line:
  assumes "writable A cs" "resource_free A h cs" "plain_name x" "m_getString req ''url'' = slashed (cs @ [x])"
    and "data_file h cs A = Some (t @ newline)" "line_text t" "not_video parse t"
  shows "getLast parse req ft A = Some (t, ft)"
proof -
  let ?p = "archiveHome A @ ''/'' @ slashed cs"
  have "CHR ''/'' \<in> set ?p" by simp
  then have n: "?p @ ''/data'' \<noteq> ''Not Found''" "?p @ ''/data'' \<noteq> ''Forbidden''" by (intro notI, simp)+
  have d: "dir_at (h @ cs) (arch_fs A)" using file_at_parent [OF assms(5)] by (simp add: butlast_append)
  have "canon (?p @ ''/data'') (arch_fs A) = Some (h @ cs @ [''data''])"
    using resource_canon(2) [OF assms(1,2) d] assms(2) by (simp add: resource_free_def)
  with assms(5) have o: "open_in (?p @ ''/data'') (arch_fs A) = TextStream (t @ newline)" "ft_isFile (?p @ ''/data'') (arch_fs A)"
    by (simp_all add: open_in_read [symmetric] ft_read_def ft_isFile_def)
  have "text_lines (t @ newline) = [t]"
    using assms(6) split_names_step [of "CHR 0x0A" t "''''"] by (simp add: text_lines_def newline_def line_text_def split_names.simps [of _ "[]"])
  then have l: "last_line '''' (eof_lines (t @ newline)) = t"
    using assms(6) by (simp add: eof_lines_def newline_def line_text_def)
  have "getLatestData ?p (arch_fs A) = ?p @ ''/data''" using o(2) by (simp add: getLatestData_def)
  moreover have "deref_media parse t ft A = Some (t, ft)"
    using assms(7) by (auto simp: not_video_def deref_media_def Let_def split: option.splits)
  ultimately show ?thesis using getExec_resource [OF assms(1,3,4)] n o(1) l
    by (simp add: getLast_def Let_def)
qed

text \<open>C17: The state of a device survives the way through the archive. After a PUT of a record for the
  device, answered with \<open>OK\<close>, every later status request of the same device reports the state that
  this record names: true for \<^verbatim>\<open>1\<close> and \<^verbatim>\<open>ON\<close>, false otherwise.\<close>

theorem rest_state_read_back:
  assumes "device_of uri = Some dev" "device_of uri2 = Some dev" "k \<in> set dev_methods"
    and "cs = [''event'', dev @ ''_state'']"
    and "writable (rs_archive S) cs" "resource_free (rs_archive S) h cs" "archiveHome (rs_archive S) \<noteq> ''''"
    and "line_text body" "not_video (lib_xml L) body" "lib_json L body = Some pt" "pt_get ''value'' pt = Some v"
  shows "\<exists>m es S' m2. logger_exec L now uri ''putLog'' body S = Some (Done m, es, S') \<and> m_getString m ''body'' = ''OK''
     \<and> logger_exec L now2 uri2 k '''' S' = Some (Done m2, [], S')
     \<and> m_getString m2 ''body'' = device_head dev @ quote @ '','' @ quote @ ''status'' @ quote @ '':'' @ quote
          @ (if v = ''1'' \<or> v = ''ON'' then ''true'' else ''false'') @ quote @ device_tail"
proof -
  let ?A = "rs_archive S" and ?u = "state_url cs"
  have u: "''/event/'' @ dev @ ''_state/'' = ?u" "''/event/'' @ dev @ ''_state/last'' = slashed (cs @ [''last''])"
    using assms(4) by simp_all
  let ?m = "m_add (m_add (m_type ''httprequest'') ''url'' ?u) ''body'' body"
  have mt: "m_type ''httprequest'' = m_new ''httprequest'' ''*''" by (simp add: m_type_def m_new_def)
  have m: "m_texts ?m" "m_getString ?m ''url'' = ?u" "m_getString ?m ''body'' = body" unfolding mt by simp_all
  obtain m' es fs where p: "putLog (rs_bus S) ?m ?A = Some (m_add m_answer ''body'' ''OK'', m', es, ?A\<lparr>arch_fs := fs\<rparr>)"
    "resource_free (?A\<lparr>arch_fs := fs\<rparr>) h cs" "file_at (h @ cs @ [''data'']) fs = Some (body @ newline)"
    using putLog_state [OF assms(5-7) m(1,2), of "rs_bus S"] m(3) by auto
  have df: "m_texts m_default" by (simp add: m_default_def m_texts_def m_wf_def)
  have ok: "m_getString (m_add m_answer ''body'' ''OK'') ''body'' = ''OK''"
    using answer_ok [of "''body''"] by (simp add: answers_def)
  let ?S = "S\<lparr>rs_archive := ?A\<lparr>arch_fs := fs\<rparr>\<rparr>"
  have nd: "''putLog'' \<notin> set dev_methods" by code_simp
  have "logger_call L now uri dev ''putLog'' body S = Some (''OK'', es, ?S)"
    using nd unfolding logger_call_def Let_def u(1) by (simp add: p(1) ok)
  then have 1: "logger_exec L now uri ''putLog'' body S = Some (Done (m_add (m_add m_default ''content'' ''application/json'') ''body'' ''OK''), es, ?S)"
    using assms(1) by (simp add: logger_exec_def)
  have "getLast (lib_xml L) (state_request (slashed (cs @ [''last'']))) '''' (?A\<lparr>arch_fs := fs\<rparr>) = Some (body, '''')"
    using assms(5,8,9) p(2,3) df
    by (intro getLast_line [where h = h and cs = cs and x = "''last''"]) (simp_all add: state_request_def plain_name_def)
  then have "getDevStatus L dev (?A\<lparr>arch_fs := fs\<rparr>) = Some (device_head dev @ quote @ '','' @ quote @ ''status'' @ quote @ '':'' @ quote
          @ (if v = ''1'' \<or> v = ''ON'' then ''true'' else ''false'') @ quote @ device_tail)" (is "_ = Some ?r")
    using assms(8,10,11) unfolding getDevStatus_def u(2) by (simp add: line_text_def)
  then have "logger_call L now2 uri2 dev k '''' ?S = Some (?r, [], ?S)"
    using assms(3) by (simp add: logger_call_def Let_def)
  then obtain c where "logger_exec L now2 uri2 k '''' ?S = Some (Done (m_add (m_add m_default ''content'' c) ''body'' ?r), [], ?S)"
    using assms(2) by (simp add: logger_exec_def)
  moreover have "m_getString (m_add (m_add m_default ''content'' x) ''body'' y) ''body'' = y" for x y using df by simp
  ultimately show ?thesis using 1 by blast
qed

subsection \<open>Behaviours to know\<close>

text \<open>A PUT or POST that fails is reported with code 200 unless its answer is JSON: the error text is
  looked for in the encoded message.\<close>

lemma put_reports_success: "m_getString m ''content'' \<noteq> ''application/json'' \<Longrightarrow> resp_code (put_response m) = 200"
  by (simp add: put_response_def Let_def code_of_def m_xmlEncode_def message_open_def)

text \<open>An unknown method of the archive is wrapped as if it were a list of records.\<close>

lemma unknown_method_wrapped:
  "archive_exec L now ''/x'' ''nonsense'' '''' S
     = Some (Done (m_add (m_add m_default ''content'' ''plain/text'') ''body'' (xml_header @ ''<list>Invalid method</list>'')), [], S)"
  by (simp add: archive_exec_def archive_call_def Let_def content_type_def wrap_list_def)

text \<open>A status request of a category ends the process when one of its devices has no record.\<close>

lemma category_without_record:
  "getLast (lib_xml L) (state_request (''/devices/'' @ c @ ''/'' @ f @ ''/last'')) '''' A = Some (''Not Found'', t)
     \<Longrightarrow> cat_devices L c A (f # fs) = None"
  by (simp add: Let_def)

subsection \<open>Examples\<close>

definition example_libs :: libs where
  "example_libs = \<lparr>lib_regex = (\<lambda>re s. Some (re = ''(.)+'' \<or> re = s)),
     lib_json = (\<lambda>s. if s = ''state on'' then Some (PTree '''' [(''value'', PTree ''ON'' [])]) else None),
     lib_xml = (\<lambda>s. [XDeclaration]), lib_float = (\<lambda>s. None), lib_junk = 0\<rparr>"

definition example_now :: rest_now where
  "example_now = \<lparr>rn_time = 0, rn_tm = \<lparr>tm_sec = 0, tm_min = 0, tm_hour = 0, tm_mday = 1, tm_mon = 0, tm_year = 114, tm_wday = 3,
     tm_yday = 0, tm_isdst = 0\<rparr>, rn_config = ''/conf'', rn_home = ''/home''\<rparr>"

definition example_routes :: "xnode list" where
  "example_routes = [XDeclaration, XElement ''routes'' [] [XElement ''route'' []
     [XElement ''uri'' [(''path'', ''/cmdw/:dev/:value''), (''method'', ''GET'')] [],
      XElement ''conditions'' [] [XElement ''condition'' [(''param'', '':dev''), (''regexp'', ''(.)+'')] [],
        XElement ''condition'' [(''param'', '':value''), (''regexp'', ''(.)+'')] []],
      XElement ''call'' [(''class'', ''cmdroute''), (''method'', ''cmdExec'')] []]]]"

definition example_server :: rest_server where
  "example_server = \<lparr>rs_routes = snd (the (routes_load loadClasses (Xml example_routes))),
     rs_archive = example_archive\<lparr>accessInfo := [(''event'', \<lparr>temporalWindow = 7, rd_prefix = ''/home'', visibility = [''*'']\<rparr>)]\<rparr>,
     rs_index = [], rs_rpc = Some rpc_new, rs_bus = add_subject ''cmd'' ''lamp'' []\<rparr>"

definition example_route :: route where
  "example_route = hd (rs_routes example_server)"


lemma example_server_writable: "writable (rs_archive example_server) [''event'', ''lamp'' @ ''_state'']"
  by code_simp

lemma example_server_free: "resource_free (rs_archive example_server) [''home''] [''event'', ''lamp'' @ ''_state'']"
proof -
  have "\<forall>i \<in> set [0, 1, 2]. file_at ([''home''] @ take i [''event'', ''lamp'' @ ''_state'']) (arch_fs (rs_archive example_server)) = None"
    by code_simp
  then have "file_at ([''home''] @ take i [''event'', ''lamp'' @ ''_state'']) (arch_fs (rs_archive example_server)) = None" if "i \<le> 2" for i
    using that by (cases "i = 0"; cases "i = 1") auto
  moreover have "canon (archiveHome (rs_archive example_server)) (arch_fs (rs_archive example_server)) = Some [''home'']"
    "dir_at [''home''] (arch_fs (rs_archive example_server))"
    "\<not> dir_at ([''home''] @ [''event'', ''lamp'' @ ''_state''] @ [''data'']) (arch_fs (rs_archive example_server))" by code_simp+
  ultimately show ?thesis by (simp add: resource_free_def)
qed

theorem rest_state_read_back_witness:
  "\<exists>m es S' m2. logger_exec example_libs example_now ''/logger/lamp.json'' ''putLog'' ''state on'' example_server = Some (Done m, es, S')
     \<and> m_getString m ''body'' = ''OK''
     \<and> logger_exec example_libs example_now ''/status/lamp.json'' ''getLightStatus'' '''' S' = Some (Done m2, [], S')
     \<and> m_getString m2 ''body'' = device_head ''lamp'' @ quote @ '','' @ quote @ ''status'' @ quote @ '':'' @ quote
          @ ''true'' @ quote @ device_tail"
proof -
  have d: "device_of ''/logger/lamp.json'' = Some ''lamp''" "device_of ''/status/lamp.json'' = Some ''lamp''"
    "''getLightStatus'' \<in> set dev_methods" "archiveHome (rs_archive example_server) \<noteq> ''''" by code_simp+
  have l: "line_text ''state on''" "not_video (lib_xml example_libs) ''state on''"
    "lib_json example_libs ''state on'' = Some (PTree '''' [(''value'', PTree ''ON'' [])])"
    "pt_get ''value'' (PTree '''' [(''value'', PTree ''ON'' [])]) = Some ''ON''" by code_simp+
  from rest_state_read_back [OF d(1-3) refl example_server_writable example_server_free d(4) l] show ?thesis by simp
qed

end
