(* ===== verification/Web_Users.thy ===== *)
theory Web_Users
  imports Web_Service Archive_Reports "HOL-Library.Monad_Syntax"
begin

text \<open>
  The users of the web service (\<^verbatim>\<open>src/agents/WSServer\<close>): the reader of lists of records
  in JSON (\<^verbatim>\<open>JParser.cpp\<close>), a user as a parameter set (\<^verbatim>\<open>User.cpp\<close>) and the
  handlers that add, list, update and check users (\<^verbatim>\<open>AuthManager*.cpp\<close>). The mutex that
  the handlers take is part of the state, because it is not recursive: a second lock by the thread
  that holds it never returns, which is \<open>None\<close>, like an exception of the JSON library.
\<close>

subsection \<open>Lists of records\<close>

record string_pair =
  sp_first :: string
  sp_second :: string
  sp_third :: string
  sp_fourth :: string

definition sp_new :: string_pair where
  "sp_new = \<lparr>sp_first = '''', sp_second = '''', sp_third = '''', sp_fourth = ''''\<rparr>"

text \<open>The variable \<open>ww\<close> is the one of the whole loop.\<close>

fun jloop :: "(ptree \<Rightarrow> string_pair \<Rightarrow> string_pair option) \<Rightarrow> string_pair \<Rightarrow> ptree list \<Rightarrow> (string_pair list) option" where
  "jloop f ww [] = Some []"
| "jloop f ww (v # vs) = do { w \<leftarrow> f v ww; ws \<leftarrow> jloop f w vs; Some (w # ws) }"

definition jparser1 :: "string \<Rightarrow> ptree \<Rightarrow> (string_pair list) option" where
  "jparser1 k1 pt = jloop (\<lambda>v ww. do { a \<leftarrow> pt_get k1 v; Some (ww\<lparr>sp_first := a\<rparr>) }) sp_new (pt_children pt)"

definition jparser2 :: "string \<Rightarrow> string \<Rightarrow> ptree \<Rightarrow> (string_pair list) option" where
  "jparser2 k1 k2 pt =
     jloop (\<lambda>v ww. do { a \<leftarrow> pt_get k1 v; b \<leftarrow> pt_get k2 v; Some (ww\<lparr>sp_first := a, sp_second := b\<rparr>) }) sp_new (pt_children pt)"

text \<open>The constructors with three and four keys store every value after the first in the same field.\<close>

definition jparser3 :: "string \<Rightarrow> string \<Rightarrow> string \<Rightarrow> ptree \<Rightarrow> (string_pair list) option" where
  "jparser3 k1 k2 k3 pt =
     jloop (\<lambda>v ww. do { a \<leftarrow> pt_get k1 v; b \<leftarrow> pt_get k2 v; c \<leftarrow> pt_get k3 v;
                        Some (ww\<lparr>sp_first := a, sp_second := b, sp_second := c\<rparr>) }) sp_new (pt_children pt)"

definition jparser4 :: "string \<Rightarrow> string \<Rightarrow> string \<Rightarrow> string \<Rightarrow> ptree \<Rightarrow> (string_pair list) option" where
  "jparser4 k1 k2 k3 k4 pt =
     jloop (\<lambda>v ww. do { a \<leftarrow> pt_get k1 v; b \<leftarrow> pt_get k2 v; c \<leftarrow> pt_get k3 v; d \<leftarrow> pt_get k4 v;
                        Some (ww\<lparr>sp_first := a, sp_second := b, sp_second := c, sp_second := d\<rparr>) }) sp_new (pt_children pt)"

subsection \<open>Users\<close>

definition user_new :: "file_store \<Rightarrow> string \<Rightarrow> string \<Rightarrow> string \<Rightarrow> mparams option" where
  "user_new fs configdir homedir name = map_option snd (mp_load fs (mp_new_dir configdir homedir ''users'' name))"

definition user_getField :: "mparams \<Rightarrow> string \<Rightarrow> string" where
  "user_getField u field = (let val = mp_get u field in if val \<noteq> '''' then val else mp_get u (mp_get_cat u field ''alias''))"

definition user_setField :: "string \<Rightarrow> string \<Rightarrow> mparams \<Rightarrow> bool \<times> mparams" where
  "user_setField field v u =
     (if v \<noteq> ''true'' \<and> v \<noteq> ''false'' then (False, u)
      else if mp_get u field = '''' then (True, snd (mp_set u field v))
      else let name = mp_get_cat u field ''alias''
           in if name \<noteq> '''' then (True, snd (mp_set u name v)) else (False, u))"

type_synonym users = "(string, mparams) smap"

record auth =
  au_par :: mparams
  user_template :: mparams
  au_users :: users
  au_held :: bool

definition au_lock :: "auth \<Rightarrow> auth option" where
  "au_lock A = (if au_held A then None else Some (A\<lparr>au_held := True\<rparr>))"

definition au_unlock :: "auth \<Rightarrow> auth" where
  "au_unlock A = A\<lparr>au_held := False\<rparr>"

fun load_users :: "(string \<Rightarrow> mparams option) \<Rightarrow> string list \<Rightarrow> users \<Rightarrow> users option" where
  "load_users new [] us = Some us"
| "load_users new (f # fs) us =
     do { u \<leftarrow> new (getStem f); load_users new fs (sm_put (getStem f) u us) }"

fun load_config_users :: "(string \<Rightarrow> mparams option) \<Rightarrow> string list \<Rightarrow> mparams \<Rightarrow> users \<Rightarrow> (mparams \<times> users) option" where
  "load_config_users new [] tmpl us = Some (tmpl, us)"
| "load_config_users new (f # fs) tmpl us =
     (if getStem f = ''user_template'' then do { u \<leftarrow> new (getStem f); load_config_users new fs u us }
      else if sm_count us (getStem f) = 0 then do { u \<leftarrow> new (getStem f); load_config_users new fs tmpl (sm_put (getStem f) u us) }
      else load_config_users new fs tmpl us)"

text \<open>The list of files of the home directory is not cleared before the second directory is read.\<close>

definition auth_init ::
  "file_store \<Rightarrow> string \<Rightarrow> string \<Rightarrow> directory \<Rightarrow> directory \<Rightarrow> string \<Rightarrow> auth \<Rightarrow> (auth \<times> effect list) option" where
  "auth_init fs configdir homedir home_dir config_dir file A =
     (let new = user_new fs configdir homedir; files = snd (fileList home_dir)
      in do {
           (b, par) \<leftarrow> mp_load fs (mp_new configdir homedir file);
           us1 \<leftarrow> load_users new files (au_users A);
           (tmpl, us2) \<leftarrow> (if config_dir = None then Some (user_template A, us1)
                           else load_config_users new (files @ snd (fileList config_dir)) (user_template A) us1);
           Some (A\<lparr>au_par := par, user_template := tmpl, au_users := us2\<rparr>, map (\<lambda>(n, u). SaveFile (mp_save u)) us2)
         })"

subsection \<open>Listing\<close>

definition tabs :: "nat \<Rightarrow> string" where
  "tabs n = replicate n (CHR 0x09)"

definition answer_open :: string where
  "answer_open = ''{'' @ quote @ ''response'' @ quote @ '':'' @ newline @ tabs 1 @ ''{'' @ json_field ''message'' ''ok'' @ '',''"

definition answer_close :: "nat \<Rightarrow> string" where
  "answer_close n = newline @ tabs n @ '']'' @ newline @ tabs 1 @ ''}'' @ newline @ ''}'' @ newline"

definition user_item :: "bool \<Rightarrow> string \<times> mparams \<Rightarrow> string" where
  "user_item first nu =
     (if first then quote @ ''users'' @ quote @ '': ['' @ newline else '','' @ newline) @ tabs 2 @ ''{'' @ json_field ''name'' (fst nu) @ '',''
     @ json_field ''enable_status'' (mp_get (snd nu) ''enable_status'') @ ''}''"

fun user_items :: "bool \<Rightarrow> users \<Rightarrow> string" where
  "user_items first [] = ''''"
| "user_items first (nu # us) = user_item first nu @ user_items False us"

definition user_answer :: "mparams \<Rightarrow> string" where
  "user_answer u =
     (let op = (\<lambda>name key. ''{'' @ json_field name (mp_get u key) @ ''}''); sep = '','' @ newline @ tabs 3
      in answer_open @ json_field ''password'' (mp_get u ''passwd'') @ '','' @ newline @ tabs 2
         @ json_field ''administration_access'' (mp_get u ''Administration'') @ '','' @ newline @ tabs 2
         @ quote @ ''Alarm_operations'' @ quote @ '': ['' @ newline @ tabs 3
         @ op ''Manual'' ''Alarm_manual'' @ sep @ op ''Auto'' ''Alarm_auto'' @ sep @ op ''Zones'' ''Alarm_Zones'' @ sep
         @ op ''On/OFF'' ''Alarm_OFF'' @ answer_close 3)"

text \<open>A name that is not in the map is inserted by the first read of its entry.\<close>

definition auth_execGet :: "string list \<Rightarrow> auth \<Rightarrow> (mmessage \<times> auth) option" where
  "auth_execGet params A0 =
     do {
       A \<leftarrow> au_lock A0;
       if length params < 3 then Some (m_add m_default ''body'' ''Not found'', au_unlock A)
       else if length params = 3
       then Some (m_add m_default ''body'' (answer_open @ user_items True (au_users A) @ answer_close 2), au_unlock A)
       else if length params = 4
       then (case fst (nl_init [] (params ! 3) (CHR ''.'')) of
               [] \<Rightarrow> None
             | name # _ \<Rightarrow>
                 let us = sm_insert name mp_default (au_users A)
                 in Some (m_add m_default ''body'' (user_answer (the (sm_find us name))), au_unlock (A\<lparr>au_users := us\<rparr>)))
       else Some (m_default, au_unlock A)
     }"

subsection \<open>Checks\<close>

definition isUniquePasswd :: "string \<Rightarrow> string \<Rightarrow> users \<Rightarrow> bool" where
  "isUniquePasswd name passwd us = list_all (\<lambda>(n, u). n = name \<or> mp_get u ''passwd'' \<noteq> passwd) us"

text \<open>The name in front of the dot is read for every user; without one there is no first element.\<close>

definition getUserOf :: "string \<Rightarrow> string \<Rightarrow> users \<Rightarrow> string option" where
  "getUserOf capability pwd us =
     (case fst (nl_init [] pwd (CHR ''.'')) of
        [] \<Rightarrow> if us = [] then Some '''' else None
      | p # _ \<Rightarrow>
          Some (case find (\<lambda>(n, u). mp_get u ''passwd'' = p \<and> user_getField u capability = ''true'') us of
                  None \<Rightarrow> '''' | Some (n, u) \<Rightarrow> n))"

definition auth_execCheck :: "string list \<Rightarrow> auth \<Rightarrow> (mmessage \<times> auth) option" where
  "auth_execCheck params A0 =
     do {
       A \<leftarrow> au_lock A0;
       if length params \<noteq> 4 then Some (m_add m_default ''body'' ''Not found'', au_unlock A)
       else do {
         answer \<leftarrow> getUserOf (params ! 2) (params ! 3) (au_users A);
         let body = (if answer \<noteq> '''' then fst (strReplace (mp_get (au_par A) ''passwd_check_answer'') ''$USERNAME'' answer)
                     else ''Forbidden'');
         Some (m_add m_default ''body'' (filterChar body), au_unlock A)
       }
     }"

subsection \<open>Changes\<close>

text \<open>Erasing the end of the map, where an unknown name leads, is undefined.\<close>

definition deleteUser :: "string \<Rightarrow> users \<Rightarrow> (bool \<times> users) option" where
  "deleteUser name us =
     (if name = ''admin'' then Some (False, us)
      else if sm_find us name = None then None else Some (True, sm_erase name us))"

fun delete_users :: "string list \<Rightarrow> users \<Rightarrow> users option" where
  "delete_users [] us = Some us"
| "delete_users (n # ns) us = do { (b, us') \<leftarrow> deleteUser n us; delete_users ns us' }"

definition user_set_status :: "string \<Rightarrow> string \<Rightarrow> users \<Rightarrow> users \<times> effect list" where
  "user_set_status name status us =
     (case sm_find us name of
        None \<Rightarrow> (us, [])
      | Some u \<Rightarrow> let u' = snd (mp_set u ''enable_status'' status) in (sm_put name u' us, [SaveFile (mp_save u')]))"

definition mark_missing :: "users \<Rightarrow> (string, bool) smap \<Rightarrow> (string, bool) smap" where
  "mark_missing us cur = fold (\<lambda>(n, u) c. sm_insert (mp_get u ''username'') False c) us cur"

text \<open>The search for users that are not in the list, and their deletion, stand inside the loop over the list.\<close>

fun update_users :: "string_pair list \<Rightarrow> (string, bool) smap \<Rightarrow> users \<Rightarrow> (users \<times> effect list) option" where
  "update_users [] cur us = Some (us, [])"
| "update_users (p # ps) cur us =
     (let (us1, es1) = user_set_status (sp_first p) (sp_second p) us;
          cur' = mark_missing us1 (sm_put (sp_first p) True cur)
      in do {
           us2 \<leftarrow> delete_users (map fst (filter (\<lambda>(n, b). \<not> b) cur')) us1;
           (us3, es3) \<leftarrow> update_users ps cur' us2;
           Some (us3, es1 @ es3)
         })"

definition addUser ::
  "json_reader \<Rightarrow> file_store \<Rightarrow> string \<Rightarrow> string \<Rightarrow> string \<Rightarrow> string \<Rightarrow> mmessage \<Rightarrow> auth \<Rightarrow>
   (bool \<times> mmessage \<times> auth \<times> effect list) option" where
  "addUser read_json fs configdir homedir name body res A0 =
     do {
       A \<leftarrow> au_lock A0;
       let answer = mp_get (au_par A) ''add_user_answer'';
       let fill = (\<lambda>a b c. filterChar (fst (strReplace (fst (strReplace (fst (strReplace answer ''$UPLOAD'' a)) ''$UNIVOCALNAME'' b))
                     ''$UNIVOCALPASSWD'' c)));
       if sm_count (au_users A) name > 0
       then Some (False, m_add res ''body'' (fill ''false'' ''false'' ''false''), au_unlock A, [])
       else do {
         u0 \<leftarrow> user_new fs configdir homedir name;
         let u1 = fold (\<lambda>a u. mp_add_cat u (ma_name a) (ma_category a) (ma_value a)) (attrs (user_template A)) u0;
         let u2 = mp_add u1 ''username'' name;
         pt \<leftarrow> read_json body;
         pw \<leftarrow> pt_get ''password'' pt;
         adm \<leftarrow> pt_get ''administration_access'' pt;
         ptu \<leftarrow> get_child ''alarm_operations'' pt;
         ops \<leftarrow> jparser2 ''name'' ''selection_status'' ptu;
         let u3 = mp_add (mp_add u2 ''passwd'' pw) ''Administration'' adm;
         let u4 = fold (\<lambda>p u. snd (user_setField (sp_first p) (sp_second p) u)) ops u3;
         let us = sm_put name u4 (au_users A);
         Some (True, m_add res ''body''
                 (fill ''true'' ''true'' (if isUniquePasswd name (mp_get u4 ''passwd'') us then ''true'' else ''false'')),
               au_unlock (A\<lparr>au_users := us\<rparr>), [SaveFile (mp_save u4)])
       }
     }"

definition auth_execSet ::
  "json_reader \<Rightarrow> file_store \<Rightarrow> string \<Rightarrow> string \<Rightarrow> string list \<Rightarrow> string \<Rightarrow> auth \<Rightarrow> (mmessage \<times> auth \<times> effect list) option" where
  "auth_execSet read_json fs configdir homedir params body A0 =
     do {
       A \<leftarrow> au_lock A0;
       if length params < 3 then Some (m_add m_default ''body'' ''Not found'', au_unlock A, [])
       else do {
         (res, A1, es) \<leftarrow>
           (if params ! 2 = ''Users.json'' \<and> body \<noteq> '''' then do {
              pt \<leftarrow> read_json body;
              ptu \<leftarrow> get_child ''Users'' pt;
              l \<leftarrow> jparser2 ''name'' ''enable_status'' ptu;
              (us, es) \<leftarrow> update_users l [] (au_users A);
              Some (m_add m_default ''body'' (filterChar (mp_get (au_par A) ''wr_users_answer'')), A\<lparr>au_users := us\<rparr>, es)
            } else Some (m_default, A, []));
         if length params = 4 \<and> params ! 2 = ''Users''
         then (case fst (nl_init [] (params ! 3) (CHR ''.'')) of
                 [] \<Rightarrow> None
               | name # _ \<Rightarrow> do {
                   (b, res', A2, es') \<leftarrow> addUser read_json fs configdir homedir name body res A1;
                   Some (res', au_unlock A2, es @ es')
                 })
         else Some (m_add res ''body'' ''Not found'', au_unlock A1, es)
       }
     }"

subsection \<open>Who has a password\<close>

lemma find_ordered:
  assumes "sm_ordered m"
  shows "map_option fst (find (\<lambda>(n, u). P u) m)
     = (let S = {n. \<exists>u. sm_find m n = Some u \<and> P u} in if S = {} then None else Some (Min S))"
proof (cases "find (\<lambda>(n, u). P u) m")
  case None
  then have "\<not> P u" if "sm_find m n = Some u" for n u
    using sm_find_in_set [OF that] by (auto simp: find_None_iff)
  with None show ?thesis by (auto simp: Let_def)
next
  case (Some nu)
  obtain n u where nu: "nu = (n, u)" by (rule prod.exhaust)
  from Some obtain i where i: "i < length m" "m ! i = (n, u)" "P u" "\<forall>j<i. \<not> (\<lambda>(n, u). P u) (m ! j)"
    by (auto simp: find_Some_iff nu)
  let ?S = "{n. \<exists>u. sm_find m n = Some u \<and> P u}"
  have "?S \<subseteq> fst ` set m" by (auto dest: sm_find_in_set intro!: image_eqI)
  then have fin: "finite ?S" by (rule finite_subset) simp
  have "sm_find m n = Some u"
    by (rule sm_ordered_find [OF assms]) (metis i(1,2) nth_mem)
  then have inS: "n \<in> ?S" using i(3) by auto
  have "n \<le> k" if "k \<in> ?S" for k
  proof -
    from that obtain v where v: "(k, v) \<in> set m" "P v" by (auto dest: sm_find_in_set)
    then obtain j where j: "j < length m" "m ! j = (k, v)" by (auto simp: in_set_conv_nth)
    with i(4) v(2) have "\<not> j < i" by auto
    then consider "j = i" | "i < j" by linarith
    then show ?thesis
    proof cases
      case 1 then show ?thesis using i(2) j(2) by simp
    next
      case 2
      with sorted_wrt_nth_less [OF assms, of i j] j i(2) show ?thesis by simp
    qed
  qed
  with fin inS have "Min ?S = n" by (intro Min_eqI) auto
  with inS Some nu show ?thesis by (auto simp: Let_def)
qed

lemma m_default_texts [simp]: "m_texts m_default"
  by (simp add: m_default_def m_texts_def m_wf_def)

text \<open>The users that hold a password and a capability.\<close>

definition holders :: "string \<Rightarrow> string \<Rightarrow> users \<Rightarrow> string set" where
  "holders capability p us =
     {n. \<exists>u. sm_find us n = Some u \<and> mp_get u ''passwd'' = p \<and> user_getField u capability = ''true''}"

lemma finite_holders: "finite (holders capability p us)"
  by (rule finite_subset [of _ "fst ` set us"]) (auto simp: holders_def dest: sm_find_in_set intro!: image_eqI)

lemma getUserOf_holders:
  assumes "sm_ordered us" and "fst (nl_init [] pwd (CHR ''.'')) = p # ps"
  shows "getUserOf capability pwd us = Some (let H = holders capability p us in if H = {} then '''' else Min H)"
proof -
  let ?P = "\<lambda>u. mp_get u ''passwd'' = p \<and> user_getField u capability = ''true''"
  have "getUserOf capability pwd us = Some (case map_option fst (find (\<lambda>(n, u). ?P u) us) of None \<Rightarrow> '''' | Some n \<Rightarrow> n)"
    by (simp add: getUserOf_def assms(2) split: option.split)
  also have "map_option fst (find (\<lambda>(n, u). ?P u) us)
      = (let H = holders capability p us in if H = {} then None else Some (Min H))"
    using find_ordered [OF assms(1), of ?P] by (simp add: holders_def)
  finally show ?thesis by (simp add: Let_def)
qed

text \<open>A check of a password against a capability returns the state unchanged and answers with the
  first user, in the order of the names, whose password it is and who has the capability; it is
  refused when there is no such user (a user with an empty name counts as none).
\<close>

lemma password_check:
  assumes "\<not> au_held A" and "sm_ordered (au_users A)" and "length params = 4"
    and "fst (nl_init [] (params ! 3) (CHR ''.'')) = p # ps"
  shows "\<exists>m. auth_execCheck params A = Some (m, A)
     \<and> m_getString m ''body'' = (let H = holders (params ! 2) p (au_users A)
         in if H = {} \<or> '''' \<in> H then ''Forbidden''
            else filterChar (fst (strReplace (mp_get (au_par A) ''passwd_check_answer'') ''$USERNAME'' (Min H))))"
proof -
  let ?H = "holders (params ! 2) p (au_users A)"
  have "'''' \<in> ?H \<Longrightarrow> Min ?H = ''''" using finite_holders by (intro Min_eqI) auto
  moreover have "?H \<noteq> {} \<Longrightarrow> Min ?H \<in> ?H" using finite_holders by (rule Min_in)
  ultimately have e: "(if ?H = {} then '''' else Min ?H) \<noteq> '''' \<longleftrightarrow> \<not> (?H = {} \<or> '''' \<in> ?H)"
    by (cases "?H = {}") auto
  show ?thesis
    unfolding auth_execCheck_def
    using assms(1,3) e
    by (auto simp: au_lock_def au_unlock_def getUserOf_holders [OF assms(2,4)] Let_def)
qed

subsection \<open>Updates of the list\<close>

definition named_users :: "users \<Rightarrow> bool" where
  "named_users us \<longleftrightarrow> sm_ordered us \<and> (\<forall>n u. sm_find us n = Some u \<longrightarrow> mp_get u ''username'' = n)"

text \<open>The users after a change: those with a name in a set, with no field but the status changed.\<close>

definition same_user :: "mparams \<Rightarrow> mparams \<Rightarrow> bool" where
  "same_user u u' \<longleftrightarrow> (\<forall>f. f \<noteq> ''enable_status'' \<longrightarrow> mp_get u' f = mp_get u f)"

definition kept_users :: "string set \<Rightarrow> users \<Rightarrow> users \<Rightarrow> bool" where
  "kept_users N us us' \<longleftrightarrow> sm_ordered us'
     \<and> (\<forall>n. rel_option same_user (if n \<in> N then sm_find us n else None) (sm_find us' n))"

lemma same_user_refl [simp]: "same_user u u"
  by (simp add: same_user_def)

lemma same_user_set [simp]: "same_user u (snd (mp_set u ''enable_status'' v))"
  using set_loop_split [of "key_is ''enable_status'' ''generic''" v "attrs u"]
  by (auto simp: same_user_def mp_get_def mp_set_def get_loop_append split: option.split)

lemma kept_find:
  assumes "kept_users N us us'"
  shows "sm_find us' n = None \<longleftrightarrow> n \<notin> N \<or> sm_find us n = None"
proof -
  from assms have "rel_option same_user (if n \<in> N then sm_find us n else None) (sm_find us' n)"
    by (simp add: kept_users_def)
  then show ?thesis by (auto simp: option.rel_sel Option.is_none_def split: if_splits)
qed

lemma kept_keys: "kept_users N us us' \<Longrightarrow> fst ` set us' = fst ` set us \<inter> N"
  using kept_find [of N us us'] by (auto simp: sm_find_None set_eq_iff)

lemma user_set_status_kept: "sm_ordered us \<Longrightarrow> kept_users UNIV us (fst (user_set_status n s us))"
  by (auto simp: kept_users_def user_set_status_def Let_def sm_ordered_put option.rel_refl split: option.split)

lemma kept_named:
  assumes "named_users us" and "kept_users N us us'"
  shows "named_users us'"
  unfolding named_users_def
proof (intro conjI allI impI)
  show "sm_ordered us'" using assms(2) by (simp add: kept_users_def)
  fix n u
  assume "sm_find us' n = Some u"
  moreover have "rel_option same_user (if n \<in> N then sm_find us n else None) (sm_find us' n)"
    using assms(2) by (simp add: kept_users_def)
  ultimately obtain v where "sm_find us n = Some v" "same_user v u"
    by (auto simp: option_rel_Some2 split: if_splits)
  with assms(1) show "mp_get u ''username'' = n" by (simp add: named_users_def same_user_def)
qed

lemma rel_same_trans: "rel_option same_user a b \<Longrightarrow> rel_option same_user b c \<Longrightarrow> rel_option same_user a c"
  by (cases a; cases b; cases c) (auto simp: same_user_def)

lemma kept_trans:
  assumes "kept_users M us us'" and "kept_users N us' us''"
  shows "kept_users (M \<inter> N) us us''"
  unfolding kept_users_def
proof (intro conjI allI)
  show "sm_ordered us''" using assms(2) by (simp add: kept_users_def)
  fix n
  have "rel_option same_user (if n \<in> M then sm_find us n else None) (sm_find us' n)"
    and "rel_option same_user (if n \<in> N then sm_find us' n else None) (sm_find us'' n)"
    using assms by (simp_all add: kept_users_def)
  then show "rel_option same_user (if n \<in> M \<inter> N then sm_find us n else None) (sm_find us'' n)"
    by (auto intro: rel_same_trans split: if_splits)
qed

lemma kept_cong:
  assumes "\<And>n. sm_find us n \<noteq> None \<Longrightarrow> n \<in> N \<longleftrightarrow> n \<in> M" and "kept_users N us us'"
  shows "kept_users M us us'"
proof -
  have "(if n \<in> M then sm_find us n else None) = (if n \<in> N then sm_find us n else None)" for n
    using assms(1) [of n] by (cases "sm_find us n") auto
  with assms(2) show ?thesis by (simp add: kept_users_def)
qed

lemma filter_keys: "sm_find (filter (\<lambda>(k, u). k \<in> N) m) n = (if n \<in> N then sm_find m n else None)"
  by (induction m) auto

lemma kept_filter: "sm_ordered us \<Longrightarrow> kept_users N us (filter (\<lambda>(k, u). k \<in> N) us)"
  by (auto simp: kept_users_def filter_keys option.rel_refl sorted_wrt_map sorted_wrt_filter)

lemma delete_users_filter:
  "distinct ns \<Longrightarrow> delete_users ns us =
     (if \<forall>n \<in> set ns. n = ''admin'' \<or> sm_find us n \<noteq> None
      then Some (filter (\<lambda>(k, u). k \<in> - (set ns - {''admin''})) us) else None)"
proof (induction ns arbitrary: us)
  case (Cons n ns)
  show ?case
  proof (cases "n = ''admin''")
    case True
    with Cons show ?thesis by (simp add: deleteUser_def)
  next
    case False
    let ?us = "sm_erase n us"
    have k: "n' \<in> set ns \<Longrightarrow> sm_find ?us n' = sm_find us n'" for n'
      using Cons.prems by auto
    have f: "filter (\<lambda>(k, u). k \<in> - (set ns - {''admin''})) ?us = filter (\<lambda>(k, u). k \<in> - (set (n # ns) - {''admin''})) us"
      unfolding sm_erase_def filter_filter by (rule filter_cong) (use False in auto)
    from False Cons k f show ?thesis by (auto simp: deleteUser_def)
  qed
qed simp

lemma mark_missing_find:
  "sm_find (mark_missing us cur) k = (case sm_find cur k of
     Some b \<Rightarrow> Some b | None \<Rightarrow> if \<exists>(n, u) \<in> set us. mp_get u ''username'' = k then Some False else None)"
  unfolding mark_missing_def
proof (induction us arbitrary: cur)
  case (Cons nu us)
  obtain n u where "nu = (n, u)" by (rule prod.exhaust)
  with Cons show ?case by (auto split: option.splits)
qed (simp split: option.split)

lemma mark_missing_ordered: "sm_ordered cur \<Longrightarrow> sm_ordered (mark_missing us cur)"
  unfolding mark_missing_def by (induction us arbitrary: cur) (auto simp: sm_ordered_insert)

lemma mark_missing_named:
  assumes "named_users us"
  shows "sm_find (mark_missing us cur) k = (case sm_find cur k of
     Some b \<Rightarrow> Some b | None \<Rightarrow> if sm_find us k = None then None else Some False)"
proof -
  have "mp_get u ''username'' = n \<and> sm_find us n = Some u" if "(n, u) \<in> set us" for n u
    using assms sm_ordered_find [OF _ that] by (simp add: named_users_def)
  moreover have "(k, u) \<in> set us" if "sm_find us k = Some u" for u
    using that by (rule sm_find_in_set)
  ultimately have "(\<exists>(n, u) \<in> set us. mp_get u ''username'' = k) \<longleftrightarrow> sm_find us k \<noteq> None"
    by fastforce
  then show ?thesis by (simp add: mark_missing_find split: option.split)
qed

definition unlisted :: "(string, bool) smap \<Rightarrow> string list" where
  "unlisted cur = map fst (filter (\<lambda>(n, b). \<not> b) cur)"

lemma unlisted_set: "sm_ordered cur \<Longrightarrow> set (unlisted cur) = {k. sm_find cur k = Some False}"
  by (force simp: unlisted_def sm_ordered_find dest: sm_find_in_set)

lemma unlisted_distinct: "sm_ordered cur \<Longrightarrow> distinct (unlisted cur)"
  unfolding unlisted_def using ordered_distinct [of cur] by (rule distinct_map_filter)

text \<open>One turn of the loop: whom it marks, and when the deletions are defined.\<close>

lemma update_turn:
  fixes p :: string_pair
  assumes us: "named_users us" and cur: "sm_ordered cur"
  defines "us1 \<equiv> fst (user_set_status (sp_first p) (sp_second p) us)"
  defines "cur' \<equiv> mark_missing us1 (sm_put (sp_first p) True cur)"
  defines "gone \<equiv> {k. sm_find cur' k = Some False} - {''admin''}"
  shows "update_users (p # ps) cur us =
      (if \<forall>n \<in> gone. sm_find us n \<noteq> None
       then map_option (\<lambda>(us3, es). (us3, snd (user_set_status (sp_first p) (sp_second p) us) @ es))
              (update_users ps cur' (filter (\<lambda>(k, u). k \<in> - gone) us1))
       else None)"
    and "sm_find cur' k = (if k = sp_first p then Some True else case sm_find cur k of
          Some b \<Rightarrow> Some b | None \<Rightarrow> if sm_find us k = None then None else Some False)"
    and "sm_ordered cur'" and "kept_users (- gone) us (filter (\<lambda>(k, u). k \<in> - gone) us1)"
proof -
  have k1: "kept_users UNIV us us1" using us by (simp add: us1_def user_set_status_kept named_users_def)
  then have n1: "named_users us1" using us by (rule kept_named [rotated])
  then have o1: "sm_ordered us1" by (simp add: named_users_def)
  show oc: "sm_ordered cur'" using cur by (simp add: cur'_def mark_missing_ordered sm_ordered_put)
  show "sm_find cur' k = (if k = sp_first p then Some True else case sm_find cur k of
          Some b \<Rightarrow> Some b | None \<Rightarrow> if sm_find us k = None then None else Some False)"
    unfolding cur'_def mark_missing_named [OF n1] using kept_find [OF k1, of k] by (auto split: option.split)
  from kept_trans [OF k1 kept_filter [OF o1, of "- gone"]]
  show "kept_users (- gone) us (filter (\<lambda>(k, u). k \<in> - gone) us1)" by simp
  have g: "set (unlisted cur') - {''admin''} = gone" using unlisted_set [OF oc] by (auto simp: gone_def)
  have "delete_users (unlisted cur') us1 =
      (if \<forall>n \<in> gone. sm_find us n \<noteq> None then Some (filter (\<lambda>(k, u). k \<in> - gone) us1) else None)"
    unfolding delete_users_filter [OF unlisted_distinct [OF oc]] g using kept_find [OF k1] unlisted_set [OF oc]
    by (auto simp: gone_def)
  then show "update_users (p # ps) cur us =
      (if \<forall>n \<in> gone. sm_find us n \<noteq> None
       then map_option (\<lambda>(us3, es). (us3, snd (user_set_status (sp_first p) (sp_second p) us) @ es))
              (update_users ps cur' (filter (\<lambda>(k, u). k \<in> - gone) us1))
       else None)"
    by (auto simp: us1_def [symmetric] cur'_def [symmetric] unlisted_def [symmetric] case_prod_beta Let_def
        map_conv_bind_option split: bind_split)
qed

lemma update_turn_vars:
  assumes "named_users us" and "sm_ordered cur"
  obtains gone cur' us1 es1 where "gone = {k. sm_find cur' k = Some False} - {''admin''}"
    and "\<And>k. sm_find cur' k = (if k = sp_first p then Some True else case sm_find cur k of
           Some b \<Rightarrow> Some b | None \<Rightarrow> if sm_find us k = None then None else Some False)"
    and "sm_ordered cur'" and "kept_users (- gone) us us1" and "named_users us1"
    and "\<And>ps. update_users (p # ps) cur us = (if \<forall>n \<in> gone. sm_find us n \<noteq> None
           then map_option (\<lambda>(us3, es). (us3, es1 @ es)) (update_users ps cur' us1) else None)"
  using update_turn [OF assms, of p] kept_named [OF assms(1)] by blast

text \<open>After the first turn only \<open>admin\<close> and the first name of the list are left. A name that is still marked
  as missing then makes the next turn erase it again.\<close>

lemma update_rest:
  assumes "named_users us" and "sm_ordered cur"
    and "\<And>k. sm_find us k \<noteq> None \<Longrightarrow> k = ''admin'' \<or> sm_find cur k = Some True"
  shows "if ps = [] \<or> {k. sm_find cur k = Some False} - {''admin''} \<subseteq> {sp_first (hd ps)}
     then \<exists>us' es. update_users ps cur us = Some (us', es) \<and> kept_users UNIV us us'
     else update_users ps cur us = None"
  using assms
proof (induction ps arbitrary: cur us)
  case Nil
  then show ?case by (auto simp: kept_users_def named_users_def option.rel_refl)
next
  case (Cons p ps)
  obtain gone cur' us1 es1 where g: "gone = {k. sm_find cur' k = Some False} - {''admin''}"
    and f: "\<And>k. sm_find cur' k = (if k = sp_first p then Some True else case sm_find cur k of
           Some b \<Rightarrow> Some b | None \<Rightarrow> if sm_find us k = None then None else Some False)"
    and c: "sm_ordered cur'" and k: "kept_users (- gone) us us1" and n: "named_users us1"
    and u: "\<And>ps. update_users (p # ps) cur us = (if \<forall>n \<in> gone. sm_find us n \<noteq> None
           then map_option (\<lambda>(us3, es). (us3, es1 @ es)) (update_users ps cur' us1) else None)"
    by (rule update_turn_vars [OF Cons.prems(1,2), where p = p]) (rule that)
  have gone: "gone = {k. sm_find cur k = Some False} - {''admin''} - {sp_first p}"
    unfolding g f using Cons.prems(3) by (auto split: option.splits if_splits)
  have none: "sm_find us n = None" if "n \<in> gone" for n
    using that Cons.prems(3) [of n] unfolding gone by fastforce
  show ?case
  proof (cases "gone = {}")
    case True
    have i: "k = ''admin'' \<or> sm_find cur' k = Some True" if "sm_find us1 k \<noteq> None" for k
      using Cons.prems(3) [of k] kept_find [OF k, of k] that unfolding f by auto
    have "\<exists>us' es. update_users ps cur' us1 = Some (us', es) \<and> kept_users UNIV us1 us'"
      using Cons.IH [OF n c i] True unfolding g by simp
    with kept_trans [OF k] have "\<exists>us' es. update_users (p # ps) cur us = Some (us', es) \<and> kept_users UNIV us us'"
      unfolding u True by fastforce
    with True gone show ?thesis by simp
  next
    case False
    then have "update_users (p # ps) cur us = None" unfolding u using none by auto
    then show ?thesis using False unfolding gone by auto
  qed
qed

lemma update_all:
  assumes "named_users us"
  shows "if ps = [] \<or> fst ` set us - {''admin'', sp_first p} \<subseteq> {sp_first (hd ps)}
     then \<exists>us' es. update_users (p # ps) [] us = Some (us', es) \<and> kept_users {''admin'', sp_first p} us us'
     else update_users (p # ps) [] us = None"
proof -
  have o: "sm_ordered ([] :: (string, bool) smap)" by simp
  obtain gone cur' us1 es1 where g: "gone = {k. sm_find cur' k = Some False} - {''admin''}"
    and f: "\<And>k. sm_find cur' k = (if k = sp_first p then Some True else case sm_find [] k of
           Some b \<Rightarrow> Some b | None \<Rightarrow> if sm_find us k = None then None else Some False)"
    and c: "sm_ordered cur'" and k: "kept_users (- gone) us us1" and n: "named_users us1"
    and u: "\<And>ps. update_users (p # ps) [] us = (if \<forall>n \<in> gone. sm_find us n \<noteq> None
           then map_option (\<lambda>(us3, es). (us3, es1 @ es)) (update_users ps cur' us1) else None)"
    by (rule update_turn_vars [OF assms o, where p = p]) (rule that)
  have gone: "gone = fst ` set us - {''admin'', sp_first p}"
    unfolding g f using sm_find_None [of us] by (auto split: if_splits)
  have k': "kept_users {''admin'', sp_first p} us us1"
    using k by (rule kept_cong [rotated]) (auto simp: gone sm_find_None)
  have all: "\<forall>n \<in> gone. sm_find us n \<noteq> None" unfolding gone using sm_find_None [of us] by auto
  have i: "k = ''admin'' \<or> sm_find cur' k = Some True" if "sm_find us1 k \<noteq> None" for k
    using kept_find [OF k', of k] that unfolding f by auto
  note rest = update_rest [OF n c i, of ps, folded g, unfolded gone]
  show ?thesis
  proof (cases "ps = [] \<or> fst ` set us - {''admin'', sp_first p} \<subseteq> {sp_first (hd ps)}")
    case True
    with rest obtain us' es where "update_users ps cur' us1 = Some (us', es)" "kept_users UNIV us1 us'" by auto
    with True all kept_trans [OF k', of UNIV us'] show ?thesis unfolding u by auto
  next
    case False
    with rest have "update_users ps cur' us1 = None" by simp
    with False show ?thesis unfolding u by simp
  qed
qed

text \<open>C19: what a new list of users does. When the list has a first name and the request returns, the users
  that are left are \<open>admin\<close> and the first name of the list, whatever names follow it, and nothing but
  their status has changed; the answer is \<open>Not found\<close>. The request does not return when the list goes on
  and there was a user other than \<open>admin\<close>, the first and the second name.
\<close>

theorem user_list_update:
  assumes "\<not> au_held A" and users: "named_users (au_users A)"
    and "length params = 3" and "params ! 2 = ''Users.json''" and "body \<noteq> ''''"
    and "read_json body = Some pt" and "get_child ''Users'' pt = Some ptu"
    and "jparser2 ''name'' ''enable_status'' ptu = Some (p # ps)"
  shows "if ps = [] \<or> fst ` set (au_users A) - {''admin'', sp_first p} \<subseteq> {sp_first (hd ps)}
     then \<exists>m A' es. auth_execSet read_json fs configdir homedir params body A = Some (m, A', es)
       \<and> kept_users {''admin'', sp_first p} (au_users A) (au_users A')
       \<and> m_getString m ''body'' = ''Not found'' \<and> \<not> au_held A'
     else auth_execSet read_json fs configdir homedir params body A = None"
proof -
  have e: "auth_execSet read_json fs configdir homedir params body A =
      map_option (\<lambda>(us, es). (m_add (m_add m_default ''body'' (filterChar (mp_get (au_par A) ''wr_users_answer''))) ''body'' ''Not found'',
          au_unlock (A\<lparr>au_held := True, au_users := us\<rparr>), es)) (update_users (p # ps) [] (au_users A))"
    unfolding auth_execSet_def using assms
    by (simp add: au_lock_def Let_def map_conv_bind_option case_prod_beta comp_def del: update_users.simps)
  show ?thesis
    unfolding e using update_all [OF users, of ps p]
    by (auto simp: au_unlock_def simp del: update_users.simps split: if_splits)
qed

text \<open>A user is never added: the handler holds the mutex when it calls the function that takes it.\<close>

lemma add_user_blocks:
  "length params = 4 \<Longrightarrow> params ! 2 = ''Users'' \<Longrightarrow>
   auth_execSet read_json fs configdir homedir params body A = None"
  by (auto simp: auth_execSet_def addUser_def au_lock_def Let_def split: list.splits bind_split)

text \<open>Reading the page of a name that does not exist adds it without a user name, after which a list
  of users can no longer be posted.\<close>

lemma unknown_user_inserted:
  assumes "\<not> au_held A" and "length params = 4" and "fst (nl_init [] (params ! 3) (CHR ''.'')) = name # ns"
  shows "\<exists>m A'. auth_execGet params A = Some (m, A') \<and> sm_find (au_users A') name = Some
     (case sm_find (au_users A) name of None \<Rightarrow> mp_default | Some u \<Rightarrow> u)"
  using assms by (auto simp: auth_execGet_def au_lock_def au_unlock_def Let_def split: option.split)

lemma update_after_unknown:
  "update_users [\<lparr>sp_first = ''bob'', sp_second = ''true'', sp_third = '''', sp_fourth = ''''\<rparr>] [] [(''eve'', mp_default)] = None"
  by code_simp

text \<open>With three keys the second value is lost and the third is empty.\<close>

lemma jloop_third:
  assumes "jloop f ww vs = Some ws" and "\<And>v w w'. f v w = Some w' \<Longrightarrow> sp_third w' = sp_third w \<and> sp_fourth w' = sp_fourth w"
  shows "x \<in> set ws \<Longrightarrow> sp_third x = sp_third ww \<and> sp_fourth x = sp_fourth ww"
  using assms(1)
proof (induction vs arbitrary: ww ws)
  case (Cons v vs)
  then obtain w us where "f v ww = Some w" "jloop f w vs = Some us" "ws = w # us" by (auto split: bind_splits)
  with Cons assms(2) show ?case by (metis set_ConsD)
qed simp

lemma jparser3_third: "jparser3 k1 k2 k3 pt = Some ws \<Longrightarrow> x \<in> set ws \<Longrightarrow> sp_third x = ''''"
  unfolding jparser3_def by (drule jloop_third) (auto simp: sp_new_def split: bind_splits)

lemma jparser4_third: "jparser4 k1 k2 k3 k4 pt = Some ws \<Longrightarrow> x \<in> set ws \<Longrightarrow> sp_third x = '''' \<and> sp_fourth x = ''''"
  unfolding jparser4_def by (drule jloop_third) (auto simp: sp_new_def split: bind_splits)

subsection \<open>Examples\<close>

definition example_user :: "string \<Rightarrow> string \<Rightarrow> mparams" where
  "example_user name pw = mp_add (mp_add (mp_add mp_default ''username'' name) ''passwd'' pw) ''Alarm_OFF'' ''true''"

definition example_auth :: auth where
  "example_auth = \<lparr>au_par = mp_add mp_default ''passwd_check_answer'' ''user $USERNAME'', user_template = mp_default,
     au_users = [(''admin'', example_user ''admin'' ''1234''), (''bob'', example_user ''bob'' ''5678''), (''eve'', example_user ''eve'' ''5678'')],
     au_held = False\<rparr>"

definition example_list :: ptree where
  "example_list = PTree '''' [(''Users'', PTree '''' (map (\<lambda>n. ('''', PTree '''' [(''name'', PTree n []), (''enable_status'', PTree ''true'' [])]))
     [''bob'', ''eve'']))]"

theorem user_list_update_witness:
  "\<exists>m A' es. auth_execSet (\<lambda>x. Some example_list) (\<lambda>p. Missing) ''/conf'' ''/home'' [''horus-ws'', ''Auth'', ''Users.json''] ''x'' example_auth = Some (m, A', es)
     \<and> kept_users {''admin'', ''bob''} (au_users example_auth) (au_users A')"
proof -
  let ?p = "\<lparr>sp_first = ''bob'', sp_second = ''true'', sp_third = '''', sp_fourth = ''''\<rparr>"
  let ?q = "\<lparr>sp_first = ''eve'', sp_second = ''true'', sp_third = '''', sp_fourth = ''''\<rparr>"
  have "mp_get (example_user n pw) ''username'' = n" if "pw \<noteq> ''''" "n \<noteq> ''''" for n pw
    using that by (simp add: example_user_def mp_get_add)
  then have n: "named_users (au_users example_auth)" by (auto simp: named_users_def example_auth_def split: if_splits)
  have "if [?q] = [] \<or> fst ` set (au_users example_auth) - {''admin'', sp_first ?p} \<subseteq> {sp_first (hd [?q])}
     then \<exists>m A' es. auth_execSet (\<lambda>x. Some example_list) (\<lambda>p. Missing) ''/conf'' ''/home'' [''horus-ws'', ''Auth'', ''Users.json''] ''x'' example_auth = Some (m, A', es)
       \<and> kept_users {''admin'', sp_first ?p} (au_users example_auth) (au_users A')
       \<and> m_getString m ''body'' = ''Not found'' \<and> \<not> au_held A'
     else auth_execSet (\<lambda>x. Some example_list) (\<lambda>p. Missing) ''/conf'' ''/home'' [''horus-ws'', ''Auth'', ''Users.json''] ''x'' example_auth = None"
    by (rule user_list_update [OF _ n, where pt = example_list and ptu = "the (get_child ''Users'' example_list)"]) code_simp+
  then show ?thesis by (auto simp: example_auth_def)
qed

end
