(* ===== verification/Web_Alarms.thy ===== *)
theory Web_Alarms
  imports Web_Users
begin

text \<open>
  The alarm programs of the web service, \<^verbatim>\<open>src/agents/WSServer/AlarmManager*.cpp\<close>: the
  documents of schedules, zones and execution queues in the archive, their translation to the programs
  and commands of the alarm agent, and the three handlers. \<open>ws_env\<close> holds what the handlers only read:
  the directories, the network and the table of agents, the XML and JSON readers. The requests that
  are forwarded to the alarm agent are kept in \<open>am_sent\<close>, in their order.
\<close>

record ws_env =
  ws_config :: string
  ws_home :: string
  ws_net :: network
  ws_table :: name_table
  ws_json :: json_reader
  ws_xml :: "string \<Rightarrow> xnode list"
  ws_junk :: nat

record alarm_manager =
  am_par :: mparams
  am_tab :: trans_tab
  mksensors_called :: bool
  init_called :: bool
  am_archive :: archive
  am_sent :: "string list"

subsection \<open>Texts\<close>

definition isDigit :: "char \<Rightarrow> bool" where
  "isDigit c \<longleftrightarrow> c \<in> set ''0123456789''"

text \<open>The digits are read from the end and the first character is left out; more than three of them make
  the number of zeros wrap around, and the text outgrows the memory.\<close>

definition mkExternalName :: "int \<Rightarrow> string \<Rightarrow> string \<Rightarrow> string option" where
  "mkExternalName mode sname ecname =
     (let sensor_name = fst (nl_init [] sname (CHR ''_''));
          rnumber = filter isDigit (rev (tl ecname))
      in if mode = 0 \<and> length sensor_name > 1 then Some (sensor_name ! 0 @ ''_000'' @ sensor_name ! 1)
         else if mode > 0 \<and> length sensor_name > 1
         then if length rnumber > 3 then None
              else Some (sensor_name ! 0 @ ''_'' @ replicate (3 - length rnumber) (CHR ''0'') @ rnumber)
         else Some '''')"

text \<open>Without an empty line the position is \<^verbatim>\<open>npos + 4\<close>, which is 3.\<close>

definition body_of :: "string \<Rightarrow> string option" where
  "body_of message =
     (let pos = (case str_find (crlf @ crlf) message of Some p \<Rightarrow> p + 4 | None \<Rightarrow> 3)
      in if pos \<le> length message then Some (drop pos message) else None)"

text \<open>The text between the first \<open>start\<close> and the last \<open>stop\<close>. A last \<open>stop\<close> right after the first \<open>start\<close> is
  kept, and a text that ends with its first \<open>start\<close> makes the second loop begin at \<^verbatim>\<open>npos\<close>.\<close>

definition extractString :: "string \<Rightarrow> char \<Rightarrow> char \<Rightarrow> string option" where
  "extractString src start stop =
     (if src = '''' then Some ''''
      else let tmp = (if start \<in> set src then tl (dropWhile (\<lambda>c. c \<noteq> start) src) else src)
           in if tmp = '''' then None
              else Some (case find_last stop tmp of
                           Some i \<Rightarrow> if i > 0 then take i tmp else tmp
                         | None \<Rightarrow> tmp))"

definition makeGetAnswer :: "mparams \<Rightarrow> string \<Rightarrow> string option" where
  "makeGetAnswer par answer =
     (if answer = '''' then Some ''''
      else map_option (\<lambda>tmp. fst (strReplace (mp_get par ''get_answer'') ''$BODY'' tmp))
             (extractString answer (CHR ''{'') (CHR ''}'')))"

text \<open>A template is read up to its first zero; a directory is read for ever.\<close>

definition loadTemplate :: "string \<Rightarrow> fsnode \<Rightarrow> string option" where
  "loadTemplate file fs =
     (case open_in file fs of
        NotOpen \<Rightarrow> Some ''''
      | DirStream \<Rightarrow> None
      | TextStream x \<Rightarrow> Some (takeWhile (\<lambda>c. c \<noteq> CHR 0x00) x))"

subsection \<open>Requests to the alarm agent\<close>

definition get_text :: "string \<Rightarrow> string" where
  "get_text url = ''GET '' @ url @ '' HTTP/1.1'' @ crlf @ crlf @ crlf"

definition post_text :: "string \<Rightarrow> string \<Rightarrow> string" where
  "post_text url file = ''POST '' @ url @ '' HTTP/1.1'' @ crlf @ ''Content-Length: '' @ unsigned2a (length file) @ crlf @ crlf
     @ file @ crlf @ crlf"

definition forward :: "ws_env \<Rightarrow> string \<Rightarrow> alarm_manager \<Rightarrow> string \<times> alarm_manager" where
  "forward E request A =
     (nt_forward (ws_net E) request (mp_get (am_par A) ''alarmag'') (ws_table E), A\<lparr>am_sent := am_sent A @ [request]\<rparr>)"

definition alarm_sendCmd :: "ws_env \<Rightarrow> string \<Rightarrow> alarm_manager \<Rightarrow> string \<times> alarm_manager" where
  "alarm_sendCmd E file A = forward E (post_text ''/'' file) A"

definition accepted :: "string \<Rightarrow> bool" where
  "accepted answer \<longleftrightarrow> \<not> str_contains answer ''Not Found''
     \<and> (str_contains answer ''list'' \<or> str_contains answer ''done'' \<or> str_contains answer ''OK'')"

definition sendFile :: "ws_env \<Rightarrow> string \<Rightarrow> string \<Rightarrow> alarm_manager \<Rightarrow> bool \<times> alarm_manager" where
  "sendFile E url file A = (let (answer, A') = forward E (post_text url file) A in (accepted answer, A'))"

definition fileDownload :: "ws_env \<Rightarrow> string \<Rightarrow> alarm_manager \<Rightarrow> (string \<times> alarm_manager) option" where
  "fileDownload E url A = (let (answer, A') = forward E (get_text url) A in map_option (\<lambda>b. (b, A')) (body_of answer))"

definition agent_known :: "ws_env \<Rightarrow> alarm_manager \<Rightarrow> bool" where
  "agent_known E A \<longleftrightarrow> m_getString (getAgentDescription (mp_get (am_par A) ''alarmag'') (ws_table E)) ''name'' \<noteq> ''none''"

subsection \<open>Documents in the archive\<close>

definition am_fs :: "alarm_manager \<Rightarrow> fsnode" where
  "am_fs A = arch_fs (am_archive A)"

definition am_with_fs :: "fsnode \<Rightarrow> alarm_manager \<Rightarrow> alarm_manager" where
  "am_with_fs fs A = A\<lparr>am_archive := (am_archive A)\<lparr>arch_fs := fs\<rparr>\<rparr>"

definition am_addResource :: "string \<Rightarrow> string \<Rightarrow> alarm_manager \<Rightarrow> alarm_manager option" where
  "am_addResource path src A = map_option (\<lambda>(ok, R). A\<lparr>am_archive := R\<rparr>) (addResource path src True (am_archive A))"

definition alarm_tmp :: "ws_env \<Rightarrow> string" where
  "alarm_tmp E = ws_home E @ ''/_tmp.Alarm''"

definition mkResource :: "ws_env \<Rightarrow> string \<Rightarrow> alarm_manager \<Rightarrow> alarm_manager" where
  "mkResource E file A = am_with_fs (out_ignored False (alarm_tmp E) file (am_fs A)) A"

definition am_deleteFile :: "string \<Rightarrow> alarm_manager \<Rightarrow> alarm_manager" where
  "am_deleteFile path A = am_with_fs (snd (ft_deleteFile path '''' (am_fs A))) A"

text \<open>The sequence that stores a text as a resource: a temporary file, a copy of it, its removal.\<close>

definition store :: "ws_env \<Rightarrow> string \<Rightarrow> string \<Rightarrow> alarm_manager \<Rightarrow> alarm_manager option" where
  "store E path file A = do { A' \<leftarrow> am_addResource path (alarm_tmp E) (mkResource E file A); Some (am_deleteFile (alarm_tmp E) A') }"

definition getAlarmFile :: "string \<Rightarrow> alarm_manager \<Rightarrow> string option" where
  "getAlarmFile url A = getFile (m_add m_default ''url'' url) (am_archive A)"

fun make_dirs :: "string \<Rightarrow> string list \<Rightarrow> fsnode \<Rightarrow> fsnode option" where
  "make_dirs full [] fs = Some fs"
| "make_dirs full (n # ns) fs =
     (let full' = full @ ''/'' @ n
      in if ft_isDir full' fs then make_dirs full' ns fs
         else do { (ok, fs') \<leftarrow> ft_makeDir False full' fs; make_dirs full' ns fs' })"

definition checkAndMakePath :: "ws_env \<Rightarrow> string \<Rightarrow> alarm_manager \<Rightarrow> (bool \<times> alarm_manager) option" where
  "checkAndMakePath E path A =
     (case fst (nl_init [] path (CHR ''/'')) of
        [] \<Rightarrow> Some (False, A)
      | n # ns \<Rightarrow>
          let full = ws_home E @ ''/'' @ n
          in if n = '''' \<or> \<not> ft_isDir full (am_fs A) then Some (False, A)
             else map_option (\<lambda>fs. (True, am_with_fs fs A)) (make_dirs full ns (am_fs A)))"

definition device_list :: "string \<Rightarrow> string list \<Rightarrow> string" where
  "device_list key names = ''{'' @ quote @ key @ quote @ '': ['' @ join_with '','' (map (\<lambda>n. ''{'' @ json_field ''name'' n @ '',''
     @ json_field ''selection_status'' ''false'' @ ''}'') names) @ '']}''"

text \<open>A page of devices becomes a document of names.\<close>

definition list_devices :: "ws_env \<Rightarrow> string \<Rightarrow> string \<Rightarrow> string \<Rightarrow> string \<Rightarrow> alarm_manager \<Rightarrow> alarm_manager option" where
  "list_devices E url key path tmp A =
     do {
       (page, A1) \<leftarrow> fileDownload E url A;
       (ok, slist) \<leftarrow> set_xmlLoad (Xml (ws_xml E (xml_header @ page))) mp_default;
       let text = device_list key (map ma_name (attrs slist));
       A2 \<leftarrow> am_addResource path tmp (am_with_fs (case ft_write tmp text (am_fs A1) of None \<Rightarrow> am_fs A1 | Some fs \<Rightarrow> fs) A1);
       Some (am_deleteFile tmp A2)
     }"

definition mkSensorsAndActions :: "ws_env \<Rightarrow> bool \<Rightarrow> alarm_manager \<Rightarrow> (bool \<times> alarm_manager) option" where
  "mkSensorsAndActions E mode A =
     (if \<not> agent_known E A then Some (False, A)
      else if mksensors_called A \<and> mode then Some (True, A)
      else do {
        A1 \<leftarrow> list_devices E ''/status/sensordevices.xml'' ''sensors'' ''/program/programs/Alarm/sensors.json'' (ws_home E @ ''/_tmp'') A;
        A2 \<leftarrow> list_devices E ''/status/controldevices.xml'' ''actions'' ''/program/programs/Alarm/actions.json'' (ws_home E @ ''/_tmp_'') A1;
        Some (True, A2\<lparr>mksensors_called := True\<rparr>)
      })"

subsection \<open>First use\<close>

abbreviation alarm_dir :: string where
  "alarm_dir \<equiv> ''/program/programs/Alarm''"

definition initAuto :: "ws_env \<Rightarrow> alarm_manager \<Rightarrow> alarm_manager option" where
  "initAuto E A = am_addResource ''program/programs/Alarm/Schedule.json'' (ws_config E @ ''/templates/scheduleproto.json'') A"

text \<open>\<^verbatim>\<open>rm -f dir/*\<close>: the plain files whose names do not begin with a dot.\<close>

definition rm_files :: "string \<Rightarrow> fsnode \<Rightarrow> fsnode" where
  "rm_files dir fs = fold (\<lambda>f fs. snd (ft_deleteFile dir f fs)) (snd (fileList (ft_entries dir fs))) fs"

definition initZones :: "ws_env \<Rightarrow> alarm_manager \<Rightarrow> alarm_manager option" where
  "initZones E A =
     (let req = (\<lambda>u. m_add (m_type ''httprequest'') ''url'' u)
      in do {
           sensors \<leftarrow> getFile (req (alarm_dir @ ''/sensors.json'')) (am_archive A);
           let A1 = am_with_fs (rm_files (ws_home E @ ''/program/programs/Alarm/Zones'') (am_fs A)) A;
           actions \<leftarrow> getFile (m_add (req (alarm_dir @ ''/sensors.json'')) ''url'' (alarm_dir @ ''/actions.json'')) (am_archive A1);
           prg \<leftarrow> loadTemplate (ws_config E @ ''/templates/defaultzone.json'') (am_fs A1);
           s \<leftarrow> extractString sensors (CHR ''['') (CHR '']'');
           a \<leftarrow> extractString actions (CHR ''['') (CHR '']'');
           A2 \<leftarrow> store E (alarm_dir @ ''/Zones/default.json'') (fst (strReplace (fst (strReplace prg ''$SENSORS'' s)) ''$ACTIONS'' a)) A1;
           am_addResource (alarm_dir @ ''/Zones.json'') (ws_config E @ ''/templates/zonesproto.json'') A2
         })"

definition queue_text :: "string list \<Rightarrow> string" where
  "queue_text devices = ''{'' @ quote @ ''devices'' @ quote @ '': ['' @ join_with '','' (map (\<lambda>n. ''{'' @ json_field ''name'' n @ '',''
     @ json_field ''selection_status'' ''false'' @ '','' @ json_field ''action'' ''false'' @ ''}'') devices) @ '']}''"

definition queue_files :: "string list" where
  "queue_files = [''/Auto/Activation.json'', ''/Auto/Deactivation.json'', ''/Manual/Activation.json'', ''/Manual/Deactivation.json'']"

fun add_copies :: "string list \<Rightarrow> string \<Rightarrow> alarm_manager \<Rightarrow> alarm_manager option" where
  "add_copies [] src A = Some A"
| "add_copies (f # fs) src A = do { A' \<leftarrow> am_addResource (alarm_dir @ f) src A; add_copies fs src A' }"

definition initExecutionQueues :: "ws_env \<Rightarrow> alarm_manager \<Rightarrow> alarm_manager option" where
  "initExecutionQueues E A =
     do {
       (page, A1) \<leftarrow> fileDownload E ''/status/optcontroldevices.xml'' A;
       (ok, paropt) \<leftarrow> set_xmlLoad (Xml (ws_xml E (xml_header @ page))) mp_default;
       A2 \<leftarrow> add_copies queue_files (alarm_tmp E) (mkResource E (queue_text (map ma_name (attrs paropt))) A1);
       Some (am_deleteFile (alarm_tmp E) A2)
     }"

definition checkAndInitPrograms :: "ws_env \<Rightarrow> bool \<Rightarrow> alarm_manager \<Rightarrow> (bool \<times> alarm_manager) option" where
  "checkAndInitPrograms E mode A =
     (if init_called A \<and> mode \<or> \<not> agent_known E A then Some (False, A)
      else do {
        (autoxml, A1) \<leftarrow> fileDownload E ''/programs/AUTO'' A;
        (zonesxml, A2) \<leftarrow> fileDownload E ''/programs/ZONE'' A1;
        A3 \<leftarrow> (if \<not> str_contains autoxml ''AUTO'' then initAuto E A2 else Some A2);
        A4 \<leftarrow> (if \<not> str_contains zonesxml ''ZONE'' then initZones E A3 else Some A3);
        A5 \<leftarrow> (if list_all (\<lambda>f. ft_isFile (ws_home E @ alarm_dir @ f) (am_fs A4)) queue_files then Some A4
              else initExecutionQueues E A4);
        Some (True, A5\<lparr>init_called := True\<rparr>)
      })"

text \<open>Every handler begins with these two.\<close>

definition prepare :: "ws_env \<Rightarrow> alarm_manager \<Rightarrow> alarm_manager option" where
  "prepare E A = do { (b, A1) \<leftarrow> mkSensorsAndActions E True A; (c, A2) \<leftarrow> checkAndInitPrograms E True A1; Some A2 }"

subsection \<open>Translations\<close>

definition schedulej2x :: "ws_env \<Rightarrow> string \<Rightarrow> alarm_manager \<Rightarrow> string option" where
  "schedulej2x E jschedule A =
     do {
       xschedule \<leftarrow> loadTemplate (ws_config E @ ''/templates/Auto.xml'') (am_fs A);
       pt \<leftarrow> ws_json E jschedule;
       ptu \<leftarrow> get_child ''schedule_data'' pt;
       l \<leftarrow> jparser2 ''start'' ''end'' ptu;
       Some (fold (\<lambda>p x. fst (strReplace (fst (strReplace x ''$TT'' (sp_first p))) ''$TT'' (sp_second p))) l xschedule)
     }"

text \<open>The names of one zone: a name that was met before, as a sensor or as an action, is passed over.\<close>

definition add_sensor :: "string_pair \<Rightarrow> string list \<times> string list \<Rightarrow> string list \<times> string list" where
  "add_sensor p al =
     (let (alist, lookup) = al
      in if sp_second p = ''true'' \<and> sp_first p \<notin> set lookup then (alist @ [sp_first p], lookup @ [sp_first p]) else al)"

definition add_action :: "string_pair \<Rightarrow> string list \<times> string list \<Rightarrow> string list \<times> string list" where
  "add_action p al =
     (let (alist, lookup) = al
      in if sp_second p = ''true'' \<and> sp_first p \<notin> set lookup
         then (alist @ [sp_first p @ ''_on'', sp_first p @ ''_off''], lookup @ [sp_first p]) else al)"

definition zone_document :: "ws_env \<Rightarrow> string \<Rightarrow> alarm_manager \<Rightarrow> (string_pair list \<times> string_pair list) option" where
  "zone_document E zone A =
     do {
       text \<leftarrow> getFile (m_add (m_type ''httprequest'') ''url'' (alarm_dir @ ''/Zones/'' @ zone @ ''.json'')) (am_archive A);
       pt \<leftarrow> ws_json E text;
       s \<leftarrow> get_child ''sensors'' pt;
       sensors \<leftarrow> jparser2 ''name'' ''selection_status'' s;
       a \<leftarrow> get_child ''actions'' pt;
       actions \<leftarrow> jparser2 ''name'' ''selection_status'' a;
       Some (sensors, actions)
     }"

fun zone_names :: "ws_env \<Rightarrow> string list \<Rightarrow> alarm_manager \<Rightarrow> string list \<times> string list \<Rightarrow> (string list \<times> string list) option" where
  "zone_names E [] A al = Some al"
| "zone_names E (z # zs) A al =
     do { (sensors, actions) \<leftarrow> zone_document E z A; zone_names E zs A (fold add_action actions (fold add_sensor sensors al)) }"

definition zone_files_kept :: "string list \<Rightarrow> string \<Rightarrow> bool" where
  "zone_files_kept zlist f \<longleftrightarrow> nl_member zlist (getStem f) \<or> f = ''default.json''"

definition cleanZones :: "ws_env \<Rightarrow> string \<Rightarrow> alarm_manager \<Rightarrow> alarm_manager option" where
  "cleanZones E zonesjs A =
     (let zonepath = ws_home E @ ''/program/programs/Alarm/Zones''
      in do {
           pt \<leftarrow> ws_json E zonesjs;
           ptu \<leftarrow> get_child ''zones'' pt;
           l \<leftarrow> jparser1 ''name'' ptu;
           Some (am_with_fs (fold (\<lambda>f fs. if zone_files_kept (map sp_first l) f then fs else snd (ft_deleteFile zonepath f fs))
                   (snd (fileList (ft_entries zonepath (am_fs A)))) (am_fs A)) A)
         })"

definition alarm_items :: "string list \<Rightarrow> string" where
  "alarm_items alist = concat (map (\<lambda>n. ''<alarm name='' @ quote @ n @ quote @ ''/>'') alist)"

definition zonesj2x :: "ws_env \<Rightarrow> string \<Rightarrow> alarm_manager \<Rightarrow> (string \<times> alarm_manager) option" where
  "zonesj2x E zonesjs A =
     do {
       zonesxml \<leftarrow> loadTemplate (ws_config E @ ''/templates/Zone.xml'') (am_fs A);
       pt \<leftarrow> ws_json E zonesjs;
       ptu \<leftarrow> get_child ''zones'' pt;
       l \<leftarrow> jparser2 ''name'' ''enable_status'' ptu;
       (alist, lookup) \<leftarrow> zone_names E (map sp_first (filter (\<lambda>p. sp_second p = ''true'') l)) A ([], []);
       A' \<leftarrow> cleanZones E zonesjs A;
       Some (fst (strReplace zonesxml ''$ALARMS'' (alarm_items alist)), A')
     }"

definition isZoneDefined :: "alarm_manager \<Rightarrow> bool option" where
  "isZoneDefined A = map_option (\<lambda>zones. zones \<noteq> ''Not Found'' \<and> str_contains zones ''true'') (getAlarmFile (alarm_dir @ ''/Zones.json'') A)"

definition add_zone :: "string \<Rightarrow> string \<Rightarrow> string" where
  "add_zone name zones =
     (let i = length (takeWhile (\<lambda>c. c \<noteq> CHR '']'') zones)
      in take i zones @ (if i > 1 \<and> zones ! (i - 1) \<noteq> CHR ''['' \<and> zones ! (i - 2) \<noteq> CHR ''['' then '','' else '''')
         @ ''{'' @ json_field ''name'' name @ '','' @ json_field ''enable_status'' ''false'' @ ''}'' @ drop i zones)"

definition zoneUpdate :: "ws_env \<Rightarrow> string \<Rightarrow> alarm_manager \<Rightarrow> (bool \<times> alarm_manager) option" where
  "zoneUpdate E newz A =
     do {
       zones \<leftarrow> getFile (m_add (m_type ''httprequest'') ''url'' (alarm_dir @ ''/Zones.json'')) (am_archive A);
       if zones = ''Not Found'' then Some (False, A)
       else if str_contains zones (json_field ''name'' (getStem newz)) then Some (True, A)
       else do { A' \<leftarrow> store E (alarm_dir @ ''/Zones.json'') (add_zone (getStem newz) zones) A; Some (True, A') }
     }"

definition queue_action :: "string_pair \<Rightarrow> string \<Rightarrow> string" where
  "queue_action p alist =
     (if sp_second p = ''true''
      then (if alist = '''' then sp_first p else alist @ ''+'' @ sp_first p)
           @ (if str_contains (sp_first p) ''SH_'' then (if sp_third p = ''true'' then ''_pup'' else ''_pdown'')
              else if sp_third p = ''true'' then ''_on'' else ''_off'')
      else alist)"

definition setExecQueue :: "ws_env \<Rightarrow> string \<Rightarrow> string \<Rightarrow> string \<Rightarrow> alarm_manager \<Rightarrow> (string \<times> alarm_manager) option" where
  "setExecQueue E program qq jsbody A =
     do {
       m0 \<leftarrow> loadTemplate (ws_config E @ ''/templates/settractions.xml'') (am_fs A);
       pt \<leftarrow> ws_json E jsbody;
       ptu \<leftarrow> get_child ''devices'' pt;
       l \<leftarrow> jparser3 ''name'' ''selection_status'' ''action'' ptu;
       let al = fold queue_action l '''';
       let alist = (if al = '''' then ''none'' else al);
       let m1 = fst (strReplace m0 ''$NAME'' (if program = ''Auto'' then ''AUTOtriggered'' else ''MANUALtriggered''));
       let act = (getStem qq = ''Activation'');
       let m2 = fst (strReplace m1 ''$ENABLE'' (if act then alist else ''''));
       let m3 = fst (strReplace m2 ''$DISABLE'' (if act then '''' else alist));
       let (ok, A') = sendFile E ''/'' m3 A;
       Some (if ok then ''true'' else ''false'', A')
     }"

subsection \<open>Handlers\<close>

definition getProgramStatus :: "ws_env \<Rightarrow> alarm_manager \<Rightarrow> (string \<times> alarm_manager) option" where
  "getProgramStatus E A =
     do {
       (response, A') \<leftarrow> fileDownload E (mp_get (am_par A) ''get_prgstatus'') A;
       pt \<leftarrow> ws_json E response;
       data \<leftarrow> get_child ''prgstatus'' pt;
       program \<leftarrow> pt_get ''program'' data;
       active \<leftarrow> pt_get ''active'' data;
       let a1 = fst (strReplace (mp_get (am_par A) ''prg_answer'') ''$PROGRAM'' program);
       Some (filterChar (fst (strReplace a1 ''$PROGRAM_ACTIVE'' active)), A')
     }"

definition json_answer :: "mmessage \<Rightarrow> mmessage" where
  "json_answer m = m_add m ''content'' ''application/json''"

definition with_body :: "string \<Rightarrow> mmessage" where
  "with_body b = m_add m_default ''body'' b"

definition stored_answer :: "string \<Rightarrow> alarm_manager \<Rightarrow> mmessage option" where
  "stored_answer url A = do { text \<leftarrow> getAlarmFile url A; b \<leftarrow> makeGetAnswer (am_par A) text; Some (json_answer (with_body b)) }"

definition alarm_execGet :: "ws_env \<Rightarrow> string list \<Rightarrow> alarm_manager \<Rightarrow> (mmessage \<times> alarm_manager) option" where
  "alarm_execGet E params A0 =
     do {
       A \<leftarrow> prepare E A0;
       let keep = map_option (\<lambda>m. (m, A));
       if length params = 3 \<and> params ! 2 = ''Alarm.json''
       then do { (answer, A') \<leftarrow> getProgramStatus E A; Some (json_answer (with_body answer), A') }
       else if length params = 3 \<and> (params ! 2 = ''Schedule.json'' \<or> params ! 2 = ''Zones.json'')
       then keep (stored_answer (alarm_dir @ ''/'' @ last params) A)
       else if length params = 4 \<and> params ! 2 = ''Zones''
       then keep (do {
         text \<leftarrow> getAlarmFile (alarm_dir @ ''/Zones/'' @ last params) A;
         stored_answer (if text = ''Not Found'' then alarm_dir @ ''/Zones/default.json'' else alarm_dir @ ''/Zones/'' @ last params) A })
       else if length params = 4 \<and> (params ! 2 = ''Manual'' \<or> params ! 2 = ''Auto'')
       then keep (stored_answer (alarm_dir @ ''/'' @ params ! 2 @ ''/'' @ last params) A)
       else Some (json_answer m_default, A)
     }"

definition alarm_mkAnswer :: "string \<Rightarrow> trans_entry \<Rightarrow> string \<Rightarrow> mmessage" where
  "alarm_mkAnswer body call method =
     m_add (json_answer m_default) ''body''
       (if method = ''PUT'' \<or> method = ''POST'' then xml2jsonBody body call else xml2jsonStatus body call)"

definition alarm_execPut :: "ws_env \<Rightarrow> string list \<Rightarrow> string \<Rightarrow> string \<Rightarrow> alarm_manager \<Rightarrow> (mmessage \<times> alarm_manager) option" where
  "alarm_execPut E params method msgstring A0 =
     do {
       A \<leftarrow> prepare E A0;
       if params = [] then None
       else if last params = ''reset_queue.json'' then do {
         A1 \<leftarrow> initExecutionQueues E A;
         (b, A2) \<leftarrow> mkSensorsAndActions E False A1;
         A3 \<leftarrow> initZones E A2;
         A4 \<leftarrow> initAuto E A3;
         Some (m_add (json_answer m_default) ''body'' (mp_get (am_par A4) ''put_answer''), A4)
       }
       else do {
         defined \<leftarrow> (if last params = ''ZONE.json'' then isZoneDefined A else Some True);
         let call = tt_get (ws_junk E) params method (am_tab A);
         if \<not> defined then Some (json_answer (with_body (mp_get (am_par A) ''zone_complain'')), A)
         else if isnoentry call then Some (complain, A)
         else let (body, A') = alarm_sendCmd E (m_xmlEncode 1 (rpc2cmd params msgstring call)) A
              in Some (alarm_mkAnswer body call ''PUT'', A')
       }
     }"

definition upload_result :: "bool \<Rightarrow> string" where
  "upload_result b = (if b then ''true'' else ''false'')"

definition post_answer :: "string \<Rightarrow> alarm_manager \<Rightarrow> mmessage" where
  "post_answer result A = with_body (fst (strReplace (mp_get (am_par A) ''post_answer'') ''$TRUEFALSE'' result))"

text \<open>The two forms of a post: a whole document, which is translated for the agent, and one zone or queue.
  A path that cannot be made is reported in a field that no one reads.\<close>

definition post_document :: "ws_env \<Rightarrow> string \<Rightarrow> string \<Rightarrow> string \<Rightarrow> alarm_manager \<Rightarrow> (mmessage \<times> alarm_manager) option" where
  "post_document E tgt file body A =
     do {
       (ok, A1) \<leftarrow> checkAndMakePath E ''program/programs/Alarm'' A;
       if \<not> ok then Some (m_add m_default ''Body'' ''Forbidden'', A1)
       else do {
         A2 \<leftarrow> store E (alarm_dir @ ''/'' @ file) body A1;
         (xml, A3) \<leftarrow> (if tgt = ''Schedule'' then map_option (\<lambda>x. (x, A2)) (schedulej2x E body A2) else zonesj2x E body A2);
         let (done, A4) = sendFile E (mp_get (am_par A3) (if tgt = ''Schedule'' then ''sendAUTOurl'' else ''sendZONEurl'')) xml A3;
         Some (post_answer (upload_result done) A4, A4)
       }
     }"

definition post_item :: "ws_env \<Rightarrow> string \<Rightarrow> string \<Rightarrow> string \<Rightarrow> alarm_manager \<Rightarrow> (mmessage \<times> alarm_manager) option" where
  "post_item E kind file body A =
     (let path = ''program/programs/Alarm/'' @ kind @ ''/''
      in do {
           (ok, A1) \<leftarrow> checkAndMakePath E path A;
           if \<not> ok then Some (m_add m_default ''Body'' ''Forbidden'', A1)
           else do {
             A2 \<leftarrow> store E (''/'' @ path @ ''/'' @ file) body A1;
             (result, A3) \<leftarrow> (if kind = ''Zones'' then do { (b, A3) \<leftarrow> zoneUpdate E file A2; Some (''true'', A3) }
                             else setExecQueue E kind file body A2);
             Some (post_answer result A3, A3)
           }
         })"

definition alarm_execPost :: "ws_env \<Rightarrow> string list \<Rightarrow> string \<Rightarrow> alarm_manager \<Rightarrow> (mmessage \<times> alarm_manager) option" where
  "alarm_execPost E params body A0 =
     do {
       A \<leftarrow> prepare E A0;
       if params = [] then None
       else do {
         let tgt = getStem (last params);
         (res, A') \<leftarrow>
           (if length params = 3 \<and> (tgt = ''Schedule'' \<or> tgt = ''Zones'') then post_document E tgt (last params) body A
            else if length params = 4 \<and> (params ! 2 = ''Zones'' \<or> params ! 2 = ''Manual'' \<or> params ! 2 = ''Auto'')
            then post_item E (params ! 2) (last params) body A
            else Some (m_default, A));
         Some (json_answer res, A')
       }
     }"

definition alarm_init :: "file_store \<Rightarrow> string \<Rightarrow> string \<Rightarrow> string \<Rightarrow> trans_tab \<Rightarrow> alarm_manager \<Rightarrow> alarm_manager option" where
  "alarm_init fs configdir homedir file tab A =
     do { (b, par) \<leftarrow> mp_load fs (mp_new configdir homedir file); Some (A\<lparr>am_par := par, am_tab := tab\<rparr>) }"

subsection \<open>Files that are stored and read back\<close>

lemma double_slash:
  "\<not> str_contains p ''//'' \<Longrightarrow> p \<noteq> '''' \<Longrightarrow> last p \<noteq> CHR ''/'' \<Longrightarrow> str_find ''//'' (p @ CHR ''/'' # CHR ''/'' # r) = Some (length p)"
proof (induction p)
  case (Cons c p)
  then show ?case by (cases p) (auto split: if_splits)
qed simp

lemma copyFile_effect:
  assumes "ft_read src fs = Some y" and "canon out fs = Some q" and "\<not> dir_at q fs" and "canon src fs \<noteq> Some q"
  shows "\<exists>fs'. ft_copyFile src out '''' fs = Some (True, fs')
     \<and> (\<forall>r. file_at r fs' = (if r = q then Some y else file_at r fs) \<and> dir_at r fs' = dir_at r fs)"
proof -
  obtain t1 where t1: "ft_write out '''' fs = Some t1" using assms(2,3) by (simp add: ft_write_def)
  note w1 = ft_write_file_at [OF t1] ft_write_canon [OF t1]
  have r: "ft_read src t1 = Some y" using assms(1,2,4) by (auto simp: ft_read_def w1 split: option.splits)
  have d: "\<not> ft_isDir src t1" using r file_not_dir by (auto simp: ft_isDir_iff ft_read_Some)
  obtain t2 where t2: "ft_write out y t1 = Some t2" using assms(2,3) by (simp add: ft_write_def w1)
  note w2 = ft_write_file_at [OF t2]
  have "ft_copyFile src out '''' fs = Some (True, t2)" using t1 t2 r d by (simp add: ft_copyFile_def)
  moreover have "\<forall>r. file_at r t2 = (if r = q then Some y else file_at r fs) \<and> dir_at r t2 = dir_at r fs"
    using w1 w2 assms(2) by auto
  ultimately show ?thesis by blast
qed

lemma make_path_existing:
  "canon p fs = Some q \<Longrightarrow> dir_at (q @ cs) fs \<Longrightarrow> plain_names cs \<Longrightarrow> make_path p cs fs = Some fs"
proof (induction cs arbitrary: p q)
  case (Cons c cs)
  have d: "dir_at q fs" "dir_at (q @ [c]) fs"
    using Cons.prems(2) dir_at_prefix [of q "c # cs" fs] dir_at_prefix [of "q @ [c]" cs fs] by simp_all
  then have c: "canon (p @ CHR ''/'' # c) fs = Some (q @ [c])" using Cons.prems by (intro canon_child) simp_all
  with d(2) have "ensure_dir (p @ CHR ''/'' # c) fs = Some fs" by (simp add: ensure_dir_def ft_isDir_iff)
  with Cons.IH [OF c] Cons.prems show ?case by simp
qed simp

lemma make_path_dirs: "make_path p cs fs = Some fs' \<Longrightarrow> make_dirs p cs fs = Some fs'"
proof (induction cs arbitrary: p fs)
  case (Cons c cs)
  then obtain fs1 where e: "ensure_dir (p @ ''/'' @ c) fs = Some fs1" "make_path (p @ ''/'' @ c) cs fs1 = Some fs'"
    by (auto split: Option.bind_splits)
  show ?case
  proof (cases "ft_isDir (p @ ''/'' @ c) fs")
    case True
    with e have "fs1 = fs" by (simp add: ensure_dir_def)
    with True Cons.IH [OF e(2)] show ?thesis by simp
  next
    case False
    with e(1) have "\<exists>b. ft_makeDir False (p @ ''/'' @ c) fs = Some (b, fs1)"
      by (auto simp: ensure_dir_def ft_makeDir_def split: option.splits if_splits)
    with False Cons.IH [OF e(2)] show ?thesis by auto
  qed
qed simp

lemma tailof_slashed:
  assumes "plain_name x"
  shows "tailof (p @ CHR ''/'' # x) = x"
proof -
  have "last_slash (p @ CHR ''/'' # x) (length p + n) = length p" if "n \<le> Suc (length x)" for n
    using that
  proof (induction n)
    case 0
    show ?case by (cases p) (auto simp: char_at_def nth_append)
  next
    case (Suc n)
    have "CHR ''/'' \<notin> set x" using assms by (simp add: plain_name_def)
    then have "char_at (p @ CHR ''/'' # x) (length p + Suc n) \<noteq> CHR ''/''"
      using Suc.prems by (auto simp: char_at_def nth_append in_set_conv_nth)
    with Suc show ?case by simp
  qed
  from this [of "Suc (length x)"] show ?thesis by (simp add: tailof_def char_at_def Let_def)
qed

lemma getFile_resource:
  assumes "writable R cs" and "plain_name x" and "m_getString req ''url'' = slashed (cs @ [x])"
    and "canon (archiveHome R) (arch_fs R) = Some h" and "file_at (h @ cs @ [x]) (arch_fs R) = Some t"
  shows "getFile req R = Some t"
proof -
  let ?p = "archiveHome R @ ''/'' @ slashed cs"
  have p: "plain_names (cs @ [x])" using assms(1,2) by (simp add: writable_def)
  have d: "dir_at (h @ cs) (arch_fs R)" "dir_at h (arch_fs R)"
    using file_at_parent [OF assms(5)] dir_at_prefix [of h cs] by (simp_all add: butlast_append)
  have "canon (archiveHome R @ ''/'') (arch_fs R) = Some h" using assms(4) d(2) by (rule canon_slash)
  from canon_slashed [OF this p d(2)] d(1)
  have "canon (archiveHome R @ ''/'' @ slashed (cs @ [x])) (arch_fs R) = Some (h @ cs @ [x])" by simp
  with assms(5) have "open_in (?p @ ''/'' @ x) (arch_fs R) = TextStream t"
    by (simp add: open_in_read [symmetric] ft_read_def)
  moreover have "tailof (slashed (cs @ [x])) = x" using tailof_slashed [OF assms(2), of "slashed cs"] by simp
  moreover have "CHR ''/'' \<in> set ?p" by simp
  then have n: "?p \<noteq> ''Not Found''" "?p \<noteq> ''Forbidden''" by (intro notI, simp)+
  ultimately show ?thesis
    using getExec_resource [OF assms(1-3)] assms(3) by (simp add: getFile_def Let_def del: slashed_simps)
qed

text \<open>A place in the archive where the service can keep a document: the home directory is written without
  doubled slashes, the directory exists and neither the document nor the temporary file is a directory.\<close>

definition home_text :: "string \<Rightarrow> bool" where
  "home_text home \<longleftrightarrow> home \<noteq> '''' \<and> last home \<noteq> CHR ''/'' \<and> \<not> str_contains home ''//''"

abbreviation tmp_name :: string where
  "tmp_name \<equiv> ''_tmp.Alarm''"

definition storable :: "ws_env \<Rightarrow> fspath \<Rightarrow> string list \<Rightarrow> string \<Rightarrow> archive \<Rightarrow> bool" where
  "storable E h cs x R \<longleftrightarrow> home_text (ws_home E) \<and> archiveHome R = ws_home E \<and> writable R cs \<and> plain_name x
     \<and> canon (ws_home E) (arch_fs R) = Some h \<and> dir_at (h @ cs) (arch_fs R)
     \<and> \<not> dir_at (h @ cs @ [x]) (arch_fs R) \<and> \<not> dir_at (h @ [tmp_name]) (arch_fs R)"

lemma addResource_copy:
  assumes s: "storable E h cs x R" and y: "ft_read src (arch_fs R) = Some y" and "canon src (arch_fs R) \<noteq> Some (h @ cs @ [x])" and "src \<noteq> ''''"
  shows "\<exists>fs'. addResource (slashed (cs @ [x])) src True R = Some (True, R\<lparr>arch_fs := fs'\<rparr>)
     \<and> (\<forall>r. file_at r fs' = (if r = h @ cs @ [x] then Some y else file_at r (arch_fs R)) \<and> dir_at r fs' = dir_at r (arch_fs R))"
proof -
  have w: "writable R cs" "plain_name x" and hd: "home_text (archiveHome R)" and c: "canon (archiveHome R) (arch_fs R) = Some h"
    and d: "dir_at (h @ cs) (arch_fs R)" "\<not> dir_at (h @ cs @ [x]) (arch_fs R)" using s by (auto simp: storable_def)
  have p: "plain_names cs" "plain_names (cs @ [x])" "cs \<noteq> []" using w by (auto simp: writable_def)
  have dh: "dir_at h (arch_fs R)" using dir_at_prefix [OF d(1)] .
  have "canon (archiveHome R @ ''/'') (arch_fs R) = Some h" using c dh by (rule canon_slash)
  then have "ensure_dir (archiveHome R @ ''/'') (arch_fs R) = Some (arch_fs R)" "make_path (archiveHome R @ ''/'') cs (arch_fs R) = Some (arch_fs R)"
    using dh d(1) p(1) by (auto simp: ensure_dir_def ft_isDir_iff intro: make_path_existing)
  then have mk: "make_path (archiveHome R) ('''' # cs) (arch_fs R) = Some (arch_fs R)" by simp
  have nl: "butlast (fst (nl_init [] (slashed (cs @ [x])) (CHR ''/''))) = '''' # cs"
    using p by (subst nl_slashed) auto
  obtain r where r: "slashed (cs @ [x]) = CHR ''/'' # r" using p(3) by (cases cs) simp_all
  have full: "fst (strReplace (archiveHome R @ ''/'' @ slashed (cs @ [x])) ''//'' ''/'') = archiveHome R @ slashed (cs @ [x])"
    unfolding r using double_slash [of "archiveHome R" r] hd by (simp add: home_text_def strReplace_def)
  have "canon (archiveHome R @ slashed (cs @ [x])) (arch_fs R) = Some (h @ cs @ [x])"
    using canon_slashed [OF c p(2) dh] d(1) by simp
  from copyFile_effect [OF y this d(2) assms(3)] obtain fs' where
    "ft_copyFile src (archiveHome R @ slashed (cs @ [x])) '''' (arch_fs R) = Some (True, fs')"
    "\<forall>r. file_at r fs' = (if r = h @ cs @ [x] then Some y else file_at r (arch_fs R)) \<and> dir_at r fs' = dir_at r (arch_fs R)" by blast
  moreover have "getRootPath (slashed (cs @ [x])) R = Some (archiveHome R)" using writable_root [OF w(1), of "[x]"] w(2) by simp
  ultimately show ?thesis
    using assms(4) mk nl full by (intro exI [of _ fs']) (simp add: addResource_def Let_def del: slashed_simps make_path.simps)
qed

text \<open>What a handler leaves alone when it only changes files.\<close>

definition same_but_files :: "alarm_manager \<Rightarrow> alarm_manager \<Rightarrow> bool" where
  "same_but_files A A' \<longleftrightarrow> (\<exists>fs. A' = am_with_fs fs A)"

lemma same_but_files_fields:
  assumes "same_but_files A A'"
  shows "am_par A' = am_par A" "am_tab A' = am_tab A" "mksensors_called A' = mksensors_called A" "init_called A' = init_called A"
    "am_sent A' = am_sent A" "archiveHome (am_archive A') = archiveHome (am_archive A)" "writable (am_archive A') cs = writable (am_archive A) cs"
  using assms by (auto simp: same_but_files_def am_with_fs_def)

lemma store_effect:
  assumes "storable E h cs x (am_archive A)"
  shows "\<exists>A'. store E (slashed (cs @ [x])) text A = Some A' \<and> same_but_files A A'
     \<and> (\<forall>q. file_at q (am_fs A') = (if q = h @ cs @ [x] then Some (text @ newline) else if q = h @ [tmp_name] then None else file_at q (am_fs A)))
     \<and> (\<forall>q. dir_at q (am_fs A') = dir_at q (am_fs A))"
proof -
  let ?R = "am_archive A" and ?t = "alarm_tmp E" and ?u = "slashed (cs @ [x])" and ?q = "h @ cs @ [x]" and ?z = "h @ [tmp_name]"
  have c: "canon (ws_home E) (arch_fs ?R) = Some h" and d: "dir_at (h @ cs) (arch_fs ?R)" "\<not> dir_at ?z (arch_fs ?R)"
    and l: "2 \<le> length cs" using assms by (auto simp: storable_def writable_def)
  have qz: "?q \<noteq> ?z" using l by (auto dest: arg_cong [where f = length])
  have t: "canon ?t (arch_fs ?R) = Some ?z"
    using canon_child [OF c dir_at_prefix [OF d(1)], of tmp_name] by (simp add: alarm_tmp_def plain_name_def)
  then obtain fs1 where fs1: "out_text False ?t text (arch_fs ?R) = Some fs1" using d(2) by (simp add: out_text_def ft_write_def)
  note k1 = ft_write_file_at [OF fs1 [unfolded out_text_def]] ft_write_canon [OF fs1 [unfolded out_text_def]]
  let ?R1 = "?R\<lparr>arch_fs := fs1\<rparr>"
  have s1: "storable E h cs x ?R1" using assms by (simp add: storable_def k1)
  have "ft_read ?t (arch_fs ?R1) = Some (text @ newline)" using t by (simp add: ft_read_def k1)
  moreover have "canon ?t (arch_fs ?R1) \<noteq> Some ?q" "?t \<noteq> ''''" using t qz [symmetric] by (auto simp: k1 alarm_tmp_def)
  ultimately obtain fs2 where fs2: "addResource ?u ?t True ?R1 = Some (True, ?R1\<lparr>arch_fs := fs2\<rparr>)"
    "\<And>r. file_at r fs2 = (if r = ?q then Some (text @ newline) else file_at r fs1)" "\<And>r. dir_at r fs2 = dir_at r fs1"
    using addResource_copy [OF s1, of ?t "text @ newline"] by auto
  have t2: "canon ?t fs2 = Some ?z" using canon_same_dirs [of fs2 fs1] fs2(3) t by (simp add: k1)
  obtain b fs3 where fs3: "ft_deleteFile ?t '''' fs2 = (b, fs3)" by fastforce
  note k3 = deleteFile_effect [OF fs3 refl]
  let ?A = "am_with_fs fs3 A"
  have "mkResource E text A = A\<lparr>am_archive := ?R1\<rparr>" using fs1 by (simp add: mkResource_def am_with_fs_def am_fs_def out_ignored_def)
  then have "store E ?u text A = Some ?A"
    using fs2(1) fs3 by (simp add: store_def am_addResource_def am_deleteFile_def am_with_fs_def am_fs_def del: slashed_simps)
  moreover have "file_at q (am_fs ?A) = (if q = ?q then Some (text @ newline) else if q = ?z then None else file_at q (am_fs A))" for q
    using k1(1) fs2(2) k3(2) t t2 qz by (auto simp: am_fs_def am_with_fs_def)
  moreover have "dir_at q (am_fs ?A) = dir_at q (am_fs A)" for q
    using k1(2) fs2(3) k3(3) by (simp add: am_fs_def am_with_fs_def)
  ultimately show ?thesis unfolding same_but_files_def by blast
qed

subsection \<open>A schedule, from the application to the agent and back\<close>

abbreviation alarm_names :: "string list" where
  "alarm_names \<equiv> [''program'', ''programs'', ''Alarm'']"

text \<open>The state after the first request: the root of the programs exists and no file is in the way.\<close>

definition alarm_ready :: "ws_env \<Rightarrow> fspath \<Rightarrow> alarm_manager \<Rightarrow> bool" where
  "alarm_ready E h A \<longleftrightarrow> init_called A \<and> mksensors_called A \<and> home_text (ws_home E) \<and> archiveHome (am_archive A) = ws_home E
     \<and> writable (am_archive A) alarm_names \<and> canon (ws_home E) (am_fs A) = Some h \<and> dir_at (h @ [''program'']) (am_fs A)
     \<and> file_at (h @ [''program'', ''programs'']) (am_fs A) = None \<and> file_at (h @ alarm_names) (am_fs A) = None
     \<and> \<not> dir_at (h @ [tmp_name]) (am_fs A)"

lemma ready_prepared: "alarm_ready E h A \<Longrightarrow> prepare E A = Some A"
  by (auto simp: alarm_ready_def prepare_def mkSensorsAndActions_def checkAndInitPrograms_def)

lemma take_names: "i \<le> 2 \<Longrightarrow> take i [''programs'', ''Alarm''] = (if i = 0 then [] else if i = 1 then [''programs''] else [''programs'', ''Alarm''])"
  by (cases i) (auto simp: le_Suc_eq)

lemma ready_path:
  assumes r: "alarm_ready E h A"
  shows "\<exists>A1. checkAndMakePath E ''program/programs/Alarm'' A = Some (True, A1) \<and> same_but_files A A1 \<and> alarm_ready E h A1
     \<and> (\<forall>q. file_at q (am_fs A1) = file_at q (am_fs A)) \<and> dir_at (h @ alarm_names) (am_fs A1)
     \<and> (\<forall>q. dir_at q (am_fs A) \<longrightarrow> dir_at q (am_fs A1))
     \<and> (\<forall>q. dir_at q (am_fs A1) \<longrightarrow> dir_at q (am_fs A) \<or> (\<exists>i. q = (h @ [''program'']) @ take i [''programs'', ''Alarm'']))"
proof -
  let ?p = "ws_home E @ ''/program''" and ?q = "h @ [''program'']" and ?ns = "[''programs'', ''Alarm'']"
  have c: "canon (ws_home E) (am_fs A) = Some h" and d: "dir_at ?q (am_fs A)"
    and f: "file_at (h @ [''program'', ''programs'']) (am_fs A) = None" "file_at (h @ alarm_names) (am_fs A) = None"
    and z: "\<not> dir_at (h @ [tmp_name]) (am_fs A)" using r by (auto simp: alarm_ready_def)
  have cp: "canon ?p (am_fs A) = Some ?q"
    using canon_child [OF c dir_at_prefix [OF d], of "''program''"] by (simp add: plain_name_def)
  have "file_at ?q (am_fs A) = None" using d file_not_dir by (cases "file_at ?q (am_fs A)") auto
  then have "file_at (?q @ take i ?ns) (am_fs A) = None" if "i \<le> length ?ns" for i
    using that f take_names [of i] by auto
  from make_path_plain [OF cp d _ this] obtain fs1 where m: "make_path ?p ?ns (am_fs A) = Some fs1" "dir_at (?q @ ?ns) fs1"
    "\<And>r. dir_at r fs1 \<Longrightarrow> dir_at r (am_fs A) \<or> (\<exists>i. r = ?q @ take i ?ns)" by (auto simp: plain_name_def)
  note mf = make_path_files [OF m(1)]
  have "fst (nl_init [] ''program/programs/Alarm'' (CHR ''/'')) = alarm_names" by code_simp
  moreover have "ft_isDir ?p (am_fs A)" using cp d by (auto simp: ft_isDir_iff)
  ultimately have e: "checkAndMakePath E ''program/programs/Alarm'' A = Some (True, am_with_fs fs1 A)"
    using make_path_dirs [OF m(1)] by (simp add: checkAndMakePath_def del: make_dirs.simps)
  have fs: "am_fs (am_with_fs fs1 A) = fs1" by (simp add: am_fs_def am_with_fs_def)
  have "h @ [tmp_name] \<noteq> ?q @ take i ?ns" for i by (cases i) auto
  then have "\<not> dir_at (h @ [tmp_name]) fs1" using m(3) z by blast
  moreover have "canon (ws_home E) fs1 = Some h" using canon_more_dirs [of "am_fs A" fs1, OF _ c] mf by blast
  ultimately have "alarm_ready E h (am_with_fs fs1 A)"
    using r mf d unfolding alarm_ready_def fs by (simp add: am_with_fs_def)
  with e m mf fs show ?thesis by (auto simp: same_but_files_def)
qed

lemma extract_between:
  assumes "CHR ''{'' \<notin> set pre" and "CHR ''}'' \<notin> set post" and "inner \<noteq> ''''"
  shows "extractString (pre @ ''{'' @ inner @ ''}'' @ post) (CHR ''{'') (CHR ''}'') = Some inner"
proof -
  have "dropWhile (\<lambda>c. c \<noteq> CHR ''{'') (pre @ CHR ''{'' # inner @ CHR ''}'' # post) = CHR ''{'' # inner @ CHR ''}'' # post"
    using assms(1) by (subst dropWhile_append2) auto
  with find_last_append [OF assms(2), of inner] assms(3) show ?thesis by (simp add: extractString_def)
qed

definition schedule_text :: "string_pair list \<Rightarrow> string \<Rightarrow> string" where
  "schedule_text l x = fold (\<lambda>p x. fst (strReplace (fst (strReplace x ''$TT'' (sp_first p))) ''$TT'' (sp_second p))) l x"

text \<open>What a document of the schedule must be for the service, and where its template stands.\<close>

definition schedule_document :: "ws_env \<Rightarrow> string \<Rightarrow> string_pair list \<Rightarrow> bool" where
  "schedule_document E body l \<longleftrightarrow> Option.bind (Option.bind (ws_json E body) (get_child ''schedule_data'')) (jparser2 ''start'' ''end'') = Some l"

definition template_at :: "ws_env \<Rightarrow> string \<Rightarrow> fspath \<Rightarrow> string \<Rightarrow> fsnode \<Rightarrow> bool" where
  "template_at E name tq tx fs \<longleftrightarrow> canon (ws_config E @ ''/templates/'' @ name) fs = Some tq \<and> file_at tq fs = Some tx \<and> CHR 0x00 \<notin> set tx"

lemma template_loaded: "template_at E name tq tx fs \<Longrightarrow> loadTemplate (ws_config E @ ''/templates/'' @ name) fs = Some tx"
proof -
  assume t: "template_at E name tq tx fs"
  then have "open_in (ws_config E @ ''/templates/'' @ name) fs = TextStream tx"
    unfolding open_in_read [symmetric] by (simp add: template_at_def ft_read_def)
  moreover have "takeWhile (\<lambda>c. c \<noteq> CHR 0x00) tx = tx" using t by (auto simp: template_at_def takeWhile_eq_all_conv)
  ultimately show ?thesis by (simp add: loadTemplate_def)
qed

lemma schedule_translated:
  assumes "schedule_document E body l" and "template_at E ''Auto.xml'' tq tx (am_fs A)"
  shows "schedulej2x E body A = Some (schedule_text l tx)"
  using assms(1) template_loaded [OF assms(2)]
  by (auto simp: schedulej2x_def schedule_document_def schedule_text_def bind_eq_Some_conv)

text \<open>C20: a schedule that the application posts is sent to the alarm agent as one program, the template with
  the times of the document filled in, and is the document that a later request returns; the service is
  ready for the next request.\<close>

theorem schedule_round_trip:
  assumes r: "alarm_ready E h A" and "\<not> dir_at (h @ alarm_names @ [''Schedule.json'']) (am_fs A)"
    and doc: "schedule_document E body l" and tmpl: "template_at E ''Auto.xml'' tq tx (am_fs A)"
    and tq: "tq \<noteq> h @ alarm_names @ [''Schedule.json'']" "tq \<noteq> h @ [tmp_name]"
    and body: "body = pre @ ''{'' @ inner @ ''}'' @ post" "CHR ''{'' \<notin> set pre" "CHR ''}'' \<notin> set post" "inner \<noteq> ''''"
  shows "\<exists>m A' m'. alarm_execPost E [a, b, ''Schedule.json''] body A = Some (m, A') \<and> alarm_ready E h A'
     \<and> am_sent A' = am_sent A @ [post_text (mp_get (am_par A) ''sendAUTOurl'') (schedule_text l tx)]
     \<and> alarm_execGet E [a, b, ''Schedule.json''] A' = Some (m', A')
     \<and> m_getString m' ''body'' = fst (strReplace (mp_get (am_par A) ''get_answer'') ''$BODY'' inner)"
proof -
  let ?q = "h @ alarm_names @ [''Schedule.json'']"
  obtain A1 where A1: "checkAndMakePath E ''program/programs/Alarm'' A = Some (True, A1)" "same_but_files A A1" "alarm_ready E h A1"
    "\<And>q. file_at q (am_fs A1) = file_at q (am_fs A)" "dir_at (h @ alarm_names) (am_fs A1)" "\<And>q. dir_at q (am_fs A) \<Longrightarrow> dir_at q (am_fs A1)"
    "\<And>q. dir_at q (am_fs A1) \<Longrightarrow> dir_at q (am_fs A) \<or> (\<exists>i. q = (h @ [''program'']) @ take i [''programs'', ''Alarm''])"
    using ready_path [OF r] by blast
  have "?q \<noteq> (h @ [''program'']) @ take i [''programs'', ''Alarm'']" for i
    by (auto dest!: arg_cong [where f = length])
  then have nd: "\<not> dir_at ?q (am_fs A1)" using A1(7) assms(2) by blast
  have s1: "storable E h alarm_names ''Schedule.json'' (am_archive A1)"
    using A1(3,5) nd by (simp add: storable_def alarm_ready_def am_fs_def plain_name_def)
  obtain A2 where A2: "store E (slashed (alarm_names @ [''Schedule.json''])) body A1 = Some A2" "same_but_files A1 A2"
    "\<And>q. file_at q (am_fs A2) = (if q = ?q then Some (body @ newline) else if q = h @ [tmp_name] then None else file_at q (am_fs A1))"
    "\<And>q. dir_at q (am_fs A2) = dir_at q (am_fs A1)"
    using store_effect [OF s1, of body] by blast
  note f1 = same_but_files_fields [OF A1(2)] and f2 = same_but_files_fields [OF A2(2)]
  have c2: "canon p (am_fs A2) = canon p (am_fs A1)" for p using A2(4) by (rule canon_same_dirs)
  have "template_at E ''Auto.xml'' tq tx (am_fs A2)"
    using tmpl tq A1(4,6) canon_more_dirs [of "am_fs A" "am_fs A1"] by (auto simp: template_at_def A2(3) c2)
  note sched = schedule_translated [OF doc this]
  let ?req = "post_text (mp_get (am_par A) ''sendAUTOurl'') (schedule_text l tx)"
  let ?A3 = "A2\<lparr>am_sent := am_sent A2 @ [?req]\<rparr>"
  have r2: "alarm_ready E h A2" using A1(3) unfolding alarm_ready_def f2 c2 A2(3,4) by simp
  then have r3: "alarm_ready E h ?A3" by (simp add: alarm_ready_def am_fs_def)
  have st: "getStem ''Schedule.json'' = ''Schedule''" by code_simp
  have post: "\<exists>m. alarm_execPost E [a, b, ''Schedule.json''] body A = Some (m, ?A3)"
    using ready_prepared [OF r] A1(1) A2(1) sched st f1 f2
    by (simp add: alarm_execPost_def post_document_def sendFile_def forward_def case_prod_beta Let_def)
  have R: "writable (am_archive ?A3) alarm_names" "canon (archiveHome (am_archive ?A3)) (arch_fs (am_archive ?A3)) = Some h"
    "file_at (h @ alarm_names @ [''Schedule.json'']) (arch_fs (am_archive ?A3)) = Some (body @ newline)"
    using r2 A2(3) by (simp_all add: alarm_ready_def am_fs_def)
  have "getAlarmFile ''/program/programs/Alarm/Schedule.json'' ?A3 = Some (body @ newline)"
    unfolding getAlarmFile_def by (rule getFile_resource [OF R(1) _ _ R(2,3)]) (simp_all add: plain_name_def)
  moreover have "body @ newline = pre @ ''{'' @ inner @ ''}'' @ (post @ newline)" "CHR ''}'' \<notin> set (post @ newline)"
    using body by (simp_all add: newline_def)
  then have "extractString (body @ newline) (CHR ''{'') (CHR ''}'') = Some inner" using extract_between [OF body(2) _ body(4)] by simp
  ultimately have "stored_answer ''/program/programs/Alarm/Schedule.json'' ?A3
      = Some (json_answer (with_body (fst (strReplace (mp_get (am_par A) ''get_answer'') ''$BODY'' inner))))"
    using body f1 f2 by (simp add: stored_answer_def makeGetAnswer_def)
  then have "\<exists>m'. alarm_execGet E [a, b, ''Schedule.json''] ?A3 = Some (m', ?A3)
     \<and> m_getString m' ''body'' = fst (strReplace (mp_get (am_par A) ''get_answer'') ''$BODY'' inner)"
    using ready_prepared [OF r3] by (simp add: alarm_execGet_def json_answer_def with_body_def)
  moreover have "am_sent ?A3 = am_sent A @ [?req]" using f1 f2 by simp
  ultimately show ?thesis using post r3 by blast
qed

subsection \<open>The program of the zones\<close>

text \<open>The reference: the selected names of the enabled zones, marked as sensors or actions, each kept where it
  occurs first; an action stands for two alarms.\<close>

definition chosen :: "string_pair list \<times> string_pair list \<Rightarrow> (string \<times> bool) list" where
  "chosen d = (let sel = map sp_first \<circ> filter (\<lambda>p. sp_second p = ''true'')
     in map (\<lambda>n. (n, False)) (sel (fst d)) @ map (\<lambda>n. (n, True)) (sel (snd d)))"

fun first_names :: "('a \<times> 'b) list \<Rightarrow> ('a \<times> 'b) list" where
  "first_names [] = []"
| "first_names (x # xs) = x # first_names (filter (\<lambda>y. fst y \<noteq> fst x) xs)"

definition alarms_of :: "string \<times> bool \<Rightarrow> string list" where
  "alarms_of nb = (if snd nb then [fst nb @ ''_on'', fst nb @ ''_off''] else [fst nb])"

definition add_name :: "string \<times> bool \<Rightarrow> string list \<times> string list \<Rightarrow> string list \<times> string list" where
  "add_name nb al = (if fst nb \<in> set (snd al) then al else (fst al @ alarms_of nb, snd al @ [fst nb]))"

lemma fold_add_name:
  "fold add_name xs (al, seen) =
     (let new = first_names (filter (\<lambda>x. fst x \<notin> set seen) xs) in (al @ concat (map alarms_of new), seen @ map fst new))"
proof (induction xs arbitrary: al seen)
  case (Cons x xs)
  have "filter (\<lambda>y. fst y \<noteq> fst x \<and> fst y \<notin> set seen) xs = filter (\<lambda>y. fst y \<notin> set seen \<and> fst y \<noteq> fst x) xs"
    by (rule filter_cong) auto
  with Cons show ?case by (auto simp: add_name_def Let_def)
qed simp

lemma fold_add_sensor: "fold add_sensor l al = fold add_name (map (\<lambda>n. (n, False)) (map sp_first (filter (\<lambda>p. sp_second p = ''true'') l))) al"
  by (induction l arbitrary: al) (auto simp: add_sensor_def add_name_def alarms_of_def case_prod_beta Let_def)

lemma fold_add_action: "fold add_action l al = fold add_name (map (\<lambda>n. (n, True)) (map sp_first (filter (\<lambda>p. sp_second p = ''true'') l))) al"
  by (induction l arbitrary: al) (auto simp: add_action_def add_name_def alarms_of_def case_prod_beta Let_def)

lemma zone_names_chosen:
  "\<forall>z \<in> set zs. zone_document E z A = Some (D z) \<Longrightarrow> zone_names E zs A al = Some (fold add_name (concat (map (\<lambda>z. chosen (D z)) zs)) al)"
  by (induction zs arbitrary: al) (auto simp: chosen_def fold_add_sensor fold_add_action Let_def case_prod_beta)

lemma jloop_names:
  assumes "jloop (\<lambda>v ww. do { a \<leftarrow> pt_get k1 v; b \<leftarrow> pt_get k2 v; Some (ww\<lparr>sp_first := a, sp_second := b\<rparr>) }) w vs = Some l"
  shows "\<exists>l1. jloop (\<lambda>v ww. do { a \<leftarrow> pt_get k1 v; Some (ww\<lparr>sp_first := a\<rparr>) }) w' vs = Some l1 \<and> map sp_first l1 = map sp_first l"
  using assms
proof (induction vs arbitrary: w w' l)
  case (Cons v vs)
  then obtain a b l' where v: "pt_get k1 v = Some a" "pt_get k2 v = Some b"
    "jloop (\<lambda>v ww. do { a \<leftarrow> pt_get k1 v; b \<leftarrow> pt_get k2 v; Some (ww\<lparr>sp_first := a, sp_second := b\<rparr>) }) (w\<lparr>sp_first := a, sp_second := b\<rparr>) vs = Some l'"
    "l = w\<lparr>sp_first := a, sp_second := b\<rparr> # l'" by (auto simp: bind_eq_Some_conv)
  from Cons.IH [OF v(3), of "w'\<lparr>sp_first := a\<rparr>"] v show ?case by auto
qed simp

lemma delete_files_effect:
  assumes "canon p fs = Some z" and "dir_at z fs" and "list_all plain_name fl"
  shows "\<And>q. file_at q (fold (\<lambda>f fs. if kept f then fs else snd (ft_deleteFile p f fs)) fl fs)
       = (if \<exists>f \<in> set fl. q = z @ [f] \<and> \<not> kept f then None else file_at q fs)"
    and "\<And>q. dir_at q (fold (\<lambda>f fs. if kept f then fs else snd (ft_deleteFile p f fs)) fl fs) = dir_at q fs"
proof -
  have "(\<forall>q. file_at q (fold (\<lambda>f fs. if kept f then fs else snd (ft_deleteFile p f fs)) fl fs)
       = (if \<exists>f \<in> set fl. q = z @ [f] \<and> \<not> kept f then None else file_at q fs))
    \<and> (\<forall>q. dir_at q (fold (\<lambda>f fs. if kept f then fs else snd (ft_deleteFile p f fs)) fl fs) = dir_at q fs)"
    using assms
  proof (induction fl arbitrary: fs)
    case (Cons f fl)
    obtain b fs1 where fs1: "ft_deleteFile p f fs = (b, fs1)" by fastforce
    have f: "plain_name f" "f \<noteq> ''''" using Cons.prems by (auto simp: plain_name_def)
    note d = deleteFile_effect [OF fs1 refl] and c = canon_child [OF Cons.prems(1,2) f(1)]
    have e: "file_at q fs1 = (if q = z @ [f] then None else file_at q fs)" "dir_at q fs1 = dir_at q fs" for q
      using d(2,3) [of q] c f(2) by auto
    have c1: "canon p fs1 = Some z" using canon_same_dirs [of fs1 fs p] e(2) Cons.prems(1) by simp
    from Cons.IH [of fs] Cons.IH [OF c1] Cons.prems e fs1 show ?case by (cases "kept f") auto
  qed simp
  then show "\<And>q. file_at q (fold (\<lambda>f fs. if kept f then fs else snd (ft_deleteFile p f fs)) fl fs)
       = (if \<exists>f \<in> set fl. q = z @ [f] \<and> \<not> kept f then None else file_at q fs)"
    and "\<And>q. dir_at q (fold (\<lambda>f fs. if kept f then fs else snd (ft_deleteFile p f fs)) fl fs) = dir_at q fs" by blast+
qed

abbreviation zone_dir :: "ws_env \<Rightarrow> string" where
  "zone_dir E \<equiv> ws_home E @ ''/program/programs/Alarm/Zones''"

text \<open>C21: the program made from a list of zones names every selected sensor of the enabled zones, and the two
  alarms of every selected action, once and in the order of their first selection; and the files of
  zones that are not in the list, and no others, are removed.\<close>

theorem zone_program:
  assumes docs: "\<forall>z \<in> set (map sp_first (filter (\<lambda>p. sp_second p = ''true'') l)). zone_document E z A = Some (D z)"
    and js: "ws_json E zonesjs = Some pt" "get_child ''zones'' pt = Some ptu" "jparser2 ''name'' ''enable_status'' ptu = Some l"
    and tmpl: "template_at E ''Zone.xml'' tq tx (am_fs A)"
    and dir: "canon (zone_dir E) (am_fs A) = Some z" "dir_at z (am_fs A)"
    and files: "fl = snd (fileList (ft_entries (zone_dir E) (am_fs A)))" "list_all plain_name fl"
  shows "\<exists>A'. zonesj2x E zonesjs A = Some (fst (strReplace tx ''$ALARMS'' (alarm_items (concat (map alarms_of
       (first_names (concat (map (\<lambda>z. chosen (D z)) (map sp_first (filter (\<lambda>p. sp_second p = ''true'') l))))))))), A')
     \<and> same_but_files A A'
     \<and> (\<forall>q. file_at q (am_fs A') = (if \<exists>f \<in> set fl. q = z @ [f] \<and> getStem f \<notin> sp_first ` set l \<and> f \<noteq> ''default.json''
          then None else file_at q (am_fs A)))"
proof -
  obtain l1 where l1: "jparser1 ''name'' ptu = Some l1" "map sp_first l1 = map sp_first l"
    using js(3) jloop_names unfolding jparser1_def jparser2_def by blast
  let ?fs = "fold (\<lambda>f fs. if zone_files_kept (map sp_first l1) f then fs else snd (ft_deleteFile (zone_dir E) f fs)) fl (am_fs A)"
  have clean: "cleanZones E zonesjs A = Some (am_with_fs ?fs A)"
    using js(1,2) l1(1) files(1) by (simp add: cleanZones_def Let_def)
  have names: "zone_names E (map sp_first (filter (\<lambda>p. sp_second p = ''true'') l)) A ([], []) =
      Some (fold add_name (concat (map (\<lambda>z. chosen (D z)) (map sp_first (filter (\<lambda>p. sp_second p = ''true'') l)))) ([], []))"
    using docs by (rule zone_names_chosen)
  have "zonesj2x E zonesjs A = Some (fst (strReplace tx ''$ALARMS'' (alarm_items (concat (map alarms_of
       (first_names (concat (map (\<lambda>z. chosen (D z)) (map sp_first (filter (\<lambda>p. sp_second p = ''true'') l))))))))), am_with_fs ?fs A)"
    using template_loaded [OF tmpl] js names clean by (simp add: zonesj2x_def fold_add_name Let_def)
  moreover have "zone_files_kept (map sp_first l1) f \<longleftrightarrow> getStem f \<in> sp_first ` set l \<or> f = ''default.json''" for f
    by (simp add: zone_files_kept_def l1(2))
  then have "file_at q (am_fs (am_with_fs ?fs A)) = (if \<exists>f \<in> set fl. q = z @ [f] \<and> getStem f \<notin> sp_first ` set l \<and> f \<noteq> ''default.json''
          then None else file_at q (am_fs A))" for q
    using delete_files_effect(1) [OF dir files(2), of q "zone_files_kept (map sp_first l1)"] by (simp add: am_fs_def am_with_fs_def)
  ultimately show ?thesis by (auto simp: same_but_files_def)
qed

subsection \<open>Departures\<close>

text \<open>The selection of a device in an execution queue is the value of its action, and what is sent is always the
  command that switches off.\<close>

lemma queue_never_on:
  assumes "jparser3 ''name'' ''selection_status'' ''action'' ptu = Some l" and "p \<in> set l"
  shows "queue_action p alist = (if sp_second p = ''true''
     then (if alist = '''' then sp_first p else alist @ ''+'' @ sp_first p)
          @ (if str_contains (sp_first p) ''SH_'' then ''_pdown'' else ''_off'') else alist)"
  using jparser3_third [OF assms] by (simp add: queue_action_def)

lemma queue_example:
  "map_option (\<lambda>l. fold queue_action l '''')
     (jparser3 ''name'' ''selection_status'' ''action''
       (PTree '''' [('''', PTree '''' [(''name'', PTree ''LI_1'' []), (''selection_status'', PTree ''false'' []), (''action'', PTree ''true'' [])]),
                    ('''', PTree '''' [(''name'', PTree ''LI_2'' []), (''selection_status'', PTree ''true'' []), (''action'', PTree ''false'' [])])]))
   = Some ''LI_1_off''"
  by code_simp

text \<open>The bracket of an empty list is taken for its contents, an answer without a body loses three characters,
  and a list with a single opening brace ends the handler.\<close>

lemma extract_empty_list: "extractString ''{sensors: []}'' (CHR ''['') (CHR '']'') = Some '']}''"
  by code_simp

lemma answer_without_body: "body_of ''Not Found'' = Some '' Found''"
  by code_simp

lemma extract_at_end: "extractString ''{'' (CHR ''{'') (CHR ''}'') = None"
  by code_simp

subsection \<open>Examples\<close>

definition pair_node :: "string \<Rightarrow> string \<Rightarrow> string \<Rightarrow> string \<Rightarrow> string \<times> ptree" where
  "pair_node k1 v1 k2 v2 = ('''', PTree '''' [(k1, PTree v1 []), (k2, PTree v2 [])])"

definition alarm_json :: json_reader where
  "alarm_json s =
     (if s = ''{S}'' then Some (PTree '''' [(''schedule_data'', PTree '''' [pair_node ''start'' ''8'' ''end'' ''9''])])
      else if s = ''Z'' then Some (PTree '''' [(''zones'', PTree '''' [pair_node ''name'' ''hall'' ''enable_status'' ''true''])])
      else if s = ''H'' then Some (PTree '''' [(''sensors'', PTree '''' [pair_node ''name'' ''door'' ''selection_status'' ''true'']),
        (''actions'', PTree '''' [pair_node ''name'' ''siren'' ''selection_status'' ''true''])])
      else None)"

definition alarm_env :: ws_env where
  "alarm_env = \<lparr>ws_config = ''/conf'', ws_home = ''/home'', ws_net = (\<lambda>p a r. ''OK''),
     ws_table = \<lparr>nt_agent = [], namelookup = [], nt_category = []\<rparr>, ws_json = alarm_json, ws_xml = (\<lambda>s. []), ws_junk = 0\<rparr>"

definition alarm_home :: "(string \<times> fsnode) list \<Rightarrow> fsnode" where
  "alarm_home programs = DirNode [
     (''conf'', DirNode [(''templates'', DirNode [(''Auto.xml'', FileNode ''$TT-$TT''), (''Zone.xml'', FileNode ''<$ALARMS>'')])]),
     (''home'', DirNode [(''program'', DirNode programs)])]"

definition alarm_example :: "(string \<times> fsnode) list \<Rightarrow> alarm_manager" where
  "alarm_example programs = \<lparr>am_par = mp_add (mp_add mp_default ''get_answer'' ''[$BODY]'') ''sendAUTOurl'' ''/programs/AUTO'', am_tab = [],
     mksensors_called = True, init_called = True,
     am_archive = (archive_new ''/conf'' ''/home'' ''archive'' (alarm_home programs))
       \<lparr>accessInfo := [(''program'', \<lparr>temporalWindow = 7, rd_prefix = ''/home'', visibility = [''*'']\<rparr>)]\<rparr>,
     am_sent = []\<rparr>"

definition hall_files :: "(string \<times> fsnode) list" where
  "hall_files = [(''programs'', DirNode [(''Alarm'', DirNode [(''Zones'', DirNode [(''hall.json'', FileNode ''H''), (''old.json'', FileNode ''O'')])])])]"

theorem schedule_round_trip_witness:
  "\<exists>m A' m'. alarm_execPost alarm_env [''horus-ws'', ''Alarm'', ''Schedule.json''] ''{S}'' (alarm_example []) = Some (m, A')
     \<and> am_sent A' = [post_text ''/programs/AUTO'' ''8-9'']
     \<and> alarm_execGet alarm_env [''horus-ws'', ''Alarm'', ''Schedule.json''] A' = Some (m', A') \<and> m_getString m' ''body'' = ''[S]''"
proof -
  let ?A = "alarm_example []" and ?l = "[\<lparr>sp_first = ''8'', sp_second = ''9'', sp_third = '''', sp_fourth = ''''\<rparr>]"
  have r: "alarm_ready alarm_env [''home''] ?A" by code_simp
  have d: "\<not> dir_at ([''home''] @ alarm_names @ [''Schedule.json'']) (am_fs ?A)" by code_simp
  have s: "schedule_document alarm_env ''{S}'' ?l" by code_simp
  have t: "template_at alarm_env ''Auto.xml'' [''conf'', ''templates'', ''Auto.xml''] ''$TT-$TT'' (am_fs ?A)" by code_simp
  have x: "schedule_text ?l ''$TT-$TT'' = ''8-9''" "mp_get (am_par ?A) ''sendAUTOurl'' = ''/programs/AUTO''" "am_sent ?A = []"
    "fst (strReplace (mp_get (am_par ?A) ''get_answer'') ''$BODY'' ''S'') = ''[S]''" by code_simp+
  from schedule_round_trip [OF r d s t, where pre = "''''" and inner = "''S''" and post = "''''" and a = "''horus-ws''" and b = "''Alarm''"]
  show ?thesis unfolding x by auto
qed

theorem zone_program_witness:
  "\<exists>A'. zonesj2x alarm_env ''Z'' (alarm_example hall_files)
       = Some (''<'' @ alarm_items [''door'', ''siren_on'', ''siren_off''] @ ''>'', A')
     \<and> file_at [''home'', ''program'', ''programs'', ''Alarm'', ''Zones'', ''old.json''] (am_fs A') = None"
proof -
  let ?A = "alarm_example hall_files" and ?l = "[\<lparr>sp_first = ''hall'', sp_second = ''true'', sp_third = '''', sp_fourth = ''''\<rparr>]"
  let ?D = "\<lambda>z::string. ([\<lparr>sp_first = ''door'', sp_second = ''true'', sp_third = '''', sp_fourth = ''''\<rparr>],
     [\<lparr>sp_first = ''siren'', sp_second = ''true'', sp_third = '''', sp_fourth = ''''\<rparr>])"
  let ?z = "[''home'', ''program'', ''programs'', ''Alarm'', ''Zones'']"
  have docs: "\<forall>z \<in> set (map sp_first (filter (\<lambda>p. sp_second p = ''true'') ?l)). zone_document alarm_env z ?A = Some (?D z)" by code_simp
  have js: "ws_json alarm_env ''Z'' = Some (PTree '''' [(''zones'', PTree '''' [pair_node ''name'' ''hall'' ''enable_status'' ''true''])])"
    "get_child ''zones'' (PTree '''' [(''zones'', PTree '''' [pair_node ''name'' ''hall'' ''enable_status'' ''true''])])
       = Some (PTree '''' [pair_node ''name'' ''hall'' ''enable_status'' ''true''])"
    "jparser2 ''name'' ''enable_status'' (PTree '''' [pair_node ''name'' ''hall'' ''enable_status'' ''true'']) = Some ?l" by code_simp+
  have t: "template_at alarm_env ''Zone.xml'' [''conf'', ''templates'', ''Zone.xml''] ''<$ALARMS>'' (am_fs ?A)" by code_simp
  have dir: "canon (zone_dir alarm_env) (am_fs ?A) = Some ?z" "dir_at ?z (am_fs ?A)" by code_simp+
  have fl: "[''hall.json'', ''old.json''] = snd (fileList (ft_entries (zone_dir alarm_env) (am_fs ?A)))" "list_all plain_name [''hall.json'', ''old.json'']" by code_simp+
  have x: "fst (strReplace ''<$ALARMS>'' ''$ALARMS'' (alarm_items (concat (map alarms_of
       (first_names (concat (map (\<lambda>z. chosen (?D z)) (map sp_first (filter (\<lambda>p. sp_second p = ''true'') ?l))))))))) =
     ''<'' @ alarm_items [''door'', ''siren_on'', ''siren_off''] @ ''>''" by code_simp
  have g: "getStem ''old.json'' = ''old''" by code_simp
  from zone_program [OF docs js t dir fl] obtain A' where A': "zonesj2x alarm_env ''Z'' ?A
       = Some (''<'' @ alarm_items [''door'', ''siren_on'', ''siren_off''] @ ''>'', A')"
    "file_at (?z @ [''old.json'']) (am_fs A') = (if \<exists>f \<in> set [''hall.json'', ''old.json'']. ?z @ [''old.json''] = ?z @ [f]
        \<and> getStem f \<notin> sp_first ` set ?l \<and> f \<noteq> ''default.json'' then None else file_at (?z @ [''old.json'']) (am_fs ?A))"
    unfolding x by blast
  then show ?thesis by (auto simp: g)
qed

end
