(* ===== verification/Web_Managers.thy ===== *)
theory Web_Managers
  imports Web_Alarms
begin

text \<open>
  The other managers behind the mobile application, \<^verbatim>\<open>src/agents/WSServer\<close>: automatisms
  (\<^verbatim>\<open>AutomatismManager.cpp\<close>, \<^verbatim>\<open>AutomatismManagersrv.cpp\<close>), priorities of loads
  (\<^verbatim>\<open>PwrManager.cpp\<close>, \<^verbatim>\<open>PwrManagersrv.cpp\<close>), the records since the last visit of a phone
  (\<^verbatim>\<open>SrvManager.cpp\<close>), the log as text (\<^verbatim>\<open>LogManager.cpp\<close>, \<^verbatim>\<open>Translator.cpp\<close>), pages and
  tunnel (\<^verbatim>\<open>ConfManager.cpp\<close>, \<^verbatim>\<open>GuiLib.cpp\<close>) and the dispatch of a call to its manager
  (\<^verbatim>\<open>RpcServer.cpp\<close>). Requests to other agents are returned in the order they are sent; their
  answers come from \<open>ws_net\<close>. An uncaught exception, a read past the end of a text and a loop that does not
  end are \<open>None\<close>. \<^verbatim>\<open>std::sort\<close> is the argument \<open>srt\<close>, since it does not determine the order of
  equal elements.
\<close>

subsection \<open>Requests to an agent\<close>

definition wm_forward :: "ws_env \<Rightarrow> string \<Rightarrow> string \<Rightarrow> string" where
  "wm_forward E request ag = nt_forward (ws_net E) request ag (ws_table E)"

definition wm_download :: "ws_env \<Rightarrow> string \<Rightarrow> string \<Rightarrow> string option" where
  "wm_download E url ag = body_of (wm_forward E (get_text url) ag)"

definition wm_sendCmd :: "ws_env \<Rightarrow> string \<Rightarrow> string \<Rightarrow> string" where
  "wm_sendCmd E file ag = wm_forward E (post_text ''/'' file) ag"

subsection \<open>Automatisms\<close>

text \<open>A value in quotes after a keyword: to the sign of equality, past the next quotation mark, up to a
  quotation mark or a comma.\<close>

definition at_extractValue :: "string \<Rightarrow> string \<Rightarrow> string" where
  "at_extractValue body keyword =
     (case str_find keyword body of
        None \<Rightarrow> ''''
      | Some pos \<Rightarrow>
          takeWhile (\<lambda>c. c \<noteq> CHR 0x22 \<and> c \<noteq> CHR '','')
            (drop 1 (dropWhile (\<lambda>c. c \<noteq> CHR 0x22) (dropWhile (\<lambda>c. c \<noteq> CHR ''='') (drop pos body)))))"

definition cvtimej2x :: "string \<Rightarrow> string" where
  "cvtimej2x src = src @ '':00''"

definition cvtimex2j :: "string \<Rightarrow> string" where
  "cvtimex2j src = (if length src \<le> 5 then src else take 5 src)"

text \<open>What follows each \<^verbatim>\<open>item\<close> of a text.\<close>

function item_tails :: "string \<Rightarrow> string list" where
  "item_tails src =
     (case str_find ''item'' src of
        None \<Rightarrow> []
      | Some newpos \<Rightarrow> drop (newpos + 4) src # item_tails (drop (newpos + 4) src))"
  by pat_completeness auto
termination
  by (relation "measure length") (auto dest!: str_find_append arg_cong [where f = length])

definition at_item :: "mparams \<Rightarrow> string \<Rightarrow> string \<Rightarrow> string" where
  "at_item par lsrc alias =
     (let status = at_extractValue lsrc ''status'';
          from_time = cvtimex2j (at_extractValue lsrc ''from='');
          to_time = cvtimex2j (at_extractValue lsrc ''to='');
          s1 = fst (strReplace (mp_get par ''item_status'') ''$ALIAS'' alias);
          s2 = fst (strReplace s1 ''$START'' from_time);
          s3 = fst (strReplace s2 ''$END'' to_time)
      in fst (strReplace s3 ''$TRUEFALSE'' (if status = ''ON'' then ''true'' else ''false'')))"

definition at_add_item :: "mparams \<Rightarrow> string \<Rightarrow> char \<Rightarrow> string \<Rightarrow> string \<Rightarrow> string" where
  "at_add_item par category mark lsrc body =
     (let name = at_extractValue lsrc ''name''; alias = at_extractValue lsrc ''alias'';
          tcategory = (if length alias > 3 then take 2 alias else '''')
      in if name \<noteq> '''' \<and> hd name = mark \<and> tcategory = category
         then (if body = '''' then body @ at_item par lsrc alias else body @ '','' @ at_item par lsrc alias)
         else body)"

definition mkAnswerBody :: "mparams \<Rightarrow> string \<Rightarrow> string \<Rightarrow> char \<Rightarrow> string" where
  "mkAnswerBody par src category mark = fold (at_add_item par category mark) (item_tails src) ''''"

definition at_execGet :: "ws_env \<Rightarrow> mparams \<Rightarrow> string list \<Rightarrow> mmessage option" where
  "at_execGet E par params =
     (let rule_answer = (\<lambda>mark. do {
            rulestatus \<leftarrow> wm_download E (mp_get par ''rule_status_req'') (mp_get par ''automatismag'');
            Some (fst (strReplace (mp_get par ''rule_status_answer'') ''$BODY''
                   (mkAnswerBody par rulestatus (take 2 (params ! 3)) mark))) })
      in do {
           answer \<leftarrow> (if length params > 3 \<and> params ! 2 = ''Programmed'' \<and> length (params ! 3) > 3 then rule_answer (CHR ''_'')
                     else if length params > 3 \<and> params ! 2 = ''SelfManaged'' \<and> length (params ! 3) > 3 then rule_answer (CHR ''R'')
                     else Some '''');
           Some (json_answer (with_body answer))
         })"

definition at_execPut :: mmessage where
  "at_execPut = json_answer m_default"

definition at_command :: "mparams \<Rightarrow> string list \<Rightarrow> string_pair \<Rightarrow> string" where
  "at_command par params p =
     (let msg = mp_get par (if params ! 2 = ''Programmed'' then ''set_trrule_status'' else ''set_rule_status'');
          m1 = fst (strReplace msg ''$NAME'' (sp_second p));
          m2 = fst (strReplace m1 ''$STATUS'' (if sp_first p = ''true'' then ''ON'' else ''OFF''));
          m3 = fst (strReplace m2 ''$FROM'' (cvtimej2x (sp_third p)))
      in fst (strReplace m3 ''$TO'' (cvtimej2x (sp_fourth p))))"

text \<open>A request with any other address is answered with its own body.\<close>

definition at_execPost :: "ws_env \<Rightarrow> mparams \<Rightarrow> string list \<Rightarrow> string \<Rightarrow> (mmessage \<times> string list) option" where
  "at_execPost E par params body =
     (if length params < 3 then Some (with_body ''Not supported'', [])
      else if length params > 3 \<and> (params ! 2 = ''Programmed'' \<or> params ! 2 = ''SelfManaged'') \<and> length (params ! 3) > 3
      then do {
        pt \<leftarrow> ws_json E body;
        pta \<leftarrow> get_child ''automatisms'' pt;
        l \<leftarrow> jparser4 ''enable_status'' ''name'' ''start'' ''end'' pta;
        let cmds = map (at_command par params) l;
        let success = list_all (\<lambda>c. str_contains (wm_sendCmd E c (mp_get par ''automatismag'')) ''done'') cmds;
        let answer = fst (strReplace (mp_get par ''set_rule_status_answer'') ''$TRUEFALSE'' (if success then ''true'' else ''false''));
        Some (json_answer (with_body answer), map (post_text ''/'') cmds)
      }
      else Some (json_answer (with_body body), []))"

subsection \<open>Priorities of loads\<close>

record device_descriptor =
  dd_name :: string
  dd_priority :: string
  dd_status :: string

definition pw_getCategory :: "string \<Rightarrow> string" where
  "pw_getCategory name = (if length name > 3 \<and> name ! 2 = CHR ''_'' then take 2 name else '''')"

text \<open>The last child of each name counts.\<close>

definition last_child :: "string \<Rightarrow> (string \<times> ptree) list \<Rightarrow> string" where
  "last_child k cs = fold (\<lambda>(n, c) v. if n = k then pt_data c else v) cs ''''"

definition mkDevDescription :: "string \<Rightarrow> (string \<times> ptree) list \<Rightarrow> device_descriptor list" where
  "mkDevDescription category cs =
     (let name = last_child ''device'' cs
      in if pw_getCategory name = category
         then [\<lparr>dd_name = name, dd_priority = last_child ''priority'' cs, dd_status = last_child ''status'' cs\<rparr>] else [])"

fun getDevices :: "string \<Rightarrow> ptree \<Rightarrow> device_descriptor list" where
  "getDevices category (PTree x cs) =
     concat (map (\<lambda>(n, c). if n = ''type'' \<and> pt_data c = ''load'' then mkDevDescription category cs else getDevices category c) cs)"

definition sortEval :: "device_descriptor \<Rightarrow> device_descriptor \<Rightarrow> bool" where
  "sortEval a b \<longleftrightarrow> dd_priority a < dd_priority b"

definition pw_item :: "device_descriptor \<Rightarrow> string" where
  "pw_item d = ''{'' @ quote @ ''name'' @ quote @ '':'' @ quote @ dd_name d @ quote @ '','' @ quote @ ''enable_status'' @ quote @ '':'' @ quote
     @ (if dd_status d = ''ON'' then ''true'' else ''false'') @ quote @ ''}''"

definition pw_mkAnswer :: "mparams \<Rightarrow> device_descriptor list \<Rightarrow> string" where
  "pw_mkAnswer par devices = fst (strReplace (mp_get par ''get_answer_template'') ''$BODY'' (join_with '','' (map pw_item devices)))"

definition pw_execGet ::
  "(device_descriptor list \<Rightarrow> device_descriptor list) \<Rightarrow> ws_env \<Rightarrow> mparams \<Rightarrow> string list \<Rightarrow> mmessage option" where
  "pw_execGet srt E par params =
     (if params = [] then None
      else do {
        device_queue \<leftarrow> wm_download E (mp_get par ''device_queue'') (mp_get par ''pwrcontrol'');
        rpt \<leftarrow> ws_json E device_queue;
        pt \<leftarrow> get_child ''list'' rpt;
        Some (json_answer (with_body (pw_mkAnswer par (srt (getDevices (getStem (last params)) pt)))))
      })"

definition pw_command :: "mparams \<Rightarrow> nat \<Rightarrow> string_pair \<Rightarrow> string" where
  "pw_command par n p =
     (let m1 = fst (strReplace (mp_get par ''set_device_cmd'') ''$NAME'' (sp_first p));
          m2 = fst (strReplace m1 ''$PRIORITY'' (int2a (int n)))
      in fst (strReplace m2 ''$STATUS'' (if sp_second p = ''true'' then ''ON'' else ''OFF'')))"

definition pw_execPost :: "ws_env \<Rightarrow> mparams \<Rightarrow> name_list \<Rightarrow> string list \<Rightarrow> string \<Rightarrow> (mmessage \<times> string list) option" where
  "pw_execPost E par devCategories params body =
     (if params = [] then None
      else if \<not> nl_member devCategories (getStem (last params))
      then Some (m_add (json_answer m_default) ''body'' (mp_get par ''post_answer_fail''), [])
      else do {
        rpt \<leftarrow> ws_json E body;
        pt \<leftarrow> get_child ''devices'' rpt;
        l \<leftarrow> jparser2 ''name'' ''enable_status'' pt;
        let cmds = map (\<lambda>(i, p). pw_command par (i + 1) p) (enumerate 0 l);
        let ok = list_all (\<lambda>c. str_contains (wm_sendCmd E c (mp_get par ''pwrcontrol'')) ''done'') cmds;
        Some (m_add (json_answer m_default) ''body'' (mp_get par (if ok then ''post_answer_ok'' else ''post_answer_fail'')),
              map (post_text ''/'') cmds)
      })"

subsection \<open>The visits of a phone\<close>

text \<open>\<open>now\<close> is the compact text of the clock.\<close>

definition mac_dir :: "ws_env \<Rightarrow> string \<Rightarrow> string" where
  "mac_dir E mac = ws_home E @ ''/logs/'' @ mac"

definition macTimeUpdate :: "ws_env \<Rightarrow> string \<Rightarrow> string \<Rightarrow> archive \<Rightarrow> archive option" where
  "macTimeUpdate E now mac R =
     do {
       (ok, fs) \<leftarrow> ft_makeDir True (mac_dir E mac) (arch_fs R);
       Some (R\<lparr>arch_fs := out_ignored False (mac_dir E mac @ ''/data'')
                (''{'' @ quote @ ''time'' @ quote @ '':'' @ quote @ ''20'' @ now @ quote @ ''}'') fs\<rparr>)
     }"

definition macLastTime :: "ws_env \<Rightarrow> string \<Rightarrow> archive \<Rightarrow> string option" where
  "macLastTime E mac R =
     (case ft_read (mac_dir E mac @ ''/data'') (arch_fs R) of
        None \<Rightarrow> Some ''''
      | Some x \<Rightarrow> do { pt \<leftarrow> ws_json E x; pt_get ''time'' pt })"

text \<open>A stamp \<^verbatim>\<open>yyyymmddhhmm..\<close> as a date \<^verbatim>\<open>ddmmyyyy\<close> and a time \<^verbatim>\<open>hh:mm\<close>.\<close>

definition stamp_date :: "string \<Rightarrow> string option" where
  "stamp_date t = do { d \<leftarrow> substr 6 2 t; m \<leftarrow> substr 4 2 t; y \<leftarrow> substr 0 4 t; Some (d @ m @ y) }"

definition stamp_time :: "string \<Rightarrow> string option" where
  "stamp_time t = do { h \<leftarrow> substr 8 2 t; m \<leftarrow> substr 10 2 t; Some (h @ '':'' @ m) }"

definition fill_window :: "string \<Rightarrow> string \<Rightarrow> string \<Rightarrow> string \<Rightarrow> string \<Rightarrow> string" where
  "fill_window request startdate enddate starttime endtime =
     (let r1 = fst (strReplace request ''$start_date'' startdate);
          r2 = fst (strReplace r1 ''$end_date'' enddate);
          r3 = fst (strReplace r2 ''$start_time'' starttime)
      in fst (strReplace r3 ''$end_time'' endtime))"

definition sv_mkRequest :: "mparams \<Rightarrow> string \<Rightarrow> string \<Rightarrow> string option" where
  "sv_mkRequest par starttime endtime =
     do {
       sd \<leftarrow> stamp_date starttime;
       ed \<leftarrow> stamp_date endtime;
       st \<leftarrow> stamp_time starttime;
       et \<leftarrow> stamp_time endtime;
       Some (fill_window (mp_get par ''log_request'') sd ed st et)
     }"

definition log_query :: "string \<Rightarrow> string \<Rightarrow> mmessage" where
  "log_query url request = m_add (m_add (m_type ''httprequest'') ''url'' url) ''body'' request"

definition sv_execGet :: "ws_env \<Rightarrow> string \<Rightarrow> mparams \<Rightarrow> string list \<Rightarrow> archive \<Rightarrow> mmessage option" where
  "sv_execGet E now par params R =
     (if params = [] then None
      else do {
        last_time \<leftarrow> macLastTime E (getStem (last params)) R;
        if last_time = '''' then Some (json_answer (with_body (mp_get par ''answer_complain'')))
        else do {
          request \<leftarrow> sv_mkRequest par last_time (''20'' @ now);
          log \<leftarrow> getSubLog (ws_json E) (log_query (''/logs/'' @ mp_get par ''push_log'') request) R;
          Some (json_answer (with_body (mp_get par ''answer_prefix'' @ log @ mp_get par ''answer_postfix'')))
        }
      })"

definition sv_execPut :: "ws_env \<Rightarrow> string \<Rightarrow> mparams \<Rightarrow> string list \<Rightarrow> archive \<Rightarrow> (mmessage \<times> archive) option" where
  "sv_execPut E now par params R =
     (if params = [] then None
      else do {
        R' \<leftarrow> macTimeUpdate E now (getStem (last params)) R;
        Some (json_answer (with_body (mp_get par ''mac_post_answer'')), R')
      })"

subsection \<open>Records of the log as text\<close>

text \<open>The name after the first dollar sign of a text.\<close>

definition tr_getKey :: "string \<Rightarrow> string" where
  "tr_getKey proto =
     takeWhile (\<lambda>c. c \<notin> {CHR '' '', CHR '','', CHR '';'', CHR 0x22, CHR ''.''}) (drop 1 (dropWhile (\<lambda>c. c \<noteq> CHR ''$'') proto))"

text \<open>The third character of a text with less than two is beyond its terminating zero.\<close>

definition tr_clean :: "string \<Rightarrow> string option" where
  "tr_clean v =
     (if length v < 2 then None
      else Some (takeWhile (\<lambda>c. c \<noteq> CHR ''_'') (if char_at v 2 = CHR ''_'' then drop 3 v else v)))"

definition tr_remap :: "mparams \<Rightarrow> string \<Rightarrow> string \<Rightarrow> string option" where
  "tr_remap tr category v = (let w = mp_get_cat tr v category in if w = '''' then tr_clean v else Some w)"

definition timeFormat :: "string \<Rightarrow> string" where
  "timeFormat t =
     (if length t < 14 then t
      else take 2 (drop 6 t) @ ''-'' @ take 2 (drop 4 t) @ ''-'' @ take 4 t @ '' - ''
           @ take 2 (drop 8 t) @ '':'' @ take 2 (drop 10 t) @ '':'' @ take 2 (drop 12 t))"

text \<open>What stands for a key of a record.\<close>

definition tr_value :: "mparams \<Rightarrow> string \<Rightarrow> ptree \<Rightarrow> string \<Rightarrow> string option" where
  "tr_value tr evtype v key =
     do { x \<leftarrow> pt_get key v; tr_remap tr evtype (if key = ''time'' then timeFormat x else x) }"

partial_function (option) fill_keys :: "(string \<Rightarrow> string option) \<Rightarrow> string \<Rightarrow> string option" where
  "fill_keys val res =
     (let key = tr_getKey res
      in if key = '''' then Some res
         else case val key of
                None \<Rightarrow> None
              | Some nwd \<Rightarrow> fill_keys val (fst (strReplace res (CHR ''$'' # key) nwd)))"

definition log2text :: "mparams \<Rightarrow> ptree \<Rightarrow> string option" where
  "log2text tr v =
     do {
       evtype \<leftarrow> pt_get ''type'' v;
       let res = mp_get_cat tr evtype ''proto'';
       if res = '''' then Some '''' else fill_keys (tr_value tr evtype v) res
     }"

definition lg_mkRequest :: "ws_env \<Rightarrow> mparams \<Rightarrow> string \<Rightarrow> string \<Rightarrow> string option" where
  "lg_mkRequest E par body logcategory =
     do {
       pt \<leftarrow> ws_json E body;
       sd \<leftarrow> pt_get ''start_date'' pt;
       ed \<leftarrow> pt_get ''end_date'' pt;
       st \<leftarrow> pt_get ''start_time'' pt;
       et \<leftarrow> pt_get ''end_time'' pt;
       full \<leftarrow> pt_get ''full_log'' pt;
       let request = mp_get_cat par (if full = ''true'' then ''full_log'' else ''short_log'') (getStem logcategory);
       lsd \<leftarrow> stamp_date sd;
       led \<leftarrow> stamp_date ed;
       Some (fill_window request lsd led st et)
     }"

text \<open>The end of a line is written as a backslash and an \<^verbatim>\<open>n\<close>, for a JSON text.\<close>

definition json_newlines :: string where
  "json_newlines = [CHR 0x5C, CHR ''n'', CHR 0x5C, CHR ''n'']"

fun all_some :: "('a \<Rightarrow> 'b option) \<Rightarrow> 'a list \<Rightarrow> 'b list option" where
  "all_some f [] = Some []"
| "all_some f (x # xs) = do { y \<leftarrow> f x; ys \<leftarrow> all_some f xs; Some (y # ys) }"

definition lg_execPost :: "ws_env \<Rightarrow> mparams \<Rightarrow> mparams \<Rightarrow> string list \<Rightarrow> string \<Rightarrow> archive \<Rightarrow> mmessage option" where
  "lg_execPost E par tr params body R =
     (if params = [] then None
      else do {
        request \<leftarrow> lg_mkRequest E par body (last params);
        log \<leftarrow> getSubLog (ws_json E) (log_query (''/logs/'' @ getStem (last params)) request) R;
        pt \<leftarrow> ws_json E log;
        logData \<leftarrow> all_some (log2text tr) (pt_children pt);
        Some (json_answer (with_body (mp_get par ''answer_prefix'' @ concat (map (\<lambda>t. t @ json_newlines) (rev logData))
              @ mp_get par ''answer_suffix'')))
      })"

subsection \<open>Pages of the areas\<close>

record device_holder =
  dh_device :: string
  dh_description :: string

record bar_holder =
  bh_devices :: "device_holder list"
  bh_description :: string

text \<open>A name without an underscore has no name of a device; an empty name has no category to read.\<close>

definition device_holder_new :: "ws_env \<Rightarrow> fsnode \<Rightarrow> string \<Rightarrow> device_holder option" where
  "device_holder_new E fs name =
     (case fst (nl_init [] name (CHR ''_'')) of
        [] \<Rightarrow> None
      | cat # ns \<Rightarrow> do {
          d0 \<leftarrow> loadTemplate (ws_config E @ ''/guitemplates/'' @ cat @ ''_bholder.html'') fs;
          d1 \<leftarrow> strReplaceAll d0 ''$CAT'' cat;
          d2 \<leftarrow> strReplaceAll d1 ''$NAME'' (join_with ''_'' ns);
          Some \<lparr>dh_device = name, dh_description = d2\<rparr>
        })"

definition bar_holder_new :: "ws_env \<Rightarrow> fsnode \<Rightarrow> string \<Rightarrow> bar_holder option" where
  "bar_holder_new E fs area =
     do {
       d0 \<leftarrow> loadTemplate (ws_config E @ ''/guitemplates/barholder.html'') fs;
       d1 \<leftarrow> strReplaceAll d0 ''$AREA'' area;
       Some \<lparr>bh_devices = [], bh_description = d1\<rparr>
     }"

definition bh_add :: "ws_env \<Rightarrow> fsnode \<Rightarrow> string \<Rightarrow> bar_holder \<Rightarrow> bar_holder option" where
  "bh_add E fs dev b = do { d \<leftarrow> device_holder_new E fs dev; Some (b\<lparr>bh_devices := bh_devices b @ [d]\<rparr>) }"

definition bh_describeHTML :: "bar_holder \<Rightarrow> string" where
  "bh_describeHTML b = fst (strReplace (bh_description b) ''$DEVICES'' (concat (map dh_description (bh_devices b))))"

type_synonym areas = "(string, bar_holder) smap"

fun fill_areas :: "ws_env \<Rightarrow> fsnode \<Rightarrow> string_pair list \<Rightarrow> areas \<Rightarrow> areas option" where
  "fill_areas E fs [] m = Some m"
| "fill_areas E fs (p # ps) m =
     do {
       b \<leftarrow> (case sm_find m (sp_second p) of Some b \<Rightarrow> Some b | None \<Rightarrow> bar_holder_new E fs (sp_second p));
       b' \<leftarrow> bh_add E fs (sp_first p) b;
       fill_areas E fs ps (sm_put (sp_second p) b' m)
     }"

definition mkButtons :: "areas \<Rightarrow> string" where
  "mkButtons m = concat (map (\<lambda>(a, b). ''<button id='' @ quote @ ''show_'' @ a @ quote @ ''>'' @ a @ ''</button>'') m)"

definition mkShowfun :: "areas \<Rightarrow> string" where
  "mkShowfun m = concat (map (\<lambda>(a, b). ''$('' @ quote @ ''#show_'' @ a @ quote @ '').click(function(){showOnly('' @ quote @ a @ quote @ '');});''
     @ newline) m)"

definition mkAreaList :: "areas \<Rightarrow> string" where
  "mkAreaList m = join_with '', '' (map (\<lambda>(a, b). quote @ a @ quote) m)"

text \<open>The value after \<^verbatim>\<open>$COMPONENT\<close> in the manifest of a device. The searches for quotation marks do not stop
  at the end of the text.\<close>

definition component_in :: "string \<Rightarrow> string option" where
  "component_in answer =
     (case str_find ''$COMPONENT'' answer of
        None \<Rightarrow> Some ''''
      | Some pos \<Rightarrow>
          (case str_find ''value'' (drop pos answer) of
             None \<Rightarrow> None
           | Some n \<Rightarrow>
               (case dropWhile (\<lambda>c. c \<noteq> CHR 0x22) (drop (pos + n) answer) of
                  [] \<Rightarrow> None
                | q # r \<Rightarrow> if CHR 0x22 \<in> set r then Some (takeWhile (\<lambda>c. c \<noteq> CHR 0x22) r) else None)))"

definition getComponentOf :: "ws_env \<Rightarrow> string \<Rightarrow> string option" where
  "getComponentOf E name = component_in (wm_forward E (get_text (''/devicemanifest/'' @ name @ ''.xml'')) ''netdevices'')"

definition dev_entry :: "ws_env \<Rightarrow> string \<times> device_holder \<Rightarrow> string option" where
  "dev_entry E ad =
     do {
       components \<leftarrow> getComponentOf E (dh_device (snd ad));
       Some (quote @ fst ad @ ''.'' @ dh_device (snd ad) @ (if components \<noteq> '''' then ''+'' @ components else '''') @ quote)
     }"

definition mkDevList :: "ws_env \<Rightarrow> areas \<Rightarrow> string option" where
  "mkDevList E m = map_option (join_with '','') (all_some (dev_entry E) (concat (map (\<lambda>(a, b). map (Pair a) (bh_devices b)) m)))"

text \<open>The counter of the loop over the list is not initialised; it starts at \<open>ws_junk\<close>.\<close>

definition cf_gui :: "ws_env \<Rightarrow> string \<Rightarrow> fsnode \<Rightarrow> string option" where
  "cf_gui E body fs =
     do {
       gui \<leftarrow> loadTemplate (ws_config E @ ''/guitemplates/gui-proto.html'') fs;
       rpt \<leftarrow> ws_json E body;
       pt \<leftarrow> get_child ''areas'' rpt;
       l \<leftarrow> jparser2 ''name'' ''area'' pt;
       m \<leftarrow> fill_areas E fs (drop (ws_junk E) l) [];
       let g1 = fst (strReplace gui ''$AREAS'' (concat (map (\<lambda>(a, b). bh_describeHTML b) m)));
       let g2 = fst (strReplace g1 ''$HBUTTONS'' (mkButtons m));
       let g3 = fst (strReplace g2 ''$SHOWFUNCTION'' (mkShowfun m));
       devs \<leftarrow> mkDevList E m;
       let g4 = fst (strReplace g3 ''$DEVDESCRIPTION'' devs);
       Some (fst (strReplace g4 ''$AREALIST'' (mkAreaList m)))
     }"

text \<open>The port, the host and the user of a request are appended to a command of the shell.\<close>

definition tunnel_command :: "string \<Rightarrow> string \<Rightarrow> string \<Rightarrow> string \<Rightarrow> string" where
  "tunnel_command cmd port host user =
     (if port = '''' then cmd
      else cmd @ '' '' @ port @ (if host = '''' then '''' else '' '' @ host @ (if user = '''' then '''' else '' '' @ user)))"

definition cf_execPut ::
  "ws_env \<Rightarrow> mparams \<Rightarrow> string list \<Rightarrow> string \<Rightarrow> archive \<Rightarrow> (mmessage \<times> archive \<times> effect list) option" where
  "cf_execPut E par params body R =
     (if params = [] then None
      else let tgt = getStem (last params); answer = (\<lambda>k. json_answer (with_body (mp_get par k)))
      in if tgt = ''GUI'' then do {
           gui \<leftarrow> cf_gui E body (arch_fs R);
           Some (with_body (mp_get par ''mkgui_answer''),
                 R\<lparr>arch_fs := out_ignored False (ws_config E @ ''/doc/gui.html'') gui (arch_fs R)\<rparr>, [])
         }
         else if tgt = ''TunnelSTART'' then do {
           pt \<leftarrow> ws_json E body;
           port \<leftarrow> pt_get ''rport'' pt;
           host \<leftarrow> pt_get ''host'' pt;
           user \<leftarrow> pt_get ''user'' pt;
           Some (answer ''mkok_answer'', R, [Shell (mp_get par ''tunnelhalt''), Shell (mp_get par ''tunnelenable''),
                 Shell (tunnel_command (mp_get par ''tunnelstart'') port host user)])
         }
         else if tgt = ''TunnelHALT'' then Some (answer ''mkok_answer'', R, [Shell (mp_get par ''tunnelhalt'')])
         else Some (answer ''fail_answer'', R, []))"

definition cf_execGet :: "file_store \<Rightarrow> ws_env \<Rightarrow> mparams \<Rightarrow> string list \<Rightarrow> mmessage option" where
  "cf_execGet fs E par params =
     (if params = [] then None
      else if getStem (last params) = ''Tunnel''
      then let tunnelh = fs (getRoot (ws_home E) @ ''/sshtunnel/tunnel.xml'');
               tunnelc = fs (getRoot (ws_config E) @ ''/sshtunnel/tunnel.xml'')
           in do {
                (ok, tunnel) \<leftarrow> set_xmlLoad (if tunnelh \<noteq> Missing then tunnelh else tunnelc) mp_default;
                let b1 = fst (strReplace (mp_get par ''tunnel_answer'') ''$RPORT'' (mp_get tunnel ''rport''));
                let b2 = fst (strReplace b1 ''$HOST'' (mp_get tunnel ''host''));
                let b3 = fst (strReplace b2 ''$USER'' (mp_get tunnel ''user''));
                Some (json_answer (with_body (fst (strReplace b3 ''$STATUS'' (mp_get tunnel ''status'')))))
              }
      else Some (json_answer (with_body (mp_get par ''fail_answer''))))"

subsection \<open>The manager of a call\<close>

text \<open>The state of all managers. The archive is the one in the state of the alarms.\<close>

record ws_state =
  st_devices :: mparams
  st_tab :: trans_tab
  st_auth :: auth
  st_alarms :: alarm_manager
  st_automatisms :: mparams
  st_logs :: mparams
  st_translator :: mparams
  st_power :: mparams
  st_categories :: name_list
  st_services :: mparams
  st_conf :: mparams

abbreviation st_archive :: "ws_state \<Rightarrow> archive" where
  "st_archive S \<equiv> am_archive (st_alarms S)"

definition st_with_archive :: "archive \<Rightarrow> ws_state \<Rightarrow> ws_state" where
  "st_with_archive R S = S\<lparr>st_alarms := (st_alarms S)\<lparr>am_archive := R\<rparr>\<rparr>"

text \<open>What a call may read: the environment, the parameter files, the clock, and the order of the sort.\<close>

record rpc_env =
  re_ws :: ws_env
  re_files :: file_store
  re_now :: string
  re_sort :: "device_descriptor list \<Rightarrow> device_descriptor list"

type_synonym rpc_result = "(mmessage \<times> ws_state \<times> effect list) option"

abbreviation rpc_answer :: "ws_state \<Rightarrow> mmessage option \<Rightarrow> rpc_result" where
  "rpc_answer S \<equiv> map_option (\<lambda>m. (m, S, []))"

definition rpc_devices :: "rpc_env \<Rightarrow> string list \<Rightarrow> string \<Rightarrow> string \<Rightarrow> ws_state \<Rightarrow> mmessage option" where
  "rpc_devices X params method body S =
     (let E = re_ws X; net = ws_net E; t = ws_table E
      in if method = ''rpcExecGet'' then Some (dm_execGet net (ws_junk E) (st_tab S) t params method body)
         else if method = ''rpcExecGetSet'' then Some (dm_execGetSet net (st_devices S) t params)
         else if method = ''rpcExecPut'' then Some (dm_execPut net (ws_junk E) (st_tab S) t params method body)
         else if method = ''rpcExecPost'' then Some (dm_execPost (ws_junk E) (st_tab S) params method)
         else if length params < 3 then Some (dm_execPostSet net (st_devices S) t params [])
         else do {
           pt \<leftarrow> ws_json E body;
           ptdev \<leftarrow> get_child ''devices'' pt;
           l \<leftarrow> jparser2 ''enable_status'' ''name'' ptdev;
           Some (dm_execPostSet net (st_devices S) t params (map (\<lambda>p. (sp_first p, sp_second p)) l))
         })"

definition rpc_exec :: "rpc_env \<Rightarrow> string list \<Rightarrow> string \<Rightarrow> string \<Rightarrow> ws_state \<Rightarrow> rpc_result" where
  "rpc_exec X params method body S =
     (let E = re_ws X; fs = re_files X; R = st_archive S;
          auth = map_option (\<lambda>(m, A). (m, S\<lparr>st_auth := A\<rparr>, []));
          alarm = map_option (\<lambda>(m, A). (m, S\<lparr>st_alarms := A\<rparr>, []))
      in if method \<in> set [''rpcExecGet'', ''rpcExecGetSet'', ''rpcExecPut'', ''rpcExecPost'', ''rpcExecPostSet'']
         then rpc_answer S (rpc_devices X params method body S)
         else if method = ''rpcAuthMngGet'' then auth (auth_execGet params (st_auth S))
         else if method = ''rpcAuthMngSet''
         then map_option (\<lambda>(m, A, es). (m, S\<lparr>st_auth := A\<rparr>, es))
                (auth_execSet (ws_json E) fs (ws_config E) (ws_home E) params body (st_auth S))
         else if method = ''rpcAuthMngCheck'' then auth (auth_execCheck params (st_auth S))
         else if method = ''rpcAlarmMngGet'' then alarm (alarm_execGet E params (st_alarms S))
         else if method = ''rpcAlarmMngPut'' then alarm (alarm_execPut E params method body (st_alarms S))
         else if method = ''rpcAlarmMngPost'' then alarm (alarm_execPost E params body (st_alarms S))
         else if method = ''rpcAutomatismMngGet'' then rpc_answer S (at_execGet E (st_automatisms S) params)
         else if method = ''rpcAutomatismMngPut'' then Some (at_execPut, S, [])
         else if method = ''rpcAutomatismMngPost'' then rpc_answer S (map_option fst (at_execPost E (st_automatisms S) params body))
         else if method = ''rpcLogMngPost'' then rpc_answer S (lg_execPost E (st_logs S) (st_translator S) params body R)
         else if method = ''rpcPwrMngGet'' then rpc_answer S (pw_execGet (re_sort X) E (st_power S) params)
         else if method = ''rpcPwrMngPost''
         then rpc_answer S (map_option fst (pw_execPost E (st_power S) (st_categories S) params body))
         else if method = ''rpcSrvMngGet'' then rpc_answer S (sv_execGet E (re_now X) (st_services S) params R)
         else if method = ''rpcSrvMngPut''
         then map_option (\<lambda>(m, R'). (m, st_with_archive R' S, [])) (sv_execPut E (re_now X) (st_services S) params R)
         else if method = ''rpcConfMngGet'' then rpc_answer S (cf_execGet fs E (st_conf S) params)
         else if method = ''rpcConfMngPut''
         then map_option (\<lambda>(m, R', es). (m, st_with_archive R' S, es)) (cf_execPut E (st_conf S) params body R)
         else Some (m_default, S, []))"

subsection \<open>The text of a record\<close>

text \<open>A template with the value of each key in place of the key, from the left; an empty key ends the translation.\<close>

function render_keys :: "(string \<Rightarrow> string option) \<Rightarrow> string \<Rightarrow> string option" where
  "render_keys val s =
     (case dropWhile (\<lambda>c. c \<noteq> CHR ''$'') s of
        [] \<Rightarrow> Some s
      | d # r \<Rightarrow>
          let key = takeWhile (\<lambda>c. c \<notin> {CHR '' '', CHR '','', CHR '';'', CHR 0x22, CHR ''.''}) r
          in if key = '''' then Some s
             else do {
               x \<leftarrow> val key;
               y \<leftarrow> render_keys val (drop (length key) r);
               Some (takeWhile (\<lambda>c. c \<noteq> CHR ''$'') s @ x @ y)
             })"
  by pat_completeness auto
termination
proof (relation "measure (\<lambda>(val, s). length s)", goal_cases)
  case (2 val s d r key x)
  have "length (dropWhile (\<lambda>c. c \<noteq> CHR ''$'') s) \<le> length s" by (rule length_dropWhile_le)
  with 2(1) have "length r < length s" by simp
  then show ?case by simp
qed simp

declare render_keys.simps [simp del]

lemma getKey_append: "CHR ''$'' \<notin> set a \<Longrightarrow> tr_getKey (a @ s) = tr_getKey s"
  by (simp add: tr_getKey_def) (subst dropWhile_append2; force)

lemma strReplace_first_key: "CHR ''$'' \<notin> set a \<Longrightarrow> fst (strReplace (a @ CHR ''$'' # k @ s) (CHR ''$'' # k) x) = a @ x @ s"
  by (simp add: strReplace_def str_find_head_append)

lemma fill_keys_render:
  assumes "\<forall>key x. val key = Some x \<longrightarrow> CHR ''$'' \<notin> set x"
  shows "CHR ''$'' \<notin> set a \<Longrightarrow> fill_keys val (a @ s) = map_option ((@) a) (render_keys val s)"
proof (induction "length s" arbitrary: a s rule: less_induct)
  case less
  let ?b = "takeWhile (\<lambda>c. c \<noteq> CHR ''$'') s"
  have b: "CHR ''$'' \<notin> set ?b" by (auto dest: set_takeWhileD)
  show ?case
  proof (cases "dropWhile (\<lambda>c. c \<noteq> CHR ''$'') s")
    case Nil
    have "tr_getKey s = ''''" unfolding tr_getKey_def Nil by simp
    then have "tr_getKey (a @ s) = ''''" using less.prems by (simp add: getKey_append)
    then have "fill_keys val (a @ s) = Some (a @ s)" by (subst fill_keys.simps) simp
    moreover have "render_keys val s = Some s" by (subst render_keys.simps) (simp only: Nil list.case)
    ultimately show ?thesis by simp
  next
    case (Cons d r)
    define k where "k = tr_getKey (a @ s)"
    have d: "d = CHR ''$''" using Cons by (auto dest: dropWhile_eq_Cons_conv [THEN iffD1])
    have k: "k = takeWhile (\<lambda>c. c \<notin> {CHR '' '', CHR '','', CHR '';'', CHR 0x22, CHR ''.''}) r"
      using less.prems Cons by (simp add: k_def getKey_append) (simp add: tr_getKey_def)
    have r: "r = k @ drop (length k) r" unfolding k by (metis takeWhile_dropWhile_id append_eq_conv_conj)
    have s: "s = ?b @ CHR ''$'' # k @ drop (length k) r"
      using takeWhile_dropWhile_id [of "\<lambda>c. c \<noteq> CHR ''$''" s] Cons d r by simp
    have lt: "length (drop (length k) r) < length s" by (subst s) simp
    show ?thesis
    proof (cases "k = '''' \<or> val k = None")
      case True
      then show ?thesis using Cons k
        by (subst fill_keys.simps, subst render_keys.simps) (auto simp: k_def [symmetric] Let_def)
    next
      case False
      then obtain x where x: "val k = Some x" "k \<noteq> ''''" by auto
      have ab: "CHR ''$'' \<notin> set (a @ ?b)" "CHR ''$'' \<notin> set (a @ ?b @ x)" using less.prems b assms x(1) by auto
      have "fst (strReplace (a @ s) (CHR ''$'' # k) x) = (a @ ?b @ x) @ drop (length k) r"
        using strReplace_first_key [OF ab(1), of k "drop (length k) r" x] by (subst s) simp
      then have "fill_keys val (a @ s) = fill_keys val ((a @ ?b @ x) @ drop (length k) r)"
        using x by (subst fill_keys.simps) (simp add: k_def [symmetric])
      also have "\<dots> = map_option ((@) (a @ ?b @ x)) (render_keys val (drop (length k) r))"
        using less.hyps [OF lt ab(2)] .
      also have "\<dots> = map_option ((@) a) (render_keys val s)"
        using x Cons k by (subst (2) render_keys.simps) (simp add: Let_def map_conv_bind_option comp_def)
      finally show ?thesis .
    qed
  qed
qed

lemma map_option_append_Nil: "map_option ((@) []) z = z"
  by (cases z) simp_all

text \<open>The text of a record is the template of its type with every key replaced by the value of the record, and
  the translation ends, as long as no value has a dollar sign.\<close>

lemma record_as_text:
  assumes "pt_get ''type'' v = Some evtype" and "\<forall>key x. tr_value tr evtype v key = Some x \<longrightarrow> CHR ''$'' \<notin> set x"
  shows "log2text tr v = render_keys (tr_value tr evtype v) (mp_get_cat tr evtype ''proto'')"
  using fill_keys_render [OF assms(2), of "''''" "mp_get_cat tr evtype ''proto''"] assms(1)
  by (simp add: log2text_def Let_def map_option_append_Nil render_keys.simps [of _ "''''"])

text \<open>A value that repeats its own key is replaced for ever.\<close>

lemma record_text_diverges: "val ''k'' = Some ''$k'' \<Longrightarrow> fill_keys val ''$k'' = None"
proof -
  assume v: "val ''k'' = Some ''$k''"
  have "val' = val \<longrightarrow> s \<noteq> ''$k''" if "fill_keys val' s = Some r" for val' s r
  proof (rule fill_keys.raw_induct [where P = "\<lambda>val' s r. val' = val \<longrightarrow> s \<noteq> ''$k''", OF _ that])
    fix f val' s r
    assume ih: "\<And>val' s r. f val' s = Some r \<Longrightarrow> val' = val \<longrightarrow> s \<noteq> ''$k''"
      and b: "(let key = tr_getKey s in if key = '''' then Some s
         else case val' key of None \<Rightarrow> None | Some nwd \<Rightarrow> f val' (fst (strReplace s (CHR ''$'' # key) nwd))) = Some r"
    have "tr_getKey ''$k'' = ''k''" "fst (strReplace ''$k'' ''$k'' ''$k'') = ''$k''" by code_simp+
    with ih [of val "''$k''"] b v show "val' = val \<longrightarrow> s \<noteq> ''$k''" by auto
  qed
  then show ?thesis by (cases "fill_keys val ''$k''") auto
qed

subsection \<open>The order of the loads\<close>

text \<open>The descriptors of a list of loads in the order of the list, as the agent reports them after the list was posted.\<close>

definition ranked :: "string_pair list \<Rightarrow> device_descriptor list" where
  "ranked l = map (\<lambda>(i, p). \<lparr>dd_name = sp_first p, dd_priority = int2a (int (i + 1)), dd_status = (if sp_second p = ''true'' then ''ON'' else ''OFF'')\<rparr>)
     (enumerate 0 l)"

definition sorts :: "(device_descriptor list \<Rightarrow> device_descriptor list) \<Rightarrow> bool" where
  "sorts srt \<longleftrightarrow> (\<forall>l. mset (srt l) = mset l \<and> sorted_wrt (\<lambda>a b. \<not> sortEval b a) (srt l))"

lemma ranked_priorities: "map dd_priority (ranked l) = map (\<lambda>i. int2a (int i)) [1..<length l + 1]"
  by (rule nth_equalityI) (simp_all add: ranked_def nth_enumerate_eq del: upt_Suc)

lemma nine_priorities: "sorted (map (\<lambda>i. int2a (int i)) [1..<10])" "distinct (map (\<lambda>i. int2a (int i)) [1..<10])"
  by code_simp+

lemma ranked_sorted:
  assumes "length l \<le> 9"
  shows "sorted (map dd_priority (ranked l))" "distinct (map dd_priority (ranked l))"
proof -
  have "[1..<length l + 1] = take (length l) [1..<10]" using assms by (simp add: take_upt del: upt_Suc)
  then have "map dd_priority (ranked l) = take (length l) (map (\<lambda>i. int2a (int i)) [1..<10])"
    unfolding ranked_priorities by (simp only: take_map)
  then show "sorted (map dd_priority (ranked l))" "distinct (map dd_priority (ranked l))"
    using nine_priorities by (simp_all only: sorted_wrt_take distinct_take)
qed

lemma sorts_unique:
  assumes "sorts srt" and "mset ds = mset es" and "sorted (map dd_priority es)" and "distinct (map dd_priority es)"
  shows "srt ds = es"
proof -
  have m: "mset (srt ds) = mset es" and s: "sorted_wrt (\<lambda>a b. \<not> sortEval b a) (srt ds)"
    using assms(1,2) by (auto simp: sorts_def)
  have "sorted (map dd_priority (srt ds))"
    using s by (simp add: sorted_map sortEval_def not_less)
  moreover have "distinct (map dd_priority (srt ds))"
    using assms(4) mset_eq_imp_distinct_iff [of "map dd_priority (srt ds)" "map dd_priority es"] m by (metis mset_map)
  moreover have "inj_on dd_priority (set (srt ds) \<union> set es)"
    using assms(4) mset_eq_setD [OF m] by (simp add: distinct_map)
  ultimately show ?thesis
    using map_sorted_distinct_set_unique [of dd_priority "srt ds" es] assms(3,4) mset_eq_setD [OF m] by blast
qed

text \<open>When the agent reports up to nine loads of a category, in any order, with the priorities that a posted
  list gave them, the answer names them in the order of the list with the status it gave them.\<close>

lemma loads_in_posted_order:
  assumes "sorts srt" and "length l \<le> 9" and "params \<noteq> []"
    and "wm_download E (mp_get par ''device_queue'') (mp_get par ''pwrcontrol'') = Some queue"
    and "ws_json E queue = Some rpt" and "get_child ''list'' rpt = Some pt"
    and "mset (getDevices (getStem (last params)) pt) = mset (ranked l)"
  shows "\<exists>m. pw_execGet srt E par params = Some m \<and> m_getString m ''body'' = fst (strReplace (mp_get par ''get_answer_template'') ''$BODY''
     (join_with '','' (map (\<lambda>p. ''{'' @ json_field ''name'' (sp_first p) @ '','' @ json_field ''enable_status''
        (if sp_second p = ''true'' then ''true'' else ''false'') @ ''}'') l)))"
proof -
  have "srt (getDevices (getStem (last params)) pt) = ranked l"
    using sorts_unique [OF assms(1,7) ranked_sorted [OF assms(2)]] .
  moreover have "map pw_item (ranked l) = map (\<lambda>p. ''{'' @ json_field ''name'' (sp_first p) @ '','' @ json_field ''enable_status''
        (if sp_second p = ''true'' then ''true'' else ''false'') @ ''}'') l"
    by (rule nth_equalityI) (auto simp: ranked_def pw_item_def json_field_def nth_enumerate_eq)
  ultimately show ?thesis using assms(3-6) by (simp add: pw_execGet_def pw_mkAnswer_def json_answer_def with_body_def)
qed

text \<open>The tenth load comes before the second.\<close>

lemma tenth_before_second: "sortEval \<lparr>dd_name = n, dd_priority = int2a 10, dd_status = s\<rparr> \<lparr>dd_name = m, dd_priority = int2a 2, dd_status = t\<rparr>"
proof -
  have "int2a 10 < int2a 2" by code_simp
  then show ?thesis by (simp add: sortEval_def)
qed

subsection \<open>What a phone gets\<close>

abbreviation visit_file :: "ws_env \<Rightarrow> string \<Rightarrow> string" where
  "visit_file E mac \<equiv> mac_dir E mac @ ''/data''"

definition visit_text :: "string \<Rightarrow> string" where
  "visit_text now = ''{'' @ quote @ ''time'' @ quote @ '':'' @ quote @ ''20'' @ now @ quote @ ''}'' @ newline"

lemma visit_recorded:
  assumes "macTimeUpdate E now mac R = Some R'" and "\<not> ft_isDir (visit_file E mac) (arch_fs R)"
  shows "ft_read (visit_file E mac) (arch_fs R') = Some (visit_text now)"
proof -
  let ?p = "mac_dir E mac" and ?fs = "arch_fs R"
  obtain ok fs where m: "ft_makeDir True ?p ?fs = Some (ok, fs)"
    and R': "arch_fs R' = out_ignored False (visit_file E mac) (''{'' @ quote @ ''time'' @ quote @ '':'' @ quote @ ''20'' @ now @ quote @ ''}'') fs"
    using assms(1) by (auto simp: macTimeUpdate_def bind_eq_Some_conv)
  note md = makeDir_isDir [OF m] and me = makeDir_effect [OF m]
  obtain c where c: "canon ?p fs = Some c" "dir_at c fs" using md(2) by (auto simp: ft_isDir_iff)
  have cd: "canon (visit_file E mac) fs = Some (c @ [''data''])"
    using canon_child [OF c, of "''data''"] by (simp add: plain_name_def)
  have "\<not> dir_at (c @ [''data'']) ?fs"
  proof
    assume d: "dir_at (c @ [''data'']) ?fs"
    have "canon (visit_file E mac) ?fs = Some (c @ [''data''])"
      using canon_child [of ?p ?fs c "''data''"] c(1) md(4) dir_at_prefix [OF d] by (simp add: plain_name_def)
    with d assms(2) show False by (auto simp: ft_isDir_iff)
  qed
  then have nd: "\<not> dir_at (c @ [''data'']) fs" using me(2) c(1) md(4) by auto
  then obtain fs' where w: "out_text False (visit_file E mac) (''{'' @ quote @ ''time'' @ quote @ '':'' @ quote @ ''20'' @ now @ quote @ ''}'') fs = Some fs'"
    using cd by (simp add: out_text_def ft_write_def)
  then have "arch_fs R' = fs'" by (simp add: R' out_ignored_def)
  then show ?thesis
    using ft_write_file_at [OF w [unfolded out_text_def]] ft_write_canon [OF w [unfolded out_text_def], of "visit_file E mac"] cd
    by (simp add: ft_read_def visit_text_def)
qed

text \<open>The minute of a reading of the clock.\<close>

definition minute_of :: "string \<Rightarrow> string" where
  "minute_of now = ''20'' @ take 10 now"

lemma minute_stamp:
  assumes "length now = 12"
  shows "\<exists>d t. stamp_date (''20'' @ now) = Some d \<and> stamp_time (''20'' @ now) = Some t \<and> stamp_of d t = Some (minute_of now)"
proof -
  obtain a b c d e f g h i j k l where "now = [a, b, c, d, e, f, g, h, i, j, k, l]"
    using assms by (auto simp: numeral_eq_Suc length_Suc_conv)
  then show ?thesis by (simp add: stamp_date_def stamp_time_def stamp_of_def minute_of_def substr_def numeral_eq_Suc)
qed

text \<open>The JSON library reads the request made from the template as the window of two readings of the clock.\<close>

definition window_read :: "ws_env \<Rightarrow> mparams \<Rightarrow> string \<Rightarrow> string \<Rightarrow> string list \<Rightarrow> bool" where
  "window_read E par t t' category \<longleftrightarrow>
     (\<exists>request q b. sv_mkRequest par t t' = Some request \<and> range_tree (ws_json E) request = Some q
        \<and> pt_get ''start_date'' q = stamp_date t \<and> pt_get ''start_time'' q = stamp_time t
        \<and> pt_get ''end_date'' q = stamp_date t' \<and> pt_get ''end_time'' q = stamp_time t'
        \<and> getCategoriesJson (ws_json E) request [] = Some (b, category))"


text \<open>A record of the minute of a visit is in the answer of that visit or of none.\<close>

lemma same_minute_lost:
  assumes "read_json line = Some pt" and "pt_get ''time'' pt = Some time" and "normalizeDateTime time = Some (minute_of now)" and "minute_of now \<noteq> ''''"
  shows "\<not> record_in read_json category (minute_of now) stop line"
  using assms by (auto simp: record_in_def)

subsection \<open>What a call may change\<close>

text \<open>The methods of the managers with a state of their own.\<close>

abbreviation auth_methods :: "string set" where
  "auth_methods \<equiv> {''rpcAuthMngGet'', ''rpcAuthMngSet'', ''rpcAuthMngCheck''}"

abbreviation alarm_methods :: "string set" where
  "alarm_methods \<equiv> {''rpcAlarmMngGet'', ''rpcAlarmMngPut'', ''rpcAlarmMngPost''}"

lemma auth_unlocked:
  "auth_execGet params A = Some (m, A') \<Longrightarrow> \<not> au_held A'"
  "auth_execCheck params A = Some (m, A') \<Longrightarrow> \<not> au_held A'"
  by (auto simp: auth_execGet_def auth_execCheck_def au_unlock_def bind_eq_Some_conv Let_def split: if_splits list.splits)

lemma auth_set_unlocked: "auth_execSet json fs c h params body A = Some (m, A', es) \<Longrightarrow> \<not> au_held A'"
  by (auto simp: auth_execSet_def au_unlock_def bind_eq_Some_conv split: if_splits list.splits)

lemma update_users_saves: "update_users ps cur us = Some (us', es) \<Longrightarrow> Shell x \<notin> set es"
proof (induction ps arbitrary: cur us us' es)
  case (Cons p ps)
  then show ?case by (auto simp: bind_eq_Some_conv user_set_status_def Let_def split: option.splits prod.splits)
qed simp

lemma auth_set_saves: "auth_execSet json fs c h params body A = Some (m, A', es) \<Longrightarrow> Shell x \<notin> set es"
  by (auto simp: auth_execSet_def addUser_def bind_eq_Some_conv Let_def dest: update_users_saves split: if_splits list.splits)

lemma conf_put_effects:
  assumes "cf_execPut E par params body R = Some (m, R', es)" and "Shell x \<in> set es"
  shows "\<exists>tail. x \<in> {mp_get par ''tunnelhalt'', mp_get par ''tunnelenable'', mp_get par ''tunnelstart'' @ tail}"
  using assms by (auto simp: cf_execPut_def tunnel_command_def bind_eq_Some_conv Let_def split: if_splits)


subsection \<open>Departures\<close>

text \<open>The names and times of a posted list of rules are lost: every command is about the last of the four texts
  of its entry, its end, and has no times.\<close>

lemma rules_unnamed:
  assumes "jparser4 ''enable_status'' ''name'' ''start'' ''end'' pta = Some l" and "p \<in> set l"
  shows "at_command par params p =
     fst (strReplace (fst (strReplace (fst (strReplace (fst (strReplace
        (mp_get par (if params ! 2 = ''Programmed'' then ''set_trrule_status'' else ''set_rule_status''))
        ''$NAME'' (sp_second p))) ''$STATUS'' (if sp_first p = ''true'' then ''ON'' else ''OFF''))) ''$FROM'' '':00'')) ''$TO'' '':00'')"
  using jparser4_third [OF assms] by (simp add: at_command_def cvtimej2x_def Let_def)

lemma rules_example:
  "map_option (map sp_second) (jparser4 ''enable_status'' ''name'' ''start'' ''end''
     (PTree '''' [('''', PTree '''' [(''name'', PTree ''_heat'' []), (''enable_status'', PTree ''true'' []), (''start'', PTree ''06:00'' []),
        (''end'', PTree ''07:00'' [])])])) = Some [''07:00'']"
  by code_simp

text \<open>A post to another address is answered with its own body.\<close>

lemma post_echoed:
  "length params = 3 \<Longrightarrow> at_execPost E par params body = Some (json_answer (with_body body), [])"
  by (simp add: at_execPost_def)

text \<open>An area whose name contains the placeholder for its name keeps the service busy for ever.\<close>

lemma area_diverges:
  assumes "loadTemplate (ws_config E @ ''/guitemplates/barholder.html'') fs = Some d" and "str_contains d ''$AREA''" and "str_contains area ''$AREA''"
  shows "bar_holder_new E fs area = None"
proof -
  have "strReplaceAll d ''$AREA'' area = None"
    using strReplaceAll_result [of d "''$AREA''" area] assms(2,3) by (cases "strReplaceAll d ''$AREA'' area") auto
  then show ?thesis by (simp add: bar_holder_new_def assms(1))
qed

text \<open>What a request names as the user becomes part of a command.\<close>

lemma tunnel_runs_request: "tunnel_command ''tunnel start'' ''22'' ''host'' ''me; reboot'' = ''tunnel start 22 host me; reboot''"
  by code_simp

subsection \<open>Examples\<close>

definition record_tree :: "(string \<times> string) list \<Rightarrow> ptree" where
  "record_tree l = PTree '''' (map (\<lambda>(k, x). (k, PTree x [])) l)"

definition example_translator :: mparams where
  "example_translator = mp_add_cat (mp_add_cat mp_default ''alarm'' ''proto'' ''$time $name is $state.'') ''ON'' ''alarm'' ''active''"

definition example_entry :: "(string \<times> string) list" where
  "example_entry = [(''type'', ''alarm''), (''time'', ''20140528103000''), (''name'', ''LI_kitchen_1''), (''state'', ''ON'')]"

definition manager_json :: json_reader where
  "manager_json s =
     (if s = visit_text ''140528103000'' then Some (record_tree [(''time'', ''20140528103000'')])
      else if s = ''from 28052014 10:30 to 28052014 12:00'' then Some (record_tree [(''start_date'', ''28052014''), (''start_time'', ''10:30''),
        (''end_date'', ''28052014''), (''end_time'', ''12:00'')])
      else if s = ''record one'' then Some (example_stamp ''201405281030'' ''alarm'')
      else if s = ''record two'' then Some (example_stamp ''201405281100'' ''alarm'')
      else None)"

definition manager_env :: ws_env where
  "manager_env = alarm_env\<lparr>ws_json := manager_json\<rparr>"

definition manager_par :: mparams where
  "manager_par = mp_add (mp_add (mp_add mp_default ''log_request'' ''from $start_date $start_time to $end_date $end_time'')
     ''push_log'' ''push'') ''tunnelhalt'' ''halt''"

definition visit_archive :: archive where
  "visit_archive = (archive_new ''/conf'' ''/home'' ''archive'' (DirNode [(''home'', DirNode [(''logs'', DirNode [(''push'', DirNode
     [(''data'', FileNode (''record one'' @ newline @ ''record two'' @ newline))])])])]))"


definition example_service :: ws_state where
  "example_service = \<lparr>st_devices = mp_default, st_tab = [], st_auth = example_auth, st_alarms = alarm_example [], st_automatisms = mp_default,
     st_logs = mp_default, st_translator = mp_default, st_power = manager_par, st_categories = [], st_services = manager_par, st_conf = manager_par\<rparr>"

definition example_rpc :: rpc_env where
  "example_rpc = \<lparr>re_ws = manager_env, re_files = (\<lambda>p. Missing), re_now = ''140528103000'', re_sort = sort_key dd_priority\<rparr>"


end
