(* ===== verification/Web_Logs.thy ===== *)
theory Web_Logs
  imports Web_Managers
begin

text \<open>
  The threads that keep the log of the house, \<^verbatim>\<open>src/agents/WSServer\<close>: \<^verbatim>\<open>Receiver.cpp\<close> turns every
  event of the bus into a command for the log, \<^verbatim>\<open>ArchiveThread.cpp\<close> appends its record to a file of the archive,
  \<^verbatim>\<open>UserLog.cpp\<close> writes the lines that phones read, and \<^verbatim>\<open>RemoteServerThread.cpp\<close> sends records to a
  remote server through the shell. \<open>now\<close> is the compact text of the clock, \<open>today\<close> its day; \<open>sh\<close> is what the
  shell prints for a command. A read past the end of a text and a loop that does not end are \<open>None\<close>.
\<close>

subsection \<open>Events become commands\<close>

definition recv_step :: "string \<Rightarrow> mmessage \<Rightarrow> mmessage" where
  "recv_step now msg =
     (let m1 = msg\<lparr>mtype := ''logcmd'', msubtype := ''archive''\<rparr>;
          m2 = m_add (m_add m1 ''class'' (mtype msg)) ''feature'' (msubtype msg);
          m3 = (if m_getString msg ''agent'' \<noteq> '''' then m_add m2 ''agentname'' (m_getString msg ''agent'') else m2);
          m4 = (if m_getString msg ''Ipower'' \<noteq> '''' then m_add m3 ''value'' (m_getString msg ''Ipower'') else m3);
          m5 = (if m_getString msg ''timeofday'' = '''' then m_add m4 ''timeofday'' now else m4)
      in m_add m5 ''time'' (m_getString msg ''time''))"

text \<open>The receiver of the agent \<^verbatim>\<open>logger\<close> stamps every event and adds no names.\<close>

definition logger_recv_step :: "string \<Rightarrow> mmessage \<Rightarrow> mmessage" where
  "logger_recv_step now msg =
     m_add (m_add (m_add (m_add (msg\<lparr>mtype := ''logcmd'', msubtype := ''archive''\<rparr>) ''class'' (mtype msg)) ''feature'' (msubtype msg))
       ''timeofday'' now) ''time'' (m_getString msg ''time'')"

subsection \<open>The log of the users\<close>

text \<open>Per type of event the names of its logs and the template of its line; per log the agents it admits and its file.\<close>

record user_log =
  ul_logmap :: "(string, name_list) smap"
  ul_proto :: "(string, string) smap"
  ul_source :: "(string, name_list) smap"
  ul_pathname :: "(string, string) smap"

definition add_log_type :: "string \<Rightarrow> string \<Rightarrow> (string, name_list) smap \<Rightarrow> (string, name_list) smap" where
  "add_log_type lg evtype m = sm_put evtype ((case sm_find m evtype of None \<Rightarrow> [] | Some l \<Rightarrow> l) @ [lg]) m"

fun ul_logs :: "string \<Rightarrow> mattribute list \<Rightarrow> user_log \<Rightarrow> fsnode \<Rightarrow> (user_log \<times> fsnode) option" where
  "ul_logs home [] ul fs = Some (ul, fs)"
| "ul_logs home (a # as) ul fs =
     (let path = home @ ''/logs/'' @ ma_name a
      in do {
           (ok, fs') \<leftarrow> ft_makeDir True path fs;
           ul_logs home as
             (ul\<lparr>ul_logmap := fold (add_log_type (ma_name a)) (fst (nl_init [] (ma_value a) (CHR ''+''))) (ul_logmap ul),
                 ul_pathname := sm_put (ma_name a) (path @ ''/data'') (ul_pathname ul)\<rparr>) fs'
         })"

definition ul_new :: "string \<Rightarrow> mparams \<Rightarrow> fsnode \<Rightarrow> (user_log \<times> fsnode) option" where
  "ul_new home p fs =
     do {
       (ul, fs') \<leftarrow> ul_logs home (mp_extractCategory p ''log'') \<lparr>ul_logmap = [], ul_proto = [], ul_source = [], ul_pathname = []\<rparr> fs;
       Some (ul\<lparr>ul_proto := map (\<lambda>(k, l). (k, mp_get_cat p k ''proto'')) (ul_logmap ul),
                ul_source := fold (\<lambda>a. sm_put (ma_name a) (fst (nl_init [] (ma_value a) (CHR ''+'')))) (mp_extractCategory p ''source'') []\<rparr>,
             fs')
     }"

text \<open>The key after the first dollar sign, up to a quotation mark. The search for the quotation mark does not stop at
  the end of the text.\<close>

definition ul_getKey :: "string \<Rightarrow> string option" where
  "ul_getKey proto =
     (case dropWhile (\<lambda>c. c \<noteq> CHR ''$'') proto of
        [] \<Rightarrow> Some ''''
      | d # r \<Rightarrow> if CHR 0x22 \<in> set r then Some (takeWhile (\<lambda>c. c \<noteq> CHR 0x22) r) else None)"

partial_function (option) ul_fill :: "(string \<Rightarrow> string) \<Rightarrow> string \<Rightarrow> string option" where
  "ul_fill val proto =
     (case ul_getKey proto of
        None \<Rightarrow> None
      | Some key \<Rightarrow> if key = '''' then Some proto else ul_fill val (fst (strReplace proto (CHR ''$'' # key) (val key))))"

declare ul_fill.simps [code]

definition ul_checkSource :: "string \<Rightarrow> string \<Rightarrow> user_log \<Rightarrow> bool" where
  "ul_checkSource lg agent ul = (case sm_find (ul_source ul) lg of None \<Rightarrow> True | Some l \<Rightarrow> nl_member l agent)"

definition ul_path :: "string \<Rightarrow> user_log \<Rightarrow> string" where
  "ul_path lg ul = (case sm_find (ul_pathname ul) lg of None \<Rightarrow> '''' | Some p \<Rightarrow> p)"

text \<open>The fields that the templates use.\<close>

definition ul_message :: "string \<Rightarrow> mmessage \<Rightarrow> mmessage" where
  "ul_message now m =
     (let f = m_getString m ''feature'';
          st = (case str_find ''_state'' f of None \<Rightarrow> f | Some pos \<Rightarrow> take pos f);
          m1 = m_add (m_add m ''mtype'' (m_getString m ''class'')) ''msubtype'' st;
          m2 = (if m_getString m1 ''agent'' \<noteq> '''' then m_add m1 ''agentname'' (m_getString m1 ''agent'') else m1);
          m3 = (if m_getString m2 ''Ipower'' \<noteq> '''' then m_add m2 ''value'' (m_getString m2 ''Ipower'') else m2)
      in m_add m3 ''time'' (''20'' @ now))"

definition ul_value :: "mmessage \<Rightarrow> string \<Rightarrow> string" where
  "ul_value m key = (if key = ''program'' then m_getString m key else remapValue (m_getString m key))"

definition ul_append :: "string \<Rightarrow> string \<Rightarrow> user_log \<Rightarrow> string \<Rightarrow> fsnode \<Rightarrow> fsnode" where
  "ul_append agent line ul lg fs = (if ul_checkSource lg agent ul then out_ignored True (ul_path lg ul) line fs else fs)"

definition ul_log :: "string \<Rightarrow> mmessage \<Rightarrow> user_log \<Rightarrow> fsnode \<Rightarrow> (bool \<times> fsnode) option" where
  "ul_log now m ul fs =
     (let ty = m_getString m ''class''
      in case (sm_find (ul_logmap ul) ty, sm_find (ul_proto ul) ty) of
           (Some logs, Some prototype) \<Rightarrow>
             (let m' = ul_message now m
              in do {
                   line \<leftarrow> ul_fill (ul_value m') prototype;
                   Some (True, fold (ul_append (m_getString m' ''agentname'') line ul) logs fs)
                 })
         | _ \<Rightarrow> Some (False, fs))"

subsection \<open>The files of the log\<close>

text \<open>The thread with its parameters, the day it works on and the archive.\<close>

record archive_thread =
  ath_home :: string
  workingdir :: string
  ath_day :: string
  ath_conf :: mparams
  ath_trace :: mparams
  ath_disaggregate :: mparams
  ath_page :: mmessage
  userlog :: user_log
  ath_archive :: archive

definition ath_with_fs :: "fsnode \<Rightarrow> archive_thread \<Rightarrow> archive_thread" where
  "ath_with_fs fs T = T\<lparr>ath_archive := (ath_archive T)\<lparr>arch_fs := fs\<rparr>\<rparr>"

abbreviation ath_fs :: "archive_thread \<Rightarrow> fsnode" where
  "ath_fs T \<equiv> arch_fs (ath_archive T)"

definition ath_install :: "string \<Rightarrow> string \<Rightarrow> archive_thread \<Rightarrow> archive_thread option" where
  "ath_install today wd T =
     do {
       (ok, fs) \<leftarrow> ft_makeDir True (ath_home T @ ''/horus_status'') (ath_fs T);
       Some (ath_with_fs fs (T\<lparr>ath_day := today, workingdir := (if wd \<noteq> '''' then wd else ath_home T @ ''/'')\<rparr>))
     }"

definition ath_installday :: "archive_thread \<Rightarrow> archive_thread option" where
  "ath_installday T =
     do { (ok, fs) \<leftarrow> ft_makeDir True (workingdir T @ ''/'' @ ath_day T) (ath_fs T); Some (ath_with_fs fs T) }"

definition set_in :: "mparams \<Rightarrow> string \<Rightarrow> bool" where
  "set_in p key \<longleftrightarrow> mp_get p ''all'' = ''yes'' \<or> mp_get p key = ''yes''"

definition isToTrace :: "string \<Rightarrow> archive_thread \<Rightarrow> bool" where
  "isToTrace feature T = set_in (ath_trace T) feature"

definition isToDisaggregate :: "string \<Rightarrow> archive_thread \<Rightarrow> bool" where
  "isToDisaggregate cl T = set_in (ath_disaggregate T) cl"

definition isInCurrentDay :: "string \<Rightarrow> archive_thread \<Rightarrow> bool option" where
  "isInCurrentDay daytime T =
     (if daytime = '''' then Some True
      else do {
        y \<leftarrow> substr 0 2 daytime;
        m \<leftarrow> substr 2 2 daytime;
        d \<leftarrow> substr 4 2 daytime;
        Some (ath_day T = ''20'' @ y @ ''_'' @ m @ ''_'' @ d)
      })"

text \<open>The fields of a record: all but those that say where it belongs, in the order of their names.\<close>

definition record_fields :: "mmessage \<Rightarrow> string list" where
  "record_fields m = filter (\<lambda>k. k \<notin> set [''class'', ''feature'', ''method'', ''language'', ''url'']) (map fst (mfields m))"

definition record_text :: "mmessage \<Rightarrow> string" where
  "record_text m = ''{'' @ join_with '','' (map (\<lambda>k. quote @ k @ quote @ '':'' @ quote @ m_getString m k @ quote) (record_fields m)) @ ''}''"

definition writelog :: "string \<Rightarrow> mmessage \<Rightarrow> fsnode \<Rightarrow> fsnode" where
  "writelog lfile m fs = out_ignored True lfile (record_text m) fs"

definition mkItem :: "mmessage \<Rightarrow> string" where
  "mkItem m = ''{'' @ join_with '','' (map (\<lambda>k. k @ '':'' @ m_getString m k) (record_fields m)) @ ''}''"

definition ath_update ::
  "calendar \<Rightarrow> (string \<Rightarrow> xnode list) \<Rightarrow> string \<Rightarrow> string \<Rightarrow> string \<Rightarrow> archive_thread \<Rightarrow> archive_thread option" where
  "ath_update daynum parse datestr today yesterday T =
     (if today = ath_day T then Some T
      else if yesterday \<noteq> ath_day T then Some (T\<lparr>ath_day := today\<rparr>)
      else map_option (\<lambda>R. T\<lparr>ath_day := today, ath_archive := R\<rparr>) (purge daynum parse datestr (ath_archive T)))"

text \<open>A directory that cannot be made is passed over.\<close>

definition make_if_missing :: "string \<Rightarrow> fsnode \<Rightarrow> fsnode" where
  "make_if_missing p fs = (if ft_isDir p fs then fs else case ft_makeDir False p fs of Some (b, fs') \<Rightarrow> fs' | None \<Rightarrow> fs)"

definition log_dirs :: "archive_thread \<Rightarrow> mmessage \<Rightarrow> string list" where
  "log_dirs T m =
     (let d1 = ath_home T @ ''/'' @ m_getString m ''class''; d2 = d1 @ ''/'' @ m_getString m ''feature''
      in [d1, d2] @ (if isToDisaggregate (m_getString m ''class'') T then [d2 @ ''/'' @ m_getString m ''agent''] else []))"

text \<open>What is sent on when the agent is the active one.\<close>

definition server_message :: "mmessage \<Rightarrow> archive_thread \<Rightarrow> mmessage" where
  "server_message m T =
     m_add (m_add (m_new ''rscmd'' ''serversend'') ''url'' (ath_day T @ ''/'' @ m_getString m ''class'' @ ''/'' @ m_getString m ''feature''))
       ''item'' (mkItem m)"

definition ath_record :: "string \<Rightarrow> bool \<Rightarrow> mmessage \<Rightarrow> archive_thread \<Rightarrow> (archive_thread \<times> effect list) option" where
  "ath_record now active m T =
     (if \<not> isToTrace (m_getString m ''feature'') T then Some (T, [])
      else do {
        let fs1 = fold make_if_missing (log_dirs T m) (ath_fs T);
        current \<leftarrow> isInCurrentDay (m_getString m ''timeofday'') T;
        let fs2 = (if current then writelog (last (log_dirs T m) @ ''/data'') m fs1 else fs1);
        (ok, fs3) \<leftarrow> ul_log now m (userlog T) fs2;
        Some (ath_with_fs fs3 T, if active then [Notify (server_message m T)] else [])
      })"

record ath_clock =
  cl_now :: string
  cl_today :: string
  cl_yesterday :: string
  cl_datestr :: string

definition ath_step ::
  "calendar \<Rightarrow> (string \<Rightarrow> xnode list) \<Rightarrow> ath_clock \<Rightarrow> bool \<Rightarrow> mmessage \<Rightarrow> archive_thread \<Rightarrow> (archive_thread \<times> effect list) option" where
  "ath_step daynum parse cl active m T =
     (if mtype m = ''trigger'' \<and> msubtype m = ''archiveupd''
      then map_option (\<lambda>T'. (T', [])) (ath_update daynum parse (cl_datestr cl) (cl_today cl) (cl_yesterday cl) T)
      else if mtype m = ''logcmd'' \<and> msubtype m = ''archive'' then ath_record (cl_now cl) active m T
      else Some (T, []))"

text \<open>The thread of the agent \<^verbatim>\<open>logger\<close> looks for a new day at every message, keeps no log of the users and does
  not ask for the day of a record.\<close>

definition logger_update ::
  "calendar \<Rightarrow> (string \<Rightarrow> xnode list) \<Rightarrow> string \<Rightarrow> string \<Rightarrow> archive_thread \<Rightarrow> archive_thread option" where
  "logger_update daynum parse datestr today T =
     (if today = ath_day T then Some T
      else map_option (\<lambda>R. T\<lparr>ath_day := today, ath_archive := R\<rparr>) (purge daynum parse datestr (ath_archive T)))"

definition logger_step ::
  "calendar \<Rightarrow> (string \<Rightarrow> xnode list) \<Rightarrow> ath_clock \<Rightarrow> bool \<Rightarrow> mmessage \<Rightarrow> archive_thread \<Rightarrow> (archive_thread \<times> effect list) option" where
  "logger_step daynum parse cl active m T0 =
     do {
       T \<leftarrow> logger_update daynum parse (cl_datestr cl) (cl_today cl) T0;
       if mtype m = ''logcmd'' \<and> msubtype m = ''archive'' \<and> isToTrace (m_getString m ''feature'') T
       then (let dirs = take 2 (log_dirs T m); fs = fold make_if_missing dirs (ath_fs T)
             in Some (ath_with_fs (writelog (last dirs @ ''/data'') m fs) T, if active then [Notify (server_message m T)] else []))
       else Some (T, [])
     }"

text \<open>The old purge, by days: for each of the directories that come first in the order of their names, up to the number to
  keep, a compression, an upload and a removal. \<open>u\<close> is the value of an unreadable number.\<close>

definition purge_dir :: "mparams \<Rightarrow> string \<Rightarrow> effect list" where
  "purge_dir conf pathfile =
     (let compress = mp_get conf ''compresscmd''; upload = mp_get conf ''uploadcmd'';
          fill = (\<lambda>cmd. fst (strReplace cmd ''$PATH'' pathfile))
      in (if compress \<noteq> '''' then [Shell (fill (fill compress))] else []) @ (if upload \<noteq> '''' then [Shell (fill upload)] else [])
         @ [Shell (''rm -r '' @ pathfile), Shell (''rm '' @ pathfile @ ''.*'')])"

definition ath_purge :: "nat \<Rightarrow> archive_thread \<Rightarrow> effect list" where
  "ath_purge u T =
     (let tmp = mp_get (ath_conf T) ''maxdaynumber''; n = a2unsigned u tmp;
          dirs = snd (dirList (ft_entries (workingdir T) (ath_fs T)))
      in if tmp = '''' \<or> n = 0 \<or> length dirs \<le> n then []
         else concat (map (\<lambda>d. purge_dir (ath_conf T) (workingdir T @ ''/'' @ d)) (take (length dirs - n) (sort dirs))))"

subsection \<open>Texts of times\<close>

definition getTimeInSecond :: "double \<Rightarrow> string \<Rightarrow> double" where
  "getTimeInSecond u t =
     (if length t < 12 then 0
      else a2double u (take 2 (drop 6 t)) * 3600 + a2double u (take 2 (drop 8 t)) * 60 + a2double u (take 2 (drop 10 t)))"

definition mkDate :: "string \<Rightarrow> string" where
  "mkDate day = (let l = fst (nl_init [] day (CHR ''_'')) in if length l < 3 then '''' else l ! 2 @ '' - '' @ l ! 1 @ '' - '' @ l ! 0)"

definition mkHorusStatusPage :: "string \<Rightarrow> string \<Rightarrow> string \<Rightarrow> archive_thread \<Rightarrow> archive_thread \<times> effect list" where
  "mkHorusStatusPage name v time T =
     (let p1 = m_add (m_add (ath_page T) name (v @ ''; time='' @ time @ '')'')) ''language'' ''xml'';
          p2 = m_add p1 ''language'' ''html''
      in (T\<lparr>ath_page := p2\<rparr>, [Page ''/horus_status.xml'' p1, Page ''/horus_status'' p2]))"

subsection \<open>The remote server\<close>

record remote_server =
  rs_server :: string
  urlroot :: string
  cmdtemplate :: string
  installer_code :: string
  authentication :: string

definition rs_load :: "file_store \<Rightarrow> mparams \<Rightarrow> remote_server option" where
  "rs_load fs p0 =
     do {
       (ok, p) \<leftarrow> mp_load fs p0;
       Some \<lparr>rs_server = mp_get p ''server'', urlroot = mp_get p ''urlroot'', cmdtemplate = mp_get p ''sendcmd'',
             installer_code = mp_get p ''installer_code'', authentication = mp_get p ''authentication''\<rparr>
     }"

text \<open>The result of \<^verbatim>\<open>find\<close> is taken for a truth value: only an answer that begins with \<^verbatim>\<open>200 OK\<close> counts as a failure.
  The password of the first message stays in the command of the authentication.\<close>

definition restSend ::
  "string \<Rightarrow> (string \<Rightarrow> string) \<Rightarrow> string \<Rightarrow> string \<Rightarrow> remote_server \<Rightarrow> bool \<times> remote_server \<times> effect list" where
  "restSend configdir sh url msg R =
     (if rs_server R = '''' \<or> rs_server R = ''$SERVER'' \<or> urlroot R = '''' \<or> cmdtemplate R = '''' then (False, R, [])
      else let auth = installer_code R \<noteq> '''' \<and> authentication R \<noteq> '''';
               a = fst (strReplace (authentication R) ''$PASSWD'' (configdir @ ''/keys/'' @ installer_code R));
               digest = (if auth then sh a else '''');
               c1 = fst (strReplace (cmdtemplate R) ''$URL'' (urlroot R @ ''/'' @ url));
               c2 = fst (strReplace c1 ''$SERVER'' (rs_server R));
               c3 = fst (strReplace c2 ''$BODY'' (quote @ msg @ quote));
               cmd = (if digest \<noteq> '''' then c3 @ '' -d '' @ digest else c3)
           in (str_find ''200 OK'' (sh cmd) \<noteq> Some 0, if auth then R\<lparr>authentication := a\<rparr> else R,
               (if auth then [Shell a] else []) @ [Shell cmd]))"

definition rst_step :: "string \<Rightarrow> (string \<Rightarrow> string) \<Rightarrow> mmessage \<Rightarrow> remote_server \<Rightarrow> remote_server \<times> effect list" where
  "rst_step configdir sh m R =
     (if mtype m = ''rscmd'' \<and> msubtype m = ''serversend'' then snd (restSend configdir sh (m_getString m ''url'') (m_getString m ''item'') R)
      else (R, []))"

subsection \<open>What a record adds to the files\<close>

text \<open>A file that may not exist, with a text at its end.\<close>

definition extended :: "string option \<Rightarrow> string \<Rightarrow> string option" where
  "extended old x = (if x = '''' then old else Some ((case old of None \<Rightarrow> '''' | Some y \<Rightarrow> y) @ x))"

lemma extended_Nil [simp]: "extended old '''' = old"
  by (simp add: extended_def)

lemma extended_twice [simp]: "extended (extended old x) y = extended old (x @ y)"
  by (simp add: extended_def)

lemma make_if_missing_effect:
  assumes "canon p fs = Some q" and "file_at q fs = None"
  shows "file_at r (make_if_missing p fs) = file_at r fs" and "dir_at r (make_if_missing p fs) \<longleftrightarrow> dir_at r fs \<or> r = q"
proof -
  have "file_at r (make_if_missing p fs) = file_at r fs \<and> (dir_at r (make_if_missing p fs) \<longleftrightarrow> dir_at r fs \<or> r = q)"
  proof (cases "dir_at q fs")
    case True
    with assms(1) show ?thesis by (auto simp: make_if_missing_def ft_isDir_iff)
  next
    case False
    with assms have n: "\<not> ft_isDir p fs" "node_at q fs = None" by (auto simp: ft_isDir_iff node_none_iff)
    then obtain fs' where m: "ft_makeDir False p fs = Some (True, fs')" using assms(1) by (simp add: ft_makeDir_def)
    with n(1) makeDir_effect [OF m] assms(1) show ?thesis by (auto simp: make_if_missing_def)
  qed
  then show "file_at r (make_if_missing p fs) = file_at r fs" and "dir_at r (make_if_missing p fs) \<longleftrightarrow> dir_at r fs \<or> r = q" by auto
qed

lemma append_effect:
  assumes "canon p fs = Some q" and "\<not> dir_at q fs"
  shows "file_at r (out_ignored True p x fs) = (if r = q then extended (file_at r fs) (x @ newline) else file_at r fs)"
    and "dir_at r (out_ignored True p x fs) = dir_at r fs" and "canon s (out_ignored True p x fs) = canon s fs"
proof -
  obtain fs' where w: "out_text True p x fs = Some fs'" using assms by (simp add: out_text_def ft_write_def)
  note e = ft_write_file_at [OF w [unfolded out_text_def]] ft_write_canon [OF w [unfolded out_text_def]]
  show "file_at r (out_ignored True p x fs) = (if r = q then extended (file_at r fs) (x @ newline) else file_at r fs)"
    "dir_at r (out_ignored True p x fs) = dir_at r fs" "canon s (out_ignored True p x fs) = canon s fs"
    using w e assms(1) by (auto simp: out_ignored_def extended_def ft_read_def newline_def)
qed

text \<open>The files of the users' logs are below the home directory, which is \<open>h\<close>.\<close>

definition ul_ready :: "fspath \<Rightarrow> user_log \<Rightarrow> fsnode \<Rightarrow> bool" where
  "ul_ready h ul fs \<longleftrightarrow> (\<forall>(ty, logs) \<in> set (ul_logmap ul). distinct logs \<and> (\<forall>lg \<in> set logs.
     canon (ul_path lg ul) fs = Some (h @ [''logs'', lg, ''data'']) \<and> \<not> dir_at (h @ [''logs'', lg, ''data'']) fs))"

lemma ul_append_effect:
  assumes "distinct logs" and "\<forall>lg \<in> set logs. canon (ul_path lg ul) fs = Some (h @ [''logs'', lg, ''data''])
     \<and> \<not> dir_at (h @ [''logs'', lg, ''data'']) fs"
  shows "file_at q (fold (ul_append agent line ul) logs fs)
       = (if \<exists>lg \<in> set logs. ul_checkSource lg agent ul \<and> q = h @ [''logs'', lg, ''data'']
          then extended (file_at q fs) (line @ newline) else file_at q fs)"
    and "dir_at q (fold (ul_append agent line ul) logs fs) = dir_at q fs"
proof -
  have "(\<forall>q. file_at q (fold (ul_append agent line ul) logs fs)
       = (if \<exists>lg \<in> set logs. ul_checkSource lg agent ul \<and> q = h @ [''logs'', lg, ''data'']
          then extended (file_at q fs) (line @ newline) else file_at q fs))
    \<and> (\<forall>q. dir_at q (fold (ul_append agent line ul) logs fs) = dir_at q fs)"
    using assms
  proof (induction logs arbitrary: fs)
    case (Cons lg logs)
    let ?fs = "ul_append agent line ul lg fs"
    have e: "file_at q ?fs = (if ul_checkSource lg agent ul \<and> q = h @ [''logs'', lg, ''data''] then extended (file_at q fs) (line @ newline) else file_at q fs)"
      "dir_at q ?fs = dir_at q fs" "canon s ?fs = canon s fs" for q s
      using append_effect [of "ul_path lg ul" fs "h @ [''logs'', lg, ''data'']"] Cons.prems by (auto simp: ul_append_def)
    have "\<forall>lg \<in> set logs. canon (ul_path lg ul) ?fs = Some (h @ [''logs'', lg, ''data'']) \<and> \<not> dir_at (h @ [''logs'', lg, ''data'']) ?fs"
      using Cons.prems by (simp add: e)
    from Cons.IH [OF _ this] Cons.prems e show ?case by auto
  qed simp
  then show "file_at q (fold (ul_append agent line ul) logs fs)
       = (if \<exists>lg \<in> set logs. ul_checkSource lg agent ul \<and> q = h @ [''logs'', lg, ''data'']
          then extended (file_at q fs) (line @ newline) else file_at q fs)"
    and "dir_at q (fold (ul_append agent line ul) logs fs) = dir_at q fs" by blast+
qed

text \<open>The line that a record adds to a log of the users.\<close>

definition user_line :: "string \<Rightarrow> mmessage \<Rightarrow> user_log \<Rightarrow> string \<Rightarrow> string" where
  "user_line now m ul lg =
     (case (sm_find (ul_logmap ul) (m_getString m ''class''), sm_find (ul_proto ul) (m_getString m ''class'')) of
        (Some logs, Some prototype) \<Rightarrow>
          if lg \<in> set logs \<and> ul_checkSource lg (m_getString (ul_message now m) ''agentname'') ul
          then the (ul_fill (ul_value (ul_message now m)) prototype) @ newline else ''''
      | _ \<Rightarrow> '''')"

definition ul_ends :: "string \<Rightarrow> mmessage \<Rightarrow> user_log \<Rightarrow> bool" where
  "ul_ends now m ul \<longleftrightarrow>
     (case sm_find (ul_proto ul) (m_getString m ''class'') of
        None \<Rightarrow> True | Some prototype \<Rightarrow> ul_fill (ul_value (ul_message now m)) prototype \<noteq> None)"

lemma ul_log_effect:
  assumes "ul_ready h ul fs" and "ul_ends now m ul"
  shows "\<exists>b fs'. ul_log now m ul fs = Some (b, fs') \<and> (\<forall>q. dir_at q fs' = dir_at q fs)
     \<and> (\<forall>q. file_at q fs' = (if \<exists>lg. q = h @ [''logs'', lg, ''data''] then extended (file_at q fs) (user_line now m ul (q ! (length h + 1)))
                            else file_at q fs))"
proof (cases "sm_find (ul_logmap ul) (m_getString m ''class'')")
  case None
  then show ?thesis by (auto simp: ul_log_def user_line_def Let_def)
next
  case logs: (Some logs)
  show ?thesis
  proof (cases "sm_find (ul_proto ul) (m_getString m ''class'')")
    case None
    with logs show ?thesis by (auto simp: ul_log_def user_line_def Let_def)
  next
    case (Some prototype)
    then obtain line where l: "ul_fill (ul_value (ul_message now m)) prototype = Some line" using assms(2) by (auto simp: ul_ends_def)
    have "(m_getString m ''class'', logs) \<in> set (ul_logmap ul)" using logs by (rule sm_find_in_set)
    then have r: "distinct logs" "\<forall>lg \<in> set logs. canon (ul_path lg ul) fs = Some (h @ [''logs'', lg, ''data''])
        \<and> \<not> dir_at (h @ [''logs'', lg, ''data'']) fs" using assms(1) by (auto simp: ul_ready_def)
    note e = ul_append_effect [OF r, of _ "m_getString (ul_message now m) ''agentname''" line]
    show ?thesis using logs Some l
      by (auto simp: ul_log_def Let_def e user_line_def nth_append)
  qed
qed

subsection \<open>The files of the log are the log\<close>

abbreviation record_place :: "fspath \<Rightarrow> mmessage \<Rightarrow> fspath" where
  "record_place h ev \<equiv> h @ [mtype ev, msubtype ev, ''data'']"

text \<open>The home directory is \<open>h\<close>; the logs of the users are below it.\<close>

definition ath_ready :: "fspath \<Rightarrow> archive_thread \<Rightarrow> bool" where
  "ath_ready h T \<longleftrightarrow> canon (ath_home T) (ath_fs T) = Some h \<and> dir_at h (ath_fs T) \<and> ul_ready h (userlog T) (ath_fs T)"

text \<open>Nothing is in the way of the records of an event.\<close>

definition place_free :: "fspath \<Rightarrow> mmessage \<Rightarrow> fsnode \<Rightarrow> bool" where
  "place_free h ev fs \<longleftrightarrow> plain_name (mtype ev) \<and> plain_name (msubtype ev) \<and> mtype ev \<noteq> ''logs''
     \<and> file_at (h @ [mtype ev]) fs = None \<and> file_at (h @ [mtype ev, msubtype ev]) fs = None \<and> \<not> dir_at (record_place h ev) fs"

text \<open>An event of the current day that is recorded, whose line for the users can be made.\<close>

definition to_record :: "string \<Rightarrow> mmessage \<Rightarrow> archive_thread \<Rightarrow> bool" where
  "to_record now ev T \<longleftrightarrow> m_texts ev \<and> isToTrace (msubtype ev) T \<and> \<not> isToDisaggregate (mtype ev) T
     \<and> isInCurrentDay (m_getString (recv_step now ev) ''timeofday'') T = Some True \<and> ul_ends now (recv_step now ev) (userlog T)"

lemma m_texts_typed [simp]: "m_texts (m\<lparr>mtype := a, msubtype := b\<rparr>) = m_texts m" "m_getString (m\<lparr>mtype := a, msubtype := b\<rparr>) f = m_getString m f"
  by (simp_all add: m_texts_def m_wf_def m_getString_def)

lemma m_texts_other: "m_texts m \<Longrightarrow> m_getString (m_add m f v) k = (if k = f then v else m_getString m k)"
  by (rule m_add_getString) (auto simp: m_texts_def)

lemma recv_fields:
  assumes "m_texts ev"
  shows "m_getString (recv_step now ev) ''class'' = mtype ev" "m_getString (recv_step now ev) ''feature'' = msubtype ev"
    "mtype (recv_step now ev) = ''logcmd''" "msubtype (recv_step now ev) = ''archive''"
  using assms by (auto simp: recv_step_def Let_def m_texts_other)

lemma dirs_made:
  assumes "canon p fs = Some h" "dir_at h fs" "plain_name a" "plain_name b" "file_at (h @ [a]) fs = None" "file_at (h @ [a, b]) fs = None"
  defines "fs' \<equiv> fold make_if_missing [p @ ''/'' @ a, p @ ''/'' @ a @ ''/'' @ b] fs"
  shows "file_at q fs' = file_at q fs" and "dir_at q fs' \<longleftrightarrow> dir_at q fs \<or> q = h @ [a] \<or> q = h @ [a, b]"
    and "canon (p @ ''/'' @ a @ ''/'' @ b @ ''/data'') fs' = Some (h @ [a, b, ''data''])"
    and "canon s fs = Some r \<Longrightarrow> canon s fs' = Some r"
proof -
  let ?d1 = "p @ ''/'' @ a" and ?d2 = "p @ ''/'' @ a @ ''/'' @ b"
  define fs1 where "fs1 = make_if_missing ?d1 fs"
  have c1: "canon ?d1 fs = Some (h @ [a])" using canon_child [OF assms(1-3)] by simp
  note e1 = make_if_missing_effect [OF c1 assms(5), folded fs1_def]
  have c1': "canon ?d1 fs1 = Some (h @ [a])" using canon_more_dirs [of fs fs1, OF _ c1] e1(2) by simp
  have c2: "canon ?d2 fs1 = Some (h @ [a, b])"
    using canon_child [OF c1' _ assms(4)] e1(2) by simp
  have "file_at (h @ [a, b]) fs1 = None" using assms(6) e1(1) by simp
  note e2 = make_if_missing_effect [OF c2 this]
  have fs': "fs' = make_if_missing ?d2 fs1" by (simp add: fs'_def fs1_def)
  show "file_at q fs' = file_at q fs" "dir_at q fs' \<longleftrightarrow> dir_at q fs \<or> q = h @ [a] \<or> q = h @ [a, b]"
    unfolding fs' using e1 e2 by auto
  have c2': "canon ?d2 fs' = Some (h @ [a, b])" unfolding fs' using canon_more_dirs [of fs1, OF _ c2] e2(2) by simp
  have "dir_at (h @ [a, b]) fs'" unfolding fs' using e2(2) by simp
  from canon_child [OF c2' this, of "''data''"]
  show "canon (p @ ''/'' @ a @ ''/'' @ b @ ''/data'') fs' = Some (h @ [a, b, ''data''])" by (simp add: plain_name_def)
  have m1: "canon s fs = Some r \<Longrightarrow> canon s fs1 = Some r" by (rule canon_more_dirs) (simp_all add: e1(2))
  have "canon s fs1 = Some r \<Longrightarrow> canon s fs' = Some r" unfolding fs' by (rule canon_more_dirs) (unfold e2(2), blast)
  with m1 show "canon s fs = Some r \<Longrightarrow> canon s fs' = Some r" by simp
qed

lemma ul_ready_kept:
  assumes "ul_ready h ul fs" and "\<And>s r. canon s fs = Some r \<Longrightarrow> canon s fs' = Some r"
    and "\<And>lg. dir_at (h @ [''logs'', lg, ''data'']) fs' \<Longrightarrow> dir_at (h @ [''logs'', lg, ''data'']) fs"
  shows "ul_ready h ul fs'"
  using assms unfolding ul_ready_def by blast

lemma event_step:
  assumes ready: "ath_ready h T" and free: "place_free h ev (ath_fs T)" and rec: "to_record (cl_now cl) ev T"
  shows "\<exists>fs es. ath_step daynum parse cl active (recv_step (cl_now cl) ev) T = Some (ath_with_fs fs T, es) \<and> ath_ready h (ath_with_fs fs T)
     \<and> (\<forall>q. dir_at q fs \<longleftrightarrow> dir_at q (ath_fs T) \<or> q = h @ [mtype ev] \<or> q = h @ [mtype ev, msubtype ev])
     \<and> (\<forall>q. file_at q fs = extended (file_at q (ath_fs T))
          (if q = record_place h ev then record_text (recv_step (cl_now cl) ev) @ newline
           else if \<exists>lg. q = h @ [''logs'', lg, ''data''] then user_line (cl_now cl) (recv_step (cl_now cl) ev) (userlog T) (q ! (length h + 1))
           else ''''))"
proof -
  let ?m = "recv_step (cl_now cl) ev" and ?a = "mtype ev" and ?b = "msubtype ev" and ?fs = "ath_fs T"
  have t: "m_texts ev" using rec by (simp add: to_record_def)
  note f = recv_fields [OF t, of "cl_now cl"]
  have home: "canon (ath_home T) ?fs = Some h" "dir_at h ?fs" and ul: "ul_ready h (userlog T) ?fs" using ready by (auto simp: ath_ready_def)
  have p: "plain_name ?a" "plain_name ?b" "file_at (h @ [?a]) ?fs = None" "file_at (h @ [?a, ?b]) ?fs = None"
    and nd: "?a \<noteq> ''logs''" "\<not> dir_at (record_place h ev) ?fs" using free by (auto simp: place_free_def)
  define fs1 where "fs1 = fold make_if_missing [ath_home T @ ''/'' @ ?a, ath_home T @ ''/'' @ ?a @ ''/'' @ ?b] ?fs"
  note d = dirs_made [OF home p, folded fs1_def]
  define fs2 where "fs2 = writelog (ath_home T @ ''/'' @ ?a @ ''/'' @ ?b @ ''/data'') ?m fs1"
  have "\<not> dir_at (record_place h ev) fs1" using nd(2) d(2) by simp
  note w = append_effect [OF d(3) this, where x = "record_text ?m", folded writelog_def, folded fs2_def]
  have ul1: "ul_ready h (userlog T) fs1" by (rule ul_ready_kept [OF ul d(4)]) (use nd(1) d(2) in auto)
  have ul2: "ul_ready h (userlog T) fs2" by (rule ul_ready_kept [OF ul1]) (simp_all only: w)
  have "ul_ends (cl_now cl) ?m (userlog T)" using rec by (simp add: to_record_def)
  from ul_log_effect [OF ul2 this] obtain b fs3 where u: "ul_log (cl_now cl) ?m (userlog T) fs2 = Some (b, fs3)" "\<And>q. dir_at q fs3 = dir_at q fs2"
    "\<And>q. file_at q fs3 = (if \<exists>lg. q = h @ [''logs'', lg, ''data''] then extended (file_at q fs2) (user_line (cl_now cl) ?m (userlog T) (q ! (length h + 1)))
                            else file_at q fs2)" by blast
  have dirs: "log_dirs T ?m = [ath_home T @ ''/'' @ ?a, ath_home T @ ''/'' @ ?a @ ''/'' @ ?b]"
    using rec by (simp add: log_dirs_def Let_def f to_record_def)
  have "ath_record (cl_now cl) active ?m T = Some (ath_with_fs fs3 T, if active then [Notify (server_message ?m T)] else [])"
    using rec u(1) unfolding ath_record_def f dirs by (simp add: to_record_def fs1_def fs2_def)
  then have "ath_step daynum parse cl active ?m T = Some (ath_with_fs fs3 T, if active then [Notify (server_message ?m T)] else [])"
    by (simp add: ath_step_def f)
  moreover have "ul_ready h (userlog T) fs3" by (rule ul_ready_kept [OF ul2]) (use canon_same_dirs [OF u(2)] u(2) in simp_all)
  moreover have "canon (ath_home T) fs3 = Some h" using canon_same_dirs [OF u(2)] w(3) d(4) [OF home(1)] by simp
  moreover have "dir_at q fs3 \<longleftrightarrow> dir_at q ?fs \<or> q = h @ [?a] \<or> q = h @ [?a, ?b]" for q using u(2) w(2) d(2) by simp
  moreover have "file_at q fs3 = extended (file_at q ?fs)
          (if q = record_place h ev then record_text ?m @ newline
           else if \<exists>lg. q = h @ [''logs'', lg, ''data''] then user_line (cl_now cl) ?m (userlog T) (q ! (length h + 1)) else '''')" for q
    using u(3) w(1) d(1) nd(1) by auto
  ultimately show ?thesis using home(2)
    by (intro exI [of _ fs3]) (auto simp: ath_ready_def ath_with_fs_def)
qed

text \<open>Receiver and log over a sequence of events.\<close>

fun ath_run ::
  "calendar \<Rightarrow> (string \<Rightarrow> xnode list) \<Rightarrow> bool \<Rightarrow> (ath_clock \<times> mmessage) list \<Rightarrow> archive_thread \<Rightarrow> archive_thread option" where
  "ath_run daynum parse active [] T = Some T"
| "ath_run daynum parse active ((cl, ev) # evs) T =
     do { (T', es) \<leftarrow> ath_step daynum parse cl active (recv_step (cl_now cl) ev) T; ath_run daynum parse active evs T' }"


subsection \<open>Departures\<close>

text \<open>A remote server that refuses a record, or does not answer, counts as a success.\<close>

lemma refused_is_success:
  assumes "rs_server R \<noteq> ''''" "rs_server R \<noteq> ''$SERVER''" "urlroot R \<noteq> ''''" "cmdtemplate R \<noteq> ''''" and "\<And>c. \<not> str_contains (sh c) ''200 OK''"
  shows "fst (restSend configdir sh url msg R)"
  using assms by (simp add: restSend_def Let_def)

text \<open>A template without a quotation mark after its last key makes the search leave the text.\<close>

lemma unquoted_key_crashes: "ul_fill val ''$key'' = None"
proof -
  have "ul_getKey ''$key'' = None" by code_simp
  then show ?thesis by (subst ul_fill.simps) simp
qed

text \<open>A line that contains its own key is filled for ever.\<close>

lemma user_line_diverges: "ul_fill (\<lambda>k. ''$k'' @ quote) (''$k'' @ quote) = None"
proof -
  let ?s = "''$k'' @ quote"
  have "\<not> (val = (\<lambda>k. ''$k'' @ quote) \<and> (\<exists>n. s = ?s @ replicate n (CHR 0x22)))" if "ul_fill val s = Some r" for val s r
  proof (rule ul_fill.raw_induct [where P = "\<lambda>val s r. \<not> (val = (\<lambda>k. ''$k'' @ quote) \<and> (\<exists>n. s = ?s @ replicate n (CHR 0x22)))", OF _ that])
    fix f val s r
    assume ih: "\<And>val s r. f val s = Some r \<Longrightarrow> \<not> (val = (\<lambda>k. ''$k'' @ quote) \<and> (\<exists>n. s = ?s @ replicate n (CHR 0x22)))"
      and b: "(case ul_getKey s of None \<Rightarrow> None | Some key \<Rightarrow> if key = '''' then Some s
         else f val (fst (strReplace s (CHR ''$'' # key) (val key)))) = Some r"
    show "\<not> (val = (\<lambda>k. ''$k'' @ quote) \<and> (\<exists>n. s = ?s @ replicate n (CHR 0x22)))"
    proof
      assume "val = (\<lambda>k. ''$k'' @ quote) \<and> (\<exists>n. s = ?s @ replicate n (CHR 0x22))"
      then obtain n where v: "val = (\<lambda>k. ''$k'' @ quote)" and s: "s = ?s @ replicate n (CHR 0x22)" by blast
      have "ul_getKey s = Some ''k''" "fst (strReplace s ''$k'' (val ''k'')) = ?s @ replicate (Suc n) (CHR 0x22)"
        by (simp_all add: s v ul_getKey_def quote_def strReplace_def)
      then have "f val (?s @ replicate (Suc n) (CHR 0x22)) = Some r" using b by simp
      from ih [OF this] v show False by blast
    qed
  qed
  then have "\<not> ul_fill (\<lambda>k. ''$k'' @ quote) ?s = Some r" for r by (metis append_Nil2 replicate_0)
  then show ?thesis by (cases "ul_fill (\<lambda>k. ''$k'' @ quote) ?s") auto
qed

subsection \<open>An example\<close>

definition log_home :: fsnode where
  "log_home = DirNode [(''home'', DirNode [(''logs'', DirNode [(''push'', DirNode [])]), (''event'', DirNode [(''door'', DirNode
     [(''data'', FileNode (''{}'' @ newline))])])])]"

definition example_user_log :: user_log where
  "example_user_log = \<lparr>ul_logmap = [(''event'', [''push''])], ul_proto = [(''event'', ''door '' @ quote @ ''$value'' @ quote)],
     ul_source = [(''push'', [''hall''])], ul_pathname = [(''push'', ''/home/logs/push/data'')]\<rparr>"

definition example_thread :: archive_thread where
  "example_thread = \<lparr>ath_home = ''/home'', workingdir = ''/home/'', ath_day = ''2014_05_28'', ath_conf = mp_default,
     ath_trace = mp_add mp_default ''all'' ''yes'', ath_disaggregate = mp_default, ath_page = m_default, userlog = example_user_log,
     ath_archive = archive_new ''/conf'' ''/home'' ''archive'' log_home\<rparr>"

definition example_clock :: ath_clock where
  "example_clock = \<lparr>cl_now = ''140528103000'', cl_today = '''', cl_yesterday = '''', cl_datestr = ''''\<rparr>"

definition door_event :: "string \<Rightarrow> string \<Rightarrow> string \<Rightarrow> mmessage" where
  "door_event n agent v = m_add (m_add (m_new ''event'' n) ''agent'' agent) ''value'' v"


end
