(* ===== verification/Net_Devices.thy ===== *)
theory Net_Devices
  imports Web_Logs
begin

text \<open>
  Devices that are made of channels of other agents, \<^verbatim>\<open>src/agents/NetDevices\<close>: a component
  (\<^verbatim>\<open>Component.cpp\<close>) commands and reads one channel through its agent, an automaton (\<^verbatim>\<open>Automaton.cpp\<close>)
  gives the states of the components for an event or a command, and a device (\<^verbatim>\<open>Device.cpp\<close>) is the thread that
  joins them. \<open>ags\<close> is \<^verbatim>\<open>AgentNet::getAgentOf\<close>, the address of the agent of a channel, and \<open>net p a req\<close> the answer of
  the agent at port \<open>p\<close> of address \<open>a\<close>; requests are returned in their order. Directories that are created are left
  out. An index or a pointer out of range is \<open>None\<close>.
\<close>

subsection \<open>Automata\<close>

definition au_nextState :: "mparams \<Rightarrow> string \<Rightarrow> string" where
  "au_nextState ctl currentState = mp_get_cat ctl currentState ''control''"

definition au_getObservations :: "mparams \<Rightarrow> mparams \<Rightarrow> mparams" where
  "au_getObservations ctl obs =
     (let cmds = fst (nl_init [] (mp_get_cat ctl ''cmd'' ''trigger'') (CHR ''+''));
          events = fst (nl_init [] (mp_get_cat ctl ''event'' ''trigger'') (CHR ''+''))
      in fold (\<lambda>c ob. mp_add_cat ob c ''observe'' ''cmd'') cmds (fold (\<lambda>e ob. mp_add_cat ob e ''observe'' ''event'') events obs))"

definition au_actions :: "mparams \<Rightarrow> string \<Rightarrow> string \<Rightarrow> string \<Rightarrow> string \<Rightarrow> name_list" where
  "au_actions ctl ty subty v status =
     (if mp_get_cat ctl ty ''trigger'' = '''' then []
      else let values = fst (nl_init [] v (CHR ''+''))
           in if length values > 1 then fst (nl_init [] v (CHR ''+''))
              else if length values = 1 \<and> v = ''ON'' then fst (nl_init [] (mp_get_cat ctl status ''control'') (CHR ''+''))
              else if length values = 1 \<and> v = ''OFF'' then map (\<lambda>x. ''OFF'') (fst (nl_init [] status (CHR ''+'')))
              else [])"

subsection \<open>Components\<close>

record net_component =
  cp_par :: mparams
  cp_addr :: string
  cp_rpc :: "string \<times> string"

text \<open>Requests with the port and the address they go to.\<close>

type_synonym requests = "(string \<times> string \<times> string) list"

definition cp_new :: "file_store \<Rightarrow> string \<Rightarrow> string \<Rightarrow> string \<Rightarrow> string \<Rightarrow> net_component option" where
  "cp_new fs configdir homedir dir nm =
     map_option (\<lambda>(ok, p). \<lparr>cp_par = p, cp_addr = '''', cp_rpc = ('''', '''')\<rparr>) (mp_load fs (mp_new_dir configdir homedir dir nm))"

definition cp_name :: "net_component \<Rightarrow> string" where
  "cp_name c = mp_get_cat (cp_par c) ''name'' ''generic''"

definition cp_status :: "net_component \<Rightarrow> string" where
  "cp_status c = mp_get_cat (cp_par c) ''status'' ''generic''"

definition cp_with :: "string \<Rightarrow> string \<Rightarrow> net_component \<Rightarrow> net_component" where
  "cp_with k v c = c\<lparr>cp_par := mp_add_cat (cp_par c) k ''generic'' v\<rparr>"

definition mkAgentRPC :: "(string \<Rightarrow> string) \<Rightarrow> net_component \<Rightarrow> (bool \<times> net_component) option" where
  "mkAgentRPC ags c =
     (if cp_addr c = '''' \<or> cp_addr c = ''none''
      then let a = ags (mp_get (cp_par c) ''name''); c' = c\<lparr>cp_addr := a\<rparr>
           in if a = '''' \<or> a = ''none'' then Some (False, c')
              else (case fst (nl_init [] a (CHR '':'')) of
                      ip # port # _ \<Rightarrow> Some (True, c'\<lparr>cp_rpc := (port, ip)\<rparr>)
                    | _ \<Rightarrow> None)
      else Some (True, c))"

text \<open>The request and its answer.\<close>

definition cp_ask :: "network \<Rightarrow> string \<Rightarrow> net_component \<Rightarrow> string \<times> requests" where
  "cp_ask net request c = (net (fst (cp_rpc c)) (snd (cp_rpc c)) request, [(fst (cp_rpc c), snd (cp_rpc c), request)])"

definition cp_getValue :: "string \<Rightarrow> string \<Rightarrow> string" where
  "cp_getValue body word =
     (case str_find word body of
        None \<Rightarrow> ''''
      | Some pos \<Rightarrow> takeWhile (\<lambda>c. c \<noteq> CHR 0x22) (drop 1 (dropWhile (\<lambda>c. c \<noteq> CHR 0x22) (drop (pos + length word) body))))"

definition close_text :: "string \<Rightarrow> string" where
  "close_text line = line @ '' HTTP/1.1'' @ crlf @ ''Connection: close'' @ crlf @ crlf @ crlf @ crlf"

definition cp_sync :: "network \<Rightarrow> (string \<Rightarrow> string) \<Rightarrow> net_component \<Rightarrow> (bool \<times> net_component \<times> requests) option" where
  "cp_sync net ags c0 =
     (let getreq = mp_get_cat (cp_par c0) ''statusread'' ''cmd'';
          request = (if getreq = '''' then close_text (''GET /DynamicPage/'' @ mp_get (cp_par c0) ''name'' @ ''.xml'') else getreq)
      in do {
           (ok, c) \<leftarrow> mkAgentRPC ags c0;
           if \<not> ok then Some (False, c, [])
           else let (res, rs) = cp_ask net request c
                in if cp_getValue res (mp_get_cat (cp_par c) ''active'' ''answer'') = ''ON''
                   then Some (True, cp_with ''status'' (cp_getValue res (mp_get_cat (cp_par c) ''status'' ''answer'')) (cp_with ''active'' ''ON'' c), rs)
                   else Some (True, cp_with ''active'' ''OFF'' c, rs)
         })"

text \<open>The mode that \<open>active\<close> answers with is never set.\<close>

definition cp_active :: "network \<Rightarrow> (string \<Rightarrow> string) \<Rightarrow> net_component \<Rightarrow> (string \<times> net_component \<times> requests) option" where
  "cp_active net ags c = map_option (\<lambda>(ok, c', rs). ('''', c', rs)) (cp_sync net ags c)"

text \<open>A value is set in the component before its agent is asked; a failure makes the component inactive.\<close>

definition cp_setValue :: "network \<Rightarrow> (string \<Rightarrow> string) \<Rightarrow> string \<Rightarrow> net_component \<Rightarrow> (string \<times> net_component \<times> requests) option" where
  "cp_setValue net ags v c0 =
     (let c1 = cp_with ''status'' v c0;
          off = (\<lambda>c. c\<lparr>cp_par := mp_add (cp_par c) ''active'' ''OFF''\<rparr>);
          cmd = mp_get_cat (cp_par c1) v ''cmd''; answer = mp_get_cat (cp_par c1) v ''answer''
      in if mp_get (cp_par c1) ''active'' = ''OFF'' then Some (v, c1, [])
         else if cmd = '''' \<or> answer = '''' then Some (v, off c1, [])
         else do {
           (ok, c2) \<leftarrow> mkAgentRPC ags c1;
           if \<not> ok then Some (''status'', off c2, [])
           else let (res, rs) = cp_ask net (close_text (''POST '' @ cmd)) c2
                in Some (v, if str_contains res answer then c2 else cp_with ''active'' ''OFF'' c2, rs)
         })"

definition cp_getSubjects :: "net_component \<Rightarrow> mparams \<Rightarrow> mparams" where
  "cp_getSubjects c subj = mp_add_cat subj (cp_name c) ''subject'' ''cmd''"

definition cp_getObservations :: "net_component \<Rightarrow> mparams \<Rightarrow> mparams" where
  "cp_getObservations c obs = mp_add_cat obs (mp_get_cat (cp_par c) ''event'' ''generic'') ''observe'' ''event''"

subsection \<open>Devices\<close>

text \<open>A directory without a file of that name leaves the pointer to the automaton uninitialised: \<open>None\<close>.\<close>

record net_device =
  nd_name :: string
  nd_par :: mparams
  nd_components :: "net_component list"
  nd_control :: "mparams option"
  nd_cycle :: nat
  nd_turn :: nat
  nd_scount :: nat

fun load_components ::
  "file_store \<Rightarrow> string \<Rightarrow> string \<Rightarrow> string \<Rightarrow> string \<Rightarrow> string list \<Rightarrow> net_component list \<times> mparams option \<Rightarrow>
   (net_component list \<times> mparams option) option" where
  "load_components fs configdir homedir dir nm [] r = Some r"
| "load_components fs configdir homedir dir nm (f # files) (cs, ctl) =
     (let dname = getStem f
      in if dname = ''control''
         then do {
           (ok, p) \<leftarrow> mp_load fs (mp_new_dir configdir homedir dir dname);
           load_components fs configdir homedir dir nm files (cs, Some p)
         }
         else if dname \<noteq> nm \<and> dname \<noteq> ''''
         then do {
           c \<leftarrow> cp_new fs configdir homedir dir dname;
           load_components fs configdir homedir dir nm files (cs @ [c], ctl)
         }
         else load_components fs configdir homedir dir nm files (cs, ctl))"

definition nd_new ::
  "file_store \<Rightarrow> (string \<Rightarrow> directory) \<Rightarrow> string \<Rightarrow> string \<Rightarrow> string \<Rightarrow> string \<Rightarrow> net_device option" where
  "nd_new fs dirs configdir homedir dir nm =
     do {
       (ok, p) \<leftarrow> mp_load fs (mp_new_dir configdir homedir dir nm);
       (cs, ctl) \<leftarrow> load_components fs configdir homedir dir nm (snd (fileList (dirs (configdir @ ''/'' @ dir)))) ([], None);
       Some \<lparr>nd_name = nm, nd_par = p, nd_components = cs, nd_control = ctl, nd_cycle = 1, nd_turn = 0, nd_scount = 0\<rparr>
     }"

definition setSync :: "nat \<Rightarrow> nat \<Rightarrow> net_device \<Rightarrow> net_device" where
  "setSync n i d = d\<lparr>nd_cycle := n, nd_turn := i\<rparr>"

definition nd_status :: "net_device \<Rightarrow> string" where
  "nd_status d = fold (\<lambda>c s. (if s \<noteq> '''' then s @ ''+'' else s) @ cp_status c) (nd_components d) ''''"

text \<open>The texts of a status are stored and saved, one for each component, as far as there are both.\<close>

definition nd_setStatus :: "string \<Rightarrow> net_device \<Rightarrow> net_device \<times> effect list" where
  "nd_setStatus s d =
     (let st = fst (nl_init [] s (CHR ''+''));
          cs = map (\<lambda>(v, c). cp_with ''status'' v c) (zip st (nd_components d))
      in (d\<lparr>nd_components := cs @ drop (length st) (nd_components d)\<rparr>, map (\<lambda>c. SaveFile (mp_save (cp_par c))) cs))"

fun sync_all :: "network \<Rightarrow> (string \<Rightarrow> string) \<Rightarrow> net_component list \<Rightarrow> (net_component list \<times> requests) option" where
  "sync_all net ags [] = Some ([], [])"
| "sync_all net ags (c # cs) =
     do {
       (ok, c', rs) \<leftarrow> cp_sync net ags c;
       (cs', rs') \<leftarrow> sync_all net ags cs;
       Some (c' # cs', rs @ rs')
     }"

definition nd_sync :: "network \<Rightarrow> (string \<Rightarrow> string) \<Rightarrow> net_device \<Rightarrow> (bool \<times> net_device \<times> requests) option" where
  "nd_sync net ags d =
     (let n = nd_scount d + 1; k = (if n \<ge> nd_cycle d then 0 else n); d' = d\<lparr>nd_scount := k\<rparr>
      in if k \<noteq> nd_turn d then Some (False, d', [])
         else map_option (\<lambda>(cs, rs). (True, d'\<lparr>nd_components := cs\<rparr>, rs)) (sync_all net ags (nd_components d)))"

definition nd_publish :: "net_device \<Rightarrow> effect list" where
  "nd_publish d =
     [Publish (mp_get (nd_par d) ''name'') (''type='' @ quote @ ''target'' @ quote @ '' value='' @ quote @ nd_status d @ quote
        @ '' status='' @ quote @ mp_get_cat (nd_par d) ''active'' ''generic'' @ quote)]"

definition nd_eventNotify :: "double \<Rightarrow> net_device \<Rightarrow> effect list" where
  "nd_eventNotify now d =
     [Notify (m_add (m_add (m_new ''event'' (mp_get (nd_par d) ''eventname'')) ''value'' (nd_status d)) ''time'' (double2a now))]"

definition aggregateValue :: "string \<Rightarrow> string" where
  "aggregateValue value = map (\<lambda>c. if c = CHR '' '' then CHR ''+'' else c) value"

definition valueNormalize :: "string \<Rightarrow> string \<Rightarrow> string \<Rightarrow> string" where
  "valueNormalize ty subty v =
     (if ty = ''cmd'' then aggregateValue v
      else if ty = ''event'' \<and> take 2 subty = ''LS'' then ''ON'' else v)"

text \<open>The values of an action go to the components one by one; more values than components are out of range.\<close>

fun set_components ::
  "network \<Rightarrow> (string \<Rightarrow> string) \<Rightarrow> string list \<Rightarrow> net_component list \<Rightarrow> string \<Rightarrow> (string \<times> net_component list \<times> requests) option" where
  "set_components net ags [] cs next = Some (next, cs, [])"
| "set_components net ags (v # vs) [] next = None"
| "set_components net ags (v # vs) (c # cs) next =
     do {
       (res, c', rs) \<leftarrow> cp_setValue net ags v c;
       (next', cs', rs') \<leftarrow> set_components net ags vs cs ((if next \<noteq> '''' then next @ ''+'' else next) @ res);
       Some (next', c' # cs', rs @ rs')
     }"

definition nd_step ::
  "network \<Rightarrow> (string \<Rightarrow> string) \<Rightarrow> double \<Rightarrow> mmessage \<Rightarrow> net_device \<Rightarrow> (net_device \<times> effect list \<times> requests) option" where
  "nd_step net ags now msg d =
     (if mtype msg = ''trigger'' \<and> msubtype msg = ''sync''
      then do {
        (b, d', rs) \<leftarrow> nd_sync net ags d;
        Some (d', if nd_status d' \<noteq> nd_status d then nd_eventNotify now d' @ nd_publish d' else [], rs)
      }
      else do {
        ctl \<leftarrow> nd_control d;
        let v = valueNormalize (mtype msg) (msubtype msg) (m_getString msg ''value'');
        (next, cs, rs) \<leftarrow> set_components net ags (au_actions ctl (mtype msg) (msubtype msg) v (nd_status d)) (nd_components d) '''';
        let (d', saved) = nd_setStatus next (d\<lparr>nd_components := cs\<rparr>);
        Some (d', saved @ nd_eventNotify now d' @ nd_publish d'
                @ (if m_getString msg ''tag'' \<noteq> '''' then [RpcNotify (m_getString msg ''tag'') ''value'' (''value='' @ nd_status d')] else []), rs)
      })"

text \<open>\<open>obs\<close> and \<open>subj\<close> are what the configuration of the thread lists.\<close>

definition nd_getObservations :: "mparams \<Rightarrow> net_device \<Rightarrow> mparams option" where
  "nd_getObservations obs d =
     map_option (\<lambda>ctl. au_getObservations ctl (fold cp_getObservations (nd_components d) (mp_add_cat obs ''sync'' ''observe'' ''trigger''))) (nd_control d)"

definition nd_getSubjects :: "mparams \<Rightarrow> net_device \<Rightarrow> mparams" where
  "nd_getSubjects subj d =
     fold cp_getSubjects (nd_components d) (mp_add_cat subj (mp_get_cat (nd_par d) ''eventname'' ''generic'') ''subject'' ''event'')"

fun new_devices :: "(string \<Rightarrow> net_device option) \<Rightarrow> string list \<Rightarrow> (net_device list) option" where
  "new_devices new [] = Some []"
| "new_devices new (n # ns) = do { d \<leftarrow> new n; ds \<leftarrow> new_devices new ns; Some (d # ds) }"

definition net_mkDevices :: "file_store \<Rightarrow> (string \<Rightarrow> directory) \<Rightarrow> string \<Rightarrow> string \<Rightarrow> (net_device list) option" where
  "net_mkDevices fs dirs configdir homedir =
     do {
       ds \<leftarrow> new_devices (\<lambda>n. nd_new fs dirs configdir homedir (''devices/'' @ n) n) (snd (dirList (dirs (configdir @ ''/devices''))));
       Some (map (\<lambda>(i, d). setSync (length ds) i d) (enumerate 0 ds))
     }"

subsection \<open>A device follows its automaton\<close>

definition reached :: "(string \<Rightarrow> string) \<Rightarrow> net_component \<Rightarrow> bool" where
  "reached ags c \<longleftrightarrow> (case mkAgentRPC ags c of None \<Rightarrow> False | Some (ok, c') \<Rightarrow> ok)"

lemma cp_with_simps [simp]: "cp_addr (cp_with k v c) = cp_addr c" "cp_rpc (cp_with k v c) = cp_rpc c"
  by (simp_all add: cp_with_def)

lemma cp_with_status: "v \<noteq> '''' \<Longrightarrow> cp_status (cp_with ''status'' v c) = v"
  by (simp add: cp_status_def cp_with_def mp_get_cat_add_cat)

lemma cp_with_name: "v \<noteq> '''' \<Longrightarrow> k \<noteq> ''name'' \<Longrightarrow> mp_get (cp_par (cp_with k v c)) ''name'' = mp_get (cp_par c) ''name''"
  by (simp add: cp_with_def mp_get_as_cat mp_get_cat_add_cat)

lemma cp_with_add: "c\<lparr>cp_par := mp_add (cp_par c) k v\<rparr> = cp_with k v c"
  by (simp add: cp_with_def mp_add_as_cat)

lemma reached_cong:
  "cp_addr c' = cp_addr c \<Longrightarrow> mp_get (cp_par c') ''name'' = mp_get (cp_par c) ''name'' \<Longrightarrow> reached ags c' = reached ags c"
  by (auto simp: reached_def mkAgentRPC_def Let_def split: option.splits list.splits)

lemma reached_with [simp]: "v \<noteq> '''' \<Longrightarrow> k \<noteq> ''name'' \<Longrightarrow> reached ags (cp_with k v c) = reached ags c"
  by (rule reached_cong) (simp_all add: cp_with_name)

lemma mkAgentRPC_known: "cp_addr c \<noteq> '''' \<Longrightarrow> cp_addr c \<noteq> ''none'' \<Longrightarrow> mkAgentRPC ags c = Some (True, c)"
  by (simp add: mkAgentRPC_def)

lemma mkAgentRPC_addr:
  assumes "mkAgentRPC ags c = Some (True, c')"
  shows "cp_addr c' \<noteq> '''' \<and> cp_addr c' \<noteq> ''none''"
proof (cases "cp_addr c = '''' \<or> cp_addr c = ''none''")
  case True
  define a where "a = ags (mp_get (cp_par c) ''name'')"
  from assms True have "\<not> (a = '''' \<or> a = ''none'')"
    unfolding mkAgentRPC_def Let_def a_def [symmetric] by (cases "a = '''' \<or> a = ''none''") simp_all
  moreover from this assms True have "cp_addr c' = a"
    unfolding mkAgentRPC_def Let_def a_def [symmetric] by (simp split: list.splits) auto
  ultimately show ?thesis by simp
next
  case False
  with assms show ?thesis by (simp add: mkAgentRPC_known)
qed

lemma mkAgentRPC_reached:
  assumes "reached ags c"
  shows "\<exists>c'. mkAgentRPC ags c = Some (True, c') \<and> reached ags c'"
proof -
  from assms obtain c' where "mkAgentRPC ags c = Some (True, c')" by (auto simp: reached_def split: option.splits)
  moreover from mkAgentRPC_addr [OF this] have "reached ags c'" by (simp add: reached_def mkAgentRPC_known)
  ultimately show ?thesis by blast
qed

lemma cp_setValue_cases:
  assumes "mkAgentRPC ags (cp_with ''status'' v c) = Some (True, c2)"
  shows "\<exists>c' rs. cp_setValue net ags v c = Some (v, c', rs) \<and>
    c' \<in> {cp_with ''status'' v c, cp_with ''active'' ''OFF'' (cp_with ''status'' v c), c2, cp_with ''active'' ''OFF'' c2}"
proof -
  define c1 where "c1 = cp_with ''status'' v c"
  show ?thesis
    using assms unfolding cp_setValue_def Let_def cp_with_add c1_def [symmetric]
    by (cases "mp_get (cp_par c1) ''active'' = ''OFF''"; cases "mp_get_cat (cp_par c1) v ''cmd'' = '''' \<or> mp_get_cat (cp_par c1) v ''answer'' = ''''")
      (simp_all only: if_True if_False if_cancel Option.bind.simps prod.case simp_thms option.inject prod.inject case_prod_beta, auto)
qed

lemma cp_setValue_reached:
  assumes "reached ags c" and "v \<noteq> ''''"
  obtains c' rs where "cp_setValue net ags v c = Some (v, c', rs)" "reached ags c'"
proof -
  have r: "reached ags (cp_with ''status'' v c)" using assms by simp
  then obtain c2 where c2: "mkAgentRPC ags (cp_with ''status'' v c) = Some (True, c2)" "reached ags c2"
    using mkAgentRPC_reached by blast
  from cp_setValue_cases [OF c2(1), of net] obtain c' rs where "cp_setValue net ags v c = Some (v, c', rs)"
    "c' \<in> {cp_with ''status'' v c, cp_with ''active'' ''OFF'' (cp_with ''status'' v c), c2, cp_with ''active'' ''OFF'' c2}" by blast
  with r c2(2) that show thesis by force
qed

text \<open>The texts joined to \<open>s\<close>, the way the device builds its status.\<close>

definition status_join :: "string list \<Rightarrow> string \<Rightarrow> string" where
  "status_join vs s = fold (\<lambda>v s. (if s \<noteq> '''' then s @ ''+'' else s) @ v) vs s"

lemma status_join_simps [simp]:
  "status_join [] s = s" "status_join (v # vs) s = status_join vs ((if s \<noteq> '''' then s @ ''+'' else s) @ v)"
  by (simp_all add: status_join_def)

lemma join_names_Cons: "join_names d (x # xs) = x @ concat (map (Cons d) xs)"
  by (induction xs arbitrary: x) simp_all

lemma status_join_concat: "s \<noteq> [] \<Longrightarrow> status_join vs s = s @ concat (map (Cons (CHR ''+'')) vs)"
  by (induction vs arbitrary: s) simp_all

lemma status_join_empty: "'''' \<notin> set vs \<Longrightarrow> status_join vs '''' = join_names (CHR ''+'') vs"
  by (cases vs) (auto simp: status_join_concat join_names_Cons)

lemma nd_status_join: "nd_status d = status_join (map cp_status (nd_components d)) ''''"
  by (simp add: nd_status_def status_join_def fold_map comp_def)

lemma set_components_reached:
  "\<forall>c \<in> set cs. reached ags c \<Longrightarrow> length vs = length cs \<Longrightarrow> '''' \<notin> set vs \<Longrightarrow>
   \<exists>cs' rs. set_components net ags vs cs next = Some (status_join vs next, cs', rs) \<and> length cs' = length cs \<and> (\<forall>c \<in> set cs'. reached ags c)"
proof (induction vs arbitrary: cs "next")
  case (Cons v vs)
  then obtain c cs1 where cs: "cs = c # cs1" by (cases cs) auto
  with Cons.prems have "reached ags c" "v \<noteq> ''''" by auto
  then obtain c' rs where "cp_setValue net ags v c = Some (v, c', rs)" "reached ags c'"
    by (rule cp_setValue_reached)
  moreover have "\<exists>cs' rs. set_components net ags vs cs1 (if next \<noteq> '''' then next @ ''+'' @ v else v) =
      Some (status_join vs (if next \<noteq> '''' then next @ ''+'' @ v else v), cs', rs) \<and> length cs' = length cs1 \<and> (\<forall>c \<in> set cs'. reached ags c)"
    using Cons.prems cs by (intro Cons.IH) auto
  ultimately show ?case
    using cs by (cases "next = ''''") auto
qed simp

text \<open>Status texts that the device can split again.\<close>

definition status_texts :: "string list \<Rightarrow> bool" where
  "status_texts vs \<longleftrightarrow> vs \<noteq> [] \<and> '''' \<notin> set vs \<and> (\<forall>v \<in> set vs. CHR ''+'' \<notin> set v)"

lemma status_texts_init: "status_texts vs \<Longrightarrow> nl_init old (join_names (CHR ''+'') vs) (CHR ''+'') = (vs, True)"
  by (intro nl_init_join) (auto simp: status_texts_def dest: last_in_set)

lemma nd_setStatus_texts:
  assumes "status_texts vs" and "length vs = length (nd_components d)" and "\<forall>c \<in> set (nd_components d). reached ags c"
  shows "nd_status (fst (nd_setStatus (join_names (CHR ''+'') vs) d)) = join_names (CHR ''+'') vs"
    and "length (nd_components (fst (nd_setStatus (join_names (CHR ''+'') vs) d))) = length vs"
    and "\<forall>c \<in> set (nd_components (fst (nd_setStatus (join_names (CHR ''+'') vs) d))). reached ags c"
    and "nd_control (fst (nd_setStatus (join_names (CHR ''+'') vs) d)) = nd_control d"
proof -
  have c: "nd_components (fst (nd_setStatus (join_names (CHR ''+'') vs) d)) =
      map (\<lambda>(v, c). cp_with ''status'' v c) (zip vs (nd_components d))"
    using assms by (simp add: nd_setStatus_def status_texts_init)
  have "map cp_status (map (\<lambda>(v, c). cp_with ''status'' v c) (zip vs (nd_components d))) = vs"
    using assms by (auto intro!: nth_equalityI simp: status_texts_def in_set_conv_nth cp_with_status)
  with assms show "nd_status (fst (nd_setStatus (join_names (CHR ''+'') vs) d)) = join_names (CHR ''+'') vs"
    unfolding nd_status_join c by (simp add: status_join_empty status_texts_def)
  show "length (nd_components (fst (nd_setStatus (join_names (CHR ''+'') vs) d))) = length vs"
    unfolding c using assms by simp
  show "\<forall>c \<in> set (nd_components (fst (nd_setStatus (join_names (CHR ''+'') vs) d))). reached ags c"
  proof
    fix c1 assume "c1 \<in> set (nd_components (fst (nd_setStatus (join_names (CHR ''+'') vs) d)))"
    then obtain v c2 where "c1 = cp_with ''status'' v c2" "(v, c2) \<in> set (zip vs (nd_components d))" unfolding c by auto
    moreover from this have "v \<in> set vs" "c2 \<in> set (nd_components d)" by (auto dest: set_zip_leftD set_zip_rightD)
    moreover from this have "v \<noteq> ''''" using assms(1) by (auto simp: status_texts_def)
    ultimately show "reached ags c1" using assms(3) by simp
  qed
  show "nd_control (fst (nd_setStatus (join_names (CHR ''+'') vs) d)) = nd_control d"
    by (simp add: nd_setStatus_def Let_def)
qed

text \<open>A device whose agents are all known and that has a state of every component.\<close>

definition nd_ready :: "(string \<Rightarrow> string) \<Rightarrow> mparams \<Rightarrow> nat \<Rightarrow> net_device \<Rightarrow> bool" where
  "nd_ready ags ctl n d \<longleftrightarrow> nd_control d = Some ctl \<and> length (nd_components d) = n \<and> (\<forall>c \<in> set (nd_components d). reached ags c)"

text \<open>A message that switches the device on.\<close>

definition switches_on :: "mparams \<Rightarrow> mmessage \<Rightarrow> bool" where
  "switches_on ctl msg \<longleftrightarrow>
     \<not> (mtype msg = ''trigger'' \<and> msubtype msg = ''sync'') \<and> mp_get_cat ctl (mtype msg) ''trigger'' \<noteq> '''' \<and>
     valueNormalize (mtype msg) (msubtype msg) (m_getString msg ''value'') = ''ON''"

lemma au_actions_on: "mp_get_cat ctl ty ''trigger'' \<noteq> '''' \<Longrightarrow>
    au_actions ctl ty subty ''ON'' status = fst (nl_init [] (au_nextState ctl status) (CHR ''+''))"
  by (simp add: au_actions_def au_nextState_def nl_init_def split_names_no_delim)

text \<open>Switched on, the device goes to the state that the automaton gives for its present one, whatever the agents
  answer.\<close>

lemma nd_step_on:
  assumes ready: "nd_ready ags ctl n d" and on: "switches_on ctl msg"
    and st: "status_texts vs" "length vs = n" "au_nextState ctl (nd_status d) = join_names (CHR ''+'') vs"
  obtains d' es rs where "nd_step net ags now msg d = Some (d', es, rs)" "nd_status d' = join_names (CHR ''+'') vs" "nd_ready ags ctl n d'"
proof -
  have act: "au_actions ctl (mtype msg) (msubtype msg) ''ON'' (nd_status d) = vs"
    using on st by (simp add: switches_on_def au_actions_on status_texts_init)
  have "\<exists>cs rs. set_components net ags vs (nd_components d) '''' = Some (status_join vs '''', cs, rs)
      \<and> length cs = length (nd_components d) \<and> (\<forall>c \<in> set cs. reached ags c)"
    using ready st by (intro set_components_reached) (auto simp: nd_ready_def status_texts_def)
  then obtain cs rs where cs: "set_components net ags vs (nd_components d) '''' = Some (join_names (CHR ''+'') vs, cs, rs)"
      "length cs = n" "\<forall>c \<in> set cs. reached ags c"
    using ready st by (auto simp: status_join_empty status_texts_def nd_ready_def)
  define e where "e = nd_setStatus (join_names (CHR ''+'') vs) (d\<lparr>nd_components := cs\<rparr>)"
  have "length vs = length (nd_components (d\<lparr>nd_components := cs\<rparr>))"
    "\<forall>c \<in> set (nd_components (d\<lparr>nd_components := cs\<rparr>)). reached ags c" using st(2) cs(2,3) by simp_all
  note parts = nd_setStatus_texts [OF st(1) this, folded e_def]
  have e: "nd_status (fst e) = join_names (CHR ''+'') vs" by (rule parts(1))
  have e': "nd_ready ags ctl n (fst e)"
    unfolding nd_ready_def parts(2) st(2) using parts(3,4) ready by (simp add: nd_ready_def)
  from on have off: "\<not> (mtype msg = ''trigger'' \<and> msubtype msg = ''sync'')" unfolding switches_on_def by (rule conjunct1)
  from on have v: "valueNormalize (mtype msg) (msubtype msg) (m_getString msg ''value'') = ''ON''"
    unfolding switches_on_def by (elim conjE)
  from ready have ctl: "nd_control d = Some ctl" by (simp add: nd_ready_def)
  have "\<exists>es. nd_step net ags now msg d = Some (fst e, es, rs)"
    unfolding nd_step_def if_not_P [OF off] ctl v Let_def Option.bind.simps act cs(1) prod.case e_def case_prod_beta fst_conv snd_conv
    by (intro exI) (rule refl)
  then obtain es where "nd_step net ags now msg d = Some (fst e, es, rs)" ..
  then show thesis using e e' by (rule that)
qed

subsection \<open>Devices take turns\<close>

text \<open>Every address of an agent has an address and a port.\<close>

definition addresses_ok :: "(string \<Rightarrow> string) \<Rightarrow> bool" where
  "addresses_ok ags \<longleftrightarrow> (\<forall>n. ags n = '''' \<or> ags n = ''none'' \<or> length (fst (nl_init [] (ags n) (CHR '':''))) \<ge> 2)"

lemma mkAgentRPC_defined:
  assumes "addresses_ok ags"
  shows "mkAgentRPC ags c \<noteq> None"
proof -
  define l where "l = fst (nl_init [] (ags (mp_get (cp_par c) ''name'')) (CHR '':''))"
  from assms have l: "ags (mp_get (cp_par c) ''name'') = '''' \<or> ags (mp_get (cp_par c) ''name'') = ''none'' \<or> length l \<ge> 2"
    unfolding addresses_ok_def l_def by (rule spec)
  then show ?thesis
    unfolding mkAgentRPC_def Let_def l_def [symmetric] by (auto split: list.splits)
qed

lemma cp_sync_defined: "addresses_ok ags \<Longrightarrow> cp_sync net ags c \<noteq> None"
  using mkAgentRPC_defined [of ags c] by (auto simp: cp_sync_def Let_def split: bind_splits if_splits prod.splits)

lemma sync_all_defined: "addresses_ok ags \<Longrightarrow> sync_all net ags cs \<noteq> None"
  by (induction cs) (use cp_sync_defined [of ags net] in \<open>fastforce split: bind_splits prod.splits\<close>)+

text \<open>The results of a number of triggers, one after the other.\<close>

fun nd_syncs :: "network \<Rightarrow> (string \<Rightarrow> string) \<Rightarrow> nat \<Rightarrow> net_device \<Rightarrow> (bool list \<times> net_device) option" where
  "nd_syncs net ags 0 d = Some ([], d)"
| "nd_syncs net ags (Suc t) d =
     do { (b, d', rs) \<leftarrow> nd_sync net ags d; (bs, d'') \<leftarrow> nd_syncs net ags t d'; Some (b # bs, d'') }"

lemma nd_sync_turn:
  assumes "addresses_ok ags" and "nd_cycle d = N" and "nd_scount d < N"
  shows "\<exists>d' rs. nd_sync net ags d = Some ((nd_scount d + 1) mod N = nd_turn d, d', rs) \<and>
    nd_cycle d' = N \<and> nd_turn d' = nd_turn d \<and> nd_scount d' = (nd_scount d + 1) mod N"
proof -
  have k: "(if nd_scount d + 1 \<ge> nd_cycle d then 0 else nd_scount d + 1) = (nd_scount d + 1) mod N"
    using assms(2,3) by (cases "nd_scount d + 1 = N") auto
  obtain cs rs where "sync_all net ags (nd_components d) = Some (cs, rs)"
    using sync_all_defined [OF assms(1)] by fastforce
  then show ?thesis using assms(2) unfolding nd_sync_def Let_def k by simp
qed

lemma nd_syncs_turns:
  assumes "addresses_ok ags"
  shows "nd_cycle d = N \<Longrightarrow> nd_scount d < N \<Longrightarrow>
    \<exists>d'. nd_syncs net ags t d = Some (map (\<lambda>k. (nd_scount d + k + 1) mod N = nd_turn d) [0 ..< t], d')"
proof (induction t arbitrary: d)
  case (Suc t)
  obtain d1 rs where d1: "nd_sync net ags d = Some ((nd_scount d + 1) mod N = nd_turn d, d1, rs)"
    "nd_cycle d1 = N" "nd_turn d1 = nd_turn d" "nd_scount d1 = (nd_scount d + 1) mod N"
    using nd_sync_turn [OF assms Suc.prems] by blast
  with Suc.prems have "nd_scount d1 < N" by simp
  with Suc.IH [OF d1(2)] obtain d2 where
    d2: "nd_syncs net ags t d1 = Some (map (\<lambda>k. (nd_scount d1 + k + 1) mod N = nd_turn d1) [0 ..< t], d2)" by blast
  have shift: "Suc ((nd_scount d + 1) mod N + k) mod N = Suc (Suc (nd_scount d + k)) mod N" for k
    using mod_add_left_eq [of "nd_scount d + 1" N "k + 1"] by simp
  have "map (\<lambda>k. (nd_scount d1 + k + 1) mod N = nd_turn d1) [0 ..< t] =
      map (\<lambda>k. (nd_scount d + k + 1) mod N = nd_turn d) [1 ..< Suc t]"
    unfolding One_nat_def map_Suc_upt [symmetric] map_map comp_def d1(3,4)
    using shift by simp
  moreover have "[0 ..< Suc t] = 0 # [1 ..< Suc t]" by (simp add: upt_conv_Cons)
  ultimately show ?case using d1(1) d2 by (simp del: upt_Suc)
qed simp

lemma new_devices_inv: "new_devices new ns = Some ds \<Longrightarrow> \<forall>d \<in> set ds. \<exists>n. new n = Some d"
  by (induction ns arbitrary: ds) (fastforce split: bind_splits)+

lemma net_mkDevices_nth:
  assumes "net_mkDevices fs dirs configdir homedir = Some ds" and "i < length ds"
  shows "nd_cycle (ds ! i) = length ds \<and> nd_turn (ds ! i) = i \<and> nd_scount (ds ! i) = 0"
proof -
  obtain es where es: "new_devices (\<lambda>n. nd_new fs dirs configdir homedir (''devices/'' @ n) n) (snd (dirList (dirs (configdir @ ''/devices'')))) = Some es"
    "ds = map (\<lambda>(i, d). setSync (length es) i d) (enumerate 0 es)"
    using assms(1) by (auto simp: net_mkDevices_def split: bind_splits)
  then obtain n where "nd_new fs dirs configdir homedir (''devices/'' @ n) n = Some (es ! i)"
    using new_devices_inv [OF es(1)] assms(2) by (fastforce simp: set_conv_nth)
  then have "nd_scount (es ! i) = 0" unfolding nd_new_def by (auto split: bind_splits dest!: sym [of _ "es ! i"])
  then show ?thesis using es(2) assms(2) by (simp add: nth_enumerate_eq setSync_def)
qed

text \<open>C29: with N network devices every synchronisation trigger asks the agents of exactly one device, and each
  device gets its turn again after N triggers: device i does at the triggers i, i + N, i + 2 N and so on.\<close>

theorem devices_take_turns:
  assumes "net_mkDevices fs dirs configdir homedir = Some ds" and "i < length ds" and "addresses_ok ags"
  shows "\<exists>d'. nd_syncs net ags t (ds ! i) = Some (map (\<lambda>k. k mod length ds = i) [1 ..< Suc t], d')"
proof -
  have "map (\<lambda>k. (nd_scount (ds ! i) + k + 1) mod length ds = nd_turn (ds ! i)) [0 ..< t] =
      map (\<lambda>k. k mod length ds = i) [1 ..< Suc t]"
    unfolding One_nat_def map_Suc_upt [symmetric] map_map comp_def using net_mkDevices_nth [OF assms(1,2)] by simp
  with nd_syncs_turns [OF assms(3), of "ds ! i" "length ds" net t] net_mkDevices_nth [OF assms(1,2)] assms(2)
  show ?thesis by force
qed

lemma devices_take_turns_witness:
  "\<exists>ds d'. net_mkDevices (\<lambda>p. Missing)
      (\<lambda>p. if p = ''/c/devices'' then Some [(''LI_a'', True), (''LI_b'', True)]
           else if p = ''/c/devices/LI_a'' then Some [(''control.xml'', False), (''LI_1.xml'', False)] else None) ''/c'' ''/h'' = Some ds
    \<and> length ds = 2 \<and> nd_syncs (\<lambda>p a r. '''') (\<lambda>n. ''none'') 4 (ds ! 1) = Some ([True, False, True, False], d')"
proof -
  define dirs where "dirs = (\<lambda>p. if p = ''/c/devices'' then Some [(''LI_a'', True), (''LI_b'', True)]
     else if p = ''/c/devices/LI_a'' then Some [(''control.xml'', False), (''LI_1.xml'', False)] else None)"
  have "map_option length (net_mkDevices (\<lambda>p. Missing) dirs ''/c'' ''/h'') = Some 2"
    unfolding dirs_def by code_simp
  then obtain ds where ds: "net_mkDevices (\<lambda>p. Missing) dirs ''/c'' ''/h'' = Some ds" "length ds = 2" by auto
  have "addresses_ok (\<lambda>n. ''none'')" by (simp add: addresses_ok_def)
  from devices_take_turns [OF ds(1) _ this, of 1 "\<lambda>p a r. ''''" 4] ds(2)
  obtain d' where "nd_syncs (\<lambda>p a r. '''') (\<lambda>n. ''none'') 4 (ds ! 1) = Some (map (\<lambda>k. k mod 2 = 1) [1 ..< 5], d')" by auto
  moreover have "map (\<lambda>k. k mod 2 = 1) [1 ..< 5::nat] = [True, False, True, False]" by (simp add: upt_rec)
  ultimately show ?thesis using ds unfolding dirs_def by auto
qed

subsection \<open>What the device does otherwise\<close>

text \<open>A component whose agent is not known answers with the word \<open>status\<close>, which the device then stores as the state.\<close>

lemma unknown_agent_status:
  "map_option fst (cp_setValue (\<lambda>p a r. '''') (\<lambda>n. '''') ''ON''
     \<lparr>cp_par = \<lparr>pty = '''', ppath = '''', ppathh = '''', attrs = [ma_new ''ON'' ''cmd'' ''x'', ma_new ''ON'' ''answer'' ''y'']\<rparr>,
      cp_addr = '''', cp_rpc = ('''', '''')\<rparr>) = Some ''status''"
  by code_simp

text \<open>Without the file of the automaton its pointer is not initialised.\<close>

lemma no_control_file: "nd_control d = None \<Longrightarrow> mtype msg \<noteq> ''trigger'' \<Longrightarrow> nd_step net ags now msg d = None"
  by (simp add: nd_step_def)

lemma too_many_values: "length cs < length vs \<Longrightarrow> set_components net ags vs cs next = None"
proof (induction vs arbitrary: cs "next")
  case (Cons v vs)
  then show ?case by (cases cs) (auto split: bind_splits prod.splits)
qed simp

end
