(* ===== verification/Configurators.thy ===== *)
theory Configurators
  imports Net_Devices Rest_Server
begin

text \<open>
  The configurators of the agents: the names that the web service publishes
  (\<^verbatim>\<open>src/agents/minilibs/NameService.cpp\<close>), the configuration of rules and actions
  (\<^verbatim>\<open>src/agents/Manager/Configurator.cpp\<close>; the copy of \<^verbatim>\<open>Player\<close> differs in the switch actions), of
  network devices (\<^verbatim>\<open>src/agents/NetDevices/Configurator.cpp\<close>) and the installer
  (\<^verbatim>\<open>src/agents/MiniWWW/Configurator.cpp\<close>). They read templates and write files of the tree of directories; the
  removals that go through the shell are applied to the tree as well as listed. \<open>enabled\<close> is the result of
  \<^verbatim>\<open>checkConfigureEnabled\<close>; the end of the process is \<open>None\<close>.
\<close>

subsection \<open>Names that the web service publishes\<close>

definition ns_extractValue :: "string \<Rightarrow> string \<Rightarrow> string" where
  "ns_extractValue body keyword =
     (case str_find keyword body of
        None \<Rightarrow> ''''
      | Some pos \<Rightarrow>
          takeWhile (\<lambda>c. c \<noteq> CHR 0x22 \<and> c \<noteq> CHR '','')
            (drop 1 (dropWhile (\<lambda>c. c \<noteq> CHR 0x22) (dropWhile (\<lambda>c. c \<noteq> CHR ''='') (drop pos body)))))"

text \<open>The names that the search stops at, one after the other.\<close>

definition ns_wanted :: "string \<Rightarrow> string \<Rightarrow> string \<Rightarrow> bool" where
  "ns_wanted domain category name \<longleftrightarrow>
     (if domain = ''devices'' \<and> length name > 2 \<and> name ! 2 = CHR ''_''
      then category = '''' \<or> category = ''*'' \<or> category = take 2 name
      else domain \<noteq> ''devices'' \<and> (length name < 3 \<or> name ! 2 \<noteq> CHR ''_''))"

definition ns_found :: "string \<Rightarrow> string \<Rightarrow> string \<Rightarrow> string list" where
  "ns_found answer domain category =
     takeWhile (\<lambda>n. n \<noteq> '''') (filter (ns_wanted domain category) (map (\<lambda>t. ns_extractValue t ''name'') (item_tails answer)))"

definition add_new :: "string \<Rightarrow> string list \<Rightarrow> string list" where
  "add_new n l = (if n \<in> set l then l else l @ [n])"

text \<open>\<open>ws\<close> is the address of the web service, empty when none is known.\<close>

definition ns_ask :: "network \<Rightarrow> string \<Rightarrow> string \<Rightarrow> string option" where
  "ns_ask net ws request =
     (case fst (nl_init [] ws (CHR '':'')) of ip # port # _ \<Rightarrow> Some (net port ip request) | _ \<Rightarrow> None)"

definition ns_getNames :: "network \<Rightarrow> string \<Rightarrow> string \<Rightarrow> string \<Rightarrow> (string list) option" where
  "ns_getNames net ws domain category =
     (if ws = '''' then Some []
      else map_option (\<lambda>answer. fold add_new (ns_found answer (if domain = ''devices'' then domain else ''agents'') category) [])
             (ns_ask net ws (get_text ''/DynamicPage.xml'')))"

definition ns_checkName :: "network \<Rightarrow> string \<Rightarrow> string \<Rightarrow> bool option" where
  "ns_checkName net ws name =
     (if ws = '''' then Some False
      else map_option (\<lambda>answer. str_contains answer name) (ns_ask net ws (get_text (''/DynamicPage/'' @ name @ ''.xml''))))"

subsection \<open>Templates\<close>

record conf_env =
  ce_config :: string
  ce_home :: string
  ce_net :: network
  ce_ws :: string
  ce_xml :: "string \<Rightarrow> xnode list"

text \<open>Every field whose name begins with a dollar sign replaces its name as long as it is found.\<close>

fun fill_fields :: "(string \<times> string) list \<Rightarrow> string \<Rightarrow> string option" where
  "fill_fields [] text = Some text"
| "fill_fields ((k, v) # fs) text =
     (if k \<noteq> '''' \<and> hd k = CHR ''$'' then do { t \<leftarrow> strReplaceAll text k v; fill_fields fs t } else fill_fields fs text)"

definition field_texts :: "mmessage \<Rightarrow> (string \<times> string) list" where
  "field_texts m = map (\<lambda>(k, l). (k, m_getString m k)) (mfields m)"

text \<open>The text of a template; \<open>Some None\<close> when it cannot be opened.\<close>

definition read_template :: "string \<Rightarrow> fsnode \<Rightarrow> string option option" where
  "read_template file fs =
     (case open_in file fs of
        NotOpen \<Rightarrow> Some None
      | DirStream \<Rightarrow> None
      | TextStream x \<Rightarrow> Some (Some (takeWhile (\<lambda>c. c \<noteq> CHR 0x00) x)))"

definition conf_addBody :: "(string \<Rightarrow> xnode list) \<Rightarrow> mmessage \<Rightarrow> string \<Rightarrow> mmessage option" where
  "conf_addBody parse m body =
     (if isXmlstring body then map_option snd (m_xmlAppend (parse body) m)
      else if isHtml body then Some (m_htmlAppend body m)
      else Some (m_add m ''body'' body))"

definition item_name :: "mmessage \<Rightarrow> string" where
  "item_name m = (let n = m_getString m ''name'' in if n = '''' then m_getString m ''$NAME'' else n)"

text \<open>\<^verbatim>\<open>rm -f path*.xml\<close> for a path that ends with a slash.\<close>

definition rm_xml :: "string \<Rightarrow> fsnode \<Rightarrow> fsnode" where
  "rm_xml path fs =
     fold (\<lambda>f fs. snd (ft_deleteFile path f fs)) (filter (\<lambda>f. matchfile f ''.xml'') (snd (fileList (ft_entries path fs)))) fs"

fun reset_dirs :: "string list \<Rightarrow> fsnode \<Rightarrow> fsnode \<times> effect list" where
  "reset_dirs [] fs = (fs, [])"
| "reset_dirs (p # ps) fs =
     (if ft_isDir p fs then let (fs', es) = reset_dirs ps (rm_xml p fs) in (fs', Shell (''rm -f '' @ p @ ''*.xml'') # es)
      else reset_dirs ps fs)"

definition manifest_text :: "mmessage \<Rightarrow> string" where
  "manifest_text m = m_xmlPrint 1 m"

definition write_ignored :: "string \<Rightarrow> string \<Rightarrow> fsnode \<Rightarrow> fsnode" where
  "write_ignored p x fs = (case ft_write p x fs of None \<Rightarrow> fs | Some fs' \<Rightarrow> fs')"

subsection \<open>Rules and actions\<close>

record mg_conf =
  sensor_category :: string
  cmd_category :: string
  optcmd_category :: string
  ls_category :: string
  do_userprogrammable :: string
  devname :: "string list"
  cmdname :: "string list"
  optcmdname :: "string list"
  lsname :: "string list"

definition mg_new :: "mparams \<Rightarrow> mg_conf" where
  "mg_new p = \<lparr>sensor_category = mp_get p ''sensor_category'', cmd_category = mp_get p ''cmd_category'',
     optcmd_category = mp_get p ''optcmd_category'', ls_category = mp_get p ''ls_category'',
     do_userprogrammable = mp_get p ''do_userprogrammable'', devname = [], cmdname = [], optcmdname = [], lsname = []\<rparr>"

fun names_of_categories :: "conf_env \<Rightarrow> string list \<Rightarrow> (string list) option" where
  "names_of_categories E [] = Some []"
| "names_of_categories E (c # cs) =
     do { ns \<leftarrow> ns_getNames (ce_net E) (ce_ws E) ''devices'' c; ms \<leftarrow> names_of_categories E cs; Some (ns @ ms) }"

definition category_list :: "conf_env \<Rightarrow> string \<Rightarrow> (string list) option" where
  "category_list E cats = names_of_categories E (fst (nl_init [] cats (CHR ''+'')))"

definition saved_list :: "string \<Rightarrow> string list \<Rightarrow> effect" where
  "saved_list name l = SaveItemList name ''status'' (map (\<lambda>n. (n, ''ON'')) l)"

definition mg_mkDeviceLists :: "conf_env \<Rightarrow> mg_conf \<Rightarrow> (mg_conf \<times> effect list) option" where
  "mg_mkDeviceLists E C =
     do {
       devs \<leftarrow> category_list E (sensor_category C);
       cmds \<leftarrow> category_list E (cmd_category C);
       opts \<leftarrow> category_list E (optcmd_category C);
       ls \<leftarrow> category_list E (ls_category C);
       Some (C\<lparr>devname := devs, cmdname := cmds, optcmdname := opts, lsname := ls\<rparr>,
             [saved_list ''sensordevices'' devs, saved_list ''controldevices'' cmds, saved_list ''optcontroldevices'' opts,
              saved_list ''lsdevices'' ls])
     }"

text \<open>An item: its message, its directory below the configuration and its template.\<close>

type_synonym conf_item = "mmessage \<times> string \<times> string"

definition mg_mkItem :: "conf_env \<Rightarrow> conf_item \<Rightarrow> fsnode \<Rightarrow> (string \<times> fsnode) option" where
  "mg_mkItem E it fs =
     (let (m, path, temp) = it; name = item_name m
      in if name = '''' then Some (''Failed'', fs)
         else do {
           t \<leftarrow> read_template (ce_config E @ ''/templates/'' @ temp) fs;
           case t of
             None \<Rightarrow> Some (''Failed'', fs)
           | Some x \<Rightarrow> do {
               description \<leftarrow> fill_fields (field_texts m) x;
               Some (case ft_write (ce_config E @ ''/'' @ path @ ''/'' @ name @ ''.xml'') description fs of
                       None \<Rightarrow> (''Failed'', fs) | Some fs' \<Rightarrow> (''done'', fs'))
             }
         })"

fun mg_mkItems :: "conf_env \<Rightarrow> conf_item list \<Rightarrow> fsnode \<Rightarrow> fsnode option" where
  "mg_mkItems E [] fs = Some fs"
| "mg_mkItems E (i # is) fs = do { (r, fs') \<leftarrow> mg_mkItem E i fs; mg_mkItems E is fs' }"

definition action_msg :: "string \<Rightarrow> string \<Rightarrow> string \<Rightarrow> mmessage" where
  "action_msg name tgt v = m_add (m_add (m_add m_default ''$NAME'' name) ''$TARGET'' tgt) ''$VALUE'' v"

definition action_pair :: "string \<Rightarrow> mmessage \<times> mmessage" where
  "action_pair n =
     (let cat = take 2 n
      in if cat = ''SH'' then (action_msg (n @ ''_pup'') n ''UP'', action_msg (n @ ''_pdown'') n ''DOWN'')
         else if cat = ''LI'' then (action_msg (n @ ''_on'') n ''PON'', action_msg (n @ ''_off'') n ''POFF'')
         else (action_msg (n @ ''_on'') n ''ON'', action_msg (n @ ''_off'') n ''OFF''))"

text \<open>A light has a third action, that switches it.\<close>

definition action_items :: "string \<Rightarrow> bool \<Rightarrow> string \<Rightarrow> conf_item list" where
  "action_items path switch n =
     [(fst (action_pair n), path, ''action.xml''), (snd (action_pair n), path, ''action.xml'')]
     @ (if switch \<and> take 2 n = ''LI'' then [(action_msg (n @ ''_switch'') n ''ON'', path, ''action.xml'')] else [])"

definition mg_mkActions :: "mg_conf \<Rightarrow> conf_item list" where
  "mg_mkActions C = concat (map (action_items ''actions'' True) (cmdname C)) @ concat (map (action_items ''tr_actions'' False) (optcmdname C))"

definition pl_mkActions :: "mg_conf \<Rightarrow> conf_item list" where
  "pl_mkActions C = concat (map (action_items ''actions'' False) (cmdname C)) @ concat (map (action_items ''tr_actions'' False) (optcmdname C))"

definition mg_mkEventcounters :: "mg_conf \<Rightarrow> conf_item list" where
  "mg_mkEventcounters C =
     map (\<lambda>n. (m_add (m_add (m_add (m_add m_default ''$NAME'' n) ''$SOURCE'' n) ''$THRESHOLD'' ''1'') ''$DELAY'' ''0'',
               ''eventcounters'', ''eventcounter.xml'')) (devname C)"

definition mg_mkConditions :: "mg_conf \<Rightarrow> conf_item list" where
  "mg_mkConditions C =
     concat (map (\<lambda>n. let m = m_add (m_add m_default ''$NAME'' n) ''$SOURCE'' n
                      in [(m, ''conditions'', ''condition.xml''), (m, ''tr_conditions'', ''condition.xml'')]) (lsname C))"

definition mg_mkUserProgrammable :: "mg_conf \<Rightarrow> conf_item list" where
  "mg_mkUserProgrammable C =
     (if do_userprogrammable C \<noteq> ''YES'' then []
      else map (\<lambda>n. let sh = (take 2 n = ''SH'')
                    in (m_add (m_add (m_add (m_add m_default ''$NAME'' (CHR ''_'' # n)) ''$ALIAS'' n)
                          ''$SETACTION'' (n @ (if sh then ''_up'' else ''_on''))) ''$RESETACTION'' (n @ (if sh then ''_down'' else ''_off'')),
                        ''timedrules'', ''userprogrammable.xml'')) (optcmdname C))"

definition mg_mkTimedrules :: "conf_env \<Rightarrow> fsnode \<Rightarrow> fsnode option" where
  "mg_mkTimedrules E fs =
     (let copy = (\<lambda>f fs. if ft_isFile (ce_config E @ ''/templates/'' @ f) fs
                         then map_option snd (ft_copyFile (ce_config E @ ''/templates/'' @ f) (ce_config E @ ''/timedrules'') f fs)
                         else Some fs)
      in Option.bind (copy ''AUTOtriggered.xml'' fs) (copy ''MANUALtriggered.xml''))"

definition mg_reset_paths :: "conf_env \<Rightarrow> string list" where
  "mg_reset_paths E =
     map (\<lambda>d. ce_config E @ ''/'' @ d @ ''/'') [''actions'', ''tr_actions'', ''rules'', ''timedrules'', ''eventcounters'', ''conditions'', ''tr_conditions'', ''rulemanifest'']
     @ map (\<lambda>d. ce_home E @ ''/'' @ d @ ''/'') [''actions'', ''tr_actions'', ''rules'', ''timedrules'', ''eventcounters'', ''conditions'', ''tr_conditions'']"

definition mg_basicConf :: "conf_env \<Rightarrow> mg_conf \<Rightarrow> fsnode \<Rightarrow> (string \<times> mg_conf \<times> fsnode \<times> effect list) option" where
  "mg_basicConf E C fs0 =
     (let (fs1, es1) = reset_dirs (mg_reset_paths E) fs0
      in do {
           (C', es2) \<leftarrow> mg_mkDeviceLists E C;
           fs2 \<leftarrow> mg_mkItems E (mg_mkActions C' @ mg_mkEventcounters C' @ mg_mkConditions C') fs1;
           fs3 \<leftarrow> mg_mkTimedrules E fs2;
           fs4 \<leftarrow> mg_mkItems E (mg_mkUserProgrammable C') fs3;
           Some (''done'', C', fs4, es1 @ es2)
         })"

definition mg_mkManifest :: "conf_env \<Rightarrow> mmessage \<Rightarrow> fsnode \<Rightarrow> fsnode option" where
  "mg_mkManifest E m fs =
     (let dir = ce_config E @ ''/rulemanifest/''
      in do { fs1 \<leftarrow> ensure_dir dir fs; Some (write_ignored (dir @ m_getString m ''$NAME'' @ ''.xml'') (manifest_text m) fs1) })"

definition mg_deleteItem :: "conf_env \<Rightarrow> string \<Rightarrow> string \<Rightarrow> fsnode \<Rightarrow> string \<times> fsnode" where
  "mg_deleteItem E itemclass name fs =
     (if itemclass = ''rule''
      then (''done'', fold (\<lambda>d fs. snd (ft_deleteFile d (name @ ''.xml'') fs))
              [ce_config E @ ''/rulemanifest'', ce_config E @ ''/rules'', ce_home E @ ''/rules''] fs)
      else (''Failed'', fs))"

text \<open>The directory and the template of a request. The template of conditions has another name here than in the
  basic configuration.\<close>

definition mg_item_of :: "string \<Rightarrow> (string \<times> string) option" where
  "mg_item_of req = map_of [(''action'', (''actions'', ''action.xml'')), (''condition'', (''conditions'', ''conditions.xml'')),
     (''trcondition'', (''tr_conditions'', ''conditions.xml'')), (''eventcounter'', (''eventcounter'', ''eventcounter.xml'')),
     (''rule'', (''rules'', ''rule.xml'')), (''timedrule'', (''timedrules'', ''timedrule.xml''))] req"

definition mg_exec ::
  "conf_env \<Rightarrow> bool \<Rightarrow> string list \<Rightarrow> string \<Rightarrow> string \<Rightarrow> mg_conf \<Rightarrow> fsnode \<Rightarrow> (mmessage \<times> mg_conf \<times> fsnode \<times> effect list) option" where
  "mg_exec E enabled params method body C fs =
     (if \<not> enabled \<or> method \<noteq> ''configure'' then Some (with_body ''Not Found'', C, fs, [])
      else do {
        msg \<leftarrow> (if body \<noteq> '''' then conf_addBody (ce_xml E) m_default body else Some m_default);
        if params = [] then None
        else if last params = ''basic''
        then map_option (\<lambda>(r, C', fs', es). (with_body r, C', fs', es)) (mg_basicConf E C fs)
        else (case mg_item_of (last params) of
                Some (path, temp) \<Rightarrow> do {
                  (r, fs1) \<leftarrow> mg_mkItem E (msg, path, temp) fs;
                  fs2 \<leftarrow> (if last params = ''rule'' then mg_mkManifest E msg fs1 else Some fs1);
                  Some (with_body r, C, fs2, [])
                }
              | None \<Rightarrow>
                  if last params = ''reboot'' then None
                  else if length params = 3 \<and> params ! 0 = ''delete''
                  then let (r, fs1) = mg_deleteItem E (params ! 1) (last params) fs in Some (with_body r, C, fs1, [])
                  else Some (with_body '''', C, fs, []))
      })"

text \<open>The search for a keyword stops at its dollar sign and finds nothing.\<close>

definition mg_getKeyword :: "string \<Rightarrow> nat \<Rightarrow> (string \<times> nat option) option" where
  "mg_getKeyword src pos =
     (let r = dropWhile (\<lambda>c. c \<noteq> CHR ''$'') (drop pos src)
      in if r = '''' then Some ('''', None) else Some ('''', Some (length src - length r)))"

subsection \<open>Control of a device by its codes\<close>

text \<open>The array of codes is doubled: its mirror image follows it, then the two halves get their first value. The size is
  an \<^verbatim>\<open>int\<close>; from 31 components on it cannot be held, and without components the second code is out of range.\<close>

definition gray_double :: "string list \<Rightarrow> string list" where
  "gray_double g = map (\<lambda>c. ''OFF+'' @ c) g @ map (\<lambda>c. ''ON+'' @ c) (rev g)"

fun gray_loop :: "nat \<Rightarrow> string list \<Rightarrow> string list" where
  "gray_loop 0 g = g"
| "gray_loop (Suc k) g = gray_loop k (gray_double g)"

definition generateGrayCode :: "nat \<Rightarrow> (string list) option" where
  "generateGrayCode n = (if n = 0 \<or> n \<ge> 31 then None else Some (gray_loop (n - 1) [''OFF'', ''ON'']))"

text \<open>The pairs of a current and a next state.\<close>

definition control_pairs :: "string \<Rightarrow> nat \<Rightarrow> ((string \<times> string) list) option" where
  "control_pairs devtype n =
     (if devtype = ''onoff''
      then let off = join_with ''+'' (replicate n ''OFF''); on = join_with ''+'' (replicate n ''ON'') in Some [(off, on), (on, off)]
      else if devtype = ''cyclic''
      then map_option (\<lambda>gray. zip gray (tl gray @ [hd gray])) (generateGrayCode n)
      else Some [])"

definition control_line :: "string \<times> string \<Rightarrow> string" where
  "control_line p = ''<attribute name='' @ quote @ fst p @ quote @ '' category='' @ quote @ ''control'' @ quote @ '' value='' @ quote @ snd p @ quote @ ''/>''"

definition mkControl :: "string \<Rightarrow> string \<Rightarrow> nat \<Rightarrow> string option" where
  "mkControl ctempl devtype n =
     do {
       ps \<leftarrow> control_pairs devtype n;
       Some (if devtype = ''onoff'' \<or> devtype = ''cyclic''
             then fst (strReplace ctempl ''$CONTROL'' (join_with newline (map control_line ps))) else ctempl)
     }"

subsection \<open>Network devices\<close>

record nc_conf =
  nc_sensor_category :: string
  nc_cmd_category :: string
  componentname :: name_list

definition nc_new :: "mparams \<Rightarrow> nc_conf" where
  "nc_new p = \<lparr>nc_sensor_category = mp_get p ''sensor_category'', nc_cmd_category = mp_get p ''cmd_category'', componentname = []\<rparr>"

definition text_or :: "string \<Rightarrow> string \<Rightarrow> string" where
  "text_or x d = (if x = '''' then d else x)"

text \<open>One file for each component, with its name and its number.\<close>

fun component_files :: "conf_env \<Rightarrow> string \<Rightarrow> nat \<Rightarrow> name_list \<Rightarrow> fsnode \<Rightarrow> (string \<times> fsnode) option" where
  "component_files E devicepath i [] fs = Some (''done'', fs)"
| "component_files E devicepath i (c # cs) fs =
     do {
       t \<leftarrow> read_template (ce_config E @ ''/templates/component.xml'') fs;
       case t of
         None \<Rightarrow> Some (''Failed'', fs)
       | Some x \<Rightarrow> do {
           d \<leftarrow> strReplaceAll x ''$NAME'' c;
           component_files E devicepath (i + 1) cs
             (write_ignored (devicepath @ ''/'' @ c @ ''.xml'') (fst (strReplace d ''$ORDER'' (unsigned2a i))) fs)
         }
     }"

text \<open>The automaton and the components of a device. An empty list of components leaves the list of the last request.\<close>

definition nc_parts :: "conf_env \<Rightarrow> mmessage \<Rightarrow> string \<Rightarrow> string \<Rightarrow> nc_conf \<Rightarrow> fsnode \<Rightarrow> (string \<times> nc_conf \<times> fsnode) option" where
  "nc_parts E m devtype devicepath C fs =
     (let names = fst (nl_init (componentname C) (m_getString m ''$COMPONENT'') (CHR ''+'')); C' = C\<lparr>componentname := names\<rparr>
      in if names = [] then Some (''Failed'', C', fs)
         else do {
           t \<leftarrow> read_template (ce_config E @ ''/templates/control.xml'') fs;
           case t of
             None \<Rightarrow> Some (''Failed'', C', fs)
           | Some x \<Rightarrow> do {
               d \<leftarrow> fill_fields (field_texts m) x;
               control \<leftarrow> mkControl d devtype (length names);
               (r, fs') \<leftarrow> component_files E devicepath 0 names (write_ignored (devicepath @ ''/control.xml'') control fs);
               Some (r, C', fs')
             }
         })"

definition nc_mkItem :: "conf_env \<Rightarrow> mmessage \<Rightarrow> string \<Rightarrow> nc_conf \<Rightarrow> fsnode \<Rightarrow> (string \<times> nc_conf \<times> fsnode) option" where
  "nc_mkItem E m path C fs =
     (let name = item_name m; prefix_name = text_or (m_getString m ''$PREFIX'') ''LI'' @ ''_'' @ name;
          devtype = text_or (m_getString m ''$TYPE'') ''onoff'';
          dir = ce_config E @ ''/'' @ path; devicepath = dir @ ''/'' @ prefix_name
      in if name = '''' then Some (''Failed'', C, fs)
         else do {
           (b, fs1) \<leftarrow> ft_makeDir True dir fs;
           (b', fs2) \<leftarrow> ft_makeDir True devicepath fs1;
           t \<leftarrow> read_template (ce_config E @ ''/templates/device.xml'') fs2;
           case t of
             None \<Rightarrow> Some (''Failed'', C, fs2)
           | Some x \<Rightarrow>
               if ft_write (devicepath @ ''/'' @ prefix_name @ ''.xml'') '''' fs2 = None then Some (''Failed'', C, fs2)
               else do {
                 description \<leftarrow> fill_fields (field_texts m) x;
                 nc_parts E m devtype devicepath C (write_ignored (devicepath @ ''/'' @ prefix_name @ ''.xml'') description fs2)
               }
         })"

definition nc_mkManifest :: "conf_env \<Rightarrow> mmessage \<Rightarrow> fsnode \<Rightarrow> fsnode option" where
  "nc_mkManifest E m fs =
     (let dir = ce_config E @ ''/devicemanifest/''
      in do {
           fs1 \<leftarrow> ensure_dir dir fs;
           Some (write_ignored (dir @ m_getString m ''$PREFIX'' @ ''_'' @ m_getString m ''$NAME'' @ ''.xml'') (manifest_text m) fs1)
         })"

definition rm_tree :: "string \<Rightarrow> fsnode \<Rightarrow> fsnode" where
  "rm_tree p fs = (case canon p fs of None \<Rightarrow> fs | Some q \<Rightarrow> node_set q None fs)"

definition nc_deleteItem :: "conf_env \<Rightarrow> string \<Rightarrow> fsnode \<Rightarrow> string \<times> fsnode \<times> effect list" where
  "nc_deleteItem E name fs =
     (let pc = ce_config E @ ''/devices/'' @ name; ph = ce_home E @ ''/devices/'' @ name
      in if \<not> ft_isDir pc fs then (''Failed'', fs, [])
         else let fs1 = rm_tree pc (snd (ft_deleteFile (ce_config E @ ''/devicemanifest'') (name @ ''.xml'') fs));
                  es = [Shell (''/bin/rm -r '' @ pc)]
              in if \<not> ft_isDir ph fs1 then (''done'', fs1, es)
                 else (''done'', rm_tree ph fs1, es @ [Shell (''/bin/rm -r '' @ ph)]))"

definition nc_confReset :: "conf_env \<Rightarrow> fsnode \<Rightarrow> fsnode \<times> effect list" where
  "nc_confReset E = reset_dirs [ce_config E @ ''/rulemanifest/'', ce_home E @ ''/actions/'']"

definition nc_deviceList :: "conf_env \<Rightarrow> fsnode \<Rightarrow> string" where
  "nc_deviceList E fs = join_with ''+'' (snd (dirList (ft_entries (ce_config E @ ''/devices'') fs)))"

definition nc_exec ::
  "conf_env \<Rightarrow> bool \<Rightarrow> string list \<Rightarrow> string \<Rightarrow> string \<Rightarrow> nc_conf \<Rightarrow> fsnode \<Rightarrow> (mmessage \<times> nc_conf \<times> fsnode \<times> effect list) option" where
  "nc_exec E enabled params method body C fs =
     (if \<not> enabled \<or> method \<noteq> ''configure'' then Some (with_body ''Not Found'', C, fs, [])
      else do {
        msg \<leftarrow> (if body \<noteq> '''' then conf_addBody (ce_xml E) m_default body else Some m_default);
        if params = [] then None
        else if last params = ''adddevice'' then do {
          (r, C', fs1) \<leftarrow> nc_mkItem E msg ''devices'' C fs;
          fs2 \<leftarrow> nc_mkManifest E msg fs1;
          Some (with_body r, C', fs2, [])
        }
        else if last params = ''reboot'' then None
        else if length params = 3 \<and> params ! 1 = ''delete''
        then let (r, fs1, es) = nc_deleteItem E (last params) fs in Some (with_body r, C, fs1, es)
        else if last params = ''devicelist'' then Some (with_body (nc_deviceList E fs), C, fs, [])
        else if last params = ''componentlist'' then do {
          ns \<leftarrow> category_list E (nc_cmd_category C);
          Some (with_body (join_with ''+'' ns), C\<lparr>componentname := ns\<rparr>, fs, [])
        }
        else if last params = ''inputlist'' then do {
          ns \<leftarrow> category_list E (nc_sensor_category C);
          Some (with_body (join_with ''+'' ns), C, fs, [])
        }
        else Some (with_body '''', C, fs, [])
      })"

subsection \<open>Installation of agents\<close>

definition ft_rmdir :: "string \<Rightarrow> fsnode \<Rightarrow> bool \<times> fsnode" where
  "ft_rmdir p t =
     (case canon p t of
        Some q \<Rightarrow> if q \<noteq> [] \<and> node_at q t = Some (DirNode []) then (True, node_set q None t) else (False, t)
      | None \<Rightarrow> (False, t))"

text \<open>The entries are those of the directory when it is opened.\<close>

fun delete_node :: "string \<Rightarrow> fsnode \<Rightarrow> fsnode \<Rightarrow> bool \<times> fsnode"
  and delete_entries :: "string \<Rightarrow> (string \<times> fsnode) list \<Rightarrow> fsnode \<Rightarrow> bool \<times> fsnode" where
  "delete_node p (FileNode x) t = (False, t)"
| "delete_node p (DirNode es) t = (let (ok, t') = delete_entries p es t in if ok then ft_rmdir p t' else (False, t'))"
| "delete_entries p [] t = (True, t)"
| "delete_entries p ((n, FileNode x) # es) t = (let (ok, t') = ft_deleteFile p n t in if ok then delete_entries p es t' else (False, t'))"
| "delete_entries p ((n, DirNode ds) # es) t =
     (let (ok, t') = delete_node (p @ ''/'' @ n) (DirNode ds) t in if ok then delete_entries p es t' else (False, t'))"

definition ft_deleteDir :: "string \<Rightarrow> fsnode \<Rightarrow> bool \<times> fsnode" where
  "ft_deleteDir p t =
     (case Option.bind (canon p t) (\<lambda>q. node_at q t) of None \<Rightarrow> (False, t) | Some n \<Rightarrow> delete_node p n t)"

definition delete_agents :: "conf_env \<Rightarrow> fsnode \<Rightarrow> fsnode" where
  "delete_agents E fs =
     (let conf = getRoot (ce_config E)
      in fold (\<lambda>a fs. if a \<noteq> ''miniwww'' then snd (ft_deleteDir (conf @ ''/'' @ a) fs) else fs) (snd (dirList (ft_entries conf fs))) fs)"

definition copy_cmd :: "string \<Rightarrow> string \<Rightarrow> effect" where
  "copy_cmd src dst = Shell (''/bin/cp -r '' @ src @ '' '' @ dst)"

definition install_agent :: "string \<Rightarrow> string \<Rightarrow> string \<Rightarrow> effect list" where
  "install_agent configuration conf a =
     copy_cmd (configuration @ ''/'' @ a) (conf @ ''/'' @ getStem a)
     # (if a = ''wsserverws''
        then [copy_cmd (configuration @ ''/wspusher'') (conf @ ''/websocket''), copy_cmd (configuration @ ''/sshtunnel'') (conf @ ''/sshtunnel'')] else [])
     @ (if a = ''wsserver''
        then [copy_cmd (configuration @ ''/websocket'') (conf @ ''/websocket''), copy_cmd (configuration @ ''/sshtunnel'') (conf @ ''/sshtunnel'')] else [])"

definition installer :: "conf_env \<Rightarrow> mmessage \<Rightarrow> fsnode \<Rightarrow> bool \<times> fsnode \<times> effect list" where
  "installer E m fs =
     (case find (\<lambda>d. ft_isDir d fs) [''/home/horus/HAT/agents/CONFIGURATIONS'', ''/home/horus/CONFIGURATIONS'', ''/home/horus/agents/CONFIGURATIONS''] of
        None \<Rightarrow> (False, fs, [])
      | Some configuration \<Rightarrow>
          (True, delete_agents E fs,
           concat (map (install_agent configuration (getRoot (ce_config E))) (fst (nl_init [] (m_getString m ''agents'') (CHR ''+''))))))"

definition mw_doReset :: "conf_env \<Rightarrow> fsnode \<Rightarrow> fsnode \<times> effect list" where
  "mw_doReset E fs = (delete_agents E fs, [Shell ''/sbin/reboot''])"

definition mw_exec ::
  "conf_env \<Rightarrow> bool \<Rightarrow> string list \<Rightarrow> string \<Rightarrow> string \<Rightarrow> fsnode \<Rightarrow> (mmessage \<times> fsnode \<times> effect list) option" where
  "mw_exec E enabled params method body fs =
     (if \<not> enabled \<or> method \<noteq> ''configure'' then Some (with_body ''Not Found'', fs, [])
      else do {
        msg \<leftarrow> (if body \<noteq> '''' then conf_addBody (ce_xml E) m_default body else Some m_default);
        if params = [] then None
        else if last params = ''install''
        then let (ok, fs', es) = installer E msg fs in Some (with_body (if ok then ''done'' else ''Fail''), fs', es)
        else if last params = ''reset'' then let (fs', es) = mw_doReset E fs in Some (with_body ''done'', fs', es)
        else if last params = ''reboot'' then Some (with_body ''done'', fs, [Shell ''/sbin/reboot''])
        else Some (with_body '''', fs, [])
      })"

subsection \<open>All files of a directory\<close>

text \<open>The arguments of the two calls are in the wrong order: the directory stands for the file, the file for the new
  directory and the new directory for the new name.\<close>

fun each_file :: "(string \<Rightarrow> fsnode \<Rightarrow> (bool \<times> fsnode) option) \<Rightarrow> string list \<Rightarrow> fsnode \<Rightarrow> (bool \<times> fsnode) option" where
  "each_file f [] fs = Some (True, fs)"
| "each_file f (n # ns) fs = do { (ok, fs') \<leftarrow> f n fs; if ok then each_file f ns fs' else Some (False, fs') }"

definition files_with_ext :: "string \<Rightarrow> string \<Rightarrow> fsnode \<Rightarrow> (string list) option" where
  "files_with_ext dirpath fileext fs =
     (case ft_entries dirpath fs of
        None \<Rightarrow> None
      | Some es \<Rightarrow> Some (filter (\<lambda>n. fileext = '''' \<or> ft_isFile (dirpath @ ''/'' @ n) fs \<and> str_contains (dirpath @ ''/'' @ n) fileext)
                         (map fst (filter (\<lambda>(n, dir). \<not> dir) es))))"

definition ft_copyAllFile :: "string \<Rightarrow> string \<Rightarrow> string \<Rightarrow> fsnode \<Rightarrow> (bool \<times> fsnode) option" where
  "ft_copyAllFile dirpath new_dirpath fileext fs =
     (case files_with_ext dirpath fileext fs of
        None \<Rightarrow> Some (False, fs) | Some ns \<Rightarrow> each_file (\<lambda>n. ft_copyFile dirpath n new_dirpath) ns fs)"

definition ft_moveAllFile :: "string \<Rightarrow> string \<Rightarrow> string \<Rightarrow> fsnode \<Rightarrow> (bool \<times> fsnode) option" where
  "ft_moveAllFile dirpath new_dirpath fileext fs =
     (case files_with_ext dirpath fileext fs of
        None \<Rightarrow> Some (False, fs) | Some ns \<Rightarrow> each_file (\<lambda>n fs. Some (ft_moveFile dirpath n new_dirpath fs)) ns fs)"

subsection \<open>The codes of a cyclic device\<close>

text \<open>The reflected code, as lists of the states of the components.\<close>

fun gray_bits :: "nat \<Rightarrow> string list list" where
  "gray_bits 0 = [[]]"
| "gray_bits (Suc n) = map (Cons ''OFF'') (gray_bits n) @ map (Cons ''ON'') (rev (gray_bits n))"

definition differences :: "string list \<Rightarrow> string list \<Rightarrow> nat" where
  "differences a b = length (filter (\<lambda>(x, y). x \<noteq> y) (zip a b))"

lemma differences_simps [simp]:
  "differences [] b = 0" "differences (x # a) (y # b) = (if x = y then 0 else 1) + differences a b" "differences a a = 0"
  by (simp_all add: differences_def) (induction a; simp)

lemma length_gray_bits [simp]: "length (gray_bits n) = 2 ^ n"
  by (induction n) simp_all

lemma set_gray_bits: "set (gray_bits n) = {l. length l = n \<and> set l \<subseteq> {''OFF'', ''ON''}}"
proof (induction n)
  case (Suc n)
  have "l \<in> set (gray_bits (Suc n)) \<longleftrightarrow> length l = Suc n \<and> set l \<subseteq> {''OFF'', ''ON''}" for l
    by (cases l) (auto simp: Suc.IH)
  then show ?case by blast
qed auto

lemma gray_bits_not_Nil [simp]: "gray_bits n \<noteq> []"
  by (induction n) simp_all

lemma distinct_gray_bits: "distinct (gray_bits n)"
  by (induction n) (auto simp: distinct_map)

lemma hd_gray_bits: "hd (gray_bits n) = replicate n ''OFF''"
  by (induction n) (simp_all add: hd_append hd_map)

lemma last_gray_bits: "last (gray_bits (Suc n)) = ''ON'' # replicate n ''OFF''"
  by (simp add: last_map last_rev hd_gray_bits)

lemma successively_gray_bits: "successively (\<lambda>a b. differences a b = 1) (gray_bits n)"
proof (induction n)
  case (Suc n)
  have sym: "differences a b = differences b a" for a b
    by (simp add: differences_def zip_commute [of a b] filter_map comp_def case_prod_unfold eq_commute)
  from Suc show ?case
    by (simp add: successively_append_iff successively_map hd_map last_map hd_rev sym)
qed simp

lemma gray_neighbours:
  assumes "1 \<le> n" and "i < 2 ^ n"
  shows "differences (gray_bits n ! i) (gray_bits n ! ((i + 1) mod 2 ^ n)) = 1"
proof (cases "i + 1 < 2 ^ n")
  case True
  with successively_gray_bits [of n] show ?thesis by (simp add: successively_conv_nth)
next
  case False
  with assms(2) have "i + 1 = 2 ^ n" by simp
  then have i: "i = length (gray_bits n) - 1" "(i + 1) mod 2 ^ n = 0" by simp_all
  from assms(1) obtain m where "n = Suc m" by (cases n) auto
  then show ?thesis
    using last_gray_bits [of m] hd_gray_bits [of n] unfolding i
    by (simp del: gray_bits.simps add: last_conv_nth hd_conv_nth)
qed

abbreviation code_text :: "string list \<Rightarrow> string" where
  "code_text \<equiv> join_names (CHR ''+'')"

lemma code_text_Cons: "l \<noteq> [] \<Longrightarrow> code_text (x # l) = x @ ''+'' @ code_text l"
  by (cases l) simp_all

lemma gray_double_bits: "gray_double (map code_text (gray_bits (Suc n))) = map code_text (gray_bits (Suc (Suc n)))"
proof -
  have "l \<noteq> []" if "l \<in> set (gray_bits (Suc n))" for l
    using that by (auto simp: set_gray_bits simp del: gray_bits.simps)
  then show ?thesis
    by (subst (2) gray_bits.simps) (simp add: gray_double_def rev_map code_text_Cons del: gray_bits.simps)
qed

lemma gray_loop_bits: "gray_loop k (map code_text (gray_bits (Suc n))) = map code_text (gray_bits (Suc n + k))"
  by (induction k arbitrary: n) (simp_all add: gray_double_bits del: gray_bits.simps)

lemma generateGrayCode_bits: "1 \<le> n \<Longrightarrow> n \<le> 30 \<Longrightarrow> generateGrayCode n = Some (map code_text (gray_bits n))"
  using gray_loop_bits [of "n - 1" 0] by (auto simp: generateGrayCode_def)

text \<open>C28: the codes that the configurator writes for a cyclic device of n components are all the combinations of ON and
  OFF, each once, and from every code to the next one, also from the last one to the first, one component changes.\<close>

theorem gray_codes:
  assumes "1 \<le> n" and "n \<le> 30"
  shows "\<exists>g. generateGrayCode n = Some (map (join_names (CHR ''+'')) g) \<and> distinct g
    \<and> set g = {l. length l = n \<and> set l \<subseteq> {''OFF'', ''ON''}}
    \<and> (\<forall>i < length g. differences (g ! i) (g ! ((i + 1) mod length g)) = 1)"
  using generateGrayCode_bits [OF assms] distinct_gray_bits [of n] set_gray_bits [of n] gray_neighbours [OF assms(1)]
  by (intro exI [of _ "gray_bits n"]) (simp del: gray_bits.simps)

lemma gray_codes_witness:
  "\<exists>g. generateGrayCode 3 = Some (map (join_names (CHR ''+'')) g) \<and> distinct g
    \<and> set g = {l. length l = 3 \<and> set l \<subseteq> {''OFF'', ''ON''}}
    \<and> (\<forall>i < length g. differences (g ! i) (g ! ((i + 1) mod length g)) = 1)"
  by (rule gray_codes) simp_all

text \<open>The automaton has a line for every pair, after lines of other categories.\<close>

definition has_control :: "mparams \<Rightarrow> (string \<times> string) list \<Rightarrow> bool" where
  "has_control ctl ps \<longleftrightarrow>
     (\<exists>as bs. attrs ctl = as @ map (\<lambda>(c, x). ma_new c ''control'' x) ps @ bs \<and> list_all (\<lambda>a. ma_category a \<noteq> ''control'') as)"

lemma get_loop_pairs:
  "distinct (map fst ps) \<Longrightarrow> (c, x) \<in> set ps \<Longrightarrow> x \<noteq> '''' \<Longrightarrow>
   get_loop (key_is c ''control'') ma_value (map (\<lambda>(c, x). ma_new c ''control'' x) ps) = x"
proof (induction ps)
  case (Cons p ps)
  obtain b y where p: "p = (b, y)" by (cases p)
  with Cons.prems have "b = c \<Longrightarrow> y = x" by (auto simp: image_iff)
  moreover have "b \<noteq> c \<Longrightarrow> (c, x) \<in> set ps" using Cons.prems(2) p by auto
  ultimately show ?case
    using Cons.IH Cons.prems p by (cases "b = c") (simp_all add: ma_new_def)
qed simp

lemma has_control_next:
  assumes "has_control ctl ps" and "distinct (map fst ps)" and "(c, x) \<in> set ps" and "x \<noteq> ''''"
  shows "au_nextState ctl c = x"
proof -
  obtain as bs where "attrs ctl = as @ map (\<lambda>(c, x). ma_new c ''control'' x) ps @ bs"
    "\<forall>a \<in> set as. \<not> key_is c ''control'' a"
    using assms(1) by (auto simp: has_control_def list_all_iff)
  with get_loop_pairs [OF assms(2-4)] assms(4) show ?thesis
    by (simp add: au_nextState_def mp_get_cat_def get_loop_append get_loop_none)
qed

lemma gray_status_texts: "1 \<le> n \<Longrightarrow> l \<in> set (gray_bits n) \<Longrightarrow> status_texts l \<and> length l = n"
  by (auto simp: set_gray_bits status_texts_def)

lemma code_text_inj: "1 \<le> n \<Longrightarrow> inj_on code_text (set (gray_bits n))"
proof (rule inj_onI)
  fix a b assume ab: "1 \<le> n" "a \<in> set (gray_bits n)" "b \<in> set (gray_bits n)" "code_text a = code_text b"
  have read: "nl_init [] (code_text l) (CHR ''+'') = (l, True)" if "l \<in> set (gray_bits n)" for l
    using gray_status_texts [OF ab(1) that] by (intro status_texts_init) (rule conjunct1)
  have "(a, True) = (b, True)" unfolding read [OF ab(2), symmetric] read [OF ab(3), symmetric] ab(4) by (rule refl)
  then show "a = b" by (rule prod.inject [THEN iffD1, THEN conjunct1])
qed

lemma cyclic_next:
  assumes "1 \<le> n" "n \<le> 30" "control_pairs ''cyclic'' n = Some ps" "has_control ctl ps" "i < 2 ^ n"
  shows "au_nextState ctl (code_text (gray_bits n ! i)) = code_text (gray_bits n ! ((i + 1) mod 2 ^ n))"
proof (rule has_control_next [OF assms(4)])
  define g where "g = map code_text (gray_bits n)"
  have g: "length g = 2 ^ n" "g \<noteq> []" "distinct g" "g ! i = code_text (gray_bits n ! i)"
    "g ! ((i + 1) mod 2 ^ n) = code_text (gray_bits n ! ((i + 1) mod 2 ^ n))"
    using code_text_inj [OF assms(1)] distinct_gray_bits assms(5) by (simp_all add: g_def distinct_map)
  have ps: "ps = zip g (tl g @ [hd g])"
    using assms(3) by (simp add: control_pairs_def generateGrayCode_bits [OF assms(1,2)] g_def)
  with g show "distinct (map fst ps)" by simp
  have "(tl g @ [hd g]) ! i = g ! ((i + 1) mod 2 ^ n)"
  proof (cases "i + 1 < 2 ^ n")
    case True
    then have "i < 2 ^ n - 1" by simp
    with g(1) True show ?thesis by (simp add: nth_append nth_tl)
  next
    case False
    with assms(5) have "i + 1 = 2 ^ n" by simp
    moreover from this have "i = 2 ^ n - 1" by simp
    ultimately show ?thesis using g(1,2) by (simp add: nth_append hd_conv_nth)
  qed
  moreover have "ps ! i = (g ! i, (tl g @ [hd g]) ! i)" "i < length ps" using ps g(1,2) assms(5) by simp_all
  ultimately show "(code_text (gray_bits n ! i), code_text (gray_bits n ! ((i + 1) mod 2 ^ n))) \<in> set ps"
    using g(4,5) by (metis nth_mem)
  show "code_text (gray_bits n ! ((i + 1) mod 2 ^ n)) \<noteq> ''''"
    using gray_status_texts [OF assms(1), of "gray_bits n ! ((i + 1) mod 2 ^ n)"]
    by (cases "gray_bits n ! ((i + 1) mod 2 ^ n)" rule: list.exhaust) (auto simp: status_texts_def join_names_Cons)
qed

text \<open>The states of a device after each of the messages.\<close>

fun nd_states ::
  "network \<Rightarrow> (string \<Rightarrow> string) \<Rightarrow> (double \<times> mmessage) list \<Rightarrow> net_device \<Rightarrow> (string list) option" where
  "nd_states net ags [] d = Some []"
| "nd_states net ags ((now, msg) # ms) d =
     do { (d', es, rs) \<leftarrow> nd_step net ags now msg d; ss \<leftarrow> nd_states net ags ms d'; Some (nd_status d' # ss) }"

text \<open>C27: a cyclic device with the automaton of the configurator goes through the codes in their order, one code for
  every message that switches it on, and starts again after the last one, whatever its agents answer.\<close>

theorem cyclic_device:
  assumes "1 \<le> n" and "n \<le> 30" and "control_pairs ''cyclic'' n = Some ps" and "has_control ctl ps"
    and "\<forall>m \<in> set ms. switches_on ctl (snd m)"
  shows "nd_ready ags ctl n d \<Longrightarrow> i < 2 ^ n \<Longrightarrow> nd_status d = join_names (CHR ''+'') (gray_bits n ! i) \<Longrightarrow>
    nd_states net ags ms d = Some (map (\<lambda>k. join_names (CHR ''+'') (gray_bits n ! ((i + k) mod 2 ^ n))) [1 ..< Suc (length ms)])"
  using assms(5)
proof (induction ms arbitrary: d i)
  case (Cons m ms)
  obtain now msg where m: "m = (now, msg)" by (cases m)
  define j where "j = (i + 1) mod 2 ^ n"
  have "j < 2 ^ n" by (simp add: j_def)
  then have vs: "status_texts (gray_bits n ! j)" "length (gray_bits n ! j) = n" using gray_status_texts [OF assms(1)] by simp_all
  have "au_nextState ctl (nd_status d) = join_names (CHR ''+'') (gray_bits n ! j)"
    unfolding Cons.prems(3) j_def using cyclic_next [OF assms(1-4) Cons.prems(2)] .
  moreover have "switches_on ctl msg" using Cons.prems(4) m by simp
  ultimately obtain d1 es rs where d1: "nd_step net ags now msg d = Some (d1, es, rs)"
      "nd_status d1 = join_names (CHR ''+'') (gray_bits n ! j)" "nd_ready ags ctl n d1"
    using nd_step_on [OF Cons.prems(1) _ vs] by blast
  have "(j + k) mod 2 ^ n = (i + Suc k) mod 2 ^ n" for k
    unfolding j_def by (simp add: mod_simps)
  moreover have "map f [1 ..< Suc (length (m # ms))] = f 1 # map (\<lambda>k. f (Suc k)) [1 ..< Suc (length ms)]" for f :: "nat \<Rightarrow> string"
    unfolding One_nat_def map_Suc_upt [symmetric] map_map comp_def length_Cons by (subst upt_conv_Cons) (simp_all add: map_Suc_upt [symmetric] comp_def del: upt_Suc)
  ultimately show ?case
    using Cons.IH [OF d1(3) \<open>j < 2 ^ n\<close> d1(2)] Cons.prems(4) m d1(1,2) by (simp add: j_def del: upt_Suc)
qed simp

lemma cyclic_device_witness:
  "nd_states (\<lambda>p a r. '''') (\<lambda>n. '''')
     (replicate 4 (0, m_add (m_new ''event'' ''LS_1'') ''value'' ''1''))
     \<lparr>nd_name = ''LI_x'', nd_par = mp_default,
      nd_components = replicate 2 \<lparr>cp_par = mp_add_cat mp_default ''status'' ''generic'' ''OFF'', cp_addr = ''10.0.0.2:9000'', cp_rpc = (''9000'', ''10.0.0.2'')\<rparr>,
      nd_control = Some (mp_default\<lparr>attrs := [ma_new ''event'' ''trigger'' ''LS_1'', ma_new ''OFF+OFF'' ''control'' ''OFF+ON'',
        ma_new ''OFF+ON'' ''control'' ''ON+ON'', ma_new ''ON+ON'' ''control'' ''ON+OFF'', ma_new ''ON+OFF'' ''control'' ''OFF+OFF'']\<rparr>),
      nd_cycle = 1, nd_turn = 0, nd_scount = 0\<rparr>
   = Some [''OFF+ON'', ''ON+ON'', ''ON+OFF'', ''OFF+OFF'']"
proof -
  define ps :: "(string \<times> string) list"
    where "ps = [(''OFF+OFF'', ''OFF+ON''), (''OFF+ON'', ''ON+ON''), (''ON+ON'', ''ON+OFF''), (''ON+OFF'', ''OFF+OFF'')]"
  define ctl where "ctl = mp_default\<lparr>attrs := ma_new ''event'' ''trigger'' ''LS_1'' # map (\<lambda>(c, x). ma_new c ''control'' x) ps\<rparr>"
  define msg where "msg = m_add (m_new ''event'' ''LS_1'') ''value'' ''1''"
  define c where "c = \<lparr>cp_par = mp_add_cat mp_default ''status'' ''generic'' ''OFF'', cp_addr = ''10.0.0.2:9000'', cp_rpc = (''9000'', ''10.0.0.2'')\<rparr>"
  define d where "d = \<lparr>nd_name = ''LI_x'', nd_par = mp_default, nd_components = replicate 2 c, nd_control = Some ctl,
    nd_cycle = 1, nd_turn = 0, nd_scount = 0\<rparr>"
  have "control_pairs ''cyclic'' 2 = Some ps" unfolding ps_def by code_simp
  moreover have "has_control ctl ps"
    unfolding has_control_def ctl_def by (intro exI [of _ "[ma_new ''event'' ''trigger'' ''LS_1'']"] exI [of _ "[]"]) (simp add: ma_new_def)
  moreover have "switches_on ctl msg" unfolding switches_on_def ctl_def msg_def ps_def by code_simp
  then have "\<forall>m \<in> set (replicate 4 (0, msg)). switches_on ctl (snd m)" by simp
  moreover have "reached (\<lambda>n. '''') c" unfolding reached_def c_def by code_simp
  then have "nd_ready (\<lambda>n. '''') ctl 2 d" by (simp add: nd_ready_def d_def)
  moreover have "nd_status d = join_names (CHR ''+'') (gray_bits 2 ! 0)" unfolding d_def c_def by code_simp
  ultimately have "nd_states (\<lambda>p a r. '''') (\<lambda>n. '''') (replicate 4 (0, msg)) d =
      Some (map (\<lambda>k. join_names (CHR ''+'') (gray_bits 2 ! ((0 + k) mod 2 ^ 2))) [1 ..< Suc (length (replicate 4 (0 :: double, msg)))])"
    by (intro cyclic_device [where ps = ps and ctl = ctl]) simp_all
  also have "\<dots> = Some [''OFF+ON'', ''ON+ON'', ''ON+OFF'', ''OFF+OFF'']" unfolding length_replicate by code_simp
  finally show ?thesis unfolding d_def ctl_def msg_def c_def ps_def by simp
qed

subsection \<open>What the configurators do otherwise\<close>

text \<open>The template of a condition is \<open>conditions.xml\<close> in a request and \<open>condition.xml\<close> in the basic
  configuration; the event counters go to another directory.\<close>

lemma condition_templates:
  "mg_item_of ''condition'' = Some (''conditions'', ''conditions.xml'')"
  "map (snd \<circ> snd) (mg_mkConditions (C\<lparr>lsname := [n]\<rparr>)) = [''condition.xml'', ''condition.xml'']"
  "map_option fst (mg_item_of ''eventcounter'') = Some ''eventcounter''"
  "map (fst \<circ> snd) (mg_mkEventcounters (C\<lparr>devname := [n]\<rparr>)) = [''eventcounters'']"
  by (simp_all add: mg_item_of_def mg_mkConditions_def mg_mkEventcounters_def Let_def)

text \<open>The rules that users can program for shutters name actions that are not created.\<close>

lemma shutter_rule_actions:
  fixes C :: mg_conf
  defines "D \<equiv> C\<lparr>do_userprogrammable := ''YES'', optcmdname := [''SH_1''], cmdname := [''SH_1'']\<rparr>"
  shows "map (\<lambda>i. m_getString (fst i) ''$SETACTION'') (mg_mkUserProgrammable D) = [''SH_1_up'']"
    and "map (\<lambda>i. m_getString (fst i) ''$NAME'') (mg_mkActions D) = [''SH_1_pup'', ''SH_1_pdown'', ''SH_1_pup'', ''SH_1_pdown'']"
proof -
  have d: "do_userprogrammable D = ''YES''" "optcmdname D = [''SH_1'']" "cmdname D = [''SH_1'']" by (simp_all add: D_def)
  show "map (\<lambda>i. m_getString (fst i) ''$SETACTION'') (mg_mkUserProgrammable D) = [''SH_1_up'']"
    unfolding mg_mkUserProgrammable_def d by code_simp
  show "map (\<lambda>i. m_getString (fst i) ''$NAME'') (mg_mkActions D) = [''SH_1_pup'', ''SH_1_pdown'', ''SH_1_pup'', ''SH_1_pdown'']"
    unfolding mg_mkActions_def d by code_simp
qed

text \<open>A request without components builds the device with those of the last request.\<close>

lemma last_components:
  "m_getString m ''$COMPONENT'' = '''' \<Longrightarrow> componentname C \<noteq> [] \<Longrightarrow>
   read_template (ce_config E @ ''/templates/control.xml'') fs = Some (Some x) \<Longrightarrow> fill_fields (field_texts m) x = Some y \<Longrightarrow>
   nc_parts E m devtype p C fs =
     do { control \<leftarrow> mkControl y devtype (length (componentname C));
          (r, fs') \<leftarrow> component_files E p 0 (componentname C) (write_ignored (p @ ''/control.xml'') control fs);
          Some (r, C, fs') }"
  by (simp add: nc_parts_def nl_init_def Let_def)

text \<open>A file of the directory that is to be moved is not found: the directory itself is read as the file.\<close>

lemma moveAllFile_fails:
  assumes "files_with_ext d ext fs = Some (n # ns)"
  shows "ft_moveAllFile d new ext fs = Some (False, fs)"
proof -
  have "ft_entries d fs \<noteq> None" using assms by (auto simp: files_with_ext_def split: option.splits)
  then have "ft_read d fs = None"
    by (auto simp: ft_entries_def ft_read_def file_at_def split: option.splits fsnode.splits)
  with assms show ?thesis by (simp add: ft_moveAllFile_def ft_moveFile_def Let_def)
qed

end
