(* ===== verification/Push_Service.thy ===== *)
theory Push_Service
  imports Web_Logs
begin

text \<open>
  The push service of the web agent, \<^verbatim>\<open>src/agents/WSServer/PushConnection.cpp\<close> and
  \<^verbatim>\<open>PushThread.cpp\<close>: clients register for the events of devices over a socket, are asked periodically whether
  they are alive and get the events as lines of JSON. What a socket delivers is a list of reads, \<open>pe_write\<close> is the result
  of a write on a descriptor, \<open>pe_json\<close> the parser of libjson, where \<open>None\<close> is the exception it throws, \<open>pe_stamp\<close> the
  compact time and \<open>pe_junk\<close> a number that is not initialised. A text that does not fit into the buffer of a client, an uncaught exception and a failed read, whose
  length is taken for a positive number, are \<open>None\<close>. Opening the port is left out.
\<close>

subsection \<open>Reading from a client\<close>

text \<open>A read delivers a piece of text, empty when the other side has closed, or nothing in time, or it fails.\<close>

datatype read_step = Chunk string | Silent | ReadError

datatype jnode = JNode string string "jnode list"

primrec jnode_name :: "jnode \<Rightarrow> string" where "jnode_name (JNode n t cs) = n"
primrec jnode_text :: "jnode \<Rightarrow> string" where "jnode_text (JNode n t cs) = t"
primrec jnode_children :: "jnode \<Rightarrow> jnode list" where "jnode_children (JNode n t cs) = cs"

record push_env =
  pe_home :: string
  pe_stamp :: string
  pe_write :: "int \<Rightarrow> string \<Rightarrow> int"
  pe_json :: "string \<Rightarrow> jnode option"
  pe_junk :: double

record push_conn =
  pc_logfile :: string
  pc_logpush :: string
  pc_logevents :: name_list
  pc_fd :: int
  pc_events :: "(string, string) smap"
  pc_mode :: string
  pc_address :: string
  pc_port :: string
  pc_ttl :: int

definition max_buffer :: nat where "max_buffer = 65000"

text \<open>The rest of a piece after the end of the line is lost.\<close>

fun json_message :: "read_step list \<Rightarrow> string \<Rightarrow> (string \<times> bool \<times> read_step list) option" where
  "json_message [] msg = Some (msg, False, [])"
| "json_message (Silent # rs) msg = Some (msg, False, rs)"
| "json_message (ReadError # rs) msg = None"
| "json_message (Chunk s # rs) msg =
     (if s = '''' then Some (msg, False, rs)
      else let l = takeWhile (\<lambda>c. c \<noteq> CHR 0x0A) s
           in if CHR 0x0A \<in> set s then Some (msg @ l, True, rs) else json_message rs (msg @ l))"

definition getJsonMessage :: "int \<Rightarrow> read_step list \<Rightarrow> (string \<times> read_step list) option" where
  "getJsonMessage fd rs =
     (if fd \<le> 0 then Some ('''', rs) else map_option (\<lambda>(m, e, r). (if e then m else '''', r)) (json_message rs ''''))"

text \<open>The first value of every entry of the list of devices; an entry without one has no first value to read.\<close>

fun device_texts :: "jnode list \<Rightarrow> (string list) option" where
  "device_texts [] = Some []"
| "device_texts (d # ds) = (case jnode_children d of [] \<Rightarrow> None | v # vs \<Rightarrow> map_option (Cons (jnode_text v)) (device_texts ds))"

definition registered_names :: "jnode \<Rightarrow> (string list) option" where
  "registered_names n =
     (case find (\<lambda>k. jnode_name k = ''devices'') (jnode_children n) of None \<Rightarrow> Some [] | Some d \<Rightarrow> device_texts (jnode_children d))"

definition getRegistration :: "push_env \<Rightarrow> string \<Rightarrow> push_conn \<Rightarrow> push_conn option" where
  "getRegistration E msg c =
     (if msg = '''' then Some c
      else do {
        n \<leftarrow> pe_json E msg;
        names \<leftarrow> registered_names n;
        Some (c\<lparr>pc_events := fold (\<lambda>v. sm_put v ''*'') names []\<rparr>)
      })"

text \<open>The connection of a client and the one that writes the log; \<open>t\<close> and \<open>f\<close> are values that are not initialised.\<close>

definition pc_new_client :: "int \<Rightarrow> push_env \<Rightarrow> int \<Rightarrow> read_step list \<Rightarrow> (push_conn \<times> read_step list) option" where
  "pc_new_client t E fd rs =
     do {
       (msg, rs') \<leftarrow> getJsonMessage fd rs;
       c \<leftarrow> getRegistration E msg \<lparr>pc_logfile = '''', pc_logpush = '''', pc_logevents = [], pc_fd = fd, pc_events = [], pc_mode = ''*'',
                                  pc_address = '''', pc_port = '''', pc_ttl = t\<rparr>;
       Some (c, rs')
     }"

definition pc_new_log :: "int \<Rightarrow> int \<Rightarrow> push_env \<Rightarrow> string \<Rightarrow> string \<Rightarrow> fsnode \<Rightarrow> (push_conn \<times> fsnode) option" where
  "pc_new_log t f E file events fs =
     (let dir = pe_home E @ ''/logs/'' @ file
      in map_option (\<lambda>(b, fs'). (\<lparr>pc_logfile = dir @ ''/data'', pc_logpush = pe_home E @ ''/LOGPUSH'',
                                  pc_logevents = fst (nl_init [] events (CHR ''+'')), pc_fd = f, pc_events = [], pc_mode = '''',
                                  pc_address = '''', pc_port = '''', pc_ttl = t\<rparr>, fs'))
           (ft_makeDir True dir fs))"

definition describe :: "push_conn \<Rightarrow> string" where
  "describe c = ''<'' @ pc_address c @ '':'' @ pc_port c @ ''>['' @ concat (map (\<lambda>(k, v). k @ ''; '') (pc_events c)) @ '']''"

definition isRegistration :: "string \<Rightarrow> bool" where
  "isRegistration msg \<longleftrightarrow> str_contains msg ''devices''"

definition isIAA :: "string \<Rightarrow> bool" where
  "isIAA msg \<longleftrightarrow> str_contains msg ''IAA''"

definition aya_text :: string where
  "aya_text = ''{'' @ quote @ ''device'' @ quote @ '':{'' @ quote @ ''name'' @ quote @ '':'' @ quote @ ''AYA'' @ quote @ ''}}'' @ newline"

definition pc_AYAsend :: "push_env \<Rightarrow> push_conn \<Rightarrow> bool" where
  "pc_AYAsend E c \<longleftrightarrow> pe_write E (pc_fd c) aya_text > 0"

definition pc_IAAreceive :: "push_env \<Rightarrow> read_step list \<Rightarrow> push_conn \<Rightarrow> (bool \<times> push_conn) option" where
  "pc_IAAreceive E rs c =
     do {
       (msg, rs') \<leftarrow> getJsonMessage (pc_fd c) rs;
       if msg = '''' then Some (False, c)
       else if isRegistration msg then map_option (\<lambda>c'. (True, c')) (getRegistration E msg c)
       else Some (isIAA msg, c)
     }"

definition checkRegister :: "string \<Rightarrow> push_conn \<Rightarrow> bool" where
  "checkRegister name c \<longleftrightarrow>
     (case sm_find (pc_events c) name of None \<Rightarrow> False | Some v \<Rightarrow> pc_mode c = ''*'' \<or> pc_mode c = v)"

definition isToLog :: "string \<Rightarrow> push_conn \<Rightarrow> bool" where
  "isToLog event c \<longleftrightarrow> nl_member (pc_logevents c) ''all'' \<or> nl_member (pc_logevents c) event"

subsection \<open>Events\<close>

definition pc_remapDimmer :: "double \<Rightarrow> string \<Rightarrow> string" where
  "pc_remapDimmer u value =
     (let val = a2double u value
      in if val < 1 then ''0'' else if val > 91 then ''100'' else if val > 81 then ''90'' else if val > 71 then ''80''
         else if val > 61 then ''70'' else if val > 51 then ''60'' else if val > 41 then ''50'' else if val > 31 then ''40''
         else if val > 21 then ''30'' else if val > 11 then ''20'' else if val > 1 then ''10'' else ''0'')"

definition pc_convertValue :: "string \<Rightarrow> string" where
  "pc_convertValue v =
     fold (\<lambda>x res. (if res \<noteq> '''' then res @ ''+'' else res)
             @ (if x = ''ON'' \<or> x = ''1'' then ''true'' else if x = ''OFF'' \<or> x = ''0'' then ''false'' else x))
       (fst (nl_init [] v (CHR ''+''))) ''''"

text \<open>The line of the log for a message: its inner part with the time and the class in front.\<close>

definition push_log_text :: "string \<Rightarrow> string \<Rightarrow> string \<Rightarrow> string" where
  "push_log_text clk ty m =
     (let t = drop 3 m;
          t1 = (case str_find ''{'' t of None \<Rightarrow> t | Some i \<Rightarrow> drop (i + 1) t);
          t2 = (case str_find ''}'' t1 of None \<Rightarrow> '''' | Some i \<Rightarrow> take (i + 1) t1)
      in ''{'' @ quote @ ''time'' @ quote @ '':'' @ quote @ ''20'' @ clk @ quote @ '','' @ quote @ ''type'' @ quote @ '':'' @ quote @ ty @ quote @ '','' @ t2)"

definition pc_logMessage :: "push_env \<Rightarrow> string \<Rightarrow> string \<Rightarrow> string \<Rightarrow> fsnode \<Rightarrow> fsnode" where
  "pc_logMessage E ty m path fs = out_ignored True path (push_log_text (pe_stamp E) ty m) fs"

type_synonym sends = "(int \<times> string) list"

text \<open>The end that the four kinds of notification share: the result is the number that decides about success.\<close>

definition deliver ::
  "push_env \<Rightarrow> string \<Rightarrow> string \<Rightarrow> bool \<Rightarrow> bool \<Rightarrow> push_conn \<Rightarrow> fsnode \<Rightarrow> (int \<times> sends \<times> fsnode) option" where
  "deliver E cls msg tolog registered c fs =
     (let fs1 = (if pc_logpush c \<noteq> '''' then pc_logMessage E cls msg (pc_logpush c) fs else fs)
      in if pc_logfile c \<noteq> ''''
         then Some (if tolog then (1, [], pc_logMessage E cls msg (pc_logfile c) fs1) else (0, [], fs1))
         else if registered
         then if length msg \<ge> max_buffer then None else Some (pe_write E (pc_fd c) msg, [(pc_fd c, msg)], fs1)
         else Some (0, [], fs1))"

text \<open>A line of JSON with the pairs of one object.\<close>

definition json_pair :: "string \<times> string \<Rightarrow> string" where
  "json_pair p = quote @ fst p @ quote @ '':'' @ quote @ snd p @ quote"

definition push_line :: "(string \<times> string) list \<Rightarrow> string" where
  "push_line ps = ''{'' @ quote @ ''device'' @ quote @ '': {'' @ join_with '','' (map json_pair ps) @ ''}}'' @ newline"

definition notifyProgramChange :: "push_env \<Rightarrow> mmessage \<Rightarrow> push_conn \<Rightarrow> fsnode \<Rightarrow> (bool \<times> sends \<times> fsnode) option" where
  "notifyProgramChange E m c fs =
     (let cname = (if m_getString m ''source'' = '''' then m_getString m ''agent'' else m_getString m ''source'');
          msg = push_line [(''name'', cname), (''mode'', m_getString m ''status''), (''active'', m_getString m ''program_active'')]
      in map_option (\<lambda>(n, s, fs'). (n > 0, s, fs'))
           (deliver E (m_getString m ''class'') msg (isToLog (m_getString m ''class'') c) (checkRegister cname c) c fs))"

text \<open>Name and value of a device; \<open>None\<close> for the part of a feature that is no state. The label of the last branch of the
  switch is no \<^verbatim>\<open>default\<close>, so features of more than three parts pass.\<close>

definition push_value :: "double \<Rightarrow> string \<Rightarrow> string \<Rightarrow> string" where
  "push_value u dev value =
     (if dev \<in> set [''LI'', ''SO'', ''SA'', ''GA'', ''GV'', ''IR''] then pc_convertValue value
      else if dev = ''DI'' then pc_remapDimmer u value
      else if dev = ''SH'' \<and> value = ''UP'' then ''up''
      else if dev = ''SH'' \<and> value = ''DOWN'' then ''down''
      else if dev = ''SH'' \<and> value = ''OFF'' then ''off'' else value)"

definition device_state :: "double \<Rightarrow> string \<Rightarrow> string \<Rightarrow> ((string \<times> string) option) option" where
  "device_state u featurename value =
     (let namefull = fst (nl_init [] featurename (CHR ''_''))
      in case namefull of
           [] \<Rightarrow> None
         | [name] \<Rightarrow> Some (Some (''XX_'' @ name, value))
         | [dev, name, part] \<Rightarrow> Some (if part \<noteq> ''state'' then None else Some (dev @ ''_'' @ name, push_value u dev value))
         | dev # name # _ \<Rightarrow> Some (Some (dev @ ''_'' @ name, value)))"

definition notifyDeviceChange :: "push_env \<Rightarrow> mmessage \<Rightarrow> push_conn \<Rightarrow> fsnode \<Rightarrow> (bool \<times> sends \<times> fsnode) option" where
  "notifyDeviceChange E m c fs =
     do {
       st \<leftarrow> device_state (pe_junk E) (m_getString m ''feature'') (m_getString m ''value'');
       case st of
         None \<Rightarrow> Some (False, [], fs)
       | Some (cname, value) \<Rightarrow>
           let color = m_getString m ''color'';
               msg = push_line ([(''name'', cname), (''status'', value)] @ (if color = '''' then [] else [(''color'', color)]))
           in map_option (\<lambda>(n, s, fs'). (n > 0, s, fs'))
                (deliver E (m_getString m ''class'') msg (isToLog cname c) (sm_count (pc_events c) cname > 0) c fs)
     }"

text \<open>The counters of these two are unsigned: a failed write counts as success.\<close>

definition notifyAlarm :: "push_env \<Rightarrow> mmessage \<Rightarrow> push_conn \<Rightarrow> fsnode \<Rightarrow> (bool \<times> sends \<times> fsnode) option" where
  "notifyAlarm E m c fs =
     (let cname = m_getString m ''agentname'';
          msg = push_line [(''name'', cname), (''alarm'', m_getString m ''feature''), (''source'', m_getString m ''source''), (''video'', m_getString m ''video'')]
      in map_option (\<lambda>(n, s, fs'). (n \<noteq> 0, s, fs'))
           (deliver E (m_getString m ''class'') msg (isToLog (m_getString m ''class'') c) (checkRegister cname c) c fs))"

definition notifyCmdChange :: "push_env \<Rightarrow> mmessage \<Rightarrow> push_conn \<Rightarrow> fsnode \<Rightarrow> (bool \<times> sends \<times> fsnode) option" where
  "notifyCmdChange E m c fs =
     (let cname = m_getString m ''agentname''; action = m_getString m ''feature''; v = m_getString m ''value'';
          value = (if v = ''ON'' \<or> v = ''1'' then ''true'' else if v = ''OFF'' \<or> v = ''0'' then ''false'' else v);
          msg = push_line [(''name'', cname), (''action'', action), (''value'', value)]
      in if cname = ''Alarm'' then Some (False, [], fs)
         else map_option (\<lambda>(n, s, fs'). (n \<noteq> 0, s, fs'))
                (deliver E (m_getString m ''class'') msg (isToLog action c) (checkRegister cname c) c fs))"

definition pc_notifyEvent :: "push_env \<Rightarrow> mmessage \<Rightarrow> push_conn \<Rightarrow> fsnode \<Rightarrow> (bool \<times> sends \<times> fsnode) option" where
  "pc_notifyEvent E m c fs =
     (let cls = m_getString m ''class''; feature = m_getString m ''feature''
      in if mtype m = ''logcmd'' \<and> msubtype m = ''archive'' \<and> cls \<in> set [''event'', ''program'', ''cmd'', ''alarm'']
         then if feature = '''' then Some (False, [], fs)
              else if cls = ''alarm'' then notifyAlarm E m c fs
              else if feature = ''prgstatus'' then notifyProgramChange E m c fs
              else if cls = ''cmd'' then notifyCmdChange E m c fs
              else notifyDeviceChange E m c fs
         else Some (False, [], fs))"

subsection \<open>The push thread\<close>

record push_thread =
  pt_conns :: "push_conn list"
  pt_log :: push_conn
  pt_maxttl :: int
  pt_pollperiod :: int
  pt_port :: string
  pt_page :: mmessage

text \<open>The page is registered as XML and as HTML; it keeps the last language.\<close>

definition pt_register_page :: "mmessage \<Rightarrow> mmessage \<times> effect list" where
  "pt_register_page page =
     (let p1 = m_add page ''language'' ''xml''; p2 = m_add p1 ''language'' ''html''
      in (p2, [Page ''/PushService.xml'' p1, Page ''/PushService'' p2]))"

definition pt_mkStatusPage :: "string \<Rightarrow> mmessage \<Rightarrow> mmessage \<times> effect list" where
  "pt_mkStatusPage port page = pt_register_page (m_add page ''port'' port)"

definition pt_updateStatusPage :: "string \<Rightarrow> string \<Rightarrow> string \<Rightarrow> mmessage \<Rightarrow> mmessage \<times> effect list" where
  "pt_updateStatusPage today client mode page =
     pt_register_page (if mode = ''add'' then m_add page client today else snd (m_remove page client))"

text \<open>\<open>u\<close>, \<open>t\<close> and \<open>f\<close> are values that are not initialised; \<open>nparams\<close> is the file \<^verbatim>\<open>agentnet\<close>.\<close>

definition pt_new ::
  "int \<Rightarrow> int \<Rightarrow> int \<Rightarrow> push_env \<Rightarrow> mparams \<Rightarrow> mparams \<Rightarrow> fsnode \<Rightarrow> (push_thread \<times> fsnode \<times> effect list) option" where
  "pt_new u t f E params nparams fs =
     (let ttl = mp_get_cat params ''maxttl'' ''generic''; period = mp_get_cat params ''pollperiod'' ''generic'';
          port = int2a (a2int u (mp_get nparams ''port'') + 2);
          (page, es) = pt_mkStatusPage port (m_type ''PushService'')
      in map_option (\<lambda>(lc, fs'). (\<lparr>pt_conns = [], pt_log = lc, pt_maxttl = (if ttl \<noteq> '''' then a2int u ttl else 2),
                                   pt_pollperiod = (if period \<noteq> '''' then a2long u period else u), pt_port = port, pt_page = page\<rparr>, fs', es))
           (pc_new_log t f E (mp_get params ''logfile'') (mp_get params ''logevents'') fs))"

definition clientInsert :: "push_conn \<Rightarrow> push_thread \<Rightarrow> push_thread" where
  "clientInsert c T = T\<lparr>pt_conns := pt_conns T @ [c]\<rparr>"

text \<open>A client that connects: its descriptor, address and port, and what it sends.\<close>

definition pt_accept ::
  "int \<Rightarrow> push_env \<Rightarrow> string \<Rightarrow> int \<Rightarrow> nat \<Rightarrow> nat \<Rightarrow> read_step list \<Rightarrow> push_thread \<Rightarrow> (push_thread \<times> effect list) option" where
  "pt_accept t E today fd addr port rs T =
     do {
       (c, rs') \<leftarrow> pc_new_client t E fd rs;
       let c1 = c\<lparr>pc_address := unsigned2a addr, pc_port := unsigned2a port, pc_ttl := pt_maxttl T\<rparr>;
       let T1 = clientInsert c1 T;
       let (page, es) = pt_updateStatusPage today (describe (last (pt_conns T1))) ''add'' (pt_page T1);
       Some (T1\<lparr>pt_page := page\<rparr>, es)
     }"

definition aya_conn :: "push_env \<Rightarrow> (int \<Rightarrow> read_step list) \<Rightarrow> int \<Rightarrow> push_conn \<Rightarrow> push_conn option" where
  "aya_conn E rd maxttl c =
     (if \<not> pc_AYAsend E c then Some (c\<lparr>pc_ttl := -1\<rparr>)
      else map_option (\<lambda>(b, c'). c'\<lparr>pc_ttl := (if b then maxttl else pc_ttl c' - 1)\<rparr>) (pc_IAAreceive E (rd (pc_fd c)) c))"

fun aya_conns :: "push_env \<Rightarrow> (int \<Rightarrow> read_step list) \<Rightarrow> int \<Rightarrow> push_conn list \<Rightarrow> (push_conn list) option" where
  "aya_conns E rd maxttl [] = Some []"
| "aya_conns E rd maxttl (c # cs) =
     do { c' \<leftarrow> aya_conn E rd maxttl c; cs' \<leftarrow> aya_conns E rd maxttl cs; Some (c' # cs') }"

definition pt_AYAsend :: "push_env \<Rightarrow> (int \<Rightarrow> read_step list) \<Rightarrow> push_thread \<Rightarrow> push_thread option" where
  "pt_AYAsend E rd T = map_option (\<lambda>cs. T\<lparr>pt_conns := cs\<rparr>) (aya_conns E rd (pt_maxttl T) (pt_conns T))"

text \<open>Only the first expired client of a round is removed; its descriptor is closed.\<close>

fun take_expired :: "push_conn list \<Rightarrow> (push_conn \<times> push_conn list) option" where
  "take_expired [] = None"
| "take_expired (c # cs) = (if pc_ttl c \<le> 0 then Some (c, cs) else map_option (\<lambda>(d, ds). (d, c # ds)) (take_expired cs))"

definition clearExpired :: "string \<Rightarrow> push_thread \<Rightarrow> push_thread \<times> int list \<times> effect list" where
  "clearExpired today T =
     (case take_expired (pt_conns T) of
        None \<Rightarrow> (T, [], [])
      | Some (c, cs) \<Rightarrow>
          let (page, es) = pt_updateStatusPage today (describe c) ''delete'' (pt_page T)
          in (T\<lparr>pt_conns := cs, pt_page := page\<rparr>, [pc_fd c], es))"

definition pt_poll ::
  "push_env \<Rightarrow> string \<Rightarrow> (int \<Rightarrow> read_step list) \<Rightarrow> push_thread \<Rightarrow> (push_thread \<times> int list \<times> effect list) option" where
  "pt_poll E today rd T = map_option (clearExpired today) (pt_AYAsend E rd T)"

fun notify_conns :: "push_env \<Rightarrow> mmessage \<Rightarrow> push_conn list \<Rightarrow> fsnode \<Rightarrow> (sends \<times> fsnode) option" where
  "notify_conns E m [] fs = Some ([], fs)"
| "notify_conns E m (c # cs) fs =
     do { (b, s, fs1) \<leftarrow> pc_notifyEvent E m c fs; (s', fs2) \<leftarrow> notify_conns E m cs fs1; Some (s @ s', fs2) }"

definition pt_notifyEvent :: "push_env \<Rightarrow> mmessage \<Rightarrow> push_thread \<Rightarrow> fsnode \<Rightarrow> (sends \<times> fsnode) option" where
  "pt_notifyEvent E m T fs = notify_conns E m (pt_log T # pt_conns T) fs"

definition pt_signal :: "push_env \<Rightarrow> mmessage \<Rightarrow> push_thread \<Rightarrow> fsnode \<Rightarrow> (sends \<times> fsnode) option" where
  "pt_signal E m T fs = (if mtype m = ''logcmd'' \<and> msubtype m = ''archive'' then pt_notifyEvent E m T fs else Some ([], fs))"

subsection \<open>Clients that answer stay, the others leave\<close>

text \<open>Whether a client answers a poll; \<open>None\<close> when its answer ends the thread.\<close>

definition reg_ok :: "push_env \<Rightarrow> string \<Rightarrow> bool" where
  "reg_ok E msg \<longleftrightarrow> Option.bind (pe_json E msg) registered_names \<noteq> None"

definition poll_answer :: "push_env \<Rightarrow> (int \<Rightarrow> read_step list) \<Rightarrow> int \<Rightarrow> bool option" where
  "poll_answer E rd fd =
     (if pe_write E fd aya_text \<le> 0 then Some False
      else do {
        (msg, rs) \<leftarrow> getJsonMessage fd (rd fd);
        if msg = '''' then Some False
        else if isRegistration msg then (if reg_ok E msg then Some True else None)
        else Some (isIAA msg)
      })"

definition same_socket :: "push_conn \<Rightarrow> push_conn \<Rightarrow> bool" where
  "same_socket c' c \<longleftrightarrow> (\<exists>ev t. c' = c\<lparr>pc_events := ev, pc_ttl := t\<rparr>)"

lemma same_socketI [intro]: "same_socket (c\<lparr>pc_events := ev, pc_ttl := t\<rparr>) c"
  by (auto simp: same_socket_def)

lemma same_socket_ttl [intro]: "same_socket (c\<lparr>pc_ttl := t\<rparr>) c"
  unfolding same_socket_def by (intro exI [of _ "pc_events c"] exI [of _ t]) simp

lemma same_socketD:
  assumes "same_socket c' c"
  shows "pc_fd c' = pc_fd c" "pc_logfile c' = pc_logfile c" "pc_logpush c' = pc_logpush c" "pc_mode c' = pc_mode c"
  using assms by (auto simp: same_socket_def)

lemma getRegistration_ok:
  "reg_ok E msg \<Longrightarrow> msg \<noteq> '''' \<Longrightarrow> \<exists>ev. getRegistration E msg c = Some (c\<lparr>pc_events := ev\<rparr>)"
  by (auto simp: reg_ok_def getRegistration_def bind_eq_Some_conv)

lemma getRegistration_Some:
  "getRegistration E msg c = Some c' \<Longrightarrow> \<exists>ev. c' = c\<lparr>pc_events := ev\<rparr>"
  by (cases "msg = ''''") (auto simp: getRegistration_def intro: exI [of _ "pc_events c"] split: bind_splits)

lemma aya_conn_answer:
  assumes "poll_answer E rd (pc_fd c) = Some b"
  shows "\<exists>c'. aya_conn E rd M c = Some c' \<and> same_socket c' c \<and> pc_ttl c' \<le> (if b then M else max 0 (pc_ttl c - 1)) \<and> (b \<longrightarrow> pc_ttl c' = M)"
proof (cases "pe_write E (pc_fd c) aya_text \<le> 0")
  case True
  with assms show ?thesis by (auto simp: poll_answer_def aya_conn_def pc_AYAsend_def)
next
  case False
  with assms obtain msg rs where g: "getJsonMessage (pc_fd c) (rd (pc_fd c)) = Some (msg, rs)"
    "(if msg = '''' then Some False else if isRegistration msg then (if reg_ok E msg then Some True else None) else Some (isIAA msg)) = Some b"
    by (auto simp: poll_answer_def split: bind_splits)
  show ?thesis
  proof (cases "msg \<noteq> '''' \<and> isRegistration msg")
    case True
    with g have "b" "reg_ok E msg" by (auto split: if_splits)
    with True getRegistration_ok [of E msg c] g(1) False show ?thesis
      by (fastforce simp: aya_conn_def pc_AYAsend_def pc_IAAreceive_def)
  next
    case no: False
    with g have "pc_IAAreceive E (rd (pc_fd c)) c = Some (b, c)" by (auto simp: pc_IAAreceive_def split: if_splits)
    with False show ?thesis by (auto simp: aya_conn_def pc_AYAsend_def)
  qed
qed

lemma aya_conns_answers:
  assumes "\<forall>c \<in> set cs. poll_answer E rd (pc_fd c) = Some (live (pc_fd c))"
  shows "\<exists>cs'. aya_conns E rd M cs = Some cs' \<and> map pc_fd cs' = map pc_fd cs \<and>
    (\<forall>c \<in> set cs'. (live (pc_fd c) \<longrightarrow> pc_ttl c = M)) \<and>
    (\<forall>b. (\<forall>c \<in> set cs. \<not> live (pc_fd c) \<longrightarrow> pc_ttl c \<le> b) \<longrightarrow> (\<forall>c \<in> set cs'. \<not> live (pc_fd c) \<longrightarrow> pc_ttl c \<le> max 0 (b - 1)))"
  using assms
proof (induction cs)
  case (Cons c cs)
  then have "poll_answer E rd (pc_fd c) = Some (live (pc_fd c))" by simp
  from aya_conn_answer [OF this, of M] obtain c' where c1: "aya_conn E rd M c = Some c'" "same_socket c' c"
    "pc_ttl c' \<le> (if live (pc_fd c) then M else max 0 (pc_ttl c - 1))" "live (pc_fd c) \<longrightarrow> pc_ttl c' = M" by (elim exE conjE)
  then have c': "aya_conn E rd M c = Some c'" "pc_fd c' = pc_fd c" "live (pc_fd c) \<longrightarrow> pc_ttl c' = M"
    "\<not> live (pc_fd c) \<longrightarrow> pc_ttl c' \<le> max 0 (pc_ttl c - 1)"
    using same_socketD(1) [OF c1(2)] by (simp_all split: if_splits)
  have "\<forall>c \<in> set cs. poll_answer E rd (pc_fd c) = Some (live (pc_fd c))" using Cons.prems by simp
  from Cons.IH [OF this] obtain cs' where cs': "aya_conns E rd M cs = Some cs'" "map pc_fd cs' = map pc_fd cs"
    "\<forall>c \<in> set cs'. (live (pc_fd c) \<longrightarrow> pc_ttl c = M)"
    "\<forall>b. (\<forall>c \<in> set cs. \<not> live (pc_fd c) \<longrightarrow> pc_ttl c \<le> b) \<longrightarrow> (\<forall>c \<in> set cs'. \<not> live (pc_fd c) \<longrightarrow> pc_ttl c \<le> max 0 (b - 1))"
    by (elim exE conjE)
  have "\<forall>d \<in> set (c' # cs'). \<not> live (pc_fd d) \<longrightarrow> pc_ttl d \<le> max 0 (b - 1)"
    if b: "\<forall>d \<in> set (c # cs). \<not> live (pc_fd d) \<longrightarrow> pc_ttl d \<le> b" for b
  proof -
    from b have "\<not> live (pc_fd c) \<longrightarrow> pc_ttl c' \<le> max 0 (b - 1)" using c'(4) by (auto simp: max_def split: if_splits)
    moreover from b cs'(4) have "\<forall>d \<in> set cs'. \<not> live (pc_fd d) \<longrightarrow> pc_ttl d \<le> max 0 (b - 1)" by simp
    ultimately show ?thesis using c'(2) by simp
  qed
  moreover have "\<forall>d \<in> set (c' # cs'). live (pc_fd d) \<longrightarrow> pc_ttl d = M" using c'(2,3) cs'(3) by simp
  ultimately show ?case using c'(1,2) cs'(1,2) by (intro exI [of _ "c' # cs'"]) simp
qed simp

lemma take_expired_split:
  "take_expired cs = (case find (\<lambda>c. pc_ttl c \<le> 0) cs of None \<Rightarrow> None
     | Some c \<Rightarrow> Some (c, takeWhile (\<lambda>c. 0 < pc_ttl c) cs @ tl (dropWhile (\<lambda>c. 0 < pc_ttl c) cs)))"
  by (induction cs) (auto split: option.splits)

lemma take_expired_None: "take_expired cs = None \<longleftrightarrow> (\<forall>c \<in> set cs. 0 < pc_ttl c)"
  by (induction cs) auto

lemma take_expired_Some:
  "take_expired cs = Some (c, ds) \<Longrightarrow> \<exists>xs ys. cs = xs @ c # ys \<and> ds = xs @ ys \<and> pc_ttl c \<le> 0"
proof (induction cs arbitrary: ds)
  case (Cons d cs)
  show ?case
  proof (cases "pc_ttl d \<le> 0")
    case True
    with Cons.prems show ?thesis by (intro exI [of _ "[]"] exI [of _ cs]) auto
  next
    case False
    with Cons.prems obtain es where es: "take_expired cs = Some (c, es)" "ds = d # es" by auto
    from Cons.IH [OF es(1)] obtain xs ys where "cs = xs @ c # ys" "es = xs @ ys" "pc_ttl c \<le> 0" by blast
    with es(2) show ?thesis by (intro exI [of _ "d # xs"] exI [of _ ys]) auto
  qed
qed simp

text \<open>The descriptors of the clients and those that a number of rounds closes.\<close>

abbreviation pt_fds :: "push_thread \<Rightarrow> int list" where
  "pt_fds T \<equiv> map pc_fd (pt_conns T)"

fun pt_polls ::
  "push_env \<Rightarrow> (string \<times> (int \<Rightarrow> read_step list)) list \<Rightarrow> push_thread \<Rightarrow> (push_thread \<times> int list) option" where
  "pt_polls E [] T = Some (T, [])"
| "pt_polls E ((today, rd) # rs) T =
     do { (T1, ks, es) \<leftarrow> pt_poll E today rd T; (T2, ks') \<leftarrow> pt_polls E rs T1; Some (T2, ks @ ks') }"

abbreviation silent_count :: "(int \<Rightarrow> bool) \<Rightarrow> push_thread \<Rightarrow> nat" where
  "silent_count live T \<equiv> length (filter (\<lambda>fd. \<not> live fd) (pt_fds T))"

text \<open>One round: clients that answer stay in their order; one silent client may leave, and does so when all silent ones
  have run out of time.\<close>

lemma pt_poll_round:
  assumes ans: "\<forall>c \<in> set (pt_conns T). poll_answer E rd (pc_fd c) = Some (live (pc_fd c))" and ttl: "1 \<le> pt_maxttl T"
    and b: "\<forall>c \<in> set (pt_conns T). \<not> live (pc_fd c) \<longrightarrow> pc_ttl c \<le> int b"
  obtains T1 ks es where "pt_poll E today rd T = Some (T1, ks, es)" "pt_maxttl T1 = pt_maxttl T"
    "set (pt_fds T1) \<subseteq> set (pt_fds T)" "filter live (pt_fds T1) = filter live (pt_fds T)"
    "mset ks + mset (filter (\<lambda>fd. \<not> live fd) (pt_fds T1)) = mset (filter (\<lambda>fd. \<not> live fd) (pt_fds T))"
    "\<forall>c \<in> set (pt_conns T1). \<not> live (pc_fd c) \<longrightarrow> pc_ttl c \<le> int (b - 1)"
    "b \<le> 1 \<longrightarrow> silent_count live T1 \<le> silent_count live T - 1"
proof -
  obtain cs where cs: "aya_conns E rd (pt_maxttl T) (pt_conns T) = Some cs" "map pc_fd cs = pt_fds T"
    "\<forall>c \<in> set cs. live (pc_fd c) \<longrightarrow> pc_ttl c = pt_maxttl T" "\<forall>c \<in> set cs. \<not> live (pc_fd c) \<longrightarrow> pc_ttl c \<le> max 0 (int b - 1)"
    using aya_conns_answers [OF ans, of "pt_maxttl T"] b by blast
  have m: "max 0 (int b - 1) = int (b - 1)" by (cases b) simp_all
  show thesis
  proof (cases "take_expired cs")
    case None
    then have none: "b \<le> 1 \<longrightarrow> filter (\<lambda>fd. \<not> live fd) (map pc_fd cs) = []"
      using cs(4) by (force simp: take_expired_None filter_empty_conv)
    show thesis
      by (rule that [of "T\<lparr>pt_conns := cs\<rparr>" "[]" "[]"])
        (use None cs none m in \<open>auto simp: pt_poll_def pt_AYAsend_def clearExpired_def\<close>)
  next
    case (Some p)
    obtain c ds where p: "p = (c, ds)" by (cases p)
    with take_expired_Some [of cs c ds] Some obtain xs ys where x: "cs = xs @ c # ys" "ds = xs @ ys" "pc_ttl c \<le> 0" by auto
    with cs(3) ttl have dead: "\<not> live (pc_fd c)" by fastforce
    define page es where "page = fst (pt_updateStatusPage today (describe c) ''delete'' (pt_page T))"
      and "es = snd (pt_updateStatusPage today (describe c) ''delete'' (pt_page T))"
    have fds: "pt_fds T = map pc_fd xs @ pc_fd c # map pc_fd ys" using cs(2) x(1) by simp
    show thesis
      by (rule that [of "T\<lparr>pt_conns := ds, pt_page := page\<rparr>" "[pc_fd c]" es])
        (use Some p cs x(1,2) fds dead m in \<open>auto simp: pt_poll_def pt_AYAsend_def clearExpired_def page_def es_def case_prod_beta\<close>)
  qed
qed

text \<open>The bound goes down with every round until it is used up, then the number of silent clients does.\<close>

lemma pt_polls_leave:
  assumes "1 \<le> M"
  shows "pt_maxttl T = M \<Longrightarrow> \<forall>r \<in> set rounds. \<forall>fd \<in> set (pt_fds T). poll_answer E (snd r) fd = Some (live fd) \<Longrightarrow>
    \<forall>c \<in> set (pt_conns T). \<not> live (pc_fd c) \<longrightarrow> pc_ttl c \<le> int b \<Longrightarrow> b + silent_count live T \<le> length rounds \<Longrightarrow>
    \<exists>T' ks. pt_polls E rounds T = Some (T', ks) \<and> pt_fds T' = filter live (pt_fds T) \<and> mset ks = mset (filter (\<lambda>fd. \<not> live fd) (pt_fds T))"
proof (induction rounds arbitrary: T b)
  case Nil
  then have "filter (\<lambda>fd. \<not> live fd) (pt_fds T) = []" by (simp add: filter_map)
  then show ?case by (simp add: filter_empty_conv filter_id_conv)
next
  case (Cons r rounds)
  obtain today rd where r: "r = (today, rd)" by (cases r)
  have ans: "\<forall>c \<in> set (pt_conns T). poll_answer E rd (pc_fd c) = Some (live (pc_fd c))" using Cons.prems(2) r by simp
  obtain T1 ks es where T1: "pt_poll E today rd T = Some (T1, ks, es)" "pt_maxttl T1 = M"
    "set (pt_fds T1) \<subseteq> set (pt_fds T)" "filter live (pt_fds T1) = filter live (pt_fds T)"
    "mset ks + mset (filter (\<lambda>fd. \<not> live fd) (pt_fds T1)) = mset (filter (\<lambda>fd. \<not> live fd) (pt_fds T))"
    "\<forall>c \<in> set (pt_conns T1). \<not> live (pc_fd c) \<longrightarrow> pc_ttl c \<le> int (b - 1)"
    "b \<le> 1 \<longrightarrow> silent_count live T1 \<le> silent_count live T - 1"
    using pt_poll_round [OF ans _ Cons.prems(3)] assms Cons.prems(1) by metis
  have "silent_count live T1 \<le> silent_count live T"
    using arg_cong [OF T1(5), of size] unfolding size_union size_mset by linarith
  with T1(7) Cons.prems(4) have le: "b - 1 + silent_count live T1 \<le> length rounds" by (cases b) auto
  have "\<forall>r \<in> set rounds. \<forall>fd \<in> set (pt_fds T1). poll_answer E (snd r) fd = Some (live fd)"
  proof (intro ballI)
    fix r' fd assume "r' \<in> set rounds" "fd \<in> set (pt_fds T1)"
    with T1(3) have "r' \<in> set (r # rounds)" "fd \<in> set (pt_fds T)" by (simp, blast)
    with Cons.prems(2) show "poll_answer E (snd r') fd = Some (live fd)" by blast
  qed
  from Cons.IH [OF T1(2) this T1(6) le] obtain T' ks' where
    "pt_polls E rounds T1 = Some (T', ks')" "pt_fds T' = filter live (pt_fds T1)"
    "mset ks' = mset (filter (\<lambda>fd. \<not> live fd) (pt_fds T1))" by (elim exE conjE)
  with T1(1,4,5) r show ?case by (auto simp: union_commute)
qed

text \<open>C25: whatever the clients send, as long as each of them either answers every poll or none, the clients that answer
  stay connected in their order, and every other client is closed exactly once, after at most as many rounds as the time
  to live and the number of silent clients together.\<close>

theorem push_clients:
  assumes "1 \<le> pt_maxttl T" and "\<forall>c \<in> set (pt_conns T). pc_ttl c \<le> pt_maxttl T"
    and "\<forall>r \<in> set rounds. \<forall>c \<in> set (pt_conns T). poll_answer E (snd r) (pc_fd c) = Some (live (pc_fd c))"
    and "nat (pt_maxttl T) + length (filter (\<lambda>c. \<not> live (pc_fd c)) (pt_conns T)) \<le> length rounds"
  shows "\<exists>T' ks. pt_polls E rounds T = Some (T', ks) \<and>
    map pc_fd (pt_conns T') = filter live (map pc_fd (pt_conns T)) \<and>
    mset ks = mset (filter (\<lambda>fd. \<not> live fd) (map pc_fd (pt_conns T)))"
  using pt_polls_leave [OF assms(1) refl, of rounds E live "nat (pt_maxttl T)"] assms
  by (simp add: filter_map comp_def)

subsection \<open>Events reach the clients that registered for them\<close>

text \<open>Name, key of the log and fields of the line that a message becomes.\<close>

definition push_of :: "double \<Rightarrow> mmessage \<Rightarrow> (string \<times> string \<times> (string \<times> string) list) option" where
  "push_of u m =
     (let cls = m_getString m ''class''; feature = m_getString m ''feature''; value = m_getString m ''value'';
          agent = m_getString m ''agentname''
      in if \<not> (mtype m = ''logcmd'' \<and> msubtype m = ''archive'' \<and> cls \<in> set [''event'', ''program'', ''cmd'', ''alarm'']) \<or> feature = '''' then None
         else if cls = ''alarm''
         then Some (agent, cls, [(''name'', agent), (''alarm'', feature), (''source'', m_getString m ''source''), (''video'', m_getString m ''video'')])
         else if feature = ''prgstatus''
         then let n = (if m_getString m ''source'' = '''' then m_getString m ''agent'' else m_getString m ''source'')
              in Some (n, cls, [(''name'', n), (''mode'', m_getString m ''status''), (''active'', m_getString m ''program_active'')])
         else if cls = ''cmd''
         then if agent = ''Alarm'' then None
              else Some (agent, feature, [(''name'', agent), (''action'', feature),
                (''value'', if value = ''ON'' \<or> value = ''1'' then ''true'' else if value = ''OFF'' \<or> value = ''0'' then ''false'' else value)])
         else (case device_state u feature value of
                 Some (Some (n, v)) \<Rightarrow> Some (n, n, [(''name'', n), (''status'', v)] @ (if m_getString m ''color'' = '''' then [] else [(''color'', m_getString m ''color'')]))
               | _ \<Rightarrow> None))"

definition client_ok :: "push_conn \<Rightarrow> bool" where
  "client_ok c \<longleftrightarrow> pc_logfile c = '''' \<and> pc_logpush c = '''' \<and> pc_mode c = ''*''"

definition has_registered :: "string \<Rightarrow> push_conn \<Rightarrow> bool" where
  "has_registered n c \<longleftrightarrow> n \<in> fst ` set (pc_events c)"

text \<open>What the log connection does with a line.\<close>

definition log_line :: "push_env \<Rightarrow> string \<Rightarrow> string \<Rightarrow> string \<Rightarrow> push_conn \<Rightarrow> fsnode \<Rightarrow> fsnode" where
  "log_line E cls key line c fs =
     (let fs1 = pc_logMessage E cls line (pc_logpush c) fs in if isToLog key c then pc_logMessage E cls line (pc_logfile c) fs1 else fs1)"

lemma split_names_not_Nil: "s \<noteq> [] \<Longrightarrow> split_names d s \<noteq> []"
  by (subst split_names.simps) (simp split: option.splits)

lemma device_state_defined: "f \<noteq> '''' \<Longrightarrow> device_state u f v \<noteq> None"
  using split_names_not_Nil [of f "CHR ''_''"]
  by (auto simp: device_state_def nl_init_def Let_def split: list.splits)

lemma checkRegister_client: "client_ok c \<Longrightarrow> checkRegister n c = has_registered n c"
  by (auto simp: checkRegister_def client_ok_def has_registered_def sm_find_None split: option.splits)
    (metis option.distinct(1) sm_find_None)

text \<open>Every kind of notification is the delivery of the line.\<close>

lemma notify_is_deliver:
  assumes "\<And>n. checkRegister n c = has_registered n c \<or> pc_logfile c \<noteq> ''''"
  shows "pc_notifyEvent E m c fs =
    (case push_of (pe_junk E) m of
       None \<Rightarrow> Some (False, [], fs)
     | Some (n, k, ps) \<Rightarrow>
         map_option (\<lambda>(i, s, fs'). (if m_getString m ''class'' = ''alarm'' \<or> m_getString m ''feature'' \<noteq> ''prgstatus'' \<and> m_getString m ''class'' = ''cmd'' then i \<noteq> 0 else i > 0, s, fs'))
           (deliver E (m_getString m ''class'') (push_line ps) (isToLog k c) (has_registered n c) c fs))"
proof -
  have d: "deliver E cls x b (checkRegister n c) c fs = deliver E cls x b (has_registered n c) c fs" for cls x b n
    using assms [of n] by (auto simp: deliver_def Let_def)
  show ?thesis
  proof (cases "mtype m = ''logcmd'' \<and> msubtype m = ''archive'' \<and> m_getString m ''class'' \<in> set [''event'', ''program'', ''cmd'', ''alarm''] \<and> m_getString m ''feature'' \<noteq> ''''")
    case False
    then show ?thesis unfolding pc_notifyEvent_def push_of_def Let_def by (auto simp del: set_simps)
  next
    case True
    define cls f where "cls = m_getString m ''class''" and "f = m_getString m ''feature''"
    consider "cls = ''alarm''" | "cls \<noteq> ''alarm''" "f = ''prgstatus''" | "cls \<noteq> ''alarm''" "f \<noteq> ''prgstatus''" "cls = ''cmd''"
      | "cls \<noteq> ''alarm''" "f \<noteq> ''prgstatus''" "cls \<noteq> ''cmd''" by blast
    then show ?thesis
    proof cases
      case 4
      have "device_state (pe_junk E) f (m_getString m ''value'') \<noteq> None" using True device_state_defined by (simp add: f_def)
      then obtain y where "device_state (pe_junk E) f (m_getString m ''value'') = Some y" by blast
      with True 4 show ?thesis
        unfolding pc_notifyEvent_def push_of_def Let_def cls_def [symmetric] f_def [symmetric] notifyDeviceChange_def
        by (cases y) (auto simp: has_registered_def simp del: set_simps)
    qed (use True in \<open>simp add: pc_notifyEvent_def push_of_def Let_def cls_def f_def notifyAlarm_def notifyProgramChange_def notifyCmdChange_def d del: set_simps\<close>)+
  qed
qed

text \<open>The steps of the three loops of the thread: a client connects, a round of polls, a message.\<close>

datatype push_step =
    Accept int string int nat nat "read_step list"
  | Round string "int \<Rightarrow> read_step list"
  | Signal mmessage

fun push_run :: "push_env \<Rightarrow> push_step list \<Rightarrow> push_thread \<Rightarrow> fsnode \<Rightarrow> (push_thread \<times> fsnode) option" where
  "push_run E [] T fs = Some (T, fs)"
| "push_run E (Accept t today fd addr port rs # ss) T fs =
     do { (T1, es) \<leftarrow> pt_accept t E today fd addr port rs T; push_run E ss T1 fs }"
| "push_run E (Round today rd # ss) T fs = do { (T1, ks, es) \<leftarrow> pt_poll E today rd T; push_run E ss T1 fs }"
| "push_run E (Signal m # ss) T fs = do { (s, fs1) \<leftarrow> pt_signal E m T fs; push_run E ss T fs1 }"

definition pt_ok :: "push_thread \<Rightarrow> bool" where
  "pt_ok T \<longleftrightarrow> pc_logfile (pt_log T) \<noteq> '''' \<and> pc_logpush (pt_log T) \<noteq> '''' \<and> (\<forall>c \<in> set (pt_conns T). client_ok c)"

lemma client_ok_update [simp]:
  "client_ok (c\<lparr>pc_events := ev\<rparr>) = client_ok c" "client_ok (c\<lparr>pc_ttl := t\<rparr>) = client_ok c"
  "client_ok (c\<lparr>pc_address := a\<rparr>) = client_ok c" "client_ok (c\<lparr>pc_port := p\<rparr>) = client_ok c"
  by (simp_all add: client_ok_def)

lemma getRegistration_client: "getRegistration E msg c = Some c' \<Longrightarrow> client_ok c' = client_ok c"
  by (auto dest!: getRegistration_Some)

lemma pc_new_client_ok: "pc_new_client t E fd rs = Some (c, rs') \<Longrightarrow> client_ok c"
  by (auto simp: pc_new_client_def client_ok_def dest!: getRegistration_Some split: bind_splits)

lemma pt_accept_ok:
  assumes "pt_ok T" and "pt_accept t E today fd addr port rs T = Some (T1, es)"
  shows "pt_ok T1"
proof -
  obtain c rs' where c: "pc_new_client t E fd rs = Some (c, rs')" using assms(2) by (auto simp: pt_accept_def split: bind_splits)
  define d where "d = c\<lparr>pc_address := unsigned2a addr, pc_port := unsigned2a port, pc_ttl := pt_maxttl T\<rparr>"
  have "pt_conns T1 = pt_conns T @ [d]" "pt_log T1 = pt_log T"
    using assms(2) c unfolding pt_accept_def d_def by (auto simp: clientInsert_def Let_def case_prod_beta)
  moreover have "client_ok d" using pc_new_client_ok [OF c] by (simp add: d_def)
  ultimately show ?thesis using assms(1) by (auto simp: pt_ok_def)
qed

lemma aya_conn_client: "aya_conn E rd M c = Some c' \<Longrightarrow> client_ok c' = client_ok c"
  by (auto simp: aya_conn_def pc_IAAreceive_def dest: getRegistration_client split: if_splits bind_splits)

lemma aya_conns_client: "aya_conns E rd M cs = Some cs' \<Longrightarrow> \<forall>c \<in> set cs. client_ok c \<Longrightarrow> \<forall>c \<in> set cs'. client_ok c"
  by (induction cs arbitrary: cs') (auto dest: aya_conn_client split: bind_splits)

lemma pt_poll_ok:
  assumes "pt_ok T" and "pt_poll E today rd T = Some (T1, ks, es)"
  shows "pt_ok T1"
proof -
  obtain cs where cs: "aya_conns E rd (pt_maxttl T) (pt_conns T) = Some cs" "(T1, ks, es) = clearExpired today (T\<lparr>pt_conns := cs\<rparr>)"
    using assms(2) by (auto simp: pt_poll_def pt_AYAsend_def)
  then have ok: "\<forall>c \<in> set cs. client_ok c" using aya_conns_client assms(1) by (auto simp: pt_ok_def)
  show ?thesis
  proof (cases "take_expired cs")
    case None
    with cs(2) ok assms(1) show ?thesis by (simp add: clearExpired_def pt_ok_def)
  next
    case (Some p)
    obtain c ds where p: "p = (c, ds)" by (cases p)
    then have "set ds \<subseteq> set cs" using Some take_expired_Some [of cs c ds] by auto
    moreover have "pt_conns T1 = ds" "pt_log T1 = pt_log T" using cs(2) Some p by (simp_all add: clearExpired_def case_prod_beta)
    ultimately show ?thesis using ok assms(1) by (auto simp: pt_ok_def)
  qed
qed

lemma push_run_ok: "push_run E ss T fs = Some (T', fs') \<Longrightarrow> pt_ok T \<Longrightarrow> pt_ok T'"
proof (induction E ss T fs rule: push_run.induct)
  case (2 E t today fd addr port rs ss T fs)
  then show ?case using pt_accept_ok by (fastforce split: bind_splits)
next
  case (3 E today rd ss T fs)
  then show ?case using pt_poll_ok by (fastforce split: bind_splits)
qed (auto split: bind_splits)

lemma pt_new_ok: "pt_new u t f E params nparams fs = Some (T, fs', es) \<Longrightarrow> pt_ok T"
  by (auto simp: pt_new_def pt_ok_def pc_new_log_def Let_def case_prod_beta)

lemma pc_notify_client:
  assumes "client_ok c"
  shows "push_of (pe_junk E) m = Some (n, k, ps) \<Longrightarrow> length (push_line ps) < max_buffer \<Longrightarrow>
      \<exists>b. pc_notifyEvent E m c fs = Some (b, if has_registered n c then [(pc_fd c, push_line ps)] else [], fs)"
    and "push_of (pe_junk E) m = None \<Longrightarrow> pc_notifyEvent E m c fs = Some (False, [], fs)"
  using notify_is_deliver [of c E m fs] checkRegister_client [OF assms] assms
  by (auto simp: deliver_def client_ok_def split: if_splits)

lemma notify_conns_clients:
  assumes "\<forall>c \<in> set cs. client_ok c" and "push_of (pe_junk E) m = Some (n, k, ps)" and "length (push_line ps) < max_buffer"
  shows "notify_conns E m cs fs = Some (map (\<lambda>c. (pc_fd c, push_line ps)) (filter (has_registered n) cs), fs)"
  using assms(1)
proof (induction cs)
  case (Cons c cs)
  then obtain b where "pc_notifyEvent E m c fs = Some (b, if has_registered n c then [(pc_fd c, push_line ps)] else [], fs)"
    using pc_notify_client(1) [OF _ assms(2,3), of c fs] by auto
  with Cons show ?case by simp
qed simp

lemma notify_conns_none:
  "\<forall>c \<in> set cs. client_ok c \<Longrightarrow> push_of (pe_junk E) m = None \<Longrightarrow> notify_conns E m cs fs = Some ([], fs)"
  by (induction cs) (simp_all add: pc_notify_client(2))

lemma pc_notify_log:
  assumes "pc_logfile c \<noteq> ''''" and "pc_logpush c \<noteq> ''''"
  shows "push_of (pe_junk E) m = Some (n, k, ps) \<Longrightarrow>
      \<exists>b. pc_notifyEvent E m c fs = Some (b, [], log_line E (m_getString m ''class'') k (push_line ps) c fs)"
    and "push_of (pe_junk E) m = None \<Longrightarrow> pc_notifyEvent E m c fs = Some (False, [], fs)"
  using notify_is_deliver [of c E m fs] assms
  by (auto simp: deliver_def log_line_def Let_def split: if_splits)

text \<open>C26: after any history of connections, rounds and messages, an event is written as one line to exactly the
  connected clients that have registered its name, in the order in which they connected, and to the two logs as far as
  they ask for it; nothing else changes.\<close>

theorem push_delivery:
  assumes "pt_new u t f E params nparams fs0 = Some (T0, fs1, es)" and "push_run E ss T0 fs1 = Some (T, fs)"
    and "push_of (pe_junk E) m = Some (n, k, ps)" and "length (push_line ps) < max_buffer"
  shows "pt_signal E m T fs =
    Some (map (\<lambda>c. (pc_fd c, push_line ps)) (filter (has_registered n) (pt_conns T)),
          log_line E (m_getString m ''class'') k (push_line ps) (pt_log T) fs)"
proof -
  have ok: "pt_ok T" using push_run_ok [OF assms(2)] pt_new_ok [OF assms(1)] by blast
  have "mtype m = ''logcmd''" "msubtype m = ''archive''"
    using assms(3) by (auto simp: push_of_def Let_def split: if_splits)
  moreover obtain b where "pc_notifyEvent E m (pt_log T) fs = Some (b, [], log_line E (m_getString m ''class'') k (push_line ps) (pt_log T) fs)"
    using pc_notify_log(1) [of "pt_log T" E m n k ps fs] ok assms(3) by (auto simp: pt_ok_def)
  ultimately show ?thesis
    using notify_conns_clients [OF _ assms(3,4)] ok by (simp add: pt_signal_def pt_notifyEvent_def pt_ok_def)
qed

subsection \<open>Witnesses and what the service does otherwise\<close>

text \<open>An environment in which a write succeeds on every descriptor but 9, and a registration is one for a light.\<close>

definition push_example_env :: push_env where
  "push_example_env = \<lparr>pe_home = ''/h'', pe_stamp = ''240102030405'', pe_write = (\<lambda>fd x. if fd = 9 then -1 else 1),
     pe_json = (\<lambda>x. Some (JNode '''' '''' [JNode ''devices'' '''' [JNode '''' '''' [JNode ''name'' ''LI_a'' []]]])), pe_junk = 0\<rparr>"

definition push_example_conn :: "int \<Rightarrow> push_conn" where
  "push_example_conn fd = \<lparr>pc_logfile = '''', pc_logpush = '''', pc_logevents = [], pc_fd = fd, pc_events = [(''LI_a'', ''*'')],
     pc_mode = ''*'', pc_address = ''1'', pc_port = ''2'', pc_ttl = 1\<rparr>"

definition push_example_thread :: push_thread where
  "push_example_thread = \<lparr>pt_conns = [push_example_conn 4, push_example_conn 5, push_example_conn 9], pt_log = push_example_conn 0,
     pt_maxttl = 1, pt_pollperiod = 1, pt_port = ''80'', pt_page = m_default\<rparr>"

abbreviation push_example_read :: "int \<Rightarrow> read_step list" where
  "push_example_read fd \<equiv> (if fd = 4 then [Chunk (''IAA'' @ newline)] else [Silent])"

lemma push_clients_witness:
  "\<exists>T' ks. pt_polls push_example_env (replicate 3 (''now'', push_example_read)) push_example_thread = Some (T', ks) \<and>
    map pc_fd (pt_conns T') = [4] \<and> mset ks = {#5, 9#}"
proof -
  let ?live = "\<lambda>fd. fd = (4::int)"
  have t: "pt_maxttl push_example_thread = 1" "pt_conns push_example_thread = [push_example_conn 4, push_example_conn 5, push_example_conn 9]"
    "pc_fd (push_example_conn n) = n" "pc_ttl (push_example_conn n) = 1" for n
    by (simp_all add: push_example_thread_def push_example_conn_def)
  have a: "poll_answer push_example_env push_example_read 4 = Some True" "poll_answer push_example_env push_example_read 5 = Some False"
    "poll_answer push_example_env push_example_read 9 = Some False" by code_simp+
  then have "\<forall>r \<in> set (replicate 3 (''now'', push_example_read)). \<forall>c \<in> set (pt_conns push_example_thread).
      poll_answer push_example_env (snd r) (pc_fd c) = Some (?live (pc_fd c))"
    unfolding t(2) by (simp add: t(3))
  moreover have "1 \<le> pt_maxttl push_example_thread" "\<forall>c \<in> set (pt_conns push_example_thread). pc_ttl c \<le> pt_maxttl push_example_thread"
    unfolding t(1,2) by (simp_all add: t(4))
  moreover have "nat (pt_maxttl push_example_thread) + length (filter (\<lambda>c. \<not> ?live (pc_fd c)) (pt_conns push_example_thread))
      \<le> length (replicate 3 (''now'', push_example_read))"
    unfolding t(1,2) by (simp add: t(3))
  ultimately obtain T' ks where p: "pt_polls push_example_env (replicate 3 (''now'', push_example_read)) push_example_thread = Some (T', ks)"
      "map pc_fd (pt_conns T') = filter ?live (map pc_fd (pt_conns push_example_thread))"
      "mset ks = mset (filter (\<lambda>fd. \<not> ?live fd) (map pc_fd (pt_conns push_example_thread)))"
    using push_clients [of push_example_thread "replicate 3 (''now'', push_example_read)" push_example_env ?live] by blast
  have "map pc_fd (pt_conns T') = [4]" "mset ks = {#5, 9#}"
    unfolding p(2,3) t(2) by (simp_all add: t(3))
  with p(1) show ?thesis by (intro exI [of _ T'] exI [of _ ks] conjI)
qed

definition push_example_event :: mmessage where
  "push_example_event = m_add (m_add (m_add (m_new ''logcmd'' ''archive'') ''class'' ''event'') ''feature'' ''LI_a_state'') ''value'' ''ON+0''"

lemma push_delivery_witness:
  "\<exists>T0 fs1 es T fs. pt_new 0 0 0 push_example_env (mp_default\<lparr>attrs := [ma_new ''logfile'' ''generic'' ''ev'']\<rparr>) mp_default
      (DirNode [(''h'', DirNode [(''logs'', DirNode [])])]) = Some (T0, fs1, es)
    \<and> push_run push_example_env [Accept 0 ''now'' 4 1 2 [Chunk (''x'' @ newline)], Accept 0 ''now'' 5 1 3 [Silent],
         Round ''now'' (\<lambda>fd. [Chunk (''IAA'' @ newline)])] T0 fs1 = Some (T, fs)
    \<and> map_option fst (pt_signal push_example_env push_example_event T fs) =
        Some [(4, push_line [(''name'', ''LI_a''), (''status'', ''true+false'')])]"
proof -
  define params where "params = mp_default\<lparr>attrs := [ma_new ''logfile'' ''generic'' ''ev'']\<rparr>"
  define fs0 where "fs0 = DirNode [(''h'', DirNode [(''logs'', DirNode [])])]"
  define ss where "ss = [Accept 0 ''now'' 4 1 2 [Chunk (''x'' @ newline)], Accept 0 ''now'' 5 1 3 [Silent],
         Round ''now'' (\<lambda>fd. [Chunk (''IAA'' @ newline)])]"
  define final where "final = Option.bind (pt_new 0 0 0 push_example_env params mp_default fs0)
     (\<lambda>(T0, fs1, es). push_run push_example_env ss T0 fs1)"
  have "map_option (\<lambda>(T, fs). map pc_fd (filter (has_registered ''LI_a'') (pt_conns T))) final = Some [4]"
    unfolding final_def params_def fs0_def ss_def by code_simp
  then obtain T fs where f: "final = Some (T, fs)" "map pc_fd (filter (has_registered ''LI_a'') (pt_conns T)) = [4]" by auto
  then obtain T0 fs1 es where new: "pt_new 0 0 0 push_example_env params mp_default fs0 = Some (T0, fs1, es)"
    and run: "push_run push_example_env ss T0 fs1 = Some (T, fs)" by (auto simp: final_def bind_eq_Some_conv)
  have "push_of (pe_junk push_example_env) push_example_event = Some (''LI_a'', ''LI_a'', [(''name'', ''LI_a''), (''status'', ''true+false'')])"
    by code_simp
  moreover have "length (push_line [(''name'', ''LI_a''), (''status'', ''true+false'')]) < max_buffer"
    by (simp add: push_line_def json_pair_def max_buffer_def quote_def newline_def)
  ultimately have "map_option fst (pt_signal push_example_env push_example_event T fs) =
      Some (map (\<lambda>c. (pc_fd c, push_line [(''name'', ''LI_a''), (''status'', ''true+false'')])) (filter (has_registered ''LI_a'') (pt_conns T)))"
    using push_delivery [OF new run] by simp
  moreover have "map (\<lambda>c. (pc_fd c, x)) cs = map (\<lambda>fd. (fd, x)) (map pc_fd cs)" for cs and x :: string by simp
  ultimately have "map_option fst (pt_signal push_example_env push_example_event T fs) =
      Some (map (\<lambda>fd. (fd, push_line [(''name'', ''LI_a''), (''status'', ''true+false'')])) [4])" unfolding f(2) [symmetric] by (simp add: comp_def)
  then have "map_option fst (pt_signal push_example_env push_example_event T fs) =
      Some [(4, push_line [(''name'', ''LI_a''), (''status'', ''true+false'')])]" unfolding list.map .
  with new run show ?thesis unfolding params_def fs0_def ss_def by blast
qed

text \<open>What follows the end of a line in the same read is lost.\<close>

lemma second_line_lost: "getJsonMessage 4 [Chunk (''IAA'' @ newline @ ''IAA'' @ newline)] = Some (''IAA'', [])"
  by code_simp

text \<open>A feature of four parts is not refused: the last label of the switch is no default.\<close>

lemma four_parts_pass: "device_state u ''LI_a_b_state'' ''1'' = Some (Some (''LI_a'', ''1''))"
  by (simp add: device_state_def nl_init_def split_names.simps Let_def)

text \<open>A failed write of an alarm is reported as a success.\<close>

lemma failed_alarm_is_success:
  assumes "client_ok c" and "checkRegister (m_getString m ''agentname'') c" and "\<And>x. pe_write E (pc_fd c) x = -1"
    and "length (push_line [(''name'', m_getString m ''agentname''), (''alarm'', m_getString m ''feature''),
      (''source'', m_getString m ''source''), (''video'', m_getString m ''video'')]) < max_buffer"
  shows "map_option fst (notifyAlarm E m c fs) = Some True"
  using assms by (simp add: deliver_def client_ok_def notifyAlarm_def Let_def)

end
