(* ===== verification/Spec2Isabelle.thy ===== *)
theory Spec2Isabelle
  imports Trigger_Clock Rpc_Table Engines Calendar Timed_Rule Fsm_Device Timer_Device Io_Devices
    Math_Expression Power_Control Virtual_Devices Gpio_Channels Agent_Net Web_Service
    Archive_Purge Rest_Server Web_Logs Configurators Push_Service
begin

text \<open>
  HAT, a home automation system of communicating agents.

  \<^bold>\<open>The program.\<close> Every agent (a directory of \<^verbatim>\<open>src/agents\<close>) is one process built on
  the library \<^verbatim>\<open>src/agents/minilibs\<close>. Its threads exchange messages
  (\<^verbatim>\<open>MMessage\<close>) over a bus of subjects (\<^verbatim>\<open>SubjectSet\<close>): a thread registers as an
  observer of a type and a subtype, and a notification puts a copy of the message into the queue
  of every observer of that subject. A trigger thread sends periodic messages, a table of pending
  calls lets a request wait for the answer that another thread sends. On this library the agent
  \<^verbatim>\<open>Manager\<close> runs rules (events are counted, conditions hold, a rule fires and commands
  actions), follows a calendar of programs and runs timed rules; the agent \<^verbatim>\<open>BBDevices\<close> runs the
  devices: inputs, outputs, three-state outputs and devices described as state machines, with a timer
  for the waits they ask for; the agent \<^verbatim>\<open>PwrControl\<close> switches loads so that the measured power
  stays below a threshold; the agent \<^verbatim>\<open>WSServer\<close> serves the mobile application.

  \<^bold>\<open>Theories, in the order of the code.\<close>
  \<^item> \<open>Hat_Prelude\<close>: results, texts, list operations and the named collections the proofs share.
  \<^item> \<open>Std_Map\<close>: \<^verbatim>\<open>std::map\<close> as a list sorted by key, behind the locale \<open>std_map\<close>.
  \<^item> \<open>Name_List\<close> (\<^verbatim>\<open>namelist.cpp\<close>), \<open>Number_Text\<close> and \<open>Hsrv\<close>
    (\<^verbatim>\<open>hsrv.cpp\<close>): lists of names, the texts of numbers and times with the printf and scanf
    conversions the code uses, string services and the published index. \<open>Xml_Node\<close> is the tree
    that tinyxml builds, as the code reads it.
  \<^item> \<open>Message\<close> (\<^verbatim>\<open>MMessage.cpp\<close>), \<open>Params\<close> (\<^verbatim>\<open>Mattribute.cpp\<close>,
    \<^verbatim>\<open>template.h\<close>, \<^verbatim>\<open>agentlib.cpp\<close>): fields and lists of a message, their texts and
    decoders; the parameters of a component with load and save. Both satisfy the locale of a
    store of texts.
  \<^item> \<open>Message_Queue\<close> (\<^verbatim>\<open>MMessageQueue.h\<close>): the priority queue, locale \<open>priority_channel\<close>.
  \<^item> \<open>Subject_Bus\<close> (\<^verbatim>\<open>Subject.cpp\<close>, \<^verbatim>\<open>SubjectSet.cpp\<close>, \<^verbatim>\<open>Observer.cpp\<close>,
    \<^verbatim>\<open>ObserverThread.cpp\<close>): registration and delivery, locale \<open>observer_registry\<close>.
  \<^item> \<open>Rpc_Table\<close> (\<^verbatim>\<open>RpcWaitTable.cpp\<close>), \<open>Trigger_Clock\<close> (\<^verbatim>\<open>Trigger.cpp\<close>).
  \<^item> \<open>Event_Counter\<close> (\<^verbatim>\<open>eventcounter.cpp\<close>, \<^verbatim>\<open>eventcounterset.cpp\<close>,
    \<^verbatim>\<open>BooleanCondition.cpp\<close>, \<^verbatim>\<open>BooleanConditionSet.cpp\<close>), \<open>Rule_Base\<close>
    (\<^verbatim>\<open>rule.cpp\<close>, \<^verbatim>\<open>ruleset.cpp\<close>), \<open>Engines\<close> (\<^verbatim>\<open>action.cpp\<close>,
    \<^verbatim>\<open>actionset.cpp\<close>, \<^verbatim>\<open>RuleEngine.cpp\<close>, \<^verbatim>\<open>ActionEngine.cpp\<close>).
  \<^item> \<open>File_Store\<close> (\<^verbatim>\<open>filemanager.cpp\<close>), \<open>Calendar\<close> (\<^verbatim>\<open>period.cpp\<close>,
    \<^verbatim>\<open>dayprogram.cpp\<close>, \<^verbatim>\<open>program.cpp\<close>, \<^verbatim>\<open>ProgramEngine.cpp\<close>): files as a map from paths
    to contents, programs, the selection of the day entry, and the engine that announces the active
    alarms; \<open>Timed_Rule\<close> (\<^verbatim>\<open>timedrule.cpp\<close>, \<^verbatim>\<open>timedruleset.cpp\<close>,
    \<^verbatim>\<open>TimedRuleEngine.cpp\<close>).
  \<^item> \<open>Math_Expression\<close> (\<^verbatim>\<open>mathexpression.cpp\<close>), \<open>Power_Control\<close>
    (\<^verbatim>\<open>Control.cpp\<close>, \<^verbatim>\<open>ControlSet.cpp\<close>, \<^verbatim>\<open>SensorSet.cpp\<close>, \<^verbatim>\<open>Scheduler.cpp\<close>,
    \<^verbatim>\<open>Controller.cpp\<close>).
  \<^item> \<open>Effects\<close>: what a handler does to the rest of its agent, and the locale \<open>device\<close>.
  \<^item> \<open>Fsm_Device\<close> (\<^verbatim>\<open>FSMDevice.cpp\<close>), \<open>Timer_Device\<close> (\<^verbatim>\<open>Timer.cpp\<close>),
    \<open>Io_Devices\<close> (\<^verbatim>\<open>BinaryInput.cpp\<close>, \<^verbatim>\<open>BinaryOutput.cpp\<close>,
    \<^verbatim>\<open>TriStateOutput.cpp\<close>, \<^verbatim>\<open>RawInput.cpp\<close>, \<^verbatim>\<open>RawOutput.cpp\<close>), \<open>Meter_Devices\<close>
    (\<^verbatim>\<open>ElectricMeter.cpp\<close>, \<^verbatim>\<open>AnalogInput.cpp\<close>, \<^verbatim>\<open>Pwm.cpp\<close>, \<^verbatim>\<open>RGBPwm.cpp\<close>).
  \<^item> \<open>Device_Config\<close> and \<open>Virtual_Devices\<close> (\<^verbatim>\<open>VirtualDevices.cpp\<close>): the configuration of a
    device from a template, and the thread that owns the devices, which are reached through maps of
    pointers into a heap. \<open>Gpio_Channels\<close> (\<^verbatim>\<open>Gpio.cpp\<close>, \<^verbatim>\<open>GPIOThread.cpp\<close>): the
    inputs, outputs, dimmers and probes of the hardware. This theory joins the two threads.
  \<^item> \<open>Agent_Conf\<close> (\<^verbatim>\<open>agentlib.cpp\<close>): the requests an agent answers, its status, pages and
    uploaded files. \<open>Agent_Net\<close> (\<^verbatim>\<open>agentnet.cpp\<close>, \<^verbatim>\<open>MRemoteAgent.cpp\<close>,
    \<^verbatim>\<open>ObserverTCP.cpp\<close>): announcements, the table of the other agents, their observers on the bus,
    and agents that share a name.
  \<^item> \<open>File_Tree\<close> (\<^verbatim>\<open>filemanager.cpp\<close>): the directories and files below the home directory, behind
    the locale \<open>text_files\<close>. \<open>Archive_Store\<close>, \<open>Archive_Purge\<close> and \<open>Archive_Reports\<close>
    (\<^verbatim>\<open>ArchiveManager.cpp\<close>, \<^verbatim>\<open>PMStat.h\<close>): the archive of records in it, the end of the day and the
    queries. \<open>Rest_Server\<close> (\<^verbatim>\<open>Route.cpp\<close>, \<^verbatim>\<open>ArchiveRoute.cpp\<close>, \<^verbatim>\<open>CmdRoute.cpp\<close>,
    \<^verbatim>\<open>LoggerRoute.cpp\<close>, \<^verbatim>\<open>RestHttpServer.cpp\<close>): the requests that reach archive, bus and calls.
  \<^item> \<open>Web_Service\<close> (\<^verbatim>\<open>TransTab.cpp\<close>, \<^verbatim>\<open>NameTable.cpp\<close>, \<^verbatim>\<open>DeviceManager.cpp\<close>): the agent
    behind the mobile application, which finds the agent of a device and translates calls.
    \<open>Web_Users\<close> (\<^verbatim>\<open>JParser.cpp\<close>, \<^verbatim>\<open>User.cpp\<close>, \<^verbatim>\<open>AuthManager.cpp\<close> and its parts): the users,
    their passwords and capabilities. \<open>Web_Alarms\<close> (\<^verbatim>\<open>AlarmManager.cpp\<close> and its parts): schedules,
    zones, execution queues and manual commands of the alarm system. \<open>Web_Managers\<close>
    (\<^verbatim>\<open>AutomatismManager.cpp\<close>, \<^verbatim>\<open>PwrManager.cpp\<close>, \<^verbatim>\<open>SrvManager.cpp\<close>, \<^verbatim>\<open>LogManager.cpp\<close>,
    \<^verbatim>\<open>Translator.cpp\<close>, \<^verbatim>\<open>ConfManager.cpp\<close>, \<^verbatim>\<open>GuiLib.cpp\<close>, \<^verbatim>\<open>RpcServer.cpp\<close>): the other managers
    and the dispatch of a call. \<open>Web_Logs\<close> (\<^verbatim>\<open>Receiver.cpp\<close>, \<^verbatim>\<open>ArchiveThread.cpp\<close>,
    \<^verbatim>\<open>UserLog.cpp\<close>, \<^verbatim>\<open>RemoteServerThread.cpp\<close>): the threads that keep the log;
    \<open>Push_Service\<close> (\<^verbatim>\<open>PushThread.cpp\<close>, \<^verbatim>\<open>PushConnection.cpp\<close>): the clients that get events
    over a socket.
  \<^item> \<open>Net_Devices\<close> (\<^verbatim>\<open>Automaton.cpp\<close>, \<^verbatim>\<open>Component.cpp\<close>, \<^verbatim>\<open>Device.cpp\<close> of
    \<^verbatim>\<open>NetDevices\<close>): devices made of channels of other agents. \<open>Configurators\<close>
    (\<^verbatim>\<open>NameService.cpp\<close>, \<^verbatim>\<open>Configurator.cpp\<close> of \<^verbatim>\<open>Manager\<close>, \<^verbatim>\<open>Player\<close>,
    \<^verbatim>\<open>NetDevices\<close> and \<^verbatim>\<open>MiniWWW\<close>): the handlers that write the configuration.

  \<^bold>\<open>Conventions of the model.\<close> A class is a record, one function per method; state is passed
  explicitly and returned. Effects on the rest of the agent are a list, in the order of the code.
  Readings of the clock, contents of files and values of uninitialised members and locals are
  arguments. A C++ \<^verbatim>\<open>double\<close> is a rational number: rounding of floating point is not modelled,
  the rounding of the printf conversion is. The dereference of a null or past-the-end pointer is the
  result \<open>None\<close>, and so is a receive on an empty queue, which blocks in the code. A thread is
  one iteration of its loop on one message; runs are lists of messages. The parser of tinyxml
  (\<open>parse\<close>), the power function of the mathematical library (\<open>pw\<close>) and the answers of other
  agents (\<open>net\<close>) are parameters; nothing is assumed of them, except that the parser finds an
  element in what the code encodes and in a well-formed announcement (\<open>xml_ok\<close>). So are the
  calendar and the JSON reader of boost (\<open>daynum\<close>, \<open>read_json\<close>) and the regular expressions of the
  C library; the purge assumes that the calendar knows the dates of the instances and that no record
  names an instance as its media file.

  \<^bold>\<open>What the lemmas show.\<close> Messages, parameters and their texts round trip; the queue delivers by
  priority and order of arrival; a registered observer gets every message of its subject exactly
  once and the bus never meets a null pointer as long as observers are removed by pointer; a remote
  call gets exactly its answer or a time-out; the clock fires with its periods; counters do not
  depend on how often they are polled; a rule respects its latency and fires at edges; an event
  that makes a rule fire leads to exactly the admitted actions; a device described as a state
  machine is a refinement of the abstract machine of its description and never leaves its table;
  a wait ends on time and once; the relays of a three-state output are never both on; a meter accounts
  for every pulse; the description of a new device is its template with the holes filled; the agent of
  the devices handles every message without losing a device, and an output with a duration goes through
  agent and timer back to its default on time; a command reaches the channel of the hardware and an edge
  of an input becomes one event; an input respects its dead time, an output survives a restart and every
  probe gets its turn; a call of the application becomes one request to the agent that the table of
  names gives, and that table reads what the agents publish; an agent that announces itself gets the
  events it observes until it has been silent for the validity time, and of two agents with one name
  one is silent while the other is heard; an uploaded file is the text that was sent, and the status
  of an agent survives a restart; a resource of the archive is the log of what was written to it, a
  request writes only where the rules of its root admit it, the purge keeps exactly the instances
  within the window of their root, and a query returns exactly the records of its window; a REST
  command that waits responds with the answer of its device, and a state that was put is the state
  that is reported; a password is checked against the first user who has it and the capability; a schedule
  of the alarm system becomes one program and is read back, and the program of the zones names every chosen
  sensor and action once; the files of the log hold exactly the records of the events, a phone gets the
  records since its last visit, the text of a record is its template with the values filled in, and a
  call of the application changes only what belongs to its manager; the codes of a cyclic device are a
  Gray code, a network device goes through them one message after the other, and network devices take
  turns to ask their agents; the push service keeps exactly the clients that answer its polls and sends an
  event to exactly those that have registered for it; the alarms of a
  program are those its document prescribes and the rule engine follows what the program engine
  announces; a timed rule acts exactly at the edges of its window; the parser and evaluator of
  expressions compute the value of the expression tree; the scheduler of the power control sheds the
  least important load, never starts one that exceeds the threshold and does not switch a load twice
  within its latency. Several theorems state where the code departs from its purpose: list fields of decoded messages are lost,
  a replacement loop that diverges, periods below a second that stall the clock, a reset that never
  stops a wait, a second rule that overwrites the alarm of the first, calendar entries that are never
  used, windows across midnight that never open, short pulses that leave an input out of step, an empty
  operand after a closing parenthesis, announcements whose changed lists are ignored, packets that
  end the receiver, records that are acknowledged and lost, addresses that leave the archive,
  failures that are reported as successes, a list of users that deletes the users it names and
  execution queues that only switch off,
  rules that lose their names, records that fall between two visits and a remote server whose refusals
  count as successes.

  \<^bold>\<open>Bounds and fuel.\<close> All functions are total. The only loops of the code that may not end are
  the replacement loop of \<^verbatim>\<open>strReplace\<close>, a partial function that is \<open>None\<close> where it
  diverges, and Euclid's loop, which is proved to end for a non-zero divisor. The loop that removes
  comments from a template is proved to end.

  \<^bold>\<open>Not modelled.\<close> Third-party code (tinyxml, libjson, the HTTP server), sockets, ciphers,
  the text log of an agent, start-up code; of the virtual devices, the copies of raw channels made
  through the shell, which nothing calls; the MQTT clients, the older push threads of the agent logger,
  the watcher of directories of the motion detector, the older HTTP server and the programs of the power
  control, which no agent builds.
\<close>

section \<open>From a command to the hardware, and back\<close>

definition gt_feed :: "double \<Rightarrow> double \<Rightarrow> (string \<Rightarrow> bool) \<Rightarrow> mmessage list \<Rightarrow> gpio_thread \<Rightarrow> (gpio_thread \<times> effect list) option" where
  "gt_feed u1 u2 op ms t =
     foldl (\<lambda>x m. Option.bind x (\<lambda>(t, es). map_option (\<lambda>(t', fs). (t', es @ fs)) (gt_step u1 u2 op m t))) (Some (t, [])) ms"

lemma gt_step_other: "mtype m = ''event'' \<or> mtype m = ''wait'' \<Longrightarrow> gt_step u1 u2 op m t = Some (t, [])"
  by (auto simp: gt_step_def)

lemma write_first_none: "n \<notin> gp_name ` set gs \<Longrightarrow> write_first u1 u2 op n v gs = Some (gs, [])"
  by (induction gs) auto

lemma write_first_hit:
  "n \<notin> gp_name ` set pre \<Longrightarrow> gp_name g = n \<Longrightarrow> gp_setCurrentValue u1 u2 op v g = Some (b, g', es) \<Longrightarrow>
   write_first u1 u2 op n v (pre @ g # post) = Some (pre @ g' # post, es)"
  by (induction pre) auto

lemma relay_written:
  assumes "gpiotype g = ''booleanout''" and "v \<noteq> ''''" and "op (gpiovalue g)"
  obtains g' es where "gp_setCurrentValue u1 u2 op v g = Some (True, g', es)" "written es = [(gpiovalue g, set_level_text v)]"
proof -
  from assms have "\<exists>g' es. gp_setCurrentValue u1 u2 op v g = Some (True, g', es) \<and> written es = [(gpiovalue g, set_level_text v)]"
    by (simp add: gp_setCurrentValue_def get_and_set_value_def getpath_def gp_save_def Let_def)
  with that show ?thesis by blast
qed

lemma bo_execcmd_switch:
  assumes "msubtype msg = bo_name d" and "m_getString msg ''value'' = v" and "v \<noteq> bo_currentValue d"
    and "bo_execcmd now msg d = (b, d1, es)"
  shows "\<exists>ms. notified es = value_time ''devcmd'' (bo_out d) (remap (bo_params d) v) now # ms
    \<and> (\<forall>m \<in> set ms. mtype m = ''event'' \<or> mtype m = ''wait'')"
  using assms by (auto simp: bo_execcmd_def bo_switch_def bo_save_def bo_publish_def Let_def m_add_header)

lemma gt_feed_rest:
  "\<forall>m \<in> set ms. mtype m = ''event'' \<or> mtype m = ''wait'' \<Longrightarrow>
   foldl (\<lambda>x m. Option.bind x (\<lambda>(t, es). map_option (\<lambda>(t', fs). (t', es @ fs)) (gt_step u1 u2 op m t))) (Some (t, es)) ms = Some (t, es)"
  by (induction ms) (auto simp: gt_step_other)

text \<open>C8: a command reaches the relay. An agent that is told to change an output makes the thread of the
  channels write, to the file of the first channel of that name and to no other, the mapped value in the
  notation of the kernel.\<close>

theorem command_reaches_channel:
  assumes "sm_find (dev_by_name s) n = Some a" and "dev_heap s ! a = BinOut d" and "bo_name d = n"
    and "n \<notin> {''reset'', ''putConf'', ''devConfigure'', ''devDelete''}"
    and "mtype msg = ''cmd''" and "msubtype msg = n" and "m_getString msg ''value'' = v"
    and "v \<noteq> bo_currentValue d" and "remap (bo_params d) v \<noteq> ''''"
    and "gt_output t = pre @ g # post" and "gp_name g = bo_out d" and "bo_out d \<notin> gp_name ` set pre"
    and "bo_out d \<notin> gp_name ` set (gt_pwmout t)" and "gpiotype g = ''booleanout''" and "op (gpiovalue g)"
  shows "\<exists>s1 es t1 fs. vd_step r w msg s = Some (s1, es) \<and> gt_feed u1 u2 op (notified es) t = Some (t1, fs)
    \<and> written fs = [(gpiovalue g, let x = remap (bo_params d) v
        in if x \<in> {''ON'', ''on''} then ''1'' else if x \<in> {''OFF'', ''off''} then ''0'' else x)]"
proof -
  obtain b d1 es where c: "bo_execcmd (rd_now r) msg d = (b, d1, es)" by (rule prod_cases3)
  have step: "vd_step r w msg s = Some (s\<lparr>dev_heap := (dev_heap s)[a := BinOut d1]\<rparr>, es)"
    using assms(1,2,4-6) c by (subst vd_step_cmd [where a = a]) (simp_all add: on_device_def lift_dev_def)
  have "msubtype msg = bo_name d" using assms(3,6) by simp
  from bo_execcmd_switch [OF this assms(7,8) c] obtain ms where
    ms: "notified es = value_time ''devcmd'' (bo_out d) (remap (bo_params d) v) (rd_now r) # ms" "\<forall>m \<in> set ms. mtype m = ''event'' \<or> mtype m = ''wait''"
    by blast
  obtain g' fs where g': "gp_setCurrentValue u1 u2 op (remap (bo_params d) v) g = Some (True, g', fs)"
    "written fs = [(gpiovalue g, set_level_text (remap (bo_params d) v))]"
    by (rule relay_written [where op = op and g = g, OF assms(14,9,15)])
  let ?t1 = "t\<lparr>gt_output := pre @ g' # post, gt_pwmout := gt_pwmout t\<rparr>"
  have "gt_step u1 u2 op (value_time ''devcmd'' (bo_out d) (remap (bo_params d) v) (rd_now r)) t = Some (?t1, fs)"
    using write_first_hit [where n = "bo_out d" and post = post, OF assms(12,11) g'(1)]
    by (simp add: gt_step_def assms(10) write_first_none [OF assms(13)])
  then have "gt_feed u1 u2 op (notified es) t = Some (?t1, fs)"
    by (simp add: gt_feed_def ms(1) gt_feed_rest [OF ms(2)])
  with step g'(2) show ?thesis unfolding set_level_text_def Let_def insert_iff empty_iff simp_thms by blast
qed

definition relay_thread :: gpio_thread where
  "relay_thread = \<lparr>gt_input = [], gt_output = [gpio_new 0 relay_params], gt_pwmout = [], gt_onewire = [], probe_polling = mq_new_max 3\<rparr>"

theorem command_reaches_channel_witness:
  "\<exists>s1 es t1 fs. vd_step still closed_world (m_add (m_new ''cmd'' ''lamp'') ''value'' ''ON'') lamp_agent = Some (s1, es)
    \<and> gt_feed 0 0 (\<lambda>_. True) (notified es) relay_thread = Some (t1, fs) \<and> written fs = [(''/g1/value'', ''1'')]"
proof -
  let ?d = "fst (bo_new 0 lamp_params ''lamp'')" and ?m = "m_add (m_new ''cmd'' ''lamp'') ''value'' ''ON''" and ?g = "gpio_new 0 relay_params"
  have f: "bo_name ?d = ''lamp''" "bo_currentValue ?d = ''OFF''" "bo_out ?d = ''o1''" "remap (bo_params ?d) ''ON'' = ''ON''"
    "gp_name ?g = ''o1''" "gpiotype ?g = ''booleanout''" "gpiovalue ?g = ''/g1/value''" "m_getString ?m ''value'' = ''ON''" "mtype ?m = ''cmd''"
    "msubtype ?m = ''lamp''" "set_level_text ''ON'' = ''1''"
    by code_simp+
  have h: "sm_find (dev_by_name lamp_agent) ''lamp'' = Some 0" "dev_heap lamp_agent ! 0 = BinOut ?d" by (simp_all add: lamp_agent_fields)
  have t: "gt_output relay_thread = [] @ ?g # []" "gt_pwmout relay_thread = []" by (simp_all add: relay_thread_def)
  from command_reaches_channel [OF h f(1) _ f(9,10,8) _ _ t(1), of "\<lambda>_. True" still closed_world 0 0] show ?thesis by (simp add: f t)
qed

text \<open>C9: an edge of the hardware reaches the rules. An announced edge of an input channel is delivered to
  the device that listens to the channel, which sends exactly one event, with its name and the mapped
  value.\<close>

theorem edge_reaches_rules:
  assumes "0 < gp_wait_until g" and "gp_wait_until g \<le> tt" and "v = int2a (get_current_value b)" and "v \<noteq> gp_currentValue g"
    and "sm_find (dev_by_io s) (gp_name g) = Some a" and "dev_heap s ! a = BinIn d" and "bi_in d = gp_name g"
    and "mp_get (bi_params d) ''status'' \<noteq> ''OFF''" and "bi_delay d \<in> {'''', ''0''}" and "remap (bi_params d) v \<noteq> bi_currentValue d"
  shows "\<exists>m s1 es. notified (snd (input_edge tt b g)) = [m] \<and> vd_step r w m s = Some (s1, es)
    \<and> notified es = [value_time ''event'' (bi_name d) (remap (bi_params d) v) (rd_now r)]"
proof -
  let ?m = "input_message tt v g"
  have n: "notified (snd (input_edge tt b g)) = [?m]" using assms(1-4) by (simp add: input_edge_def Let_def)
  have cnt: "sm_count (dev_by_io s) (gp_name g) > 0" by (simp add: sm_count_def assms(5) del: sm_count_pos)
  let ?m' = "?m\<lparr>msubtype := gp_name g\<rparr>"
  have f: "mtype ?m' = ''local_event''" "msubtype ?m' = gp_name g" "m_getString ?m' ''value'' = v"
    using input_message_fields(3) [of tt v g] by (simp, simp, simp add: m_getString_def del: input_message_fields)
  obtain b1 d1 es where u: "bi_execcmd (rd_ub r) (rd_now r) (rd_stamp r) ?m' d = (b1, d1, es)" by (rule prod_cases3)
  then have es: "notified es = [value_time ''event'' (bi_name d) (remap (bi_params d) v) (rd_now r)]"
    using assms(7-10) f by (auto simp: bi_execcmd_def bi_update_def bi_publish_def Let_def)
  have "vd_step r w ?m s = map_option snd (vd_update r ?m s)" unfolding vd_step_def Let_def by simp
  also have "\<dots> = Some (s\<lparr>dev_heap := (dev_heap s)[a := BinIn d1]\<rparr>, es)"
    using cnt assms(5,6) u by (simp add: vd_update_def execLocalEvent_def exec_at_def on_device_def lift_dev_def del: sm_count_pos)
  finally show ?thesis using n es by blast
qed

definition switch_params :: mparams where
  "switch_params = mp_add_cat (mp_add (mp_new ''conf'' ''home'' ''sw'') ''default'' ''0'') ''input'' ''input'' ''B1''"

definition switch_agent :: vrt_devices where
  "switch_agent = register_device (BinIn (fst (bi_new 0 switch_params ''sw''))) (vd_empty ''a'' 0 (\<lambda>_. None))"

theorem edge_reaches_rules_witness:
  "\<exists>m s1 es. notified (snd (input_edge 2 (Some ''1'') button)) = [m] \<and> vd_step still closed_world m switch_agent = Some (s1, es)
    \<and> notified es = [value_time ''event'' ''sw'' ''1'' 0]"
proof -
  let ?d = "fst (bi_new 0 switch_params ''sw'')"
  have f: "bi_name ?d = ''sw''" "bi_in ?d = ''B1''" "bi_currentValue ?d = ''0''" "bi_delay ?d = ''0''" "mp_get (bi_params ?d) ''status'' = ''''"
    "remap (bi_params ?d) ''1'' = ''1''" "gp_name button = ''B1''" "int2a (get_current_value (Some ''1'')) = ''1''" "rd_now still = 0"
    by code_simp+
  have h: "sm_find (dev_by_io switch_agent) ''B1'' = Some 0" by code_simp
  have "dev_heap switch_agent ! 0 = BinIn ?d" by (simp add: switch_agent_def register_device_def vd_empty_def Let_def)
  from edge_reaches_rules [of button 2 "''1''" "Some ''1''" switch_agent, OF _ _ _ _ _ this, of still closed_world] h show ?thesis
    by (simp add: f button_fields)
qed

end
